(* ===== verification/Prelude.thy ===== *)
theory Prelude
  imports Complex_Main "HOL-Library.AList"
begin

text \<open>
  Vocabulary shared by every component of the development: the JavaScript values and
  containers the TypeScript sources use, decimal printing of numbers in template strings,
  and the two interfaces (keyed stores and transition tables) that the components provide.

  A JavaScript \<open>Map\<close> is an association list in insertion order: \<open>set\<close> on a
  present key replaces the value in place, on a new key it appends, \<open>delete\<close> removes
  the entry; this is \<open>AList.update\<close> and \<open>AList.delete\<close>. A JavaScript
  \<open>Set\<close> of which only membership matters is a HOL set. Instants are milliseconds
  since the epoch, as integers; the ISO strings the sources store denote such an instant.
\<close>

named_theorems tables \<open>the transition tables and their membership facts\<close>
named_theorems store_laws \<open>how lookups see updates of a keyed store\<close>

subsection \<open>Values of type unknown\<close>

datatype jsval =
    JUndefined
  | JNull
  | JBool bool
  | JNaN
  | JNum rat
  | JStr string
  | JFun
  | JArr "jsval list"
  | JObj "(string \<times> jsval) list"

type_synonym instant = int
type_synonym ('k, 'v) jmap = "('k \<times> 'v) list"

abbreviation jm_get :: "('k, 'v) jmap \<Rightarrow> 'k \<Rightarrow> 'v option" where
  "jm_get \<equiv> map_of"

abbreviation jm_set :: "'k \<Rightarrow> 'v \<Rightarrow> ('k, 'v) jmap \<Rightarrow> ('k, 'v) jmap" where
  "jm_set \<equiv> AList.update"

abbreviation jm_delete :: "'k \<Rightarrow> ('k, 'v) jmap \<Rightarrow> ('k, 'v) jmap" where
  "jm_delete \<equiv> AList.delete"

abbreviation jm_keys :: "('k, 'v) jmap \<Rightarrow> 'k list" where
  "jm_keys \<equiv> map fst"

abbreviation jm_values :: "('k, 'v) jmap \<Rightarrow> 'v list" where
  "jm_values \<equiv> map snd"

definition jm_has :: "('k, 'v) jmap \<Rightarrow> 'k \<Rightarrow> bool" where
  "jm_has m k \<longleftrightarrow> jm_get m k \<noteq> None"

abbreviation wf_jmap :: "('k, 'v) jmap \<Rightarrow> bool" where
  "wf_jmap m \<equiv> distinct (map fst m)"

lemma jm_has_iff: "jm_has m k \<longleftrightarrow> k \<in> set (jm_keys m)"
  by (simp add: jm_has_def map_of_eq_None_iff)

lemma jm_has_set [simp]: "jm_has (jm_set k v m) k' \<longleftrightarrow> k' = k \<or> jm_has m k'"
  by (auto simp: jm_has_def update_conv)

lemma jm_get_set: "jm_get (jm_set k v m) k' = (if k' = k then Some v else jm_get m k')"
  by (simp add: update_conv)

lemma jm_get_set_same [simp]: "jm_get (jm_set k v m) k = Some v"
  by (simp add: jm_get_set)

lemma jm_get_set_other [simp]: "k' \<noteq> k \<Longrightarrow> jm_get (jm_set k v m) k' = jm_get m k'"
  by (simp add: jm_get_set)

lemma jm_get_delete: "jm_get (jm_delete k m) k' = (if k' = k then None else jm_get m k')"
  by (simp add: delete_conv)

lemma jm_keys_set: "jm_keys (jm_set k v m) = (if jm_has m k then jm_keys m else jm_keys m @ [k])"
  by (simp add: update_keys jm_has_iff)

lemma wf_jmap_set [simp]: "wf_jmap m \<Longrightarrow> wf_jmap (jm_set k v m)"
  by (rule distinct_update)

lemma wf_jmap_delete [simp]: "wf_jmap m \<Longrightarrow> wf_jmap (jm_delete k m)"
  by (rule distinct_delete)

lemma jm_set_fresh: "\<not> jm_has m k \<Longrightarrow> jm_set k v m = m @ [(k, v)]"
  by (induction m) (auto simp: jm_has_iff)

lemma set_jm_set: "set (jm_set k v m) \<subseteq> insert (k, v) (set m)"
  by (induction m) auto

lemma jm_values_delete_absent: "\<not> jm_has m k \<Longrightarrow> jm_delete k m = m"
  by (simp add: jm_has_iff delete_idem)

text \<open>Summing a measure over the values: what \<open>set\<close> on one key changes.\<close>

lemma sum_list_jm_set:
  fixes f :: "'v \<Rightarrow> nat"
  assumes "wf_jmap m"
  shows "sum_list (map f (jm_values (jm_set k v m))) +
      (case jm_get m k of None \<Rightarrow> 0 | Some w \<Rightarrow> f w) =
    sum_list (map f (jm_values m)) + f v"
  using assms
proof (induction m)
  case Nil
  then show ?case by simp
next
  case (Cons p m)
  show ?case
  proof (cases "fst p = k")
    case True
    then show ?thesis by (cases p) simp
  next
    case False
    with Cons show ?thesis by (cases p) (simp split: option.splits)
  qed
qed

subsection \<open>Defaults\<close>

text \<open>The operator \<open>??\<close>, and a member of a spread object that may be absent.\<close>

definition override :: "'a \<Rightarrow> 'a option \<Rightarrow> 'a" where
  "override d o' = (case o' of None \<Rightarrow> d | Some x \<Rightarrow> x)"

lemma override_simps [simp]: "override d None = d" "override d (Some x) = x"
  by (simp_all add: override_def)

subsection \<open>Template strings\<close>

definition digit :: "nat \<Rightarrow> char" where
  "digit d = char_of (48 + d)"

fun nat_str :: "nat \<Rightarrow> string" where
  "nat_str n = (if n < 10 then [digit n] else nat_str (n div 10) @ [digit (n mod 10)])"

declare nat_str.simps [simp del]

definition int_str :: "int \<Rightarrow> string" where
  "int_str i = (if i < 0 then ''-'' @ nat_str (nat (- i)) else nat_str (nat i))"

definition digits_val :: "string \<Rightarrow> nat" where
  "digits_val s = foldl (\<lambda>a c. 10 * a + (of_char c - 48)) 0 s"

lemma of_char_digit [simp]: "d < 10 \<Longrightarrow> of_char (digit d) = (48 + d :: nat)"
  by (simp add: digit_def)

lemma digits_val_snoc: "digits_val (s @ [c]) = 10 * digits_val s + (of_char c - 48)"
  by (simp add: digits_val_def)

lemma digits_val_nat_str: "digits_val (nat_str n) = n"
proof (induction n rule: nat_str.induct)
  case (1 n)
  show ?case
  proof (cases "n < 10")
    case True
    then show ?thesis by (subst nat_str.simps) (simp add: digits_val_def)
  next
    case False
    with "1.IH" have "digits_val (nat_str (n div 10)) = n div 10" by simp
    with False show ?thesis by (subst nat_str.simps) (simp add: digits_val_snoc)
  qed
qed

lemma nat_str_inject [simp]: "nat_str m = nat_str n \<longleftrightarrow> m = n"
  by (metis digits_val_nat_str)

lemma nat_str_nonempty [simp]: "nat_str n \<noteq> []"
  by (subst nat_str.simps) simp

lemma nat_str_digits: "c \<in> set (nat_str n) \<Longrightarrow> \<exists>d < 10. c = digit d"
proof (induction n rule: nat_str.induct)
  case (1 n)
  show ?case
  proof (cases "n < 10")
    case True
    with "1.prems" show ?thesis by (subst (asm) nat_str.simps) auto
  next
    case False
    from "1.prems" False have "c \<in> set (nat_str (n div 10)) \<or> c = digit (n mod 10)"
      by (subst (asm) nat_str.simps) auto
    moreover have "n mod 10 < 10" by simp
    ultimately show ?thesis using "1.IH" False by blast
  qed
qed

lemma underscore_notin_nat_str [simp]: "CHR ''_'' \<notin> set (nat_str n)"
proof
  assume "CHR ''_'' \<in> set (nat_str n)"
  then obtain d where "d < 10" and "CHR ''_'' = digit d" by (auto dest: nat_str_digits)
  then have "(of_char (CHR ''_'') :: nat) = 48 + d" by simp
  with \<open>d < 10\<close> show False by simp
qed

text \<open>\<open>join\<close> of an array of strings, and a quoted insertion of a template string.\<close>

fun join :: "string \<Rightarrow> string list \<Rightarrow> string" where
  "join sep [] = ''''"
| "join sep [x] = x"
| "join sep (x # y # xs) = x @ sep @ join sep (y # xs)"

definition quoted :: "string \<Rightarrow> string" where
  "quoted s = [CHR 0x22] @ s @ [CHR 0x22]"

lemma quoted_nonempty [simp]: "quoted s \<noteq> []"
  by (simp add: quoted_def)

subsection \<open>Validation reports\<close>

text \<open>The object with the two members \<open>valid\<close> and \<open>errors\<close> that every validator builds.\<close>

record validation =
  valid :: bool
  errors :: "string list"

definition report :: "string list \<Rightarrow> validation" where
  "report es = \<lparr>valid = (es = []), errors = es\<rparr>"

lemma report_simps [simp]: "valid (report es) \<longleftrightarrow> es = []" "errors (report es) = es"
  by (simp_all add: report_def)

lemma concat_map_Nil: "concat (map f xs) = [] \<longleftrightarrow> (\<forall>x \<in> set xs. f x = [])"
  by auto

lemma concat_if_Nil:
  "concat (map (\<lambda>x. if P x then [f x] else []) xs) = [] \<longleftrightarrow> (\<forall>x \<in> set xs. \<not> P x)"
  by (induction xs) auto

lemma if_Nil_iff [simp]: "((if b then [x] else []) = []) \<longleftrightarrow> \<not> b"
  by simp

subsection \<open>Interface: keyed stores\<close>

text \<open>
  What the registries, the history and the retry manager rely on from their \<open>Map\<close>:
  a lookup sees the last write of its key and nothing else.
\<close>

locale keyed_store =
  fixes wf :: "'m \<Rightarrow> bool"
    and emp :: 'm
    and get :: "'m \<Rightarrow> 'k \<Rightarrow> 'v option"
    and put :: "'k \<Rightarrow> 'v \<Rightarrow> 'm \<Rightarrow> 'm"
    and del :: "'k \<Rightarrow> 'm \<Rightarrow> 'm"
  assumes wf_emp: "wf emp"
    and wf_put: "wf m \<Longrightarrow> wf (put k v m)"
    and wf_del: "wf m \<Longrightarrow> wf (del k m)"
    and get_emp: "get emp k = None"
    and get_put: "get (put k v m) k' = (if k' = k then Some v else get m k')"
    and get_del: "get (del k m) k' = (if k' = k then None else get m k')"
begin

lemma get_put_same [store_laws]: "get (put k v m) k = Some v"
  by (simp add: get_put)

lemma get_put_other [store_laws]: "k' \<noteq> k \<Longrightarrow> get (put k v m) k' = get m k'"
  by (simp add: get_put)

lemma get_del_same [store_laws]: "get (del k m) k = None"
  by (simp add: get_del)

lemma put_shadows: "get (put k v (put k w m)) = get (put k v m)"
  by (rule ext) (simp add: get_put)

lemma del_put: "get (del k (put k v m)) = get (del k m)"
  by (rule ext) (simp add: get_put get_del)

lemma put_commute: "k \<noteq> k' \<Longrightarrow> get (put k v (put k' v' m)) = get (put k' v' (put k v m))"
  by (rule ext) (simp add: get_put)

lemma fold_put_lookup:
  "get (fold (\<lambda>(k, v). put k v) kvs m) k =
    (case map_of (rev kvs) k of None \<Rightarrow> get m k | Some v \<Rightarrow> Some v)"
  by (induction kvs arbitrary: m) (auto simp: get_put map_add_Some_iff map_add_def split: option.splits)

end

interpretation jm: keyed_store wf_jmap "[]" jm_get jm_set jm_delete
  by unfold_locales (auto simp: jm_get_set jm_get_delete)

subsection \<open>Interface: transition tables\<close>

text \<open>
  The lifecycle components keep a status and a table of the statuses it may move to; a
  transition that the table does not list is refused. \<open>run_table\<close> attempts a list of
  transitions and stops at the first refusal.
\<close>

fun run_table :: "('s \<Rightarrow> 's list) \<Rightarrow> 's \<Rightarrow> 's list \<Rightarrow> 's option" where
  "run_table allowed s [] = Some s"
| "run_table allowed s (t # ts) =
     (if t \<in> set (allowed s) then run_table allowed t ts else None)"

locale status_table =
  fixes allowed :: "'s \<Rightarrow> 's list"
    and terminal :: "'s \<Rightarrow> bool"
  assumes terminal_iff: "terminal s \<longleftrightarrow> allowed s = []"
begin

lemma terminal_stuck: "terminal s \<Longrightarrow> t \<notin> set (allowed s)"
  by (simp add: terminal_iff)

lemma terminal_run: "terminal s \<Longrightarrow> run_table allowed s ts = Some t \<Longrightarrow> ts = [] \<and> t = s"
  by (cases ts) (auto simp: terminal_iff)

lemma run_append:
  "run_table allowed s (ts @ us) =
    (case run_table allowed s ts of None \<Rightarrow> None | Some t \<Rightarrow> run_table allowed t us)"
  by (induction ts arbitrary: s) auto

lemma run_last: "run_table allowed s ts = Some t \<Longrightarrow> ts \<noteq> [] \<Longrightarrow> t = last ts"
  by (induction ts arbitrary: s) (auto split: if_splits)

lemma terminal_only_last:
  assumes "run_table allowed s ts = Some t" and "i + 1 < length ts"
  shows "\<not> terminal (ts ! i)"
  using assms
proof (induction ts arbitrary: s i)
  case Nil
  then show ?case by simp
next
  case (Cons u us)
  then have r: "run_table allowed u us = Some t" by (auto split: if_splits)
  show ?case
  proof (cases i)
    case 0
    with Cons.prems r terminal_run [of u us t] show ?thesis by auto
  next
    case (Suc j)
    with Cons.IH [OF r, of j] Cons.prems show ?thesis by simp
  qed
qed

end

text \<open>A table without cycles: a rank that every transition lowers bounds the length of runs.\<close>

locale ranked_table = status_table +
  fixes rank :: "'s \<Rightarrow> nat"
  assumes rank_decreases: "t \<in> set (allowed s) \<Longrightarrow> rank t < rank s"
begin

lemma run_length: "run_table allowed s ts = Some t \<Longrightarrow> length ts + rank t \<le> rank s"
proof (induction ts arbitrary: s)
  case Nil
  then show ?case by simp
next
  case (Cons u us)
  then have "u \<in> set (allowed s)" and "run_table allowed u us = Some t"
    by (auto split: if_splits)
  with Cons.IH [of u] rank_decreases [of u s] show ?case by simp
qed

lemma no_return: "run_table allowed s ts = Some t \<Longrightarrow> ts \<noteq> [] \<Longrightarrow> t \<noteq> s"
  using run_length [of s ts t] by (cases ts) auto

end

end
