(* ===== verification/ToolTypes.thy ===== *)
theory ToolTypes
  imports Prelude
begin

text \<open>
  The data of the tool-calling framework, packages/llm/src/tools/types.ts: parameter
  schemas, tool definitions, calls and results, the registry entry and the dashboard events.
  Optional members are options; an \<open>unknown\<close> value is a \<open>jsval\<close>. A tool's
  execution handler is code outside the repository: a registry entry holds a handler
  of a type parameter.
\<close>

datatype param_type = PString | PNumber | PBoolean | PArray | PObject

datatype tool_parameter_schema = ToolParameterSchema
  (tps_type: param_type)
  (tps_description: "string option")
  (tps_required: "bool option")
  (tps_default: "jsval option")
  (tps_enum: "jsval list option")
  (tps_items: "(string \<times> jsval) list option")
  (tps_properties: "(string \<times> tool_parameter_schema) list option")

record tool_parameter =
  tp_name :: string
  tp_type :: param_type
  tp_description :: "string option"
  tp_required :: "bool option"
  tp_default :: "jsval option"
  tp_enum :: "jsval list option"
  tp_items :: "(string \<times> jsval) list option"
  tp_properties :: "(string \<times> tool_parameter_schema) list option"

record tool_parameter_set =
  required_params :: "tool_parameter list option"
  optional_params :: "tool_parameter list option"

datatype tool_permission = Read | Write | Admin | Network

record tool_definition =
  td_id :: string
  td_name :: string
  td_description :: string
  td_pluginId :: string
  td_parameters :: tool_parameter_set
  td_returnType :: "string option"
  td_permissions :: "tool_permission list"
  td_timeoutMs :: "int option"
  td_enabled :: "bool option"

text \<open>The object of named arguments: its own keys in order, each with its value.\<close>

type_synonym arguments = "(string, jsval) jmap"

record tool_call =
  tc_id :: string
  tc_toolId :: string
  tc_arguments :: arguments

record tool_result =
  tr_callId :: string
  tr_toolId :: string
  tr_success :: bool
  tr_data :: "jsval option"
  tr_error :: "string option"
  tr_errorCode :: "string option"
  tr_durationMs :: int
  tr_timedOut :: "bool option"

record tool_execution_context =
  tec_call :: tool_call
  tec_definition :: tool_definition
  tec_userId :: "string option"
  tec_requestId :: "string option"
  tec_signal :: "bool option"

record 'h tool_registry_entry =
  tre_definition :: tool_definition
  tre_handler :: 'h

record tool_event_base =
  teb_toolId :: string
  teb_pluginId :: string
  teb_callId :: string
  teb_timestamp :: instant
  teb_requestId :: "string option"

datatype tool_event =
    ToolRequested tool_event_base arguments
  | ToolStarted tool_event_base
  | ToolCompleted tool_event_base int bool
  | ToolFailed tool_event_base int string "string option"

end
