(* ===== verification/PlanTypes.thy ===== *)
theory PlanTypes
  imports ToolTypes
begin

text \<open>
  The data of the planning engine, packages/llm/src/planning/types.ts: goals, steps,
  plans, requests and responses, and the planning events of the dashboard.
\<close>

datatype plan_status =
  Draft | Validated | Ready | Executing | PlanCompleted | PlanFailed | PlanCancelled

fun plan_status_str :: "plan_status \<Rightarrow> string" where
  "plan_status_str Draft = ''draft''"
| "plan_status_str Validated = ''validated''"
| "plan_status_str Ready = ''ready''"
| "plan_status_str Executing = ''executing''"
| "plan_status_str PlanCompleted = ''completed''"
| "plan_status_str PlanFailed = ''failed''"
| "plan_status_str PlanCancelled = ''cancelled''"

datatype plan_priority = LowPriority | MediumPriority | HighPriority | CriticalPriority

datatype complexity_level = Trivial | Simple | Moderate | Complex | VeryComplex

datatype risk_level = NoRisk | LowRisk | MediumRisk | HighRisk

datatype planning_strategy_type = Sequential | Parallel | Conditional

record plan_goal =
  pg_raw :: string
  pg_description :: string
  pg_objectives :: "string list"
  pg_successCriteria :: "string option"

datatype constraint_type = Resource | Time | Dependency | Security | Custom

record plan_constraint =
  pc_id :: string
  pc_description :: string
  pc_type :: constraint_type
  pc_value :: "string option"

record plan_step =
  ps_id :: string
  ps_title :: string
  ps_description :: string
  ps_tool :: "string option"
  ps_arguments :: "arguments option"
  ps_dependsOn :: "string list"
  ps_expectedResult :: string
  ps_status :: plan_status
  ps_metadata :: "(string, jsval) jmap option"

record plan_dependency =
  pd_from :: string
  pd_to :: string

record plan_result =
  pr_id :: string
  pr_goal :: plan_goal
  pr_strategy :: planning_strategy_type
  pr_steps :: "plan_step list"
  pr_dependencies :: "plan_dependency list"
  pr_requiredTools :: "string list"
  pr_expectedOutputs :: "string list"
  pr_complexity :: complexity_level
  pr_risk :: risk_level
  pr_constraints :: "plan_constraint list"
  pr_status :: plan_status
  pr_planningDurationMs :: int
  pr_reasoningSummary :: string

record planning_request =
  preq_goal :: string
  preq_availableTools :: "tool_definition list"
  preq_systemContext :: "string option"
  preq_availablePlugins :: "string list option"
  preq_preferredStrategy :: "planning_strategy_type option"
  preq_maxSteps :: "int option"
  preq_constraints :: "plan_constraint list option"
  preq_requestId :: "string option"

record planning_response =
  presp_plan :: "plan_result option"
  presp_error :: "string option"
  presp_errorCode :: "string option"
  presp_durationMs :: int
  presp_requestId :: "string option"

record planning_event_base =
  peb_planId :: string
  peb_timestamp :: instant
  peb_requestId :: "string option"

datatype planning_event =
    PlanningStarted planning_event_base string
  | PlanCreated planning_event_base nat planning_strategy_type complexity_level
  | PlanValidated planning_event_base bool "string list option"
  | PlanRejected planning_event_base string
  | PlanningCompleted planning_event_base int nat complexity_level
  | PlanningFailed planning_event_base string "string option" int


text \<open>
  The errors of the planning engine, packages/llm/src/planning/PlanningErrors.ts: one
  constructor per class with the arguments its constructor takes, its code and its message.
\<close>

datatype planning_error =
    PlanningFailedError string
  | InvalidGoalError string
  | NoToolsAvailableError
  | StrategyNotSupportedError string
  | MaxStepsExceededError int
  | PlanValidationError "string list"
  | CycleDetectedError "string list"
  | MissingDependencyError string string
  | DuplicateStepIdError string
  | EmptyPlanError
  | ToolNotFoundError string
  | InvalidDependencyError string string

fun planning_code :: "planning_error \<Rightarrow> string" where
  "planning_code (PlanningFailedError _) = ''PLANNING_FAILED''"
| "planning_code (InvalidGoalError _) = ''INVALID_GOAL''"
| "planning_code NoToolsAvailableError = ''NO_TOOLS_AVAILABLE''"
| "planning_code (StrategyNotSupportedError _) = ''STRATEGY_NOT_SUPPORTED''"
| "planning_code (MaxStepsExceededError _) = ''MAX_STEPS_EXCEEDED''"
| "planning_code (PlanValidationError _) = ''VALIDATION_FAILED''"
| "planning_code (CycleDetectedError _) = ''CYCLE_DETECTED''"
| "planning_code (MissingDependencyError _ _) = ''MISSING_DEPENDENCY''"
| "planning_code (DuplicateStepIdError _) = ''DUPLICATE_STEP_ID''"
| "planning_code EmptyPlanError = ''EMPTY_PLAN''"
| "planning_code (ToolNotFoundError _) = ''TOOL_NOT_FOUND''"
| "planning_code (InvalidDependencyError _ _) = ''INVALID_DEPENDENCY''"

fun planning_message :: "planning_error \<Rightarrow> string" where
  "planning_message (PlanningFailedError m) = m"
| "planning_message (InvalidGoalError m) = m"
| "planning_message NoToolsAvailableError = ''No tools are available for planning.''"
| "planning_message (StrategyNotSupportedError s) =
     ''Planning strategy '' @ quoted s @ '' is not supported.''"
| "planning_message (MaxStepsExceededError n) =
     ''Plan exceeds maximum allowed steps ('' @ int_str n @ '').''"
| "planning_message (PlanValidationError es) = ''Plan validation failed: '' @ join ''; '' es"
| "planning_message (CycleDetectedError c) = ''Dependency cycle detected: '' @ join '' -> '' c"
| "planning_message (MissingDependencyError s d) =
     ''Step '' @ quoted s @ '' depends on unknown step '' @ quoted d @ ''.''"
| "planning_message (DuplicateStepIdError s) = ''Duplicate step ID: '' @ quoted s @ ''.''"
| "planning_message EmptyPlanError = ''Generated plan has no steps.''"
| "planning_message (ToolNotFoundError t) = ''Plan references unknown tool '' @ quoted t @ ''.''"
| "planning_message (InvalidDependencyError s m) =
     ''Invalid dependency for step '' @ quoted s @ '': '' @ m"


text \<open>Small concrete plans, at which properties are evaluated.\<close>

definition sample_step :: "string \<Rightarrow> plan_step" where
  "sample_step i = \<lparr>ps_id = i, ps_title = i, ps_description = i, ps_tool = None,
     ps_arguments = None, ps_dependsOn = [], ps_expectedResult = [], ps_status = Draft,
     ps_metadata = None\<rparr>"

definition sample_plan :: "plan_step list \<Rightarrow> plan_result" where
  "sample_plan steps = \<lparr>pr_id = ''p'',
     pr_goal = \<lparr>pg_raw = ''g'', pg_description = ''g'', pg_objectives = [], pg_successCriteria = None\<rparr>,
     pr_strategy = Sequential, pr_steps = steps, pr_dependencies = [], pr_requiredTools = [],
     pr_expectedOutputs = [], pr_complexity = Simple, pr_risk = NoRisk, pr_constraints = [],
     pr_status = Ready, pr_planningDurationMs = 1, pr_reasoningSummary = []\<rparr>"

definition plain_step :: "string \<Rightarrow> string list \<Rightarrow> plan_step" where
  "plain_step i deps = \<lparr>ps_id = i, ps_title = i, ps_description = i, ps_tool = None, ps_arguments = None,
     ps_dependsOn = deps, ps_expectedResult = i, ps_status = Draft, ps_metadata = None\<rparr>"

end
