(* ===== verification/ExecTypes.thy ===== *)
theory ExecTypes
  imports PlanTypes
begin

text \<open>
  The data of the Hermes execution loop, packages/hermes/src/execution/ExecutionTypes.ts:
  identifiers, statuses, step results, checkpoints, statistics, policies and events.
  Counts and indices are naturals; durations and instants are integers; delays and the
  backoff multiplier are exact rationals, where the code computes with doubles.
\<close>

record execution_ids =
  executionId :: string
  goalId :: string
  planId :: string
  sessionId :: string
  parentExecutionId :: "string option"
  correlationId :: string

datatype execution_status =
    Pending | Running | Waiting | Retrying | Replanning
  | Completed | Cancelled | Failed | Paused

datatype execution_step_state =
    StepPending | StepRunning | StepCompletedState | StepFailedState
  | StepSkipped | StepRetrying | StepWaiting

fun status_str :: "execution_status \<Rightarrow> string" where
  "status_str Pending = ''pending''"
| "status_str Running = ''running''"
| "status_str Waiting = ''waiting''"
| "status_str Retrying = ''retrying''"
| "status_str Replanning = ''replanning''"
| "status_str Completed = ''completed''"
| "status_str Cancelled = ''cancelled''"
| "status_str Failed = ''failed''"
| "status_str Paused = ''paused''"

fun step_state_str :: "execution_step_state \<Rightarrow> string" where
  "step_state_str StepPending = ''pending''"
| "step_state_str StepRunning = ''running''"
| "step_state_str StepCompletedState = ''completed''"
| "step_state_str StepFailedState = ''failed''"
| "step_state_str StepSkipped = ''skipped''"
| "step_state_str StepRetrying = ''retrying''"
| "step_state_str StepWaiting = ''waiting''"

record execution_step_result =
  sr_stepId :: string
  sr_success :: bool
  sr_data :: "jsval option"
  sr_error :: "string option"
  sr_errorCode :: "string option"
  sr_durationMs :: int
  sr_retryAttempts :: nat
  sr_completedAt :: instant

record execution_result =
  er_ids :: execution_ids
  er_status :: execution_status
  er_success :: bool
  er_stepResults :: "execution_step_result list"
  er_durationMs :: int
  er_error :: "string option"
  er_errorCode :: "string option"
  er_output :: "jsval option"
  er_stepsCompleted :: nat
  er_totalSteps :: nat
  er_totalRetries :: nat

record execution_statistics =
  st_stepsCompleted :: nat
  st_stepsFailed :: nat
  st_stepsSkipped :: nat
  st_retryAttempts :: nat
  st_durationMs :: int
  st_stepDurations :: "(string, int) jmap"

record execution_checkpoint =
  ck_id :: string
  ck_ids :: execution_ids
  ck_currentStepId :: string
  ck_completedStepIds :: "string list"
  ck_remainingStepIds :: "string list"
  ck_status :: execution_status
  ck_stepResults :: "execution_step_result list"
  ck_statistics :: execution_statistics
  ck_timestamp :: instant

datatype cancellation_policy = Cooperative | Immediate

record execution_policy =
  ep_maxDurationMs :: int
  ep_maxRetries :: int
  ep_maxSteps :: int
  ep_defaultStepTimeoutMs :: int
  ep_cancellation :: cancellation_policy
  ep_enableCheckpoints :: bool

datatype retry_strategy = NoRetry | Fixed | ExponentialBackoff

record retry_policy =
  rp_strategy :: retry_strategy
  rp_maxAttempts :: nat
  rp_baseDelayMs :: rat
  rp_maxDelayMs :: rat
  rp_multiplier :: rat
  rp_retryOn :: "string list"

record execution_summary =
  es_ids :: execution_ids
  es_status :: execution_status
  es_goal :: string
  es_progress :: string
  es_durationMs :: int
  es_retries :: nat
  es_error :: "string option"

record execution_event_base =
  eb_executionId :: string
  eb_goalId :: string
  eb_planId :: string
  eb_sessionId :: string
  eb_correlationId :: string
  eb_timestamp :: instant

datatype execution_event =
    ExecutionStarted execution_event_base string nat
  | ExecutionProgress execution_event_base string nat nat
  | ExecutionPaused execution_event_base
  | ExecutionResumed execution_event_base
  | ExecutionCompleted execution_event_base int nat nat nat
  | ExecutionFailed execution_event_base string "string option" int string
  | ExecutionCancelled execution_event_base string nat
  | StepStarted execution_event_base string string nat
  | StepCompleted execution_event_base string int bool
  | StepFailed execution_event_base string string "string option" int
  | RetryStarted execution_event_base string nat nat rat
  | RetryCompleted execution_event_base string nat bool
  | CheckpointCreated execution_event_base string nat
  | CurrentStepChanged execution_event_base "string option" string


text \<open>
  The errors of the execution loop, packages/hermes/src/execution/ExecutionErrors.ts: one
  constructor per error class with the arguments its constructor takes, the code and the
  message that constructor stores. \<open>OtherError\<close> is any error that is not an
  \<open>ExecutionError\<close>, with its message.
\<close>

datatype execution_error =
    ExecutionNotFoundError string
  | ExecutionFailedError string
  | ExecutionCancelledError string
  | ExecutionTimeoutError string int
  | ExecutionPolicyViolationError string string
  | StepFailedError string string
  | StepTimeoutError string int
  | StepValidationError string "string list"
  | RetryExhaustedError string nat
  | CheckpointFailedError string
  | InvalidStateTransitionError string string
  | PlanInvalidError string
  | OtherError string

fun error_code :: "execution_error \<Rightarrow> string option" where
  "error_code (ExecutionNotFoundError _) = Some ''EXECUTION_NOT_FOUND''"
| "error_code (ExecutionFailedError _) = Some ''EXECUTION_FAILED''"
| "error_code (ExecutionCancelledError _) = Some ''EXECUTION_CANCELLED''"
| "error_code (ExecutionTimeoutError _ _) = Some ''EXECUTION_TIMEOUT''"
| "error_code (ExecutionPolicyViolationError _ _) = Some ''EXECUTION_POLICY_VIOLATION''"
| "error_code (StepFailedError _ _) = Some ''STEP_FAILED''"
| "error_code (StepTimeoutError _ _) = Some ''STEP_TIMEOUT''"
| "error_code (StepValidationError _ _) = Some ''STEP_VALIDATION_FAILED''"
| "error_code (RetryExhaustedError _ _) = Some ''RETRY_EXHAUSTED''"
| "error_code (CheckpointFailedError _) = Some ''CHECKPOINT_FAILED''"
| "error_code (InvalidStateTransitionError _ _) = Some ''INVALID_STATE_TRANSITION''"
| "error_code (PlanInvalidError _) = Some ''PLAN_INVALID''"
| "error_code (OtherError _) = None"

fun error_message :: "execution_error \<Rightarrow> string" where
  "error_message (ExecutionNotFoundError x) = ''Execution '' @ quoted x @ '' not found.''"
| "error_message (ExecutionFailedError m) = m"
| "error_message (ExecutionCancelledError r) = ''Execution cancelled: '' @ r"
| "error_message (ExecutionTimeoutError x t) =
     ''Execution '' @ quoted x @ '' timed out after '' @ int_str t @ ''ms.''"
| "error_message (ExecutionPolicyViolationError p m) =
     ''Policy '' @ quoted p @ '' violation: '' @ m"
| "error_message (StepFailedError s m) = ''Step '' @ quoted s @ '' failed: '' @ m"
| "error_message (StepTimeoutError s t) =
     ''Step '' @ quoted s @ '' timed out after '' @ int_str t @ ''ms.''"
| "error_message (StepValidationError s es) =
     ''Step '' @ quoted s @ '' validation failed: '' @ join ''; '' es"
| "error_message (RetryExhaustedError s n) =
     ''Retry exhausted for step '' @ quoted s @ '' after '' @ nat_str n @ '' attempts.''"
| "error_message (CheckpointFailedError m) = m"
| "error_message (InvalidStateTransitionError f t) =
     ''Cannot transition from '' @ quoted f @ '' to '' @ quoted t @ ''.''"
| "error_message (PlanInvalidError m) = ''Plan invalid: '' @ m"
| "error_message (OtherError m) = m"

definition isExecutionError :: "execution_error \<Rightarrow> bool" where
  "isExecutionError e \<longleftrightarrow> (case e of OtherError _ \<Rightarrow> False | _ \<Rightarrow> True)"

lemma isExecutionError_code: "isExecutionError e \<longleftrightarrow> error_code e \<noteq> None"
  by (cases e) (simp_all add: isExecutionError_def)

end
