(* ===== verification/ExecState.thy ===== *)
theory ExecState
  imports ExecTypes
begin

text \<open>
  The execution state machine, packages/hermes/src/execution/ExecutionState.ts: the two
  transition tables, the machine with its status and its map of step states, and the
  queries. An operation that throws returns \<open>Inl\<close> of the error.
\<close>

subsection \<open>Transition tables\<close>

fun VALID_EXECUTION_TRANSITIONS :: "execution_status \<Rightarrow> execution_status list" where
  "VALID_EXECUTION_TRANSITIONS Pending = [Running, Cancelled]"
| "VALID_EXECUTION_TRANSITIONS Running =
     [Waiting, Retrying, Replanning, Completed, Cancelled, Failed, Paused]"
| "VALID_EXECUTION_TRANSITIONS Waiting = [Running, Cancelled, Failed]"
| "VALID_EXECUTION_TRANSITIONS Retrying = [Running, Failed, Cancelled]"
| "VALID_EXECUTION_TRANSITIONS Replanning = [Running, Cancelled, Failed]"
| "VALID_EXECUTION_TRANSITIONS Completed = []"
| "VALID_EXECUTION_TRANSITIONS Cancelled = []"
| "VALID_EXECUTION_TRANSITIONS Failed = []"
| "VALID_EXECUTION_TRANSITIONS Paused = [Running, Cancelled]"

fun VALID_STEP_TRANSITIONS :: "execution_step_state \<Rightarrow> execution_step_state list" where
  "VALID_STEP_TRANSITIONS StepPending = [StepRunning, StepSkipped]"
| "VALID_STEP_TRANSITIONS StepRunning =
     [StepCompletedState, StepFailedState, StepRetrying, StepWaiting, StepSkipped]"
| "VALID_STEP_TRANSITIONS StepCompletedState = []"
| "VALID_STEP_TRANSITIONS StepFailedState = [StepRetrying]"
| "VALID_STEP_TRANSITIONS StepSkipped = []"
| "VALID_STEP_TRANSITIONS StepRetrying = [StepRunning, StepFailedState]"
| "VALID_STEP_TRANSITIONS StepWaiting = [StepRunning, StepFailedState]"

definition getValidTransitions :: "execution_status \<Rightarrow> execution_status list" where
  "getValidTransitions s = VALID_EXECUTION_TRANSITIONS s"

definition getValidStepTransitions :: "execution_step_state \<Rightarrow> execution_step_state list" where
  "getValidStepTransitions s = VALID_STEP_TRANSITIONS s"

definition isTerminalStatus :: "execution_status \<Rightarrow> bool" where
  "isTerminalStatus s \<longleftrightarrow> s = Completed \<or> s = Cancelled \<or> s = Failed"

subsection \<open>The machine\<close>

record execution_state_machine =
  currentStatus :: execution_status
  stepStates :: "(string, execution_step_state) jmap"

definition new_state_machine :: execution_state_machine where
  "new_state_machine = \<lparr>currentStatus = Pending, stepStates = []\<rparr>"

definition getStatus :: "execution_state_machine \<Rightarrow> execution_status" where
  "getStatus m = currentStatus m"

definition transition ::
  "execution_status \<Rightarrow> execution_state_machine \<Rightarrow> execution_error + execution_state_machine" where
  "transition to m =
     (let allowed = VALID_EXECUTION_TRANSITIONS (currentStatus m)
      in if to \<notin> set allowed
         then Inl (InvalidStateTransitionError (status_str (currentStatus m)) (status_str to))
         else Inr (m\<lparr>currentStatus := to\<rparr>))"

definition canTransition :: "execution_status \<Rightarrow> execution_state_machine \<Rightarrow> bool" where
  "canTransition to m \<longleftrightarrow> to \<in> set (VALID_EXECUTION_TRANSITIONS (currentStatus m))"

definition getStepState :: "execution_state_machine \<Rightarrow> string \<Rightarrow> execution_step_state" where
  "getStepState m stepId =
     (case jm_get (stepStates m) stepId of None \<Rightarrow> StepPending | Some s \<Rightarrow> s)"

definition setStepState ::
  "string \<Rightarrow> execution_step_state \<Rightarrow> execution_state_machine \<Rightarrow>
   execution_error + execution_state_machine" where
  "setStepState stepId state m =
     (let current = getStepState m stepId; allowed = VALID_STEP_TRANSITIONS current
      in if state \<notin> set allowed
         then Inl (InvalidStateTransitionError (''step:'' @ step_state_str current)
                    (''step:'' @ step_state_str state))
         else Inr (m\<lparr>stepStates := jm_set stepId state (stepStates m)\<rparr>))"

definition canStepTransition ::
  "string \<Rightarrow> execution_step_state \<Rightarrow> execution_state_machine \<Rightarrow> bool" where
  "canStepTransition stepId to m \<longleftrightarrow> to \<in> set (VALID_STEP_TRANSITIONS (getStepState m stepId))"

definition isTerminal :: "execution_state_machine \<Rightarrow> bool" where
  "isTerminal m \<longleftrightarrow>
     currentStatus m = Completed \<or> currentStatus m = Cancelled \<or> currentStatus m = Failed"

definition canCancel :: "execution_state_machine \<Rightarrow> bool" where
  "canCancel m \<longleftrightarrow>
     currentStatus m \<noteq> Completed \<and> currentStatus m \<noteq> Cancelled \<and> currentStatus m \<noteq> Failed"

definition canPause :: "execution_state_machine \<Rightarrow> bool" where
  "canPause m \<longleftrightarrow> currentStatus m = Running"

definition canResume :: "execution_state_machine \<Rightarrow> bool" where
  "canResume m \<longleftrightarrow> currentStatus m = Paused"

definition reset_machine :: "execution_state_machine \<Rightarrow> execution_state_machine" where
  "reset_machine m = m\<lparr>currentStatus := Pending, stepStates := []\<rparr>"

subsection \<open>Laws of the machine\<close>

interpretation exec_table: status_table VALID_EXECUTION_TRANSITIONS isTerminalStatus
proof
  fix s
  show "isTerminalStatus s \<longleftrightarrow> VALID_EXECUTION_TRANSITIONS s = []"
    by (cases s) (simp_all add: isTerminalStatus_def)
qed

definition isTerminalStepState :: "execution_step_state \<Rightarrow> bool" where
  "isTerminalStepState s \<longleftrightarrow> s = StepCompletedState \<or> s = StepSkipped"

interpretation step_table: status_table VALID_STEP_TRANSITIONS isTerminalStepState
proof
  fix s
  show "isTerminalStepState s \<longleftrightarrow> VALID_STEP_TRANSITIONS s = []"
    by (cases s) (simp_all add: isTerminalStepState_def)
qed

lemma getStatus_new [simp]: "getStatus new_state_machine = Pending"
  by (simp add: getStatus_def new_state_machine_def)

lemma getStepState_new [simp]: "getStepState new_state_machine i = StepPending"
  by (simp add: getStepState_def new_state_machine_def)

lemma transition_Inr_iff:
  "transition to m = Inr m' \<longleftrightarrow> canTransition to m \<and> m' = m\<lparr>currentStatus := to\<rparr>"
  by (auto simp: transition_def canTransition_def Let_def)

lemma transition_Inl_iff:
  "transition to m = Inl e \<longleftrightarrow> \<not> canTransition to m \<and>
     e = InvalidStateTransitionError (status_str (currentStatus m)) (status_str to)"
  by (auto simp: transition_def canTransition_def Let_def)

lemma canTransition_simps [tables]:
  "currentStatus m = s \<Longrightarrow> canTransition to m \<longleftrightarrow> to \<in> set (VALID_EXECUTION_TRANSITIONS s)"
  by (simp add: canTransition_def)

lemma transition_status [simp]:
  "transition to m = Inr m' \<Longrightarrow> getStatus m' = to"
  by (auto simp: transition_Inr_iff getStatus_def)

lemma transition_steps [simp]:
  "transition to m = Inr m' \<Longrightarrow> getStepState m' i = getStepState m i"
  by (auto simp: transition_Inr_iff getStepState_def)

lemma setStepState_Inr_iff:
  "setStepState i st m = Inr m' \<longleftrightarrow>
     canStepTransition i st m \<and> m' = m\<lparr>stepStates := jm_set i st (stepStates m)\<rparr>"
  by (auto simp: setStepState_def canStepTransition_def Let_def)

lemma setStepState_status [simp]:
  "setStepState i st m = Inr m' \<Longrightarrow> getStatus m' = getStatus m"
  by (auto simp: setStepState_Inr_iff getStatus_def)

lemma getStepState_update:
  "getStepState (m\<lparr>stepStates := jm_set i st (stepStates m)\<rparr>) j =
     (if j = i then st else getStepState m j)"
  by (simp add: getStepState_def jm_get_set)

lemma getStepState_set:
  "setStepState i st m = Inr m' \<Longrightarrow> getStepState m' j = (if j = i then st else getStepState m j)"
  by (auto simp: setStepState_Inr_iff getStepState_update)

lemma canCancel_iff_not_terminal: "canCancel m \<longleftrightarrow> \<not> isTerminal m"
  by (auto simp: canCancel_def isTerminal_def)

lemma canCancel_iff_canTransition: "canCancel m \<longleftrightarrow> canTransition Cancelled m"
  by (cases "currentStatus m") (simp_all add: canCancel_def canTransition_def)

lemma canPause_iff_canTransition: "canPause m \<longleftrightarrow> canTransition Paused m"
  by (cases "currentStatus m") (simp_all add: canPause_def canTransition_def)

lemma canResume_canTransition: "canResume m \<Longrightarrow> canTransition Running m"
  by (simp add: canResume_def canTransition_def)

subsection \<open>Runs of the machine\<close>

text \<open>A client attempts operations; one that throws leaves the machine as it was.\<close>

datatype machine_op = Transition execution_status | SetStep string execution_step_state

fun attempt :: "machine_op \<Rightarrow> execution_state_machine \<Rightarrow> execution_state_machine" where
  "attempt (Transition to) m = (case transition to m of Inl _ \<Rightarrow> m | Inr m' \<Rightarrow> m')"
| "attempt (SetStep i st) m = (case setStepState i st m of Inl _ \<Rightarrow> m | Inr m' \<Rightarrow> m')"

definition attempts :: "machine_op list \<Rightarrow> execution_state_machine \<Rightarrow> execution_state_machine" where
  "attempts ops m = fold attempt ops m"

lemma attempt_terminal: "isTerminal m \<Longrightarrow> currentStatus (attempt op m) = currentStatus m"
  by (cases op)
    (auto simp: isTerminal_def transition_def setStepState_def Let_def split: sum.splits)

lemma attempt_step_terminal:
  "isTerminalStepState (getStepState m i) \<Longrightarrow> getStepState (attempt op m) i = getStepState m i"
proof (cases op)
  case (Transition to)
  assume "isTerminalStepState (getStepState m i)"
  then show ?thesis using Transition by (auto split: sum.splits)
next
  case (SetStep j st)
  assume t: "isTerminalStepState (getStepState m i)"
  show ?thesis
  proof (cases "j = i")
    case True
    with t step_table.terminal_stuck [OF t] SetStep show ?thesis
      by (simp add: setStepState_def Let_def)
  next
    case False
    with SetStep show ?thesis
      by (auto split: sum.splits simp: getStepState_set)
  qed
qed

text \<open>
  A completed, cancelled or failed execution never changes its status again, and a
  completed or skipped step never changes its state again, whatever sequence of operations
  is attempted on the machine.
\<close>

theorem terminal_statuses_absorb:
  "(isTerminal m \<longrightarrow> getStatus (attempts ops m) = getStatus m) \<and>
   (isTerminalStepState (getStepState m i) \<longrightarrow> getStepState (attempts ops m) i = getStepState m i)"
proof (induction ops arbitrary: m)
  case Nil
  then show ?case by (simp add: attempts_def)
next
  case (Cons op ops)
  have fold: "attempts (op # ops) m = attempts ops (attempt op m)"
    by (simp add: attempts_def)
  show ?case
    using Cons.IH [of "attempt op m"] attempt_terminal [of m op] attempt_step_terminal [of m i op]
    by (auto simp: fold getStatus_def isTerminal_def)
qed

theorem terminal_statuses_absorb_witness:
  "let m = \<lparr>currentStatus = Cancelled, stepStates = [(''a'', StepCompletedState)]\<rparr>
   in getStatus (attempts [Transition Running, SetStep ''a'' StepRunning] m) = Cancelled \<and>
      getStepState (attempts [Transition Running, SetStep ''a'' StepRunning] m) ''a'' = StepCompletedState"
  unfolding Let_def
  using terminal_statuses_absorb [of "\<lparr>currentStatus = Cancelled, stepStates = [(''a'', StepCompletedState)]\<rparr>"
      "[Transition Running, SetStep ''a'' StepRunning]" "''a''"]
  by (simp add: isTerminal_def isTerminalStepState_def getStepState_def getStatus_def)

end
