(* ===== verification/ExecRetry.thy ===== *)
theory ExecRetry
  imports ExecTypes
begin

text \<open>
  Execution and retry policies, packages/hermes/src/execution/ExecutionPolicy.ts, and the
  retry manager, ExecutionRetry.ts: which failures are retried, with which delay, and how
  many attempts of each step have been recorded.
\<close>

subsection \<open>Policies\<close>

definition DEFAULT_EXECUTION_POLICY :: execution_policy where
  "DEFAULT_EXECUTION_POLICY =
     \<lparr>ep_maxDurationMs = 300000, ep_maxRetries = 3, ep_maxSteps = 50,
      ep_defaultStepTimeoutMs = 30000, ep_cancellation = Cooperative, ep_enableCheckpoints = True\<rparr>"

definition DEFAULT_RETRY_POLICY :: retry_policy where
  "DEFAULT_RETRY_POLICY =
     \<lparr>rp_strategy = ExponentialBackoff, rp_maxAttempts = 3, rp_baseDelayMs = 1000,
      rp_maxDelayMs = 30000, rp_multiplier = 2,
      rp_retryOn = [''STEP_FAILED'', ''STEP_TIMEOUT'', ''TOOL_TIMEOUT'', ''TOOL_EXECUTION_FAILED'']\<rparr>"

definition NO_RETRY_POLICY :: retry_policy where
  "NO_RETRY_POLICY =
     \<lparr>rp_strategy = NoRetry, rp_maxAttempts = 0, rp_baseDelayMs = 0, rp_maxDelayMs = 0,
      rp_multiplier = 1, rp_retryOn = []\<rparr>"

definition FIXED_RETRY_POLICY :: retry_policy where
  "FIXED_RETRY_POLICY =
     \<lparr>rp_strategy = Fixed, rp_maxAttempts = 3, rp_baseDelayMs = 2000, rp_maxDelayMs = 2000,
      rp_multiplier = 1, rp_retryOn = [''STEP_FAILED'', ''STEP_TIMEOUT'']\<rparr>"

text \<open>\<open>Partial\<close> policies: a member that is absent is \<open>None\<close>.\<close>

record execution_policy_overrides =
  epo_maxDurationMs :: "int option"
  epo_maxRetries :: "int option"
  epo_maxSteps :: "int option"
  epo_defaultStepTimeoutMs :: "int option"
  epo_cancellation :: "cancellation_policy option"
  epo_enableCheckpoints :: "bool option"

record retry_policy_overrides =
  rpo_strategy :: "retry_strategy option"
  rpo_maxAttempts :: "nat option"
  rpo_baseDelayMs :: "rat option"
  rpo_maxDelayMs :: "rat option"
  rpo_multiplier :: "rat option"
  rpo_retryOn :: "string list option"

definition mergeExecutionPolicies ::
  "execution_policy \<Rightarrow> execution_policy_overrides \<Rightarrow> execution_policy" where
  "mergeExecutionPolicies d p =
     \<lparr>ep_maxDurationMs = override (ep_maxDurationMs d) (epo_maxDurationMs p),
      ep_maxRetries = override (ep_maxRetries d) (epo_maxRetries p),
      ep_maxSteps = override (ep_maxSteps d) (epo_maxSteps p),
      ep_defaultStepTimeoutMs = override (ep_defaultStepTimeoutMs d) (epo_defaultStepTimeoutMs p),
      ep_cancellation = override (ep_cancellation d) (epo_cancellation p),
      ep_enableCheckpoints = override (ep_enableCheckpoints d) (epo_enableCheckpoints p)\<rparr>"

definition mergeRetryPolicies :: "retry_policy \<Rightarrow> retry_policy_overrides \<Rightarrow> retry_policy" where
  "mergeRetryPolicies d p =
     \<lparr>rp_strategy = override (rp_strategy d) (rpo_strategy p),
      rp_maxAttempts = override (rp_maxAttempts d) (rpo_maxAttempts p),
      rp_baseDelayMs = override (rp_baseDelayMs d) (rpo_baseDelayMs p),
      rp_maxDelayMs = override (rp_maxDelayMs d) (rpo_maxDelayMs p),
      rp_multiplier = override (rp_multiplier d) (rpo_multiplier p),
      rp_retryOn = override (rp_retryOn d) (rpo_retryOn p)\<rparr>"

definition isRetryable :: "string option \<Rightarrow> retry_policy \<Rightarrow> bool" where
  "isRetryable errorCode p \<longleftrightarrow>
     (if rp_strategy p = NoRetry then False
      else case errorCode of None \<Rightarrow> False | Some c \<Rightarrow> c \<in> set (rp_retryOn p))"

text \<open>
  \<open>Math.pow(multiplier, attempt - 1)\<close> is the integer power; the sources call the
  function with attempts from 1 on.
\<close>

definition calculateRetryDelay :: "nat \<Rightarrow> retry_policy \<Rightarrow> rat" where
  "calculateRetryDelay attempt p =
     (case rp_strategy p of
        NoRetry \<Rightarrow> 0
      | Fixed \<Rightarrow> rp_baseDelayMs p
      | ExponentialBackoff \<Rightarrow>
          (let delay = rp_baseDelayMs p * power_int (rp_multiplier p) (int attempt - 1)
           in min delay (rp_maxDelayMs p)))"

subsection \<open>The retry manager\<close>

record retry_state =
  rs_stepId :: string
  rs_attempt :: nat
  rs_maxAttempts :: nat
  rs_exhausted :: bool
  rs_nextDelayMs :: rat

record retry_manager =
  retryStates :: "(string, retry_state) jmap"
  retryPolicy :: retry_policy

record retry_record =
  rr_delayMs :: rat
  rr_attempt :: nat
  rr_exhausted :: bool

definition new_retry_manager :: "retry_policy \<Rightarrow> retry_manager" where
  "new_retry_manager p = \<lparr>retryStates = [], retryPolicy = p\<rparr>"

definition getState :: "retry_manager \<Rightarrow> string \<Rightarrow> retry_state option" where
  "getState m stepId = jm_get (retryStates m) stepId"

definition attempts_of :: "retry_manager \<Rightarrow> string \<Rightarrow> nat" where
  "attempts_of m stepId = (case getState m stepId of None \<Rightarrow> 0 | Some s \<Rightarrow> rs_attempt s)"

definition shouldRetry :: "retry_manager \<Rightarrow> string \<Rightarrow> string option \<Rightarrow> bool" where
  "shouldRetry m stepId errorCode \<longleftrightarrow>
     (if rp_strategy (retryPolicy m) = NoRetry then False
      else (let attempt = attempts_of m stepId + 1
            in if attempt > rp_maxAttempts (retryPolicy m) then False
               else isRetryable errorCode (retryPolicy m)))"

definition recordAttempt :: "string \<Rightarrow> retry_manager \<Rightarrow> retry_record \<times> retry_manager" where
  "recordAttempt stepId m =
     (let attempt = attempts_of m stepId + 1;
          exhausted = (attempt \<ge> rp_maxAttempts (retryPolicy m));
          delayMs = calculateRetryDelay attempt (retryPolicy m);
          newState = \<lparr>rs_stepId = stepId, rs_attempt = attempt,
                      rs_maxAttempts = rp_maxAttempts (retryPolicy m), rs_exhausted = exhausted,
                      rs_nextDelayMs = calculateRetryDelay (attempt + 1) (retryPolicy m)\<rparr>
      in (\<lparr>rr_delayMs = delayMs, rr_attempt = attempt, rr_exhausted = exhausted\<rparr>,
          m\<lparr>retryStates := jm_set stepId newState (retryStates m)\<rparr>))"

definition getPolicy :: "retry_manager \<Rightarrow> retry_policy" where
  "getPolicy m = retryPolicy m"

definition reset_retry :: "string \<Rightarrow> retry_manager \<Rightarrow> retry_manager" where
  "reset_retry stepId m = m\<lparr>retryStates := jm_delete stepId (retryStates m)\<rparr>"

definition resetAll :: "retry_manager \<Rightarrow> retry_manager" where
  "resetAll m = m\<lparr>retryStates := []\<rparr>"

definition getTotalAttempts :: "retry_manager \<Rightarrow> nat" where
  "getTotalAttempts m = sum_list (map rs_attempt (jm_values (retryStates m)))"

subsection \<open>Delays\<close>

lemma power_int_mono_exp:
  fixes b :: rat
  assumes "1 \<le> b" and "i \<le> j"
  shows "power_int b i \<le> power_int b j"
  using assms by (intro power_int_increasing) auto

text \<open>
  With exponential backoff, a non-negative base delay and a multiplier of at least one,
  the delays never decrease from one attempt to a later one, and none exceeds the maximum
  delay of the policy.
\<close>

theorem retry_delay_monotone_bounded:
  assumes "rp_strategy p = ExponentialBackoff" and "0 \<le> rp_baseDelayMs p" and "1 \<le> rp_multiplier p"
    and "a \<le> b"
  shows "calculateRetryDelay a p \<le> calculateRetryDelay b p \<and> calculateRetryDelay b p \<le> rp_maxDelayMs p"
proof -
  have "power_int (rp_multiplier p) (int a - 1) \<le> power_int (rp_multiplier p) (int b - 1)"
    using assms(3,4) by (intro power_int_mono_exp) auto
  then have "rp_baseDelayMs p * power_int (rp_multiplier p) (int a - 1)
      \<le> rp_baseDelayMs p * power_int (rp_multiplier p) (int b - 1)"
    by (rule mult_left_mono) (rule assms(2))
  with assms(1) show ?thesis
    by (auto simp: calculateRetryDelay_def Let_def min_def)
qed

theorem retry_delay_monotone_bounded_witness:
  "calculateRetryDelay 2 DEFAULT_RETRY_POLICY = 2000 \<and>
   calculateRetryDelay 2 DEFAULT_RETRY_POLICY \<le> calculateRetryDelay 7 DEFAULT_RETRY_POLICY \<and>
   calculateRetryDelay 7 DEFAULT_RETRY_POLICY \<le> rp_maxDelayMs DEFAULT_RETRY_POLICY"
proof -
  have "calculateRetryDelay 2 DEFAULT_RETRY_POLICY \<le> calculateRetryDelay 7 DEFAULT_RETRY_POLICY \<and>
      calculateRetryDelay 7 DEFAULT_RETRY_POLICY \<le> rp_maxDelayMs DEFAULT_RETRY_POLICY"
    by (rule retry_delay_monotone_bounded) (simp_all add: DEFAULT_RETRY_POLICY_def)
  moreover have "calculateRetryDelay 2 DEFAULT_RETRY_POLICY = 2000"
    by (simp add: DEFAULT_RETRY_POLICY_def calculateRetryDelay_def)
  ultimately show ?thesis by simp
qed

subsection \<open>Attempts\<close>

lemma attempts_of_new [simp]: "attempts_of (new_retry_manager p) i = 0"
  by (simp add: attempts_of_def getState_def new_retry_manager_def)

lemma retryPolicy_record [simp]: "retryPolicy (snd (recordAttempt i m)) = retryPolicy m"
  by (simp add: recordAttempt_def Let_def)

lemma attempts_of_record:
  "attempts_of (snd (recordAttempt i m)) j = (if j = i then attempts_of m i + 1 else attempts_of m j)"
  by (simp add: recordAttempt_def attempts_of_def getState_def Let_def)

lemma rr_attempt_record [simp]: "rr_attempt (fst (recordAttempt i m)) = attempts_of m i + 1"
  by (simp add: recordAttempt_def Let_def)

lemma rr_exhausted_record [simp]:
  "rr_exhausted (fst (recordAttempt i m)) \<longleftrightarrow> attempts_of m i + 1 \<ge> rp_maxAttempts (retryPolicy m)"
  by (simp add: recordAttempt_def Let_def)

lemma shouldRetry_iff:
  "shouldRetry m i c \<longleftrightarrow>
     attempts_of m i < rp_maxAttempts (retryPolicy m) \<and> isRetryable c (retryPolicy m)"
  by (auto simp: shouldRetry_def isRetryable_def Let_def)

definition wf_retry :: "retry_manager \<Rightarrow> bool" where
  "wf_retry m \<longleftrightarrow> wf_jmap (retryStates m)"

lemma wf_retry_ops [simp]:
  "wf_retry (new_retry_manager p)"
  "wf_retry m \<Longrightarrow> wf_retry (snd (recordAttempt i m))"
  "wf_retry m \<Longrightarrow> wf_retry (reset_retry i m)"
  "wf_retry (resetAll m)"
  by (simp_all add: wf_retry_def new_retry_manager_def recordAttempt_def reset_retry_def
      resetAll_def Let_def)

lemma getTotalAttempts_record:
  assumes "wf_retry m"
  shows "getTotalAttempts (snd (recordAttempt i m)) = getTotalAttempts m + 1"
proof -
  let ?v = "\<lparr>rs_stepId = i, rs_attempt = attempts_of m i + 1,
      rs_maxAttempts = rp_maxAttempts (retryPolicy m),
      rs_exhausted = (attempts_of m i + 1 \<ge> rp_maxAttempts (retryPolicy m)),
      rs_nextDelayMs = calculateRetryDelay (attempts_of m i + 1 + 1) (retryPolicy m)\<rparr>"
  have "sum_list (map rs_attempt (jm_values (jm_set i ?v (retryStates m)))) + attempts_of m i =
      sum_list (map rs_attempt (jm_values (retryStates m))) + rs_attempt ?v"
    using sum_list_jm_set [of "retryStates m" rs_attempt i ?v] assms
    by (simp add: wf_retry_def attempts_of_def getState_def)
  then show ?thesis
    by (simp add: getTotalAttempts_def recordAttempt_def Let_def)
qed

end
