(* ===== verification/ExecHistory.thy ===== *)
theory ExecHistory
  imports ExecTypes
begin

text \<open>
  The execution history, packages/hermes/src/execution/ExecutionHistory.ts: a log of entries
  and the last result of every step. Every operation that reads the clock takes the instant
  it reads as an argument \<open>now\<close>.
\<close>

record history_entry =
  he_timestamp :: instant
  he_eventType :: string
  he_stepId :: "string option"
  he_data :: "(string, jsval) jmap"

record execution_history =
  entries :: "history_entry list"
  h_stepResults :: "(string, execution_step_result) jmap"
  h_startTime :: instant
  h_endTime :: instant

definition new_history :: execution_history where
  "new_history = \<lparr>entries = [], h_stepResults = [], h_startTime = 0, h_endTime = 0\<rparr>"

definition addEntry ::
  "instant \<Rightarrow> string \<Rightarrow> (string, jsval) jmap \<Rightarrow> execution_history \<Rightarrow> execution_history" where
  "addEntry now eventType data h =
     h\<lparr>entries := entries h @
        [\<lparr>he_timestamp = now, he_eventType = eventType,
          he_stepId = (case jm_get data ''stepId'' of Some (JStr i) \<Rightarrow> Some i | _ \<Rightarrow> None),
          he_data = data\<rparr>]\<rparr>"

text \<open>\<open>start\<close> and \<open>complete\<close> read the clock twice, the second time for the entry.\<close>

definition h_start :: "instant \<Rightarrow> instant \<Rightarrow> execution_history \<Rightarrow> execution_history" where
  "h_start now now' h = addEntry now' ''execution.started'' [] (h\<lparr>h_startTime := now\<rparr>)"

definition h_stepStarted ::
  "instant \<Rightarrow> string \<Rightarrow> nat \<Rightarrow> execution_history \<Rightarrow> execution_history" where
  "h_stepStarted now stepId stepIndex h =
     addEntry now ''step.started''
       [(''stepId'', JStr stepId), (''stepIndex'', JNum (of_nat stepIndex))] h"

definition h_stepCompleted ::
  "instant \<Rightarrow> execution_step_result \<Rightarrow> execution_history \<Rightarrow> execution_history" where
  "h_stepCompleted now r h =
     addEntry now ''step.completed''
       [(''stepId'', JStr (sr_stepId r)), (''success'', JBool (sr_success r)),
        (''durationMs'', JNum (of_int (sr_durationMs r)))]
       (h\<lparr>h_stepResults := jm_set (sr_stepId r) r (h_stepResults h)\<rparr>)"

definition h_retryAttempt ::
  "instant \<Rightarrow> string \<Rightarrow> nat \<Rightarrow> rat \<Rightarrow> execution_history \<Rightarrow> execution_history" where
  "h_retryAttempt now stepId a delayMs h =
     addEntry now ''retry.attempt''
       [(''stepId'', JStr stepId), (''attempt'', JNum (of_nat a)), (''delayMs'', JNum delayMs)] h"

definition opt_str :: "string option \<Rightarrow> jsval" where
  "opt_str e = (case e of None \<Rightarrow> JUndefined | Some x \<Rightarrow> JStr x)"

definition h_complete ::
  "instant \<Rightarrow> instant \<Rightarrow> execution_status \<Rightarrow> string option \<Rightarrow> execution_history \<Rightarrow> execution_history" where
  "h_complete now now' status err h =
     addEntry now' ''execution.completed''
       [(''status'', JStr (status_str status)), (''error'', opt_str err)] (h\<lparr>h_endTime := now\<rparr>)"

definition h_replanRequested :: "instant \<Rightarrow> string \<Rightarrow> execution_history \<Rightarrow> execution_history" where
  "h_replanRequested now reason h = addEntry now ''execution.replan'' [(''reason'', JStr reason)] h"

definition getStepEntries :: "string \<Rightarrow> execution_history \<Rightarrow> history_entry list" where
  "getStepEntries stepId h =
     filter (\<lambda>e. jm_get (he_data e) ''stepId'' = Some (JStr stepId)) (entries h)"

definition h_getStepResults :: "execution_history \<Rightarrow> execution_step_result list" where
  "h_getStepResults h = jm_values (h_stepResults h)"

definition getStepResult :: "string \<Rightarrow> execution_history \<Rightarrow> execution_step_result option" where
  "getStepResult stepId h = jm_get (h_stepResults h) stepId"

definition h_getDurationMs :: "instant \<Rightarrow> execution_history \<Rightarrow> int" where
  "h_getDurationMs now h =
     (if h_endTime h > 0 then h_endTime h - h_startTime h else now - h_startTime h)"

definition getStatistics :: "instant \<Rightarrow> execution_history \<Rightarrow> execution_statistics" where
  "getStatistics now h =
     (let results = jm_values (h_stepResults h)
      in \<lparr>st_stepsCompleted = length (filter sr_success results),
          st_stepsFailed = length (filter (\<lambda>r. \<not> sr_success r) results),
          st_stepsSkipped = 0,
          st_retryAttempts = foldl (\<lambda>sum r. sum + sr_retryAttempts r) 0 results,
          st_durationMs =
            (if h_endTime h > 0 then h_endTime h - h_startTime h else now - h_startTime h),
          st_stepDurations =
            foldl (\<lambda>m r. jm_set (sr_stepId r) (sr_durationMs r) m) [] results\<rparr>)"

definition h_clear :: "execution_history \<Rightarrow> execution_history" where
  "h_clear h = h\<lparr>entries := [], h_stepResults := [], h_startTime := 0, h_endTime := 0\<rparr>"

subsection \<open>Laws\<close>

lemma entries_addEntry [simp]: "length (entries (addEntry n t d h)) = Suc (length (entries h))"
  by (simp add: addEntry_def)

lemma addEntry_frame [simp]:
  "h_stepResults (addEntry n t d h) = h_stepResults h"
  "h_startTime (addEntry n t d h) = h_startTime h"
  "h_endTime (addEntry n t d h) = h_endTime h"
  by (simp_all add: addEntry_def)

lemma h_ops_stepResults [simp]:
  "h_stepResults new_history = []"
  "h_stepResults (h_start n n' h) = h_stepResults h"
  "h_stepResults (h_stepStarted n i k h) = h_stepResults h"
  "h_stepResults (h_stepCompleted n r h) = jm_set (sr_stepId r) r (h_stepResults h)"
  "h_stepResults (h_complete n n' s e h) = h_stepResults h"
  "h_stepResults (h_replanRequested n x h) = h_stepResults h"
  by (simp_all add: new_history_def h_start_def h_stepStarted_def h_stepCompleted_def
      h_complete_def h_replanRequested_def)

text \<open>The map of results is well formed, and every result is stored under its own step id.\<close>

definition wf_history :: "execution_history \<Rightarrow> bool" where
  "wf_history h \<longleftrightarrow> wf_jmap (h_stepResults h) \<and>
     (\<forall>(i, r) \<in> set (h_stepResults h). sr_stepId r = i)"

lemma wf_history_same_results:
  "h_stepResults h' = h_stepResults h \<Longrightarrow> wf_history h' = wf_history h"
  by (simp add: wf_history_def)

lemma wf_history_stepCompleted: "wf_history h \<Longrightarrow> wf_history (h_stepCompleted n r h)"
  using set_jm_set [of "sr_stepId r" r "h_stepResults h"] by (fastforce simp: wf_history_def)

lemma wf_history_ops [simp]:
  "wf_history new_history"
  "wf_history (h_start n n' h) = wf_history h"
  "wf_history (h_complete n n' s e h) = wf_history h"
  "wf_history (h_replanRequested n x h) = wf_history h"
  by (simp_all add: wf_history_def)

lemma wf_history_ids:
  "wf_history h \<Longrightarrow> map sr_stepId (jm_values (h_stepResults h)) = jm_keys (h_stepResults h)"
  by (auto simp: wf_history_def)

lemma foldl_durations:
  "jm_get (foldl (\<lambda>m r. jm_set (sr_stepId r) (sr_durationMs r) m) m rs) i =
    (case map_of (rev (map (\<lambda>r. (sr_stepId r, sr_durationMs r)) rs)) i of
       None \<Rightarrow> jm_get m i | Some d \<Rightarrow> Some d)"
  by (induction rs arbitrary: m) (auto simp: jm_get_set map_add_def split: option.splits)

lemma map_of_rev_distinct: "distinct (map fst ps) \<Longrightarrow> map_of (rev ps) = map_of ps"
  by (rule map_of_inject_set [THEN iffD2]) (auto simp: rev_map [symmetric])

lemma statistics_duration:
  assumes "wf_history h"
  shows "jm_get (st_stepDurations (getStatistics now h)) i =
    map_option sr_durationMs (getStepResult i h)"
proof -
  let ?ps = "map (\<lambda>r. (sr_stepId r, sr_durationMs r)) (jm_values (h_stepResults h))"
  have ps: "?ps = map (\<lambda>(i, r). (i, sr_durationMs r)) (h_stepResults h)"
    using assms by (auto simp: wf_history_def)
  have "map fst ?ps = map fst (h_stepResults h)"
    by (simp only: ps) (simp add: comp_def case_prod_beta)
  with assms have "distinct (map fst ?ps)" by (simp only: wf_history_def)
  then have "map_of (rev ?ps) = map_of ?ps" by (rule map_of_rev_distinct)
  moreover have "map_of ?ps i = map_option sr_durationMs (map_of (h_stepResults h) i)"
    by (simp only: ps map_of_map comp_apply)
  ultimately show ?thesis
    by (auto simp: getStatistics_def Let_def foldl_durations getStepResult_def split: option.splits)
qed

lemma length_filter_values:
  assumes "wf_jmap m"
  shows "length (filter P (jm_values m)) = card {i. \<exists>r. jm_get m i = Some r \<and> P r}"
proof -
  have "length (filter P (jm_values m)) = length (filter (P \<circ> snd) m)"
    by (simp add: filter_map)
  also have "\<dots> = length (map fst (filter (P \<circ> snd) m))" by simp
  also have "\<dots> = card (set (map fst (filter (P \<circ> snd) m)))"
    using assms by (intro distinct_card [symmetric]) (rule distinct_map_filter)
  also have "set (map fst (filter (P \<circ> snd) m)) = {i. \<exists>r. jm_get m i = Some r \<and> P r}"
    using assms by (force simp: image_iff)
  finally show ?thesis .
qed

text \<open>
  In the statistics of a well-formed history every step that has a result is counted
  exactly once, as completed or as failed according to its last result, and the recorded
  duration of a step is the duration of its last result.
\<close>

theorem statistics_count_each_step_once:
  assumes "wf_history h"
  shows "st_stepsCompleted (getStatistics now h)
           = card {i. \<exists>r. getStepResult i h = Some r \<and> sr_success r} \<and>
         st_stepsFailed (getStatistics now h)
           = card {i. \<exists>r. getStepResult i h = Some r \<and> \<not> sr_success r} \<and>
         jm_get (st_stepDurations (getStatistics now h)) i = map_option sr_durationMs (getStepResult i h)"
proof -
  from assms have "wf_jmap (h_stepResults h)" by (simp add: wf_history_def)
  note count = length_filter_values [OF this]
  show ?thesis
    using statistics_duration [OF assms, of now i]
    by (simp only: getStatistics_def Let_def execution_statistics.select_convs count getStepResult_def)
qed

theorem statistics_count_each_step_once_witness:
  "let r = \<lparr>sr_stepId = ''a'', sr_success = True, sr_data = None, sr_error = None,
            sr_errorCode = None, sr_durationMs = 7, sr_retryAttempts = 0, sr_completedAt = 5\<rparr>;
       h = h_stepCompleted 5 r (h_stepCompleted 4 (r\<lparr>sr_success := False, sr_durationMs := 3\<rparr>) new_history)
   in wf_history h \<and> jm_get (st_stepDurations (getStatistics 9 h)) ''a'' = Some 7 \<and>
      st_stepsFailed (getStatistics 9 h) = 0"
proof -
  define r where "r = \<lparr>sr_stepId = ''a'', sr_success = True, sr_data = None, sr_error = None,
            sr_errorCode = None, sr_durationMs = 7, sr_retryAttempts = 0, sr_completedAt = 5\<rparr>"
  define h where "h = h_stepCompleted 5 r
    (h_stepCompleted 4 (r\<lparr>sr_success := False, sr_durationMs := 3\<rparr>) new_history)"
  have wf: "wf_history h" by (simp add: h_def wf_history_stepCompleted)
  have g: "getStepResult i h = (if i = ''a'' then Some r else None)" for i
    by (simp add: h_def getStepResult_def r_def new_history_def)
  from statistics_count_each_step_once [OF wf, of 9 "''a''"] wf show ?thesis
    by (simp add: g r_def [symmetric] h_def [symmetric]) (simp add: r_def)
qed

end
