(* ===== verification/ExecCheckpoint.thy ===== *)
theory ExecCheckpoint
  imports ExecHistory
begin

text \<open>
  Checkpoints, packages/hermes/src/execution/ExecutionCheckpoint.ts, and the checkpoint
  part of the validator, ExecutionValidator.ts. The module's counter is an argument and a
  result of the operations that number a checkpoint; \<open>createCheckpoint\<close> reads the
  clock twice, for the identifier and for the timestamp.
\<close>

subsection \<open>Creation\<close>

definition generateCheckpointId :: "instant \<Rightarrow> nat \<Rightarrow> string \<times> nat" where
  "generateCheckpointId now counter =
     (let counter' = counter + 1
      in (''ckpt_'' @ int_str now @ ''_'' @ nat_str counter', counter'))"

definition createCheckpoint ::
  "instant \<Rightarrow> instant \<Rightarrow> nat \<Rightarrow> execution_ids \<Rightarrow> string \<Rightarrow> string list \<Rightarrow> string list \<Rightarrow>
   execution_status \<Rightarrow> execution_step_result list \<Rightarrow> execution_statistics \<Rightarrow>
   execution_checkpoint \<times> nat" where
  "createCheckpoint now now' counter ids currentStepId completedStepIds remainingStepIds
      status stepResults statistics =
     (let (cid, counter') = generateCheckpointId now counter
      in (\<lparr>ck_id = cid, ck_ids = ids, ck_currentStepId = currentStepId,
           ck_completedStepIds = completedStepIds, ck_remainingStepIds = remainingStepIds,
           ck_status = status, ck_stepResults = stepResults, ck_statistics = statistics,
           ck_timestamp = now'\<rparr>, counter'))"

definition empty_statistics :: execution_statistics where
  "empty_statistics =
     \<lparr>st_stepsCompleted = 0, st_stepsFailed = 0, st_stepsSkipped = 0, st_retryAttempts = 0,
      st_durationMs = 0, st_stepDurations = []\<rparr>"

definition createInitialCheckpoint ::
  "instant \<Rightarrow> instant \<Rightarrow> nat \<Rightarrow> execution_ids \<Rightarrow> string list \<Rightarrow> execution_checkpoint \<times> nat" where
  "createInitialCheckpoint now now' counter ids stepIds =
     (let (first, rest) = (case stepIds of [] \<Rightarrow> ('''', []) | f # r \<Rightarrow> (f, r))
      in createCheckpoint now now' counter ids first [] rest Pending [] empty_statistics)"

subsection \<open>Validation and progress\<close>

definition validateCheckpoint :: "execution_checkpoint \<Rightarrow> validation" where
  "validateCheckpoint c =
     report (
       (if length (ck_id c) = 0 then [''Checkpoint ID is required''] else []) @
       (if length (ck_currentStepId c) = 0 then [''Current step ID is required''] else []) @
       (if ck_currentStepId c \<in> set (ck_completedStepIds c)
        then [''Current step is already in completed list''] else []) @
       (if st_stepsCompleted (ck_statistics c) \<noteq> length (ck_completedStepIds c)
        then [''Statistics stepsCompleted does not match completedStepIds count''] else []))"

definition validateCheckpointIntegrity :: "execution_checkpoint \<Rightarrow> validation" where
  "validateCheckpointIntegrity c =
     report (
       (if length (ck_id c) = 0 then [''Checkpoint ID is required''] else []) @
       (if length (ck_currentStepId c) = 0 then [''Current step ID is required''] else []) @
       (if ck_currentStepId c \<in> set (ck_completedStepIds c)
        then [''Current step is already in completed list''] else []) @
       (if ck_currentStepId c \<notin> set (ck_remainingStepIds c)
        then (let allSteps = ck_completedStepIds c @ ck_remainingStepIds c @ [ck_currentStepId c];
                  uniqueSteps = set allSteps
              in if length allSteps \<noteq> card uniqueSteps
                 then [''Duplicate step IDs in checkpoint''] else [])
        else []) @
       (if st_stepsCompleted (ck_statistics c) \<noteq> length (ck_completedStepIds c)
        then [''Statistics stepsCompleted does not match completedStepIds count''] else []))"

record checkpoint_progress =
  cp_completed :: nat
  cp_remaining :: nat
  cp_total :: nat
  cp_percentage :: int

text \<open>\<open>Math.round\<close> of a number: the nearest integer, halves upward.\<close>

definition math_round :: "rat \<Rightarrow> int" where
  "math_round x = \<lfloor>x + 1 / 2\<rfloor>"

definition getCheckpointProgress :: "execution_checkpoint \<Rightarrow> checkpoint_progress" where
  "getCheckpointProgress c =
     (let completed = length (ck_completedStepIds c);
          remaining = length (ck_remainingStepIds c);
          total = completed + remaining + 1;
          percentage = (if total > 0
                        then math_round ((of_nat completed / of_nat total) * 100) else 0)
      in \<lparr>cp_completed = completed, cp_remaining = remaining, cp_total = total,
          cp_percentage = percentage\<rparr>)"

subsection \<open>Laws\<close>

lemma last_separator_unique:
  assumes "xs @ c # a = ys @ c # b" and "c \<notin> set a" and "c \<notin> set b"
  shows "a = b"
  using assms
proof (induction xs arbitrary: ys)
  case Nil
  then show ?case by (cases ys) (auto simp: Cons_eq_append_conv)
next
  case (Cons x xs)
  then show ?case by (cases ys) auto
qed

text \<open>
  Two checkpoints numbered from different values of the counter have different
  identifiers, whatever instants the clock showed; the counter never repeats a value,
  since every creation adds one.
\<close>

theorem checkpoint_ids_unique:
  assumes "c1 \<noteq> c2"
  shows "fst (generateCheckpointId t1 c1) \<noteq> fst (generateCheckpointId t2 c2) \<and>
    snd (generateCheckpointId t1 c1) = c1 + 1"
proof -
  have False if eq: "fst (generateCheckpointId t1 c1) = fst (generateCheckpointId t2 c2)"
  proof -
    from eq have "(''ckpt_'' @ int_str t1) @ CHR ''_'' # nat_str (c1 + 1) =
        (''ckpt_'' @ int_str t2) @ CHR ''_'' # nat_str (c2 + 1)"
      by (simp add: generateCheckpointId_def)
    then have "nat_str (c1 + 1) = nat_str (c2 + 1)"
      by (rule last_separator_unique) (rule underscore_notin_nat_str)+
    with assms show False by simp
  qed
  then show ?thesis by (auto simp: generateCheckpointId_def)
qed

theorem checkpoint_ids_unique_witness:
  "(0::nat) \<noteq> 1 \<and> fst (generateCheckpointId 17 0) = ''ckpt_17_1'' \<and>
   fst (generateCheckpointId 17 0) \<noteq> fst (generateCheckpointId 17 1)"
proof -
  have "fst (generateCheckpointId 17 0) = ''ckpt_17_1''" by code_simp
  with checkpoint_ids_unique [of 0 1 17 17] show ?thesis by simp
qed

lemma validateCheckpoint_iff:
  "valid (validateCheckpoint c) \<longleftrightarrow>
     ck_id c \<noteq> [] \<and> ck_currentStepId c \<noteq> [] \<and>
     ck_currentStepId c \<notin> set (ck_completedStepIds c) \<and>
     st_stepsCompleted (ck_statistics c) = length (ck_completedStepIds c)"
  by (simp add: validateCheckpoint_def)

lemma distinct_iff_card: "length xs = card (set xs) \<longleftrightarrow> distinct xs"
  by (metis card_distinct distinct_card)

lemma validateCheckpointIntegrity_iff:
  "valid (validateCheckpointIntegrity c) \<longleftrightarrow>
     valid (validateCheckpoint c) \<and>
     (ck_currentStepId c \<in> set (ck_remainingStepIds c) \<or>
      distinct (ck_completedStepIds c @ ck_remainingStepIds c @ [ck_currentStepId c]))"
  unfolding validateCheckpointIntegrity_def validateCheckpoint_def report_simps Let_def
    distinct_iff_card
  by auto

lemma checkpoint_id_nonempty [simp]:
  "ck_id (fst (createCheckpoint n n' k ids c cs rs st res stats)) \<noteq> []"
  by (simp add: createCheckpoint_def generateCheckpointId_def Let_def)

lemma createCheckpoint_simps [simp]:
  "ck_currentStepId (fst (createCheckpoint n n' k ids c cs rs st res stats)) = c"
  "ck_completedStepIds (fst (createCheckpoint n n' k ids c cs rs st res stats)) = cs"
  "ck_remainingStepIds (fst (createCheckpoint n n' k ids c cs rs st res stats)) = rs"
  "ck_status (fst (createCheckpoint n n' k ids c cs rs st res stats)) = st"
  "ck_stepResults (fst (createCheckpoint n n' k ids c cs rs st res stats)) = res"
  "ck_statistics (fst (createCheckpoint n n' k ids c cs rs st res stats)) = stats"
  "snd (createCheckpoint n n' k ids c cs rs st res stats) = k + 1"
  by (simp_all add: createCheckpoint_def generateCheckpointId_def Let_def)

text \<open>
  The checkpoint made for a new plan passes the integrity check exactly when the plan
  has a first step with a non-empty identifier and no step identifier occurs twice, or
  else the first one recurs in the rest.
\<close>

theorem initial_checkpoint_valid:
  "valid (validateCheckpointIntegrity (fst (createInitialCheckpoint n n' k ids (i # is)))) \<longleftrightarrow>
     i \<noteq> [] \<and> (i \<in> set is \<or> distinct (i # is))"
  by (auto simp: validateCheckpointIntegrity_iff validateCheckpoint_iff createInitialCheckpoint_def
      empty_statistics_def)

lemma progress_bounds:
  "0 \<le> cp_percentage (getCheckpointProgress c) \<and> cp_percentage (getCheckpointProgress c) \<le> 100"
proof -
  let ?d = "length (ck_completedStepIds c)" and ?t = "length (ck_completedStepIds c) + length (ck_remainingStepIds c) + 1"
  have "(0::rat) \<le> of_nat ?d / of_nat ?t" by simp
  moreover have "(of_nat ?d :: rat) / of_nat ?t \<le> 1" by (simp add: divide_le_eq)
  ultimately have "0 \<le> (of_nat ?d / of_nat ?t :: rat) * 100 + 1 / 2"
    and "(of_nat ?d / of_nat ?t :: rat) * 100 + 1 / 2 < 101" by linarith+
  then have "0 \<le> \<lfloor>(of_nat ?d / of_nat ?t :: rat) * 100 + 1 / 2\<rfloor>"
    and "\<lfloor>(of_nat ?d / of_nat ?t :: rat) * 100 + 1 / 2\<rfloor> < 101"
    by (simp_all add: floor_less_iff)
  then show ?thesis
    by (simp add: getCheckpointProgress_def Let_def math_round_def)
qed

end
