(* ===== verification/ExecEvents.thy ===== *)
theory ExecEvents
  imports ExecTypes
begin

text \<open>
  Execution events, packages/hermes/src/execution/ExecutionEvents.ts: the emitter with its
  subscriptions and the event factories. A handler is code outside the repository, known by
  its identity; \<open>emit\<close> lists the deliveries it makes, in order, and a handler that
  throws changes nothing. A factory takes the instant at which it reads the clock.
\<close>

type_synonym 'h emitter = "'h list"

definition ee_on :: "'h \<Rightarrow> 'h emitter \<Rightarrow> 'h emitter" where
  "ee_on handler hs = hs @ [handler]"

text \<open>The function that \<open>on\<close> returns: drops the first occurrence of the handler.\<close>

definition ee_off :: "'h \<Rightarrow> 'h emitter \<Rightarrow> 'h emitter" where
  "ee_off handler hs = remove1 handler hs"

definition ee_emit :: "execution_event \<Rightarrow> 'h emitter \<Rightarrow> ('h \<times> execution_event) list" where
  "ee_emit event hs = map (\<lambda>h. (h, event)) hs"

definition getHandlerCount :: "'h emitter \<Rightarrow> nat" where
  "getHandlerCount hs = length hs"

definition ee_clear :: "'h emitter \<Rightarrow> 'h emitter" where
  "ee_clear hs = []"

definition eventBase :: "instant \<Rightarrow> execution_ids \<Rightarrow> execution_event_base" where
  "eventBase now ids =
     \<lparr>eb_executionId = executionId ids, eb_goalId = goalId ids, eb_planId = planId ids,
      eb_sessionId = sessionId ids, eb_correlationId = correlationId ids, eb_timestamp = now\<rparr>"

definition executionStarted :: "instant \<Rightarrow> execution_ids \<Rightarrow> string \<Rightarrow> nat \<Rightarrow> execution_event" where
  "executionStarted now ids goal stepCount = ExecutionStarted (eventBase now ids) goal stepCount"

definition executionProgress ::
  "instant \<Rightarrow> execution_ids \<Rightarrow> string \<Rightarrow> nat \<Rightarrow> nat \<Rightarrow> execution_event" where
  "executionProgress now ids currentStep completedSteps totalSteps =
     ExecutionProgress (eventBase now ids) currentStep completedSteps totalSteps"

definition executionPaused :: "instant \<Rightarrow> execution_ids \<Rightarrow> execution_event" where
  "executionPaused now ids = ExecutionPaused (eventBase now ids)"

definition executionResumed :: "instant \<Rightarrow> execution_ids \<Rightarrow> execution_event" where
  "executionResumed now ids = ExecutionResumed (eventBase now ids)"

definition executionCompleted ::
  "instant \<Rightarrow> execution_ids \<Rightarrow> int \<Rightarrow> nat \<Rightarrow> nat \<Rightarrow> nat \<Rightarrow> execution_event" where
  "executionCompleted now ids durationMs stepsCompleted totalSteps totalRetries =
     ExecutionCompleted (eventBase now ids) durationMs stepsCompleted totalSteps totalRetries"

definition executionFailed ::
  "instant \<Rightarrow> execution_ids \<Rightarrow> string \<Rightarrow> int \<Rightarrow> string \<Rightarrow> string option \<Rightarrow> execution_event" where
  "executionFailed now ids err durationMs failedStep errorCode =
     ExecutionFailed (eventBase now ids) err errorCode durationMs failedStep"

definition executionCancelled ::
  "instant \<Rightarrow> execution_ids \<Rightarrow> string \<Rightarrow> nat \<Rightarrow> execution_event" where
  "executionCancelled now ids reason stepsCompleted =
     ExecutionCancelled (eventBase now ids) reason stepsCompleted"

definition stepStarted ::
  "instant \<Rightarrow> execution_ids \<Rightarrow> string \<Rightarrow> string \<Rightarrow> nat \<Rightarrow> execution_event" where
  "stepStarted now ids stepId stepTitle stepIndex =
     StepStarted (eventBase now ids) stepId stepTitle stepIndex"

definition stepCompleted ::
  "instant \<Rightarrow> execution_ids \<Rightarrow> string \<Rightarrow> int \<Rightarrow> bool \<Rightarrow> execution_event" where
  "stepCompleted now ids stepId durationMs success =
     StepCompleted (eventBase now ids) stepId durationMs success"

definition stepFailed ::
  "instant \<Rightarrow> execution_ids \<Rightarrow> string \<Rightarrow> string \<Rightarrow> int \<Rightarrow> string option \<Rightarrow> execution_event" where
  "stepFailed now ids stepId err durationMs errorCode =
     StepFailed (eventBase now ids) stepId err errorCode durationMs"

definition retryStarted ::
  "instant \<Rightarrow> execution_ids \<Rightarrow> string \<Rightarrow> nat \<Rightarrow> nat \<Rightarrow> rat \<Rightarrow> execution_event" where
  "retryStarted now ids stepId att maxAttempts delayMs =
     RetryStarted (eventBase now ids) stepId att maxAttempts delayMs"

definition retryCompleted ::
  "instant \<Rightarrow> execution_ids \<Rightarrow> string \<Rightarrow> nat \<Rightarrow> bool \<Rightarrow> execution_event" where
  "retryCompleted now ids stepId att success =
     RetryCompleted (eventBase now ids) stepId att success"

definition checkpointCreated ::
  "instant \<Rightarrow> execution_ids \<Rightarrow> string \<Rightarrow> nat \<Rightarrow> execution_event" where
  "checkpointCreated now ids checkpointId completedSteps =
     CheckpointCreated (eventBase now ids) checkpointId completedSteps"

definition currentStepChanged ::
  "instant \<Rightarrow> execution_ids \<Rightarrow> string option \<Rightarrow> string \<Rightarrow> execution_event" where
  "currentStepChanged now ids previousStepId currentStepId =
     CurrentStepChanged (eventBase now ids) previousStepId currentStepId"

fun event_base :: "execution_event \<Rightarrow> execution_event_base" where
  "event_base (ExecutionStarted b _ _) = b"
| "event_base (ExecutionProgress b _ _ _) = b"
| "event_base (ExecutionPaused b) = b"
| "event_base (ExecutionResumed b) = b"
| "event_base (ExecutionCompleted b _ _ _ _) = b"
| "event_base (ExecutionFailed b _ _ _ _) = b"
| "event_base (ExecutionCancelled b _ _) = b"
| "event_base (StepStarted b _ _ _) = b"
| "event_base (StepCompleted b _ _ _) = b"
| "event_base (StepFailed b _ _ _ _) = b"
| "event_base (RetryStarted b _ _ _ _) = b"
| "event_base (RetryCompleted b _ _ _) = b"
| "event_base (CheckpointCreated b _ _) = b"
| "event_base (CurrentStepChanged b _ _) = b"

lemmas event_defs = executionStarted_def executionProgress_def executionPaused_def
  executionResumed_def executionCompleted_def executionFailed_def executionCancelled_def
  stepStarted_def stepCompleted_def stepFailed_def retryStarted_def retryCompleted_def
  checkpointCreated_def currentStepChanged_def

lemma off_on_fresh: "h \<notin> set hs \<Longrightarrow> ee_off h (ee_on h hs) = hs"
  by (simp add: ee_off_def ee_on_def remove1_append)

lemma emit_each_handler: "map fst (ee_emit e hs) = hs"
  by (simp add: ee_emit_def comp_def)

end
