(* ===== verification/ExecContext.thy ===== *)
theory ExecContext
  imports ExecState ExecRetry ExecCheckpoint ExecEvents
begin

text \<open>
  The execution context, packages/hermes/src/execution/ExecutionContext.ts: all state of one
  execution. \<open>cx_signal\<close> is the optional abort signal with its \<open>aborted\<close> flag;
  the emitter of the context holds the identities of its handlers.
\<close>

record execution_context =
  cx_ids :: execution_ids
  cx_goal :: string
  cx_availableTools :: "string list"
  cx_availablePlugins :: "string list"
  cx_policy :: execution_policy
  cx_retryPolicy :: retry_policy
  cx_signal :: "bool option"
  cx_requestId :: "string option"
  cx_stateMachine :: execution_state_machine
  cx_history :: execution_history
  cx_retryManager :: retry_manager
  cx_eventEmitter :: "nat emitter"
  cx_plan :: "plan_result option"
  cx_currentStepIndex :: nat
  cx_stepResults :: "execution_step_result list"
  cx_checkpoints :: "execution_checkpoint list"
  cx_startTime :: instant

record context_options =
  co_availableTools :: "string list option"
  co_availablePlugins :: "string list option"
  co_policy :: "execution_policy_overrides option"
  co_retryPolicy :: "retry_policy_overrides option"
  co_signal :: "bool option"
  co_requestId :: "string option"

definition no_policy_overrides :: execution_policy_overrides where
  "no_policy_overrides =
     \<lparr>epo_maxDurationMs = None, epo_maxRetries = None, epo_maxSteps = None,
      epo_defaultStepTimeoutMs = None, epo_cancellation = None, epo_enableCheckpoints = None\<rparr>"

definition no_retry_overrides :: retry_policy_overrides where
  "no_retry_overrides =
     \<lparr>rpo_strategy = None, rpo_maxAttempts = None, rpo_baseDelayMs = None,
      rpo_maxDelayMs = None, rpo_multiplier = None, rpo_retryOn = None\<rparr>"

definition new_context :: "execution_ids \<Rightarrow> string \<Rightarrow> context_options \<Rightarrow> execution_context" where
  "new_context ids goal opts =
     (let retryPol = mergeRetryPolicies DEFAULT_RETRY_POLICY
            (override no_retry_overrides (co_retryPolicy opts))
      in \<lparr>cx_ids = ids, cx_goal = goal,
          cx_availableTools = override [] (co_availableTools opts),
          cx_availablePlugins = override [] (co_availablePlugins opts),
          cx_policy = mergeExecutionPolicies DEFAULT_EXECUTION_POLICY
            (override no_policy_overrides (co_policy opts)),
          cx_retryPolicy = retryPol,
          cx_signal = co_signal opts,
          cx_requestId = co_requestId opts,
          cx_stateMachine = new_state_machine,
          cx_history = new_history,
          cx_retryManager = new_retry_manager retryPol,
          cx_eventEmitter = [],
          cx_plan = None, cx_currentStepIndex = 0, cx_stepResults = [], cx_checkpoints = [],
          cx_startTime = 0\<rparr>)"

text \<open>
  \<open>setPlan\<close> makes an initial checkpoint for a plan with steps: two readings of the clock,
  and one number of the checkpoint counter, which is threaded through.
\<close>

definition setPlan ::
  "instant \<Rightarrow> instant \<Rightarrow> nat \<Rightarrow> plan_result \<Rightarrow> execution_context \<Rightarrow> execution_context \<times> nat" where
  "setPlan now now' counter plan c =
     (let c1 = c\<lparr>cx_plan := Some plan\<rparr>; stepIds = map ps_id (pr_steps plan)
      in if length stepIds > 0 then
           (let (initial, counter') = createInitialCheckpoint now now' counter (cx_ids c1) stepIds
            in (c1\<lparr>cx_checkpoints := cx_checkpoints c1 @ [initial]\<rparr>, counter'))
         else (c1, counter))"

definition getCurrentStep :: "execution_context \<Rightarrow> plan_step option" where
  "getCurrentStep c =
     (case cx_plan c of
        None \<Rightarrow> None
      | Some plan \<Rightarrow>
          (if cx_currentStepIndex c < length (pr_steps plan)
           then Some (pr_steps plan ! cx_currentStepIndex c) else None))"

definition nextStep :: "execution_context \<Rightarrow> bool \<times> execution_context" where
  "nextStep c =
     (case cx_plan c of
        None \<Rightarrow> (False, c)
      | Some plan \<Rightarrow>
          (let c' = c\<lparr>cx_currentStepIndex := cx_currentStepIndex c + 1\<rparr>
           in (cx_currentStepIndex c' < length (pr_steps plan), c')))"

definition addStepResult :: "execution_step_result \<Rightarrow> execution_context \<Rightarrow> execution_context" where
  "addStepResult r c = c\<lparr>cx_stepResults := cx_stepResults c @ [r]\<rparr>"

definition getLatestCheckpoint :: "execution_context \<Rightarrow> execution_checkpoint option" where
  "getLatestCheckpoint c =
     (if cx_checkpoints c = [] then None else Some (last (cx_checkpoints c)))"

definition addCheckpoint :: "execution_checkpoint \<Rightarrow> execution_context \<Rightarrow> execution_context" where
  "addCheckpoint k c = c\<lparr>cx_checkpoints := cx_checkpoints c @ [k]\<rparr>"

text \<open>\<open>start\<close> reads the clock for the context and twice in the history.\<close>

definition cx_start :: "instant \<Rightarrow> instant \<Rightarrow> instant \<Rightarrow> execution_context \<Rightarrow> execution_context" where
  "cx_start t1 t2 t3 c = c\<lparr>cx_startTime := t1, cx_history := h_start t2 t3 (cx_history c)\<rparr>"

definition cx_getDurationMs :: "instant \<Rightarrow> execution_context \<Rightarrow> int" where
  "cx_getDurationMs now c = (if cx_startTime c = 0 then 0 else now - cx_startTime c)"

definition getTotalRetries :: "execution_context \<Rightarrow> nat" where
  "getTotalRetries c = getTotalAttempts (cx_retryManager c)"

definition getStepsCompleted :: "execution_context \<Rightarrow> nat" where
  "getStepsCompleted c = length (filter sr_success (cx_stepResults c))"

definition getTotalSteps :: "execution_context \<Rightarrow> nat" where
  "getTotalSteps c = (case cx_plan c of None \<Rightarrow> 0 | Some plan \<Rightarrow> length (pr_steps plan))"

subsection \<open>Laws\<close>

lemma new_context_simps [simp]:
  "cx_stateMachine (new_context ids goal opts) = new_state_machine"
  "cx_plan (new_context ids goal opts) = None"
  "cx_currentStepIndex (new_context ids goal opts) = 0"
  "cx_stepResults (new_context ids goal opts) = []"
  "cx_signal (new_context ids goal opts) = co_signal opts"
  "cx_history (new_context ids goal opts) = new_history"
  by (simp_all add: new_context_def Let_def)

lemma new_context_retry:
  "cx_retryManager (new_context ids goal opts) = new_retry_manager (cx_retryPolicy (new_context ids goal opts))"
  by (simp add: new_context_def Let_def)

lemma setPlan_frame [simp]:
  "cx_plan (fst (setPlan n n' k p c)) = Some p"
  "cx_currentStepIndex (fst (setPlan n n' k p c)) = cx_currentStepIndex c"
  "cx_stateMachine (fst (setPlan n n' k p c)) = cx_stateMachine c"
  "cx_stepResults (fst (setPlan n n' k p c)) = cx_stepResults c"
  "cx_signal (fst (setPlan n n' k p c)) = cx_signal c"
  "cx_retryManager (fst (setPlan n n' k p c)) = cx_retryManager c"
  "cx_retryPolicy (fst (setPlan n n' k p c)) = cx_retryPolicy c"
  "cx_history (fst (setPlan n n' k p c)) = cx_history c"
  "cx_policy (fst (setPlan n n' k p c)) = cx_policy c"
  "cx_ids (fst (setPlan n n' k p c)) = cx_ids c"
  "cx_goal (fst (setPlan n n' k p c)) = cx_goal c"
  by (simp_all add: setPlan_def Let_def split: prod.splits)

lemma nextStep_Some:
  "cx_plan c = Some p \<Longrightarrow> nextStep c =
     (cx_currentStepIndex c + 1 < length (pr_steps p), c\<lparr>cx_currentStepIndex := cx_currentStepIndex c + 1\<rparr>)"
  by (simp add: nextStep_def Let_def)

lemma getCurrentStep_Some_iff:
  "getCurrentStep c = Some st \<longleftrightarrow> (\<exists>p. cx_plan c = Some p \<and>
     cx_currentStepIndex c < length (pr_steps p) \<and> st = pr_steps p ! cx_currentStepIndex c)"
  by (auto simp: getCurrentStep_def split: option.splits)

end
