(* ===== verification/ExecLoop.thy ===== *)
theory ExecLoop
  imports ExecContext
begin

text \<open>
  The execution loop, packages/hermes/src/execution/ExecutionLoop.ts.

  The code runs on one thread and yields at every \<open>await\<close>: while a step executes, while
  it sleeps before a retry, while it polls for a resume and while it waits for a new plan.
  The record \<open>environment\<close> holds what the code does not determine: the readings of the
  clock, the outcome of the step executor and of the replan callback (code outside the
  repository, or of the engine), and, for the n-th \<open>await\<close>, the calls of \<open>pause\<close>,
  \<open>resume\<close>, \<open>cancel\<close> and \<open>abort\<close> that other code makes meanwhile. Event
  handlers only observe: \<open>emitted\<close> is the sequence of events each of them receives.

  An operation that may throw returns \<open>Inl\<close> of the error beside the state it leaves. The
  loop may run forever, when nobody resumes it or a replanner never stops: it takes fuel, and
  \<open>None\<close> means the fuel was not enough.
\<close>

subsection \<open>The environment and the state of a run\<close>

datatype control = PauseC | ResumeC | CancelC string | AbortC

record environment =
  clock :: "nat \<Rightarrow> instant"
  runStep :: "nat \<Rightarrow> plan_step \<Rightarrow> execution_context \<Rightarrow> string + execution_step_result"
  interference :: "nat \<Rightarrow> control list"
  replanner :: "(nat \<Rightarrow> execution_context \<Rightarrow> string + plan_result) option"

record run =
  cx :: execution_context
  ticks :: nat
  checkpointCounter :: nat
  emitted :: "execution_event list"
  awaits :: nat

abbreviation status :: "run \<Rightarrow> execution_status" where
  "status s \<equiv> getStatus (cx_stateMachine (cx s))"

definition now :: "environment \<Rightarrow> nat \<Rightarrow> run \<Rightarrow> instant" where
  "now env k s = clock env (ticks s + k)"

definition tick :: "nat \<Rightarrow> run \<Rightarrow> run" where
  "tick k s = s\<lparr>ticks := ticks s + k\<rparr>"

definition upd :: "(execution_context \<Rightarrow> execution_context) \<Rightarrow> run \<Rightarrow> run" where
  "upd f s = s\<lparr>cx := f (cx s)\<rparr>"

definition set_machine :: "execution_state_machine \<Rightarrow> run \<Rightarrow> run" where
  "set_machine m = upd (\<lambda>c. c\<lparr>cx_stateMachine := m\<rparr>)"

definition emit :: "environment \<Rightarrow> (instant \<Rightarrow> execution_event) \<Rightarrow> run \<Rightarrow> run" where
  "emit env mk s = tick 1 (s\<lparr>emitted := emitted s @ [mk (now env 0 s)]\<rparr>)"

definition complete_history ::
  "environment \<Rightarrow> execution_status \<Rightarrow> string option \<Rightarrow> run \<Rightarrow> run" where
  "complete_history env st err s =
     tick 2 (upd (\<lambda>c. c\<lparr>cx_history := h_complete (now env 0 s) (now env 1 s) st err (cx_history c)\<rparr>) s)"

text \<open>\<open>getDurationMs\<close> of the context reads the clock only once it has been started.\<close>

definition duration :: "environment \<Rightarrow> run \<Rightarrow> int \<times> run" where
  "duration env s =
     (cx_getDurationMs (now env 0 s) (cx s), if cx_startTime (cx s) = 0 then s else tick 1 s)"

subsection \<open>Pause, resume, cancel\<close>

definition pause :: "environment \<Rightarrow> run \<Rightarrow> run" where
  "pause env s =
     (if canPause (cx_stateMachine (cx s)) then
        (case transition Paused (cx_stateMachine (cx s)) of
           Inl _ \<Rightarrow> s
         | Inr m \<Rightarrow> emit env (\<lambda>t. executionPaused t (cx_ids (cx s))) (set_machine m s))
      else s)"

definition resume :: "environment \<Rightarrow> run \<Rightarrow> run" where
  "resume env s =
     (if canResume (cx_stateMachine (cx s)) then
        (case transition Running (cx_stateMachine (cx s)) of
           Inl _ \<Rightarrow> s
         | Inr m \<Rightarrow> emit env (\<lambda>t. executionResumed t (cx_ids (cx s))) (set_machine m s))
      else s)"

definition cancel :: "environment \<Rightarrow> string \<Rightarrow> run \<Rightarrow> run" where
  "cancel env reason s =
     (if canCancel (cx_stateMachine (cx s)) then
        (case transition Cancelled (cx_stateMachine (cx s)) of
           Inl _ \<Rightarrow> s
         | Inr m \<Rightarrow>
             complete_history env Cancelled (Some reason)
               (emit env (\<lambda>t. executionCancelled t (cx_ids (cx s)) reason (getStepsCompleted (cx s)))
                 (set_machine m s)))
      else s)"

definition abort_signal :: "run \<Rightarrow> run" where
  "abort_signal = upd (\<lambda>c. c\<lparr>cx_signal := map_option (\<lambda>_. True) (cx_signal c)\<rparr>)"

fun apply_control :: "environment \<Rightarrow> control \<Rightarrow> run \<Rightarrow> run" where
  "apply_control env PauseC s = pause env s"
| "apply_control env ResumeC s = resume env s"
| "apply_control env (CancelC reason) s = cancel env reason s"
| "apply_control env AbortC s = abort_signal s"

definition await :: "environment \<Rightarrow> run \<Rightarrow> run" where
  "await env s =
     fold (apply_control env) (interference env (awaits s)) (s\<lparr>awaits := awaits s + 1\<rparr>)"

fun waitForResume :: "environment \<Rightarrow> nat \<Rightarrow> run \<Rightarrow> run option" where
  "waitForResume env 0 s = (if status s \<noteq> Paused then Some s else None)"
| "waitForResume env (Suc fuel) s =
     (if status s \<noteq> Paused then Some s else waitForResume env fuel (await env s))"

subsection \<open>One step\<close>

definition executeStep ::
  "environment \<Rightarrow> plan_step \<Rightarrow> run \<Rightarrow> (execution_error + execution_step_result) \<times> run" where
  "executeStep env step s =
     (let m = cx_stateMachine (cx s)
      in case (if getStepState m (ps_id step) \<noteq> StepRunning
               then setStepState (ps_id step) StepRunning m else Inr m) of
           Inl e \<Rightarrow> (Inl e, s)
         | Inr m' \<Rightarrow>
             (let s1 = set_machine m' s;
                  s2 = emit env (\<lambda>t. stepStarted t (cx_ids (cx s1)) (ps_id step) (ps_title step)
                         (cx_currentStepIndex (cx s1))) s1;
                  outcome = runStep env (awaits s2) step (cx s2);
                  s3 = await env s2
              in case outcome of
                   Inr result \<Rightarrow> (Inr result, s3)
                 | Inl message \<Rightarrow>
                     (Inr \<lparr>sr_stepId = ps_id step, sr_success = False, sr_data = None,
                           sr_error = Some message, sr_errorCode = Some ''STEP_EXECUTION_ERROR'',
                           sr_durationMs = 0, sr_retryAttempts = 0,
                           sr_completedAt = now env 0 s3\<rparr>, tick 1 s3)))"

definition createStepCheckpoint ::
  "environment \<Rightarrow> string \<Rightarrow> run \<Rightarrow> execution_checkpoint \<times> run" where
  "createStepCheckpoint env completedStepId s =
     (let c = cx s;
          allStepIds = (case cx_plan c of None \<Rightarrow> [] | Some p \<Rightarrow> map ps_id (pr_steps p));
          completedIds = map sr_stepId (filter sr_success (cx_stepResults c));
          remainingIds = filter (\<lambda>i. i \<notin> set completedIds \<and> i \<noteq> completedStepId) allStepIds;
          statistics = getStatistics (now env 0 s) (cx_history c);
          s1 = (if h_endTime (cx_history c) > 0 then s else tick 1 s);
          (k, counter') = createCheckpoint (now env 0 s1) (now env 1 s1) (checkpointCounter s1)
             (cx_ids c) completedStepId completedIds remainingIds (status s) (cx_stepResults c)
             statistics
      in (k, tick 2 (s1\<lparr>checkpointCounter := counter'\<rparr>)))"

text \<open>What the loop does with every result, before it looks at the outcome.\<close>

definition recordResult ::
  "environment \<Rightarrow> plan_step \<Rightarrow> execution_step_result \<Rightarrow> run \<Rightarrow> run" where
  "recordResult env step result s =
     (let s1 = upd (addStepResult result) s;
          s2 = tick 1 (upd (\<lambda>c. c\<lparr>cx_history := h_stepCompleted (now env 0 s1) result (cx_history c)\<rparr>) s1)
      in if ep_enableCheckpoints (cx_policy (cx s2)) then
           (let (k, s3) = createStepCheckpoint env (ps_id step) s2;
                s4 = upd (addCheckpoint k) s3
            in emit env (\<lambda>t. checkpointCreated t (cx_ids (cx s4)) (ck_id k) (getStepsCompleted (cx s4))) s4)
         else s2)"

definition stepSucceeded ::
  "environment \<Rightarrow> plan_step \<Rightarrow> execution_step_result \<Rightarrow> run \<Rightarrow> (execution_error + bool) \<times> run" where
  "stepSucceeded env step result s =
     (case setStepState (ps_id step) StepCompletedState (cx_stateMachine (cx s)) of
        Inl e \<Rightarrow> (Inl e, s)
      | Inr m \<Rightarrow>
          (let s1 = emit env (\<lambda>t. stepCompleted t (cx_ids (cx s)) (ps_id step) (sr_durationMs result) True)
                 (set_machine m s);
               s2 = emit env (\<lambda>t. executionProgress t (cx_ids (cx s)) (ps_id step)
                 (getStepsCompleted (cx s1)) (getTotalSteps (cx s1))) s1;
               (hasMore, c') = nextStep (cx s2)
           in (Inr hasMore, s2\<lparr>cx := c'\<rparr>)))"

definition retryStep ::
  "environment \<Rightarrow> plan_step \<Rightarrow> run \<Rightarrow> (execution_error + bool) \<times> run" where
  "retryStep env step s =
     (let (r, rm) = recordAttempt (ps_id step) (cx_retryManager (cx s));
          s1 = upd (\<lambda>c. c\<lparr>cx_retryManager := rm\<rparr>) s
      in if rr_exhausted r then (Inl (RetryExhaustedError (ps_id step) (rr_attempt r)), s1)
         else
           (let s2 = emit env (\<lambda>t. retryStarted t (cx_ids (cx s1)) (ps_id step) (rr_attempt r)
                       (rp_maxAttempts (cx_retryPolicy (cx s1))) (rr_delayMs r)) s1
            in case setStepState (ps_id step) StepRetrying (cx_stateMachine (cx s2)) of
                 Inl e \<Rightarrow> (Inl e, s2)
               | Inr m \<Rightarrow>
                   (let s3 = await env (set_machine m s2)
                    in case setStepState (ps_id step) StepRunning (cx_stateMachine (cx s3)) of
                         Inl e \<Rightarrow> (Inl e, s3)
                       | Inr m' \<Rightarrow> (Inr True, set_machine m' s3))))"

text \<open>\<open>undefined\<close> in a template string prints as such.\<close>

definition shown :: "string option \<Rightarrow> string" where
  "shown e = (case e of None \<Rightarrow> ''undefined'' | Some x \<Rightarrow> x)"

definition replanStep ::
  "environment \<Rightarrow> plan_step \<Rightarrow> execution_step_result \<Rightarrow> run \<Rightarrow> (execution_error + bool) \<times> run" where
  "replanStep env step result s =
     (let failure = StepFailedError (ps_id step) (override ''Unknown error'' (sr_error result))
      in case replanner env of
           None \<Rightarrow> (Inl failure, s)
         | Some replan \<Rightarrow>
             (let reason = ''Step '' @ quoted (ps_id step) @ '' failed: '' @ shown (sr_error result);
                  s1 = tick 1 (upd (\<lambda>c. c\<lparr>cx_history :=
                         h_replanRequested (now env 0 s) reason (cx_history c)\<rparr>) s)
              in case transition Replanning (cx_stateMachine (cx s1)) of
                   Inl e \<Rightarrow> (Inl e, s1)
                 | Inr m \<Rightarrow>
                     (let s2 = set_machine m s1;
                          outcome = replan (awaits s2) (cx s2);
                          s3 = await env s2
                      in case outcome of
                           Inl _ \<Rightarrow> (Inl failure, s3)
                         | Inr newPlan \<Rightarrow>
                             (let (c', k) = setPlan (now env 0 s3) (now env 1 s3)
                                    (checkpointCounter s3) newPlan (cx s3);
                                  s4 = (if pr_steps newPlan = [] then id else tick 2)
                                    (s3\<lparr>cx := c', checkpointCounter := k\<rparr>)
                              in case transition Running (cx_stateMachine (cx s4)) of
                                   Inl _ \<Rightarrow> (Inl failure, s4)
                                 | Inr m' \<Rightarrow> (Inr True, set_machine m' s4)))))"

definition stepFailedBranch ::
  "environment \<Rightarrow> plan_step \<Rightarrow> execution_step_result \<Rightarrow> run \<Rightarrow> (execution_error + bool) \<times> run" where
  "stepFailedBranch env step result s =
     (case setStepState (ps_id step) StepFailedState (cx_stateMachine (cx s)) of
        Inl e \<Rightarrow> (Inl e, s)
      | Inr m \<Rightarrow>
          (let s1 = emit env (\<lambda>t. stepFailed t (cx_ids (cx s)) (ps_id step)
                      (override ''Unknown error'' (sr_error result)) (sr_durationMs result)
                      (sr_errorCode result)) (set_machine m s)
           in if shouldRetry (cx_retryManager (cx s1)) (ps_id step) (sr_errorCode result)
              then retryStep env step s1
              else replanStep env step result s1))"

text \<open>
  The body of the loop for a current step: \<open>Inr True\<close> goes round again, \<open>Inr False\<close>
  leaves the loop, \<open>Inl\<close> throws.
\<close>

definition iterate ::
  "environment \<Rightarrow> plan_step \<Rightarrow> run \<Rightarrow> (execution_error + bool) \<times> run" where
  "iterate env step s =
     (case executeStep env step s of
        (Inl e, s1) \<Rightarrow> (Inl e, s1)
      | (Inr result, s1) \<Rightarrow>
          (let s2 = recordResult env step result s1
           in if sr_success result then stepSucceeded env step result s2
              else stepFailedBranch env step result s2))"

subsection \<open>The loop\<close>

fun run_loop :: "environment \<Rightarrow> nat \<Rightarrow> run \<Rightarrow> ((execution_error + unit) \<times> run) option" where
  "run_loop env 0 s = None"
| "run_loop env (Suc fuel) s =
     (if cx_signal (cx s) = Some True
      then Some (Inl (ExecutionCancelledError ''Signal aborted''), s)
      else case waitForResume env fuel s of
             None \<Rightarrow> None
           | Some s1 \<Rightarrow>
               (case getCurrentStep (cx s1) of
                  None \<Rightarrow> Some (Inr (), s1)
                | Some step \<Rightarrow>
                    (case iterate env step s1 of
                       (Inl e, s2) \<Rightarrow> Some (Inl e, s2)
                     | (Inr goOn, s2) \<Rightarrow>
                         (if goOn then run_loop env fuel s2 else Some (Inr (), s2)))))"

definition finish_execution :: "environment \<Rightarrow> run \<Rightarrow> (execution_error + unit) \<times> run" where
  "finish_execution env s =
     (if status s \<noteq> Cancelled then
        (case transition Completed (cx_stateMachine (cx s)) of
           Inl e \<Rightarrow> (Inl e, s)
         | Inr m \<Rightarrow>
             (let (d, s1) = duration env (set_machine m s);
                  c = cx s1;
                  s2 = emit env (\<lambda>t. executionCompleted t (cx_ids c) d (getStepsCompleted c)
                         (getTotalSteps c) (getTotalRetries c)) s1
              in (Inr (), complete_history env Completed None s2)))
      else (Inr (), s))"

definition is_cancellation :: "execution_error \<Rightarrow> bool" where
  "is_cancellation e \<longleftrightarrow> (case e of ExecutionCancelledError _ \<Rightarrow> True | _ \<Rightarrow> False)"

text \<open>The \<open>catch\<close> clause of \<open>execute\<close>; \<open>Inl\<close> when it throws itself.\<close>

definition handle_error ::
  "environment \<Rightarrow> execution_error \<Rightarrow> run \<Rightarrow> (execution_error + unit) \<times> run" where
  "handle_error env e s =
     (let m = cx_stateMachine (cx s) in
      if is_cancellation e \<or> status s = Cancelled then
        (case (if status s \<noteq> Cancelled then transition Cancelled m else Inr m) of
           Inl e' \<Rightarrow> (Inl e', s)
         | Inr m' \<Rightarrow>
             (let reason = (if is_cancellation e then error_message e else ''cancelled'');
                  s1 = emit env (\<lambda>t. executionCancelled t (cx_ids (cx s)) reason (getStepsCompleted (cx s)))
                         (set_machine m' s)
              in (Inr (), complete_history env Cancelled (Some reason) s1)))
      else
        (case (if status s \<noteq> Failed then transition Failed m else Inr m) of
           Inl e' \<Rightarrow> (Inl e', s)
         | Inr m' \<Rightarrow>
             (let message = error_message e;
                  failedStep = (case getCurrentStep (cx s) of None \<Rightarrow> ''unknown'' | Some st \<Rightarrow> ps_id st);
                  (d, s1) = duration env (set_machine m' s);
                  s2 = emit env (\<lambda>t. executionFailed t (cx_ids (cx s)) message d failedStep None) s1
              in (Inr (), complete_history env Failed (Some message) s2))))"

definition execute ::
  "environment \<Rightarrow> nat \<Rightarrow> run \<Rightarrow> ((execution_error + unit) \<times> run) option" where
  "execute env fuel s =
     (case cx_plan (cx s) of
        None \<Rightarrow> Some (Inl (ExecutionFailedError ''No plan set for execution''), s)
      | Some plan \<Rightarrow>
          (let s1 = tick 3 (upd (cx_start (now env 0 s) (now env 1 s) (now env 2 s)) s)
           in case transition Running (cx_stateMachine (cx s1)) of
                Inl e \<Rightarrow> Some (Inl e, s1)
              | Inr m \<Rightarrow>
                  (let s2 = emit env (\<lambda>t. executionStarted t (cx_ids (cx s1)) (cx_goal (cx s1))
                              (length (pr_steps plan))) (set_machine m s1)
                   in case run_loop env fuel s2 of
                        None \<Rightarrow> None
                      | Some (Inl e, s3) \<Rightarrow> Some (handle_error env e s3)
                      | Some (Inr _, s3) \<Rightarrow>
                          (case finish_execution env s3 of
                             (Inl e, s4) \<Rightarrow> Some (handle_error env e s4)
                           | (Inr _, s4) \<Rightarrow> Some (Inr (), s4)))))"

end
