(* ===== verification/ExecLoopFacts.thy ===== *)
theory ExecLoopFacts
  imports ExecLoop PlanTypes
begin

text \<open>
  Frame and effect lemmas of the execution loop: which part of the state each operation
  writes, what the controls of other code do to the status, and the invariants of one
  iteration. The properties of the next theories rest on these.
\<close>

subsection \<open>Primitive effects\<close>

lemma cx_prim [simp]:
  "cx (tick k s) = cx s"
  "cx (upd f s) = f (cx s)"
  "cx (set_machine m s) = (cx s)\<lparr>cx_stateMachine := m\<rparr>"
  "cx (emit env mk s) = cx s"
  "cx (snd (duration env s)) = cx s"
  "cx (complete_history env st err s) = (cx s)\<lparr>cx_history := h_complete (now env 0 s) (now env 1 s) st err (cx_history (cx s))\<rparr>"
  by (simp_all add: tick_def upd_def set_machine_def emit_def duration_def complete_history_def)

lemma emitted_prim [simp]:
  "emitted (tick k s) = emitted s"
  "emitted (upd f s) = emitted s"
  "emitted (set_machine m s) = emitted s"
  "emitted (emit env mk s) = emitted s @ [mk (now env 0 s)]"
  "emitted (snd (duration env s)) = emitted s"
  "emitted (complete_history env st err s) = emitted s"
  by (simp_all add: tick_def upd_def set_machine_def emit_def duration_def complete_history_def)

lemma awaits_prim [simp]:
  "awaits (tick k s) = awaits s"
  "awaits (upd f s) = awaits s"
  "awaits (set_machine m s) = awaits s"
  "awaits (emit env mk s) = awaits s"
  "awaits (snd (duration env s)) = awaits s"
  "awaits (complete_history env st err s) = awaits s"
  by (simp_all add: tick_def upd_def set_machine_def emit_def duration_def complete_history_def)

subsection \<open>Controls\<close>

fun control_status :: "control \<Rightarrow> execution_status \<Rightarrow> execution_status" where
  "control_status PauseC st = (if st = Running then Paused else st)"
| "control_status ResumeC st = (if st = Paused then Running else st)"
| "control_status (CancelC _) st = (if isTerminalStatus st then st else Cancelled)"
| "control_status AbortC st = st"

text \<open>\<open>quiet s s'\<close>: everything but status, history, signal, events and clock agrees.\<close>

definition quiet :: "run \<Rightarrow> run \<Rightarrow> bool" where
  "quiet s s' \<longleftrightarrow>
     cx_plan (cx s') = cx_plan (cx s) \<and>
     cx_currentStepIndex (cx s') = cx_currentStepIndex (cx s) \<and>
     cx_stepResults (cx s') = cx_stepResults (cx s) \<and>
     cx_retryManager (cx s') = cx_retryManager (cx s) \<and>
     cx_retryPolicy (cx s') = cx_retryPolicy (cx s) \<and>
     cx_policy (cx s') = cx_policy (cx s) \<and>
     stepStates (cx_stateMachine (cx s')) = stepStates (cx_stateMachine (cx s))"

lemma quiet_refl [simp]: "quiet s s"
  by (simp add: quiet_def)

lemma quiet_trans [trans]: "quiet a b \<Longrightarrow> quiet b c \<Longrightarrow> quiet a c"
  by (simp add: quiet_def)

lemma transition_Inr_ex: "canTransition to m \<Longrightarrow> transition to m = Inr (m\<lparr>currentStatus := to\<rparr>)"
  by (simp add: transition_Inr_iff)

lemma pause_eq:
  "pause env s = (if status s = Running then
     emit env (\<lambda>t. executionPaused t (cx_ids (cx s)))
       (set_machine ((cx_stateMachine (cx s))\<lparr>currentStatus := Paused\<rparr>) s) else s)"
  by (simp add: pause_def canPause_def getStatus_def transition_Inr_ex canTransition_def)

lemma resume_eq:
  "resume env s = (if status s = Paused then
     emit env (\<lambda>t. executionResumed t (cx_ids (cx s)))
       (set_machine ((cx_stateMachine (cx s))\<lparr>currentStatus := Running\<rparr>) s) else s)"
  by (simp add: resume_def canResume_def getStatus_def transition_Inr_ex canTransition_def)

lemma cancel_eq:
  "cancel env reason s = (if isTerminalStatus (status s) then s else
     complete_history env Cancelled (Some reason)
       (emit env (\<lambda>t. executionCancelled t (cx_ids (cx s)) reason (getStepsCompleted (cx s)))
         (set_machine ((cx_stateMachine (cx s))\<lparr>currentStatus := Cancelled\<rparr>) s)))"
proof -
  have "canCancel m \<longleftrightarrow> \<not> isTerminalStatus (getStatus m)" for m
    by (auto simp: canCancel_def isTerminalStatus_def getStatus_def)
  moreover have "transition Cancelled m = Inr (m\<lparr>currentStatus := Cancelled\<rparr>)" if "canCancel m" for m
    using that canCancel_iff_canTransition transition_Inr_ex by blast
  ultimately show ?thesis by (simp add: cancel_def)
qed

lemma apply_control_status: "status (apply_control env c s) = control_status c (status s)"
  by (cases c) (simp_all add: pause_eq resume_eq cancel_eq abort_signal_def getStatus_def)

lemma apply_control_quiet: "quiet s (apply_control env c s)"
  by (cases c) (simp_all add: pause_eq resume_eq cancel_eq abort_signal_def quiet_def)

lemma apply_control_signal:
  "cx_signal (cx (apply_control env c s)) =
     (if c = AbortC then map_option (\<lambda>_. True) (cx_signal (cx s)) else cx_signal (cx s))"
  by (cases c) (simp_all add: pause_eq resume_eq cancel_eq abort_signal_def)

lemma apply_control_awaits [simp]: "awaits (apply_control env c s) = awaits s"
  by (cases c) (simp_all add: pause_eq resume_eq cancel_eq abort_signal_def)

text \<open>Counting the starts of a step among the emitted events.\<close>

fun is_start :: "string \<Rightarrow> execution_event \<Rightarrow> bool" where
  "is_start i (StepStarted _ j _ _) = (j = i)"
| "is_start i _ = False"

definition starts :: "string \<Rightarrow> run \<Rightarrow> nat" where
  "starts i s = length (filter (is_start i) (emitted s))"

lemma apply_control_starts [simp]: "starts i (apply_control env c s) = starts i s"
  by (cases c)
    (simp_all add: pause_eq resume_eq cancel_eq abort_signal_def starts_def event_defs)

definition controls_status :: "control list \<Rightarrow> execution_status \<Rightarrow> execution_status" where
  "controls_status cs st = fold control_status cs st"

lemma controls_fold_status:
  "status (fold (apply_control env) cs s) = controls_status cs (status s)"
  by (induction cs arbitrary: s) (simp_all add: controls_status_def apply_control_status)

lemma controls_fold_quiet: "quiet s (fold (apply_control env) cs s)"
proof (induction cs arbitrary: s)
  case Nil
  then show ?case by simp
next
  case (Cons c cs)
  have "quiet (apply_control env c s) (fold (apply_control env) cs (apply_control env c s))"
    by (rule Cons.IH)
  with apply_control_quiet show ?case by (simp del: apply_control.simps) (rule quiet_trans)
qed

lemma controls_fold_awaits: "awaits (fold (apply_control env) cs s) = awaits s"
  by (induction cs arbitrary: s) simp_all

lemma controls_fold_starts: "starts i (fold (apply_control env) cs s) = starts i s"
  by (induction cs arbitrary: s) simp_all

lemma controls_fold_signal:
  "AbortC \<notin> set cs \<Longrightarrow> cx_signal (cx (fold (apply_control env) cs s)) = cx_signal (cx s)"
  by (induction cs arbitrary: s) (auto simp: apply_control_signal)

lemmas controls_fold = controls_fold_status controls_fold_quiet controls_fold_awaits
  controls_fold_starts controls_fold_signal

lemma await_status [simp]:
  "status (await env s) = controls_status (interference env (awaits s)) (status s)"
  by (simp add: await_def controls_fold)

lemma await_awaits [simp]: "awaits (await env s) = awaits s + 1"
  by (simp add: await_def controls_fold)

lemma await_starts [simp]: "starts i (await env s) = starts i s"
proof -
  have "starts i (s\<lparr>awaits := a\<rparr>) = starts i s" for a by (simp add: starts_def)
  then show ?thesis by (simp add: await_def controls_fold)
qed

lemma await_quiet: "quiet s (await env s)"
proof -
  have "quiet s (s\<lparr>awaits := a\<rparr>)" for a by (simp add: quiet_def)
  then show ?thesis unfolding await_def using controls_fold quiet_trans by blast
qed

lemma await_signal:
  "AbortC \<notin> set (interference env (awaits s)) \<Longrightarrow> cx_signal (cx (await env s)) = cx_signal (cx s)"
  by (simp add: await_def controls_fold)

lemmas await_frame [simp] = await_quiet [unfolded quiet_def, THEN conjunct1]
  await_quiet [unfolded quiet_def, THEN conjunct2, THEN conjunct1]
  await_quiet [unfolded quiet_def, THEN conjunct2, THEN conjunct2, THEN conjunct1]
  await_quiet [unfolded quiet_def, THEN conjunct2, THEN conjunct2, THEN conjunct2, THEN conjunct1]
  await_quiet [unfolded quiet_def, THEN conjunct2, THEN conjunct2, THEN conjunct2, THEN conjunct2, THEN conjunct1]
  await_quiet [unfolded quiet_def, THEN conjunct2, THEN conjunct2, THEN conjunct2, THEN conjunct2, THEN conjunct2, THEN conjunct1]
  await_quiet [unfolded quiet_def, THEN conjunct2, THEN conjunct2, THEN conjunct2, THEN conjunct2, THEN conjunct2, THEN conjunct2]

lemma await_stepState [simp]:
  "getStepState (cx_stateMachine (cx (await env s))) i = getStepState (cx_stateMachine (cx s)) i"
  by (simp add: getStepState_def)

subsection \<open>Where the status of a run can be\<close>

text \<open>Between its start and its end an execution is running, paused, replanning or cancelled.\<close>

definition active :: "execution_status \<Rightarrow> bool" where
  "active st \<longleftrightarrow> st \<in> {Running, Paused, Replanning, Cancelled}"

lemma active_control: "active st \<Longrightarrow> active (control_status c st)"
  by (cases c) (auto simp: active_def isTerminalStatus_def)

lemma active_controls: "active st \<Longrightarrow> active (controls_status cs st)"
  unfolding controls_status_def by (induction cs arbitrary: st) (simp_all add: active_control)

lemma no_pause_control: "st \<noteq> Paused \<Longrightarrow> c \<noteq> PauseC \<Longrightarrow> control_status c st \<noteq> Paused"
  by (cases c) auto

lemma no_pause_controls: "st \<noteq> Paused \<Longrightarrow> PauseC \<notin> set cs \<Longrightarrow> controls_status cs st \<noteq> Paused"
proof (induction cs arbitrary: st)
  case Nil
  then show ?case by (simp add: controls_status_def)
next
  case (Cons c cs)
  from Cons.prems have "control_status c st \<noteq> Paused" and "PauseC \<notin> set cs"
    using no_pause_control [of st c] by simp_all (metis)
  then have "controls_status cs (control_status c st) \<noteq> Paused" by (rule Cons.IH)
  then show ?case by (simp add: controls_status_def)
qed

lemma cancelled_controls [simp]: "controls_status cs Cancelled = Cancelled"
proof -
  have "control_status c Cancelled = Cancelled" for c
    by (cases c) (simp_all add: isTerminalStatus_def)
  then show ?thesis unfolding controls_status_def by (induction cs) simp_all
qed

lemma controls_status_Nil [simp]: "controls_status [] st = st"
  by (simp add: controls_status_def)

lemma waitForResume_quiet:
  "waitForResume env fuel s = Some s' \<Longrightarrow>
     quiet s s' \<and> status s' \<noteq> Paused \<and> (active (status s) \<longrightarrow> active (status s')) \<and>
     starts i s' = starts i s"
proof (induction env fuel s rule: waitForResume.induct)
  case (1 env s)
  then show ?case by (auto split: if_splits)
next
  case (2 env fuel s)
  show ?case
  proof (cases "status s = Paused")
    case True
    with 2 have "quiet (await env s) s' \<and> status s' \<noteq> Paused \<and>
        (active (status (await env s)) \<longrightarrow> active (status s')) \<and> starts i s' = starts i (await env s)"
      by simp
    then show ?thesis
      using quiet_trans [OF await_quiet] active_controls by auto
  next
    case False
    with 2 show ?thesis by simp
  qed
qed

lemma waitForResume_id [simp]: "status s \<noteq> Paused \<Longrightarrow> waitForResume env fuel s = Some s"
  by (cases fuel) simp_all

subsection \<open>The parts of an iteration\<close>

lemma getStatus_update [simp]:
  "getStatus (m\<lparr>stepStates := ss\<rparr>) = getStatus m"
  "getStatus (m\<lparr>currentStatus := st\<rparr>) = st"
  "getStepState (m\<lparr>currentStatus := st\<rparr>) i = getStepState m i"
  by (simp_all add: getStatus_def getStepState_def)

lemma starts_prim [simp]:
  "starts i (tick k s) = starts i s"
  "starts i (upd f s) = starts i s"
  "starts i (set_machine m s) = starts i s"
  "starts i (complete_history env st err s) = starts i s"
  "starts i (snd (duration env s)) = starts i s"
  "starts i (s\<lparr>cx := c\<rparr>) = starts i s"
  "starts i (s\<lparr>checkpointCounter := k\<rparr>) = starts i s"
  by (simp_all add: starts_def)

lemma starts_emit: "starts i (emit env mk s) = starts i s + (if is_start i (mk (now env 0 s)) then 1 else 0)"
  by (simp add: starts_def)

lemma executeStep_Inl:
  assumes "executeStep env step s = (Inl e, s')"
  shows "s' = s \<and> \<not> canStepTransition (ps_id step) StepRunning (cx_stateMachine (cx s)) \<and>
    e = InvalidStateTransitionError
      (''step:'' @ step_state_str (getStepState (cx_stateMachine (cx s)) (ps_id step)))
      (''step:'' @ step_state_str StepRunning)"
  using assms
  by (auto simp: executeStep_def Let_def setStepState_def canStepTransition_def split: sum.splits if_splits)

lemma executeStep_Inr:
  assumes "executeStep env step s = (Inr r, s')"
  shows "status s' = controls_status (interference env (awaits s)) (status s) \<and>
    awaits s' = awaits s + 1 \<and>
    starts i s' = starts i s + (if ps_id step = i then 1 else 0) \<and>
    cx_plan (cx s') = cx_plan (cx s) \<and>
    cx_currentStepIndex (cx s') = cx_currentStepIndex (cx s) \<and>
    cx_stepResults (cx s') = cx_stepResults (cx s) \<and>
    cx_retryManager (cx s') = cx_retryManager (cx s) \<and>
    getStepState (cx_stateMachine (cx s')) j =
      (if j = ps_id step then StepRunning else getStepState (cx_stateMachine (cx s)) j)"
  using assms
  by (auto simp: executeStep_def Let_def setStepState_Inr_iff getStepState_update starts_emit
      event_defs split: sum.splits if_splits)

lemma createStepCheckpoint_frame [simp]:
  "cx (snd (createStepCheckpoint env i s)) = cx s"
  "emitted (snd (createStepCheckpoint env i s)) = emitted s"
  "awaits (snd (createStepCheckpoint env i s)) = awaits s"
  by (simp_all add: createStepCheckpoint_def Let_def split: prod.splits)

lemma recordResult_frame [simp]:
  "cx_plan (cx (recordResult env step r s)) = cx_plan (cx s)"
  "cx_currentStepIndex (cx (recordResult env step r s)) = cx_currentStepIndex (cx s)"
  "cx_stepResults (cx (recordResult env step r s)) = cx_stepResults (cx s) @ [r]"
  "cx_retryManager (cx (recordResult env step r s)) = cx_retryManager (cx s)"
  "cx_stateMachine (cx (recordResult env step r s)) = cx_stateMachine (cx s)"
  "cx_signal (cx (recordResult env step r s)) = cx_signal (cx s)"
  "awaits (recordResult env step r s) = awaits s"
  "starts i (recordResult env step r s) = starts i s"
  by (simp_all add: recordResult_def Let_def case_prod_beta addStepResult_def addCheckpoint_def
      starts_def event_defs)


lemma stepSucceeded_facts:
  assumes "stepSucceeded env step r s = (res, s')"
    and "getStepState (cx_stateMachine (cx s)) (ps_id step) = StepRunning"
    and "cx_plan (cx s) = Some p"
  shows "res = Inr (cx_currentStepIndex (cx s) + 1 < length (pr_steps p)) \<and>
    status s' = status s \<and> awaits s' = awaits s \<and> starts i s' = starts i s \<and>
    cx_plan (cx s') = Some p \<and>
    cx_currentStepIndex (cx s') = cx_currentStepIndex (cx s) + 1 \<and>
    cx_stepResults (cx s') = cx_stepResults (cx s) \<and>
    cx_retryManager (cx s') = cx_retryManager (cx s) \<and>
    cx_signal (cx s') = cx_signal (cx s) \<and>
    getStepState (cx_stateMachine (cx s')) j =
      (if j = ps_id step then StepCompletedState else getStepState (cx_stateMachine (cx s)) j)"
proof -
  let ?m = "(cx_stateMachine (cx s))\<lparr>stepStates := jm_set (ps_id step) StepCompletedState
      (stepStates (cx_stateMachine (cx s)))\<rparr>"
  have "setStepState (ps_id step) StepCompletedState (cx_stateMachine (cx s)) = Inr ?m"
    using assms(2) by (simp add: setStepState_Inr_iff canStepTransition_def)
  with assms show ?thesis
    by (auto simp: stepSucceeded_def Let_def nextStep_Some getStepState_update starts_emit event_defs)
qed

lemma retryStep_facts:
  assumes "retryStep env step s = (res, s')"
    and "getStepState (cx_stateMachine (cx s)) (ps_id step) = StepFailedState"
  shows "cx_plan (cx s') = cx_plan (cx s) \<and>
    cx_currentStepIndex (cx s') = cx_currentStepIndex (cx s) \<and>
    cx_stepResults (cx s') = cx_stepResults (cx s) \<and>
    starts i s' = starts i s \<and>
    cx_retryManager (cx s') = snd (recordAttempt (ps_id step) (cx_retryManager (cx s))) \<and>
    (if attempts_of (cx_retryManager (cx s)) (ps_id step) + 1 \<ge> rp_maxAttempts (retryPolicy (cx_retryManager (cx s)))
     then res = Inl (RetryExhaustedError (ps_id step) (attempts_of (cx_retryManager (cx s)) (ps_id step) + 1)) \<and>
       status s' = status s \<and> awaits s' = awaits s
     else res = Inr True \<and> awaits s' = awaits s + 1 \<and>
       status s' = controls_status (interference env (awaits s)) (status s) \<and>
       getStepState (cx_stateMachine (cx s')) j =
         (if j = ps_id step then StepRunning else getStepState (cx_stateMachine (cx s)) j))"
proof -
  obtain rr rm where ra: "recordAttempt (ps_id step) (cx_retryManager (cx s)) = (rr, rm)"
    by fastforce
  have exh: "rr_exhausted rr \<longleftrightarrow>
      attempts_of (cx_retryManager (cx s)) (ps_id step) + 1 \<ge> rp_maxAttempts (retryPolicy (cx_retryManager (cx s)))"
    and att: "rr_attempt rr = attempts_of (cx_retryManager (cx s)) (ps_id step) + 1"
    using ra rr_exhausted_record [of "ps_id step" "cx_retryManager (cx s)"]
      rr_attempt_record [of "ps_id step" "cx_retryManager (cx s)"] by simp_all
  have step1: "setStepState (ps_id step) StepRetrying m =
      Inr (m\<lparr>stepStates := jm_set (ps_id step) StepRetrying (stepStates m)\<rparr>)"
    if "getStepState m (ps_id step) = StepFailedState" for m
    using that by (simp add: setStepState_Inr_iff canStepTransition_def)
  have step2: "setStepState (ps_id step) StepRunning m =
      Inr (m\<lparr>stepStates := jm_set (ps_id step) StepRunning (stepStates m)\<rparr>)"
    if "getStepState m (ps_id step) = StepRetrying" for m
    using that by (simp add: setStepState_Inr_iff canStepTransition_def)
  show ?thesis
  proof (cases "rr_exhausted rr")
    case True
    with assms ra exh att show ?thesis by (auto simp: retryStep_def)
  next
    case False
    with assms ra exh show ?thesis
      by (auto simp: retryStep_def Let_def step1 step2 getStepState_update starts_emit event_defs)
        (auto simp: getStepState_def jm_get_set)
  qed
qed


text \<open>
  Small concrete executions: the inputs at which the properties of the loop are evaluated.
\<close>

definition sample_ids :: execution_ids where
  "sample_ids = \<lparr>executionId = ''e'', goalId = ''g'', planId = ''p'', sessionId = ''s'',
     parentExecutionId = None, correlationId = ''c''\<rparr>"

definition sample_options :: "bool option \<Rightarrow> context_options" where
  "sample_options signal = \<lparr>co_availableTools = None, co_availablePlugins = None, co_policy = None,
     co_retryPolicy = None, co_signal = signal, co_requestId = None\<rparr>"

definition sample_run :: "plan_step list \<Rightarrow> bool option \<Rightarrow> run" where
  "sample_run steps signal =
     \<lparr>cx = fst (setPlan 0 0 0 (sample_plan steps) (new_context sample_ids ''g'' (sample_options signal))),
      ticks = 0, checkpointCounter = 1, emitted = [], awaits = 0\<rparr>"

definition outcome_of :: "plan_step \<Rightarrow> bool \<Rightarrow> string option \<Rightarrow> execution_step_result" where
  "outcome_of step ok code = \<lparr>sr_stepId = ps_id step, sr_success = ok, sr_data = None,
     sr_error = None, sr_errorCode = code, sr_durationMs = 1, sr_retryAttempts = 0,
     sr_completedAt = 1\<rparr>"

definition succeeds :: "nat \<Rightarrow> plan_step \<Rightarrow> execution_context \<Rightarrow> string + execution_step_result" where
  "succeeds n step c = Inr (outcome_of step True None)"

definition fails_with :: "string \<Rightarrow> nat \<Rightarrow> plan_step \<Rightarrow> execution_context \<Rightarrow> string + execution_step_result" where
  "fails_with code n step c = Inr (outcome_of step False (Some code))"

text \<open>Other code acts at the first \<open>await\<close> only.\<close>

definition sample_env ::
  "control list \<Rightarrow> (nat \<Rightarrow> plan_step \<Rightarrow> execution_context \<Rightarrow> string + execution_step_result) \<Rightarrow> environment" where
  "sample_env controls exec =
     \<lparr>clock = (\<lambda>n. int n + 1), runStep = exec,
      interference = (\<lambda>n. if n = 0 then controls else []), replanner = None\<rparr>"

end
