(* ===== verification/ExecSafety.thy ===== *)
theory ExecSafety
  imports ExecLoopFacts
begin

text \<open>
  Safety of the execution loop: where the status is when \<open>execute\<close> returns, when it
  rejects, and how often a step is started.
\<close>

text \<open>No other code pauses the execution.\<close>

definition pauseless :: "environment \<Rightarrow> bool" where
  "pauseless env \<longleftrightarrow> (\<forall>n. PauseC \<notin> set (interference env n))"

lemma pauseless_controls:
  "pauseless env \<Longrightarrow> st \<noteq> Paused \<Longrightarrow> controls_status (interference env n) st \<noteq> Paused"
  by (simp add: pauseless_def no_pause_controls)

lemma replanStep_facts:
  assumes "replanStep env step r s = (res, s')" and "active (status s)"
  shows "active (status s') \<and> starts i s' = starts i s \<and>
    (pauseless env \<longrightarrow> status s \<noteq> Paused \<longrightarrow> status s' \<noteq> Paused)"
proof (cases "replanner env")
  case None
  with assms show ?thesis by (auto simp: replanStep_def Let_def)
next
  case (Some rp)
  define s1 where "s1 = tick 1 (upd (\<lambda>c. c\<lparr>cx_history := h_replanRequested (now env 0 s)
    (''Step '' @ quoted (ps_id step) @ '' failed: '' @ shown (sr_error r)) (cx_history c)\<rparr>) s)"
  have s1: "status s1 = status s" "starts i s1 = starts i s" by (simp_all add: s1_def)
  show ?thesis
  proof (cases "transition Replanning (cx_stateMachine (cx s1))")
    case (Inl e)
    with Some assms(1) have "s' = s1"
      by (simp only: replanStep_def Let_def option.case s1_def sum.case prod.inject)
    with s1 assms(2) show ?thesis by simp
  next
    case (Inr m)
    define s2 where "s2 = set_machine m s1"
    define s3 where "s3 = await env s2"
    have s3: "active (status s3)" "starts i s3 = starts i s" "pauseless env \<Longrightarrow> status s3 \<noteq> Paused"
      using transition_status [OF Inr] active_controls [of Replanning] s1
        pauseless_controls [of env Replanning]
      by (simp_all add: active_def s2_def s3_def)
    note eq1 = replanStep_def Let_def option.case sum.case
    show ?thesis
    proof (cases "rp (awaits s2) (cx s2)")
      case (Inl e)
      with Some Inr assms(1) have "s' = s3"
        by (simp only: eq1 s1_def s2_def s3_def prod.inject)
      with s3 show ?thesis by simp
    next
      case plan: (Inr plan)
      define c where "c = setPlan (now env 0 s3) (now env 1 s3) (checkpointCounter s3) plan (cx s3)"
      define s4 where "s4 = (if pr_steps plan = [] then id else tick 2)
        (s3\<lparr>cx := fst c, checkpointCounter := snd c\<rparr>)"
      have s4: "status s4 = status s3" "starts i s4 = starts i s"
        using s3 by (simp_all add: s4_def c_def starts_def)
      have eq: "replanStep env step r s =
          (case transition Running (cx_stateMachine (cx s4)) of
             Inl _ \<Rightarrow> (Inl (StepFailedError (ps_id step) (override ''Unknown error'' (sr_error r))), s4)
           | Inr m' \<Rightarrow> (Inr True, set_machine m' s4))"
        using Some Inr plan
        by (simp only: eq1 s1_def s2_def s3_def s4_def c_def case_prod_beta)
      show ?thesis
      proof (cases "transition Running (cx_stateMachine (cx s4))")
        case (Inl e)
        with eq assms(1) have "s' = s4" by simp
        with s3 s4 show ?thesis by simp
      next
        case (Inr m')
        with eq assms(1) have "s' = set_machine m' s4" by simp
        with s4 transition_status [OF Inr] show ?thesis by (simp add: active_def)
      qed
    qed
  qed
qed

lemma stepFailedBranch_facts:
  assumes "stepFailedBranch env step r s = (res, s')" and "active (status s)"
    and "getStepState (cx_stateMachine (cx s)) (ps_id step) = StepRunning"
  shows "active (status s') \<and> starts i s' = starts i s \<and>
    (pauseless env \<longrightarrow> status s \<noteq> Paused \<longrightarrow> status s' \<noteq> Paused)"
proof -
  let ?m = "(cx_stateMachine (cx s))\<lparr>stepStates := jm_set (ps_id step) StepFailedState
      (stepStates (cx_stateMachine (cx s)))\<rparr>"
  have m: "setStepState (ps_id step) StepFailedState (cx_stateMachine (cx s)) = Inr ?m"
    using assms(3) by (simp add: setStepState_Inr_iff canStepTransition_def)
  define s1 where "s1 = emit env (\<lambda>t. stepFailed t (cx_ids (cx s)) (ps_id step)
      (override ''Unknown error'' (sr_error r)) (sr_durationMs r) (sr_errorCode r)) (set_machine ?m s)"
  have s1: "status s1 = status s" "starts i s1 = starts i s"
    "getStepState (cx_stateMachine (cx s1)) (ps_id step) = StepFailedState"
    by (simp_all add: s1_def starts_emit event_defs getStepState_update)
  have "(if shouldRetry (cx_retryManager (cx s1)) (ps_id step) (sr_errorCode r)
       then retryStep env step s1 else replanStep env step r s1) = (res, s')"
    using assms(1) unfolding stepFailedBranch_def m s1_def Let_def by (simp only: sum.case)
  then consider "retryStep env step s1 = (res, s')" | "replanStep env step r s1 = (res, s')"
    by (auto split: if_splits)
  then show ?thesis
  proof cases
    case 1
    from retryStep_facts [OF 1 s1(3), of i "ps_id step"] s1(1,2) assms(2) show ?thesis
      by (simp add: active_controls pauseless_controls split: if_splits)
  next
    case 2
    from replanStep_facts [OF 2, of i] s1 assms(2) show ?thesis by simp
  qed
qed

lemma stepSucceeded_safe:
  assumes "stepSucceeded env step r s = (res, s')"
    and "getStepState (cx_stateMachine (cx s)) (ps_id step) = StepRunning"
  shows "status s' = status s \<and> starts i s' = starts i s"
proof -
  let ?m = "(cx_stateMachine (cx s))\<lparr>stepStates := jm_set (ps_id step) StepCompletedState
      (stepStates (cx_stateMachine (cx s)))\<rparr>"
  have "setStepState (ps_id step) StepCompletedState (cx_stateMachine (cx s)) = Inr ?m"
    using assms(2) by (simp add: setStepState_Inr_iff canStepTransition_def)
  with assms(1) show ?thesis
    by (auto simp: stepSucceeded_def Let_def nextStep_def starts_emit event_defs split: option.splits)
qed

lemma iterate_safe:
  assumes "iterate env step s = (res, s')" and "active (status s)"
  shows "active (status s') \<and> starts i s' \<le> starts i s + (if ps_id step = i then 1 else 0) \<and>
    (pauseless env \<longrightarrow> status s \<noteq> Paused \<longrightarrow> status s' \<noteq> Paused)"
proof (cases "executeStep env step s")
  case (Pair x s1)
  show ?thesis
  proof (cases x)
    case (Inl e)
    with Pair assms executeStep_Inl [of env step s e s1] show ?thesis by (simp add: iterate_def)
  next
    case (Inr r)
    note f = executeStep_Inr [OF Pair [unfolded Inr], of i "ps_id step"]
    let ?s2 = "recordResult env step r s1"
    have s2: "active (status ?s2)" "starts i ?s2 = starts i s + (if ps_id step = i then 1 else 0)"
      "getStepState (cx_stateMachine (cx ?s2)) (ps_id step) = StepRunning"
      "pauseless env \<Longrightarrow> status s \<noteq> Paused \<Longrightarrow> status ?s2 \<noteq> Paused"
      using f assms(2) by (simp_all add: active_controls pauseless_controls)
    have "(if sr_success r then stepSucceeded env step r ?s2 else stepFailedBranch env step r ?s2) = (res, s')"
      using assms(1) Pair Inr by (simp add: iterate_def Let_def)
    then consider "stepSucceeded env step r ?s2 = (res, s')" | "stepFailedBranch env step r ?s2 = (res, s')"
      by (auto split: if_splits)
    then show ?thesis
    proof cases
      case 1
      from stepSucceeded_safe [OF 1 s2(3), of i] s2 show ?thesis by simp
    next
      case 2
      from stepFailedBranch_facts [OF 2 s2(1,3), of i] s2 show ?thesis by simp
    qed
  qed
qed

lemma run_loop_active:
  "run_loop env fuel s = Some (res, s') \<Longrightarrow> active (status s) \<Longrightarrow>
     active (status s') \<and> (pauseless env \<longrightarrow> status s \<noteq> Paused \<longrightarrow> status s' \<noteq> Paused)"
proof (induction env fuel s rule: run_loop.induct)
  case (1 env s)
  then show ?case by simp
next
  case (2 env fuel s)
  show ?case
  proof (cases "cx_signal (cx s) = Some True")
    case True
    with 2 show ?thesis by simp
  next
    case False
    with "2.prems" obtain s1 where w: "waitForResume env fuel s = Some s1"
      by (auto split: option.splits)
    with "2.prems"(2) waitForResume_quiet have a: "active (status s1)" and np: "status s1 \<noteq> Paused"
      by blast+
    show ?thesis
    proof (cases "getCurrentStep (cx s1)")
      case None
      with "2.prems" False w a np show ?thesis by simp
    next
      case (Some step)
      obtain x s2 where it: "iterate env step s1 = (x, s2)" by fastforce
      with a np iterate_safe have a2: "active (status s2)" "pauseless env \<Longrightarrow> status s2 \<noteq> Paused"
        by blast+
      show ?thesis
      proof (cases "x = Inr True")
        case True
        with "2.prems" False w Some it have "run_loop env fuel s2 = Some (res, s')" by simp
        with "2.IH" [OF False w Some it [symmetric, unfolded True]] a2 show ?thesis by simp
      next
        case nt: False
        with "2.prems" False w Some it have "s' = s2"
          by (cases x) auto
        with a2 show ?thesis by simp
      qed
    qed
  qed
qed

subsection \<open>Where \<open>execute\<close> ends\<close>

lemma finish_execution_Inr:
  "finish_execution env s = (Inr u, s') \<Longrightarrow> isTerminalStatus (status s')"
  by (auto simp: finish_execution_def Let_def case_prod_beta isTerminalStatus_def transition_Inr_iff
      split: if_splits sum.splits)

lemma finish_execution_Inl:
  "finish_execution env s = (Inl e, s') \<Longrightarrow> s' = s"
  by (auto simp: finish_execution_def Let_def case_prod_beta split: if_splits sum.splits)

lemma handle_error_Inr:
  "handle_error env e s = (Inr u, s') \<Longrightarrow> isTerminalStatus (status s')"
  by (auto simp: handle_error_def Let_def case_prod_beta isTerminalStatus_def transition_Inr_iff
      split: if_splits sum.splits)

lemma handle_error_Inl:
  assumes "handle_error env e s = (Inl e', s')" and "active (status s)"
  shows "s' = s \<and> status s = Paused \<and> \<not> is_cancellation e \<and>
    e' = InvalidStateTransitionError ''paused'' ''failed''"
  using assms
  by (auto simp: handle_error_def Let_def case_prod_beta active_def transition_Inl_iff
      canTransition_def getStatus_def split: if_splits sum.splits)

text \<open>The state in which \<open>execute\<close> enters the loop.\<close>

definition entered :: "environment \<Rightarrow> plan_result \<Rightarrow> run \<Rightarrow> run" where
  "entered env p s =
     (let s1 = tick 3 (upd (cx_start (now env 0 s) (now env 1 s) (now env 2 s)) s)
      in emit env (\<lambda>t. executionStarted t (cx_ids (cx s1)) (cx_goal (cx s1)) (length (pr_steps p)))
           (set_machine ((cx_stateMachine (cx s1))\<lparr>currentStatus := Running\<rparr>) s1))"

lemma entered_facts:
  "status (entered env p s) = Running"
  "cx_plan (cx (entered env p s)) = cx_plan (cx s)"
  "cx_currentStepIndex (cx (entered env p s)) = cx_currentStepIndex (cx s)"
  "cx_retryManager (cx (entered env p s)) = cx_retryManager (cx s)"
  "cx_stepResults (cx (entered env p s)) = cx_stepResults (cx s)"
  "cx_signal (cx (entered env p s)) = cx_signal (cx s)"
  "stepStates (cx_stateMachine (cx (entered env p s))) = stepStates (cx_stateMachine (cx s))"
  "awaits (entered env p s) = awaits s"
  "starts i (entered env p s) = starts i s"
  by (simp_all add: entered_def Let_def cx_start_def starts_emit event_defs)

lemma execute_enters:
  assumes "cx_plan (cx s) = Some p" and "status s = Pending"
  shows "execute env fuel s = (case run_loop env fuel (entered env p s) of
       None \<Rightarrow> None
     | Some (Inl e, s3) \<Rightarrow> Some (handle_error env e s3)
     | Some (Inr _, s3) \<Rightarrow> (case finish_execution env s3 of
         (Inl e, s4) \<Rightarrow> Some (handle_error env e s4)
       | (Inr _, s4) \<Rightarrow> Some (Inr (), s4)))"
proof -
  define s1 where "s1 = tick 3 (upd (cx_start (now env 0 s) (now env 1 s) (now env 2 s)) s)"
  define m where "m = (cx_stateMachine (cx s1))\<lparr>currentStatus := Running\<rparr>"
  have "status s1 = Pending" using assms(2) by (simp add: s1_def cx_start_def)
  then have "transition Running (cx_stateMachine (cx s1)) = Inr m"
    by (simp add: m_def transition_Inr_ex canTransition_def getStatus_def)
  with assms(1) show ?thesis
    by (simp only: execute_def option.case Let_def sum.case s1_def m_def entered_def)
qed

lemma execute_started:
  assumes "execute env fuel s = Some out" and "cx_plan (cx s) = Some p" and "status s = Pending"
  obtains s2 res s3 where "status s2 = Running" and "run_loop env fuel s2 = Some (res, s3)"
    and "(\<exists>e. res = Inl e \<and> out = handle_error env e s3) \<or>
      (\<exists>s4. finish_execution env s3 = (Inr (), s4) \<and> out = (Inr (), s4)) \<or>
      (\<exists>e. finish_execution env s3 = (Inl e, s3) \<and> out = handle_error env e s3)"
proof -
  define s2 where "s2 = entered env p s"
  note eq = execute_enters [OF assms(2,3), of env fuel, folded s2_def]
  have run: "status s2 = Running" by (simp add: s2_def entered_facts)
  from eq assms(1) obtain res s3 where rl: "run_loop env fuel s2 = Some (res, s3)"
    by (cases "run_loop env fuel s2") auto
  have "(\<exists>e. res = Inl e \<and> out = handle_error env e s3) \<or>
      (\<exists>s4. finish_execution env s3 = (Inr (), s4) \<and> out = (Inr (), s4)) \<or>
      (\<exists>e. finish_execution env s3 = (Inl e, s3) \<and> out = handle_error env e s3)"
  proof (cases res)
    case (Inl e)
    with eq rl assms(1) show ?thesis by simp
  next
    case (Inr u)
    with eq rl assms(1) show ?thesis
      by (cases "finish_execution env s3") (auto split: sum.splits dest: finish_execution_Inl)
  qed
  with run rl show ?thesis by (rule that)
qed

lemma execute_ends:
  assumes "execute env fuel s = Some (res, s')" and "cx_plan (cx s) = Some p" and "status s = Pending"
  shows "case res of
       Inr _ \<Rightarrow> isTerminalStatus (status s')
     | Inl e \<Rightarrow> status s' = Paused \<and> e = InvalidStateTransitionError ''paused'' ''failed'' \<and> \<not> pauseless env"
proof -
  obtain s2 r s3 where run: "status s2 = Running" "run_loop env fuel s2 = Some (r, s3)"
    and out: "(\<exists>e. r = Inl e \<and> (res, s') = handle_error env e s3) \<or>
      (\<exists>s4. finish_execution env s3 = (Inr (), s4) \<and> (res, s') = (Inr (), s4)) \<or>
      (\<exists>e. finish_execution env s3 = (Inl e, s3) \<and> (res, s') = handle_error env e s3)"
    by (rule execute_started [OF assms])
  from run run_loop_active [OF run(2)]
  have act: "active (status s3)" and np: "pauseless env \<Longrightarrow> status s3 \<noteq> Paused"
    by (auto simp: active_def)
  from out np show ?thesis
    by (auto split: sum.splits dest: finish_execution_Inr handle_error_Inr [OF sym]
        handle_error_Inl [OF sym act])
qed

end
