(* ===== verification/ExecProgress.thy ===== *)
theory ExecProgress
  imports ExecSafety
begin

text \<open>
  Progress of the execution loop without a replanner: how often a step is started, that
  the loop ends when nobody pauses it or every pause comes to an end, and how an execution ends.
\<close>

subsection \<open>What one iteration can do\<close>

abbreviation max_attempts :: "run \<Rightarrow> nat" where
  "max_attempts s \<equiv> rp_maxAttempts (retryPolicy (cx_retryManager (cx s)))"

abbreviation tries :: "run \<Rightarrow> string \<Rightarrow> nat" where
  "tries s i \<equiv> attempts_of (cx_retryManager (cx s)) i"

text \<open>The parts of the state that the progress of the loop depends on.\<close>

definition stands :: "run \<Rightarrow> plan_result option \<Rightarrow> nat \<Rightarrow> retry_manager \<Rightarrow> bool" where
  "stands s p k m \<longleftrightarrow>
     cx_plan (cx s) = p \<and> cx_currentStepIndex (cx s) = k \<and> cx_retryManager (cx s) = m"

lemma iterate_outcome [consumes 3, case_names Refused Succeeded Retried Gave_up]:
  assumes "iterate env step s = (res, s')" and "replanner env = None" and "cx_plan (cx s) = Some p"
  obtains e where "res = Inl e" "s' = s"
  | "res = Inr (cx_currentStepIndex (cx s) + 1 < length (pr_steps p))"
    "stands s' (Some p) (cx_currentStepIndex (cx s) + 1) (cx_retryManager (cx s))"
    "\<And>i. starts i s' = starts i s + (if ps_id step = i then 1 else 0)"
    "pauseless env \<Longrightarrow> status s \<noteq> Paused \<Longrightarrow> status s' \<noteq> Paused"
  | "res = Inr True" "tries s (ps_id step) + 1 < max_attempts s"
    "stands s' (Some p) (cx_currentStepIndex (cx s))
       (snd (recordAttempt (ps_id step) (cx_retryManager (cx s))))"
    "\<And>i. starts i s' = starts i s + (if ps_id step = i then 1 else 0)"
    "pauseless env \<Longrightarrow> status s \<noteq> Paused \<Longrightarrow> status s' \<noteq> Paused"
  | e where "res = Inl e"
    "\<And>i. starts i s' = starts i s + (if ps_id step = i then 1 else 0)"
proof (cases "executeStep env step s")
  case (Pair x s1)
  show thesis
  proof (cases x)
    case (Inl e)
    with Pair assms executeStep_Inl [of env step s e s1] show thesis
      by (intro that(1)) (auto simp: iterate_def)
  next
    case (Inr r)
    note f = executeStep_Inr [OF Pair [unfolded Inr]]
    define s2 where "s2 = recordResult env step r s1"
    have s2: "cx_plan (cx s2) = Some p" "cx_currentStepIndex (cx s2) = cx_currentStepIndex (cx s)"
      "cx_retryManager (cx s2) = cx_retryManager (cx s)"
      "status s2 = controls_status (interference env (awaits s)) (status s)"
      "getStepState (cx_stateMachine (cx s2)) (ps_id step) = StepRunning"
      using f [of "ps_id step" "ps_id step"] assms(3) by (simp_all add: s2_def)
    have st2: "starts i s2 = starts i s + (if ps_id step = i then 1 else 0)" for i
      using f [of i "ps_id step"] by (simp add: s2_def)
    have br: "(if sr_success r then stepSucceeded env step r s2 else stepFailedBranch env step r s2) = (res, s')"
      using assms(1) Pair Inr by (auto simp: iterate_def Let_def s2_def split: if_splits)
    show thesis
    proof (cases "sr_success r")
      case True
      note g = stepSucceeded_facts [OF br [unfolded if_P [OF True]] s2(5,1)]
      show thesis
        using g [where i = "ps_id step" and j = "ps_id step"] s2 st2 g
        by (intro that(2)) (auto simp: stands_def pauseless_controls)
    next
      case False
      let ?m = "(cx_stateMachine (cx s2))\<lparr>stepStates := jm_set (ps_id step) StepFailedState
          (stepStates (cx_stateMachine (cx s2)))\<rparr>"
      have m: "setStepState (ps_id step) StepFailedState (cx_stateMachine (cx s2)) = Inr ?m"
        using s2(5) by (simp add: setStepState_Inr_iff canStepTransition_def)
      define s3 where "s3 = emit env (\<lambda>t. stepFailed t (cx_ids (cx s2)) (ps_id step)
          (override ''Unknown error'' (sr_error r)) (sr_durationMs r) (sr_errorCode r)) (set_machine ?m s2)"
      have s3: "stands s3 (Some p) (cx_currentStepIndex (cx s)) (cx_retryManager (cx s))"
        "status s3 = status s2" "getStepState (cx_stateMachine (cx s3)) (ps_id step) = StepFailedState"
        using s2 by (simp_all add: s3_def stands_def getStepState_update)
      have st3: "starts i s3 = starts i s2" for i
        by (simp add: s3_def starts_emit event_defs)
      have br3: "(if shouldRetry (cx_retryManager (cx s3)) (ps_id step) (sr_errorCode r)
          then retryStep env step s3 else replanStep env step r s3) = (res, s')"
        using br False unfolding stepFailedBranch_def m s3_def Let_def by (simp only: sum.case if_False)
      show thesis
      proof (cases "shouldRetry (cx_retryManager (cx s3)) (ps_id step) (sr_errorCode r)")
        case no: False
        with br3 assms(2) have "res = Inl (StepFailedError (ps_id step) (override ''Unknown error'' (sr_error r)))"
          "s' = s3" by (auto simp: replanStep_def Let_def)
        with st2 st3 show thesis by (intro that(4)) auto
      next
        case yes: True
        note g = retryStep_facts [OF br3 [unfolded if_P [OF yes]] s3(3), where j = "ps_id step"]
        show thesis
        proof (cases "tries s (ps_id step) + 1 < max_attempts s")
          case True
          with g [of "ps_id step"] g s3 s2 st2 st3 show thesis
            by (intro that(3)) (auto simp: stands_def pauseless_controls)
        next
          case nt: False
          with g [of "ps_id step"] g s3 st2 st3 show thesis
            by (intro that(4)) (auto simp: stands_def)
        qed
      qed
    qed
  qed
qed

subsection \<open>Starts and fuel\<close>

definition attempt_limit :: "run \<Rightarrow> nat" where
  "attempt_limit s = max 1 (max_attempts s)"

text \<open>
  A run is on track when no step from the current one on has used up its attempts, the later
  steps have used none, and no step has been started more often than it may.
\<close>

definition on_track :: "plan_result \<Rightarrow> nat \<Rightarrow> run \<Rightarrow> bool" where
  "on_track p limit s \<longleftrightarrow>
     cx_plan (cx s) = Some p \<and> attempt_limit s = limit \<and>
     (\<forall>j. cx_currentStepIndex (cx s) \<le> j \<longrightarrow> j < length (pr_steps p) \<longrightarrow>
        tries s (ps_id (pr_steps p ! j)) < limit \<and>
        starts (ps_id (pr_steps p ! j)) s \<le> tries s (ps_id (pr_steps p ! j)) \<and>
        (cx_currentStepIndex (cx s) < j \<longrightarrow> tries s (ps_id (pr_steps p ! j)) = 0)) \<and>
     (\<forall>step \<in> set (pr_steps p). starts (ps_id step) s \<le> limit)"

definition remaining :: "plan_result \<Rightarrow> nat \<Rightarrow> run \<Rightarrow> nat" where
  "remaining p limit s =
     (if cx_currentStepIndex (cx s) < length (pr_steps p)
      then (length (pr_steps p) - cx_currentStepIndex (cx s)) * limit
        - tries s (ps_id (pr_steps p ! cx_currentStepIndex (cx s)))
      else 0)"

lemma iterate_on_track:
  assumes "iterate env step s = (res, s')" and "replanner env = None" and "on_track p limit s"
    and "getCurrentStep (cx s) = Some step" and "distinct (map ps_id (pr_steps p))"
  shows "(\<forall>step \<in> set (pr_steps p). starts (ps_id step) s' \<le> limit) \<and>
    (res = Inr True \<longrightarrow> on_track p limit s' \<and> remaining p limit s' < remaining p limit s \<and>
      (pauseless env \<longrightarrow> status s \<noteq> Paused \<longrightarrow> status s' \<noteq> Paused))"
proof -
  let ?k = "cx_currentStepIndex (cx s)" and ?n = "length (pr_steps p)"
  have plan: "cx_plan (cx s) = Some p" using assms(3) by (simp add: on_track_def)
  with assms(4) have k: "?k < ?n" "step = pr_steps p ! ?k"
    by (auto simp: getCurrentStep_Some_iff)
  have own: "tries s (ps_id step) < limit" "starts (ps_id step) s \<le> tries s (ps_id step)"
    using assms(3) k by (auto simp: on_track_def)
  have once: "starts (ps_id st) s + (if ps_id step = ps_id st then 1 else 0) \<le> limit"
    if "st \<in> set (pr_steps p)" for st
    using assms(3) own that by (cases "ps_id step = ps_id st") (auto simp: on_track_def)
  have other: "ps_id (pr_steps p ! j) = ps_id step \<longleftrightarrow> j = ?k" if "j < ?n" for j
    using assms(5) k that by (metis distinct_conv_nth length_map nth_map)
  have ne: "ps_id step \<noteq> ps_id (pr_steps p ! j)" if "?k < j" "j < ?n" for j
    using other [OF that(2)] that by auto
  have uniq: "?k = j" if "ps_id (pr_steps p ! j) = ps_id step" "j < ?n" for j
    using other [OF that(2)] that by auto
  from assms(1,2) plan show ?thesis
  proof (cases rule: iterate_outcome)
    case (Refused e)
    with assms(3) show ?thesis by (simp add: on_track_def)
  next
    case Succeeded
    have lim: "attempt_limit s' = limit"
      using Succeeded(2) assms(3) by (simp add: on_track_def attempt_limit_def stands_def)
    have later: "tries s (ps_id (pr_steps p ! j)) = 0 \<and> starts (ps_id (pr_steps p ! j)) s = 0"
      if "?k < j" "j < ?n" for j
      using assms(3) that less_imp_le [OF that(1)] unfolding on_track_def by (metis le_zero_eq)
    have "on_track p limit s'"
      using Succeeded(2,3) lim later ne once own
      by (auto simp: on_track_def stands_def Suc_le_eq)
    moreover have "remaining p limit s' < remaining p limit s"
    proof (cases "?k + 1 < ?n")
      case True
      then have "remaining p limit s' = (?n - (?k + 1)) * limit"
        using Succeeded(2) later [of "?k + 1"] by (simp add: remaining_def stands_def)
      moreover have "(?n - ?k) * limit = limit + (?n - (?k + 1)) * limit"
        using True by (metis Suc_diff_Suc add.commute mult_Suc plus_1_eq_Suc add_lessD1)
      ultimately show ?thesis using own k by (simp add: remaining_def)
    next
      case False
      then have "remaining p limit s' = 0"
        using Succeeded(2) by (simp add: remaining_def stands_def)
      moreover have "?n - ?k = 1" using False k by simp
      ultimately show ?thesis using own k by (simp add: remaining_def)
    qed
    ultimately show ?thesis using Succeeded(3,4) once by auto
  next
    case Retried
    have lim: "attempt_limit s' = limit" "tries s (ps_id step) + 1 < limit"
      using Retried(2,3) assms(3) by (auto simp: on_track_def attempt_limit_def stands_def)
    have "on_track p limit s'"
      using Retried(3,4) lim ne uniq once own assms(3)
      by (auto simp: on_track_def stands_def attempts_of_record)
    moreover have "remaining p limit s' < remaining p limit s"
    proof -
      have "limit \<le> (?n - ?k) * limit" using k by (cases "?n - ?k") auto
      with lim(2) have "(?n - ?k) * limit - (tries s (ps_id step) + 1) <
          (?n - ?k) * limit - tries s (ps_id step)" by linarith
      with k Retried(3) show ?thesis by (simp add: remaining_def attempts_of_record stands_def)
    qed
    ultimately show ?thesis using Retried(4,5) once by auto
  next
    case (Gave_up e)
    with once show ?thesis by auto
  qed
qed

lemma run_loop_Suc:
  "cx_signal (cx s) \<noteq> Some True \<Longrightarrow> status s \<noteq> Paused \<Longrightarrow>
   run_loop env (Suc fuel) s = (case getCurrentStep (cx s) of
       None \<Rightarrow> Some (Inr (), s)
     | Some step \<Rightarrow> (case iterate env step s of
         (Inl e, s2) \<Rightarrow> Some (Inl e, s2)
       | (Inr goOn, s2) \<Rightarrow> (if goOn then run_loop env fuel s2 else Some (Inr (), s2))))"
  by simp

lemma run_loop_starts:
  assumes "run_loop env fuel s = Some (res, s')" and "replanner env = None" and "on_track p limit s"
    and "distinct (map ps_id (pr_steps p))"
  shows "\<forall>step \<in> set (pr_steps p). starts (ps_id step) s' \<le> limit"
  using assms(1,3)
proof (induction fuel arbitrary: s)
  case 0
  then show ?case by simp
next
  case (Suc fuel)
  show ?case
  proof (cases "cx_signal (cx s) = Some True")
    case True
    with Suc.prems show ?thesis by (simp add: on_track_def)
  next
    case False
    with Suc.prems(1) obtain s1 where w: "waitForResume env fuel s = Some s1"
      by (auto split: option.splits)
    then have "quiet s s1 \<and> starts i s1 = starts i s" for i using waitForResume_quiet by blast
    with Suc.prems(2) have t: "on_track p limit s1"
      by (simp add: on_track_def attempt_limit_def quiet_def)
    show ?thesis
    proof (cases "getCurrentStep (cx s1)")
      case None
      with Suc.prems(1) False w have "s' = s1" by simp
      with t show ?thesis by (simp add: on_track_def)
    next
      case (Some step)
      obtain x s2 where it: "iterate env step s1 = (x, s2)" by fastforce
      note g = iterate_on_track [OF it assms(2) t Some assms(4)]
      show ?thesis
      proof (cases "x = Inr True")
        case True
        with Suc.prems(1) False w Some it have "run_loop env fuel s2 = Some (res, s')" by simp
        with Suc.IH g True show ?thesis by blast
      next
        case nt: False
        with Suc.prems(1) False w Some it have "s' = s2" by (cases x) auto
        with g show ?thesis by simp
      qed
    qed
  qed
qed

lemma run_loop_returns:
  assumes "replanner env = None" and "pauseless env" and "distinct (map ps_id (pr_steps p))"
    and "on_track p limit s" and "status s \<noteq> Paused" and "remaining p limit s < fuel"
  shows "\<exists>out. run_loop env fuel s = Some out"
  using assms(4-6)
proof (induction fuel arbitrary: s)
  case 0
  then show ?case by simp
next
  case (Suc fuel)
  show ?case
  proof (cases "cx_signal (cx s) = Some True")
    case True
    then show ?thesis by simp
  next
    case False
    note un = run_loop_Suc [OF False Suc.prems(2)]
    show ?thesis
    proof (cases "getCurrentStep (cx s)")
      case None
      with un show ?thesis by simp
    next
      case (Some step)
      obtain x s2 where it: "iterate env step s = (x, s2)" by fastforce
      note g = iterate_on_track [OF it assms(1) Suc.prems(1) Some assms(3)]
      show ?thesis
      proof (cases "x = Inr True")
        case True
        with g assms(2) Suc.prems have "\<exists>out. run_loop env fuel s2 = Some out"
          by (intro Suc.IH) auto
        with un Some it True show ?thesis by simp
      next
        case nt: False
        with un Some it show ?thesis by (cases x) auto
      qed
    qed
  qed
qed

subsection \<open>Executions\<close>

text \<open>A run as \<open>execute\<close> finds it: a plan is set and nothing has been tried.\<close>

definition fresh_run :: "plan_result \<Rightarrow> run \<Rightarrow> bool" where
  "fresh_run p s \<longleftrightarrow>
     cx_plan (cx s) = Some p \<and> status s = Pending \<and> cx_currentStepIndex (cx s) = 0 \<and>
     retryStates (cx_retryManager (cx s)) = [] \<and> emitted s = []"

lemma fresh_run_attempts: "fresh_run p s \<Longrightarrow> tries s i = 0 \<and> starts i s = 0"
  by (simp add: fresh_run_def attempts_of_def getState_def starts_def)

lemma handle_error_starts [simp]: "starts i (snd (handle_error env e s)) = starts i s"
  by (simp add: handle_error_def Let_def case_prod_beta starts_emit event_defs
      split: sum.splits if_splits)

lemma finish_execution_starts [simp]: "starts i (snd (finish_execution env s)) = starts i s"
  by (simp add: finish_execution_def Let_def case_prod_beta starts_emit event_defs
      split: sum.splits if_splits)

lemma execute_starts:
  assumes "execute env fuel s = Some (res, s')" and "cx_plan (cx s) = Some p" and "status s = Pending"
  shows "\<exists>r s3. run_loop env fuel (entered env p s) = Some (r, s3) \<and> (\<forall>i. starts i s' = starts i s3)"
  using assms(1) unfolding execute_enters [OF assms(2,3)]
  by (auto split: option.splits sum.splits prod.splits)
    (metis finish_execution_starts handle_error_starts snd_conv)+

text \<open>
  Other code ends every pause: again and again its calls at some await leave a paused
  execution in another status.
\<close>

definition pauses_end :: "environment \<Rightarrow> bool" where
  "pauses_end env \<longleftrightarrow> (\<forall>n. \<exists>m \<ge> n. controls_status (interference env m) Paused \<noteq> Paused)"

lemma wait_returns_within:
  assumes "awaits s \<le> m" and "m \<le> awaits s + d" and "controls_status (interference env m) Paused \<noteq> Paused"
  shows "\<exists>k s1. \<forall>fuel \<ge> k. waitForResume env fuel s = Some s1"
  using assms
proof (induction d arbitrary: s)
  case 0
  then have m: "m = awaits s" by simp
  have "waitForResume env fuel s = Some (if status s = Paused then await env s else s)" if "1 \<le> fuel" for fuel
    using that 0(3) by (cases fuel) (simp_all add: m)
  then show ?case by blast
next
  case (Suc d)
  show ?case
  proof (cases "status s \<noteq> Paused \<or> m = awaits s")
    case True
    have "waitForResume env fuel s = Some (if status s = Paused then await env s else s)" if "1 \<le> fuel" for fuel
      using that True Suc.prems(3) by (cases fuel) auto
    then show ?thesis by blast
  next
    case False
    have "\<exists>k s1. \<forall>fuel \<ge> k. waitForResume env fuel (await env s) = Some s1"
      by (rule Suc.IH) (use Suc.prems False in auto)
    then obtain k s1 where k: "\<forall>fuel \<ge> k. waitForResume env fuel (await env s) = Some s1" by blast
    have "waitForResume env fuel s = Some s1" if "Suc k \<le> fuel" for fuel
      using that k False by (cases fuel) auto
    then show ?thesis by blast
  qed
qed

lemma wait_returns: "pauses_end env \<Longrightarrow> \<exists>k s1. \<forall>fuel \<ge> k. waitForResume env fuel s = Some s1"
  unfolding pauses_end_def by (metis wait_returns_within le_add_diff_inverse le_refl)

lemma quiet_on_track:
  assumes "quiet s s1" and "\<And>i. starts i s1 = starts i s" and "on_track p limit s"
  shows "on_track p limit s1" "remaining p limit s1 = remaining p limit s"
  using assms by (simp_all add: on_track_def remaining_def attempt_limit_def quiet_def)

lemma run_loop_settles:
  assumes "replanner env = None" and "pauses_end env" and "distinct (map ps_id (pr_steps p))"
    and "on_track p limit s"
  shows "\<exists>N out. \<forall>fuel \<ge> N. run_loop env fuel s = Some out"
  using assms(4)
proof (induction "remaining p limit s" arbitrary: s rule: less_induct)
  case less
  show ?case
  proof (cases "cx_signal (cx s) = Some True")
    case True
    then have "run_loop env fuel s = Some (Inl (ExecutionCancelledError ''Signal aborted''), s)" if "1 \<le> fuel" for fuel
      using that by (cases fuel) simp_all
    then show ?thesis by blast
  next
    case False
    obtain k s1 where w: "\<And>fuel. k \<le> fuel \<Longrightarrow> waitForResume env fuel s = Some s1"
      using wait_returns [OF assms(2)] by blast
    have q: "quiet s s1" "starts i s1 = starts i s" for i using waitForResume_quiet [OF w [OF le_refl]] by blast+
    note t = quiet_on_track [OF q less.prems]
    have step_out: "run_loop env (Suc fuel) s = (case getCurrentStep (cx s1) of
        None \<Rightarrow> Some (Inr (), s1)
      | Some step \<Rightarrow> (case iterate env step s1 of
          (Inl e, s2) \<Rightarrow> Some (Inl e, s2)
        | (Inr goOn, s2) \<Rightarrow> (if goOn then run_loop env fuel s2 else Some (Inr (), s2))))" if "k \<le> fuel" for fuel
      using False w [OF that] by simp
    show ?thesis
    proof (cases "\<exists>step s2. getCurrentStep (cx s1) = Some step \<and> iterate env step s1 = (Inr True, s2)")
      case True
      then obtain step s2 where it: "getCurrentStep (cx s1) = Some step" "iterate env step s1 = (Inr True, s2)" by blast
      have "on_track p limit s2" "remaining p limit s2 < remaining p limit s"
        using iterate_on_track [OF it(2) assms(1) t(1) it(1) assms(3)] t(2) by auto
      from less.hyps [OF this(2,1)] obtain N out where N: "\<And>fuel. N \<le> fuel \<Longrightarrow> run_loop env fuel s2 = Some out" by blast
      have "run_loop env fuel s = Some out" if "Suc (max k N) \<le> fuel" for fuel
        using that step_out [of "fuel - 1"] N [of "fuel - 1"] it by (cases fuel) simp_all
      then show ?thesis by blast
    next
      case nt: False
      have "\<exists>out. \<forall>fuel \<ge> k. run_loop env (Suc fuel) s = Some out"
      proof (cases "getCurrentStep (cx s1)")
        case None
        then show ?thesis using step_out by simp
      next
        case (Some step)
        obtain x s2 where it: "iterate env step s1 = (x, s2)" by fastforce
        with nt Some have "x \<noteq> Inr True" by blast
        then show ?thesis using step_out Some it by (cases x) auto
      qed
      then obtain out where out: "\<And>fuel. k \<le> fuel \<Longrightarrow> run_loop env (Suc fuel) s = Some out" by blast
      have "run_loop env fuel s = Some out" if "Suc k \<le> fuel" for fuel
        using that out [of "fuel - 1"] by (cases fuel) simp_all
      then show ?thesis by blast
    qed
  qed
qed

text \<open>The two ways in which an execution may end.\<close>

definition settled :: "execution_error + unit \<Rightarrow> run \<Rightarrow> bool" where
  "settled res s \<longleftrightarrow> (case res of
       Inr _ \<Rightarrow> isTerminalStatus (status s)
     | Inl e \<Rightarrow> status s = Paused \<and> e = InvalidStateTransitionError ''paused'' ''failed'')"

text \<open>
  C2: an execution of a pending plan comes to an end, with one outcome however much fuel there is beyond a
  bound, when there is no replanner, the step identifiers are distinct and other code ends every
  pause. It then ends in one of two ways: \<open>execute\<close> returns and the
  status is terminal, or it throws the one error that its \<open>catch\<close> clause cannot handle:
  the status is then paused, from which the table forbids failed. Whenever an execution ends at all, with a
  replanner and whatever other code does, it ends in one of these ways.
\<close>

theorem execute_settles:
  assumes "fresh_run p s" and "replanner env = None" and "pauses_end env" and "distinct (map ps_id (pr_steps p))"
  shows "(\<exists>N res s'. (\<forall>fuel \<ge> N. execute env fuel s = Some (res, s')) \<and> settled res s')
    \<and> (\<forall>any fuel res s'. execute any fuel s = Some (res, s') \<longrightarrow> settled res s')"
proof -
  have plan: "cx_plan (cx s) = Some p" "status s = Pending" using assms(1) by (simp_all add: fresh_run_def)
  have ends: "settled res s'" if "execute any fuel s = Some (res, s')" for any fuel res s'
    using execute_ends [OF that plan] by (auto simp: settled_def split: sum.splits)
  have t: "on_track p (attempt_limit s) (entered env p s)"
    using fresh_run_attempts [OF assms(1)] assms(1)
    by (auto simp: on_track_def entered_facts fresh_run_def attempt_limit_def)
  obtain N r s3 where N: "\<And>fuel. N \<le> fuel \<Longrightarrow> run_loop env fuel (entered env p s) = Some (r, s3)"
    using run_loop_settles [OF assms(2,3,4) t] by fastforce
  have "\<exists>out. \<forall>fuel \<ge> N. execute env fuel s = Some out"
    unfolding execute_enters [OF plan] by (auto simp: N split: sum.splits prod.splits)
  then obtain res s' where "\<forall>fuel \<ge> N. execute env fuel s = Some (res, s')" by fastforce
  with ends show ?thesis by blast
qed

text \<open>A pause at the first await, ended by the call of \<open>resume\<close> at the second.\<close>

definition paused_env :: environment where
  "paused_env = (sample_env [] succeeds)\<lparr>interference := (\<lambda>n. if n = 0 then [PauseC] else [ResumeC])\<rparr>"

lemma execute_settles_witness:
  "\<exists>N res s'. (\<forall>fuel \<ge> N. execute paused_env fuel (sample_run [sample_step ''a'', sample_step ''b''] None) = Some (res, s'))
    \<and> settled res s'"
proof -
  let ?r = "sample_run [sample_step ''a'', sample_step ''b''] None"
  have "fresh_run (sample_plan [sample_step ''a'', sample_step ''b'']) ?r" by code_simp
  moreover have "controls_status [ResumeC] Paused \<noteq> Paused" by code_simp
  then have "controls_status (interference paused_env (Suc n)) Paused \<noteq> Paused" for n by (simp add: paused_env_def)
  then have "pauses_end paused_env" unfolding pauses_end_def by (meson Suc_n_not_le_n nat_le_linear)
  moreover have "replanner paused_env = None" by (simp add: paused_env_def sample_env_def)
  ultimately show ?thesis
    using execute_settles [of "sample_plan [sample_step ''a'', sample_step ''b'']" ?r paused_env]
    by (simp add: sample_plan_def sample_step_def)
qed

text \<open>
  C3: without a replanner, and with distinct step identifiers, no step is started more often
  than the retry policy allows (at least once), whatever the steps return and other code does.
\<close>

theorem step_starts_bounded:
  assumes "execute env fuel s = Some (res, s')" and "replanner env = None" and "fresh_run p s"
    and "distinct (map ps_id (pr_steps p))" and "step \<in> set (pr_steps p)"
  shows "starts (ps_id step) s' \<le> max 1 (rp_maxAttempts (retryPolicy (cx_retryManager (cx s))))"
proof -
  have t: "on_track p (attempt_limit s) (entered env p s)"
    using fresh_run_attempts [OF assms(3)] assms(3)
    by (auto simp: on_track_def entered_facts fresh_run_def attempt_limit_def)
  obtain r s3 where "run_loop env fuel (entered env p s) = Some (r, s3)" "\<And>i. starts i s' = starts i s3"
    using execute_starts [OF assms(1)] assms(3) by (auto simp: fresh_run_def)
  with run_loop_starts [OF _ assms(2) t assms(4)] assms(5) show ?thesis
    by (simp add: attempt_limit_def)
qed

theorem step_starts_bounded_witness:
  "\<exists>s'. execute (sample_env [] (fails_with ''TOOL_TIMEOUT'')) 9 (sample_run [sample_step ''a''] None) =
     Some (Inr (), s') \<and> starts ''a'' s' = 3 \<and> starts ''a'' s' \<le> 3"
proof -
  let ?r = "sample_run [sample_step ''a''] None"
  have "map_option (\<lambda>(x, s). (x, starts ''a'' s)) (execute (sample_env [] (fails_with ''TOOL_TIMEOUT'')) 9 ?r) =
      Some (Inr (), 3)"
    by code_simp
  then obtain s' where s': "execute (sample_env [] (fails_with ''TOOL_TIMEOUT'')) 9 ?r = Some (Inr (), s')"
    "starts ''a'' s' = 3"
    by auto
  have "fresh_run (sample_plan [sample_step ''a'']) ?r" "max_attempts ?r = 3"
    by code_simp+
  with step_starts_bounded [OF s'(1), of "sample_plan [sample_step ''a'']" "sample_step ''a''"] s'
  show ?thesis by (simp add: sample_env_def sample_plan_def sample_step_def)
qed

text \<open>
  C1: without a replanner and when no other code pauses it, an execution of a plan with
  distinct step identifiers returns, with a terminal status: as many rounds of the loop as
  there are steps times allowed attempts are enough.
\<close>

theorem execute_returns:
  assumes "replanner env = None" and "pauseless env" and "fresh_run p s"
    and "distinct (map ps_id (pr_steps p))"
    and "length (pr_steps p) * max 1 (rp_maxAttempts (retryPolicy (cx_retryManager (cx s)))) < fuel"
  shows "\<exists>s'. execute env fuel s = Some (Inr (), s') \<and> isTerminalStatus (status s')"
proof -
  have plan: "cx_plan (cx s) = Some p" "status s = Pending" using assms(3) by (simp_all add: fresh_run_def)
  have t: "on_track p (attempt_limit s) (entered env p s)"
    using fresh_run_attempts [OF assms(3)] assms(3)
    by (auto simp: on_track_def entered_facts fresh_run_def attempt_limit_def)
  have "remaining p (attempt_limit s) (entered env p s) \<le> length (pr_steps p) * attempt_limit s"
    using assms(3) by (simp add: remaining_def entered_facts fresh_run_def)
  with assms(5) have "remaining p (attempt_limit s) (entered env p s) < fuel"
    by (simp add: attempt_limit_def)
  then obtain r s3 where rl: "run_loop env fuel (entered env p s) = Some (r, s3)"
    using run_loop_returns [OF assms(1,2,4) t, of fuel] by (auto simp: entered_facts)
  then obtain res s' where ex: "execute env fuel s = Some (res, s')"
    by (cases "execute env fuel s") (auto simp: execute_enters [OF plan] split: sum.splits prod.splits)
  with execute_ends [OF ex plan] assms(2) show ?thesis by (cases res) auto
qed

theorem execute_returns_witness:
  "\<exists>s'. execute (sample_env [CancelC ''stop''] succeeds) 7
       (sample_run [sample_step ''a'', sample_step ''b''] None) = Some (Inr (), s') \<and>
     isTerminalStatus (status s')"
proof (rule execute_returns)
  show "fresh_run (sample_plan [sample_step ''a'', sample_step ''b''])
      (sample_run [sample_step ''a'', sample_step ''b''] None)"
    by code_simp
  show "length (pr_steps (sample_plan [sample_step ''a'', sample_step ''b''])) *
      max 1 (max_attempts (sample_run [sample_step ''a'', sample_step ''b''] None)) < 7"
    by code_simp
qed (simp_all add: sample_env_def pauseless_def sample_plan_def sample_step_def)

end
