(* ===== verification/ExecReliable.thy ===== *)
theory ExecReliable
  imports ExecProgress
begin

text \<open>
  The loop over a step executor that always succeeds: every step of the plan runs, in the
  order of the plan, and calls of \<open>cancel\<close> change only the status that is reported.
\<close>

locale reliable_executor =
  fixes runs :: "nat \<Rightarrow> plan_step \<Rightarrow> execution_context \<Rightarrow> string + execution_step_result"
  assumes reliable: "\<exists>r. runs n step c = Inr r \<and> sr_success r \<and> sr_stepId r = ps_id step"

definition cancels :: "control list \<Rightarrow> bool" where
  "cancels cs \<longleftrightarrow> (\<exists>c \<in> set cs. case c of CancelC _ \<Rightarrow> True | _ \<Rightarrow> False)"

lemma running_controls:
  "PauseC \<notin> set cs \<Longrightarrow> controls_status cs Running = (if cancels cs then Cancelled else Running)"
proof (induction cs)
  case Nil
  then show ?case by (simp add: cancels_def)
next
  case (Cons c cs)
  have "controls_status (c # cs) st = controls_status cs (control_status c st)" for st
    by (simp add: controls_status_def)
  with Cons show ?case by (cases c) (simp_all add: cancels_def isTerminalStatus_def)
qed

lemma await_no_signal: "cx_signal (cx s) = None \<Longrightarrow> cx_signal (cx (await env s)) = None"
proof -
  have "cx_signal (cx (fold (apply_control env) cs s)) = None" if "cx_signal (cx s) = None" for cs s
    using that by (induction cs arbitrary: s) (simp_all add: apply_control_signal)
  then show "cx_signal (cx s) = None \<Longrightarrow> cx_signal (cx (await env s)) = None"
    by (simp add: await_def)
qed

lemma executeStep_signal:
  "executeStep env step s = (Inr r, s') \<Longrightarrow> cx_signal (cx s) = None \<Longrightarrow> cx_signal (cx s') = None"
  by (auto simp: executeStep_def Let_def await_no_signal split: sum.splits if_splits)

text \<open>The run stands before step \<open>k\<close> and has done the steps before it.\<close>

definition done_up_to :: "plan_result \<Rightarrow> nat \<Rightarrow> run \<Rightarrow> bool" where
  "done_up_to p k s \<longleftrightarrow>
     cx_plan (cx s) = Some p \<and> cx_currentStepIndex (cx s) = k \<and> k \<le> length (pr_steps p) \<and>
     map sr_stepId (cx_stepResults (cx s)) = map ps_id (take k (pr_steps p)) \<and>
     (\<forall>r \<in> set (cx_stepResults (cx s)). sr_success r) \<and> cx_signal (cx s) = None \<and>
     (\<forall>j < length (pr_steps p). k \<le> j \<longrightarrow>
        getStepState (cx_stateMachine (cx s)) (ps_id (pr_steps p ! j)) = StepPending)"

text \<open>The status once the first \<open>n\<close> awaits are over.\<close>

definition status_after :: "environment \<Rightarrow> nat \<Rightarrow> execution_status" where
  "status_after env n = (if \<exists>i < n. cancels (interference env i) then Cancelled else Running)"

lemma status_after_Suc:
  "pauseless env \<Longrightarrow> controls_status (interference env n) (status_after env n) = status_after env (Suc n)"
  by (auto simp: status_after_def pauseless_def running_controls less_Suc_eq)

context reliable_executor
begin

lemma executes:
  assumes "runStep env = runs" and "getStepState (cx_stateMachine (cx s)) (ps_id step) = StepPending"
  shows "\<exists>r s'. executeStep env step s = (Inr r, s') \<and> sr_success r \<and> sr_stepId r = ps_id step"
proof -
  define m where "m = (cx_stateMachine (cx s))\<lparr>stepStates :=
    jm_set (ps_id step) StepRunning (stepStates (cx_stateMachine (cx s)))\<rparr>"
  define s1 where "s1 = set_machine m s"
  define s2 where "s2 = emit env (\<lambda>t. stepStarted t (cx_ids (cx s1)) (ps_id step) (ps_title step)
    (cx_currentStepIndex (cx s1))) s1"
  have m: "setStepState (ps_id step) StepRunning (cx_stateMachine (cx s)) = Inr m"
    using assms(2) by (simp add: m_def setStepState_Inr_iff canStepTransition_def)
  obtain r where r: "runs (awaits s2) step (cx s2) = Inr r" "sr_success r" "sr_stepId r = ps_id step"
    using reliable by blast
  from assms(2) have ne: "getStepState (cx_stateMachine (cx s)) (ps_id step) \<noteq> StepRunning" by simp
  have "executeStep env step s = (Inr r, await env s2)"
    using r(1) unfolding executeStep_def Let_def if_P [OF ne] m assms(1) s2_def s1_def
    by (simp only: sum.case)
  with r show ?thesis by blast
qed

lemma advances:
  assumes "runStep env = runs" and "pauseless env" and "done_up_to p k s" and "k < length (pr_steps p)"
    and "distinct (map ps_id (pr_steps p))" and "status s = status_after env (awaits s)"
  shows "\<exists>s'. iterate env (pr_steps p ! k) s = (Inr (k + 1 < length (pr_steps p)), s') \<and>
    done_up_to p (k + 1) s' \<and> status s' = status_after env (awaits s') \<and> awaits s' = awaits s + 1"
proof -
  let ?step = "pr_steps p ! k"
  have pend: "getStepState (cx_stateMachine (cx s)) (ps_id ?step) = StepPending"
    using assms(3,4) by (simp add: done_up_to_def)
  obtain r s1 where ex: "executeStep env ?step s = (Inr r, s1)" and r: "sr_success r" "sr_stepId r = ps_id ?step"
    using executes [OF assms(1) pend] by blast
  note f = executeStep_Inr [OF ex]
  define s2 where "s2 = recordResult env ?step r s1"
  have s2: "getStepState (cx_stateMachine (cx s2)) (ps_id ?step) = StepRunning" "cx_plan (cx s2) = Some p"
    using f [of "ps_id ?step" "ps_id ?step"] assms(3) by (simp_all add: s2_def done_up_to_def)
  obtain res s' where su: "stepSucceeded env ?step r s2 = (res, s')" by fastforce
  note g = stepSucceeded_facts [OF su s2]
  have "iterate env ?step s = (res, s')"
    using ex r su by (simp add: iterate_def Let_def s2_def)
  moreover have "res = Inr (k + 1 < length (pr_steps p))"
    using g f assms(3) by (simp add: s2_def done_up_to_def)
  moreover have aw: "awaits s' = awaits s + 1" "status s' = status_after env (awaits s')"
    using g f assms(6) status_after_Suc [OF assms(2), of "awaits s"] by (simp_all add: s2_def)
  moreover have "done_up_to p (k + 1) s'"
  proof -
    have other: "ps_id (pr_steps p ! j) \<noteq> ps_id ?step" if "j < length (pr_steps p)" "k + 1 \<le> j" for j
      using assms(4,5) that by (metis distinct_conv_nth length_map nth_map not_less_eq_eq Suc_eq_plus1 le_refl)
    have "cx_signal (cx s') = None"
      using g executeStep_signal [OF ex] assms(3) by (simp add: s2_def done_up_to_def)
    moreover have "cx_stepResults (cx s') = cx_stepResults (cx s) @ [r]"
      using g f by (simp add: s2_def)
    ultimately show ?thesis
      using g f assms(3,4) r other
      by (simp add: done_up_to_def s2_def take_Suc_conv_app_nth)
  qed
  ultimately show ?thesis by blast
qed

lemma loop_runs_all:
  assumes "runStep env = runs" and "pauseless env" and "distinct (map ps_id (pr_steps p))"
    and "done_up_to p k s" and "status s = status_after env (awaits s)" and "length (pr_steps p) - k < fuel"
  shows "\<exists>s'. run_loop env fuel s = Some (Inr (), s') \<and> done_up_to p (length (pr_steps p)) s' \<and>
    status s' = status_after env (awaits s') \<and> awaits s' = awaits s + (length (pr_steps p) - k)"
  using assms(4-6)
proof (induction fuel arbitrary: k s)
  case 0
  then show ?case by simp
next
  case (Suc fuel)
  have np: "status s \<noteq> Paused" using Suc.prems(2) by (simp add: status_after_def)
  have sg: "cx_signal (cx s) \<noteq> Some True" using Suc.prems(1) by (simp add: done_up_to_def)
  show ?case
  proof (cases "k < length (pr_steps p)")
    case False
    with Suc.prems(1) have "getCurrentStep (cx s) = None" and "k = length (pr_steps p)"
      by (simp_all add: done_up_to_def getCurrentStep_def)
    with Suc.prems np sg show ?thesis by (simp add: run_loop_Suc)
  next
    case True
    with Suc.prems(1) have cur: "getCurrentStep (cx s) = Some (pr_steps p ! k)"
      by (simp add: done_up_to_def getCurrentStep_def)
    obtain s1 where it: "iterate env (pr_steps p ! k) s = (Inr (k + 1 < length (pr_steps p)), s1)"
      and s1: "done_up_to p (k + 1) s1" "status s1 = status_after env (awaits s1)" "awaits s1 = awaits s + 1"
      using advances [OF assms(1,2) Suc.prems(1) True assms(3) Suc.prems(2)] by blast
    show ?thesis
    proof (cases "k + 1 < length (pr_steps p)")
      case more: True
      with Suc.prems(3) have "length (pr_steps p) - (k + 1) < fuel" by simp
      moreover have "awaits s1 + (length (pr_steps p) - (k + 1)) = awaits s + (length (pr_steps p) - k)"
        using s1(3) True by simp
      ultimately show ?thesis
        using Suc.IH [OF s1(1,2)] more it cur np sg by (simp add: run_loop_Suc)
    next
      case last: False
      with True have "length (pr_steps p) = k + 1" by simp
      with it cur np sg s1 show ?thesis by (simp add: run_loop_Suc)
    qed
  qed
qed

lemma execution_runs_all:
  assumes "runStep env = runs" and "pauseless env" and "distinct (map ps_id (pr_steps p))"
    and "fresh_run p s" and "cx_stateMachine (cx s) = new_state_machine" and "cx_stepResults (cx s) = []"
    and "cx_signal (cx s) = None" and "awaits s = 0" and "length (pr_steps p) < fuel"
  shows "\<exists>s'. execute env fuel s = Some (Inr (), s') \<and>
    map sr_stepId (cx_stepResults (cx s')) = map ps_id (pr_steps p) \<and>
    (\<forall>r \<in> set (cx_stepResults (cx s')). sr_success r) \<and>
    status s' = (if \<exists>n < length (pr_steps p). cancels (interference env n) then Cancelled else Completed)"
proof -
  have plan: "cx_plan (cx s) = Some p" "status s = Pending" using assms(4) by (simp_all add: fresh_run_def)
  have "done_up_to p 0 (entered env p s)"
    using assms(4-7) by (simp add: done_up_to_def entered_facts fresh_run_def getStepState_def new_state_machine_def)
  moreover have "status (entered env p s) = status_after env (awaits (entered env p s))"
    using assms(8) by (simp add: entered_facts status_after_def)
  ultimately obtain s' where rl: "run_loop env fuel (entered env p s) = Some (Inr (), s')"
    and d: "done_up_to p (length (pr_steps p)) s'" and st: "status s' = status_after env (length (pr_steps p))"
    using loop_runs_all [OF assms(1-3), of 0 "entered env p s" fuel] assms(8,9)
    by (auto simp: entered_facts)
  obtain s4 where fin: "finish_execution env s' = (Inr (), s4)"
    "cx_stepResults (cx s4) = cx_stepResults (cx s')"
    "status s4 = (if status s' = Cancelled then Cancelled else Completed)"
    using st by (cases "finish_execution env s'")
      (auto simp: finish_execution_def Let_def case_prod_beta status_after_def transition_def
        getStatus_def split: if_splits)
  from rl fin(1) have "execute env fuel s = Some (Inr (), s4)"
    by (simp add: execute_enters [OF plan])
  with fin(2,3) d st show ?thesis by (auto simp: done_up_to_def status_after_def)
qed

end

end
