(* ===== verification/Graphs.thy ===== *)
theory Graphs
  imports Prelude
begin

text \<open>
  Dependency graphs: the adjacency map the validators build, the relation it denotes, and
  the facts about finished sets of nodes that the depth-first searches of the sources rest
  on. \<open>cycle_checker\<close> is the contract of a search that accepts exactly the graphs
  without a reachable cycle.
\<close>

type_synonym graph = "(string, string list) jmap"

definition succs :: "graph \<Rightarrow> string \<Rightarrow> string list" where
  "succs g n = (case jm_get g n of None \<Rightarrow> [] | Some ds \<Rightarrow> ds)"

definition edges :: "graph \<Rightarrow> (string \<times> string) set" where
  "edges g = {(x, y). y \<in> set (succs g x)}"

lemma edges_iff [simp]: "(x, y) \<in> edges g \<longleftrightarrow> y \<in> set (succs g x)"
  by (simp add: edges_def)

lemma succs_unknown [simp]: "x \<notin> set (jm_keys g) \<Longrightarrow> succs g x = []"
  by (simp add: succs_def map_of_eq_None_iff [THEN iffD2])

definition cyclic_from :: "graph \<Rightarrow> string list \<Rightarrow> bool" where
  "cyclic_from g roots \<longleftrightarrow>
     (\<exists>r \<in> set roots. \<exists>z. (r, z) \<in> (edges g)\<^sup>* \<and> (z, z) \<in> (edges g)\<^sup>+)"

lemma cyclic_from_succs:
  assumes "cyclic_from g (succs g n)"
  shows "cyclic_from g (n # ns)"
proof -
  from assms obtain r z where "(n, r) \<in> edges g" and "(r, z) \<in> (edges g)\<^sup>*"
    and z: "(z, z) \<in> (edges g)\<^sup>+"
    by (auto simp: cyclic_from_def)
  then have "(n, z) \<in> (edges g)\<^sup>*" by (meson converse_rtrancl_into_rtrancl)
  with z show ?thesis by (auto simp: cyclic_from_def)
qed

subsection \<open>Finished nodes\<close>

text \<open>
  A set of nodes is finished when it is closed under successors and no node of it lies on
  a cycle: the nodes a search has left.
\<close>

definition finished :: "('a \<times> 'a) set \<Rightarrow> 'a set \<Rightarrow> bool" where
  "finished E D \<longleftrightarrow> (\<forall>x \<in> D. (\<forall>y. (x, y) \<in> E \<longrightarrow> y \<in> D) \<and> (x, x) \<notin> E\<^sup>+)"

lemma finished_empty [simp]: "finished E {}"
  by (simp add: finished_def)

lemma finished_reach: "(x, y) \<in> E\<^sup>* \<Longrightarrow> finished E D \<Longrightarrow> x \<in> D \<Longrightarrow> y \<in> D"
  by (induction rule: rtrancl_induct) (auto simp: finished_def)

lemma finished_no_cycle: "finished E D \<Longrightarrow> x \<in> D \<Longrightarrow> (x, z) \<in> E\<^sup>* \<Longrightarrow> (z, z) \<notin> E\<^sup>+"
  using finished_reach [of x z E D] by (auto simp: finished_def)

lemma finished_insert:
  assumes D: "finished E D" and x: "x \<notin> D" and succ: "\<And>y. (x, y) \<in> E \<Longrightarrow> y \<in> D"
  shows "finished E (insert x D)"
proof -
  have "(x, x) \<notin> E\<^sup>+"
  proof
    assume "(x, x) \<in> E\<^sup>+"
    then obtain y where "(x, y) \<in> E" and "(y, x) \<in> E\<^sup>*" by (meson tranclD)
    with succ D have "x \<in> D" by (blast intro: finished_reach)
    with x show False by contradiction
  qed
  with D succ show ?thesis by (auto simp: finished_def)
qed

lemma finished_not_cyclic:
  "finished (edges g) D \<Longrightarrow> set roots \<subseteq> D \<Longrightarrow> \<not> cyclic_from g roots"
  by (meson cyclic_from_def finished_no_cycle subsetD)

text \<open>The number of unvisited keys, by which depth-first searches end.\<close>

lemma unvisited_decreases:
  assumes "node \<in> set (jm_keys g)" and "node \<notin> V"
  shows "card (set (jm_keys g) - insert node V) < card (set (jm_keys g) - V)"
  using assms by (intro psubset_card_mono) auto

lemma unvisited_antimono:
  "V \<subseteq> W \<Longrightarrow> card (set (jm_keys g) - W) \<le> card (set (jm_keys g) - V)"
  by (intro card_mono) auto

subsection \<open>Execution orders\<close>

text \<open>An order in which every node of a list comes after its successors in the list.\<close>

definition dependency_order :: "('a \<times> 'a) set \<Rightarrow> 'a list \<Rightarrow> bool" where
  "dependency_order E xs \<longleftrightarrow>
     (\<forall>i < length xs. \<forall>j < length xs. (xs ! i, xs ! j) \<in> E \<longrightarrow> j < i)"

lemma acyclic_on_sink:
  assumes "finite A" and "A \<noteq> {}" and "\<And>x. x \<in> A \<Longrightarrow> (x, x) \<notin> E\<^sup>+"
  shows "\<exists>x \<in> A. \<forall>y \<in> A. (x, y) \<notin> E"
proof (rule ccontr)
  assume "\<not> ?thesis"
  then have next_in: "\<forall>x \<in> A. \<exists>y \<in> A. (x, y) \<in> E" by blast
  let ?R = "E\<^sup>+ \<inter> A \<times> A"
  have "acyclic ?R"
  proof (rule acyclicI, rule allI, rule notI)
    fix x assume "(x, x) \<in> ?R\<^sup>+"
    then have "(x, x) \<in> (E\<^sup>+)\<^sup>+" and "x \<in> A"
      by (meson Int_lower1 trancl_mono) (meson \<open>(x, x) \<in> ?R\<^sup>+\<close> IntD2 SigmaD1 tranclD)
    with assms(3) show False by simp
  qed
  moreover have "finite ?R" using assms(1) by auto
  ultimately have "wf (?R\<inverse>)" by (rule finite_acyclic_wf_converse [rotated])
  then obtain m where m: "m \<in> A" "\<forall>y. (y, m) \<in> ?R\<inverse> \<longrightarrow> y \<notin> A"
    using assms(2) by (metis all_not_in_conv wf_eq_minimal)
  with next_in show False by blast
qed

lemma dependency_order_exists:
  assumes "finite A" and "\<And>x. x \<in> A \<Longrightarrow> (x, x) \<notin> E\<^sup>+"
  shows "\<exists>xs. distinct xs \<and> set xs = A \<and> dependency_order E xs"
  using assms
proof (induction "card A" arbitrary: A)
  case 0
  then show ?case by (intro exI [of _ "[]"]) (simp add: dependency_order_def)
next
  case (Suc n)
  then have ne: "A \<noteq> {}" by auto
  have "\<exists>x \<in> A. \<forall>y \<in> A. (x, y) \<notin> E\<inverse>"
    using Suc.prems ne by (intro acyclic_on_sink) (auto simp: trancl_converse)
  then obtain x where x: "x \<in> A" "\<forall>y \<in> A. (y, x) \<notin> E" by blast
  have "\<exists>xs. distinct xs \<and> set xs = A - {x} \<and> dependency_order E xs"
    using Suc x by (intro Suc.hyps(1)) auto
  then obtain xs where xs: "distinct xs" "set xs = A - {x}" "dependency_order E xs" by blast
  have "dependency_order E (xs @ [x])"
    unfolding dependency_order_def
  proof (intro allI impI)
    fix i j
    assume i: "i < length (xs @ [x])" and j: "j < length (xs @ [x])"
      and e: "((xs @ [x]) ! i, (xs @ [x]) ! j) \<in> E"
    have "set (xs @ [x]) = A" using xs(2) x(1) by auto
    with nth_mem [OF i] have "(xs @ [x]) ! i \<in> A" by (simp only:)
    with e x(2) have "j \<noteq> length xs" by (metis nth_append_length)
    with j have j': "j < length xs" by simp
    show "j < i"
    proof (cases "i = length xs")
      case True
      with j' show ?thesis by simp
    next
      case False
      with i have i': "i < length xs" by simp
      with e j' have "(xs ! i, xs ! j) \<in> E" by (simp add: nth_append)
      with i' j' xs(3) show ?thesis unfolding dependency_order_def by blast
    qed
  qed
  moreover have "distinct (xs @ [x])" and "set (xs @ [x]) = A" using xs x by auto
  ultimately show ?case by blast
qed

subsection \<open>Interface: cycle checkers\<close>

locale cycle_checker =
  fixes accepts :: "graph \<Rightarrow> string list \<Rightarrow> bool"
  assumes accepts_iff: "accepts g roots \<longleftrightarrow> \<not> cyclic_from g roots"
begin

lemma accepted_no_self: "accepts g roots \<Longrightarrow> r \<in> set roots \<Longrightarrow> r \<notin> set (succs g r)"
  unfolding accepts_iff cyclic_from_def by (metis edges_iff r_into_trancl rtrancl.rtrancl_refl)

lemma accepted_order:
  "accepts g roots \<Longrightarrow> \<exists>xs. distinct xs \<and> set xs = set roots \<and> dependency_order (edges g) xs"
  by (rule dependency_order_exists) (auto simp: accepts_iff cyclic_from_def)

lemma accepted_sub: "accepts g roots \<Longrightarrow> set rs \<subseteq> set roots \<Longrightarrow> accepts g rs"
  by (auto simp: accepts_iff cyclic_from_def)

end

end
