(* ===== verification/ExecValidator.thy ===== *)
theory ExecValidator
  imports ExecState Graphs
begin

text \<open>
  The execution validator, packages/hermes/src/execution/ExecutionValidator.ts: plans,
  status transitions, the order of steps with its depth-first search for cycles, and
  cancellation. (Checkpoint integrity is in the theory of checkpoints.) The object of dependencies is an
  association list: step identifiers are taken not to be names that every object inherits, such as
  constructor, at which the source would read an inherited function.
\<close>

subsection \<open>Plans, transitions, cancellation\<close>

definition unknown_dependencies :: "(string \<times> string list) list \<Rightarrow> string set \<Rightarrow> string list" where
  "unknown_dependencies steps known =
     concat (map (\<lambda>(i, deps).
       concat (map (\<lambda>dep. if dep \<notin> known
         then [''Step '' @ quoted i @ '' depends on unknown step '' @ quoted dep] else []) deps)) steps)"

lemma unknown_dependencies_Nil:
  "unknown_dependencies steps known = [] \<longleftrightarrow> (\<forall>(i, deps) \<in> set steps. set deps \<subseteq> known)"
  unfolding unknown_dependencies_def concat_map_Nil case_prod_beta concat_if_Nil by auto

definition validatePlanForExecution :: "plan_result \<Rightarrow> validation" where
  "validatePlanForExecution plan =
     report (
       (if length (pr_steps plan) = 0 then [''Plan has no steps''] else []) @
       (if pr_status plan \<noteq> Validated \<and> pr_status plan \<noteq> Ready
        then [''Plan status is '' @ quoted (plan_status_str (pr_status plan)) @ '', expected '' @
              quoted ''validated'' @ '' or '' @ quoted ''ready''] else []) @
       unknown_dependencies (map (\<lambda>s. (ps_id s, ps_dependsOn s)) (pr_steps plan))
         (set (map ps_id (pr_steps plan))))"

fun VALID_TRANSITIONS :: "execution_status \<Rightarrow> execution_status list" where
  "VALID_TRANSITIONS Pending = [Running, Cancelled]"
| "VALID_TRANSITIONS Running =
     [Waiting, Retrying, Replanning, Completed, Cancelled, Failed, Paused]"
| "VALID_TRANSITIONS Waiting = [Running, Cancelled, Failed]"
| "VALID_TRANSITIONS Retrying = [Running, Failed, Cancelled]"
| "VALID_TRANSITIONS Replanning = [Running, Cancelled, Failed]"
| "VALID_TRANSITIONS Completed = []"
| "VALID_TRANSITIONS Cancelled = []"
| "VALID_TRANSITIONS Failed = []"
| "VALID_TRANSITIONS Paused = [Running, Cancelled]"

definition validateStateTransition :: "execution_status \<Rightarrow> execution_status \<Rightarrow> validation" where
  "validateStateTransition f t =
     report (if t \<notin> set (VALID_TRANSITIONS f)
             then [''Cannot transition from '' @ quoted (status_str f) @ '' to '' @ quoted (status_str t)]
             else [])"

definition validateCancellation :: "execution_status \<Rightarrow> validation" where
  "validateCancellation status =
     report (
       (if status = Completed then [''Cannot cancel a completed execution''] else []) @
       (if status = Cancelled then [''Execution is already cancelled''] else []) @
       (if status = Failed then [''Cannot cancel a failed execution''] else []))"

subsection \<open>Step ordering\<close>

text \<open>
  The local function \<open>hasCycle\<close> with its two sets \<open>visited\<close> and \<open>inStack\<close>:
  \<open>hasCycle_loop\<close> is its loop over the dependencies of a node, which returns at the first
  cycle. A node is entered at most once, so the search ends.
\<close>

function (domintros) hasCycle_loop ::
  "graph \<Rightarrow> string list \<Rightarrow> string set \<times> string set \<Rightarrow> bool \<times> string set \<times> string set" where
  "hasCycle_loop deps [] st = (False, st)"
| "hasCycle_loop deps (node # nodes) st =
     (if node \<in> snd st then (True, st)
      else if node \<in> fst st then hasCycle_loop deps nodes st
      else (let r = hasCycle_loop deps (succs deps node) (insert node (fst st), insert node (snd st))
            in if fst r then r
               else hasCycle_loop deps nodes (fst (snd r), snd (snd r) - {node})))"
  by pat_completeness auto

lemma hasCycle_loop_grows:
  "hasCycle_loop_dom (deps, nodes, st) \<Longrightarrow> fst st \<subseteq> fst (snd (hasCycle_loop deps nodes st))"
proof (induction deps nodes st rule: hasCycle_loop.pinduct)
  case (1 deps st)
  then show ?case by (simp add: hasCycle_loop.psimps)
next
  case (2 deps node nodes st)
  show ?case
  proof (cases "node \<in> snd st \<or> node \<in> fst st")
    case True
    with 2 show ?thesis by (auto simp: hasCycle_loop.psimps)
  next
    case False
    let ?r = "hasCycle_loop deps (succs deps node) (insert node (fst st), insert node (snd st))"
    from 2 False have "fst st \<subseteq> fst (snd ?r)" by auto
    moreover have "fst (snd ?r) \<subseteq> fst (snd (hasCycle_loop deps nodes (fst (snd ?r), snd (snd ?r) - {node})))"
      if "\<not> fst ?r"
      using "2.IH"(3) [of ?r] False that by auto
    ultimately show ?thesis using 2 False by (auto simp: hasCycle_loop.psimps Let_def)
  qed
qed

termination hasCycle_loop
proof (relation "measures [\<lambda>(g, nodes, st). card (set (jm_keys g) - fst st), \<lambda>(g, nodes, st). length nodes]",
    goal_cases)
  case 1
  then show ?case by simp
next
  case (2 deps node nodes st)
  then show ?case by simp
next
  case (3 deps node nodes st)
  then show ?case
    using unvisited_decreases [of node deps "fst st"]
    by (cases "node \<in> set (jm_keys deps)") (auto simp: insert_absorb)
next
  case (4 deps node nodes st r)
  with hasCycle_loop_grows [of deps "succs deps node" "(insert node (fst st), insert node (snd st))"]
  have "fst st \<subseteq> fst (snd r)" by auto
  then have "card (set (jm_keys deps) - fst (snd r)) \<le> card (set (jm_keys deps) - fst st)"
    by (rule unvisited_antimono)
  then show ?case by auto
qed

definition hasCycle ::
  "graph \<Rightarrow> string \<Rightarrow> string set \<times> string set \<Rightarrow> bool \<times> string set \<times> string set" where
  "hasCycle deps node st = hasCycle_loop deps [node] st"

text \<open>The loop over all steps: the first step from which a cycle is found, if any.\<close>

fun cycle_scan :: "graph \<Rightarrow> string list \<Rightarrow> string set \<times> string set \<Rightarrow> string option" where
  "cycle_scan deps [] st = None"
| "cycle_scan deps (stepId # stepIds) st =
     (let r = hasCycle deps stepId st
      in if fst r then Some stepId else cycle_scan deps stepIds (snd r))"

definition validateStepOrdering :: "string list \<Rightarrow> graph \<Rightarrow> validation" where
  "validateStepOrdering stepIds dependencies =
     report (
       unknown_dependencies (map (\<lambda>i. (i, succs dependencies i)) stepIds) (set stepIds) @
       (case cycle_scan dependencies stepIds ({}, {}) of
          None \<Rightarrow> []
        | Some i \<Rightarrow> [''Circular dependency detected involving step '' @ quoted i]))"

subsection \<open>Correctness of the search\<close>

abbreviation enter :: "string \<Rightarrow> string set \<times> string set \<Rightarrow> string set \<times> string set" where
  "enter node st \<equiv> (insert node (fst st), insert node (snd st))"

abbreviation search_below ::
  "graph \<Rightarrow> string \<Rightarrow> string set \<times> string set \<Rightarrow> bool \<times> string set \<times> string set" where
  "search_below deps node st \<equiv> hasCycle_loop deps (succs deps node) (enter node st)"

abbreviation leave :: "string \<Rightarrow> bool \<times> string set \<times> string set \<Rightarrow> string set \<times> string set" where
  "leave node r \<equiv> (fst (snd r), snd (snd r) - {node})"

lemma hasCycle_loop_stacked: "n \<in> snd st \<Longrightarrow> hasCycle_loop g (n # ns) st = (True, st)"
  by simp

lemma hasCycle_loop_seen:
  "n \<notin> snd st \<Longrightarrow> n \<in> fst st \<Longrightarrow> hasCycle_loop g (n # ns) st = hasCycle_loop g ns st"
  by simp

lemma hasCycle_loop_fresh:
  "n \<notin> snd st \<Longrightarrow> n \<notin> fst st \<Longrightarrow> hasCycle_loop g (n # ns) st =
     (if fst (search_below g n st) then search_below g n st
      else hasCycle_loop g ns (leave n (search_below g n st)))"
  by (simp add: Let_def)

lemmas hasCycle_loop_cases = hasCycle_loop_stacked hasCycle_loop_seen hasCycle_loop_fresh

declare hasCycle_loop.simps(2) [simp del]

lemma hasCycle_loop_induct [case_names Nil Stacked Seen Fresh]:
  assumes "\<And>g st. P g [] st"
    and "\<And>g n ns st. n \<in> snd st \<Longrightarrow> P g (n # ns) st"
    and "\<And>g n ns st. n \<notin> snd st \<Longrightarrow> n \<in> fst st \<Longrightarrow> P g ns st \<Longrightarrow> P g (n # ns) st"
    and "\<And>g n ns st. n \<notin> snd st \<Longrightarrow> n \<notin> fst st \<Longrightarrow> P g (succs g n) (enter n st) \<Longrightarrow>
      (\<not> fst (search_below g n st) \<Longrightarrow> P g ns (leave n (search_below g n st))) \<Longrightarrow> P g (n # ns) st"
  shows "P g nodes st"
proof (induction g nodes st rule: hasCycle_loop.induct)
  case (1 deps st)
  then show ?case by (rule assms(1))
next
  case (2 g n ns st)
  show ?case
  proof (cases "n \<in> snd st")
    case True
    then show ?thesis by (rule assms(2))
  next
    case nstack: False
    show ?thesis
    proof (cases "n \<in> fst st")
      case True
      with nstack 2 show ?thesis by (intro assms(3)) auto
    next
      case False
      with nstack 2 show ?thesis by (intro assms(4)) auto
    qed
  qed
qed

lemma hasCycle_loop_stack: "\<not> fst (hasCycle_loop g ns st) \<Longrightarrow> snd (snd (hasCycle_loop g ns st)) = snd st"
proof (induction g ns st rule: hasCycle_loop_induct)
  case (Fresh g n ns st)
  then have "\<not> fst (search_below g n st)" by (auto simp: hasCycle_loop_fresh split: if_splits)
  with Fresh show ?case by (auto simp: hasCycle_loop_fresh)
qed (simp_all add: hasCycle_loop_cases)

text \<open>A search that reports no cycle leaves a finished set that holds all nodes it was given.\<close>

lemma hasCycle_loop_finished:
  assumes "\<not> fst (hasCycle_loop g ns st)" and "snd st \<subseteq> fst st" and "finished (edges g) (fst st - snd st)"
  shows "finished (edges g) (fst (snd (hasCycle_loop g ns st)) - snd st) \<and>
    fst st - snd st \<union> set ns \<subseteq> fst (snd (hasCycle_loop g ns st)) - snd st \<and>
    fst st \<subseteq> fst (snd (hasCycle_loop g ns st))"
  using assms
proof (induction g ns st rule: hasCycle_loop_induct)
  case (Nil g st)
  then show ?case by simp
next
  case (Stacked g n ns st)
  then show ?case by (simp add: hasCycle_loop_stacked)
next
  case (Seen g n ns st)
  then show ?case by (auto simp: hasCycle_loop_seen)
next
  case (Fresh g n ns st)
  let ?r = "search_below g n st"
  let ?D = "fst (snd ?r) - insert n (snd st)"
  from Fresh have nf: "\<not> fst ?r" by (auto simp: hasCycle_loop_fresh split: if_splits)
  then have stack: "snd (snd ?r) = insert n (snd st)" using hasCycle_loop_stack [OF nf] by simp
  have eq: "fst (enter n st) - snd (enter n st) = fst st - snd st" using Fresh.hyps by auto
  have below: "finished (edges g) ?D" "fst st - snd st \<union> set (succs g n) \<subseteq> ?D"
    "insert n (fst st) \<subseteq> fst (snd ?r)"
    using Fresh.IH(1) [OF nf] Fresh.prems eq by auto
  have leave: "leave n ?r = (fst (snd ?r), snd st)" using Fresh.hyps stack by auto
  have "finished (edges g) (insert n ?D)"
    using below by (intro finished_insert) auto
  moreover have "insert n ?D = fst (snd ?r) - snd st" using below(3) Fresh.hyps by auto
  ultimately have "finished (edges g) (fst (leave n ?r) - snd (leave n ?r))" by (simp add: leave)
  moreover have "snd (leave n ?r) \<subseteq> fst (leave n ?r)" using below(3) Fresh.prems by (auto simp: leave)
  moreover have "\<not> fst (hasCycle_loop g ns (leave n ?r))"
    using Fresh.prems(1) Fresh.hyps nf by (simp add: hasCycle_loop_fresh)
  ultimately have rest: "finished (edges g) (fst (snd (hasCycle_loop g ns (leave n ?r))) - snd st)"
    "fst (snd ?r) - snd st \<union> set ns \<subseteq> fst (snd (hasCycle_loop g ns (leave n ?r))) - snd st"
    "fst (snd ?r) \<subseteq> fst (snd (hasCycle_loop g ns (leave n ?r)))"
    using Fresh.IH(2) [OF nf] by (simp_all add: leave)
  have result: "hasCycle_loop g (n # ns) st = hasCycle_loop g ns (leave n ?r)"
    using Fresh.hyps nf by (simp add: hasCycle_loop_fresh)
  show ?case
    using rest below Fresh.hyps unfolding result by auto
qed

text \<open>A reported cycle is a cycle, reachable from a node the search was given.\<close>

lemma hasCycle_loop_sound:
  assumes "fst (hasCycle_loop g ns st)"
    and "\<forall>s \<in> snd st. \<forall>n \<in> set ns. (s, n) \<in> (edges g)\<^sup>+"
  shows "cyclic_from g ns"
  using assms
proof (induction g ns st rule: hasCycle_loop_induct)
  case (Nil g st)
  then show ?case by simp
next
  case (Stacked g n ns st)
  then show ?case by (auto simp: cyclic_from_def)
next
  case (Seen g n ns st)
  then show ?case by (auto simp: hasCycle_loop_seen cyclic_from_def)
next
  case (Fresh g n ns st)
  let ?r = "search_below g n st"
  show ?case
  proof (cases "fst ?r")
    case True
    have "(s, m) \<in> (edges g)\<^sup>+" if "s \<in> insert n (snd st)" and "m \<in> set (succs g n)" for s m
    proof -
      from that(2) have "(n, m) \<in> edges g" by simp
      then show ?thesis
        using that(1) Fresh.prems(2) by (cases "s = n") (auto intro: trancl_into_trancl)
    qed
    with True have "cyclic_from g (succs g n)" by (intro Fresh.IH(1)) auto
    then show ?thesis by (rule cyclic_from_succs)
  next
    case False
    then have "snd (leave n ?r) = snd st" using hasCycle_loop_stack [OF False] Fresh.hyps by auto
    with False Fresh have "cyclic_from g ns" by (auto simp: hasCycle_loop_fresh)
    then show ?thesis by (auto simp: cyclic_from_def)
  qed
qed

text \<open>The scan over all steps keeps the visited set and an empty stack.\<close>

lemma cycle_scan_None:
  assumes "cycle_scan g ns (V, {}) = None" and "finished (edges g) V"
  shows "\<exists>W. finished (edges g) W \<and> V \<union> set ns \<subseteq> W"
  using assms
proof (induction ns arbitrary: V)
  case Nil
  then show ?case by auto
next
  case (Cons n ns)
  let ?r = "hasCycle_loop g [n] (V, {})"
  have "(if fst ?r then Some n else cycle_scan g ns (snd ?r)) = None"
    using Cons.prems(1) by (simp add: hasCycle_def Let_def)
  then have nf: "\<not> fst ?r" and scan: "cycle_scan g ns (snd ?r) = None"
    by (simp_all split: if_split_asm)
  have "snd (snd ?r) = {}" using hasCycle_loop_stack [OF nf] by simp
  then obtain W where eq: "snd ?r = (W, {})" by (cases "snd ?r") simp
  have fin: "finished (edges g) W" "V \<union> {n} \<subseteq> W"
    using hasCycle_loop_finished [OF nf] Cons.prems(2) by (auto simp: eq)
  with Cons.IH [of W] scan show ?case by (auto simp: eq)
qed

lemma cycle_scan_Some: "cycle_scan g ns (V, {}) = Some i \<Longrightarrow> cyclic_from g ns"
proof (induction ns arbitrary: V)
  case Nil
  then show ?case by simp
next
  case (Cons n ns)
  let ?r = "hasCycle_loop g [n] (V, {})"
  show ?case
  proof (cases "fst ?r")
    case True
    then have "cyclic_from g [n]" by (rule hasCycle_loop_sound) simp
    then show ?thesis by (auto simp: cyclic_from_def)
  next
    case False
    then have "snd (snd ?r) = {}" using hasCycle_loop_stack [OF False] by simp
    then obtain W where eq: "snd ?r = (W, {})" by (cases "snd ?r") simp
    with Cons.prems False have "cycle_scan g ns (W, {}) = Some i"
      by (simp add: hasCycle_def Let_def)
    then have "cyclic_from g ns" by (rule Cons.IH)
    then show ?thesis by (auto simp: cyclic_from_def)
  qed
qed

lemma cycle_scan_iff: "cycle_scan g ns ({}, {}) = None \<longleftrightarrow> \<not> cyclic_from g ns"
proof
  assume "cycle_scan g ns ({}, {}) = None"
  then obtain W where "finished (edges g) W" and "set ns \<subseteq> W"
    using cycle_scan_None [of g ns "{}"] by auto
  then show "\<not> cyclic_from g ns" by (rule finished_not_cyclic)
next
  assume "\<not> cyclic_from g ns"
  then show "cycle_scan g ns ({}, {}) = None"
    using cycle_scan_Some [of g ns "{}"] by (cases "cycle_scan g ns ({}, {})") auto
qed

interpretation ordering: cycle_checker "\<lambda>g ns. cycle_scan g ns ({}, {}) = None"
  by unfold_locales (rule cycle_scan_iff)

subsection \<open>Properties\<close>

text \<open>
  C5: the ordering validator accepts a list of steps exactly when every dependency of a
  listed step is itself listed and no cycle of dependencies can be reached from a listed
  step; an accepted list can be arranged so that every step comes after its dependencies.
\<close>

theorem step_ordering_correct:
  "(valid (validateStepOrdering stepIds deps) \<longleftrightarrow>
     (\<forall>i \<in> set stepIds. set (succs deps i) \<subseteq> set stepIds) \<and> \<not> cyclic_from deps stepIds) \<and>
   (valid (validateStepOrdering stepIds deps) \<longrightarrow>
     (\<exists>order. distinct order \<and> set order = set stepIds \<and> dependency_order (edges deps) order))"
proof -
  have "valid (validateStepOrdering stepIds deps) \<longleftrightarrow>
      unknown_dependencies (map (\<lambda>i. (i, succs deps i)) stepIds) (set stepIds) = [] \<and>
      cycle_scan deps stepIds ({}, {}) = None"
    by (auto simp: validateStepOrdering_def split: option.splits)
  then have iff: "valid (validateStepOrdering stepIds deps) \<longleftrightarrow>
      (\<forall>i \<in> set stepIds. set (succs deps i) \<subseteq> set stepIds) \<and> \<not> cyclic_from deps stepIds"
    by (auto simp: unknown_dependencies_Nil cycle_scan_iff)
  moreover from iff have "\<exists>order. distinct order \<and> set order = set stepIds \<and>
      dependency_order (edges deps) order" if "valid (validateStepOrdering stepIds deps)"
    using that by (intro ordering.accepted_order) (auto simp: cycle_scan_iff)
  ultimately show ?thesis by blast
qed

theorem step_ordering_correct_witness:
  "\<exists>order. distinct order \<and> set order = {''a'', ''b''} \<and>
     dependency_order (edges [(''b'', [''a''])]) order"
proof -
  have "valid (validateStepOrdering [''b'', ''a''] [(''b'', [''a''])])" by code_simp
  with step_ordering_correct [of "[''b'', ''a'']" "[(''b'', [''a''])]"]
  show ?thesis by (auto simp: insert_commute)
qed

text \<open>
  The transition table that the validator carries is the table of the state machine:
  it accepts a transition exactly when the machine performs it, and it accepts a
  cancellation exactly when the machine can be cancelled.
\<close>

theorem validator_agrees_with_machine:
  "(valid (validateStateTransition (getStatus m) to) \<longleftrightarrow>
      transition to m = Inr (m\<lparr>currentStatus := to\<rparr>)) \<and>
   (valid (validateCancellation (getStatus m)) \<longleftrightarrow> canCancel m)"
proof -
  have "VALID_TRANSITIONS s = VALID_EXECUTION_TRANSITIONS s" for s by (cases s) simp_all
  then show ?thesis
    by (auto simp: validateStateTransition_def validateCancellation_def canCancel_def
        transition_def getStatus_def Let_def)
qed

lemma validatePlanForExecution_iff:
  "valid (validatePlanForExecution plan) \<longleftrightarrow>
     pr_steps plan \<noteq> [] \<and> (pr_status plan = Validated \<or> pr_status plan = Ready) \<and>
     (\<forall>s \<in> set (pr_steps plan). set (ps_dependsOn s) \<subseteq> set (map ps_id (pr_steps plan)))"
  by (auto simp: validatePlanForExecution_def unknown_dependencies_Nil)

end
