(* ===== verification/ExecAnomalies.thy ===== *)
theory ExecAnomalies
  imports ExecReliable ExecValidator
begin

text \<open>
  Consequences of how the loop and its parts fit together that a reader of one file alone
  would not expect: checkpoints of successful steps, replans, repeated identifiers.
\<close>

subsection \<open>Checkpoints after a success\<close>

lemma createStepCheckpoint_ids:
  "ck_currentStepId (fst (createStepCheckpoint env i s)) = i"
  "ck_completedStepIds (fst (createStepCheckpoint env i s)) =
     map sr_stepId (filter sr_success (cx_stepResults (cx s)))"
  "ck_remainingStepIds (fst (createStepCheckpoint env i s)) =
     filter (\<lambda>j. j \<notin> set (map sr_stepId (filter sr_success (cx_stepResults (cx s)))) \<and> j \<noteq> i)
       (case cx_plan (cx s) of None \<Rightarrow> [] | Some p \<Rightarrow> map ps_id (pr_steps p))"
  by (simp_all add: createStepCheckpoint_def Let_def case_prod_beta)

text \<open>The checkpoint that \<open>recordResult\<close> stores, when checkpoints are enabled.\<close>

definition stored_checkpoint ::
  "environment \<Rightarrow> plan_step \<Rightarrow> execution_step_result \<Rightarrow> run \<Rightarrow> execution_checkpoint option" where
  "stored_checkpoint env step r s =
     (if ep_enableCheckpoints (cx_policy (cx s))
      then getLatestCheckpoint (cx (recordResult env step r s)) else None)"

lemma stored_checkpoint_ids:
  assumes "stored_checkpoint env step r s = Some k"
  shows "ck_currentStepId k = ps_id step \<and>
    ck_completedStepIds k = map sr_stepId (filter sr_success (cx_stepResults (cx s) @ [r]))"
  using assms
  by (auto simp: stored_checkpoint_def getLatestCheckpoint_def recordResult_def Let_def case_prod_beta
      addCheckpoint_def addStepResult_def createStepCheckpoint_ids split: if_splits)

text \<open>
  The checkpoint that the loop stores after a step that succeeded lists this step as
  completed and as the current one, so that the integrity check refuses every such
  checkpoint; after a step that failed for the first time the check has no such objection.
\<close>

theorem success_checkpoints_fail_integrity:
  assumes "stored_checkpoint env step r s = Some k" and "sr_stepId r = ps_id step"
  shows "(sr_success r \<longrightarrow> \<not> valid (validateCheckpointIntegrity k) \<and> \<not> valid (validateCheckpoint k)) \<and>
    (\<not> sr_success r \<longrightarrow> ps_id step \<notin> sr_stepId ` set (filter sr_success (cx_stepResults (cx s))) \<longrightarrow>
       ck_currentStepId k \<notin> set (ck_completedStepIds k))"
  using stored_checkpoint_ids [OF assms(1)] assms(2)
  by (auto simp: validateCheckpointIntegrity_iff validateCheckpoint_iff)

theorem success_checkpoints_fail_integrity_witness:
  "\<exists>k. stored_checkpoint (sample_env [] succeeds) (sample_step ''a'') (outcome_of (sample_step ''a'') True None)
     (sample_run [sample_step ''a''] None) = Some k \<and> \<not> valid (validateCheckpointIntegrity k)"
proof -
  have "stored_checkpoint (sample_env [] succeeds) (sample_step ''a'') (outcome_of (sample_step ''a'') True None)
      (sample_run [sample_step ''a''] None) \<noteq> None"
    by code_simp
  then obtain k where k: "stored_checkpoint (sample_env [] succeeds) (sample_step ''a'')
      (outcome_of (sample_step ''a'') True None) (sample_run [sample_step ''a''] None) = Some k" by blast
  from success_checkpoints_fail_integrity [OF k] k show ?thesis
    by (simp add: outcome_of_def)
qed

subsection \<open>Replans\<close>

lemma replanStep_Inr:
  assumes "replanStep env step r s = (Inr b, s')"
  shows "b \<and> status s' = Running \<and> cx_currentStepIndex (cx s') = cx_currentStepIndex (cx s) \<and>
    getStepState (cx_stateMachine (cx s')) i = getStepState (cx_stateMachine (cx s)) i"
  using assms
  by (auto simp: replanStep_def Let_def case_prod_beta transition_Inr_iff split: option.splits sum.splits)

text \<open>
  A replan keeps the position in the plan and the state of every step. When the step
  at that position of the new plan has the identifier of the step that failed, the next
  round of the loop cannot start it: the table of step states has no way from failed to
  running, and the round throws that error.
\<close>

theorem replan_cannot_restart_failed_step:
  assumes "replanStep env step r s = (Inr True, s')"
    and "getStepState (cx_stateMachine (cx s)) (ps_id step) = StepFailedState"
  shows "cx_currentStepIndex (cx s') = cx_currentStepIndex (cx s) \<and>
    (\<forall>new. getCurrentStep (cx s') = Some new \<longrightarrow> ps_id new = ps_id step \<longrightarrow>
       iterate env new s' =
         (Inl (InvalidStateTransitionError ''step:failed'' ''step:running''), s'))"
proof -
  have st: "getStepState (cx_stateMachine (cx s')) (ps_id step) = StepFailedState"
    and idx: "cx_currentStepIndex (cx s') = cx_currentStepIndex (cx s)"
    using replanStep_Inr [OF assms(1)] assms(2) by simp_all
  have "iterate env new s' = (Inl (InvalidStateTransitionError ''step:failed'' ''step:running''), s')"
    if "ps_id new = ps_id step" for new
    using st that by (simp add: iterate_def executeStep_def Let_def setStepState_def)
  with idx show ?thesis by blast
qed

definition replanning_env ::
  "plan_result \<Rightarrow> (nat \<Rightarrow> plan_step \<Rightarrow> execution_context \<Rightarrow> string + execution_step_result) \<Rightarrow> environment" where
  "replanning_env new exec = (sample_env [] exec)\<lparr>replanner := Some (\<lambda>n c. Inr new)\<rparr>"

definition failed_sample :: "string \<Rightarrow> run" where
  "failed_sample i = set_machine \<lparr>currentStatus = Running, stepStates = [(i, StepFailedState)]\<rparr>
     (sample_run [sample_step i] None)"

theorem replan_cannot_restart_failed_step_witness:
  "\<exists>s'. replanStep (replanning_env (sample_plan [sample_step ''a'']) succeeds) (sample_step ''a'')
       (outcome_of (sample_step ''a'') False None) (failed_sample ''a'') = (Inr True, s') \<and>
     iterate (replanning_env (sample_plan [sample_step ''a'']) succeeds) (sample_step ''a'') s' =
       (Inl (InvalidStateTransitionError ''step:failed'' ''step:running''), s')"
proof -
  let ?env = "replanning_env (sample_plan [sample_step ''a'']) succeeds"
  let ?res = "replanStep ?env (sample_step ''a'') (outcome_of (sample_step ''a'') False None) (failed_sample ''a'')"
  have ok: "fst ?res = Inr True" by code_simp
  have cur: "getCurrentStep (cx (snd ?res)) = Some (sample_step ''a'')" by code_simp
  have fl: "getStepState (cx_stateMachine (cx (failed_sample ''a''))) (ps_id (sample_step ''a'')) = StepFailedState"
    by code_simp
  have eq: "?res = (Inr True, snd ?res)" using ok by (metis prod.collapse)
  from replan_cannot_restart_failed_step [OF eq fl] cur eq show ?thesis by blast
qed

text \<open>
  When the new plan has no step at the position of the step that failed, the loop ends
  without an error, and an execution of which a step has failed is reported as completed.
\<close>

theorem short_replan_ends_the_loop:
  assumes "replanStep env step r s = (Inr True, s')" and "cx_plan (cx s') = Some new"
    and "length (pr_steps new) \<le> cx_currentStepIndex (cx s)" and "cx_signal (cx s') \<noteq> Some True"
  shows "\<exists>s''. run_loop env (Suc fuel) s' = Some (Inr (), s') \<and>
    finish_execution env s' = (Inr (), s'') \<and> status s'' = Completed"
proof -
  have st: "status s' = Running" and idx: "cx_currentStepIndex (cx s') = cx_currentStepIndex (cx s)"
    using replanStep_Inr [OF assms(1)] by simp_all
  have "getCurrentStep (cx s') = None"
    using assms(2,3) idx by (simp add: getCurrentStep_def)
  moreover have "\<exists>s''. finish_execution env s' = (Inr (), s'') \<and> status s'' = Completed"
    using st by (simp add: finish_execution_def transition_def getStatus_def Let_def case_prod_beta)
  ultimately show ?thesis using st assms(4) by (simp add: run_loop_Suc)
qed

theorem short_replan_ends_the_loop_witness:
  "\<exists>s' s''. replanStep (replanning_env (sample_plan []) succeeds) (sample_step ''a'')
       (outcome_of (sample_step ''a'') False None) (failed_sample ''a'') = (Inr True, s') \<and>
     finish_execution (replanning_env (sample_plan []) succeeds) s' = (Inr (), s'') \<and>
     status s'' = Completed \<and> getStepState (cx_stateMachine (cx s')) ''a'' = StepFailedState"
proof -
  let ?env = "replanning_env (sample_plan []) succeeds"
  let ?res = "replanStep ?env (sample_step ''a'') (outcome_of (sample_step ''a'') False None) (failed_sample ''a'')"
  have ok: "fst ?res = Inr True" by code_simp
  have pl: "cx_plan (cx (snd ?res)) = Some (sample_plan [])" by code_simp
  have sg: "cx_signal (cx (snd ?res)) \<noteq> Some True" by code_simp
  have fl: "getStepState (cx_stateMachine (cx (snd ?res))) ''a'' = StepFailedState" by code_simp
  have eq: "?res = (Inr True, snd ?res)" using ok by (metis prod.collapse)
  from short_replan_ends_the_loop [OF eq pl _ sg] eq fl show ?thesis
    by (fastforce simp: sample_plan_def)
qed

subsection \<open>Repeated identifiers\<close>

text \<open>
  The validator accepts a plan in which two steps have one identifier; executing it fails,
  even when every step succeeds.
\<close>

lemma repeated_identifiers_accepted_but_fail:
  "valid (validatePlanForExecution (sample_plan [sample_step ''a'', sample_step ''a''])) \<and>
   map_option (\<lambda>(x, s). (x, status s))
     (execute (sample_env [] succeeds) 5 (sample_run [sample_step ''a'', sample_step ''a''] None)) =
   Some (Inr (), Failed)"
proof
  show "valid (validatePlanForExecution (sample_plan [sample_step ''a'', sample_step ''a'']))" by code_simp
  show "map_option (\<lambda>(x, s). (x, status s))
      (execute (sample_env [] succeeds) 5 (sample_run [sample_step ''a'', sample_step ''a''] None)) =
    Some (Inr (), Failed)" by code_simp
qed

end
