(* ===== verification/ExecEngine.thy ===== *)
theory ExecEngine
  imports ExecReliable ExecValidator
begin

text \<open>
  The execution engine, packages/hermes/src/execution/ExecutionEngine.ts: identifiers, the
  request to the planner, validation, the run of the loop and the result.

  The planner is code the engine is given: \<open>planningFn\<close> maps the number of the call
  (0 for the plan of the goal, n + 1 for a new plan asked for at the n-th \<open>await\<close> of the
  loop) and the request to a response, or to the message it is rejected with. The retrieved
  memory is discarded by the code, so it does not appear. The record \<open>engine_world\<close> holds
  the clock, the random suffixes of identifiers, the clock during the steps and the calls
  of other code during the loop; \<open>Date.now()\<close> and ISO timestamps read the same clock.
\<close>

subsection \<open>The engine\<close>

type_synonym planning_function = "nat \<Rightarrow> planning_request \<Rightarrow> string + planning_response"
type_synonym step_executor = "nat \<Rightarrow> plan_step \<Rightarrow> execution_context \<Rightarrow> string + execution_step_result"

record engine_options =
  eo_policy :: "execution_policy_overrides option"
  eo_retryPolicy :: "retry_policy_overrides option"
  eo_enableEvents :: "bool option"

record engine_config =
  ec_planningFn :: "planning_function option"
  ec_stepExecutor :: "step_executor option"
  ec_engineOptions :: "engine_options option"

record engine =
  en_planningFn :: "planning_function option"
  en_policy :: execution_policy_overrides
  en_retryPolicy :: retry_policy_overrides
  en_enableEvents :: bool

definition no_engine_options :: engine_options where
  "no_engine_options = \<lparr>eo_policy = None, eo_retryPolicy = None, eo_enableEvents = None\<rparr>"

text \<open>The constructor: it does not read the member \<open>stepExecutor\<close> of its argument.\<close>

definition new_engine :: "engine_config \<Rightarrow> engine" where
  "new_engine options =
     (let opts = override no_engine_options (ec_engineOptions options)
      in \<lparr>en_planningFn = ec_planningFn options,
          en_policy = override no_policy_overrides (eo_policy opts),
          en_retryPolicy = override no_retry_overrides (eo_retryPolicy opts),
          en_enableEvents = override True (eo_enableEvents opts)\<rparr>)"

record engine_input =
  in_goal :: string
  in_availableTools :: "string list"
  in_availablePlugins :: "string list option"
  in_requestId :: "string option"
  in_signal :: "bool option"

record engine_world =
  ew_clock :: "nat \<Rightarrow> instant"
  ew_suffix :: "nat \<Rightarrow> string"
  ew_stepClock :: "nat \<Rightarrow> nat \<Rightarrow> instant"
  ew_interference :: "nat \<Rightarrow> control list"
  ew_checkpointCounter :: nat

datatype engine_error = PlanningRejected string | LoopThrew execution_error

subsection \<open>Helpers of the engine\<close>

text \<open>\<open>createIds\<close> reads the clock from reading 1 on, five times without a request id, else four.\<close>

definition stamped :: "engine_world \<Rightarrow> string \<Rightarrow> nat \<Rightarrow> string" where
  "stamped w prefix n = prefix @ int_str (ew_clock w n) @ ''_'' @ ew_suffix w n"

definition createIds :: "engine_world \<Rightarrow> string option \<Rightarrow> execution_ids" where
  "createIds w requestId =
     \<lparr>executionId = stamped w ''exec_'' 1, goalId = stamped w ''goal_'' 2,
      planId = stamped w ''plan_'' 3, sessionId = stamped w ''sess_'' 4,
      parentExecutionId = None,
      correlationId = override (stamped w ''corr_'' 5) requestId\<rparr>"

definition ids_readings :: "string option \<Rightarrow> nat" where
  "ids_readings requestId = (case requestId of None \<Rightarrow> 6 | Some _ \<Rightarrow> 5)"

definition system_tool :: "string \<Rightarrow> tool_definition" where
  "system_tool i =
     \<lparr>td_id = i, td_name = i, td_description = [], td_pluginId = ''system'',
      td_parameters = \<lparr>required_params = None, optional_params = None\<rparr>, td_returnType = None,
      td_permissions = [], td_timeoutMs = None, td_enabled = None\<rparr>"

definition planning_request_of ::
  "string \<Rightarrow> string list \<Rightarrow> string list option \<Rightarrow> string option \<Rightarrow> planning_request" where
  "planning_request_of goal tools plugins requestId =
     \<lparr>preq_goal = goal, preq_availableTools = map system_tool tools, preq_systemContext = None,
      preq_availablePlugins = plugins, preq_preferredStrategy = None, preq_maxSteps = None,
      preq_constraints = None, preq_requestId = requestId\<rparr>"

definition defaultStepExecutor :: "(nat \<Rightarrow> nat \<Rightarrow> instant) \<Rightarrow> step_executor" where
  "defaultStepExecutor stepClock n step c =
     Inr \<lparr>sr_stepId = ps_id step, sr_success = True,
          sr_data = Some (JObj [(''message'', JStr (''Step '' @ quoted (ps_title step) @ '' completed''))]),
          sr_error = None, sr_errorCode = None, sr_durationMs = stepClock n 1 - stepClock n 0,
          sr_retryAttempts = 0, sr_completedAt = stepClock n 2\<rparr>"

definition replanCallback ::
  "planning_function \<Rightarrow> string list \<Rightarrow> string list option \<Rightarrow>
   nat \<Rightarrow> execution_context \<Rightarrow> string + plan_result" where
  "replanCallback planning tools plugins n c =
     (case planning (n + 1) (planning_request_of (cx_goal c) tools plugins (cx_requestId c)) of
        Inl message \<Rightarrow> Inl message
      | Inr response \<Rightarrow>
          (case presp_plan response of
             None \<Rightarrow> Inl (error_message (ExecutionFailedError ''Replanning failed: no plan generated''))
           | Some plan \<Rightarrow> Inr plan))"

definition failed_result ::
  "execution_ids \<Rightarrow> int \<Rightarrow> string \<Rightarrow> string \<Rightarrow> nat \<Rightarrow> execution_result" where
  "failed_result ids d err code steps =
     \<lparr>er_ids = ids, er_status = Failed, er_success = False, er_stepResults = [], er_durationMs = d,
      er_error = Some err, er_errorCode = Some code, er_output = None, er_stepsCompleted = 0,
      er_totalSteps = steps, er_totalRetries = 0\<rparr>"

definition buildResult :: "instant \<Rightarrow> instant \<Rightarrow> execution_context \<Rightarrow> execution_result" where
  "buildResult t startTime c =
     (let status = getStatus (cx_stateMachine c)
      in \<lparr>er_ids = cx_ids c, er_status = status, er_success = (status = Completed),
          er_stepResults = cx_stepResults c, er_durationMs = t - startTime,
          er_error = (if status = Failed then Some ''Execution failed'' else None),
          er_errorCode = (if status = Failed then Some ''EXECUTION_FAILED'' else None),
          er_output = None, er_stepsCompleted = getStepsCompleted c,
          er_totalSteps = getTotalSteps c, er_totalRetries = getTotalRetries c\<rparr>)"

definition getSummary :: "instant \<Rightarrow> execution_context \<Rightarrow> execution_summary" where
  "getSummary t c =
     \<lparr>es_ids = cx_ids c, es_status = getStatus (cx_stateMachine c), es_goal = cx_goal c,
      es_progress = nat_str (getStepsCompleted c) @ ''/'' @ nat_str (getTotalSteps c),
      es_durationMs = cx_getDurationMs t c, es_retries = getTotalRetries c, es_error = None\<rparr>"

subsection \<open>Executing a goal\<close>

definition engine_options_of :: "engine \<Rightarrow> engine_input \<Rightarrow> context_options" where
  "engine_options_of en inp =
     \<lparr>co_availableTools = Some (in_availableTools inp),
      co_availablePlugins = Some (override [] (in_availablePlugins inp)),
      co_policy = Some (en_policy en), co_retryPolicy = Some (en_retryPolicy en),
      co_signal = in_signal inp, co_requestId = in_requestId inp\<rparr>"

text \<open>The loop's environment and its first state, once the plan is valid.\<close>

definition engine_env :: "engine_world \<Rightarrow> engine \<Rightarrow> engine_input \<Rightarrow> environment" where
  "engine_env w en inp =
     \<lparr>clock = ew_clock w, runStep = defaultStepExecutor (ew_stepClock w),
      interference = ew_interference w,
      replanner = map_option (\<lambda>f. replanCallback f (in_availableTools inp) (in_availablePlugins inp))
        (en_planningFn en)\<rparr>"

definition engine_start ::
  "engine_world \<Rightarrow> engine \<Rightarrow> engine_input \<Rightarrow> plan_result \<Rightarrow> run" where
  "engine_start w en inp plan =
     (let t = ids_readings (in_requestId inp);
          c = new_context (createIds w (in_requestId inp)) (in_goal inp) (engine_options_of en inp);
          (c', k) = setPlan (ew_clock w t) (ew_clock w (t + 1)) (ew_checkpointCounter w) plan c
      in \<lparr>cx = c', ticks = (if pr_steps plan = [] then t else t + 2), checkpointCounter = k,
          emitted = [], awaits = 0\<rparr>)"

definition get_plan :: "engine \<Rightarrow> engine_input \<Rightarrow> string + plan_result option" where
  "get_plan en inp =
     (case en_planningFn en of
        None \<Rightarrow> Inr None
      | Some planning \<Rightarrow>
          (case planning 0 (planning_request_of (in_goal inp) (in_availableTools inp)
                  (in_availablePlugins inp) (in_requestId inp)) of
             Inl message \<Rightarrow> Inl message
           | Inr response \<Rightarrow> Inr (presp_plan response)))"

text \<open>The outcome of the call beside the events the engine's handlers receive.\<close>

definition engine_execute ::
  "engine_world \<Rightarrow> engine \<Rightarrow> nat \<Rightarrow> engine_input \<Rightarrow>
   ((engine_error + execution_result) \<times> execution_event list) option" where
  "engine_execute w en fuel inp =
     (let startTime = ew_clock w 0;
          ids = createIds w (in_requestId inp);
          elapsed = ew_clock w (ids_readings (in_requestId inp)) - startTime
      in case get_plan en inp of
           Inl message \<Rightarrow> Some (Inl (PlanningRejected message), [])
         | Inr None \<Rightarrow> Some (Inr (failed_result ids elapsed ''No plan generated'' ''NO_PLAN'' 0), [])
         | Inr (Some plan) \<Rightarrow>
             (let validation = validatePlanForExecution plan
              in if \<not> valid validation
                 then Some (Inr (failed_result ids elapsed (join ''; '' (errors validation))
                        ''PLAN_INVALID'' (length (pr_steps plan))), [])
                 else case execute (engine_env w en inp) fuel (engine_start w en inp plan) of
                        None \<Rightarrow> None
                      | Some (res, s) \<Rightarrow>
                          (let events = (if en_enableEvents en then emitted s else [])
                           in case res of
                                Inl e \<Rightarrow> Some (Inl (LoopThrew e), events)
                              | Inr _ \<Rightarrow>
                                  Some (Inr (buildResult (now (engine_env w en inp) 0 s) startTime (cx s)), events))))"

subsection \<open>The default executor is reliable\<close>

interpretation default_executor: reliable_executor "defaultStepExecutor stepClock" for stepClock
  by unfold_locales (simp add: defaultStepExecutor_def)

lemma engine_start_facts:
  "fresh_run plan (engine_start w en inp plan)"
  "cx_stateMachine (cx (engine_start w en inp plan)) = new_state_machine"
  "cx_stepResults (cx (engine_start w en inp plan)) = []"
  "cx_signal (cx (engine_start w en inp plan)) = in_signal inp"
  "awaits (engine_start w en inp plan) = 0"
  by (simp_all add: engine_start_def Let_def case_prod_beta fresh_run_def engine_options_of_def
      new_context_retry new_retry_manager_def)

lemma setPlan_plan_results:
  "map sr_stepId (cx_stepResults c) = map ps_id (pr_steps p) \<Longrightarrow>
   \<forall>r \<in> set (cx_stepResults c). sr_success r \<Longrightarrow> getStepsCompleted c = length (pr_steps p)"
  by (metis filter_True getStepsCompleted_def length_map)

text \<open>
  C4: when the planner returns a valid plan with distinct step identifiers, no abort signal
  is given and no other code pauses the execution, the engine returns a result for every
  step of the plan, in the order of the plan, all successful; the execution is reported as
  cancelled when some other code cancelled it at any step, and as completed otherwise.
\<close>

theorem engine_runs_the_plan:
  assumes "get_plan en inp = Inr (Some plan)" and "valid (validatePlanForExecution plan)"
    and "distinct (map ps_id (pr_steps plan))" and "in_signal inp = None"
    and "\<forall>n. PauseC \<notin> set (ew_interference w n)" and "length (pr_steps plan) < fuel"
  shows "\<exists>result events. engine_execute w en fuel inp = Some (Inr result, events) \<and>
    map sr_stepId (er_stepResults result) = map ps_id (pr_steps plan) \<and>
    (\<forall>r \<in> set (er_stepResults result). sr_success r) \<and>
    er_stepsCompleted result = length (pr_steps plan) \<and>
    er_status result = (if \<exists>n < length (pr_steps plan). cancels (ew_interference w n)
      then Cancelled else Completed)"
proof -
  obtain s' where ex: "execute (engine_env w en inp) fuel (engine_start w en inp plan) = Some (Inr (), s')"
    and ids: "map sr_stepId (cx_stepResults (cx s')) = map ps_id (pr_steps plan)"
    and ok: "\<forall>r \<in> set (cx_stepResults (cx s')). sr_success r"
    and st: "status s' = (if \<exists>n < length (pr_steps plan). cancels (interference (engine_env w en inp) n)
      then Cancelled else Completed)"
    using default_executor.execution_runs_all
      [of "engine_env w en inp" "ew_stepClock w" plan "engine_start w en inp plan" fuel] assms
    by (auto simp: engine_start_facts engine_env_def pauseless_def)
  have int: "interference (engine_env w en inp) = ew_interference w" by (simp add: engine_env_def)
  from ids ok st show ?thesis
    by (simp add: engine_execute_def Let_def assms(1,2) ex buildResult_def setPlan_plan_results int)
qed

definition sample_world :: "control list \<Rightarrow> engine_world" where
  "sample_world controls =
     \<lparr>ew_clock = (\<lambda>n. int n), ew_suffix = (\<lambda>n. ''abc''), ew_stepClock = (\<lambda>n k. int k),
      ew_interference = (\<lambda>n. if n = 0 then controls else []), ew_checkpointCounter = 0\<rparr>"

definition answer_plan :: "plan_result option \<Rightarrow> planning_function" where
  "answer_plan p n req = Inr \<lparr>presp_plan = p, presp_error = None, presp_errorCode = None,
     presp_durationMs = 0, presp_requestId = None\<rparr>"

definition sample_engine :: "planning_function option \<Rightarrow> engine" where
  "sample_engine f = new_engine \<lparr>ec_planningFn = f, ec_stepExecutor = None, ec_engineOptions = None\<rparr>"

definition sample_input :: engine_input where
  "sample_input = \<lparr>in_goal = ''g'', in_availableTools = [''t''], in_availablePlugins = None,
     in_requestId = None, in_signal = None\<rparr>"

theorem engine_runs_the_plan_witness:
  "\<exists>result events. engine_execute (sample_world [CancelC ''stop''])
       (sample_engine (Some (answer_plan (Some (sample_plan [sample_step ''a'', sample_step ''b''])))))
       5 sample_input = Some (Inr result, events) \<and>
     map sr_stepId (er_stepResults result) = [''a'', ''b''] \<and> er_status result = Cancelled"
proof -
  let ?p = "sample_plan [sample_step ''a'', sample_step ''b'']"
  let ?w = "sample_world [CancelC ''stop'']" and ?en = "sample_engine (Some (answer_plan (Some ?p)))"
  have plan: "get_plan ?en sample_input = Inr (Some ?p)"
    by (simp add: get_plan_def sample_engine_def new_engine_def Let_def answer_plan_def)
  have valid: "valid (validatePlanForExecution ?p)" by code_simp
  have steps: "map ps_id (pr_steps ?p) = [''a'', ''b'']" "length (pr_steps ?p) = 2"
    by (simp_all add: sample_plan_def sample_step_def)
  have "\<exists>n < length (pr_steps ?p). cancels (ew_interference ?w n)"
    by (intro exI [of _ 0]) (simp add: steps sample_world_def cancels_def)
  with engine_runs_the_plan [OF plan valid, of ?w 5] steps show ?thesis
    by (auto simp: sample_input_def sample_world_def)
qed

text \<open>
  Without a valid plan nothing is executed: the engine emits no event and reports
  failure, with \<open>NO_PLAN\<close> when there is no plan and with \<open>PLAN_INVALID\<close> and the
  errors of the validator when there is an invalid one; a rejection of the planner is the
  engine's own.
\<close>

theorem engine_without_valid_plan:
  "(\<forall>message. get_plan en inp = Inl message \<longrightarrow>
      engine_execute w en fuel inp = Some (Inl (PlanningRejected message), [])) \<and>
   (get_plan en inp = Inr None \<longrightarrow> (\<exists>result. engine_execute w en fuel inp = Some (Inr result, []) \<and>
      er_status result = Failed \<and> er_errorCode result = Some ''NO_PLAN'' \<and> er_stepResults result = [])) \<and>
   (\<forall>plan. get_plan en inp = Inr (Some plan) \<longrightarrow> \<not> valid (validatePlanForExecution plan) \<longrightarrow>
      (\<exists>result. engine_execute w en fuel inp = Some (Inr result, []) \<and>
         er_status result = Failed \<and> er_errorCode result = Some ''PLAN_INVALID'' \<and>
         er_error result = Some (join ''; '' (errors (validatePlanForExecution plan))) \<and>
         er_stepResults result = []))"
  by (simp add: engine_execute_def Let_def failed_result_def)

theorem engine_without_valid_plan_witness:
  "(\<exists>result. engine_execute (sample_world []) (sample_engine None) 0 sample_input = Some (Inr result, []) \<and>
     er_errorCode result = Some ''NO_PLAN'') \<and>
   (\<exists>result. engine_execute (sample_world []) (sample_engine (Some (answer_plan (Some (sample_plan [])))))
       0 sample_input = Some (Inr result, []) \<and>
     er_errorCode result = Some ''PLAN_INVALID'' \<and> er_error result = Some ''Plan has no steps'')"
proof -
  have none: "get_plan (sample_engine None) sample_input = Inr None"
    by (simp add: get_plan_def sample_engine_def new_engine_def Let_def)
  let ?en = "sample_engine (Some (answer_plan (Some (sample_plan []))))"
  have empty: "get_plan ?en sample_input = Inr (Some (sample_plan []))"
    by (simp add: get_plan_def sample_engine_def new_engine_def Let_def answer_plan_def)
  have errs: "errors (validatePlanForExecution (sample_plan [])) = [''Plan has no steps'']" by code_simp
  have inv: "\<not> valid (validatePlanForExecution (sample_plan []))" by code_simp
  show ?thesis
    using engine_without_valid_plan [of "sample_engine None" sample_input "sample_world []" 0]
      engine_without_valid_plan [of ?en sample_input "sample_world []" 0] none empty errs inv
    by auto
qed

end
