(* ===== verification/PlanStrategy.thy ===== *)
theory PlanStrategy
  imports PlanTypes
begin

text \<open>
  Planning strategies with their registry, packages/llm/src/planning/PlanningStrategy.ts, and
  the planning context with its defaults, packages/llm/src/planning/PlanningContext.ts.
\<close>

subsection \<open>Strategies\<close>

fun strategy_str :: "planning_strategy_type \<Rightarrow> string" where
  "strategy_str Sequential = ''sequential''"
| "strategy_str Parallel = ''parallel''"
| "strategy_str Conditional = ''conditional''"

record planning_strategy =
  str_type :: planning_strategy_type
  str_name :: string
  str_organize :: "plan_step list \<Rightarrow> plan_step list"
  str_generateDependencies :: "plan_step list \<Rightarrow> plan_dependency list"

fun consecutive_dependencies :: "plan_step list \<Rightarrow> plan_dependency list" where
  "consecutive_dependencies (s # s' # steps) =
     \<lparr>pd_from = ps_id s', pd_to = ps_id s\<rparr> # consecutive_dependencies (s' # steps)"
| "consecutive_dependencies steps = []"

definition SequentialStrategy :: planning_strategy where
  "SequentialStrategy =
     \<lparr>str_type = Sequential, str_name = ''Sequential'', str_organize = (\<lambda>steps. steps),
      str_generateDependencies = consecutive_dependencies\<rparr>"

definition ParallelStrategy :: planning_strategy where
  "ParallelStrategy =
     \<lparr>str_type = Parallel, str_name = ''Parallel'', str_organize = (\<lambda>steps. steps),
      str_generateDependencies = (\<lambda>_. [])\<rparr>"

definition ConditionalStrategy :: planning_strategy where
  "ConditionalStrategy =
     \<lparr>str_type = Conditional, str_name = ''Conditional'', str_organize = (\<lambda>steps. steps),
      str_generateDependencies = (\<lambda>_. [])\<rparr>"

text \<open>The registry is a mutable map of the module: a state that is passed.\<close>

type_synonym strategy_registry = "(planning_strategy_type, planning_strategy) jmap"

definition strategies :: strategy_registry where
  "strategies =
     [(Sequential, SequentialStrategy), (Parallel, ParallelStrategy), (Conditional, ConditionalStrategy)]"

definition getStrategy :: "strategy_registry \<Rightarrow> planning_strategy_type \<Rightarrow> planning_strategy option" where
  "getStrategy reg t = jm_get reg t"

definition registerStrategy :: "planning_strategy \<Rightarrow> strategy_registry \<Rightarrow> strategy_registry" where
  "registerStrategy s reg = jm_set (str_type s) s reg"

definition listStrategies :: "strategy_registry \<Rightarrow> planning_strategy list" where
  "listStrategies reg = jm_values reg"

definition hasStrategy :: "strategy_registry \<Rightarrow> planning_strategy_type \<Rightarrow> bool" where
  "hasStrategy reg t \<longleftrightarrow> jm_has reg t"

text \<open>No strategy type can get lost: the registry only grows.\<close>

lemma getStrategy_register:
  "getStrategy (registerStrategy s reg) t = (if t = str_type s then Some s else getStrategy reg t)"
  by (simp add: getStrategy_def registerStrategy_def jm_get_set)

lemma getStrategy_default:
  "getStrategy strategies t = Some (case t of
     Sequential \<Rightarrow> SequentialStrategy | Parallel \<Rightarrow> ParallelStrategy | Conditional \<Rightarrow> ConditionalStrategy)"
  by (cases t) (simp_all add: getStrategy_def strategies_def)

lemma every_strategy_registered:
  "getStrategy (fold registerStrategy ss strategies) t \<noteq> None"
proof -
  have "getStrategy (fold registerStrategy ss reg) t \<noteq> None" if "getStrategy reg t \<noteq> None" for reg
    using that by (induction ss arbitrary: reg) (simp_all add: getStrategy_register)
  then show ?thesis by (simp add: getStrategy_default)
qed

subsection \<open>Contexts\<close>

record planning_context =
  px_goal :: string
  px_availableTools :: "tool_definition list"
  px_availablePlugins :: "string list"
  px_systemContext :: string
  px_preferredStrategy :: planning_strategy_type
  px_maxSteps :: int
  px_constraints :: "plan_constraint list"
  px_requestId :: string

definition createPlanningContext ::
  "string \<Rightarrow> tool_definition list option \<Rightarrow> string list option \<Rightarrow> string option \<Rightarrow>
   planning_strategy_type option \<Rightarrow> int option \<Rightarrow> plan_constraint list option \<Rightarrow> string option \<Rightarrow>
   planning_context" where
  "createPlanningContext goal tools plugins systemContext strategy maxSteps constraints requestId =
     \<lparr>px_goal = goal, px_availableTools = override [] tools,
      px_availablePlugins = override [] plugins, px_systemContext = override [] systemContext,
      px_preferredStrategy = override Sequential strategy, px_maxSteps = override 50 maxSteps,
      px_constraints = override [] constraints, px_requestId = override [] requestId\<rparr>"

definition getToolsForPlugins :: "tool_definition list \<Rightarrow> string list \<Rightarrow> tool_definition list" where
  "getToolsForPlugins tools plugins =
     (if length plugins = 0 then tools else filter (\<lambda>t. td_pluginId t \<in> set plugins) tools)"

definition findToolById :: "tool_definition list \<Rightarrow> string \<Rightarrow> tool_definition option" where
  "findToolById tools toolId = List.find (\<lambda>t. td_id t = toolId) tools"

end
