(* ===== verification/PlanValidator.thy ===== *)
theory PlanValidator
  imports PlanTypes Graphs
begin

text \<open>
  The plan validator, packages/llm/src/planning/PlanningValidator.ts: the six checks and
  their union. The search for cycles visits every node once and reports a cycle for every
  edge that leads back into the path from the root to the node it is at.
\<close>

subsection \<open>The checks without search\<close>

text \<open>The set \<open>seen\<close> grows with every step, also after a duplicate.\<close>

fun duplicate_ids :: "string set \<Rightarrow> plan_step list \<Rightarrow> string list" where
  "duplicate_ids seen [] = []"
| "duplicate_ids seen (step # steps) =
     (if ps_id step \<in> seen then [''Duplicate step ID: '' @ quoted (ps_id step)] else []) @
     duplicate_ids (insert (ps_id step) seen) steps"

definition validateNoDuplicateIds :: "plan_step list \<Rightarrow> string list" where
  "validateNoDuplicateIds steps = duplicate_ids {} steps"

definition validateDependenciesExist :: "plan_step list \<Rightarrow> string list" where
  "validateDependenciesExist steps =
     (let ids = set (map ps_id steps)
      in concat (map (\<lambda>step. concat (map (\<lambda>dep.
           if dep \<notin> ids
           then [''Step '' @ quoted (ps_id step) @ '' depends on unknown step '' @ quoted dep] else [])
         (ps_dependsOn step))) steps))"

definition validateToolsExist :: "plan_step list \<Rightarrow> tool_definition list \<Rightarrow> string list" where
  "validateToolsExist steps availableTools =
     (let toolIds = set (map td_id availableTools)
      in concat (map (\<lambda>step. case ps_tool step of
             None \<Rightarrow> []
           | Some tool \<Rightarrow>
               (if tool \<noteq> [] \<and> tool \<notin> toolIds
                then [''Step '' @ quoted (ps_id step) @ '' references unknown tool '' @ quoted tool]
                else [])) steps))"

definition validateNotEmpty :: "plan_step list \<Rightarrow> string list" where
  "validateNotEmpty steps = (if length steps = 0 then [''Plan has no steps''] else [])"

definition missing_field :: "string \<Rightarrow> string \<Rightarrow> string" where
  "missing_field i field = ''Step '' @ quoted i @ '' missing required field '' @ quoted field"

definition validateStepFields :: "plan_step list \<Rightarrow> string list" where
  "validateStepFields steps =
     concat (map (\<lambda>step.
       (if ps_id step = [] then [''Step missing required field '' @ quoted ''id''] else []) @
       (if ps_title step = [] then [missing_field (ps_id step) ''title''] else []) @
       (if ps_description step = [] then [missing_field (ps_id step) ''description''] else []) @
       (if ps_expectedResult step = [] then [missing_field (ps_id step) ''expectedResult''] else [])) steps)"

subsection \<open>The search for cycles\<close>

text \<open>
  \<open>adjacency\<close> maps the identifier of each step to its dependencies; of two steps with one
  identifier the later one counts. \<open>dfs_all\<close> calls \<open>dfs\<close> on each of a list of nodes.
  \<open>inStack\<close> and \<open>path\<close> are what the code pushes before and pops after the loop over the
  neighbours, so they are arguments here; \<open>visited\<close> and \<open>errors\<close> are threaded through.
\<close>

definition adjacency_of :: "plan_step list \<Rightarrow> graph" where
  "adjacency_of steps = fold (\<lambda>step g. jm_set (ps_id step) (ps_dependsOn step) g) steps []"

definition cycle_through :: "string list \<Rightarrow> string \<Rightarrow> string list" where
  "cycle_through path node = dropWhile (\<lambda>x. x \<noteq> node) path @ [node]"

definition cycle_error :: "string list \<Rightarrow> string" where
  "cycle_error cyc = ''Dependency cycle: '' @ join '' -> '' cyc"

function (domintros) dfs_all ::
  "graph \<Rightarrow> string set \<Rightarrow> string list \<Rightarrow> string list \<Rightarrow> string set \<times> string list \<Rightarrow>
   string set \<times> string list" where
  "dfs_all adjacency inStack path [] st = st"
| "dfs_all adjacency inStack path (node # nodes) st =
     (if node \<in> inStack then
        dfs_all adjacency inStack path nodes
          (fst st, snd st @ (if node \<in> set path then [cycle_error (cycle_through path node)] else []))
      else if node \<in> fst st then dfs_all adjacency inStack path nodes st
      else dfs_all adjacency inStack path nodes
        (dfs_all adjacency (insert node inStack) (path @ [node]) (succs adjacency node)
           (insert node (fst st), snd st)))"
  by pat_completeness auto

lemma dfs_all_grows:
  "dfs_all_dom (g, S, path, nodes, st) \<Longrightarrow> fst st \<subseteq> fst (dfs_all g S path nodes st)"
proof (induction g S path nodes st rule: dfs_all.pinduct)
  case (1 g S path st)
  then show ?case by (simp add: dfs_all.psimps)
next
  case (2 g S path node nodes st)
  then show ?case by (auto simp: dfs_all.psimps)
qed

termination dfs_all
proof (relation "measures [\<lambda>(g, S, path, nodes, st). card (set (jm_keys g) - fst st),
    \<lambda>(g, S, path, nodes, st). length nodes]", goal_cases)
  case 1
  then show ?case by simp
next
  case (2 g S path node nodes st)
  then show ?case by simp
next
  case (3 g S path node nodes st)
  then show ?case by simp
next
  case (4 g S path node nodes st)
  then show ?case
    using unvisited_decreases [of node g "fst st"]
    by (cases "node \<in> set (jm_keys g)") (auto simp: insert_absorb)
next
  case (5 g S path node nodes st)
  with dfs_all_grows [of g "insert node S" "path @ [node]" "succs g node" "(insert node (fst st), snd st)"]
  have "fst st \<subseteq> fst (dfs_all g (insert node S) (path @ [node]) (succs g node) (insert node (fst st), snd st))"
    by auto
  then have "card (set (jm_keys g) - fst (dfs_all g (insert node S) (path @ [node]) (succs g node)
      (insert node (fst st), snd st))) \<le> card (set (jm_keys g) - fst st)"
    by (rule unvisited_antimono)
  then show ?case by auto
qed

definition dfs ::
  "graph \<Rightarrow> string set \<Rightarrow> string list \<Rightarrow> string \<Rightarrow> string set \<times> string list \<Rightarrow> string set \<times> string list" where
  "dfs adjacency inStack path node st = dfs_all adjacency inStack path [node] st"

definition validateNoCycles :: "plan_step list \<Rightarrow> string list" where
  "validateNoCycles steps =
     snd (fold (\<lambda>step st. if ps_id step \<notin> fst st then dfs (adjacency_of steps) {} [] (ps_id step) st else st)
       steps ({}, []))"

definition validatePlan :: "plan_result \<Rightarrow> tool_definition list \<Rightarrow> validation" where
  "validatePlan plan availableTools =
     report (validateNotEmpty (pr_steps plan) @ validateStepFields (pr_steps plan) @
       validateNoDuplicateIds (pr_steps plan) @ validateDependenciesExist (pr_steps plan) @
       validateNoCycles (pr_steps plan) @ validateToolsExist (pr_steps plan) availableTools)"

subsection \<open>Correctness of the search\<close>

abbreviation below :: "graph \<Rightarrow> string set \<Rightarrow> string list \<Rightarrow> string \<Rightarrow> string set \<times> string list \<Rightarrow>
    string set \<times> string list" where
  "below g S path n st \<equiv> dfs_all g (insert n S) (path @ [n]) (succs g n) (insert n (fst st), snd st)"

lemma dfs_all_stacked:
  "n \<in> S \<Longrightarrow> set path = S \<Longrightarrow> dfs_all g S path (n # ns) st =
     dfs_all g S path ns (fst st, snd st @ [cycle_error (cycle_through path n)])"
  by simp

lemma dfs_all_seen: "n \<notin> S \<Longrightarrow> n \<in> fst st \<Longrightarrow> dfs_all g S path (n # ns) st = dfs_all g S path ns st"
  by simp

lemma dfs_all_fresh:
  "n \<notin> S \<Longrightarrow> n \<notin> fst st \<Longrightarrow>
   dfs_all g S path (n # ns) st = dfs_all g S path ns (below g S path n st)"
  by simp

declare dfs_all.simps(2) [simp del]

lemma dfs_all_induct [case_names Nil Stacked Seen Fresh]:
  assumes "\<And>g S path st. P g S path [] st"
    and "\<And>g S path n ns st. n \<in> S \<Longrightarrow>
      P g S path ns (fst st, snd st @ (if n \<in> set path then [cycle_error (cycle_through path n)] else [])) \<Longrightarrow>
      P g S path (n # ns) st"
    and "\<And>g S path n ns st. n \<notin> S \<Longrightarrow> n \<in> fst st \<Longrightarrow> P g S path ns st \<Longrightarrow> P g S path (n # ns) st"
    and "\<And>g S path n ns st. n \<notin> S \<Longrightarrow> n \<notin> fst st \<Longrightarrow>
      P g (insert n S) (path @ [n]) (succs g n) (insert n (fst st), snd st) \<Longrightarrow>
      P g S path ns (below g S path n st) \<Longrightarrow> P g S path (n # ns) st"
  shows "P g S path nodes st"
proof (induction g S path nodes st rule: dfs_all.induct)
  case (1 g S path st)
  then show ?case by (rule assms(1))
next
  case (2 g S path n ns st)
  consider "n \<in> S" | "n \<notin> S" "n \<in> fst st" | "n \<notin> S" "n \<notin> fst st" by blast
  then show ?case
  proof cases
    case 1
    with 2 show ?thesis by (intro assms(2))
  next
    case 2
    with "2.IH" show ?thesis by (intro assms(3))
  next
    case 3
    with "2.IH" show ?thesis by (intro assms(4))
  qed
qed

text \<open>Errors are only added.\<close>

lemma dfs_all_errors: "\<exists>es. snd (dfs_all g S path ns st) = snd st @ es"
proof (induction g S path ns st rule: dfs_all_induct)
  case (Stacked g S path n ns st)
  then show ?case by (auto simp: dfs_all.simps(2))
next
  case (Fresh g S path n ns st)
  then show ?case by (auto simp: dfs_all_fresh)
qed (simp_all add: dfs_all_seen)

lemma dfs_all_quiet_below:
  assumes "n \<notin> S" and "n \<notin> fst st" and "snd (dfs_all g S path (n # ns) st) = snd st"
  shows "snd (below g S path n st) = snd st"
proof -
  obtain es1 where "snd (below g S path n st) = snd st @ es1"
    using dfs_all_errors [of g "insert n S" "path @ [n]" "succs g n" "(insert n (fst st), snd st)"] by auto
  moreover obtain es2 where "snd (dfs_all g S path ns (below g S path n st)) = snd (below g S path n st) @ es2"
    using dfs_all_errors by blast
  ultimately show ?thesis using assms by (simp add: dfs_all_fresh)
qed

text \<open>A search without a new error leaves a finished set that holds all nodes it was given.\<close>

lemma dfs_all_finished:
  assumes "snd (dfs_all g S path ns st) = snd st" and "set path = S" and "S \<subseteq> fst st"
    and "finished (edges g) (fst st - S)"
  shows "finished (edges g) (fst (dfs_all g S path ns st) - S) \<and>
    fst st - S \<union> set ns \<subseteq> fst (dfs_all g S path ns st) - S \<and> fst st \<subseteq> fst (dfs_all g S path ns st)"
  using assms
proof (induction g S path ns st rule: dfs_all_induct)
  case (Nil g S path st)
  then show ?case by simp
next
  case (Stacked g S path n ns st)
  obtain es where "snd (dfs_all g S path ns (fst st, snd st @ [cycle_error (cycle_through path n)])) =
      (snd st @ [cycle_error (cycle_through path n)]) @ es"
    using dfs_all_errors [of g S path ns "(fst st, snd st @ [cycle_error (cycle_through path n)])"] by auto
  with Stacked.prems Stacked.hyps show ?case by (simp add: dfs_all_stacked)
next
  case (Seen g S path n ns st)
  then show ?case by (auto simp: dfs_all_seen)
next
  case (Fresh g S path n ns st)
  let ?r = "below g S path n st"
  have q: "snd ?r = snd st" by (rule dfs_all_quiet_below [OF Fresh.hyps Fresh.prems(1)])
  have "insert n (fst st) - insert n S = fst st - S" using Fresh.hyps by auto
  then have b: "finished (edges g) (fst ?r - insert n S)"
    "fst st - S \<union> set (succs g n) \<subseteq> fst ?r - insert n S" "insert n (fst st) \<subseteq> fst ?r"
    using Fresh.IH(1) Fresh.prems q by auto
  have "finished (edges g) (insert n (fst ?r - insert n S))"
    using b by (intro finished_insert) auto
  moreover have "insert n (fst ?r - insert n S) = fst ?r - S" using b(3) Fresh.hyps by auto
  ultimately have fin: "finished (edges g) (fst ?r - S)" by simp
  have rest: "snd (dfs_all g S path ns ?r) = snd ?r"
    using Fresh.prems(1) Fresh.hyps q by (simp add: dfs_all_fresh)
  have sub: "S \<subseteq> fst ?r" using b(3) Fresh.prems(3) by auto
  let ?w = "fst (dfs_all g S path ns ?r)"
  have w: "finished (edges g) (?w - S)" "fst ?r - S \<union> set ns \<subseteq> ?w - S" "fst ?r \<subseteq> ?w"
    using Fresh.IH(2) [OF rest Fresh.prems(2) sub fin] by simp_all
  have "fst st - S \<union> set (n # ns) \<subseteq> ?w - S" and "fst st \<subseteq> ?w"
    using w(2,3) b(3) Fresh.hyps(1) by auto
  with w(1) show ?case unfolding dfs_all_fresh [OF Fresh.hyps] by simp
qed

text \<open>Every error names a cycle of the graph that can be reached from a root.\<close>

definition genuine_cycle :: "graph \<Rightarrow> string list \<Rightarrow> string list \<Rightarrow> bool" where
  "genuine_cycle g roots cyc \<longleftrightarrow>
     2 \<le> length cyc \<and> hd cyc = last cyc \<and> successively (\<lambda>x y. y \<in> set (succs g x)) cyc \<and>
     (\<exists>r \<in> set roots. (r, hd cyc) \<in> (edges g)\<^sup>*)"

lemma cycle_through_genuine:
  assumes "n \<in> set path" and "successively (\<lambda>x y. y \<in> set (succs g x)) path"
    and "n \<in> set (succs g (last path))" and "\<exists>r \<in> set roots. (r, n) \<in> (edges g)\<^sup>*"
  shows "genuine_cycle g roots (cycle_through path n)"
proof -
  let ?d = "dropWhile (\<lambda>x. x \<noteq> n) path"
  have ne: "?d \<noteq> []" and h: "hd ?d = n"
    using assms(1) hd_dropWhile [of "\<lambda>x. x \<noteq> n" path] by (auto simp: dropWhile_eq_Nil_conv)
  have "successively (\<lambda>x y. y \<in> set (succs g x)) ?d"
    using assms(2) by (metis successively_append_iff takeWhile_dropWhile_id)
  moreover have "last ?d = last path" using ne by (metis last_appendR takeWhile_dropWhile_id)
  ultimately have "successively (\<lambda>x y. y \<in> set (succs g x)) (?d @ [n])"
    using ne assms(3) by (simp add: successively_append_iff)
  moreover have "2 \<le> length (?d @ [n])" and "hd (?d @ [n]) = n" using ne h by (cases ?d; simp)+
  ultimately show ?thesis
    using assms(4) by (simp add: genuine_cycle_def cycle_through_def)
qed

lemma dfs_all_sound:
  assumes "e \<in> set (snd (dfs_all g S path ns st))" and "e \<notin> set (snd st)" and "set path = S"
    and "successively (\<lambda>x y. y \<in> set (succs g x)) path"
    and "path \<noteq> [] \<longrightarrow> set ns \<subseteq> set (succs g (last path))"
    and "\<forall>n \<in> set ns. \<exists>r \<in> set roots. (r, n) \<in> (edges g)\<^sup>*"
  shows "\<exists>cyc. e = cycle_error cyc \<and> genuine_cycle g roots cyc"
  using assms
proof (induction g S path ns st rule: dfs_all_induct)
  case (Nil g S path st)
  then show ?case by simp
next
  case (Stacked g S path n ns st)
  show ?case
  proof (cases "e = cycle_error (cycle_through path n)")
    case True
    have "genuine_cycle g roots (cycle_through path n)"
      using Stacked.prems Stacked.hyps by (intro cycle_through_genuine) auto
    with True show ?thesis by blast
  next
    case False
    with Stacked show ?thesis by (auto simp: dfs_all_stacked)
  qed
next
  case (Seen g S path n ns st)
  then show ?case by (auto simp: dfs_all_seen)
next
  case (Fresh g S path n ns st)
  show ?case
  proof (cases "e \<in> set (snd (below g S path n st))")
    case True
    have "successively (\<lambda>x y. y \<in> set (succs g x)) (path @ [n])"
      using Fresh.prems(4,5) by (auto simp: successively_append_iff)
    moreover have "\<forall>m \<in> set (succs g n). \<exists>r \<in> set roots. (r, m) \<in> (edges g)\<^sup>*"
      using Fresh.prems(6) by (metis edges_iff list.set_intros(1) rtrancl.rtrancl_into_rtrancl)
    ultimately show ?thesis using True Fresh.prems Fresh.IH(1) by auto
  next
    case False
    with Fresh show ?thesis by (auto simp: dfs_all_fresh)
  qed
qed

lemma genuine_cycle_cyclic:
  assumes "genuine_cycle g roots cyc"
  shows "cyclic_from g roots"
proof -
  have chain: "(hd xs, last xs) \<in> (edges g)\<^sup>*" if "successively (\<lambda>x y. y \<in> set (succs g x)) xs" "xs \<noteq> []" for xs
    using that
  proof (induction xs rule: induct_list012)
    case (3 x y zs)
    then show ?case by (auto intro: converse_rtrancl_into_rtrancl)
  qed simp_all
  obtain x y zs where c: "cyc = x # y # zs"
    using assms by (cases cyc rule: remdups_adj.cases) (auto simp: genuine_cycle_def)
  then have "(y, x) \<in> (edges g)\<^sup>*" and "(x, y) \<in> edges g"
    using assms chain [of "y # zs"] by (auto simp: genuine_cycle_def)
  then have "(x, x) \<in> (edges g)\<^sup>+" by (meson rtrancl_into_trancl2)
  with assms c show ?thesis by (auto simp: genuine_cycle_def cyclic_from_def)
qed

lemma dfs_all_iff: "snd (dfs_all g {} [] ns ({}, [])) = [] \<longleftrightarrow> \<not> cyclic_from g ns"
proof
  assume "snd (dfs_all g {} [] ns ({}, [])) = []"
  then have "finished (edges g) (fst (dfs_all g {} [] ns ({}, [])))"
    and "set ns \<subseteq> fst (dfs_all g {} [] ns ({}, []))"
    using dfs_all_finished [of g "{}" "[]" ns "({}, [])"] by auto
  then show "\<not> cyclic_from g ns" by (rule finished_not_cyclic)
next
  assume "\<not> cyclic_from g ns"
  then have "e \<notin> set (snd (dfs_all g {} [] ns ({}, [])))" for e
    using dfs_all_sound [of e g "{}" "[]" ns "({}, [])" ns] genuine_cycle_cyclic by fastforce
  then show "snd (dfs_all g {} [] ns ({}, [])) = []" by (metis list.set_intros(1) neq_Nil_conv)
qed

interpretation planning: cycle_checker "\<lambda>g ns. snd (dfs_all g {} [] ns ({}, [])) = []"
  by unfold_locales (rule dfs_all_iff)

lemma dfs_all_Cons: "dfs_all g {} [] (n # ns) st =
    dfs_all g {} [] ns (if n \<notin> fst st then dfs g {} [] n st else st)"
  by (simp add: dfs_def dfs_all.simps(2))

lemma validateNoCycles_eq:
  "validateNoCycles steps = snd (dfs_all (adjacency_of steps) {} [] (map ps_id steps) ({}, []))"
proof -
  have "fold (\<lambda>step st. if ps_id step \<notin> fst st then dfs g {} [] (ps_id step) st else st) steps st =
      dfs_all g {} [] (map ps_id steps) st" for g st
    by (induction steps arbitrary: st) (simp_all add: dfs_all_Cons del: dfs_all.simps(2))
  then show ?thesis by (simp add: validateNoCycles_def)
qed

subsection \<open>What the checks accept\<close>

lemma duplicate_ids_Nil:
  "duplicate_ids seen steps = [] \<longleftrightarrow> distinct (map ps_id steps) \<and> seen \<inter> set (map ps_id steps) = {}"
  by (induction steps arbitrary: seen) auto

lemma validateDependenciesExist_Nil:
  "validateDependenciesExist steps = [] \<longleftrightarrow>
     (\<forall>s \<in> set steps. set (ps_dependsOn s) \<subseteq> set (map ps_id steps))"
  unfolding validateDependenciesExist_def Let_def concat_map_Nil concat_if_Nil by auto

lemma validateToolsExist_Nil:
  "validateToolsExist steps tools = [] \<longleftrightarrow>
     (\<forall>s \<in> set steps. \<forall>t. ps_tool s = Some t \<longrightarrow> t = [] \<or> t \<in> td_id ` set tools)"
  unfolding validateToolsExist_def Let_def concat_map_Nil by (auto split: option.splits)

definition complete_step :: "plan_step \<Rightarrow> bool" where
  "complete_step s \<longleftrightarrow> ps_id s \<noteq> [] \<and> ps_title s \<noteq> [] \<and> ps_description s \<noteq> [] \<and> ps_expectedResult s \<noteq> []"

lemma validateStepFields_Nil: "validateStepFields steps = [] \<longleftrightarrow> (\<forall>s \<in> set steps. complete_step s)"
  by (auto simp: validateStepFields_def complete_step_def)

lemma adjacency_keep:
  "i \<notin> set (map ps_id ss) \<Longrightarrow>
   jm_get (fold (\<lambda>step g. jm_set (ps_id step) (ps_dependsOn step) g) ss g) i = jm_get g i"
  by (induction ss arbitrary: g) auto

lemma succs_adjacency_unknown: "x \<notin> set (map ps_id steps) \<Longrightarrow> succs (adjacency_of steps) x = []"
  unfolding succs_def adjacency_of_def by (subst adjacency_keep) simp_all

lemma succs_adjacency:
  assumes "distinct (map ps_id steps)" and "s \<in> set steps"
  shows "succs (adjacency_of steps) (ps_id s) = ps_dependsOn s"
proof -
  have "jm_get (fold (\<lambda>step g. jm_set (ps_id step) (ps_dependsOn step) g) steps g) (ps_id s) = Some (ps_dependsOn s)" for g
    using assms
  proof (induction steps arbitrary: g)
    case (Cons a steps)
    then show ?case by (cases "s = a") (auto simp: adjacency_keep)
  qed simp
  then show ?thesis by (simp add: succs_def adjacency_of_def)
qed

lemma validatePlan_iff:
  "valid (validatePlan plan tools) \<longleftrightarrow>
     pr_steps plan \<noteq> [] \<and> (\<forall>s \<in> set (pr_steps plan). complete_step s) \<and>
     distinct (map ps_id (pr_steps plan)) \<and>
     (\<forall>s \<in> set (pr_steps plan). set (ps_dependsOn s) \<subseteq> set (map ps_id (pr_steps plan))) \<and>
     \<not> cyclic_from (adjacency_of (pr_steps plan)) (map ps_id (pr_steps plan)) \<and>
     (\<forall>s \<in> set (pr_steps plan). \<forall>t. ps_tool s = Some t \<longrightarrow> t = [] \<or> t \<in> td_id ` set tools)"
  by (simp add: validatePlan_def validateNotEmpty_def validateStepFields_Nil validateNoDuplicateIds_def
      duplicate_ids_Nil validateDependenciesExist_Nil validateToolsExist_Nil validateNoCycles_eq
      dfs_all_iff)

text \<open>
  C9: the search for cycles reports nothing exactly when no cycle of dependencies can be
  reached from a step, and every error it reports spells out a genuine cycle of the plan.
\<close>

theorem plan_cycle_errors_exact:
  "(validateNoCycles steps = [] \<longleftrightarrow> \<not> cyclic_from (adjacency_of steps) (map ps_id steps)) \<and>
   (\<forall>e \<in> set (validateNoCycles steps). \<exists>cyc. e = cycle_error cyc \<and>
      genuine_cycle (adjacency_of steps) (map ps_id steps) cyc)"
proof -
  have "\<exists>cyc. e = cycle_error cyc \<and> genuine_cycle (adjacency_of steps) (map ps_id steps) cyc"
    if "e \<in> set (validateNoCycles steps)" for e
    using that unfolding validateNoCycles_eq by (rule dfs_all_sound) auto
  then show ?thesis by (simp add: validateNoCycles_eq dfs_all_iff)
qed

theorem plan_cycle_errors_exact_witness:
  "validateNoCycles [plain_step ''a'' [''b''], plain_step ''b'' [''a'']] =
     [''Dependency cycle: a -> b -> a''] \<and>
   (\<exists>cyc. ''Dependency cycle: a -> b -> a'' = cycle_error cyc \<and>
      genuine_cycle [(''a'', [''b'']), (''b'', [''a''])] [''a'', ''b''] cyc)"
proof -
  let ?s = "[plain_step ''a'' [''b''], plain_step ''b'' [''a'']]"
  have e: "validateNoCycles ?s = [''Dependency cycle: a -> b -> a'']" by code_simp
  have g: "adjacency_of ?s = [(''a'', [''b'']), (''b'', [''a''])]" "map ps_id ?s = [''a'', ''b'']"
    by code_simp+
  from plan_cycle_errors_exact [of ?s] show ?thesis unfolding e g by simp
qed

text \<open>
  C8: a plan that the validator accepts has steps with distinct identifiers and all required
  fields, refers only to its own steps and to available tools, and its steps can be arranged
  so that each comes after the steps it depends on.
\<close>

theorem accepted_plans_are_executable:
  assumes "valid (validatePlan plan tools)"
  shows "\<exists>order. distinct order \<and> set order = ps_id ` set (pr_steps plan) \<and> order \<noteq> [] \<and>
    (\<forall>i < length order. \<forall>s \<in> set (pr_steps plan). ps_id s = order ! i \<longrightarrow>
       complete_step s \<and> set (ps_dependsOn s) \<subseteq> set (take i order) \<and>
       (\<forall>t. ps_tool s = Some t \<longrightarrow> t = [] \<or> t \<in> td_id ` set tools))"
proof -
  let ?g = "adjacency_of (pr_steps plan)" and ?ids = "map ps_id (pr_steps plan)"
  note v = assms [unfolded validatePlan_iff]
  then obtain order where order: "distinct order" "set order = set ?ids" "dependency_order (edges ?g) order"
    using planning.accepted_order [of ?g ?ids] by (auto simp: dfs_all_iff)
  have "set (ps_dependsOn s) \<subseteq> set (take i order)"
    if i: "i < length order" "ps_id s = order ! i" and s: "s \<in> set (pr_steps plan)" for i s
  proof
    fix d assume d: "d \<in> set (ps_dependsOn s)"
    with v s have "d \<in> set order" using order(2) by auto
    then obtain j where j: "j < length order" "order ! j = d" by (auto simp: in_set_conv_nth)
    have "(order ! i, order ! j) \<in> edges ?g"
      using succs_adjacency [of "pr_steps plan" s] v s d i j by simp
    with order(3) i j have "j < i" by (auto simp: dependency_order_def)
    with i j show "d \<in> set (take i order)" by (auto simp: in_set_conv_nth intro!: exI [of _ j])
  qed
  with order v show ?thesis by (intro exI [of _ order]) auto
qed

theorem accepted_plans_are_executable_witness:
  "\<exists>order. distinct order \<and> set order = {''a'', ''b''} \<and>
     (\<forall>i < length order. order ! i = ''a'' \<longrightarrow> ''b'' \<in> set (take i order))"
proof -
  let ?p = "sample_plan [plain_step ''a'' [''b''], plain_step ''b'' []]"
  have v: "valid (validatePlan ?p [])" by code_simp
  have steps: "pr_steps ?p = [plain_step ''a'' [''b''], plain_step ''b'' []]" by (simp add: sample_plan_def)
  have ids: "ps_id ` set (pr_steps ?p) = {''a'', ''b''}"
    and mem: "plain_step ''a'' [''b''] \<in> set (pr_steps ?p)"
    unfolding steps by (simp_all add: plain_step_def)
  obtain order where o: "distinct order" "set order = ps_id ` set (pr_steps ?p)"
    "\<forall>i < length order. \<forall>s \<in> set (pr_steps ?p). ps_id s = order ! i \<longrightarrow>
       set (ps_dependsOn s) \<subseteq> set (take i order)"
    using accepted_plans_are_executable [OF v] by blast
  have "''b'' \<in> set (take i order)" if "i < length order" "order ! i = ''a''" for i
  proof -
    have "set (ps_dependsOn (plain_step ''a'' [''b''])) \<subseteq> set (take i order)"
      using o(3) [rule_format, OF that(1) mem] that(2) by (simp add: plain_step_def)
    then show ?thesis by (simp add: plain_step_def)
  qed
  with o(1,2) ids show ?thesis by auto
qed

end
