(* ===== verification/JsObjects.thy ===== *)
theory JsObjects
  imports Prelude
begin

text \<open>
  Plain JavaScript objects as the validators read them. The operator \<open>in\<close> and a property
  access also see what an object inherits from \<open>Object.prototype\<close>, while \<open>Object.keys\<close>
  lists own keys.
\<close>

definition prototype_functions :: "string list" where
  "prototype_functions =
     [''constructor'', ''toString'', ''valueOf'', ''toLocaleString'', ''hasOwnProperty'', ''isPrototypeOf'',
      ''propertyIsEnumerable'', ''__defineGetter__'', ''__defineSetter__'', ''__lookupGetter__'',
      ''__lookupSetter__'']"

definition js_in :: "string \<Rightarrow> (string, jsval) jmap \<Rightarrow> bool" where
  "js_in name args \<longleftrightarrow> jm_has args name \<or> name = ''__proto__'' \<or> name \<in> set prototype_functions"

definition js_get :: "(string, jsval) jmap \<Rightarrow> string \<Rightarrow> jsval" where
  "js_get args name =
     (case jm_get args name of
        Some v \<Rightarrow> v
      | None \<Rightarrow> (if name = ''__proto__'' then JObj []
                 else if name \<in> set prototype_functions then JFun else JUndefined))"

fun typeof :: "jsval \<Rightarrow> string" where
  "typeof JUndefined = ''undefined''"
| "typeof JNull = ''object''"
| "typeof (JBool _) = ''boolean''"
| "typeof JNaN = ''number''"
| "typeof (JNum _) = ''number''"
| "typeof (JStr _) = ''string''"
| "typeof JFun = ''function''"
| "typeof (JArr _) = ''object''"
| "typeof (JObj _) = ''object''"

definition is_array :: "jsval \<Rightarrow> bool" where
  "is_array v \<longleftrightarrow> (case v of JArr _ \<Rightarrow> True | _ \<Rightarrow> False)"

text \<open>
  The operator \<open>===\<close>: NaN differs from itself; an array, object or function equals only
  the same reference, which a value passed from outside is not.
\<close>

fun strict_equal :: "jsval \<Rightarrow> jsval \<Rightarrow> bool" where
  "strict_equal JUndefined JUndefined = True"
| "strict_equal JNull JNull = True"
| "strict_equal (JBool a) (JBool b) = (a = b)"
| "strict_equal (JNum a) (JNum b) = (a = b)"
| "strict_equal (JStr a) (JStr b) = (a = b)"
| "strict_equal _ _ = False"

lemma js_get_own: "jm_get obj k = Some v \<Longrightarrow> js_get obj k = v"
  by (simp add: js_get_def)

lemma js_get_plain:
  "k \<noteq> ''__proto__'' \<Longrightarrow> k \<notin> set prototype_functions \<Longrightarrow>
     js_get obj k = (case jm_get obj k of Some v \<Rightarrow> v | None \<Rightarrow> JUndefined)"
  by (auto simp: js_get_def split: option.split)

lemma js_get_set: "js_get (jm_set k v m) k' = (if k' = k then v else js_get m k')"
  by (simp add: js_get_def jm_get_set)

subsection \<open>Paths and members\<close>

definition sub_path :: "string \<Rightarrow> string \<Rightarrow> string" where
  "sub_path path key = (if path \<noteq> [] then path @ ''.'' @ key else key)"

definition index_path :: "string \<Rightarrow> nat \<Rightarrow> string" where
  "index_path path i = path @ ''['' @ nat_str i @ '']''"

fun js_primitive :: "jsval \<Rightarrow> bool" where
  "js_primitive (JArr _) = False"
| "js_primitive (JObj _) = False"
| "js_primitive JFun = False"
| "js_primitive _ = True"

definition js_includes :: "jsval list \<Rightarrow> jsval \<Rightarrow> bool" where
  "js_includes vs v \<longleftrightarrow> js_primitive v \<and> v \<in> set vs"

lemma all_enumerate: "(\<forall>(i, x) \<in> set (enumerate n vs). P x) \<longleftrightarrow> (\<forall>x \<in> set vs. P x)"
  by (induction vs arbitrary: n) auto

text \<open>The spread of two objects into a new one.\<close>

definition spread :: "(string, 'v) jmap \<Rightarrow> (string, 'v) jmap \<Rightarrow> (string, 'v) jmap" where
  "spread a b = fold (\<lambda>(k, v). jm_set k v) b a"


text \<open>Array and string methods of JavaScript that several components use.\<close>

text \<open>\<open>slice(0, n)\<close>: a negative end counts from the back.\<close>

definition slice0 :: "int \<Rightarrow> 'a list \<Rightarrow> 'a list" where
  "slice0 n xs = (if 0 \<le> n then take (nat n) xs else take (length xs - nat (- n)) xs)"

text \<open>\<open>toLowerCase\<close> of Latin-1, where the multiplication sign has no lower case.\<close>

definition lower_char :: "char \<Rightarrow> char" where
  "lower_char c = (let n = of_char c :: nat in
     if 65 \<le> n \<and> n \<le> 90 \<or> 192 \<le> n \<and> n \<le> 222 \<and> n \<noteq> 215 then char_of (n + 32) else c)"

definition toLowerCase :: "string \<Rightarrow> string" where
  "toLowerCase = map lower_char"

fun starts_with :: "'a list \<Rightarrow> 'a list \<Rightarrow> bool" where
  "starts_with xs [] = True"
| "starts_with [] (y # ys) = False"
| "starts_with (x # xs) (y # ys) = (x = y \<and> starts_with xs ys)"

fun includes_str :: "'a list \<Rightarrow> 'a list \<Rightarrow> bool" where
  "includes_str [] ys = (ys = [])"
| "includes_str (x # xs) ys = (starts_with (x # xs) ys \<or> includes_str xs ys)"

lemma starts_with_iff: "starts_with xs ys \<longleftrightarrow> (\<exists>zs. xs = ys @ zs)"
  by (induction xs ys rule: starts_with.induct) auto

lemma includes_str_iff: "includes_str xs ys \<longleftrightarrow> (\<exists>as zs. xs = as @ ys @ zs)"
proof (induction xs)
  case Nil
  then show ?case by simp
next
  case (Cons x xs)
  show ?case
  proof
    assume "includes_str (x # xs) ys"
    then consider "starts_with (x # xs) ys" | "includes_str xs ys" by auto
    then show "\<exists>as zs. x # xs = as @ ys @ zs"
    proof cases
      case 1
      then show ?thesis by (metis append_Nil starts_with_iff)
    next
      case 2
      then show ?thesis using Cons by (metis append_Cons)
    qed
  next
    assume "\<exists>as zs. x # xs = as @ ys @ zs"
    then obtain as zs where e: "x # xs = as @ ys @ zs" by blast
    show "includes_str (x # xs) ys"
    proof (cases as)
      case Nil
      with e have "starts_with (x # xs) ys" by (auto simp: starts_with_iff)
      then show ?thesis by simp
    next
      case (Cons a as')
      with e have "xs = as' @ ys @ zs" by simp
      with Cons.IH show ?thesis by auto
    qed
  qed
qed

lemma slice0_subset: "set (slice0 n xs) \<subseteq> set xs"
  by (auto simp: slice0_def dest: in_set_takeD)

lemma slice0_length: "0 \<le> n \<Longrightarrow> length (slice0 n xs) = min (length xs) (nat n)"
  by (simp add: slice0_def)

text \<open>\<open>slice(a, b)\<close> of a string; negative ends count from the back.\<close>

definition slice_index :: "int \<Rightarrow> nat \<Rightarrow> nat" where
  "slice_index i n = (if i < 0 then nat (int n + i) else min (nat i) n)"

definition slice_str :: "int \<Rightarrow> int \<Rightarrow> 'a list \<Rightarrow> 'a list" where
  "slice_str a b xs = drop (slice_index a (length xs)) (take (slice_index b (length xs)) xs)"

lemma slice_str_nat:
  "slice_str (int a) (min (int a + int n) (int (length xs))) xs = take n (drop a xs)"
proof -
  have "slice_index (min (int a + int n) (int (length xs))) (length xs) = min (a + n) (length xs)"
    by (simp add: slice_index_def nat_add_distrib min_def)
  moreover have "slice_index (int a) (length xs) = min a (length xs)"
    by (simp add: slice_index_def)
  ultimately show ?thesis
    by (simp add: slice_str_def min_def drop_take)
qed

subsection \<open>White space\<close>

text \<open>Of the characters with codes below 256.\<close>

definition is_white :: "char \<Rightarrow> bool" where
  "is_white c \<longleftrightarrow> (let n = (of_char c :: nat) in n \<in> {9, 10, 11, 12, 13, 32, 160})"

definition trim :: "string \<Rightarrow> string" where
  "trim s = rev (dropWhile is_white (rev (dropWhile is_white s)))"

subsection \<open>Splitting\<close>

text \<open>\<open>split\<close> at a character.\<close>

fun split_on :: "char \<Rightarrow> string \<Rightarrow> string list" where
  "split_on d [] = [[]]"
| "split_on d (c # cs) =
     (if c = d then [] # split_on d cs
      else (case split_on d cs of [] \<Rightarrow> [[c]] | w # ws \<Rightarrow> (c # w) # ws))"

lemma split_on_parts: "w \<in> set (split_on d s) \<Longrightarrow> d \<notin> set w \<and> set w \<subseteq> set s"
  by (induction d s arbitrary: w rule: split_on.induct) (fastforce split: if_splits list.splits)+

lemma split_on_none: "d \<notin> set s \<Longrightarrow> split_on d s = [s]"
  by (induction d s rule: split_on.induct) auto

lemma split_on_first: "d \<notin> set u \<Longrightarrow> split_on d (u @ d # v) = u # split_on d v"
  by (induction u) auto

lemma split_on_pair: "split_on d s = [u, v] \<longleftrightarrow> s = u @ d # v \<and> d \<notin> set u \<and> d \<notin> set v"
proof
  assume e: "split_on d s = [u, v]"
  then have "d \<in> set s" using split_on_none [of d s] by auto
  then obtain a b where s: "s = a @ d # b" "d \<notin> set a" by (metis split_list_first)
  then have "u = a" "split_on d b = [v]" using e by (simp_all add: split_on_first)
  moreover have "d \<notin> set b"
  proof
    assume "d \<in> set b"
    then obtain x y where "b = x @ d # y" "d \<notin> set x" by (metis split_list_first)
    then show False using \<open>split_on d b = [v]\<close> by (cases y) (auto simp: split_on_first split: if_splits list.splits)
  qed
  ultimately show "s = u @ d # v \<and> d \<notin> set u \<and> d \<notin> set v" using s split_on_none [of d b] by simp
next
  assume "s = u @ d # v \<and> d \<notin> set u \<and> d \<notin> set v"
  then show "split_on d s = [u, v]" by (simp add: split_on_first split_on_none)
qed

text \<open>\<open>parseInt(s, 10)\<close>: the longest prefix of digits after white space and a sign; \<open>None\<close> is NaN.\<close>

definition is_digit :: "char \<Rightarrow> bool" where
  "is_digit c \<longleftrightarrow> (let n = (of_char c :: nat) in 48 \<le> n \<and> n \<le> 57)"

definition digits_value :: "string \<Rightarrow> int" where
  "digits_value ds = foldl (\<lambda>n c. 10 * n + (of_char c - 48)) 0 ds"

definition parse_int :: "string \<Rightarrow> int option" where
  "parse_int s = (case dropWhile is_white s of
     [] \<Rightarrow> None
   | c # cs \<Rightarrow>
       (let ds = takeWhile is_digit (if c = CHR ''-'' \<or> c = CHR ''+'' then cs else c # cs);
            n = digits_value ds
        in if ds = [] then None else Some (if c = CHR ''-'' then - n else n)))"

end
