(* ===== verification/PlanEngine.thy ===== *)
theory PlanEngine
  imports PlanTypes PlanStrategy PlanValidator JsObjects
begin

text \<open>
  The planning engine, packages/llm/src/planning/PlanningEngine.ts: the checks of a request,
  the generation of a plan by rules, its validation, the events and the response. The prompts
  the code builds are discarded by it and do not appear. Strings are lists of characters with
  codes below 256, so that the white space of \<open>trim\<close> is that of this range. Event
  handlers are assumed not to throw; they see the events in the order of the list.
\<close>

subsection \<open>Strings\<close>

text \<open>\<open>split\<close> at every maximal run of characters that satisfy a predicate.\<close>

function split_runs :: "(char \<Rightarrow> bool) \<Rightarrow> string \<Rightarrow> string list" where
  "split_runs p s =
     (let rest = dropWhile (\<lambda>c. \<not> p c) s
      in takeWhile (\<lambda>c. \<not> p c) s # (if rest = [] then [] else split_runs p (dropWhile p rest)))"
  by pat_completeness auto

termination split_runs
proof (relation "measure (\<lambda>(p, s). length s)", goal_cases)
  case 1
  then show ?case by simp
next
  case (2 p s rest)
  then obtain c cs where rest: "rest = c # cs" by (meson neq_Nil_conv)
  with 2 have "p c" by (metis hd_dropWhile list.sel(1) list.distinct(1))
  then have "length (dropWhile p rest) \<le> length cs" by (simp add: rest length_dropWhile_le)
  moreover have "length rest \<le> length s" using 2 by (simp add: length_dropWhile_le)
  ultimately show ?case by (simp add: rest)
qed

declare split_runs.simps [simp del]

definition is_sentence_end :: "char \<Rightarrow> bool" where
  "is_sentence_end c \<longleftrightarrow> c = CHR ''.'' \<or> c = CHR ''!'' \<or> c = CHR ''?''"

subsection \<open>Generating a plan\<close>

definition parseGoal :: "string \<Rightarrow> plan_goal" where
  "parseGoal goalText =
     (let trimmed = trim goalText;
          sentences = filter (\<lambda>s. length s > 0) (map trim (split_runs is_sentence_end trimmed))
      in \<lparr>pg_raw = goalText, pg_description = trimmed,
          pg_objectives = (if length sentences > 0 then sentences else [trimmed]),
          pg_successCriteria = None\<rparr>)"

definition findRelevantTools :: "planning_context \<Rightarrow> tool_definition list" where
  "findRelevantTools c = filter (\<lambda>t. td_enabled t \<noteq> Some False) (px_availableTools c)"

definition step_id :: "plan_step list \<Rightarrow> string" where
  "step_id steps = ''step-'' @ nat_str (length steps + 1)"

definition last_id :: "plan_step list \<Rightarrow> string" where
  "last_id steps = (if steps = [] then ''step-1'' else ps_id (last steps))"

definition draft_step :: "string \<Rightarrow> string \<Rightarrow> string \<Rightarrow> string option \<Rightarrow> arguments option \<Rightarrow>
    string list \<Rightarrow> string \<Rightarrow> plan_step" where
  "draft_step i title descr tool args deps expected =
     \<lparr>ps_id = i, ps_title = title, ps_description = descr, ps_tool = tool, ps_arguments = args,
      ps_dependsOn = deps, ps_expectedResult = expected, ps_status = Draft, ps_metadata = None\<rparr>"

fun tool_steps :: "int \<Rightarrow> tool_definition list \<Rightarrow> plan_step list \<Rightarrow> plan_step list" where
  "tool_steps maxSteps [] steps = steps"
| "tool_steps maxSteps (tool # tools) steps =
     (if int (length steps) \<ge> maxSteps then steps
      else tool_steps maxSteps tools (steps @
        [draft_step (step_id steps) (''Execute '' @ td_id tool) (td_description tool)
           (Some (td_id tool)) (Some []) [last_id steps] (''Result from '' @ td_id tool)]))"

definition planSteps :: "planning_context \<Rightarrow> planning_strategy \<Rightarrow> plan_step list" where
  "planSteps c strategy =
     (let first = [draft_step (step_id []) ''Understand and parse the goal''
            (''Analyze the user'' @ [CHR 0x27] @ ''s goal: '' @ quoted (px_goal c)) None None []
            ''Parsed goal with clear objectives''];
          relevant = findRelevantTools c;
          identified = (if length relevant > 0
            then first @ [draft_step (step_id first) ''Identify relevant tools''
                   (''Map objectives to available tools: '' @ join '', '' (map td_id relevant)) None None
                   [ps_id (hd first)] ''Tool-to-objective mapping'']
            else first);
          withTools = tool_steps (px_maxSteps c) relevant identified;
          all = (if length withTools > 2 \<and> int (length withTools) < px_maxSteps c
            then withTools @ [draft_step (step_id withTools) ''Aggregate results''
                   ''Combine results from all tool executions'' None None [last_id withTools]
                   ''Final aggregated result'']
            else withTools)
      in str_organize strategy all)"

definition uses_tool :: "plan_step \<Rightarrow> bool" where
  "uses_tool s \<longleftrightarrow> ps_tool s \<noteq> None"

definition estimateComplexity :: "plan_step list \<Rightarrow> complexity_level" where
  "estimateComplexity steps =
     (let score = length steps + length (filter uses_tool steps) * 2
      in if score \<le> 2 then Trivial else if score \<le> 4 then Simple else if score \<le> 8 then Moderate
         else if score \<le> 15 then Complex else VeryComplex)"

definition assessRisk :: "plan_step list \<Rightarrow> risk_level" where
  "assessRisk steps =
     (let hasTools = list_ex uses_tool steps; stepCount = length steps
      in if \<not> hasTools \<and> stepCount \<le> 2 then NoRisk
         else if stepCount \<le> 3 \<and> hasTools then LowRisk
         else if stepCount \<le> 8 then MediumRisk else HighRisk)"

definition generateReasoningSummary :: "plan_goal \<Rightarrow> plan_step list \<Rightarrow> planning_strategy \<Rightarrow> string" where
  "generateReasoningSummary goal steps strategy =
     join [CHR 0x0A]
       [''Goal: '' @ pg_description goal,
        ''Strategy: '' @ str_name strategy,
        ''Steps: '' @ nat_str (length steps) @ '' total ('' @
          nat_str (length (filter (\<lambda>s. \<not> uses_tool s) steps)) @ '' reasoning, '' @
          nat_str (length (filter uses_tool steps)) @ '' tool execution)'',
        ''Objectives: '' @ join ''; '' (pg_objectives goal)]"

definition generatePlan :: "string \<Rightarrow> planning_context \<Rightarrow> planning_strategy \<Rightarrow> plan_result" where
  "generatePlan planId c strategy =
     (let goal = parseGoal (px_goal c); steps = planSteps c strategy
      in \<lparr>pr_id = planId, pr_goal = goal, pr_strategy = str_type strategy, pr_steps = steps,
          pr_dependencies = str_generateDependencies strategy steps,
          pr_requiredTools = map (\<lambda>s. override [] (ps_tool s)) (filter uses_tool steps),
          pr_expectedOutputs = map ps_expectedResult steps,
          pr_complexity = estimateComplexity steps, pr_risk = assessRisk steps,
          pr_constraints = px_constraints c, pr_status = Validated, pr_planningDurationMs = 0,
          pr_reasoningSummary = generateReasoningSummary goal steps strategy\<rparr>)"

subsection \<open>Requests\<close>

definition validateRequest :: "strategy_registry \<Rightarrow> planning_request \<Rightarrow> planning_error option" where
  "validateRequest reg req =
     (if preq_goal req = [] \<or> length (trim (preq_goal req)) = 0
      then Some (InvalidGoalError ''Goal cannot be empty.'')
      else if length (preq_availableTools req) = 0 then Some NoToolsAvailableError
      else case preq_preferredStrategy req of
             Some st \<Rightarrow>
               (if getStrategy reg st = None then Some (StrategyNotSupportedError (strategy_str st))
                else (case preq_maxSteps req of
                        Some n \<Rightarrow> (if n \<le> 0 then Some (StrategyNotSupportedError (int_str n)) else None)
                      | None \<Rightarrow> None))
           | None \<Rightarrow>
               (case preq_maxSteps req of
                  Some n \<Rightarrow> (if n \<le> 0 then Some (StrategyNotSupportedError (int_str n)) else None)
                | None \<Rightarrow> None))"

definition selectStrategy ::
  "strategy_registry \<Rightarrow> planning_strategy_type \<Rightarrow> planning_error + planning_strategy" where
  "selectStrategy reg t =
     (case getStrategy reg t of None \<Rightarrow> Inl (StrategyNotSupportedError (strategy_str t)) | Some s \<Rightarrow> Inr s)"

definition context_of_request :: "planning_request \<Rightarrow> planning_context" where
  "context_of_request req =
     createPlanningContext (preq_goal req) (Some (preq_availableTools req)) (preq_availablePlugins req)
       None (preq_preferredStrategy req) (preq_maxSteps req) (preq_constraints req)
       (Some (override [] (preq_requestId req)))"

text \<open>What the \<open>try\<close> block computes before it emits: a plan, or the error it throws.\<close>

definition try_plan ::
  "strategy_registry \<Rightarrow> string \<Rightarrow> planning_request \<Rightarrow> planning_error + plan_result" where
  "try_plan reg planId req =
     (case validateRequest reg req of
        Some e \<Rightarrow> Inl e
      | None \<Rightarrow>
          (case selectStrategy reg (px_preferredStrategy (context_of_request req)) of
             Inl e \<Rightarrow> Inl e
           | Inr strategy \<Rightarrow> Inr (generatePlan planId (context_of_request req) strategy)))"

text \<open>
  \<open>plan\<close>: the n-th reading of the clock is \<open>clock n\<close>; \<open>planId\<close> is the identifier the
  generator of identifiers returns. The result is the response with the events emitted.
\<close>

definition failed_response :: "planning_error \<Rightarrow> int \<Rightarrow> string \<Rightarrow> planning_response" where
  "failed_response e d requestId =
     \<lparr>presp_plan = None, presp_error = Some (planning_message e), presp_errorCode = Some (planning_code e),
      presp_durationMs = d, presp_requestId = Some requestId\<rparr>"

definition plan ::
  "strategy_registry \<Rightarrow> (nat \<Rightarrow> instant) \<Rightarrow> string \<Rightarrow> planning_request \<Rightarrow>
   planning_response \<times> planning_event list" where
  "plan reg clock planId req =
     (let startTime = clock 0;
          requestId = override [] (preq_requestId req);
          base = (\<lambda>t. \<lparr>peb_planId = planId, peb_timestamp = t, peb_requestId = Some requestId\<rparr>);
          started = PlanningStarted (base (clock 1)) (preq_goal req)
      in case try_plan reg planId req of
           Inl e \<Rightarrow>
             (failed_response e (clock 5 - startTime) requestId,
              [started, PlanningFailed (base (clock 2)) (planning_message e) (Some (planning_code e))
                 (clock 3 - startTime)])
         | Inr p \<Rightarrow>
             (let validation = validatePlan p (px_availableTools (context_of_request req))
              in if \<not> valid validation then
                   (let e = PlanValidationError (errors validation)
                    in (failed_response e (clock 5 - startTime) requestId,
                        [started, PlanValidated (base (clock 2)) False (Some (errors validation)),
                         PlanningFailed (base (clock 3)) (planning_message e) (Some (planning_code e))
                           (clock 4 - startTime)]))
                 else
                   (\<lparr>presp_plan = Some p, presp_error = None, presp_errorCode = None,
                     presp_durationMs = clock 6 - startTime, presp_requestId = Some requestId\<rparr>,
                    [started, PlanValidated (base (clock 2)) True None,
                     PlanningCompleted (base (clock 3)) (clock 4 - startTime) (length (pr_steps p))
                       (pr_complexity p)])))"

text \<open>\<open>validate\<close> looks up the tools of the plan among the ones the plan says it requires.\<close>

definition bare_tool :: "string \<Rightarrow> tool_definition" where
  "bare_tool i = \<lparr>td_id = i, td_name = [], td_description = [], td_pluginId = [],
     td_parameters = \<lparr>required_params = None, optional_params = None\<rparr>, td_returnType = None,
     td_permissions = [], td_timeoutMs = None, td_enabled = None\<rparr>"

definition validate :: "plan_result \<Rightarrow> validation" where
  "validate p = validatePlan p (map bare_tool (pr_requiredTools p))"

record replan_input =
  ri_goal :: string
  ri_failedStep :: string
  ri_error :: string
  ri_completedSteps :: "string list"
  ri_remainingSteps :: "string list"
  ri_availableTools :: "tool_definition list"
  ri_availablePlugins :: "string list option"

definition replan_request :: "replan_input \<Rightarrow> planning_request" where
  "replan_request i =
     \<lparr>preq_goal = ''Recover from failure in step '' @ quoted (ri_failedStep i) @ '': '' @ ri_error i @
        ''. Original goal: '' @ ri_goal i,
      preq_availableTools = ri_availableTools i, preq_systemContext = None,
      preq_availablePlugins = ri_availablePlugins i, preq_preferredStrategy = Some Sequential,
      preq_maxSteps = None, preq_constraints = None, preq_requestId = None\<rparr>"

definition replan ::
  "strategy_registry \<Rightarrow> (nat \<Rightarrow> instant) \<Rightarrow> string \<Rightarrow> replan_input \<Rightarrow>
   planning_response \<times> planning_event list" where
  "replan reg clock planId i = plan reg clock planId (replan_request i)"


text \<open>
  The plans the engine generates: a chain of numbered steps, valid unless a tool it uses has
  an empty description.
\<close>

subsection \<open>Chains of numbered steps\<close>

definition numbered :: "nat \<Rightarrow> string" where
  "numbered n = ''step-'' @ nat_str n"

lemma numbered_inject [simp]: "numbered m = numbered n \<longleftrightarrow> m = n"
  by (simp add: numbered_def)

text \<open>Step number i (from 0) is called \<open>step-(i+1)\<close> and depends on the step before it.\<close>

definition chained :: "plan_step list \<Rightarrow> bool" where
  "chained steps \<longleftrightarrow> (\<forall>i < length steps. ps_id (steps ! i) = numbered (i + 1) \<and>
     ps_dependsOn (steps ! i) = (if i = 0 then [] else [numbered i]))"

lemma chained_last: "chained steps \<Longrightarrow> steps \<noteq> [] \<Longrightarrow> last_id steps = numbered (length steps)"
  by (simp add: chained_def last_id_def last_conv_nth)

lemma chained_snoc:
  assumes "chained steps" and "steps \<noteq> []"
  shows "chained (steps @ [draft_step (step_id steps) title d tool args [last_id steps] e])"
  using assms chained_last [OF assms]
  by (auto simp: chained_def nth_append draft_step_def step_id_def numbered_def less_Suc_eq)

lemma chained_distinct: "chained steps \<Longrightarrow> distinct (map ps_id steps)"
  by (auto simp: chained_def distinct_conv_nth)

lemma chained_ids: "chained steps \<Longrightarrow> i < length steps \<Longrightarrow> numbered (Suc i) \<in> ps_id ` set steps"
  unfolding chained_def by (metis Suc_eq_plus1 image_eqI nth_mem)

lemma chained_dependencies:
  assumes "chained steps" and "s \<in> set steps"
  shows "set (ps_dependsOn s) \<subseteq> set (map ps_id steps)"
proof -
  obtain i where i: "i < length steps" "s = steps ! i" using assms(2) by (auto simp: in_set_conv_nth)
  show ?thesis
  proof (cases i)
    case 0
    with assms(1) i show ?thesis by (auto simp: chained_def)
  next
    case (Suc j)
    with i have "numbered (Suc j) \<in> ps_id ` set steps" by (intro chained_ids [OF assms(1)]) simp
    moreover have "ps_dependsOn s = [numbered (Suc j)]"
      using assms(1) i Suc by (simp add: chained_def)
    ultimately show ?thesis by simp
  qed
qed

lemma chained_edge:
  assumes "chained steps" and "(x, y) \<in> edges (adjacency_of steps)"
  shows "\<exists>i. x = numbered (Suc i) \<and> y = numbered i"
proof -
  have d: "distinct (map ps_id steps)" by (rule chained_distinct [OF assms(1)])
  have "x \<in> set (map ps_id steps)"
    using assms(2) succs_adjacency_unknown [of x steps] by (cases "x \<in> set (map ps_id steps)") simp_all
  then obtain i where i: "i < length steps" "x = ps_id (steps ! i)" by (auto simp: in_set_conv_nth)
  then have "y \<in> set (ps_dependsOn (steps ! i))"
    using assms(2) succs_adjacency [OF d] by simp
  with assms(1) i show ?thesis by (auto simp: chained_def split: if_splits)
qed

lemma chained_acyclic:
  assumes "chained steps"
  shows "\<not> cyclic_from (adjacency_of steps) roots"
proof -
  have "\<exists>i j. x = numbered i \<and> y = numbered j \<and> j < i" if "(x, y) \<in> (edges (adjacency_of steps))\<^sup>+" for x y
    using that
  proof (induction rule: trancl_induct)
    case (base y)
    then show ?case using chained_edge [OF assms] by blast
  next
    case (step y z)
    then show ?case using chained_edge [OF assms step(2)] by force
  qed
  then show ?thesis by (fastforce simp: cyclic_from_def)
qed

subsection \<open>The steps of a generated plan\<close>

definition executed :: "planning_context \<Rightarrow> tool_definition list" where
  "executed c = take (nat (px_maxSteps c - 2)) (findRelevantTools c)"

lemma tool_steps_shape:
  assumes "chained steps" and "steps \<noteq> []"
  shows "chained (tool_steps n tools steps) \<and> tool_steps n tools steps \<noteq> [] \<and>
    length (tool_steps n tools steps) = length steps + length (take (nat (n - int (length steps))) tools) \<and>
    map ps_tool (tool_steps n tools steps) =
      map ps_tool steps @ map (Some \<circ> td_id) (take (nat (n - int (length steps))) tools) \<and>
    ((\<forall>s \<in> set (tool_steps n tools steps). complete_step s) \<longleftrightarrow>
      (\<forall>s \<in> set steps. complete_step s) \<and>
      (\<forall>t \<in> set (take (nat (n - int (length steps))) tools). td_description t \<noteq> []))"
  using assms
proof (induction tools arbitrary: steps)
  case Nil
  then show ?case by simp
next
  case (Cons t ts)
  show ?case
  proof (cases "int (length steps) \<ge> n")
    case True
    with Cons.prems show ?thesis by simp
  next
    case False
    define s' where "s' = draft_step (step_id steps) (''Execute '' @ td_id t) (td_description t)
      (Some (td_id t)) (Some []) [last_id steps] (''Result from '' @ td_id t)"
    have ch: "chained (steps @ [s'])" unfolding s'_def by (rule chained_snoc [OF Cons.prems])
    have tk: "nat (n - int (length steps)) = Suc (nat (n - int (length (steps @ [s']))))"
      using False by simp
    have s': "ps_tool s' = Some (td_id t)" "complete_step s' \<longleftrightarrow> td_description t \<noteq> []"
      by (auto simp: s'_def draft_step_def complete_step_def step_id_def)
    have eq: "tool_steps n (t # ts) steps = tool_steps n ts (steps @ [s'])"
      using False by (simp add: s'_def)
    show ?thesis
      unfolding eq tk using Cons.IH [OF ch] s' by auto
  qed
qed

lemma planSteps_shape:
  assumes "str_organize strategy = (\<lambda>steps. steps)"
  shows "chained (planSteps c strategy) \<and> planSteps c strategy \<noteq> [] \<and>
    int (length (planSteps c strategy)) \<le> max 2 (px_maxSteps c) \<and>
    map td_id (executed c) = map (override []) (filter (\<lambda>t. t \<noteq> None) (map ps_tool (planSteps c strategy))) \<and>
    ((\<forall>s \<in> set (planSteps c strategy). complete_step s) \<longleftrightarrow> (\<forall>t \<in> set (executed c). td_description t \<noteq> []))"
proof -
  define first where "first = [draft_step (step_id []) ''Understand and parse the goal''
    (''Analyze the user'' @ [CHR 0x27] @ ''s goal: '' @ quoted (px_goal c)) None None []
    ''Parsed goal with clear objectives'']"
  define relevant where "relevant = findRelevantTools c"
  define identified where "identified = (if length relevant > 0
    then first @ [draft_step (step_id first) ''Identify relevant tools''
      (''Map objectives to available tools: '' @ join '', '' (map td_id relevant)) None None
      [ps_id (hd first)] ''Tool-to-objective mapping''] else first)"
  define tools where "tools = tool_steps (px_maxSteps c) relevant identified"
  define more where "more = (length tools > 2 \<and> int (length tools) < px_maxSteps c)"
  define all where "all = (if more then tools @ [draft_step (step_id tools) ''Aggregate results''
    ''Combine results from all tool executions'' None None [last_id tools] ''Final aggregated result'']
    else tools)"
  have plan: "planSteps c strategy = all"
    unfolding planSteps_def Let_def assms first_def relevant_def identified_def tools_def all_def more_def ..
  have first: "chained first" "first \<noteq> []" "map ps_tool first = [None]" "\<forall>s \<in> set first. complete_step s"
    "last_id first = ps_id (hd first)" "length first = 1"
    by (simp_all add: first_def chained_def draft_step_def step_id_def numbered_def complete_step_def last_id_def)
  have ident: "chained identified" "identified \<noteq> []" "filter (\<lambda>t. t \<noteq> None) (map ps_tool identified) = []"
    "\<forall>s \<in> set identified. complete_step s" "length identified = (if relevant = [] then 1 else 2)"
    using first chained_snoc [OF first(1,2)]
    by (auto simp: identified_def draft_step_def complete_step_def step_id_def)
  have take: "take (nat (px_maxSteps c - int (length identified))) relevant = executed c"
    using ident(5) by (simp add: executed_def relevant_def)
  note ts = tool_steps_shape [OF ident(1,2), of "px_maxSteps c" relevant, folded tools_def, unfolded take]
  have len: "int (length tools) \<le> max 2 (px_maxSteps c)"
    using ts ident(5) by (auto simp: executed_def relevant_def min_def)
  have "chained all" "all \<noteq> []"
    using ts chained_snoc [of tools] by (auto simp: all_def)
  moreover have "int (length all) \<le> max 2 (px_maxSteps c)"
    using len by (simp add: all_def more_def)
  moreover have "filter (\<lambda>t. t \<noteq> None) (map ps_tool all) = map (Some \<circ> td_id) (executed c)"
    using ts ident(3) by (simp add: all_def draft_step_def)
  moreover have "(\<forall>s \<in> set all. complete_step s) \<longleftrightarrow> (\<forall>t \<in> set (executed c). td_description t \<noteq> [])"
    using ts ident(4) by (auto simp: all_def draft_step_def complete_step_def step_id_def)
  ultimately show ?thesis unfolding plan by simp
qed

subsection \<open>Responses\<close>

lemma validatePlan_generated:
  assumes "str_organize strategy = (\<lambda>steps. steps)" and "td_id ` set (executed c) \<subseteq> td_id ` set tools"
  shows "valid (validatePlan (generatePlan planId c strategy) tools) \<longleftrightarrow>
    (\<forall>t \<in> set (executed c). td_description t \<noteq> [])"
proof -
  note sh = planSteps_shape [OF assms(1), of c]
  have "t \<in> td_id ` set (executed c)" if "s \<in> set (planSteps c strategy)" "ps_tool s = Some t" for s t
  proof -
    have "Some t \<in> set (map ps_tool (planSteps c strategy))" using that by force
    then have "override [] (Some t) \<in> override [] ` set (filter (\<lambda>t. t \<noteq> None) (map ps_tool (planSteps c strategy)))"
      by (intro imageI) simp
    also have "\<dots> = td_id ` set (executed c)" using sh by (metis list.set_map)
    finally show ?thesis by simp
  qed
  then have tools: "\<forall>s \<in> set (planSteps c strategy). \<forall>t. ps_tool s = Some t \<longrightarrow> t = [] \<or> t \<in> td_id ` set tools"
    using assms(2) by blast
  have ch: "chained (planSteps c strategy)" using sh by simp
  have steps: "pr_steps (generatePlan planId c strategy) = planSteps c strategy"
    by (simp add: generatePlan_def Let_def)
  show ?thesis
    unfolding validatePlan_iff steps
    using sh tools chained_distinct [OF ch] chained_dependencies [OF ch] chained_acyclic [OF ch] by simp
qed

lemma uses_tool_eq: "uses_tool = (\<lambda>s. ps_tool s \<noteq> None)"
  by (simp add: fun_eq_iff uses_tool_def)

lemma requiredTools_generated:
  "str_organize strategy = (\<lambda>steps. steps) \<Longrightarrow>
   pr_requiredTools (generatePlan planId c strategy) = map td_id (executed c)"
  using planSteps_shape [of strategy c]
  by (simp add: generatePlan_def Let_def uses_tool_eq filter_map comp_def)

lemma default_strategy_keeps: "getStrategy strategies t = Some st \<Longrightarrow> str_organize st = (\<lambda>steps. steps)"
  by (cases t) (auto simp: getStrategy_default SequentialStrategy_def ParallelStrategy_def ConditionalStrategy_def)

lemma executed_available: "set (executed c) \<subseteq> set (px_availableTools c)"
  by (auto simp: executed_def findRelevantTools_def dest: in_set_takeD)

lemma context_of_request_simps [simp]:
  "px_availableTools (context_of_request req) = preq_availableTools req"
  "px_maxSteps (context_of_request req) = override 50 (preq_maxSteps req)"
  by (simp_all add: context_of_request_def createPlanningContext_def)

text \<open>The tools that a plan for a request will execute.\<close>

definition planned_tools :: "planning_request \<Rightarrow> tool_definition list" where
  "planned_tools req = executed (context_of_request req)"

lemma try_plan_default:
  assumes "validateRequest strategies req = None"
  obtains st where "getStrategy strategies (px_preferredStrategy (context_of_request req)) = Some st"
    "try_plan strategies planId req = Inr (generatePlan planId (context_of_request req) st)"
  using assms by (simp add: try_plan_def selectStrategy_def getStrategy_default)

lemma plan_good_request:
  assumes "validateRequest strategies req = None"
  obtains p where
    "presp_plan (fst (plan strategies clock planId req)) =
       (if \<forall>t \<in> set (planned_tools req). td_description t \<noteq> [] then Some p else None)"
    "presp_errorCode (fst (plan strategies clock planId req)) =
       (if \<forall>t \<in> set (planned_tools req). td_description t \<noteq> [] then None else Some ''VALIDATION_FAILED'')"
    "valid (validatePlan p (preq_availableTools req)) \<longleftrightarrow> (\<forall>t \<in> set (planned_tools req). td_description t \<noteq> [])"
    "valid (validate p) \<longleftrightarrow> (\<forall>t \<in> set (planned_tools req). td_description t \<noteq> [])"
    "int (length (pr_steps p)) \<le> max 2 (override 50 (preq_maxSteps req))"
    "pr_requiredTools p = map td_id (planned_tools req)"
proof -
  obtain st where st: "getStrategy strategies (px_preferredStrategy (context_of_request req)) = Some st"
    and tried: "try_plan strategies planId req = Inr (generatePlan planId (context_of_request req) st)"
    using try_plan_default [OF assms] by blast
  let ?c = "context_of_request req" and ?p = "generatePlan planId (context_of_request req) st"
  note keeps = default_strategy_keeps [OF st]
  have v1: "valid (validatePlan ?p (preq_availableTools req)) \<longleftrightarrow> (\<forall>t \<in> set (planned_tools req). td_description t \<noteq> [])"
    using executed_available [of ?c] unfolding planned_tools_def
    by (intro validatePlan_generated [OF keeps]) auto
  have v2: "valid (validate ?p) \<longleftrightarrow> (\<forall>t \<in> set (planned_tools req). td_description t \<noteq> [])"
    unfolding validate_def planned_tools_def requiredTools_generated [OF keeps]
    by (intro validatePlan_generated [OF keeps]) (simp add: image_image bare_tool_def)
  have len: "int (length (pr_steps ?p)) \<le> max 2 (override 50 (preq_maxSteps req))"
    using planSteps_shape [OF keeps, of ?c] by (simp add: generatePlan_def Let_def)
  have "presp_plan (fst (plan strategies clock planId req)) =
       (if \<forall>t \<in> set (planned_tools req). td_description t \<noteq> [] then Some ?p else None)"
    and "presp_errorCode (fst (plan strategies clock planId req)) =
       (if \<forall>t \<in> set (planned_tools req). td_description t \<noteq> [] then None else Some ''VALIDATION_FAILED'')"
    using v1 by (simp_all add: plan_def tried Let_def failed_response_def)
  from that [OF this v1 v2 len] requiredTools_generated [OF keeps] show ?thesis
    by (simp add: planned_tools_def)
qed

text \<open>
  C7: the planning engine answers a bad request with the error of its first failing check.
  For a good request it answers with a plan that its validator accepts, that has at most the
  larger of two and the allowed number of steps, and that requires the tools it executes in
  order, unless a tool it would execute has an empty description; then it reports that
  validation failed.
\<close>

theorem planning_engine_answers:
  "case validateRequest strategies req of
     Some e \<Rightarrow> presp_plan (fst (plan strategies clock planId req)) = None \<and>
       presp_errorCode (fst (plan strategies clock planId req)) = Some (planning_code e)
   | None \<Rightarrow>
       (if \<forall>t \<in> set (planned_tools req). td_description t \<noteq> []
        then \<exists>p. presp_plan (fst (plan strategies clock planId req)) = Some p \<and>
          valid (validatePlan p (preq_availableTools req)) \<and> valid (validate p) \<and>
          int (length (pr_steps p)) \<le> max 2 (override 50 (preq_maxSteps req)) \<and>
          pr_requiredTools p = map td_id (planned_tools req)
        else presp_plan (fst (plan strategies clock planId req)) = None \<and>
          presp_errorCode (fst (plan strategies clock planId req)) = Some ''VALIDATION_FAILED'')"
proof (cases "validateRequest strategies req")
  case (Some e)
  then show ?thesis by (simp add: plan_def try_plan_def Let_def failed_response_def)
next
  case None
  then show ?thesis by (rule plan_good_request [of req clock planId]) (simp add: None)
qed

definition sample_tool :: "string \<Rightarrow> string \<Rightarrow> tool_definition" where
  "sample_tool i descr = (bare_tool i)\<lparr>td_description := descr\<rparr>"

definition sample_request :: "tool_definition list \<Rightarrow> int option \<Rightarrow> planning_request" where
  "sample_request tools n = \<lparr>preq_goal = ''Write. Test!'', preq_availableTools = tools,
     preq_systemContext = None, preq_availablePlugins = None, preq_preferredStrategy = None,
     preq_maxSteps = n, preq_constraints = None, preq_requestId = None\<rparr>"

theorem planning_engine_answers_witness:
  "(\<exists>p. presp_plan (fst (plan strategies int ''p'' (sample_request [sample_tool ''t'' ''does''] (Some 1)))) = Some p \<and>
     int (length (pr_steps p)) \<le> 2 \<and> pr_requiredTools p = []) \<and>
   presp_errorCode (fst (plan strategies int ''p'' (sample_request [sample_tool ''t'' []] None))) =
     Some ''VALIDATION_FAILED''"
proof -
  let ?a = "sample_request [sample_tool ''t'' ''does''] (Some 1)" and ?b = "sample_request [sample_tool ''t'' []] None"
  have a: "validateRequest strategies ?a = None" "planned_tools ?a = []" "preq_maxSteps ?a = Some 1"
    by code_simp+
  have b: "validateRequest strategies ?b = None" "planned_tools ?b = [sample_tool ''t'' []]"
    "td_description (sample_tool ''t'' []) = []"
    by code_simp+
  show ?thesis
    using planning_engine_answers [of ?a int "''p''"] planning_engine_answers [of ?b int "''p''"]
    by (auto simp: a b)
qed

text \<open>With one step allowed, the engine still plans two: the second is added without a check.\<close>

lemma one_step_allowed_two_planned:
  "map_option (\<lambda>p. length (pr_steps p))
     (presp_plan (fst (plan strategies int ''p'' (sample_request [sample_tool ''t'' ''does''] (Some 1))))) = Some 2"
  by code_simp

end
