(* ===== verification/ToolRegistry.thy ===== *)
theory ToolRegistry
  imports ToolTypes
begin

text \<open>
  The tool registry, packages/llm/src/tools/ToolRegistry.ts, and the tool errors,
  packages/llm/src/tools/ToolError.ts. The registry is a map from identifiers to entries; the
  global registry of the module is an option, created at its first use.
\<close>

subsection \<open>Errors\<close>

datatype tool_error =
    ToolNotFoundError string
  | ToolValidationError string "string list"
  | ToolPermissionError string "tool_permission list"
  | ToolTimeoutError string int
  | ToolPluginUnavailableError string string
  | ToolExecutionError string string
  | ToolDisabledError string
  | ForeignError string

fun permission_str :: "tool_permission \<Rightarrow> string" where
  "permission_str Read = ''read''"
| "permission_str Write = ''write''"
| "permission_str Admin = ''admin''"
| "permission_str Network = ''network''"

fun tool_error_code :: "tool_error \<Rightarrow> string option" where
  "tool_error_code (ToolNotFoundError _) = Some ''TOOL_NOT_FOUND''"
| "tool_error_code (ToolValidationError _ _) = Some ''TOOL_VALIDATION_FAILED''"
| "tool_error_code (ToolPermissionError _ _) = Some ''TOOL_PERMISSION_DENIED''"
| "tool_error_code (ToolTimeoutError _ _) = Some ''TOOL_TIMEOUT''"
| "tool_error_code (ToolPluginUnavailableError _ _) = Some ''TOOL_PLUGIN_UNAVAILABLE''"
| "tool_error_code (ToolExecutionError _ _) = Some ''TOOL_EXECUTION_FAILED''"
| "tool_error_code (ToolDisabledError _) = Some ''TOOL_DISABLED''"
| "tool_error_code (ForeignError _) = None"

fun tool_error_message :: "tool_error \<Rightarrow> string" where
  "tool_error_message (ToolNotFoundError t) = ''Tool '' @ quoted t @ '' is not registered.''"
| "tool_error_message (ToolValidationError t es) =
     ''Tool '' @ quoted t @ '' validation failed: '' @ join '', '' es"
| "tool_error_message (ToolPermissionError t ps) =
     ''Tool '' @ quoted t @ '' requires permissions: '' @ join '', '' (map permission_str ps)"
| "tool_error_message (ToolTimeoutError t n) =
     ''Tool '' @ quoted t @ '' timed out after '' @ int_str n @ ''ms''"
| "tool_error_message (ToolPluginUnavailableError t p) =
     ''Plugin '' @ quoted p @ '' for tool '' @ quoted t @ '' is not available.''"
| "tool_error_message (ToolExecutionError t m) = m"
| "tool_error_message (ToolDisabledError t) = ''Tool '' @ quoted t @ '' is disabled.''"
| "tool_error_message (ForeignError m) = m"

definition isToolError :: "tool_error \<Rightarrow> bool" where
  "isToolError e \<longleftrightarrow> (case e of ForeignError _ \<Rightarrow> False | _ \<Rightarrow> True)"

subsection \<open>The registry\<close>

type_synonym 'h tool_registry = "(string, 'h tool_registry_entry) jmap"

definition register :: "tool_definition \<Rightarrow> 'h \<Rightarrow> 'h tool_registry \<Rightarrow> 'h tool_registry" where
  "register d h store = jm_set (td_id d) \<lparr>tre_definition = d, tre_handler = h\<rparr> store"

definition unregister :: "string \<Rightarrow> 'h tool_registry \<Rightarrow> 'h tool_registry" where
  "unregister toolId store = jm_delete toolId store"

definition get_tool :: "'h tool_registry \<Rightarrow> string \<Rightarrow> tool_error + 'h tool_registry_entry" where
  "get_tool store toolId =
     (case jm_get store toolId of None \<Rightarrow> Inl (ToolNotFoundError toolId) | Some entry \<Rightarrow> Inr entry)"

definition list_tools :: "'h tool_registry \<Rightarrow> 'h tool_registry_entry list" where
  "list_tools store = jm_values store"

definition findByPlugin :: "'h tool_registry \<Rightarrow> string \<Rightarrow> 'h tool_registry_entry list" where
  "findByPlugin store pluginId =
     filter (\<lambda>e. td_pluginId (tre_definition e) = pluginId) (list_tools store)"

definition has_tool :: "'h tool_registry \<Rightarrow> string \<Rightarrow> bool" where
  "has_tool store toolId \<longleftrightarrow> jm_has store toolId"

definition getGlobalToolRegistry ::
  "'h tool_registry option \<Rightarrow> 'h tool_registry \<times> 'h tool_registry option" where
  "getGlobalToolRegistry inst = (case inst of None \<Rightarrow> ([], Some []) | Some r \<Rightarrow> (r, inst))"

definition resetGlobalToolRegistry :: "'h tool_registry option" where
  "resetGlobalToolRegistry = None"

subsection \<open>Laws\<close>

text \<open>Every entry is stored under the identifier of its own definition.\<close>

definition wf_tools :: "'h tool_registry \<Rightarrow> bool" where
  "wf_tools store \<longleftrightarrow> wf_jmap store \<and> (\<forall>(i, e) \<in> set store. td_id (tre_definition e) = i)"

lemma wf_tools_empty: "wf_tools []"
  by (simp add: wf_tools_def)

lemma wf_tools_register:
  assumes "wf_tools store"
  shows "wf_tools (register d h store)"
proof -
  have "td_id (tre_definition e) = i" if "(i, e) \<in> set (register d h store)" for i e
  proof -
    have "wf_jmap (register d h store)" using assms by (simp add: wf_tools_def register_def)
    with that have "jm_get (register d h store) i = Some e" by simp
    with assms show ?thesis
      by (auto simp: register_def jm_get_set wf_tools_def split: if_splits dest: map_of_SomeD)
  qed
  with assms show ?thesis by (auto simp: wf_tools_def register_def)
qed

lemma wf_tools_unregister: "wf_tools store \<Longrightarrow> wf_tools (unregister i store)"
  unfolding wf_tools_def unregister_def by (rule conjI) (simp, auto simp: AList.delete_eq)

lemma get_tool_Inr: "get_tool store i = Inr e \<longleftrightarrow> jm_get store i = Some e"
  by (auto simp: get_tool_def split: option.splits)

lemma get_tool_has: "has_tool store i \<longleftrightarrow> (\<exists>e. get_tool store i = Inr e)"
  by (auto simp: has_tool_def jm_has_def get_tool_Inr)

datatype 'h registry_op = Register tool_definition 'h | Unregister string

fun run_registry :: "'h registry_op list \<Rightarrow> 'h tool_registry \<Rightarrow> 'h tool_registry" where
  "run_registry [] store = store"
| "run_registry (Register d h # ops) store = run_registry ops (register d h store)"
| "run_registry (Unregister i # ops) store = run_registry ops (unregister i store)"

text \<open>The last operation on an identifier decides what is found under it.\<close>

fun last_word :: "'h registry_op list \<Rightarrow> string \<Rightarrow> 'h tool_registry_entry option \<Rightarrow> 'h tool_registry_entry option" where
  "last_word [] i found = found"
| "last_word (Register d h # ops) i found =
     last_word ops i (if td_id d = i then Some \<lparr>tre_definition = d, tre_handler = h\<rparr> else found)"
| "last_word (Unregister j # ops) i found = last_word ops i (if j = i then None else found)"

lemma run_registry_wf: "wf_tools store \<Longrightarrow> wf_tools (run_registry ops store)"
  by (induction ops store rule: run_registry.induct) (simp_all add: wf_tools_register wf_tools_unregister)

lemma run_registry_get: "jm_get (run_registry ops store) i = last_word ops i (jm_get store i)"
  by (induction ops store rule: run_registry.induct)
    (auto simp: register_def unregister_def jm_get_set jm_get_delete)

text \<open>
  After any sequence of registrations and removals a lookup finds the entry of the last
  registration of the identifier that no removal followed, or reports that the tool is not
  registered; every entry is found under the identifier of its definition, and the tools of
  a plugin are exactly the entries that can be found and belong to it.
\<close>

theorem registry_finds_last_registration:
  "let store = run_registry ops []
   in get_tool store i = (case last_word ops i None of None \<Rightarrow> Inl (ToolNotFoundError i) | Some e \<Rightarrow> Inr e) \<and>
      (\<forall>e. get_tool store i = Inr e \<longrightarrow> td_id (tre_definition e) = i) \<and>
      set (findByPlugin store p) = {e. \<exists>j. get_tool store j = Inr e \<and> td_pluginId (tre_definition e) = p}"
proof -
  let ?s = "run_registry ops []"
  have wf: "wf_tools ?s" by (rule run_registry_wf [OF wf_tools_empty])
  have "get_tool ?s i = (case last_word ops i None of None \<Rightarrow> Inl (ToolNotFoundError i) | Some e \<Rightarrow> Inr e)"
    by (simp add: get_tool_def run_registry_get)
  moreover have "td_id (tre_definition e) = i" if "get_tool ?s i = Inr e" for e
    using that wf by (auto simp: get_tool_Inr wf_tools_def dest: map_of_SomeD)
  moreover have found: "e \<in> set (jm_values ?s) \<longleftrightarrow> (\<exists>j. jm_get ?s j = Some e)" for e
    using wf by (force simp: wf_tools_def dest: map_of_SomeD)
  moreover have "set (findByPlugin ?s p) = {e. \<exists>j. get_tool ?s j = Inr e \<and> td_pluginId (tre_definition e) = p}"
    using found by (auto simp: findByPlugin_def list_tools_def get_tool_Inr)
  ultimately show ?thesis unfolding Let_def by blast
qed

definition sample_definition :: "string \<Rightarrow> tool_parameter list \<Rightarrow> tool_permission list \<Rightarrow> tool_definition" where
  "sample_definition i params perms = \<lparr>td_id = i, td_name = i, td_description = i, td_pluginId = ''files'',
     td_parameters = \<lparr>required_params = Some params, optional_params = None\<rparr>, td_returnType = None,
     td_permissions = perms, td_timeoutMs = None, td_enabled = None\<rparr>"

theorem registry_finds_last_registration_witness:
  "let store = run_registry [Register (sample_definition ''a'' [] []) (0::nat), Register (sample_definition ''b'' [] []) 1,
       Unregister ''b'', Register (sample_definition ''a'' [] []) 2] []
   in get_tool store ''b'' = Inl (ToolNotFoundError ''b'') \<and>
      get_tool store ''a'' = Inr \<lparr>tre_definition = sample_definition ''a'' [] [], tre_handler = 2\<rparr>"
  unfolding Let_def
  using registry_finds_last_registration [of "[Register (sample_definition ''a'' [] []) (0::nat),
      Register (sample_definition ''b'' [] []) 1, Unregister ''b'', Register (sample_definition ''a'' [] []) 2]" "''b''"]
    registry_finds_last_registration [of "[Register (sample_definition ''a'' [] []) (0::nat),
      Register (sample_definition ''b'' [] []) 1, Unregister ''b'', Register (sample_definition ''a'' [] []) 2]" "''a''"]
  by (simp add: Let_def sample_definition_def)

end
