(* ===== verification/ToolValidation.thy ===== *)
theory ToolValidation
  imports ToolRegistry JsObjects
begin

text \<open>
  Validation of tool calls, packages/llm/src/tools/ToolValidation.ts.
\<close>

fun param_type_str :: "param_type \<Rightarrow> string" where
  "param_type_str PString = ''string''"
| "param_type_str PNumber = ''number''"
| "param_type_str PBoolean = ''boolean''"
| "param_type_str PArray = ''array''"
| "param_type_str PObject = ''object''"

definition validateParamType :: "tool_parameter \<Rightarrow> jsval \<Rightarrow> bool" where
  "validateParamType param v \<longleftrightarrow>
     (case tp_type param of
        PString \<Rightarrow> typeof v = ''string''
      | PNumber \<Rightarrow> typeof v = ''number'' \<and> v \<noteq> JNaN
      | PBoolean \<Rightarrow> typeof v = ''boolean''
      | PArray \<Rightarrow> is_array v
      | PObject \<Rightarrow> typeof v = ''object'' \<and> v \<noteq> JNull \<and> \<not> is_array v)"

definition required_of :: "tool_definition \<Rightarrow> tool_parameter list" where
  "required_of d = override [] (required_params (td_parameters d))"

definition all_params :: "tool_definition \<Rightarrow> tool_parameter list" where
  "all_params d = required_of d @ override [] (optional_params (td_parameters d))"

definition validateRequired :: "tool_definition \<Rightarrow> arguments \<Rightarrow> string list" where
  "validateRequired d args =
     concat (map (\<lambda>param. if \<not> js_in (tp_name param) args
       then [''Missing required parameter: '' @ tp_name param] else []) (required_of d))"

definition type_error :: "tool_parameter \<Rightarrow> jsval \<Rightarrow> bool" where
  "type_error param v \<longleftrightarrow> \<not> (v = JUndefined \<or> v = JNull) \<and> \<not> validateParamType param v"

definition validateTypes :: "tool_definition \<Rightarrow> arguments \<Rightarrow> string list" where
  "validateTypes d args =
     concat (map (\<lambda>param. if type_error param (js_get args (tp_name param))
       then [''Parameter '' @ quoted (tp_name param) @ '' expected type '' @
             quoted (param_type_str (tp_type param)) @ '', got '' @
             quoted (typeof (js_get args (tp_name param)))] else []) (all_params d))"

definition validateUnknown :: "tool_definition \<Rightarrow> arguments \<Rightarrow> string list" where
  "validateUnknown d args =
     (let allowed = set (map tp_name (all_params d))
      in concat (map (\<lambda>key. if key \<notin> allowed then [''Unknown parameter: '' @ key] else []) (jm_keys args)))"

definition validatePluginAvailable :: "tool_definition \<Rightarrow> string set \<Rightarrow> string list" where
  "validatePluginAvailable d availablePlugins =
     (if td_pluginId d \<notin> availablePlugins
      then [''Plugin '' @ quoted (td_pluginId d) @ '' is not available''] else [])"

definition validateEnabled :: "tool_definition \<Rightarrow> string list" where
  "validateEnabled d =
     (if td_enabled d = Some False then [''Tool '' @ quoted (td_id d) @ '' is disabled''] else [])"

definition validateToolCall :: "'h tool_registry \<Rightarrow> tool_call \<Rightarrow> string set \<Rightarrow> validation" where
  "validateToolCall registry call availablePlugins =
     (case get_tool registry (tc_toolId call) of
        Inl _ \<Rightarrow> report [''Tool '' @ quoted (tc_toolId call) @ '' is not registered'']
      | Inr entry \<Rightarrow>
          (let d = tre_definition entry
           in report (validateEnabled d @ validatePluginAvailable d availablePlugins @
                validateRequired d (tc_arguments call) @ validateTypes d (tc_arguments call) @
                validateUnknown d (tc_arguments call))))"

subsection \<open>What the validation accepts\<close>

definition call_ok :: "tool_definition \<Rightarrow> arguments \<Rightarrow> string set \<Rightarrow> bool" where
  "call_ok d args plugins \<longleftrightarrow>
     td_enabled d \<noteq> Some False \<and> td_pluginId d \<in> plugins \<and>
     (\<forall>p \<in> set (required_of d). js_in (tp_name p) args) \<and>
     (\<forall>p \<in> set (all_params d). \<not> type_error p (js_get args (tp_name p))) \<and>
     set (jm_keys args) \<subseteq> tp_name ` set (all_params d)"

lemma validateRequired_Nil:
  "validateRequired d args = [] \<longleftrightarrow> (\<forall>p \<in> set (required_of d). js_in (tp_name p) args)"
  unfolding validateRequired_def concat_if_Nil by simp

lemma validateTypes_Nil:
  "validateTypes d args = [] \<longleftrightarrow> (\<forall>p \<in> set (all_params d). \<not> type_error p (js_get args (tp_name p)))"
  unfolding validateTypes_def concat_if_Nil ..

lemma validateUnknown_Nil:
  "validateUnknown d args = [] \<longleftrightarrow> set (jm_keys args) \<subseteq> tp_name ` set (all_params d)"
  unfolding validateUnknown_def Let_def concat_if_Nil by auto

lemma validateToolCall_iff:
  "valid (validateToolCall registry call plugins) \<longleftrightarrow>
     (\<exists>e. get_tool registry (tc_toolId call) = Inr e \<and>
        call_ok (tre_definition e) (tc_arguments call) plugins)"
  by (auto simp: validateToolCall_def Let_def validateEnabled_def validatePluginAvailable_def
      validateRequired_Nil validateTypes_Nil validateUnknown_Nil call_ok_def split: sum.splits)

text \<open>The values of a declared type, given by what they are and not by how the code tells them apart.\<close>

inductive value_of_type :: "param_type \<Rightarrow> jsval \<Rightarrow> bool" where
  "value_of_type PString (JStr s)"
| "value_of_type PNumber (JNum q)"
| "value_of_type PBoolean (JBool b)"
| "value_of_type PArray (JArr vs)"
| "value_of_type PObject (JObj ms)"

inductive_simps value_of_type_simps [simp]: "value_of_type PString v" "value_of_type PNumber v" "value_of_type PBoolean v"
  "value_of_type PArray v" "value_of_type PObject v"

lemma validateParamType_value: "validateParamType p v \<longleftrightarrow> value_of_type (tp_type p) v"
  by (cases "tp_type p"; cases v) (simp_all add: validateParamType_def is_array_def)

lemma type_error_value: "type_error p v \<longleftrightarrow> v \<noteq> JUndefined \<and> v \<noteq> JNull \<and> \<not> value_of_type (tp_type p) v"
  by (auto simp: type_error_def validateParamType_value)

text \<open>A name that no object inherits.\<close>

definition own_name :: "string \<Rightarrow> bool" where
  "own_name n \<longleftrightarrow> n \<noteq> ''__proto__'' \<and> n \<notin> set prototype_functions"

lemma own_name_reads:
  assumes "own_name n"
  shows "js_in n args \<longleftrightarrow> n \<in> set (jm_keys args)" "n \<notin> set (jm_keys args) \<Longrightarrow> js_get args n = JUndefined"
proof -
  show "js_in n args \<longleftrightarrow> n \<in> set (jm_keys args)" using assms by (simp add: own_name_def js_in_def jm_has_iff)
  assume "n \<notin> set (jm_keys args)"
  then have "jm_get args n = None" by (simp add: map_of_eq_None_iff)
  then show "js_get args n = JUndefined" using assms by (simp add: own_name_def js_get_plain)
qed

text \<open>
  C12: For a registered tool whose parameters have names that no object inherits, and arguments with distinct keys, a call
  is accepted exactly when the tool is not disabled, its plugin is available, every required parameter is among the arguments, and
  every argument is a declared parameter whose value is null, undefined or of each type declared
  under its name. A call of a tool that is not registered is never accepted.
\<close>

theorem tool_call_accepted_iff:
  assumes "get_tool registry (tc_toolId call) = Inr e" and "d = tre_definition e"
    and "\<forall>p \<in> set (all_params d). own_name (tp_name p)" and "wf_jmap (tc_arguments call)"
    and "\<And>e. get_tool registry (tc_toolId other) \<noteq> Inr e"
  shows "(valid (validateToolCall registry call plugins) \<longleftrightarrow>
     td_enabled d \<noteq> Some False \<and> td_pluginId d \<in> plugins \<and>
     (\<forall>p \<in> set (required_of d). \<exists>v. (tp_name p, v) \<in> set (tc_arguments call)) \<and>
     (\<forall>(n, v) \<in> set (tc_arguments call). (\<exists>p \<in> set (all_params d). tp_name p = n) \<and>
        (v = JUndefined \<or> v = JNull \<or> (\<forall>p \<in> set (all_params d). tp_name p = n \<longrightarrow> value_of_type (tp_type p) v))))
   \<and> \<not> valid (validateToolCall registry other plugins)"
proof -
  let ?args = "tc_arguments call"
  have req: "set (required_of d) \<subseteq> set (all_params d)" by (auto simp: all_params_def)
  have r: "validateRequired d ?args = [] \<longleftrightarrow> (\<forall>p \<in> set (required_of d). \<exists>v. (tp_name p, v) \<in> set ?args)"
  proof -
    have "js_in (tp_name p) ?args \<longleftrightarrow> (\<exists>v. (tp_name p, v) \<in> set ?args)" if "p \<in> set (required_of d)" for p
      using own_name_reads(1) [of "tp_name p" ?args] assms(3) req that by force
    then show ?thesis unfolding validateRequired_Nil by simp
  qed
  have own: "js_get ?args n = v" if "(n, v) \<in> set ?args" for n v
    using map_of_is_SomeI [OF assms(4) that] by (rule js_get_own)
  have t: "validateTypes d ?args = [] \<longleftrightarrow> (\<forall>(n, v) \<in> set ?args. v = JUndefined \<or> v = JNull \<or>
      (\<forall>p \<in> set (all_params d). tp_name p = n \<longrightarrow> value_of_type (tp_type p) v))"
  proof -
    have "type_error p (js_get ?args (tp_name p)) \<longleftrightarrow>
        (\<exists>v. (tp_name p, v) \<in> set ?args \<and> v \<noteq> JUndefined \<and> v \<noteq> JNull \<and> \<not> value_of_type (tp_type p) v)"
      if "p \<in> set (all_params d)" for p
    proof (cases "tp_name p \<in> set (jm_keys ?args)")
      case True
      then obtain v where v: "(tp_name p, v) \<in> set ?args" by auto
      then have "(tp_name p, v') \<in> set ?args \<longleftrightarrow> v' = v" for v' using own by metis
      then show ?thesis using own [OF v] by (simp add: type_error_value)
    next
      case False
      then have "(tp_name p, v) \<notin> set ?args" for v by force
      with own_name_reads(2) [OF _ False] assms(3) that show ?thesis by (auto simp: type_error_value)
    qed
    then show ?thesis unfolding validateTypes_Nil by blast
  qed
  have u: "validateUnknown d ?args = [] \<longleftrightarrow> (\<forall>(n, v) \<in> set ?args. \<exists>p \<in> set (all_params d). tp_name p = n)"
    unfolding validateUnknown_Nil by fastforce
  have "valid (validateToolCall registry call plugins) \<longleftrightarrow> td_enabled d \<noteq> Some False \<and> td_pluginId d \<in> plugins
      \<and> validateRequired d ?args = [] \<and> validateTypes d ?args = [] \<and> validateUnknown d ?args = []"
    by (auto simp: validateToolCall_def assms(1,2) Let_def validateEnabled_def validatePluginAvailable_def)
  moreover have "\<not> valid (validateToolCall registry other plugins)"
    using assms(5) by (auto simp: validateToolCall_def split: sum.split)
  moreover have "(\<forall>(n, v) \<in> set ?args. U n \<and> T n v) \<longleftrightarrow> (\<forall>(n, v) \<in> set ?args. T n v) \<and> (\<forall>(n, v) \<in> set ?args. U n)"
    for U :: "string \<Rightarrow> bool" and T :: "string \<Rightarrow> jsval \<Rightarrow> bool" by auto
  ultimately show ?thesis unfolding r t u by simp
qed

definition sample_parameter :: "string \<Rightarrow> param_type \<Rightarrow> tool_parameter" where
  "sample_parameter i t = \<lparr>tp_name = i, tp_type = t, tp_description = None, tp_required = None,
     tp_default = None, tp_enum = None, tp_items = None, tp_properties = None\<rparr>"

definition sample_registry :: "'h \<Rightarrow> tool_permission list \<Rightarrow> 'h tool_registry" where
  "sample_registry h perms = register (sample_definition ''t'' [sample_parameter ''x'' PNumber] perms) h []"

definition sample_call :: "jsval \<Rightarrow> tool_call" where
  "sample_call v = \<lparr>tc_id = ''c1'', tc_toolId = ''t'', tc_arguments = [(''x'', v)]\<rparr>"

lemma tool_call_accepted_iff_witness:
  "valid (validateToolCall (sample_registry (0::nat) []) (sample_call (JNum 3)) {''files''}) \<and>
   \<not> valid (validateToolCall (sample_registry (0::nat) []) (sample_call (JStr ''3'')) {''files''})"
proof -
  let ?reg = "sample_registry (0::nat) []" and ?p = "sample_parameter ''x'' PNumber"
  let ?d = "sample_definition ''t'' [?p] []"
  let ?other = "\<lparr>tc_id = ''c2'', tc_toolId = ''u'', tc_arguments = []\<rparr>"
  have e: "get_tool ?reg (tc_toolId (sample_call v)) = Inr \<lparr>tre_definition = ?d, tre_handler = 0\<rparr>" for v
    by (simp add: get_tool_def sample_registry_def register_def sample_definition_def sample_call_def)
  have none: "get_tool ?reg (tc_toolId ?other) \<noteq> Inr x" for x
    by (simp add: get_tool_def sample_registry_def register_def sample_definition_def)
  have all: "required_of ?d = [?p]" "all_params ?d = [?p]"
    by (simp_all add: required_of_def all_params_def sample_definition_def)
  have names: "\<forall>p \<in> set (all_params ?d). own_name (tp_name p)"
    unfolding all by (simp add: own_name_def sample_parameter_def prototype_functions_def)
  have wf: "wf_jmap (tc_arguments (sample_call v))" for v by (simp add: sample_call_def)
  have d: "td_enabled ?d \<noteq> Some False" "td_pluginId ?d = ''files''" by (simp_all add: sample_definition_def)
  show ?thesis
    using tool_call_accepted_iff [OF e _ names wf none, of "JNum 3" "{''files''}"]
      tool_call_accepted_iff [OF e _ names wf none, of "JStr ''3''" "{''files''}"] d
    unfolding all by (simp add: sample_call_def sample_parameter_def)
qed


text \<open>
  Translation of tool definitions to the formats of the providers,
  packages/llm/src/tools/ToolTranslator.ts. A schema is a plain object, so it is a \<open>jsval\<close>;
  its members are in the order of insertion (an engine lists integer-like names first).
  Assigning the member \<open>__proto__\<close> of an object does not create an own member.
\<close>

record provider_function =
  pf_name :: string
  pf_description :: string
  pf_parameters :: jsval

record provider_tool_definition =
  ptd_function :: provider_function

definition js_put :: "string \<Rightarrow> jsval \<Rightarrow> (string \<times> jsval) list \<Rightarrow> (string \<times> jsval) list" where
  "js_put name v obj = (if name = ''__proto__'' then obj else jm_set name v obj)"

text \<open>An optional member, and one that is left out when it is falsy.\<close>

definition member :: "string \<Rightarrow> jsval option \<Rightarrow> (string \<times> jsval) list" where
  "member name v = (case v of None \<Rightarrow> [] | Some x \<Rightarrow> [(name, x)])"

definition text_member :: "string \<Rightarrow> string option \<Rightarrow> (string \<times> jsval) list" where
  "text_member name v = (case v of None \<Rightarrow> [] | Some s \<Rightarrow> (if s = [] then [] else [(name, JStr s)]))"

text \<open>A nested schema as the object it is.\<close>

fun schema_val :: "tool_parameter_schema \<Rightarrow> jsval" where
  "schema_val (ToolParameterSchema t descr req dflt en items props) =
     JObj ([(''type'', JStr (param_type_str t))] @ member ''description'' (map_option JStr descr) @
       member ''required'' (map_option JBool req) @ member ''default'' dflt @
       member ''enum'' (map_option JArr en) @ member ''items'' (map_option JObj items) @
       (case props of None \<Rightarrow> []
        | Some ps \<Rightarrow> [(''properties'', JObj (map (\<lambda>p. (fst p, schema_val (snd p))) ps))]))"

definition flagged :: "tool_parameter \<Rightarrow> bool" where
  "flagged p \<longleftrightarrow> tp_required p = Some True"

definition required_member :: "tool_parameter list \<Rightarrow> (string \<times> jsval) list" where
  "required_member params =
     (let required = map tp_name (filter flagged params)
      in if length required > 0 then [(''required'', JArr (map JStr required))] else [])"

definition openai_property :: "tool_parameter \<Rightarrow> jsval" where
  "openai_property p =
     JObj ([(''type'', JStr (param_type_str (tp_type p)))] @ text_member ''description'' (tp_description p) @
       member ''enum'' (map_option JArr (tp_enum p)) @ member ''items'' (map_option JObj (tp_items p)) @
       member ''properties'' (map_option (\<lambda>ps. JObj (map (\<lambda>p. (fst p, schema_val (snd p))) ps)) (tp_properties p)))"

definition anthropic_property :: "tool_parameter \<Rightarrow> jsval" where
  "anthropic_property p =
     JObj ([(''type'', JStr (param_type_str (tp_type p)))] @ text_member ''description'' (tp_description p) @
       member ''enum'' (map_option JArr (tp_enum p)))"

fun mapGeminiType :: "param_type \<Rightarrow> string" where
  "mapGeminiType PString = ''STRING''"
| "mapGeminiType PNumber = ''NUMBER''"
| "mapGeminiType PBoolean = ''BOOLEAN''"
| "mapGeminiType PArray = ''ARRAY''"
| "mapGeminiType PObject = ''OBJECT''"

definition gemini_property :: "tool_parameter \<Rightarrow> jsval" where
  "gemini_property p =
     JObj ([(''name'', JStr (tp_name p)), (''type'', JStr (mapGeminiType (tp_type p)))] @
       text_member ''description'' (tp_description p) @ member ''enum'' (map_option JArr (tp_enum p)))"

definition properties_object :: "(tool_parameter \<Rightarrow> jsval) \<Rightarrow> tool_parameter list \<Rightarrow> (string \<times> jsval) list" where
  "properties_object f params = fold (\<lambda>p obj. js_put (tp_name p) (f p) obj) params []"

definition buildOpenAISchema :: "tool_definition \<Rightarrow> jsval" where
  "buildOpenAISchema d =
     JObj ([(''type'', JStr ''object''), (''properties'', JObj (properties_object openai_property (all_params d)))] @
       required_member (all_params d))"

definition buildAnthropicSchema :: "tool_definition \<Rightarrow> jsval" where
  "buildAnthropicSchema d =
     JObj ([(''type'', JStr ''object''), (''properties'', JObj (properties_object anthropic_property (all_params d)))] @
       required_member (all_params d))"

definition buildGeminiSchema :: "tool_definition \<Rightarrow> jsval" where
  "buildGeminiSchema d =
     JObj ([(''type'', JStr ''OBJECT''), (''properties'', JArr (map gemini_property (all_params d)))] @
       required_member (all_params d))"

definition translated :: "(tool_definition \<Rightarrow> jsval) \<Rightarrow> tool_definition \<Rightarrow> provider_tool_definition" where
  "translated schema d =
     \<lparr>ptd_function = \<lparr>pf_name = td_id d, pf_description = td_description d, pf_parameters = schema d\<rparr>\<rparr>"

definition toOpenAITool :: "tool_definition \<Rightarrow> provider_tool_definition" where
  "toOpenAITool = translated buildOpenAISchema"

definition toAnthropicTool :: "tool_definition \<Rightarrow> provider_tool_definition" where
  "toAnthropicTool = translated buildAnthropicSchema"

definition toGeminiTool :: "tool_definition \<Rightarrow> provider_tool_definition" where
  "toGeminiTool = translated buildGeminiSchema"

datatype provider_type = OpenAI | Anthropic | Gemini

fun getTranslator :: "provider_type \<Rightarrow> tool_definition \<Rightarrow> provider_tool_definition" where
  "getTranslator OpenAI = toOpenAITool"
| "getTranslator Anthropic = toAnthropicTool"
| "getTranslator Gemini = toGeminiTool"

definition translateTools :: "tool_definition list \<Rightarrow> provider_type \<Rightarrow> provider_tool_definition list" where
  "translateTools definitions provider = map (getTranslator provider) definitions"

subsection \<open>Required parameters\<close>

text \<open>The names a translated schema lists as required.\<close>

definition schema_required :: "jsval \<Rightarrow> string list" where
  "schema_required v =
     (case v of
        JObj ms \<Rightarrow> (case jm_get ms ''required'' of
             Some (JArr xs) \<Rightarrow> map (\<lambda>x. case x of JStr s \<Rightarrow> s | _ \<Rightarrow> []) xs | _ \<Rightarrow> [])
      | _ \<Rightarrow> [])"

lemma required_member_names:
  "m \<noteq> ''required'' \<Longrightarrow> n \<noteq> ''required'' \<Longrightarrow>
   schema_required (JObj ((m, v) # (n, w) # required_member params)) = map tp_name (filter flagged params)"
  by (simp add: schema_required_def required_member_def Let_def comp_def)

text \<open>
  For every provider the translated schema lists as required exactly the parameters that
  carry the flag \<open>required\<close>. The validator of calls requires the parameters in the list
  \<open>required\<close> of the definition instead: the two agree on a definition exactly when the names
  of its flagged parameters are the names of that list.
\<close>

theorem translated_required_parameters:
  "schema_required (pf_parameters (ptd_function (getTranslator provider d))) = map tp_name (filter flagged (all_params d)) \<and>
   ((\<forall>args. validateRequired d args = [] \<longleftrightarrow>
       (\<forall>n \<in> set (schema_required (pf_parameters (ptd_function (getTranslator provider d)))). js_in n args)) \<longleftrightarrow>
    (\<forall>n. \<not> js_in n [] \<longrightarrow> (n \<in> tp_name ` set (required_of d) \<longleftrightarrow> n \<in> tp_name ` set (filter flagged (all_params d)))))"
proof -
  let ?names = "map tp_name (filter flagged (all_params d))"
  have req: "schema_required (pf_parameters (ptd_function (getTranslator provider d))) = ?names"
    by (cases provider)
      (simp_all add: toOpenAITool_def toAnthropicTool_def toGeminiTool_def translated_def buildOpenAISchema_def
        buildAnthropicSchema_def buildGeminiSchema_def required_member_names)
  have sees: "js_in n args \<longleftrightarrow> js_in n [] \<or> n \<in> set (jm_keys args)" for n args
    by (auto simp: js_in_def jm_has_iff)
  have "(\<forall>args. (\<forall>n \<in> A. js_in n args) \<longleftrightarrow> (\<forall>n \<in> B. js_in n args)) \<longleftrightarrow>
      (\<forall>n. \<not> js_in n [] \<longrightarrow> (n \<in> A \<longleftrightarrow> n \<in> B))" (is "?l \<longleftrightarrow> ?r") if "finite A" "finite B" for A B :: "string set"
  proof
    assume l: ?l
    obtain as bs where ab: "set as = A" "set bs = B"
      using finite_list [OF \<open>finite A\<close>] finite_list [OF \<open>finite B\<close>] by blast
    have null: "js_in n (map (\<lambda>n. (n, JNull)) xs) \<longleftrightarrow> js_in n [] \<or> n \<in> set xs" for n xs
      using sees [of n "map (\<lambda>n. (n, JNull)) xs"] by (simp add: image_image)
    have a: "\<forall>n \<in> A. js_in n (map (\<lambda>n. (n, JNull)) as)" and b: "\<forall>n \<in> B. js_in n (map (\<lambda>n. (n, JNull)) bs)"
      using ab null by blast+
    have "\<forall>n \<in> B. js_in n (map (\<lambda>n. (n, JNull)) as)" and "\<forall>n \<in> A. js_in n (map (\<lambda>n. (n, JNull)) bs)"
      using l a b by blast+
    then show ?r using ab null by blast
  next
    assume r: ?r
    have "(\<forall>n \<in> A. js_in n args) \<longleftrightarrow> (\<forall>n \<in> B. js_in n args)" for args
      using r sees [of _ args] by blast
    then show ?l by blast
  qed
  from this [of "tp_name ` set (required_of d)" "set ?names"] show ?thesis
    unfolding req by (simp add: validateRequired_Nil)
qed

theorem translated_required_parameters_witness:
  "let d = sample_definition ''t'' [sample_parameter ''x'' PNumber] []
   in schema_required (pf_parameters (ptd_function (getTranslator OpenAI d))) = [] \<and>
      \<not> (\<forall>args. validateRequired d args = [])"
proof -
  let ?d = "sample_definition ''t'' [sample_parameter ''x'' PNumber] []"
  have none: "map tp_name (filter flagged (all_params ?d)) = []" by code_simp
  have req: "tp_name ` set (required_of ?d) = {''x''}"
    by (simp add: required_of_def sample_definition_def sample_parameter_def)
  have seen: "\<not> js_in ''x'' []" by code_simp
  from none have nil: "schema_required (pf_parameters (ptd_function (getTranslator OpenAI ?d))) = []"
    using conjunct1 [OF translated_required_parameters [of OpenAI ?d]] by (simp only:)
  have "\<not> (\<forall>n. \<not> js_in n [] \<longrightarrow> (n \<in> {''x''} \<longleftrightarrow> n \<in> tp_name ` set (filter flagged (all_params ?d))))"
    using none seen by auto
  then have "\<not> (\<forall>args. validateRequired ?d args = [] \<longleftrightarrow> (\<forall>n \<in> set []. js_in n args))"
    using conjunct2 [OF translated_required_parameters [of OpenAI ?d]] unfolding nil req by blast
  then have "\<not> (\<forall>args. validateRequired ?d args = [])" by simp
  with nil show ?thesis by simp
qed

end
