(* ===== verification/ToolExecutor.thy ===== *)
theory ToolExecutor
  imports ToolValidation
begin

text \<open>
  The tool executor, packages/llm/src/tools/ToolExecutor.ts. A handler is code outside: it maps
  its context to what its promise does, measured from the start of the timer. The span and the
  log lines of \<open>instrument\<close> do not change the outcome and do not appear; \<open>clock n\<close> is the
  n-th reading of the clock by the executor itself. \<open>Inl\<close> is the error that \<open>execute\<close> rejects with. Event handlers are assumed not to throw.
\<close>

subsection \<open>Handlers and the timeout\<close>

datatype handler_outcome =
    Resolves nat jsval
  | Rejects nat tool_error
  | NeverSettles

type_synonym handler = "tool_execution_context \<Rightarrow> handler_outcome"
type_synonym permission_checker = "string option \<Rightarrow> tool_permission \<Rightarrow> bool"

definition allowAllPermissions :: permission_checker where
  "allowAllPermissions userId perm \<longleftrightarrow> True"

record executor =
  xe_registry :: "handler tool_registry"
  xe_permissionChecker :: permission_checker
  xe_defaultTimeoutMs :: int

definition new_executor ::
  "handler tool_registry \<Rightarrow> permission_checker option \<Rightarrow> int option \<Rightarrow> executor" where
  "new_executor registry checker timeout =
     \<lparr>xe_registry = registry, xe_permissionChecker = override allowAllPermissions checker,
      xe_defaultTimeoutMs = override 30000 timeout\<rparr>"

record call_options =
  opt_userId :: "string option"
  opt_requestId :: "string option"
  opt_availablePlugins :: "string set option"
  opt_signal :: "bool option"

text \<open>
  \<open>setTimeout\<close> runs after one millisecond when its delay is below one or above the largest
  signed 32-bit number. A promise that settles at the very time of the timer comes second,
  since the timer was set first.
\<close>

definition timer_delay :: "int \<Rightarrow> int" where
  "timer_delay ms = (if ms < 1 \<or> ms > 2147483647 then 1 else ms)"

definition executeWithTimeout ::
  "tool_definition \<Rightarrow> handler \<Rightarrow> tool_call \<Rightarrow> int \<Rightarrow> bool option \<Rightarrow> tool_error + jsval" where
  "executeWithTimeout d handler call timeoutMs signal =
     (let ctx = \<lparr>tec_call = call, tec_definition = d, tec_userId = None, tec_requestId = None,
                 tec_signal = signal\<rparr>;
          timed_out = Inl (ToolTimeoutError (tc_toolId call) timeoutMs)
      in case handler ctx of
           Resolves t v \<Rightarrow> (if int t < timer_delay timeoutMs then Inr v else timed_out)
         | Rejects t e \<Rightarrow> (if int t < timer_delay timeoutMs then Inl e else timed_out)
         | NeverSettles \<Rightarrow> timed_out)"

subsection \<open>Executing a call\<close>

definition missing_permissions :: "executor \<Rightarrow> tool_definition \<Rightarrow> string option \<Rightarrow> tool_permission list" where
  "missing_permissions x d userId =
     (if length (td_permissions d) = 0 then []
      else filter (\<lambda>perm. \<not> xe_permissionChecker x userId perm) (td_permissions d))"

definition getPluginId :: "executor \<Rightarrow> string \<Rightarrow> string" where
  "getPluginId x toolId =
     (case get_tool (xe_registry x) toolId of
        Inl _ \<Rightarrow> ''unknown'' | Inr e \<Rightarrow> td_pluginId (tre_definition e))"

definition event_of :: "tool_call \<Rightarrow> call_options \<Rightarrow> string \<Rightarrow> instant \<Rightarrow> tool_event_base" where
  "event_of call opts pluginId t =
     \<lparr>teb_toolId = tc_toolId call, teb_pluginId = pluginId, teb_callId = tc_id call,
      teb_timestamp = t, teb_requestId = opt_requestId opts\<rparr>"

definition failed_call :: "tool_call \<Rightarrow> string \<Rightarrow> string option \<Rightarrow> int \<Rightarrow> bool option \<Rightarrow> tool_result" where
  "failed_call call message code durationMs timedOut =
     \<lparr>tr_callId = tc_id call, tr_toolId = tc_toolId call, tr_success = False, tr_data = None,
      tr_error = Some message, tr_errorCode = code, tr_durationMs = durationMs, tr_timedOut = timedOut\<rparr>"

definition execution_code :: "tool_error \<Rightarrow> string" where
  "execution_code e = (case e of ToolTimeoutError _ _ \<Rightarrow> ''TOOL_TIMEOUT'' | _ \<Rightarrow> ''TOOL_EXECUTION_FAILED'')"

definition execute_tool ::
  "executor \<Rightarrow> (nat \<Rightarrow> instant) \<Rightarrow> tool_call \<Rightarrow> call_options \<Rightarrow>
   (tool_error + tool_result) \<times> tool_event list" where
  "execute_tool x clock call opts =
     (let startTime = clock 0;
          availablePlugins = override {} (opt_availablePlugins opts);
          requested = ToolRequested (event_of call opts (getPluginId x (tc_toolId call)) (clock 1)) (tc_arguments call);
          validation = validateToolCall (xe_registry x) call availablePlugins
      in if \<not> valid validation then
           (let e = ToolValidationError (tc_toolId call) (errors validation); d = clock 2 - startTime
            in (Inr (failed_call call (tool_error_message e) (tool_error_code e) d None),
                [requested, ToolFailed (event_of call opts (getPluginId x (tc_toolId call)) (clock 3)) d
                   (tool_error_message e) (tool_error_code e)]))
         else case get_tool (xe_registry x) (tc_toolId call) of
           Inl e \<Rightarrow> (Inl e, [requested])
         | Inr entry \<Rightarrow>
             (let def = tre_definition entry; missing = missing_permissions x def (opt_userId opts)
              in if length missing > 0 then
                   (let e = ToolPermissionError (tc_toolId call) missing; d = clock 2 - startTime
                    in (Inr (failed_call call (tool_error_message e) (tool_error_code e) d None),
                        [requested, ToolFailed (event_of call opts (td_pluginId def) (clock 3)) d
                           (tool_error_message e) (tool_error_code e)]))
                 else
                   (let started = ToolStarted (event_of call opts (td_pluginId def) (clock 2));
                        timeoutMs = override (xe_defaultTimeoutMs x) (td_timeoutMs def);
                        d = clock 3 - startTime
                    in case executeWithTimeout def (tre_handler entry) call timeoutMs (opt_signal opts) of
                         Inr v \<Rightarrow>
                           (Inr \<lparr>tr_callId = tc_id call, tr_toolId = tc_toolId call, tr_success = True,
                             tr_data = Some v, tr_error = None, tr_errorCode = None, tr_durationMs = d,
                             tr_timedOut = None\<rparr>,
                            [requested, started, ToolCompleted (event_of call opts (td_pluginId def) (clock 4)) d True])
                       | Inl e \<Rightarrow>
                           (Inr (failed_call call (tool_error_message e) (Some (execution_code e)) d
                              (Some (execution_code e = ''TOOL_TIMEOUT''))),
                            [requested, started, ToolFailed (event_of call opts (td_pluginId def) (clock 4)) d
                               (tool_error_message e) (Some (execution_code e))]))))"

subsection \<open>Outcomes\<close>

definition handler_context :: "tool_definition \<Rightarrow> tool_call \<Rightarrow> call_options \<Rightarrow> tool_execution_context" where
  "handler_context d call opts = \<lparr>tec_call = call, tec_definition = d, tec_userId = None,
     tec_requestId = None, tec_signal = opt_signal opts\<rparr>"

definition timeout_of :: "executor \<Rightarrow> tool_definition \<Rightarrow> int" where
  "timeout_of x d = override (xe_defaultTimeoutMs x) (td_timeoutMs d)"

definition permitted :: "executor \<Rightarrow> tool_definition \<Rightarrow> string option \<Rightarrow> bool" where
  "permitted x d userId \<longleftrightarrow> (\<forall>perm \<in> set (td_permissions d). xe_permissionChecker x userId perm)"

lemma missing_permissions_Nil: "missing_permissions x d u = [] \<longleftrightarrow> permitted x d u"
  by (auto simp: missing_permissions_def permitted_def filter_empty_conv)

text \<open>The entry a call may run: registered, the call valid for it, its permissions granted.\<close>

definition admitted :: "executor \<Rightarrow> tool_call \<Rightarrow> call_options \<Rightarrow> handler tool_registry_entry option" where
  "admitted x call opts =
     (case get_tool (xe_registry x) (tc_toolId call) of
        Inl _ \<Rightarrow> None
      | Inr e \<Rightarrow>
          (if call_ok (tre_definition e) (tc_arguments call) (override {} (opt_availablePlugins opts)) \<and>
              permitted x (tre_definition e) (opt_userId opts) then Some e else None))"

lemma execute_tool_admitted:
  assumes "admitted x call opts = Some e"
  shows "execute_tool x clock call opts =
    (let def = tre_definition e; d = clock 3 - clock 0;
         requested = ToolRequested (event_of call opts (td_pluginId def) (clock 1)) (tc_arguments call);
         started = ToolStarted (event_of call opts (td_pluginId def) (clock 2))
     in case executeWithTimeout def (tre_handler e) call (timeout_of x def) (opt_signal opts) of
          Inr v \<Rightarrow>
            (Inr \<lparr>tr_callId = tc_id call, tr_toolId = tc_toolId call, tr_success = True, tr_data = Some v,
               tr_error = None, tr_errorCode = None, tr_durationMs = d, tr_timedOut = None\<rparr>,
             [requested, started, ToolCompleted (event_of call opts (td_pluginId def) (clock 4)) d True])
        | Inl err \<Rightarrow>
            (Inr (failed_call call (tool_error_message err) (Some (execution_code err)) d
               (Some (execution_code err = ''TOOL_TIMEOUT''))),
             [requested, started, ToolFailed (event_of call opts (td_pluginId def) (clock 4)) d
                (tool_error_message err) (Some (execution_code err))]))"
proof -
  have e: "get_tool (xe_registry x) (tc_toolId call) = Inr e"
    and ok: "call_ok (tre_definition e) (tc_arguments call) (override {} (opt_availablePlugins opts))"
    and perm: "missing_permissions x (tre_definition e) (opt_userId opts) = []"
    using assms by (auto simp: admitted_def missing_permissions_Nil split: sum.splits if_splits)
  then have "valid (validateToolCall (xe_registry x) call (override {} (opt_availablePlugins opts)))"
    by (simp add: validateToolCall_iff)
  with e perm show ?thesis
    by (simp add: execute_tool_def Let_def getPluginId_def timeout_of_def)
qed

lemma execute_tool_refused:
  assumes "admitted x call opts = None"
  obtains base err d where
    "snd (execute_tool x clock call opts) =
       [ToolRequested (event_of call opts (getPluginId x (tc_toolId call)) (clock 1)) (tc_arguments call),
        ToolFailed base d (tool_error_message err) (tool_error_code err)]"
    "fst (execute_tool x clock call opts) =
       Inr (failed_call call (tool_error_message err) (tool_error_code err) d None)"
    "tool_error_code err = Some
       (if valid (validateToolCall (xe_registry x) call (override {} (opt_availablePlugins opts)))
        then ''TOOL_PERMISSION_DENIED'' else ''TOOL_VALIDATION_FAILED'')"
proof (cases "valid (validateToolCall (xe_registry x) call (override {} (opt_availablePlugins opts)))")
  case False
  then show ?thesis
    by (intro that [of "event_of call opts (getPluginId x (tc_toolId call)) (clock 3)" "clock 2 - clock 0"
          "ToolValidationError (tc_toolId call)
             (errors (validateToolCall (xe_registry x) call (override {} (opt_availablePlugins opts))))"])
      (simp_all add: execute_tool_def Let_def)
next
  case True
  then obtain e where e: "get_tool (xe_registry x) (tc_toolId call) = Inr e"
    "call_ok (tre_definition e) (tc_arguments call) (override {} (opt_availablePlugins opts))"
    by (auto simp: validateToolCall_iff)
  with assms have "missing_permissions x (tre_definition e) (opt_userId opts) \<noteq> []"
    by (auto simp: admitted_def missing_permissions_Nil)
  with e True show ?thesis
    by (intro that [of "event_of call opts (td_pluginId (tre_definition e)) (clock 3)" "clock 2 - clock 0"
          "ToolPermissionError (tc_toolId call) (missing_permissions x (tre_definition e) (opt_userId opts))"])
      (simp_all add: execute_tool_def Let_def getPluginId_def)
qed

lemma executeWithTimeout_Inr:
  "executeWithTimeout d h call ms signal = Inr v \<longleftrightarrow>
     (\<exists>t. h \<lparr>tec_call = call, tec_definition = d, tec_userId = None, tec_requestId = None, tec_signal = signal\<rparr> =
        Resolves t v \<and> int t < timer_delay ms)"
  by (auto simp: executeWithTimeout_def Let_def split: handler_outcome.splits)

text \<open>The value an admitted call gets from its handler in time.\<close>

definition delivered :: "executor \<Rightarrow> tool_call \<Rightarrow> call_options \<Rightarrow> jsval option" where
  "delivered x call opts =
     (case admitted x call opts of
        None \<Rightarrow> None
      | Some e \<Rightarrow>
          (case tre_handler e (handler_context (tre_definition e) call opts) of
             Resolves t v \<Rightarrow> (if int t < timer_delay (timeout_of x (tre_definition e)) then Some v else None)
           | _ \<Rightarrow> None))"

text \<open>
  C11: executing a call never throws. The result is a success, with the value of the handler,
  exactly when the call is admitted and its handler resolves before the timeout; a call that
  is not admitted fails validation or is denied, and the code says which.
\<close>

theorem tool_execution_outcome:
  "\<exists>result. fst (execute_tool x clock call opts) = Inr result \<and>
     tr_callId result = tc_id call \<and>
     tr_data result = delivered x call opts \<and>
     (tr_success result \<longleftrightarrow> delivered x call opts \<noteq> None) \<and>
     (admitted x call opts = None \<longrightarrow> tr_errorCode result = Some
        (if valid (validateToolCall (xe_registry x) call (override {} (opt_availablePlugins opts)))
         then ''TOOL_PERMISSION_DENIED'' else ''TOOL_VALIDATION_FAILED''))"
proof (cases "admitted x call opts")
  case None
  obtain err d where f: "fst (execute_tool x clock call opts) =
      Inr (failed_call call (tool_error_message err) (tool_error_code err) d None)"
    "tool_error_code err = Some
       (if valid (validateToolCall (xe_registry x) call (override {} (opt_availablePlugins opts)))
        then ''TOOL_PERMISSION_DENIED'' else ''TOOL_VALIDATION_FAILED'')"
    by (rule execute_tool_refused [OF None])
  with None show ?thesis by (simp add: failed_call_def delivered_def)
next
  case (Some e)
  show ?thesis
  proof (cases "executeWithTimeout (tre_definition e) (tre_handler e) call
      (timeout_of x (tre_definition e)) (opt_signal opts)")
    case (Inr v)
    then have "fst (execute_tool x clock call opts) = Inr \<lparr>tr_callId = tc_id call, tr_toolId = tc_toolId call,
        tr_success = True, tr_data = Some v, tr_error = None, tr_errorCode = None,
        tr_durationMs = clock 3 - clock 0, tr_timedOut = None\<rparr>"
      by (simp add: execute_tool_admitted [OF Some] Let_def)
    moreover obtain t where "tre_handler e (handler_context (tre_definition e) call opts) = Resolves t v"
      "int t < timer_delay (timeout_of x (tre_definition e))"
      using Inr by (auto simp: executeWithTimeout_Inr handler_context_def)
    ultimately show ?thesis using Some by (simp add: delivered_def)
  next
    case (Inl err)
    then have "fst (execute_tool x clock call opts) = Inr (failed_call call (tool_error_message err)
        (Some (execution_code err)) (clock 3 - clock 0) (Some (execution_code err = ''TOOL_TIMEOUT'')))"
      by (simp add: execute_tool_admitted [OF Some] Let_def)
    moreover have no: "\<not> (tre_handler e (handler_context (tre_definition e) call opts) = Resolves t v \<and>
        int t < timer_delay (timeout_of x (tre_definition e)))" for t v
      using Inl executeWithTimeout_Inr [of "tre_definition e" "tre_handler e" call
        "timeout_of x (tre_definition e)" "opt_signal opts" v]
      by (auto simp: handler_context_def)
    moreover have "delivered x call opts = None"
      using Some no by (auto simp: delivered_def split: handler_outcome.splits)
    ultimately show ?thesis using Some by (simp add: failed_call_def)
  qed
qed

definition with_handlers :: "(handler \<Rightarrow> handler) \<Rightarrow> executor \<Rightarrow> executor" where
  "with_handlers f x =
     x\<lparr>xe_registry := map (\<lambda>(i, e). (i, e\<lparr>tre_handler := f (tre_handler e)\<rparr>)) (xe_registry x)\<rparr>"

lemma get_tool_with_handlers:
  "get_tool (xe_registry (with_handlers f x)) i =
     map_sum id (\<lambda>e. e\<lparr>tre_handler := f (tre_handler e)\<rparr>) (get_tool (xe_registry x) i)"
proof -
  have "jm_get (map (\<lambda>(i, e). (i, e\<lparr>tre_handler := f (tre_handler e)\<rparr>)) store) i =
      map_option (\<lambda>e. e\<lparr>tre_handler := f (tre_handler e)\<rparr>) (jm_get store i)" for store :: "handler tool_registry"
    by (simp add: map_of_map)
  then show ?thesis by (simp add: get_tool_def with_handlers_def split: option.splits)
qed

lemma with_handlers_validation:
  "validateToolCall (xe_registry (with_handlers f x)) call plugins = validateToolCall (xe_registry x) call plugins"
  by (cases "get_tool (xe_registry x) (tc_toolId call)")
    (simp_all add: validateToolCall_def get_tool_with_handlers Let_def)

lemma with_handlers_parts:
  "getPluginId (with_handlers f x) i = getPluginId x i"
  "missing_permissions (with_handlers f x) d u = missing_permissions x d u"
proof -
  show "getPluginId (with_handlers f x) i = getPluginId x i"
    by (cases "get_tool (xe_registry x) i") (simp_all add: getPluginId_def get_tool_with_handlers)
  show "missing_permissions (with_handlers f x) d u = missing_permissions x d u"
    by (simp add: missing_permissions_def with_handlers_def)
qed

text \<open>
  A call that is not admitted does not run any handler: replacing the handlers of the
  registry changes neither the result nor the events.
\<close>

theorem refused_calls_run_no_handler:
  assumes "admitted x call opts = None"
  shows "execute_tool (with_handlers f x) clock call opts = execute_tool x clock call opts"
proof (cases "get_tool (xe_registry x) (tc_toolId call)")
  case (Inl e)
  then show ?thesis
    by (simp add: execute_tool_def Let_def with_handlers_validation with_handlers_parts get_tool_with_handlers)
next
  case (Inr e)
  show ?thesis
  proof (cases "valid (validateToolCall (xe_registry x) call (override {} (opt_availablePlugins opts)))")
    case True
    then have "missing_permissions x (tre_definition e) (opt_userId opts) \<noteq> []"
      using assms Inr by (auto simp: admitted_def validateToolCall_iff missing_permissions_Nil)
    with Inr True show ?thesis
      by (simp add: execute_tool_def Let_def with_handlers_validation with_handlers_parts get_tool_with_handlers)
  next
    case False
    then show ?thesis
      by (simp add: execute_tool_def Let_def with_handlers_validation with_handlers_parts)
  qed
qed

text \<open>
  A caller that passes no options can execute nothing: without a set of available plugins
  every call fails validation, and no tool is started.
\<close>

theorem calls_without_plugins_fail:
  assumes "opt_availablePlugins opts = None"
  shows "\<exists>result requested failed. execute_tool x clock call opts = (Inr result, [requested, failed]) \<and>
    \<not> tr_success result \<and> tr_errorCode result = Some ''TOOL_VALIDATION_FAILED''"
proof -
  have "\<not> valid (validateToolCall (xe_registry x) call {})"
    by (auto simp: validateToolCall_iff call_ok_def)
  with assms show ?thesis by (simp add: execute_tool_def Let_def failed_call_def)
qed

subsection \<open>Witnesses\<close>

definition sample_executor :: "handler_outcome \<Rightarrow> bool \<Rightarrow> executor" where
  "sample_executor out grant = new_executor (sample_registry (\<lambda>_. out) [Write]) (Some (\<lambda>_ _. grant)) None"

definition sample_opts :: "string set option \<Rightarrow> call_options" where
  "sample_opts plugins = \<lparr>opt_userId = None, opt_requestId = None, opt_availablePlugins = plugins, opt_signal = None\<rparr>"

lemma sample_admitted:
  "admitted (sample_executor out grant) (sample_call (JNum 3)) (sample_opts (Some {''files''})) =
     (if grant then Some \<lparr>tre_definition = sample_definition ''t'' [sample_parameter ''x'' PNumber] [Write],
        tre_handler = (\<lambda>_. out)\<rparr> else None)"
proof -
  have e: "get_tool (xe_registry (sample_executor out grant)) (tc_toolId (sample_call (JNum 3))) =
      Inr \<lparr>tre_definition = sample_definition ''t'' [sample_parameter ''x'' PNumber] [Write], tre_handler = (\<lambda>_. out)\<rparr>"
    by (simp add: sample_executor_def new_executor_def get_tool_def sample_registry_def register_def
        sample_definition_def sample_call_def)
  have ok: "call_ok (sample_definition ''t'' [sample_parameter ''x'' PNumber] [Write])
      (tc_arguments (sample_call (JNum 3))) {''files''}"
    by code_simp
  have perm: "permitted (sample_executor out grant) (sample_definition ''t'' [sample_parameter ''x'' PNumber] [Write]) u
      \<longleftrightarrow> grant" for u
    by (simp add: permitted_def sample_executor_def new_executor_def sample_definition_def)
  show ?thesis by (simp add: admitted_def e ok perm sample_opts_def)
qed

theorem tool_execution_outcome_witness:
  "\<exists>result. fst (execute_tool (sample_executor (Resolves 29999 JNull) True) int (sample_call (JNum 3))
     (sample_opts (Some {''files''}))) = Inr result \<and> tr_success result \<and> tr_data result = Some JNull"
proof -
  let ?x = "sample_executor (Resolves 29999 JNull) True"
  have t: "timeout_of ?x (sample_definition ''t'' [sample_parameter ''x'' PNumber] [Write]) = 30000"
    by (simp add: timeout_of_def sample_executor_def new_executor_def sample_definition_def)
  show ?thesis
    using tool_execution_outcome [of ?x int "sample_call (JNum 3)" "sample_opts (Some {''files''})"]
    by (auto simp: sample_admitted t timer_delay_def delivered_def)
qed

theorem refused_calls_run_no_handler_witness:
  "execute_tool (with_handlers (\<lambda>_ _. NeverSettles) (sample_executor (Resolves 1 JNull) False)) int
     (sample_call (JNum 3)) (sample_opts (Some {''files''})) =
   execute_tool (sample_executor (Resolves 1 JNull) False) int (sample_call (JNum 3)) (sample_opts (Some {''files''}))"
  by (rule refused_calls_run_no_handler) (simp add: sample_admitted)

theorem calls_without_plugins_fail_witness:
  "\<exists>result requested failed. execute_tool (sample_executor (Resolves 1 JNull) True) int (sample_call (JNum 3))
       (sample_opts None) = (Inr result, [requested, failed]) \<and> \<not> tr_success result"
proof -
  have "opt_availablePlugins (sample_opts None) = None" by (simp add: sample_opts_def)
  from calls_without_plugins_fail [OF this] show ?thesis by blast
qed

end
