(* ===== verification/HermesRegistry.thy ===== *)
theory HermesRegistry
  imports Prelude
begin

text \<open>
  The module registry of the Hermes kernel (packages/hermes/src/HermesModuleRegistry.ts): the
  ordered list of records, the index by name that is rebuilt when a record is removed, and
  the notifications that are delivered in a later microtask. A module's \<open>healthCheck\<close>
  and \<open>shutdown\<close> are foreign code: they are functions to the outcome of the awaited
  call. A spec without one of them is possible for an untyped plugin, hence the options.
\<close>

datatype module_health = healthy | degraded | failed | unknown

text \<open>What a health check gave: a value of the type, another value, or an exception.\<close>

datatype probe = Answered module_health | Answered_otherwise jsval | Threw string

text \<open>Who wins the race of \<open>shutdown(deadline)\<close> against the deadline timer.\<close>

datatype race = Resolved | Rejected | Timed_out

record module_spec =
  name :: string
  version :: string
  dependencies :: "string list"
  required :: bool
  healthCheck :: "(instant \<Rightarrow> probe) option"
  shutdown :: "(int \<Rightarrow> race) option"

text \<open>An \<open>InternalRecord\<close>; \<open>cloneRecord\<close> exposes the same data.\<close>

record module_record =
  spec :: module_spec
  registeredAt :: instant
  healthStatus :: module_health

datatype notification = Registered module_record | Unregistered string

record module_registry =
  records :: "module_record list"
  indexByName :: "(string, nat) jmap"
  registeredHandlers :: "nat list"
  unregisteredHandlers :: "nat list"
  microtasks :: "notification list"

definition createHermesModuleRegistry :: module_registry where
  "createHermesModuleRegistry = \<lparr>records = [], indexByName = [], registeredHandlers = [],
     unregisteredHandlers = [], microtasks = []\<rparr>"

abbreviation record_name :: "module_record \<Rightarrow> string" where
  "record_name r \<equiv> name (spec r)"

definition name_error :: string where
  "name_error = ''HermesModuleRegistry: module name must be a non-empty string.''"

definition assertName :: "string \<Rightarrow> string option" where
  "assertName n = (if n = [] then Some name_error else None)"

definition assertSpec :: "module_spec \<Rightarrow> string option" where
  "assertSpec s = (case assertName (name s) of
     Some e \<Rightarrow> Some e
   | None \<Rightarrow>
       if healthCheck s = None
       then Some (''HermesModuleRegistry: spec '' @ quoted (name s) @ '' is missing healthCheck.'')
       else if shutdown s = None
       then Some (''HermesModuleRegistry: spec '' @ quoted (name s) @ '' is missing shutdown.'')
       else None)"

definition registerModule :: "instant \<Rightarrow> module_spec \<Rightarrow> module_registry
    \<Rightarrow> (string + unit) \<times> module_registry" where
  "registerModule now s reg = (case assertSpec s of
     Some e \<Rightarrow> (Inl e, reg)
   | None \<Rightarrow>
       if jm_has (indexByName reg) (name s)
       then (Inl (''HermesModuleRegistry: module '' @ quoted (name s)
               @ '' is already registered.''), reg)
       else if name s \<in> set (dependencies s)
       then (Inl (''HermesModuleRegistry: module '' @ quoted (name s)
               @ '' cannot depend on itself.''), reg)
       else let missing = filter (\<lambda>dep. \<not> jm_has (indexByName reg) dep) (dependencies s) in
         if missing \<noteq> []
         then (Inl (''HermesModuleRegistry: module '' @ quoted (name s)
                 @ '' has unresolved dependencies: '' @ join '', '' missing), reg)
         else let r = \<lparr>spec = s, registeredAt = now, healthStatus = unknown\<rparr> in
           (Inr (), reg\<lparr>indexByName := jm_set (name s) (length (records reg)) (indexByName reg),
                        records := records reg @ [r],
                        microtasks := microtasks reg @ [Registered r]\<rparr>))"

definition splice1 :: "nat \<Rightarrow> 'a list \<Rightarrow> 'a list" where
  "splice1 i xs = take i xs @ drop (Suc i) xs"

text \<open>The loop that renumbers the records from position \<open>i\<close> on.\<close>

definition reindex :: "nat \<Rightarrow> module_record list \<Rightarrow> (string, nat) jmap \<Rightarrow> (string, nat) jmap" where
  "reindex i rs m = fold (\<lambda>j. jm_set (record_name (rs ! j)) j) [i..<length rs] m"

definition mark_dependents :: "string \<Rightarrow> module_record list \<Rightarrow> module_record list" where
  "mark_dependents n rs =
     map (\<lambda>r. if n \<in> set (dependencies (spec r)) then r\<lparr>healthStatus := degraded\<rparr> else r) rs"

definition unregisterModule :: "string \<Rightarrow> module_registry
    \<Rightarrow> (string + unit) \<times> module_registry" where
  "unregisterModule n reg = (case assertName n of
     Some e \<Rightarrow> (Inl e, reg)
   | None \<Rightarrow> (case jm_get (indexByName reg) n of
       None \<Rightarrow> (Inl (''HermesModuleRegistry: module '' @ quoted n @ '' is not registered.''), reg)
     | Some idx \<Rightarrow>
         let rs = splice1 idx (records reg) in
         (Inr (), reg\<lparr>indexByName := reindex idx rs (jm_delete n (indexByName reg)),
                      records := mark_dependents n rs,
                      microtasks := microtasks reg @ [Unregistered n]\<rparr>)))"

definition hasModule :: "string \<Rightarrow> module_registry \<Rightarrow> string + bool" where
  "hasModule n reg = (case assertName n of
     Some e \<Rightarrow> Inl e
   | None \<Rightarrow> Inr (jm_has (indexByName reg) n))"

text \<open>\<open>getModule\<close> and its alias \<open>get\<close>.\<close>

definition getModule :: "string \<Rightarrow> module_registry \<Rightarrow> string + module_record option" where
  "getModule n reg = (case assertName n of
     Some e \<Rightarrow> Inl e
   | None \<Rightarrow> Inr (case jm_get (indexByName reg) n of
       None \<Rightarrow> None
     | Some idx \<Rightarrow> if idx < length (records reg) then Some (records reg ! idx) else None))"

text \<open>\<open>getModules\<close> and its alias \<open>list\<close>.\<close>

definition getModules :: "module_registry \<Rightarrow> module_record list" where
  "getModules reg = records reg"

definition moduleCount :: "module_registry \<Rightarrow> nat" where
  "moduleCount reg = length (records reg)"

definition clear :: "module_registry \<Rightarrow> module_registry" where
  "clear reg = reg\<lparr>records := [], indexByName := []\<rparr>"

text \<open>Handlers are known by an identity; the disposer removes the first occurrence.\<close>

definition onModuleRegistered :: "nat \<Rightarrow> module_registry \<Rightarrow> module_registry" where
  "onModuleRegistered h reg = reg\<lparr>registeredHandlers := registeredHandlers reg @ [h]\<rparr>"

definition onModuleUnregistered :: "nat \<Rightarrow> module_registry \<Rightarrow> module_registry" where
  "onModuleUnregistered h reg = reg\<lparr>unregisteredHandlers := unregisteredHandlers reg @ [h]\<rparr>"

definition dispose_registered :: "nat \<Rightarrow> module_registry \<Rightarrow> module_registry" where
  "dispose_registered h reg = reg\<lparr>registeredHandlers := remove1 h (registeredHandlers reg)\<rparr>"

definition dispose_unregistered :: "nat \<Rightarrow> module_registry \<Rightarrow> module_registry" where
  "dispose_unregistered h reg = reg\<lparr>unregisteredHandlers := remove1 h (unregisteredHandlers reg)\<rparr>"

text \<open>The next microtask: the calls \<open>fireRegistered\<close> or \<open>fireUnregistered\<close> makes.\<close>

definition run_microtask :: "module_registry
    \<Rightarrow> (nat \<times> notification) list \<times> module_registry" where
  "run_microtask reg = (case microtasks reg of
     [] \<Rightarrow> ([], reg)
   | task # rest \<Rightarrow>
       (map (\<lambda>h. (h, task)) (case task of Registered _ \<Rightarrow> registeredHandlers reg
                                        | Unregistered _ \<Rightarrow> unregisteredHandlers reg),
        reg\<lparr>microtasks := rest\<rparr>))"

subsection \<open>The invariant\<close>

text \<open>The names are distinct and not empty, and the index is the position of each name.\<close>

definition names_of :: "module_registry \<Rightarrow> string list" where
  "names_of reg = map record_name (records reg)"

definition index_ok :: "(string, nat) jmap \<Rightarrow> string list \<Rightarrow> bool" where
  "index_ok m ns \<longleftrightarrow> wf_jmap m \<and> distinct ns \<and> [] \<notin> set ns \<and>
     (\<forall>n i. jm_get m n = Some i \<longleftrightarrow> i < length ns \<and> ns ! i = n)"

text \<open>A record that is not marked degraded has its dependencies at earlier positions.\<close>

definition deps_ok :: "module_record list \<Rightarrow> bool" where
  "deps_ok rs \<longleftrightarrow> (\<forall>i < length rs. healthStatus (rs ! i) \<noteq> degraded \<longrightarrow>
     set (dependencies (spec (rs ! i))) \<subseteq> set (map record_name (take i rs)))"

definition registry_inv :: "module_registry \<Rightarrow> bool" where
  "registry_inv reg \<longleftrightarrow> index_ok (indexByName reg) (names_of reg) \<and> deps_ok (records reg)"

lemma index_ok_has: "index_ok m ns \<Longrightarrow> jm_has m n \<longleftrightarrow> n \<in> set ns"
  by (fastforce simp: index_ok_def jm_has_def in_set_conv_nth)

lemma index_ok_snoc:
  "index_ok m ns \<Longrightarrow> n \<notin> set ns \<Longrightarrow> n \<noteq> [] \<Longrightarrow> index_ok (jm_set n (length ns) m) (ns @ [n])"
  unfolding index_ok_def jm_get_set by (auto simp: nth_append less_Suc_eq split: if_splits)

lemma splice1_length: "i < length xs \<Longrightarrow> length (splice1 i xs) = length xs - 1"
  by (simp add: splice1_def)

lemma splice1_nth: "i < length xs \<Longrightarrow> j < length xs - 1 \<Longrightarrow>
    splice1 i xs ! j = (if j < i then xs ! j else xs ! Suc j)"
  by (auto simp: splice1_def nth_append)

lemma splice1_map: "map f (splice1 i xs) = splice1 i (map f xs)"
  by (simp add: splice1_def take_map drop_map)

lemma splice1_distinct:
  assumes "distinct xs" and "i < length xs"
  shows "distinct (splice1 i xs)" and "set (splice1 i xs) = set xs - {xs ! i}"
proof -
  from assms(2) have "xs = take i xs @ xs ! i # drop (Suc i) xs" by (rule id_take_nth_drop)
  with assms(1) have d: "distinct (take i xs @ xs ! i # drop (Suc i) xs)" by simp
  then show "distinct (splice1 i xs)" by (simp add: splice1_def)
  from d have "xs ! i \<notin> set (take i xs @ drop (Suc i) xs)" by auto
  moreover have "set xs = insert (xs ! i) (set (take i xs @ drop (Suc i) xs))"
    using \<open>xs = take i xs @ xs ! i # drop (Suc i) xs\<close>
    by (metis Un_insert_right list.simps(15) set_append)
  ultimately show "set (splice1 i xs) = set xs - {xs ! i}" by (auto simp: splice1_def)
qed

text \<open>What renumbering does to a lookup.\<close>

lemma reindex_wf: "wf_jmap m \<Longrightarrow> wf_jmap (reindex i rs m)"
proof -
  have "wf_jmap m \<Longrightarrow> wf_jmap (fold (\<lambda>j. jm_set (record_name (rs ! j)) j) js m)" for js
    by (induction js arbitrary: m) simp_all
  then show "wf_jmap m \<Longrightarrow> wf_jmap (reindex i rs m)" by (simp add: reindex_def)
qed

lemma reindex_get:
  assumes "distinct (map record_name rs)"
  shows "jm_get (reindex i rs m) n =
    (if \<exists>j. i \<le> j \<and> j < length rs \<and> record_name (rs ! j) = n
     then Some (THE j. j < length rs \<and> record_name (rs ! j) = n) else jm_get m n)"
proof -
  let ?P = "\<lambda>k j. i \<le> j \<and> j < k \<and> record_name (rs ! j) = n"
  have "k \<le> length rs \<Longrightarrow>
      jm_get (fold (\<lambda>j. jm_set (record_name (rs ! j)) j) [i..<k] m) n =
      (if \<exists>j. ?P k j then Some (THE j. j < length rs \<and> record_name (rs ! j) = n)
       else jm_get m n)" for k
  proof (induction k)
    case 0
    then show ?case by simp
  next
    case (Suc k)
    have the: "(THE j. j < length rs \<and> record_name (rs ! j) = record_name (rs ! k)) = k"
    proof (rule the_equality)
      show "j = k" if "j < length rs \<and> record_name (rs ! j) = record_name (rs ! k)" for j
        using that Suc.prems assms nth_eq_iff_index_eq [of "map record_name rs" j k] by simp
    qed (use Suc.prems in simp)
    show ?case
    proof (cases "i \<le> k")
      case True
      then have ivl: "[i..<Suc k] = [i..<k] @ [k]" by simp
      show ?thesis
      proof (cases "n = record_name (rs ! k)")
        case True
        with \<open>i \<le> k\<close> have "?P (Suc k) k" by simp
        then have "\<exists>j. ?P (Suc k) j" by blast
        with True the show ?thesis unfolding ivl by (simp add: jm_get_set)
      next
        case False
        then have "(\<exists>j. ?P (Suc k) j) \<longleftrightarrow> (\<exists>j. ?P k j)" by (auto simp: less_Suc_eq)
        with False Suc show ?thesis unfolding ivl by (simp add: jm_get_set)
      qed
    next
      case False
      then show ?thesis by auto
    qed
  qed
  from this [of "length rs"] show ?thesis by (simp add: reindex_def)
qed

end
