(* ===== verification/HermesRegistryFacts.thy ===== *)
theory HermesRegistryFacts
  imports HermesRegistry
begin

text \<open>
  The registry keeps its index and its dependency order under every operation. The order is
  what makes the reverse drain of the kernel shut a module down before the modules it needs.
\<close>

subsection \<open>Removing a record\<close>

lemma index_ok_unregister:
  assumes "index_ok m (map record_name rs)" and "jm_get m n = Some i"
  shows "index_ok (reindex i (splice1 i rs) (jm_delete n m)) (map record_name (splice1 i rs))"
proof -
  let ?ns = "map record_name rs" and ?rs = "splice1 i rs"
  from assms have w: "wf_jmap m" and d: "distinct ?ns" and e: "[] \<notin> set ?ns"
    and g: "\<And>k j. jm_get m k = Some j \<longleftrightarrow> j < length rs \<and> record_name (rs ! j) = k"
    by (auto simp: index_ok_def)
  from g assms(2) have i: "i < length rs" and n: "record_name (rs ! i) = n" by blast+
  from i splice1_distinct [OF d, of i] have d': "distinct (map record_name ?rs)"
    and s': "set (map record_name ?rs) = set ?ns - {n}" by (simp_all add: splice1_map n)
  have "jm_get (reindex i ?rs (jm_delete n m)) k = Some j \<longleftrightarrow>
      j < length ?rs \<and> record_name (?rs ! j) = k" for k j
  proof (cases "\<exists>j'. i \<le> j' \<and> j' < length ?rs \<and> record_name (?rs ! j') = k")
    case True
    then obtain j' where j': "j' < length ?rs" "record_name (?rs ! j') = k" by blast
    then have u: "l < length ?rs \<and> record_name (?rs ! l) = k \<longleftrightarrow> l = j'" for l
      using d' nth_eq_iff_index_eq [of "map record_name ?rs" l j'] by auto
    then have "(THE l. l < length ?rs \<and> record_name (?rs ! l) = k) = j'" by simp
    with True u show ?thesis by (auto simp: reindex_get [OF d'])
  next
    case False
    then have *: "jm_get (reindex i ?rs (jm_delete n m)) k =
        (if k = n then None else jm_get m k)"
      by (simp only: reindex_get [OF d'] jm_get_delete if_False)
    show ?thesis
    proof
      assume "jm_get (reindex i ?rs (jm_delete n m)) k = Some j"
      then have "k \<noteq> n" and j: "j < length rs" "record_name (rs ! j) = k"
        using g by (auto simp: * split: if_splits)
      have "j < i"
      proof (rule ccontr)
        assume "\<not> j < i"
        with n \<open>k \<noteq> n\<close> j have "i < j" by (cases "i = j") auto
        with j i have "i \<le> j - 1 \<and> j - 1 < length ?rs \<and> record_name (?rs ! (j - 1)) = k"
          by (auto simp: splice1_nth splice1_length)
        with False show False by blast
      qed
      with i j show "j < length ?rs \<and> record_name (?rs ! j) = k"
        by (simp add: splice1_nth splice1_length)
    next
      assume j: "j < length ?rs \<and> record_name (?rs ! j) = k"
      with False have "j < i" by (metis not_le)
      with j i have "record_name (rs ! j) = k" and "j < length rs"
        by (auto simp: splice1_nth splice1_length)
      moreover from j s' have "k \<noteq> n" by (metis (no_types, lifting) Diff_iff insertI1 length_map nth_map nth_mem)
      ultimately show "jm_get (reindex i ?rs (jm_delete n m)) k = Some j"
        using g by (simp add: *)
    qed
  qed
  with w d' e s' show ?thesis by (auto simp: index_ok_def reindex_wf)
qed

lemma take_splice1: "take j (splice1 i xs) = (if j \<le> i then take j xs else splice1 i (take (Suc j) xs))"
  by (auto simp: splice1_def min_def drop_take)

lemma record_name_mark [simp]: "map record_name (mark_dependents n rs) = map record_name rs"
  by (simp add: mark_dependents_def)

lemma deps_ok_unregister:
  assumes ok: "deps_ok rs" and d: "distinct (map record_name rs)" and i: "i < length rs"
    and n: "record_name (rs ! i) = n"
  shows "deps_ok (mark_dependents n (splice1 i rs))"
  unfolding deps_ok_def
proof (intro allI impI)
  let ?rs = "splice1 i rs"
  fix j
  assume "j < length (mark_dependents n ?rs)"
    and nd: "healthStatus (mark_dependents n ?rs ! j) \<noteq> degraded"
  then have j: "j < length rs - 1" using i by (simp add: mark_dependents_def splice1_length)
  then have jr: "j < length ?rs" using i by (simp add: splice1_length)
  define k where "k = (if j < i then j else Suc j)"
  from i j have k: "k < length rs" "?rs ! j = rs ! k" by (auto simp: k_def splice1_nth)
  with nd jr have nn: "n \<notin> set (dependencies (spec (rs ! k)))"
    and same: "mark_dependents n ?rs ! j = rs ! k"
    by (auto simp: mark_dependents_def split: if_splits)
  from ok k nd same
  have sub: "set (dependencies (spec (rs ! k))) \<subseteq> set (map record_name (take k rs))"
    by (simp add: deps_ok_def)
  have "set (map record_name (take k rs)) - {n} \<subseteq> set (map record_name (take j ?rs))"
  proof (cases "j \<le> i")
    case True
    have "set (map record_name (take k rs)) \<subseteq> insert n (set (map record_name (take j rs)))"
    proof (cases "j = i")
      case True
      with i n show ?thesis by (auto simp: k_def take_Suc_conv_app_nth)
    next
      case False
      with \<open>j \<le> i\<close> show ?thesis by (auto simp: k_def)
    qed
    with True show ?thesis by (auto simp: take_splice1)
  next
    case False
    then have "i < length (map record_name (take (Suc j) rs))" using i by simp
    moreover from d have "distinct (map record_name (take (Suc j) rs))"
      by (metis distinct_take take_map)
    ultimately have "set (splice1 i (map record_name (take (Suc j) rs))) =
        set (map record_name (take (Suc j) rs)) - {n}"
      using splice1_distinct (2) [of "map record_name (take (Suc j) rs)" i] False i n by simp
    with False show ?thesis by (simp add: take_splice1 splice1_map k_def)
  qed
  with sub nn have "set (dependencies (spec (rs ! k))) \<subseteq> set (map record_name (take j ?rs))"
    by blast
  then show "set (dependencies (spec (mark_dependents n ?rs ! j))) \<subseteq>
      set (map record_name (take j (mark_dependents n ?rs)))"
    unfolding same take_map [symmetric] record_name_mark .
qed

subsection \<open>The operations\<close>

lemma registry_inv_create: "registry_inv createHermesModuleRegistry"
  by (simp add: registry_inv_def createHermesModuleRegistry_def index_ok_def names_of_def deps_ok_def)

lemma registry_inv_clear: "registry_inv (clear reg)"
  by (simp add: registry_inv_def clear_def index_ok_def names_of_def deps_ok_def)

lemma registerModule_ok_iff:
  assumes "registry_inv reg"
  shows "fst (registerModule now s reg) = Inr () \<longleftrightarrow>
    name s \<noteq> [] \<and> healthCheck s \<noteq> None \<and> shutdown s \<noteq> None \<and> name s \<notin> set (names_of reg) \<and>
    set (dependencies s) \<subseteq> set (names_of reg)"
  using assms index_ok_has [of "indexByName reg" "names_of reg"]
  by (auto simp: registry_inv_def registerModule_def assertSpec_def assertName_def Let_def
      filter_empty_conv)

lemma registerModule_error: "fst (registerModule now s reg) = Inl e \<Longrightarrow> snd (registerModule now s reg) = reg"
  by (auto simp: registerModule_def Let_def split: option.splits if_splits)

lemma registerModule_appends:
  "fst (registerModule now s reg) = Inr () \<Longrightarrow>
   (let r = \<lparr>spec = s, registeredAt = now, healthStatus = unknown\<rparr> in
    snd (registerModule now s reg) =
     reg\<lparr>indexByName := jm_set (name s) (length (records reg)) (indexByName reg),
         records := records reg @ [r], microtasks := microtasks reg @ [Registered r]\<rparr>)"
  by (auto simp: registerModule_def Let_def split: option.splits if_splits)

lemma registry_inv_register:
  assumes "registry_inv reg"
  shows "registry_inv (snd (registerModule now s reg))"
proof (cases "fst (registerModule now s reg)")
  case (Inl e)
  with registerModule_error assms show ?thesis by metis
next
  case (Inr u)
  then have ok: "fst (registerModule now s reg) = Inr ()" by simp
  with registerModule_ok_iff [OF assms] have s: "name s \<noteq> []" "name s \<notin> set (names_of reg)"
    "set (dependencies s) \<subseteq> set (names_of reg)" by blast+
  from assms s have "index_ok (jm_set (name s) (length (names_of reg)) (indexByName reg))
      (names_of reg @ [name s])" by (intro index_ok_snoc) (simp_all add: registry_inv_def)
  moreover from assms s have "deps_ok (records reg @ [\<lparr>spec = s, registeredAt = now, healthStatus = unknown\<rparr>])"
    by (auto simp: registry_inv_def deps_ok_def nth_append names_of_def less_Suc_eq)
  ultimately show ?thesis
    using registerModule_appends [OF ok] by (simp add: registry_inv_def names_of_def Let_def)
qed

lemma registry_inv_unregister:
  assumes "registry_inv reg"
  shows "registry_inv (snd (unregisterModule n reg))"
proof (cases "n = [] \<or> jm_get (indexByName reg) n = None")
  case True
  with assms show ?thesis by (auto simp: unregisterModule_def assertName_def)
next
  case False
  then obtain i where i: "jm_get (indexByName reg) n = Some i" and "n \<noteq> []" by auto
  from assms have ix: "index_ok (indexByName reg) (map record_name (records reg))"
    and dp: "deps_ok (records reg)" by (simp_all add: registry_inv_def names_of_def)
  with i have b: "i < length (records reg)" "record_name (records reg ! i) = n"
    by (auto simp: index_ok_def)
  from ix have "distinct (map record_name (records reg))" by (simp add: index_ok_def)
  with index_ok_unregister [OF ix i] deps_ok_unregister [OF dp _ b] i \<open>n \<noteq> []\<close>
  show ?thesis by (simp add: unregisterModule_def assertName_def registry_inv_def names_of_def Let_def)
qed

lemma unregisterModule_names:
  assumes "registry_inv reg" and "fst (unregisterModule n reg) = Inr ()"
  shows "n \<in> set (names_of reg) \<and>
    names_of (snd (unregisterModule n reg)) = remove1 n (names_of reg)"
proof -
  from assms(2) obtain i where i: "jm_get (indexByName reg) n = Some i" and "n \<noteq> []"
    by (auto simp: unregisterModule_def assertName_def split: if_splits option.splits)
  from assms(1) i have d: "distinct (names_of reg)" and b: "i < length (names_of reg)"
    and n: "names_of reg ! i = n" by (auto simp: registry_inv_def index_ok_def)
  have "splice1 i (names_of reg) = remove1 n (names_of reg)"
  proof -
    have split: "names_of reg = take i (names_of reg) @ n # drop (Suc i) (names_of reg)"
      using id_take_nth_drop [OF b] n by simp
    with d have "n \<notin> set (take i (names_of reg))"
      by (metis distinct_append disjoint_iff list.set_intros(1))
    then have "remove1 n (take i (names_of reg) @ n # drop (Suc i) (names_of reg)) =
        take i (names_of reg) @ drop (Suc i) (names_of reg)" by (simp add: remove1_append)
    with split show ?thesis by (simp add: splice1_def)
  qed
  with i \<open>n \<noteq> []\<close> b n show ?thesis
    by (auto simp: unregisterModule_def assertName_def names_of_def Let_def splice1_map
        simp del: map_map)
qed

subsection \<open>Histories of a registry\<close>

inductive registry_step :: "module_registry \<Rightarrow> module_registry \<Rightarrow> bool" where
  registers: "registry_step reg (snd (registerModule now s reg))"
| unregisters: "registry_step reg (snd (unregisterModule n reg))"
| clears: "registry_step reg (clear reg)"
| notifies: "registry_step reg (snd (run_microtask reg))"
| observes: "registry_step reg (onModuleRegistered h reg)"
| observes_removal: "registry_step reg (onModuleUnregistered h reg)"
| disposes: "registry_step reg (dispose_registered h reg)"
| disposes_removal: "registry_step reg (dispose_unregistered h reg)"

abbreviation registry_steps :: "module_registry \<Rightarrow> module_registry \<Rightarrow> bool" where
  "registry_steps \<equiv> registry_step\<^sup>*\<^sup>*"

lemma run_microtask_fields [simp]:
  "records (snd (run_microtask reg)) = records reg"
  "indexByName (snd (run_microtask reg)) = indexByName reg"
  by (simp_all add: run_microtask_def split: list.split)

lemma registry_inv_step: "registry_step reg reg' \<Longrightarrow> registry_inv reg \<Longrightarrow> registry_inv reg'"
  by (induction rule: registry_step.induct)
    (simp_all add: registry_inv_register registry_inv_unregister registry_inv_clear,
     simp_all add: registry_inv_def names_of_def onModuleRegistered_def onModuleUnregistered_def
       dispose_registered_def dispose_unregistered_def)

lemma registry_inv_steps: "registry_steps reg reg' \<Longrightarrow> registry_inv reg \<Longrightarrow> registry_inv reg'"
  by (induction rule: rtranclp_induct) (auto intro: registry_inv_step)

lemma registry_inv_reachable: "registry_steps createHermesModuleRegistry reg \<Longrightarrow> registry_inv reg"
  using registry_inv_steps registry_inv_create by blast

lemma getModule_correct:
  assumes "registry_inv reg" and "n \<noteq> []"
  shows "getModule n reg = Inr (find (\<lambda>r. record_name r = n) (records reg))"
proof (cases "jm_get (indexByName reg) n")
  case None
  with assms have "n \<notin> set (names_of reg)"
    using index_ok_has [of "indexByName reg" "names_of reg" n]
    by (auto simp: registry_inv_def jm_has_def)
  then have "find (\<lambda>r. record_name r = n) (records reg) = None"
    by (auto simp: names_of_def find_None_iff)
  with None assms show ?thesis by (simp add: getModule_def assertName_def)
next
  case (Some i)
  with assms have i: "i < length (records reg)" "record_name (records reg ! i) = n"
    and d: "distinct (map record_name (records reg))"
    by (auto simp: registry_inv_def index_ok_def names_of_def)
  from d i have "\<forall>j < i. record_name (records reg ! j) \<noteq> n"
    using nth_eq_iff_index_eq [of "map record_name (records reg)"] by auto
  with i have "find (\<lambda>r. record_name r = n) (records reg) = Some (records reg ! i)"
    by (auto simp: find_Some_iff)
  with Some i assms show ?thesis by (simp add: getModule_def assertName_def)
qed

subsection \<open>Properties\<close>

text \<open>C16: In every history of a registry, a module that is not marked degraded was preceded in
  the list by all of its dependencies, which are still registered; the names are distinct,
  and looking a name up through the index finds the record a search of the list finds.\<close>

theorem registry_keeps_dependency_order:
  assumes "registry_steps createHermesModuleRegistry reg"
  shows "distinct (names_of reg) \<and>
    (\<forall>i < moduleCount reg. healthStatus (getModules reg ! i) \<noteq> degraded \<longrightarrow>
       set (dependencies (spec (getModules reg ! i))) \<subseteq> set (take i (names_of reg))) \<and>
    (\<forall>n. n \<noteq> [] \<longrightarrow> getModule n reg = Inr (find (\<lambda>r. record_name r = n) (getModules reg)))"
  using registry_inv_reachable [OF assms]
  by (auto simp: getModule_correct getModules_def moduleCount_def registry_inv_def index_ok_def
      deps_ok_def names_of_def take_map)

definition core_spec :: module_spec where
  "core_spec = \<lparr>name = ''core'', version = ''1.0.0'', dependencies = [], required = True,
     healthCheck = Some (\<lambda>_. Answered healthy), shutdown = Some (\<lambda>_. Resolved)\<rparr>"

definition memory_spec :: module_spec where
  "memory_spec = core_spec\<lparr>name := ''memory'', dependencies := [''core''], required := False\<rparr>"

definition sample_registry :: module_registry where
  "sample_registry = snd (unregisterModule ''core'' (snd (registerModule 6 memory_spec
     (snd (registerModule 5 core_spec createHermesModuleRegistry)))))"

lemmas registry_eval = sample_registry_def registerModule_def unregisterModule_def
  assertSpec_def assertName_def core_spec_def memory_spec_def createHermesModuleRegistry_def
  Let_def jm_has_def splice1_def reindex_def mark_dependents_def

lemma sample_registry_reachable: "registry_steps createHermesModuleRegistry sample_registry"
  unfolding sample_registry_def
  by (meson registers unregisters rtranclp.rtrancl_into_rtrancl rtranclp.rtrancl_refl)

lemma registry_keeps_dependency_order_witness:
  "names_of sample_registry = [''memory''] \<and>
   map healthStatus (getModules sample_registry) = [degraded] \<and>
   getModule ''memory'' sample_registry = Inr (Some (hd (getModules sample_registry))) \<and>
   getModule ''core'' sample_registry = Inr None"
proof -
  note * = registry_keeps_dependency_order [OF sample_registry_reachable]
  have r: "getModules sample_registry = [\<lparr>spec = memory_spec, registeredAt = 6,
      healthStatus = degraded\<rparr>]"
    by (simp add: getModules_def registry_eval)
  from * have "getModule ''memory'' sample_registry =
      Inr (find (\<lambda>r. record_name r = ''memory'') (getModules sample_registry))"
    and "getModule ''core'' sample_registry =
      Inr (find (\<lambda>r. record_name r = ''core'') (getModules sample_registry))" by simp_all
  with r show ?thesis by (simp add: memory_spec_def names_of_def getModules_def)
qed

text \<open>A registration is accepted exactly for a complete spec with a fresh, non-empty name
  whose dependencies are all registered; a refused one leaves the registry as it was. An
  accepted removal takes exactly that name out and keeps the order of the rest.\<close>

theorem registry_mutators_exact:
  assumes "registry_steps createHermesModuleRegistry reg"
  shows "(fst (registerModule now s reg) = Inr () \<longleftrightarrow>
      name s \<noteq> [] \<and> healthCheck s \<noteq> None \<and> shutdown s \<noteq> None \<and>
      name s \<notin> set (names_of reg) \<and> set (dependencies s) \<subseteq> set (names_of reg)) \<and>
    names_of (snd (registerModule now s reg)) =
      (if fst (registerModule now s reg) = Inr () then names_of reg @ [name s] else names_of reg) \<and>
    (fst (unregisterModule n reg) = Inr () \<longleftrightarrow> n \<in> set (names_of reg)) \<and>
    names_of (snd (unregisterModule n reg)) = remove1 n (names_of reg)"
proof (intro conjI)
  note inv = registry_inv_reachable [OF assms]
  show "fst (registerModule now s reg) = Inr () \<longleftrightarrow>
      name s \<noteq> [] \<and> healthCheck s \<noteq> None \<and> shutdown s \<noteq> None \<and>
      name s \<notin> set (names_of reg) \<and> set (dependencies s) \<subseteq> set (names_of reg)"
    by (rule registerModule_ok_iff [OF inv])
  show "names_of (snd (registerModule now s reg)) =
      (if fst (registerModule now s reg) = Inr () then names_of reg @ [name s] else names_of reg)"
    using registerModule_error [of now s reg] registerModule_appends [of now s reg]
    by (cases "fst (registerModule now s reg)") (auto simp: names_of_def Let_def)
  from inv have h: "jm_has (indexByName reg) n \<longleftrightarrow> n \<in> set (names_of reg)" and "[] \<notin> set (names_of reg)"
    by (auto simp: registry_inv_def index_ok_has) (auto simp: index_ok_def)
  then show iff: "fst (unregisterModule n reg) = Inr () \<longleftrightarrow> n \<in> set (names_of reg)"
    by (auto simp: unregisterModule_def assertName_def jm_has_def Let_def split: option.splits)
  show "names_of (snd (unregisterModule n reg)) = remove1 n (names_of reg)"
  proof (cases "n \<in> set (names_of reg)")
    case True
    with iff unregisterModule_names [OF inv, of n] show ?thesis by blast
  next
    case False
    with h show ?thesis
      by (auto simp: unregisterModule_def assertName_def jm_has_def remove1_idem)
  qed
qed

lemma registry_mutators_exact_witness:
  "fst (registerModule 7 memory_spec sample_registry) \<noteq> Inr () \<and>
   fst (unregisterModule ''memory'' sample_registry) = Inr ()"
  using registry_mutators_exact [OF sample_registry_reachable, of 7 memory_spec "''memory''"]
  by (simp add: names_of_def registry_eval)

end
