(* ===== verification/HermesLifecycle.thy ===== *)
theory HermesLifecycle
  imports Prelude
begin

text \<open>
  The lifecycle manager of the Hermes kernel (packages/hermes/src/HermesLifecycle.ts): the
  phases, the table of legal transitions, and \<open>createHermesLifecycle\<close> with its
  re-entrancy queue. A transition handler is modelled by the transitions it requests of the
  lifecycle while it runs; whatever else it does, or throws, is swallowed by \<open>fire\<close>.
  The field \<open>fired\<close> records the pairs the handlers were called with; the source keeps no
  such log, it is what an observer registered first would see.
\<close>

datatype phase = INITIALIZING | STARTING | RUNNING | STOPPING | STOPPED | FAILED

definition PHASES :: "phase list" where
  "PHASES = [INITIALIZING, STARTING, RUNNING, STOPPING, STOPPED, FAILED]"

fun phase_str :: "phase \<Rightarrow> string" where
  "phase_str INITIALIZING = ''INITIALIZING''"
| "phase_str STARTING = ''STARTING''"
| "phase_str RUNNING = ''RUNNING''"
| "phase_str STOPPING = ''STOPPING''"
| "phase_str STOPPED = ''STOPPED''"
| "phase_str FAILED = ''FAILED''"

definition isHermesLifecyclePhase :: "string \<Rightarrow> bool" where
  "isHermesLifecyclePhase value' \<longleftrightarrow> value' \<in> set (map phase_str PHASES)"

fun TERMINAL_PHASES :: "phase \<Rightarrow> bool" where
  "TERMINAL_PHASES STOPPED = True"
| "TERMINAL_PHASES FAILED = True"
| "TERMINAL_PHASES _ = False"

fun LEGAL_TRANSITIONS :: "phase \<Rightarrow> phase list" where
  "LEGAL_TRANSITIONS INITIALIZING = [STARTING, FAILED]"
| "LEGAL_TRANSITIONS STARTING = [RUNNING, FAILED]"
| "LEGAL_TRANSITIONS RUNNING = [STOPPING, FAILED]"
| "LEGAL_TRANSITIONS STOPPING = [STOPPED, FAILED]"
| "LEGAL_TRANSITIONS STOPPED = []"
| "LEGAL_TRANSITIONS FAILED = []"

text \<open>How many transitions are still possible from a phase.\<close>

fun phase_rank :: "phase \<Rightarrow> nat" where
  "phase_rank INITIALIZING = 4"
| "phase_rank STARTING = 3"
| "phase_rank RUNNING = 2"
| "phase_rank STOPPING = 1"
| "phase_rank STOPPED = 0"
| "phase_rank FAILED = 0"

interpretation phases: ranked_table LEGAL_TRANSITIONS TERMINAL_PHASES phase_rank
proof
  show "TERMINAL_PHASES s \<longleftrightarrow> LEGAL_TRANSITIONS s = []" for s by (cases s) simp_all
  show "phase_rank t < phase_rank s" if "t \<in> set (LEGAL_TRANSITIONS s)" for s t
    using that by (cases s) auto
qed

text \<open>The order of the phases: an earlier phase has the higher rank.\<close>

instantiation phase :: linorder
begin

definition phase_index :: "phase \<Rightarrow> nat" where
  "phase_index p = (case p of INITIALIZING \<Rightarrow> 0 | STARTING \<Rightarrow> 1 | RUNNING \<Rightarrow> 2
     | STOPPING \<Rightarrow> 3 | STOPPED \<Rightarrow> 4 | FAILED \<Rightarrow> 5)"

definition less_eq_phase :: "phase \<Rightarrow> phase \<Rightarrow> bool" where
  "less_eq_phase p q \<longleftrightarrow> phase_index p \<le> phase_index q"

definition less_phase :: "phase \<Rightarrow> phase \<Rightarrow> bool" where
  "less_phase p q \<longleftrightarrow> phase_index p < phase_index q"

instance
  by standard
    (auto simp: less_eq_phase_def less_phase_def phase_index_def split: phase.splits)

end

lemma legal_forward: "t \<in> set (LEGAL_TRANSITIONS s) \<Longrightarrow> s < t"
  by (cases s) (auto simp: less_phase_def phase_index_def)

lemma phase_str_known [simp]: "isHermesLifecyclePhase (phase_str p)"
  by (cases p) (simp_all add: isHermesLifecyclePhase_def PHASES_def)

subsection \<open>The state of a lifecycle\<close>

type_synonym handler = "phase \<Rightarrow> phase \<Rightarrow> phase list"

record lifecycle =
  phase :: phase
  transitioning :: bool
  handlers :: "handler list"
  pendingQueue :: "phase list"
  fired :: "(phase \<times> phase) list"

record lifecycle_options =
  initialPhase :: "phase option"
  onTransition_option :: "handler option"

definition createHermesLifecycle :: "lifecycle_options \<Rightarrow> lifecycle" where
  "createHermesLifecycle options =
     \<lparr>phase = override INITIALIZING (initialPhase options), transitioning = False,
      handlers = (case onTransition_option options of None \<Rightarrow> [] | Some f \<Rightarrow> [f]),
      pendingQueue = [], fired = []\<rparr>"

definition currentPhase :: "lifecycle \<Rightarrow> phase" where
  "currentPhase l = phase l"

definition isTerminal :: "lifecycle \<Rightarrow> bool" where
  "isTerminal l \<longleftrightarrow> TERMINAL_PHASES (phase l)"

definition onTransition :: "handler \<Rightarrow> lifecycle \<Rightarrow> lifecycle" where
  "onTransition f l = l\<lparr>handlers := handlers l @ [f]\<rparr>"

text \<open>The disposer that \<open>onTransition\<close> returns, for the handler at position \<open>i\<close>.\<close>

definition unsubscribe :: "nat \<Rightarrow> lifecycle \<Rightarrow> lifecycle" where
  "unsubscribe i l = l\<lparr>handlers := take i (handlers l) @ drop (Suc i) (handlers l)\<rparr>"

definition terminal_error :: "phase \<Rightarrow> string" where
  "terminal_error p = ''HermesLifecycle: terminal phase '' @ phase_str p
     @ ''; no further transitions permitted.''"

definition illegal_error :: "phase \<Rightarrow> phase \<Rightarrow> string" where
  "illegal_error p t = ''HermesLifecycle: illegal transition '' @ phase_str p
     @ '' -> '' @ phase_str t @ ''.''"

definition unknown_error :: "phase \<Rightarrow> string" where
  "unknown_error t = ''HermesLifecycle: unknown phase '' @ quoted (phase_str t) @ ''.''"

text \<open>
  A call of \<open>transition\<close> while \<open>transitioning\<close> is set, as handlers make it: the terminal
  guard comes first, then the request is queued whatever the table says.
\<close>

definition reenter :: "phase \<Rightarrow> lifecycle \<Rightarrow> string + lifecycle" where
  "reenter t l =
     (if \<not> isHermesLifecyclePhase (phase_str t) then Inl (unknown_error t)
      else if TERMINAL_PHASES (phase l) then Inl (terminal_error (phase l))
      else Inr (l\<lparr>pendingQueue := pendingQueue l @ [t]\<rparr>))"

text \<open>One handler: its requests in order; the first that throws ends the handler.\<close>

fun run_handler :: "phase list \<Rightarrow> lifecycle \<Rightarrow> lifecycle" where
  "run_handler [] l = l"
| "run_handler (t # ts) l = (case reenter t l of Inl _ \<Rightarrow> l | Inr l' \<Rightarrow> run_handler ts l')"

definition fire :: "phase \<Rightarrow> phase \<Rightarrow> lifecycle \<Rightarrow> lifecycle" where
  "fire from' to l =
     fold (\<lambda>f. run_handler (f from' to)) (handlers l) (l\<lparr>fired := fired l @ [(from', to)]\<rparr>)"

definition applyTransition :: "phase \<Rightarrow> lifecycle \<Rightarrow> string + lifecycle" where
  "applyTransition to l =
     (if \<not> isHermesLifecyclePhase (phase_str to) then Inl (unknown_error to)
      else if TERMINAL_PHASES (phase l) then Inl (terminal_error (phase l))
      else if to \<notin> set (LEGAL_TRANSITIONS (phase l)) then Inl (illegal_error (phase l) to)
      else Inr (fire (phase l) to (l\<lparr>phase := to\<rparr>)))"

subsection \<open>What a handler call changes\<close>

lemma run_handler_eq:
  "run_handler ts l =
     (if TERMINAL_PHASES (phase l) then l else l\<lparr>pendingQueue := pendingQueue l @ ts\<rparr>)"
  by (induction ts arbitrary: l) (simp_all add: reenter_def)

lemma fire_eq:
  "fire from' to l =
     (if TERMINAL_PHASES (phase l) then l\<lparr>fired := fired l @ [(from', to)]\<rparr>
      else l\<lparr>fired := fired l @ [(from', to)],
             pendingQueue := pendingQueue l @ concat (map (\<lambda>f. f from' to) (handlers l))\<rparr>)"
proof -
  have "fold (\<lambda>f. run_handler (f from' to)) fs m =
      (if TERMINAL_PHASES (phase m) then m
       else m\<lparr>pendingQueue := pendingQueue m @ concat (map (\<lambda>f. f from' to) fs)\<rparr>)" for fs m
    by (induction fs arbitrary: m) (simp_all add: run_handler_eq)
  then show ?thesis by (simp add: fire_def)
qed

lemma fire_fields [simp]:
  "phase (fire a b l) = phase l" "transitioning (fire a b l) = transitioning l"
  "handlers (fire a b l) = handlers l" "fired (fire a b l) = fired l @ [(a, b)]"
  by (simp_all add: fire_eq)

lemma applyTransition_legal:
  "to \<in> set (LEGAL_TRANSITIONS (phase l)) \<Longrightarrow>
     applyTransition to l = Inr (fire (phase l) to (l\<lparr>phase := to\<rparr>))"
  by (auto simp: applyTransition_def phases.terminal_iff)

subsection \<open>transition\<close>

text \<open>
  The loop over the queue. The guard of \<open>applyTransition\<close> repeats the one of the loop, so
  its errors do not arise there. Every applied transition lowers the rank of the phase and
  every dropped one shortens the queue.
\<close>

function drain :: "lifecycle \<Rightarrow> lifecycle" where
  "drain l =
     (if TERMINAL_PHASES (phase l) then l
      else case pendingQueue l of
        [] \<Rightarrow> l
      | next' # rest \<Rightarrow>
          if next' \<in> set (LEGAL_TRANSITIONS (phase l))
          then case applyTransition next' (l\<lparr>pendingQueue := rest\<rparr>) of
                 Inl _ \<Rightarrow> l\<lparr>pendingQueue := rest\<rparr>
               | Inr l' \<Rightarrow> drain l'
          else drain (l\<lparr>pendingQueue := rest\<rparr>))"
  by pat_completeness auto

termination
proof (relation "measures [\<lambda>l. phase_rank (phase l), \<lambda>l. length (pendingQueue l)]")
  show "wf (measures [\<lambda>l :: lifecycle. phase_rank (phase l), \<lambda>l. length (pendingQueue l)])"
    by simp
next
  fix l l' :: lifecycle and next' rest
  assume "next' \<in> set (LEGAL_TRANSITIONS (phase l))"
    and "applyTransition next' (l\<lparr>pendingQueue := rest\<rparr>) = Inr l'"
  then show "(l', l) \<in> measures [\<lambda>l. phase_rank (phase l), \<lambda>l. length (pendingQueue l)]"
    using phases.rank_decreases [of next' "phase l"] by (auto simp: applyTransition_legal)
next
  fix l :: lifecycle and next' rest
  assume "pendingQueue l = next' # rest"
  then show "(l\<lparr>pendingQueue := rest\<rparr>, l)
      \<in> measures [\<lambda>l. phase_rank (phase l), \<lambda>l. length (pendingQueue l)]"
    by simp
qed

declare drain.simps [simp del]

text \<open>\<open>transition\<close>: an exception, or the state after the call returned.\<close>

definition transition :: "phase \<Rightarrow> lifecycle \<Rightarrow> string + lifecycle" where
  "transition to l =
     (if \<not> isHermesLifecyclePhase (phase_str to) then Inl (unknown_error to)
      else if TERMINAL_PHASES (phase l) then Inl (terminal_error (phase l))
      else if transitioning l then Inr (l\<lparr>pendingQueue := pendingQueue l @ [to]\<rparr>)
      else if to \<notin> set (LEGAL_TRANSITIONS (phase l)) then Inl (illegal_error (phase l) to)
      else case applyTransition to (l\<lparr>transitioning := True\<rparr>) of
        Inl e \<Rightarrow> Inl e
      | Inr l' \<Rightarrow> Inr ((drain l')\<lparr>transitioning := False\<rparr>))"

text \<open>A caller that catches the exception of \<open>transition\<close> goes on with the old state.\<close>

definition try_transition :: "phase \<Rightarrow> lifecycle \<Rightarrow> lifecycle" where
  "try_transition to l = (case transition to l of Inl _ \<Rightarrow> l | Inr l' \<Rightarrow> l')"


text \<open>
  What the lifecycle manager guarantees to its observers: the transitions its handlers see
  are one path through the table, however the handlers re-enter it, so that at most four are
  ever reported; requests made by handlers are served or dropped before the call returns.
\<close>

subsection \<open>Paths through the table\<close>

inductive chain :: "phase \<Rightarrow> (phase \<times> phase) list \<Rightarrow> phase \<Rightarrow> bool" where
  chain_Nil: "chain s [] s"
| chain_Cons: "t \<in> set (LEGAL_TRANSITIONS s) \<Longrightarrow> chain t es u \<Longrightarrow> chain s ((s, t) # es) u"

inductive_simps chain_Nil_iff [simp]: "chain s [] u"
inductive_simps chain_Cons_iff: "chain s (e # es) u"

code_pred chain .

lemma chain_append: "chain s es t \<Longrightarrow> chain t fs u \<Longrightarrow> chain s (es @ fs) u"
  by (induction rule: chain.induct) (auto intro: chain_Cons)

lemma chain_run_table: "chain s es u \<Longrightarrow> run_table LEGAL_TRANSITIONS s (map snd es) = Some u"
  by (induction rule: chain.induct) simp_all

lemma chain_length: "chain s es u \<Longrightarrow> length es + phase_rank u \<le> phase_rank s"
  using phases.run_length [OF chain_run_table] by force

lemma phase_rank_le [simp]: "phase_rank p \<le> 4"
  by (cases p) simp_all

lemma chain_le_four: "chain s es u \<Longrightarrow> length es \<le> 4"
  using chain_length [of s es u] phase_rank_le [of s] by linarith

lemma chain_single: "t \<in> set (LEGAL_TRANSITIONS s) \<Longrightarrow> chain s [(s, t)] t"
  by (intro chain_Cons chain_Nil)

lemma chain_forward: "chain s es u \<Longrightarrow> s \<le> u"
  by (induction rule: chain.induct) (auto dest!: legal_forward)

subsection \<open>The queue\<close>

lemma drain_facts:
  "\<exists>tr. fired (drain l) = fired l @ tr \<and> chain (phase l) tr (phase (drain l)) \<and>
     (pendingQueue (drain l) = [] \<or> TERMINAL_PHASES (phase (drain l))) \<and>
     handlers (drain l) = handlers l \<and> transitioning (drain l) = transitioning l"
proof (induction l rule: drain.induct)
  case (1 l)
  show ?case
  proof (cases "TERMINAL_PHASES (phase l) \<or> pendingQueue l = []")
    case True
    then show ?thesis by (subst (1 2 3 4 5 6) drain.simps) auto
  next
    case False
    then obtain t ts where q: "pendingQueue l = t # ts" and n: "\<not> TERMINAL_PHASES (phase l)"
      by (cases "pendingQueue l") auto
    show ?thesis
    proof (cases "t \<in> set (LEGAL_TRANSITIONS (phase l))")
      case True
      define m where "m = fire (phase l) t (l\<lparr>pendingQueue := ts, phase := t\<rparr>)"
      from True have a: "applyTransition t (l\<lparr>pendingQueue := ts\<rparr>) = Inr m"
        by (simp add: applyTransition_legal m_def)
      from n q True a have d: "drain l = drain m" by (subst drain.simps) simp
      from "1.IH" (1) [OF n q True a] obtain tr where
        "fired (drain m) = fired m @ tr" "chain (phase m) tr (phase (drain m))"
        "pendingQueue (drain m) = [] \<or> TERMINAL_PHASES (phase (drain m))"
        "handlers (drain m) = handlers m" "transitioning (drain m) = transitioning m"
        by blast
      with True show ?thesis unfolding d
        by (intro exI [of _ "(phase l, t) # tr"]) (simp add: m_def chain_Cons)
    next
      case False
      from n q False have d: "drain l = drain (l\<lparr>pendingQueue := ts\<rparr>)"
        by (subst drain.simps) simp
      from "1.IH" (2) [OF n q False] show ?thesis unfolding d by simp
    qed
  qed
qed

lemma drain_empty: "pendingQueue l = [] \<Longrightarrow> drain l = l"
  by (subst drain.simps) simp

lemma transition_facts:
  assumes "transition to l = Inr l'" and "\<not> transitioning l"
  shows "\<exists>tr. fired l' = fired l @ (phase l, to) # tr \<and>
      chain (phase l) ((phase l, to) # tr) (phase l') \<and>
      (pendingQueue l' = [] \<or> TERMINAL_PHASES (phase l')) \<and>
      handlers l' = handlers l \<and> \<not> transitioning l'"
proof -
  define m where "m = fire (phase l) to (l\<lparr>transitioning := True, phase := to\<rparr>)"
  from assms have legal: "to \<in> set (LEGAL_TRANSITIONS (phase l))"
    by (auto simp: transition_def split: if_splits)
  then have "applyTransition to (l\<lparr>transitioning := True\<rparr>) = Inr m"
    by (simp add: applyTransition_legal m_def)
  with assms have l': "l' = (drain m)\<lparr>transitioning := False\<rparr>"
    by (simp add: transition_def split: if_splits)
  from drain_facts [of m] obtain tr where
    "fired (drain m) = fired m @ tr" "chain (phase m) tr (phase (drain m))"
    "pendingQueue (drain m) = [] \<or> TERMINAL_PHASES (phase (drain m))"
    "handlers (drain m) = handlers m" by blast
  with legal show ?thesis
    by (intro exI [of _ tr]) (simp add: l' m_def chain_Cons)
qed

lemma transition_ok_iff:
  "\<not> transitioning l \<Longrightarrow>
     (\<exists>l'. transition to l = Inr l') \<longleftrightarrow> to \<in> set (LEGAL_TRANSITIONS (phase l))"
  by (auto simp: transition_def applyTransition_legal phases.terminal_iff split: if_splits)

lemma transition_error:
  "\<not> transitioning l \<Longrightarrow> to \<notin> set (LEGAL_TRANSITIONS (phase l)) \<Longrightarrow>
     transition to l = Inl (if TERMINAL_PHASES (phase l) then terminal_error (phase l)
                            else illegal_error (phase l) to)"
  by (simp add: transition_def)

subsection \<open>Lifecycles whose handlers make no request\<close>

definition silent :: "lifecycle \<Rightarrow> bool" where
  "silent l \<longleftrightarrow> (\<forall>f \<in> set (handlers l). f = (\<lambda>_ _. []))"

text \<open>Then a transition is exactly the edge that was asked for.\<close>

lemma transition_silent:
  assumes "silent l" and "\<not> transitioning l" and "pendingQueue l = []"
    and "to \<in> set (LEGAL_TRANSITIONS (phase l))"
  shows "transition to l = Inr (l\<lparr>phase := to, fired := fired l @ [(phase l, to)]\<rparr>)"
proof -
  from assms(1) have c: "concat (map (\<lambda>f. f a b) (handlers l)) = []" for a b
    by (auto simp: silent_def)
  have "\<not> TERMINAL_PHASES (phase l)" using assms(4) by (auto simp: phases.terminal_iff)
  with assms c show ?thesis
    by (simp add: transition_def applyTransition_legal fire_eq drain_empty)
qed

lemma drain_silent_fields [simp]:
  "handlers (drain l) = handlers l" "transitioning (drain l) = transitioning l"
  using drain_facts [of l] by blast+

subsection \<open>Clients of a lifecycle\<close>

text \<open>What the holders of a lifecycle can do with it, an exception being caught somewhere.\<close>

inductive lifecycle_step :: "lifecycle \<Rightarrow> lifecycle \<Rightarrow> bool" where
  requested: "lifecycle_step l (try_transition to l)"
| subscribed: "lifecycle_step l (onTransition f l)"
| unsubscribed: "lifecycle_step l (unsubscribe i l)"

inductive_cases lifecycle_stepE: "lifecycle_step l l'"

abbreviation lifecycle_steps :: "lifecycle \<Rightarrow> lifecycle \<Rightarrow> bool" where
  "lifecycle_steps \<equiv> lifecycle_step\<^sup>*\<^sup>*"

definition settled :: "lifecycle \<Rightarrow> bool" where
  "settled l \<longleftrightarrow> \<not> transitioning l \<and> (pendingQueue l = [] \<or> TERMINAL_PHASES (phase l))"

definition lifecycle_inv :: "phase \<Rightarrow> lifecycle \<Rightarrow> bool" where
  "lifecycle_inv p l \<longleftrightarrow> settled l \<and> chain p (fired l) (phase l)"

lemma lifecycle_inv_create:
  "lifecycle_inv (override INITIALIZING (initialPhase opts)) (createHermesLifecycle opts)"
  by (simp add: lifecycle_inv_def settled_def createHermesLifecycle_def)

lemma lifecycle_inv_transition:
  "lifecycle_inv p l \<Longrightarrow> transition to l = Inr l' \<Longrightarrow> lifecycle_inv p l'"
  using transition_facts [of to l l']
  by (auto simp: lifecycle_inv_def settled_def intro: chain_append)

lemma lifecycle_inv_try: "lifecycle_inv p l \<Longrightarrow> lifecycle_inv p (try_transition to l)"
  by (auto simp: try_transition_def split: sum.split intro: lifecycle_inv_transition)

lemma lifecycle_inv_step: "lifecycle_step l l' \<Longrightarrow> lifecycle_inv p l \<Longrightarrow> lifecycle_inv p l'"
  by (induction rule: lifecycle_step.induct)
    (simp_all add: lifecycle_inv_try, simp_all add: lifecycle_inv_def settled_def
      onTransition_def unsubscribe_def)

lemma lifecycle_inv_steps: "lifecycle_steps l l' \<Longrightarrow> lifecycle_inv p l \<Longrightarrow> lifecycle_inv p l'"
  by (induction rule: rtranclp_induct) (auto intro: lifecycle_inv_step)

subsection \<open>Properties\<close>

text \<open>C15: Whatever the clients and handlers of a fresh lifecycle do, re-entrant requests
  included, the transitions its observers are told of form one path of legal edges from the
  initial phase to the current one, at most four of them; and between two calls no request is
  left in the queue unless the phase is terminal.\<close>

theorem lifecycle_transitions_are_a_legal_path:
  assumes "lifecycle_steps (createHermesLifecycle opts) l"
  shows "chain (override INITIALIZING (initialPhase opts)) (fired l) (phase l) \<and>
    length (fired l) \<le> 4 \<and> (pendingQueue l = [] \<or> isTerminal l)"
proof -
  from lifecycle_inv_steps [OF assms lifecycle_inv_create]
  have "lifecycle_inv (override INITIALIZING (initialPhase opts)) l" .
  then show ?thesis
    by (auto simp: lifecycle_inv_def settled_def isTerminal_def dest: chain_le_four)
qed

definition eager_handler :: handler where
  "eager_handler from' to = (if to = STARTING then [STOPPED, RUNNING] else [])"

lemma lifecycle_transitions_are_a_legal_path_witness:
  "let opts = \<lparr>initialPhase = None, onTransition_option = Some eager_handler\<rparr>;
       l = try_transition STARTING (createHermesLifecycle opts)
   in fired l = [(INITIALIZING, STARTING), (STARTING, RUNNING)] \<and> phase l = RUNNING \<and>
     pendingQueue l = [] \<and> chain INITIALIZING (fired l) (phase l)"
proof -
  let ?opts = "\<lparr>initialPhase = None, onTransition_option = Some eager_handler\<rparr>"
  let ?l = "try_transition STARTING (createHermesLifecycle ?opts)"
  have "lifecycle_steps (createHermesLifecycle ?opts) ?l"
    by (intro r_into_rtranclp requested)
  from lifecycle_transitions_are_a_legal_path [OF this]
  have "chain INITIALIZING (fired ?l) (phase ?l)" by simp
  moreover have "fired ?l = [(INITIALIZING, STARTING), (STARTING, RUNNING)] \<and>
      phase ?l = RUNNING \<and> pendingQueue ?l = []"
    by (simp add: try_transition_def transition_def createHermesLifecycle_def
        applyTransition_def fire_eq drain.simps eager_handler_def isHermesLifecyclePhase_def
        PHASES_def)
  ultimately show ?thesis by (simp add: Let_def)
qed

text \<open>A transition requested between two calls is refused exactly when the table does
  not list it, with the message for terminal phases or for illegal edges; when it is accepted
  the handlers see it before any transition they request themselves.\<close>

theorem transition_accepts_exactly_legal_edges:
  assumes "lifecycle_steps (createHermesLifecycle opts) l"
  shows "case transition to l of
      Inl e \<Rightarrow> to \<notin> set (LEGAL_TRANSITIONS (phase l)) \<and>
        e = (if isTerminal l then terminal_error (phase l) else illegal_error (phase l) to)
    | Inr l' \<Rightarrow> to \<in> set (LEGAL_TRANSITIONS (phase l)) \<and>
        (\<exists>tr. fired l' = fired l @ (phase l, to) # tr)"
proof -
  from lifecycle_inv_steps [OF assms lifecycle_inv_create] have n: "\<not> transitioning l"
    by (simp add: lifecycle_inv_def settled_def)
  show ?thesis
  proof (cases "to \<in> set (LEGAL_TRANSITIONS (phase l))")
    case True
    with n obtain l' where "transition to l = Inr l'" using transition_ok_iff by blast
    with True transition_facts [OF this n] show ?thesis by auto
  next
    case False
    with transition_error [OF n False] show ?thesis by (simp add: isTerminal_def)
  qed
qed

lemma transition_accepts_exactly_legal_edges_witness:
  "transition RUNNING (createHermesLifecycle \<lparr>initialPhase = None, onTransition_option = None\<rparr>)
     = Inl ''HermesLifecycle: illegal transition INITIALIZING -> RUNNING.''"
  using transition_accepts_exactly_legal_edges
    [of "\<lparr>initialPhase = None, onTransition_option = None\<rparr>"
        "createHermesLifecycle \<lparr>initialPhase = None, onTransition_option = None\<rparr>" RUNNING]
  by (auto simp: createHermesLifecycle_def illegal_error_def isTerminal_def split: sum.splits)

end
