(* ===== verification/HermesHealth.thy ===== *)
theory HermesHealth
  imports HermesRegistryFacts HermesLifecycle
begin

text \<open>
  Observation of the kernel: the health monitor (packages/hermes/src/HermesHealthMonitor.ts),
  which probes the modules of a registry and keeps the last details in a cache, and the event
  dispatcher (packages/hermes/src/HermesEventDispatcher.ts), which turns a committed transition
  of the lifecycle into one event. What \<open>EventBus.publish\<close> does with an event, and
  whether it throws, is left to the bus.
\<close>

subsection \<open>The health monitor\<close>

record health_detail =
  d_name :: string
  d_status :: module_health
  d_detail :: "string option"

record health_report =
  hr_status :: module_health
  hr_modules :: "health_detail list"
  hr_at :: instant

definition aggregate :: "module_health list \<Rightarrow> module_health" where
  "aggregate statuses =
     (if statuses = [] then unknown
      else if failed \<in> set statuses then failed
      else if degraded \<in> set statuses then degraded
      else if \<forall>s \<in> set statuses. s = healthy then healthy
      else unknown)"

text \<open>
  A registered module has a health check; without one the call would throw a type error,
  which is caught as any other exception.
\<close>

definition probeRecord :: "instant \<Rightarrow> module_record \<Rightarrow> health_detail" where
  "probeRecord now r =
     (case healthCheck (spec r) of
        None \<Rightarrow> \<lparr>d_name = record_name r, d_status = failed,
                  d_detail = Some ''record.healthCheck is not a function''\<rparr>
      | Some check \<Rightarrow> (case check now of
          Answered s \<Rightarrow> \<lparr>d_name = record_name r, d_status = s, d_detail = None\<rparr>
        | Answered_otherwise _ \<Rightarrow> \<lparr>d_name = record_name r, d_status = unknown,
                                     d_detail = Some ''invalid health status''\<rparr>
        | Threw message \<Rightarrow> \<lparr>d_name = record_name r, d_status = failed,
                              d_detail = Some message\<rparr>))"

text \<open>The monitor is its cache; \<open>isInitializing\<close> is what the option of that name answers.\<close>

type_synonym health_monitor = "health_detail list"

definition createHermesHealthMonitor :: health_monitor where
  "createHermesHealthMonitor = []"

definition health :: "bool \<Rightarrow> instant \<Rightarrow> module_registry \<Rightarrow> health_monitor
    \<Rightarrow> health_report \<times> health_monitor" where
  "health isInitializing now reg cached =
     (if isInitializing then (\<lparr>hr_status = unknown, hr_modules = [], hr_at = now\<rparr>, [])
      else let details = map (probeRecord now) (getModules reg) in
        (\<lparr>hr_status = aggregate (map d_status details), hr_modules = details, hr_at = now\<rparr>,
         details))"

definition overallStatus :: "health_monitor \<Rightarrow> module_health" where
  "overallStatus cached = aggregate (map d_status cached)"

text \<open>The cached entry of the same name is replaced in place, a new one is appended.\<close>

fun put_detail :: "health_detail \<Rightarrow> health_detail list \<Rightarrow> health_detail list" where
  "put_detail d [] = [d]"
| "put_detail d (c # cs) = (if d_name c = d_name d then d # cs else c # put_detail d cs)"

definition moduleHealth :: "instant \<Rightarrow> module_registry \<Rightarrow> string \<Rightarrow> health_monitor
    \<Rightarrow> (string + health_detail option) \<times> health_monitor" where
  "moduleHealth now reg n cached = (case hasModule n reg of
     Inl e \<Rightarrow> (Inl e, cached)
   | Inr False \<Rightarrow> (Inr None, cached)
   | Inr True \<Rightarrow> (case find (\<lambda>r. record_name r = n) (getModules reg) of
       None \<Rightarrow> (Inr None, cached)
     | Some r \<Rightarrow> let d = probeRecord now r in (Inr (Some d), put_detail d cached)))"

definition unhealthyModules :: "health_monitor \<Rightarrow> health_detail list" where
  "unhealthyModules cached = filter (\<lambda>d. d_status d = failed \<or> d_status d = degraded) cached"

definition healthyModules :: "health_monitor \<Rightarrow> health_detail list" where
  "healthyModules cached = filter (\<lambda>d. d_status d = healthy) cached"

subsection \<open>The event dispatcher\<close>

fun topicFor :: "phase \<Rightarrow> string option" where
  "topicFor INITIALIZING = Some ''hermes.initializing''"
| "topicFor RUNNING = Some ''hermes.started''"
| "topicFor STOPPING = Some ''hermes.stopping''"
| "topicFor STOPPED = Some ''hermes.stopped''"
| "topicFor FAILED = Some ''hermes.failed''"
| "topicFor STARTING = None"

text \<open>The five payload interfaces, with the members that only some of them have.\<close>

datatype lifecycle_payload =
    InitializingPayload phase instant
  | StartedPayload phase int instant
  | StoppingPayload phase string instant
  | StoppedPayload phase instant
  | FailedPayload phase string instant

record dispatcher_options =
  reasonForStopping :: "string option"
  reasonForFailure :: "string option"
  getModuleCount :: "int option"

fun buildPayload :: "phase \<Rightarrow> phase \<Rightarrow> dispatcher_options \<Rightarrow> instant
    \<Rightarrow> string + lifecycle_payload" where
  "buildPayload from' INITIALIZING opts now = Inr (InitializingPayload from' now)"
| "buildPayload from' RUNNING opts now =
     Inr (StartedPayload from' (override 0 (getModuleCount opts)) now)"
| "buildPayload from' STOPPING opts now =
     Inr (StoppingPayload from' (override '''' (reasonForStopping opts)) now)"
| "buildPayload from' STOPPED opts now = Inr (StoppedPayload from' now)"
| "buildPayload from' FAILED opts now =
     Inr (FailedPayload from' (override '''' (reasonForFailure opts)) now)"
| "buildPayload from' STARTING opts now =
     Inl ''HermesEventDispatcher: unreachable STARTING payload build.''"

text \<open>
  The handler of \<open>createHermesEventDispatcher\<close>: the event it hands to the bus, if any, or
  the exception of \<open>buildPayload\<close>.
\<close>

definition dispatch :: "dispatcher_options \<Rightarrow> instant \<Rightarrow> phase \<Rightarrow> phase
    \<Rightarrow> string + (string \<times> lifecycle_payload) option" where
  "dispatch opts now from' to = (case topicFor to of
     None \<Rightarrow> Inr None
   | Some topic \<Rightarrow> (case buildPayload from' to opts now of
       Inl e \<Rightarrow> Inl e
     | Inr payload \<Rightarrow> Inr (Some (topic, payload))))"

subsection \<open>Facts\<close>

lemma aggregate_failed: "aggregate ss = failed \<longleftrightarrow> failed \<in> set ss"
  by (cases ss) (auto simp: aggregate_def)

lemma aggregate_degraded: "aggregate ss = degraded \<longleftrightarrow> failed \<notin> set ss \<and> degraded \<in> set ss"
  by (cases ss) (auto simp: aggregate_def)

lemma aggregate_healthy: "aggregate ss = healthy \<longleftrightarrow> ss \<noteq> [] \<and> set ss \<subseteq> {healthy}"
  by (cases ss) (auto simp: aggregate_def)

lemma aggregate_append_comm: "aggregate (xs @ ys) = aggregate (ys @ xs)"
  by (auto simp: aggregate_def)

lemma probeRecord_name [simp]: "d_name (probeRecord now r) = record_name r"
  by (simp add: probeRecord_def split: option.split probe.split)

text \<open>The mark \<open>degraded\<close> that the registry leaves on a record is not what is probed.\<close>

lemma probeRecord_ignores_mark: "probeRecord now (r\<lparr>healthStatus := s\<rparr>) = probeRecord now r"
  by (simp add: probeRecord_def split: option.split probe.split)

lemma put_detail_names:
  "map d_name (put_detail d cs) =
     (if d_name d \<in> set (map d_name cs) then map d_name cs else map d_name cs @ [d_name d])"
  by (induction cs) auto

lemma put_detail_distinct: "distinct (map d_name cs) \<Longrightarrow> distinct (map d_name (put_detail d cs))"
  by (simp add: put_detail_names)

lemma dispatch_never_throws: "\<exists>ev. dispatch opts now from' to = Inr ev"
  by (cases to) (simp_all add: dispatch_def)

lemma dispatch_event_iff: "(\<exists>ev. dispatch opts now from' to = Inr (Some ev)) \<longleftrightarrow> to \<noteq> STARTING"
  by (cases to) (simp_all add: dispatch_def)

subsection \<open>Properties\<close>

text \<open>A health report taken after initialization names the registered modules in
  their order, fails when and only when some module's check throws or answers failed, and is
  healthy exactly when there are modules and every one answers healthy. It does not depend on
  the marks the registry makes when a dependency is removed.\<close>

theorem health_report_exact:
  "(case health False now reg cached of (rep, cached') \<Rightarrow>
     map d_name (hr_modules rep) = names_of reg \<and> cached' = hr_modules rep \<and>
     (hr_status rep = failed \<longleftrightarrow> (\<exists>r \<in> set (getModules reg). d_status (probeRecord now r) = failed)) \<and>
     (hr_status rep = healthy \<longleftrightarrow> getModules reg \<noteq> [] \<and>
        (\<forall>r \<in> set (getModules reg). \<exists>check. healthCheck (spec r) = Some check \<and>
           check now = Answered healthy))) \<and>
   (records reg' = mark_dependents n (records reg) \<longrightarrow>
      fst (health False now reg' cached) = fst (health False now reg cached))"
proof -
  have h: "d_status (probeRecord now r) = healthy \<longleftrightarrow>
      (\<exists>check. healthCheck (spec r) = Some check \<and> check now = Answered healthy)" for r
    by (simp add: probeRecord_def split: option.split probe.split)
  have m: "map (probeRecord now) (mark_dependents n rs) = map (probeRecord now) rs" for rs
    by (simp add: mark_dependents_def probeRecord_ignores_mark)
  have f: "failed \<in> set (map d_status (map (probeRecord now) rs)) \<longleftrightarrow>
      (\<exists>r \<in> set rs. d_status (probeRecord now r) = failed)" for rs
    by force
  have a: "set (map d_status (map (probeRecord now) rs)) \<subseteq> {healthy} \<longleftrightarrow>
      (\<forall>r \<in> set rs. d_status (probeRecord now r) = healthy)" for rs
    by auto
  show ?thesis
    unfolding health_def Let_def getModules_def
    by (simp only: if_False prod.case health_report.simps aggregate_failed aggregate_healthy f a h)
      (simp add: names_of_def m comp_def)
qed

lemma health_report_exact_witness:
  "hr_status (fst (health False 3 sample_registry [])) = healthy \<and>
   map healthStatus (getModules sample_registry) = [degraded]"
proof -
  let ?clean = "sample_registry\<lparr>records := [\<lparr>spec = memory_spec, registeredAt = 6, healthStatus = unknown\<rparr>]\<rparr>"
  have "records sample_registry = mark_dependents ''core'' (records ?clean)"
    by (simp add: registry_eval)
  with health_report_exact
    [where now = 3 and reg = ?clean and cached = "[]" and reg' = sample_registry and n = "''core''"]
  have "fst (health False 3 sample_registry []) = fst (health False 3 ?clean [])"
    by (auto split: prod.splits)
  moreover have "hr_status (fst (health False 3 ?clean [])) = healthy"
    by (simp add: health_def getModules_def probeRecord_def aggregate_def memory_spec_def
        core_spec_def Let_def)
  ultimately show ?thesis by (simp add: getModules_def registry_eval)
qed

end
