(* ===== verification/HermesKernel.thy ===== *)
theory HermesKernel
  imports HermesHealth
begin

text \<open>
  The kernel facade (packages/hermes/src/Hermes.ts): \<open>createHermes\<close> and the methods of the
  object it returns, over the lifecycle, the registry and the health monitor. \<open>stop\<close>
  awaits each module in turn, and other calls may run at those awaits; therefore a call of
  \<open>stop\<close> is modelled by its synchronous parts: \<open>stop_begin\<close>, one \<open>drain_step\<close> per
  awaited module, and the end of the drain. \<open>shutdowns\<close> records the calls the modules get.
  Log lines, spans and metrics are left out.
\<close>

record hermes_config =
  nodeEnv :: string
  logLevel :: string
  openrouterApiKey :: string
  databaseUrl :: string
  redisUrl :: string
  otelEnabled :: bool
  otelExporterEndpoint :: "string option"
  hermesModulesDir :: string
  hermesShutdownTimeoutMs :: int

text \<open>The view of packages/hermes/src/redact.ts: the three secrets are replaced.\<close>

definition REDACTED :: string where
  "REDACTED = ''****''"

definition redactHermesConfig :: "hermes_config \<Rightarrow> hermes_config" where
  "redactHermesConfig cfg =
     cfg\<lparr>openrouterApiKey := REDACTED, databaseUrl := REDACTED, redisUrl := REDACTED\<rparr>"

text \<open>A call of \<open>drainModules\<close> waiting for the first of its remaining modules.\<close>

record drain =
  remaining :: "module_record list"
  drain_count :: nat
  deadlineMs :: int
  anyDrainThrew :: bool

record hermes =
  config :: hermes_config
  lifecycle :: lifecycle
  registry :: module_registry
  healthMonitor :: health_monitor
  startedAt :: "instant option"
  draining :: "drain list"
  shutdowns :: "(string \<times> int) list"

record kernel_options =
  eventBus_given :: bool
  lifecycle_option :: "lifecycle option"
  registry_option :: "module_registry option"
  healthMonitor_option :: "health_monitor option"

text \<open>
  The kernel subscribes the dispatcher, when there is a bus, and the handler that captures
  \<open>startedAt\<close>; neither requests a transition.
\<close>

definition kernel_handler :: handler where
  "kernel_handler from' to = []"

definition createHermes :: "hermes_config \<Rightarrow> kernel_options \<Rightarrow> hermes" where
  "createHermes cfg opts =
     (let l = override (createHermesLifecycle \<lparr>initialPhase = None, onTransition_option = None\<rparr>)
                (lifecycle_option opts);
          l1 = (if eventBus_given opts then onTransition kernel_handler l else l);
          l2 = onTransition kernel_handler l1
      in \<lparr>config = cfg, lifecycle = l2,
          registry = override createHermesModuleRegistry (registry_option opts),
          healthMonitor = override createHermesHealthMonitor (healthMonitor_option opts),
          startedAt = None, draining = [], shutdowns = []\<rparr>)"

text \<open>A committed transition: the handler notes the instant at which RUNNING was entered.\<close>

definition commit :: "instant \<Rightarrow> lifecycle \<Rightarrow> hermes \<Rightarrow> hermes" where
  "commit now l h =
     h\<lparr>lifecycle := l,
       startedAt := (if RUNNING \<in> set (map snd (drop (length (fired (lifecycle h))) (fired l)))
                     then Some now else startedAt h)\<rparr>"

definition kernel_transition :: "instant \<Rightarrow> phase \<Rightarrow> hermes \<Rightarrow> string + hermes" where
  "kernel_transition now to h = (case transition to (lifecycle h) of
     Inl e \<Rightarrow> Inl e
   | Inr l \<Rightarrow> Inr (commit now l h))"

definition kernel_try :: "instant \<Rightarrow> phase \<Rightarrow> hermes \<Rightarrow> hermes" where
  "kernel_try now to h = (case kernel_transition now to h of Inl _ \<Rightarrow> h | Inr h' \<Rightarrow> h')"

abbreviation kernel_phase :: "hermes \<Rightarrow> phase" where
  "kernel_phase h \<equiv> currentPhase (lifecycle h)"

definition assertPhase :: "phase list \<Rightarrow> hermes \<Rightarrow> string option" where
  "assertPhase allowed h =
     (if kernel_phase h \<notin> set allowed
      then Some (''Hermes: operation not allowed in phase '' @ phase_str (kernel_phase h)
             @ ''. Expected one of: '' @ join '', '' (map phase_str allowed))
      else None)"

definition computeUptime :: "instant \<Rightarrow> hermes \<Rightarrow> int" where
  "computeUptime now h = (case startedAt h of None \<Rightarrow> 0 | Some t \<Rightarrow> now - t)"

subsection \<open>start\<close>

definition start :: "instant \<Rightarrow> hermes \<Rightarrow> (string + unit) \<times> hermes" where
  "start now h =
     (if kernel_phase h = RUNNING then (Inr (), h)
      else if isTerminal (lifecycle h)
      then (Inl (''Hermes: cannot start from terminal phase '' @ phase_str (kernel_phase h)
              @ ''. Create a new instance.''), h)
      else case kernel_transition now STARTING h of
        Inl e \<Rightarrow> (Inl e, h)
      | Inr h' \<Rightarrow> (Inr (), h'))"

subsection \<open>stop and the drain\<close>

definition deadline_for :: "int \<Rightarrow> nat \<Rightarrow> int" where
  "deadline_for timeout n = (if n > 0 then timeout div int n else timeout)"

text \<open>The call of the next module's \<open>shutdown\<close>, when the loop reaches its await.\<close>

definition call_next :: "drain \<Rightarrow> hermes \<Rightarrow> hermes" where
  "call_next d h = (case remaining d of
     [] \<Rightarrow> h
   | r # _ \<Rightarrow> h\<lparr>shutdowns := shutdowns h @ [(record_name r, deadlineMs d)]\<rparr>)"

text \<open>After the loop: the last transition of \<open>drainModules\<close>, which may throw.\<close>

definition end_drain :: "instant \<Rightarrow> drain \<Rightarrow> hermes \<Rightarrow> string + hermes" where
  "end_drain now d h =
     (if anyDrainThrew d \<and> drain_count d > 0
      then (case kernel_transition now FAILED h of
              Inl _ \<Rightarrow> kernel_transition now STOPPED h
            | Inr h' \<Rightarrow> Inr h')
      else kernel_transition now STOPPED h)"

text \<open>The catch block of \<open>stop\<close> and its normal return.\<close>

definition finish_stop :: "instant \<Rightarrow> string + hermes \<Rightarrow> hermes \<Rightarrow> (string + unit) \<times> hermes" where
  "finish_stop now res h = (case res of
     Inl e \<Rightarrow> (Inl e, kernel_try now FAILED h)
   | Inr h' \<Rightarrow> (Inr (), h'))"

text \<open>
  \<open>stop\<close> up to its first await: the result of the call, or \<open>None\<close> when the call now waits
  for a module; its drain is then the last of \<open>draining\<close>.
\<close>

definition stop_begin :: "instant \<Rightarrow> hermes \<Rightarrow> (string + unit) option \<times> hermes" where
  "stop_begin now h =
     (if kernel_phase h = STOPPED then (Some (Inr ()), h)
      else if kernel_phase h = FAILED
      then (Some (Inl ''Hermes: cannot stop from FAILED state.''), h)
      else case kernel_transition now STOPPING h of
        Inl e \<Rightarrow> (case finish_stop now (Inl e) h of (r, h') \<Rightarrow> (Some r, h'))
      | Inr h1 \<Rightarrow>
          (let rs = getModules (registry h1);
               d = \<lparr>remaining = rev rs, drain_count = length rs,
                    deadlineMs = deadline_for (hermesShutdownTimeoutMs (config h1)) (length rs),
                    anyDrainThrew = False\<rparr>
           in if rs = []
              then (case finish_stop now (end_drain now d h1) h1 of (r, h') \<Rightarrow> (Some r, h'))
              else (None, (call_next d h1)\<lparr>draining := draining h1 @ [d]\<rparr>)))"

text \<open>A module without a shutdown function makes the call throw inside the try.\<close>

definition drained :: "int \<Rightarrow> module_record \<Rightarrow> bool" where
  "drained deadline r \<longleftrightarrow> (case shutdown (spec r) of None \<Rightarrow> False | Some f \<Rightarrow> f deadline = Resolved)"

text \<open>The \<open>i\<close>-th waiting call of \<open>stop\<close> goes on after its module settled or timed out.\<close>

definition drain_step :: "nat \<Rightarrow> instant \<Rightarrow> hermes \<Rightarrow> (string + unit) option \<times> hermes" where
  "drain_step i now h =
     (if i < length (draining h)
      then case remaining (draining h ! i) of
          [] \<Rightarrow> (None, h)
        | r # rest \<Rightarrow>
            (let d = (draining h ! i)\<lparr>remaining := rest,
                   anyDrainThrew := anyDrainThrew (draining h ! i) \<or>
                     \<not> drained (deadlineMs (draining h ! i)) r\<rparr>
             in if rest = []
                then let h1 = h\<lparr>draining := splice1 i (draining h)\<rparr> in
                  (case finish_stop now (end_drain now d h1) h1 of (r', h') \<Rightarrow> (Some r', h'))
                else (None, (call_next d h)\<lparr>draining := (draining h)[i := d]\<rparr>))
      else (None, h))"

text \<open>
  \<open>stop\<close> when nothing else runs at its awaits; the modules' answers are those of their
  shutdown functions, and every await takes no time.
\<close>

fun drain_loop :: "nat \<Rightarrow> instant \<Rightarrow> hermes \<Rightarrow> (string + unit) option \<times> hermes" where
  "drain_loop 0 now h = (None, h)"
| "drain_loop (Suc n) now h = (case drain_step 0 now h of
     (Some r, h') \<Rightarrow> (Some r, h')
   | (None, h') \<Rightarrow> drain_loop n now h')"

definition stop :: "instant \<Rightarrow> hermes \<Rightarrow> (string + unit) option \<times> hermes" where
  "stop now h = (case stop_begin now h of
     (Some r, h') \<Rightarrow> (Some r, h')
   | (None, h') \<Rightarrow> drain_loop (moduleCount (registry h')) now h')"

subsection \<open>Status, modules and health\<close>

record hermes_status =
  status_phase :: phase
  uptime :: int
  modules :: nat

definition hermes_status_of :: "instant \<Rightarrow> hermes \<Rightarrow> hermes_status" where
  "hermes_status_of now h = \<lparr>status_phase = kernel_phase h, uptime = computeUptime now h,
     modules = moduleCount (registry h)\<rparr>"

definition kernel_registerModule :: "instant \<Rightarrow> module_spec \<Rightarrow> hermes \<Rightarrow> (string + unit) \<times> hermes" where
  "kernel_registerModule now s h = (case assertPhase [STARTING] h of
     Some e \<Rightarrow> (Inl e, if required s then kernel_try now FAILED h else h)
   | None \<Rightarrow> (case registerModule now s (registry h) of (result, reg) \<Rightarrow>
       (let h1 = h\<lparr>registry := reg\<rparr> in
        (result, case result of
           Inr _ \<Rightarrow> h1
         | Inl _ \<Rightarrow> if required s then kernel_try now FAILED h1 else h1))))"

definition kernel_unregisterModule :: "string \<Rightarrow> hermes \<Rightarrow> (string + unit) \<times> hermes" where
  "kernel_unregisterModule n h = (case assertPhase [RUNNING, STOPPING] h of
     Some e \<Rightarrow> (Inl e, h)
   | None \<Rightarrow> (case unregisterModule n (registry h) of (result, reg) \<Rightarrow>
       (result, h\<lparr>registry := reg\<rparr>)))"

definition kernel_health :: "instant \<Rightarrow> hermes \<Rightarrow> health_report \<times> hermes" where
  "kernel_health now h =
     (case health (kernel_phase h = INITIALIZING) now (registry h) (healthMonitor h) of
        (rep, cached) \<Rightarrow> (rep, h\<lparr>healthMonitor := cached\<rparr>))"

subsection \<open>Histories of a kernel\<close>

text \<open>
  \<open>kernel_step\<close>: what the users of the public interface can cause. \<open>hosted_step\<close>: also
  what a host does that passed its own lifecycle to \<open>createHermes\<close> and drives it.
\<close>

inductive kernel_step :: "hermes \<Rightarrow> hermes \<Rightarrow> bool" where
  starts: "kernel_step h (snd (start now h))"
| stops: "kernel_step h (snd (stop_begin now h))"
| drains: "kernel_step h (snd (drain_step i now h))"
| registers_module: "kernel_step h (snd (kernel_registerModule now s h))"
| unregisters_module: "kernel_step h (snd (kernel_unregisterModule n h))"
| checks_health: "kernel_step h (snd (kernel_health now h))"

inductive hosted_step :: "hermes \<Rightarrow> hermes \<Rightarrow> bool" where
  kernel: "kernel_step h h' \<Longrightarrow> hosted_step h h'"
| host: "hosted_step h (kernel_try now to h)"

abbreviation kernel_steps :: "hermes \<Rightarrow> hermes \<Rightarrow> bool" where
  "kernel_steps \<equiv> kernel_step\<^sup>*\<^sup>*"

abbreviation hosted_steps :: "hermes \<Rightarrow> hermes \<Rightarrow> bool" where
  "hosted_steps \<equiv> hosted_step\<^sup>*\<^sup>*"

end
