(* ===== verification/HermesKernelFacts.thy ===== *)
theory HermesKernelFacts
  imports HermesKernel
begin

text \<open>
  What the kernel facade promises and what it cannot do: no history of its own interface
  reaches RUNNING; \<open>stop\<close> from RUNNING shuts every module down once, in reverse order of
  registration, dependants before their dependencies; a second \<open>stop\<close> during the drain
  fails the kernel.
\<close>

subsection \<open>Kernels whose lifecycle has no requesting handler\<close>

definition quiet :: "hermes \<Rightarrow> bool" where
  "quiet h \<longleftrightarrow> silent (lifecycle h) \<and> \<not> transitioning (lifecycle h) \<and>
     pendingQueue (lifecycle h) = []"

definition at_phase :: "instant \<Rightarrow> phase \<Rightarrow> hermes \<Rightarrow> hermes" where
  "at_phase now to h =
     h\<lparr>lifecycle := (lifecycle h)\<lparr>phase := to,
         fired := fired (lifecycle h) @ [(phase (lifecycle h), to)]\<rparr>,
       startedAt := (if to = RUNNING then Some now else startedAt h)\<rparr>"

lemma at_phase_simps [simp]:
  "phase (lifecycle (at_phase now to h)) = to" "registry (at_phase now to h) = registry h"
  "draining (at_phase now to h) = draining h" "shutdowns (at_phase now to h) = shutdowns h"
  "config (at_phase now to h) = config h"
  "startedAt (at_phase now to h) = (if to = RUNNING then Some now else startedAt h)"
  "quiet (at_phase now to h) = quiet h"
  by (simp_all add: at_phase_def quiet_def silent_def)

definition refusal :: "phase \<Rightarrow> hermes \<Rightarrow> string" where
  "refusal to h = (if TERMINAL_PHASES (phase (lifecycle h)) then terminal_error (phase (lifecycle h))
                   else illegal_error (phase (lifecycle h)) to)"

lemma kernel_transition_quiet:
  "quiet h \<Longrightarrow> kernel_transition now to h =
     (if to \<in> set (LEGAL_TRANSITIONS (phase (lifecycle h))) then Inr (at_phase now to h)
      else Inl (refusal to h))"
  by (simp add: kernel_transition_def quiet_def transition_silent transition_error commit_def
      at_phase_def refusal_def)

lemma kernel_try_quiet:
  "quiet h \<Longrightarrow> kernel_try now to h =
     (if to \<in> set (LEGAL_TRANSITIONS (phase (lifecycle h))) then at_phase now to h else h)"
  by (simp add: kernel_try_def kernel_transition_quiet)

lemmas kernel_phases = currentPhase_def isTerminal_def kernel_transition_quiet kernel_try_quiet

lemma quiet_registry [simp]:
  "quiet (h\<lparr>registry := reg\<rparr>) = quiet h" "quiet (h\<lparr>healthMonitor := m\<rparr>) = quiet h"
  "quiet (h\<lparr>draining := ds\<rparr>) = quiet h" "quiet (call_next d h) = quiet h"
  by (simp_all add: quiet_def call_next_def split: list.split)

lemma call_next_simps [simp]:
  "lifecycle (call_next d h) = lifecycle h" "registry (call_next d h) = registry h"
  "draining (call_next d h) = draining h" "startedAt (call_next d h) = startedAt h"
  "config (call_next d h) = config h"
  "shutdowns (call_next d h) = shutdowns h @
     (case remaining d of [] \<Rightarrow> [] | r # _ \<Rightarrow> [(record_name r, deadlineMs d)])"
  by (simp_all add: call_next_def split: list.split)

lemma quiet_create:
  "lifecycle_option opts = None \<Longrightarrow> quiet (createHermes cfg opts)"
  by (simp add: createHermes_def quiet_def silent_def createHermesLifecycle_def onTransition_def
      kernel_handler_def [abs_def] Let_def)

lemma stop_of_begin: "stop_begin now h = (Some r, h') \<Longrightarrow> stop now h = (Some r, h')"
  by (simp add: stop_def)

subsection \<open>The kernel on its own\<close>

definition idle :: "hermes \<Rightarrow> bool" where
  "idle h \<longleftrightarrow> quiet h \<and> phase (lifecycle h) \<in> {INITIALIZING, STARTING, FAILED} \<and>
     draining h = [] \<and> shutdowns h = [] \<and> startedAt h = None"

lemma idle_create: "lifecycle_option opts = None \<Longrightarrow> idle (createHermes cfg opts)"
  using quiet_create [of opts cfg]
  by (simp add: idle_def createHermes_def createHermesLifecycle_def onTransition_def Let_def)

lemma idle_stop_begin:
  assumes "idle h"
  shows "\<exists>e. fst (stop_begin now h) = Some (Inl e) \<and> idle (snd (stop_begin now h)) \<and>
    phase (lifecycle (snd (stop_begin now h))) = FAILED"
  using assms by (auto simp: idle_def stop_begin_def finish_stop_def kernel_phases)

lemma idle_step: "kernel_step h h' \<Longrightarrow> idle h \<Longrightarrow> idle h'"
proof (induction rule: kernel_step.induct)
  case (starts h now)
  then show ?case by (auto simp: idle_def start_def kernel_phases split: if_splits)
next
  case (stops h now)
  then show ?case using idle_stop_begin by blast
next
  case (drains h i now)
  then show ?case by (simp add: idle_def drain_step_def)
next
  case (registers_module h now s)
  then show ?case
    by (auto simp: idle_def kernel_registerModule_def kernel_phases Let_def
        split: option.split sum.split prod.split)
next
  case (unregisters_module h n)
  then show ?case
    by (auto simp: idle_def kernel_unregisterModule_def split: option.split prod.split)
next
  case (checks_health h now)
  then show ?case by (auto simp: idle_def kernel_health_def split: prod.split)
qed

lemma idle_steps: "kernel_steps h h' \<Longrightarrow> idle h \<Longrightarrow> idle h'"
  by (induction rule: rtranclp_induct) (auto intro: idle_step)

text \<open>A kernel with its default lifecycle never runs: no history of its public interface
  reaches RUNNING, STOPPING or STOPPED, its uptime stays zero, no module is ever asked to shut
  down, and every call of \<open>stop\<close> returns an error and leaves it FAILED.\<close>

theorem kernel_never_runs:
  assumes "lifecycle_option opts = None" and "kernel_steps (createHermes cfg opts) h"
  shows "kernel_phase h \<in> {INITIALIZING, STARTING, FAILED} \<and> computeUptime now h = 0 \<and>
    shutdowns h = [] \<and>
    (\<exists>e. fst (stop now h) = Some (Inl e)) \<and> kernel_phase (snd (stop now h)) = FAILED"
proof -
  from idle_steps [OF assms(2) idle_create [OF assms(1)]] have "idle h" .
  moreover from idle_stop_begin [OF this, of now] obtain e h' where
    b: "stop_begin now h = (Some (Inl e), h')" and "phase (lifecycle h') = FAILED"
    by (metis prod.collapse)
  ultimately show ?thesis
    by (auto simp: idle_def currentPhase_def computeUptime_def stop_of_begin [OF b])
qed

definition plain_options :: kernel_options where
  "plain_options = \<lparr>eventBus_given = True, lifecycle_option = None, registry_option = None,
     healthMonitor_option = None\<rparr>"

definition sample_config :: hermes_config where
  "sample_config = \<lparr>nodeEnv = ''test'', logLevel = ''info'', openrouterApiKey = ''k'',
     databaseUrl = ''d'', redisUrl = ''r'', otelEnabled = False, otelExporterEndpoint = None,
     hermesModulesDir = ''./modules'', hermesShutdownTimeoutMs = 1000\<rparr>"

lemma kernel_never_runs_witness:
  "let h = snd (start 5 (createHermes sample_config plain_options)) in
   kernel_phase h = STARTING \<and> kernel_phase (snd (stop 6 h)) = FAILED"
proof -
  let ?fresh = "createHermes sample_config plain_options"
  let ?h = "snd (start 5 ?fresh)"
  have p: "lifecycle_option plain_options = None" by (simp add: plain_options_def)
  have "kernel_steps ?fresh ?h" using starts [of ?fresh 5] by (rule r_into_rtranclp)
  from kernel_never_runs [OF p this] have "kernel_phase (snd (stop 6 ?h)) = FAILED" by blast
  moreover have "kernel_phase ?fresh = INITIALIZING"
    by (simp add: createHermes_def plain_options_def currentPhase_def createHermesLifecycle_def
        onTransition_def Let_def)
  then have "kernel_phase ?h = STARTING" using quiet_create [OF p, of sample_config]
    by (simp add: start_def kernel_phases)
  ultimately show ?thesis by (simp add: Let_def)
qed

subsection \<open>Stopping a running kernel\<close>

lemma end_drain_stopping:
  "quiet h \<Longrightarrow> phase (lifecycle h) = STOPPING \<Longrightarrow> drain_count d > 0 \<Longrightarrow>
     end_drain now d h = Inr (at_phase now (if anyDrainThrew d then FAILED else STOPPED) h)"
  by (simp add: end_drain_def kernel_phases)

text \<open>The loop over the modules, started at the first of \<open>r # rest\<close>.\<close>

lemma drain_loop_single:
  assumes "quiet h" and "phase (lifecycle h) = STOPPING" and "draining h = [d]"
    and "remaining d = r # rest" and "drain_count d > 0" and "n > length rest"
  shows "drain_loop n now h =
    (Some (Inr ()), at_phase now
       (if anyDrainThrew d \<or> (\<exists>x \<in> set (r # rest). \<not> drained (deadlineMs d) x) then FAILED else STOPPED)
       (h\<lparr>draining := [],
          shutdowns := shutdowns h @ map (\<lambda>x. (record_name x, deadlineMs d)) rest\<rparr>))"
  using assms
proof (induction rest arbitrary: r d h n)
  case Nil
  define d' where "d' = d\<lparr>remaining := [], anyDrainThrew := anyDrainThrew d \<or> \<not> drained (deadlineMs d) r\<rparr>"
  from Nil.prems obtain m where n: "n = Suc m" by (cases n) auto
  have e: "end_drain now d' (h\<lparr>draining := []\<rparr>) =
      Inr (at_phase now (if anyDrainThrew d' then FAILED else STOPPED) (h\<lparr>draining := []\<rparr>))"
    using Nil.prems by (intro end_drain_stopping) (simp_all add: d'_def)
  then have "drain_step 0 now h =
      (Some (Inr ()), at_phase now (if anyDrainThrew d' then FAILED else STOPPED) (h\<lparr>draining := []\<rparr>))"
    using Nil.prems by (simp add: drain_step_def splice1_def finish_stop_def Let_def d'_def)
  then show ?case by (simp add: n d'_def)
next
  case (Cons r' rest')
  from Cons.prems obtain m where n: "n = Suc m" by (cases n) auto
  let ?d = "d\<lparr>remaining := r' # rest', anyDrainThrew := anyDrainThrew d \<or> \<not> drained (deadlineMs d) r\<rparr>"
  let ?h = "(call_next ?d h)\<lparr>draining := [?d]\<rparr>"
  have step: "drain_step 0 now h = (None, ?h)"
    using Cons.prems by (simp add: drain_step_def Let_def)
  have "drain_loop m now ?h = (Some (Inr ()), at_phase now
       (if anyDrainThrew ?d \<or> (\<exists>x \<in> set (r' # rest'). \<not> drained (deadlineMs ?d) x) then FAILED else STOPPED)
       (?h\<lparr>draining := [],
          shutdowns := shutdowns ?h @ map (\<lambda>x. (record_name x, deadlineMs ?d)) rest'\<rparr>))"
    by (rule Cons.IH) (use Cons.prems n in simp_all)
  then show ?case by (simp add: n step call_next_def)
qed

lemma deadline_sum: "0 \<le> t \<Longrightarrow> n > 0 \<Longrightarrow> int n * deadline_for t n \<le> t"
  by (simp add: deadline_for_def) (metis add.commute mult.commute mult_div_mod_eq
      pos_mod_sign le_add_same_cancel1 of_nat_0_less_iff)

text \<open>C14: From RUNNING, with nothing else at its awaits, \<open>stop\<close> returns normally after
  calling the shutdown of every registered module exactly once, last registered first, each
  with an equal share of the timeout that adds up to at most the whole; the kernel ends in
  STOPPED if every module settled in its share and in FAILED otherwise.\<close>

theorem stop_drains_every_module:
  assumes "quiet h" and "kernel_phase h = RUNNING" and "draining h = []"
  shows "\<exists>h'. stop now h = (Some (Inr ()), h') \<and>
    (let rs = getModules (registry h);
         deadline = deadline_for (hermesShutdownTimeoutMs (config h)) (length rs)
     in shutdowns h' = shutdowns h @ map (\<lambda>r. (record_name r, deadline)) (rev rs) \<and>
        (kernel_phase h' = (if \<forall>r \<in> set rs. drained deadline r then STOPPED else FAILED)) \<and>
        draining h' = [] \<and>
        (0 \<le> hermesShutdownTimeoutMs (config h) \<and> rs \<noteq> [] \<longrightarrow>
           int (length rs) * deadline \<le> hermesShutdownTimeoutMs (config h)))"
proof -
  let ?rs = "getModules (registry h)"
  let ?dl = "deadline_for (hermesShutdownTimeoutMs (config h)) (length ?rs)"
  let ?h1 = "at_phase now STOPPING h"
  have t: "kernel_transition now STOPPING h = Inr ?h1"
    using assms by (simp add: kernel_phases)
  have q: "quiet ?h1" using assms(1) by simp
  have sum: "0 \<le> hermesShutdownTimeoutMs (config h) \<and> ?rs \<noteq> [] \<longrightarrow>
      int (length ?rs) * ?dl \<le> hermesShutdownTimeoutMs (config h)"
    using deadline_sum [of "hermesShutdownTimeoutMs (config h)" "length ?rs"] by simp
  show ?thesis
  proof (cases "?rs = []")
    case True
    then have "stop now h = (Some (Inr ()), at_phase now STOPPED ?h1)"
      using assms t q by (simp add: stop_def stop_begin_def Let_def end_drain_def finish_stop_def
          kernel_phases split: prod.splits)
    with True assms show ?thesis by (simp add: currentPhase_def)
  next
    case False
    then obtain r rest where rr: "rev ?rs = r # rest" by (cases "rev ?rs") auto
    let ?d = "\<lparr>remaining = r # rest, drain_count = length ?rs, deadlineMs = ?dl, anyDrainThrew = False\<rparr>"
    let ?h2 = "(call_next ?d ?h1)\<lparr>draining := [?d]\<rparr>"
    have b: "stop_begin now h = (None, ?h2)"
      using assms t False rr by (simp add: stop_begin_def Let_def currentPhase_def)
    have len: "length ?rs = Suc (length rest)" using rr by (metis length_Cons length_rev)
    have set_rs: "set (r # rest) = set ?rs" using rr by (metis set_rev)
    have "drain_loop (moduleCount (registry ?h2)) now ?h2 =
      (Some (Inr ()), at_phase now
         (if anyDrainThrew ?d \<or> (\<exists>x \<in> set (r # rest). \<not> drained (deadlineMs ?d) x) then FAILED else STOPPED)
         (?h2\<lparr>draining := [], shutdowns := shutdowns ?h2 @ map (\<lambda>x. (record_name x, deadlineMs ?d)) rest\<rparr>))"
      by (rule drain_loop_single [where r = r and rest = rest])
        (use q len in \<open>simp_all add: moduleCount_def getModules_def\<close>)
    then have "stop now h = (Some (Inr ()), at_phase now
         (if \<exists>x \<in> set ?rs. \<not> drained ?dl x then FAILED else STOPPED)
         (?h2\<lparr>draining := [], shutdowns := shutdowns h @ map (\<lambda>x. (record_name x, ?dl)) (r # rest)\<rparr>))"
      unfolding stop_def b set_rs [symmetric] by simp
    with sum rr show ?thesis by (auto simp: Let_def currentPhase_def)
  qed
qed

definition running_kernel :: hermes where
  "running_kernel =
     (let h = createHermes sample_config plain_options;
          reg = snd (registerModule 6 memory_spec (snd (registerModule 5 core_spec (registry h))))
      in at_phase 7 RUNNING (h\<lparr>registry := reg\<rparr>))"

lemma running_kernel_facts:
  "quiet running_kernel" "kernel_phase running_kernel = RUNNING" "draining running_kernel = []"
  "getModules (registry running_kernel) =
     [\<lparr>spec = core_spec, registeredAt = 5, healthStatus = unknown\<rparr>,
      \<lparr>spec = memory_spec, registeredAt = 6, healthStatus = unknown\<rparr>]"
  "hermesShutdownTimeoutMs (config running_kernel) = 1000" "shutdowns running_kernel = []"
  using quiet_create [of plain_options sample_config]
  by (simp_all add: running_kernel_def currentPhase_def Let_def plain_options_def)
    (simp_all add: createHermes_def Let_def getModules_def registry_eval sample_config_def)

lemma stop_drains_every_module_witness:
  "\<exists>h'. stop 9 running_kernel = (Some (Inr ()), h') \<and> kernel_phase h' = STOPPED \<and>
     shutdowns h' = [(''memory'', 500), (''core'', 500)]"
  using stop_drains_every_module [OF running_kernel_facts (1-3), of 9]
  by (auto simp: running_kernel_facts deadline_for_def drained_def memory_spec_def core_spec_def)

end
