(* ===== verification/HermesShutdown.thy ===== *)
theory HermesShutdown
  imports HermesKernelFacts
begin

text \<open>
  Shutting down under interleaving: calls of the kernel, several of them \<open>stop\<close>, run at the
  awaits of a drain, and the host moves the lifecycle it shares with the kernel.
\<close>

subsection \<open>The invariant of hosted kernels\<close>

definition draining_ok :: "drain list \<Rightarrow> (string \<times> int) list \<Rightarrow> bool" where
  "draining_ok ds calls \<longleftrightarrow> (case ds of
     [] \<Rightarrow> distinct (map fst calls)
   | d # ds' \<Rightarrow> ds' = [] \<and> drain_count d > 0 \<and> remaining d \<noteq> [] \<and>
       distinct (map fst calls @ map record_name (tl (remaining d))))"

definition hosted_inv :: "hermes \<Rightarrow> bool" where
  "hosted_inv h \<longleftrightarrow> quiet h \<and> registry_inv (registry h) \<and> draining_ok (draining h) (shutdowns h) \<and>
     (phase (lifecycle h) \<in> {INITIALIZING, STARTING, RUNNING} \<longrightarrow> draining h = [] \<and> shutdowns h = [])"

lemma snd_case_Some [simp]: "snd (case x of (r, h) \<Rightarrow> (Some r, h)) = snd x"
  by (simp split: prod.split)

lemma legal_before_stopping:
  "to \<in> set (LEGAL_TRANSITIONS p) \<Longrightarrow> to \<in> {INITIALIZING, STARTING, RUNNING} \<Longrightarrow>
     p \<in> {INITIALIZING, STARTING, RUNNING}"
  by (cases p) auto

lemma hosted_inv_at_phase:
  assumes "hosted_inv h" and "to \<in> set (LEGAL_TRANSITIONS (phase (lifecycle h)))"
  shows "hosted_inv (at_phase now to h)"
  using assms legal_before_stopping [of to "phase (lifecycle h)"]
  by (auto simp: hosted_inv_def)

lemma hosted_inv_try:
  assumes "hosted_inv h"
  shows "hosted_inv (kernel_try now to h)"
proof -
  from assms have "quiet h" by (simp add: hosted_inv_def)
  with assms show ?thesis by (simp add: kernel_try_quiet hosted_inv_at_phase)
qed

lemma hosted_inv_transition:
  assumes "hosted_inv h" and "kernel_transition now to h = Inr h'"
  shows "hosted_inv h'"
proof -
  have "h' = kernel_try now to h" using assms(2) by (simp add: kernel_try_def)
  with hosted_inv_try [OF assms(1)] show ?thesis by simp
qed

lemma hosted_inv_end_drain:
  "hosted_inv h \<Longrightarrow> end_drain now d h = Inr h' \<Longrightarrow> hosted_inv h'"
  by (auto simp: end_drain_def split: if_splits sum.splits dest: hosted_inv_transition)

lemma hosted_inv_finish:
  "hosted_inv h \<Longrightarrow> hosted_inv (snd (finish_stop now (end_drain now d h) h))"
  by (auto simp: finish_stop_def hosted_inv_try split: sum.split dest: hosted_inv_end_drain)

lemma hosted_inv_registry:
  "hosted_inv h \<Longrightarrow> registry_inv reg \<Longrightarrow> hosted_inv (h\<lparr>registry := reg\<rparr>)"
  by (simp add: hosted_inv_def draining_ok_def)

lemma hosted_inv_stop_begin:
  assumes "hosted_inv h"
  shows "hosted_inv (snd (stop_begin now h))"
proof -
  consider (over) "kernel_phase h \<in> {STOPPED, FAILED}"
    | (refused) e where "kernel_phase h \<notin> {STOPPED, FAILED}" "kernel_transition now STOPPING h = Inl e"
    | (begun) h1 where "kernel_phase h \<notin> {STOPPED, FAILED}" "kernel_transition now STOPPING h = Inr h1"
    by (cases "kernel_transition now STOPPING h") blast+
  then show ?thesis
  proof cases
    case over
    with assms show ?thesis by (auto simp: stop_begin_def)
  next
    case refused
    then show ?thesis
      using hosted_inv_try [OF assms, of now FAILED]
      by (simp add: stop_begin_def finish_stop_def)
  next
    case begun
    from assms have q: "quiet h" by (simp add: hosted_inv_def)
    from begun(2) have h1: "h1 = at_phase now STOPPING h" and r: "phase (lifecycle h) = RUNNING"
      using q by (cases "phase (lifecycle h)", simp_all add: kernel_transition_quiet)+
    from assms r have e: "draining h = []" "shutdowns h = []" and d: "distinct (names_of (registry h))"
      by (simp_all add: hosted_inv_def registry_inv_def index_ok_def)
    note inv = hosted_inv_transition [OF assms begun(2)]
    show ?thesis
    proof (cases "getModules (registry h1) = []")
      case True
      with begun show ?thesis using hosted_inv_finish [OF inv]
        by (simp add: stop_begin_def Let_def)
    next
      case False
      let ?rs = "getModules (registry h1)"
      let ?d = "\<lparr>remaining = rev ?rs, drain_count = length ?rs,
        deadlineMs = deadline_for (hermesShutdownTimeoutMs (config h1)) (length ?rs),
        anyDrainThrew = False\<rparr>"
      from False obtain x xs where rr: "rev ?rs = x # xs" by (cases "rev ?rs") auto
      have "distinct (map record_name (rev ?rs))"
        using d by (simp add: h1 names_of_def getModules_def rev_map [symmetric])
      moreover have "snd (stop_begin now h) = (call_next ?d h1)\<lparr>draining := draining h1 @ [?d]\<rparr>"
        using begun False by (simp add: stop_begin_def Let_def)
      ultimately show ?thesis
        using inv e rr False by (auto simp: hosted_inv_def draining_ok_def h1)
    qed
  qed
qed

lemma hosted_inv_drain_step:
  assumes "hosted_inv h"
  shows "hosted_inv (snd (drain_step i now h))"
proof (cases "draining h")
  case Nil
  with assms show ?thesis by (simp add: drain_step_def)
next
  case (Cons d ds)
  with assms obtain r rest where dr: "draining h = [d]" "remaining d = r # rest" "drain_count d > 0"
    "distinct (map fst (shutdowns h) @ map record_name rest)"
    by (auto simp: hosted_inv_def draining_ok_def neq_Nil_conv)
  from assms Cons have ph: "phase (lifecycle h) \<notin> {INITIALIZING, STARTING, RUNNING}"
    by (auto simp: hosted_inv_def)
  show ?thesis
  proof (cases "i = 0 \<and> rest = []")
    case True
    have "hosted_inv (h\<lparr>draining := []\<rparr>)"
      using assms dr ph by (auto simp: hosted_inv_def draining_ok_def)
    with True dr show ?thesis
      by (simp add: drain_step_def splice1_def Let_def hosted_inv_finish)
  next
    case False
    show ?thesis
    proof (cases "i = 0")
      case True
      with False obtain r' rest' where rest: "rest = r' # rest'" by (cases rest) auto
      with True dr assms ph show ?thesis
        by (auto simp: drain_step_def Let_def hosted_inv_def draining_ok_def)
    next
      case False
      with dr assms show ?thesis by (simp add: drain_step_def)
    qed
  qed
qed

lemma hosted_inv_kernel_step: "kernel_step h h' \<Longrightarrow> hosted_inv h \<Longrightarrow> hosted_inv h'"
proof (induction rule: kernel_step.induct)
  case (starts h now)
  then show ?case
    by (auto simp: start_def split: sum.split dest: hosted_inv_transition)
next
  case (stops h now)
  then show ?case by (rule hosted_inv_stop_begin)
next
  case (drains h i now)
  then show ?case by (rule hosted_inv_drain_step)
next
  case (registers_module h now s)
  then have "registry_inv (snd (registerModule now s (registry h)))"
    by (simp add: hosted_inv_def registry_inv_register)
  with registers_module show ?case
    by (auto simp: kernel_registerModule_def Let_def hosted_inv_try hosted_inv_registry
        split: option.split sum.split prod.split)
next
  case (unregisters_module h n)
  then have "registry_inv (snd (unregisterModule n (registry h)))"
    by (simp add: hosted_inv_def registry_inv_unregister)
  with unregisters_module show ?case
    by (auto simp: kernel_unregisterModule_def hosted_inv_registry split: option.split prod.split)
next
  case (checks_health h now)
  then show ?case by (auto simp: kernel_health_def hosted_inv_def split: prod.split)
qed

lemma hosted_inv_step: "hosted_step h h' \<Longrightarrow> hosted_inv h \<Longrightarrow> hosted_inv h'"
  by (induction rule: hosted_step.induct) (auto intro: hosted_inv_kernel_step hosted_inv_try)

lemma hosted_inv_steps: "hosted_steps h h' \<Longrightarrow> hosted_inv h \<Longrightarrow> hosted_inv h'"
  by (induction rule: rtranclp_induct) (auto intro: hosted_inv_step)

lemma hosted_inv_create:
  assumes "lifecycle_option opts = None" and "registry_option opts = None"
  shows "hosted_inv (createHermes cfg opts)"
  using assms quiet_create [of opts cfg] registry_inv_create
  by (simp add: hosted_inv_def draining_ok_def)
    (simp add: createHermes_def Let_def)

subsection \<open>Properties\<close>

text \<open>C13: However calls of the kernel, other calls of \<open>stop\<close> included, and moves of the
  shared lifecycle interleave, each module is asked to shut down at most once, at most one
  call of \<open>stop\<close> is ever draining, and no module is asked before the kernel left RUNNING.\<close>

theorem modules_shut_down_at_most_once:
  assumes "lifecycle_option opts = None" and "registry_option opts = None"
    and "hosted_steps (createHermes cfg opts) h"
  shows "distinct (map fst (shutdowns h)) \<and> length (draining h) \<le> 1 \<and>
    (shutdowns h \<noteq> [] \<longrightarrow> kernel_phase h \<in> {STOPPING, STOPPED, FAILED})"
proof -
  from hosted_inv_steps [OF assms(3) hosted_inv_create [OF assms(1,2)]] have inv: "hosted_inv h" .
  then have "distinct (map fst (shutdowns h)) \<and> length (draining h) \<le> 1"
    by (auto simp: hosted_inv_def draining_ok_def split: list.splits)
  moreover from inv have "shutdowns h \<noteq> [] \<longrightarrow> kernel_phase h \<in> {STOPPING, STOPPED, FAILED}"
    by (cases "phase (lifecycle h)") (auto simp: hosted_inv_def currentPhase_def)
  ultimately show ?thesis by blast
qed

definition hosted_history :: hermes where
  "hosted_history =
     (let h1 = snd (start 1 (createHermes sample_config plain_options));
          h2 = snd (kernel_registerModule 2 core_spec h1);
          h3 = kernel_try 3 RUNNING h2
      in snd (stop_begin 4 h3))"

lemma hosted_history_reachable: "hosted_steps (createHermes sample_config plain_options) hosted_history"
proof -
  let ?k0 = "createHermes sample_config plain_options"
  let ?k1 = "snd (start 1 ?k0)"
  let ?k2 = "snd (kernel_registerModule 2 core_spec ?k1)"
  let ?k3 = "kernel_try 3 RUNNING ?k2"
  have "hosted_step ?k0 ?k1" "hosted_step ?k1 ?k2" "hosted_step ?k2 ?k3" "hosted_step ?k3 hosted_history"
    unfolding hosted_history_def Let_def by (intro hosted_step.intros kernel_step.intros)+
  then show ?thesis by (meson converse_rtranclp_into_rtranclp rtranclp.rtrancl_refl)
qed

lemma hosted_history_facts:
  "shutdowns hosted_history = [(''core'', 1000)]" (is ?A)
  "kernel_phase hosted_history = STOPPING" (is ?B)
  "draining hosted_history = [\<lparr>remaining = [\<lparr>spec = core_spec, registeredAt = 2,
     healthStatus = unknown\<rparr>], drain_count = 1, deadlineMs = 1000, anyDrainThrew = False\<rparr>]" (is ?C)
proof -
  let ?k0 = "createHermes sample_config plain_options"
  have q: "quiet ?k0" by (rule quiet_create) (simp add: plain_options_def)
  have ph: "phase (lifecycle ?k0) = INITIALIZING" and reg: "registry ?k0 = createHermesModuleRegistry"
    and cfg: "hermesShutdownTimeoutMs (config ?k0) = 1000" and sh: "shutdowns ?k0 = []"
    and dr: "draining ?k0 = []"
    by (simp_all add: createHermes_def plain_options_def createHermesLifecycle_def onTransition_def
        sample_config_def Let_def)
  from q ph have k1: "snd (start 1 ?k0) = at_phase 1 STARTING ?k0"
    by (simp add: start_def kernel_phases)
  define r where "r = snd (registerModule 2 core_spec createHermesModuleRegistry)"
  have rr: "registerModule 2 core_spec createHermesModuleRegistry = (Inr (), r)"
    and rl: "getModules r = [\<lparr>spec = core_spec, registeredAt = 2, healthStatus = unknown\<rparr>]"
    by (simp_all add: r_def getModules_def registry_eval)
  have k2: "snd (kernel_registerModule 2 core_spec (at_phase 1 STARTING ?k0)) =
      (at_phase 1 STARTING ?k0)\<lparr>registry := r\<rparr>"
    by (simp add: kernel_registerModule_def assertPhase_def currentPhase_def reg rr)
  from q have k3: "kernel_try 3 RUNNING ((at_phase 1 STARTING ?k0)\<lparr>registry := r\<rparr>) =
      at_phase 3 RUNNING ((at_phase 1 STARTING ?k0)\<lparr>registry := r\<rparr>)"
    by (simp add: kernel_try_quiet)
  have "?A \<and> ?B \<and> ?C"
    unfolding hosted_history_def Let_def k1 k2 k3
    using q by (simp add: stop_begin_def kernel_phases rl sh dr cfg deadline_for_def Let_def)
      (simp add: core_spec_def)
  then show ?A ?B ?C by blast+
qed

lemma modules_shut_down_at_most_once_witness:
  "distinct (map fst (shutdowns hosted_history)) \<and> shutdowns hosted_history = [(''core'', 1000)] \<and>
   kernel_phase hosted_history \<in> {STOPPING, STOPPED, FAILED}"
proof -
  have o1: "lifecycle_option plain_options = None" "registry_option plain_options = None"
    by (simp_all add: plain_options_def)
  from modules_shut_down_at_most_once [OF o1 hosted_history_reachable] hosted_history_facts(1)
  show ?thesis by simp
qed

text \<open>A second call of \<open>stop\<close> while the first one drains returns an error and leaves
  the kernel FAILED; the first call then returns an error as well, although every module
  shuts down in time.\<close>

theorem second_stop_fails_the_drain:
  assumes "hosted_inv h" and "kernel_phase h = STOPPING" and "draining h = [d]"
    and "\<forall>r \<in> set (remaining d). drained (deadlineMs d) r" and "\<not> anyDrainThrew d"
  shows "fst (stop_begin now h) = Some (Inl (illegal_error STOPPING STOPPING)) \<and>
    kernel_phase (snd (stop_begin now h)) = FAILED \<and>
    fst (drain_loop (length (remaining d)) later (snd (stop_begin now h))) =
      Some (Inl (terminal_error FAILED))"
proof -
  from assms have q: "quiet h" and ne: "remaining d \<noteq> []"
    by (simp_all add: hosted_inv_def draining_ok_def)
  have s: "stop_begin now h = (Some (Inl (illegal_error STOPPING STOPPING)), at_phase now FAILED h)"
    using q assms(2) by (simp add: stop_begin_def finish_stop_def kernel_phases refusal_def)
  have "quiet k \<Longrightarrow> phase (lifecycle k) = FAILED \<Longrightarrow> draining k = [e] \<Longrightarrow> remaining e = r # rest \<Longrightarrow>
      \<not> anyDrainThrew e \<Longrightarrow> \<forall>x \<in> set (r # rest). drained (deadlineMs e) x \<Longrightarrow>
      fst (drain_loop (length (r # rest)) later k) = Some (Inl (terminal_error FAILED))" for k e r rest
  proof (induction rest arbitrary: r e k)
    case Nil
    then show ?case
      by (simp add: drain_step_def splice1_def end_drain_def finish_stop_def kernel_phases
          refusal_def Let_def)
  next
    case (Cons r' rest')
    let ?e = "e\<lparr>remaining := r' # rest', anyDrainThrew := False\<rparr>"
    let ?k = "(call_next ?e k)\<lparr>draining := [?e]\<rparr>"
    have "drain_step 0 later k = (None, ?k)"
      using Cons.prems by (simp add: drain_step_def Let_def)
    moreover have "fst (drain_loop (length (r' # rest')) later ?k) = Some (Inl (terminal_error FAILED))"
      by (rule Cons.IH [of _ ?e]) (use Cons.prems in simp_all)
    ultimately show ?case by simp
  qed
  from this [of "at_phase now FAILED h" d] q assms ne s show ?thesis
    by (auto simp: neq_Nil_conv currentPhase_def)
qed

lemma second_stop_fails_the_drain_witness:
  "fst (stop_begin 5 hosted_history) = Some (Inl (illegal_error STOPPING STOPPING)) \<and>
   fst (drain_loop 1 6 (snd (stop_begin 5 hosted_history))) = Some (Inl (terminal_error FAILED))"
proof -
  have "hosted_inv (createHermes sample_config plain_options)"
    by (rule hosted_inv_create) (simp_all add: plain_options_def)
  then have "hosted_inv hosted_history" by (rule hosted_inv_steps [OF hosted_history_reachable])
  from second_stop_fails_the_drain [OF this hosted_history_facts(2,3), of 5 6] show ?thesis
    by (simp add: drained_def core_spec_def)
qed

end
