(* ===== verification/HermesPlugins.thy ===== *)
theory HermesPlugins
  imports HermesRegistryFacts "HOL-Library.List_Lexorder" "HOL-Library.Char_ord"
begin

text \<open>
  The plugin loader of the kernel (packages/hermes/src/HermesPluginLoader.ts). The file system
  and the dynamic import are ports of the loader, so they are parameters. What a plugin's
  \<open>register\<close> does with the facade is a tree: it registers a spec, sees the result and goes
  on, until it returns or throws; its other calls do not reach the registry.
\<close>

record entry_source =
  path :: string
  content :: string

record file_system =
  fs_list :: "string list"
  fs_isFile :: "string \<Rightarrow> bool"
  fs_read :: "string \<Rightarrow> string"

datatype plugin_body =
    Returns
  | Throws string
  | Registers module_spec "string + unit \<Rightarrow> plugin_body"

text \<open>What an import gives: an exception, a module without \<open>register\<close>, or its body.\<close>

datatype imported = Import_error string | No_register | Register plugin_body

type_synonym dynamic_import = "string \<Rightarrow> string \<Rightarrow> imported"

datatype load_outcome = Outcome_registered string | Outcome_no_spec

record load_summary =
  registered :: "string list"
  skipped :: "string list"

definition SUPPORTED_EXTENSIONS :: "string list" where
  "SUPPORTED_EXTENSIONS = [''.ts'', ''.js'', ''.mjs'', ''.cjs'']"

text \<open>
  \<open>extname\<close> of a file name: from its last dot on, unless that dot is the first character.
\<close>

definition extname :: "string \<Rightarrow> string" where
  "extname n = (let stem = rev (dropWhile (\<lambda>c. c \<noteq> CHR ''.'') (rev n)) in
     if length stem \<le> 1 then '''' else CHR ''.'' # rev (takeWhile (\<lambda>c. c \<noteq> CHR ''.'') (rev n)))"

definition lower :: "string \<Rightarrow> string" where
  "lower = map (\<lambda>c. if CHR ''A'' \<le> c \<and> c \<le> CHR ''Z'' then char_of (of_char c + (32 :: nat)) else c)"

definition validatePlugin :: "entry_source \<Rightarrow> string + string" where
  "validatePlugin entry =
     (if path entry = [] then Inl ''Plugin entry path is empty.''
      else if content entry = []
      then Inl (''Plugin entry '' @ quoted (path entry) @ '' has empty content.'')
      else Inr (path entry))"

text \<open>\<open>full\<close> joins the modules directory and a name; the sort is stable on the paths.\<close>

definition entries :: "(string \<Rightarrow> string) \<Rightarrow> file_system \<Rightarrow> entry_source list" where
  "entries full fs = sort_key path
     (map (\<lambda>n. \<lparr>path = full n, content = fs_read fs (full n)\<rparr>)
       (filter (\<lambda>n. fs_isFile fs (full n) \<and> lower (extname n) \<in> set SUPPORTED_EXTENSIONS)
         (fs_list fs)))"

text \<open>The body run on the facade: every spec reaches the registry.\<close>

primrec run_body :: "instant \<Rightarrow> plugin_body \<Rightarrow> module_registry \<Rightarrow> string option \<times> module_registry" where
  "run_body now Returns reg = (None, reg)"
| "run_body now (Throws e) reg = (Some e, reg)"
| "run_body now (Registers s k) reg =
     run_body now (k (fst (registerModule now s reg))) (snd (registerModule now s reg))"

definition importEntry :: "dynamic_import option \<Rightarrow> entry_source \<Rightarrow> string + plugin_body" where
  "importEntry dyn source = (case dyn of
     None \<Rightarrow> Inl (''HermesPluginLoader: dynamic import port not configured. Cannot import ''
               @ quoted (path source) @ ''.'')
   | Some f \<Rightarrow> (case f (path source) (content source) of
       Import_error e \<Rightarrow> Inl e
     | No_register \<Rightarrow> Inl (''Plugin entry '' @ quoted (path source)
                        @ '' does not export a register() function.'')
     | Register body \<Rightarrow> Inr body))"

text \<open>The name of the last record when the registry has grown.\<close>

definition invokeEntry :: "instant \<Rightarrow> dynamic_import option \<Rightarrow> entry_source \<Rightarrow> module_registry
    \<Rightarrow> (string + string option) \<times> module_registry" where
  "invokeEntry now dyn entry reg = (case importEntry dyn entry of
     Inl e \<Rightarrow> (Inl e, reg)
   | Inr body \<Rightarrow> (case run_body now body reg of
       (Some e, reg') \<Rightarrow> (Inl e, reg')
     | (None, reg') \<Rightarrow>
         (Inr (if moduleCount reg' > moduleCount reg
               then Some (record_name (last (getModules reg'))) else None), reg')))"

definition loadPlugin :: "instant \<Rightarrow> dynamic_import option \<Rightarrow> entry_source \<Rightarrow> module_registry
    \<Rightarrow> (string + load_outcome) \<times> module_registry" where
  "loadPlugin now dyn entry reg = (case invokeEntry now dyn entry reg of
     (Inl e, reg') \<Rightarrow> (Inl e, reg')
   | (Inr n, reg') \<Rightarrow> (Inr (case n of Some m \<Rightarrow> if m \<noteq> [] then Outcome_registered m else Outcome_no_spec
                                    | None \<Rightarrow> Outcome_no_spec), reg'))"

text \<open>
  One pass over entries: what is registered and skipped so far is extended. The empty name
  is not counted as registered, as in the code's truth test.
\<close>

fun load_pass :: "instant \<Rightarrow> dynamic_import option \<Rightarrow> entry_source list \<Rightarrow> load_summary
    \<Rightarrow> module_registry \<Rightarrow> load_summary \<times> module_registry" where
  "load_pass now dyn [] acc reg = (acc, reg)"
| "load_pass now dyn (entry # es) acc reg = (case invokeEntry now dyn entry reg of
     (res, reg') \<Rightarrow> load_pass now dyn es
       (case res of
          Inr (Some n) \<Rightarrow> if n \<noteq> [] then acc\<lparr>registered := registered acc @ [n]\<rparr>
                         else acc\<lparr>skipped := skipped acc @ [path entry]\<rparr>
        | _ \<Rightarrow> acc\<lparr>skipped := skipped acc @ [path entry]\<rparr>) reg')"

definition loadPlugins :: "instant \<Rightarrow> dynamic_import option \<Rightarrow> (string \<Rightarrow> string) \<Rightarrow> file_system
    \<Rightarrow> module_registry \<Rightarrow> load_summary \<times> module_registry" where
  "loadPlugins now dyn full fs reg =
     (case load_pass now dyn (entries full fs) \<lparr>registered = [], skipped = []\<rparr> reg of
        (first, reg1) \<Rightarrow>
          if skipped first = [] then (first, reg1)
          else load_pass now dyn
            (map (\<lambda>p. \<lparr>path = p, content = fs_read fs p\<rparr>) (skipped first))
            (first\<lparr>skipped := []\<rparr>) reg1)"

definition unloadPlugin :: "string \<Rightarrow> module_registry \<Rightarrow> (string + unit) \<times> module_registry" where
  "unloadPlugin = unregisterModule"

subsection \<open>What a plugin can do to the registry\<close>

text \<open>A plugin only appends: the names before it stay where they are.\<close>

definition extends :: "module_registry \<Rightarrow> module_registry \<Rightarrow> string list \<Rightarrow> bool" where
  "extends reg reg' ns \<longleftrightarrow> registry_inv reg' \<and> names_of reg' = names_of reg @ ns"

lemma extends_trans: "extends a b ns \<Longrightarrow> extends b c ms \<Longrightarrow> extends a c (ns @ ms)"
  by (simp add: extends_def)

lemma extends_register:
  assumes "registry_inv reg"
  shows "\<exists>ns. extends reg (snd (registerModule now s reg)) ns"
  using registry_inv_register [OF assms, of now s] registerModule_error [of now s reg]
    registerModule_appends [of now s reg]
  by (cases "fst (registerModule now s reg)") (auto simp: extends_def names_of_def Let_def)

lemma extends_body: "registry_inv reg \<Longrightarrow> \<exists>ns. extends reg (snd (run_body now body reg)) ns"
proof (induction body arbitrary: reg)
  case (Registers s k)
  from extends_register [OF Registers.prems] obtain ns
    where ns: "extends reg (snd (registerModule now s reg)) ns" by blast
  then have "registry_inv (snd (registerModule now s reg))" by (simp add: extends_def)
  from Registers.IH [OF _ this] obtain ms where
    "extends (snd (registerModule now s reg))
       (snd (run_body now (Registers s k) reg)) ms" by fastforce
  with ns extends_trans show ?case by blast
qed (auto simp: extends_def)

lemma extends_invoke:
  assumes "registry_inv reg" and "invokeEntry now dyn entry reg = (res, reg')"
  shows "\<exists>ns. extends reg reg' ns \<and> (\<forall>n. res = Inr (Some n) \<longrightarrow> n \<in> set ns)"
proof (cases "importEntry dyn entry")
  case (Inl e)
  with assms show ?thesis by (auto simp: invokeEntry_def extends_def)
next
  case (Inr body)
  from extends_body [OF assms(1), of now body] obtain ns
    where ns: "extends reg (snd (run_body now body reg)) ns" by blast
  then have reg': "reg' = snd (run_body now body reg)"
    using assms(2) Inr by (auto simp: invokeEntry_def split: prod.splits option.splits)
  have "n \<in> set ns" if "res = Inr (Some n)" for n
  proof -
    from that assms(2) Inr reg' have grow: "moduleCount reg' > moduleCount reg"
      and n: "n = record_name (last (getModules reg'))"
      by (auto simp: invokeEntry_def split: prod.splits option.splits if_splits)
    from ns reg' have eq: "names_of reg' = names_of reg @ ns" by (simp add: extends_def)
    moreover have "length (names_of reg') > length (names_of reg)"
      using grow by (simp add: moduleCount_def names_of_def)
    ultimately have "ns \<noteq> []" by auto
    moreover from this eq have "last (names_of reg') = last ns" by simp
    moreover from \<open>ns \<noteq> []\<close> eq have "getModules reg' \<noteq> []"
      by (auto simp: names_of_def getModules_def)
    ultimately show ?thesis using n
      by (metis names_of_def getModules_def last_in_set last_map)
  qed
  with ns reg' show ?thesis by blast
qed

text \<open>A pass: its accumulator grows by names that are new in the registry.\<close>

lemma load_pass_facts:
  assumes "registry_inv reg" and "load_pass now dyn es acc reg = (acc', reg')"
  shows "\<exists>ns new. extends reg reg' ns \<and> registered acc' = registered acc @ new \<and>
    distinct new \<and> set new \<subseteq> set ns \<and>
    length new + length (skipped acc') = length es + length (skipped acc)"
  using assms
proof (induction es arbitrary: acc reg)
  case Nil
  then show ?case by (intro exI [of _ "[]"]) (simp add: extends_def)
next
  case (Cons entry es)
  obtain res reg1 where i: "invokeEntry now dyn entry reg = (res, reg1)" by force
  from extends_invoke [OF Cons.prems(1) i] obtain ns1
    where e1: "extends reg reg1 ns1" and m1: "\<forall>n. res = Inr (Some n) \<longrightarrow> n \<in> set ns1" by blast
  define acc1 where "acc1 = (case res of
      Inr (Some n) \<Rightarrow> if n \<noteq> [] then acc\<lparr>registered := registered acc @ [n]\<rparr>
                     else acc\<lparr>skipped := skipped acc @ [path entry]\<rparr>
    | _ \<Rightarrow> acc\<lparr>skipped := skipped acc @ [path entry]\<rparr>)"
  from Cons.prems(2) i have "load_pass now dyn es acc1 reg1 = (acc', reg')"
    by (simp add: acc1_def)
  with Cons.IH e1 obtain ns2 new2 where e2: "extends reg1 reg' ns2"
    and r2: "registered acc' = registered acc1 @ new2" and d2: "distinct new2" "set new2 \<subseteq> set ns2"
    and l2: "length new2 + length (skipped acc') = length es + length (skipped acc1)"
    unfolding extends_def by blast
  define new1 where "new1 = (case res of Inr (Some n) \<Rightarrow> if n \<noteq> [] then [n] else [] | _ \<Rightarrow> [])"
  have a1: "registered acc1 = registered acc @ new1" "set new1 \<subseteq> set ns1" "distinct new1"
    "length new1 + length (skipped acc1) = Suc (length (skipped acc))"
    using m1 by (auto simp: acc1_def new1_def split: sum.split option.split)
  from e1 e2 have e: "extends reg reg' (ns1 @ ns2)" by (rule extends_trans)
  then have "distinct (ns1 @ ns2)"
    by (auto simp: extends_def registry_inv_def index_ok_def)
  with a1 d2 have "distinct (new1 @ new2)" by auto
  with e a1 r2 d2 l2 show ?case
    by (intro exI [of _ "ns1 @ ns2"] exI [of _ "new1 @ new2"]) auto
qed

subsection \<open>Properties\<close>

text \<open>Loading a directory only appends modules to the registry. Every name reported as
  registered is a module the load added, no name is reported twice, and each entry of the
  directory is either reported as registered or skipped, in the first pass or the retry.\<close>

theorem load_summary_sound:
  assumes "registry_steps createHermesModuleRegistry reg"
    and "loadPlugins now dyn full fs reg = (summary, reg')"
  shows "\<exists>ns. names_of reg' = names_of reg @ ns \<and> distinct (names_of reg') \<and>
    set (registered summary) \<subseteq> set ns \<and> distinct (registered summary) \<and>
    length (registered summary) + length (skipped summary) = length (entries full fs)"
proof -
  let ?es = "entries full fs"
  obtain first reg1 where p: "load_pass now dyn ?es \<lparr>registered = [], skipped = []\<rparr> reg = (first, reg1)"
    by force
  from load_pass_facts [OF registry_inv_reachable [OF assms(1)] p] obtain ns1
    where e1: "extends reg reg1 ns1" and r1: "distinct (registered first)"
      "set (registered first) \<subseteq> set ns1"
      "length (registered first) + length (skipped first) = length ?es" by auto
  have dist: "extends reg r ns \<Longrightarrow> distinct (names_of r)" for r ns
    unfolding extends_def registry_inv_def index_ok_def by blast
  show ?thesis
  proof (cases "skipped first = []")
    case True
    with assms(2) p have "summary = first" "reg' = reg1" by (simp_all add: loadPlugins_def)
    with e1 r1 dist [OF e1] show ?thesis by (auto simp: extends_def)
  next
    case False
    with assms(2) p have "load_pass now dyn (map (\<lambda>p. \<lparr>path = p, content = fs_read fs p\<rparr>) (skipped first))
        (first\<lparr>skipped := []\<rparr>) reg1 = (summary, reg')" by (simp add: loadPlugins_def)
    from load_pass_facts [OF _ this] e1 obtain ns2 new2 where e2: "extends reg1 reg' ns2"
      and r2: "registered summary = registered first @ new2" "distinct new2" "set new2 \<subseteq> set ns2"
        "length new2 + length (skipped summary) = length (skipped first)"
      by (auto simp: extends_def)
    note e = extends_trans [OF e1 e2]
    from dist [OF e] e have "distinct (ns1 @ ns2)" by (auto simp: extends_def)
    with r1 r2 e dist [OF e] show ?thesis
      by (intro exI [of _ "ns1 @ ns2"]) (auto simp: extends_def)
  qed
qed

text \<open>Two entries in the wrong order for their dependency: the retry loads the first.\<close>

definition sample_fs :: file_system where
  "sample_fs = \<lparr>fs_list = [''b.ts'', ''a.ts'', ''notes.md''], fs_isFile = (\<lambda>_. True), fs_read = (\<lambda>_. ''x'')\<rparr>"

definition sample_import :: dynamic_import where
  "sample_import p c =
     (if p = ''a.ts'' then Register (Registers memory_spec
         (\<lambda>r. case r of Inl e \<Rightarrow> Throws e | Inr _ \<Rightarrow> Returns))
      else Register (Registers core_spec (\<lambda>_. Returns)))"

lemma sample_entries: "entries id sample_fs = [\<lparr>path = ''a.ts'', content = ''x''\<rparr>, \<lparr>path = ''b.ts'', content = ''x''\<rparr>]"
  by (simp add: entries_def sample_fs_def extname_def lower_def SUPPORTED_EXTENSIONS_def Let_def)

lemma sample_load:
  "fst (loadPlugins 1 (Some sample_import) id sample_fs createHermesModuleRegistry) =
     \<lparr>registered = [''core'', ''memory''], skipped = []\<rparr>"
  by (simp add: loadPlugins_def sample_entries invokeEntry_def importEntry_def sample_import_def
      registry_eval moduleCount_def getModules_def)

lemma load_summary_sound_witness:
  "fst (loadPlugins 1 (Some sample_import) id sample_fs createHermesModuleRegistry) =
     \<lparr>registered = [''core'', ''memory''], skipped = []\<rparr> \<and>
   set [''core'', ''memory''] \<subseteq>
     set (names_of (snd (loadPlugins 1 (Some sample_import) id sample_fs createHermesModuleRegistry)))"
proof -
  obtain reg' where l: "loadPlugins 1 (Some sample_import) id sample_fs createHermesModuleRegistry =
      (\<lparr>registered = [''core'', ''memory''], skipped = []\<rparr>, reg')"
    using sample_load by (metis prod.collapse)
  from load_summary_sound [OF rtranclp.rtrancl_refl l] obtain ns where
    "names_of reg' = names_of createHermesModuleRegistry @ ns" "set [''core'', ''memory''] \<subseteq> set ns"
    by (metis load_summary.select_convs(1))
  with l show ?thesis by auto
qed

text \<open>A plugin that registers a fresh, complete module and then throws is reported as skipped
  by the load, although its module stays in the registry: the retry finds the name taken and
  counts no growth.\<close>

theorem throwing_plugin_skipped_but_registered:
  assumes "entries full fs = [entry]"
    and "\<And>c. f (path entry) c = Register (Registers s (\<lambda>_. Throws e))"
    and "name s \<noteq> []" and "healthCheck s \<noteq> None" and "shutdown s \<noteq> None" and "dependencies s = []"
  shows "case loadPlugins now (Some f) full fs createHermesModuleRegistry of (summary, reg') \<Rightarrow>
    registered summary = [] \<and> skipped summary = [path entry] \<and> names_of reg' = [name s]"
proof -
  define reg1 where "reg1 = snd (registerModule now s createHermesModuleRegistry)"
  have ok: "registerModule now s createHermesModuleRegistry = (Inr (), reg1)"
    and n1: "names_of reg1 = [name s]" and has: "jm_has (indexByName reg1) (name s)"
    using assms(3-6) by (auto simp: reg1_def registerModule_def assertSpec_def assertName_def
        createHermesModuleRegistry_def jm_has_def names_of_def Let_def)
  have inv: "invokeEntry now (Some f) \<lparr>path = path entry, content = c\<rparr> reg =
      (Inl e, snd (registerModule now s reg))" for c reg
    using assms(2) by (simp add: invokeEntry_def importEntry_def)
  have again: "snd (registerModule now s reg1) = reg1"
    using has by (simp add: registerModule_def split: option.split)
  have entry: "invokeEntry now (Some f) entry createHermesModuleRegistry = (Inl e, reg1)"
    using inv [of "content entry" createHermesModuleRegistry] ok by (cases entry) simp
  show ?thesis
    by (simp add: loadPlugins_def assms(1) entry inv again n1)
qed

lemma throwing_plugin_skipped_but_registered_witness:
  "let fs = sample_fs\<lparr>fs_list := [''b.ts'']\<rparr>;
       f = (\<lambda>p c. Register (Registers core_spec (\<lambda>_. Throws ''late'')))
   in fst (loadPlugins 1 (Some f) id fs createHermesModuleRegistry) =
      \<lparr>registered = [], skipped = [''b.ts'']\<rparr>"
proof -
  let ?fs = "sample_fs\<lparr>fs_list := [''b.ts'']\<rparr>"
  let ?f = "\<lambda>(p :: string) (c :: string). Register (Registers core_spec (\<lambda>_. Throws ''late''))"
  have "entries id ?fs = [\<lparr>path = ''b.ts'', content = ''x''\<rparr>]"
    by (simp add: entries_def sample_fs_def extname_def lower_def SUPPORTED_EXTENSIONS_def Let_def)
  from throwing_plugin_skipped_but_registered [OF this, where f = ?f and s = core_spec and now = 1 and e = "''late''"]
  show ?thesis by (auto simp: core_spec_def Let_def split: prod.splits)
qed

end
