(* ===== verification/HermesContainer.thy ===== *)
theory HermesContainer
  imports Prelude
begin

text \<open>
  The dependency container of the kernel (packages/hermes/src/HermesContainer.ts). A factory is
  foreign code: its n-th call gives an instance or throws a message. Factories that call the
  container back are outside the model.
\<close>

datatype scope = Singleton | Transient

record 'v binding =
  scope :: scope
  factory :: "nat \<Rightarrow> string + 'v"
  calls :: nat
  cached :: "'v option"

type_synonym 'v container = "(string, 'v binding) jmap"

definition createHermesContainer :: "'v container" where
  "createHermesContainer = []"

definition container_assertName :: "string \<Rightarrow> string option" where
  "container_assertName n =
     (if n = [] then Some ''HermesContainer: service name must be a non-empty string.'' else None)"

definition setBinding :: "string \<Rightarrow> scope \<Rightarrow> (nat \<Rightarrow> string + 'v) \<Rightarrow> 'v container \<Rightarrow> 'v container" where
  "setBinding n sc f c = jm_set n \<lparr>scope = sc, factory = f, calls = 0, cached = None\<rparr> c"

text \<open>An untyped caller may pass something that is no function, here \<open>None\<close>.\<close>

definition register_binding :: "string \<Rightarrow> (nat \<Rightarrow> string + 'v) option \<Rightarrow> scope \<Rightarrow> 'v container
    \<Rightarrow> (string + unit) \<times> 'v container" where
  "register_binding n f sc c = (case container_assertName n of
     Some e \<Rightarrow> (Inl e, c)
   | None \<Rightarrow> (case f of
       None \<Rightarrow> (Inl (''HermesContainer: factory for '' @ quoted n @ '' must be a function.''), c)
     | Some g \<Rightarrow> (Inr (), setBinding n sc g c)))"

definition register :: "string \<Rightarrow> (nat \<Rightarrow> string + 'v) option \<Rightarrow> 'v container
    \<Rightarrow> (string + unit) \<times> 'v container" where
  "register n f c = register_binding n f Singleton c"

definition singleton :: "string \<Rightarrow> (nat \<Rightarrow> string + 'v) option \<Rightarrow> 'v container
    \<Rightarrow> (string + unit) \<times> 'v container" where
  "singleton n f c = register_binding n f Singleton c"

definition transient :: "string \<Rightarrow> (nat \<Rightarrow> string + 'v) option \<Rightarrow> 'v container
    \<Rightarrow> (string + unit) \<times> 'v container" where
  "transient n f c = register_binding n f Transient c"

definition has :: "string \<Rightarrow> 'v container \<Rightarrow> string + bool" where
  "has n c = (case container_assertName n of Some e \<Rightarrow> Inl e | None \<Rightarrow> Inr (jm_has c n))"

definition call_factory :: "'v binding \<Rightarrow> (string + 'v) \<times> 'v binding" where
  "call_factory b = (factory b (calls b), b\<lparr>calls := Suc (calls b)\<rparr>)"

definition resolve :: "string \<Rightarrow> 'v container \<Rightarrow> (string + 'v) \<times> 'v container" where
  "resolve n c = (case container_assertName n of
     Some e \<Rightarrow> (Inl e, c)
   | None \<Rightarrow> (case jm_get c n of
       None \<Rightarrow> (Inl (''HermesContainer: service '' @ quoted n @ '' is not registered.''), c)
     | Some b \<Rightarrow>
         (case (scope b, cached b) of
            (Singleton, Some v) \<Rightarrow> (Inr v, c)
          | (Singleton, None) \<Rightarrow> (case call_factory b of
              (Inl e, b') \<Rightarrow> (Inl e, jm_set n b' c)
            | (Inr v, b') \<Rightarrow> (Inr v, jm_set n (b'\<lparr>cached := Some v\<rparr>) c))
          | (Transient, _) \<Rightarrow> (case call_factory b of (res, b') \<Rightarrow> (res, jm_set n b' c)))))"

text \<open>
  A service resolved once as a singleton keeps its instance through any further calls of
  \<open>resolve\<close>, and its factory is not called again.
\<close>

fun resolve_all :: "string list \<Rightarrow> 'v container \<Rightarrow> 'v container" where
  "resolve_all [] c = c"
| "resolve_all (n # ns) c = resolve_all ns (snd (resolve n c))"

lemma resolve_other: "m \<noteq> n \<Longrightarrow> jm_get (snd (resolve n c)) m = jm_get c m"
  by (simp add: resolve_def call_factory_def jm_get_set split: option.split sum.split scope.split)

lemma resolve_cached:
  "n \<noteq> [] \<Longrightarrow> jm_get c n = Some b \<Longrightarrow> scope b = Singleton \<Longrightarrow> cached b = Some v \<Longrightarrow>
     resolve n c = (Inr v, c)"
  by (simp add: resolve_def container_assertName_def)

lemma resolve_all_cached:
  "n \<noteq> [] \<Longrightarrow> jm_get c n = Some b \<Longrightarrow> scope b = Singleton \<Longrightarrow> cached b = Some v \<Longrightarrow>
     jm_get (resolve_all ns c) n = Some b"
proof (induction ns arbitrary: c)
  case (Cons m ns)
  have "jm_get (snd (resolve m c)) n = Some b"
  proof (cases "m = n")
    case True
    with Cons.prems resolve_cached [OF Cons.prems] show ?thesis by simp
  next
    case False
    with Cons.prems resolve_other [of n m c] show ?thesis by simp
  qed
  with Cons.IH Cons.prems show ?case by simp
qed simp

text \<open>Once \<open>resolve\<close> has given a singleton's instance, any later \<open>resolve\<close> of that
  name gives the same instance without calling the factory, whatever other services were
  resolved in between.\<close>

theorem singletons_are_created_once:
  assumes "jm_get c n = Some b" and "scope b = Singleton" and "resolve n c = (Inr v, c')"
  shows "fst (resolve n (resolve_all ns c')) = Inr v \<and>
    jm_get (resolve_all ns c') n = jm_get c' n"
proof -
  from assms have n: "n \<noteq> []" by (auto simp: resolve_def container_assertName_def)
  obtain b' where b': "jm_get c' n = Some b'" "scope b' = Singleton" "cached b' = Some v"
  proof (cases "cached b")
    case None
    with assms n that show ?thesis
      by (auto simp: resolve_def container_assertName_def call_factory_def split: sum.splits)
  next
    case (Some w)
    with assms n that show ?thesis
      by (auto simp: resolve_def container_assertName_def)
  qed
  from resolve_all_cached [OF n b', of ns] have "jm_get (resolve_all ns c') n = Some b'" .
  with resolve_cached [OF n this b'(2,3)] b' show ?thesis by simp
qed

lemma singletons_are_created_once_witness:
  "fst (resolve ''db'' (resolve_all [''db''] (snd (resolve ''db''
     (snd (register ''db'' (Some (\<lambda>n. Inr n)) createHermesContainer)))))) = Inr 0"
proof -
  let ?c = "snd (register ''db'' (Some (\<lambda>n. Inr n)) createHermesContainer) :: nat container"
  have g: "jm_get ?c ''db'' = Some \<lparr>scope = Singleton, factory = (\<lambda>n. Inr n), calls = 0, cached = None\<rparr>"
    by (simp add: register_def register_binding_def container_assertName_def setBinding_def
        createHermesContainer_def)
  have r: "resolve ''db'' ?c = (Inr 0, snd (resolve ''db'' ?c))"
    using g by (simp add: resolve_def container_assertName_def call_factory_def)
  from singletons_are_created_once [OF g _ r, of "[''db'']"] show ?thesis by simp
qed

end
