(* ===== verification/MemoryTypes.thy ===== *)
theory MemoryTypes
  imports JsObjects
begin

text \<open>
  The data of the memory package (packages/memory/src): records, queries, filters, scores and
  policies (MemoryTypes.ts), the error classes (MemoryErrors.ts) and the policy functions
  (MemoryPolicies.ts). Scores, weights and embeddings are real numbers: the rounding of
  floating point is left out, and the long dash of the policy descriptions is a hyphen. Dates are instants; identifiers and texts are strings of
  characters below 256.
\<close>

datatype memory_scope =
  Conversation | Project | Execution | Plugin | User | Knowledge | System

fun scope_str :: "memory_scope \<Rightarrow> string" where
  "scope_str Conversation = ''conversation''"
| "scope_str Project = ''project''"
| "scope_str Execution = ''execution''"
| "scope_str Plugin = ''plugin''"
| "scope_str User = ''user''"
| "scope_str Knowledge = ''knowledge''"
| "scope_str System = ''system''"

datatype visibility = Private | Shared | Public

record memory_source =
  source_pluginId :: string
  source_toolId :: "string option"
  source_label :: string

type_synonym memory_metadata = "(string, jsval) jmap"

record memory_record =
  mem_id :: string
  mem_scope :: memory_scope
  mem_content :: string
  mem_embedding :: "real list option"
  mem_source :: memory_source
  mem_userId :: "string option"
  mem_projectId :: "string option"
  mem_tags :: "string list"
  mem_importance :: real
  mem_metadata :: memory_metadata
  mem_createdAt :: instant
  mem_lastAccessedAt :: instant
  mem_accessCount :: nat
  mem_ttlMs :: "int option"
  mem_readOnly :: bool
  mem_visibility :: visibility

record memory_chunk =
  chunk_id :: string
  chunk_parentId :: string
  chunk_content :: string
  chunk_index :: nat
  chunk_embedding :: "real list option"
  chunk_metadata :: memory_metadata

record memory_query =
  q_text :: string
  q_embedding :: "real list option"
  q_scopes :: "memory_scope list option"
  q_pluginIds :: "string list option"
  q_userId :: "string option"
  q_projectId :: "string option"
  q_tags :: "string list option"
  q_minImportance :: "real option"
  q_maxResults :: "int option"
  q_minScore :: "real option"
  q_includeReadOnly :: "bool option"
  q_requestId :: "string option"

record memory_filter =
  f_scopes :: "memory_scope list option"
  f_pluginIds :: "string list option"
  f_userId :: "string option"
  f_projectId :: "string option"
  f_tags :: "string list option"
  f_minImportance :: "real option"
  f_includeReadOnly :: "bool option"
  f_query :: "string option"

record score_components =
  relevance :: real
  importance :: real
  recency :: real
  sourcePriority :: real

record memory_score =
  sc_record :: memory_record
  sc_score :: real
  sc_components :: score_components

record memory_result =
  res_scores :: "memory_score list"
  res_totalBeforeRanking :: nat
  res_durationMs :: int
  res_cached :: bool

record memory_policy =
  pol_id :: string
  pol_description :: string
  pol_ttlMs :: "int option"
  pol_maxCount :: "int option"
  pol_maxSizeBytes :: "int option"
  pol_pinned :: bool
  pol_defaultImportance :: real
  pol_defaultVisibility :: visibility

record retrieval_context =
  rc_memories :: "memory_record list"
  rc_scores :: "memory_score list"
  rc_query :: string
  rc_durationMs :: int

subsection \<open>Errors\<close>

datatype memory_code =
    MEMORY_NOT_FOUND | MEMORY_STORE_FAILED | MEMORY_RETRIEVAL_FAILED
  | MEMORY_PROVIDER_UNAVAILABLE | MEMORY_VALIDATION_FAILED | MEMORY_DUPLICATE
  | MEMORY_QUOTA_EXCEEDED | MEMORY_POLICY_VIOLATION | MEMORY_INDEX_FAILED

text \<open>The classes with what their constructors take; \<open>Other_error\<close> is any other exception.\<close>

datatype memory_error =
    MemoryNotFoundError string
  | MemoryStoreFailedError string
  | MemoryRetrievalFailedError string
  | MemoryProviderUnavailableError string
  | MemoryValidationFailedError "string list"
  | MemoryDuplicateError string
  | MemoryQuotaExceededError string int
  | MemoryPolicyViolationError string string
  | MemoryIndexFailedError string
  | Other_error string

fun memory_error_code :: "memory_error \<Rightarrow> memory_code option" where
  "memory_error_code (MemoryNotFoundError _) = Some MEMORY_NOT_FOUND"
| "memory_error_code (MemoryStoreFailedError _) = Some MEMORY_STORE_FAILED"
| "memory_error_code (MemoryRetrievalFailedError _) = Some MEMORY_RETRIEVAL_FAILED"
| "memory_error_code (MemoryProviderUnavailableError _) = Some MEMORY_PROVIDER_UNAVAILABLE"
| "memory_error_code (MemoryValidationFailedError _) = Some MEMORY_VALIDATION_FAILED"
| "memory_error_code (MemoryDuplicateError _) = Some MEMORY_DUPLICATE"
| "memory_error_code (MemoryQuotaExceededError _ _) = Some MEMORY_QUOTA_EXCEEDED"
| "memory_error_code (MemoryPolicyViolationError _ _) = Some MEMORY_POLICY_VIOLATION"
| "memory_error_code (MemoryIndexFailedError _) = Some MEMORY_INDEX_FAILED"
| "memory_error_code (Other_error _) = None"

fun memory_message :: "memory_error \<Rightarrow> string" where
  "memory_message (MemoryNotFoundError i) = ''Memory '' @ quoted i @ '' not found.''"
| "memory_message (MemoryStoreFailedError m) = m"
| "memory_message (MemoryRetrievalFailedError m) = m"
| "memory_message (MemoryProviderUnavailableError p) =
     ''Memory provider '' @ quoted p @ '' is not available.''"
| "memory_message (MemoryValidationFailedError es) =
     ''Memory validation failed: '' @ join ''; '' es"
| "memory_message (MemoryDuplicateError i) = ''Memory '' @ quoted i @ '' already exists.''"
| "memory_message (MemoryQuotaExceededError s n) =
     ''Memory quota exceeded for scope '' @ quoted s @ '' (limit: '' @ int_str n @ '').''"
| "memory_message (MemoryPolicyViolationError p m) =
     ''Policy '' @ quoted p @ '' violation: '' @ m"
| "memory_message (MemoryIndexFailedError m) = m"
| "memory_message (Other_error m) = m"

definition isMemoryError :: "memory_error \<Rightarrow> bool" where
  "isMemoryError e \<longleftrightarrow> memory_error_code e \<noteq> None"

subsection \<open>Policies\<close>

definition policy :: "string \<Rightarrow> string \<Rightarrow> int option \<Rightarrow> int \<Rightarrow> bool \<Rightarrow> real \<Rightarrow> visibility \<Rightarrow> memory_policy" where
  "policy i d ttl n p imp v = \<lparr>pol_id = i, pol_description = d, pol_ttlMs = ttl, pol_maxCount = Some n,
     pol_maxSizeBytes = None, pol_pinned = p, pol_defaultImportance = imp, pol_defaultVisibility = v\<rparr>"

fun DEFAULT_POLICIES :: "memory_scope \<Rightarrow> memory_policy" where
  "DEFAULT_POLICIES Conversation = policy ''conversation-default''
     ''Conversation memories - medium retention, medium importance'' (Some 3600000) 1000 False (1/2) Private"
| "DEFAULT_POLICIES Project = policy ''project-default''
     ''Project memories - long retention, high importance'' (Some (86400000 * 7)) 5000 False (7/10) Shared"
| "DEFAULT_POLICIES Execution = policy ''execution-default''
     ''Execution memories - short retention, high importance'' (Some 3600000) 500 False (8/10) Private"
| "DEFAULT_POLICIES Plugin = policy ''plugin-default''
     ''Plugin memories - long retention, medium importance'' (Some (86400000 * 30)) 2000 False (6/10) Shared"
| "DEFAULT_POLICIES User = policy ''user-default''
     ''User memories - persistent, high importance'' (Some (86400000 * 365)) 10000 False (9/10) Private"
| "DEFAULT_POLICIES Knowledge = policy ''knowledge-default''
     ''Knowledge base memories - very long retention'' (Some (86400000 * 365)) 50000 False (8/10) Public"
| "DEFAULT_POLICIES System = policy ''system-default''
     ''System memories - persistent, highest importance'' None 1000 True 1 Shared"

definition getDefaultPolicy :: "memory_scope \<Rightarrow> memory_policy" where
  "getDefaultPolicy s = DEFAULT_POLICIES s"

definition isExpired :: "memory_record \<Rightarrow> instant \<Rightarrow> bool" where
  "isExpired r now \<longleftrightarrow> (case mem_ttlMs r of None \<Rightarrow> False | Some ttl \<Rightarrow> now - mem_createdAt r > ttl)"

definition filterExpired :: "memory_record list \<Rightarrow> instant \<Rightarrow> memory_record list" where
  "filterExpired rs now = filter (\<lambda>r. \<not> isExpired r now) rs"

definition isPinned :: "memory_record \<Rightarrow> bool" where
  "isPinned r \<longleftrightarrow> mem_readOnly r"

definition calculateEvictionCount :: "memory_record list \<Rightarrow> memory_policy \<Rightarrow> int" where
  "calculateEvictionCount rs p = (case pol_maxCount p of
     None \<Rightarrow> 0
   | Some n \<Rightarrow> max 0 (int (length rs) - n))"

text \<open>The comparator orders by importance and then by age; \<open>sort\<close> is stable.\<close>

definition selectEvictionCandidates :: "memory_record list \<Rightarrow> int \<Rightarrow> memory_record list" where
  "selectEvictionCandidates rs count =
     (if count \<le> 0 then []
      else slice0 count (sort_key mem_importance (sort_key mem_createdAt
             (filter (\<lambda>r. \<not> isPinned r) rs))))"

text \<open>Characters from 128 on take two bytes in UTF-8.\<close>

definition utf8_size :: "string \<Rightarrow> nat" where
  "utf8_size s = sum_list (map (\<lambda>c. if (of_char c :: nat) < 128 then 1 else 2) s)"

text \<open>\<open>canCreate\<close> looks at the content only, which a partial record may lack.\<close>

definition canCreate :: "string option \<Rightarrow> memory_policy \<Rightarrow> bool \<times> string option" where
  "canCreate content p = (case (pol_maxSizeBytes p, content) of
     (Some limit, Some c) \<Rightarrow>
       let size = utf8_size c in
       if int size > limit
       then (False, Some (''Content size '' @ nat_str size @ '' exceeds limit '' @ int_str limit))
       else (True, None)
   | _ \<Rightarrow> (True, None))"

end
