(* ===== verification/MemoryStore.thy ===== *)
theory MemoryStore
  imports MemoryTypes JsObjects
begin

text \<open>
  Filters over records (packages/memory/src/MemoryFilters.ts), the storage backend in memory
  (MemoryProvider.ts), the registry of backends (MemoryRegistry.ts), and the interface
  \<open>memory_backend\<close> the manager relies on, which the backend in memory provides.
\<close>

subsection \<open>Filters\<close>

definition filterByPredicate :: "memory_record list \<Rightarrow> (memory_record \<Rightarrow> bool) \<Rightarrow> memory_record list" where
  "filterByPredicate rs predicate = filter predicate rs"

definition filterByScope :: "memory_record list \<Rightarrow> memory_scope list \<Rightarrow> memory_record list" where
  "filterByScope rs scopes =
     (if scopes = [] then rs else filter (\<lambda>r. mem_scope r \<in> set scopes) rs)"

definition filterByPluginId :: "memory_record list \<Rightarrow> string list \<Rightarrow> memory_record list" where
  "filterByPluginId rs ids =
     (if ids = [] then rs else filter (\<lambda>r. source_pluginId (mem_source r) \<in> set ids) rs)"

definition filterByUserId :: "memory_record list \<Rightarrow> string \<Rightarrow> memory_record list" where
  "filterByUserId rs u = filter (\<lambda>r. mem_userId r = Some u) rs"

definition filterByProjectId :: "memory_record list \<Rightarrow> string \<Rightarrow> memory_record list" where
  "filterByProjectId rs p = filter (\<lambda>r. mem_projectId r = Some p) rs"

definition filterByTags :: "memory_record list \<Rightarrow> string list \<Rightarrow> memory_record list" where
  "filterByTags rs tags =
     (if tags = [] then rs else filter (\<lambda>r. \<exists>t \<in> set (mem_tags r). t \<in> set tags) rs)"

definition filterByImportance :: "memory_record list \<Rightarrow> real \<Rightarrow> memory_record list" where
  "filterByImportance rs m = filter (\<lambda>r. mem_importance r \<ge> m) rs"

definition excludeReadOnly :: "memory_record list \<Rightarrow> memory_record list" where
  "excludeReadOnly rs = filter (\<lambda>r. \<not> mem_readOnly r) rs"

definition filterByMetadata :: "memory_record list \<Rightarrow> string \<Rightarrow> jsval \<Rightarrow> memory_record list" where
  "filterByMetadata rs key v =
     filter (\<lambda>r. strict_equal (js_get (mem_metadata r) key) v) rs"

definition when_given :: "'a option \<Rightarrow> ('a \<Rightarrow> 'b \<Rightarrow> 'b) \<Rightarrow> 'b \<Rightarrow> 'b" where
  "when_given x f y = (case x of None \<Rightarrow> y | Some a \<Rightarrow> f a y)"

definition applyFilter :: "memory_record list \<Rightarrow> memory_filter \<Rightarrow> memory_record list" where
  "applyFilter rs f =
     (let r1 = when_given (f_scopes f) (\<lambda>x r. filterByScope r x) rs;
          r2 = when_given (f_pluginIds f) (\<lambda>x r. filterByPluginId r x) r1;
          r3 = when_given (f_userId f) (\<lambda>x r. filterByUserId r x) r2;
          r4 = when_given (f_projectId f) (\<lambda>x r. filterByProjectId r x) r3;
          r5 = when_given (f_tags f) (\<lambda>x r. filterByTags r x) r4;
          r6 = when_given (f_minImportance f) (\<lambda>x r. filterByImportance r x) r5
      in if f_includeReadOnly f \<noteq> Some True then excludeReadOnly r6 else r6)"

definition queryToFilter :: "memory_query \<Rightarrow> memory_filter" where
  "queryToFilter q = \<lparr>f_scopes = q_scopes q, f_pluginIds = q_pluginIds q, f_userId = q_userId q,
     f_projectId = q_projectId q, f_tags = q_tags q, f_minImportance = q_minImportance q,
     f_includeReadOnly = q_includeReadOnly q, f_query = Some (q_text q)\<rparr>"

subsection \<open>The backend in memory\<close>

record in_memory =
  im_records :: "(string, memory_record) jmap"
  im_initialized :: bool

definition new_in_memory :: in_memory where
  "new_in_memory = \<lparr>im_records = [], im_initialized = False\<rparr>"

definition ensureInitialized :: "in_memory \<Rightarrow> memory_error option" where
  "ensureInitialized p = (if im_initialized p then None
     else Some (Other_error ''InMemoryProvider not initialized. Call initialize() first.''))"

definition im_initialize :: "in_memory \<Rightarrow> memory_error + in_memory" where
  "im_initialize p = Inr (p\<lparr>im_initialized := True\<rparr>)"

definition im_store :: "memory_record \<Rightarrow> in_memory \<Rightarrow> memory_error + in_memory" where
  "im_store r p = (case ensureInitialized p of
     Some e \<Rightarrow> Inl e
   | None \<Rightarrow> Inr (p\<lparr>im_records := jm_set (mem_id r) r (im_records p)\<rparr>))"

definition im_retrieve :: "string \<Rightarrow> in_memory \<Rightarrow> memory_error + memory_record option" where
  "im_retrieve i p = (case ensureInitialized p of
     Some e \<Rightarrow> Inl e
   | None \<Rightarrow> Inr (jm_get (im_records p) i))"

definition im_remove :: "string \<Rightarrow> in_memory \<Rightarrow> memory_error + bool \<times> in_memory" where
  "im_remove i p = (case ensureInitialized p of
     Some e \<Rightarrow> Inl e
   | None \<Rightarrow> Inr (jm_has (im_records p) i, p\<lparr>im_records := jm_delete i (im_records p)\<rparr>))"

text \<open>The method repeats the filters with its own guards against empty lists.\<close>

definition im_query :: "memory_filter \<Rightarrow> in_memory \<Rightarrow> memory_error + memory_record list" where
  "im_query f p = (case ensureInitialized p of
     Some e \<Rightarrow> Inl e
   | None \<Rightarrow>
       (let r0 = jm_values (im_records p);
            r1 = (case f_scopes f of Some (s # ss) \<Rightarrow> filter (\<lambda>r. mem_scope r \<in> set (s # ss)) r0 | _ \<Rightarrow> r0);
            r2 = (case f_pluginIds f of
                    Some (i # is) \<Rightarrow> filter (\<lambda>r. source_pluginId (mem_source r) \<in> set (i # is)) r1
                  | _ \<Rightarrow> r1);
            r3 = (case f_userId f of Some u \<Rightarrow> filter (\<lambda>r. mem_userId r = Some u) r2 | None \<Rightarrow> r2);
            r4 = (case f_projectId f of Some u \<Rightarrow> filter (\<lambda>r. mem_projectId r = Some u) r3 | None \<Rightarrow> r3);
            r5 = (case f_tags f of
                    Some (t # ts) \<Rightarrow> filter (\<lambda>r. \<exists>x \<in> set (mem_tags r). x \<in> set (t # ts)) r4
                  | _ \<Rightarrow> r4);
            r6 = (case f_minImportance f of
                    Some m \<Rightarrow> filter (\<lambda>r. mem_importance r \<ge> override 0 (Some m)) r5
                  | None \<Rightarrow> r5)
        in Inr (if f_includeReadOnly f \<noteq> Some True then filter (\<lambda>r. \<not> mem_readOnly r) r6 else r6)))"

definition im_search :: "memory_query \<Rightarrow> in_memory \<Rightarrow> memory_error + memory_record list" where
  "im_search q p = (case ensureInitialized p of
     Some e \<Rightarrow> Inl e
   | None \<Rightarrow> im_query (queryToFilter q) p)"

definition im_count :: "memory_filter option \<Rightarrow> in_memory \<Rightarrow> memory_error + nat" where
  "im_count f p = (case ensureInitialized p of
     Some e \<Rightarrow> Inl e
   | None \<Rightarrow> (case f of
       None \<Rightarrow> Inr (length (im_records p))
     | Some f' \<Rightarrow> (case im_query f' p of Inl e \<Rightarrow> Inl e | Inr rs \<Rightarrow> Inr (length rs))))"

definition im_close :: "in_memory \<Rightarrow> memory_error + in_memory" where
  "im_close p = Inr (p\<lparr>im_records := [], im_initialized := False\<rparr>)"

subsection \<open>What a filter keeps\<close>

text \<open>The reference: one predicate on a record.\<close>

definition optional :: "'a option \<Rightarrow> ('a \<Rightarrow> bool) \<Rightarrow> bool" where
  "optional x p \<longleftrightarrow> (case x of None \<Rightarrow> True | Some a \<Rightarrow> p a)"

definition matches :: "memory_filter \<Rightarrow> memory_record \<Rightarrow> bool" where
  "matches f r \<longleftrightarrow>
     optional (f_scopes f) (\<lambda>ss. ss = [] \<or> mem_scope r \<in> set ss) \<and>
     optional (f_pluginIds f) (\<lambda>ps. ps = [] \<or> source_pluginId (mem_source r) \<in> set ps) \<and>
     optional (f_userId f) (\<lambda>u. mem_userId r = Some u) \<and>
     optional (f_projectId f) (\<lambda>p. mem_projectId r = Some p) \<and>
     optional (f_tags f) (\<lambda>ts. ts = [] \<or> set (mem_tags r) \<inter> set ts \<noteq> {}) \<and>
     optional (f_minImportance f) (\<lambda>m. m \<le> mem_importance r) \<and>
     (f_includeReadOnly f = Some True \<or> \<not> mem_readOnly r)"

lemma given_filters:
  "when_given x (\<lambda>ss r. filterByScope r ss) rs =
     filter (\<lambda>r. optional x (\<lambda>ss. ss = [] \<or> mem_scope r \<in> set ss)) rs"
  "when_given y (\<lambda>ps r. filterByPluginId r ps) rs =
     filter (\<lambda>r. optional y (\<lambda>ps. ps = [] \<or> source_pluginId (mem_source r) \<in> set ps)) rs"
  "when_given z (\<lambda>u r. filterByUserId r u) rs = filter (\<lambda>r. optional z (\<lambda>u. mem_userId r = Some u)) rs"
  "when_given z (\<lambda>u r. filterByProjectId r u) rs =
     filter (\<lambda>r. optional z (\<lambda>p. mem_projectId r = Some p)) rs"
  "when_given y (\<lambda>ts r. filterByTags r ts) rs =
     filter (\<lambda>r. optional y (\<lambda>ts. ts = [] \<or> set (mem_tags r) \<inter> set ts \<noteq> {})) rs"
  "when_given w (\<lambda>m r. filterByImportance r m) rs =
     filter (\<lambda>r. optional w (\<lambda>m. m \<le> mem_importance r)) rs"
  by (auto simp: when_given_def optional_def filterByScope_def filterByPluginId_def filterByUserId_def
      filterByProjectId_def filterByTags_def filterByImportance_def disjoint_iff
      intro!: filter_cong split: option.split)

lemma applyFilter_matches: "applyFilter rs f = filter (matches f) rs"
proof -
  have "(if f_includeReadOnly f \<noteq> Some True then excludeReadOnly r else r) =
      filter (\<lambda>r. f_includeReadOnly f = Some True \<or> \<not> mem_readOnly r) r" for r
    by (auto simp: excludeReadOnly_def)
  then show ?thesis
    unfolding applyFilter_def Let_def given_filters
    by (simp add: matches_def conj_ac cong: filter_cong)
qed

lemma im_query_matches:
  assumes "im_initialized p"
  shows "im_query f p = Inr (filter (matches f) (jm_values (im_records p)))"
proof -
  have lists: "(case x of Some (a # as) \<Rightarrow> filter (P (a # as)) rs | _ \<Rightarrow> rs) =
      filter (\<lambda>r. optional x (\<lambda>ys. ys = [] \<or> P ys r)) rs" for x P and rs :: "memory_record list"
    by (auto simp: optional_def split: option.split list.split)
  have single: "(case x of Some a \<Rightarrow> filter (Q a) rs | None \<Rightarrow> rs) =
      filter (\<lambda>r. optional x (\<lambda>a. Q a r)) rs" for x Q and rs :: "memory_record list"
    by (auto simp: optional_def split: option.split)
  have ro: "(if f_includeReadOnly f \<noteq> Some True then filter (\<lambda>r. \<not> mem_readOnly r) rs else rs) =
      filter (\<lambda>r. f_includeReadOnly f = Some True \<or> \<not> mem_readOnly r) rs" for rs
    by auto
  have inter: "(\<exists>x \<in> set xs. x \<in> set ys) \<longleftrightarrow> set xs \<inter> set ys \<noteq> {}" for xs ys :: "string list"
    by auto
  show ?thesis
    using assms
    unfolding im_query_def Let_def
    by (simp only: lists [of _ "\<lambda>ys r. mem_scope r \<in> set ys"]
        lists [of _ "\<lambda>ys r. source_pluginId (mem_source r) \<in> set ys"]
        lists [of _ "\<lambda>ys r. \<exists>x \<in> set (mem_tags r). x \<in> set ys"]
        single [of _ "\<lambda>u r. mem_userId r = Some u"] single [of _ "\<lambda>u r. mem_projectId r = Some u"]
        single [of _ "\<lambda>m r. mem_importance r \<ge> override 0 (Some m)"] ro)
      (simp add: ensureInitialized_def matches_def inter conj_ac cong: filter_cong)
qed

subsection \<open>Interface: storage backends\<close>

text \<open>
  What the manager relies on from its backend: once ready, it is a map from identifiers to
  records; a search gives exactly the stored records that match the filter of the query.
\<close>

locale memory_backend =
  fixes ready :: "'p \<Rightarrow> bool"
    and contents :: "'p \<Rightarrow> string \<Rightarrow> memory_record option"
    and store :: "memory_record \<Rightarrow> 'p \<Rightarrow> memory_error + 'p"
    and retrieve :: "string \<Rightarrow> 'p \<Rightarrow> memory_error + memory_record option"
    and remove :: "string \<Rightarrow> 'p \<Rightarrow> memory_error + bool \<times> 'p"
    and search :: "memory_query \<Rightarrow> 'p \<Rightarrow> memory_error + memory_record list"
  assumes retrieve_law: "ready p \<Longrightarrow> retrieve i p = Inr (contents p i)"
    and store_law: "ready p \<Longrightarrow> \<exists>p'. store r p = Inr p' \<and> ready p' \<and>
      contents p' = (contents p)(mem_id r \<mapsto> r)"
    and remove_law: "ready p \<Longrightarrow> \<exists>p'. remove i p = Inr (contents p i \<noteq> None, p') \<and> ready p' \<and>
      contents p' = (contents p)(i := None)"
    and search_law: "ready p \<Longrightarrow> \<exists>rs. search q p = Inr rs \<and> distinct rs \<and>
      set rs = {r \<in> ran (contents p). matches (queryToFilter q) r}"
begin

lemma retrieve_after_store:
  "ready p \<Longrightarrow> store r p = Inr p' \<Longrightarrow>
     retrieve i p' = Inr (if i = mem_id r then Some r else contents p i)"
  using store_law [of p r] retrieve_law [of p' i] by auto

lemma retrieve_after_remove:
  "ready p \<Longrightarrow> remove i p = Inr (b, p') \<Longrightarrow>
     retrieve j p' = Inr (if j = i then None else contents p j)"
  using remove_law [of p i] retrieve_law [of p' j] by auto

lemma search_sound:
  "ready p \<Longrightarrow> search q p = Inr rs \<Longrightarrow> r \<in> set rs \<Longrightarrow>
     (\<exists>i. contents p i = Some r) \<and> matches (queryToFilter q) r"
  using search_law [of p q] by (auto simp: ran_def)

end

text \<open>Records are stored under their own identifier.\<close>

definition im_ready :: "in_memory \<Rightarrow> bool" where
  "im_ready p \<longleftrightarrow> im_initialized p \<and> wf_jmap (im_records p) \<and>
     (\<forall>(i, r) \<in> set (im_records p). mem_id r = i)"

lemma im_ready_new: "im_initialize new_in_memory = Inr p \<Longrightarrow> im_ready p"
  by (auto simp: im_initialize_def new_in_memory_def im_ready_def)

lemma set_jm_delete: "set (jm_delete k m) \<subseteq> set m"
  by (auto simp: AList.delete_eq)

interpretation in_memory_store: memory_backend im_ready "\<lambda>p. jm_get (im_records p)"
  im_store im_retrieve im_remove im_search
proof
  fix p i r q
  assume ready: "im_ready p"
  then have e: "ensureInitialized p = None" by (simp add: im_ready_def ensureInitialized_def)
  show "im_retrieve i p = Inr (jm_get (im_records p) i)" by (simp add: im_retrieve_def e)
  show "\<exists>p'. im_store r p = Inr p' \<and> im_ready p' \<and>
      jm_get (im_records p') = (jm_get (im_records p))(mem_id r \<mapsto> r)"
    using ready set_jm_set [of "mem_id r" r "im_records p"]
    by (fastforce simp: im_store_def e im_ready_def fun_eq_iff jm_get_set)
  show "\<exists>p'. im_remove i p = Inr (jm_get (im_records p) i \<noteq> None, p') \<and> im_ready p' \<and>
      jm_get (im_records p') = (jm_get (im_records p))(i := None)"
    using ready set_jm_delete [of i "im_records p"]
    by (fastforce simp: im_remove_def e im_ready_def fun_eq_iff jm_get_delete jm_has_def)
  have "distinct (jm_values (im_records p))"
  proof -
    have "map fst (im_records p) = map mem_id (jm_values (im_records p))"
      using ready by (auto simp: im_ready_def)
    with ready show ?thesis by (metis im_ready_def distinct_map)
  qed
  moreover have "ran (jm_get (im_records p)) = set (jm_values (im_records p))"
    using ready by (simp add: im_ready_def ran_distinct)
  ultimately show "\<exists>rs. im_search q p = Inr rs \<and> distinct rs \<and>
      set rs = {r \<in> ran (jm_get (im_records p)). matches (queryToFilter q) r}"
    using ready by (auto simp: im_search_def e im_query_matches im_ready_def)
qed

subsection \<open>The registry of backends\<close>

text \<open>A provider is known by its identifier; the rest of it is \<open>'p\<close>.\<close>

record 'p provider_registry =
  providers :: "(string, 'p) jmap"
  defaultProviderId :: "string option"

definition new_provider_registry :: "'p provider_registry" where
  "new_provider_registry = \<lparr>providers = [], defaultProviderId = None\<rparr>"

definition register_provider :: "string \<Rightarrow> 'p \<Rightarrow> 'p provider_registry \<Rightarrow> string + 'p provider_registry" where
  "register_provider i p reg =
     (if jm_has (providers reg) i
      then Inl (''Provider '' @ quoted i @ '' is already registered.'')
      else let ps = jm_set i p (providers reg) in
        Inr (reg\<lparr>providers := ps,
                 defaultProviderId := (if length ps = 1 then Some i else defaultProviderId reg)\<rparr>))"

definition unregister_provider :: "string \<Rightarrow> 'p provider_registry \<Rightarrow> bool \<times> 'p provider_registry" where
  "unregister_provider i reg =
     (let removed = jm_has (providers reg) i;
          ps = jm_delete i (providers reg)
      in (removed, reg\<lparr>providers := ps,
            defaultProviderId := (if removed \<and> defaultProviderId reg = Some i
              then (case ps of [] \<Rightarrow> None | (k, _) # _ \<Rightarrow> Some k) else defaultProviderId reg)\<rparr>))"

definition get_provider :: "string \<Rightarrow> 'p provider_registry \<Rightarrow> 'p option" where
  "get_provider i reg = jm_get (providers reg) i"

definition getDefault :: "'p provider_registry \<Rightarrow> 'p option" where
  "getDefault reg = (case defaultProviderId reg of None \<Rightarrow> None | Some i \<Rightarrow> jm_get (providers reg) i)"

definition setDefault :: "string \<Rightarrow> 'p provider_registry \<Rightarrow> string + 'p provider_registry" where
  "setDefault i reg =
     (if \<not> jm_has (providers reg) i then Inl (''Provider '' @ quoted i @ '' is not registered.'')
      else Inr (reg\<lparr>defaultProviderId := Some i\<rparr>))"

definition list_providers :: "'p provider_registry \<Rightarrow> 'p list" where
  "list_providers reg = jm_values (providers reg)"

definition has_provider :: "string \<Rightarrow> 'p provider_registry \<Rightarrow> bool" where
  "has_provider i reg = jm_has (providers reg) i"

definition clear_providers :: "'p provider_registry \<Rightarrow> 'p provider_registry" where
  "clear_providers reg = reg\<lparr>providers := [], defaultProviderId := None\<rparr>"

text \<open>The default is a registered provider, and there is one whenever there is a provider.\<close>

definition default_ok :: "'p provider_registry \<Rightarrow> bool" where
  "default_ok reg \<longleftrightarrow> wf_jmap (providers reg) \<and>
     (case defaultProviderId reg of None \<Rightarrow> providers reg = [] | Some i \<Rightarrow> jm_has (providers reg) i)"

lemma default_ok_new: "default_ok new_provider_registry"
  by (simp add: default_ok_def new_provider_registry_def)

lemma default_ok_register: "default_ok reg \<Longrightarrow> register_provider i p reg = Inr reg' \<Longrightarrow> default_ok reg'"
  by (auto simp: default_ok_def register_provider_def Let_def split: if_splits option.splits)
    (simp add: jm_has_def)

lemma jm_has_delete: "jm_has (jm_delete i m) k \<longleftrightarrow> k \<noteq> i \<and> jm_has m k"
  by (simp add: jm_has_def jm_get_delete)

lemma default_ok_unregister:
  assumes "default_ok reg"
  shows "default_ok (snd (unregister_provider i reg))"
proof (cases "jm_has (providers reg) i \<and> defaultProviderId reg = Some i")
  case True
  let ?ps = "jm_delete i (providers reg)"
  from assms have "wf_jmap ?ps" by (simp add: default_ok_def)
  moreover have "case ?ps of [] \<Rightarrow> True | (k, _) # _ \<Rightarrow> jm_has ?ps k"
    by (auto simp: jm_has_def split: list.split)
  ultimately show ?thesis using True
    by (auto simp: default_ok_def unregister_provider_def Let_def split: list.splits)
next
  case False
  with assms show ?thesis
    by (auto simp: default_ok_def unregister_provider_def Let_def jm_has_delete split: option.splits)
qed

lemma default_ok_setDefault: "default_ok reg \<Longrightarrow> setDefault i reg = Inr reg' \<Longrightarrow> default_ok reg'"
  by (auto simp: default_ok_def setDefault_def split: if_splits)

end
