(* ===== verification/MemoryRanking.thy ===== *)
theory MemoryRanking
  imports MemoryTypes
begin

text \<open>
  Scoring and ranking (packages/memory/src/MemoryRanking.ts). The default of the option
  \<open>now\<close> is read once, when the module is loaded: that instant is the parameter \<open>loaded\<close>.
\<close>

record ranking_options =
  relevanceWeight :: "real option"
  importanceWeight :: "real option"
  recencyWeight :: "real option"
  sourcePriorityWeight :: "real option"
  rank_maxResults :: "int option"
  rank_minScore :: "real option"
  rank_now :: "instant option"

definition no_ranking_options :: ranking_options where
  "no_ranking_options = \<lparr>relevanceWeight = None, importanceWeight = None, recencyWeight = None,
     sourcePriorityWeight = None, rank_maxResults = None, rank_minScore = None, rank_now = None\<rparr>"

text \<open>The loop of \<open>cosineSimilarity\<close> with its three accumulators.\<close>

fun cosine_loop :: "real list \<Rightarrow> real list \<Rightarrow> real \<times> real \<times> real \<Rightarrow> real \<times> real \<times> real" where
  "cosine_loop (a # as) (b # bs) (dot, magA, magB) =
     cosine_loop as bs (dot + a * b, magA + a * a, magB + b * b)"
| "cosine_loop _ _ acc = acc"

definition cosineSimilarity :: "real list \<Rightarrow> real list \<Rightarrow> string + real" where
  "cosineSimilarity a b =
     (if length a \<noteq> length b
      then Inl (''Vector dimensions mismatch: '' @ nat_str (length a) @ '' vs '' @ nat_str (length b))
      else if length a = 0 then Inr 0
      else case cosine_loop a b (0, 0, 0) of (dot, magA, magB) \<Rightarrow>
        let denom = sqrt magA * sqrt magB in Inr (if denom = 0 then 0 else dot / denom))"

definition calculateRelevance :: "memory_record \<Rightarrow> real list option \<Rightarrow> string + real" where
  "calculateRelevance r queryEmbedding = (case (queryEmbedding, mem_embedding r) of
     (Some q, Some e) \<Rightarrow> cosineSimilarity e q
   | _ \<Rightarrow> Inr (1 / 2))"

definition calculateImportance :: "memory_record \<Rightarrow> real" where
  "calculateImportance r = min 1 (max 0 (mem_importance r))"

definition calculateRecency :: "memory_record \<Rightarrow> instant \<Rightarrow> real" where
  "calculateRecency r now =
     (let daysSinceAccess = real_of_int (now - mem_lastAccessedAt r) / 86400000
      in max 0 (1 - daysSinceAccess / 30))"

fun scope_priority :: "memory_scope \<Rightarrow> real" where
  "scope_priority Execution = 9 / 10"
| "scope_priority Conversation = 8 / 10"
| "scope_priority Project = 7 / 10"
| "scope_priority Knowledge = 6 / 10"
| "scope_priority User = 5 / 10"
| "scope_priority Plugin = 4 / 10"
| "scope_priority System = 3 / 10"

definition calculateSourcePriority :: "memory_record \<Rightarrow> real" where
  "calculateSourcePriority r = scope_priority (mem_scope r)"

text \<open>
  The body of the map in \<open>rankMemories\<close>. The relevance is computed without a query
  embedding, so the exception of \<open>cosineSimilarity\<close> does not arise.
\<close>

definition score_record :: "instant \<Rightarrow> ranking_options \<Rightarrow> memory_record \<Rightarrow> memory_score" where
  "score_record loaded opts r =
     (let rel = (case calculateRelevance r None of Inl _ \<Rightarrow> 0 | Inr x \<Rightarrow> x);
          imp = calculateImportance r;
          rec = calculateRecency r (override loaded (rank_now opts));
          src = calculateSourcePriority r
      in \<lparr>sc_record = r,
          sc_score = rel * override (4 / 10) (relevanceWeight opts)
            + imp * override (3 / 10) (importanceWeight opts)
            + rec * override (2 / 10) (recencyWeight opts)
            + src * override (1 / 10) (sourcePriorityWeight opts),
          sc_components = \<lparr>relevance = rel, importance = imp, recency = rec, sourcePriority = src\<rparr>\<rparr>)"

definition descending :: "memory_score list \<Rightarrow> memory_score list" where
  "descending = sort_key (\<lambda>s. - sc_score s)"

definition rankMemories :: "instant \<Rightarrow> memory_record list \<Rightarrow> ranking_options \<Rightarrow> memory_score list" where
  "rankMemories loaded rs opts =
     slice0 (override 10 (rank_maxResults opts))
       (descending (filter (\<lambda>s. sc_score s \<ge> override 0 (rank_minScore opts))
          (map (score_record loaded opts) rs)))"

text \<open>One step of the loop of \<open>deduplicateScores\<close> over its map.\<close>

definition keep_higher :: "memory_score \<Rightarrow> (string, memory_score) jmap \<Rightarrow> (string, memory_score) jmap" where
  "keep_higher s seen = (case jm_get seen (mem_id (sc_record s)) of
     None \<Rightarrow> jm_set (mem_id (sc_record s)) s seen
   | Some old \<Rightarrow> if sc_score s > sc_score old then jm_set (mem_id (sc_record s)) s seen else seen)"

definition deduplicateScores :: "memory_score list \<Rightarrow> memory_score list" where
  "deduplicateScores scores = descending (jm_values (fold keep_higher scores []))"

subsection \<open>Cosine similarity\<close>

lemma cosine_loop_sums:
  "cosine_loop as bs (d, p, q) =
     (d + sum_list (map2 (*) as bs), p + sum_list (map (\<lambda>(a, b). a * a) (zip as bs)),
      q + sum_list (map (\<lambda>(a, b). b * b) (zip as bs)))"
  by (induction as bs "(d, p, q)" arbitrary: d p q rule: cosine_loop.induct) simp_all

lemma cauchy_schwarz_step:
  fixes d p q a b :: real
  assumes "d\<^sup>2 \<le> p * q" and "0 \<le> p" and "0 \<le> q"
  shows "(d + a * b)\<^sup>2 \<le> (p + a * a) * (q + b * b)"
proof -
  have "(2 * (d * (a * b)))\<^sup>2 = 4 * d\<^sup>2 * (a\<^sup>2 * b\<^sup>2)" by (simp add: power2_eq_square)
  also have "\<dots> \<le> 4 * (p * q) * (a\<^sup>2 * b\<^sup>2)"
    using assms(1) by (intro mult_right_mono mult_left_mono) simp_all
  also have "\<dots> \<le> (p * b\<^sup>2 + q * a\<^sup>2)\<^sup>2"
  proof -
    have "0 \<le> (p * b\<^sup>2 - q * a\<^sup>2)\<^sup>2" by simp
    then show ?thesis by (simp add: power2_eq_square algebra_simps)
  qed
  finally have "2 * (d * (a * b)) \<le> p * b\<^sup>2 + q * a\<^sup>2"
    by (rule power2_le_imp_le) (use assms in simp)
  with assms(1) show ?thesis by (simp add: power2_eq_square algebra_simps)
qed

lemma cosine_loop_cauchy_schwarz:
  "d\<^sup>2 \<le> p * q \<Longrightarrow> 0 \<le> p \<Longrightarrow> 0 \<le> q \<Longrightarrow> cosine_loop as bs (d, p, q) = (d', p', q') \<Longrightarrow>
     d'\<^sup>2 \<le> p' * q' \<and> 0 \<le> p' \<and> 0 \<le> q'"
  by (induction as bs "(d, p, q)" arbitrary: d p q rule: cosine_loop.induct)
    (simp_all add: cauchy_schwarz_step)

lemma cosine_bounds:
  assumes "cosineSimilarity a b = Inr x"
  shows "- 1 \<le> x \<and> x \<le> 1"
proof (cases "length a = 0")
  case True
  with assms show ?thesis by (simp add: cosineSimilarity_def split: if_splits)
next
  case False
  obtain d p q where l: "cosine_loop a b (0, 0, 0) = (d, p, q)" by (metis prod_cases3)
  from cosine_loop_cauchy_schwarz [OF _ _ _ l] have c: "d\<^sup>2 \<le> p * q" "0 \<le> p" "0 \<le> q" by simp_all
  from assms False l have x: "x = (if sqrt p * sqrt q = 0 then 0 else d / (sqrt p * sqrt q))"
    by (auto simp: cosineSimilarity_def Let_def split: if_splits)
  have "\<bar>d\<bar> \<le> sqrt p * sqrt q"
    using c real_sqrt_le_mono [OF c(1)] by (simp add: real_sqrt_mult)
  then have "\<bar>x\<bar> \<le> 1" using x c by (auto simp: abs_divide divide_le_eq_1)
  then show ?thesis by auto
qed

subsection \<open>The range of a score\<close>

lemma calculateImportance_bounds: "0 \<le> calculateImportance r \<and> calculateImportance r \<le> 1"
  by (simp add: calculateImportance_def)

lemma calculateRecency_nonneg: "0 \<le> calculateRecency r now"
  by (simp add: calculateRecency_def Let_def)

lemma calculateRecency_past: "mem_lastAccessedAt r \<le> now \<Longrightarrow> calculateRecency r now \<le> 1"
  by (simp add: calculateRecency_def Let_def)

lemma calculateRecency_future:
  "now < mem_lastAccessedAt r \<Longrightarrow>
     calculateRecency r now = 1 + real_of_int (mem_lastAccessedAt r - now) / 2592000000"
  by (simp add: calculateRecency_def Let_def field_simps max_def)

lemma scope_priority_bounds: "3 / 10 \<le> scope_priority s \<and> scope_priority s \<le> 9 / 10"
  by (cases s) simp_all

definition default_weights :: "ranking_options \<Rightarrow> bool" where
  "default_weights opts \<longleftrightarrow> relevanceWeight opts = None \<and> importanceWeight opts = None \<and>
     recencyWeight opts = None \<and> sourcePriorityWeight opts = None"

lemma default_score:
  "default_weights opts \<Longrightarrow> sc_score (score_record loaded opts r) =
     1 / 5 + calculateImportance r * (3 / 10)
       + calculateRecency r (override loaded (rank_now opts)) * (1 / 5)
       + calculateSourcePriority r * (1 / 10)"
  by (simp add: score_record_def Let_def calculateRelevance_def default_weights_def)

subsection \<open>The result of ranking\<close>

lemma descending_sorted: "sorted_wrt (\<lambda>s t. sc_score s \<ge> sc_score t) (descending ss)"
proof -
  have "sorted (map (\<lambda>s. - sc_score s) (descending ss))" by (simp add: descending_def)
  then show ?thesis by (simp add: sorted_map)
qed

lemma descending_set [simp]: "set (descending ss) = set ss"
  by (simp add: descending_def)

lemma sorted_wrt_slice0: "sorted_wrt R xs \<Longrightarrow> sorted_wrt R (slice0 n xs)"
  by (simp add: slice0_def sorted_wrt_take)

lemma slice0_rest:
  assumes "sorted_wrt R xs" and "x \<in> set xs" and "x \<notin> set (slice0 n xs)" and "0 \<le> n"
  shows "length (slice0 n xs) = nat n \<and> (\<forall>y \<in> set (slice0 n xs). R y x)"
proof -
  let ?k = "nat n"
  from assms have s: "slice0 n xs = take ?k xs" by (simp add: slice0_def)
  with assms have "x \<in> set (drop ?k xs)" by (metis UnE append_take_drop_id set_append)
  moreover from this have "?k < length xs" by (metis drop_all emptyE list.set(1) not_le)
  moreover from assms(1) have "\<forall>y \<in> set (take ?k xs). \<forall>z \<in> set (drop ?k xs). R y z"
    by (metis append_take_drop_id sorted_wrt_append)
  ultimately show ?thesis using s by simp
qed

subsection \<open>Properties\<close>

text \<open>C22: The ranking is in descending order of score, holds scored records of the input at
  or above the least score, at most as many as asked for, and leaves a record out only when
  it is below the least score or the result is full of records that score at least as well.\<close>

theorem ranking_keeps_the_best:
  assumes "0 \<le> override 10 (rank_maxResults opts)"
  shows "let ss = rankMemories loaded rs opts;
             score = (\<lambda>r. sc_score (score_record loaded opts r));
             k = nat (override 10 (rank_maxResults opts)) in
    sorted_wrt (\<lambda>s t. sc_score s \<ge> sc_score t) ss \<and> length ss \<le> k \<and>
    (\<forall>s \<in> set ss. sc_score s \<ge> override 0 (rank_minScore opts) \<and>
       (\<exists>r \<in> set rs. s = score_record loaded opts r)) \<and>
    (\<forall>r \<in> set rs. score r < override 0 (rank_minScore opts) \<or> score_record loaded opts r \<in> set ss \<or>
       length ss = k \<and> (\<forall>s \<in> set ss. sc_score s \<ge> score r))"
proof -
  let ?n = "override 10 (rank_maxResults opts)"
  let ?all = "descending (filter (\<lambda>s. sc_score s \<ge> override 0 (rank_minScore opts))
      (map (score_record loaded opts) rs))"
  have ss: "rankMemories loaded rs opts = slice0 ?n ?all" by (simp add: rankMemories_def)
  have "sorted_wrt (\<lambda>s t. sc_score s \<ge> sc_score t) (slice0 ?n ?all)"
    by (intro sorted_wrt_slice0 descending_sorted)
  moreover have "length (slice0 ?n ?all) \<le> nat ?n"
    using assms by (simp add: slice0_length)
  moreover have "\<forall>s \<in> set (slice0 ?n ?all). sc_score s \<ge> override 0 (rank_minScore opts) \<and>
      (\<exists>r \<in> set rs. s = score_record loaded opts r)"
    using slice0_subset [of ?n ?all] by auto
  moreover have "sc_score (score_record loaded opts r) < override 0 (rank_minScore opts) \<or>
      score_record loaded opts r \<in> set (slice0 ?n ?all) \<or>
      length (slice0 ?n ?all) = nat ?n \<and>
        (\<forall>s \<in> set (slice0 ?n ?all). sc_score s \<ge> sc_score (score_record loaded opts r))"
    if "r \<in> set rs" for r
  proof (cases "sc_score (score_record loaded opts r) < override 0 (rank_minScore opts) \<or>
      score_record loaded opts r \<in> set (slice0 ?n ?all)")
    case False
    with that have "score_record loaded opts r \<in> set ?all" by simp
    from slice0_rest [OF descending_sorted this _ assms] False show ?thesis by blast
  qed blast
  ultimately show ?thesis unfolding ss Let_def by blast
qed

definition sample_source :: memory_source where
  "sample_source = \<lparr>source_pluginId = ''p'', source_toolId = None, source_label = ''l''\<rparr>"

definition sample_memory :: "string \<Rightarrow> real \<Rightarrow> instant \<Rightarrow> memory_record" where
  "sample_memory i imp t = \<lparr>mem_id = i, mem_scope = Project, mem_content = ''note '' @ i,
     mem_embedding = None, mem_source = sample_source, mem_userId = None, mem_projectId = None,
     mem_tags = [], mem_importance = imp, mem_metadata = [], mem_createdAt = t,
     mem_lastAccessedAt = t, mem_accessCount = 0, mem_ttlMs = None, mem_readOnly = False,
     mem_visibility = Private\<rparr>"

lemmas ranking_eval = rankMemories_def score_record_def calculateRelevance_def
  calculateImportance_def calculateRecency_def calculateSourcePriority_def sample_memory_def
  no_ranking_options_def descending_def slice0_def Let_def

lemma ranking_keeps_the_best_witness:
  "map (mem_id \<circ> sc_record) (rankMemories 0
       [sample_memory ''a'' 0 0, sample_memory ''b'' 1 0, sample_memory ''c'' (1/2) 0]
       (no_ranking_options\<lparr>rank_maxResults := Some 2\<rparr>)) = [''b'', ''c''] \<and>
   length (rankMemories 0
       [sample_memory ''a'' 0 0, sample_memory ''b'' 1 0, sample_memory ''c'' (1/2) 0]
       (no_ranking_options\<lparr>rank_maxResults := Some 2\<rparr>)) \<le> 2"
proof -
  have "0 \<le> override 10 (rank_maxResults (no_ranking_options\<lparr>rank_maxResults := Some 2\<rparr>))" by simp
  from ranking_keeps_the_best [OF this, of 0
      "[sample_memory ''a'' 0 0, sample_memory ''b'' 1 0, sample_memory ''c'' (1/2) 0]"]
  show ?thesis by (simp add: ranking_eval)
qed

text \<open>With the default weights a score is never negative and, for a record last accessed
  before the module was loaded, at most 0.79, so that a least score of 0.8 returns nothing; for
  a record accessed after that instant the recency exceeds 1 and grows without bound.\<close>

theorem default_score_bounds:
  assumes "default_weights opts" and "rank_now opts = None"
  shows "0 \<le> sc_score (score_record loaded opts r) \<and>
    (if mem_lastAccessedAt r \<le> loaded then sc_score (score_record loaded opts r) \<le> 79 / 100
     else recency (sc_components (score_record loaded opts r)) =
       1 + real_of_int (mem_lastAccessedAt r - loaded) / 2592000000)"
proof -
  have "recency (sc_components (score_record loaded opts r)) = calculateRecency r loaded"
    using assms(2) by (simp add: score_record_def Let_def)
  with default_score [OF assms(1), of loaded r] assms(2) calculateImportance_bounds [of r]
    calculateRecency_nonneg [of r loaded] calculateRecency_past [of r loaded]
    calculateRecency_future [of loaded r] scope_priority_bounds [of "mem_scope r"]
  show ?thesis by (auto simp: calculateSourcePriority_def)
qed

lemma default_score_bounds_witness:
  "sc_score (score_record 0 no_ranking_options (sample_memory ''a'' 1 0)) \<le> 79 / 100 \<and>
   recency (sc_components (score_record 0 no_ranking_options (sample_memory ''a'' 1 25920000000))) = 11"
proof -
  have d: "default_weights no_ranking_options" "rank_now no_ranking_options = None"
    by (simp_all add: default_weights_def no_ranking_options_def)
  from default_score_bounds [OF d, of 0 "sample_memory ''a'' 1 0"]
    default_score_bounds [OF d, of 0 "sample_memory ''a'' 1 25920000000"]
  show ?thesis by (simp add: sample_memory_def)
qed

end
