(* ===== verification/MemoryRetriever.thy ===== *)
theory MemoryRetriever
  imports MemoryStore MemoryRanking
begin

text \<open>
  The retrieval service (packages/memory/src/MemoryRetriever.ts) with its cache, and the view of
  a result for the planner (MemoryContext.ts). A backend is the record of its operations over
  a state of any type. \<open>clock\<close> gives the successive readings of \<open>Date.now()\<close>.
\<close>

record 'p backend =
  b_initialize :: "'p \<Rightarrow> memory_error + 'p"
  b_store :: "memory_record \<Rightarrow> 'p \<Rightarrow> memory_error + 'p"
  b_retrieve :: "string \<Rightarrow> 'p \<Rightarrow> memory_error + memory_record option"
  b_remove :: "string \<Rightarrow> 'p \<Rightarrow> memory_error + bool \<times> 'p"
  b_search :: "memory_query \<Rightarrow> 'p \<Rightarrow> memory_error + memory_record list"
  b_count :: "memory_filter option \<Rightarrow> 'p \<Rightarrow> memory_error + nat"
  b_close :: "'p \<Rightarrow> memory_error + 'p"

definition in_memory_backend :: "in_memory backend" where
  "in_memory_backend = \<lparr>b_initialize = im_initialize, b_store = im_store, b_retrieve = im_retrieve,
     b_remove = im_remove, b_search = im_search, b_count = im_count, b_close = im_close\<rparr>"

text \<open>
  The members of the key; \<open>JSON.stringify\<close> maps different members to different texts.
\<close>

type_synonym cache_key = "string \<times> memory_scope list option \<times> string list option \<times> string option
  \<times> string option \<times> string list option \<times> int option"

definition getCacheKey :: "memory_query \<Rightarrow> cache_key" where
  "getCacheKey q =
     (q_text q, q_scopes q, q_pluginIds q, q_userId q, q_projectId q, q_tags q, q_maxResults q)"

record retriever =
  ret_defaultMaxResults :: int
  ret_enableCaching :: bool
  ret_cacheTtlMs :: int
  ret_cache :: "(cache_key, memory_result \<times> instant) jmap"

definition new_retriever :: "int option \<Rightarrow> bool option \<Rightarrow> int option \<Rightarrow> retriever" where
  "new_retriever n caching ttl = \<lparr>ret_defaultMaxResults = override 10 n,
     ret_enableCaching = override False caching, ret_cacheTtlMs = override 60000 ttl, ret_cache = []\<rparr>"

definition getFromCache :: "instant \<Rightarrow> memory_query \<Rightarrow> retriever \<Rightarrow> memory_result option \<times> retriever" where
  "getFromCache now q rt = (case jm_get (ret_cache rt) (getCacheKey q) of
     None \<Rightarrow> (None, rt)
   | Some (res, t) \<Rightarrow>
       if now - t > ret_cacheTtlMs rt
       then (None, rt\<lparr>ret_cache := jm_delete (getCacheKey q) (ret_cache rt)\<rparr>)
       else (Some (res\<lparr>res_cached := True\<rparr>), rt))"

definition setCache :: "instant \<Rightarrow> memory_query \<Rightarrow> memory_result \<Rightarrow> retriever \<Rightarrow> retriever" where
  "setCache now q res rt = rt\<lparr>ret_cache := jm_set (getCacheKey q) (res, now) (ret_cache rt)\<rparr>"

definition applyQueryFilters :: "memory_record list \<Rightarrow> memory_query \<Rightarrow> memory_record list" where
  "applyQueryFilters rs q =
     (if q_text q \<noteq> []
      then filter (\<lambda>r. includes_str (toLowerCase (mem_content r)) (toLowerCase (q_text q))) rs
      else rs)"

definition query_options :: "retriever \<Rightarrow> memory_query \<Rightarrow> ranking_options" where
  "query_options rt q = no_ranking_options\<lparr>
     rank_maxResults := Some (override (ret_defaultMaxResults rt) (q_maxResults q)),
     rank_minScore := q_minScore q\<rparr>"

definition retriever_query :: "(nat \<Rightarrow> instant) \<Rightarrow> instant \<Rightarrow> 'p backend \<Rightarrow> memory_query \<Rightarrow> 'p \<Rightarrow> retriever
    \<Rightarrow> (memory_error + memory_result) \<times> retriever" where
  "retriever_query clock loaded b q p rt =
     (case (if ret_enableCaching rt then getFromCache (clock 1) q rt else (None, rt)) of
        (Some hit, rt1) \<Rightarrow> (Inr hit, rt1)
      | (None, rt1) \<Rightarrow> (case b_search b q p of
          Inl e \<Rightarrow> (Inl (MemoryRetrievalFailedError (''Query failed: '' @ memory_message e)), rt1)
        | Inr rs \<Rightarrow>
            (let filtered = applyQueryFilters rs q;
                 result = \<lparr>res_scores = rankMemories loaded filtered (query_options rt1 q),
                   res_totalBeforeRanking = length filtered,
                   res_durationMs = clock 2 - clock 0, res_cached = False\<rparr>
             in (Inr result, if ret_enableCaching rt1 then setCache (clock 3) q result rt1 else rt1))))"

definition getById :: "'p backend \<Rightarrow> string \<Rightarrow> 'p \<Rightarrow> memory_error + memory_record option" where
  "getById b i p = b_retrieve b i p"

definition clearCache :: "retriever \<Rightarrow> retriever" where
  "clearCache rt = rt\<lparr>ret_cache := []\<rparr>"

definition getCacheSize :: "retriever \<Rightarrow> nat" where
  "getCacheSize rt = length (ret_cache rt)"

subsection \<open>The context for the planner\<close>

definition new_context :: "string \<Rightarrow> memory_score list \<Rightarrow> int \<Rightarrow> retrieval_context" where
  "new_context q ss d = \<lparr>rc_memories = map sc_record ss, rc_scores = ss, rc_query = q, rc_durationMs = d\<rparr>"

definition getMemories :: "retrieval_context \<Rightarrow> memory_record list" where
  "getMemories c = rc_memories c"

definition getTopMemories :: "int \<Rightarrow> retrieval_context \<Rightarrow> memory_record list" where
  "getTopMemories n c = map sc_record (slice0 n (rc_scores c))"

definition getMemoriesByScope :: "string \<Rightarrow> retrieval_context \<Rightarrow> memory_record list" where
  "getMemoriesByScope s c = filter (\<lambda>m. scope_str (mem_scope m) = s) (rc_memories c)"

definition getMemoriesByPlugin :: "string \<Rightarrow> retrieval_context \<Rightarrow> memory_record list" where
  "getMemoriesByPlugin p c = filter (\<lambda>m. source_pluginId (mem_source m) = p) (rc_memories c)"

text \<open>A \<open>Set\<close> spread into an array: first occurrences, in order.\<close>

fun unique :: "'a list \<Rightarrow> 'a list" where
  "unique [] = []"
| "unique (x # xs) = x # filter (\<lambda>y. y \<noteq> x) (unique xs)"

record context_summary =
  sum_query :: string
  sum_totalMemories :: nat
  sum_durationMs :: int
  sum_topScore :: "real option"
  sum_scopes :: "memory_scope list"

definition getSummary :: "retrieval_context \<Rightarrow> context_summary" where
  "getSummary c = \<lparr>sum_query = rc_query c, sum_totalMemories = length (rc_memories c),
     sum_durationMs = rc_durationMs c,
     sum_topScore = (case rc_scores c of [] \<Rightarrow> None | s # _ \<Rightarrow> Some (sc_score s)),
     sum_scopes = unique (map mem_scope (rc_memories c))\<rparr>"

definition toRetrievalContext :: "retrieval_context \<Rightarrow> retrieval_context" where
  "toRetrievalContext c = c"

definition empty_context :: "string \<Rightarrow> retrieval_context" where
  "empty_context q = new_context q [] 0"

lemma unique_set [simp]: "set (unique xs) = set xs"
  by (induction xs) auto

lemma unique_distinct: "distinct (unique xs)"
  by (induction xs) auto

subsection \<open>What a query without a cache returns\<close>

lemma retriever_query_uncached:
  assumes "\<not> ret_enableCaching rt" and "b_search b q p = Inr rs"
  shows "retriever_query clock loaded b q p rt =
    (Inr \<lparr>res_scores = rankMemories loaded (applyQueryFilters rs q) (query_options rt q),
       res_totalBeforeRanking = length (applyQueryFilters rs q),
       res_durationMs = clock 2 - clock 0, res_cached = False\<rparr>, rt)"
  using assms by (simp add: retriever_query_def Let_def)

lemma rankMemories_records:
  "s \<in> set (rankMemories loaded rs opts) \<Longrightarrow> sc_record s \<in> set rs"
  using slice0_subset by (fastforce simp: rankMemories_def score_record_def Let_def)

lemma applyQueryFilters_set:
  "r \<in> set (applyQueryFilters rs q) \<longleftrightarrow> r \<in> set rs \<and>
     (q_text q = [] \<or> includes_str (toLowerCase (mem_content r)) (toLowerCase (q_text q)))"
  by (auto simp: applyQueryFilters_def)

text \<open>A result is right for a query when each record in it matches the whole query.\<close>

definition answers :: "memory_query \<Rightarrow> memory_result \<Rightarrow> bool" where
  "answers q res \<longleftrightarrow> (\<forall>s \<in> set (res_scores res). matches (queryToFilter q) (sc_record s) \<and>
     sc_score s \<ge> override 0 (q_minScore q))"

lemma fresh_result_answers:
  assumes "\<And>r. r \<in> set rs \<Longrightarrow> matches (queryToFilter q) r"
  shows "answers q \<lparr>res_scores = rankMemories loaded (applyQueryFilters rs q) (query_options rt q),
    res_totalBeforeRanking = n, res_durationMs = d, res_cached = c\<rparr>"
proof -
  have "sc_score s \<ge> override 0 (q_minScore q)"
    if "s \<in> set (rankMemories loaded (applyQueryFilters rs q) (query_options rt q))" for s
    using that slice0_subset by (fastforce simp: rankMemories_def query_options_def no_ranking_options_def)
  moreover have "matches (queryToFilter q) (sc_record s)"
    if "s \<in> set (rankMemories loaded (applyQueryFilters rs q) (query_options rt q))" for s
    using rankMemories_records [OF that] assms by (simp add: applyQueryFilters_set)
  ultimately show ?thesis by (simp add: answers_def)
qed

subsection \<open>The cache\<close>

text \<open>
  Two queries that differ only in members outside the key share an entry; the second gets
  the result of the first while it lives.
\<close>

theorem cache_hit_ignores_query_members:
  assumes "ret_enableCaching rt" and "b_search b q p = Inr rs"
    and "getFromCache (clock 1) q rt = (None, rt1)" and "getCacheKey q' = getCacheKey q"
    and "clock' 1 - clock 3 \<le> ret_cacheTtlMs rt"
  shows "\<exists>res. fst (retriever_query clock loaded b q p rt) = Inr res \<and>
    fst (retriever_query clock' loaded b q' p' (snd (retriever_query clock loaded b q p rt))) =
      Inr (res\<lparr>res_cached := True\<rparr>)"
proof -
  from assms(3) have rt1: "ret_enableCaching rt1 = ret_enableCaching rt" "ret_cacheTtlMs rt1 = ret_cacheTtlMs rt"
    by (auto simp: getFromCache_def split: option.splits prod.splits if_splits)
  define res where "res = \<lparr>res_scores = rankMemories loaded (applyQueryFilters rs q) (query_options rt1 q),
    res_totalBeforeRanking = length (applyQueryFilters rs q),
    res_durationMs = clock 2 - clock 0, res_cached = False\<rparr>"
  have "retriever_query clock loaded b q p rt = (Inr res, setCache (clock 3) q res rt1)"
    using assms(1-3) rt1 by (simp add: retriever_query_def Let_def res_def)
  moreover have "getFromCache (clock' 1) q' (setCache (clock 3) q res rt1) =
      (Some (res\<lparr>res_cached := True\<rparr>), setCache (clock 3) q res rt1)"
    using assms(4,5) rt1 by (simp add: getFromCache_def setCache_def)
  moreover have "ret_enableCaching (setCache (clock 3) q res rt1)"
    using rt1 assms(1) by (simp add: setCache_def)
  ultimately show ?thesis by (simp add: retriever_query_def)
qed

end
