(* ===== verification/MemoryIndexer.thy ===== *)
theory MemoryIndexer
  imports MemoryTypes
begin

text \<open>
  The indexer (packages/memory/src/MemoryIndexer.ts): splitting a text into overlapping chunks,
  the map of chunks by memory, and the search through them. The options are unchecked
  numbers; the loop of \<open>chunkContent\<close> need not end, and then it has no value here.
\<close>

record indexer =
  chunkSize :: int
  chunkOverlap :: int
  index_chunks :: "(string, memory_chunk list) jmap"

definition new_indexer :: "int option \<Rightarrow> int option \<Rightarrow> indexer" where
  "new_indexer width overlap =
     \<lparr>chunkSize = override 1000 width, chunkOverlap = override 100 overlap, index_chunks = []\<rparr>"

definition chunk_at :: "int \<Rightarrow> memory_record \<Rightarrow> int \<Rightarrow> nat \<Rightarrow> memory_chunk" where
  "chunk_at width r start i =
     \<lparr>chunk_id = mem_id r @ '':'' @ nat_str i, chunk_parentId = mem_id r,
      chunk_content = slice_str start (min (start + width) (int (length (mem_content r)))) (mem_content r),
      chunk_index = i, chunk_embedding = None, chunk_metadata = mem_metadata r\<rparr>"

partial_function (option) chunk_loop :: "int \<Rightarrow> int \<Rightarrow> memory_record \<Rightarrow> int \<Rightarrow> nat \<Rightarrow> memory_chunk list option" where
  "chunk_loop width overlap r start i =
     (if start < int (length (mem_content r))
      then Option.bind (chunk_loop width overlap r (start + (width - overlap)) (i + 1))
             (\<lambda>rest. Some (chunk_at width r start i # rest))
      else Some [])"

definition chunkContent :: "indexer \<Rightarrow> memory_record \<Rightarrow> memory_chunk list option" where
  "chunkContent ix r =
     (if int (length (mem_content r)) \<le> chunkSize ix
      then Some [\<lparr>chunk_id = mem_id r @ '':0'', chunk_parentId = mem_id r,
        chunk_content = mem_content r, chunk_index = 0, chunk_embedding = mem_embedding r,
        chunk_metadata = mem_metadata r\<rparr>]
      else chunk_loop (chunkSize ix) (chunkOverlap ix) r 0 0)"

text \<open>\<open>index\<close> gives the chunks and the index, or does not return.\<close>

definition index_record :: "memory_record \<Rightarrow> indexer \<Rightarrow> (memory_chunk list \<times> indexer) option" where
  "index_record r ix = (case chunkContent ix r of
     None \<Rightarrow> None
   | Some cs \<Rightarrow> Some (cs, ix\<lparr>index_chunks := jm_set (mem_id r) cs (index_chunks ix)\<rparr>))"

definition getChunks :: "string \<Rightarrow> indexer \<Rightarrow> memory_chunk list" where
  "getChunks i ix = override [] (jm_get (index_chunks ix) i)"

definition remove_indexed :: "string \<Rightarrow> indexer \<Rightarrow> bool \<times> indexer" where
  "remove_indexed i ix =
     (jm_has (index_chunks ix) i, ix\<lparr>index_chunks := jm_delete i (index_chunks ix)\<rparr>)"

definition getIndexedIds :: "indexer \<Rightarrow> string list" where
  "getIndexedIds ix = jm_keys (index_chunks ix)"

definition getChunkCount :: "indexer \<Rightarrow> nat" where
  "getChunkCount ix = foldl (\<lambda>total cs. total + length cs) 0 (jm_values (index_chunks ix))"

definition clear_index :: "indexer \<Rightarrow> indexer" where
  "clear_index ix = ix\<lparr>index_chunks := []\<rparr>"

definition searchChunks :: "string \<Rightarrow> indexer \<Rightarrow> memory_chunk list" where
  "searchChunks text' ix =
     filter (\<lambda>c. includes_str (toLowerCase (chunk_content c)) (toLowerCase text'))
       (concat (jm_values (index_chunks ix)))"

subsection \<open>The chunks\<close>

lemma chunk_at_content:
  "chunk_content (chunk_at (int n) r (int a) i) = take n (drop a (mem_content r))"
  by (simp add: chunk_at_def slice_str_nat)

text \<open>The k-th chunk starts at k steps; there are as many as there are starts in the text.\<close>

lemma chunk_loop_steps:
  assumes "overlap < width"
  shows "\<exists>n. chunk_loop (int width) (int overlap) r (int start) i =
      Some (map (\<lambda>k. chunk_at (int width) r (int (start + k * (width - overlap))) (i + k)) [0..<n]) \<and>
    (\<forall>k. k < n \<longleftrightarrow> start + k * (width - overlap) < length (mem_content r))"
proof (induction "length (mem_content r) - start" arbitrary: start i rule: less_induct)
  case less
  let ?step = "width - overlap"
  have pos: "?step > 0" using assms by simp
  show ?case
  proof (cases "start < length (mem_content r)")
    case True
    have "length (mem_content r) - (start + ?step) < length (mem_content r) - start"
      using True pos by simp
    from less [OF this, of "Suc i"] obtain n where
      rec: "chunk_loop (int width) (int overlap) r (int (start + ?step)) (Suc i) =
        Some (map (\<lambda>k. chunk_at (int width) r (int (start + ?step + k * ?step)) (Suc i + k)) [0..<n])"
      and n: "\<And>k. k < n \<longleftrightarrow> start + ?step + k * ?step < length (mem_content r)" by blast
    have next_start: "int start + (int width - int overlap) = int (start + ?step)"
      using assms by simp
    have m: "map f [0..<Suc n] = f 0 # map (\<lambda>k. f (Suc k)) [0..<n]" for f :: "nat \<Rightarrow> memory_chunk"
      by (simp add: map_upt_Suc del: upt_Suc)
    have "chunk_loop (int width) (int overlap) r (int start) i =
        Some (map (\<lambda>k. chunk_at (int width) r (int (start + k * ?step)) (i + k)) [0..<Suc n])"
      unfolding m by (subst chunk_loop.simps, unfold next_start Suc_eq_plus1 [symmetric] rec)
        (use True in \<open>simp add: add.assoc\<close>)
    moreover have "k < Suc n \<longleftrightarrow> start + k * ?step < length (mem_content r)" for k
      using n True by (cases k) (simp_all add: add.assoc)
    ultimately show ?thesis by blast
  next
    case False
    then show ?thesis by (intro exI [of _ 0]) (auto simp: chunk_loop.simps)
  qed
qed

lemma concat_steps:
  fixes xs :: "'a list"
  assumes "0 < step" and "step \<le> width"
  shows "(\<And>k. k < n \<longleftrightarrow> start + k * step < length xs) \<Longrightarrow>
    concat (map (\<lambda>k. take step (take width (drop (start + k * step) xs))) [0..<n]) = drop start xs"
proof (induction n arbitrary: start)
  case 0
  from 0 [of 0] show ?case by simp
next
  case (Suc n)
  from Suc.prems [of 0] have s: "start < length xs" by simp
  have "k < n \<longleftrightarrow> start + step + k * step < length xs" for k
    using Suc.prems [of "Suc k"] by (simp add: add.assoc)
  note IH = Suc.IH [OF this]
  have "concat (map (\<lambda>k. take step (take width (drop (start + k * step) xs))) [0..<Suc n]) =
      take step (take width (drop start xs)) @
      concat (map (\<lambda>k. take step (take width (drop (start + step + k * step) xs))) [0..<n])"
    by (simp add: map_upt_Suc add.assoc del: upt_Suc)
  also have "\<dots> = take step (drop start xs) @ drop (start + step) xs"
    unfolding IH using assms(2) by (simp add: min_absorb1)
  also have "\<dots> = drop start xs"
    by (metis append_take_drop_id drop_drop add.commute)
  finally show ?case .
qed

text \<open>The first chunk whole, and each other one without what it shares with the chunk before it.\<close>

lemma overlaps_cut:
  fixes xs :: "'a list"
  assumes "overlap < width"
  defines "step \<equiv> width - overlap"
  shows "(\<And>k. k < Suc n \<longleftrightarrow> start + k * step < length xs) \<Longrightarrow>
    take width (drop start xs) @
      concat (map (\<lambda>k. drop overlap (take width (drop (start + Suc k * step) xs))) [0..<n]) = drop start xs"
proof (induction n arbitrary: start)
  case 0
  from 0 [of 1] have "length xs \<le> start + step" by simp
  then show ?case by (simp add: step_def)
next
  case (Suc n)
  let ?D = "drop (start + step) xs"
  let ?rest = "concat (map (\<lambda>k. drop overlap (take width (drop (start + step + Suc k * step) xs))) [0..<n])"
  have "k < Suc n \<longleftrightarrow> start + step + k * step < length xs" for k
    using Suc.prems [of "Suc k"] by (simp add: add.assoc)
  note IH = Suc.IH [OF this]
  have cut: "drop overlap (take width ?D) @ ?rest = drop overlap ?D"
  proof (cases "overlap \<le> length (take width ?D)")
    case True
    then show ?thesis using arg_cong [OF IH, of "drop overlap"] by simp
  next
    case False
    then have "length ?D < width" "length ?D \<le> overlap" using assms(1) by auto
    with IH show ?thesis by simp
  qed
  have "take width (drop start xs) @
      concat (map (\<lambda>k. drop overlap (take width (drop (start + Suc k * step) xs))) [0..<Suc n]) =
      take width (drop start xs) @ drop overlap (take width ?D) @ ?rest"
    by (simp add: map_upt_Suc add.assoc del: upt_Suc)
  also have "\<dots> = take width (drop start xs) @ drop overlap ?D" by (simp only: cut)
  also have "\<dots> = take width (drop start xs) @ drop width (drop start xs)"
    using assms(1) by (simp add: step_def add.commute)
  also have "\<dots> = drop start xs" by (rule append_take_drop_id)
  finally show ?case .
qed

lemma lower_take_drop: "toLowerCase (take n (drop a xs)) = take n (drop a (toLowerCase xs))"
  by (simp add: toLowerCase_def take_map drop_map)

text \<open>An occurrence that is not longer than the overlap and one lies in one chunk.\<close>

lemma occurrence_in_chunk:
  assumes occ: "xs = as @ ys @ zs" and len: "length ys \<le> overlap + 1" and lt: "overlap < width"
    and ne: "ys \<noteq> []"
  defines "k \<equiv> length as div (width - overlap)"
  shows "includes_str (take width (drop (k * (width - overlap)) xs)) ys \<and>
    k * (width - overlap) < length xs"
proof -
  let ?step = "width - overlap" and ?p = "length as"
  let ?s = "k * ?step"
  have "?p < ?step + ?s" unfolding k_def using lt by (intro dividend_less_div_times) simp
  then have s: "?s \<le> ?p" "?p < ?s + ?step" by (simp_all add: k_def div_times_less_eq_dividend)
  have e: "?p - ?s + length ys \<le> width" using s len lt by linarith
  have "drop ?s xs = drop ?s as @ ys @ zs" using s occ by simp
  then have "take width (drop ?s xs) = drop ?s as @ ys @ take (width - (?p - ?s) - length ys) zs"
    using e by simp
  then have "includes_str (take width (drop ?s xs)) ys" by (auto simp: includes_str_iff)
  moreover from s ne occ have "?s < length xs" by (cases ys) auto
  ultimately show ?thesis by blast
qed

subsection \<open>When the loop does not end\<close>

lemma chunk_loop_stuck:
  assumes "chunk_loop width overlap r start i = Some cs" and "width \<le> overlap"
  shows "\<not> start < int (length (mem_content r))"
proof -
  have "width \<le> overlap \<longrightarrow> \<not> start < int (length (mem_content r))"
  proof (rule chunk_loop.raw_induct [OF _ assms(1)])
    fix f width' overlap' r' start' and i' :: nat and y
    assume IH: "\<And>width'' overlap'' r'' start'' i'' y''.
        f width'' overlap'' r'' start'' i'' = Some y'' \<Longrightarrow>
        width'' \<le> overlap'' \<longrightarrow> \<not> start'' < int (length (mem_content r''))"
      and body: "(if start' < int (length (mem_content r'))
        then Option.bind (f width' overlap' r' (start' + (width' - overlap')) (i' + 1))
               (\<lambda>rest. Some (chunk_at width' r' start' i' # rest))
        else Some []) = Some y"
    show "width' \<le> overlap' \<longrightarrow> \<not> start' < int (length (mem_content r'))"
    proof (intro impI notI)
      assume le: "width' \<le> overlap'" and lt: "start' < int (length (mem_content r'))"
      with body obtain rest where "f width' overlap' r' (start' + (width' - overlap')) (i' + 1) = Some rest"
        by (auto simp: bind_eq_Some_conv)
      from IH [OF this] le lt show False by simp
    qed
  qed
  with assms(2) show ?thesis by blast
qed

subsection \<open>Properties\<close>

text \<open>C23: With an overlap below the chunk size, indexing returns, and the chunks carry the whole
  text: their first \<open>size - overlap\<close> characters, put together, are the content, and so is the first chunk with
  the others after it, the overlap cut off from the front of each; no chunk is
  longer than the size, the identifiers are the positions, and an empty rest makes no chunk.\<close>

theorem chunks_rebuild_content:
  assumes "0 \<le> chunkOverlap ix" and "chunkOverlap ix < chunkSize ix"
    and "chunkSize ix < int (length (mem_content r))"
  shows "\<exists>cs. index_record r ix = Some (cs, ix\<lparr>index_chunks := jm_set (mem_id r) cs (index_chunks ix)\<rparr>) \<and>
    concat (map (\<lambda>c. take (nat (chunkSize ix - chunkOverlap ix)) (chunk_content c)) cs) = mem_content r \<and>
    chunk_content (hd cs) @ concat (map (\<lambda>c. drop (nat (chunkOverlap ix)) (chunk_content c)) (tl cs)) = mem_content r \<and>
    (\<forall>c \<in> set cs. chunk_content c \<noteq> [] \<and> int (length (chunk_content c)) \<le> chunkSize ix \<and>
       chunk_parentId c = mem_id r) \<and>
    map chunk_id cs = map (\<lambda>k. mem_id r @ '':'' @ nat_str k) [0..<length cs]"
proof -
  define width where "width = nat (chunkSize ix)"
  define overlap where "overlap = nat (chunkOverlap ix)"
  let ?step = "width - overlap"
  have ints: "chunkSize ix = int width" "chunkOverlap ix = int overlap"
    using assms by (simp_all add: width_def overlap_def)
  have lt: "overlap < width" using assms ints by simp
  have step: "nat (chunkSize ix - chunkOverlap ix) = ?step" using ints lt by simp
  obtain n where
    loop: "chunk_loop (int width) (int overlap) r 0 0 =
      Some (map (\<lambda>k. chunk_at (int width) r (int (k * ?step)) k) [0..<n])"
    and n: "\<And>k. k < n \<longleftrightarrow> k * ?step < length (mem_content r)"
    using chunk_loop_steps [OF lt, of r 0 0] by auto
  let ?cs = "map (\<lambda>k. chunk_at (int width) r (int (k * ?step)) k) [0..<n]"
  have r: "index_record r ix = Some (?cs, ix\<lparr>index_chunks := jm_set (mem_id r) ?cs (index_chunks ix)\<rparr>)"
    using loop assms(3) ints by (simp add: index_record_def chunkContent_def)
  have "concat (map (\<lambda>c. take ?step (chunk_content c)) ?cs) =
      concat (map (\<lambda>k. take ?step (take width (drop (0 + k * ?step) (mem_content r)))) [0..<n])"
    by (simp only: map_map comp_def chunk_at_content add_0)
  also have "\<dots> = drop 0 (mem_content r)"
    using lt n by (intro concat_steps) simp_all
  finally have "concat (map (\<lambda>c. take ?step (chunk_content c)) ?cs) = mem_content r" by simp
  moreover have "chunk_content (hd ?cs) @ concat (map (\<lambda>c. drop overlap (chunk_content c)) (tl ?cs)) = mem_content r"
  proof -
    from n [of 0] assms(1,2,3) obtain m where m: "n = Suc m" by (cases n) auto
    have "?cs = chunk_at (int width) r (int (0 * ?step)) 0 #
        map (\<lambda>k. chunk_at (int width) r (int (Suc k * ?step)) (Suc k)) [0..<m]"
      unfolding m by (simp only: map_upt_Suc)
    moreover have "take width (drop 0 (mem_content r)) @
        concat (map (\<lambda>k. drop overlap (take width (drop (0 + Suc k * ?step) (mem_content r)))) [0..<m]) = drop 0 (mem_content r)"
      using n by (intro overlaps_cut [OF lt]) (simp add: m)
    ultimately show ?thesis
      by (simp only: list.sel map_map comp_def chunk_at_content mult_zero_left add_0 drop_0)
  qed
  moreover have "chunk_content c \<noteq> [] \<and> int (length (chunk_content c)) \<le> chunkSize ix \<and>
      chunk_parentId c = mem_id r" if "c \<in> set ?cs" for c
  proof -
    from that obtain k where "k < n" and c: "c = chunk_at (int width) r (int (k * ?step)) k" by auto
    with n have "k * ?step < length (mem_content r)" by blast
    then show ?thesis using lt ints unfolding c chunk_at_content
      by (simp add: chunk_at_def)
  qed
  moreover have "map chunk_id ?cs = map (\<lambda>k. mem_id r @ '':'' @ nat_str k) [0..<length ?cs]"
    by (simp add: chunk_at_def)
  ultimately show ?thesis using r step ints by (intro exI [of _ ?cs]) simp
qed

definition indexed_memory :: memory_record where
  "indexed_memory = \<lparr>mem_id = ''m'', mem_scope = Project, mem_content = ''abcdefg'',
     mem_embedding = None, mem_source = \<lparr>source_pluginId = ''p'', source_toolId = None, source_label = ''l''\<rparr>,
     mem_userId = None, mem_projectId = None, mem_tags = [], mem_importance = 1 / 2, mem_metadata = [],
     mem_createdAt = 0, mem_lastAccessedAt = 0, mem_accessCount = 0, mem_ttlMs = None,
     mem_readOnly = False, mem_visibility = Private\<rparr>"

lemma indexed_memory_chunks:
  "chunkContent (new_indexer (Some 4) (Some 1)) indexed_memory = Some cs \<Longrightarrow>
     map chunk_content cs = [''abcd'', ''defg'', ''g'']"
  by (simp add: chunkContent_def new_indexer_def indexed_memory_def chunk_loop.simps chunk_at_def
      slice_str_def slice_index_def) auto

lemma chunks_rebuild_content_witness:
  "\<exists>cs ix'. index_record indexed_memory (new_indexer (Some 4) (Some 1)) = Some (cs, ix') \<and>
     map chunk_content cs = [''abcd'', ''defg'', ''g''] \<and>
     concat (map (\<lambda>c. take 3 (chunk_content c)) cs) = ''abcdefg''"
proof -
  let ?ix = "new_indexer (Some 4) (Some 1)"
  have "0 \<le> chunkOverlap ?ix" "chunkOverlap ?ix < chunkSize ?ix"
    "chunkSize ?ix < int (length (mem_content indexed_memory))"
    by (simp_all add: new_indexer_def indexed_memory_def)
  from chunks_rebuild_content [OF this] obtain cs where
    i: "index_record indexed_memory ?ix = Some (cs, ?ix\<lparr>index_chunks := jm_set (mem_id indexed_memory) cs (index_chunks ?ix)\<rparr>)"
    and c: "concat (map (\<lambda>c. take (nat (chunkSize ?ix - chunkOverlap ?ix)) (chunk_content c)) cs) =
      mem_content indexed_memory" by blast
  from i have "chunkContent ?ix indexed_memory = Some cs"
    by (auto simp: index_record_def split: option.splits)
  from indexed_memory_chunks [OF this] i c show ?thesis
    by (auto simp: new_indexer_def indexed_memory_def)
qed

text \<open>A search of the index finds every text that occurs in an indexed content, whatever
  its case, when it is not longer than the overlap and one.\<close>

theorem chunk_search_complete:
  assumes "0 \<le> chunkOverlap ix" and "chunkOverlap ix < chunkSize ix"
    and "index_record r ix = Some (cs, ix')" and "text' \<noteq> []"
    and "int (length text') \<le> chunkOverlap ix + 1"
    and "includes_str (toLowerCase (mem_content r)) (toLowerCase text')"
  shows "\<exists>c \<in> set (searchChunks text' ix'). chunk_parentId c = mem_id r"
proof -
  from assms(3) have cs: "chunkContent ix r = Some cs"
    and ix': "ix' = ix\<lparr>index_chunks := jm_set (mem_id r) cs (index_chunks ix)\<rparr>"
    by (auto simp: index_record_def split: option.splits)
  have all: "set cs \<subseteq> set (concat (jm_values (index_chunks ix')))"
  proof -
    have "(mem_id r, cs) \<in> set (index_chunks ix')"
      using map_of_SomeD [of "index_chunks ix'" "mem_id r" cs] by (simp add: ix')
    then show ?thesis by force
  qed
  have "\<exists>c \<in> set cs. chunk_parentId c = mem_id r \<and>
      includes_str (toLowerCase (chunk_content c)) (toLowerCase text')"
  proof (cases "int (length (mem_content r)) \<le> chunkSize ix")
    case True
    with cs assms(6) show ?thesis by (auto simp: chunkContent_def)
  next
    case False
    define width where "width = nat (chunkSize ix)"
    define overlap where "overlap = nat (chunkOverlap ix)"
    let ?step = "width - overlap"
    have ints: "chunkSize ix = int width" "chunkOverlap ix = int overlap"
      using assms by (simp_all add: width_def overlap_def)
    have lt: "overlap < width" using assms ints by simp
    obtain n where
      loop: "chunk_loop (int width) (int overlap) r 0 0 =
        Some (map (\<lambda>k. chunk_at (int width) r (int (k * ?step)) k) [0..<n])"
      and n: "\<And>k. k < n \<longleftrightarrow> k * ?step < length (mem_content r)"
      using chunk_loop_steps [OF lt, of r 0 0] by auto
    from cs False loop ints have cs': "cs = map (\<lambda>k. chunk_at (int width) r (int (k * ?step)) k) [0..<n]"
      by (simp add: chunkContent_def)
    from assms(6) obtain as zs where occ: "toLowerCase (mem_content r) = as @ toLowerCase text' @ zs"
      by (auto simp: includes_str_iff)
    let ?k = "length as div ?step"
    have "length (toLowerCase text') \<le> overlap + 1" "toLowerCase text' \<noteq> []"
      using assms(4,5) ints by (simp_all add: toLowerCase_def)
    from occurrence_in_chunk [OF occ this(1) lt this(2)]
    have k: "includes_str (take width (drop (?k * ?step) (toLowerCase (mem_content r)))) (toLowerCase text')"
      and "?k * ?step < length (mem_content r)" by (simp_all add: toLowerCase_def)
    with n have "?k < n" by blast
    then have "chunk_at (int width) r (int (?k * ?step)) ?k \<in> set cs" by (auto simp: cs')
    moreover have "toLowerCase (chunk_content (chunk_at (int width) r (int (?k * ?step)) ?k)) =
        take width (drop (?k * ?step) (toLowerCase (mem_content r)))"
      unfolding chunk_at_content by (rule lower_take_drop)
    ultimately show ?thesis using k by (intro bexI) (simp_all add: chunk_at_def)
  qed
  then obtain c where "c \<in> set cs" "chunk_parentId c = mem_id r"
    "includes_str (toLowerCase (chunk_content c)) (toLowerCase text')" by blast
  moreover from this(1) all have "c \<in> set (concat (jm_values (index_chunks ix')))" by blast
  ultimately show ?thesis unfolding searchChunks_def
    by (intro bexI [of _ c]) (simp_all only: set_filter mem_Collect_eq)
qed

lemma chunk_search_complete_witness:
  "\<exists>cs ix'. index_record indexed_memory (new_indexer (Some 4) (Some 1)) = Some (cs, ix') \<and>
     (\<exists>c \<in> set (searchChunks ''DE'' ix'). chunk_parentId c = ''m'')"
proof -
  let ?ix = "new_indexer (Some 4) (Some 1)"
  have b: "0 \<le> chunkOverlap ?ix" "chunkOverlap ?ix < chunkSize ?ix"
    "int (length ''DE'') \<le> chunkOverlap ?ix + 1" by (simp_all add: new_indexer_def)
  have "chunkSize ?ix < int (length (mem_content indexed_memory))"
    by (simp add: new_indexer_def indexed_memory_def)
  then obtain cs ix' where i: "index_record indexed_memory ?ix = Some (cs, ix')"
    using chunk_loop_steps [of 1 4 indexed_memory 0 0]
    by (auto simp: index_record_def chunkContent_def new_indexer_def)
  have "includes_str (toLowerCase ''abcdefg'') (toLowerCase ''DE'')" by code_simp
  then have "includes_str (toLowerCase (mem_content indexed_memory)) (toLowerCase ''DE'')"
    by (simp add: indexed_memory_def)
  from chunk_search_complete [OF b(1,2) i _ b(3) this] i show ?thesis
    by (auto simp: indexed_memory_def)
qed

text \<open>When the overlap is not below the chunk size, indexing a content longer than the
  size never returns.\<close>

theorem large_overlap_never_returns:
  assumes "chunkSize ix \<le> chunkOverlap ix" and "chunkSize ix < int (length (mem_content r))"
    and "mem_content r \<noteq> []"
  shows "index_record r ix = None"
proof (cases "chunk_loop (chunkSize ix) (chunkOverlap ix) r 0 0")
  case None
  with assms show ?thesis by (simp add: index_record_def chunkContent_def)
next
  case (Some cs)
  from chunk_loop_stuck [OF Some assms(1)] have "length (mem_content r) = 0" by simp
  with assms(3) show ?thesis by simp
qed

lemma large_overlap_never_returns_witness:
  "index_record indexed_memory (new_indexer (Some 2) None) = None"
  by (rule large_overlap_never_returns) (simp_all add: new_indexer_def indexed_memory_def)

end
