(* ===== verification/MemoryManager.thy ===== *)
theory MemoryManager
  imports MemoryRetriever MemoryIndexer
begin

text \<open>
  The memory manager (packages/memory/src/MemoryManager.ts) with its events
  (MemoryObservability.ts), over any backend. The identifier that \<open>generateId\<close> makes from the
  clock and a random number, and the instants read, are parameters.
\<close>

subsection \<open>Events\<close>

datatype memory_event_type =
  Stored | Retrieved | Deleted | Queried | Ranked | Indexed | Expired | Evicted

fun event_type_str :: "memory_event_type \<Rightarrow> string" where
  "event_type_str Stored = ''memory.stored''"
| "event_type_str Retrieved = ''memory.retrieved''"
| "event_type_str Deleted = ''memory.deleted''"
| "event_type_str Queried = ''memory.queried''"
| "event_type_str Ranked = ''memory.ranked''"
| "event_type_str Indexed = ''memory.indexed''"
| "event_type_str Expired = ''memory.expired''"
| "event_type_str Evicted = ''memory.evicted''"

datatype event_member =
    Text string
  | Number real
  | Scope memory_scope
  | Scopes "memory_scope list option"
  | Maybe_number "real option"

record memory_event =
  ev_type :: memory_event_type
  ev_timestamp :: instant
  ev_data :: "(string \<times> event_member) list"

text \<open>
  Handlers are known by an identity; \<open>obs_delivered\<close> records the calls they get, whose
  exceptions are swallowed.
\<close>

record observability =
  obs_handlers :: "nat list"
  obs_events :: "memory_event list"
  obs_delivered :: "(nat \<times> memory_event) list"

definition new_observability :: observability where
  "new_observability = \<lparr>obs_handlers = [], obs_events = [], obs_delivered = []\<rparr>"

definition on_event :: "nat \<Rightarrow> observability \<Rightarrow> observability" where
  "on_event h ob = ob\<lparr>obs_handlers := obs_handlers ob @ [h]\<rparr>"

definition off_event :: "nat \<Rightarrow> observability \<Rightarrow> observability" where
  "off_event h ob = ob\<lparr>obs_handlers := remove1 h (obs_handlers ob)\<rparr>"

definition emit :: "instant \<Rightarrow> memory_event_type \<Rightarrow> (string \<times> event_member) list \<Rightarrow> observability \<Rightarrow> observability" where
  "emit now t d ob =
     (let ev = \<lparr>ev_type = t, ev_timestamp = now, ev_data = d\<rparr>
      in ob\<lparr>obs_events := obs_events ob @ [ev],
            obs_delivered := obs_delivered ob @ map (\<lambda>h. (h, ev)) (obs_handlers ob)\<rparr>)"

definition emitStored :: "instant \<Rightarrow> memory_record \<Rightarrow> observability \<Rightarrow> observability" where
  "emitStored now r = emit now Stored [(''memoryId'', Text (mem_id r)), (''scope'', Scope (mem_scope r)),
     (''pluginId'', Text (source_pluginId (mem_source r)))]"

definition emitRetrieved :: "instant \<Rightarrow> string \<Rightarrow> observability \<Rightarrow> observability" where
  "emitRetrieved now i = emit now Retrieved [(''memoryId'', Text i)]"

definition emitDeleted :: "instant \<Rightarrow> string \<Rightarrow> observability \<Rightarrow> observability" where
  "emitDeleted now i = emit now Deleted [(''memoryId'', Text i)]"

definition emitQueried :: "instant \<Rightarrow> memory_query \<Rightarrow> nat \<Rightarrow> int \<Rightarrow> observability \<Rightarrow> observability" where
  "emitQueried now q n d = emit now Queried [(''text'', Text (q_text q)), (''scopes'', Scopes (q_scopes q)),
     (''resultCount'', Number (real n)), (''durationMs'', Number (real_of_int d))]"

definition emitRanked :: "instant \<Rightarrow> memory_score list \<Rightarrow> observability \<Rightarrow> observability" where
  "emitRanked now ss = emit now Ranked [(''count'', Number (real (length ss))),
     (''topScore'', Maybe_number (case ss of [] \<Rightarrow> None | s # _ \<Rightarrow> Some (sc_score s)))]"

definition emitIndexed :: "instant \<Rightarrow> string \<Rightarrow> nat \<Rightarrow> observability \<Rightarrow> observability" where
  "emitIndexed now i n = emit now Indexed [(''memoryId'', Text i), (''chunkCount'', Number (real n))]"

definition emitExpired :: "instant \<Rightarrow> string \<Rightarrow> observability \<Rightarrow> observability" where
  "emitExpired now i = emit now Expired [(''memoryId'', Text i)]"

definition emitEvicted :: "instant \<Rightarrow> string \<Rightarrow> string \<Rightarrow> observability \<Rightarrow> observability" where
  "emitEvicted now i reason = emit now Evicted [(''memoryId'', Text i), (''reason'', Text reason)]"

definition getEvents :: "observability \<Rightarrow> memory_event list" where
  "getEvents ob = obs_events ob"

definition getEventsByType :: "memory_event_type \<Rightarrow> observability \<Rightarrow> memory_event list" where
  "getEventsByType t ob = filter (\<lambda>e. ev_type e = t) (obs_events ob)"

definition clearEvents :: "observability \<Rightarrow> observability" where
  "clearEvents ob = ob\<lparr>obs_events := []\<rparr>"

subsection \<open>The manager\<close>

record create_input =
  in_scope :: memory_scope
  in_content :: string
  in_source :: memory_source
  in_tags :: "string list option"
  in_importance :: "real option"
  in_metadata :: "memory_metadata option"
  in_userId :: "string option"
  in_projectId :: "string option"
  in_ttlMs :: "int option"
  in_readOnly :: "bool option"
  in_visibility :: "visibility option"

record 'p manager =
  mg_provider :: 'p
  mg_indexer :: indexer
  mg_retriever :: retriever
  mg_observability :: observability
  mg_policies :: "(memory_scope, memory_policy) jmap"
  mg_enableObservability :: bool
  mg_enableIndexing :: bool
  mg_defaultMaxResults :: int

definition new_manager :: "'p \<Rightarrow> bool option \<Rightarrow> bool option \<Rightarrow> int option \<Rightarrow> 'p manager" where
  "new_manager p enableObs enableIndex n =
     \<lparr>mg_provider = p, mg_indexer = new_indexer None None,
      mg_retriever = new_retriever (Some (override 10 n)) None None,
      mg_observability = new_observability,
      mg_policies = fold (\<lambda>s. jm_set s (getDefaultPolicy s))
        [Conversation, Project, Execution, Plugin, User, Knowledge, System] [],
      mg_enableObservability = override True enableObs,
      mg_enableIndexing = override True enableIndex, mg_defaultMaxResults = override 10 n\<rparr>"

definition observe :: "(observability \<Rightarrow> observability) \<Rightarrow> 'p manager \<Rightarrow> 'p manager" where
  "observe f m = (if mg_enableObservability m
     then m\<lparr>mg_observability := f (mg_observability m)\<rparr> else m)"

definition initialize_manager :: "'p backend \<Rightarrow> 'p manager \<Rightarrow> (memory_error + unit) \<times> 'p manager" where
  "initialize_manager b m = (case b_initialize b (mg_provider m) of
     Inl e \<Rightarrow> (Inl e, m)
   | Inr p \<Rightarrow> (Inr (), m\<lparr>mg_provider := p\<rparr>))"

definition new_record :: "instant \<Rightarrow> string \<Rightarrow> create_input \<Rightarrow> memory_policy \<Rightarrow> memory_record" where
  "new_record now i inp p =
     \<lparr>mem_id = i, mem_scope = in_scope inp, mem_content = in_content inp, mem_embedding = None,
      mem_source = in_source inp, mem_userId = in_userId inp, mem_projectId = in_projectId inp,
      mem_tags = override [] (in_tags inp),
      mem_importance = override (pol_defaultImportance p) (in_importance inp),
      mem_metadata = override [] (in_metadata inp), mem_createdAt = now, mem_lastAccessedAt = now,
      mem_accessCount = 0,
      mem_ttlMs = (case in_ttlMs inp of Some t \<Rightarrow> Some t | None \<Rightarrow> pol_ttlMs p),
      mem_readOnly = override False (in_readOnly inp),
      mem_visibility = override (pol_defaultVisibility p) (in_visibility inp)\<rparr>"

definition validateRecord :: "memory_record \<Rightarrow> memory_error option" where
  "validateRecord r =
     (let es = (if mem_content r = [] then [''Content must not be empty''] else [])
            @ (if mem_importance r < 0 \<or> mem_importance r > 1
               then [''Importance must be between 0 and 1''] else [])
      in if es \<noteq> [] then Some (MemoryValidationFailedError es) else None)"

text \<open>The body of \<open>enforcePolicy\<close> is empty in the source.\<close>

definition enforcePolicy :: "memory_record \<Rightarrow> memory_policy \<Rightarrow> memory_error option" where
  "enforcePolicy r p = None"

text \<open>
  \<open>store\<close>: the created record or an exception, with the manager after it; no value when the
  indexer does not return. A failure after the provider stored the record leaves it stored.
\<close>

definition store_memory :: "'p backend \<Rightarrow> instant \<Rightarrow> string \<Rightarrow> create_input \<Rightarrow> 'p manager
    \<Rightarrow> ((memory_error + memory_record) \<times> 'p manager) option" where
  "store_memory b now i inp m =
     (let p = override (getDefaultPolicy (in_scope inp)) (jm_get (mg_policies m) (in_scope inp));
          r = new_record now i inp p
      in case validateRecord r of
           Some e \<Rightarrow> Some (Inl e, m)
         | None \<Rightarrow> (case enforcePolicy r p of
             Some e \<Rightarrow> Some (Inl e, m)
           | None \<Rightarrow> (case b_store b r (mg_provider m) of
               Inl e \<Rightarrow> Some (Inl e, m)
             | Inr p' \<Rightarrow>
                 (let m1 = m\<lparr>mg_provider := p'\<rparr> in
                  case (if mg_enableIndexing m1
                        then map_option (\<lambda>(cs, ix). m1\<lparr>mg_indexer := ix\<rparr>) (index_record r (mg_indexer m1))
                        else Some m1) of
                    None \<Rightarrow> None
                  | Some m2 \<Rightarrow> Some (Inr r, observe (emitStored now r) m2)))))"

definition retrieve_memory :: "'p backend \<Rightarrow> instant \<Rightarrow> string \<Rightarrow> 'p manager
    \<Rightarrow> (memory_error + memory_record) \<times> 'p manager" where
  "retrieve_memory b now i m = (case b_retrieve b i (mg_provider m) of
     Inl e \<Rightarrow> (Inl e, m)
   | Inr None \<Rightarrow> (Inl (MemoryNotFoundError i), m)
   | Inr (Some r) \<Rightarrow> (Inr r, observe (emitRetrieved now i) m))"

definition delete_memory :: "'p backend \<Rightarrow> instant \<Rightarrow> string \<Rightarrow> 'p manager
    \<Rightarrow> (memory_error + bool) \<times> 'p manager" where
  "delete_memory b now i m = (case b_remove b i (mg_provider m) of
     Inl e \<Rightarrow> (Inl e, m)
   | Inr (removed, p) \<Rightarrow>
       (let m1 = m\<lparr>mg_provider := p\<rparr> in
        (Inr removed,
         if removed
         then observe (emitDeleted now i) (m1\<lparr>mg_indexer := snd (remove_indexed i (mg_indexer m1))\<rparr>)
         else m1)))"

definition query_memory :: "(nat \<Rightarrow> instant) \<Rightarrow> instant \<Rightarrow> 'p backend \<Rightarrow> memory_query \<Rightarrow> 'p manager
    \<Rightarrow> (memory_error + memory_result) \<times> 'p manager" where
  "query_memory clock loaded b q m =
     (case retriever_query clock loaded b q (mg_provider m) (mg_retriever m) of
        (Inl e, rt) \<Rightarrow> (Inl e, m\<lparr>mg_retriever := rt\<rparr>)
      | (Inr res, rt) \<Rightarrow> (Inr res,
          observe (emitQueried (clock 4) q (length (res_scores res)) (res_durationMs res))
            (m\<lparr>mg_retriever := rt\<rparr>)))"

definition getContext :: "(nat \<Rightarrow> instant) \<Rightarrow> instant \<Rightarrow> 'p backend \<Rightarrow> memory_query \<Rightarrow> 'p manager
    \<Rightarrow> (memory_error + retrieval_context) \<times> 'p manager" where
  "getContext clock loaded b q m = (case query_memory clock loaded b q m of
     (Inl e, m') \<Rightarrow> (Inl e, m')
   | (Inr res, m') \<Rightarrow> (Inr (new_context (q_text q) (res_scores res) (res_durationMs res)), m'))"

definition exists_memory :: "'p backend \<Rightarrow> string \<Rightarrow> 'p manager \<Rightarrow> memory_error + bool" where
  "exists_memory b i m = (case b_retrieve b i (mg_provider m) of
     Inl e \<Rightarrow> Inl e
   | Inr r \<Rightarrow> Inr (r \<noteq> None))"

definition count_memories :: "'p backend \<Rightarrow> memory_filter option \<Rightarrow> 'p manager \<Rightarrow> memory_error + nat" where
  "count_memories b f m = b_count b f (mg_provider m)"

definition setPolicy :: "memory_scope \<Rightarrow> memory_policy \<Rightarrow> 'p manager \<Rightarrow> 'p manager" where
  "setPolicy s p m = m\<lparr>mg_policies := jm_set s p (mg_policies m)\<rparr>"

definition getPolicy :: "memory_scope \<Rightarrow> 'p manager \<Rightarrow> memory_policy option" where
  "getPolicy s m = jm_get (mg_policies m) s"

definition close_manager :: "'p backend \<Rightarrow> 'p manager \<Rightarrow> (memory_error + unit) \<times> 'p manager" where
  "close_manager b m = (case b_close b (mg_provider m) of
     Inl e \<Rightarrow> (Inl e, m)
   | Inr p \<Rightarrow> (Inr (), m\<lparr>mg_provider := p\<rparr>))"

subsection \<open>Facts of one call\<close>

lemma observe_simps [simp]:
  "mg_provider (observe f m) = mg_provider m" "mg_indexer (observe f m) = mg_indexer m"
  "mg_retriever (observe f m) = mg_retriever m" "mg_policies (observe f m) = mg_policies m"
  "mg_enableIndexing (observe f m) = mg_enableIndexing m"
  by (simp_all add: observe_def)

text \<open>The indexer of a manager has the default sizes, so that indexing returns.\<close>

definition returning :: "'p manager \<Rightarrow> bool" where
  "returning m \<longleftrightarrow> 0 \<le> chunkOverlap (mg_indexer m) \<and>
     chunkOverlap (mg_indexer m) < chunkSize (mg_indexer m) \<and>
     \<not> ret_enableCaching (mg_retriever m)"

lemma index_record_returns:
  assumes "0 \<le> chunkOverlap ix" and "chunkOverlap ix < chunkSize ix"
  shows "\<exists>cs. index_record r ix = Some (cs, ix\<lparr>index_chunks := jm_set (mem_id r) cs (index_chunks ix)\<rparr>)"
proof -
  define w where "w = nat (chunkSize ix)"
  define ov where "ov = nat (chunkOverlap ix)"
  have "chunkSize ix = int w" "chunkOverlap ix = int ov" "ov < w"
    using assms by (simp_all add: w_def ov_def)
  with chunk_loop_steps [of ov w r 0 0] show ?thesis
    by (auto simp: index_record_def chunkContent_def)
qed

definition valid_input :: "create_input \<Rightarrow> memory_policy \<Rightarrow> bool" where
  "valid_input inp p \<longleftrightarrow> in_content inp \<noteq> [] \<and>
     0 \<le> override (pol_defaultImportance p) (in_importance inp) \<and>
     override (pol_defaultImportance p) (in_importance inp) \<le> 1"

lemma validateRecord_new: "validateRecord (new_record now i inp p) = None \<longleftrightarrow> valid_input inp p"
  by (auto simp: validateRecord_def new_record_def valid_input_def Let_def)

definition policy_for :: "create_input \<Rightarrow> 'p manager \<Rightarrow> memory_policy" where
  "policy_for inp m = override (getDefaultPolicy (in_scope inp)) (jm_get (mg_policies m) (in_scope inp))"

subsection \<open>Managers over a backend that keeps its laws\<close>

locale managed_backend = memory_backend ready contents "b_store b" "b_retrieve b" "b_remove b" "b_search b"
  for ready :: "'p \<Rightarrow> bool" and contents and b :: "'p backend"
begin

lemma store_stores:
  assumes "ready (mg_provider m)" and "returning m" and "valid_input inp (policy_for inp m)"
  shows "\<exists>m'. store_memory b now i inp m = Some (Inr (new_record now i inp (policy_for inp m)), m') \<and>
    ready (mg_provider m') \<and> returning m' \<and>
    contents (mg_provider m') = (contents (mg_provider m))(i \<mapsto> new_record now i inp (policy_for inp m))"
proof -
  let ?r = "new_record now i inp (policy_for inp m)"
  from store_law [OF assms(1), of ?r] obtain p' where p': "b_store b ?r (mg_provider m) = Inr p'"
    "ready p'" "contents p' = (contents (mg_provider m))(i \<mapsto> ?r)"
    by (auto simp: new_record_def)
  from assms(2) obtain cs where "index_record ?r (mg_indexer m) =
      Some (cs, mg_indexer m\<lparr>index_chunks := jm_set (mem_id ?r) cs (index_chunks (mg_indexer m))\<rparr>)"
    using index_record_returns by (auto simp: returning_def)
  with assms p' show ?thesis
    using validateRecord_new [of now i inp "policy_for inp m"]
    by (auto simp: store_memory_def policy_for_def [symmetric] enforcePolicy_def Let_def returning_def)
qed

lemma store_refuses:
  assumes "\<not> valid_input inp (policy_for inp m)"
  shows "\<exists>es. store_memory b now i inp m = Some (Inl (MemoryValidationFailedError es), m)"
proof -
  from assms validateRecord_new [of now i inp "policy_for inp m"]
  obtain e where e: "validateRecord (new_record now i inp (policy_for inp m)) = Some e" by auto
  then have "\<exists>es. e = MemoryValidationFailedError es"
    by (auto simp: validateRecord_def Let_def split: if_splits)
  with e show ?thesis by (auto simp: store_memory_def policy_for_def [symmetric] Let_def)
qed

lemma retrieve_reads:
  "ready (mg_provider m) \<Longrightarrow>
     fst (retrieve_memory b now i m) =
       (case contents (mg_provider m) i of None \<Rightarrow> Inl (MemoryNotFoundError i) | Some r \<Rightarrow> Inr r) \<and>
     mg_provider (snd (retrieve_memory b now i m)) = mg_provider m"
  by (simp add: retrieve_memory_def retrieve_law split: option.split)

lemma delete_deletes:
  assumes "ready (mg_provider m)" and "returning m"
  shows "\<exists>m'. delete_memory b now i m = (Inr (contents (mg_provider m) i \<noteq> None), m') \<and>
    ready (mg_provider m') \<and> returning m' \<and>
    contents (mg_provider m') = (contents (mg_provider m))(i := None)"
proof -
  from remove_law [OF assms(1), of i] obtain p' where
    "b_remove b i (mg_provider m) = Inr (contents (mg_provider m) i \<noteq> None, p')" "ready p'"
    "contents p' = (contents (mg_provider m))(i := None)" by blast
  with assms(2) show ?thesis
    by (auto simp: delete_memory_def Let_def returning_def remove_indexed_def)
qed

lemma query_answers:
  assumes "ready (mg_provider m)" and "returning m"
  shows "\<exists>res m'. query_memory clock loaded b q m = (Inr res, m') \<and> mg_provider m' = mg_provider m \<and>
    answers q res \<and>
    res_totalBeforeRanking res = card {r \<in> ran (contents (mg_provider m)).
      matches (queryToFilter q) r \<and>
      (q_text q = [] \<or> includes_str (toLowerCase (mem_content r)) (toLowerCase (q_text q)))} \<and>
    (\<forall>s \<in> set (res_scores res). sc_record s \<in> ran (contents (mg_provider m)))"
proof -
  let ?rt = "mg_retriever m"
  from search_law [OF assms(1), of q] obtain rs where s: "b_search b q (mg_provider m) = Inr rs"
    and d: "distinct rs" and rs: "set rs = {r \<in> ran (contents (mg_provider m)). matches (queryToFilter q) r}"
    by blast
  let ?res = "\<lparr>res_scores = rankMemories loaded (applyQueryFilters rs q) (query_options ?rt q),
    res_totalBeforeRanking = length (applyQueryFilters rs q),
    res_durationMs = clock 2 - clock 0, res_cached = False\<rparr>"
  have "retriever_query clock loaded b q (mg_provider m) ?rt = (Inr ?res, ?rt)"
    using retriever_query_uncached [OF _ s] assms(2) by (simp add: returning_def)
  then have "\<exists>m'. query_memory clock loaded b q m = (Inr ?res, m') \<and> mg_provider m' = mg_provider m"
    by (simp add: query_memory_def)
  moreover have "answers q ?res" by (rule fresh_result_answers) (simp add: rs)
  moreover have "length (applyQueryFilters rs q) = card {r \<in> ran (contents (mg_provider m)).
      matches (queryToFilter q) r \<and>
      (q_text q = [] \<or> includes_str (toLowerCase (mem_content r)) (toLowerCase (q_text q)))}"
  proof -
    have "distinct (applyQueryFilters rs q)" using d by (simp add: applyQueryFilters_def)
    then have "length (applyQueryFilters rs q) = card (set (applyQueryFilters rs q))"
      by (simp add: distinct_card)
    also have "set (applyQueryFilters rs q) = {r \<in> ran (contents (mg_provider m)).
        matches (queryToFilter q) r \<and>
        (q_text q = [] \<or> includes_str (toLowerCase (mem_content r)) (toLowerCase (q_text q)))}"
      by (simp only: set_eq_iff applyQueryFilters_set rs mem_Collect_eq conj_assoc simp_thms)
    finally show ?thesis .
  qed
  moreover have "\<forall>s \<in> set (res_scores ?res). sc_record s \<in> ran (contents (mg_provider m))"
    using rankMemories_records rs by (fastforce simp: applyQueryFilters_set)
  ultimately show ?thesis by fastforce
qed

end

interpretation in_memory_manager: managed_backend im_ready "\<lambda>p. jm_get (im_records p)" in_memory_backend
proof -
  show "managed_backend im_ready (\<lambda>p. jm_get (im_records p)) in_memory_backend"
    unfolding managed_backend_def in_memory_backend_def backend.simps
    by (rule in_memory_store.memory_backend_axioms)
qed


text \<open>
  What a manager over the backend in memory guarantees: seen from its callers it is a map
  from identifiers to records, and a query answers from that map; and what it does not: the
  time to live of a record is never looked at, and with the cache of a retriever switched on
  a result may not answer its query.
\<close>

subsection \<open>The manager as a map\<close>

datatype command =
    Store instant string create_input
  | Delete instant string
  | Retrieve instant string
  | Query "nat \<Rightarrow> instant" memory_query
  | Set_policy memory_scope memory_policy

fun run_command :: "instant \<Rightarrow> command \<Rightarrow> in_memory manager \<Rightarrow> in_memory manager option" where
  "run_command loaded (Store now i inp) m = map_option snd (store_memory in_memory_backend now i inp m)"
| "run_command loaded (Delete now i) m = Some (snd (delete_memory in_memory_backend now i m))"
| "run_command loaded (Retrieve now i) m = Some (snd (retrieve_memory in_memory_backend now i m))"
| "run_command loaded (Query clock q) m = Some (snd (query_memory clock loaded in_memory_backend q m))"
| "run_command loaded (Set_policy s p) m = Some (setPolicy s p m)"

fun run_commands :: "instant \<Rightarrow> command list \<Rightarrow> in_memory manager \<Rightarrow> in_memory manager option" where
  "run_commands loaded [] m = Some m"
| "run_commands loaded (c # cs) m = Option.bind (run_command loaded c m) (run_commands loaded cs)"

text \<open>The abstract state: what is stored, and the policy of each scope.\<close>

type_synonym abstract_memory =
  "(string \<Rightarrow> memory_record option) \<times> (memory_scope \<Rightarrow> memory_policy)"

fun abstract_step :: "command \<Rightarrow> abstract_memory \<Rightarrow> abstract_memory" where
  "abstract_step (Store now i inp) (mem, pol) =
     (if valid_input inp (pol (in_scope inp))
      then (mem(i \<mapsto> new_record now i inp (pol (in_scope inp))), pol) else (mem, pol))"
| "abstract_step (Delete now i) (mem, pol) = (mem(i := None), pol)"
| "abstract_step (Retrieve now i) s = s"
| "abstract_step (Query clock q) s = s"
| "abstract_step (Set_policy s p) (mem, pol) = (mem, pol(s := p))"

definition abstract_of :: "in_memory manager \<Rightarrow> abstract_memory" where
  "abstract_of m = (jm_get (im_records (mg_provider m)),
     \<lambda>s. override (getDefaultPolicy s) (jm_get (mg_policies m) s))"

definition manager_ok :: "in_memory manager \<Rightarrow> bool" where
  "manager_ok m \<longleftrightarrow> im_ready (mg_provider m) \<and> returning m"

lemma policy_for_abstract: "policy_for inp m = snd (abstract_of m) (in_scope inp)"
  by (simp add: policy_for_def abstract_of_def)

lemma policies_kept:
  "store_memory in_memory_backend now i inp m = Some (res, m') \<Longrightarrow> mg_policies m' = mg_policies m"
  "mg_policies (snd (delete_memory in_memory_backend now i m)) = mg_policies m"
  "mg_policies (snd (query_memory clock loaded in_memory_backend q m)) = mg_policies m"
  by (auto simp: store_memory_def delete_memory_def query_memory_def Let_def
      split: option.splits sum.splits prod.splits if_splits)

lemma run_command_refines:
  assumes "manager_ok m"
  shows "\<exists>m'. run_command loaded c m = Some m' \<and> manager_ok m' \<and>
    abstract_of m' = abstract_step c (abstract_of m)"
proof (cases c)
  case (Store now i inp)
  show ?thesis
  proof (cases "valid_input inp (policy_for inp m)")
    case True
    from in_memory_manager.store_stores [OF _ _ True, of now i] assms obtain m' where
      "store_memory in_memory_backend now i inp m = Some (Inr (new_record now i inp (policy_for inp m)), m')"
      "im_ready (mg_provider m')" "returning m'"
      "jm_get (im_records (mg_provider m')) =
        (jm_get (im_records (mg_provider m)))(i \<mapsto> new_record now i inp (policy_for inp m))"
      by (auto simp: manager_ok_def)
    with True policies_kept(1) [OF this(1)] Store show ?thesis
      by (simp add: manager_ok_def abstract_of_def policy_for_def)
  next
    case False
    from in_memory_manager.store_refuses [OF False, of now i] False assms Store show ?thesis
      by (auto simp: abstract_of_def policy_for_def)
  qed
next
  case (Delete now i)
  from in_memory_manager.delete_deletes [of m now i] assms policies_kept(2) [of now i m] Delete
  show ?thesis by (auto simp: manager_ok_def abstract_of_def)
next
  case (Retrieve now i)
  with assms show ?thesis
    by (auto simp: retrieve_memory_def manager_ok_def abstract_of_def returning_def
        split: sum.split option.split)
next
  case (Query clock q)
  from in_memory_manager.query_answers [of m clock loaded q] assms
  obtain res m' where q: "query_memory clock loaded in_memory_backend q m = (Inr res, m')"
    "mg_provider m' = mg_provider m" by (auto simp: manager_ok_def)
  have "mg_indexer m' = mg_indexer m" "ret_enableCaching (mg_retriever m') = ret_enableCaching (mg_retriever m)"
    using q assms by (auto simp: query_memory_def retriever_query_def manager_ok_def returning_def Let_def
        split: prod.splits sum.splits)
  with q assms policies_kept(3) [of clock loaded q m] Query show ?thesis
    by (auto simp: manager_ok_def abstract_of_def returning_def)
next
  case (Set_policy s p)
  with assms show ?thesis
    by (auto simp: setPolicy_def manager_ok_def abstract_of_def returning_def fun_eq_iff jm_get_set)
qed

lemma run_commands_refines:
  "manager_ok m \<Longrightarrow> \<exists>m'. run_commands loaded cs m = Some m' \<and> manager_ok m' \<and>
     abstract_of m' = fold abstract_step cs (abstract_of m)"
proof (induction cs arbitrary: m)
  case Nil
  then show ?case by simp
next
  case (Cons c cs)
  from run_command_refines [OF Cons.prems] obtain m1 where
    "run_command loaded c m = Some m1" "manager_ok m1" "abstract_of m1 = abstract_step c (abstract_of m)"
    by blast
  with Cons.IH [of m1] show ?case by simp
qed

definition ready_manager :: "in_memory manager" where
  "ready_manager = snd (initialize_manager in_memory_backend (new_manager new_in_memory None None None))"

lemma manager_ok_ready: "manager_ok ready_manager"
  using im_ready_new
  by (simp add: ready_manager_def initialize_manager_def in_memory_backend_def new_manager_def
      manager_ok_def returning_def new_indexer_def new_retriever_def im_initialize_def)

lemma abstract_ready: "abstract_of ready_manager = (Map.empty, getDefaultPolicy)"
proof -
  have "override (getDefaultPolicy s) (jm_get (mg_policies ready_manager) s) = getDefaultPolicy s" for s
    by (cases s) (simp_all add: ready_manager_def initialize_manager_def in_memory_backend_def
        new_manager_def im_initialize_def)
  then show ?thesis
    by (simp add: abstract_of_def fun_eq_iff)
      (simp add: ready_manager_def initialize_manager_def in_memory_backend_def new_manager_def
        im_initialize_def new_in_memory_def)
qed

subsection \<open>Properties\<close>

text \<open>C21: An initialized manager over the backend in memory refines a map: after any sequence
  of stores, deletions, reads, queries and policy changes, all of which return, reading an
  identifier gives the record the last accepted store under it created with the policy in
  force, or the error that it is not found.\<close>

theorem memory_manager_refines_map:
  "\<exists>m. run_commands loaded cs ready_manager = Some m \<and>
     (\<forall>i now. fst (retrieve_memory in_memory_backend now i m) =
       (case fst (fold abstract_step cs (Map.empty, getDefaultPolicy)) i of
          None \<Rightarrow> Inl (MemoryNotFoundError i)
        | Some r \<Rightarrow> Inr r))"
proof -
  from run_commands_refines [OF manager_ok_ready, of loaded cs] obtain m where
    m: "run_commands loaded cs ready_manager = Some m" "manager_ok m"
    and a: "abstract_of m = fold abstract_step cs (Map.empty, getDefaultPolicy)"
    unfolding abstract_ready by blast
  have "fst (retrieve_memory in_memory_backend now i m) =
      (case fst (abstract_of m) i of None \<Rightarrow> Inl (MemoryNotFoundError i) | Some r \<Rightarrow> Inr r)" for i now
    using in_memory_manager.retrieve_reads [of m now i] m(2)
    by (simp add: manager_ok_def abstract_of_def)
  with m(1) a show ?thesis by auto
qed

text \<open>A query of a manager returns only stored records that match every member of the query,
  contain its text and reach its least score; it counts all the matches; and its scores do not
  depend on the clock, so that records beyond their time to live are returned like any other.\<close>

theorem queries_answer_but_never_expire:
  assumes "run_commands loaded cs ready_manager = Some m"
  shows "\<exists>res m'. query_memory clock loaded in_memory_backend q m = (Inr res, m') \<and> answers q res \<and>
    (\<forall>s \<in> set (res_scores res). fst (abstract_of m) (mem_id (sc_record s)) = Some (sc_record s)) \<and>
    res_totalBeforeRanking res = card {r \<in> ran (fst (abstract_of m)). matches (queryToFilter q) r \<and>
      (q_text q = [] \<or> includes_str (toLowerCase (mem_content r)) (toLowerCase (q_text q)))} \<and>
    (\<exists>res' m''. query_memory clock' loaded in_memory_backend q m = (Inr res', m'') \<and>
       res_scores res' = res_scores res)"
proof -
  from run_commands_refines [OF manager_ok_ready, of loaded cs] assms have ok: "manager_ok m" by auto
  then have r: "im_ready (mg_provider m)" "returning m" by (simp_all add: manager_ok_def)
  from in_memory_manager.query_answers [OF r, of clock loaded q] obtain res m' where
    res: "query_memory clock loaded in_memory_backend q m = (Inr res, m')" "answers q res"
    "res_totalBeforeRanking res = card {r \<in> ran (fst (abstract_of m)). matches (queryToFilter q) r \<and>
      (q_text q = [] \<or> includes_str (toLowerCase (mem_content r)) (toLowerCase (q_text q)))}"
    "\<forall>s \<in> set (res_scores res). sc_record s \<in> ran (fst (abstract_of m))"
    by (auto simp: abstract_of_def)
  from in_memory_store.search_law [OF r(1), of q] obtain rs where
    s: "b_search in_memory_backend q (mg_provider m) = Inr rs" by (auto simp: in_memory_backend_def)
  have off: "\<not> ret_enableCaching (mg_retriever m)" using r by (simp add: returning_def)
  have same: "\<exists>res' m''. query_memory ck loaded in_memory_backend q m = (Inr res', m'') \<and>
      res_scores res' = rankMemories loaded (applyQueryFilters rs q) (query_options (mg_retriever m) q)" for ck
    using retriever_query_uncached [OF off s, of ck loaded] by (simp add: query_memory_def)
  have "fst (abstract_of m) (mem_id (sc_record x)) = Some (sc_record x)" if "x \<in> set (res_scores res)" for x
    using res(4) that r(1) by (fastforce simp: abstract_of_def im_ready_def ran_def dest: map_of_SomeD)
  with res same [of clock] same [of clock'] show ?thesis by force
qed

definition short_lived :: create_input where
  "short_lived = \<lparr>in_scope = Project, in_content = ''note'', in_source = sample_source,
     in_tags = None, in_importance = None, in_metadata = None, in_userId = None, in_projectId = None,
     in_ttlMs = Some 10, in_readOnly = None, in_visibility = None\<rparr>"

definition text_query :: "string \<Rightarrow> memory_query" where
  "text_query t = \<lparr>q_text = t, q_embedding = None, q_scopes = None, q_pluginIds = None,
     q_userId = None, q_projectId = None, q_tags = None, q_minImportance = None,
     q_maxResults = None, q_minScore = None, q_includeReadOnly = None, q_requestId = None\<rparr>"

lemma queries_answer_but_never_expire_witness:
  "\<exists>m res m'. run_commands 0 [Store 5 ''a'' short_lived] ready_manager = Some m \<and>
     query_memory (\<lambda>n. 1000) 0 in_memory_backend (text_query ''NOTE'') m = (Inr res, m') \<and>
     answers (text_query ''NOTE'') res"
proof -
  from run_commands_refines [OF manager_ok_ready, of 0 "[Store 5 ''a'' short_lived]"]
  obtain m where m: "run_commands 0 [Store 5 ''a'' short_lived] ready_manager = Some m" by blast
  from queries_answer_but_never_expire [OF m, of "\<lambda>n. 1000" "text_query ''NOTE''" "\<lambda>n. 0"] m
  show ?thesis by blast
qed

text \<open>A store with one record, which is read-only, and a retriever with its cache on.\<close>

definition read_only_store :: in_memory where
  "read_only_store = \<lparr>im_records = [(''a'', (sample_memory ''a'' 1 0)\<lparr>mem_readOnly := True\<rparr>)],
     im_initialized = True\<rparr>"

definition caching_retriever :: retriever where
  "caching_retriever = new_retriever None (Some True) None"

text \<open>With the cache of a retriever on, a query may return a record it excludes: after a
  query that includes read-only records, the same text without that member gets the cached
  result, read-only record and all.\<close>

theorem cached_result_may_not_answer:
  "let with_read_only = (text_query ''note'')\<lparr>q_includeReadOnly := Some True\<rparr>;
       rt = snd (retriever_query (\<lambda>n. 0) 0 in_memory_backend with_read_only read_only_store caching_retriever)
   in \<exists>res. fst (retriever_query (\<lambda>n. 1) 0 in_memory_backend (text_query ''note'') read_only_store rt) = Inr res \<and>
      \<not> answers (text_query ''note'') res"
proof -
  let ?q = "(text_query ''note'')\<lparr>q_includeReadOnly := Some True\<rparr>"
  let ?r = "(sample_memory ''a'' 1 0)\<lparr>mem_readOnly := True\<rparr>"
  have s: "b_search in_memory_backend ?q read_only_store = Inr [?r]"
    by (simp add: in_memory_backend_def im_search_def ensureInitialized_def read_only_store_def
        im_query_matches)
      (simp add: matches_def queryToFilter_def text_query_def optional_def)
  have c: "getFromCache 0 ?q caching_retriever = (None, caching_retriever)"
    by (simp add: getFromCache_def caching_retriever_def new_retriever_def)
  have on: "ret_enableCaching caching_retriever" and ttl: "ret_cacheTtlMs caching_retriever = 60000"
    by (simp_all add: caching_retriever_def new_retriever_def)
  obtain res where res: "fst (retriever_query (\<lambda>n. 0) 0 in_memory_backend ?q read_only_store caching_retriever) = Inr res"
    and hit: "fst (retriever_query (\<lambda>n. 1) 0 in_memory_backend (text_query ''note'') read_only_store
      (snd (retriever_query (\<lambda>n. 0) 0 in_memory_backend ?q read_only_store caching_retriever))) =
      Inr (res\<lparr>res_cached := True\<rparr>)"
    using cache_hit_ignores_query_members [OF on s c, of "text_query ''note''" "\<lambda>n. 1" 0 read_only_store] ttl
    by (auto simp: getCacheKey_def text_query_def)
  have f: "applyQueryFilters [?r] ?q = [?r]"
  proof -
    have "includes_str (toLowerCase ''note a'') (toLowerCase ''note'')" by code_simp
    then show ?thesis by (simp add: applyQueryFilters_def text_query_def sample_memory_def)
  qed
  have "res_scores res = rankMemories 0 [?r] (query_options caching_retriever ?q)"
    using res s c on f by (auto simp: retriever_query_def Let_def)
  then have "score_record 0 (query_options caching_retriever ?q) ?r \<in> set (res_scores res)"
    by (simp add: rankMemories_def query_options_def text_query_def caching_retriever_def
        new_retriever_def descending_def slice0_def)
      (simp add: ranking_eval)
  moreover have "\<not> matches (queryToFilter (text_query ''note'')) (sc_record (score_record 0 (query_options caching_retriever ?q) ?r))"
    by (simp add: score_record_def Let_def matches_def queryToFilter_def text_query_def)
  ultimately have "\<not> answers (text_query ''note'') (res\<lparr>res_cached := True\<rparr>)"
    by (auto simp: answers_def)
  with hit show ?thesis by (simp add: Let_def)
qed

text \<open>The filters of MemoryFilters.ts and the backend's own copy of them agree.\<close>

theorem backend_query_agrees_with_filters:
  "im_query f p =
     (if im_initialized p then Inr (applyFilter (jm_values (im_records p)) f)
      else Inl (Other_error ''InMemoryProvider not initialized. Call initialize() first.''))"
  by (simp add: applyFilter_matches im_query_matches) (simp add: im_query_def ensureInitialized_def)

end
