(* ===== verification/PluginLifecycle.thy ===== *)
theory PluginLifecycle
  imports Prelude
begin

text \<open>
  The plugin package (packages/plugins/src): manifests and phases (types.ts), the registry
  (PluginRegistry.ts) and the lifecycle manager (PluginLifecycleManager.ts). A plugin's hooks
  are foreign code: a hook is a function from the instant of the call to what its promise
  does. An action of the manager awaits its hook; \<open>begin_action\<close> and \<open>finish_action\<close>
  are its parts before and after that await.
\<close>

subsection \<open>Manifests, plugins and records\<close>

record plugin_dependency =
  dep_id :: string
  dep_version :: string

datatype field_type = FString | FNumber | FBoolean | FObject | FArray

text \<open>A field schema; \<open>required\<close> counts as false when absent.\<close>

datatype field_schema = Field
  (fs_type: field_type)
  (fs_required: bool)
  (fs_default: jsval)
  (fs_enum: "jsval list option")
  (fs_items: "field_schema option")
  (fs_properties: "(string \<times> field_schema) list option")

type_synonym config_schema = "(string \<times> field_schema) list"

record plugin_manifest =
  man_id :: string
  man_name :: string
  man_version :: string
  man_author :: string
  man_description :: string
  man_capabilities :: "string list"
  man_dependencies :: "plugin_dependency list"
  man_minimumAgentOSVersion :: string
  man_configSchema :: "config_schema option"

datatype plugin_phase =
    REGISTERED | INITIALIZING | INITIALIZED | STARTING | RUNNING | STOPPING | STOPPED
  | DISPOSED | FAILED

fun phase_name :: "plugin_phase \<Rightarrow> string" where
  "phase_name REGISTERED = ''REGISTERED''"
| "phase_name INITIALIZING = ''INITIALIZING''"
| "phase_name INITIALIZED = ''INITIALIZED''"
| "phase_name STARTING = ''STARTING''"
| "phase_name RUNNING = ''RUNNING''"
| "phase_name STOPPING = ''STOPPING''"
| "phase_name STOPPED = ''STOPPED''"
| "phase_name DISPOSED = ''DISPOSED''"
| "phase_name FAILED = ''FAILED''"

definition PLUGIN_TERMINAL_PHASES :: "plugin_phase list" where
  "PLUGIN_TERMINAL_PHASES = [STOPPED, DISPOSED, FAILED]"

fun PLUGIN_VALID_TRANSITIONS :: "plugin_phase \<Rightarrow> plugin_phase list" where
  "PLUGIN_VALID_TRANSITIONS REGISTERED = [INITIALIZING, FAILED]"
| "PLUGIN_VALID_TRANSITIONS INITIALIZING = [INITIALIZED, FAILED]"
| "PLUGIN_VALID_TRANSITIONS INITIALIZED = [STARTING, STOPPING, FAILED]"
| "PLUGIN_VALID_TRANSITIONS STARTING = [RUNNING, FAILED]"
| "PLUGIN_VALID_TRANSITIONS RUNNING = [STOPPING, FAILED]"
| "PLUGIN_VALID_TRANSITIONS STOPPING = [STOPPED, FAILED]"
| "PLUGIN_VALID_TRANSITIONS STOPPED = [DISPOSED, FAILED]"
| "PLUGIN_VALID_TRANSITIONS DISPOSED = []"
| "PLUGIN_VALID_TRANSITIONS FAILED = []"

fun plugin_rank :: "plugin_phase \<Rightarrow> nat" where
  "plugin_rank REGISTERED = 7"
| "plugin_rank INITIALIZING = 6"
| "plugin_rank INITIALIZED = 5"
| "plugin_rank STARTING = 4"
| "plugin_rank RUNNING = 3"
| "plugin_rank STOPPING = 2"
| "plugin_rank STOPPED = 1"
| "plugin_rank DISPOSED = 0"
| "plugin_rank FAILED = 0"

interpretation plugin_phases: ranked_table PLUGIN_VALID_TRANSITIONS
  "\<lambda>p. p = DISPOSED \<or> p = FAILED" plugin_rank
proof
  show "(s = DISPOSED \<or> s = FAILED) \<longleftrightarrow> PLUGIN_VALID_TRANSITIONS s = []" for s
    by (cases s) simp_all
  show "plugin_rank t < plugin_rank s" if "t \<in> set (PLUGIN_VALID_TRANSITIONS s)" for s t
    using that by (cases s) auto
qed

text \<open>What the promise of a hook does: a result object of either kind, or a rejection.\<close>

datatype hook_result = Ok_result | Err_result string | Hook_throws string

record agent_plugin =
  manifest :: plugin_manifest
  plugin_initialize :: "instant \<Rightarrow> hook_result"
  plugin_start :: "instant \<Rightarrow> hook_result"
  plugin_stop :: "instant \<Rightarrow> hook_result"
  plugin_dispose :: "instant \<Rightarrow> hook_result"

record plugin_record =
  plugin :: agent_plugin
  rec_phase :: plugin_phase
  rec_registeredAt :: instant
  rec_startedAt :: "instant option"
  rec_stoppedAt :: "instant option"
  rec_error :: "string option"

subsection \<open>The registry\<close>

text \<open>Handlers are known by an identity; the notifications they get are recorded.\<close>

datatype registry_notice = Plugin_registered agent_plugin | Plugin_unregistered string

record plugin_registry =
  plugins :: "(string, plugin_record) jmap"
  registered_handlers :: "nat list"
  unregistered_handlers :: "nat list"
  notices :: "(nat \<times> registry_notice) list"

definition createPluginRegistry :: plugin_registry where
  "createPluginRegistry = \<lparr>plugins = [], registered_handlers = [], unregistered_handlers = [], notices = []\<rparr>"

definition createRecord :: "instant \<Rightarrow> agent_plugin \<Rightarrow> plugin_record" where
  "createRecord now p = \<lparr>plugin = p, rec_phase = REGISTERED, rec_registeredAt = now,
     rec_startedAt = None, rec_stoppedAt = None, rec_error = None\<rparr>"

definition not_registered :: "string \<Rightarrow> string" where
  "not_registered i = ''Plugin '' @ quoted i @ '' is not registered''"

definition register_plugin :: "instant \<Rightarrow> agent_plugin \<Rightarrow> plugin_registry
    \<Rightarrow> (string + unit) \<times> plugin_registry" where
  "register_plugin now p reg =
     (let i = man_id (manifest p) in
      if jm_has (plugins reg) i
      then (Inl (''Plugin '' @ quoted i @ '' is already registered''), reg)
      else (Inr (), reg\<lparr>plugins := jm_set i (createRecord now p) (plugins reg),
              notices := notices reg @ map (\<lambda>h. (h, Plugin_registered p)) (registered_handlers reg)\<rparr>))"

definition unregister_plugin :: "string \<Rightarrow> plugin_registry \<Rightarrow> (string + unit) \<times> plugin_registry" where
  "unregister_plugin i reg =
     (if \<not> jm_has (plugins reg) i then (Inl (not_registered i), reg)
      else (Inr (), reg\<lparr>plugins := jm_delete i (plugins reg),
              notices := notices reg @ map (\<lambda>h. (h, Plugin_unregistered i)) (unregistered_handlers reg)\<rparr>))"

definition list_plugins :: "plugin_registry \<Rightarrow> plugin_record list" where
  "list_plugins reg = jm_values (plugins reg)"

definition get_plugin :: "string \<Rightarrow> plugin_registry \<Rightarrow> plugin_record option" where
  "get_plugin i reg = jm_get (plugins reg) i"

definition has_plugin :: "string \<Rightarrow> plugin_registry \<Rightarrow> bool" where
  "has_plugin i reg = jm_has (plugins reg) i"

definition plugin_count :: "plugin_registry \<Rightarrow> nat" where
  "plugin_count reg = length (plugins reg)"

definition with_phase :: "instant \<Rightarrow> plugin_phase \<Rightarrow> plugin_record \<Rightarrow> plugin_record" where
  "with_phase now p r = r\<lparr>rec_phase := p,
     rec_startedAt := (if p = RUNNING then Some now else rec_startedAt r),
     rec_stoppedAt := (if p = STOPPED \<or> p = DISPOSED then Some now else rec_stoppedAt r)\<rparr>"

definition updatePhase :: "instant \<Rightarrow> string \<Rightarrow> plugin_phase \<Rightarrow> plugin_registry
    \<Rightarrow> (string + unit) \<times> plugin_registry" where
  "updatePhase now i p reg = (case jm_get (plugins reg) i of
     None \<Rightarrow> (Inl (not_registered i), reg)
   | Some r \<Rightarrow> (Inr (), reg\<lparr>plugins := jm_set i (with_phase now p r) (plugins reg)\<rparr>))"

definition updateError :: "string \<Rightarrow> string \<Rightarrow> plugin_registry \<Rightarrow> (string + unit) \<times> plugin_registry" where
  "updateError i e reg = (case jm_get (plugins reg) i of
     None \<Rightarrow> (Inl (not_registered i), reg)
   | Some r \<Rightarrow> (Inr (), reg\<lparr>plugins :=
       jm_set i (r\<lparr>rec_phase := FAILED, rec_error := Some e\<rparr>) (plugins reg)\<rparr>))"

text \<open>The handlers are kept in a \<open>Set\<close>: adding one twice changes nothing.\<close>

definition onRegistered :: "nat \<Rightarrow> plugin_registry \<Rightarrow> plugin_registry" where
  "onRegistered h reg = (if h \<in> set (registered_handlers reg) then reg
     else reg\<lparr>registered_handlers := registered_handlers reg @ [h]\<rparr>)"

definition onUnregistered :: "nat \<Rightarrow> plugin_registry \<Rightarrow> plugin_registry" where
  "onUnregistered h reg = (if h \<in> set (unregistered_handlers reg) then reg
     else reg\<lparr>unregistered_handlers := unregistered_handlers reg @ [h]\<rparr>)"

subsection \<open>The lifecycle manager\<close>

datatype action = Initialize | Startup | Shutdown | Dispose

fun action_name :: "action \<Rightarrow> string" where
  "action_name Initialize = ''initialize''"
| "action_name Startup = ''startup''"
| "action_name Shutdown = ''shutdown''"
| "action_name Dispose = ''dispose''"

fun expectedCurrent :: "action \<Rightarrow> plugin_phase" where
  "expectedCurrent Initialize = REGISTERED"
| "expectedCurrent Startup = INITIALIZED"
| "expectedCurrent Shutdown = RUNNING"
| "expectedCurrent Dispose = STOPPED"

fun intermediatePhase :: "action \<Rightarrow> plugin_phase" where
  "intermediatePhase Initialize = INITIALIZING"
| "intermediatePhase Startup = STARTING"
| "intermediatePhase Shutdown = STOPPING"
| "intermediatePhase Dispose = DISPOSED"

fun targetPhase :: "action \<Rightarrow> plugin_phase" where
  "targetPhase Initialize = INITIALIZED"
| "targetPhase Startup = RUNNING"
| "targetPhase Shutdown = STOPPED"
| "targetPhase Dispose = DISPOSED"

definition canTransition :: "plugin_phase \<Rightarrow> plugin_phase \<Rightarrow> bool" where
  "canTransition from' to \<longleftrightarrow> to \<in> set (PLUGIN_VALID_TRANSITIONS from')"

text \<open>
  The manager with its registry. \<open>pending\<close> are the calls at their await, \<open>hook_log\<close> the
  hooks that were called, \<open>transitions\<close> what the transition handlers are told.
\<close>

record plugin_manager =
  pm_registry :: plugin_registry
  pending :: "(string \<times> action) list"
  hook_log :: "(string \<times> action) list"
  transitions :: "(string \<times> plugin_phase \<times> plugin_phase) list"

definition createPluginLifecycleManager :: "plugin_registry \<Rightarrow> plugin_manager" where
  "createPluginLifecycleManager reg = \<lparr>pm_registry = reg, pending = [], hook_log = [], transitions = []\<rparr>"

definition notifyTransition :: "string \<Rightarrow> plugin_phase \<Rightarrow> plugin_phase \<Rightarrow> plugin_manager \<Rightarrow> plugin_manager" where
  "notifyTransition i from' to m = m\<lparr>transitions := transitions m @ [(i, from', to)]\<rparr>"

text \<open>The hook of an action; \<open>initialize\<close> of the manager calls none.\<close>

fun hook_of :: "action \<Rightarrow> agent_plugin \<Rightarrow> instant \<Rightarrow> hook_result" where
  "hook_of Initialize p = (\<lambda>_. Ok_result)"
| "hook_of Startup p = plugin_start p"
| "hook_of Shutdown p = plugin_stop p"
| "hook_of Dispose p = plugin_dispose p"

text \<open>\<open>executeTransition\<close> up to its await: an error, or the call is pending.\<close>

definition begin_action :: "instant \<Rightarrow> action \<Rightarrow> string \<Rightarrow> plugin_manager
    \<Rightarrow> string option \<times> plugin_manager" where
  "begin_action now a i m = (case get_plugin i (pm_registry m) of
     None \<Rightarrow> (Some (not_registered i), m)
   | Some r \<Rightarrow>
       if rec_phase r \<noteq> expectedCurrent a
       then (Some (''Cannot '' @ action_name a @ '' plugin '' @ quoted i @ '': expected ''
               @ phase_name (expectedCurrent a) @ '', got '' @ phase_name (rec_phase r)), m)
       else if \<not> canTransition (rec_phase r) (intermediatePhase a)
       then (Some (''Cannot transition plugin '' @ quoted i @ '' from '' @ phase_name (rec_phase r)
               @ '' to '' @ phase_name (intermediatePhase a)), m)
       else let m1 = m\<lparr>pm_registry := snd (updatePhase now i (intermediatePhase a) (pm_registry m))\<rparr>;
                m2 = notifyTransition i (rec_phase r) (intermediatePhase a) m1
            in (None, m2\<lparr>pending := pending m2 @ [(i, a)],
                  hook_log := hook_log m2 @ (if a = Initialize then [] else [(i, a)])\<rparr>))"

text \<open>After the await. A result object of the hook is dropped, whatever it says.\<close>

definition finish_action :: "instant \<Rightarrow> action \<Rightarrow> string \<Rightarrow> hook_result \<Rightarrow> plugin_manager
    \<Rightarrow> (string + unit) \<times> plugin_manager" where
  "finish_action now a i res m =
     (let m0 = m\<lparr>pending := remove1 (i, a) (pending m)\<rparr> in
      case res of
        Hook_throws e \<Rightarrow> (Inl e, notifyTransition i (intermediatePhase a) FAILED
          (m0\<lparr>pm_registry := snd (updateError i e (pm_registry m0))\<rparr>))
      | _ \<Rightarrow> (Inr (), notifyTransition i (intermediatePhase a) (targetPhase a)
          (m0\<lparr>pm_registry := snd (updatePhase now i (targetPhase a) (pm_registry m0))\<rparr>)))"

text \<open>The whole call when nothing else runs at its await.\<close>

definition executeTransition :: "instant \<Rightarrow> action \<Rightarrow> string \<Rightarrow> plugin_manager
    \<Rightarrow> (string + unit) \<times> plugin_manager" where
  "executeTransition now a i m = (case begin_action now a i m of
     (Some e, m') \<Rightarrow> (Inl e, m')
   | (None, m') \<Rightarrow> (case get_plugin i (pm_registry m') of
       None \<Rightarrow> finish_action now a i Ok_result m'
     | Some r \<Rightarrow> finish_action now a i (hook_of a (plugin r) now) m'))"

text \<open>\<open>doForMatching\<close> goes over the records as they were listed at the start.\<close>

fun for_records :: "instant \<Rightarrow> action \<Rightarrow> plugin_record list \<Rightarrow> plugin_manager
    \<Rightarrow> string list \<times> plugin_manager" where
  "for_records now a [] m = ([], m)"
| "for_records now a (r # rs) m =
     (if rec_phase r = expectedCurrent a
      then (case executeTransition now a (man_id (manifest (plugin r))) m of
              (res, m1) \<Rightarrow> (case for_records now a rs m1 of
                (ids, m2) \<Rightarrow> (case res of
                   Inl _ \<Rightarrow> (ids, m2)
                 | Inr _ \<Rightarrow> (man_id (manifest (plugin r)) # ids, m2))))
      else for_records now a rs m)"

definition doForMatching :: "instant \<Rightarrow> action \<Rightarrow> plugin_manager \<Rightarrow> string list \<times> plugin_manager" where
  "doForMatching now a m = for_records now a (list_plugins (pm_registry m)) m"

record plugin_health =
  ph_pluginId :: string
  ph_phase :: plugin_phase
  ph_healthy :: bool
  ph_error :: "string option"
  ph_uptimeMs :: "int option"

definition plugin_health_of :: "instant \<Rightarrow> string \<Rightarrow> plugin_manager \<Rightarrow> plugin_health" where
  "plugin_health_of now i m = (case get_plugin i (pm_registry m) of
     None \<Rightarrow> \<lparr>ph_pluginId = i, ph_phase = FAILED, ph_healthy = False,
        ph_error = Some (not_registered i), ph_uptimeMs = None\<rparr>
   | Some r \<Rightarrow> \<lparr>ph_pluginId = i, ph_phase = rec_phase r,
        ph_healthy = (rec_phase r \<notin> set PLUGIN_TERMINAL_PHASES \<and> rec_error r = None),
        ph_error = rec_error r,
        ph_uptimeMs = map_option (\<lambda>t. override now (rec_stoppedAt r) - t) (rec_startedAt r)\<rparr>)"

subsection \<open>Histories of a manager\<close>

text \<open>
  Calls of the manager and registrations, in any interleaving; a pending call may finish
  with any outcome.
\<close>

inductive manager_step :: "plugin_manager \<Rightarrow> plugin_manager \<Rightarrow> bool" where
  registers_plugin: "manager_step m (m\<lparr>pm_registry := snd (register_plugin now p (pm_registry m))\<rparr>)"
| begins: "manager_step m (snd (begin_action now a i m))"
| finishes: "(i, a) \<in> set (pending m) \<Longrightarrow> manager_step m (snd (finish_action now a i res m))"

abbreviation manager_steps :: "plugin_manager \<Rightarrow> plugin_manager \<Rightarrow> bool" where
  "manager_steps \<equiv> manager_step\<^sup>*\<^sup>*"

text \<open>The hooks a plugin got, in order.\<close>

definition hooks_of :: "string \<Rightarrow> plugin_manager \<Rightarrow> action list" where
  "hooks_of i m = map snd (filter (\<lambda>(j, a). j = i) (hook_log m))"

definition phase_in :: "string \<Rightarrow> plugin_manager \<Rightarrow> plugin_phase option" where
  "phase_in i m = map_option rec_phase (get_plugin i (pm_registry m))"

text \<open>What a phase says of the hooks already called.\<close>

fun hooks_at :: "plugin_phase \<Rightarrow> action list \<Rightarrow> bool" where
  "hooks_at STARTING hs = (hs = [Startup])"
| "hooks_at RUNNING hs = (hs = [Startup])"
| "hooks_at STOPPING hs = (hs = [Startup, Shutdown])"
| "hooks_at STOPPED hs = (hs = [Startup, Shutdown])"
| "hooks_at DISPOSED hs = (hs = [Startup, Shutdown, Dispose])"
| "hooks_at FAILED hs = (\<exists>n. hs = take n [Startup, Shutdown, Dispose])"
| "hooks_at _ hs = (hs = [])"

definition manager_inv :: "plugin_manager \<Rightarrow> bool" where
  "manager_inv m \<longleftrightarrow> wf_jmap (plugins (pm_registry m)) \<and> distinct (map fst (pending m)) \<and>
     (\<forall>(i, a) \<in> set (pending m). phase_in i m = Some (intermediatePhase a)) \<and>
     (\<forall>i. case phase_in i m of None \<Rightarrow> hooks_of i m = [] | Some p \<Rightarrow> hooks_at p (hooks_of i m)) \<and>
     (\<forall>i. phase_in i m \<in> Some ` {INITIALIZING, STARTING, STOPPING} \<longrightarrow> i \<in> fst ` set (pending m))"

lemma updatePhase_get:
  "get_plugin j (snd (updatePhase now i p reg)) =
     (if j = i then map_option (with_phase now p) (get_plugin i reg) else get_plugin j reg)"
  by (auto simp: updatePhase_def get_plugin_def jm_get_set split: option.split)

lemma updateError_get:
  "get_plugin j (snd (updateError i e reg)) =
     (if j = i then map_option (\<lambda>r. r\<lparr>rec_phase := FAILED, rec_error := Some e\<rparr>) (get_plugin i reg)
      else get_plugin j reg)"
  by (auto simp: updateError_def get_plugin_def jm_get_set split: option.split)

lemma registry_wf:
  "wf_jmap (plugins reg) \<Longrightarrow> wf_jmap (plugins (snd (updatePhase now i p reg)))"
  "wf_jmap (plugins reg) \<Longrightarrow> wf_jmap (plugins (snd (updateError i e reg)))"
  "wf_jmap (plugins reg) \<Longrightarrow> wf_jmap (plugins (snd (register_plugin now pl reg)))"
  by (auto simp: updatePhase_def updateError_def register_plugin_def Let_def split: option.split)

lemma with_phase_phase [simp]: "rec_phase (with_phase now p r) = p"
  by (simp add: with_phase_def)

lemma with_phase_plugin [simp]: "plugin (with_phase now p r) = plugin r"
  by (simp add: with_phase_def)

lemma expected_can: "canTransition (expectedCurrent a) (intermediatePhase a)"
  by (cases a) (simp_all add: canTransition_def)

text \<open>A call that is let in: the phase was the expected one and is now the intermediate one.\<close>

lemma begin_action_ok:
  assumes "begin_action now a i m = (None, m')"
  shows "phase_in i m = Some (expectedCurrent a) \<and>
    (\<forall>j. phase_in j m' = (if j = i then Some (intermediatePhase a) else phase_in j m)) \<and>
    pending m' = pending m @ [(i, a)] \<and>
    hook_log m' = hook_log m @ (if a = Initialize then [] else [(i, a)]) \<and>
    transitions m' = transitions m @ [(i, expectedCurrent a, intermediatePhase a)] \<and>
    pm_registry m' = snd (updatePhase now i (intermediatePhase a) (pm_registry m))"
proof (cases "get_plugin i (pm_registry m)")
  case None
  with assms show ?thesis by (simp add: begin_action_def)
next
  case (Some r)
  from assms Some have p: "rec_phase r = expectedCurrent a"
    by (auto simp: begin_action_def split: if_splits)
  have "m' = (notifyTransition i (rec_phase r) (intermediatePhase a)
      (m\<lparr>pm_registry := snd (updatePhase now i (intermediatePhase a) (pm_registry m))\<rparr>))
      \<lparr>pending := pending m @ [(i, a)],
       hook_log := hook_log m @ (if a = Initialize then [] else [(i, a)])\<rparr>"
    using assms Some p expected_can [of a]
    by (simp add: begin_action_def Let_def notifyTransition_def)
  with Some p show ?thesis by (simp add: phase_in_def notifyTransition_def updatePhase_get)
qed

lemma begin_action_error: "begin_action now a i m = (Some e, m') \<Longrightarrow> m' = m"
  by (auto simp: begin_action_def Let_def split: option.splits if_splits)

lemma finish_action_phase:
  "phase_in j (snd (finish_action now a i res m)) =
     (if j = i then map_option (\<lambda>_. case res of Hook_throws _ \<Rightarrow> FAILED | _ \<Rightarrow> targetPhase a) (phase_in i m)
      else phase_in j m)"
  by (auto simp: finish_action_def Let_def phase_in_def notifyTransition_def updatePhase_get updateError_get
      option.map_comp comp_def split: hook_result.split)

lemma finish_action_fields [simp]:
  "hook_log (snd (finish_action now a i res m)) = hook_log m"
  "pending (snd (finish_action now a i res m)) = remove1 (i, a) (pending m)"
  by (simp_all add: finish_action_def Let_def notifyTransition_def split: hook_result.split)

lemma finish_action_wf:
  "wf_jmap (plugins (pm_registry m)) \<Longrightarrow> wf_jmap (plugins (pm_registry (snd (finish_action now a i res m))))"
  by (simp add: finish_action_def Let_def notifyTransition_def registry_wf split: hook_result.split)

lemma register_plugin_get:
  "get_plugin j (snd (register_plugin now p reg)) =
     (if j = man_id (manifest p) \<and> get_plugin j reg = None then Some (createRecord now p)
      else get_plugin j reg)"
  by (auto simp: register_plugin_def get_plugin_def Let_def jm_has_def jm_get_set)

lemma hooks_at_begin:
  "hooks_at (expectedCurrent a) hs \<Longrightarrow>
     hooks_at (intermediatePhase a) (hs @ (if a = Initialize then [] else [a]))"
  by (cases a) simp_all

lemma hooks_at_finish:
  assumes "hooks_at (intermediatePhase a) hs"
  shows "hooks_at (targetPhase a) hs" and "hooks_at FAILED hs"
proof -
  show "hooks_at (targetPhase a) hs" using assms by (cases a) simp_all
  have "\<exists>n \<le> 3. hs = take n [Startup, Shutdown, Dispose]"
    using assms by (cases a) (auto intro: exI [of _ 0] exI [of _ 1] exI [of _ 2] exI [of _ 3])
  then show "hooks_at FAILED hs" by auto
qed


text \<open>
  What the plugin lifecycle manager guarantees under interleaved calls: the hooks of a plugin
  run in the order start, stop, dispose, each at most once, as its phase says; and what it
  does not: a hook that resolves to an error result counts as a success.
\<close>

definition reported_legal :: "plugin_manager \<Rightarrow> bool" where
  "reported_legal m \<longleftrightarrow> (\<forall>(i, f, t) \<in> set (transitions m). canTransition f t \<or>
     f = DISPOSED \<and> t \<in> {DISPOSED, FAILED})"

definition hooks_ok :: "plugin_phase option \<Rightarrow> action list \<Rightarrow> bool" where
  "hooks_ok p hs \<longleftrightarrow> (case p of None \<Rightarrow> hs = [] | Some q \<Rightarrow> hooks_at q hs)"

lemma manager_inv_alt:
  "manager_inv m \<longleftrightarrow> wf_jmap (plugins (pm_registry m)) \<and> distinct (map fst (pending m)) \<and>
     (\<forall>i a. (i, a) \<in> set (pending m) \<longrightarrow> phase_in i m = Some (intermediatePhase a)) \<and>
     (\<forall>i. hooks_ok (phase_in i m) (hooks_of i m)) \<and>
     (\<forall>i. phase_in i m \<in> Some ` {INITIALIZING, STARTING, STOPPING} \<longrightarrow> i \<in> fst ` set (pending m))"
  by (auto simp: manager_inv_def hooks_ok_def)

lemma pending_not_expected:
  assumes "manager_inv m" and "phase_in i m = Some (expectedCurrent a)"
  shows "i \<notin> fst ` set (pending m)"
proof
  assume "i \<in> fst ` set (pending m)"
  then obtain b where "(i, b) \<in> set (pending m)" by auto
  with assms have "intermediatePhase b = expectedCurrent a" by (auto simp: manager_inv_alt)
  then show False by (cases a; cases b) simp_all
qed

lemma manager_inv_begin:
  assumes inv: "manager_inv m" and b: "begin_action now a i m = (None, m')"
  shows "manager_inv m'"
proof -
  note f = begin_action_ok [OF b]
  then have ph: "phase_in i m = Some (expectedCurrent a)" by blast
  note fresh = pending_not_expected [OF inv ph]
  have hooks: "hooks_of j m' = (if j = i then hooks_of i m @ (if a = Initialize then [] else [a])
      else hooks_of j m)" for j
    using f by (simp add: hooks_of_def)
  have "hooks_ok (phase_in j m') (hooks_of j m')" for j
  proof (cases "j = i")
    case True
    from inv ph have "hooks_at (expectedCurrent a) (hooks_of i m)"
      by (auto simp: manager_inv_alt hooks_ok_def dest: spec [of _ i])
    with True f hooks show ?thesis by (simp add: hooks_ok_def hooks_at_begin)
  next
    case False
    with inv f hooks show ?thesis by (simp add: manager_inv_alt)
  qed
  moreover have "wf_jmap (plugins (pm_registry m'))"
    using inv f by (simp add: manager_inv_alt registry_wf)
  moreover have "phase_in j m' = Some (intermediatePhase c)" if "(j, c) \<in> set (pending m')" for j c
  proof (cases "(j, c) \<in> set (pending m)")
    case True
    then have "j \<noteq> i" using fresh by force
    with True inv f show ?thesis by (simp add: manager_inv_alt)
  next
    case False
    with that f show ?thesis by auto
  qed
  moreover have "distinct (map fst (pending m'))" using inv f fresh by (simp add: manager_inv_alt)
  moreover have "j \<in> fst ` set (pending m')"
    if "phase_in j m' \<in> Some ` {INITIALIZING, STARTING, STOPPING}" for j
    using that inv f by (cases "j = i") (auto simp: manager_inv_alt)
  ultimately show ?thesis by (simp add: manager_inv_alt)
qed

lemma manager_inv_finish:
  assumes inv: "manager_inv m" and p: "(i, a) \<in> set (pending m)"
  shows "manager_inv (snd (finish_action now a i res m))"
proof -
  let ?m = "snd (finish_action now a i res m)"
  let ?q = "case res of Hook_throws _ \<Rightarrow> FAILED | _ \<Rightarrow> targetPhase a"
  from inv p have ph: "phase_in i m = Some (intermediatePhase a)" and d: "distinct (map fst (pending m))"
    by (auto simp: manager_inv_alt)
  have phase: "phase_in j ?m = (if j = i then Some ?q else phase_in j m)" for j
    using ph by (simp add: finish_action_phase)
  have hooks: "hooks_of j ?m = hooks_of j m" for j by (simp add: hooks_of_def)
  from inv ph have h: "hooks_at (intermediatePhase a) (hooks_of i m)"
    by (auto simp: manager_inv_alt hooks_ok_def dest: spec [of _ i])
  have rest: "set (pending ?m) = set (pending m) - {(i, a)}"
    using d by (simp add: set_remove1_eq distinct_map)
  have gone: "(j, c) \<in> set (pending ?m) \<Longrightarrow> j \<noteq> i" for j c
    using eq_key_imp_eq_value [OF d p, of c] unfolding rest by auto
  have "hooks_ok (phase_in j ?m) (hooks_of j ?m)" for j
    using inv h hooks_at_finish [OF h] unfolding hooks phase
    by (auto simp: manager_inv_alt hooks_ok_def split: hook_result.split)
  moreover have "phase_in j ?m = Some (intermediatePhase c)" if "(j, c) \<in> set (pending ?m)" for j c
    using that gone [OF that] inv unfolding phase rest by (auto simp: manager_inv_alt)
  moreover have "j \<in> fst ` set (pending ?m)"
    if "phase_in j ?m \<in> Some ` {INITIALIZING, STARTING, STOPPING}" for j
  proof -
    have "?q \<notin> {INITIALIZING, STARTING, STOPPING}" by (cases a) (simp_all split: hook_result.split)
    with that have "j \<noteq> i" and "phase_in j m \<in> Some ` {INITIALIZING, STARTING, STOPPING}"
      unfolding phase by (auto split: if_splits)
    with inv obtain c where "(j, c) \<in> set (pending m)" by (fastforce simp: manager_inv_alt)
    with \<open>j \<noteq> i\<close> have "(j, c) \<in> set (pending ?m)" unfolding rest by simp
    then show ?thesis by force
  qed
  moreover have "distinct (map fst (pending ?m))"
    using d by (auto simp: distinct_map intro: inj_on_diff)
  ultimately show ?thesis
    using finish_action_wf inv by (simp add: manager_inv_alt)
qed

lemma manager_inv_register:
  assumes "manager_inv m"
  shows "manager_inv (m\<lparr>pm_registry := snd (register_plugin now p (pm_registry m))\<rparr>)"
proof -
  let ?m = "m\<lparr>pm_registry := snd (register_plugin now p (pm_registry m))\<rparr>"
  have phase: "phase_in j ?m = (if j = man_id (manifest p) \<and> phase_in j m = None then Some REGISTERED
      else phase_in j m)" for j
    by (auto simp: phase_in_def register_plugin_get createRecord_def)
  have hooks: "hooks_of j ?m = hooks_of j m" for j by (simp add: hooks_of_def)
  have "hooks_ok (phase_in j ?m) (hooks_of j ?m)" for j
    using assms unfolding hooks phase by (auto simp: manager_inv_alt hooks_ok_def dest: spec [of _ j])
  with assms show ?thesis
    by (auto simp: manager_inv_alt registry_wf phase)
qed

lemma reported_begin: "reported_legal m \<Longrightarrow> reported_legal (snd (begin_action now a i m))"
  using begin_action_ok [of now a i m "snd (begin_action now a i m)"]
    begin_action_error [of now a i m _ "snd (begin_action now a i m)"] expected_can [of a]
  by (cases "fst (begin_action now a i m)") (auto simp: reported_legal_def prod_eq_iff)

lemma reported_finish: "reported_legal m \<Longrightarrow> reported_legal (snd (finish_action now a i res m))"
  by (cases a)
    (auto simp: reported_legal_def finish_action_def Let_def notifyTransition_def canTransition_def
      split: hook_result.split)

lemma manager_step_inv:
  "manager_step m m' \<Longrightarrow> manager_inv m \<and> reported_legal m \<Longrightarrow> manager_inv m' \<and> reported_legal m'"
proof (induction rule: manager_step.induct)
  case (registers_plugin m now p)
  then show ?case by (simp add: manager_inv_register reported_legal_def)
next
  case (begins m now a i)
  show ?case
  proof (cases "fst (begin_action now a i m)")
    case None
    with begins manager_inv_begin [of m now a i] reported_begin show ?thesis
      by (metis prod.collapse)
  next
    case (Some e)
    with begins begin_action_error [of now a i m e] show ?thesis by (metis prod.collapse)
  qed
next
  case (finishes i a m now res)
  then show ?case by (simp add: manager_inv_finish reported_finish)
qed

lemma manager_steps_inv:
  "manager_steps m m' \<Longrightarrow> manager_inv m \<and> reported_legal m \<Longrightarrow> manager_inv m' \<and> reported_legal m'"
  by (induction rule: rtranclp_induct) (auto dest: manager_step_inv)

definition fresh_manager :: plugin_manager where
  "fresh_manager = createPluginLifecycleManager createPluginRegistry"

lemma fresh_manager_inv: "manager_inv fresh_manager \<and> reported_legal fresh_manager"
  by (simp add: fresh_manager_def createPluginLifecycleManager_def createPluginRegistry_def
      manager_inv_def phase_in_def get_plugin_def hooks_of_def reported_legal_def)

subsection \<open>Properties\<close>

text \<open>C20: In every interleaving of registrations and calls of the manager, with any outcomes of
  the hooks, a plugin's hooks run in the order start, stop, dispose, each at most once, and
  exactly those its phase tells; at most one call per plugin is at its await; and every
  reported transition is in the table, apart from those out of DISPOSED while it disposes.\<close>

theorem plugin_hooks_run_in_order:
  assumes "manager_steps fresh_manager m"
  shows "(\<exists>n. hooks_of i m = take n [Startup, Shutdown, Dispose]) \<and>
    (\<forall>p. phase_in i m = Some p \<longrightarrow> hooks_at p (hooks_of i m)) \<and>
    distinct (map fst (pending m)) \<and>
    (\<forall>(j, f, t) \<in> set (transitions m). canTransition f t \<or> f = DISPOSED \<and> t \<in> {DISPOSED, FAILED})"
proof -
  from manager_steps_inv [OF assms fresh_manager_inv] have inv: "manager_inv m" and "reported_legal m"
    by simp_all
  have h: "hooks_at p hs \<Longrightarrow> \<exists>n. hs = take n [Startup, Shutdown, Dispose]" for p hs
    by (cases p) (auto intro: exI [of _ 0] exI [of _ 1] exI [of _ 2] exI [of _ 3])
  have "\<exists>n. hooks_of i m = take n [Startup, Shutdown, Dispose]"
  proof (cases "phase_in i m")
    case None
    with inv have "hooks_of i m = []" by (auto simp: manager_inv_alt hooks_ok_def dest: spec [of _ i])
    then show ?thesis by (intro exI [of _ 0]) simp
  next
    case (Some p)
    with inv have "hooks_at p (hooks_of i m)"
      by (auto simp: manager_inv_alt hooks_ok_def dest: spec [of _ i])
    then show ?thesis by (rule h)
  qed
  moreover have "\<forall>p. phase_in i m = Some p \<longrightarrow> hooks_at p (hooks_of i m)"
    using inv by (auto simp: manager_inv_alt hooks_ok_def dest: spec [of _ i])
  ultimately show ?thesis
    using inv \<open>reported_legal m\<close> by (simp add: manager_inv_alt reported_legal_def)
qed

definition sample_manifest :: "string \<Rightarrow> plugin_manifest" where
  "sample_manifest i = \<lparr>man_id = i, man_name = i, man_version = ''1.0.0'', man_author = ''a'',
     man_description = ''d'', man_capabilities = [], man_dependencies = [],
     man_minimumAgentOSVersion = ''0.0.0'', man_configSchema = None\<rparr>"

definition sample_plugin :: "hook_result \<Rightarrow> agent_plugin" where
  "sample_plugin res = \<lparr>manifest = sample_manifest ''p'', plugin_initialize = (\<lambda>_. Ok_result),
     plugin_start = (\<lambda>_. res), plugin_stop = (\<lambda>_. Ok_result), plugin_dispose = (\<lambda>_. Ok_result)\<rparr>"

definition sample_manager :: "hook_result \<Rightarrow> plugin_manager" where
  "sample_manager res =
     (let m1 = fresh_manager\<lparr>pm_registry := snd (register_plugin 1 (sample_plugin res) (pm_registry fresh_manager))\<rparr>;
          m2 = snd (begin_action 2 Initialize ''p'' m1)
      in snd (finish_action 3 Initialize ''p'' Ok_result m2))"

lemmas manager_eval = sample_manager_def fresh_manager_def createPluginLifecycleManager_def
  createPluginRegistry_def register_plugin_def begin_action_def finish_action_def Let_def
  get_plugin_def updatePhase_def notifyTransition_def sample_plugin_def sample_manifest_def
  jm_has_def createRecord_def canTransition_def with_phase_def

lemma sample_manager_reachable: "manager_steps fresh_manager (sample_manager res)"
proof -
  let ?m1 = "fresh_manager\<lparr>pm_registry := snd (register_plugin 1 (sample_plugin res) (pm_registry fresh_manager))\<rparr>"
  let ?m2 = "snd (begin_action 2 Initialize ''p'' ?m1)"
  have "(''p'', Initialize) \<in> set (pending ?m2)" by (simp add: manager_eval)
  then have "manager_step ?m2 (sample_manager res)"
    unfolding sample_manager_def Let_def by (rule finishes)
  moreover have "manager_step fresh_manager ?m1" by (rule registers_plugin)
  moreover have "manager_step ?m1 ?m2" by (rule begins)
  ultimately show ?thesis by (meson converse_rtranclp_into_rtranclp rtranclp.rtrancl_refl)
qed

lemma plugin_hooks_run_in_order_witness:
  "\<exists>m. manager_steps fresh_manager m \<and> hooks_of ''p'' m = [Startup] \<and> hooks_at STARTING (hooks_of ''p'' m)"
proof -
  let ?m = "snd (begin_action 4 Startup ''p'' (sample_manager Ok_result))"
  have s: "manager_steps fresh_manager ?m"
    using sample_manager_reachable begins by (rule rtranclp.rtrancl_into_rtrancl)
  have p: "phase_in ''p'' ?m = Some STARTING" and h: "hooks_of ''p'' ?m = [Startup]"
    by (simp_all add: phase_in_def hooks_of_def manager_eval)
  from plugin_hooks_run_in_order [OF s, of "''p''"] p h s show ?thesis by auto
qed

text \<open>An action whose hook resolves to an error result ends exactly as if the hook had
  succeeded: the call returns normally, the plugin reaches the target phase and no error is
  recorded. Only an exception fails the plugin.\<close>

theorem error_results_count_as_success:
  assumes "get_plugin i (pm_registry m) = Some r" and "rec_phase r = expectedCurrent a"
    and "hook_of a (plugin r) now = Err_result e"
  shows "fst (executeTransition now a i m) = Inr () \<and>
    phase_in i (snd (executeTransition now a i m)) = Some (targetPhase a) \<and>
    map_option rec_error (get_plugin i (pm_registry (snd (executeTransition now a i m)))) =
      Some (rec_error r)"
proof -
  obtain m' where b: "begin_action now a i m = (None, m')"
    using assms(1,2) expected_can [of a] by (auto simp: begin_action_def Let_def)
  from begin_action_ok [OF b] assms(1)
  have g: "get_plugin i (pm_registry m') = Some (with_phase now (intermediatePhase a) r)"
    by (simp add: updatePhase_get)
  then have x: "executeTransition now a i m = finish_action now a i (Err_result e) m'"
    using b assms(3) by (simp add: executeTransition_def)
  have "fst (finish_action now a i (Err_result e) m') = Inr ()" by (simp add: finish_action_def Let_def)
  moreover have "phase_in i (snd (finish_action now a i (Err_result e) m')) = Some (targetPhase a)"
    using g by (simp add: finish_action_phase) (simp add: phase_in_def)
  moreover have "map_option rec_error (get_plugin i (pm_registry (snd (finish_action now a i (Err_result e) m')))) =
      Some (rec_error r)"
    using g by (simp add: finish_action_def Let_def notifyTransition_def updatePhase_get)
      (simp add: with_phase_def)
  ultimately show ?thesis unfolding x by blast
qed

lemma error_results_count_as_success_witness:
  "phase_in ''p'' (snd (executeTransition 9 Startup ''p'' (sample_manager (Err_result ''broken'')))) =
     Some RUNNING"
proof -
  let ?m = "sample_manager (Err_result ''broken'')"
  obtain r where r: "get_plugin ''p'' (pm_registry ?m) = Some r" "rec_phase r = expectedCurrent Startup"
    "hook_of Startup (plugin r) 9 = Err_result ''broken''"
    by (simp add: manager_eval)
  from error_results_count_as_success [OF r] show ?thesis by simp
qed

end
