(* ===== verification/PluginValidation.thy ===== *)
theory PluginValidation
  imports PluginLifecycle
begin

text \<open>
  Validation of plugins before they are registered: the manifest and the version of Agent OS
  (PluginMetadataValidator.ts), dependencies and their version ranges
  (PluginDependencyValidator.ts). The regular expressions of the sources are written as
  recognisers on character lists. The digits of a number are read exactly, which
  \<open>parseInt\<close> does up to 2 ^ 53.
\<close>

subsection \<open>Versions\<close>

record version =
  major :: nat
  minor :: nat
  patch :: nat

definition is_digit :: "char \<Rightarrow> bool" where
  "is_digit c \<longleftrightarrow> (48 :: nat) \<le> of_char c \<and> of_char c \<le> (57 :: nat)"

definition is_lower :: "char \<Rightarrow> bool" where
  "is_lower c \<longleftrightarrow> (97 :: nat) \<le> of_char c \<and> of_char c \<le> (122 :: nat)"

definition is_upper :: "char \<Rightarrow> bool" where
  "is_upper c \<longleftrightarrow> (65 :: nat) \<le> of_char c \<and> of_char c \<le> (90 :: nat)"

text \<open>A group of one or more digits, and what follows it.\<close>

definition read_number :: "string \<Rightarrow> (nat \<times> string) option" where
  "read_number s = (let ds = takeWhile is_digit s
     in if ds = [] then None else Some (digits_val ds, dropWhile is_digit s))"

definition read_dot :: "string \<Rightarrow> string option" where
  "read_dot s = (case s of c # cs \<Rightarrow> if c = CHR ''.'' then Some cs else None | [] \<Rightarrow> None)"

text \<open>Three numbers with dots between them at the start of a string, and the rest of it.\<close>

definition read_triple :: "string \<Rightarrow> (version \<times> string) option" where
  "read_triple s =
     Option.bind (read_number s) (\<lambda>(a, s1). Option.bind (read_dot s1) (\<lambda>s2.
     Option.bind (read_number s2) (\<lambda>(b, s3). Option.bind (read_dot s3) (\<lambda>s4.
     map_option (\<lambda>(c, s5). (\<lparr>major = a, minor = b, patch = c\<rparr>, s5)) (read_number s4)))))"

definition parseSemver :: "string \<Rightarrow> version option" where
  "parseSemver s = map_option fst (read_triple s)"

definition is_range_prefix :: "char \<Rightarrow> bool" where
  "is_range_prefix c \<longleftrightarrow> c \<in> set ''~^>=<''"

text \<open>The version parser of the dependencies takes at most one character before the numbers.\<close>

definition parseVersion :: "string \<Rightarrow> (string \<times> version) option" where
  "parseVersion s =
     (let parse = (\<lambda>s. map_option fst (read_triple s))
      in case s of [] \<Rightarrow> None
         | c # cs \<Rightarrow> if is_range_prefix c then map_option (Pair [c]) (parse cs)
                     else map_option (Pair []) (parse s))"

definition SEMVER_PATTERN :: "string \<Rightarrow> bool" where
  "SEMVER_PATTERN s \<longleftrightarrow> (case read_triple s of
     None \<Rightarrow> False
   | Some (v, rest) \<Rightarrow> (case rest of
       [] \<Rightarrow> True
     | c # cs \<Rightarrow> c = CHR ''-'' \<and> cs \<noteq> [] \<and>
         list_all (\<lambda>d. is_lower d \<or> is_upper d \<or> is_digit d \<or> d = CHR ''.'') cs))"

definition id_edge :: "char \<Rightarrow> bool" where
  "id_edge c \<longleftrightarrow> is_lower c \<or> is_digit c"

definition ID_PATTERN :: "string \<Rightarrow> bool" where
  "ID_PATTERN s \<longleftrightarrow> s \<noteq> [] \<and> id_edge (hd s) \<and> id_edge (last s) \<and>
     list_all (\<lambda>c. id_edge c \<or> c \<in> set ''._-'') s"

subsection \<open>Manifests\<close>

text \<open>The manifests are typed here: that the two lists are arrays always holds.\<close>

definition dependency_errors :: "plugin_dependency \<Rightarrow> string list" where
  "dependency_errors dep =
     (if dep_id dep = [] then [''Dependency id is required''] else []) @
     (if dep_version dep = [] then [''Dependency version is required for '' @ quoted (dep_id dep)]
      else if \<not> SEMVER_PATTERN (dep_version dep)
      then [''Dependency version '' @ quoted (dep_version dep) @ '' for '' @ quoted (dep_id dep)
              @ '' must be valid semver'']
      else [])"

definition validatePluginManifest :: "plugin_manifest \<Rightarrow> validation" where
  "validatePluginManifest man = report
     ((if man_id man = [] then [''Plugin id is required'']
       else if \<not> ID_PATTERN (man_id man)
       then [''Plugin id '' @ quoted (man_id man)
               @ '' must be lowercase alphanumeric with hyphens, dots, or underscores'']
       else []) @
      (if man_name man = [] then [''Plugin name is required''] else []) @
      (if man_version man = [] then [''Plugin version is required'']
       else if \<not> SEMVER_PATTERN (man_version man)
       then [''Plugin version '' @ quoted (man_version man) @ '' must be valid semver (e.g. 1.0.0)'']
       else []) @
      (if man_author man = [] then [''Plugin author is required''] else []) @
      (if man_description man = [] then [''Plugin description is required''] else []) @
      (if man_minimumAgentOSVersion man = [] then [''Plugin minimumAgentOSVersion is required'']
       else if \<not> SEMVER_PATTERN (man_minimumAgentOSVersion man)
       then [''Plugin minimumAgentOSVersion '' @ quoted (man_minimumAgentOSVersion man)
               @ '' must be valid semver'']
       else []) @
      concat (map dependency_errors (man_dependencies man)))"

definition older :: "version \<Rightarrow> version \<Rightarrow> bool" where
  "older c r \<longleftrightarrow> major c < major r \<or> (major c = major r \<and> minor c < minor r) \<or>
     (major c = major r \<and> minor c = minor r \<and> patch c < patch r)"

definition validateAgentOSCompatibility :: "plugin_manifest \<Rightarrow> string \<Rightarrow> validation" where
  "validateAgentOSCompatibility man currentVersion =
     (let current = parseSemver currentVersion;
          required = parseSemver (man_minimumAgentOSVersion man)
      in report
       ((if current = None
         then [''Cannot parse current Agent OS version '' @ quoted currentVersion] else []) @
        (if required = None
         then [''Cannot parse required version '' @ quoted (man_minimumAgentOSVersion man)] else []) @
        (case (current, required) of
           (Some c, Some r) \<Rightarrow>
             (if older c r
              then [''Plugin requires Agent OS >= '' @ man_minimumAgentOSVersion man
                      @ '', current is '' @ currentVersion]
              else [])
         | _ \<Rightarrow> [])))"

subsection \<open>Dependencies\<close>

definition versionMatches :: "string \<Rightarrow> string \<Rightarrow> bool" where
  "versionMatches required available =
     (case (parseVersion required, parseVersion available) of
        (Some (prefix, req), Some (_, avail)) \<Rightarrow>
          (if prefix = ''^'' then major avail = major req \<and>
             (minor avail > minor req \<or> (minor avail = minor req \<and> patch avail \<ge> patch req))
           else if prefix = ''~'' then major avail = major req \<and> minor avail = minor req \<and>
             patch avail \<ge> patch req
           else major req = major avail \<and> minor req = minor avail \<and> patch req = patch avail)
      | _ \<Rightarrow> required = available)"

record version_conflict =
  vc_pluginId :: string
  vc_required :: string
  vc_available :: string

record dependency_result =
  dr_valid :: bool
  dr_missing :: "string list"
  dr_duplicates :: "string list"
  dr_versionConflicts :: "version_conflict list"

definition missing_of :: "agent_plugin \<Rightarrow> plugin_registry \<Rightarrow> string list" where
  "missing_of p reg = concat (map (\<lambda>dep. case get_plugin (dep_id dep) reg of
     None \<Rightarrow> [dep_id dep] | Some _ \<Rightarrow> []) (man_dependencies (manifest p)))"

definition conflicts_of :: "agent_plugin \<Rightarrow> plugin_registry \<Rightarrow> version_conflict list" where
  "conflicts_of p reg = concat (map (\<lambda>dep. case get_plugin (dep_id dep) reg of
     None \<Rightarrow> []
   | Some r \<Rightarrow>
       (let availableVersion = man_version (manifest (plugin r))
        in if \<not> versionMatches (dep_version dep) availableVersion
           then [\<lparr>vc_pluginId = man_id (manifest p), vc_required = dep_version dep,
                   vc_available = availableVersion\<rparr>]
           else [])) (man_dependencies (manifest p)))"

definition validatePluginDependencies :: "agent_plugin \<Rightarrow> plugin_registry \<Rightarrow> dependency_result" where
  "validatePluginDependencies p reg =
     \<lparr>dr_valid = (missing_of p reg = [] \<and> conflicts_of p reg = []),
      dr_missing = missing_of p reg, dr_duplicates = [], dr_versionConflicts = conflicts_of p reg\<rparr>"

fun repeated_from :: "string set \<Rightarrow> string list \<Rightarrow> string list" where
  "repeated_from seen [] = []"
| "repeated_from seen (i # is) =
     (if i \<in> seen then [i] else []) @ repeated_from (insert i seen) is"

definition detectDuplicateIds :: "agent_plugin list \<Rightarrow> string list" where
  "detectDuplicateIds ps = repeated_from {} (map (\<lambda>p. man_id (manifest p)) ps)"

definition validateAllDependencies :: "agent_plugin list \<Rightarrow> plugin_registry \<Rightarrow> dependency_result" where
  "validateAllDependencies ps reg =
     (let duplicates = detectDuplicateIds ps;
          results = map (\<lambda>p. validatePluginDependencies p reg) ps;
          allMissing = concat (map dr_missing results);
          allConflicts = concat (map dr_versionConflicts results)
      in \<lparr>dr_valid = (duplicates = [] \<and> allMissing = [] \<and> allConflicts = []),
          dr_missing = allMissing, dr_duplicates = duplicates, dr_versionConflicts = allConflicts\<rparr>)"

subsection \<open>Printing and reading a version\<close>

definition version_str :: "version \<Rightarrow> string" where
  "version_str v = nat_str (major v) @ ''.'' @ nat_str (minor v) @ ''.'' @ nat_str (patch v)"

lemma nat_str_all_digits: "c \<in> set (nat_str n) \<Longrightarrow> is_digit c"
  by (auto simp: is_digit_def dest!: nat_str_digits)

lemma read_number_nat_str:
  assumes "s = [] \<or> \<not> is_digit (hd s)"
  shows "read_number (nat_str n @ s) = Some (n, s)"
proof -
  have "takeWhile is_digit (nat_str n @ s) = nat_str n" "dropWhile is_digit (nat_str n @ s) = s"
    using assms by (cases s; simp add: takeWhile_append2 nat_str_all_digits)+
  then show ?thesis by (simp add: read_number_def digits_val_nat_str)
qed

lemma not_digit [simp]: "\<not> is_digit (CHR ''.'')" "\<not> is_digit (CHR ''-'')"
  by (simp_all add: is_digit_def)

lemma read_triple_version_str:
  assumes "s = [] \<or> \<not> is_digit (hd s)"
  shows "read_triple (version_str v @ s) = Some (v, s)"
  by (simp add: read_triple_def version_str_def read_number_nat_str assms read_dot_def)

lemma parseSemver_version_str: "parseSemver (version_str v) = Some v"
  using read_triple_version_str [of "[]" v] by (simp add: parseSemver_def)

lemma range_prefix_not_digit: "is_range_prefix c \<Longrightarrow> \<not> is_digit c"
  by (auto simp: is_range_prefix_def is_digit_def)

lemma version_str_hd: "\<exists>c cs. version_str v = c # cs \<and> is_digit c"
proof (cases "nat_str (major v)")
  case Nil
  then show ?thesis by simp
next
  case (Cons c cs)
  then have "is_digit c" using nat_str_all_digits [of c "major v"] by simp
  with Cons show ?thesis by (simp add: version_str_def)
qed

lemma parseVersion_version_str: "parseVersion (version_str v) = Some ([], v)"
proof -
  obtain c cs where v: "version_str v = c # cs" and d: "is_digit c" using version_str_hd by blast
  then have "\<not> is_range_prefix c" using range_prefix_not_digit by blast
  moreover have "read_triple (c # cs) = Some (v, [])"
    using read_triple_version_str [of "[]" v] v by simp
  ultimately show ?thesis by (simp add: parseVersion_def v)
qed

lemma parseVersion_prefixed: "is_range_prefix c \<Longrightarrow> parseVersion (c # version_str v) = Some ([c], v)"
  using read_triple_version_str [of "[]" v] by (simp add: parseVersion_def)


subsection \<open>Which versions a dependency accepts\<close>

lemma older_irrefl [simp]: "\<not> older v v"
  by (simp add: older_def)

lemma version_eq_iff: "(v :: version) = w \<longleftrightarrow> major v = major w \<and> minor v = minor w \<and> patch v = patch w"
  by auto

text \<open>
  Which versions satisfy a dependency, for printed versions. Without a prefix only the
  same version does; with a caret the versions of the same major number that are not older;
  with a tilde those of the same major and minor number that are not older. The prefixes
  for greater, less and equal are read, and then demand the same version.
\<close>

theorem range_prefixes_mean:
  "(versionMatches (version_str r) (version_str a) \<longleftrightarrow> a = r) \<and>
   (versionMatches (''^'' @ version_str r) (version_str a) \<longleftrightarrow> major a = major r \<and> \<not> older a r) \<and>
   (versionMatches (''~'' @ version_str r) (version_str a) \<longleftrightarrow>
      major a = major r \<and> minor a = minor r \<and> \<not> older a r) \<and>
   (versionMatches (''>'' @ version_str r) (version_str a) \<longleftrightarrow> a = r) \<and>
   (versionMatches (''<'' @ version_str r) (version_str a) \<longleftrightarrow> a = r) \<and>
   (versionMatches (''='' @ version_str r) (version_str a) \<longleftrightarrow> a = r)"
  by (auto simp: versionMatches_def parseVersion_version_str parseVersion_prefixed is_range_prefix_def
      older_def version_eq_iff)

lemma read_triple_hd: "read_triple s = Some x \<Longrightarrow> \<exists>c cs. s = c # cs \<and> is_digit c"
  by (cases s) (auto simp: read_triple_def read_number_def Let_def split: if_splits)

lemma semver_parses:
  assumes "SEMVER_PATTERN s"
  shows "\<exists>v. parseSemver s = Some v \<and> parseVersion s = Some ([], v)"
proof -
  from assms obtain v rest where t: "read_triple s = Some (v, rest)"
    by (auto simp: SEMVER_PATTERN_def split: option.splits)
  then obtain c cs where s: "s = c # cs" and "is_digit c" using read_triple_hd by blast
  then have "\<not> is_range_prefix c" using range_prefix_not_digit by blast
  with t s show ?thesis by (simp add: parseSemver_def parseVersion_def)
qed

lemma exact_match:
  assumes "parseVersion required = Some ([], v)"
  shows "versionMatches required available \<longleftrightarrow> map_option snd (parseVersion available) = Some v"
  using assms by (cases "parseVersion available") (auto simp: versionMatches_def version_eq_iff)

lemma manifest_valid_iff:
  "valid (validatePluginManifest man) \<longleftrightarrow>
     ID_PATTERN (man_id man) \<and> man_name man \<noteq> [] \<and> SEMVER_PATTERN (man_version man) \<and>
     man_author man \<noteq> [] \<and> man_description man \<noteq> [] \<and> SEMVER_PATTERN (man_minimumAgentOSVersion man) \<and>
     (\<forall>dep \<in> set (man_dependencies man). dep_id dep \<noteq> [] \<and> SEMVER_PATTERN (dep_version dep))"
proof -
  have [simp]: "\<not> SEMVER_PATTERN []" by (simp add: SEMVER_PATTERN_def read_triple_def read_number_def)
  have [simp]: "\<not> ID_PATTERN []" by (simp add: ID_PATTERN_def)
  have dep: "dependency_errors dep = [] \<longleftrightarrow> dep_id dep \<noteq> [] \<and> SEMVER_PATTERN (dep_version dep)" for dep
    by (auto simp: dependency_errors_def)
  show ?thesis unfolding validatePluginManifest_def report_simps by (auto simp: dep split: if_splits)
qed

lemma dependencies_valid_iff:
  "dr_valid (validatePluginDependencies p reg) \<longleftrightarrow>
     (\<forall>dep \<in> set (man_dependencies (manifest p)). \<exists>r. get_plugin (dep_id dep) reg = Some r \<and>
        versionMatches (dep_version dep) (man_version (manifest (plugin r))))"
  by (auto simp: validatePluginDependencies_def missing_of_def conflicts_of_def Let_def
      split: option.splits if_splits; fastforce)

text \<open>
  The dependencies of a plugin with a valid manifest are satisfied exactly when each is
  registered with the very version it names (a suffix after the three numbers is not
  looked at). The manifest check admits no range prefix, so no plugin that the platform
  discovers can use one.
\<close>

theorem valid_manifests_pin_versions:
  assumes "valid (validatePluginManifest (manifest p))"
  shows "dr_valid (validatePluginDependencies p reg) \<longleftrightarrow>
    (\<forall>dep \<in> set (man_dependencies (manifest p)). \<exists>r v. get_plugin (dep_id dep) reg = Some r \<and>
       parseSemver (dep_version dep) = Some v \<and>
       map_option snd (parseVersion (man_version (manifest (plugin r)))) = Some v)"
proof -
  have "versionMatches (dep_version dep) av \<longleftrightarrow>
      (\<exists>v. parseSemver (dep_version dep) = Some v \<and> map_option snd (parseVersion av) = Some v)"
    if "dep \<in> set (man_dependencies (manifest p))" for dep av
  proof -
    from assms that have "SEMVER_PATTERN (dep_version dep)" by (simp add: manifest_valid_iff)
    then obtain v where "parseSemver (dep_version dep) = Some v" "parseVersion (dep_version dep) = Some ([], v)"
      using semver_parses by blast
    then show ?thesis by (simp add: exact_match)
  qed
  then show ?thesis unfolding dependencies_valid_iff by auto
qed

definition manifest_for :: "string \<Rightarrow> string \<Rightarrow> plugin_dependency list \<Rightarrow> plugin_manifest" where
  "manifest_for i v deps = \<lparr>man_id = i, man_name = ''N'', man_version = v, man_author = ''A'',
     man_description = ''D'', man_capabilities = [], man_dependencies = deps,
     man_minimumAgentOSVersion = ''1.2.0'', man_configSchema = None\<rparr>"

definition plugin_for :: "plugin_manifest \<Rightarrow> agent_plugin" where
  "plugin_for man = \<lparr>manifest = man, plugin_initialize = (\<lambda>_. Ok_result),
     plugin_start = (\<lambda>_. Ok_result), plugin_stop = (\<lambda>_. Ok_result), plugin_dispose = (\<lambda>_. Ok_result)\<rparr>"

theorem valid_manifests_pin_versions_witness:
  "let reg = snd (register_plugin 0 (plugin_for (manifest_for ''base'' ''1.4.0'' [])) createPluginRegistry);
       user = \<lambda>v. plugin_for (manifest_for ''user'' ''1.0.0'' [\<lparr>dep_id = ''base'', dep_version = v\<rparr>])
   in dr_valid (validatePluginDependencies (user ''1.4.0'') reg) \<and>
      \<not> dr_valid (validatePluginDependencies (user ''1.3.0'') reg) \<and>
      \<not> valid (validatePluginManifest (manifest (user ''^1.3.0'')))"
proof -
  let ?reg = "snd (register_plugin 0 (plugin_for (manifest_for ''base'' ''1.4.0'' [])) createPluginRegistry)"
  let ?user = "\<lambda>v. plugin_for (manifest_for ''user'' ''1.0.0'' [\<lparr>dep_id = ''base'', dep_version = v\<rparr>])"
  have v: "valid (validatePluginManifest (manifest (?user ''1.4.0'')))"
    "valid (validatePluginManifest (manifest (?user ''1.3.0'')))"
    "\<not> valid (validatePluginManifest (manifest (?user ''^1.3.0'')))"
    by code_simp+
  have deps: "man_dependencies (manifest (?user x)) = [\<lparr>dep_id = ''base'', dep_version = x\<rparr>]" for x
    by (simp add: plugin_for_def manifest_for_def)
  have get: "map_option (\<lambda>r. man_version (manifest (plugin r))) (get_plugin ''base'' ?reg) = Some ''1.4.0''"
    by code_simp
  have p: "parseSemver ''1.4.0'' = Some \<lparr>major = 1, minor = 4, patch = 0\<rparr>"
    "parseSemver ''1.3.0'' = Some \<lparr>major = 1, minor = 3, patch = 0\<rparr>"
    "parseVersion ''1.4.0'' = Some ([], \<lparr>major = 1, minor = 4, patch = 0\<rparr>)"
    by code_simp+
  have "dr_valid (validatePluginDependencies (?user ''1.4.0'') ?reg)"
    unfolding valid_manifests_pin_versions [OF v(1)] using get by (auto simp: deps p)
  moreover have "\<not> dr_valid (validatePluginDependencies (?user ''1.3.0'') ?reg)"
    unfolding valid_manifests_pin_versions [OF v(2)] using get by (auto simp: deps p)
  ultimately show ?thesis using v(3) by (simp add: Let_def)
qed

text \<open>
  A plugin is compatible exactly when both versions can be read and Agent OS is not
  older than the plugin demands.
\<close>

theorem compatible_iff_not_older:
  "valid (validateAgentOSCompatibility man current) \<longleftrightarrow>
     (\<exists>c r. parseSemver current = Some c \<and> parseSemver (man_minimumAgentOSVersion man) = Some r \<and> \<not> older c r)"
  by (auto simp: validateAgentOSCompatibility_def Let_def split: option.splits)

subsection \<open>Duplicates\<close>

lemma repeated_from_count:
  "count_list (repeated_from seen is) i = (if i \<in> seen then count_list is i else count_list is i - 1)"
  by (induction "is" arbitrary: seen) auto

text \<open>Each id is reported once for every occurrence after its first.\<close>

lemma duplicates_counted:
  "count_list (detectDuplicateIds ps) i = count_list (map (\<lambda>p. man_id (manifest p)) ps) i - 1"
  by (simp add: detectDuplicateIds_def repeated_from_count)

lemma repeated_from_Nil: "repeated_from seen is = [] \<longleftrightarrow> distinct is \<and> set is \<inter> seen = {}"
  by (induction "is" arbitrary: seen) auto

lemma all_dependencies_valid_iff:
  "dr_valid (validateAllDependencies ps reg) \<longleftrightarrow>
     distinct (map (\<lambda>p. man_id (manifest p)) ps) \<and>
     (\<forall>p \<in> set ps. dr_valid (validatePluginDependencies p reg))"
  by (auto simp: validateAllDependencies_def Let_def detectDuplicateIds_def repeated_from_Nil
      validatePluginDependencies_def)

end
