(* ===== verification/PluginConfig.thy ===== *)
theory PluginConfig
  imports PluginValidation JsObjects
begin

text \<open>
  Plugin configuration (packages/plugins/src): validation against a schema and defaults
  (PluginConfigValidator.ts), and the merge of several sources (PluginConfig.ts). A schema
  is an object, here the list of its entries. The message of an error is kept as its parts:
  the constructors of \<open>config_message\<close> are the templates of the source. Objects are
  compared by identity in the source; a value of a configuration is never one of the objects
  inside the schema, so that an enumeration can only list primitive values.
\<close>

subsection \<open>Validation against a schema\<close>

datatype config_message =
    Required_field_missing string
  | Expected string string
  | Unknown_property string
  | Not_one_of jsval "jsval list"
  | Unknown_configuration_property string

record config_error =
  ce_path :: string
  ce_message :: config_message

definition config_err :: "string \<Rightarrow> config_message \<Rightarrow> config_error list" where
  "config_err path msg = [\<lparr>ce_path = path, ce_message = msg\<rparr>]"

definition enum_errors :: "jsval list option \<Rightarrow> jsval \<Rightarrow> string \<Rightarrow> config_error list" where
  "enum_errors en v path = (case en of
     None \<Rightarrow> []
   | Some vs \<Rightarrow> if js_includes vs v then [] else config_err path (Not_one_of v vs))"

text \<open>The operator \<open>in\<close> on the object that is a schema.\<close>

definition in_schema :: "string \<Rightarrow> config_schema \<Rightarrow> bool" where
  "in_schema key ps \<longleftrightarrow> jm_has ps key \<or> js_in key []"

definition unknown_keys :: "config_schema \<Rightarrow> (string, jsval) jmap \<Rightarrow> string list" where
  "unknown_keys ps obj = filter (\<lambda>key. \<not> in_schema key ps) (jm_keys obj)"

function validateField :: "field_schema \<Rightarrow> jsval \<Rightarrow> string \<Rightarrow> config_error list" where
  "validateField (Field ty req dflt en items props) v path =
     (if v = JUndefined \<or> v = JNull
      then (if req then config_err path (Required_field_missing path) else [])
      else
        (case ty of
           FString \<Rightarrow> if typeof v \<noteq> ''string'' then config_err path (Expected ''string'' (typeof v)) else []
         | FNumber \<Rightarrow> if typeof v \<noteq> ''number'' \<or> v = JNaN
             then config_err path (Expected ''number'' (typeof v)) else []
         | FBoolean \<Rightarrow> if typeof v \<noteq> ''boolean'' then config_err path (Expected ''boolean'' (typeof v)) else []
         | FObject \<Rightarrow> (case v of
             JObj obj \<Rightarrow> (case props of
               None \<Rightarrow> []
             | Some ps \<Rightarrow>
                 concat (map (\<lambda>(key, sch). validateField sch (js_get obj key) (sub_path path key)) ps) @
                 concat (map (\<lambda>key. config_err (sub_path path key) (Unknown_property key))
                   (unknown_keys ps obj)))
           | _ \<Rightarrow> config_err path (Expected ''object'' (if is_array v then ''array'' else typeof v)))
         | FArray \<Rightarrow> (case v of
             JArr vs \<Rightarrow> (case items of
               None \<Rightarrow> []
             | Some sch \<Rightarrow>
                 concat (map (\<lambda>(i, x). validateField sch x (index_path path i)) (enumerate 0 vs)))
           | _ \<Rightarrow> config_err path (Expected ''array'' (typeof v)))) @
        enum_errors en v path)"
  by pat_completeness auto

lemma entry_smaller: "(key, sch) \<in> set ps \<Longrightarrow> size (sch :: field_schema) < Suc (size_list (size_prod (\<lambda>_. 0) size) ps)"
  by (induction ps) auto

termination validateField
  by (relation "measure (\<lambda>(sch, _, _). size sch)") (auto dest!: entry_smaller)

record config_validation =
  cv_valid :: bool
  cv_errors :: "config_error list"

definition validatePluginConfig :: "(string, jsval) jmap \<Rightarrow> config_schema \<Rightarrow> config_validation" where
  "validatePluginConfig config schema =
     (let es = concat (map (\<lambda>(key, sch). validateField sch (js_get config key) key) schema) @
            concat (map (\<lambda>key. config_err key (Unknown_configuration_property key))
              (unknown_keys schema config))
      in \<lparr>cv_valid = (es = []), cv_errors = es\<rparr>)"

definition applyDefaults :: "(string, jsval) jmap \<Rightarrow> config_schema \<Rightarrow> (string, jsval) jmap" where
  "applyDefaults config schema = fold (\<lambda>(key, sch) result.
     if js_get result key = JUndefined \<and> fs_default sch \<noteq> JUndefined
     then jm_set key (fs_default sch) result else result) schema config"

subsection \<open>Sources\<close>

record config_source =
  cs_priority :: int
  cs_get :: "string \<Rightarrow> (string, jsval) jmap option"

definition createConfigSources :: "string \<Rightarrow> config_schema option \<Rightarrow> config_source list
    \<Rightarrow> (string, jsval) jmap" where
  "createConfigSources pluginId schema sources =
     (let merged = fold (\<lambda>source merged. case cs_get source pluginId of
            None \<Rightarrow> merged | Some c \<Rightarrow> spread merged c) (sort_key cs_priority sources) []
      in case schema of None \<Rightarrow> merged | Some sch \<Rightarrow> applyDefaults merged sch)"

record plugin_config =
  pc_schema :: "config_schema option"
  pc_pluginId :: string
  pc_config :: "(string, jsval) jmap"

definition createPluginConfig :: "string \<Rightarrow> config_schema option \<Rightarrow> config_source list \<Rightarrow> plugin_config" where
  "createPluginConfig pluginId schema sources =
     \<lparr>pc_schema = schema, pc_pluginId = pluginId,
      pc_config = createConfigSources pluginId schema sources\<rparr>"

definition config_get :: "plugin_config \<Rightarrow> string \<Rightarrow> jsval" where
  "config_get pc key = js_get (pc_config pc) key"

definition config_require :: "plugin_config \<Rightarrow> string \<Rightarrow> string + jsval" where
  "config_require pc key = (let v = js_get (pc_config pc) key in
     if v = JUndefined
     then Inl (''Required configuration key '' @ quoted key @ '' is not set for plugin '' @ quoted (pc_pluginId pc))
     else Inr v)"

definition config_has :: "plugin_config \<Rightarrow> string \<Rightarrow> bool" where
  "config_has pc key = js_in key (pc_config pc)"

definition config_all :: "plugin_config \<Rightarrow> (string, jsval) jmap" where
  "config_all pc = spread [] (pc_config pc)"

definition createDefaultSources :: "(string, jsval) jmap option \<Rightarrow> (string, (string, jsval) jmap) jmap option
    \<Rightarrow> config_source list" where
  "createDefaultSources globalConfig envOverrides =
     (case envOverrides of None \<Rightarrow> [] | Some e \<Rightarrow> [\<lparr>cs_priority = 0, cs_get = jm_get e\<rparr>]) @
     (case globalConfig of None \<Rightarrow> [] | Some g \<Rightarrow> [\<lparr>cs_priority = 10, cs_get = (\<lambda>_. Some g)\<rparr>])"


text \<open>
  What the configuration validator accepts, as a relation between field schemas and values,
  and which of several configuration sources a value comes from.
\<close>

subsection \<open>Values that conform to a schema\<close>

definition allowed_by :: "jsval list option \<Rightarrow> jsval \<Rightarrow> bool" where
  "allowed_by en v \<longleftrightarrow> (case en of None \<Rightarrow> True | Some vs \<Rightarrow> js_includes vs v)"

inductive conforms :: "field_schema \<Rightarrow> jsval \<Rightarrow> bool" where
  absent: "v = JUndefined \<or> v = JNull \<Longrightarrow> conforms (Field ty False d en it ps) v"
| a_string: "allowed_by en (JStr s) \<Longrightarrow> conforms (Field FString r d en it ps) (JStr s)"
| a_number: "allowed_by en (JNum q) \<Longrightarrow> conforms (Field FNumber r d en it ps) (JNum q)"
| a_boolean: "allowed_by en (JBool b) \<Longrightarrow> conforms (Field FBoolean r d en it ps) (JBool b)"
| any_object: "allowed_by en (JObj ob) \<Longrightarrow> conforms (Field FObject r d en it None) (JObj ob)"
| an_object: "allowed_by en (JObj ob) \<Longrightarrow>
    \<forall>(k, sch) \<in> set ps. conforms sch (js_get ob k) \<Longrightarrow> \<forall>k \<in> set (jm_keys ob). in_schema k ps \<Longrightarrow>
    conforms (Field FObject r d en it (Some ps)) (JObj ob)"
| any_array: "allowed_by en (JArr vs) \<Longrightarrow> conforms (Field FArray r d en None ps) (JArr vs)"
| an_array: "allowed_by en (JArr vs) \<Longrightarrow> \<forall>x \<in> set vs. conforms sch x \<Longrightarrow>
    conforms (Field FArray r d en (Some sch) ps) (JArr vs)"

inductive_simps conforms_iff: "conforms (Field ty r d en it ps) v"

lemma enum_errors_Nil: "enum_errors en v path = [] \<longleftrightarrow> allowed_by en v"
  by (auto simp: enum_errors_def allowed_by_def config_err_def split: option.split)

lemma config_err_ne [simp]: "config_err path msg \<noteq> []"
  by (simp add: config_err_def)

lemma unknown_Nil: "unknown_keys ps obj = [] \<longleftrightarrow> (\<forall>k \<in> set (jm_keys obj). in_schema k ps)"
  by (auto simp: unknown_keys_def filter_empty_conv)

lemma validateField_Nil: "validateField sch v path = [] \<longleftrightarrow> conforms sch v"
proof (induction sch v path rule: validateField.induct)
  case (1 ty req d en it ps v path)
  show ?case
  proof (cases "v = JUndefined \<or> v = JNull")
    case True
    then show ?thesis by (auto simp: conforms_iff)
  next
    case False
    note absent = False
    show ?thesis
    proof (cases ty)
      case FObject
      show ?thesis
      proof (cases v)
        case (JObj ob)
        show ?thesis
        proof (cases ps)
          case None
          with JObj FObject show ?thesis by (auto simp: conforms_iff enum_errors_Nil)
        next
          case (Some qs)
          have "(\<forall>(k, s) \<in> set qs. validateField s (js_get ob k) (sub_path path k) = []) \<longleftrightarrow>
              (\<forall>(k, s) \<in> set qs. conforms s (js_get ob k))"
            using "1.IH"(1) [OF absent FObject JObj Some] by blast
          moreover have "validateField (Field ty req d en it ps) v path = [] \<longleftrightarrow>
              (\<forall>(k, s) \<in> set qs. validateField s (js_get ob k) (sub_path path k) = []) \<and>
              unknown_keys qs ob = [] \<and> allowed_by en v"
            by (auto simp: JObj FObject Some enum_errors_Nil)
          ultimately show ?thesis using JObj FObject Some by (auto simp: conforms_iff unknown_Nil)
        qed
      qed (use absent FObject in \<open>auto simp: conforms_iff is_array_def\<close>)
    next
      case FArray
      show ?thesis
      proof (cases v)
        case (JArr vs)
        show ?thesis
        proof (cases it)
          case None
          with JArr FArray show ?thesis by (auto simp: conforms_iff enum_errors_Nil)
        next
          case (Some s)
          have "(\<forall>(i, x) \<in> set (enumerate 0 vs). validateField s x (index_path path i) = []) \<longleftrightarrow>
              (\<forall>(i, x) \<in> set (enumerate 0 vs). conforms s x)"
            using "1.IH"(2) [OF absent FArray JArr Some] by blast
          also have "\<dots> \<longleftrightarrow> (\<forall>x \<in> set vs. conforms s x)" by (rule all_enumerate)
          finally show ?thesis using JArr FArray Some
            by (auto simp: conforms_iff enum_errors_Nil)
        qed
      qed (use absent FArray in \<open>auto simp: conforms_iff\<close>)
    qed (use absent in \<open>cases v; auto simp: conforms_iff enum_errors_Nil\<close>)+
  qed
qed

text \<open>
  A configuration is reported valid exactly when every entry of the schema finds a value
  that conforms to it and every own key of the configuration is in the schema. Conforming is
  the declarative reading of a schema: an optional value may be absent, every other value has
  the declared type, is one of the enumerated values, and conforms in all of its parts.
\<close>

theorem config_valid_iff_conforms:
  "cv_valid (validatePluginConfig config schema) \<longleftrightarrow>
     (\<forall>(k, sch) \<in> set schema. conforms sch (js_get config k)) \<and>
     (\<forall>k \<in> set (jm_keys config). in_schema k schema)"
proof -
  have "cv_valid (validatePluginConfig config schema) \<longleftrightarrow>
      (\<forall>(k, sch) \<in> set schema. validateField sch (js_get config k) k = []) \<and>
      unknown_keys schema config = []"
    by (auto simp: validatePluginConfig_def Let_def)
  then show ?thesis by (simp add: validateField_Nil unknown_Nil)
qed

definition sample_schema :: config_schema where
  "sample_schema =
     [(''port'', Field FNumber True JUndefined None None None),
      (''tags'', Field FArray False JUndefined None (Some (Field FString True JUndefined None None None)) None)]"

theorem config_valid_iff_conforms_witness:
  "conforms (snd (sample_schema ! 1)) (JArr [JStr ''a'']) \<and>
   \<not> cv_valid (validatePluginConfig [(''port'', JNaN)] sample_schema)"
proof -
  let ?c = "[(''port'', JNum 80), (''tags'', JArr [JStr ''a''])]"
  have "cv_valid (validatePluginConfig ?c sample_schema)" by code_simp
  then have "\<forall>(k, sch) \<in> set sample_schema. conforms sch (js_get ?c k)"
    unfolding config_valid_iff_conforms by (rule conjunct1)
  then have "conforms (snd (sample_schema ! 1)) (JArr [JStr ''a''])"
    by (simp add: sample_schema_def js_get_def)
  moreover have "\<not> conforms (snd (sample_schema ! 0)) JNaN" by (simp add: sample_schema_def conforms_iff)
  then have "\<not> cv_valid (validatePluginConfig [(''port'', JNaN)] sample_schema)"
    unfolding config_valid_iff_conforms by (simp add: sample_schema_def js_get_def)
  ultimately show ?thesis by blast
qed

subsection \<open>Defaults\<close>

lemma applyDefaults_get:
  assumes "wf_jmap schema"
  shows "js_get (applyDefaults config schema) k =
    (case map_of schema k of
       None \<Rightarrow> js_get config k
     | Some sch \<Rightarrow> if js_get config k = JUndefined then fs_default sch else js_get config k)"
  using assms
proof (induction schema arbitrary: config)
  case Nil
  then show ?case by (simp add: applyDefaults_def)
next
  case (Cons p schema)
  obtain j sch where p: "p = (j, sch)" by force
  let ?c = "if js_get config j = JUndefined \<and> fs_default sch \<noteq> JUndefined
    then jm_set j (fs_default sch) config else config"
  have "applyDefaults config (p # schema) = applyDefaults ?c schema"
    by (simp add: applyDefaults_def p)
  moreover have "map_of schema j = None" using Cons.prems by (simp add: p map_of_eq_None_iff)
  ultimately show ?case using Cons by (auto simp: p js_get_set split: option.split)
qed

lemma applyDefaults_keeps:
  "js_get config k = v \<Longrightarrow> v \<noteq> JUndefined \<Longrightarrow> js_get (applyDefaults config schema) k = v"
proof (induction schema arbitrary: config)
  case Nil
  then show ?case by (simp add: applyDefaults_def)
next
  case (Cons p schema)
  obtain j sch where p: "p = (j, sch)" by force
  let ?c = "if js_get config j = JUndefined \<and> fs_default sch \<noteq> JUndefined
    then jm_set j (fs_default sch) config else config"
  have "applyDefaults config (p # schema) = applyDefaults ?c schema"
    by (simp add: applyDefaults_def p)
  moreover have "js_get ?c k = v" using Cons.prems by (auto simp: js_get_set)
  ultimately show ?case using Cons.IH [of ?c] Cons.prems(2) by simp
qed

subsection \<open>Precedence\<close>

lemma spread_get: "jm_get (spread a b) k = (case map_of (rev b) k of None \<Rightarrow> jm_get a k | Some v \<Rightarrow> Some v)"
  unfolding spread_def by (rule jm.fold_put_lookup)

definition source_entries :: "string \<Rightarrow> config_source \<Rightarrow> (string, jsval) jmap" where
  "source_entries i s = override [] (cs_get s i)"

lemma merge_sources_get:
  "jm_get (fold (\<lambda>source merged. case cs_get source i of None \<Rightarrow> merged | Some c \<Rightarrow> spread merged c) ss m) k =
     (case map_of (rev (concat (map (source_entries i) ss))) k of None \<Rightarrow> jm_get m k | Some v \<Rightarrow> Some v)"
  by (induction ss arbitrary: m)
    (auto simp: source_entries_def spread_get override_def map_add_def split: option.splits)

lemma map_of_rev_concat_absent:
  "\<forall>x \<in> set xs. map_of (f x) k = None \<Longrightarrow> map_of (rev (concat (map f xs))) k = None"
  by (auto simp: map_of_eq_None_iff)

text \<open>
  A key that a source sets gets its value from the source with the largest priority
  number among those that set it, whatever the schema says. So the number works against the
  comments of the source: the default sources give environment overrides the number 0 and
  the global configuration 10, and the global value wins.
\<close>

theorem largest_priority_number_wins:
  assumes "s \<in> set sources" and "cs_get s i = Some c" and "wf_jmap c" and "jm_get c k = Some v"
    and "v \<noteq> JUndefined"
    and "\<And>s'. s' \<in> set sources \<Longrightarrow> s' = s \<or> jm_get (source_entries i s') k = None \<or> cs_priority s' < cs_priority s"
  shows "config_get (createPluginConfig i schema sources) k = v"
proof -
  let ?ss = "sort_key cs_priority sources"
  obtain ys zs where ss: "?ss = ys @ s # zs" and "s \<notin> set zs"
    using assms(1) split_list_last [of s ?ss] by auto
  have "sorted (map cs_priority ?ss)" by (rule sorted_sort_key)
  then have "\<forall>s' \<in> set zs. cs_priority s \<le> cs_priority s'" by (simp add: ss sorted_append)
  moreover have "set zs \<subseteq> set sources" using set_sort [of cs_priority sources] ss by auto
  ultimately have "\<forall>s' \<in> set zs. jm_get (source_entries i s') k = None"
    using assms(6) \<open>s \<notin> set zs\<close> by fastforce
  then have "map_of (rev (concat (map (source_entries i) zs))) k = None"
    by (rule map_of_rev_concat_absent)
  moreover have "map_of (rev c) k = Some v"
    using assms(3,4) by (auto intro!: map_of_is_SomeI dest: map_of_SomeD simp: rev_map [symmetric])
  ultimately have "map_of (rev (concat (map (source_entries i) ?ss))) k = Some v"
    using assms(2) by (simp add: ss source_entries_def map_add_def)
  then have "js_get (createConfigSources i None sources) k = v"
    by (simp add: createConfigSources_def merge_sources_get js_get_own)
  then show ?thesis
    using applyDefaults_keeps assms(5)
    by (cases schema) (auto simp: config_get_def createPluginConfig_def createConfigSources_def)
qed

theorem largest_priority_number_wins_witness:
  "config_get (createPluginConfig ''p'' None
     (createDefaultSources (Some [(''port'', JNum 1)]) (Some [(''p'', [(''port'', JNum 2)])]))) ''port'' = JNum 1"
  by (rule largest_priority_number_wins [where c = "[(''port'', JNum 1)]"
        and s = "\<lparr>cs_priority = 10, cs_get = (\<lambda>_. Some [(''port'', JNum 1)])\<rparr>"])
    (auto simp: createDefaultSources_def)

end
