(* ===== verification/PluginPlatform.thy ===== *)
theory PluginPlatform
  imports PluginConfig
begin

text \<open>
  Discovery, loading and the platform that runs them (packages/plugins/src: PluginDiscovery.ts,
  PluginLoader.ts, PluginPlatform.ts). The file system and the dynamic import are arguments.
  Package files have the types their interfaces declare, so that a scan itself never throws.
  What the logger is told is left out.
\<close>

subsection \<open>Discovery\<close>

record partial_manifest =
  pt_id :: "string option"
  pt_name :: "string option"
  pt_version :: "string option"
  pt_author :: "string option"
  pt_description :: "string option"
  pt_capabilities :: "string list option"
  pt_dependencies :: "plugin_dependency list option"
  pt_minimumAgentOSVersion :: "string option"

record package_json =
  pj_name :: "string option"
  pj_version :: "string option"
  pj_description :: "string option"
  pj_author :: "string option"
  pj_plugin :: "partial_manifest option"

record discovery_entry =
  de_manifest :: plugin_manifest
  de_source :: string

record discovery_error =
  dx_source :: string
  dx_error :: string

text \<open>
  The file system: \<open>resolve\<close> and \<open>stat\<close> may throw, \<open>readdir\<close> gives names and whether each is
  a directory, \<open>read_json\<close> is reading and parsing a file, with None for any failure.
\<close>

record disc_fs =
  resolve_path :: "string \<Rightarrow> string + string"
  stat_is_directory :: "string \<Rightarrow> bool option"
  readdir :: "string \<Rightarrow> (string \<times> bool) list option"
  read_json :: "string \<Rightarrow> package_json option"
  join_path :: "string \<Rightarrow> string \<Rightarrow> string"
  parent_name :: "string \<Rightarrow> string"

definition DEFAULT_FILE_PATTERNS :: "string list" where
  "DEFAULT_FILE_PATTERNS = [''package.json'']"

text \<open>The first of several values that may be absent.\<close>

definition coalesce :: "'a option \<Rightarrow> 'a option \<Rightarrow> 'a option" where
  "coalesce a b = (case a of None \<Rightarrow> b | Some _ \<Rightarrow> a)"

definition extractManifest :: "(string \<Rightarrow> string) \<Rightarrow> package_json \<Rightarrow> string \<Rightarrow> plugin_manifest option" where
  "extractManifest parent pkg source = (case pj_plugin pkg of
     None \<Rightarrow> None
   | Some c \<Rightarrow> Some
       \<lparr>man_id = override (parent source) (coalesce (pt_id c) (pj_name pkg)),
        man_name = override ''unknown'' (coalesce (pt_name c) (pj_name pkg)),
        man_version = override ''0.0.0'' (coalesce (pt_version c) (pj_version pkg)),
        man_author = override ''unknown'' (coalesce (pt_author c) (pj_author pkg)),
        man_description = override [] (coalesce (pt_description c) (pj_description pkg)),
        man_capabilities = override [] (pt_capabilities c),
        man_dependencies = override [] (pt_dependencies c),
        man_minimumAgentOSVersion = override ''0.0.0'' (pt_minimumAgentOSVersion c),
        man_configSchema = None\<rparr>)"

definition scan_file :: "disc_fs \<Rightarrow> string \<Rightarrow> string \<Rightarrow> discovery_entry list" where
  "scan_file dfs subDir pattern =
     (let filePath = join_path dfs subDir pattern in
      case read_json dfs filePath of
        None \<Rightarrow> []
      | Some pkg \<Rightarrow> (case extractManifest (parent_name dfs) pkg filePath of
          None \<Rightarrow> []
        | Some man \<Rightarrow> if \<not> valid (validatePluginManifest man) then []
            else [\<lparr>de_manifest = man, de_source = subDir\<rparr>]))"

definition scanDirectory :: "disc_fs \<Rightarrow> string \<Rightarrow> string list \<Rightarrow> discovery_entry list" where
  "scanDirectory dfs dir filePatterns = (case readdir dfs dir of
     None \<Rightarrow> []
   | Some dirEntries \<Rightarrow> concat (map (\<lambda>(name, is_dir).
       if \<not> is_dir then []
       else concat (map (scan_file dfs (join_path dfs dir name)) filePatterns)) dirEntries))"

definition discover_dir :: "disc_fs \<Rightarrow> string list \<Rightarrow> string \<Rightarrow> discovery_entry list \<times> discovery_error list" where
  "discover_dir dfs filePatterns dir = (case resolve_path dfs dir of
     Inl e \<Rightarrow> ([], [\<lparr>dx_source = dir, dx_error = ''Invalid directory path: '' @ e\<rparr>])
   | Inr resolved \<Rightarrow> (case stat_is_directory dfs resolved of
       None \<Rightarrow> ([], [\<lparr>dx_source = dir, dx_error = ''Directory not found: '' @ resolved\<rparr>])
     | Some False \<Rightarrow> ([], [\<lparr>dx_source = dir, dx_error = ''Not a directory: '' @ resolved\<rparr>])
     | Some True \<Rightarrow> (scanDirectory dfs resolved filePatterns, [])))"

definition discover :: "disc_fs \<Rightarrow> string list option \<Rightarrow> string list
    \<Rightarrow> discovery_entry list \<times> discovery_error list" where
  "discover dfs filePatterns directories =
     (let found = map (discover_dir dfs (override DEFAULT_FILE_PATTERNS filePatterns)) directories
      in (concat (map fst found), concat (map snd found)))"

subsection \<open>Loading a module\<close>

text \<open>
  What a module exports, as far as the loader looks: members of the wrong type are None. Of
  the manifest it checks three members; the others are taken as they are.
\<close>

record manifest_like =
  ml_id :: "string option"
  ml_name :: "string option"
  ml_version :: "string option"
  ml_rest :: plugin_manifest

record candidate =
  ca_manifest :: "manifest_like option"
  ca_initialize :: "(instant \<Rightarrow> hook_result) option"
  ca_start :: "(instant \<Rightarrow> hook_result) option"
  ca_stop :: "(instant \<Rightarrow> hook_result) option"
  ca_dispose :: "(instant \<Rightarrow> hook_result) option"

datatype exported = Not_an_object | An_object candidate

record module_exports =
  me_default :: "exported option"
  me_namespace :: candidate

definition isAgentPlugin :: "exported \<Rightarrow> bool" where
  "isAgentPlugin v = (case v of
     Not_an_object \<Rightarrow> False
   | An_object c \<Rightarrow> (case ca_manifest c of
       None \<Rightarrow> False
     | Some man \<Rightarrow> ml_id man \<noteq> None \<and> ml_name man \<noteq> None \<and> ml_version man \<noteq> None \<and>
         ca_initialize c \<noteq> None \<and> ca_start c \<noteq> None \<and> ca_stop c \<noteq> None \<and> ca_dispose c \<noteq> None))"

text \<open>A candidate that passed, read as a plugin.\<close>

fun as_plugin :: "exported \<Rightarrow> agent_plugin option" where
  "as_plugin (An_object \<lparr>ca_manifest = Some man, ca_initialize = Some i, ca_start = Some s,
     ca_stop = Some t, ca_dispose = Some d\<rparr>) =
     (case (ml_id man, ml_name man, ml_version man) of
        (Some mi, Some mn, Some mv) \<Rightarrow> Some
          \<lparr>manifest = (ml_rest man)\<lparr>man_id := mi, man_name := mn, man_version := mv\<rparr>,
           plugin_initialize = i, plugin_start = s, plugin_stop = t, plugin_dispose = d\<rparr>
      | _ \<Rightarrow> None)"
| "as_plugin _ = None"

lemma as_plugin_iff: "isAgentPlugin v \<longleftrightarrow> as_plugin v \<noteq> None"
  by (cases v rule: as_plugin.cases) (auto simp: isAgentPlugin_def split: option.splits)

type_synonym importer = "string \<Rightarrow> string + module_exports"

definition load_module :: "importer \<Rightarrow> plugin_manifest \<Rightarrow> string \<Rightarrow> string + agent_plugin" where
  "load_module imp man modulePath = (case imp modulePath of
     Inl e \<Rightarrow> Inl (''Failed to import plugin module '' @ quoted modulePath @ '': '' @ e)
   | Inr imported \<Rightarrow>
       (let c = override (An_object (me_namespace imported)) (me_default imported) in
        case as_plugin c of
          None \<Rightarrow> Inl (''Plugin module '' @ quoted modulePath @ '' does not export a valid AgentPlugin. ''
            @ ''Expected an object with manifest, initialize(), start(), stop(), dispose().'')
        | Some p \<Rightarrow>
            if man_id (manifest p) \<noteq> man_id man
            then Inl (''Plugin manifest mismatch: expected id '' @ quoted (man_id man)
              @ '' but module exported '' @ quoted (man_id (manifest p)) @ ''.'')
            else Inr p))"

lemma load_module_id: "load_module imp man path = Inr p \<Longrightarrow> man_id (manifest p) = man_id man"
  by (auto simp: load_module_def Let_def split: sum.splits option.splits if_splits)

subsection \<open>The platform\<close>

text \<open>\<open>message_text\<close> prints the parts of a message of the configuration validator.\<close>

record platform =
  pp_agentOSVersion :: string
  pp_globalConfig :: "(string, jsval) jmap option"
  pp_envOverrides :: "(string, (string, jsval) jmap) jmap option"
  import_module :: importer
  message_text :: "config_message \<Rightarrow> string"

record load_failure =
  lf_source :: string
  lf_pluginId :: "string option"
  lf_error :: string

definition failed_entry :: "discovery_entry \<Rightarrow> string \<Rightarrow> load_failure" where
  "failed_entry e msg = \<lparr>lf_source = de_source e, lf_pluginId = Some (man_id (de_manifest e)), lf_error = msg\<rparr>"

abbreviation entry_id :: "discovery_entry \<Rightarrow> string" where
  "entry_id e \<equiv> man_id (de_manifest e)"

definition placeholder :: "plugin_manifest \<Rightarrow> agent_plugin" where
  "placeholder man = \<lparr>manifest = man, plugin_initialize = (\<lambda>_. Ok_result), plugin_start = (\<lambda>_. Ok_result),
     plugin_stop = (\<lambda>_. Ok_result), plugin_dispose = (\<lambda>_. Ok_result)\<rparr>"

definition compatible :: "platform \<Rightarrow> discovery_entry \<Rightarrow> bool" where
  "compatible pf e \<longleftrightarrow> valid (validateAgentOSCompatibility (de_manifest e) (pp_agentOSVersion pf))"

definition incompatible_failures :: "platform \<Rightarrow> discovery_entry list \<Rightarrow> load_failure list" where
  "incompatible_failures pf es = map (\<lambda>e. failed_entry e (join ''; ''
     (errors (validateAgentOSCompatibility (de_manifest e) (pp_agentOSVersion pf)))))
     (filter (\<lambda>e. \<not> compatible pf e) es)"

text \<open>The second phase: the first entry of each id, and the others.\<close>

fun split_duplicates :: "string set \<Rightarrow> discovery_entry list \<Rightarrow> discovery_entry list \<times> discovery_entry list" where
  "split_duplicates seen [] = ([], [])"
| "split_duplicates seen (e # es) =
     (if entry_id e \<in> seen
      then (case split_duplicates seen es of (us, ds) \<Rightarrow> (us, e # ds))
      else (case split_duplicates (insert (entry_id e) seen) es of (us, ds) \<Rightarrow> (e # us, ds)))"

definition duplicate_failure :: "discovery_entry \<Rightarrow> load_failure" where
  "duplicate_failure e = failed_entry e (''Duplicate plugin id '' @ quoted (entry_id e))"

text \<open>The third phase; the n-th registration reads \<open>clock n\<close>.\<close>

fun register_entries :: "(nat \<Rightarrow> instant) \<Rightarrow> nat \<Rightarrow> discovery_entry list \<Rightarrow> plugin_registry
    \<Rightarrow> string list \<times> load_failure list \<times> plugin_registry" where
  "register_entries clock n [] reg = ([], [], reg)"
| "register_entries clock n (e # es) reg =
     (case register_plugin (clock n) (placeholder (de_manifest e)) reg of
        (Inl msg, reg1) \<Rightarrow> (case register_entries clock (Suc n) es reg1 of
          (ids, fs, reg2) \<Rightarrow> (ids, failed_entry e msg # fs, reg2))
      | (Inr _, reg1) \<Rightarrow> (case register_entries clock (Suc n) es reg1 of
          (ids, fs, reg2) \<Rightarrow> (entry_id e # ids, fs, reg2)))"

definition registerValidPlugins :: "platform \<Rightarrow> (nat \<Rightarrow> instant) \<Rightarrow> discovery_entry list \<Rightarrow> plugin_registry
    \<Rightarrow> string list \<times> load_failure list \<times> plugin_registry" where
  "registerValidPlugins pf clock entries reg =
     (case split_duplicates {} (filter (compatible pf) entries) of
        (unique, dups) \<Rightarrow> (case register_entries clock 0 unique reg of
          (ids, fs, reg1) \<Rightarrow>
            (ids, incompatible_failures pf entries @ map duplicate_failure dups @ fs, reg1)))"

text \<open>The configuration a plugin with a schema would get, and the text of what is wrong with it.\<close>

definition config_problem :: "platform \<Rightarrow> agent_plugin \<Rightarrow> string \<Rightarrow> string option" where
  "config_problem pf p i = (case man_configSchema (manifest p) of
     None \<Rightarrow> None
   | Some schema \<Rightarrow>
       (let pluginConfig = createPluginConfig i (Some schema)
              (createDefaultSources (pp_globalConfig pf) (pp_envOverrides pf));
            validation = validatePluginConfig (config_all pluginConfig) schema
        in if cv_valid validation then None
           else Some (''Config invalid: '' @ join ''; '' (map (\<lambda>e. ce_path e @ '': '' @ message_text pf (ce_message e))
             (cv_errors validation)))))"

definition module_path :: "discovery_entry \<Rightarrow> string" where
  "module_path e = de_source e @ ''/dist/index.js''"

text \<open>The body of the loading loop for an entry whose id was registered.\<close>

definition on_registry :: "(plugin_registry \<Rightarrow> 'a \<times> plugin_registry) \<Rightarrow> plugin_manager \<Rightarrow> 'a \<times> plugin_manager" where
  "on_registry f m = (case f (pm_registry m) of (x, reg) \<Rightarrow> (x, m\<lparr>pm_registry := reg\<rparr>))"

definition load_entry :: "platform \<Rightarrow> instant \<Rightarrow> discovery_entry \<Rightarrow> plugin_manager
    \<Rightarrow> load_failure option \<times> plugin_manager" where
  "load_entry pf now e m =
     (case load_module (import_module pf) (de_manifest e) (module_path e) of
        Inl msg \<Rightarrow> (Some (failed_entry e msg), snd (on_registry (updateError (entry_id e) msg) m))
      | Inr p \<Rightarrow>
          (let m1 = snd (on_registry (unregister_plugin (entry_id e)) m) in
           case on_registry (register_plugin now p) m1 of
             (Inl msg, m2) \<Rightarrow> (Some (failed_entry e msg), m2)
           | (Inr _, m2) \<Rightarrow> (case config_problem pf p (entry_id e) of
               Some msg \<Rightarrow> (Some (failed_entry e msg), snd (on_registry (updateError (entry_id e) msg) m2))
             | None \<Rightarrow> (case executeTransition now Initialize (entry_id e) m2 of
                 (Inl msg, m3) \<Rightarrow> (Some (failed_entry e msg), m3)
               | (Inr _, m3) \<Rightarrow> (None, m3)))))"

fun load_entries :: "platform \<Rightarrow> (nat \<Rightarrow> instant) \<Rightarrow> nat \<Rightarrow> string list \<Rightarrow> discovery_entry list \<Rightarrow> plugin_manager
    \<Rightarrow> string list \<times> load_failure list \<times> plugin_manager" where
  "load_entries pf clock n ids [] m = ([], [], m)"
| "load_entries pf clock n ids (e # es) m =
     (if entry_id e \<notin> set ids then load_entries pf clock (Suc n) ids es m
      else (case load_entry pf (clock n) e m of
        (Some failure, m1) \<Rightarrow> (case load_entries pf clock (Suc n) ids es m1 of
          (ls, fs, m2) \<Rightarrow> (ls, failure # fs, m2))
      | (None, m1) \<Rightarrow> (case load_entries pf clock (Suc n) ids es m1 of
          (ls, fs, m2) \<Rightarrow> (entry_id e # ls, fs, m2))))"

text \<open>
  \<open>loadAll\<close> on what discovery found. The result of the dependency check is only logged, so
  that it is not part of the value.
\<close>

definition loadAll :: "platform \<Rightarrow> (nat \<Rightarrow> instant) \<Rightarrow> discovery_entry list \<Rightarrow> plugin_manager
    \<Rightarrow> string list \<times> load_failure list \<times> plugin_manager" where
  "loadAll pf clock entries m =
     (case registerValidPlugins pf clock entries (pm_registry m) of
        (ids, fs, reg) \<Rightarrow> (case load_entries pf clock (length entries) ids entries (m\<lparr>pm_registry := reg\<rparr>) of
          (ls, fs', m') \<Rightarrow> (ls, fs @ fs', m')))"

definition startAll :: "instant \<Rightarrow> plugin_manager \<Rightarrow> string list \<times> plugin_manager" where
  "startAll now m = doForMatching now Startup m"

definition stopAll :: "instant \<Rightarrow> plugin_manager \<Rightarrow> string list \<times> plugin_manager" where
  "stopAll now m = doForMatching now Shutdown m"

definition disposeAll :: "instant \<Rightarrow> plugin_manager \<Rightarrow> string list \<times> plugin_manager" where
  "disposeAll now m = doForMatching now Dispose m"

end
