(* ===== verification/PluginPlatformFacts.thy ===== *)
theory PluginPlatformFacts
  imports PluginPlatform "HOL-Library.Multiset"
begin

text \<open>
  What loading all discovered plugins does: for entries with different ids every entry is
  loaded or reported, on its own merits; when two entries share an id, the entry that the
  registration refused as a duplicate is loaded all the same.
\<close>

subsection \<open>One entry\<close>

text \<open>The verdict on an entry: the module must load and its configuration must be valid.\<close>

definition entry_outcome :: "platform \<Rightarrow> discovery_entry \<Rightarrow> string + agent_plugin" where
  "entry_outcome pf e = (case load_module (import_module pf) (de_manifest e) (module_path e) of
     Inl msg \<Rightarrow> Inl msg
   | Inr p \<Rightarrow> (case config_problem pf p (entry_id e) of Some msg \<Rightarrow> Inl msg | None \<Rightarrow> Inr p))"

lemma register_get:
  "get_plugin j (snd (register_plugin now p reg)) =
     (if j = man_id (manifest p) \<and> get_plugin j reg = None then Some (createRecord now p) else get_plugin j reg)"
  by (auto simp: register_plugin_def Let_def get_plugin_def jm_has_def jm_get_set)

lemma unregister_get:
  "get_plugin j (snd (unregister_plugin i reg)) = (if j = i then None else get_plugin j reg)"
  by (auto simp: unregister_plugin_def get_plugin_def jm_has_def jm_get_delete)

lemma register_accepts:
  "fst (register_plugin now p reg) = Inr () \<longleftrightarrow> get_plugin (man_id (manifest p)) reg = None"
  by (simp add: register_plugin_def Let_def get_plugin_def jm_has_def)

lemma on_registry_simps [simp]:
  "pm_registry (snd (on_registry f m)) = snd (f (pm_registry m))"
  "fst (on_registry f m) = fst (f (pm_registry m))"
  by (simp_all add: on_registry_def split: prod.split)

text \<open>Initializing a plugin that was just registered succeeds and touches no other plugin.\<close>

lemma initialize_registered:
  assumes "get_plugin i (pm_registry m) = Some (createRecord t p)"
  shows "fst (executeTransition now Initialize i m) = Inr () \<and>
    (\<forall>j. map_option (\<lambda>r. (plugin r, rec_phase r)) (get_plugin j (pm_registry (snd (executeTransition now Initialize i m)))) =
       (if j = i then Some (p, INITIALIZED)
        else map_option (\<lambda>r. (plugin r, rec_phase r)) (get_plugin j (pm_registry m))))"
  using assms
  by (auto simp: executeTransition_def begin_action_def createRecord_def canTransition_def Let_def
      notifyTransition_def finish_action_def updatePhase_get split: option.split)

abbreviation plugin_state :: "string \<Rightarrow> plugin_manager \<Rightarrow> (agent_plugin \<times> plugin_phase) option" where
  "plugin_state i m \<equiv> map_option (\<lambda>r. (plugin r, rec_phase r)) (get_plugin i (pm_registry m))"

lemma load_entry_cases:
  "fst (load_entry pf now e m) = (case entry_outcome pf e of Inl msg \<Rightarrow> Some (failed_entry e msg) | Inr _ \<Rightarrow> None) \<and>
   (\<forall>j. plugin_state j (snd (load_entry pf now e m)) =
      (if j \<noteq> entry_id e then plugin_state j m
       else case load_module (import_module pf) (de_manifest e) (module_path e) of
          Inl _ \<Rightarrow> map_option (\<lambda>(p, _). (p, FAILED)) (plugin_state j m)
        | Inr p \<Rightarrow> Some (p, case entry_outcome pf e of Inl _ \<Rightarrow> FAILED | Inr _ \<Rightarrow> INITIALIZED)))"
proof (cases "load_module (import_module pf) (de_manifest e) (module_path e)")
  case (Inl msg)
  then show ?thesis
    by (auto simp: load_entry_def entry_outcome_def updateError_get option.map_comp comp_def)
next
  case (Inr p)
  have i: "man_id (manifest p) = entry_id e" using Inr by (rule load_module_id)
  let ?m1 = "snd (on_registry (unregister_plugin (entry_id e)) m)"
  let ?r = "on_registry (register_plugin now p) ?m1"
  have "fst ?r = Inr ()" by (simp add: register_accepts unregister_get i)
  then obtain m2 where r: "?r = (Inr (), m2)" by (cases ?r) auto
  have "get_plugin j (pm_registry (snd ?r)) =
      (if j = entry_id e then Some (createRecord now p) else get_plugin j (pm_registry m))" for j
    by (simp add: register_get unregister_get i)
  then have g: "get_plugin j (pm_registry m2) =
      (if j = entry_id e then Some (createRecord now p) else get_plugin j (pm_registry m))" for j
    by (simp add: r)
  show ?thesis
  proof (cases "config_problem pf p (entry_id e)")
    case (Some msg)
    have "load_entry pf now e m =
        (Some (failed_entry e msg), snd (on_registry (updateError (entry_id e) msg) m2))"
      by (simp add: load_entry_def Inr r Some)
    then show ?thesis by (simp add: entry_outcome_def Inr Some updateError_get g createRecord_def)
  next
    case None
    let ?x = "executeTransition now Initialize (entry_id e) m2"
    have x: "fst ?x = Inr ()" "\<forall>j. plugin_state j (snd ?x) =
        (if j = entry_id e then Some (p, INITIALIZED) else plugin_state j m2)"
      using initialize_registered [of "entry_id e" m2 now p now] g by auto
    then obtain m3 where x3: "?x = (Inr (), m3)" by (cases ?x) auto
    then have "load_entry pf now e m = (None, snd ?x)"
      by (simp add: load_entry_def Inr r None)
    then show ?thesis using x(2) g by (simp add: entry_outcome_def Inr None)
  qed
qed

subsection \<open>All entries\<close>

definition succeeds :: "platform \<Rightarrow> discovery_entry \<Rightarrow> bool" where
  "succeeds pf e \<longleftrightarrow> (\<exists>p. entry_outcome pf e = Inr p)"

definition load_failures :: "platform \<Rightarrow> discovery_entry list \<Rightarrow> load_failure list" where
  "load_failures pf es = concat (map (\<lambda>e. case entry_outcome pf e of
     Inl msg \<Rightarrow> [failed_entry e msg] | Inr _ \<Rightarrow> []) es)"

lemma load_entries_result:
  "load_entries pf clock n ids es m = (ls, fs, m') \<Longrightarrow>
     ls = map entry_id (filter (\<lambda>e. entry_id e \<in> set ids \<and> succeeds pf e) es) \<and>
     fs = load_failures pf (filter (\<lambda>e. entry_id e \<in> set ids) es)"
proof (induction es arbitrary: n m ls fs m')
  case Nil
  then show ?case by (simp add: load_failures_def)
next
  case (Cons e es)
  show ?case
  proof (cases "entry_id e \<in> set ids")
    case False
    with Cons show ?thesis by auto
  next
    case True
    obtain r m1 where l: "load_entry pf (clock n) e m = (r, m1)" by force
    obtain ls1 fs1 m2 where ls: "load_entries pf clock (Suc n) ids es m1 = (ls1, fs1, m2)"
      by (metis prod_cases3)
    have "r = (case entry_outcome pf e of Inl msg \<Rightarrow> Some (failed_entry e msg) | Inr _ \<Rightarrow> None)"
      using load_entry_cases [of pf "clock n" e m] l by simp
    with Cons.prems Cons.IH [OF ls] l ls True show ?thesis
      by (auto simp: succeeds_def load_failures_def split: sum.splits)
  qed
qed

text \<open>An id that no entry has keeps its state; otherwise its last entry decides.\<close>

lemma load_entries_other:
  "j \<notin> entry_id ` set es \<or> j \<notin> set ids \<Longrightarrow> load_entries pf clock n ids es m = (ls, fs, m') \<Longrightarrow>
     plugin_state j m' = plugin_state j m"
proof (induction es arbitrary: n m ls fs m')
  case Nil
  then show ?case by simp
next
  case (Cons e es)
  obtain r m1 where l: "load_entry pf (clock n) e m = (r, m1)" by force
  obtain ls1 fs1 m2 where ls: "load_entries pf clock (Suc n) ids es m1 = (ls1, fs1, m2)"
    by (metis prod_cases3)
  have "plugin_state j m1 = plugin_state j m" if "entry_id e \<in> set ids"
    using load_entry_cases [of pf "clock n" e m] l Cons.prems(1) that by auto
  with Cons.prems Cons.IH l ls show ?case
    by (cases "entry_id e \<in> set ids"; cases r) (fastforce split: prod.splits)+
qed

lemma load_entries_last:
  assumes "load_entries pf clock n ids (xs @ e # ys) m = (ls, fs, m')" and "entry_id e \<in> set ids"
    and "entry_id e \<notin> entry_id ` set ys"
  shows "\<exists>now m1. plugin_state (entry_id e) m' = plugin_state (entry_id e) (snd (load_entry pf now e m1)) \<and>
    (entry_id e \<notin> entry_id ` set xs \<longrightarrow> plugin_state (entry_id e) m1 = plugin_state (entry_id e) m)"
  using assms(1)
proof (induction xs arbitrary: n m ls fs)
  case Nil
  obtain r m1 where l: "load_entry pf (clock n) e m = (r, m1)" by force
  obtain ls1 fs1 m2 where ls: "load_entries pf clock (Suc n) ids ys m1 = (ls1, fs1, m2)"
    by (metis prod_cases3)
  have "m' = m2" using Nil l ls assms(2) by (auto split: option.splits)
  with load_entries_other [OF disjI1 [OF assms(3)] ls] l
  have "plugin_state (entry_id e) m' = plugin_state (entry_id e) (snd (load_entry pf (clock n) e m))" by simp
  then show ?case by (intro exI [of _ "clock n"] exI [of _ m]) simp
next
  case (Cons x xs)
  obtain r m1 where l: "load_entry pf (clock n) x m = (r, m1)" by force
  let ?m = "if entry_id x \<in> set ids then m1 else m"
  obtain ls1 fs1 m3 where r: "load_entries pf clock (Suc n) ids (xs @ e # ys) ?m = (ls1, fs1, m3)"
    by (metis prod_cases3)
  then have "m' = m3" using Cons.prems l
    by (cases "entry_id x \<in> set ids"; cases r) (simp_all split: prod.splits)
  with r have "load_entries pf clock (Suc n) ids (xs @ e # ys) ?m = (ls1, fs1, m')" by simp
  from Cons.IH [OF this] obtain now m2
    where d: "plugin_state (entry_id e) m' = plugin_state (entry_id e) (snd (load_entry pf now e m2))"
      "entry_id e \<notin> entry_id ` set xs \<longrightarrow> plugin_state (entry_id e) m2 = plugin_state (entry_id e) ?m" by blast
  moreover have "plugin_state (entry_id e) ?m = plugin_state (entry_id e) m" if "entry_id e \<noteq> entry_id x"
    using load_entry_cases [of pf "clock n" x m] l that by simp
  ultimately show ?case by (intro exI [of _ now] exI [of _ m2]) simp
qed

subsection \<open>Registration\<close>

lemma split_duplicates_parts:
  "split_duplicates seen es = (us, ds) \<Longrightarrow>
     entry_id ` set us = entry_id ` set es - seen \<and> distinct (map entry_id us) \<and>
     mset es = mset us + mset ds"
proof (induction es arbitrary: seen us ds)
  case Nil
  then show ?case by simp
next
  case (Cons e es)
  show ?case
  proof (cases "entry_id e \<in> seen")
    case True
    obtain us1 ds1 where s: "split_duplicates seen es = (us1, ds1)" by force
    with Cons.prems True have "us = us1" "ds = e # ds1" by auto
    with Cons.IH [OF s] True show ?thesis by auto
  next
    case False
    obtain us1 ds1 where s: "split_duplicates (insert (entry_id e) seen) es = (us1, ds1)" by force
    with Cons.prems False have "us = e # us1" "ds = ds1" by auto
    with Cons.IH [OF s] False show ?thesis by auto
  qed
qed

lemma split_duplicates_late:
  "split_duplicates seen (xs @ e # ys) = (us, ds) \<Longrightarrow> entry_id e \<in> seen \<or> entry_id e \<in> entry_id ` set xs \<Longrightarrow>
     e \<in> set ds"
  by (induction xs arbitrary: seen us ds) (fastforce split: prod.splits if_splits)+

lemma split_duplicates_distinct:
  "distinct (map entry_id es) \<Longrightarrow> entry_id ` set es \<inter> seen = {} \<Longrightarrow> split_duplicates seen es = (es, [])"
  by (induction es arbitrary: seen) auto

lemma register_entries_fresh:
  "distinct (map entry_id es) \<Longrightarrow> \<forall>e \<in> set es. get_plugin (entry_id e) reg = None \<Longrightarrow>
     register_entries clock n es reg = (ids, fs, reg') \<Longrightarrow>
     ids = map entry_id es \<and> fs = [] \<and>
     (\<forall>j. get_plugin j reg' = None \<longleftrightarrow> get_plugin j reg = None \<and> j \<notin> entry_id ` set es)"
proof (induction es arbitrary: n reg ids fs reg')
  case Nil
  then show ?case by simp
next
  case (Cons e es)
  let ?p = "placeholder (de_manifest e)"
  have i: "man_id (manifest ?p) = entry_id e" by (simp add: placeholder_def)
  obtain x reg1 where r: "register_plugin (clock n) ?p reg = (x, reg1)" by force
  have "x = Inr ()" using register_accepts [of "clock n" ?p reg] r Cons.prems(2) i by simp
  have g: "get_plugin j reg1 = (if j = entry_id e then Some (createRecord (clock n) ?p) else get_plugin j reg)" for j
    using register_get [of j "clock n" ?p reg] r Cons.prems(2) i by auto
  obtain ids1 fs1 reg2 where rs: "register_entries clock (Suc n) es reg1 = (ids1, fs1, reg2)"
    by (metis prod_cases3)
  have fresh: "\<forall>e \<in> set es. get_plugin (entry_id e) reg1 = None"
  proof
    fix d assume "d \<in> set es"
    moreover have "entry_id e \<notin> entry_id ` set es" using Cons.prems(1) by simp
    ultimately have "entry_id d \<noteq> entry_id e" by (metis imageI)
    then show "get_plugin (entry_id d) reg1 = None" using g Cons.prems(2) \<open>d \<in> set es\<close> by simp
  qed
  have "distinct (map entry_id es)" using Cons.prems(1) by simp
  from Cons.IH [OF this fresh rs] show ?case using Cons.prems(3) r rs g \<open>x = Inr ()\<close> by auto
qed

subsection \<open>Loading everything\<close>

lemma loadAll_parts:
  assumes "loadAll pf clock entries m = (ls, fs, m')"
  obtains us ds ids fs1 reg fs2 where
    "split_duplicates {} (filter (compatible pf) entries) = (us, ds)"
    "register_entries clock 0 us (pm_registry m) = (ids, fs1, reg)"
    "load_entries pf clock (length entries) ids entries (m\<lparr>pm_registry := reg\<rparr>) = (ls, fs2, m')"
    "fs = incompatible_failures pf entries @ map duplicate_failure ds @ fs1 @ fs2"
  using assms by (auto simp: loadAll_def registerValidPlugins_def split: prod.splits)

text \<open>
  An entry that is refused as a duplicate is loaded all the same, and replaces the plugin
  that was loaded before it. When an earlier compatible entry has the same id and no later one has,
  the result lists the duplicate as failed and its id as loaded, and the registry holds the
  duplicate's plugin.
\<close>

theorem refused_duplicate_replaces:
  assumes "loadAll pf clock (xs @ e # ys) m = (ls, fs, m')"
    and "e1 \<in> set xs" and "entry_id e1 = entry_id e" and "entry_id e \<notin> entry_id ` set ys"
    and "compatible pf e1" and "compatible pf e"
    and "\<forall>d \<in> set (xs @ e # ys). get_plugin (entry_id d) (pm_registry m) = None"
    and "entry_outcome pf e = Inr p"
  shows "duplicate_failure e \<in> set fs \<and> entry_id e \<in> set ls \<and>
    plugin_state (entry_id e) m' = Some (p, INITIALIZED)"
proof -
  obtain us ds ids fs1 reg fs2 where s: "split_duplicates {} (filter (compatible pf) (xs @ e # ys)) = (us, ds)"
    and r: "register_entries clock 0 us (pm_registry m) = (ids, fs1, reg)"
    and l: "load_entries pf clock (length (xs @ e # ys)) ids (xs @ e # ys) (m\<lparr>pm_registry := reg\<rparr>) = (ls, fs2, m')"
    and fs: "fs = incompatible_failures pf (xs @ e # ys) @ map duplicate_failure ds @ fs1 @ fs2"
    by (rule loadAll_parts [OF assms(1)])
  note sp = split_duplicates_parts [OF s]
  have "entry_id e \<in> entry_id ` set (filter (compatible pf) xs)"
    using assms(2,3,5) by (auto intro!: image_eqI [of _ _ e1])
  then have dup: "e \<in> set ds"
    using split_duplicates_late [of "{}" "filter (compatible pf) xs" e "filter (compatible pf) ys" us ds]
      s assms(6) by simp
  have "entry_id e \<in> entry_id ` set us" using sp assms(6) by auto
  moreover have "\<forall>d \<in> set us. get_plugin (entry_id d) (pm_registry m) = None"
  proof
    fix d assume "d \<in> set us"
    then have "d \<in># mset us + mset ds" by simp
    then have "d \<in># mset (filter (compatible pf) (xs @ e # ys))" using sp by simp
    then have "d \<in> set (filter (compatible pf) (xs @ e # ys))" by (simp only: set_mset_mset)
    then show "get_plugin (entry_id d) (pm_registry m) = None" using assms(7) by (simp only: set_filter) blast
  qed
  ultimately have ids: "entry_id e \<in> set ids"
    using register_entries_fresh [OF _ _ r] sp by auto
  have load: "load_module (import_module pf) (de_manifest e) (module_path e) = Inr p"
    using assms(8) by (auto simp: entry_outcome_def split: sum.splits option.splits)
  from load_entries_last [OF l ids assms(4)] obtain now m1
    where "plugin_state (entry_id e) m' = plugin_state (entry_id e) (snd (load_entry pf now e m1))" by blast
  then have "plugin_state (entry_id e) m' = Some (p, INITIALIZED)"
    using load_entry_cases [of pf now e m1] load assms(8) by simp
  moreover have "entry_id e \<in> set ls"
    using load_entries_result [OF l] ids assms(8) by (auto simp: succeeds_def)
  ultimately show ?thesis using dup fs by simp
qed

text \<open>The failures of loading and of the version check, as multisets of ids.\<close>

lemma failure_ids:
  "mset (map lf_pluginId (load_failures pf es)) =
     image_mset (\<lambda>e. Some (entry_id e)) (mset (filter (\<lambda>e. \<not> succeeds pf e) es))"
  "mset (map lf_pluginId (incompatible_failures pf es)) =
     image_mset (\<lambda>e. Some (entry_id e)) (mset (filter (\<lambda>e. \<not> compatible pf e) es))"
  by (induction es) (auto simp: load_failures_def succeeds_def failed_entry_def incompatible_failures_def
      split: sum.split)

lemma filter_two_reasons:
  "mset (filter (\<lambda>e. \<not> (P e \<and> Q e)) es) =
     mset (filter (\<lambda>e. \<not> P e) es) + mset (filter (\<lambda>e. \<not> Q e) (filter P es))"
  by (induction es) (auto simp del: mset_filter)

text \<open>What loading leaves of an entry whose id no other entry has.\<close>

lemma load_entries_state:
  assumes "load_entries pf clock n ids entries m = (ls, fs, m')" and "distinct (map entry_id entries)"
    and "e \<in> set entries" and "entry_id e \<in> set ids \<longleftrightarrow> get_plugin (entry_id e) (pm_registry m) \<noteq> None"
  shows "if entry_id e \<in> set ids
    then (case entry_outcome pf e of
        Inr p \<Rightarrow> plugin_state (entry_id e) m' = Some (p, INITIALIZED)
      | Inl _ \<Rightarrow> phase_in (entry_id e) m' = Some FAILED)
    else get_plugin (entry_id e) (pm_registry m') = None"
proof (cases "entry_id e \<in> set ids")
  case False
  then have "plugin_state (entry_id e) m' = plugin_state (entry_id e) m"
    using load_entries_other [OF _ assms(1)] by blast
  then show ?thesis using False assms(4) by simp
next
  case True
  obtain xs ys where es: "entries = xs @ e # ys" using assms(3) by (meson split_list)
  have "entry_id e \<notin> entry_id ` set ys" "entry_id e \<notin> entry_id ` set xs"
    using assms(2) by (auto simp: es)
  then obtain now m1
    where st: "plugin_state (entry_id e) m' = plugin_state (entry_id e) (snd (load_entry pf now e m1))"
      "plugin_state (entry_id e) m1 = plugin_state (entry_id e) m"
    using load_entries_last [OF assms(1) [unfolded es] True] by blast
  obtain x where "plugin_state (entry_id e) m1 = Some x" using st(2) assms(4) True by auto
  then show ?thesis
    using True st(1) load_entry_cases [of pf now e m1]
    by (auto simp: phase_in_def entry_outcome_def split: sum.splits option.splits)
qed

text \<open>
  Loading plugins with different ids into an empty registry handles each entry on its own.
  The loaded ones are the compatible entries whose module loads with a valid configuration, in
  the order of discovery, and every other entry is reported as failed once; a loaded plugin
  is the module's and initialized, a compatible one that fails is FAILED, an incompatible
  one is not registered.
\<close>

theorem distinct_entries_load_independently:
  assumes "loadAll pf clock entries (createPluginLifecycleManager createPluginRegistry) = (ls, fs, m')"
    and "distinct (map entry_id entries)"
  shows "ls = map entry_id (filter (\<lambda>e. compatible pf e \<and> succeeds pf e) entries) \<and>
    mset (map lf_pluginId fs) =
      image_mset (\<lambda>e. Some (entry_id e)) (mset (filter (\<lambda>e. \<not> (compatible pf e \<and> succeeds pf e)) entries)) \<and>
    (\<forall>e \<in> set entries. \<not> compatible pf e \<longrightarrow> get_plugin (entry_id e) (pm_registry m') = None) \<and>
    (\<forall>e \<in> set entries. compatible pf e \<longrightarrow>
       (case entry_outcome pf e of
          Inr p \<Rightarrow> plugin_state (entry_id e) m' = Some (p, INITIALIZED)
        | Inl _ \<Rightarrow> phase_in (entry_id e) m' = Some FAILED))"
proof -
  let ?m = "createPluginLifecycleManager createPluginRegistry" and ?cs = "filter (compatible pf) entries"
  have none: "get_plugin j (pm_registry ?m) = None" for j
    by (simp add: createPluginLifecycleManager_def createPluginRegistry_def get_plugin_def)
  obtain us ds ids fs1 reg fs2 where s: "split_duplicates {} ?cs = (us, ds)"
    and r: "register_entries clock 0 us (pm_registry ?m) = (ids, fs1, reg)"
    and l: "load_entries pf clock (length entries) ids entries (?m\<lparr>pm_registry := reg\<rparr>) = (ls, fs2, m')"
    and fs: "fs = incompatible_failures pf entries @ map duplicate_failure ds @ fs1 @ fs2"
    by (rule loadAll_parts [OF assms(1)])
  have "us = ?cs" "ds = []"
    using split_duplicates_distinct [of ?cs "{}"] assms(2) s by (auto simp: distinct_map_filter)
  with register_entries_fresh [OF _ _ r] none assms(2)
  have ids: "ids = map entry_id ?cs" and "fs1 = []"
    and reg: "\<forall>j. get_plugin j reg = None \<longleftrightarrow> j \<notin> entry_id ` set ?cs"
    by (auto simp: distinct_map_filter)
  have inj: "entry_id d = entry_id e \<Longrightarrow> d \<in> set entries \<Longrightarrow> e \<in> set entries \<Longrightarrow> d = e" for d e
    using assms(2) by (auto simp: distinct_map inj_on_def)
  have mem: "entry_id e \<in> set ids \<longleftrightarrow> compatible pf e" if "e \<in> set entries" for e
    using that inj by (auto simp: ids)
  have ls: "ls = map entry_id (filter (\<lambda>e. compatible pf e \<and> succeeds pf e) entries)"
    and fs2: "fs2 = load_failures pf ?cs"
    using load_entries_result [OF l] mem by (auto cong: filter_cong)
  have fsm: "mset (map lf_pluginId fs) =
      image_mset (\<lambda>e. Some (entry_id e)) (mset (filter (\<lambda>e. \<not> (compatible pf e \<and> succeeds pf e)) entries))"
    using failure_ids(2) [of pf entries] failure_ids(1) [of pf ?cs] unfolding filter_two_reasons
    by (simp add: fs fs2 \<open>ds = []\<close> \<open>fs1 = []\<close> del: mset_filter filter_filter)
  have state: "if compatible pf e
    then (case entry_outcome pf e of
        Inr p \<Rightarrow> plugin_state (entry_id e) m' = Some (p, INITIALIZED)
      | Inl _ \<Rightarrow> phase_in (entry_id e) m' = Some FAILED)
    else get_plugin (entry_id e) (pm_registry m') = None" if e: "e \<in> set entries" for e
    using load_entries_state [OF l assms(2) e] mem [OF e] reg ids by (auto simp del: not_None_eq)
  from ls fsm state show ?thesis by auto
qed

subsection \<open>A platform on concrete modules\<close>

definition sample_module :: "string \<Rightarrow> module_exports" where
  "sample_module i =
     (let c = \<lparr>ca_manifest = Some \<lparr>ml_id = Some i, ml_name = Some ''N'', ml_version = Some ''1.0.0'',
            ml_rest = manifest_for i ''1.0.0'' []\<rparr>,
          ca_initialize = Some (\<lambda>_. Hook_throws ''never called''), ca_start = Some (\<lambda>_. Ok_result),
          ca_stop = Some (\<lambda>_. Ok_result), ca_dispose = Some (\<lambda>_. Ok_result)\<rparr>
      in \<lparr>me_default = Some (An_object c), me_namespace = c\<rparr>)"

definition sample_platform :: platform where
  "sample_platform = \<lparr>pp_agentOSVersion = ''1.2.0'', pp_globalConfig = None, pp_envOverrides = None,
     import_module = (\<lambda>path. if path = ''/c/dist/index.js'' then Inl ''no such file''
       else Inr (sample_module ''p'')), message_text = (\<lambda>_. [])\<rparr>"

definition sample_entry :: "string \<Rightarrow> string \<Rightarrow> discovery_entry" where
  "sample_entry i source = \<lparr>de_manifest = manifest_for i ''1.0.0'' [], de_source = source\<rparr>"

definition module_plugin :: agent_plugin where
  "module_plugin = \<lparr>manifest = manifest_for ''p'' ''1.0.0'' [], plugin_initialize = (\<lambda>_. Hook_throws ''never called''),
     plugin_start = (\<lambda>_. Ok_result), plugin_stop = (\<lambda>_. Ok_result), plugin_dispose = (\<lambda>_. Ok_result)\<rparr>"

lemma sample_compatible: "compatible sample_platform (sample_entry i source)"
proof -
  have "parseSemver ''1.2.0'' = Some \<lparr>major = 1, minor = 2, patch = 0\<rparr>" by code_simp
  then show ?thesis
    by (simp add: compatible_def sample_platform_def sample_entry_def manifest_for_def
        validateAgentOSCompatibility_def)
qed

lemma sample_outcome:
  "entry_outcome sample_platform (sample_entry ''p'' ''/a'') = Inr module_plugin"
  "entry_outcome sample_platform (sample_entry ''p'' ''/b'') = Inr module_plugin"
  "entry_outcome sample_platform (sample_entry ''q'' ''/c'') =
     Inl (''Failed to import plugin module '' @ quoted ''/c/dist/index.js'' @ '': no such file'')"
  by (simp_all add: entry_outcome_def sample_entry_def sample_platform_def sample_module_def load_module_def
      module_path_def manifest_for_def config_problem_def module_plugin_def Let_def)

lemma empty_manager [simp]: "get_plugin j (pm_registry (createPluginLifecycleManager createPluginRegistry)) = None"
  by (simp add: createPluginLifecycleManager_def createPluginRegistry_def get_plugin_def)

theorem refused_duplicate_replaces_witness:
  "let a = sample_entry ''p'' ''/a''; b = sample_entry ''p'' ''/b'';
       (ls, fs, m') = loadAll sample_platform (\<lambda>_. 0) [a, b] (createPluginLifecycleManager createPluginRegistry)
   in duplicate_failure b \<in> set fs \<and> ''p'' \<in> set ls \<and> plugin_state ''p'' m' = Some (module_plugin, INITIALIZED)"
proof -
  let ?a = "sample_entry ''p'' ''/a''" and ?b = "sample_entry ''p'' ''/b''"
  have i: "entry_id (sample_entry ''p'' x) = ''p''" for x by (simp add: sample_entry_def manifest_for_def)
  obtain ls fs m' where l: "loadAll sample_platform (\<lambda>_. 0) ([?a] @ ?b # [])
      (createPluginLifecycleManager createPluginRegistry) = (ls, fs, m')" by (metis prod_cases3)
  have "duplicate_failure ?b \<in> set fs \<and> entry_id ?b \<in> set ls \<and>
      plugin_state (entry_id ?b) m' = Some (module_plugin, INITIALIZED)"
    by (rule refused_duplicate_replaces [OF l, of ?a])
      (simp_all add: i sample_compatible sample_outcome)
  with l show ?thesis by (simp add: i)
qed

theorem distinct_entries_load_independently_witness:
  "case loadAll sample_platform (\<lambda>_. 0) [sample_entry ''q'' ''/c'', sample_entry ''p'' ''/a'']
       (createPluginLifecycleManager createPluginRegistry) of
     (ls, fs, m') \<Rightarrow> ls = [''p''] \<and> map lf_pluginId fs = [Some ''q''] \<and> phase_in ''q'' m' = Some FAILED"
proof -
  let ?q = "sample_entry ''q'' ''/c''" and ?p = "sample_entry ''p'' ''/a''"
  have i: "entry_id (sample_entry j x) = j" for j x by (simp add: sample_entry_def manifest_for_def)
  obtain ls fs m' where l: "loadAll sample_platform (\<lambda>_. 0) [?q, ?p]
      (createPluginLifecycleManager createPluginRegistry) = (ls, fs, m')" by (metis prod_cases3)
  have "distinct (map entry_id [?q, ?p])" by (simp add: i)
  note d = distinct_entries_load_independently [OF l this]
  have "succeeds sample_platform ?p" "\<not> succeeds sample_platform ?q"
    by (simp_all add: succeeds_def sample_outcome)
  with d have r: "ls = [''p''] \<and> image_mset lf_pluginId (mset fs) = {#Some ''q''#} \<and> phase_in ''q'' m' = Some FAILED"
    by (simp add: i sample_compatible sample_outcome)
  then have "mset (map lf_pluginId fs) = {#Some ''q''#}" by (simp only: mset_map)
  then have "map lf_pluginId fs = [Some ''q'']" by (simp only: mset_single_iff)
  with r l show ?thesis by simp
qed

end
