(* ===== verification/GraphStore.thy ===== *)
theory GraphStore
  imports JsObjects
begin

text \<open>
  The knowledge graph (packages/graphiti/src): its data (GraphTypes.ts, GraphitiProvider.ts) and
  the provider in memory (InMemoryGraphiti.ts) with its two indices from a node to the
  identifiers of its edges. Handlers are known by an identity; \<open>gr_delivered\<close> records the
  calls they get, whose exceptions are swallowed. The text \<open>JSON.stringify\<close> gives a properties
  object is the parameter \<open>text_of\<close>. The search for paths is in the theory GraphStoreFacts.
\<close>

subsection \<open>Data\<close>

datatype node_type =
    N_agent | N_goal | N_plan | N_step | N_tool | N_skill | N_memory | N_execution | N_mission
  | N_plugin | N_model | N_log | N_entity

datatype edge_type =
    E_executes | E_uses | E_achieves | E_depends_on | E_contains | E_produces | E_consumes
  | E_triggers | E_references | E_extends | E_related_to

record graph_node =
  gn_id :: string
  gn_type :: node_type
  gn_label :: string
  gn_properties :: "(string, jsval) jmap"
  gn_createdAt :: instant
  gn_updatedAt :: instant

record graph_edge =
  ge_id :: string
  ge_type :: edge_type
  ge_sourceId :: string
  ge_targetId :: string
  ge_weight :: rat
  ge_properties :: "(string, jsval) jmap"
  ge_createdAt :: instant

record graph_query =
  gq_nodeTypes :: "node_type list option"
  gq_edgeTypes :: "edge_type list option"
  gq_labels :: "string list option"
  gq_properties :: "(string, jsval) jmap option"
  gq_limit :: "int option"
  gq_offset :: "int option"

record graph_search_query =
  gs_text :: string
  gs_nodeTypes :: "node_type list option"
  gs_limit :: "int option"

record graph_stats =
  nodeCount :: nat
  edgeCount :: nat
  nodesByType :: "(node_type, nat) jmap"
  edgesByType :: "(edge_type, nat) jmap"

datatype change_type = Node_added | Node_updated | Node_removed | Edge_added | Edge_removed

record graph_change =
  gc_type :: change_type
  gc_timestamp :: instant
  gc_nodeId :: "string option"
  gc_edgeId :: "string option"

record graphiti =
  gr_nodes :: "(string, graph_node) jmap"
  gr_edges :: "(string, graph_edge) jmap"
  gr_outgoing :: "(string, string list) jmap"
  gr_incoming :: "(string, string list) jmap"
  gr_handlers :: "nat list"
  gr_changes :: "graph_change list"
  gr_delivered :: "(nat \<times> graph_change) list"
  gr_nodeCounter :: nat
  gr_edgeCounter :: nat

definition new_graph :: graphiti where
  "new_graph = \<lparr>gr_nodes = [], gr_edges = [], gr_outgoing = [], gr_incoming = [], gr_handlers = [],
     gr_changes = [], gr_delivered = [], gr_nodeCounter = 0, gr_edgeCounter = 0\<rparr>"

subsection \<open>Changes\<close>

definition graph_emit :: "graph_change \<Rightarrow> graphiti \<Rightarrow> graphiti" where
  "graph_emit c g = g\<lparr>gr_delivered := gr_delivered g @ map (\<lambda>h. (h, c)) (gr_handlers g)\<rparr>"

text \<open>Every mutation appends its change to the list and then emits it.\<close>

definition record_change :: "graph_change \<Rightarrow> graphiti \<Rightarrow> graphiti" where
  "record_change c g = graph_emit c (g\<lparr>gr_changes := gr_changes g @ [c]\<rparr>)"

definition node_change :: "change_type \<Rightarrow> instant \<Rightarrow> string \<Rightarrow> graph_change" where
  "node_change t now i = \<lparr>gc_type = t, gc_timestamp = now, gc_nodeId = Some i, gc_edgeId = None\<rparr>"

definition edge_change :: "change_type \<Rightarrow> instant \<Rightarrow> string \<Rightarrow> graph_change" where
  "edge_change t now i = \<lparr>gc_type = t, gc_timestamp = now, gc_nodeId = None, gc_edgeId = Some i\<rparr>"

subsection \<open>Nodes and edges\<close>

definition addNode :: "instant \<Rightarrow> graph_node \<Rightarrow> graphiti \<Rightarrow> graph_node \<times> graphiti" where
  "addNode now node g =
     (let full = node\<lparr>gn_createdAt := now, gn_updatedAt := now\<rparr>;
          g1 = g\<lparr>gr_nodes := jm_set (gn_id full) full (gr_nodes g)\<rparr>;
          g2 = record_change (node_change Node_added now (gn_id full)) g1
      in (full, g2\<lparr>gr_nodeCounter := gr_nodeCounter g2 + 1\<rparr>))"

definition getNode :: "string \<Rightarrow> graphiti \<Rightarrow> graph_node option" where
  "getNode i g = jm_get (gr_nodes g) i"

definition merge_properties :: "(string, jsval) jmap \<Rightarrow> (string, jsval) jmap \<Rightarrow> (string, jsval) jmap" where
  "merge_properties a b = fold (\<lambda>(k, v). jm_set k v) b a"

definition updateNode :: "instant \<Rightarrow> string \<Rightarrow> (string, jsval) jmap \<Rightarrow> graphiti
    \<Rightarrow> graph_node option \<times> graphiti" where
  "updateNode now i props g = (case jm_get (gr_nodes g) i of
     None \<Rightarrow> (None, g)
   | Some existing \<Rightarrow>
       (let updated = existing\<lparr>gn_properties := merge_properties (gn_properties existing) props, gn_updatedAt := now\<rparr>
        in (Some updated, record_change (node_change Node_updated now i)
              (g\<lparr>gr_nodes := jm_set i updated (gr_nodes g)\<rparr>))))"

text \<open>A push on the array of a key, which is made when absent.\<close>

definition push_on :: "string \<Rightarrow> string \<Rightarrow> (string, string list) jmap \<Rightarrow> (string, string list) jmap" where
  "push_on k x m = jm_set k (override [] (jm_get m k) @ [x]) m"

text \<open>Removing the first occurrence of a member from the array of a key.\<close>

definition splice_from :: "string \<Rightarrow> string \<Rightarrow> (string, string list) jmap \<Rightarrow> (string, string list) jmap" where
  "splice_from k x m = (case jm_get m k of None \<Rightarrow> m | Some xs \<Rightarrow> jm_set k (remove1 x xs) m)"

definition addEdge :: "instant \<Rightarrow> graph_edge \<Rightarrow> graphiti \<Rightarrow> graph_edge \<times> graphiti" where
  "addEdge now edge g =
     (let full = edge\<lparr>ge_createdAt := now\<rparr>;
          g1 = g\<lparr>gr_edges := jm_set (ge_id full) full (gr_edges g),
                 gr_outgoing := push_on (ge_sourceId full) (ge_id full) (gr_outgoing g),
                 gr_incoming := push_on (ge_targetId full) (ge_id full) (gr_incoming g)\<rparr>;
          g2 = record_change (edge_change Edge_added now (ge_id full)) g1
      in (full, g2\<lparr>gr_edgeCounter := gr_edgeCounter g2 + 1\<rparr>))"

definition getEdge :: "string \<Rightarrow> graphiti \<Rightarrow> graph_edge option" where
  "getEdge i g = jm_get (gr_edges g) i"

definition removeEdge :: "instant \<Rightarrow> string \<Rightarrow> graphiti \<Rightarrow> bool \<times> graphiti" where
  "removeEdge now i g = (case jm_get (gr_edges g) i of
     None \<Rightarrow> (False, g)
   | Some edge \<Rightarrow> (True, record_change (edge_change Edge_removed now i)
       (g\<lparr>gr_edges := jm_delete i (gr_edges g),
          gr_outgoing := splice_from (ge_sourceId edge) i (gr_outgoing g),
          gr_incoming := splice_from (ge_targetId edge) i (gr_incoming g)\<rparr>)))"

text \<open>The k-th removal of an edge reads \<open>clock k\<close>, the removal of the node itself the next.\<close>

definition remove_edges :: "(nat \<Rightarrow> instant) \<Rightarrow> string list \<Rightarrow> graphiti \<Rightarrow> graphiti" where
  "remove_edges clock is g = fold (\<lambda>(k, i) g. snd (removeEdge (clock k) i g)) (enumerate 0 is) g"

definition removeNode :: "(nat \<Rightarrow> instant) \<Rightarrow> string \<Rightarrow> graphiti \<Rightarrow> bool \<times> graphiti" where
  "removeNode clock i g = (case jm_get (gr_nodes g) i of
     None \<Rightarrow> (False, g)
   | Some _ \<Rightarrow>
       (let connected = override [] (jm_get (gr_outgoing g) i) @ override [] (jm_get (gr_incoming g) i);
            g1 = remove_edges clock connected g
        in (True, record_change (node_change Node_removed (clock (length connected)) i)
              (g1\<lparr>gr_nodes := jm_delete i (gr_nodes g1),
                  gr_outgoing := jm_delete i (gr_outgoing g1),
                  gr_incoming := jm_delete i (gr_incoming g1)\<rparr>))))"

datatype direction = Outgoing | Incoming | Both

definition edges_of_ids :: "graphiti \<Rightarrow> string list option \<Rightarrow> graph_edge list" where
  "edges_of_ids g is = concat (map (\<lambda>i. case jm_get (gr_edges g) i of None \<Rightarrow> [] | Some e \<Rightarrow> [e])
     (override [] is))"

definition getEdges :: "string \<Rightarrow> direction \<Rightarrow> graphiti \<Rightarrow> graph_edge list" where
  "getEdges n d g =
     (if d = Outgoing \<or> d = Both then edges_of_ids g (jm_get (gr_outgoing g) n) else []) @
     (if d = Incoming \<or> d = Both then edges_of_ids g (jm_get (gr_incoming g) n) else [])"

subsection \<open>Queries, statistics and events\<close>

definition keep_when :: "'a list option \<Rightarrow> ('b \<Rightarrow> 'a) \<Rightarrow> 'b list \<Rightarrow> 'b list" where
  "keep_when allowed f xs = (case allowed of
     Some (a # as) \<Rightarrow> filter (\<lambda>x. f x \<in> set (a # as)) xs
   | _ \<Rightarrow> xs)"

definition queryNodes :: "graph_query \<Rightarrow> graphiti \<Rightarrow> graph_node list" where
  "queryNodes q g =
     (let r1 = keep_when (gq_nodeTypes q) gn_type (jm_values (gr_nodes g));
          r2 = keep_when (gq_labels q) gn_label r1;
          r3 = (case gq_properties q of
                  None \<Rightarrow> r2
                | Some ps \<Rightarrow> filter (\<lambda>n. list_all (\<lambda>(k, v). strict_equal (js_get (gn_properties n) k) v) ps) r2);
          offset = override 0 (gq_offset q);
          limit = override (int (length r3)) (gq_limit q)
      in slice_str offset (offset + limit) r3)"

definition searchNodes :: "((string, jsval) jmap \<Rightarrow> string) \<Rightarrow> graph_search_query \<Rightarrow> graphiti \<Rightarrow> graph_node list" where
  "searchNodes text_of q g =
     (let text = toLowerCase (gs_text q);
          r1 = filter (\<lambda>n. includes_str (toLowerCase (gn_label n)) text \<or>
                 includes_str (toLowerCase (text_of (gn_properties n))) text) (jm_values (gr_nodes g));
          r2 = keep_when (gs_nodeTypes q) gn_type r1
      in slice_str 0 (override (int (length r2)) (gs_limit q)) r2)"

definition count_type :: "'t \<Rightarrow> ('t, nat) jmap \<Rightarrow> ('t, nat) jmap" where
  "count_type t m = jm_set t (override 0 (jm_get m t) + 1) m"

definition getStats :: "graphiti \<Rightarrow> graph_stats" where
  "getStats g = \<lparr>nodeCount = length (gr_nodes g), edgeCount = length (gr_edges g),
     nodesByType = fold (\<lambda>n. count_type (gn_type n)) (jm_values (gr_nodes g)) [],
     edgesByType = fold (\<lambda>e. count_type (ge_type e)) (jm_values (gr_edges g)) []\<rparr>"

definition getChanges :: "int option \<Rightarrow> graphiti \<Rightarrow> graph_change list" where
  "getChanges limit g = slice_str (- override 50 limit) (int (length (gr_changes g))) (gr_changes g)"

definition onChange :: "nat \<Rightarrow> graphiti \<Rightarrow> graphiti" where
  "onChange h g = g\<lparr>gr_handlers := gr_handlers g @ [h]\<rparr>"

definition offChange :: "nat \<Rightarrow> graphiti \<Rightarrow> graphiti" where
  "offChange h g = g\<lparr>gr_handlers := remove1 h (gr_handlers g)\<rparr>"

definition clear_graph :: "graphiti \<Rightarrow> graphiti" where
  "clear_graph g = g\<lparr>gr_nodes := [], gr_edges := [], gr_outgoing := [], gr_incoming := [],
     gr_changes := [], gr_nodeCounter := 0, gr_edgeCounter := 0\<rparr>"

definition getNodeCount :: "graphiti \<Rightarrow> nat" where
  "getNodeCount g = length (gr_nodes g)"

definition getEdgeCount :: "graphiti \<Rightarrow> nat" where
  "getEdgeCount g = length (gr_edges g)"

lemma record_change_simps [simp]:
  "gr_nodes (record_change c g) = gr_nodes g" "gr_edges (record_change c g) = gr_edges g"
  "gr_outgoing (record_change c g) = gr_outgoing g" "gr_incoming (record_change c g) = gr_incoming g"
  "gr_changes (record_change c g) = gr_changes g @ [c]" "gr_handlers (record_change c g) = gr_handlers g"
  by (simp_all add: record_change_def graph_emit_def)

text \<open>The counts by type are the numbers of nodes and edges of each type.\<close>

lemma fold_count_type:
  "override 0 (jm_get (fold (\<lambda>x. count_type (f x)) xs m) t) =
     override 0 (jm_get m t) + length (filter (\<lambda>x. f x = t) xs)"
  by (induction xs arbitrary: m) (auto simp: count_type_def jm_get_set)

lemma stats_by_type:
  "override 0 (jm_get (nodesByType (getStats g)) t) = length (filter (\<lambda>n. gn_type n = t) (jm_values (gr_nodes g)))"
  "override 0 (jm_get (edgesByType (getStats g)) u) = length (filter (\<lambda>e. ge_type e = u) (jm_values (gr_edges g)))"
  by (simp_all add: getStats_def fold_count_type)

end
