(* ===== verification/GraphStoreFacts.thy ===== *)
theory GraphStoreFacts
  imports GraphStore
begin

text \<open>
  The interface of graph providers (GraphitiProvider.ts) as a locale, over an abstract graph of
  two partial maps, and the provider in memory as an instance: its indices list exactly the
  edges of each node as long as an edge identifier in use is not added again.
\<close>

subsection \<open>Abstract graphs\<close>

type_synonym abstract_graph = "(string \<rightharpoonup> graph_node) \<times> (string \<rightharpoonup> graph_edge)"

datatype graph_command =
    Add_node instant graph_node
  | Update_node instant string "(string, jsval) jmap"
  | Remove_node "nat \<Rightarrow> instant" string
  | Add_edge instant graph_edge
  | Remove_edge instant string

definition touches :: "string \<Rightarrow> graph_edge \<Rightarrow> bool" where
  "touches n e \<longleftrightarrow> ge_sourceId e = n \<or> ge_targetId e = n"

fun abstract_graph_step :: "graph_command \<Rightarrow> abstract_graph \<Rightarrow> abstract_graph" where
  "abstract_graph_step (Add_node now n) (ns, es) =
     (ns(gn_id n \<mapsto> n\<lparr>gn_createdAt := now, gn_updatedAt := now\<rparr>), es)"
| "abstract_graph_step (Update_node now i ps) (ns, es) =
     (case ns i of None \<Rightarrow> (ns, es)
      | Some n \<Rightarrow> (ns(i \<mapsto> n\<lparr>gn_properties := merge_properties (gn_properties n) ps, gn_updatedAt := now\<rparr>), es))"
| "abstract_graph_step (Remove_node clock i) (ns, es) =
     (if ns i = None then (ns, es)
      else (ns(i := None), (\<lambda>j. case es j of Some e \<Rightarrow> if touches i e then None else Some e | None \<Rightarrow> None)))"
| "abstract_graph_step (Add_edge now e) (ns, es) = (ns, es(ge_id e \<mapsto> e\<lparr>ge_createdAt := now\<rparr>))"
| "abstract_graph_step (Remove_edge now i) (ns, es) = (ns, es(i := None))"

text \<open>Commands in which no edge identifier in use is added again.\<close>

fun fresh_edges :: "graph_command list \<Rightarrow> abstract_graph \<Rightarrow> bool" where
  "fresh_edges [] g = True"
| "fresh_edges (c # cs) g =
     ((case c of Add_edge now e \<Rightarrow> snd g (ge_id e) = None | _ \<Rightarrow> True) \<and>
      fresh_edges cs (abstract_graph_step c g))"

subsection \<open>The interface\<close>

record 'g graph_ops =
  op_addNode :: "instant \<Rightarrow> graph_node \<Rightarrow> 'g \<Rightarrow> 'g"
  op_updateNode :: "instant \<Rightarrow> string \<Rightarrow> (string, jsval) jmap \<Rightarrow> 'g \<Rightarrow> 'g"
  op_removeNode :: "(nat \<Rightarrow> instant) \<Rightarrow> string \<Rightarrow> 'g \<Rightarrow> 'g"
  op_addEdge :: "instant \<Rightarrow> graph_edge \<Rightarrow> 'g \<Rightarrow> 'g"
  op_removeEdge :: "instant \<Rightarrow> string \<Rightarrow> 'g \<Rightarrow> 'g"

fun graph_command_on :: "'g graph_ops \<Rightarrow> graph_command \<Rightarrow> 'g \<Rightarrow> 'g" where
  "graph_command_on ops (Add_node now n) g = op_addNode ops now n g"
| "graph_command_on ops (Update_node now i ps) g = op_updateNode ops now i ps g"
| "graph_command_on ops (Remove_node clock i) g = op_removeNode ops clock i g"
| "graph_command_on ops (Add_edge now e) g = op_addEdge ops now e g"
| "graph_command_on ops (Remove_edge now i) g = op_removeEdge ops now i g"

definition in_memory_graph_ops :: "graphiti graph_ops" where
  "in_memory_graph_ops = \<lparr>op_addNode = (\<lambda>now n g. snd (addNode now n g)),
     op_updateNode = (\<lambda>now i ps g. snd (updateNode now i ps g)),
     op_removeNode = (\<lambda>clock i g. snd (removeNode clock i g)),
     op_addEdge = (\<lambda>now e g. snd (addEdge now e g)),
     op_removeEdge = (\<lambda>now i g. snd (removeEdge now i g))\<rparr>"

locale graph_provider =
  fixes ok :: "'g \<Rightarrow> bool"
    and content :: "'g \<Rightarrow> abstract_graph"
    and ops :: "'g graph_ops"
    and incident :: "string \<Rightarrow> direction \<Rightarrow> 'g \<Rightarrow> graph_edge list"
  assumes command_law: "ok g \<Longrightarrow> fresh_edges [c] (content g) \<Longrightarrow>
      ok (graph_command_on ops c g) \<and> content (graph_command_on ops c g) = abstract_graph_step c (content g)"
    and outgoing_law: "ok g \<Longrightarrow> distinct (incident n Outgoing g) \<and>
      set (incident n Outgoing g) = {e \<in> ran (snd (content g)). ge_sourceId e = n}"
    and incoming_law: "ok g \<Longrightarrow> distinct (incident n Incoming g) \<and>
      set (incident n Incoming g) = {e \<in> ran (snd (content g)). ge_targetId e = n}"
    and both_law: "incident n Both g = incident n Outgoing g @ incident n Incoming g"
begin

lemma commands_refine:
  "ok g \<Longrightarrow> fresh_edges cs (content g) \<Longrightarrow>
     ok (fold (graph_command_on ops) cs g) \<and>
     content (fold (graph_command_on ops) cs g) = fold abstract_graph_step cs (content g)"
proof (induction cs arbitrary: g)
  case Nil
  then show ?case by simp
next
  case (Cons c cs)
  then have "fresh_edges [c] (content g)" by simp
  with command_law [OF Cons.prems(1)] have c: "ok (graph_command_on ops c g)"
    "content (graph_command_on ops c g) = abstract_graph_step c (content g)" by auto
  with Cons show ?case by simp
qed

lemma no_edges_at_removed_node:
  assumes "ok g" and "fst (content g) n \<noteq> None"
  shows "incident n d (op_removeNode ops clock n g) = []"
proof -
  let ?g = "op_removeNode ops clock n g"
  obtain ns es where g: "content g = (ns, es)" by fastforce
  have "ok ?g" and c: "content ?g = abstract_graph_step (Remove_node clock n) (content g)"
    using command_law [OF assms(1), of "Remove_node clock n"] by simp_all
  have none: "\<not> touches n e" if "e \<in> ran (snd (content ?g))" for e
    using that assms(2) by (auto simp: c g ran_def split: option.splits if_splits)
  have "set (incident n Outgoing ?g) = {}" using outgoing_law [OF \<open>ok ?g\<close>, of n] none
    by (simp add: touches_def)
  moreover have "set (incident n Incoming ?g) = {}" using incoming_law [OF \<open>ok ?g\<close>, of n] none
    by (simp add: touches_def)
  ultimately show ?thesis by (cases d) (simp_all add: both_law)
qed

end

subsection \<open>The provider in memory\<close>

abbreviation ids_at :: "(string, string list) jmap \<Rightarrow> string \<Rightarrow> string list" where
  "ids_at m n \<equiv> override [] (jm_get m n)"

text \<open>An index lists, for every node, the identifiers of the edges that \<open>f\<close> puts there.\<close>

definition indexes :: "(string, string list) jmap \<Rightarrow> (graph_edge \<Rightarrow> string) \<Rightarrow> (string, graph_edge) jmap \<Rightarrow> bool" where
  "indexes m f es \<longleftrightarrow> (\<forall>n. distinct (ids_at m n) \<and>
     set (ids_at m n) = {i. \<exists>e. jm_get es i = Some e \<and> f e = n})"

definition graph_inv :: "graphiti \<Rightarrow> bool" where
  "graph_inv g \<longleftrightarrow> (\<forall>i e. jm_get (gr_edges g) i = Some e \<longrightarrow> ge_id e = i) \<and>
     indexes (gr_outgoing g) ge_sourceId (gr_edges g) \<and> indexes (gr_incoming g) ge_targetId (gr_edges g)"

definition graph_content :: "graphiti \<Rightarrow> abstract_graph" where
  "graph_content g = (jm_get (gr_nodes g), jm_get (gr_edges g))"

lemma graph_inv_new: "graph_inv new_graph" "graph_content new_graph = (Map.empty, Map.empty)"
  by (auto simp: graph_inv_def new_graph_def indexes_def graph_content_def)

lemma ids_at_push: "ids_at (push_on k x m) n = (if n = k then ids_at m n @ [x] else ids_at m n)"
  by (simp add: push_on_def jm_get_set)

lemma ids_at_splice: "ids_at (splice_from k x m) n = (if n = k then remove1 x (ids_at m n) else ids_at m n)"
  by (auto simp: splice_from_def jm_get_set split: option.split)

lemma indexes_push:
  "indexes m f es \<Longrightarrow> jm_get es i = None \<Longrightarrow> f e = k \<Longrightarrow> indexes (push_on k i m) f (jm_set i e es)"
  by (auto simp: indexes_def ids_at_push jm_get_set)

lemma indexes_splice:
  "indexes m f es \<Longrightarrow> jm_get es i = Some e \<Longrightarrow> f e = k \<Longrightarrow> indexes (splice_from k i m) f (jm_delete i es)"
  by (auto simp: indexes_def ids_at_splice jm_get_delete set_remove1_eq)

lemma removeEdge_inv:
  assumes "graph_inv g"
  shows "graph_inv (snd (removeEdge now i g)) \<and>
    jm_get (gr_edges (snd (removeEdge now i g))) = (jm_get (gr_edges g))(i := None) \<and>
    gr_nodes (snd (removeEdge now i g)) = gr_nodes g"
proof (cases "jm_get (gr_edges g) i")
  case None
  then show ?thesis using assms by (auto simp: removeEdge_def)
next
  case (Some e)
  with assms show ?thesis
    by (auto simp: removeEdge_def graph_inv_def jm_get_delete indexes_splice fun_eq_iff)
qed

lemma remove_edges_inv:
  assumes "graph_inv g"
  shows "graph_inv (remove_edges clock is g) \<and>
    jm_get (gr_edges (remove_edges clock is g)) = jm_get (gr_edges g) |` (- set is) \<and>
    gr_nodes (remove_edges clock is g) = gr_nodes g"
proof -
  have "graph_inv (fold (\<lambda>(k, i) g. snd (removeEdge (clock k) i g)) (enumerate n is) g) \<and>
      jm_get (gr_edges (fold (\<lambda>(k, i) g. snd (removeEdge (clock k) i g)) (enumerate n is) g)) =
        jm_get (gr_edges g) |` (- set is) \<and>
      gr_nodes (fold (\<lambda>(k, i) g. snd (removeEdge (clock k) i g)) (enumerate n is) g) = gr_nodes g"
    if "graph_inv g" for n g
    using that
  proof (induction "is" arbitrary: n g)
    case Nil
    then show ?case by (simp add: restrict_map_def fun_eq_iff)
  next
    case (Cons i "is")
    note r = removeEdge_inv [OF Cons.prems, of "clock n" i]
    with Cons.IH [of "snd (removeEdge (clock n) i g)" "Suc n"] show ?case
      by (auto simp: restrict_map_def fun_eq_iff)
  qed
  then show ?thesis using assms by (simp add: remove_edges_def)
qed

lemma graph_command_law:
  assumes "graph_inv g" and "fresh_edges [c] (graph_content g)"
  shows "graph_inv (graph_command_on in_memory_graph_ops c g) \<and>
    graph_content (graph_command_on in_memory_graph_ops c g) = abstract_graph_step c (graph_content g)"
proof (cases c)
  case (Add_node now n)
  then show ?thesis using assms(1)
    by (auto simp: in_memory_graph_ops_def addNode_def Let_def graph_inv_def graph_content_def fun_eq_iff jm_get_set)
next
  case (Update_node now i ps)
  then show ?thesis using assms(1)
    by (auto simp: in_memory_graph_ops_def updateNode_def Let_def graph_inv_def graph_content_def fun_eq_iff
        jm_get_set split: option.split)
next
  case (Add_edge now e)
  then have "jm_get (gr_edges g) (ge_id e) = None" using assms(2) by (simp add: graph_content_def)
  with Add_edge assms(1) show ?thesis
    by (auto simp: in_memory_graph_ops_def addEdge_def Let_def graph_inv_def graph_content_def fun_eq_iff
        jm_get_set indexes_push)
next
  case (Remove_edge now i)
  with removeEdge_inv [OF assms(1), of now i] show ?thesis
    by (simp add: in_memory_graph_ops_def graph_content_def)
next
  case (Remove_node clock n)
  show ?thesis
  proof (cases "jm_get (gr_nodes g) n")
    case None
    with Remove_node assms(1) show ?thesis
      by (simp add: in_memory_graph_ops_def removeNode_def graph_content_def)
  next
    case (Some node)
    let ?ids = "ids_at (gr_outgoing g) n @ ids_at (gr_incoming g) n"
    let ?g = "remove_edges clock ?ids g"
    from assms(1) have ids: "set ?ids = {i. \<exists>e. jm_get (gr_edges g) i = Some e \<and> touches n e}"
      by (auto simp: graph_inv_def indexes_def touches_def)
    note r = remove_edges_inv [OF assms(1), of clock ?ids]
    then have es: "jm_get (gr_edges ?g) = (\<lambda>j. case jm_get (gr_edges g) j of
        Some e \<Rightarrow> if touches n e then None else Some e | None \<Rightarrow> None)"
      by (auto simp: ids restrict_map_def fun_eq_iff simp del: set_append split: option.split)
    have drop: "indexes (jm_delete n m) f (gr_edges ?g)" if "indexes m f (gr_edges ?g)" "\<And>e. f e = n \<Longrightarrow> touches n e" for m f
      using that by (auto simp: indexes_def jm_get_delete es split: option.splits if_splits)
    have "graph_inv (snd (removeNode clock n g)) \<and>
        jm_get (gr_nodes (snd (removeNode clock n g))) = (jm_get (gr_nodes g))(n := None) \<and>
        gr_edges (snd (removeNode clock n g)) = gr_edges ?g"
      using r drop [of _ ge_sourceId] drop [of _ ge_targetId] Some
      by (auto simp: removeNode_def Let_def graph_inv_def touches_def jm_get_delete fun_eq_iff)
    with Some Remove_node show ?thesis
      by (simp add: in_memory_graph_ops_def graph_content_def es)
  qed
qed

lemma edges_of_ids_set:
  "set (edges_of_ids g is) = {e. \<exists>i \<in> set (override [] is). jm_get (gr_edges g) i = Some e}"
  by (auto simp: edges_of_ids_def split: option.splits)

lemma edges_of_ids_distinct:
  assumes "graph_inv g" and "distinct ids"
  shows "distinct (edges_of_ids g (Some ids))"
  using assms(2)
proof (induction ids)
  case Nil
  then show ?case by (simp add: edges_of_ids_def)
next
  case (Cons i ids)
  have "edges_of_ids g (Some (i # ids)) = edges_of_ids g (Some [i]) @ edges_of_ids g (Some ids)"
    by (simp add: edges_of_ids_def)
  moreover have "set (edges_of_ids g (Some [i])) \<inter> set (edges_of_ids g (Some ids)) = {}"
    using assms(1) Cons.prems by (auto simp: edges_of_ids_set graph_inv_def)
  moreover have "distinct (edges_of_ids g (Some [i]))" by (simp add: edges_of_ids_def split: option.split)
  ultimately show ?case using Cons by simp
qed

lemma edges_of_ids_indexes:
  assumes "graph_inv g" and "indexes m f (gr_edges g)"
  shows "distinct (edges_of_ids g (jm_get m n)) \<and>
    set (edges_of_ids g (jm_get m n)) = {e \<in> ran (jm_get (gr_edges g)). f e = n}"
proof -
  have i: "set (ids_at m n) = {i. \<exists>e. jm_get (gr_edges g) i = Some e \<and> f e = n}" "distinct (ids_at m n)"
    using assms(2) by (auto simp: indexes_def)
  have "edges_of_ids g (jm_get m n) = edges_of_ids g (Some (ids_at m n))" by (simp add: edges_of_ids_def)
  moreover have "set (edges_of_ids g (jm_get m n)) = {e \<in> ran (jm_get (gr_edges g)). f e = n}"
    unfolding edges_of_ids_set i(1) by (auto simp: ran_def)
  ultimately show ?thesis using edges_of_ids_distinct [OF assms(1) i(2)] by simp
qed

interpretation in_memory_graph: graph_provider graph_inv graph_content in_memory_graph_ops getEdges
proof
  fix g :: graphiti and c n
  assume g: "graph_inv g"
  show "fresh_edges [c] (graph_content g) \<Longrightarrow> graph_inv (graph_command_on in_memory_graph_ops c g) \<and>
      graph_content (graph_command_on in_memory_graph_ops c g) = abstract_graph_step c (graph_content g)"
    by (rule graph_command_law [OF g])
  show "distinct (getEdges n Outgoing g) \<and>
      set (getEdges n Outgoing g) = {e \<in> ran (snd (graph_content g)). ge_sourceId e = n}"
    "distinct (getEdges n Incoming g) \<and>
      set (getEdges n Incoming g) = {e \<in> ran (snd (graph_content g)). ge_targetId e = n}"
    using g edges_of_ids_indexes [OF g, of "gr_outgoing g" ge_sourceId n]
      edges_of_ids_indexes [OF g, of "gr_incoming g" ge_targetId n]
    by (simp_all add: getEdges_def graph_content_def graph_inv_def)
next
  show "getEdges n Both g = getEdges n Outgoing g @ getEdges n Incoming g" for n g
    by (simp add: getEdges_def)
qed

subsection \<open>The graph refines two maps\<close>

definition run_graph :: "graph_command list \<Rightarrow> graphiti" where
  "run_graph cs = fold (graph_command_on in_memory_graph_ops) cs new_graph"

text \<open>
  C24: after every history of commands that never adds an edge identifier in use, the provider
  holds exactly the nodes and edges that the commands leave on two plain maps, and the two
  indices agree with them: the outgoing edges of a node are listed once each, and so are the
  incoming ones.
\<close>

theorem graph_refines_maps:
  assumes "fresh_edges cs (Map.empty, Map.empty)"
  shows "(getNode i (run_graph cs), getEdge j (run_graph cs)) =
      (fst (fold abstract_graph_step cs (Map.empty, Map.empty)) i,
       snd (fold abstract_graph_step cs (Map.empty, Map.empty)) j) \<and>
    distinct (getEdges n Outgoing (run_graph cs)) \<and> distinct (getEdges n Incoming (run_graph cs)) \<and>
    set (getEdges n Outgoing (run_graph cs)) =
      {e \<in> ran (snd (fold abstract_graph_step cs (Map.empty, Map.empty))). ge_sourceId e = n} \<and>
    set (getEdges n Incoming (run_graph cs)) =
      {e \<in> ran (snd (fold abstract_graph_step cs (Map.empty, Map.empty))). ge_targetId e = n}"
proof -
  have r: "graph_inv (run_graph cs)"
    "graph_content (run_graph cs) = fold abstract_graph_step cs (Map.empty, Map.empty)"
    using in_memory_graph.commands_refine [OF graph_inv_new(1), of cs] assms
    by (simp_all add: graph_inv_new(2) run_graph_def)
  with in_memory_graph.outgoing_law [OF r(1), of n] in_memory_graph.incoming_law [OF r(1), of n]
  show ?thesis by (simp add: getNode_def getEdge_def graph_content_def prod_eq_iff)
qed

definition sample_node :: "string \<Rightarrow> graph_node" where
  "sample_node i = \<lparr>gn_id = i, gn_type = N_goal, gn_label = i, gn_properties = [], gn_createdAt = 0, gn_updatedAt = 0\<rparr>"

definition sample_edge :: "string \<Rightarrow> string \<Rightarrow> string \<Rightarrow> graph_edge" where
  "sample_edge i s t = \<lparr>ge_id = i, ge_type = E_uses, ge_sourceId = s, ge_targetId = t, ge_weight = 1,
     ge_properties = [], ge_createdAt = 0\<rparr>"

theorem graph_refines_maps_witness:
  "let cs = [Add_node 0 (sample_node ''a''), Add_node 0 (sample_node ''b''), Add_edge 0 (sample_edge ''e'' ''a'' ''b''),
       Add_edge 0 (sample_edge ''f'' ''b'' ''b''), Remove_node (\<lambda>_. 1) ''b'']
   in getNode ''b'' (run_graph cs) = None \<and> getEdge ''f'' (run_graph cs) = None \<and>
      getEdges ''a'' Outgoing (run_graph cs) = []"
proof -
  let ?cs = "[Add_node 0 (sample_node ''a''), Add_node 0 (sample_node ''b''), Add_edge 0 (sample_edge ''e'' ''a'' ''b''),
       Add_edge 0 (sample_edge ''f'' ''b'' ''b''), Remove_node (\<lambda>_. 1) ''b'']"
  have "fresh_edges ?cs (Map.empty, Map.empty)" by (simp add: sample_node_def sample_edge_def)
  from graph_refines_maps [OF this, of "''b''" "''f''" "''a''"]
  show ?thesis by (auto simp: Let_def sample_node_def sample_edge_def touches_def ran_def split: if_splits)
qed

text \<open>
  When an identifier in use is added again with another source, the first source keeps listing
  it, so that the edges of a node hold one that does not start there.
\<close>

theorem readded_edge_listed_at_old_source:
  "let g = run_graph [Add_edge 0 (sample_edge ''e'' ''a'' ''b''), Add_edge 1 (sample_edge ''e'' ''c'' ''b'')]
   in map ge_sourceId (getEdges ''a'' Outgoing g) = [''c''] \<and>
      map ge_id (getEdges ''b'' Incoming g) = [''e'', ''e'']"
  by code_simp


text \<open>
  The search for paths of the knowledge graph (\<open>findPath\<close> of InMemoryGraphiti.ts): a queue of
  nodes with the paths that lead to them, a set of visited nodes, a bound on the length. The
  loop ends because a node with outgoing edges is expanded at most once. It finds a path of
  least length whenever one within the bound exists.
\<close>

record graph_path =
  path_nodes :: "string list"
  path_edges :: "string list"
  path_length :: nat

definition start_path :: "string \<Rightarrow> graph_path" where
  "start_path s = \<lparr>path_nodes = [s], path_edges = [], path_length = 0\<rparr>"

definition extend_path :: "graph_path \<Rightarrow> graph_edge \<Rightarrow> graph_path" where
  "extend_path p e = \<lparr>path_nodes = path_nodes p @ [ge_targetId e], path_edges = path_edges p @ [ge_id e],
     path_length = path_length p + 1\<rparr>"

function find_loop :: "graphiti \<Rightarrow> string \<Rightarrow> int \<Rightarrow> string set \<Rightarrow> (string \<times> graph_path) list \<Rightarrow> graph_path option" where
  "find_loop g target maxDepth visited [] = None"
| "find_loop g target maxDepth visited ((nodeId, path) # queue) =
     (if nodeId = target then Some path
      else if int (path_length path) \<ge> maxDepth then find_loop g target maxDepth visited queue
      else if nodeId \<in> visited then find_loop g target maxDepth visited queue
      else find_loop g target maxDepth (insert nodeId visited)
        (queue @ map (\<lambda>e. (ge_targetId e, extend_path path e))
          (filter (\<lambda>e. ge_targetId e \<notin> insert nodeId visited) (getEdges nodeId Outgoing g))))"
  by pat_completeness auto

lemma no_edges_without_key: "n \<notin> set (jm_keys (gr_outgoing g)) \<Longrightarrow> getEdges n Outgoing g = []"
  by (simp add: getEdges_def edges_of_ids_def map_of_eq_None_iff [THEN iffD2])

termination find_loop
proof (relation "(\<lambda>(g, _, _, visited, _). card (set (jm_keys (gr_outgoing g)) - visited))
    <*mlex*> measure (\<lambda>(_, _, _, _, queue). length queue)", goal_cases)
  case 1
  show ?case by (intro wf_mlex wf_measure)
next
  case (2 g target maxDepth visited nodeId path queue)
  then show ?case by (auto intro: mlex_leq)
next
  case (3 g target maxDepth visited nodeId path queue)
  then show ?case by (auto intro: mlex_leq)
next
  case (4 g target maxDepth visited nodeId path queue)
  show ?case
  proof (cases "nodeId \<in> set (jm_keys (gr_outgoing g))")
    case True
    with 4 have "card (set (jm_keys (gr_outgoing g)) - insert nodeId visited) <
        card (set (jm_keys (gr_outgoing g)) - visited)"
      by (intro psubset_card_mono) auto
    then show ?thesis by (intro mlex_less) simp
  next
    case False
    then have "set (jm_keys (gr_outgoing g)) - insert nodeId visited = set (jm_keys (gr_outgoing g)) - visited"
      by auto
    then show ?thesis using no_edges_without_key [OF False] by (intro mlex_leq) auto
  qed
qed

definition findPath :: "string \<Rightarrow> string \<Rightarrow> int option \<Rightarrow> graphiti \<Rightarrow> graph_path option" where
  "findPath sourceId targetId maxDepth g =
     (if sourceId = targetId then Some (start_path sourceId)
      else find_loop g targetId (override 10 maxDepth) {} [(sourceId, start_path sourceId)])"

subsection \<open>Walks\<close>

fun is_walk :: "graphiti \<Rightarrow> string \<Rightarrow> graph_edge list \<Rightarrow> string \<Rightarrow> bool" where
  "is_walk g s [] t \<longleftrightarrow> s = t"
| "is_walk g s (e # es) t \<longleftrightarrow> e \<in> set (getEdges s Outgoing g) \<and> is_walk g (ge_targetId e) es t"

definition walk_path :: "string \<Rightarrow> graph_edge list \<Rightarrow> graph_path" where
  "walk_path s es = \<lparr>path_nodes = s # map ge_targetId es, path_edges = map ge_id es, path_length = length es\<rparr>"

lemma is_walk_snoc:
  "is_walk g s (es @ [e]) t \<longleftrightarrow> (\<exists>v. is_walk g s es v \<and> e \<in> set (getEdges v Outgoing g) \<and> ge_targetId e = t)"
  by (induction es arbitrary: s) auto

lemma walk_path_Nil: "walk_path s [] = start_path s"
  by (simp add: walk_path_def start_path_def)

lemma walk_path_simps [simp]:
  "extend_path (walk_path s es) e = walk_path s (es @ [e])"
  "path_length (walk_path s es) = length es" "path_length (start_path s) = 0"
  by (simp_all add: walk_path_def start_path_def extend_path_def)

subsection \<open>Levels of the search\<close>

text \<open>
  The state of the search at level \<open>l\<close>: every item of the queue is a walk of length \<open>l\<close> or
  \<open>l + 1\<close>, in this order; every node with a shorter walk is visited; every node with a walk of
  length \<open>l\<close> is visited or queued; so are all successors of visited nodes.
\<close>

definition item_ok :: "graphiti \<Rightarrow> string \<Rightarrow> int \<Rightarrow> nat \<Rightarrow> string \<Rightarrow> graph_path \<Rightarrow> bool" where
  "item_ok g s d l n p \<longleftrightarrow> (\<exists>es. is_walk g s es n \<and> p = walk_path s es) \<and>
     l \<le> path_length p \<and> path_length p \<le> Suc l \<and> (path_length p = 0 \<or> int (path_length p) \<le> d)"

definition queued_at :: "nat \<Rightarrow> string \<Rightarrow> (string \<times> graph_path) list \<Rightarrow> bool" where
  "queued_at l m Q \<longleftrightarrow> (\<exists>p. (m, p) \<in> set Q \<and> path_length p = l)"

definition at_level :: "graphiti \<Rightarrow> string \<Rightarrow> string \<Rightarrow> int \<Rightarrow> nat \<Rightarrow> string set \<Rightarrow> (string \<times> graph_path) list \<Rightarrow> bool" where
  "at_level g s t d l V Q \<longleftrightarrow> t \<notin> V \<and> (\<forall>(n, p) \<in> set Q. item_ok g s d l n p) \<and>
     sorted (map (\<lambda>x. path_length (snd x)) Q) \<and>
     (\<forall>m es. is_walk g s es m \<longrightarrow> length es < l \<longrightarrow> m \<in> V) \<and>
     (\<forall>m es. is_walk g s es m \<longrightarrow> length es = l \<longrightarrow> m \<in> V \<or> queued_at l m Q) \<and>
     (\<forall>v \<in> V. \<forall>e \<in> set (getEdges v Outgoing g). ge_targetId e \<in> V \<or> ge_targetId e \<in> fst ` set Q)"

lemma at_levelD:
  assumes "at_level g s t d l V Q"
  shows "t \<notin> V" "(n, p) \<in> set Q \<Longrightarrow> item_ok g s d l n p" "sorted (map (\<lambda>x. path_length (snd x)) Q)"
    "is_walk g s es m \<Longrightarrow> length es < l \<Longrightarrow> m \<in> V"
    "is_walk g s es m \<Longrightarrow> length es = l \<Longrightarrow> m \<in> V \<or> queued_at l m Q"
    "v \<in> V \<Longrightarrow> e \<in> set (getEdges v Outgoing g) \<Longrightarrow> ge_targetId e \<in> V \<or> ge_targetId e \<in> fst ` set Q"
  using assms unfolding at_level_def by blast+

lemma at_level_start: "s \<noteq> t \<Longrightarrow> at_level g s t d 0 {} [(s, start_path s)]"
  by (auto simp: at_level_def item_ok_def queued_at_def walk_path_Nil intro!: exI [of _ "[]"])

lemma at_level_advance:
  assumes "at_level g s t d l V Q" and "\<forall>(n, p) \<in> set Q. path_length p \<noteq> l"
  shows "at_level g s t d (Suc l) V Q"
proof -
  note D = at_levelD [OF assms(1)]
  have low: "m \<in> V" if "is_walk g s es m" "length es < Suc l" for m es
  proof (cases "length es = l")
    case True
    with D(5) [OF that(1)] assms(2) show ?thesis by (auto simp: queued_at_def)
  next
    case False
    with D(4) that show ?thesis by simp
  qed
  have items: "item_ok g s d (Suc l) n p" "path_length p = Suc l" if "(n, p) \<in> set Q" for n p
    using D(2) [OF that] assms(2) that by (auto simp: item_ok_def start_path_def)
  have "m \<in> V \<or> queued_at (Suc l) m Q" if "is_walk g s es m" "length es = Suc l" for m es
  proof -
    from that(2) obtain es' e where es: "es = es' @ [e]" by (metis length_Suc_conv_rev)
    from that(1) obtain v where v: "is_walk g s es' v" "e \<in> set (getEdges v Outgoing g)" "ge_targetId e = m"
      by (auto simp: es is_walk_snoc)
    have "v \<in> V" using low [OF v(1)] es that(2) by simp
    from D(6) [OF this v(2)] v(3) items show ?thesis by (force simp: queued_at_def)
  qed
  then show ?thesis using low items D(1,3,6) unfolding at_level_def by blast
qed

lemma at_level_visited:
  assumes "at_level g s t d l V ((n, p) # Q)" and "n \<in> V"
  shows "at_level g s t d l V Q"
proof -
  note D = at_levelD [OF assms(1)]
  have "m \<in> V \<or> queued_at l m Q" if "is_walk g s es m" "length es = l" for m es
    using D(5) [OF that] assms(2) by (auto simp: queued_at_def)
  moreover have "ge_targetId e \<in> V \<or> ge_targetId e \<in> fst ` set Q" if "v \<in> V" "e \<in> set (getEdges v Outgoing g)" for v e
    using D(6) [OF that] assms(2) by auto
  ultimately show ?thesis using D(1-4) unfolding at_level_def by auto
qed

lemma at_level_expand:
  assumes "at_level g s t d l V ((n, p) # Q)" and "path_length p = l" and "int l < d" and "n \<noteq> t"
  shows "at_level g s t d l (insert n V) (Q @ map (\<lambda>e. (ge_targetId e, extend_path p e))
    (filter (\<lambda>e. ge_targetId e \<notin> insert n V) (getEdges n Outgoing g)))"
proof -
  let ?new = "map (\<lambda>e. (ge_targetId e, extend_path p e))
    (filter (\<lambda>e. ge_targetId e \<notin> insert n V) (getEdges n Outgoing g))"
  note D = at_levelD [OF assms(1)]
  from D(2) [of n p] obtain es where es: "is_walk g s es n" "p = walk_path s es" by (auto simp: item_ok_def)
  have new: "item_ok g s d l m q" "path_length q = Suc l" if "(m, q) \<in> set ?new" for m q
  proof -
    from that obtain e where e: "e \<in> set (getEdges n Outgoing g)" "m = ge_targetId e" "q = walk_path s (es @ [e])"
      using es(2) by auto
    then have "is_walk g s (es @ [e]) m" using es(1) by (auto simp: is_walk_snoc)
    with e(3) show "item_ok g s d l m q" "path_length q = Suc l"
      using es(2) assms(2,3) by (auto simp: item_ok_def)
  qed
  have old: "item_ok g s d l m q" if "(m, q) \<in> set Q" for m q
    using D(2) [of m q] that by simp
  let ?len = "\<lambda>x :: string \<times> graph_path. path_length (snd x)"
  have "a \<le> b" if "a \<in> set (map ?len Q)" "b \<in> set (map ?len ?new)" for a b
  proof -
    from that(1) obtain x where "x \<in> set Q" "a = ?len x" by (auto simp only: set_map)
    moreover from that(2) obtain y where "y \<in> set ?new" "b = ?len y" by (auto simp only: set_map)
    ultimately show ?thesis using old [of "fst x" "snd x"] new(2) [of "fst y" "snd y"] by (simp add: item_ok_def)
  qed
  moreover have "sorted (map ?len ?new)" by (simp add: sorted_map sorted_wrt_iff_nth_less extend_path_def)
  moreover have "sorted (map ?len Q)" using D(3) by simp
  ultimately have sorted: "sorted (map ?len (Q @ ?new))"
    unfolding map_append sorted_append by blast
  have seen: "m \<in> insert n V \<or> queued_at l m (Q @ ?new)" if "is_walk g s es m" "length es = l" for m es
    using D(5) [OF that] by (auto simp: queued_at_def)
  have closed: "ge_targetId e \<in> insert n V \<or> ge_targetId e \<in> fst ` set (Q @ ?new)"
    if "v \<in> insert n V" "e \<in> set (getEdges v Outgoing g)" for v e
  proof (cases "v = n")
    case True
    with that(2) show ?thesis by (force simp: image_iff)
  next
    case False
    with that D(6) [of v e] show ?thesis by auto
  qed
  have "t \<notin> insert n V" using D(1) assms(4) by simp
  moreover have "\<forall>(m, q) \<in> set (Q @ ?new). item_ok g s d l m q" using old new(1) by auto
  moreover have "\<forall>m es. is_walk g s es m \<longrightarrow> length es < l \<longrightarrow> m \<in> insert n V" using D(4) by blast
  ultimately show ?thesis using sorted seen closed unfolding at_level_def by blast
qed

subsection \<open>The search finds a shortest path\<close>

text \<open>When every item has reached the bound, the loop only looks for the target in the queue.\<close>

lemma find_loop_drain:
  "\<forall>(n, p) \<in> set Q. d \<le> int (path_length p) \<Longrightarrow>
     find_loop g t d V Q = map_option snd (find (\<lambda>x. fst x = t) Q)"
  by (induction Q) auto

definition shortest_within :: "graphiti \<Rightarrow> string \<Rightarrow> string \<Rightarrow> int \<Rightarrow> graph_path option \<Rightarrow> bool" where
  "shortest_within g s t d r \<longleftrightarrow> (case r of
     None \<Rightarrow> \<forall>es. is_walk g s es t \<longrightarrow> d < int (length es)
   | Some p \<Rightarrow> \<exists>es. is_walk g s es t \<and> p = walk_path s es \<and> (es = [] \<or> int (length es) \<le> d) \<and>
       (\<forall>es'. is_walk g s es' t \<longrightarrow> length es \<le> length es'))"

lemma shortest_found:
  assumes "at_level g s t d l V Q" and "(t, p) \<in> set Q" and "path_length p = l"
  shows "shortest_within g s t d (Some p)"
proof -
  note D = at_levelD [OF assms(1)]
  from D(2) [OF assms(2)] have item: "item_ok g s d l t p" .
  then obtain es where es: "is_walk g s es t" "p = walk_path s es" unfolding item_ok_def by blast
  with item have len: "length es = 0 \<or> int (length es) \<le> d" by (simp add: item_ok_def)
  have "length es \<le> length es'" if "is_walk g s es' t" for es'
    using D(1) D(4) [OF that] es(2) assms(3) by fastforce
  with es len show ?thesis by (auto simp: shortest_within_def)
qed

text \<open>At the bound: the target is in the queue, or no walk within the bound leads to it.\<close>

lemma find_loop_at_bound:
  assumes "at_level g s t d l V Q" and "d \<le> int l"
  shows "shortest_within g s t d (find_loop g t d V Q)"
proof -
  note D = at_levelD [OF assms(1)]
  have "\<forall>(n, p) \<in> set Q. d \<le> int (path_length p)" using D(2) assms(2) by (fastforce simp: item_ok_def)
  then have f: "find_loop g t d V Q = map_option snd (find (\<lambda>x. fst x = t) Q)" by (rule find_loop_drain)
  show ?thesis
  proof (cases "find (\<lambda>x. fst x = t) Q")
    case None
    then have "\<not> queued_at l t Q" by (auto simp: find_None_iff queued_at_def)
    then have "d < int (length es)" if "is_walk g s es t" for es
      using D(1) D(4) [OF that] D(5) [OF that] assms(2) by linarith
    then show ?thesis using f None by (simp add: shortest_within_def)
  next
    case (Some x)
    then have x: "fst x = t" "(t, snd x) \<in> set Q" by (auto simp: find_Some_iff)
    with D(2) have "path_length (snd x) = l" using assms(2) by (fastforce simp: item_ok_def)
    from shortest_found [OF assms(1) x(2) this] f Some show ?thesis by simp
  qed
qed

lemma find_loop_correct:
  "at_level g s t d l V Q \<Longrightarrow> shortest_within g s t d (find_loop g t d V Q)"
proof (induction g t d V Q arbitrary: l rule: find_loop.induct)
  case (1 g t d V)
  note D = at_levelD [OF 1]
  have "m \<in> V" if "is_walk g s es m" for m es
    using that
  proof (induction es arbitrary: m rule: rev_induct)
    case Nil
    then have "m \<in> V \<or> queued_at 0 m []" using D(4) [of "[]" m] D(5) [of "[]" m] by (cases l) auto
    then show ?case by (simp add: queued_at_def)
  next
    case (snoc e es)
    then show ?case using D(6) by (fastforce simp: is_walk_snoc)
  qed
  then show ?case using D(1) by (auto simp: shortest_within_def)
next
  case (2 g t d V n p Q)
  have "item_ok g s d l n p" using at_levelD(2) [OF "2.prems"] by simp
  then have len: "path_length p = l \<or> path_length p = Suc l" by (auto simp: item_ok_def)
  have lower: "\<forall>(m, q) \<in> set ((n, p) # Q). path_length p \<le> path_length q"
    using at_levelD(3) [OF "2.prems"] by auto
  define k where "k = path_length p"
  have k: "at_level g s t d k V ((n, p) # Q)"
  proof (cases "path_length p = l")
    case True
    then show ?thesis using "2.prems" by (simp add: k_def)
  next
    case False
    then have "path_length p = Suc l" using len by simp
    with lower have "\<forall>(m, q) \<in> set ((n, p) # Q). path_length q \<noteq> l" by fastforce
    then show ?thesis using at_level_advance [OF "2.prems"] \<open>path_length p = Suc l\<close> by (simp add: k_def)
  qed
  show ?case
  proof (cases "d \<le> int k")
    case True
    then show ?thesis using find_loop_at_bound [OF k] by simp
  next
    case False
    consider "n = t" | "n \<noteq> t" "n \<in> V" | "n \<noteq> t" "n \<notin> V" by blast
    then show ?thesis
    proof cases
      case 1
      then show ?thesis using shortest_found [OF k, of p] by (simp add: k_def)
    next
      case 2
      then show ?thesis using "2.IH"(2) [OF _ _ _ at_level_visited [OF k]] False by (simp add: k_def)
    next
      case 3
      have "at_level g s t d k (insert n V) (Q @ map (\<lambda>e. (ge_targetId e, extend_path p e))
          (filter (\<lambda>e. ge_targetId e \<notin> insert n V) (getEdges n Outgoing g)))"
        using at_level_expand [OF k] 3 False by (simp add: k_def)
      from "2.IH"(3) [OF _ _ _ this] 3 False show ?thesis by (simp add: k_def)
    qed
  qed
qed

text \<open>
  C25: the search returns a path exactly when some walk of at most the maximal length leads from
  the source to the target; the path then spells out such a walk, and none is shorter. The
  walk of length zero from a node to itself is found whatever the bound. In a graph whose
  indices agree with its edges the steps of a walk are its edges.
\<close>

theorem find_path_shortest:
  "(findPath s t maxDepth g = None \<longleftrightarrow>
      s \<noteq> t \<and> (\<forall>es. is_walk g s es t \<longrightarrow> override 10 maxDepth < int (length es))) \<and>
   (\<forall>p. findPath s t maxDepth g = Some p \<longrightarrow>
      (\<exists>es. is_walk g s es t \<and> p = walk_path s es \<and> (es = [] \<or> int (length es) \<le> override 10 maxDepth) \<and>
        (\<forall>es'. is_walk g s es' t \<longrightarrow> length es \<le> length es')))"
proof (cases "s = t")
  case True
  then show ?thesis by (auto simp: findPath_def walk_path_Nil intro!: exI [of _ "[]"])
next
  case False
  have r: "shortest_within g s t (override 10 maxDepth) (findPath s t maxDepth g)"
    using find_loop_correct [OF at_level_start [OF False]] False by (simp add: findPath_def)
  show ?thesis
  proof (cases "findPath s t maxDepth g")
    case None
    with r False show ?thesis by (simp add: shortest_within_def)
  next
    case (Some p)
    with r obtain es where "is_walk g s es t" "p = walk_path s es" "es = [] \<or> int (length es) \<le> override 10 maxDepth"
      "\<forall>es'. is_walk g s es' t \<longrightarrow> length es \<le> length es'" by (auto simp: shortest_within_def)
    moreover from this False have "int (length es) \<le> override 10 maxDepth" by (cases es) auto
    ultimately show ?thesis using Some by force
  qed
qed

theorem find_path_shortest_witness:
  "let g = run_graph [Add_edge 0 (sample_edge ''e'' ''a'' ''b''), Add_edge 0 (sample_edge ''f'' ''b'' ''c'')] in
   (\<exists>es. is_walk g ''a'' es ''c'' \<and> length es = 2) \<and> findPath ''a'' ''c'' (Some 1) g = None"
proof -
  let ?g = "run_graph [Add_edge 0 (sample_edge ''e'' ''a'' ''b''), Add_edge 0 (sample_edge ''f'' ''b'' ''c'')]"
  have "findPath ''a'' ''c'' None ?g = Some \<lparr>path_nodes = [''a'', ''b'', ''c''], path_edges = [''e'', ''f''], path_length = 2\<rparr>"
    "findPath ''a'' ''c'' (Some 1) ?g = None"
    by code_simp+
  with find_path_shortest [of "''a''" "''c''" None ?g] show ?thesis
    by (auto simp: Let_def walk_path_def)
qed

end
