(* ===== verification/RuntimeStartup.thy ===== *)
theory RuntimeStartup
  imports Graphs
begin

text \<open>
  The startup manager of the runtime (packages/runtime/src/StartupManager.ts): the sort of the
  steps by their dependencies and the calls of \<open>start\<close>, which race the steps against a timer.
  A call is a run that waits for the promise of a step or of a rollback; the variables of the
  manager are shared by all its runs, and the steps of a run go on when its timer has won. The
  outcomes of promises, the timers and the clock come with the events.
\<close>

datatype startup_phase = S_idle | S_starting | S_running | S_failed | S_rolled_back

text \<open>A step; its \<open>startup\<close> and \<open>rollback\<close> are calls the model records.\<close>

record startup_step =
  st_name :: string
  st_dependencies :: "string list option"
  st_rollback :: bool

abbreviation deps_of :: "startup_step \<Rightarrow> string list" where
  "deps_of s \<equiv> override [] (st_dependencies s)"

subsection \<open>Sorting\<close>

type_synonym steps_by_name = "(string, startup_step) jmap"

definition by_name :: "startup_step list \<Rightarrow> steps_by_name" where
  "by_name steps = fold (\<lambda>s. jm_set (st_name s) s) steps []"

text \<open>\<open>visit\<close> on each of a list of names; the state is \<open>visited\<close> with \<open>result\<close>.\<close>

function (domintros) visit_all :: "steps_by_name \<Rightarrow> string list \<Rightarrow> string set \<times> startup_step list
    \<Rightarrow> string set \<times> startup_step list" where
  "visit_all m [] st = st"
| "visit_all m (n # ns) st =
     (if n \<in> fst st then visit_all m ns st
      else case jm_get m n of
        None \<Rightarrow> visit_all m ns (insert n (fst st), snd st)
      | Some s \<Rightarrow>
          (let st1 = visit_all m (deps_of s) (insert n (fst st), snd st)
           in visit_all m ns (fst st1, snd st1 @ [s])))"
  by pat_completeness auto

lemma visit_all_grows:
  "visit_all_dom (m, ns, st) \<Longrightarrow> fst st \<subseteq> fst (visit_all m ns st)"
proof (induction m ns st rule: visit_all.pinduct)
  case (1 m st)
  then show ?case by (simp add: visit_all.psimps)
next
  case (2 m n ns st)
  show ?case
  proof (cases "n \<in> fst st \<or> jm_get m n = None")
    case True
    with 2 show ?thesis by (auto simp: visit_all.psimps)
  next
    case False
    then obtain s where s: "n \<notin> fst st" "jm_get m n = Some s" by auto
    let ?st1 = "visit_all m (deps_of s) (insert n (fst st), snd st)"
    from "2.IH"(3) [OF s] have "fst st \<subseteq> fst ?st1" by auto
    also have "\<dots> \<subseteq> fst (visit_all m ns (fst ?st1, snd ?st1 @ [s]))" using "2.IH"(4) [OF s refl] by simp
    finally show ?thesis using 2 s by (simp add: visit_all.psimps Let_def)
  qed
qed

termination visit_all
proof (relation "measures [\<lambda>(m, ns, st). card (set (jm_keys m) - fst st), \<lambda>(m, ns, st). length ns]",
    goal_cases)
  case 1
  then show ?case by simp
next
  case (2 m n ns st)
  then show ?case by simp
next
  case (3 m n ns st)
  then have "set (jm_keys m) - insert n (fst st) = set (jm_keys m) - fst st"
    by (auto simp: map_of_eq_None_iff)
  then show ?case by simp
next
  case (4 m n ns st s)
  then have "n \<in> set (jm_keys m)" by (force dest: map_of_SomeD)
  with 4 have "card (set (jm_keys m) - insert n (fst st)) < card (set (jm_keys m) - fst st)"
    by (intro psubset_card_mono) auto
  then show ?case by simp
next
  case (5 m n ns st s st1)
  from visit_all_grows [OF 5(4)] 5(3) have "fst st \<subseteq> fst st1" by auto
  then have "card (set (jm_keys m) - fst st1) \<le> card (set (jm_keys m) - fst st)"
    by (intro card_mono) auto
  then show ?case by auto
qed

definition topologicalSort :: "startup_step list \<Rightarrow> startup_step list" where
  "topologicalSort steps = snd (visit_all (by_name steps) (map st_name steps) ({}, []))"

subsection \<open>Runs\<close>

text \<open>
  Where a run is: at the await of \<open>step.startup\<close> for the first step of a list, at the await
  of a rollback with the names that are left to roll back, or done.
\<close>

datatype run_at =
    At_startup "startup_step list"
  | At_rollback "string list" string
  | Run_done

datatype race = Racing | Steps_won | Timer_won

text \<open>
  A status holds the array of started steps by reference: the array of the k-th run, which
  may still grow, or an empty one.
\<close>

record startup_status =
  su_phase :: startup_phase
  su_startedSteps :: "nat option"
  su_failedStep :: "string option"
  su_durationMs :: "int option"

record startup_run =
  run_start :: instant
  run_sorted :: "startup_step list"
  run_started :: "string list"
  run_at :: run_at
  run_race :: race
  run_returned :: "startup_status option"

datatype startup_call =
    Startup_called nat string
  | Startup_resolved nat string
  | Startup_rejected nat string
  | Rollback_called nat string

record startup_manager =
  sm_steps :: "startup_step list"
  sm_status :: startup_status
  sm_runs :: "startup_run list"
  sm_log :: "startup_call list"

definition createStartupManager :: "startup_step list option \<Rightarrow> startup_manager" where
  "createStartupManager steps = \<lparr>sm_steps = override [] steps,
     sm_status = \<lparr>su_phase = S_idle, su_startedSteps = None, su_failedStep = None, su_durationMs = None\<rparr>,
     sm_runs = [], sm_log = []\<rparr>"

definition updateStatus :: "startup_phase \<Rightarrow> nat option \<Rightarrow> string option \<Rightarrow> int option \<Rightarrow> startup_manager
    \<Rightarrow> startup_manager" where
  "updateStatus newPhase started failed dur m = m\<lparr>sm_status :=
     \<lparr>su_phase = newPhase, su_startedSteps = started, su_failedStep = failed, su_durationMs = dur\<rparr>\<rparr>"

definition on_run :: "nat \<Rightarrow> (startup_run \<Rightarrow> startup_run) \<Rightarrow> startup_manager \<Rightarrow> startup_manager" where
  "on_run k f m = m\<lparr>sm_runs := (sm_runs m)[k := f (sm_runs m ! k)]\<rparr>"

definition note_call :: "startup_call \<Rightarrow> startup_manager \<Rightarrow> startup_manager" where
  "note_call c m = m\<lparr>sm_log := sm_log m @ [c]\<rparr>"

text \<open>The promise of \<open>runSteps\<close> resolves: it wins the race unless the timer did.\<close>

definition finish_run :: "nat \<Rightarrow> startup_manager \<Rightarrow> startup_manager" where
  "finish_run k = on_run k (\<lambda>r. r\<lparr>run_at := Run_done,
     run_race := (if run_race r = Racing then Steps_won else run_race r)\<rparr>)"

definition elapsed :: "nat \<Rightarrow> instant \<Rightarrow> startup_manager \<Rightarrow> int option" where
  "elapsed k now m = Some (now - run_start (sm_runs m ! k))"

definition unmet :: "startup_step \<Rightarrow> string list \<Rightarrow> string list" where
  "unmet s started = filter (\<lambda>d. d \<notin> set started) (deps_of s)"

text \<open>\<open>runSteps\<close> from the head of its loop to the next await.\<close>

fun run_steps :: "nat \<Rightarrow> instant \<Rightarrow> startup_step list \<Rightarrow> startup_manager \<Rightarrow> startup_manager" where
  "run_steps k now [] m = finish_run k (updateStatus S_running (Some k) None (elapsed k now m) m)"
| "run_steps k now (s # rest) m =
     (if unmet s (run_started (sm_runs m ! k)) \<noteq> []
      then finish_run k (updateStatus S_failed (Some k) (Some (st_name s)) (elapsed k now m) m)
      else note_call (Startup_called k (st_name s)) (on_run k (\<lambda>r. r\<lparr>run_at := At_startup (s # rest)\<rparr>) m))"

text \<open>The rollback loop to its next await; a step without rollback is passed over.\<close>

fun roll_back :: "nat \<Rightarrow> instant \<Rightarrow> string list \<Rightarrow> string \<Rightarrow> startup_manager \<Rightarrow> startup_manager" where
  "roll_back k now [] failed m =
     finish_run k (updateStatus S_rolled_back (Some k) (Some failed) (elapsed k now m) m)"
| "roll_back k now (n # ns) failed m =
     (case find (\<lambda>s. st_name s = n) (run_sorted (sm_runs m ! k)) of
        Some s \<Rightarrow>
          if st_rollback s
          then note_call (Rollback_called k n) (on_run k (\<lambda>r. r\<lparr>run_at := At_rollback ns failed\<rparr>) m)
          else roll_back k now ns failed m
      | None \<Rightarrow> roll_back k now ns failed m)"

subsection \<open>Operations and events\<close>

definition addStep :: "startup_step \<Rightarrow> startup_manager \<Rightarrow> startup_manager" where
  "addStep s m = m\<lparr>sm_steps := sm_steps m @ [s]\<rparr>"

fun remove_first :: "('a \<Rightarrow> bool) \<Rightarrow> 'a list \<Rightarrow> 'a list" where
  "remove_first P [] = []"
| "remove_first P (x # xs) = (if P x then xs else x # remove_first P xs)"

definition removeStep :: "string \<Rightarrow> startup_manager \<Rightarrow> startup_manager" where
  "removeStep n m = m\<lparr>sm_steps := remove_first (\<lambda>s. st_name s = n) (sm_steps m)\<rparr>"

text \<open>\<open>start\<close> up to the await of its race.\<close>

definition start_startup :: "instant \<Rightarrow> startup_manager \<Rightarrow> startup_manager" where
  "start_startup now m =
     (let m1 = updateStatus S_starting None None None m;
          sorted = topologicalSort (sm_steps m);
          m2 = m1\<lparr>sm_runs := sm_runs m1 @ [\<lparr>run_start = now, run_sorted = sorted, run_started = [],
                 run_at = At_startup sorted, run_race = Racing, run_returned = None\<rparr>]\<rparr>
      in run_steps (length (sm_runs m)) now sorted m2)"

text \<open>The promise a run waits for resolves or is rejected.\<close>

definition settle :: "nat \<Rightarrow> bool \<Rightarrow> instant \<Rightarrow> startup_manager \<Rightarrow> startup_manager" where
  "settle k resolved now m =
     (if k < length (sm_runs m)
      then (case run_at (sm_runs m ! k) of
        At_startup (s # rest) \<Rightarrow>
          if resolved
          then run_steps k now rest (note_call (Startup_resolved k (st_name s))
            (on_run k (\<lambda>r. r\<lparr>run_started := run_started r @ [st_name s]\<rparr>) m))
          else let m1 = updateStatus S_failed (Some k) (Some (st_name s)) (elapsed k now m)
                     (note_call (Startup_rejected k (st_name s)) m)
               in roll_back k now (rev (run_started (sm_runs m ! k))) (st_name s) m1
      | At_rollback ns failed \<Rightarrow> roll_back k now ns failed m
      | _ \<Rightarrow> m)
      else m)"

definition timer_fires :: "nat \<Rightarrow> startup_manager \<Rightarrow> startup_manager" where
  "timer_fires k m = (if k < length (sm_runs m) \<and> run_race (sm_runs m ! k) = Racing
     then on_run k (\<lambda>r. r\<lparr>run_race := Timer_won\<rparr>) m else m)"

text \<open>\<open>start\<close> after its race: the status it returns is read then.\<close>

definition resume :: "nat \<Rightarrow> instant \<Rightarrow> startup_manager \<Rightarrow> startup_manager" where
  "resume k now m =
     (if k < length (sm_runs m) \<and> run_race (sm_runs m ! k) \<noteq> Racing \<and> run_returned (sm_runs m ! k) = None
      then let m1 = (if run_race (sm_runs m ! k) = Timer_won
                     then updateStatus S_failed (Some k) (Some (override ''timeout'' (su_failedStep (sm_status m))))
                       (elapsed k now m) m
                     else m);
               final = \<lparr>su_phase = su_phase (sm_status m1), su_startedSteps = Some k,
                 su_failedStep = su_failedStep (sm_status m1), su_durationMs = elapsed k now m1\<rparr>
           in on_run k (\<lambda>r. r\<lparr>run_returned := Some final\<rparr>) m1
      else m)"

text \<open>The names that an array in a status holds now.\<close>

definition started_now :: "startup_manager \<Rightarrow> startup_status \<Rightarrow> string list" where
  "started_now m s = (case su_startedSteps s of None \<Rightarrow> [] | Some k \<Rightarrow> run_started (sm_runs m ! k))"

datatype startup_event =
    Add_step startup_step
  | Remove_step string
  | Start instant
  | Settle nat bool instant
  | Timer nat
  | Resume nat instant

fun handle_startup :: "startup_event \<Rightarrow> startup_manager \<Rightarrow> startup_manager" where
  "handle_startup (Add_step s) m = addStep s m"
| "handle_startup (Remove_step n) m = removeStep n m"
| "handle_startup (Start now) m = start_startup now m"
| "handle_startup (Settle k b now) m = settle k b now m"
| "handle_startup (Timer k) m = timer_fires k m"
| "handle_startup (Resume k now) m = resume k now m"

definition startup_history :: "startup_event list \<Rightarrow> startup_step list option \<Rightarrow> startup_manager" where
  "startup_history evs steps = fold handle_startup evs (createStartupManager steps)"


text \<open>
  The sort of the startup manager puts every step after its dependencies exactly when these are
  known and free of cycles; it lists each name once.
\<close>

subsection \<open>The sort\<close>

abbreviation names :: "startup_step list \<Rightarrow> string list" where
  "names \<equiv> map st_name"

definition keyed :: "steps_by_name \<Rightarrow> bool" where
  "keyed m \<longleftrightarrow> (\<forall>n s. jm_get m n = Some s \<longrightarrow> st_name s = n)"

definition dep_edges :: "steps_by_name \<Rightarrow> (string \<times> string) set" where
  "dep_edges m = {(x, y). \<exists>s. jm_get m x = Some s \<and> y \<in> set (deps_of s)}"

text \<open>All dependencies are names of steps, and they have no cycle.\<close>

definition startable :: "startup_step list \<Rightarrow> bool" where
  "startable steps \<longleftrightarrow>
     Range (dep_edges (by_name steps)) \<subseteq> set (names steps) \<and> acyclic (dep_edges (by_name steps))"

lemma jm_get_keys: "jm_get m n = Some s \<Longrightarrow> n \<in> set (jm_keys m)"
  by (force dest: map_of_SomeD)

lemma keyed_set: "keyed m \<Longrightarrow> keyed (jm_set (st_name s) s m)"
  unfolding keyed_def by (auto simp: jm_get_set split: if_splits)

lemma by_name_facts: "keyed (by_name steps) \<and> set (jm_keys (by_name steps)) = set (names steps)"
proof
  have "keyed (fold (\<lambda>s. jm_set (st_name s) s) steps m)" if "keyed m" for m
    using that by (induction steps arbitrary: m) (auto intro: keyed_set)
  moreover have "keyed []" by (simp add: keyed_def)
  ultimately show "keyed (by_name steps)" unfolding by_name_def .
  have "jm_has (fold (\<lambda>s. jm_set (st_name s) s) steps m) n \<longleftrightarrow> jm_has m n \<or> n \<in> set (names steps)" for m n
    by (induction steps arbitrary: m) auto
  from this [of "[]"] show "set (jm_keys (by_name steps)) = set (names steps)"
    unfolding by_name_def by (simp add: jm_has_iff set_eq_iff)
qed

lemma visit_all_result:
  "keyed m \<Longrightarrow> \<exists>ext. snd (visit_all m ns st) = snd st @ ext \<and> distinct (names ext) \<and>
     set (names ext) = (fst (visit_all m ns st) - fst st) \<inter> set (jm_keys m) \<and>
     (\<forall>s \<in> set ext. jm_get m (st_name s) = Some s) \<and> set ns \<union> fst st \<subseteq> fst (visit_all m ns st)"
proof (induction m ns st rule: visit_all.induct)
  case (1 m st)
  then show ?case by simp
next
  case (2 m n ns st)
  show ?case
  proof (cases "n \<in> fst st")
    case True
    with 2 show ?thesis by auto
  next
    case False
    show ?thesis
    proof (cases "jm_get m n")
      case None
      with 2 False have "n \<notin> set (jm_keys m)" by (auto simp: map_of_eq_None_iff)
      with "2.IH"(2) [OF False None "2.prems"] False None show ?thesis by auto
    next
      case (Some s)
      let ?st1 = "visit_all m (deps_of s) (insert n (fst st), snd st)"
      have n: "st_name s = n" "n \<in> set (jm_keys m)"
        using Some "2.prems" jm_get_keys [OF Some] by (simp_all add: keyed_def)
      from "2.IH"(3) [OF False Some "2.prems"] obtain ext1 where e1: "snd ?st1 = snd st @ ext1"
        "distinct (names ext1)" "set (names ext1) = (fst ?st1 - insert n (fst st)) \<inter> set (jm_keys m)"
        "\<forall>s \<in> set ext1. jm_get m (st_name s) = Some s" "insert n (fst st) \<subseteq> fst ?st1" by auto
      from "2.IH"(4) [OF False Some refl "2.prems"] obtain ext2 where e2:
        "snd (visit_all m ns (fst ?st1, snd ?st1 @ [s])) = snd ?st1 @ [s] @ ext2" "distinct (names ext2)"
        "set (names ext2) = (fst (visit_all m ns (fst ?st1, snd ?st1 @ [s])) - fst ?st1) \<inter> set (jm_keys m)"
        "\<forall>s \<in> set ext2. jm_get m (st_name s) = Some s"
        "set ns \<union> fst ?st1 \<subseteq> fst (visit_all m ns (fst ?st1, snd ?st1 @ [s]))" by auto
      let ?ext = "ext1 @ [s] @ ext2"
      have v: "visit_all m (n # ns) st = visit_all m ns (fst ?st1, snd ?st1 @ [s])"
        using False Some by (simp add: Let_def)
      have "distinct (names ?ext)" using e1 e2(2,3) n by auto
      moreover have "set (names ?ext) = (fst (visit_all m (n # ns) st) - fst st) \<inter> set (jm_keys m)"
        unfolding v using e1(3,5) e2(3,5) n False by auto
      ultimately show ?thesis using e1 e2 n Some unfolding v by (intro exI [of _ ?ext]) auto
    qed
  qed
qed

text \<open>The steps of a list find their dependencies among \<open>A\<close> and the steps before them.\<close>

fun met_from :: "string set \<Rightarrow> startup_step list \<Rightarrow> bool" where
  "met_from A [] = True"
| "met_from A (s # ss) = (set (deps_of s) \<subseteq> A \<and> met_from (insert (st_name s) A) ss)"

lemma met_from_append:
  "met_from A (xs @ ys) \<longleftrightarrow> met_from A xs \<and> met_from (A \<union> set (names xs)) ys"
  by (induction xs arbitrary: A) auto

lemma met_from_mono: "met_from A xs \<Longrightarrow> A \<subseteq> B \<Longrightarrow> met_from B xs"
  by (induction xs arbitrary: A B) (auto, blast)

lemma visit_all_met:
  assumes "keyed m" and "acyclic (dep_edges m)" and "Range (dep_edges m) \<subseteq> set (jm_keys m)"
  shows "set ns \<subseteq> set (jm_keys m) \<Longrightarrow> fst st \<inter> set (jm_keys m) \<subseteq> A \<union> S \<Longrightarrow>
    \<forall>x \<in> S. \<forall>n \<in> set ns. (x, n) \<in> (dep_edges m)\<^sup>+ \<Longrightarrow> snd (visit_all m ns st) = snd st @ ext \<Longrightarrow> met_from A ext"
  using assms
proof (induction m ns st arbitrary: A S ext rule: visit_all.induct)
  case (1 m st)
  then show ?case by simp
next
  case (2 m n ns st)
  show ?case
  proof (cases "n \<in> fst st")
    case True
    show ?thesis by (rule "2.IH"(1) [OF True _ "2.prems"(2)]) (use 2 True in auto)
  next
    case False
    from "2.prems"(1) obtain s where s: "jm_get m n = Some s" by (auto dest: weak_map_of_SomeI)
    let ?st1 = "visit_all m (deps_of s) (insert n (fst st), snd st)"
    have n: "st_name s = n" using s "2.prems"(5) by (simp add: keyed_def)
    have deps: "(n, d) \<in> dep_edges m" if "d \<in> set (deps_of s)" for d using s that by (auto simp: dep_edges_def)
    then have known: "set (deps_of s) \<subseteq> set (jm_keys m)" using "2.prems"(7) by blast
    from visit_all_result [OF "2.prems"(5), of "deps_of s" "(insert n (fst st), snd st)"]
    obtain ext1 where e1: "snd ?st1 = snd st @ ext1"
      "set (names ext1) = (fst ?st1 - insert n (fst st)) \<inter> set (jm_keys m)"
      "set (deps_of s) \<subseteq> fst ?st1" by auto
    from visit_all_result [OF "2.prems"(5), of ns "(fst ?st1, snd ?st1 @ [s])"]
    obtain ext2 where e2: "snd (visit_all m ns (fst ?st1, snd ?st1 @ [s])) = (snd ?st1 @ [s]) @ ext2" by auto
    have ext: "ext = ext1 @ [s] @ ext2" using "2.prems"(4) False s e1(1) e2 by (simp add: Let_def)
    have S': "\<forall>x \<in> insert n S. \<forall>d \<in> set (deps_of s). (x, d) \<in> (dep_edges m)\<^sup>+"
      using "2.prems"(3) deps by (auto intro: trancl_into_trancl)
    have m1: "met_from A ext1"
      by (rule "2.IH"(3) [OF False s known _ S' _ "2.prems"(5-7)]) (use "2.prems"(2) e1(1) in auto)
    have V1: "fst ?st1 \<inter> set (jm_keys m) \<subseteq> insert n (A \<union> set (names ext1)) \<union> S"
      using "2.prems"(2) e1(2) by auto
    have "d \<in> A \<union> set (names ext1)" if d: "d \<in> set (deps_of s)" for d
    proof -
      have "d \<notin> insert n S" using S' d "2.prems"(6) unfolding acyclic_def by blast
      with V1 known d e1(3) show ?thesis by auto
    qed
    moreover have "met_from (insert n (A \<union> set (names ext1))) ext2"
      by (rule "2.IH"(4) [OF False s refl _ _ _ _ "2.prems"(5-7), where S = S]) (use "2.prems"(1,3) V1 e2 in auto)
    ultimately show ?thesis using m1 n by (auto simp: ext met_from_append)
  qed
qed

lemma topologicalSort_result:
  "distinct (names (topologicalSort steps)) \<and> set (names (topologicalSort steps)) = set (names steps) \<and>
   (\<forall>s \<in> set (topologicalSort steps). jm_get (by_name steps) (st_name s) = Some s)"
proof -
  note b = by_name_facts [of steps]
  from visit_all_result [OF conjunct1 [OF b], of "names steps" "({}, [])"] b
  show ?thesis unfolding topologicalSort_def by auto
qed

lemma topologicalSort_meets: "startable steps \<Longrightarrow> met_from {} (topologicalSort steps)"
  using by_name_facts [of steps] unfolding topologicalSort_def startable_def
  by (intro visit_all_met [of _ _ "({}, [])" _ "{}"]) auto

lemma takeWhile_before: "length (takeWhile (\<lambda>x. x \<noteq> d) (us @ d # vs)) \<le> length us"
  by (induction us) auto

lemma met_from_index:
  "met_from {} xs \<Longrightarrow> distinct (names xs) \<Longrightarrow> s \<in> set xs \<Longrightarrow> d \<in> set (deps_of s) \<Longrightarrow>
     length (takeWhile (\<lambda>x. x \<noteq> d) (names xs)) < length (takeWhile (\<lambda>x. x \<noteq> st_name s) (names xs))"
proof -
  assume a: "met_from {} xs" "distinct (names xs)" "s \<in> set xs" "d \<in> set (deps_of s)"
  then obtain ys zs where xs: "xs = ys @ s # zs" by (meson split_list)
  with a have "d \<in> set (names ys)" "st_name s \<notin> set (names ys)" by (auto simp: met_from_append)
  moreover from this obtain us vs where ys: "names ys = us @ d # vs" by (meson split_list)
  then have "names xs = us @ d # (vs @ names (s # zs))" by (simp add: xs)
  then have "length (takeWhile (\<lambda>x. x \<noteq> d) (names xs)) \<le> length us"
    by (simp add: takeWhile_before)
  moreover have "length us < length (names ys)" unfolding ys by simp
  moreover have "takeWhile (\<lambda>x. x \<noteq> st_name s) (names xs) = names ys"
    using \<open>st_name s \<notin> set (names ys)\<close> by (auto simp: xs intro!: takeWhile_append2 [THEN trans])
  ultimately show ?thesis by simp
qed

lemma met_from_startable:
  assumes "met_from {} (topologicalSort steps)"
  shows "startable steps"
proof -
  let ?xs = "topologicalSort steps"
  let ?f = "\<lambda>x. length (takeWhile (\<lambda>y. y \<noteq> x) (names ?xs))"
  note r = topologicalSort_result [of steps]
  have step: "\<exists>s \<in> set ?xs. st_name s = x \<and> y \<in> set (deps_of s)" if "(x, y) \<in> dep_edges (by_name steps)" for x y
  proof -
    from that obtain s where s: "jm_get (by_name steps) x = Some s" "y \<in> set (deps_of s)" by (auto simp: dep_edges_def)
    then have "x \<in> set (names ?xs)" using r by_name_facts [of steps] jm_get_keys [OF s(1)] by simp
    then obtain s' where "s' \<in> set ?xs" "st_name s' = x" by auto
    with r s show ?thesis by force
  qed
  have "(dep_edges (by_name steps))\<inverse> \<subseteq> measure ?f"
    using step met_from_index [OF assms] r by fastforce
  then have "acyclic ((dep_edges (by_name steps))\<inverse>)" using acyclic_subset wf_acyclic wf_measure by blast
  moreover have "Range (dep_edges (by_name steps)) \<subseteq> set (names steps)"
  proof
    fix y assume "y \<in> Range (dep_edges (by_name steps))"
    then obtain x s where s: "s \<in> set ?xs" "y \<in> set (deps_of s)" using step by blast
    then obtain ys zs where "?xs = ys @ s # zs" by (meson split_list)
    moreover from this assms s have "y \<in> set (names ys)" by (auto simp: met_from_append)
    ultimately have "y \<in> set (names ?xs)" by auto
    then show "y \<in> set (names steps)" using r by simp
  qed
  ultimately show ?thesis by (simp add: startable_def)
qed

lemma startable_iff: "startable steps \<longleftrightarrow> met_from {} (topologicalSort steps)"
  using met_from_startable topologicalSort_meets by blast

end
