(* ===== verification/RuntimeStartupRuns.thy ===== *)
theory RuntimeStartupRuns
  imports RuntimeStartup
begin

text \<open>
  The runs of the startup manager: the calls each run makes under every interleaving of
  events, and the outcomes when all promises resolve, when one is rejected, and when the timer
  wins.
\<close>

subsection \<open>The calls of a run\<close>

fun call_run :: "startup_call \<Rightarrow> nat" where
  "call_run (Startup_called k n) = k"
| "call_run (Startup_resolved k n) = k"
| "call_run (Startup_rejected k n) = k"
| "call_run (Rollback_called k n) = k"

abbreviation calls_of :: "nat \<Rightarrow> startup_manager \<Rightarrow> startup_call list" where
  "calls_of k m \<equiv> filter (\<lambda>c. call_run c = k) (sm_log m)"

definition resolved :: "nat \<Rightarrow> startup_step list \<Rightarrow> startup_call list" where
  "resolved k ss = concat (map (\<lambda>s. [Startup_called k (st_name s), Startup_resolved k (st_name s)]) ss)"

definition rejected :: "nat \<Rightarrow> startup_step \<Rightarrow> startup_call list" where
  "rejected k s = [Startup_called k (st_name s), Startup_rejected k (st_name s)]"

definition rollbacks :: "nat \<Rightarrow> startup_step list \<Rightarrow> startup_call list" where
  "rollbacks k ss = map (\<lambda>s. Rollback_called k (st_name s)) (filter st_rollback ss)"

lemma call_lists [simp]:
  "resolved k [] = []" "resolved k (xs @ ys) = resolved k xs @ resolved k ys"
  "resolved k (s # xs) = Startup_called k (st_name s) # Startup_resolved k (st_name s) # resolved k xs"
  "rollbacks k [] = []" "rollbacks k (xs @ ys) = rollbacks k xs @ rollbacks k ys"
  "rollbacks k (s # xs) = (if st_rollback s then [Rollback_called k (st_name s)] else []) @ rollbacks k xs"
  by (simp_all add: resolved_def rollbacks_def)

text \<open>
  The calls a run may have made: the steps \<open>don\<close> have resolved in order, each after its
  dependencies; then nothing, or a call of the next step, or its rejection and the rollbacks of
  some last of the resolved steps in reverse order.
\<close>

definition run_trace :: "nat \<Rightarrow> startup_step list \<Rightarrow> startup_step list \<Rightarrow> startup_call list \<Rightarrow> bool" where
  "run_trace k don rest cs \<longleftrightarrow> met_from {} don \<and>
     (cs = resolved k don \<or>
      (\<exists>s rest'. rest = s # rest' \<and> met_from {} (don @ [s]) \<and>
        (cs = resolved k don @ [Startup_called k (st_name s)] \<or>
         (\<exists>rb later. rev don = rb @ later \<and> cs = resolved k don @ rejected k s @ rollbacks k rb))))"

text \<open>The same, with the place of the run.\<close>

definition run_place :: "nat \<Rightarrow> startup_step list \<Rightarrow> startup_step list \<Rightarrow> run_at \<Rightarrow> startup_call list \<Rightarrow> bool" where
  "run_place k don rest a cs = (case a of
     At_startup ss \<Rightarrow> ss = rest \<and> (\<exists>s rest'. rest = s # rest' \<and> met_from {} (don @ [s]) \<and>
       cs = resolved k don @ [Startup_called k (st_name s)])
   | At_rollback ns f \<Rightarrow> \<exists>s rest' rb later. rest = s # rest' \<and> met_from {} (don @ [s]) \<and>
       rev don = rb @ later \<and> ns = names later \<and> cs = resolved k don @ rejected k s @ rollbacks k rb
   | Run_done \<Rightarrow> run_trace k don rest cs)"

definition run_ok :: "nat \<Rightarrow> startup_run \<Rightarrow> startup_call list \<Rightarrow> bool" where
  "run_ok k r cs \<longleftrightarrow> distinct (names (run_sorted r)) \<and>
     (\<exists>don rest. run_sorted r = don @ rest \<and> run_started r = names don \<and> met_from {} don \<and>
       run_place k don rest (run_at r) cs)"

lemma run_okI:
  "distinct (names (run_sorted r)) \<Longrightarrow> run_sorted r = don @ rest \<Longrightarrow> run_started r = names don \<Longrightarrow>
     met_from {} don \<Longrightarrow> run_place k don rest (run_at r) cs \<Longrightarrow> run_ok k r cs"
  by (auto simp: run_ok_def)

lemma run_trace_rolled:
  "met_from {} (don @ [s]) \<Longrightarrow> rev don = rb @ later \<Longrightarrow>
     run_trace k don (s # rest) (resolved k don @ rejected k s @ rollbacks k rb)"
  by (auto simp: run_trace_def met_from_append)

lemma run_ok_trace:
  "run_ok k r cs \<Longrightarrow>
     \<exists>don rest. run_sorted r = don @ rest \<and> run_started r = names don \<and> run_trace k don rest cs"
  by (cases "run_at r") (fastforce simp: run_ok_def run_place_def run_trace_def)+

subsection \<open>Events change one run\<close>

definition only_run :: "nat \<Rightarrow> startup_manager \<Rightarrow> startup_manager \<Rightarrow> bool" where
  "only_run k m m' \<longleftrightarrow> length (sm_runs m') = length (sm_runs m) \<and>
     (\<forall>j. j \<noteq> k \<longrightarrow> sm_runs m' ! j = sm_runs m ! j \<and> calls_of j m' = calls_of j m)"

lemma only_run_refl [simp]: "only_run k m m"
  by (simp add: only_run_def)

lemma only_run_trans: "only_run k m m1 \<Longrightarrow> only_run k m1 m2 \<Longrightarrow> only_run k m m2"
  by (simp add: only_run_def)

lemma only_run_basic [simp]:
  "only_run k m (on_run k f m') \<longleftrightarrow> only_run k m m'" "only_run k m (updateStatus p a b c m') \<longleftrightarrow> only_run k m m'"
  "only_run k m (finish_run k m') \<longleftrightarrow> only_run k m m'"
  "call_run c' = k \<Longrightarrow> only_run k m (note_call c' m') \<longleftrightarrow> only_run k m m'"
  by (simp_all add: only_run_def on_run_def updateStatus_def finish_run_def note_call_def)

lemma run_basic [simp]:
  "sm_runs (updateStatus p a b c m) = sm_runs m" "sm_runs (note_call c' m) = sm_runs m"
  "sm_log (updateStatus p a b c m) = sm_log m" "sm_log (on_run k f m) = sm_log m"
  "sm_log (finish_run k m) = sm_log m" "sm_log (note_call c' m) = sm_log m @ [c']"
  "length (sm_runs (on_run k f m)) = length (sm_runs m)" "length (sm_runs (finish_run k m)) = length (sm_runs m)"
  "sm_status (updateStatus p a b c m) =
     \<lparr>su_phase = p, su_startedSteps = a, su_failedStep = b, su_durationMs = c\<rparr>"
  "sm_status (note_call c' m) = sm_status m" "sm_status (on_run k f m) = sm_status m"
  "sm_status (finish_run k m) = sm_status m"
  "k < length (sm_runs m) \<Longrightarrow> sm_runs (on_run k f m) ! k = f (sm_runs m ! k)"
  "k < length (sm_runs m) \<Longrightarrow> sm_runs (finish_run k m) ! k = (sm_runs m ! k)\<lparr>run_at := Run_done,
     run_race := (if run_race (sm_runs m ! k) = Racing then Steps_won else run_race (sm_runs m ! k))\<rparr>"
  by (simp_all add: on_run_def updateStatus_def finish_run_def note_call_def)

lemma run_steps_only: "only_run k m (run_steps k now ss m)"
  by (cases ss) simp_all

lemma roll_back_only: "only_run k m (roll_back k now ns f m)"
  by (induction k now ns f m rule: roll_back.induct)
    (simp_all split: option.split)

lemma run_steps_ok:
  assumes "k < length (sm_runs m)" and "distinct (names (run_sorted (sm_runs m ! k)))"
    and "run_sorted (sm_runs m ! k) = don @ ss" and "run_started (sm_runs m ! k) = names don"
    and "met_from {} don" and "calls_of k m = resolved k don"
  shows "run_ok k (sm_runs (run_steps k now ss m) ! k) (calls_of k (run_steps k now ss m))"
proof (cases ss)
  case Nil
  show ?thesis by (rule run_okI [of _ don "[]"]) (use assms Nil in \<open>simp_all add: run_place_def run_trace_def\<close>)
next
  case (Cons s rest)
  show ?thesis
  proof (cases "unmet s (names don) = []")
    case True
    then have "met_from {} (don @ [s])" using assms(5) by (auto simp: unmet_def met_from_append filter_empty_conv)
    then show ?thesis
      by (intro run_okI [of _ don ss]) (use assms Cons True in \<open>simp_all add: run_place_def\<close>)
  next
    case False
    show ?thesis
      by (rule run_okI [of _ don ss]) (use assms Cons False in \<open>simp_all add: run_place_def run_trace_def\<close>)
  qed
qed

lemma find_named:
  "distinct (names xs) \<Longrightarrow> s \<in> set xs \<Longrightarrow> find (\<lambda>x. st_name x = st_name s) xs = Some s"
  by (induction xs) (auto simp: image_iff)

lemma roll_back_ok:
  assumes "k < length (sm_runs m)" and "distinct (names (run_sorted (sm_runs m ! k)))"
    and "run_sorted (sm_runs m ! k) = don @ s # rest" and "run_started (sm_runs m ! k) = names don"
    and "met_from {} (don @ [s])" and "rev don = rb @ later"
    and "calls_of k m = resolved k don @ rejected k s @ rollbacks k rb"
  shows "run_ok k (sm_runs (roll_back k now (names later) f m) ! k) (calls_of k (roll_back k now (names later) f m))"
  using assms
proof (induction later arbitrary: rb)
  case Nil
  then have "met_from {} don" by (simp add: met_from_append)
  then show ?case
    by (intro run_okI [of _ don "s # rest"])
      (use Nil run_trace_rolled [of don s "rev don" "[]" k rest] in \<open>simp_all add: run_place_def\<close>)
next
  case (Cons x later)
  have "x \<in> set (rev don)" unfolding Cons.prems(6) by simp
  then have f: "find (\<lambda>s. st_name s = st_name x) (run_sorted (sm_runs m ! k)) = Some x"
    using find_named [OF Cons.prems(2), of x] Cons.prems(3) by simp
  show ?case
  proof (cases "st_rollback x")
    case True
    have "met_from {} don" using Cons.prems(5) by (simp add: met_from_append)
    moreover have "run_place k don (s # rest) (At_rollback (names later) f)
        (resolved k don @ rejected k s @ rollbacks k (rb @ [x]))"
      unfolding run_place_def run_at.case
      by (rule exI [of _ s], rule exI [of _ rest], rule exI [of _ "rb @ [x]"], rule exI [of _ later])
        (use Cons.prems(5,6) in simp)
    ultimately show ?thesis
      by (intro run_okI [of _ don "s # rest"]) (use True f Cons.prems in simp_all)
  next
    case False
    then have "roll_back k now (names (x # later)) f m = roll_back k now (names later) f m" using f by simp
    moreover have "rev don = (rb @ [x]) @ later" using Cons.prems(6) by simp
    ultimately show ?thesis using Cons.IH [of "rb @ [x]"] Cons.prems False by simp
  qed
qed

subsection \<open>The invariant\<close>

definition runs_ok :: "startup_manager \<Rightarrow> bool" where
  "runs_ok m \<longleftrightarrow> (\<forall>k < length (sm_runs m). run_ok k (sm_runs m ! k) (calls_of k m)) \<and>
     (\<forall>c \<in> set (sm_log m). call_run c < length (sm_runs m))"

lemma runs_ok_only:
  assumes "runs_ok m" and "only_run k m m'" and "k < length (sm_runs m)"
    and "run_ok k (sm_runs m' ! k) (calls_of k m')"
  shows "runs_ok m'"
proof -
  have "call_run c < length (sm_runs m')" if "c \<in> set (sm_log m')" for c
  proof (cases "call_run c = k")
    case True
    then show ?thesis using assms(2,3) by (simp add: only_run_def)
  next
    case False
    from that have "c \<in> set (calls_of (call_run c) m')" by simp
    also have "calls_of (call_run c) m' = calls_of (call_run c) m" using assms(2) False by (simp add: only_run_def)
    finally show ?thesis using assms(1,2) by (simp add: runs_ok_def only_run_def)
  qed
  moreover have "run_ok j (sm_runs m' ! j) (calls_of j m')" if "j < length (sm_runs m')" for j
    using assms that by (cases "j = k") (simp_all add: runs_ok_def only_run_def)
  ultimately show ?thesis by (simp add: runs_ok_def)
qed

lemma runs_ok_start:
  assumes "runs_ok m"
  shows "runs_ok (start_startup now m)"
proof -
  let ?k = "length (sm_runs m)"
  let ?r = "\<lparr>run_start = now, run_sorted = topologicalSort (sm_steps m), run_started = [],
    run_at = At_startup (topologicalSort (sm_steps m)), run_race = Racing, run_returned = None\<rparr>"
  let ?m = "(updateStatus S_starting None None None m)\<lparr>sm_runs := sm_runs m @ [?r]\<rparr>"
  have none: "calls_of ?k ?m = []" using assms by (fastforce simp: runs_ok_def filter_empty_conv)
  have eq: "start_startup now m = run_steps ?k now (topologicalSort (sm_steps m)) ?m"
    by (simp add: start_startup_def Let_def updateStatus_def)
  have o: "only_run ?k ?m (start_startup now m)" unfolding eq by (rule run_steps_only)
  have "run_ok ?k (sm_runs (start_startup now m) ! ?k) (calls_of ?k (start_startup now m))"
    unfolding eq by (rule run_steps_ok [where don = "[]"]) (use none topologicalSort_result in simp_all)
  moreover have "run_ok j (sm_runs (start_startup now m) ! j) (calls_of j (start_startup now m))" if "j < ?k" for j
    using o assms that by (simp add: only_run_def runs_ok_def nth_append)
  moreover have "call_run c < Suc ?k" if "c \<in> set (sm_log (start_startup now m))" for c
  proof (cases "call_run c = ?k")
    case False
    from that have "c \<in> set (calls_of (call_run c) (start_startup now m))" by simp
    also have "calls_of (call_run c) (start_startup now m) = calls_of (call_run c) m" using o False by (simp add: only_run_def)
    finally show ?thesis using assms by (auto simp: runs_ok_def)
  qed simp
  moreover have "length (sm_runs (start_startup now m)) = Suc ?k" using o by (simp add: only_run_def)
  ultimately show ?thesis by (auto simp: runs_ok_def less_Suc_eq)
qed

lemma runs_ok_settle:
  assumes "runs_ok m"
  shows "runs_ok (settle k b now m)"
proof (cases "k < length (sm_runs m)")
  case k: True
  let ?r = "sm_runs m ! k"
  have r: "run_ok k ?r (calls_of k m)" using assms k by (simp add: runs_ok_def)
  then obtain don rest where p: "distinct (names (run_sorted ?r))" "run_sorted ?r = don @ rest"
    "run_started ?r = names don" "met_from {} don" "run_place k don rest (run_at ?r) (calls_of k m)"
    by (auto simp: run_ok_def)
  show ?thesis
  proof (cases "run_at ?r")
    case (At_startup ss)
    with p(5) obtain s rest' where s: "ss = s # rest'" "rest = s # rest'" "met_from {} (don @ [s])"
      "calls_of k m = resolved k don @ [Startup_called k (st_name s)]" by (auto simp: run_place_def)
    show ?thesis
    proof (cases b)
      case True
      let ?m = "note_call (Startup_resolved k (st_name s)) (on_run k (\<lambda>r. r\<lparr>run_started := run_started r @ [st_name s]\<rparr>) m)"
      have eq: "settle k b now m = run_steps k now rest' ?m" using k At_startup s True by (simp add: settle_def)
      have "only_run k m (settle k b now m)" unfolding eq
        by (rule only_run_trans [of k m ?m]) (simp_all add: run_steps_only)
      moreover have "run_ok k (sm_runs (settle k b now m) ! k) (calls_of k (settle k b now m))"
        unfolding eq by (rule run_steps_ok [where don = "don @ [s]"]) (use k p s in simp_all)
      ultimately show ?thesis using runs_ok_only [OF assms _ k] by blast
    next
      case False
      let ?m = "updateStatus S_failed (Some k) (Some (st_name s)) (elapsed k now m)
        (note_call (Startup_rejected k (st_name s)) m)"
      have eq: "settle k b now m = roll_back k now (names (rev don)) (st_name s) ?m"
        using k At_startup s False p(3) by (simp add: settle_def rev_map)
      have "only_run k m (settle k b now m)" unfolding eq
        by (rule only_run_trans [of k m ?m]) (simp_all add: roll_back_only)
      moreover have "run_ok k (sm_runs (settle k b now m) ! k) (calls_of k (settle k b now m))"
        unfolding eq by (rule roll_back_ok [where rb = "[]" and don = don and s = s and rest = rest'])
          (use k p s in \<open>simp_all add: rejected_def\<close>)
      ultimately show ?thesis using runs_ok_only [OF assms _ k] by blast
    qed
  next
    case (At_rollback ns f)
    with p(5) obtain s rest' rb later where s: "rest = s # rest'" "met_from {} (don @ [s])" "rev don = rb @ later"
      "ns = names later" "calls_of k m = resolved k don @ rejected k s @ rollbacks k rb" by (auto simp: run_place_def)
    have eq: "settle k b now m = roll_back k now (names later) f m" using k At_rollback s by (simp add: settle_def)
    have "run_ok k (sm_runs (settle k b now m) ! k) (calls_of k (settle k b now m))"
      unfolding eq by (rule roll_back_ok) (use k p s in simp_all)
    then show ?thesis using runs_ok_only [OF assms _ k] roll_back_only by (simp add: eq)
  next
    case Run_done
    then show ?thesis using assms k by (simp add: settle_def)
  qed
qed (use assms in \<open>simp add: settle_def\<close>)

lemma runs_ok_same:
  assumes "runs_ok m" and "sm_log m' = sm_log m" and "length (sm_runs m') = length (sm_runs m)"
    and "\<And>j. j < length (sm_runs m) \<Longrightarrow> run_sorted (sm_runs m' ! j) = run_sorted (sm_runs m ! j) \<and>
      run_started (sm_runs m' ! j) = run_started (sm_runs m ! j) \<and> run_at (sm_runs m' ! j) = run_at (sm_runs m ! j)"
  shows "runs_ok m'"
  using assms by (simp add: runs_ok_def run_ok_def)

lemma runs_ok_event:
  assumes "runs_ok m"
  shows "runs_ok (handle_startup e m)"
proof (cases e)
  case (Timer k)
  show ?thesis unfolding Timer
    by (rule runs_ok_same [OF assms]) (auto simp: timer_fires_def on_run_def nth_list_update)
next
  case (Resume k now)
  show ?thesis unfolding Resume
    by (rule runs_ok_same [OF assms]) (auto simp: resume_def on_run_def nth_list_update Let_def)
qed (use assms in \<open>simp_all add: runs_ok_start runs_ok_settle, simp_all add: addStep_def removeStep_def runs_ok_def\<close>)

lemma runs_ok_history: "runs_ok (startup_history evs steps)"
proof -
  have "runs_ok m \<Longrightarrow> runs_ok (fold handle_startup evs m)" for m
    by (induction evs arbitrary: m) (simp_all add: runs_ok_event)
  then show ?thesis by (simp add: startup_history_def createStartupManager_def runs_ok_def)
qed

text \<open>
  C17: however calls of \<open>start\<close>, settling promises, timers and changes of the steps interleave,
  each run calls the steps of its sorted list one at a time and in order, each after all its
  dependencies have resolved; it calls rollbacks only after the rejection of a step, which is
  the last it calls, and only for resolved steps, once each and in reverse order.
\<close>

theorem startup_trace:
  assumes "k < length (sm_runs (startup_history evs steps))"
  shows "distinct (map st_name (run_sorted (sm_runs (startup_history evs steps) ! k))) \<and>
    (\<exists>don rest. run_sorted (sm_runs (startup_history evs steps) ! k) = don @ rest \<and>
       run_started (sm_runs (startup_history evs steps) ! k) = map st_name don \<and>
       run_trace k don rest (calls_of k (startup_history evs steps)))"
proof -
  have "run_ok k (sm_runs (startup_history evs steps) ! k) (calls_of k (startup_history evs steps))"
    using runs_ok_history assms by (simp add: runs_ok_def)
  from this run_ok_trace [OF this] show ?thesis by (simp add: run_ok_def)
qed

lemma startup_trace_witness:
  "let m = startup_history [Start 0, Start 1, Settle 1 True 2] (Some [\<lparr>st_name = ''a'', st_dependencies = None, st_rollback = False\<rparr>])
   in \<exists>don rest. run_sorted (sm_runs m ! 1) = don @ rest \<and> run_started (sm_runs m ! 1) = map st_name don \<and>
        run_trace 1 don rest (calls_of 1 m)"
proof -
  let ?m = "startup_history [Start 0, Start 1, Settle 1 True 2] (Some [\<lparr>st_name = ''a'', st_dependencies = None, st_rollback = False\<rparr>])"
  have "1 < length (sm_runs ?m)" by code_simp
  from startup_trace [OF this] show ?thesis by (simp add: Let_def)
qed

end
