(* ===== verification/RuntimeOutcome.thy ===== *)
theory RuntimeOutcome
  imports RuntimeStartupRuns
begin

text \<open>
  The outcomes of one call of \<open>start\<close>: all promises resolve, one is rejected, or the timer
  wins.
\<close>

text \<open>The steps of a list up to the first one with an unmet dependency.\<close>

fun ready_prefix :: "string set \<Rightarrow> startup_step list \<Rightarrow> startup_step list" where
  "ready_prefix A [] = []"
| "ready_prefix A (s # ss) =
     (if set (deps_of s) \<subseteq> A then s # ready_prefix (insert (st_name s) A) ss else [])"

lemma ready_prefix_full: "ready_prefix A ss = ss \<longleftrightarrow> met_from A ss"
  by (induction ss arbitrary: A) auto

lemma ready_prefix_stops:
  "\<not> met_from A ss \<Longrightarrow> \<exists>s rest. ss = ready_prefix A ss @ s # rest \<and>
     \<not> set (deps_of s) \<subseteq> A \<union> set (names (ready_prefix A ss))"
proof (induction ss arbitrary: A)
  case (Cons s ss)
  show ?case
  proof (cases "set (deps_of s) \<subseteq> A")
    case True
    with Cons.prems have "\<not> met_from (insert (st_name s) A) ss" by simp
    from Cons.IH [OF this] obtain s' rest where "ss = ready_prefix (insert (st_name s) A) ss @ s' # rest"
      "\<not> set (deps_of s') \<subseteq> insert (st_name s) A \<union> set (names (ready_prefix (insert (st_name s) A) ss))" by blast
    with True show ?thesis by (intro exI [of _ s'] exI [of _ rest]) auto
  qed auto
qed simp

abbreviation resolve :: "nat \<Rightarrow> instant \<Rightarrow> startup_event" where
  "resolve k t \<equiv> Settle k True t"

lemma settles_done: "run_at (sm_runs m ! k) = Run_done \<Longrightarrow> fold handle_startup (replicate n (Settle k b t)) m = m"
  by (induction n) (simp_all add: settle_def)

lemma unmet_Nil: "unmet s xs = [] \<longleftrightarrow> set (deps_of s) \<subseteq> set xs"
  by (auto simp: unmet_def filter_empty_conv)

text \<open>From the head of the loop with the steps \<open>don\<close> resolved, when all further promises resolve.\<close>

lemma all_resolve:
  assumes "k < length (sm_runs m)" and "run_started (sm_runs m ! k) = names don" and "length ss \<le> n"
  shows "let m' = fold handle_startup (replicate n (resolve k t)) (run_steps k t0 ss m);
             pre = ready_prefix (set (names don)) ss
    in k < length (sm_runs m') \<and> run_at (sm_runs m' ! k) = Run_done \<and>
       run_started (sm_runs m' ! k) = names (don @ pre) \<and> calls_of k m' = calls_of k m @ resolved k pre \<and>
       su_phase (sm_status m') = (if met_from (set (names don)) ss then S_running else S_failed) \<and>
       su_startedSteps (sm_status m') = Some k \<and>
       su_failedStep (sm_status m') =
         (if met_from (set (names don)) ss then None else Some (st_name (ss ! length pre)))"
  using assms
proof (induction ss arbitrary: m don n t0)
  case Nil
  then have "run_at (sm_runs (run_steps k t0 [] m) ! k) = Run_done" by simp
  from settles_done [OF this] Nil show ?case by (simp add: Let_def)
next
  case (Cons s ss)
  show ?case
  proof (cases "set (deps_of s) \<subseteq> set (names don)")
    case True
    from Cons.prems obtain n' where n: "n = Suc n'" by (cases n) auto
    let ?called = "note_call (Startup_called k (st_name s)) (on_run k (\<lambda>r. r\<lparr>run_at := At_startup (s # ss)\<rparr>) m)"
    let ?m = "note_call (Startup_resolved k (st_name s)) (on_run k (\<lambda>r. r\<lparr>run_started := run_started r @ [st_name s]\<rparr>) ?called)"
    have r: "run_steps k t0 (s # ss) m = ?called" using True Cons.prems by (simp add: unmet_Nil)
    have "settle k True t ?called = run_steps k t ss ?m" using Cons.prems(1) by (simp add: settle_def)
    then have "fold handle_startup (replicate n (resolve k t)) (run_steps k t0 (s # ss) m) =
        fold handle_startup (replicate n' (resolve k t)) (run_steps k t ss ?m)"
      unfolding r n by simp
    moreover have "k < length (sm_runs ?m)" "run_started (sm_runs ?m ! k) = names (don @ [s])" "length ss \<le> n'"
      using Cons.prems n by simp_all
    ultimately show ?thesis using Cons.IH [of ?m "don @ [s]" n' t] True by (simp add: Let_def)
  next
    case False
    then have r: "run_steps k t0 (s # ss) m = finish_run k (updateStatus S_failed (Some k) (Some (st_name s)) (elapsed k t0 m) m)"
      using Cons.prems by (simp add: unmet_Nil)
    then have "run_at (sm_runs (run_steps k t0 (s # ss) m) ! k) = Run_done" using Cons.prems by simp
    from settles_done [OF this] Cons.prems False r show ?thesis by (simp add: Let_def)
  qed
qed

definition fresh_run :: "instant \<Rightarrow> startup_step list \<Rightarrow> startup_manager" where
  "fresh_run t steps = (updateStatus S_starting None None None (createStartupManager (Some steps)))
     \<lparr>sm_runs := [\<lparr>run_start = t, run_sorted = topologicalSort steps, run_started = [],
        run_at = At_startup (topologicalSort steps), run_race = Racing, run_returned = None\<rparr>]\<rparr>"

lemma start_first: "start_startup t (createStartupManager (Some steps)) = run_steps 0 t (topologicalSort steps) (fresh_run t steps)"
  by (simp add: start_startup_def fresh_run_def createStartupManager_def updateStatus_def Let_def)

lemma fresh_run_simps [simp]:
  "length (sm_runs (fresh_run t steps)) = 1" "run_started (sm_runs (fresh_run t steps) ! 0) = []"
  "run_sorted (sm_runs (fresh_run t steps) ! 0) = topologicalSort steps" "sm_log (fresh_run t steps) = []"
  "run_race (sm_runs (fresh_run t steps) ! 0) = Racing" "run_returned (sm_runs (fresh_run t steps) ! 0) = None"
  "su_failedStep (sm_status (fresh_run t steps)) = None"
  by (simp_all add: fresh_run_def createStartupManager_def updateStatus_def)

lemma sorted_length: "length (topologicalSort steps) \<le> length steps"
proof -
  note r = topologicalSort_result [of steps]
  have "length (topologicalSort steps) = card (set (names (topologicalSort steps)))"
    using distinct_card [of "names (topologicalSort steps)"] r by simp
  also have "\<dots> \<le> length steps" using card_length [of "names steps"] r by simp
  finally show ?thesis .
qed

text \<open>
  C18: when every promise resolves before the timer, \<open>start\<close> ends with all steps started and
  the phase running exactly if all dependencies are known and free of cycles. Otherwise it
  fails at the first step of the sorted list with an unmet dependency, with the steps before it
  started and none rolled back.
\<close>

theorem startup_outcome:
  assumes "length steps \<le> n"
  shows "let m = startup_history (Start t # replicate n (resolve 0 t1)) (Some steps)
    in su_phase (sm_status m) = (if startable steps then S_running else S_failed) \<and>
       (startable steps \<longrightarrow> set (started_now m (sm_status m)) = set (map st_name steps)) \<and>
       (\<not> startable steps \<longrightarrow> (\<exists>s rest. topologicalSort steps = ready_prefix {} (topologicalSort steps) @ s # rest \<and>
          started_now m (sm_status m) = map st_name (ready_prefix {} (topologicalSort steps)) \<and>
          su_failedStep (sm_status m) = Some (st_name s) \<and> unmet s (started_now m (sm_status m)) \<noteq> [])) \<and>
       calls_of 0 m = resolved 0 (ready_prefix {} (topologicalSort steps))"
proof -
  let ?m = "startup_history (Start t # replicate n (resolve 0 t1)) (Some steps)"
  let ?s = "topologicalSort steps" and ?p = "ready_prefix {} (topologicalSort steps)"
  have eq: "?m = fold handle_startup (replicate n (resolve 0 t1)) (run_steps 0 t ?s (fresh_run t steps))"
    by (simp add: startup_history_def start_first)
  have f: "run_started (sm_runs ?m ! 0) = names ?p" "calls_of 0 ?m = resolved 0 ?p"
    "su_phase (sm_status ?m) = (if startable steps then S_running else S_failed)"
    "su_startedSteps (sm_status ?m) = Some 0"
    "su_failedStep (sm_status ?m) = (if startable steps then None else Some (st_name (?s ! length ?p)))"
    using all_resolve [of 0 "fresh_run t steps" "[]" ?s n t1 t] sorted_length [of steps] assms
    unfolding eq startable_iff by (simp_all add: Let_def)
  then have st: "started_now ?m (sm_status ?m) = names ?p" by (simp add: started_now_def)
  have "set (names ?p) = set (names steps)" if "startable steps"
    using that topologicalSort_result [of steps] by (simp add: startable_iff flip: ready_prefix_full)
  moreover have "\<exists>s rest. ?s = ?p @ s # rest \<and> su_failedStep (sm_status ?m) = Some (st_name s) \<and> unmet s (names ?p) \<noteq> []"
    if no: "\<not> startable steps"
  proof -
    from no ready_prefix_stops [of "{}" ?s] obtain s rest where s: "?s = ?p @ s # rest"
      "\<not> set (deps_of s) \<subseteq> set (names ?p)" by (auto simp: startable_iff)
    from s(1) have "?s ! length ?p = s" by (metis nth_append_length)
    with s f(5) no show ?thesis by (auto simp: unmet_Nil)
  qed
  ultimately show ?thesis using f st by (simp add: Let_def)
qed

text \<open>From a state that awaits the first of \<open>ss\<close>.\<close>

lemma awaiting_resolve:
  assumes "k < length (sm_runs m)" and "run_started (sm_runs m ! k) = names don"
    and "run_at (sm_runs m ! k) = At_startup ss" and "met_from (set (names don)) ss" and "ss \<noteq> []"
    and "length ss \<le> n"
  shows "let m' = fold handle_startup (replicate n (resolve k t)) m
    in run_started (sm_runs m' ! k) = names (don @ ss) \<and> su_phase (sm_status m') = S_running \<and>
       su_startedSteps (sm_status m') = Some k \<and> su_failedStep (sm_status m') = None"
proof -
  from assms(5,6) obtain s rest n' where n: "ss = s # rest" "n = Suc n'" by (cases ss; cases n) auto
  let ?next = "note_call (Startup_resolved k (st_name s)) (on_run k (\<lambda>r. r\<lparr>run_started := run_started r @ [st_name s]\<rparr>) m)"
  have "settle k True t m = run_steps k t rest ?next" using assms(1,3) n by (simp add: settle_def)
  then have "fold handle_startup (replicate n (resolve k t)) m =
      fold handle_startup (replicate n' (resolve k t)) (run_steps k t rest ?next)" unfolding n by simp
  moreover have "ready_prefix (set (names (don @ [s]))) rest = rest" "met_from (set (names (don @ [s]))) rest"
    using assms(4) n(1) by (simp_all add: ready_prefix_full)
  ultimately show ?thesis using all_resolve [of k ?next "don @ [s]" rest n' t t] assms n by (simp add: Let_def)
qed

lemma started_first:
  assumes "startable steps" and "steps \<noteq> []"
  shows "\<exists>s ss. topologicalSort steps = s # ss \<and> start_startup t (createStartupManager (Some steps)) =
    note_call (Startup_called 0 (st_name s)) (on_run 0 (\<lambda>r. r\<lparr>run_at := At_startup (s # ss)\<rparr>) (fresh_run t steps))"
proof -
  have "topologicalSort steps \<noteq> []" using topologicalSort_result [of steps] assms(2) by force
  then obtain s ss where s: "topologicalSort steps = s # ss" by (cases "topologicalSort steps") auto
  with assms(1) have "unmet s [] = []" by (simp add: startable_iff unmet_Nil)
  with s show ?thesis by (simp add: start_first)
qed

text \<open>
  When the timer wins, \<open>start\<close> returns the phase failed with the failed step 'timeout',
  whatever the steps. Its steps go on all the same: once their promises resolve, every step of
  a startable list has been started and the manager reports the phase running.
\<close>

theorem run_outlives_its_timeout:
  assumes "startable steps" and "steps \<noteq> []" and "length steps \<le> n"
  shows "let m1 = startup_history [Start t, Timer 0, Resume 0 t1] (Some steps);
             m2 = fold handle_startup (replicate n (resolve 0 t2)) m1
    in run_returned (sm_runs m1 ! 0) = Some \<lparr>su_phase = S_failed, su_startedSteps = Some 0,
         su_failedStep = Some ''timeout'', su_durationMs = Some (t1 - t)\<rparr> \<and>
       started_now m1 (sm_status m1) = [] \<and> su_phase (sm_status m2) = S_running \<and>
       su_failedStep (sm_status m2) = None \<and> set (started_now m2 (sm_status m2)) = set (map st_name steps)"
proof -
  let ?m = "startup_history [Start t, Timer 0, Resume 0 t1] (Some steps)"
  obtain s ss where s: "topologicalSort steps = s # ss" and m: "start_startup t (createStartupManager (Some steps)) =
      note_call (Startup_called 0 (st_name s)) (on_run 0 (\<lambda>r. r\<lparr>run_at := At_startup (s # ss)\<rparr>) (fresh_run t steps))"
    using started_first [OF assms(1,2)] by blast
  have f: "length (sm_runs ?m) = 1" "run_started (sm_runs ?m ! 0) = []" "run_at (sm_runs ?m ! 0) = At_startup (s # ss)"
    "run_returned (sm_runs ?m ! 0) = Some \<lparr>su_phase = S_failed, su_startedSteps = Some 0,
         su_failedStep = Some ''timeout'', su_durationMs = Some (t1 - t)\<rparr>"
    "su_startedSteps (sm_status ?m) = Some 0"
    by (simp_all add: startup_history_def m timer_fires_def resume_def elapsed_def Let_def, simp_all add: fresh_run_def)
  have "met_from (set (names [])) (s # ss)" using assms(1) s by (simp add: startable_iff)
  with awaiting_resolve [of 0 ?m "[]" "s # ss" n t2] f sorted_length [of steps] assms(3) s topologicalSort_result [of steps]
  show ?thesis by (auto simp: Let_def started_now_def)
qed

subsection \<open>A rejected step\<close>

lemma resolve_until:
  assumes "k < length (sm_runs m)" and "run_started (sm_runs m ! k) = names don"
    and "met_from (set (names don)) (xs @ [s])"
  shows "let m' = fold handle_startup (replicate (length xs) (resolve k t)) (run_steps k t0 (xs @ s # rest) m)
    in k < length (sm_runs m') \<and> run_sorted (sm_runs m' ! k) = run_sorted (sm_runs m ! k) \<and>
       run_started (sm_runs m' ! k) = names (don @ xs) \<and> run_at (sm_runs m' ! k) = At_startup (s # rest) \<and>
       calls_of k m' = calls_of k m @ resolved k xs @ [Startup_called k (st_name s)]"
  using assms
proof (induction xs arbitrary: m don t0)
  case Nil
  then show ?case by (simp add: unmet_Nil Let_def)
next
  case (Cons x xs)
  let ?called = "note_call (Startup_called k (st_name x)) (on_run k (\<lambda>r. r\<lparr>run_at := At_startup (x # xs @ s # rest)\<rparr>) m)"
  let ?next = "note_call (Startup_resolved k (st_name x)) (on_run k (\<lambda>r. r\<lparr>run_started := run_started r @ [st_name x]\<rparr>) ?called)"
  have r: "run_steps k t0 ((x # xs) @ s # rest) m = ?called" using Cons.prems by (simp add: unmet_Nil)
  have "settle k True t ?called = run_steps k t (xs @ s # rest) ?next" using Cons.prems(1) by (simp add: settle_def)
  then have "fold handle_startup (replicate (length (x # xs)) (resolve k t)) (run_steps k t0 ((x # xs) @ s # rest) m) =
      fold handle_startup (replicate (length xs) (resolve k t)) (run_steps k t (xs @ s # rest) ?next)"
    unfolding r by simp
  then show ?case using Cons.IH [of ?next "don @ [x]" t] Cons.prems by (simp add: Let_def)
qed

lemma all_roll_back:
  assumes "k < length (sm_runs m)" and "distinct (names (run_sorted (sm_runs m ! k)))"
    and "set later \<subseteq> set (run_sorted (sm_runs m ! k))" and "length later \<le> n"
  shows "let m' = fold handle_startup (replicate n (Settle k b t)) (roll_back k t0 (names later) f m)
    in su_phase (sm_status m') = S_rolled_back \<and> su_failedStep (sm_status m') = Some f \<and>
       calls_of k m' = calls_of k m @ rollbacks k later"
  using assms
proof (induction later arbitrary: m n t0)
  case Nil
  then have "run_at (sm_runs (roll_back k t0 [] f m) ! k) = Run_done" by simp
  from settles_done [OF this] Nil show ?case by (simp add: Let_def)
next
  case (Cons x later)
  have f: "find (\<lambda>s. st_name s = st_name x) (run_sorted (sm_runs m ! k)) = Some x"
    using find_named [OF Cons.prems(2), of x] Cons.prems(3) by simp
  show ?case
  proof (cases "st_rollback x")
    case True
    from Cons.prems obtain n' where n: "n = Suc n'" by (cases n) auto
    let ?called = "note_call (Rollback_called k (st_name x)) (on_run k (\<lambda>r. r\<lparr>run_at := At_rollback (names later) f\<rparr>) m)"
    have r: "roll_back k t0 (names (x # later)) f m = ?called" using f True by simp
    have "settle k b t ?called = roll_back k t (names later) f ?called" using Cons.prems(1) by (simp add: settle_def)
    then have "fold handle_startup (replicate n (Settle k b t)) (roll_back k t0 (names (x # later)) f m) =
        fold handle_startup (replicate n' (Settle k b t)) (roll_back k t (names later) f ?called)"
      unfolding r n by simp
    then show ?thesis using Cons.IH [of ?called n' t] Cons.prems n True by (simp add: Let_def)
  next
    case False
    then show ?thesis using Cons.IH [of m n t0] Cons.prems f by (simp add: Let_def)
  qed
qed

text \<open>
  When the promise of a step of a startable list is rejected and the timer has not fired,
  the steps before it have started, and those of them with a rollback are rolled back once each,
  in reverse order, whether or not a rollback is rejected too; the phase is then rolled-back.
\<close>

theorem rejected_step_rolls_back:
  assumes "startable steps" and "topologicalSort steps = xs @ s # rest" and "length xs \<le> n"
  shows "let m = startup_history (Start t # replicate (length xs) (resolve 0 t1) @ Settle 0 False t2 # replicate n (Settle 0 b t3))
           (Some steps)
    in su_phase (sm_status m) = S_rolled_back \<and> su_failedStep (sm_status m) = Some (st_name s) \<and>
       calls_of 0 m = resolved 0 xs @ rejected 0 s @ rollbacks 0 (rev xs)"
proof -
  let ?m = "fold handle_startup (replicate (length xs) (resolve 0 t1)) (run_steps 0 t (xs @ s # rest) (fresh_run t steps))"
  have "met_from {} (xs @ [s])" using assms(1,2) by (simp add: startable_iff met_from_append)
  then have m: "0 < length (sm_runs ?m)" "run_sorted (sm_runs ?m ! 0) = xs @ s # rest"
    "run_started (sm_runs ?m ! 0) = names xs" "run_at (sm_runs ?m ! 0) = At_startup (s # rest)"
    "calls_of 0 ?m = resolved 0 xs @ [Startup_called 0 (st_name s)]"
    using resolve_until [of 0 "fresh_run t steps" "[]" xs s t1 t rest] assms(2) by (simp_all add: Let_def)
  let ?failed = "updateStatus S_failed (Some 0) (Some (st_name s)) (elapsed 0 t2 ?m)
    (note_call (Startup_rejected 0 (st_name s)) ?m)"
  have "settle 0 False t2 ?m = roll_back 0 t2 (names (rev xs)) (st_name s) ?failed"
    using m by (simp add: settle_def rev_map)
  then have h: "startup_history (Start t # replicate (length xs) (resolve 0 t1) @ Settle 0 False t2 # replicate n (Settle 0 b t3))
      (Some steps) = fold handle_startup (replicate n (Settle 0 b t3)) (roll_back 0 t2 (names (rev xs)) (st_name s) ?failed)"
    by (simp add: startup_history_def start_first assms(2))
  have "distinct (names (xs @ s # rest))" using topologicalSort_result [of steps] assms(2) by metis
  then have d: "distinct (names (run_sorted (sm_runs ?failed ! 0)))" "set (rev xs) \<subseteq> set (run_sorted (sm_runs ?failed ! 0))"
    using m(2) by auto
  have l: "0 < length (sm_runs ?failed)" "length (rev xs) \<le> n" using m(1) assms(3) by simp_all
  have c: "calls_of 0 ?failed = resolved 0 xs @ rejected 0 s" using m(5) by (simp add: rejected_def)
  show ?thesis
    using all_roll_back [OF l(1) d l(2), of b t3 t2 "st_name s"] unfolding h c Let_def by simp
qed

subsection \<open>A sample\<close>

definition sample_steps :: "startup_step list" where
  "sample_steps = [\<lparr>st_name = ''api'', st_dependencies = Some [''db''], st_rollback = True\<rparr>,
     \<lparr>st_name = ''db'', st_dependencies = None, st_rollback = True\<rparr>]"

lemma sample_sorted: "map st_name (topologicalSort sample_steps) = [''db'', ''api'']" and sample_startable: "startable sample_steps"
proof -
  show "map st_name (topologicalSort sample_steps) = [''db'', ''api'']" by code_simp
  have "met_from {} (topologicalSort sample_steps)" by code_simp
  then show "startable sample_steps" by (rule met_from_startable)
qed

lemma sample_length: "length sample_steps = 2" "sample_steps \<noteq> []" "set (map st_name sample_steps) = {''api'', ''db''}"
  by (simp_all add: sample_steps_def)

lemma startup_outcome_witness:
  "su_phase (sm_status (startup_history (Start 0 # replicate 2 (resolve 0 7)) (Some sample_steps))) = S_running"
  using startup_outcome [of sample_steps 2 0 7] sample_startable by (simp add: Let_def sample_length)

lemma run_outlives_its_timeout_witness:
  "let m1 = startup_history [Start 0, Timer 0, Resume 0 60000] (Some sample_steps);
       m2 = fold handle_startup (replicate 2 (resolve 0 90000)) m1
   in started_now m1 (sm_status m1) = [] \<and> su_phase (sm_status m2) = S_running \<and>
      set (started_now m2 (sm_status m2)) = {''api'', ''db''}"
  using run_outlives_its_timeout [OF sample_startable, of 2 0 60000 90000] sample_length by (simp add: Let_def)

lemma rejected_step_rolls_back_witness:
  "calls_of 0 (startup_history (Start 0 # replicate 1 (resolve 0 1) @ Settle 0 False 1 # replicate 1 (Settle 0 True 1))
     (Some sample_steps)) =
   [Startup_called 0 ''db'', Startup_resolved 0 ''db'', Startup_called 0 ''api'', Startup_rejected 0 ''api'',
    Rollback_called 0 ''db'']"
proof -
  let ?api = "sample_steps ! 0" and ?db = "sample_steps ! 1"
  have s: "topologicalSort sample_steps = [?db] @ ?api # []" by code_simp
  have r: "resolved 0 [?db] @ rejected 0 ?api @ rollbacks 0 (rev [?db]) =
     [Startup_called 0 ''db'', Startup_resolved 0 ''db'', Startup_called 0 ''api'', Startup_rejected 0 ''api'',
      Rollback_called 0 ''db'']" by code_simp
  from rejected_step_rolls_back [OF sample_startable s, of 1 0 1 1 True 1] r show ?thesis
    by (simp del: call_lists add: Let_def)
qed

end
