(* ===== verification/RuntimeShutdown.thy ===== *)
theory RuntimeShutdown
  imports RuntimeStartup
begin

text \<open>
  The shutdown manager of the runtime (packages/runtime/src/ShutdownManager.ts). Only the first
  call of \<open>shutdown\<close> does anything; it runs the steps in reverse order and races them against
  a timer, and the steps go on when the timer has won. A step is known by its name.
\<close>

datatype shutdown_phase = D_idle | D_shutting_down | D_stopped | D_timed_out

record shutdown_status =
  ds_phase :: shutdown_phase
  ds_startedAt :: "instant option"
  ds_completedAt :: "instant option"
  ds_durationMs :: "int option"
  ds_failedStep :: "string option"

datatype shutdown_call = Shutdown_called string | Shutdown_resolved string | Shutdown_rejected string

text \<open>
  \<open>sd_awaiting\<close> are the steps from the one whose promise the run waits for, if it waits.
\<close>

record shutdown_manager =
  sd_steps :: "string list"
  sd_phase :: shutdown_phase
  sd_startedAt :: "instant option"
  sd_completedAt :: "instant option"
  sd_failedStep :: "string option"
  sd_shuttingDown :: bool
  sd_handlers :: nat
  sd_awaiting :: "string list option"
  sd_start :: instant
  sd_race :: race
  sd_resumed :: bool
  sd_returned :: "shutdown_status list"
  sd_log :: "shutdown_call list"

definition createShutdownManager :: "string list option \<Rightarrow> shutdown_manager" where
  "createShutdownManager steps = \<lparr>sd_steps = override [] steps, sd_phase = D_idle, sd_startedAt = None,
     sd_completedAt = None, sd_failedStep = None, sd_shuttingDown = False, sd_handlers = 0,
     sd_awaiting = None, sd_start = 0, sd_race = Racing, sd_resumed = False, sd_returned = [], sd_log = []\<rparr>"

definition shutdown_status_of :: "shutdown_manager \<Rightarrow> shutdown_status" where
  "shutdown_status_of m = \<lparr>ds_phase = sd_phase m, ds_startedAt = sd_startedAt m, ds_completedAt = sd_completedAt m,
     ds_durationMs = (case (sd_completedAt m, sd_startedAt m) of (Some e, Some s) \<Rightarrow> Some (e - s) | _ \<Rightarrow> None),
     ds_failedStep = sd_failedStep m\<rparr>"

definition update_shutdown :: "shutdown_phase \<Rightarrow> instant option \<Rightarrow> instant option \<Rightarrow> string option
    \<Rightarrow> shutdown_manager \<Rightarrow> shutdown_manager" where
  "update_shutdown p start end' failed m =
     m\<lparr>sd_phase := p, sd_startedAt := start, sd_completedAt := end', sd_failedStep := failed\<rparr>"

definition note_shutdown :: "shutdown_call \<Rightarrow> shutdown_manager \<Rightarrow> shutdown_manager" where
  "note_shutdown c m = m\<lparr>sd_log := sd_log m @ [c]\<rparr>"

definition end_steps :: "shutdown_manager \<Rightarrow> shutdown_manager" where
  "end_steps m = m\<lparr>sd_awaiting := None, sd_race := (if sd_race m = Racing then Steps_won else sd_race m)\<rparr>"

text \<open>\<open>runSteps\<close> from the head of its loop to the next await.\<close>

fun shutdown_steps :: "instant \<Rightarrow> string list \<Rightarrow> shutdown_manager \<Rightarrow> shutdown_manager" where
  "shutdown_steps now [] m = end_steps (update_shutdown D_stopped (Some (sd_start m)) (Some now) None m)"
| "shutdown_steps now (s # ss) m = note_shutdown (Shutdown_called s) (m\<lparr>sd_awaiting := Some (s # ss)\<rparr>)"

text \<open>A later call returns the status of that moment at once.\<close>

definition shutdown_begin :: "instant \<Rightarrow> shutdown_manager \<Rightarrow> shutdown_manager" where
  "shutdown_begin now m =
     (if sd_shuttingDown m then m\<lparr>sd_returned := sd_returned m @ [shutdown_status_of m]\<rparr>
      else shutdown_steps now (rev (sd_steps m))
        (update_shutdown D_shutting_down (Some now) None None (m\<lparr>sd_shuttingDown := True, sd_start := now\<rparr>)))"

definition shutdown_settle :: "bool \<Rightarrow> instant \<Rightarrow> shutdown_manager \<Rightarrow> shutdown_manager" where
  "shutdown_settle resolved now m = (case sd_awaiting m of
     Some (s # ss) \<Rightarrow>
       if resolved then shutdown_steps now ss (note_shutdown (Shutdown_resolved s) m)
       else end_steps (update_shutdown D_timed_out (Some (sd_start m)) (Some now) (Some s)
         (note_shutdown (Shutdown_rejected s) m))
   | _ \<Rightarrow> m)"

definition shutdown_timer :: "shutdown_manager \<Rightarrow> shutdown_manager" where
  "shutdown_timer m = (if sd_shuttingDown m \<and> sd_race m = Racing then m\<lparr>sd_race := Timer_won\<rparr> else m)"

text \<open>The first call after its race, which it leaves once.\<close>

definition shutdown_resume :: "instant \<Rightarrow> shutdown_manager \<Rightarrow> shutdown_manager" where
  "shutdown_resume now m =
     (let m1 = (if sd_race m = Timer_won
                then update_shutdown D_timed_out (Some (sd_start m)) (Some now) (Some (override ''unknown'' (sd_failedStep m))) m
                else m)
      in if sd_race m = Racing \<or> sd_resumed m then m
         else m1\<lparr>sd_resumed := True, sd_returned := sd_returned m1 @ [shutdown_status_of m1]\<rparr>)"

definition add_shutdown_step :: "string \<Rightarrow> shutdown_manager \<Rightarrow> shutdown_manager" where
  "add_shutdown_step s m = m\<lparr>sd_steps := sd_steps m @ [s]\<rparr>"

definition remove_shutdown_step :: "string \<Rightarrow> shutdown_manager \<Rightarrow> shutdown_manager" where
  "remove_shutdown_step s m = m\<lparr>sd_steps := remove_first (\<lambda>x. x = s) (sd_steps m)\<rparr>"

definition installSignalHandlers :: "shutdown_manager \<Rightarrow> shutdown_manager" where
  "installSignalHandlers m = m\<lparr>sd_handlers := sd_handlers m + 1\<rparr>"

text \<open>A signal calls \<open>shutdown\<close> once for each time the handlers were installed.\<close>

definition on_signal :: "instant \<Rightarrow> shutdown_manager \<Rightarrow> shutdown_manager" where
  "on_signal now m = (shutdown_begin now ^^ sd_handlers m) m"

datatype shutdown_event =
    D_add string
  | D_remove string
  | D_install
  | D_signal instant
  | D_call instant
  | D_settle bool instant
  | D_timer
  | D_resume instant

fun handle_shutdown :: "shutdown_event \<Rightarrow> shutdown_manager \<Rightarrow> shutdown_manager" where
  "handle_shutdown (D_add s) m = add_shutdown_step s m"
| "handle_shutdown (D_remove s) m = remove_shutdown_step s m"
| "handle_shutdown D_install m = installSignalHandlers m"
| "handle_shutdown (D_signal now) m = on_signal now m"
| "handle_shutdown (D_call now) m = shutdown_begin now m"
| "handle_shutdown (D_settle b now) m = shutdown_settle b now m"
| "handle_shutdown D_timer m = shutdown_timer m"
| "handle_shutdown (D_resume now) m = shutdown_resume now m"

subsection \<open>The calls of a shutdown\<close>

text \<open>
  With the reversed steps \<open>plan\<close>: the calls made so far and the place of the run, which a
  rejected step has ended for good.
\<close>

definition shut :: "string list \<Rightarrow> shutdown_call list" where
  "shut ss = concat (map (\<lambda>s. [Shutdown_called s, Shutdown_resolved s]) ss)"

definition shutdown_place :: "string list \<Rightarrow> shutdown_manager \<Rightarrow> bool" where
  "shutdown_place plan m \<longleftrightarrow> sd_shuttingDown m \<and>
     (\<exists>don rest. plan = don @ rest \<and> (case sd_awaiting m of
        None \<Rightarrow> (rest = [] \<and> sd_log m = shut don) \<or>
          (\<exists>s rest'. rest = s # rest' \<and> sd_log m = shut don @ [Shutdown_called s, Shutdown_rejected s])
      | Some ss \<Rightarrow> ss = rest \<and> rest \<noteq> [] \<and> sd_log m = shut don @ [Shutdown_called (hd rest)]))"

lemma shut_simps [simp]:
  "shut [] = []" "shut (xs @ ys) = shut xs @ shut ys" "shut (s # xs) = Shutdown_called s # Shutdown_resolved s # shut xs"
  by (simp_all add: shut_def)

lemma shutdown_update_simps [simp]:
  "sd_awaiting (update_shutdown p a b c m) = sd_awaiting m" "sd_log (update_shutdown p a b c m) = sd_log m"
  "sd_shuttingDown (update_shutdown p a b c m) = sd_shuttingDown m"
  "sd_shuttingDown (note_shutdown x m) = sd_shuttingDown m" "sd_log (note_shutdown x m) = sd_log m @ [x]"
  "sd_awaiting (end_steps m) = None" "sd_log (end_steps m) = sd_log m" "sd_shuttingDown (end_steps m) = sd_shuttingDown m"
  "sd_awaiting (note_shutdown x m) = sd_awaiting m"
  by (simp_all add: update_shutdown_def note_shutdown_def end_steps_def)

lemma shutdown_steps_place:
  "sd_shuttingDown m \<Longrightarrow> plan = don @ ss \<Longrightarrow> sd_log m = shut don \<Longrightarrow> shutdown_place plan (shutdown_steps now ss m)"
  by (cases ss) (auto simp: shutdown_place_def)

lemma shutdown_begin_again:
  "sd_shuttingDown m \<Longrightarrow> sd_shuttingDown (shutdown_begin now m) \<and> sd_awaiting (shutdown_begin now m) = sd_awaiting m \<and>
     sd_log (shutdown_begin now m) = sd_log m"
  by (simp add: shutdown_begin_def)

lemma shutdown_place_cong:
  "sd_shuttingDown m' = sd_shuttingDown m \<Longrightarrow> sd_awaiting m' = sd_awaiting m \<Longrightarrow> sd_log m' = sd_log m \<Longrightarrow>
     shutdown_place plan m' = shutdown_place plan m"
  by (simp add: shutdown_place_def cong: option.case_cong)

lemma shutdown_settle_place:
  assumes "shutdown_place plan m"
  shows "shutdown_place plan (shutdown_settle b now m)"
proof (cases "sd_awaiting m")
  case None
  then show ?thesis using assms by (simp add: shutdown_settle_def)
next
  case (Some ss)
  with assms obtain don s rest where p: "sd_shuttingDown m" "plan = don @ s # rest" "ss = s # rest"
    "sd_log m = shut don @ [Shutdown_called s]" by (auto simp: shutdown_place_def neq_Nil_conv)
  show ?thesis
  proof (cases b)
    case True
    have "shutdown_place plan (shutdown_steps now rest (note_shutdown (Shutdown_resolved s) m))"
      by (rule shutdown_steps_place [where don = "don @ [s]"]) (use p in simp_all)
    then show ?thesis using True Some p(3) by (simp add: shutdown_settle_def)
  next
    case False
    then show ?thesis using Some p by (auto simp: shutdown_settle_def shutdown_place_def)
  qed
qed

lemma shutdown_begin_place:
  assumes "shutdown_place plan m"
  shows "shutdown_place plan (shutdown_begin now m)"
proof -
  have "sd_shuttingDown m" using assms by (simp add: shutdown_place_def)
  then have "shutdown_place plan (shutdown_begin now m) = shutdown_place plan m"
    by (intro shutdown_place_cong) (simp_all add: shutdown_begin_def)
  with assms show ?thesis by simp
qed

lemma shutdown_event_place:
  assumes "shutdown_place plan m"
  shows "shutdown_place plan (handle_shutdown e m)"
proof (cases e)
  case (D_settle b now)
  then show ?thesis using shutdown_settle_place [OF assms] by simp
next
  case (D_signal now)
  have "shutdown_place plan ((shutdown_begin now ^^ n) m)" for n
    by (induction n) (simp_all add: assms shutdown_begin_place)
  then show ?thesis by (simp add: D_signal on_signal_def)
next
  case (D_call now)
  then show ?thesis using shutdown_begin_place [OF assms] by simp
next
  case (D_resume now)
  have "shutdown_place plan (shutdown_resume now m) = shutdown_place plan m"
    by (intro shutdown_place_cong) (simp_all add: shutdown_resume_def Let_def)
  then show ?thesis using assms D_resume by simp
next
  case D_timer
  have "shutdown_place plan (shutdown_timer m) = shutdown_place plan m"
    by (intro shutdown_place_cong) (simp_all add: shutdown_timer_def)
  then show ?thesis using assms D_timer by simp
qed (use assms in \<open>simp_all add: add_shutdown_step_def remove_shutdown_step_def installSignalHandlers_def
    shutdown_place_def cong: option.case_cong\<close>)

text \<open>
  C19: only the first call of \<open>shutdown\<close> acts, whether a client or a signal makes it. Whatever
  follows, the steps held at that call are called one at a time in reverse order, each at most
  once and only after those before it have resolved; the first rejection ends them, and no step
  added later is ever called.
\<close>

theorem shutdown_runs_steps_once:
  assumes "\<not> sd_shuttingDown m" and "sd_log m = []"
  shows "\<exists>don rest. rev (sd_steps m) = don @ rest \<and>
    (let log = sd_log (fold handle_shutdown evs (shutdown_begin now m)) in
       (rest = [] \<and> log = shut don) \<or>
       (\<exists>s rest'. rest = s # rest' \<and>
          (log = shut don @ [Shutdown_called s] \<or> log = shut don @ [Shutdown_called s, Shutdown_rejected s])))"
proof -
  have "shutdown_place (rev (sd_steps m)) (shutdown_begin now m)"
    using assms by (auto simp: shutdown_begin_def intro!: shutdown_steps_place [where don = "[]"] simp: update_shutdown_def)
  moreover have "shutdown_place plan m' \<Longrightarrow> shutdown_place plan (fold handle_shutdown evs m')" for plan m'
    by (induction evs arbitrary: m') (simp_all add: shutdown_event_place)
  ultimately have "shutdown_place (rev (sd_steps m)) (fold handle_shutdown evs (shutdown_begin now m))" by blast
  then obtain don rest where "rev (sd_steps m) = don @ rest" "(case sd_awaiting (fold handle_shutdown evs (shutdown_begin now m)) of
        None \<Rightarrow> (rest = [] \<and> sd_log (fold handle_shutdown evs (shutdown_begin now m)) = shut don) \<or>
          (\<exists>s rest'. rest = s # rest' \<and> sd_log (fold handle_shutdown evs (shutdown_begin now m)) =
             shut don @ [Shutdown_called s, Shutdown_rejected s])
      | Some ss \<Rightarrow> ss = rest \<and> rest \<noteq> [] \<and> sd_log (fold handle_shutdown evs (shutdown_begin now m)) =
          shut don @ [Shutdown_called (hd rest)])" unfolding shutdown_place_def by blast
  then show ?thesis by (intro exI [of _ don] exI [of _ rest]) (auto simp: Let_def neq_Nil_conv split: option.splits)
qed

lemma shutdown_runs_steps_once_witness:
  "\<exists>don rest. [''bus'', ''db''] = don @ rest \<and>
    (let log = sd_log (fold handle_shutdown [D_add ''late'', D_signal 1, D_settle False 2, D_settle True 3]
         (shutdown_begin 0 (installSignalHandlers (createShutdownManager (Some [''db'', ''bus'']))))) in
       (rest = [] \<and> log = shut don) \<or>
       (\<exists>s rest'. rest = s # rest' \<and>
          (log = shut don @ [Shutdown_called s] \<or> log = shut don @ [Shutdown_called s, Shutdown_rejected s])))"
proof -
  let ?m = "installSignalHandlers (createShutdownManager (Some [''db'', ''bus'']))"
  have m: "\<not> sd_shuttingDown ?m" "sd_log ?m = []" "rev (sd_steps ?m) = [''bus'', ''db'']"
    by (simp_all add: installSignalHandlers_def createShutdownManager_def)
  from shutdown_runs_steps_once [OF m(1,2), of "[D_add ''late'', D_signal 1, D_settle False 2, D_settle True 3]" 0]
  show ?thesis unfolding m(3) .
qed

text \<open>A rejected step leaves the steps after it running and reports a timeout; so it also is
  when the timer wins, but then the steps go on and the phase becomes stopped later.\<close>

lemma rejected_shutdown_step:
  "let m = fold handle_shutdown [D_call 0, D_settle False 1, D_settle True 2, D_resume 3]
     (createShutdownManager (Some [''db'', ''bus'']))
   in sd_log m = [Shutdown_called ''bus'', Shutdown_rejected ''bus''] \<and>
      map ds_phase (sd_returned m) = [D_timed_out]"
  by code_simp

lemma shutdown_outlives_its_timeout:
  "let m = fold handle_shutdown [D_call 0, D_timer, D_resume 30000, D_settle True 30001]
     (createShutdownManager (Some [''db'']))
   in map ds_phase (sd_returned m) = [D_timed_out] \<and> sd_phase m = D_stopped \<and> sd_failedStep m = None"
  by code_simp

end
