(* ===== verification/RuntimeHealth.thy ===== *)
theory RuntimeHealth
  imports RuntimeShutdown
begin

text \<open>
  Health checks and diagnostics of the runtime (packages/runtime/src/HealthManager.ts and
  RuntimeDiagnostics.ts). A check is a function from the instant of its call to its outcome;
  \<open>readiness\<close> runs the checks one after the other and reads the clock before and after each.
  Numbers are exact rationals.
\<close>

subsection \<open>Health\<close>

datatype health_status = H_ok | H_degraded | H_down

record check_result =
  cr_name :: string
  cr_status :: health_status
  cr_message :: "string option"
  cr_latencyMs :: "int option"

record health_report =
  hr_status :: health_status
  hr_checks :: "check_result list"
  hr_uptimeMs :: int
  hr_timestamp :: instant

record readiness_report =
  rr_ready :: bool
  rr_checks :: "check_result list"
  rr_timestamp :: instant

datatype check_outcome = Check_resolves check_result | Check_rejects string

type_synonym health_check = "instant \<Rightarrow> check_outcome"

definition aggregateStatus :: "check_result list \<Rightarrow> health_status" where
  "aggregateStatus checks =
     (if list_ex (\<lambda>c. cr_status c = H_down) checks then H_down
      else if list_ex (\<lambda>c. cr_status c = H_degraded) checks then H_degraded
      else H_ok)"

record health_manager =
  hm_checks :: "(string, health_check) jmap"
  hm_lastReady :: bool

definition createHealthManager :: "(string \<times> health_check) list option \<Rightarrow> health_manager" where
  "createHealthManager checks =
     \<lparr>hm_checks = fold (\<lambda>(n, c). jm_set n c) (override [] checks) [], hm_lastReady = False\<rparr>"

definition register_check :: "string \<Rightarrow> health_check \<Rightarrow> health_manager \<Rightarrow> health_manager" where
  "register_check n c m = m\<lparr>hm_checks := jm_set n c (hm_checks m)\<rparr>"

definition unregister_check :: "string \<Rightarrow> health_manager \<Rightarrow> health_manager" where
  "unregister_check n m = m\<lparr>hm_checks := jm_delete n (hm_checks m)\<rparr>"

text \<open>The k-th reading of the clock is \<open>clock k\<close>; the name of the registration replaces that of the result.\<close>

fun runChecks :: "(nat \<Rightarrow> instant) \<Rightarrow> nat \<Rightarrow> (string, health_check) jmap \<Rightarrow> check_result list" where
  "runChecks clock k [] = []"
| "runChecks clock k ((n, check) # checks) =
     (case check (clock k) of
        Check_resolves r \<Rightarrow> r\<lparr>cr_name := n, cr_latencyMs := Some (clock (k + 1) - clock k)\<rparr>
      | Check_rejects e \<Rightarrow> \<lparr>cr_name = n, cr_status = H_down, cr_message = Some e,
          cr_latencyMs = Some (clock (k + 1) - clock k)\<rparr>)
     # runChecks clock (k + 2) checks"

definition readiness :: "(nat \<Rightarrow> instant) \<Rightarrow> health_manager \<Rightarrow> readiness_report \<times> health_manager" where
  "readiness clock m =
     (let checkResults = runChecks clock 0 (hm_checks m);
          ready = (aggregateStatus checkResults = H_ok)
      in (\<lparr>rr_ready = ready, rr_checks = checkResults, rr_timestamp = clock (2 * length checkResults)\<rparr>,
          m\<lparr>hm_lastReady := ready\<rparr>))"

definition isReady :: "health_manager \<Rightarrow> bool" where
  "isReady m = hm_lastReady m"

definition uptimeMs :: "rat \<Rightarrow> int" where
  "uptimeMs uptime = \<lfloor>uptime * 1000 + 1 / 2\<rfloor>"

definition liveness :: "rat \<Rightarrow> instant \<Rightarrow> health_report" where
  "liveness uptime now = \<lparr>hr_status = H_ok, hr_checks = [], hr_uptimeMs = uptimeMs uptime, hr_timestamp = now\<rparr>"

lemma aggregate_ok: "aggregateStatus cs = H_ok \<longleftrightarrow> (\<forall>c \<in> set cs. cr_status c = H_ok)"
proof -
  have "cr_status c = H_ok \<longleftrightarrow> cr_status c \<noteq> H_down \<and> cr_status c \<noteq> H_degraded" for c :: check_result
    by (cases "cr_status c") simp_all
  then show ?thesis by (auto simp: aggregateStatus_def list_ex_iff)
qed

lemma runChecks_names: "map cr_name (runChecks clock k checks) = jm_keys checks"
  by (induction clock k checks rule: runChecks.induct) (auto split: check_outcome.split)

lemma runChecks_ok:
  "(\<forall>r \<in> set (runChecks clock k checks). cr_status r = H_ok) \<longleftrightarrow>
     (\<forall>i < length checks. \<exists>r. snd (checks ! i) (clock (k + 2 * i)) = Check_resolves r \<and> cr_status r = H_ok)"
proof (induction clock k checks rule: runChecks.induct)
  case (2 clock k n check checks)
  have "(\<forall>i < length ((n, check) # checks). P i) \<longleftrightarrow> P 0 \<and> (\<forall>i < length checks. P (Suc i))" for P
    by (auto simp: less_Suc_eq_0_disj)
  with 2 show ?case by (auto split: check_outcome.split)
qed simp

text \<open>The process is ready exactly when every check resolves with status ok.\<close>

lemma readiness_exact:
  "rr_ready (fst (readiness clock m)) \<longleftrightarrow>
     (\<forall>i < length (hm_checks m). \<exists>r. snd (hm_checks m ! i) (clock (2 * i)) = Check_resolves r \<and> cr_status r = H_ok)"
  "map cr_name (rr_checks (fst (readiness clock m))) = jm_keys (hm_checks m)"
  "isReady (snd (readiness clock m)) = rr_ready (fst (readiness clock m))"
  by (simp_all add: readiness_def Let_def aggregate_ok runChecks_ok runChecks_names isReady_def)

subsection \<open>Diagnostics\<close>

record build_info =
  bi_version :: string
  bi_nodeVersion :: string
  bi_platform :: string
  bi_arch :: string

record memory_usage =
  heapUsedMb :: rat
  heapTotalMb :: rat
  rssMb :: rat
  externalMb :: rat

datatype bus_status = Active | Inactive

record bus_report =
  br_subscribedTopics :: nat
  br_status :: bus_status

text \<open>A status of the startup manager as its reader sees it.\<close>

type_synonym startup_view = "startup_phase \<times> string list \<times> string option \<times> int option"

record 'v diagnostics_config =
  dc_version :: "string option"
  dc_loadedPlugins :: "string list option"
  dc_loadedAdapters :: "string list option"
  dc_configSummary :: "(string, 'v) jmap option"
  dc_eventBusStatus :: "bus_report option"
  dc_startupStatus :: "startup_view option"
  dc_shutdownStatus :: "shutdown_status option"

record 'v diagnostics =
  dg_plugins :: "string list"
  dg_adapters :: "string list"
  dg_configSummary :: "(string, 'v) jmap"
  dg_eventBusStatus :: bus_report
  dg_startupStatus :: startup_view
  dg_shutdownStatus :: shutdown_status
  dg_startedAt :: instant

record 'v diagnostics_report =
  dr_version :: string
  dr_uptimeMs :: int
  dr_buildInfo :: build_info
  dr_loadedPlugins :: "string list"
  dr_loadedAdapters :: "string list"
  dr_configurationSummary :: "(string, 'v) jmap"
  dr_memoryUsage :: memory_usage
  dr_eventBusStatus :: bus_report
  dr_startup :: startup_view
  dr_shutdown :: shutdown_status

text \<open>Two decimals, as \<open>Math.round\<close> gives them.\<close>

definition megabytes :: "nat \<Rightarrow> rat" where
  "megabytes bytes = of_int \<lfloor>(of_nat bytes / 1024 / 1024 * 100 + 1 / 2 :: rat)\<rfloor> / 100"

definition getMemoryUsage :: "nat \<Rightarrow> nat \<Rightarrow> nat \<Rightarrow> nat \<Rightarrow> memory_usage" where
  "getMemoryUsage heapUsed heapTotal rss external = \<lparr>heapUsedMb = megabytes heapUsed,
     heapTotalMb = megabytes heapTotal, rssMb = megabytes rss, externalMb = megabytes external\<rparr>"

definition getBuildInfo :: "string \<Rightarrow> string \<Rightarrow> string \<Rightarrow> build_info" where
  "getBuildInfo process_version platform arch = \<lparr>bi_version = process_version,
     bi_nodeVersion = process_version, bi_platform = platform, bi_arch = arch\<rparr>"

definition createDiagnostics :: "instant \<Rightarrow> 'v diagnostics_config \<Rightarrow> 'v diagnostics" where
  "createDiagnostics now c = \<lparr>dg_plugins = override [] (dc_loadedPlugins c),
     dg_adapters = override [] (dc_loadedAdapters c), dg_configSummary = override [] (dc_configSummary c),
     dg_eventBusStatus = override \<lparr>br_subscribedTopics = 0, br_status = Inactive\<rparr> (dc_eventBusStatus c),
     dg_startupStatus = override (S_idle, [], None, None) (dc_startupStatus c),
     dg_shutdownStatus = override \<lparr>ds_phase = D_idle, ds_startedAt = None, ds_completedAt = None,
       ds_durationMs = None, ds_failedStep = None\<rparr> (dc_shutdownStatus c), dg_startedAt = now\<rparr>"

definition diagnostics_report_now :: "instant \<Rightarrow> build_info \<Rightarrow> memory_usage \<Rightarrow> 'v diagnostics \<Rightarrow> 'v diagnostics_report" where
  "diagnostics_report_now now build mem d = \<lparr>dr_version = ''1.0.0'', dr_uptimeMs = now - dg_startedAt d,
     dr_buildInfo = build, dr_loadedPlugins = dg_plugins d, dr_loadedAdapters = dg_adapters d,
     dr_configurationSummary = dg_configSummary d, dr_memoryUsage = mem,
     dr_eventBusStatus = dg_eventBusStatus d, dr_startup = dg_startupStatus d, dr_shutdown = dg_shutdownStatus d\<rparr>"

definition setPlugins :: "string list \<Rightarrow> 'v diagnostics \<Rightarrow> 'v diagnostics" where
  "setPlugins ps d = d\<lparr>dg_plugins := ps\<rparr>"

definition setAdapters :: "string list \<Rightarrow> 'v diagnostics \<Rightarrow> 'v diagnostics" where
  "setAdapters as d = d\<lparr>dg_adapters := as\<rparr>"

definition setConfigSummary :: "(string, 'v) jmap \<Rightarrow> 'v diagnostics \<Rightarrow> 'v diagnostics" where
  "setConfigSummary s d = d\<lparr>dg_configSummary := s\<rparr>"

definition setEventBusStatus :: "bus_report \<Rightarrow> 'v diagnostics \<Rightarrow> 'v diagnostics" where
  "setEventBusStatus s d = d\<lparr>dg_eventBusStatus := s\<rparr>"

definition setStartupStatus :: "startup_view \<Rightarrow> 'v diagnostics \<Rightarrow> 'v diagnostics" where
  "setStartupStatus s d = d\<lparr>dg_startupStatus := s\<rparr>"

definition setShutdownStatus :: "shutdown_status \<Rightarrow> 'v diagnostics \<Rightarrow> 'v diagnostics" where
  "setShutdownStatus s d = d\<lparr>dg_shutdownStatus := s\<rparr>"

text \<open>The configured version is never reported.\<close>

lemma version_ignored: "dr_version (diagnostics_report_now now b mem (createDiagnostics t c)) = ''1.0.0''"
  by (simp add: diagnostics_report_now_def)

text \<open>A reported size is within half a hundredth of the exact one.\<close>

lemma megabytes_bounds: "\<bar>megabytes b - of_nat b / 1048576\<bar> \<le> 1 / 200"
proof -
  let ?x = "of_nat b / 1024 / 1024 * 100 :: rat"
  have f: "of_int \<lfloor>?x + 1 / 2\<rfloor> \<le> ?x + 1 / 2" "?x + 1 / 2 < of_int \<lfloor>?x + 1 / 2\<rfloor> + 1" by linarith+
  have "megabytes b = of_int \<lfloor>?x + 1 / 2\<rfloor> / 100" by (simp add: megabytes_def)
  moreover have "of_nat b / 1048576 = ?x / 100" by simp
  ultimately have "megabytes b - of_nat b / 1048576 \<le> 1 / 200" "- (1 / 200) \<le> megabytes b - of_nat b / 1048576"
    using f by linarith+
  then show ?thesis by linarith
qed

end
