(* ===== verification/ConfigSchema.thy ===== *)
theory ConfigSchema
  imports JsObjects
begin

text \<open>
  The configuration package: schemas (packages/config/src/types.ts) and the validator
  (ConfigValidator.ts). A schema is an object, here the list of its entries; optional members
  are options and an absent default is \<open>JUndefined\<close>. The message of an error is kept as its
  parts, the constructors of \<open>schema_message\<close>. \<open>regexp pattern s\<close> stands for
  \<open>new RegExp(pattern).test(s)\<close>; patterns are taken to be well formed.
\<close>

subsection \<open>Schemas\<close>

record base_schema =
  required :: "bool option"
  default_value :: jsval
  description :: "string option"

datatype schema_field =
    String_field base_schema "rat option" "rat option" "string option"
  | Number_field base_schema "rat option" "rat option" "bool option"
  | Boolean_field base_schema
  | Array_field base_schema "schema_field option" "rat option" "rat option"
  | Object_field base_schema "(string \<times> schema_field) list option" "bool option"
  | Enum_field base_schema "jsval list"

type_synonym schema = "(string \<times> schema_field) list"

fun base_of :: "schema_field \<Rightarrow> base_schema" where
  "base_of (String_field b _ _ _) = b"
| "base_of (Number_field b _ _ _) = b"
| "base_of (Boolean_field b) = b"
| "base_of (Array_field b _ _ _) = b"
| "base_of (Object_field b _ _) = b"
| "base_of (Enum_field b _) = b"

datatype schema_message =
    Missing_required string
  | Expected_type string string
  | String_too_short rat nat
  | String_too_long rat nat
  | Pattern_mismatch string
  | Expected_integer jsval
  | Value_too_small rat jsval
  | Value_too_large rat jsval
  | Array_too_short rat nat
  | Array_too_long rat nat
  | Unexpected_property string
  | Invalid_enum jsval "jsval list"

record schema_error =
  se_path :: string
  se_message :: schema_message
  se_code :: string

record schema_result =
  sr_ok :: bool
  sr_errors :: "schema_error list"

subsection \<open>The validator\<close>

definition typeName :: "jsval \<Rightarrow> string" where
  "typeName v = (if v = JNull then ''null'' else if v = JUndefined then ''undefined''
     else if is_array v then ''array'' else typeof v)"

text \<open>One error, when a condition holds.\<close>

definition err_when :: "bool \<Rightarrow> string \<Rightarrow> schema_message \<Rightarrow> string \<Rightarrow> schema_error list" where
  "err_when b path msg code = (if b then [\<lparr>se_path = path, se_message = msg, se_code = code\<rparr>] else [])"

text \<open>A check against an optional bound.\<close>

definition bound_fails :: "'a option \<Rightarrow> ('a \<Rightarrow> bool) \<Rightarrow> bool" where
  "bound_fails b fails = (case b of None \<Rightarrow> False | Some x \<Rightarrow> fails x)"

definition validateString :: "(string \<Rightarrow> string \<Rightarrow> bool) \<Rightarrow> jsval \<Rightarrow> rat option \<Rightarrow> rat option \<Rightarrow> string option
    \<Rightarrow> string \<Rightarrow> schema_error list" where
  "validateString regexp v minLength maxLength pattern path = (case v of
     JStr s \<Rightarrow>
       err_when (bound_fails minLength (\<lambda>m. of_nat (length s) < m)) path
         (String_too_short (the minLength) (length s)) ''MIN_LENGTH'' @
       err_when (bound_fails maxLength (\<lambda>m. m < of_nat (length s))) path
         (String_too_long (the maxLength) (length s)) ''MAX_LENGTH'' @
       err_when (bound_fails pattern (\<lambda>p. \<not> regexp p s)) path (Pattern_mismatch (the pattern)) ''PATTERN''
   | _ \<Rightarrow> err_when True path (Expected_type ''string'' (typeName v)) ''TYPE'')"

definition validateNumber :: "jsval \<Rightarrow> rat option \<Rightarrow> rat option \<Rightarrow> bool option \<Rightarrow> string
    \<Rightarrow> schema_error list" where
  "validateNumber v lo hi integer path = (case v of
     JNum q \<Rightarrow>
       err_when (integer = Some True \<and> of_int \<lfloor>q\<rfloor> \<noteq> q) path (Expected_integer v) ''INTEGER'' @
       err_when (bound_fails lo (\<lambda>m. q < m)) path (Value_too_small (the lo) v) ''MIN'' @
       err_when (bound_fails hi (\<lambda>m. m < q)) path (Value_too_large (the hi) v) ''MAX''
   | _ \<Rightarrow> err_when True path (Expected_type ''number'' (typeName v)) ''TYPE'')"

definition validateBoolean :: "jsval \<Rightarrow> string \<Rightarrow> schema_error list" where
  "validateBoolean v path =
     err_when (typeof v \<noteq> ''boolean'') path (Expected_type ''boolean'' (typeName v)) ''TYPE''"

definition validateEnum :: "jsval \<Rightarrow> jsval list \<Rightarrow> string \<Rightarrow> schema_error list" where
  "validateEnum v vs path =
     (if typeof v \<noteq> ''string'' \<and> typeof v \<noteq> ''number''
      then err_when True path (Expected_type ''enum value'' (typeName v)) ''TYPE''
      else err_when (\<not> js_includes vs v) path (Invalid_enum v vs) ''ENUM'')"

text \<open>Own keys of an object that the properties do not name.\<close>

definition extra_keys :: "schema option \<Rightarrow> (string, jsval) jmap \<Rightarrow> string list" where
  "extra_keys props obj = filter (\<lambda>key. \<not> jm_has (override [] props) key) (jm_keys obj)"

text \<open>
  \<open>validateField\<close>; the loop of \<open>validateObject\<close> over the entries of a schema is written out
  for the properties of an object field, which are smaller than the field.
\<close>

function validate_field :: "(string \<Rightarrow> string \<Rightarrow> bool) \<Rightarrow> jsval \<Rightarrow> schema_field \<Rightarrow> string
    \<Rightarrow> schema_error list" where
  "validate_field regexp v (String_field b mi ma p) path = validateString regexp v mi ma p path"
| "validate_field regexp v (Number_field b mi ma i) path = validateNumber v mi ma i path"
| "validate_field regexp v (Boolean_field b) path = validateBoolean v path"
| "validate_field regexp v (Enum_field b vs) path = validateEnum v vs path"
| "validate_field regexp v (Array_field b items mi ma) path = (case v of
     JArr xs \<Rightarrow>
       err_when (bound_fails mi (\<lambda>m. of_nat (length xs) < m)) path (Array_too_short (the mi) (length xs)) ''MIN_ITEMS'' @
       err_when (bound_fails ma (\<lambda>m. m < of_nat (length xs))) path (Array_too_long (the ma) (length xs)) ''MAX_ITEMS'' @
       (case items of
          None \<Rightarrow> []
        | Some sch \<Rightarrow> concat (map (\<lambda>(i, x). if x = JUndefined then [] else validate_field regexp x sch (index_path path i))
            (enumerate 0 xs)))
   | _ \<Rightarrow> err_when True path (Expected_type ''array'' (typeName v)) ''TYPE'')"
| "validate_field regexp v (Object_field b props additional) path = (case v of
     JObj obj \<Rightarrow>
       (case props of
          None \<Rightarrow> []
        | Some ps \<Rightarrow> concat (map (\<lambda>(key, sch).
            if js_get obj key = JUndefined \<or> js_get obj key = JNull
            then err_when (required (base_of sch) = Some True) (sub_path path key) (Missing_required key) ''REQUIRED''
            else validate_field regexp (js_get obj key) sch (sub_path path key)) ps)) @
       (if additional = Some False
        then concat (map (\<lambda>key. err_when True (path @ ''.'' @ key) (Unexpected_property key) ''ADDITIONAL_PROPERTIES'')
          (extra_keys props obj))
        else [])
   | _ \<Rightarrow> err_when True path (Expected_type ''object'' (typeName v)) ''TYPE'')"
  by pat_completeness auto

lemma schema_entry_smaller:
  "(key, sch) \<in> set ps \<Longrightarrow> size (sch :: schema_field) < Suc (size_list (size_prod (\<lambda>_. 0) size) ps)"
  by (induction ps) auto

termination validate_field
  by (relation "measure (\<lambda>(_, _, sch, _). size sch)") (auto dest!: schema_entry_smaller)

definition validateObject :: "(string \<Rightarrow> string \<Rightarrow> bool) \<Rightarrow> (string, jsval) jmap \<Rightarrow> schema \<Rightarrow> string
    \<Rightarrow> schema_error list" where
  "validateObject regexp obj ps path = concat (map (\<lambda>(key, sch).
     if js_get obj key = JUndefined \<or> js_get obj key = JNull
     then err_when (required (base_of sch) = Some True) (sub_path path key) (Missing_required key) ''REQUIRED''
     else validate_field regexp (js_get obj key) sch (sub_path path key)) ps)"

definition validate_config :: "(string \<Rightarrow> string \<Rightarrow> bool) \<Rightarrow> (string, jsval) jmap \<Rightarrow> schema \<Rightarrow> schema_result" where
  "validate_config regexp data schema =
     (let es = validateObject regexp data schema [] in \<lparr>sr_ok = (es = []), sr_errors = es\<rparr>)"

subsection \<open>Secrets\<close>

record secret_value =
  sec_value :: string
  sec_hint :: string

definition MASKED :: string where
  "MASKED = ''********''"

definition secret_of :: "string \<Rightarrow> string option \<Rightarrow> secret_value" where
  "secret_of value hint = \<lparr>sec_value = value,
     sec_hint = override (if 4 < length value then take 2 value @ MASKED else MASKED) hint\<rparr>"

definition unwrap :: "secret_value \<Rightarrow> string" where
  "unwrap s = sec_value s"

text \<open>\<open>masked\<close>, \<open>toString\<close> and \<open>toJSON\<close> alike.\<close>

definition masked :: "secret_value \<Rightarrow> string" where
  "masked s = sec_hint s"

text \<open>What is printed of a secret depends on no more than its first two characters and whether
  it has more than four.\<close>

lemma mask_hides:
  "take 2 a = take 2 b \<Longrightarrow> (4 < length a) = (4 < length b) \<Longrightarrow>
     masked (secret_of a None) = masked (secret_of b None)"
  by (simp add: masked_def secret_of_def)

end
