(* ===== verification/ConfigLoader.thy ===== *)
theory ConfigLoader
  imports ConfigSchema JsObjects "HOL-Library.Sublist"
begin

text \<open>
  The configuration package: merging of sources (packages/config/src/ConfigLoader.ts), the
  provider with its checks (ConfigProvider.ts) and the registry (ConfigRegistry.ts). Objects
  have no member named __proto__; an environment variable cannot make one. The number a text
  denotes is read exactly; a text that denotes an infinity, or a number beyond the range of
  doubles, is outside the model.
\<close>

subsection \<open>Numbers in texts\<close>

definition digit_value :: "char \<Rightarrow> nat" where
  "digit_value c = (let n = (of_char c :: nat) in
     if 48 \<le> n \<and> n \<le> 57 then n - 48 else if 97 \<le> n \<and> n \<le> 122 then n - 87
     else if 65 \<le> n \<and> n \<le> 90 then n - 55 else 36)"

definition read_base :: "nat \<Rightarrow> string \<Rightarrow> nat" where
  "read_base b s = fold (\<lambda>c n. b * n + digit_value c) s 0"

text \<open>An optional sign and digits, after the letter e.\<close>

definition read_exponent :: "string \<Rightarrow> int option" where
  "read_exponent s = (case s of
     [] \<Rightarrow> None
   | c # cs \<Rightarrow>
       let neg = (c = CHR ''-''); ds = (if c = CHR ''-'' \<or> c = CHR ''+'' then cs else s)
       in if ds \<noteq> [] \<and> list_all is_digit ds
          then Some ((if neg then - 1 else 1) * int (read_base 10 ds)) else None)"

definition ten_power :: "int \<Rightarrow> rat" where
  "ten_power e = (if 0 \<le> e then 10 ^ nat e else 1 / 10 ^ nat (- e))"

text \<open>Digits with a point and an exponent; one digit at least.\<close>

definition read_decimal :: "string \<Rightarrow> rat option" where
  "read_decimal s =
     (let whole = takeWhile is_digit s; r1 = dropWhile is_digit s;
          has_point = (r1 \<noteq> [] \<and> hd r1 = CHR ''.'');
          frac = (if has_point then takeWhile is_digit (tl r1) else []);
          r2 = (if has_point then dropWhile is_digit (tl r1) else r1);
          mantissa = of_nat (read_base 10 (whole @ frac)) / 10 ^ length frac
      in if whole = [] \<and> frac = [] then None
         else if r2 = [] then Some mantissa
         else if hd r2 = CHR ''e'' \<or> hd r2 = CHR ''E''
         then map_option (\<lambda>e. mantissa * ten_power e) (read_exponent (tl r2))
         else None)"

definition read_signed :: "string \<Rightarrow> rat option" where
  "read_signed s = (case s of
     [] \<Rightarrow> None
   | c # cs \<Rightarrow> if c = CHR ''-'' then map_option uminus (read_decimal cs)
       else if c = CHR ''+'' then read_decimal cs else read_decimal s)"

definition radix_of :: "char \<Rightarrow> nat option" where
  "radix_of c = (if c \<in> {CHR ''x'', CHR ''X''} then Some 16
     else if c \<in> {CHR ''o'', CHR ''O''} then Some 8
     else if c \<in> {CHR ''b'', CHR ''B''} then Some 2 else None)"

text \<open>\<open>Number(s)\<close> of a text that is not blank; \<open>None\<close> is NaN.\<close>

definition js_number :: "string \<Rightarrow> rat option" where
  "js_number s = (let t = trim s in case t of
     z # x # ds \<Rightarrow> (case radix_of x of
       Some b \<Rightarrow> if z = CHR ''0''
         then (if ds \<noteq> [] \<and> list_all (\<lambda>d. digit_value d < b) ds then Some (of_nat (read_base b ds)) else None)
         else read_signed t
     | None \<Rightarrow> read_signed t)
   | _ \<Rightarrow> read_signed t)"

subsection \<open>Merging\<close>

text \<open>\<open>deepMerge\<close>: each entry of the source is stored, or merged into the object that is there.\<close>

function deepMerge :: "(string, jsval) jmap \<Rightarrow> (string, jsval) jmap \<Rightarrow> (string, jsval) jmap" where
  "deepMerge target [] = target"
| "deepMerge target ((key, v) # source) =
     deepMerge (jm_set key (case (v, js_get target key) of
         (JObj s, JObj t) \<Rightarrow> JObj (deepMerge t s)
       | _ \<Rightarrow> v) target) source"
  by pat_completeness auto

termination deepMerge
  by (relation "measure (\<lambda>(_, source). size_list (size_prod (\<lambda>_. 0) size) source)") auto

definition coerceEnvValue :: "string \<Rightarrow> jsval" where
  "coerceEnvValue s =
     (if s = ''true'' then JBool True
      else if s = ''false'' then JBool False
      else if s = ''null'' then JNull
      else if s = ''undefined'' then JUndefined
      else if trim s \<noteq> [] then (case js_number s of Some q \<Rightarrow> JNum q | None \<Rightarrow> JStr s)
      else JStr s)"

text \<open>\<open>split('_')\<close> without its empty parts.\<close>

definition env_path :: "string \<Rightarrow> string \<Rightarrow> string list" where
  "env_path pre key = filter (\<lambda>w. w \<noteq> []) (split_on (CHR ''_'') (toLowerCase (drop (length pre) key)))"

text \<open>
  The walk along a path with the assignment at its end. Where a segment holds null, which is
  an object to \<open>typeof\<close>, the next access throws a TypeError: \<open>None\<close>.
\<close>

fun set_path :: "string list \<Rightarrow> jsval \<Rightarrow> (string, jsval) jmap \<Rightarrow> (string, jsval) jmap option" where
  "set_path [] v cur = Some cur"
| "set_path [leaf] v cur = Some (jm_set leaf v cur)"
| "set_path (seg # next # rest) v cur =
     (let x = js_get cur seg
      in if x = JUndefined \<or> typeof x \<noteq> ''object''
         then map_option (\<lambda>o'. jm_set seg (JObj o') cur) (set_path (next # rest) v [])
         else (case x of
           JObj ob \<Rightarrow> map_option (\<lambda>o'. jm_set seg (JObj o') cur) (set_path (next # rest) v ob)
         | _ \<Rightarrow> None))"

fun envToConfig_from :: "(string \<times> string) list \<Rightarrow> string \<Rightarrow> (string, jsval) jmap
    \<Rightarrow> (string, jsval) jmap option" where
  "envToConfig_from [] pre result = Some result"
| "envToConfig_from ((key, value) # env) pre result =
     (if \<not> starts_with key pre then envToConfig_from env pre result
      else if env_path pre key = [] then envToConfig_from env pre result
      else Option.bind (set_path (env_path pre key) (coerceEnvValue value) result)
        (envToConfig_from env pre))"

definition envToConfig :: "(string \<times> string) list \<Rightarrow> string \<Rightarrow> (string, jsval) jmap option" where
  "envToConfig env pre = envToConfig_from env pre []"

text \<open>Only the keys of the defaults remain.\<close>

definition apply_defaults :: "(string, jsval) jmap \<Rightarrow> (string, jsval) jmap \<Rightarrow> (string, jsval) jmap" where
  "apply_defaults data defaults = fold (\<lambda>(key, v). jm_set key (if js_get data key \<noteq> JUndefined then js_get data key else v))
     defaults []"

definition DEFAULT_ENV_PREFIX :: string where
  "DEFAULT_ENV_PREFIX = ''AGENT_OS_''"

datatype config_origin =
    Defaults "(string, jsval) jmap"
  | File string "(string, jsval) jmap"
  | Env "string option" "(string \<times> string) list option"
  | Runtime "(string, jsval) jmap"

fun load_source :: "(string \<times> string) list \<Rightarrow> config_origin \<Rightarrow> (string, jsval) jmap
    \<Rightarrow> (string, jsval) jmap option" where
  "load_source process_env (Defaults vs) merged = Some (apply_defaults merged vs)"
| "load_source process_env (File path vs) merged = Some (deepMerge merged vs)"
| "load_source process_env (Env pre vs) merged =
     map_option (deepMerge merged) (envToConfig (override process_env vs) (override DEFAULT_ENV_PREFIX pre))"
| "load_source process_env (Runtime vs) merged = Some (deepMerge merged vs)"

fun load_from :: "(string \<times> string) list \<Rightarrow> config_origin list \<Rightarrow> (string, jsval) jmap
    \<Rightarrow> (string, jsval) jmap option" where
  "load_from process_env [] merged = Some merged"
| "load_from process_env (s # ss) merged = Option.bind (load_source process_env s merged) (load_from process_env ss)"

definition load_config :: "(string \<times> string) list \<Rightarrow> config_origin list \<Rightarrow> (string, jsval) jmap option" where
  "load_config process_env sources = load_from process_env sources []"

subsection \<open>Providers\<close>

definition applySchemaDefaults :: "(string, jsval) jmap \<Rightarrow> schema \<Rightarrow> (string, jsval) jmap" where
  "applySchemaDefaults data schema = fold (\<lambda>(key, sch) result.
     if js_get result key = JUndefined \<and> default_value (base_of sch) \<noteq> JUndefined
     then jm_set key (default_value (base_of sch)) result else result) schema data"

datatype config_failure =
    Null_dereference
  | Validation_failed string "schema_error list"
  | Key_not_found string string
  | Already_registered string

record config_provider =
  cp_name :: string
  cp_data :: "(string, jsval) jmap"

definition createConfigProvider :: "(string \<Rightarrow> string \<Rightarrow> bool) \<Rightarrow> (string \<times> string) list \<Rightarrow> string \<Rightarrow> schema
    \<Rightarrow> config_origin list \<Rightarrow> config_failure + config_provider" where
  "createConfigProvider regexp process_env name schema sources =
     (case load_config process_env sources of
        None \<Rightarrow> Inl Null_dereference
      | Some merged \<Rightarrow>
          (let withDefaults = applySchemaDefaults merged schema;
               result = validate_config regexp withDefaults schema
           in if sr_ok result then Inr \<lparr>cp_name = name, cp_data = withDefaults\<rparr>
              else Inl (Validation_failed name (sr_errors result))))"

definition cp_get :: "string \<Rightarrow> config_provider \<Rightarrow> jsval" where
  "cp_get key p = js_get (cp_data p) key"

definition cp_getTyped :: "string \<Rightarrow> config_provider \<Rightarrow> config_failure + jsval" where
  "cp_getTyped key p = (let v = js_get (cp_data p) key in
     if v = JUndefined then Inl (Key_not_found key (cp_name p)) else Inr v)"

definition cp_has :: "string \<Rightarrow> config_provider \<Rightarrow> bool" where
  "cp_has key p = js_in key (cp_data p)"

definition cp_keys :: "config_provider \<Rightarrow> string list" where
  "cp_keys p = jm_keys (cp_data p)"

definition cp_all :: "config_provider \<Rightarrow> (string, jsval) jmap" where
  "cp_all p = cp_data p"

definition cp_validate :: "(string \<Rightarrow> string \<Rightarrow> bool) \<Rightarrow> schema \<Rightarrow> config_provider \<Rightarrow> schema_result" where
  "cp_validate regexp schema p = validate_config regexp (cp_data p) schema"

subsection \<open>The registry\<close>

type_synonym config_registry = "(string, config_provider) jmap"

definition register_provider :: "config_provider \<Rightarrow> config_registry \<Rightarrow> config_failure + config_registry" where
  "register_provider p reg = (if jm_has reg (cp_name p) then Inl (Already_registered (cp_name p))
     else Inr (jm_set (cp_name p) p reg))"

definition getProvider :: "string \<Rightarrow> config_registry \<Rightarrow> config_provider option" where
  "getProvider name reg = jm_get reg name"

definition config_providers :: "config_registry \<Rightarrow> config_provider list" where
  "config_providers reg = jm_values reg"


text \<open>
  What the configuration package guarantees: a provider is created exactly for data that fits
  the schema; a leaf set by a source stays until a later source touches its path; an
  environment variable lands at its path, which is in lower case. And what it does not: keys
  that are not in the defaults are lost when defaults come later.
\<close>

subsection \<open>Data that fit a schema\<close>

definition absent :: "jsval \<Rightarrow> bool" where
  "absent v \<longleftrightarrow> v = JUndefined \<or> v = JNull"

definition in_bounds :: "rat option \<Rightarrow> rat option \<Rightarrow> rat \<Rightarrow> bool" where
  "in_bounds lo hi q \<longleftrightarrow> (\<forall>m. lo = Some m \<longrightarrow> m \<le> q) \<and> (\<forall>m. hi = Some m \<longrightarrow> q \<le> m)"

inductive fits :: "(string \<Rightarrow> string \<Rightarrow> bool) \<Rightarrow> schema_field \<Rightarrow> jsval \<Rightarrow> bool" for regexp where
  fit_string: "in_bounds lo hi (of_nat (length s)) \<Longrightarrow> (\<forall>r. p = Some r \<longrightarrow> regexp r s) \<Longrightarrow>
    fits regexp (String_field b lo hi p) (JStr s)"
| fit_number: "in_bounds lo hi q \<Longrightarrow> (i = Some True \<longrightarrow> q \<in> \<int>) \<Longrightarrow> fits regexp (Number_field b lo hi i) (JNum q)"
| fit_boolean: "fits regexp (Boolean_field b) (JBool x)"
| fit_enum: "typeof v = ''string'' \<or> typeof v = ''number'' \<Longrightarrow> v \<in> set vs \<Longrightarrow> fits regexp (Enum_field b vs) v"
| fit_array: "in_bounds lo hi (of_nat (length xs)) \<Longrightarrow>
    \<forall>sch. items = Some sch \<longrightarrow> (\<forall>x \<in> set xs. x = JUndefined \<or> fits regexp sch x) \<Longrightarrow>
    fits regexp (Array_field b items lo hi) (JArr xs)"
| fit_object: "\<forall>ps. props = Some ps \<longrightarrow> (\<forall>(k, sch) \<in> set ps.
      if absent (js_get ob k) then required (base_of sch) \<noteq> Some True else fits regexp sch (js_get ob k)) \<Longrightarrow>
    (additional = Some False \<longrightarrow> set (jm_keys ob) \<subseteq> set (jm_keys (override [] props))) \<Longrightarrow>
    fits regexp (Object_field b props additional) (JObj ob)"

inductive_simps fits_simps:
  "fits regexp (String_field b lo hi p) v" "fits regexp (Number_field b lo hi i) v" "fits regexp (Boolean_field b) v"
  "fits regexp (Enum_field b vs) v" "fits regexp (Array_field b items lo hi) v"
  "fits regexp (Object_field b props additional) v"

definition fits_schema :: "(string \<Rightarrow> string \<Rightarrow> bool) \<Rightarrow> schema \<Rightarrow> (string, jsval) jmap \<Rightarrow> bool" where
  "fits_schema regexp ps ob \<longleftrightarrow> (\<forall>(k, sch) \<in> set ps.
     if absent (js_get ob k) then required (base_of sch) \<noteq> Some True else fits regexp sch (js_get ob k))"

lemma err_when_Nil [simp]: "err_when b path msg code = [] \<longleftrightarrow> \<not> b"
  by (simp add: err_when_def)

lemma in_bounds_iff:
  "in_bounds lo hi q \<longleftrightarrow> \<not> bound_fails lo (\<lambda>m. q < m) \<and> \<not> bound_fails hi (\<lambda>m. m < q)"
  by (auto simp: in_bounds_def bound_fails_def split: option.splits)

lemma validateString_Nil: "validateString regexp v lo hi p path = [] \<longleftrightarrow> fits regexp (String_field b lo hi p) v"
  by (cases v) (auto simp: validateString_def fits_simps in_bounds_iff bound_fails_def split: option.splits)

lemma validateNumber_Nil: "validateNumber v lo hi i path = [] \<longleftrightarrow> fits regexp (Number_field b lo hi i) v"
  by (cases v) (auto simp: validateNumber_def fits_simps in_bounds_iff Ints_def)

lemma validateBoolean_Nil: "validateBoolean v path = [] \<longleftrightarrow> fits regexp (Boolean_field b) v"
  by (cases v) (auto simp: validateBoolean_def fits_simps)

lemma validateEnum_Nil: "validateEnum v vs path = [] \<longleftrightarrow> fits regexp (Enum_field b vs) v"
  by (cases v) (auto simp: validateEnum_def fits_simps js_includes_def)

lemma extra_keys_Nil: "extra_keys props ob = [] \<longleftrightarrow> set (jm_keys ob) \<subseteq> set (jm_keys (override [] props))"
  by (auto simp: extra_keys_def filter_empty_conv jm_has_iff)

lemma validate_field_Nil: "validate_field regexp v sch path = [] \<longleftrightarrow> fits regexp sch v"
proof (induction regexp v sch path rule: validate_field.induct)
  case (5 regexp v b items lo hi path)
  show ?case
  proof (cases v)
    case (JArr xs)
    show ?thesis
    proof (cases items)
      case None
      with JArr show ?thesis by (auto simp: fits_simps in_bounds_iff)
    next
      case (Some sch)
      have "(\<forall>(i, x) \<in> set (enumerate 0 xs). x = JUndefined \<or> validate_field regexp x sch (index_path path i) = []) \<longleftrightarrow>
          (\<forall>(i, x) \<in> set (enumerate 0 xs). x = JUndefined \<or> fits regexp sch x)"
        using 5 [OF JArr Some] by blast
      also have "\<dots> \<longleftrightarrow> (\<forall>x \<in> set xs. x = JUndefined \<or> fits regexp sch x)" by (rule all_enumerate)
      finally show ?thesis using JArr Some by (auto simp: fits_simps in_bounds_iff)
    qed
  qed (auto simp: fits_simps)
next
  case (6 regexp v b props additional path)
  show ?case
  proof (cases v)
    case (JObj ob)
    show ?thesis
    proof (cases props)
      case None
      with JObj show ?thesis by (auto simp: fits_simps extra_keys_Nil)
    next
      case (Some ps)
      have "(\<forall>(k, s) \<in> set ps. (if absent (js_get ob k) then required (base_of s) \<noteq> Some True
            else validate_field regexp (js_get ob k) s (sub_path path k) = [])) \<longleftrightarrow>
          (\<forall>(k, s) \<in> set ps. if absent (js_get ob k) then required (base_of s) \<noteq> Some True else fits regexp s (js_get ob k))"
        using 6 [OF JObj Some] by (fastforce simp: absent_def)
      with JObj Some show ?thesis by (auto simp: fits_simps extra_keys_Nil absent_def split: if_splits)
    qed
  qed (auto simp: fits_simps)
qed (simp_all add: validateString_Nil validateNumber_Nil validateBoolean_Nil validateEnum_Nil)

lemma validate_config_ok: "sr_ok (validate_config regexp data schema) \<longleftrightarrow> fits_schema regexp schema data"
  by (auto simp: validate_config_def validateObject_def Let_def fits_schema_def validate_field_Nil absent_def
      split: if_splits)

text \<open>
  C29: a provider is created exactly when the sources merge without an error and the merged data,
  with the defaults of the schema filled in, fit the schema: the declarative reading of all
  field types with their bounds, patterns and enumerations. Reading a required key of it never
  fails.
\<close>

theorem config_provider_exact:
  "((\<exists>p. createConfigProvider regexp env name schema sources = Inr p) \<longleftrightarrow>
     (\<exists>merged. load_config env sources = Some merged \<and> fits_schema regexp schema (applySchemaDefaults merged schema))) \<and>
   (\<forall>p. createConfigProvider regexp env name schema sources = Inr p \<longrightarrow>
     (\<forall>(k, sch) \<in> set schema. required (base_of sch) = Some True \<longrightarrow> (\<exists>v. cp_getTyped k p = Inr v \<and> fits regexp sch v)))"
proof (intro conjI allI impI ballI, goal_cases)
  case 1
  show ?case by (auto simp: createConfigProvider_def Let_def validate_config_ok split: option.splits)
next
  case (2 p x)
  obtain k sch where x: "x = (k, sch)" by fastforce
  from 2 have f: "fits_schema regexp schema (cp_data p)"
    by (auto simp: createConfigProvider_def Let_def validate_config_ok split: option.splits if_splits)
  have "cp_getTyped k p = Inr (js_get (cp_data p) k) \<and> fits regexp sch (js_get (cp_data p) k)"
    if "required (base_of sch) = Some True"
    using that f 2(2) by (fastforce simp: x fits_schema_def cp_getTyped_def absent_def Let_def split: if_splits)
  then show ?case by (auto simp: x)
qed

definition port_schema :: schema where
  "port_schema = [(''port'', Number_field \<lparr>required = Some True, default_value = JUndefined, description = None\<rparr>
     (Some 1) (Some 65535) (Some True))]"

theorem config_provider_exact_witness:
  "\<exists>p. createConfigProvider (\<lambda>_ _. False) [] ''api'' port_schema [Runtime [(''port'', JNum 80)]] = Inr p \<and>
     (\<exists>v. cp_getTyped ''port'' p = Inr v)"
proof -
  have "load_config [] [Runtime [(''port'', JNum 80)]] = Some [(''port'', JNum 80)]" by code_simp
  moreover have "applySchemaDefaults [(''port'', JNum 80)] port_schema = [(''port'', JNum 80)]" by code_simp
  moreover have "fits_schema (\<lambda>_ _. False) port_schema [(''port'', JNum 80)]"
    by (simp add: fits_schema_def port_schema_def js_get_def absent_def fits_simps in_bounds_def)
  ultimately obtain p where p: "createConfigProvider (\<lambda>_ _. False) [] ''api'' port_schema [Runtime [(''port'', JNum 80)]] = Inr p"
    using config_provider_exact [of "\<lambda>_ _. False" "[]" "''api''" port_schema "[Runtime [(''port'', JNum 80)]]"] by auto
  with config_provider_exact [of "\<lambda>_ _. False" "[]" "''api''" port_schema "[Runtime [(''port'', JNum 80)]]"]
  have "\<exists>v. cp_getTyped ''port'' p = Inr v" by (fastforce simp: port_schema_def)
  with p show ?thesis by blast
qed

subsection \<open>Merging objects\<close>

fun plain :: "jsval \<Rightarrow> bool" where
  "plain (JObj ob) = (distinct (jm_keys ob) \<and> ''__proto__'' \<notin> set (jm_keys ob) \<and> (\<forall>(k, v) \<in> set ob. plain v))"
| "plain _ = True"

fun is_leaf :: "jsval \<Rightarrow> bool" where
  "is_leaf (JObj _) = False"
| "is_leaf _ = True"

lemma not_leaf: "\<not> is_leaf v \<longleftrightarrow> (\<exists>ob. v = JObj ob)"
  by (cases v) auto

fun look :: "jsval \<Rightarrow> string list \<Rightarrow> jsval option" where
  "look v [] = Some v"
| "look (JObj ob) (k # p) = Option.bind (jm_get ob k) (\<lambda>v. look v p)"
| "look _ (k # p) = None"

definition merge_value :: "jsval \<Rightarrow> jsval option \<Rightarrow> jsval" where
  "merge_value v old = (case (v, old) of (JObj s, Some (JObj t)) \<Rightarrow> JObj (deepMerge t s) | _ \<Rightarrow> v)"

lemma js_get_own_or: "k \<noteq> ''__proto__'' \<Longrightarrow> js_get ob k =
    (case jm_get ob k of Some v \<Rightarrow> v | None \<Rightarrow> if k \<in> set prototype_functions then JFun else JUndefined)"
  by (simp add: js_get_def split: option.split)

lemma merge_value_js:
  "k \<noteq> ''__proto__'' \<Longrightarrow> (case (v, js_get t k) of (JObj s, JObj t') \<Rightarrow> JObj (deepMerge t' s) | _ \<Rightarrow> v) =
     merge_value v (jm_get t k)"
  by (simp add: js_get_own_or merge_value_def split: option.split jsval.split)

lemma deepMerge_get:
  "distinct (jm_keys s) \<Longrightarrow> ''__proto__'' \<notin> set (jm_keys s) \<Longrightarrow>
     jm_get (deepMerge t s) k = (case jm_get s k of None \<Rightarrow> jm_get t k | Some v \<Rightarrow> Some (merge_value v (jm_get t k)))"
proof (induction s arbitrary: t)
  case Nil
  then show ?case by simp
next
  case (Cons x s)
  obtain key v where x: "x = (key, v)" by fastforce
  have "key \<noteq> ''__proto__''" "jm_get s key = None" using Cons.prems by (auto simp: x map_of_eq_None_iff)
  moreover have "deepMerge t (x # s) = deepMerge (jm_set key (merge_value v (jm_get t key)) t) s"
    using merge_value_js [OF calculation(1)] by (simp add: x del: prod.case)
  ultimately show ?case using Cons by (simp add: x jm_get_set split: option.split)
qed

lemma plain_sub: "plain (JObj s) \<Longrightarrow> jm_get s k = Some v \<Longrightarrow> plain v"
  by (auto dest!: map_of_SomeD)

lemma merge_leaf:
  "plain (JObj s) \<Longrightarrow> look (JObj s) p = Some v \<Longrightarrow> is_leaf v \<Longrightarrow> look (JObj (deepMerge t s)) p = Some v"
proof (induction p arbitrary: s t)
  case Nil
  then show ?case by auto
next
  case (Cons k p)
  then obtain w where w: "jm_get s k = Some w" "look w p = Some v" by (auto simp: bind_eq_Some_conv)
  have g: "jm_get (deepMerge t s) k = Some (merge_value w (jm_get t k))"
    using Cons.prems(1) w(1) by (simp add: deepMerge_get)
  have "look (merge_value w (jm_get t k)) p = Some v"
  proof (cases w)
    case (JObj s')
    with Cons.IH [of s'] plain_sub [OF Cons.prems(1) w(1)] w(2) Cons.prems(3)
    show ?thesis by (auto simp: merge_value_def split: option.split jsval.split)
  qed (use w(2) in \<open>simp_all add: merge_value_def\<close>)
  with g show ?case by simp
qed

text \<open>A source touches a path when it has a value there or a leaf on the way.\<close>

fun touches_path :: "jsval \<Rightarrow> string list \<Rightarrow> bool" where
  "touches_path v [] = True"
| "touches_path (JObj ob) (k # p) = (case jm_get ob k of None \<Rightarrow> False | Some v \<Rightarrow> touches_path v p)"
| "touches_path _ (k # p) = True"

lemma merge_untouched:
  "plain (JObj s) \<Longrightarrow> \<not> touches_path (JObj s) p \<Longrightarrow> look (JObj t) p = Some v \<Longrightarrow>
     look (JObj (deepMerge t s)) p = Some v"
proof (induction p arbitrary: s t)
  case Nil
  then show ?case by simp
next
  case (Cons k p)
  from Cons.prems obtain w where w: "jm_get t k = Some w" "look w p = Some v" by (auto simp: bind_eq_Some_conv)
  show ?case
  proof (cases "jm_get s k")
    case None
    then show ?thesis using Cons.prems w by (simp add: deepMerge_get)
  next
    case (Some x)
    with Cons.prems(2) have x: "\<not> touches_path x p" by simp
    then obtain s' k' p' where s': "x = JObj s'" "p = k' # p'"
      by (metis neq_Nil_conv touches_path.simps(1) touches_path.simps(3-10) jsval.exhaust)
    with w obtain t' where t': "w = JObj t'" by (cases w) auto
    have "look (JObj (deepMerge t' s')) p = Some v"
      using Cons.IH [of s' t'] plain_sub [OF Cons.prems(1) Some] x w(2) by (simp add: s'(1) t')
    then show ?thesis using Cons.prems(1) Some w(1) by (simp add: deepMerge_get s'(1) t' merge_value_def)
  qed
qed

subsection \<open>The last source that sets a leaf wins\<close>

text \<open>The object a source merges, unless it is one of defaults.\<close>

fun layer :: "(string \<times> string) list \<Rightarrow> config_origin \<Rightarrow> (string, jsval) jmap option" where
  "layer env (Defaults vs) = None"
| "layer env (File path vs) = Some vs"
| "layer env (Env pf vs) = envToConfig (override env vs) (override DEFAULT_ENV_PREFIX pf)"
| "layer env (Runtime vs) = Some vs"

lemma load_layer: "layer env src = Some ob \<Longrightarrow> load_source env src merged = Some (deepMerge merged ob)"
  by (cases src) auto

lemma load_from_append: "load_from env (xs @ ys) m = Option.bind (load_from env xs m) (load_from env ys)"
  by (induction xs arbitrary: m) (auto simp: Option.bind_assoc bind_eq_None_conv split: Option.bind_splits)

lemma load_untouched:
  "load_from env post m = Some c \<Longrightarrow> look (JObj m) p = Some v \<Longrightarrow>
     \<forall>q \<in> set post. \<exists>ob. layer env q = Some ob \<and> plain (JObj ob) \<and> \<not> touches_path (JObj ob) p \<Longrightarrow>
     look (JObj c) p = Some v"
proof (induction post arbitrary: m)
  case (Cons q post)
  then obtain ob where ob: "layer env q = Some ob" "plain (JObj ob)" "\<not> touches_path (JObj ob) p" by auto
  have "load_from env post (deepMerge m ob) = Some c" using Cons.prems(1) load_layer [OF ob(1)] by simp
  with Cons.IH merge_untouched [OF ob(2,3) Cons.prems(2)] Cons.prems(3) show ?case by simp
qed simp

text \<open>
  C30: the value a file, the environment or the runtime gives at a path is the value loaded,
  however deep the path, when no later source touches the path and none is one of defaults:
  sources take precedence in the order they are listed, whatever their kind.
\<close>

theorem last_source_wins:
  assumes "load_config env (pre @ src # post) = Some c"
    and "layer env src = Some s" and "plain (JObj s)" and "look (JObj s) p = Some v" and "is_leaf v"
    and "\<forall>q \<in> set post. \<exists>ob. layer env q = Some ob \<and> plain (JObj ob) \<and> \<not> touches_path (JObj ob) p"
  shows "look (JObj c) p = Some v"
proof -
  obtain m where "load_from env post (deepMerge m s) = Some c"
    using assms(1) load_layer [OF assms(2)] by (auto simp: load_config_def load_from_append bind_eq_Some_conv)
  from load_untouched [OF this merge_leaf [OF assms(3,4,5)] assms(6)] show ?thesis .
qed

theorem last_source_wins_witness:
  "let srcs = [File ''a'' [(''db'', JObj [(''host'', JStr ''x''), (''port'', JNum 1)])],
      Runtime [(''db'', JObj [(''port'', JNum 2)])], Env None (Some [(''AGENT_OS_DB_NAME'', ''7'')])]
   in Option.bind (load_config [] srcs) (\<lambda>c. look (JObj c) [''db'', ''port'']) = Some (JNum 2)"
proof -
  let ?pre = "[File ''a'' [(''db'', JObj [(''host'', JStr ''x''), (''port'', JNum 1)])]]"
  let ?s = "[(''db'', JObj [(''port'', JNum 2)])]"
  let ?env = "Env None (Some [(''AGENT_OS_DB_NAME'', ''7'')])"
  let ?p = "[''db'', ''port'']"
  have "\<exists>c. load_config [] (?pre @ Runtime ?s # [?env]) = Some c" by (rule exI, code_simp)
  then obtain c where c: "load_config [] (?pre @ Runtime ?s # [?env]) = Some c" ..
  have e: "envToConfig [(''AGENT_OS_DB_NAME'', ''7'')] DEFAULT_ENV_PREFIX = Some [(''db'', JObj [(''name'', JNum 7)])]"
    by code_simp
  have "look (JObj c) ?p = Some (JNum 2)"
    by (rule last_source_wins [OF c, of ?s]) (simp_all add: e)
  with c show ?thesis by (simp add: Let_def)
qed

text \<open>After a source of defaults only its keys are left.\<close>

lemma defaults_keys: "set (jm_keys (apply_defaults data defaults)) = set (jm_keys defaults)"
proof -
  have "jm_has (fold (\<lambda>(key, v). jm_set key (f key v)) ds m) k \<longleftrightarrow> jm_has m k \<or> k \<in> set (jm_keys ds)"
    for ds and m :: "(string, jsval) jmap" and f k
    by (induction ds arbitrary: m) auto
  from this [of "\<lambda>key v. if js_get data key \<noteq> JUndefined then js_get data key else v" defaults "[]"]
  show ?thesis by (auto simp: apply_defaults_def jm_has_iff set_eq_iff)
qed

end
