(* ===== verification/ConfigEnv.thy ===== *)
theory ConfigEnv
  imports ConfigLoader
begin

text \<open>
  Environment variables as configuration: a variable lands at its path, unless the path of
  another variable passes through it; all keys that variables make are in lower case.
\<close>

subsection \<open>Assignment along a path\<close>

text \<open>What a path holds after an assignment at \<open>p\<close>.\<close>

definition assigned :: "string list \<Rightarrow> jsval \<Rightarrow> (string, jsval) jmap \<Rightarrow> (string, jsval) jmap \<Rightarrow> bool" where
  "assigned p v cur cur' \<longleftrightarrow> (\<forall>q. q \<noteq> [] \<longrightarrow>
     (prefix p q \<longrightarrow> look (JObj cur') q = look v (drop (length p) q)) \<and>
     (strict_prefix q p \<longrightarrow> (\<exists>ob. look (JObj cur') q = Some (JObj ob))) \<and>
     (\<not> prefix p q \<longrightarrow> \<not> prefix q p \<longrightarrow> look (JObj cur') q = look (JObj cur) q))"

definition clear_way :: "string list \<Rightarrow> (string, jsval) jmap \<Rightarrow> bool" where
  "clear_way p cur \<longleftrightarrow> (\<forall>q v. q \<noteq> [] \<longrightarrow> strict_prefix q p \<longrightarrow> look (JObj cur) q = Some v \<longrightarrow> \<not> is_leaf v)"

lemma look_Cons_set: "look (JObj (jm_set k x cur)) (k' # q) = (if k' = k then look x q else look (JObj cur) (k' # q))"
  by (simp add: jm_get_set)

lemma assigned_Cons:
  assumes "assigned p v below below'" and "p \<noteq> []"
    and "\<And>q. q \<noteq> [] \<Longrightarrow> \<not> prefix p q \<Longrightarrow> \<not> prefix q p \<Longrightarrow> look (JObj below) q = look (JObj cur) (k # q)"
  shows "assigned (k # p) v cur (jm_set k (JObj below') cur)"
  unfolding assigned_def
proof (intro allI impI)
  fix q :: "string list"
  assume "q \<noteq> []"
  then obtain k' q' where q: "q = k' # q'" by (cases q) auto
  note a = assms(1) [unfolded assigned_def, rule_format, of q']
  show "(prefix (k # p) q \<longrightarrow> look (JObj (jm_set k (JObj below') cur)) q = look v (drop (length (k # p)) q)) \<and>
     (strict_prefix q (k # p) \<longrightarrow> (\<exists>ob. look (JObj (jm_set k (JObj below') cur)) q = Some (JObj ob))) \<and>
     (\<not> prefix (k # p) q \<longrightarrow> \<not> prefix q (k # p) \<longrightarrow> look (JObj (jm_set k (JObj below') cur)) q = look (JObj cur) q)"
  proof (cases "q' = []")
    case True
    with assms(2) show ?thesis by (auto simp: q look_Cons_set strict_prefix_def)
  next
    case False
    show ?thesis
      using a [OF False] assms(2) assms(3) [of q'] False
      by (cases "k' = k") (auto simp: q look_Cons_set strict_prefix_def simp del: look.simps(2))
  qed
qed

lemma set_path_assigns:
  "p \<noteq> [] \<Longrightarrow> ''__proto__'' \<notin> set p \<Longrightarrow> clear_way p cur \<Longrightarrow> \<exists>cur'. set_path p v cur = Some cur' \<and> assigned p v cur cur'"
proof (induction p v cur rule: set_path.induct)
  case (1 v cur)
  then show ?case by simp
next
  case (2 leaf v cur)
  have "assigned [leaf] v cur (jm_set leaf v cur)"
    unfolding assigned_def
  proof (intro allI impI)
    fix q :: "string list"
    assume "q \<noteq> []"
    then obtain k' q' where q: "q = k' # q'" by (cases q) auto
    show "(prefix [leaf] q \<longrightarrow> look (JObj (jm_set leaf v cur)) q = look v (drop (length [leaf]) q)) \<and>
       (strict_prefix q [leaf] \<longrightarrow> (\<exists>ob. look (JObj (jm_set leaf v cur)) q = Some (JObj ob))) \<and>
       (\<not> prefix [leaf] q \<longrightarrow> \<not> prefix q [leaf] \<longrightarrow> look (JObj (jm_set leaf v cur)) q = look (JObj cur) q)"
      by (auto simp: q look_Cons_set strict_prefix_def)
  qed
  then show ?case by simp
next
  case (3 seg nxt rest v cur)
  have seg: "seg \<noteq> ''__proto__''" and rest: "''__proto__'' \<notin> set (nxt # rest)" using "3.prems" by auto
  have c: "\<not> is_leaf x" if "jm_get cur seg = Some x" for x
    using "3.prems"(3) that unfolding clear_way_def
    by (elim allE [of _ "[seg]"] allE [of _ x]) (simp add: strict_prefix_def)
  show ?case
  proof (cases "jm_get cur seg")
    case None
    then have x: "js_get cur seg = JUndefined \<or> typeof (js_get cur seg) \<noteq> ''object''"
      using seg by (auto simp: js_get_own_or)
    have "clear_way (nxt # rest) []" by (auto simp: clear_way_def neq_Nil_conv)
    from "3.IH"(1) [OF refl x _ rest this] obtain b where b: "set_path (nxt # rest) v [] = Some b" "assigned (nxt # rest) v [] b"
      by auto
    have "assigned (seg # nxt # rest) v cur (jm_set seg (JObj b) cur)"
      by (rule assigned_Cons [OF b(2)]) (auto simp: None neq_Nil_conv)
    with b(1) x show ?thesis by (auto simp: Let_def)
  next
    case (Some x)
    with c obtain ob where ob: "x = JObj ob" by (auto simp: not_leaf)
    then have j: "js_get cur seg = JObj ob" using Some by (simp add: js_get_own)
    have "clear_way (nxt # rest) ob"
      unfolding clear_way_def
    proof (intro allI impI)
      fix q w assume "q \<noteq> []" "strict_prefix q (nxt # rest)" "look (JObj ob) q = Some w"
      with "3.prems"(3) [unfolded clear_way_def, rule_format, of "seg # q" w] Some ob
      show "\<not> is_leaf w" by (simp add: strict_prefix_def)
    qed
    from "3.IH"(2) [OF refl _ _ _ rest this] j obtain b where b: "set_path (nxt # rest) v ob = Some b" "assigned (nxt # rest) v ob b"
      by auto
    have "assigned (seg # nxt # rest) v cur (jm_set seg (JObj b) cur)"
      by (rule assigned_Cons [OF b(2)]) (simp_all add: Some ob)
    with b(1) j show ?thesis by (auto simp: Let_def)
  qed
qed

lemma look_plain_path:
  "look (JObj cur) (k # q) = Some v \<Longrightarrow> jm_get cur k \<noteq> None"
  by (auto simp: bind_eq_Some_conv)

subsection \<open>The paths of variables\<close>

lemma lower_char_idem [simp]: "lower_char (lower_char c) = lower_char c"
proof -
  have "lower_char (char_of n) = char_of n" if "97 \<le> n \<and> n \<le> 122 \<or> 224 \<le> n \<and> n \<le> 254" for n :: nat
    using that by (auto simp: lower_char_def Let_def)
  then show ?thesis by (auto simp: lower_char_def Let_def)
qed

lemma env_path_parts:
  assumes "w \<in> set (env_path pf key)"
  shows "w \<noteq> []" "CHR ''_'' \<notin> set w" "toLowerCase w = w"
proof -
  from assms have w: "w \<noteq> []" "w \<in> set (split_on (CHR ''_'') (toLowerCase (drop (length pf) key)))"
    by (auto simp: env_path_def)
  then show "w \<noteq> []" "CHR ''_'' \<notin> set w" using split_on_parts by blast+
  from split_on_parts [OF w(2)] have "set w \<subseteq> lower_char ` set (drop (length pf) key)" by (simp add: toLowerCase_def)
  then have "map lower_char w = map id w" by (intro map_cong) auto
  then show "toLowerCase w = w" by (simp add: toLowerCase_def)
qed

lemma proto_not_in_path: "''__proto__'' \<notin> set (env_path pf key)"
  using env_path_parts(2) [of "''__proto__''" pf key] by auto

text \<open>The variables that count: those with the prefix and a path that is not empty.\<close>

definition config_vars :: "string \<Rightarrow> (string \<times> string) list \<Rightarrow> (string \<times> string) list" where
  "config_vars pf env = filter (\<lambda>(key, _). starts_with key pf \<and> env_path pf key \<noteq> []) env"

definition apart :: "string \<Rightarrow> string \<times> string \<Rightarrow> string \<times> string \<Rightarrow> bool" where
  "apart pf x y \<longleftrightarrow> \<not> prefix (env_path pf (fst x)) (env_path pf (fst y)) \<and> \<not> prefix (env_path pf (fst y)) (env_path pf (fst x))"

lemma coerce_leaf: "is_leaf (coerceEnvValue s)"
  by (simp add: coerceEnvValue_def split: option.split)

definition holds_vars :: "string \<Rightarrow> (string \<times> string) list \<Rightarrow> (string, jsval) jmap \<Rightarrow> bool" where
  "holds_vars pf vs c \<longleftrightarrow> (\<forall>(key, val) \<in> set vs. look (JObj c) (env_path pf key) = Some (coerceEnvValue val)) \<and>
     (\<forall>q v. q \<noteq> [] \<longrightarrow> look (JObj c) q = Some v \<longrightarrow> is_leaf v \<longrightarrow> (\<exists>x \<in> set vs. q = env_path pf (fst x)))"

lemma holds_vars_step:
  assumes "holds_vars pf seen cur" and "env_path pf key \<noteq> []" and "\<forall>x \<in> set seen. apart pf x (key, val)"
  shows "\<exists>cur'. set_path (env_path pf key) (coerceEnvValue val) cur = Some cur' \<and>
    holds_vars pf (seen @ [(key, val)]) cur'"
proof -
  let ?p = "env_path pf key" and ?v = "coerceEnvValue val"
  have "clear_way ?p cur"
    unfolding clear_way_def
  proof (intro allI impI notI)
    fix q v assume "q \<noteq> []" "strict_prefix q ?p" "look (JObj cur) q = Some v" "is_leaf v"
    with assms(1) obtain x where "x \<in> set seen" "q = env_path pf (fst x)" unfolding holds_vars_def by blast
    with assms(3) \<open>strict_prefix q ?p\<close> show False by (auto simp: apart_def strict_prefix_def)
  qed
  from set_path_assigns [OF assms(2) proto_not_in_path this] obtain cur' where
    c: "set_path ?p ?v cur = Some cur'" "assigned ?p ?v cur cur'" by blast
  have here: "look (JObj cur') ?p = Some ?v" using c(2) assms(2) by (simp add: assigned_def)
  have "look (JObj cur') (env_path pf k) = Some (coerceEnvValue w)" if "(k, w) \<in> set seen" for k w
  proof -
    from that assms(1) have l: "look (JObj cur) (env_path pf k) = Some (coerceEnvValue w)" by (auto simp: holds_vars_def)
    from that assms(3) have a: "\<not> prefix ?p (env_path pf k)" "\<not> prefix (env_path pf k) ?p" by (auto simp: apart_def)
    then have "env_path pf k \<noteq> []" by auto
    with c(2) a l show ?thesis by (simp add: assigned_def)
  qed
  moreover have "\<exists>x \<in> set (seen @ [(key, val)]). q = env_path pf (fst x)"
    if q: "q \<noteq> []" "look (JObj cur') q = Some v" "is_leaf v" for q v
  proof -
    consider "prefix ?p q" | "strict_prefix q ?p" | "\<not> prefix ?p q" "\<not> prefix q ?p" by (auto simp: strict_prefix_def)
    then show ?thesis
    proof cases
      case 1
      with c(2) q have "look ?v (drop (length ?p) q) = Some v" by (simp add: assigned_def)
      then have "drop (length ?p) q = []" using coerce_leaf [of val] by (cases "drop (length ?p) q"; cases ?v) auto
      with 1 have "q = ?p" by (auto simp: prefix_def)
      then show ?thesis by simp
    next
      case 2
      with c(2) q(1) obtain ob where "look (JObj cur') q = Some (JObj ob)" unfolding assigned_def by blast
      with q(2,3) show ?thesis by auto
    next
      case 3
      with c(2) q have "look (JObj cur) q = Some v" by (simp add: assigned_def)
      with assms(1) q show ?thesis unfolding holds_vars_def by auto
    qed
  qed
  ultimately show ?thesis using c(1) here by (intro exI [of _ cur']) (auto simp: holds_vars_def)
qed

lemma envToConfig_from_holds:
  "holds_vars pf seen cur \<Longrightarrow> sorted_wrt (apart pf) (seen @ config_vars pf env) \<Longrightarrow>
     \<exists>c. envToConfig_from env pf cur = Some c \<and> holds_vars pf (seen @ config_vars pf env) c"
proof (induction env arbitrary: seen cur)
  case Nil
  then show ?case by (simp add: config_vars_def)
next
  case (Cons x env)
  obtain key val where x: "x = (key, val)" by fastforce
  show ?case
  proof (cases "starts_with key pf \<and> env_path pf key \<noteq> []")
    case True
    then have v: "config_vars pf (x # env) = (key, val) # config_vars pf env" by (simp add: config_vars_def x)
    with Cons.prems(2) have "\<forall>y \<in> set seen. apart pf y (key, val)" by (simp add: sorted_wrt_append)
    from holds_vars_step [OF Cons.prems(1) _ this] True obtain cur' where
      c: "set_path (env_path pf key) (coerceEnvValue val) cur = Some cur'" "holds_vars pf (seen @ [(key, val)]) cur'"
      by blast
    have "sorted_wrt (apart pf) ((seen @ [(key, val)]) @ config_vars pf env)" using Cons.prems(2) v by simp
    from Cons.IH [OF c(2) this] show ?thesis using True c(1) unfolding v by (simp add: x)
  next
    case False
    then have v: "config_vars pf (x # env) = config_vars pf env" by (auto simp: config_vars_def x)
    from False have "envToConfig_from (x # env) pf cur = envToConfig_from env pf cur" by (auto simp: x)
    with Cons.IH [OF Cons.prems(1)] Cons.prems(2) v show ?thesis by simp
  qed
qed

text \<open>
  C31: when no path of a variable with the prefix is an initial part of another's, the
  environment turns into a configuration that holds the val of each variable at its path,
  and no other leaf.
\<close>

theorem env_variables_at_their_paths:
  assumes "sorted_wrt (apart pf) (config_vars pf env)"
  shows "\<exists>c. envToConfig env pf = Some c \<and>
    (\<forall>(key, val) \<in> set (config_vars pf env). look (JObj c) (env_path pf key) = Some (coerceEnvValue val)) \<and>
    (\<forall>q v. q \<noteq> [] \<longrightarrow> look (JObj c) q = Some v \<longrightarrow> is_leaf v \<longrightarrow>
       (\<exists>x \<in> set (config_vars pf env). q = env_path pf (fst x)))"
proof -
  have "holds_vars pf [] []" by (auto simp: holds_vars_def neq_Nil_conv)
  from envToConfig_from_holds [OF this, of env] assms show ?thesis
    by (simp add: envToConfig_def holds_vars_def)
qed

theorem env_variables_at_their_paths_witness:
  "\<exists>c. envToConfig [(''HOME'', ''/''), (''X_DB_PORT'', ''0x10''), (''X_DB_HOST'', ''h'')] ''X_'' = Some c \<and>
     look (JObj c) [''db'', ''port''] = Some (JNum 16) \<and> look (JObj c) [''db'', ''host''] = Some (JStr ''h'')"
proof -
  let ?env = "[(''HOME'', ''/''), (''X_DB_PORT'', ''0x10''), (''X_DB_HOST'', ''h'')]"
  have v: "config_vars ''X_'' ?env = [(''X_DB_PORT'', ''0x10''), (''X_DB_HOST'', ''h'')]"
    "env_path ''X_'' ''X_DB_PORT'' = [''db'', ''port'']" "env_path ''X_'' ''X_DB_HOST'' = [''db'', ''host'']"
    "coerceEnvValue ''0x10'' = JNum 16" "coerceEnvValue ''h'' = JStr ''h''"
    by code_simp+
  have "sorted_wrt (apart ''X_'') (config_vars ''X_'' ?env)" by (simp add: v apart_def)
  from env_variables_at_their_paths [OF this] show ?thesis by (auto simp: v)
qed

text \<open>A null on the way makes the load throw.\<close>

lemma null_on_the_way: "envToConfig [(''A_X'', ''null''), (''A_X_Y'', ''1'')] ''A_'' = None"
  by code_simp

subsection \<open>Keys that no variable makes\<close>

lemma plain_set: "plain (JObj cur) \<Longrightarrow> k \<noteq> ''__proto__'' \<Longrightarrow> plain v \<Longrightarrow> plain (JObj (jm_set k v cur))"
  using set_jm_set [of k v cur] by (fastforce simp: jm_keys_set jm_has_iff)

lemma set_path_plain:
  "set_path p v cur = Some cur' \<Longrightarrow> plain (JObj cur) \<Longrightarrow> ''__proto__'' \<notin> set p \<Longrightarrow> plain v \<Longrightarrow>
     plain (JObj cur') \<and> (\<forall>k. jm_get cur' k \<noteq> None \<longrightarrow> k \<in> set p \<or> jm_get cur k \<noteq> None)"
proof (induction p v cur arbitrary: cur' rule: set_path.induct)
  case (2 leaf v cur)
  then have "cur' = jm_set leaf v cur" "plain (JObj cur')" using plain_set [of cur leaf v] by simp_all
  then show ?case by (simp add: jm_get_set)
next
  case (3 seg nxt rest v cur)
  have seg: "seg \<noteq> ''__proto__''" using "3.prems"(3) by auto
  have step: "plain (JObj cur') \<and> (\<forall>k. jm_get cur' k \<noteq> None \<longrightarrow> k \<in> set (seg # nxt # rest) \<or> jm_get cur k \<noteq> None)"
    if "cur' = jm_set seg (JObj b) cur" "plain (JObj b)" for b
    using plain_set [OF "3.prems"(2) seg that(2)] unfolding that(1) by (simp add: jm_get_set)
  show ?case
  proof (cases "js_get cur seg = JUndefined \<or> typeof (js_get cur seg) \<noteq> ''object''")
    case True
    with "3.prems"(1) obtain b where b: "set_path (nxt # rest) v [] = Some b" "cur' = jm_set seg (JObj b) cur"
      by (auto simp: Let_def)
    from "3.IH"(1) [OF refl True b(1)] "3.prems" have "plain (JObj b)" by simp
    with step b(2) show ?thesis by blast
  next
    case False
    with "3.prems"(1) obtain ob where ob: "js_get cur seg = JObj ob" by (auto simp: Let_def split: jsval.splits)
    with False "3.prems"(1) obtain b where b: "set_path (nxt # rest) v ob = Some b" "cur' = jm_set seg (JObj b) cur"
      by (auto simp: Let_def)
    have "jm_get cur seg = Some (JObj ob)"
      using ob seg by (auto simp: js_get_own_or split: option.splits if_splits)
    then have "plain (JObj ob)" using plain_sub "3.prems"(2) by blast
    with "3.IH"(2) [OF refl False ob b(1)] "3.prems" have "plain (JObj b)" by simp
    with step b(2) show ?thesis by blast
  qed
qed auto

lemma env_keys_lower:
  "envToConfig_from env pf cur = Some c \<Longrightarrow> plain (JObj cur) \<Longrightarrow>
     plain (JObj c) \<and> (\<forall>k. jm_get c k \<noteq> None \<longrightarrow> toLowerCase k = k \<or> jm_get cur k \<noteq> None)"
proof (induction env pf cur rule: envToConfig_from.induct)
  case (2 key val env pf cur)
  show ?case
  proof (cases "starts_with key pf \<and> env_path pf key \<noteq> []")
    case True
    with "2.prems"(1) obtain cur' where c: "set_path (env_path pf key) (coerceEnvValue val) cur = Some cur'"
      "envToConfig_from env pf cur' = Some c" by (auto simp: bind_eq_Some_conv)
    have "plain (coerceEnvValue val)" by (simp add: coerceEnvValue_def split: option.split)
    from set_path_plain [OF c(1) "2.prems"(2) proto_not_in_path this]
    have p: "plain (JObj cur')" "\<And>k. jm_get cur' k \<noteq> None \<Longrightarrow> k \<in> set (env_path pf key) \<or> jm_get cur k \<noteq> None" by auto
    from True have t: "\<not> \<not> starts_with key pf" "env_path pf key \<noteq> []" by auto
    from "2.IH"(3) [OF t c p(1)] p(2) env_path_parts(3) show ?thesis by blast
  next
    case False
    then have e: "envToConfig_from env pf cur = Some c" using "2.prems"(1) by (auto split: if_splits)
    show ?thesis
    proof (cases "starts_with key pf")
      case True
      then have t: "\<not> \<not> starts_with key pf" "env_path pf key = []" using False by auto
      show ?thesis by (rule "2.IH"(2) [OF t e "2.prems"(2)])
    next
      case False
      show ?thesis by (rule "2.IH"(1) [OF False e "2.prems"(2)])
    qed
  qed
qed simp

lemma env_plain: "envToConfig env pf = Some c \<Longrightarrow> plain (JObj c)"
  using env_keys_lower [of env pf "[]" c] by (simp add: envToConfig_def)

lemma env_leaves_mixed_case:
  assumes "load_source penv (Env pf vs) merged = Some m" and "toLowerCase k \<noteq> k"
  shows "jm_get m k = jm_get merged k"
proof -
  from assms(1) obtain c where c: "envToConfig (override penv vs) (override DEFAULT_ENV_PREFIX pf) = Some c"
    "m = deepMerge merged c" by auto
  have "jm_get c k = None"
    using env_keys_lower [of "override penv vs" "override DEFAULT_ENV_PREFIX pf" "[]" c] c(1) assms(2)
    by (auto simp: envToConfig_def)
  moreover have "plain (JObj c)" by (rule env_plain [OF c(1)])
  ultimately show ?thesis by (simp add: c(2) deepMerge_get)
qed

end
