(* ===== verification/LlmConfig.thy ===== *)
theory LlmConfig
  imports ConfigEnv
begin

text \<open>
  The configuration of the language model package (packages/llm/src/config.ts): its schema, the
  provider over it and the reader of the typed shape. No variable of the environment reaches
  the settings with mixed-case names.
\<close>

definition plain_base :: "bool option \<Rightarrow> jsval \<Rightarrow> base_schema" where
  "plain_base r d = \<lparr>required = r, default_value = d, description = None\<rparr>"

definition llmConfigSchema :: schema where
  "llmConfigSchema =
     [(''provider'', String_field (plain_base (Some True) (JStr ''mock'')) None None None),
      (''model'', String_field (plain_base (Some True) (JStr ''mock-model'')) None None None),
      (''temperature'', Number_field (plain_base (Some True) (JNum (2 / 10))) (Some 0) (Some 2) None),
      (''maxTokens'', Number_field (plain_base None JUndefined) None (Some 32768) None),
      (''topP'', Number_field (plain_base None JUndefined) (Some 0) (Some 1) None),
      (''timeoutMs'', Number_field (plain_base (Some True) (JNum 30000)) (Some 1) None (Some True)),
      (''apiKey'', String_field \<lparr>required = None, default_value = JUndefined,
         description = Some ''Vendor API key (plain string for SDK use)''\<rparr> None None None),
      (''baseUrl'', String_field (plain_base None JUndefined) None None None),
      (''organization'', String_field (plain_base None JUndefined) None None None),
      (''defaultProvider'', String_field (plain_base (Some True) (JStr ''mock'')) None None None),
      (''registrations'', Array_field (plain_base None JUndefined) None None None)]"

definition createLLMConfigProvider :: "(string \<Rightarrow> string \<Rightarrow> bool) \<Rightarrow> (string \<times> string) list \<Rightarrow> config_origin list
    \<Rightarrow> config_failure + config_provider" where
  "createLLMConfigProvider regexp penv sources = createConfigProvider regexp penv ''llm'' llmConfigSchema sources"

record provider_entry =
  pe_provider :: string
  pe_model :: string
  pe_apiKey :: "string option"
  pe_baseUrl :: "string option"
  pe_organization :: "string option"

datatype llm_config_failure = Config_error config_failure | Type_error string

definition str_member :: "(string, jsval) jmap \<Rightarrow> string \<Rightarrow> string option" where
  "str_member ob k = (case js_get ob k of JStr s \<Rightarrow> Some s | _ \<Rightarrow> None)"

definition parse_registration :: "nat \<Rightarrow> jsval \<Rightarrow> string + provider_entry" where
  "parse_registration index entry =
     (let place = ''registrations['' @ nat_str index @ '']''
      in if typeof entry \<noteq> ''object'' \<or> entry = JNull then Inl (place @ '' must be an object.'')
         else let ob = (case entry of JObj ob \<Rightarrow> ob | _ \<Rightarrow> [])
              in (case str_member ob ''provider'' of
                    Some (p # ps) \<Rightarrow> (case str_member ob ''model'' of
                      Some (m # ms) \<Rightarrow> Inr \<lparr>pe_provider = p # ps, pe_model = m # ms, pe_apiKey = str_member ob ''apiKey'',
                        pe_baseUrl = str_member ob ''baseUrl'', pe_organization = str_member ob ''organization''\<rparr>
                    | _ \<Rightarrow> Inl (place @ ''.model is required.''))
                  | _ \<Rightarrow> Inl (place @ ''.provider is required.'')))"

fun parse_from :: "nat \<Rightarrow> jsval list \<Rightarrow> string + provider_entry list" where
  "parse_from i [] = Inr []"
| "parse_from i (e # es) = (case parse_registration i e of
     Inl msg \<Rightarrow> Inl msg
   | Inr x \<Rightarrow> (case parse_from (i + 1) es of Inl msg \<Rightarrow> Inl msg | Inr xs \<Rightarrow> Inr (x # xs)))"

definition parseRegistrations :: "jsval \<Rightarrow> string + provider_entry list" where
  "parseRegistrations raw = (case raw of JArr es \<Rightarrow> parse_from 0 es | _ \<Rightarrow> Inr [])"

record llm_config =
  lc_provider :: jsval
  lc_model :: jsval
  lc_temperature :: jsval
  lc_maxTokens :: "jsval option"
  lc_topP :: "jsval option"
  lc_timeoutMs :: jsval
  lc_apiKey :: "jsval option"
  lc_baseUrl :: "jsval option"
  lc_organization :: "jsval option"
  lc_defaultProvider :: jsval
  lc_registrations :: "provider_entry list"

text \<open>Reading goes on unless the step before it threw.\<close>

definition and_then :: "'e + 'a \<Rightarrow> ('a \<Rightarrow> 'e + 'b) \<Rightarrow> 'e + 'b" where
  "and_then r f = (case r of Inl e \<Rightarrow> Inl e | Inr x \<Rightarrow> f x)"

definition read_typed :: "string \<Rightarrow> config_provider \<Rightarrow> llm_config_failure + jsval" where
  "read_typed k p = (case cp_getTyped k p of Inl e \<Rightarrow> Inl (Config_error e) | Inr v \<Rightarrow> Inr v)"

definition read_when :: "bool \<Rightarrow> string \<Rightarrow> config_provider \<Rightarrow> llm_config_failure + jsval option" where
  "read_when b k p = (if b then and_then (read_typed k p) (\<lambda>v. Inr (Some v)) else Inr None)"

definition has_string :: "string \<Rightarrow> config_provider \<Rightarrow> bool" where
  "has_string k p \<longleftrightarrow> cp_has k p \<and> typeof (cp_get k p) = ''string''"

definition readLLMConfig :: "config_provider \<Rightarrow> llm_config_failure + llm_config" where
  "readLLMConfig p =
     and_then (read_typed ''provider'' p) (\<lambda>provider.
     and_then (read_typed ''model'' p) (\<lambda>model.
     and_then (read_typed ''temperature'' p) (\<lambda>temperature.
     and_then (read_when (cp_has ''maxTokens'' p) ''maxTokens'' p) (\<lambda>maxTokens.
     and_then (read_when (cp_has ''topP'' p) ''topP'' p) (\<lambda>topP.
     and_then (read_typed ''timeoutMs'' p) (\<lambda>timeoutMs.
     and_then (read_when (has_string ''apiKey'' p) ''apiKey'' p) (\<lambda>apiKey.
     and_then (read_when (has_string ''baseUrl'' p) ''baseUrl'' p) (\<lambda>baseUrl.
     and_then (read_when (has_string ''organization'' p) ''organization'' p) (\<lambda>organization.
     and_then (read_typed ''defaultProvider'' p) (\<lambda>defaultProvider.
     case parseRegistrations (cp_get ''registrations'' p) of
       Inl msg \<Rightarrow> Inl (Type_error msg)
     | Inr regs \<Rightarrow> Inr \<lparr>lc_provider = provider, lc_model = model, lc_temperature = temperature,
         lc_maxTokens = maxTokens, lc_topP = topP, lc_timeoutMs = timeoutMs, lc_apiKey = apiKey,
         lc_baseUrl = baseUrl, lc_organization = organization, lc_defaultProvider = defaultProvider,
         lc_registrations = regs\<rparr>))))))))))"

subsection \<open>What the environment cannot set\<close>

definition is_env :: "config_origin \<Rightarrow> bool" where
  "is_env s \<longleftrightarrow> (\<exists>pf vs. s = Env pf vs)"

lemma env_sources_leave:
  "load_from penv sources m = Some c \<Longrightarrow> \<forall>s \<in> set sources. is_env s \<Longrightarrow> toLowerCase k \<noteq> k \<Longrightarrow> jm_get c k = jm_get m k"
proof (induction sources arbitrary: m)
  case (Cons s sources)
  then obtain pf vs m' where s: "s = Env pf vs" "load_source penv (Env pf vs) m = Some m'"
    "load_from penv sources m' = Some c" by (auto simp: is_env_def bind_eq_Some_conv)
  with Cons env_leaves_mixed_case [OF s(2) Cons.prems(3)] show ?case by simp
qed simp

lemma mixed_case_keys:
  "toLowerCase ''timeoutMs'' \<noteq> ''timeoutMs''" "toLowerCase ''defaultProvider'' \<noteq> ''defaultProvider''"
  "toLowerCase ''maxTokens'' \<noteq> ''maxTokens''" "toLowerCase ''topP'' \<noteq> ''topP''"
  "toLowerCase ''apiKey'' \<noteq> ''apiKey''" "toLowerCase ''baseUrl'' \<noteq> ''baseUrl''"
  by code_simp+

text \<open>Filling in defaults, one key at a time.\<close>

lemma schema_defaults_get:
  "distinct (jm_keys schema) \<Longrightarrow> k \<noteq> ''__proto__'' \<Longrightarrow> k \<notin> set prototype_functions \<Longrightarrow>
     jm_get (applySchemaDefaults data schema) k =
       (case jm_get schema k of
          Some sch \<Rightarrow> if override JUndefined (jm_get data k) = JUndefined \<and> default_value (base_of sch) \<noteq> JUndefined
            then Some (default_value (base_of sch)) else jm_get data k
        | None \<Rightarrow> jm_get data k)"
  unfolding applySchemaDefaults_def
proof (induction schema arbitrary: data)
  case (Cons x schema)
  obtain key sch where x: "x = (key, sch)" by fastforce
  have "jm_get schema key = None" using Cons.prems by (auto simp: x map_of_eq_None_iff)
  with Cons show ?case
    by (auto simp: x jm_get_set js_get_def split: option.split)
qed simp

text \<open>
  A provider made from the environment alone has the default timeout and provider and no
  limit of tokens, no top-p, API key or base URL, whatever the variables and their prefix are:
  a path made from a variable is in lower case, and the keys of these settings are not.
\<close>

theorem environment_cannot_set_mixed_case:
  assumes "createLLMConfigProvider regexp penv sources = Inr p" and "\<forall>s \<in> set sources. is_env s"
    and "readLLMConfig p = Inr c"
  shows "lc_timeoutMs c = JNum 30000 \<and> lc_defaultProvider c = JStr ''mock'' \<and> lc_maxTokens c = None \<and>
    lc_topP c = None \<and> lc_apiKey c = None \<and> lc_baseUrl c = None"
proof -
  from assms(1) obtain merged where m: "load_from penv sources [] = Some merged"
    "cp_data p = applySchemaDefaults merged llmConfigSchema"
    by (auto simp: createLLMConfigProvider_def createConfigProvider_def load_config_def Let_def
        split: option.splits if_splits)
  have none: "jm_get merged k = None" if "toLowerCase k \<noteq> k" for k
    using env_sources_leave [OF m(1) assms(2) that] by simp
  have mixed: "toLowerCase k \<noteq> k" if "k \<in> {''timeoutMs'', ''defaultProvider'', ''maxTokens'', ''topP'', ''apiKey'', ''baseUrl''}" for k
    using that by (elim insertE emptyE) (simp_all add: mixed_case_keys)
  have g: "jm_get (cp_data p) k = (let d = default_value (base_of (the (jm_get llmConfigSchema k)))
      in if d = JUndefined then None else Some d)"
    if k: "k \<in> {''timeoutMs'', ''defaultProvider'', ''maxTokens'', ''topP'', ''apiKey'', ''baseUrl''}" for k
  proof -
    have "distinct (jm_keys llmConfigSchema)" by code_simp
    moreover have "k \<noteq> ''__proto__'' \<and> k \<notin> set prototype_functions \<and> jm_get llmConfigSchema k \<noteq> None"
      using k by (elim insertE emptyE) (simp_all add: prototype_functions_def llmConfigSchema_def)
    ultimately show ?thesis using none [OF mixed [OF k]] by (auto simp: m(2) schema_defaults_get Let_def)
  qed
  have "js_get (cp_data p) ''timeoutMs'' = JNum 30000" "js_get (cp_data p) ''defaultProvider'' = JStr ''mock''"
    "\<not> cp_has ''maxTokens'' p" "\<not> cp_has ''topP'' p" "\<not> cp_has ''apiKey'' p" "\<not> cp_has ''baseUrl'' p"
    using g [of "''timeoutMs''"] g [of "''defaultProvider''"] g [of "''maxTokens''"] g [of "''topP''"] g [of "''apiKey''"]
      g [of "''baseUrl''"]
    by (simp_all add: llmConfigSchema_def plain_base_def js_get_def cp_has_def js_in_def prototype_functions_def
        jm_has_iff map_of_eq_None_iff Let_def)
  with assms(3) show ?thesis
    by (auto simp: readLLMConfig_def and_then_def read_typed_def read_when_def has_string_def cp_getTyped_def Let_def
        split: sum.splits if_splits)
qed

theorem environment_cannot_set_mixed_case_witness:
  "\<exists>p c. createLLMConfigProvider (\<lambda>_ _. True) [(''AGENT_OS_MAXTOKENS'', ''5''), (''AGENT_OS_MODEL'', ''m'')] [Env None None] = Inr p \<and>
     readLLMConfig p = Inr c \<and> lc_model c = JStr ''m'' \<and> lc_maxTokens c = None"
proof -
  let ?env = "[(''AGENT_OS_MAXTOKENS'', ''5''), (''AGENT_OS_MODEL'', ''m'')]"
  have "case createLLMConfigProvider (\<lambda>_ _. True) ?env [Env None None] of Inl _ \<Rightarrow> False
     | Inr p \<Rightarrow> (case readLLMConfig p of Inl _ \<Rightarrow> False | Inr c \<Rightarrow> lc_model c = JStr ''m'')" by code_simp
  then obtain p c where p: "createLLMConfigProvider (\<lambda>_ _. True) ?env [Env None None] = Inr p" "readLLMConfig p = Inr c"
    "lc_model c = JStr ''m''" by (auto split: sum.splits)
  from environment_cannot_set_mixed_case [OF p(1) _ p(2)] have "lc_maxTokens c = None" by (simp add: is_env_def)
  with p show ?thesis by blast
qed

end
