(* ===== verification/Json.thy ===== *)
theory Json
  imports ConfigLoader
begin

text \<open>
  The text of JSON, as \<open>JSON.parse\<close> and \<open>JSON.stringify\<close> of the language have it. Characters
  have codes below 256, so escapes of larger code units are outside the model. Numbers are exact:
  the text of one is given for a number with at most 17 decimal places below 10 to the 21st, or with at most 17 digits;
  JavaScript writes an exponent for those below a millionth and from 10 to the 21st on. The parser takes fuel, two units per character,
  which is always enough.
\<close>

subsection \<open>Printing\<close>

definition hex_digit :: "nat \<Rightarrow> char" where
  "hex_digit n = (if n < 10 then char_of (48 + n) else char_of (87 + n))"

definition escape_char :: "char \<Rightarrow> string" where
  "escape_char c = (let n = (of_char c :: nat) in
     if n = 34 then [CHR 0x5C, CHR 0x22] else if n = 92 then [CHR 0x5C, CHR 0x5C]
     else if n = 8 then [CHR 0x5C, CHR ''b''] else if n = 12 then [CHR 0x5C, CHR ''f'']
     else if n = 10 then [CHR 0x5C, CHR ''n''] else if n = 13 then [CHR 0x5C, CHR ''r'']
     else if n = 9 then [CHR 0x5C, CHR ''t'']
     else if n < 32 then [CHR 0x5C, CHR ''u'', CHR ''0'', CHR ''0'', hex_digit (n div 16), hex_digit (n mod 16)]
     else [c])"

definition json_string :: "string \<Rightarrow> string" where
  "json_string s = CHR 0x22 # concat (map escape_char s) @ [CHR 0x22]"

fun fraction_digits :: "nat \<Rightarrow> rat \<Rightarrow> string" where
  "fraction_digits 0 f = []"
| "fraction_digits (Suc k) f =
     (if f = 0 then [] else digit (nat \<lfloor>10 * f\<rfloor>) # fraction_digits k (10 * f - of_int \<lfloor>10 * f\<rfloor>))"

definition decimal_text :: "rat \<Rightarrow> string" where
  "decimal_text a = (let whole = \<lfloor>a\<rfloor>; f = a - of_int whole in
     nat_str (nat whole) @ (if f = 0 then [] else ''.'' @ fraction_digits 17 f))"

text \<open>The exponent of a positive number: of the power of ten that is the largest not above it.\<close>

definition exponent_of :: "rat \<Rightarrow> int" where
  "exponent_of a = (if 1 \<le> a then int (length (nat_str (nat \<lfloor>a\<rfloor>))) - 1
     else - int (length (nat_str (nat (\<lceil>1 / a\<rceil> - 1)))))"

definition number_text :: "rat \<Rightarrow> string" where
  "number_text q = (let a = \<bar>q\<bar> in
     (if q < 0 then ''-'' else []) @
     (if a = 0 \<or> 1 / 10 ^ 6 \<le> a \<and> a < 10 ^ 21 then decimal_text a
      else (let e = exponent_of a in
        decimal_text (a / ten_power e) @ ''e'' @ (if e < 0 then ''-'' else ''+'') @ nat_str (nat \<bar>e\<bar>))))"

text \<open>A layout: the white space before an item at a depth, and after a colon.\<close>

record layout =
  break_at :: "nat \<Rightarrow> string"
  after_colon :: string

definition compact :: layout where
  "compact = \<lparr>break_at = (\<lambda>_. []), after_colon = []\<rparr>"

text \<open>\<open>JSON.stringify(v, null, 2)\<close>.\<close>

definition indented :: layout where
  "indented = \<lparr>break_at = (\<lambda>d. CHR 0x0A # replicate (2 * d) (CHR '' '')), after_colon = '' ''\<rparr>"

fun print_value :: "layout \<Rightarrow> nat \<Rightarrow> jsval \<Rightarrow> string" where
  "print_value lay d JUndefined = ''null''"
| "print_value lay d JFun = ''null''"
| "print_value lay d JNaN = ''null''"
| "print_value lay d JNull = ''null''"
| "print_value lay d (JBool b) = (if b then ''true'' else ''false'')"
| "print_value lay d (JNum q) = number_text q"
| "print_value lay d (JStr s) = json_string s"
| "print_value lay d (JArr vs) =
     (if vs = [] then ''[]''
      else ''['' @ break_at lay (Suc d) @ join ('','' @ break_at lay (Suc d)) (map (print_value lay (Suc d)) vs)
             @ break_at lay d @ '']'')"
| "print_value lay d (JObj ms) =
     (if ms = [] then ''{}''
      else ''{'' @ break_at lay (Suc d)
             @ join ('','' @ break_at lay (Suc d))
                 (map (\<lambda>(k, v). json_string k @ '':'' @ after_colon lay @ print_value lay (Suc d) v) ms)
             @ break_at lay d @ ''}'')"

text \<open>What is written: members without a JSON value are left out, in arrays they become null.\<close>

fun json_clean :: "jsval \<Rightarrow> jsval" where
  "json_clean (JArr vs) = JArr (map json_clean vs)"
| "json_clean (JObj ms) = JObj (map (\<lambda>(k, v). (k, json_clean v)) (filter (\<lambda>(k, v). v \<noteq> JUndefined \<and> v \<noteq> JFun) ms))"
| "json_clean JUndefined = JNull"
| "json_clean JFun = JNull"
| "json_clean JNaN = JNull"
| "json_clean v = v"

definition stringify :: "layout \<Rightarrow> jsval \<Rightarrow> string option" where
  "stringify lay v = (if v = JUndefined \<or> v = JFun then None else Some (print_value lay 0 (json_clean v)))"

subsection \<open>Parsing\<close>

definition json_white :: "char \<Rightarrow> bool" where
  "json_white c \<longleftrightarrow> c \<in> {CHR '' '', CHR 0x09, CHR 0x0A, CHR 0x0D}"

definition skip_white :: "string \<Rightarrow> string" where
  "skip_white s = dropWhile json_white s"

definition unescape :: "char \<Rightarrow> char option" where
  "unescape c = (if c = CHR 0x22 then Some (CHR 0x22) else if c = CHR 0x5C then Some (CHR 0x5C)
     else if c = CHR ''/'' then Some (CHR ''/'') else if c = CHR ''b'' then Some (CHR 0x08)
     else if c = CHR ''f'' then Some (CHR 0x0C) else if c = CHR ''n'' then Some (CHR 0x0A)
     else if c = CHR ''r'' then Some (CHR 0x0D) else if c = CHR ''t'' then Some (CHR 0x09) else None)"

definition unescape_code :: "string \<Rightarrow> char option" where
  "unescape_code ds = (if list_all (\<lambda>d. digit_value d < 16) ds \<and> read_base 16 ds < 256
     then Some (char_of (read_base 16 ds)) else None)"

fun parse_chars :: "string \<Rightarrow> (string \<times> string) option" where
  "parse_chars [] = None"
| "parse_chars (c # cs) =
     (if c = CHR 0x22 then Some ([], cs)
      else if c = CHR 0x5C
      then (case cs of
          [] \<Rightarrow> None
        | e # r \<Rightarrow>
            (if e = CHR ''u''
             then (case unescape_code (take 4 r) of
                 Some x \<Rightarrow> if length r < 4 then None
                           else map_option (\<lambda>(s, r'). (x # s, r')) (parse_chars (drop 4 r))
               | None \<Rightarrow> None)
             else (case unescape e of
                 Some x \<Rightarrow> map_option (\<lambda>(s, r'). (x # s, r')) (parse_chars r)
               | None \<Rightarrow> None)))
      else if (of_char c :: nat) < 32 then None
      else map_option (\<lambda>(s, r'). (c # s, r')) (parse_chars cs))"

text \<open>The digits after a point, and the exponent.\<close>

definition parse_fraction :: "string \<Rightarrow> (string \<times> string) option" where
  "parse_fraction s = (case s of
     [] \<Rightarrow> Some ([], [])
   | c # r \<Rightarrow> if c = CHR ''.''
       then (if takeWhile is_digit r = [] then None else Some (takeWhile is_digit r, dropWhile is_digit r))
       else Some ([], s))"

definition parse_exponent :: "string \<Rightarrow> (int \<times> string) option" where
  "parse_exponent s = (case s of
     [] \<Rightarrow> Some (0, [])
   | c # r \<Rightarrow> if c = CHR ''e'' \<or> c = CHR ''E''
       then (let sg = (case r of x # _ \<Rightarrow> if x = CHR ''+'' \<or> x = CHR ''-'' then [x] else [] | [] \<Rightarrow> []);
                 r1 = drop (length sg) r
             in map_option (\<lambda>e. (e, dropWhile is_digit r1)) (read_exponent (sg @ takeWhile is_digit r1)))
       else Some (0, s))"

definition parse_unsigned :: "string \<Rightarrow> (rat \<times> string) option" where
  "parse_unsigned s = (let whole = takeWhile is_digit s in
     if whole = [] \<or> (hd whole = CHR ''0'' \<and> tl whole \<noteq> []) then None
     else case parse_fraction (dropWhile is_digit s) of
         None \<Rightarrow> None
       | Some (decimals, r) \<Rightarrow> (case parse_exponent r of
           None \<Rightarrow> None
         | Some (e, r') \<Rightarrow>
             Some (of_nat (read_base 10 (whole @ decimals)) / 10 ^ length decimals * ten_power e, r')))"

definition parse_number :: "string \<Rightarrow> (rat \<times> string) option" where
  "parse_number s = (case s of
     c # r \<Rightarrow> if c = CHR ''-'' then map_option (\<lambda>(q, r'). (- q, r')) (parse_unsigned r) else parse_unsigned s
   | [] \<Rightarrow> None)"

fun parse_value :: "nat \<Rightarrow> string \<Rightarrow> (jsval \<times> string) option"
  and parse_items :: "nat \<Rightarrow> string \<Rightarrow> (jsval list \<times> string) option"
  and parse_members :: "nat \<Rightarrow> string \<Rightarrow> ((string \<times> jsval) list \<times> string) option" where
  "parse_value 0 s = None"
| "parse_value (Suc n) s = (case skip_white s of
     [] \<Rightarrow> None
   | c # cs \<Rightarrow>
       (if c = CHR 0x22 then map_option (\<lambda>(t, r). (JStr t, r)) (parse_chars cs)
        else if c = CHR ''[''
        then (case skip_white cs of
            x # r \<Rightarrow> if x = CHR '']'' then Some (JArr [], r)
                     else map_option (\<lambda>(vs, r). (JArr vs, r)) (parse_items n cs)
          | [] \<Rightarrow> None)
        else if c = CHR ''{''
        then (case skip_white cs of
            x # r \<Rightarrow> if x = CHR ''}'' then Some (JObj [], r)
                     else map_option (\<lambda>(ms, r). (JObj (spread [] ms), r)) (parse_members n cs)
          | [] \<Rightarrow> None)
        else if starts_with (c # cs) ''true'' then Some (JBool True, drop 4 (c # cs))
        else if starts_with (c # cs) ''false'' then Some (JBool False, drop 5 (c # cs))
        else if starts_with (c # cs) ''null'' then Some (JNull, drop 4 (c # cs))
        else map_option (\<lambda>(q, r). (JNum q, r)) (parse_number (c # cs))))"
| "parse_items 0 s = None"
| "parse_items (Suc n) s = (case parse_value n s of
     None \<Rightarrow> None
   | Some (v, r) \<Rightarrow> (case skip_white r of
       c # r' \<Rightarrow> if c = CHR '','' then map_option (\<lambda>(vs, r2). (v # vs, r2)) (parse_items n r')
                 else if c = CHR '']'' then Some ([v], r') else None
     | [] \<Rightarrow> None))"
| "parse_members 0 s = None"
| "parse_members (Suc n) s = (case skip_white s of
     q # cs \<Rightarrow> if q \<noteq> CHR 0x22 then None else
       (case parse_chars cs of
          None \<Rightarrow> None
        | Some (k, r) \<Rightarrow> (case skip_white r of
            x # r' \<Rightarrow> if x \<noteq> CHR '':'' then None else
              (case parse_value n r' of
                 None \<Rightarrow> None
               | Some (v, r2) \<Rightarrow> (case skip_white r2 of
                   y # r3 \<Rightarrow> if y = CHR '','' then map_option (\<lambda>(ms, r4). ((k, v) # ms, r4)) (parse_members n r3)
                             else if y = CHR ''}'' then Some ([(k, v)], r3) else None
                 | [] \<Rightarrow> None))
          | [] \<Rightarrow> None))
   | [] \<Rightarrow> None)"

definition json_parse :: "string \<Rightarrow> jsval option" where
  "json_parse s = (case parse_value (2 * length s + 1) s of
     Some (v, r) \<Rightarrow> if skip_white r = [] then Some v else None
   | None \<Rightarrow> None)"


text \<open>
  Parsing what was printed gives the value back, in every layout of white space; the fuel of the
  parser is always enough.
\<close>

subsection \<open>Strings\<close>

lemma hex_digit_value: "m < 16 \<Longrightarrow> digit_value (hex_digit m) = m"
  by (simp add: hex_digit_def digit_value_def Let_def)

lemma char_codes:
  "(of_char c :: nat) = 34 \<Longrightarrow> c = CHR 0x22" "(of_char c :: nat) = 92 \<Longrightarrow> c = CHR 0x5C"
  "(of_char c :: nat) = 8 \<Longrightarrow> c = CHR 0x08" "(of_char c :: nat) = 12 \<Longrightarrow> c = CHR 0x0C"
  "(of_char c :: nat) = 10 \<Longrightarrow> c = CHR 0x0A" "(of_char c :: nat) = 13 \<Longrightarrow> c = CHR 0x0D"
  "(of_char c :: nat) = 9 \<Longrightarrow> c = CHR 0x09"
  by (rule of_char_eq_iff [where 'a = nat, THEN iffD1], simp)+

lemma parse_escaped:
  "parse_chars (escape_char c @ t) = map_option (\<lambda>(s, r). (c # s, r)) (parse_chars t)"
proof -
  let ?n = "of_char c :: nat"
  consider "?n \<in> {34, 92, 8, 12, 10, 13, 9}" | "?n < 32" "?n \<notin> {34, 92, 8, 12, 10, 13, 9}"
    | "32 \<le> ?n" "?n \<noteq> 34" "?n \<noteq> 92" by force
  then show ?thesis
  proof cases
    case 1
    then have "c \<in> {CHR 0x22, CHR 0x5C, CHR 0x08, CHR 0x0C, CHR 0x0A, CHR 0x0D, CHR 0x09}"
      using char_codes [of c] by auto
    then show ?thesis by (auto simp: escape_char_def unescape_def)
  next
    case 2
    have "unescape_code [CHR ''0'', CHR ''0'', hex_digit (?n div 16), hex_digit (?n mod 16)] = Some (char_of ?n)"
    proof -
      have b: "?n div 16 < 16" "?n mod 16 < 16" using 2(1) by simp_all
      have "read_base 16 [CHR ''0'', CHR ''0'', hex_digit (?n div 16), hex_digit (?n mod 16)] = 16 * (?n div 16) + ?n mod 16"
        unfolding read_base_def by (simp add: hex_digit_value [OF b(1)] hex_digit_value [OF b(2)]) (simp add: digit_value_def)
      moreover have "16 * (?n div 16) + ?n mod 16 = ?n" by simp
      ultimately have "read_base 16 [CHR ''0'', CHR ''0'', hex_digit (?n div 16), hex_digit (?n mod 16)] = ?n" by simp
      moreover have "digit_value (CHR ''0'') = 0" by (simp add: digit_value_def)
      ultimately show ?thesis using b 2(1) unfolding unescape_code_def
        by (simp add: hex_digit_value [OF b(1)] hex_digit_value [OF b(2)])
    qed
    moreover have "escape_char c = [CHR 0x5C, CHR ''u'', CHR ''0'', CHR ''0'', hex_digit (?n div 16), hex_digit (?n mod 16)]"
      using 2 by (simp add: escape_char_def Let_def)
    ultimately show ?thesis by simp
  next
    case 3
    then have "c \<noteq> CHR 0x22" "c \<noteq> CHR 0x5C" by auto
    moreover have "escape_char c = [c]" using 3 by (simp add: escape_char_def Let_def)
    ultimately show ?thesis using 3(1) by simp
  qed
qed

lemma parse_chars_string: "parse_chars (concat (map escape_char s) @ CHR 0x22 # r) = Some (s, r)"
  by (induction s) (simp_all add: parse_escaped)

subsection \<open>Numbers\<close>

lemma fold_base: "fold (\<lambda>c n. b * n + digit_value c) ys n = n * b ^ length ys + read_base b ys" for n :: nat
proof (induction ys arbitrary: n rule: rev_induct)
  case Nil
  then show ?case by (simp add: read_base_def)
next
  case (snoc y ys)
  have "fold (\<lambda>c n. b * n + digit_value c) (ys @ [y]) n = b * (n * b ^ length ys + read_base b ys) + digit_value y"
    using snoc.IH [of n] by simp
  moreover have "read_base b (ys @ [y]) = b * read_base b ys + digit_value y" by (simp add: read_base_def)
  ultimately show ?case by (simp add: algebra_simps)
qed

lemma read_base_append: "read_base b (xs @ ys) = read_base b xs * b ^ length ys + read_base b ys"
proof -
  have "read_base b (xs @ ys) = fold (\<lambda>c n. b * n + digit_value c) ys (read_base b xs)" by (simp add: read_base_def)
  then show ?thesis by (simp only: fold_base)
qed

lemma read_base_Cons: "read_base b (x # ys) = digit_value x * b ^ length ys + read_base b ys"
  using read_base_append [of b "[x]" ys] by (simp add: read_base_def)

lemma digit_facts: "d < 10 \<Longrightarrow> digit_value (digit d) = d \<and> is_digit (digit d)"
  by (simp add: digit_value_def is_digit_def)

lemma nat_str_is_digit: "c \<in> set (nat_str n) \<Longrightarrow> is_digit c"
  using nat_str_digits digit_facts by blast

lemma read_base_nat_str: "read_base 10 (nat_str n) = n"
proof (induction n rule: nat_str.induct)
  case (1 n)
  show ?case
  proof (cases "n < 10")
    case True
    then show ?thesis by (subst nat_str.simps) (simp add: read_base_def digit_facts)
  next
    case False
    then have "read_base 10 (nat_str n) = read_base 10 (nat_str (n div 10)) * 10 + n mod 10"
      by (subst nat_str.simps) (simp add: read_base_append, simp add: read_base_def digit_facts)
    with 1 False show ?thesis by simp
  qed
qed

lemma hd_nat_str_zero: "hd (nat_str n) = CHR ''0'' \<Longrightarrow> n = 0"
proof (induction n rule: nat_str.induct)
  case (1 n)
  show ?case
  proof (cases "n < 10")
    case True
    with "1.prems" have "digit n = CHR ''0''" by (subst (asm) nat_str.simps) simp
    then have "(of_char (digit n) :: nat) = 48" by simp
    then show ?thesis using True by simp
  next
    case False
    with "1.prems" have "hd (nat_str (n div 10)) = CHR ''0''" by (subst (asm) nat_str.simps) simp
    with "1.IH" False show ?thesis by simp
  qed
qed

definition decimal_places :: "nat \<Rightarrow> rat \<Rightarrow> bool" where
  "decimal_places k q \<longleftrightarrow> of_int \<lfloor>q * 10 ^ k\<rfloor> = q * 10 ^ k"

lemma decimal_placesI: "q * 10 ^ k = of_int n \<Longrightarrow> decimal_places k q"
  by (simp only: decimal_places_def floor_of_int)

lemma decimal_placesE: "decimal_places k q \<Longrightarrow> \<exists>n. q * 10 ^ k = of_int n"
  by (metis decimal_places_def)

lemma fraction_digits:
  assumes "0 \<le> f" "f < 1" "decimal_places k f"
  shows "list_all is_digit (fraction_digits k f)
    \<and> of_nat (read_base 10 (fraction_digits k f)) / 10 ^ length (fraction_digits k f) = f"
  using assms
proof (induction k arbitrary: f)
  case 0
  then have "of_int \<lfloor>f\<rfloor> = f" by (simp add: decimal_places_def)
  moreover have "\<lfloor>f\<rfloor> = 0" using 0 by (simp add: floor_eq_iff)
  ultimately show ?case by (simp add: read_base_def)
next
  case (Suc k)
  show ?case
  proof (cases "f = 0")
    case True
    then show ?thesis by (simp add: read_base_def)
  next
    case False
    let ?z = "\<lfloor>10 * f\<rfloor>" and ?g = "10 * f - of_int \<lfloor>10 * f\<rfloor>"
    have z: "0 \<le> ?z" "?z < 10" using Suc.prems by (simp_all add: floor_less_iff)
    then have d: "nat ?z < 10" by linarith
    have g: "0 \<le> ?g" "?g < 1" by linarith+
    obtain n where n: "f * 10 ^ Suc k = of_int n" using decimal_placesE [OF Suc.prems(3)] by blast
    have "?g * 10 ^ k = of_int (n - ?z * 10 ^ k)" using n by (simp add: algebra_simps)
    then have "decimal_places k ?g" by (rule decimal_placesI)
    note IH = Suc.IH [OF g this]
    let ?ds = "fraction_digits k ?g"
    have e: "fraction_digits (Suc k) f = digit (nat ?z) # ?ds" using False by simp
    have "read_base 10 (digit (nat ?z) # ?ds) = nat ?z * 10 ^ length ?ds + read_base 10 ?ds"
      using d by (simp add: read_base_Cons digit_facts)
    then have "of_nat (read_base 10 (digit (nat ?z) # ?ds)) / (10 :: rat) ^ length (digit (nat ?z) # ?ds)
        = (of_nat (nat ?z) + of_nat (read_base 10 ?ds) / 10 ^ length ?ds) / 10"
      by (simp add: field_simps)
    also have "\<dots> = (of_int ?z + ?g) / 10" using IH z by (simp add: of_nat_nat)
    also have "\<dots> = f" by simp
    finally show ?thesis using IH d e by (simp add: digit_facts)
  qed
qed

definition plain_number :: "rat \<Rightarrow> bool" where
  "plain_number q \<longleftrightarrow> \<bar>q\<bar> < 10 ^ 21 \<and> decimal_places 17 q"

definition ends_number :: "string \<Rightarrow> bool" where
  "ends_number r \<longleftrightarrow> r = [] \<or> (\<not> is_digit (hd r) \<and> hd r \<notin> {CHR ''.'', CHR ''e'', CHR ''E''})"

lemma take_digits:
  "list_all is_digit ds \<Longrightarrow> r = [] \<or> \<not> is_digit (hd r) \<Longrightarrow>
     takeWhile is_digit (ds @ r) = ds \<and> dropWhile is_digit (ds @ r) = r"
  by (induction ds) (cases r; simp)+

lemma parse_exponent_none: "ends_number r \<Longrightarrow> parse_exponent r = Some (0, r)"
  by (cases r) (auto simp: ends_number_def parse_exponent_def)

lemma parse_unsigned_text:
  assumes "0 \<le> a" and "decimal_places 17 a" and r: "r = [] \<or> \<not> is_digit (hd r) \<and> hd r \<noteq> CHR ''.''"
    and e: "parse_exponent r = Some (e, r')"
  shows "parse_unsigned (decimal_text a @ r) = Some (a * ten_power e, r')"
proof -
  let ?w = "nat_str (nat \<lfloor>a\<rfloor>)" and ?f = "a - of_int \<lfloor>a\<rfloor>"
  have w: "list_all is_digit ?w" "?w \<noteq> []" using nat_str_is_digit by (auto simp: list_all_iff)
  have z: "\<not> (hd ?w = CHR ''0'' \<and> tl ?w \<noteq> [])"
  proof
    assume h: "hd ?w = CHR ''0'' \<and> tl ?w \<noteq> []"
    then have "nat \<lfloor>a\<rfloor> = 0" using hd_nat_str_zero by blast
    then have "?w = [digit 0]" by (simp add: nat_str.simps)
    with h show False by simp
  qed
  have a: "of_nat (nat \<lfloor>a\<rfloor>) = (of_int \<lfloor>a\<rfloor> :: rat)" using assms(1) by (simp add: of_nat_nat)
  show ?thesis
  proof (cases "?f = 0")
    case True
    have t: "takeWhile is_digit (?w @ r) = ?w \<and> dropWhile is_digit (?w @ r) = r"
      using take_digits [OF w(1), of r] r by auto
    have "parse_fraction r = Some ([], r)" using r by (cases r) (auto simp: parse_fraction_def)
    then show ?thesis using True t z w(2) a
      by (simp add: decimal_text_def parse_unsigned_def Let_def e read_base_nat_str)
  next
    case False
    let ?ds = "fraction_digits 17 ?f"
    obtain n where n: "a * 10 ^ 17 = of_int n" using decimal_placesE [OF assms(2)] by blast
    have "?f * 10 ^ 17 = of_int (n - \<lfloor>a\<rfloor> * 10 ^ 17)" using n by (simp add: algebra_simps)
    then have "decimal_places 17 ?f" by (rule decimal_placesI)
    moreover have "0 \<le> ?f" "?f < 1" by linarith+
    ultimately have ds: "list_all is_digit ?ds" "of_nat (read_base 10 ?ds) / 10 ^ length ?ds = ?f"
      using fraction_digits by blast+
    have "?ds \<noteq> []" using ds(2) False by (auto simp: read_base_def)
    have t: "takeWhile is_digit (?w @ ''.'' @ ?ds @ r) = ?w \<and> dropWhile is_digit (?w @ ''.'' @ ?ds @ r) = ''.'' @ ?ds @ r"
      using take_digits [OF w(1), of "''.'' @ ?ds @ r"] by (simp add: is_digit_def)
    have "takeWhile is_digit (?ds @ r) = ?ds \<and> dropWhile is_digit (?ds @ r) = r"
      using take_digits [OF ds(1), of r] r by auto
    then have p: "parse_fraction (''.'' @ ?ds @ r) = Some (?ds, r)" using \<open>?ds \<noteq> []\<close> by (simp add: parse_fraction_def)
    have "of_nat (read_base 10 (?w @ ?ds)) / 10 ^ length ?ds = of_int \<lfloor>a\<rfloor> + of_nat (read_base 10 ?ds) / (10 :: rat) ^ length ?ds"
      by (simp add: read_base_append read_base_nat_str a field_simps)
    also have "\<dots> = a" using ds(2) by simp
    finally have v: "of_nat (read_base 10 (?w @ ?ds)) / 10 ^ length ?ds = a" .
    have "parse_unsigned (?w @ ''.'' @ ?ds @ r) = Some (a * ten_power e, r')"
      unfolding parse_unsigned_def Let_def
      using t z w(2) p v by (simp add: e del: append_Cons)
    then show ?thesis using False by (simp add: decimal_text_def Let_def)
  qed
qed

lemma parse_exponent_text:
  assumes "ends_number r"
  shows "parse_exponent (''e'' @ (if e < 0 then ''-'' else ''+'') @ nat_str (nat \<bar>e\<bar>) @ r) = Some (e, r)"
proof -
  let ?ds = "nat_str (nat \<bar>e\<bar>)"
  have digits: "list_all is_digit (nat_str n)" for n using nat_str_is_digit by (auto simp: list_all_iff)
  have "takeWhile is_digit (?ds @ r) = ?ds \<and> dropWhile is_digit (?ds @ r) = r"
    using take_digits [OF digits, of r] assms by (auto simp: ends_number_def)
  then show ?thesis
    by (cases "e < 0") (simp_all add: parse_exponent_def read_exponent_def Let_def read_base_nat_str digits)
qed

lemma ten_power_nonzero [simp]: "ten_power e \<noteq> 0"
  by (simp add: ten_power_def)

lemma exponent_of_small: "a < 1 \<Longrightarrow> exponent_of a \<le> 0"
  by (simp add: exponent_of_def)

text \<open>A small number is written with digits that have no more decimal places than it has.\<close>

lemma small_mantissa:
  assumes "0 \<le> a" and "a < 1" and "decimal_places 17 a"
  shows "0 \<le> a / ten_power (exponent_of a)" "decimal_places 17 (a / ten_power (exponent_of a))"
proof -
  obtain n where n: "a * 10 ^ 17 = of_int n" using decimal_placesE [OF assms(3)] by blast
  have m: "a / ten_power (exponent_of a) = a * 10 ^ nat (- exponent_of a)"
    using exponent_of_small [OF assms(2)] by (cases "exponent_of a = 0") (simp_all add: ten_power_def)
  then show "0 \<le> a / ten_power (exponent_of a)" using assms(1) by simp
  have "a / ten_power (exponent_of a) * 10 ^ 17 = of_int (n * 10 ^ nat (- exponent_of a))"
    using n unfolding m by (simp add: algebra_simps)
  then show "decimal_places 17 (a / ten_power (exponent_of a))" by (rule decimal_placesI)
qed

definition unsigned_text :: "rat \<Rightarrow> string" where
  "unsigned_text a = (if a = 0 \<or> 1 / 10 ^ 6 \<le> a \<and> a < 10 ^ 21 then decimal_text a
     else (let e = exponent_of a in
       decimal_text (a / ten_power e) @ ''e'' @ (if e < 0 then ''-'' else ''+'') @ nat_str (nat \<bar>e\<bar>)))"

lemma number_text_alt: "number_text q = (if q < 0 then ''-'' else []) @ unsigned_text \<bar>q\<bar>"
  by (simp add: number_text_def unsigned_text_def Let_def)

lemma parse_unsigned_number:
  assumes "0 \<le> a" and "a < 10 ^ 21" and "decimal_places 17 a" and "ends_number r"
  shows "parse_unsigned (unsigned_text a @ r) = Some (a, r)"
proof (cases "a = 0 \<or> 1 / 10 ^ 6 \<le> a")
  case True
  then have "unsigned_text a = decimal_text a" using assms(2) by (auto simp: unsigned_text_def)
  then show ?thesis
    using parse_unsigned_text [OF assms(1,3) _ parse_exponent_none [OF assms(4)]] assms(4)
    by (auto simp: ends_number_def ten_power_def)
next
  case False
  let ?e = "exponent_of a" and ?m = "a / ten_power (exponent_of a)"
  let ?x = "''e'' @ (if ?e < 0 then ''-'' else ''+'') @ nat_str (nat \<bar>?e\<bar>)"
  have lt: "a < 1" using False by simp
  have "unsigned_text a = decimal_text ?m @ ?x" using False by (simp add: unsigned_text_def Let_def)
  moreover have "parse_unsigned (decimal_text ?m @ ?x @ r) = Some (?m * ten_power ?e, r)"
    using small_mantissa [OF assms(1) lt assms(3)] parse_exponent_text [OF assms(4), of ?e]
    by (intro parse_unsigned_text) (simp_all add: is_digit_def)
  ultimately show ?thesis by simp
qed

lemma decimal_text_first: "\<exists>c cs. decimal_text a = c # cs \<and> is_digit c"
proof -
  obtain c cs where c: "nat_str (nat \<lfloor>a\<rfloor>) = c # cs" by (cases "nat_str (nat \<lfloor>a\<rfloor>)") auto
  then have "is_digit c" using nat_str_is_digit [of c "nat \<lfloor>a\<rfloor>"] by simp
  then show ?thesis by (simp add: decimal_text_def Let_def c)
qed

lemma unsigned_text_first: "\<exists>c cs. unsigned_text a = c # cs \<and> is_digit c"
  using decimal_text_first [of a] decimal_text_first [of "a / ten_power (exponent_of a)"]
  by (auto simp: unsigned_text_def Let_def)

lemma parse_number_text:
  assumes "plain_number q" and "ends_number r"
  shows "parse_number (number_text q @ r) = Some (q, r)"
proof -
  obtain n where "q * 10 ^ 17 = of_int n" using assms(1) decimal_placesE unfolding plain_number_def by blast
  then have "\<bar>q\<bar> * 10 ^ 17 = of_int \<bar>n\<bar>" by (metis abs_mult abs_of_nonneg of_int_abs zero_le_numeral zero_le_power)
  then have "decimal_places 17 \<bar>q\<bar>" by (rule decimal_placesI)
  then have u: "parse_unsigned (unsigned_text \<bar>q\<bar> @ r) = Some (\<bar>q\<bar>, r)"
    using parse_unsigned_number [of "\<bar>q\<bar>" r] assms by (simp add: plain_number_def)
  obtain c cs where c: "unsigned_text \<bar>q\<bar> = c # cs" "is_digit c" using unsigned_text_first by blast
  then have "c \<noteq> CHR ''-''" by (auto simp: is_digit_def)
  with u c show ?thesis by (cases "q < 0") (simp_all add: number_text_alt parse_number_def)
qed

lemma number_text_first: "\<exists>c cs. number_text q = c # cs \<and> (c = CHR ''-'' \<or> is_digit c)"
  using unsigned_text_first [of "\<bar>q\<bar>"] by (auto simp: number_text_alt)

subsection \<open>Values\<close>

fun json_ready :: "jsval \<Rightarrow> bool" where
  "json_ready JUndefined = False"
| "json_ready JFun = False"
| "json_ready JNaN = False"
| "json_ready JNull = True"
| "json_ready (JBool b) = True"
| "json_ready (JNum q) = plain_number q"
| "json_ready (JStr s) = True"
| "json_ready (JArr vs) = list_all json_ready vs"
| "json_ready (JObj ms) = (distinct (map fst ms) \<and> list_all (\<lambda>(k, v). json_ready v) ms)"

definition white :: "string \<Rightarrow> bool" where
  "white ws \<longleftrightarrow> list_all json_white ws"

lemma skip_white_append: "white ws \<Longrightarrow> skip_white (ws @ t) = skip_white t"
  by (induction ws) (auto simp: white_def skip_white_def)

lemma skip_white_stop: "\<not> json_white c \<Longrightarrow> skip_white (c # cs) = c # cs"
  by (simp add: skip_white_def)

definition solid :: "char \<Rightarrow> bool" where
  "solid c \<longleftrightarrow> \<not> json_white c \<and> \<not> is_digit c \<and> c \<notin> {CHR ''.'', CHR ''e'', CHR ''E''}"

lemma solid_chars [simp]: "solid CHR '','' " "solid CHR '']''" "solid CHR ''}''" "solid CHR '':''" "solid CHR ''[''"
    "solid CHR ''{''" "solid CHR 0x22"
  by (simp_all add: solid_def json_white_def is_digit_def)

lemma white_ends_number: "white ws \<Longrightarrow> solid c \<Longrightarrow> ends_number (ws @ c # r)"
  by (cases ws) (auto simp: white_def ends_number_def json_white_def is_digit_def solid_def)

lemma skip_to: "white ws \<Longrightarrow> solid c \<Longrightarrow> skip_white (ws @ c # r) = c # r"
  by (simp add: skip_white_append skip_white_stop solid_def)

text \<open>With enough fuel the parser reads the value back from any text that starts with its print.\<close>

definition reads_back :: "layout \<Rightarrow> jsval \<Rightarrow> bool" where
  "reads_back lay v \<longleftrightarrow> (\<exists>n0. \<forall>n \<ge> n0. \<forall>d ws r. white ws \<longrightarrow> ends_number r \<longrightarrow>
     parse_value n (ws @ print_value lay d v @ r) = Some (v, r))"

lemma reads_backE:
  assumes "reads_back lay v"
  obtains n0 where "\<And>n d ws r. n \<ge> n0 \<Longrightarrow> white ws \<Longrightarrow> ends_number r \<Longrightarrow>
      parse_value n (ws @ print_value lay d v @ r) = Some (v, r)"
  using assms unfolding reads_back_def by blast

lemma items_read_back:
  assumes "vs \<noteq> []" and "\<And>v. v \<in> set vs \<Longrightarrow> reads_back lay v" and b: "\<And>d. white (break_at lay d)"
  shows "\<exists>n0. \<forall>n \<ge> n0. \<forall>d e e' ws r. white ws \<longrightarrow>
    parse_items n (ws @ join ('','' @ break_at lay e) (map (print_value lay d) vs) @ break_at lay e' @ '']'' @ r) = Some (vs, r)"
  using assms(1,2)
proof (induction vs rule: list_nonempty_induct)
  case (single v)
  then have "reads_back lay v" by simp
  then obtain n0 where n0: "\<And>n d ws r. n \<ge> n0 \<Longrightarrow> white ws \<Longrightarrow> ends_number r \<Longrightarrow>
      parse_value n (ws @ print_value lay d v @ r) = Some (v, r)" by (rule reads_backE) blast
  have "parse_items n (ws @ join ('','' @ break_at lay e) (map (print_value lay d) [v]) @ break_at lay e' @ '']'' @ r) = Some ([v], r)"
    if "n \<ge> Suc n0" "white ws" for n d e e' ws r
  proof -
    from that(1) obtain m where "n = Suc m" "m \<ge> n0" by (cases n) auto
    then show ?thesis
      using n0 [OF \<open>m \<ge> n0\<close> that(2), of "break_at lay e' @ '']'' @ r" d] white_ends_number [OF b, of "CHR '']''" e' r]
      by (simp add: skip_to [OF b])
  qed
  then show ?case by blast
next
  case (cons v vs)
  have "reads_back lay v" using cons.prems by simp
  then obtain n0 where n0: "\<And>n d ws r. n \<ge> n0 \<Longrightarrow> white ws \<Longrightarrow> ends_number r \<Longrightarrow>
      parse_value n (ws @ print_value lay d v @ r) = Some (v, r)" by (rule reads_backE) blast
  from cons obtain n1 where n1: "\<And>n d e e' ws r. n \<ge> n1 \<Longrightarrow> white ws \<Longrightarrow>
    parse_items n (ws @ join ('','' @ break_at lay e) (map (print_value lay d) vs) @ break_at lay e' @ '']'' @ r) = Some (vs, r)"
    by fastforce
  have "parse_items n (ws @ join ('','' @ break_at lay e) (map (print_value lay d) (v # vs)) @ break_at lay e' @ '']'' @ r)
      = Some (v # vs, r)" if "n \<ge> Suc (max n0 n1)" "white ws" for n d e e' ws r
  proof -
    from that(1) obtain m where m: "n = Suc m" "m \<ge> n0" "m \<ge> n1" by (cases n) auto
    obtain x xs where x: "vs = x # xs" using cons.hyps by (cases vs) auto
    let ?t = "break_at lay e @ join ('','' @ break_at lay e) (map (print_value lay d) vs) @ break_at lay e' @ '']'' @ r"
    have "ends_number ('','' @ ?t)" by (simp add: ends_number_def is_digit_def)
    from n0 [OF m(2) that(2) this, of d] n1 [OF m(3) b, of e e d e' r] show ?thesis
      by (simp add: m(1) x skip_white_stop json_white_def)
  qed
  then show ?case by blast
qed

lemma members_read_back:
  assumes "ms \<noteq> []" and "\<And>x. x \<in> set ms \<Longrightarrow> reads_back lay (snd x)"
    and b: "\<And>d. white (break_at lay d)" and c: "white (after_colon lay)"
  shows "\<exists>n0. \<forall>n \<ge> n0. \<forall>d e e' ws r. white ws \<longrightarrow>
    parse_members n (ws @ join ('','' @ break_at lay e)
        (map (\<lambda>(k, v). json_string k @ '':'' @ after_colon lay @ print_value lay d v) ms) @ break_at lay e' @ ''}'' @ r)
      = Some (ms, r)"
  using assms(1,2)
proof (induction ms rule: list_nonempty_induct)
  case (single m)
  obtain k v where m: "m = (k, v)" by fastforce
  with single have "reads_back lay v" by simp
  then obtain n0 where n0: "\<And>n d ws r. n \<ge> n0 \<Longrightarrow> white ws \<Longrightarrow> ends_number r \<Longrightarrow>
      parse_value n (ws @ print_value lay d v @ r) = Some (v, r)" by (rule reads_backE) blast
  have "parse_members n (ws @ join ('','' @ break_at lay e)
        (map (\<lambda>(k, v). json_string k @ '':'' @ after_colon lay @ print_value lay d v) [m]) @ break_at lay e' @ ''}'' @ r)
      = Some ([m], r)" if "n \<ge> Suc n0" "white ws" for n d e e' ws r
  proof -
    from that(1) obtain i where "n = Suc i" "i \<ge> n0" by (cases n) auto
    then show ?thesis
      using n0 [OF \<open>i \<ge> n0\<close> c, of "break_at lay e' @ ''}'' @ r" d] white_ends_number [OF b, of "CHR ''}''" e' r]
      by (simp add: m json_string_def skip_to [OF b] skip_to [OF that(2)] parse_chars_string skip_white_stop json_white_def)
  qed
  then show ?case by blast
next
  case (cons m ms)
  obtain k v where m: "m = (k, v)" by fastforce
  have "reads_back lay v" using cons.prems [of m] m by simp
  then obtain n0 where n0: "\<And>n d ws r. n \<ge> n0 \<Longrightarrow> white ws \<Longrightarrow> ends_number r \<Longrightarrow>
      parse_value n (ws @ print_value lay d v @ r) = Some (v, r)" by (rule reads_backE) blast
  from cons obtain n1 where n1: "\<And>n d e e' ws r. n \<ge> n1 \<Longrightarrow> white ws \<Longrightarrow>
    parse_members n (ws @ join ('','' @ break_at lay e)
        (map (\<lambda>(k, v). json_string k @ '':'' @ after_colon lay @ print_value lay d v) ms) @ break_at lay e' @ ''}'' @ r)
      = Some (ms, r)"
    by fastforce
  have "parse_members n (ws @ join ('','' @ break_at lay e)
        (map (\<lambda>(k, v). json_string k @ '':'' @ after_colon lay @ print_value lay d v) (m # ms)) @ break_at lay e' @ ''}'' @ r)
      = Some (m # ms, r)" if "n \<ge> Suc (max n0 n1)" "white ws" for n d e e' ws r
  proof -
    from that(1) obtain i where i: "n = Suc i" "i \<ge> n0" "i \<ge> n1" by (cases n) auto
    obtain x xs where x: "ms = x # xs" using cons.hyps by (cases ms) auto
    let ?t = "break_at lay e @ join ('','' @ break_at lay e)
      (map (\<lambda>(k, v). json_string k @ '':'' @ after_colon lay @ print_value lay d v) ms) @ break_at lay e' @ ''}'' @ r"
    have "ends_number ('','' @ ?t)" by (simp add: ends_number_def is_digit_def)
    from n0 [OF i(2) c this, of d] n1 [OF i(3) b, of e e d e' r] show ?thesis
      by (simp add: i(1) x m json_string_def [of k] skip_to [OF that(2)] parse_chars_string skip_white_stop json_white_def)
  qed
  then show ?case by blast
qed

lemma spread_distinct: "distinct (map fst ms) \<Longrightarrow> spread [] ms = ms"
proof -
  have "distinct (map fst (acc @ ms)) \<Longrightarrow> fold (\<lambda>(k, v). jm_set k v) ms acc = acc @ ms" for acc
  proof (induction ms arbitrary: acc)
    case (Cons m ms)
    obtain k v where m: "m = (k, v)" by fastforce
    with Cons.prems have "jm_set k v acc = acc @ [(k, v)]" by (intro jm_set_fresh) (auto simp: jm_has_iff)
    with Cons.IH [of "acc @ [m]"] Cons.prems show ?case by (simp add: m)
  qed simp
  from this [of "[]"] show "distinct (map fst ms) \<Longrightarrow> spread [] ms = ms" by (simp add: spread_def)
qed

definition layout_ok :: "layout \<Rightarrow> bool" where
  "layout_ok lay \<longleftrightarrow> (\<forall>d. white (break_at lay d)) \<and> white (after_colon lay)"

lemma layouts_ok: "layout_ok compact" "layout_ok indented"
  by (auto simp: layout_ok_def compact_def indented_def white_def json_white_def list_all_iff)

lemma enough_fuelI:
  assumes "\<And>n d ws r. n \<ge> n0 \<Longrightarrow> white ws \<Longrightarrow> ends_number r \<Longrightarrow>
      parse_value (Suc n) (ws @ print_value lay d v @ r) = Some (v, r)"
  shows "reads_back lay v"
  unfolding reads_back_def
proof (intro exI [of _ "Suc n0"] allI impI)
  fix n d ws r assume "Suc n0 \<le> n" "white ws" "ends_number r"
  then show "parse_value n (ws @ print_value lay d v @ r) = Some (v, r)" using assms by (cases n) auto
qed

lemma array_read_back:
  assumes "layout_ok lay" and "\<And>v. v \<in> set vs \<Longrightarrow> reads_back lay v"
    and s: "\<And>v d. v \<in> set vs \<Longrightarrow> \<exists>c cs. print_value lay d v = c # cs \<and> \<not> json_white c \<and> c \<noteq> CHR '']''"
  shows "reads_back lay (JArr vs)"
proof (cases "vs = []")
  case True
  show ?thesis by (rule enough_fuelI [of 0]) (simp add: True skip_to skip_white_stop json_white_def)
next
  case False
  have b: "white (break_at lay d)" for d using assms(1) by (simp add: layout_ok_def)
  obtain n0 where n0: "\<And>n d e e' ws r. n \<ge> n0 \<Longrightarrow> white ws \<Longrightarrow>
    parse_items n (ws @ join ('','' @ break_at lay e) (map (print_value lay d) vs) @ break_at lay e' @ '']'' @ r) = Some (vs, r)"
    using items_read_back [OF False assms(2) b] by blast
  show ?thesis
  proof (rule enough_fuelI [of n0])
    fix n d ws r assume n: "n0 \<le> n" and ws: "white ws" and "ends_number r"
    let ?t = "join ('','' @ break_at lay (Suc d)) (map (print_value lay (Suc d)) vs) @ break_at lay d @ '']'' @ r"
    obtain v xs where v: "vs = v # xs" using False by (cases vs) auto
    obtain c cs where c: "print_value lay (Suc d) v = c # cs" "\<not> json_white c" "c \<noteq> CHR '']''"
      using s [of v "Suc d"] v by auto
    have "\<exists>cs. ?t = c # cs" using c(1) by (cases xs) (simp_all add: v)
    then obtain cs' where t: "?t = c # cs'" by blast
    have "skip_white (break_at lay (Suc d) @ ?t) = c # cs'" using b c(2) t by (simp add: skip_white_append skip_white_stop)
    moreover have "parse_items n (break_at lay (Suc d) @ ?t) = Some (vs, r)" using n0 [OF n b] by simp
    moreover have "print_value lay d (JArr vs) @ r = CHR ''['' # break_at lay (Suc d) @ ?t" using False by simp
    ultimately show "parse_value (Suc n) (ws @ print_value lay d (JArr vs) @ r) = Some (JArr vs, r)"
      using c(3) by (simp add: skip_to [OF ws] del: print_value.simps)
  qed
qed

lemma object_read_back:
  assumes "layout_ok lay" and "\<And>x. x \<in> set ms \<Longrightarrow> reads_back lay (snd x)" and "distinct (map fst ms)"
  shows "reads_back lay (JObj ms)"
proof (cases "ms = []")
  case True
  show ?thesis by (rule enough_fuelI [of 0]) (simp add: True skip_to skip_white_stop json_white_def)
next
  case False
  have b: "white (break_at lay d)" for d using assms(1) by (simp add: layout_ok_def)
  have c: "white (after_colon lay)" using assms(1) by (simp add: layout_ok_def)
  let ?p = "\<lambda>d. map (\<lambda>(k, v). json_string k @ '':'' @ after_colon lay @ print_value lay d v) ms"
  obtain n0 where n0: "\<And>n d e e' ws r. n \<ge> n0 \<Longrightarrow> white ws \<Longrightarrow>
    parse_members n (ws @ join ('','' @ break_at lay e) (?p d) @ break_at lay e' @ ''}'' @ r) = Some (ms, r)"
    using members_read_back [OF False assms(2) b c] by blast
  show ?thesis
  proof (rule enough_fuelI [of n0])
    fix n d ws r assume n: "n0 \<le> n" and ws: "white ws" and "ends_number r"
    let ?t = "join ('','' @ break_at lay (Suc d)) (?p (Suc d)) @ break_at lay d @ ''}'' @ r"
    obtain k v xs where v: "ms = (k, v) # xs" using False by (cases ms) auto
    have "\<exists>cs. ?t = CHR 0x22 # cs" by (cases xs) (simp_all add: v json_string_def)
    then obtain cs' where t: "?t = CHR 0x22 # cs'" by blast
    have "skip_white (break_at lay (Suc d) @ ?t) = CHR 0x22 # cs'"
      using b t by (simp add: skip_white_append skip_white_stop json_white_def)
    moreover have "parse_members n (break_at lay (Suc d) @ ?t) = Some (ms, r)" using n0 [OF n b] by simp
    moreover have "print_value lay d (JObj ms) @ r = CHR ''{'' # break_at lay (Suc d) @ ?t" using False by simp
    ultimately show "parse_value (Suc n) (ws @ print_value lay d (JObj ms) @ r) = Some (JObj ms, r)"
      by (simp add: skip_to [OF ws] spread_distinct [OF assms(3)] del: print_value.simps)
  qed
qed

lemma print_value_first:
  assumes "json_ready v"
  shows "\<exists>c cs. print_value lay d v = c # cs \<and> \<not> json_white c \<and> c \<noteq> CHR '']''"
proof (cases v)
  case (JNum q)
  then show ?thesis using number_text_first [of q] by (auto simp: json_white_def is_digit_def)
qed (use assms in \<open>auto simp: json_white_def json_string_def\<close>)

lemma json_ready_reads_back: "layout_ok lay \<Longrightarrow> json_ready v \<Longrightarrow> reads_back lay v"
proof (induction v)
  case (JNum q)
  obtain c cs where c: "number_text q = c # cs" "c = CHR ''-'' \<or> is_digit c" using number_text_first by blast
  have "c \<notin> {CHR 0x22, CHR ''['', CHR ''{'', CHR ''t'', CHR ''f'', CHR ''n''}" "\<not> json_white c"
    using c(2) by (auto simp: is_digit_def json_white_def)
  moreover from JNum have "plain_number q" by simp
  ultimately show ?case
    using parse_number_text [of q]
    by (intro enough_fuelI [of 0]) (simp add: skip_white_append skip_white_stop c(1))
next
  case (JArr vs)
  then show ?case by (intro array_read_back print_value_first) (auto simp: list_all_iff)
next
  case (JObj ms)
  then show ?case by (intro object_read_back) (fastforce simp: list_all_iff)+
next
  case (JBool b)
  show ?case
    by (rule enough_fuelI [of 0]) (simp add: skip_white_append skip_white_stop json_white_def)
next
  case (JStr s)
  show ?case
    by (rule enough_fuelI [of 0]) (simp add: skip_to json_string_def parse_chars_string)
next
  case JNull
  show ?case
    by (rule enough_fuelI [of 0]) (simp add: skip_white_append skip_white_stop json_white_def)
qed simp_all

subsection \<open>Enough fuel\<close>

lemma length_dropWhile: "length (dropWhile P s) \<le> length s"
  by (induction s) auto

lemma skip_white_length: "length (skip_white s) \<le> length s"
  by (simp add: skip_white_def length_dropWhile)

lemma parse_chars_length: "parse_chars s = Some (t, r) \<Longrightarrow> length r < length s"
proof (induction s arbitrary: t rule: parse_chars.induct)
  case (2 c cs)
  then show ?case
    by (fastforce split: if_splits list.splits option.splits simp: min_def)
qed simp

lemma parse_fraction_length: "parse_fraction s = Some (ds, r) \<Longrightarrow> length r \<le> length s"
  by (cases s) (auto simp: parse_fraction_def length_dropWhile le_SucI split: if_splits)

lemma parse_number_length:
  assumes "parse_number s = Some (q, r)"
  shows "length r < length s"
proof -
  have e: "length r' \<le> length t" if "parse_exponent t = Some (e, r')" for t e r'
    using that by (auto simp: parse_exponent_def Let_def length_dropWhile le_SucI split: list.splits if_splits)
  have u: "length r' < length t" if p: "parse_unsigned t = Some (q', r')" for t q' r'
  proof -
    from p have w: "takeWhile is_digit t \<noteq> []" by (auto simp: parse_unsigned_def Let_def split: if_splits)
    then have "length (dropWhile is_digit t) < length t"
      by (metis length_append length_greater_0_conv less_add_same_cancel2 takeWhile_dropWhile_id)
    moreover obtain ds r2 where f: "parse_fraction (dropWhile is_digit t) = Some (ds, r2)"
        and x: "\<exists>e. parse_exponent r2 = Some (e, r')"
      using p by (auto simp: parse_unsigned_def Let_def split: if_splits option.splits)
    moreover from f have "length r2 \<le> length (dropWhile is_digit t)"
      by (rule parse_fraction_length)
    ultimately show ?thesis using e by fastforce
  qed
  show ?thesis using assms
    by (auto simp: parse_number_def split: list.splits if_splits dest!: u)
qed

text \<open>Two units per character are enough for a value, one more for a list of items.\<close>

lemma fuel_enough:
  "parse_value n s = Some (v, r) \<Longrightarrow>
     length r < length s \<and> (\<forall>m \<ge> 2 * length s. parse_value m s = Some (v, r))"
  "parse_items n s = Some (vs, r) \<Longrightarrow>
     length r < length s \<and> (\<forall>m \<ge> 2 * length s + 1. parse_items m s = Some (vs, r))"
  "parse_members n s = Some (ms, r) \<Longrightarrow>
     length r < length s \<and> (\<forall>m \<ge> 2 * length s + 1. parse_members m s = Some (ms, r))"
proof (induction n s and n s and n s arbitrary: v r and vs r and ms r
    rule: parse_value_parse_items_parse_members.induct)
  case (4 n s)
  from "4.prems" obtain w r1 where w: "parse_value n s = Some (w, r1)" by (auto split: option.splits)
  note iw = "4.IH"(1) [OF w]
  have l: "length (skip_white r1) \<le> length r1" by (rule skip_white_length)
  from "4.prems" w obtain c r2 where c: "skip_white r1 = c # r2" by (auto split: list.splits)
  show ?case
  proof (cases "c = CHR '',''")
    case True
    with "4.prems" w c obtain us where us: "parse_items n r2 = Some (us, r)" "vs = w # us" by auto
    have iu: "length r < length r2 \<and> (\<forall>m \<ge> 2 * length r2 + 1. parse_items m r2 = Some (us, r))"
      using "4.IH"(2) [OF w _ c True us(1)] by simp
    have "parse_items m s = Some (vs, r)" if "m \<ge> 2 * length s + 1" for m
    proof -
      from that obtain k where k: "m = Suc k" by (cases m) auto
      then have "parse_value k s = Some (w, r1)" "parse_items k r2 = Some (us, r)"
        using that iw iu l c by auto
      then show ?thesis by (simp add: k c True us(2))
    qed
    then show ?thesis using iw iu l c by auto
  next
    case False
    with "4.prems" w c have x: "c = CHR '']''" "vs = [w]" "r = r2" by (auto split: if_splits)
    have "parse_items m s = Some (vs, r)" if "m \<ge> 2 * length s + 1" for m
      using that iw c x by (cases m) auto
    then show ?thesis using iw l c x by auto
  qed
next
  case (6 n s)
  from "6.prems" obtain cs where s0: "skip_white s = CHR 0x22 # cs" by (auto split: list.splits if_splits)
  with "6.prems" obtain k r1 where k: "parse_chars cs = Some (k, r1)" by (auto split: option.splits)
  with s0 "6.prems" obtain r2 where r2: "skip_white r1 = CHR '':'' # r2" by (auto split: list.splits if_splits)
  with s0 k "6.prems" obtain w r3 where w: "parse_value n r2 = Some (w, r3)" by (auto split: option.splits)
  note iw = "6.IH"(1) [OF s0 _ k _ r2 _ w, simplified]
  from s0 k r2 w "6.prems" obtain c r4 where c: "skip_white r3 = c # r4" by (auto split: list.splits)
  have len: "length cs < length s" "length r1 < length cs" "length r2 < length r1" "length r4 < length r3"
    using skip_white_length [of s] skip_white_length [of r1] skip_white_length [of r3] parse_chars_length [OF k] s0 r2 c by auto
  show ?case
  proof (cases "c = CHR '',''")
    case True
    with "6.prems" s0 k r2 w c obtain us where us: "parse_members n r4 = Some (us, r)" "ms = (k, w) # us" by auto
    have iu: "length r < length r4 \<and> (\<forall>m \<ge> 2 * length r4 + 1. parse_members m r4 = Some (us, r))"
      using "6.IH"(2) [OF s0 _ k _ r2 _ w _ c True us(1)] by simp
    have "parse_members m s = Some (ms, r)" if "m \<ge> 2 * length s + 1" for m
    proof -
      from that obtain i where i: "m = Suc i" by (cases m) auto
      then have "parse_value i r2 = Some (w, r3)" "parse_members i r4 = Some (us, r)"
        using that iw iu len by auto
      then show ?thesis by (simp add: i s0 k r2 c True us(2))
    qed
    then show ?thesis using iw iu len by auto
  next
    case False
    with "6.prems" s0 k r2 w c have x: "c = CHR ''}''" "ms = [(k, w)]" "r = r4" by (auto split: if_splits)
    have "parse_members m s = Some (ms, r)" if "m \<ge> 2 * length s + 1" for m
    proof -
      from that obtain i where i: "m = Suc i" by (cases m) auto
      then have "parse_value i r2 = Some (w, r3)" using that iw len by auto
      then show ?thesis by (simp add: i s0 k r2 c x)
    qed
    then show ?thesis using iw len x by auto
  qed
next
  case (2 n s)
  from "2.prems" obtain c cs where s0: "skip_white s = c # cs" by (auto split: list.splits)
  have len: "Suc (length cs) \<le> length s" using skip_white_length [of s] s0 by simp
  have any: "\<exists>i. m = Suc i \<and> i \<ge> 2 * length cs + 1" if "m \<ge> 2 * length s" for m
    using that len by (cases m) auto
  consider (arr) "c = CHR ''[''" | (obj) "c = CHR ''{''" | (flat) "c \<noteq> CHR ''[''" "c \<noteq> CHR ''{''" by blast
  then show ?case
  proof cases
    case arr
    with "2.prems" s0 obtain x y where x: "skip_white cs = x # y" by (auto split: list.splits)
    have y: "length y < length cs" using skip_white_length [of cs] x by simp
    show ?thesis
    proof (cases "x = CHR '']''")
      case True
      with "2.prems" s0 x arr have "v = JArr [] \<and> r = y" by auto
      moreover have "parse_value m s = Some (JArr [], y)" if "m \<ge> 2 * length s" for m
        using any [OF that] s0 x arr True by auto
      ultimately show ?thesis using len y by auto
    next
      case False
      with "2.prems" s0 x arr obtain vs where vs: "parse_items n cs = Some (vs, r)" "v = JArr vs" by auto
      note i = "2.IH"(1) [OF s0 _ arr x False vs(1), simplified arr, simplified]
      have "parse_value m s = Some (v, r)" if "m \<ge> 2 * length s" for m
        using any [OF that] s0 x arr False i vs(2) by auto
      then show ?thesis using len i by auto
    qed
  next
    case obj
    with "2.prems" s0 obtain x y where x: "skip_white cs = x # y" by (auto split: list.splits)
    have y: "length y < length cs" using skip_white_length [of cs] x by simp
    show ?thesis
    proof (cases "x = CHR ''}''")
      case True
      with "2.prems" s0 x obj have "v = JObj [] \<and> r = y" by auto
      moreover have "parse_value m s = Some (JObj [], y)" if "m \<ge> 2 * length s" for m
        using any [OF that] s0 x obj True by auto
      ultimately show ?thesis using len y by auto
    next
      case False
      with "2.prems" s0 x obj obtain ms where ms: "parse_members n cs = Some (ms, r)" "v = JObj (spread [] ms)" by auto
      note i = "2.IH"(2) [OF s0 _ _ obj x False ms(1), simplified obj, simplified]
      have "parse_value m s = Some (v, r)" if "m \<ge> 2 * length s" for m
        using any [OF that] s0 x obj False i ms(2) by auto
      then show ?thesis using len i by auto
    qed
  next
    case flat
    have same: "parse_value (Suc i) s = parse_value (Suc n) s" for i using s0 flat by simp
    have "length r < length s"
      using "2.prems" s0 flat len
      by (auto split: if_splits dest!: parse_chars_length parse_number_length)
    moreover have "parse_value m s = Some (v, r)" if "m \<ge> 2 * length s" for m
      using any [OF that] same "2.prems" by auto
    ultimately show ?thesis by blast
  qed
qed simp_all

lemma json_parse_enough: "parse_value n s = Some (v, []) \<Longrightarrow> json_parse s = Some v"
proof -
  assume "parse_value n s = Some (v, [])"
  from fuel_enough(1) [OF this] have "parse_value (2 * length s + 1) s = Some (v, [])" by (simp del: parse_value.simps)
  then show ?thesis unfolding json_parse_def by (simp add: skip_white_def del: parse_value.simps)
qed

lemma json_parse_print:
  assumes "json_ready v" and "layout_ok lay"
  shows "json_parse (print_value lay 0 v) = Some v"
proof -
  from json_ready_reads_back [OF assms(2,1)] obtain n0 where "\<And>n d ws r. n \<ge> n0 \<Longrightarrow> white ws \<Longrightarrow>
      ends_number r \<Longrightarrow> parse_value n (ws @ print_value lay d v @ r) = Some (v, r)"
    by (rule reads_backE) blast
  from this [of n0 "[]" "[]" 0] have "parse_value n0 (print_value lay 0 v) = Some (v, [])"
    by (simp add: white_def ends_number_def)
  then show ?thesis by (rule json_parse_enough)
qed

text \<open>
  A printed value parses back, compact or indented: what \<open>JSON.parse\<close> makes of the text of
  \<open>JSON.stringify\<close> is the value without the members that JSON cannot hold, for numbers of at
  most 17 decimal places and distinct keys.
\<close>

theorem json_round_trip:
  assumes "json_ready (json_clean v)" and "v \<noteq> JUndefined" and "v \<noteq> JFun" and "lay \<in> {compact, indented}"
  shows "Option.bind (stringify lay v) json_parse = Some (json_clean v)"
  using assms(2-4) json_parse_print [OF assms(1)] layouts_ok by (auto simp: stringify_def)

definition sample_value :: jsval where
  "sample_value = JObj [(''a'', JArr [JNum (- 5 / 4), JStr [CHR 0x22, CHR 0x0A], JUndefined]), (''f'', JFun)]"

lemma json_round_trip_witness:
  "Option.bind (stringify indented sample_value) json_parse =
     Some (JObj [(''a'', JArr [JNum (- 5 / 4), JStr [CHR 0x22, CHR 0x0A], JNull])])"
proof -
  have r: "json_ready (json_clean sample_value)" by code_simp
  have v: "sample_value \<noteq> JUndefined" "sample_value \<noteq> JFun" by (simp_all add: sample_value_def)
  have "json_clean sample_value = JObj [(''a'', JArr [JNum (- 5 / 4), JStr [CHR 0x22, CHR 0x0A], JNull])]" by code_simp
  with json_round_trip [OF r v, of indented] show ?thesis by simp
qed

end
