(* ===== verification/LlmTypes.thy ===== *)
theory LlmTypes
  imports LlmConfig Json
begin

text \<open>
  The vocabulary of the language model package (packages/llm/src): types.ts, chat.ts, tokens.ts,
  embeddings.ts, errors.ts, the mapping of vendor errors of mapping.ts, and the helpers over
  streams of streaming.ts. A stream is the list of what it yields and the exception it ends with,
  if it does. The signal of a request is not read by the providers and is left out.
\<close>

subsection \<open>Messages, requests and responses\<close>

datatype role = System | User | Assistant | Tool | Developer

fun role_str :: "role \<Rightarrow> string" where
  "role_str System = ''system''"
| "role_str User = ''user''"
| "role_str Assistant = ''assistant''"
| "role_str Tool = ''tool''"
| "role_str Developer = ''developer''"

record llm_tool_definition =
  ltd_name :: string
  ltd_description :: "string option"
  ltd_parameters :: "(string, jsval) jmap option"

record llm_tool_call =
  ltc_id :: string
  ltc_name :: string
  ltc_arguments :: string

record tool_call_delta =
  dl_index :: nat
  dl_id :: "string option"
  dl_name :: "string option"
  dl_arguments :: "string option"

record chat_message =
  cm_role :: role
  cm_content :: string
  cm_name :: "string option"
  cm_toolCallId :: "string option"
  cm_toolCalls :: "llm_tool_call list option"

datatype finish_reason = F_stop | F_length | F_tool_calls | F_content_filter | F_error | F_cancelled | F_unknown

record token_usage =
  promptTokens :: nat
  completionTokens :: nat
  totalTokens :: nat

record model_info =
  mi_id :: string
  mi_providerId :: string
  mi_displayName :: "string option"
  mi_contextWindow :: "nat option"
  mi_maxOutputTokens :: "nat option"
  mi_supportsTools :: "bool option"
  mi_supportsVision :: "bool option"
  mi_supportsStreaming :: "bool option"

record provider_capabilities =
  cap_chat :: bool
  cap_streaming :: bool
  cap_embeddings :: bool
  cap_toolCalling :: bool
  cap_vision :: bool
  cap_jsonMode :: bool

datatype tool_choice = Choice_auto | Choice_none | Choice_required | Choice_named string

record chat_request =
  cq_model :: string
  cq_messages :: "chat_message list"
  cq_temperature :: "rat option"
  cq_maxTokens :: "nat option"
  cq_topP :: "rat option"
  cq_frequencyPenalty :: "rat option"
  cq_presencePenalty :: "rat option"
  cq_stop :: "string list option"
  cq_user :: "string option"
  cq_tools :: "llm_tool_definition list option"
  cq_toolChoice :: "tool_choice option"
  cq_json :: bool

record response_message =
  rm_role :: role
  rm_content :: string
  rm_toolCalls :: "llm_tool_call list option"

record chat_response =
  cr_id :: string
  cr_providerId :: string
  cr_model :: string
  cr_message :: response_message
  cr_finishReason :: finish_reason
  cr_usage :: token_usage
  cr_toolCalls :: "llm_tool_call list option"

record chat_chunk =
  ch_id :: string
  ch_providerId :: string
  ch_model :: string
  ch_role :: "role option"
  ch_content :: "string option"
  ch_toolCalls :: "tool_call_delta list option"
  ch_finishReason :: "finish_reason option"
  ch_usage :: "token_usage option"

record embedding_request =
  eq_model :: string
  eq_input :: "string + string list"

record embedding_item =
  ei_index :: nat
  ei_vector :: "rat list"

record embedding_response =
  ep_id :: string
  ep_providerId :: string
  ep_model :: string
  ep_items :: "embedding_item list"
  ep_promptTokens :: nat
  ep_totalTokens :: nat

record llm_health =
  lh_healthy :: bool
  lh_providerId :: string
  lh_latencyMs :: int
  lh_checkedAt :: instant
  lh_detail :: "string option"

subsection \<open>Tokens\<close>

definition ZERO_USAGE :: token_usage where
  "ZERO_USAGE = \<lparr>promptTokens = 0, completionTokens = 0, totalTokens = 0\<rparr>"

definition addTokenUsage :: "token_usage \<Rightarrow> token_usage \<Rightarrow> token_usage" where
  "addTokenUsage l r = \<lparr>promptTokens = promptTokens l + promptTokens r,
     completionTokens = completionTokens l + completionTokens r, totalTokens = totalTokens l + totalTokens r\<rparr>"

definition makeTokenUsage :: "nat \<Rightarrow> nat \<Rightarrow> token_usage" where
  "makeTokenUsage prompt completion =
     \<lparr>promptTokens = prompt, completionTokens = completion, totalTokens = prompt + completion\<rparr>"

subsection \<open>Errors\<close>

datatype llm_error_code =
    PROVIDER_UNAVAILABLE | RATE_LIMITED | INVALID_MODEL | AUTHENTICATION_FAILED | TIMEOUT
  | CONTEXT_LENGTH_EXCEEDED | UNKNOWN_PROVIDER | PROVIDER_ERROR | INVALID_REQUEST

record llm_error =
  le_code :: llm_error_code
  le_providerId :: string
  le_message :: string
  le_retryAfterMs :: "int option"
  le_cause :: "jsval option"

text \<open>What is thrown: an error of the package, or another value, as the object it is.\<close>

datatype thrown = Llm_thrown llm_error | Other_thrown jsval

type_synonym 'a stream_of = "'a list \<times> thrown option"

definition llm_error_of :: "llm_error_code \<Rightarrow> string \<Rightarrow> string \<Rightarrow> jsval option \<Rightarrow> llm_error" where
  "llm_error_of code provider message cause = \<lparr>le_code = code, le_providerId = provider, le_message = message,
     le_retryAfterMs = None, le_cause = (if cause = Some JUndefined then None else cause)\<rparr>"

definition ProviderUnavailable :: "string \<Rightarrow> string \<Rightarrow> jsval option \<Rightarrow> llm_error" where
  "ProviderUnavailable = llm_error_of PROVIDER_UNAVAILABLE"

definition RateLimited :: "string \<Rightarrow> string \<Rightarrow> int \<Rightarrow> jsval option \<Rightarrow> llm_error" where
  "RateLimited provider message ms cause =
     (llm_error_of RATE_LIMITED provider message cause)\<lparr>le_retryAfterMs := Some ms\<rparr>"

definition InvalidModel :: "string \<Rightarrow> string \<Rightarrow> jsval option \<Rightarrow> llm_error" where
  "InvalidModel = llm_error_of INVALID_MODEL"

definition AuthenticationFailed :: "string \<Rightarrow> string \<Rightarrow> jsval option \<Rightarrow> llm_error" where
  "AuthenticationFailed = llm_error_of AUTHENTICATION_FAILED"

definition Timeout :: "string \<Rightarrow> string \<Rightarrow> jsval option \<Rightarrow> llm_error" where
  "Timeout = llm_error_of TIMEOUT"

definition ContextLengthExceeded :: "string \<Rightarrow> string \<Rightarrow> jsval option \<Rightarrow> llm_error" where
  "ContextLengthExceeded = llm_error_of CONTEXT_LENGTH_EXCEEDED"

definition UnknownProvider :: "string \<Rightarrow> string \<Rightarrow> llm_error" where
  "UnknownProvider provider message = llm_error_of UNKNOWN_PROVIDER provider message None"

definition ProviderError :: "string \<Rightarrow> string \<Rightarrow> jsval option \<Rightarrow> llm_error" where
  "ProviderError = llm_error_of PROVIDER_ERROR"

definition InvalidRequest :: "string \<Rightarrow> string \<Rightarrow> jsval option \<Rightarrow> llm_error" where
  "InvalidRequest = llm_error_of INVALID_REQUEST"

fun isLLMError :: "thrown \<Rightarrow> bool" where
  "isLLMError (Llm_thrown _) = True"
| "isLLMError (Other_thrown _) = False"

subsection \<open>Vendor errors\<close>

definition isRetryableStatusCode :: "rat \<Rightarrow> bool" where
  "isRetryableStatusCode status \<longleftrightarrow> status = 408 \<or> status = 409 \<or> status = 429 \<or> status \<ge> 500"

definition RETRY_AFTER_DEFAULT_MS :: int where
  "RETRY_AFTER_DEFAULT_MS = 1000"

definition js_round :: "rat \<Rightarrow> int" where
  "js_round q = \<lfloor>q + 1 / 2\<rfloor>"

text \<open>
  \<open>parseFloat\<close>: the longest prefix that is a number; \<open>None\<close> for NaN and the infinities, which numbers are
  rounded to from the middle between the largest double and 2 to the 1024th on.
\<close>

definition FLOAT_OVERFLOW :: rat where
  "FLOAT_OVERFLOW = 2 ^ 1024 - 2 ^ 970"

definition float_exponent :: "string \<Rightarrow> int" where
  "float_exponent s = (case s of
     [] \<Rightarrow> 0
   | e # r \<Rightarrow> if e = CHR ''e'' \<or> e = CHR ''E''
       then (let sg = (case r of x # _ \<Rightarrow> if x = CHR ''+'' \<or> x = CHR ''-'' then [x] else [] | [] \<Rightarrow> [])
             in override 0 (read_exponent (sg @ takeWhile is_digit (drop (length sg) r))))
       else 0)"

definition parse_float :: "string \<Rightarrow> rat option" where
  "parse_float s =
     (let t = dropWhile is_white s;
          neg = (t \<noteq> [] \<and> hd t = CHR ''-'');
          u = (if t \<noteq> [] \<and> (hd t = CHR ''-'' \<or> hd t = CHR ''+'') then tl t else t);
          whole = takeWhile is_digit u; r1 = dropWhile is_digit u;
          has_point = (r1 \<noteq> [] \<and> hd r1 = CHR ''.'');
          decimals = (if has_point then takeWhile is_digit (tl r1) else []);
          r2 = (if has_point then dropWhile is_digit (tl r1) else r1);
          m = of_nat (read_base 10 (whole @ decimals)) / 10 ^ length decimals * ten_power (float_exponent r2)
      in if whole = [] \<and> decimals = [] \<or> FLOAT_OVERFLOW \<le> m then None else Some (if neg then - m else m))"

definition looksLikeDate :: "string \<Rightarrow> bool" where
  "looksLikeDate raw \<longleftrightarrow> (\<exists>c \<in> set raw. c \<in> {CHR ''T'', CHR ''t'', CHR ''-''})"

text \<open>\<open>date_parse\<close> is the reading of a date by the platform, \<open>None\<close> where it is NaN.\<close>

definition parseRetryAfterMs :: "(string \<Rightarrow> int option) \<Rightarrow> instant \<Rightarrow> jsval \<Rightarrow> int" where
  "parseRetryAfterMs date_parse now raw = (case raw of
     JNum q \<Rightarrow> if 0 \<le> q then js_round (q * 1000) else RETRY_AFTER_DEFAULT_MS
   | JStr s \<Rightarrow>
       if \<not> looksLikeDate s
       then (case parse_float s of
           Some q \<Rightarrow> if 0 \<le> q then js_round (q * 1000) else RETRY_AFTER_DEFAULT_MS
         | None \<Rightarrow> RETRY_AFTER_DEFAULT_MS)
       else (case date_parse s of Some d \<Rightarrow> max 0 (d - now) | None \<Rightarrow> RETRY_AFTER_DEFAULT_MS)
   | _ \<Rightarrow> RETRY_AFTER_DEFAULT_MS)"

text \<open>The status is a number, maybe NaN, or absent.\<close>

record sdk_error_shape =
  sh_status :: jsval
  sh_code :: "string option"
  sh_message :: "string option"
  sh_type :: "string option"

fun first_defined :: "jsval list \<Rightarrow> jsval" where
  "first_defined [] = JUndefined"
| "first_defined [v] = v"
| "first_defined (v # vs) = (if v = JUndefined \<or> v = JNull then first_defined vs else v)"

definition text_value :: "jsval \<Rightarrow> string option" where
  "text_value v = (case v of JStr s \<Rightarrow> Some s | _ \<Rightarrow> None)"

definition code_text :: "jsval \<Rightarrow> string option" where
  "code_text v = (case v of JStr s \<Rightarrow> Some s | JNum q \<Rightarrow> Some (number_text q) | JNaN \<Rightarrow> Some ''NaN'' | _ \<Rightarrow> None)"

definition empty_shape :: sdk_error_shape where
  "empty_shape = \<lparr>sh_status = JUndefined, sh_code = None, sh_message = None, sh_type = None\<rparr>"

definition toSdkShape :: "jsval \<Rightarrow> sdk_error_shape" where
  "toSdkShape e = (case e of
     JObj ob \<Rightarrow>
       (let statusRaw = first_defined [js_get ob ''status'', js_get ob ''statusCode'', js_get ob ''httpStatus''];
            codeRaw = first_defined [js_get ob ''code'', js_get ob ''errorCode''];
            messageRaw = first_defined [js_get ob ''message'', js_get ob ''errorMessage''];
            typeRaw = first_defined [js_get ob ''type'', js_get ob ''errorType'']
        in \<lparr>sh_status = (if typeof statusRaw = ''number'' then statusRaw else JUndefined),
             sh_code = code_text codeRaw, sh_message = text_value messageRaw, sh_type = text_value typeRaw\<rparr>)
   | JStr s \<Rightarrow> empty_shape\<lparr>sh_message := Some s\<rparr>
   | _ \<Rightarrow> empty_shape)"

definition optional_get :: "jsval \<Rightarrow> string \<Rightarrow> jsval" where
  "optional_get v k = (case v of JObj ob \<Rightarrow> js_get ob k | _ \<Rightarrow> JUndefined)"

definition or_text :: "string \<Rightarrow> string \<Rightarrow> string" where
  "or_text a b = (if a = [] then b else a)"

definition status_at_least :: "jsval \<Rightarrow> rat \<Rightarrow> bool" where
  "status_at_least v n = (case v of JNum q \<Rightarrow> n \<le> q | _ \<Rightarrow> False)"

definition mapSDKError :: "(string \<Rightarrow> int option) \<Rightarrow> instant \<Rightarrow> string \<Rightarrow> thrown \<Rightarrow> llm_error" where
  "mapSDKError date_parse now providerId thrown = (case thrown of
     Llm_thrown e \<Rightarrow> e
   | Other_thrown raw \<Rightarrow>
       (let shape = toSdkShape raw; status = sh_status shape;
            message = override ''Unknown provider error'' (sh_message shape);
            code = override (override [] (sh_type shape)) (sh_code shape); cause = Some raw
        in if status = JNum 401 \<or> code \<in> {''invalid_api_key'', ''authentication_failed''}
           then AuthenticationFailed providerId ''Provider rejected API key.'' cause
           else if status = JNum 403 \<or> code \<in> {''insufficient_quota'', ''billing_hard_limit_reached''}
           then AuthenticationFailed providerId (or_text message ''Provider denied the request (billing/quota).'') cause
           else if status = JNum 404 \<or> code \<in> {''model_not_found'', ''invalid_model''}
           then InvalidModel providerId (or_text message (''Unknown model for provider '' @ providerId @ ''.'')) cause
           else if status = JNum 408 \<or> code \<in> {''request_timeout'', ''timeout'', ''request_time_out''}
           then Timeout providerId (or_text message ''Provider request timed out.'') cause
           else if status = JNum 413 \<or> code \<in> {''context_length_exceeded'', ''context_window_exceeded''}
           then ContextLengthExceeded providerId (or_text message ''Input exceeds the model context length.'') cause
           else if status = JNum 429 \<or> code = ''rate_limited''
           then RateLimited providerId (or_text message ''Provider rate limit hit.'')
                  (parseRetryAfterMs date_parse now (optional_get (optional_get raw ''headers'') ''retry-after'')) cause
           else if status = JNum 400 \<or> code \<in> {''invalid_request'', ''invalid_request_error'', ''validation_error''}
           then InvalidRequest providerId (or_text message ''Provider rejected invalid request.'') cause
           else if status_at_least status 500 \<or> code \<in> {''server_error'', ''provider_unavailable''}
           then ProviderUnavailable providerId (or_text message ''Provider is unavailable.'') cause
           else ProviderError providerId message cause))"

subsection \<open>Streams\<close>

definition defaultFinishReason :: "chat_chunk option \<Rightarrow> finish_reason" where
  "defaultFinishReason l = (case l of
     None \<Rightarrow> F_error
   | Some c \<Rightarrow> override F_unknown (ch_finishReason c))"

record pending_call =
  pn_id :: "string option"
  pn_name :: "string option"
  pn_args :: string

definition add_delta :: "tool_call_delta \<Rightarrow> (nat, pending_call) jmap \<Rightarrow> (nat, pending_call) jmap" where
  "add_delta d calls =
     (let p = override \<lparr>pn_id = None, pn_name = None, pn_args = []\<rparr> (jm_get calls (dl_index d))
      in jm_set (dl_index d) \<lparr>pn_id = (if dl_id d = None then pn_id p else dl_id d),
           pn_name = (if dl_name d = None then pn_name p else dl_name d),
           pn_args = pn_args p @ override [] (dl_arguments d)\<rparr> calls)"

definition collectDeltas :: "chat_chunk list \<Rightarrow> string \<times> (nat, pending_call) jmap" where
  "collectDeltas chunks = (concat (map (\<lambda>c. override [] (ch_content c)) chunks),
     fold add_delta (concat (map (\<lambda>c. override [] (ch_toolCalls c)) chunks)) [])"

definition complete_call :: "string \<Rightarrow> pending_call \<Rightarrow> llm_error + llm_tool_call" where
  "complete_call provider p = (case (pn_id p, pn_name p) of
     (Some (i # is), Some (n # ns)) \<Rightarrow> Inr \<lparr>ltc_id = i # is, ltc_name = n # ns, ltc_arguments = pn_args p\<rparr>
   | _ \<Rightarrow> Inl (InvalidRequest provider ''Tool call delta missing id or name; cannot accumulate response.'' None))"

fun complete_calls :: "string \<Rightarrow> pending_call list \<Rightarrow> llm_error + llm_tool_call list" where
  "complete_calls provider [] = Inr []"
| "complete_calls provider (p # ps) = (case complete_call provider p of
     Inl e \<Rightarrow> Inl e
   | Inr c \<Rightarrow> (case complete_calls provider ps of Inl e \<Rightarrow> Inl e | Inr cs \<Rightarrow> Inr (c # cs)))"

definition nonempty :: "'a list \<Rightarrow> 'a list option" where
  "nonempty xs = (if xs = [] then None else Some xs)"

definition accumulateChatChunks :: "chat_chunk stream_of \<Rightarrow> thrown + chat_response" where
  "accumulateChatChunks s = (case s of (chunks, ending) \<Rightarrow> (case ending of
     Some e \<Rightarrow> Inl e
   | None \<Rightarrow> (case chunks of
       [] \<Rightarrow> Inl (Llm_thrown (InvalidRequest ''unknown'' ''Chat stream produced zero chunks; cannot accumulate response.'' None))
     | first # _ \<Rightarrow>
         (let (content, calls) = collectDeltas chunks; l = last chunks
          in case complete_calls (ch_providerId first) (map snd (sort_key fst calls)) of
               Inl e \<Rightarrow> Inl (Llm_thrown e)
             | Inr list \<Rightarrow> Inr \<lparr>cr_id = ch_id first, cr_providerId = ch_providerId first, cr_model = ch_model first,
                 cr_message = \<lparr>rm_role = override Assistant (ch_role first), rm_content = content,
                   rm_toolCalls = nonempty list\<rparr>,
                 cr_finishReason = defaultFinishReason (Some l), cr_usage = override ZERO_USAGE (ch_usage l),
                 cr_toolCalls = nonempty list\<rparr>))))"

text \<open>\<open>aborted n\<close> tells whether the signal is aborted once \<open>n\<close> items have been read.\<close>

fun consume :: "(nat \<Rightarrow> bool) \<Rightarrow> nat \<Rightarrow> 'a list \<Rightarrow> thrown option \<Rightarrow> thrown option" where
  "consume aborted n [] ending = ending"
| "consume aborted n (x # xs) ending =
     (if aborted (Suc n) then Some (Llm_thrown (InvalidRequest ''unknown'' ''Stream cancelled mid-consumption.'' None))
      else consume aborted (Suc n) xs ending)"

definition withAbortSignal :: "'a stream_of \<Rightarrow> (nat \<Rightarrow> bool) \<Rightarrow> thrown option" where
  "withAbortSignal source aborted =
     (if aborted 0 then Some (Llm_thrown (InvalidRequest ''unknown'' ''Stream cancelled before consumption started.'' None))
      else consume aborted 0 (fst source) (snd source))"

end
