(* ===== verification/PlanSerializer.thy ===== *)
theory PlanSerializer
  imports PlanStrategy PlanTypes
begin

text \<open>
  The plan serializer, packages/llm/src/planning/PlanSerializer.ts, up to the text of JSON:
  the conversions between a plan and its serialized form, in which the enumerations are
  strings. The code converts a string back with a type assertion that checks nothing; here
  such a conversion is \<open>None\<close> when the string is not one of the enumeration, where the code
  yields a value outside its type. The serialized form has the same members as the plan, so
  its lists and objects are copied.
\<close>

subsection \<open>Enumerations as strings\<close>

fun complexity_str :: "complexity_level \<Rightarrow> string" where
  "complexity_str Trivial = ''trivial''"
| "complexity_str Simple = ''simple''"
| "complexity_str Moderate = ''moderate''"
| "complexity_str Complex = ''complex''"
| "complexity_str VeryComplex = ''very-complex''"

fun risk_str :: "risk_level \<Rightarrow> string" where
  "risk_str NoRisk = ''none''"
| "risk_str LowRisk = ''low''"
| "risk_str MediumRisk = ''medium''"
| "risk_str HighRisk = ''high''"

fun constraint_str :: "constraint_type \<Rightarrow> string" where
  "constraint_str Resource = ''resource''"
| "constraint_str Time = ''time''"
| "constraint_str Dependency = ''dependency''"
| "constraint_str Security = ''security''"
| "constraint_str Custom = ''custom''"

text \<open>The value of an enumeration with the given string.\<close>

definition of_str :: "('a \<Rightarrow> string) \<Rightarrow> 'a list \<Rightarrow> string \<Rightarrow> 'a option" where
  "of_str str vals s = List.find (\<lambda>v. str v = s) vals"

definition plan_status_of :: "string \<Rightarrow> plan_status option" where
  "plan_status_of = of_str plan_status_str
     [Draft, Validated, Ready, Executing, PlanCompleted, PlanFailed, PlanCancelled]"

definition complexity_of :: "string \<Rightarrow> complexity_level option" where
  "complexity_of = of_str complexity_str [Trivial, Simple, Moderate, Complex, VeryComplex]"

definition risk_of :: "string \<Rightarrow> risk_level option" where
  "risk_of = of_str risk_str [NoRisk, LowRisk, MediumRisk, HighRisk]"

definition strategy_of :: "string \<Rightarrow> planning_strategy_type option" where
  "strategy_of = of_str strategy_str [Sequential, Parallel, Conditional]"

definition constraint_of :: "string \<Rightarrow> constraint_type option" where
  "constraint_of = of_str constraint_str [Resource, Time, Dependency, Security, Custom]"

lemma enumerations_round_trip [simp]:
  "plan_status_of (plan_status_str x1) = Some x1" "complexity_of (complexity_str x2) = Some x2"
  "risk_of (risk_str x3) = Some x3" "strategy_of (strategy_str x4) = Some x4"
  "constraint_of (constraint_str x5) = Some x5"
proof -
  show "plan_status_of (plan_status_str x1) = Some x1"
    by (cases x1) (simp_all add: plan_status_of_def of_str_def)
  show "complexity_of (complexity_str x2) = Some x2"
    by (cases x2) (simp_all add: complexity_of_def of_str_def)
  show "risk_of (risk_str x3) = Some x3" by (cases x3) (simp_all add: risk_of_def of_str_def)
  show "strategy_of (strategy_str x4) = Some x4" by (cases x4) (simp_all add: strategy_of_def of_str_def)
  show "constraint_of (constraint_str x5) = Some x5"
    by (cases x5) (simp_all add: constraint_of_def of_str_def)
qed

subsection \<open>Serialized plans\<close>

record serialized_goal =
  sg_raw :: string
  sg_description :: string
  sg_objectives :: "string list"
  sg_successCriteria :: "string option"

record serialized_step =
  ss_id :: string
  ss_title :: string
  ss_description :: string
  ss_tool :: "string option"
  ss_arguments :: "arguments option"
  ss_dependsOn :: "string list"
  ss_expectedResult :: string
  ss_status :: string
  ss_metadata :: "(string, jsval) jmap option"

record serialized_dependency =
  sd_from :: string
  sd_to :: string

record serialized_constraint =
  sc_id :: string
  sc_description :: string
  sc_type :: string
  sc_value :: "string option"

record serialized_plan =
  sp_id :: string
  sp_goal :: serialized_goal
  sp_strategy :: string
  sp_steps :: "serialized_step list"
  sp_dependencies :: "serialized_dependency list"
  sp_requiredTools :: "string list"
  sp_expectedOutputs :: "string list"
  sp_complexity :: string
  sp_risk :: string
  sp_constraints :: "serialized_constraint list"
  sp_status :: string
  sp_planningDurationMs :: int
  sp_reasoningSummary :: string

definition serializeGoal :: "plan_goal \<Rightarrow> serialized_goal" where
  "serializeGoal g =
     \<lparr>sg_raw = pg_raw g, sg_description = pg_description g, sg_objectives = pg_objectives g,
      sg_successCriteria = pg_successCriteria g\<rparr>"

definition serializeStep :: "plan_step \<Rightarrow> serialized_step" where
  "serializeStep s =
     \<lparr>ss_id = ps_id s, ss_title = ps_title s, ss_description = ps_description s, ss_tool = ps_tool s,
      ss_arguments = ps_arguments s, ss_dependsOn = ps_dependsOn s,
      ss_expectedResult = ps_expectedResult s, ss_status = plan_status_str (ps_status s),
      ss_metadata = ps_metadata s\<rparr>"

definition serializeDependency :: "plan_dependency \<Rightarrow> serialized_dependency" where
  "serializeDependency d = \<lparr>sd_from = pd_from d, sd_to = pd_to d\<rparr>"

definition serializeConstraint :: "plan_constraint \<Rightarrow> serialized_constraint" where
  "serializeConstraint c =
     \<lparr>sc_id = pc_id c, sc_description = pc_description c, sc_type = constraint_str (pc_type c),
      sc_value = pc_value c\<rparr>"

definition serializePlan :: "plan_result \<Rightarrow> serialized_plan" where
  "serializePlan p =
     \<lparr>sp_id = pr_id p, sp_goal = serializeGoal (pr_goal p), sp_strategy = strategy_str (pr_strategy p),
      sp_steps = map serializeStep (pr_steps p),
      sp_dependencies = map serializeDependency (pr_dependencies p),
      sp_requiredTools = pr_requiredTools p, sp_expectedOutputs = pr_expectedOutputs p,
      sp_complexity = complexity_str (pr_complexity p), sp_risk = risk_str (pr_risk p),
      sp_constraints = map serializeConstraint (pr_constraints p),
      sp_status = plan_status_str (pr_status p), sp_planningDurationMs = pr_planningDurationMs p,
      sp_reasoningSummary = pr_reasoningSummary p\<rparr>"

definition deserializeGoal :: "serialized_goal \<Rightarrow> plan_goal" where
  "deserializeGoal g =
     \<lparr>pg_raw = sg_raw g, pg_description = sg_description g, pg_objectives = sg_objectives g,
      pg_successCriteria = sg_successCriteria g\<rparr>"

definition deserializeStep :: "serialized_step \<Rightarrow> plan_step option" where
  "deserializeStep s =
     (case plan_status_of (ss_status s) of
        None \<Rightarrow> None
      | Some st \<Rightarrow> Some
          \<lparr>ps_id = ss_id s, ps_title = ss_title s, ps_description = ss_description s, ps_tool = ss_tool s,
           ps_arguments = ss_arguments s, ps_dependsOn = ss_dependsOn s,
           ps_expectedResult = ss_expectedResult s, ps_status = st, ps_metadata = ss_metadata s\<rparr>)"

definition deserializeDependency :: "serialized_dependency \<Rightarrow> plan_dependency" where
  "deserializeDependency d = \<lparr>pd_from = sd_from d, pd_to = sd_to d\<rparr>"

definition deserializeConstraint :: "serialized_constraint \<Rightarrow> plan_constraint option" where
  "deserializeConstraint c =
     (case constraint_of (sc_type c) of
        None \<Rightarrow> None
      | Some t \<Rightarrow> Some \<lparr>pc_id = sc_id c, pc_description = sc_description c, pc_type = t, pc_value = sc_value c\<rparr>)"

fun all_some :: "'a option list \<Rightarrow> 'a list option" where
  "all_some [] = Some []"
| "all_some (x # xs) =
     (case x of None \<Rightarrow> None
      | Some y \<Rightarrow> (case all_some xs of None \<Rightarrow> None | Some ys \<Rightarrow> Some (y # ys)))"

definition deserializePlan :: "serialized_plan \<Rightarrow> plan_result option" where
  "deserializePlan d =
     (case (strategy_of (sp_strategy d), all_some (map deserializeStep (sp_steps d)),
            complexity_of (sp_complexity d), risk_of (sp_risk d),
            all_some (map deserializeConstraint (sp_constraints d)), plan_status_of (sp_status d)) of
        (Some strategy, Some steps, Some complexity, Some risk, Some constraints, Some st) \<Rightarrow> Some
          \<lparr>pr_id = sp_id d, pr_goal = deserializeGoal (sp_goal d), pr_strategy = strategy, pr_steps = steps,
           pr_dependencies = map deserializeDependency (sp_dependencies d),
           pr_requiredTools = sp_requiredTools d, pr_expectedOutputs = sp_expectedOutputs d,
           pr_complexity = complexity, pr_risk = risk, pr_constraints = constraints, pr_status = st,
           pr_planningDurationMs = sp_planningDurationMs d,
           pr_reasoningSummary = sp_reasoningSummary d\<rparr>
      | _ \<Rightarrow> None)"

subsection \<open>Round trip\<close>

lemma deserializeStep_serializeStep [simp]: "deserializeStep (serializeStep s) = Some s"
  by (simp add: deserializeStep_def serializeStep_def)

lemma deserializeConstraint_serializeConstraint [simp]: "deserializeConstraint (serializeConstraint c) = Some c"
  by (simp add: deserializeConstraint_def serializeConstraint_def)

lemma deserializeDependency_serializeDependency [simp]: "deserializeDependency (serializeDependency d) = d"
  by (simp add: deserializeDependency_def serializeDependency_def)

lemma deserializeGoal_serializeGoal [simp]: "deserializeGoal (serializeGoal g) = g"
  by (simp add: deserializeGoal_def serializeGoal_def)

lemma all_some_map: "(\<And>x. f (g x) = Some x) \<Longrightarrow> all_some (map f (map g xs)) = Some xs"
  by (induction xs) simp_all

lemma deserialize_serialize_plan: "deserializePlan (serializePlan p) = Some p"
  by (simp add: deserializePlan_def serializePlan_def all_some_map map_idI comp_def del: map_map)
    (simp add: comp_def)

text \<open>
  Deserializing a serialized plan gives the plan back, every member included, and two
  plans with one serialized form are equal.
\<close>

theorem plan_serialization_round_trip:
  "deserializePlan (serializePlan p) = Some p \<and> (serializePlan p = serializePlan q \<longleftrightarrow> p = q)"
proof -
  have rt: "deserializePlan (serializePlan r) = Some r" for r
    by (simp add: deserializePlan_def serializePlan_def all_some_map map_idI comp_def del: map_map)
      (simp add: comp_def)
  then have "p = q" if "serializePlan p = serializePlan q" using that by (metis option.inject)
  with rt show ?thesis by blast
qed

theorem plan_serialization_round_trip_witness:
  "deserializePlan (serializePlan (sample_plan [sample_step ''a''])) = Some (sample_plan [sample_step ''a'']) \<and>
   sp_status (serializePlan (sample_plan [])) = ''ready''"
  using plan_serialization_round_trip [of "sample_plan [sample_step ''a'']"]
  by (simp add: serializePlan_def sample_plan_def)

end
