(* ===== verification/Serializers.thy ===== *)
theory Serializers
  imports Json PlanSerializer ExecCheckpoint
begin

text \<open>
  The serializers up to the text of JSON: \<open>planToJSON\<close> and \<open>planFromJSON\<close> of
  packages/llm/src/planning/PlanSerializer.ts, and packages/hermes/src/execution/
  ExecutionSerializer.ts. What is read from a text is cast without a check; reading a plan gives
  \<open>None\<close> where the code throws or yields values outside their types. The text of an instant is
  the parameter \<open>date_text\<close>, the message of a syntax error the parameter \<open>syntax_error\<close>.
\<close>

definition opt_member :: "string \<Rightarrow> ('a \<Rightarrow> jsval) \<Rightarrow> 'a option \<Rightarrow> (string \<times> jsval) list" where
  "opt_member k f v = (case v of None \<Rightarrow> [] | Some x \<Rightarrow> [(k, f x)])"

definition strings_js :: "string list \<Rightarrow> jsval" where
  "strings_js xs = JArr (map JStr xs)"

definition int_js :: "int \<Rightarrow> jsval" where
  "int_js i = JNum (of_int i)"

subsection \<open>Plans\<close>

definition goal_js :: "serialized_goal \<Rightarrow> jsval" where
  "goal_js g = JObj ([(''raw'', JStr (sg_raw g)), (''description'', JStr (sg_description g)),
     (''objectives'', strings_js (sg_objectives g))] @ opt_member ''successCriteria'' JStr (sg_successCriteria g))"

definition step_js :: "serialized_step \<Rightarrow> jsval" where
  "step_js s = JObj ([(''id'', JStr (ss_id s)), (''title'', JStr (ss_title s)), (''description'', JStr (ss_description s))]
     @ opt_member ''tool'' JStr (ss_tool s) @ opt_member ''arguments'' JObj (ss_arguments s)
     @ [(''dependsOn'', strings_js (ss_dependsOn s)), (''expectedResult'', JStr (ss_expectedResult s)),
        (''status'', JStr (ss_status s))] @ opt_member ''metadata'' JObj (ss_metadata s))"

definition dependency_js :: "serialized_dependency \<Rightarrow> jsval" where
  "dependency_js d = JObj [(''from'', JStr (sd_from d)), (''to'', JStr (sd_to d))]"

definition constraint_js :: "serialized_constraint \<Rightarrow> jsval" where
  "constraint_js c = JObj ([(''id'', JStr (sc_id c)), (''description'', JStr (sc_description c)),
     (''type'', JStr (sc_type c))] @ opt_member ''value'' JStr (sc_value c))"

definition plan_js :: "serialized_plan \<Rightarrow> jsval" where
  "plan_js p = JObj [(''id'', JStr (sp_id p)), (''goal'', goal_js (sp_goal p)), (''strategy'', JStr (sp_strategy p)),
     (''steps'', JArr (map step_js (sp_steps p))), (''dependencies'', JArr (map dependency_js (sp_dependencies p))),
     (''requiredTools'', strings_js (sp_requiredTools p)), (''expectedOutputs'', strings_js (sp_expectedOutputs p)),
     (''complexity'', JStr (sp_complexity p)), (''risk'', JStr (sp_risk p)),
     (''constraints'', JArr (map constraint_js (sp_constraints p))), (''status'', JStr (sp_status p)),
     (''planningDurationMs'', int_js (sp_planningDurationMs p)), (''reasoningSummary'', JStr (sp_reasoningSummary p))]"

definition planToJSON :: "plan_result \<Rightarrow> string option" where
  "planToJSON p = stringify indented (plan_js (serializePlan p))"

text \<open>Reading the members back.\<close>

definition read_str :: "string \<Rightarrow> (string, jsval) jmap \<Rightarrow> string option" where
  "read_str k ms = (case js_get ms k of JStr s \<Rightarrow> Some s | _ \<Rightarrow> None)"

definition read_int :: "string \<Rightarrow> (string, jsval) jmap \<Rightarrow> int option" where
  "read_int k ms = (case js_get ms k of JNum q \<Rightarrow> if of_int \<lfloor>q\<rfloor> = q then Some \<lfloor>q\<rfloor> else None | _ \<Rightarrow> None)"

definition read_opt :: "(jsval \<Rightarrow> 'a option) \<Rightarrow> string \<Rightarrow> (string, jsval) jmap \<Rightarrow> 'a option option" where
  "read_opt f k ms = (if js_get ms k = JUndefined then Some None else map_option Some (f (js_get ms k)))"

definition as_str :: "jsval \<Rightarrow> string option" where
  "as_str v = (case v of JStr s \<Rightarrow> Some s | _ \<Rightarrow> None)"

definition as_obj :: "jsval \<Rightarrow> (string, jsval) jmap option" where
  "as_obj v = (case v of JObj ms \<Rightarrow> Some ms | _ \<Rightarrow> None)"

definition read_list :: "(jsval \<Rightarrow> 'a option) \<Rightarrow> string \<Rightarrow> (string, jsval) jmap \<Rightarrow> 'a list option" where
  "read_list f k ms = (case js_get ms k of JArr vs \<Rightarrow> all_some (map f vs) | _ \<Rightarrow> None)"

definition read_goal :: "jsval \<Rightarrow> serialized_goal option" where
  "read_goal v = Option.bind (as_obj v) (\<lambda>ms. Option.bind (read_str ''raw'' ms) (\<lambda>raw.
     Option.bind (read_str ''description'' ms) (\<lambda>description. Option.bind (read_list as_str ''objectives'' ms) (\<lambda>objectives.
     Option.bind (read_opt as_str ''successCriteria'' ms) (\<lambda>criteria.
       Some \<lparr>sg_raw = raw, sg_description = description, sg_objectives = objectives, sg_successCriteria = criteria\<rparr>)))))"

definition read_step :: "jsval \<Rightarrow> serialized_step option" where
  "read_step v = Option.bind (as_obj v) (\<lambda>ms. Option.bind (read_str ''id'' ms) (\<lambda>i.
     Option.bind (read_str ''title'' ms) (\<lambda>title. Option.bind (read_str ''description'' ms) (\<lambda>description.
     Option.bind (read_opt as_str ''tool'' ms) (\<lambda>tool. Option.bind (read_opt as_obj ''arguments'' ms) (\<lambda>args.
     Option.bind (read_list as_str ''dependsOn'' ms) (\<lambda>deps. Option.bind (read_str ''expectedResult'' ms) (\<lambda>expected.
     Option.bind (read_str ''status'' ms) (\<lambda>st. Option.bind (read_opt as_obj ''metadata'' ms) (\<lambda>metadata.
       Some \<lparr>ss_id = i, ss_title = title, ss_description = description, ss_tool = tool, ss_arguments = args,
         ss_dependsOn = deps, ss_expectedResult = expected, ss_status = st, ss_metadata = metadata\<rparr>))))))))))"

definition read_dependency :: "jsval \<Rightarrow> serialized_dependency option" where
  "read_dependency v = Option.bind (as_obj v) (\<lambda>ms. Option.bind (read_str ''from'' ms) (\<lambda>f.
     Option.bind (read_str ''to'' ms) (\<lambda>t. Some \<lparr>sd_from = f, sd_to = t\<rparr>)))"

definition read_constraint :: "jsval \<Rightarrow> serialized_constraint option" where
  "read_constraint v = Option.bind (as_obj v) (\<lambda>ms. Option.bind (read_str ''id'' ms) (\<lambda>i.
     Option.bind (read_str ''description'' ms) (\<lambda>description. Option.bind (read_str ''type'' ms) (\<lambda>t.
     Option.bind (read_opt as_str ''value'' ms) (\<lambda>val.
       Some \<lparr>sc_id = i, sc_description = description, sc_type = t, sc_value = val\<rparr>)))))"

definition read_plan :: "jsval \<Rightarrow> serialized_plan option" where
  "read_plan v = Option.bind (as_obj v) (\<lambda>ms. Option.bind (read_str ''id'' ms) (\<lambda>i.
     Option.bind (read_goal (js_get ms ''goal'')) (\<lambda>goal. Option.bind (read_str ''strategy'' ms) (\<lambda>strategy.
     Option.bind (read_list read_step ''steps'' ms) (\<lambda>steps.
     Option.bind (read_list read_dependency ''dependencies'' ms) (\<lambda>deps.
     Option.bind (read_list as_str ''requiredTools'' ms) (\<lambda>tools.
     Option.bind (read_list as_str ''expectedOutputs'' ms) (\<lambda>outputs.
     Option.bind (read_str ''complexity'' ms) (\<lambda>complexity. Option.bind (read_str ''risk'' ms) (\<lambda>risk.
     Option.bind (read_list read_constraint ''constraints'' ms) (\<lambda>constraints.
     Option.bind (read_str ''status'' ms) (\<lambda>st. Option.bind (read_int ''planningDurationMs'' ms) (\<lambda>dur.
     Option.bind (read_str ''reasoningSummary'' ms) (\<lambda>summary.
       Some \<lparr>sp_id = i, sp_goal = goal, sp_strategy = strategy, sp_steps = steps, sp_dependencies = deps,
         sp_requiredTools = tools, sp_expectedOutputs = outputs, sp_complexity = complexity, sp_risk = risk,
         sp_constraints = constraints, sp_status = st, sp_planningDurationMs = dur,
         sp_reasoningSummary = summary\<rparr>))))))))))))))"

definition planFromJSON :: "string \<Rightarrow> plan_result option" where
  "planFromJSON json = Option.bind (json_parse json) (\<lambda>v. Option.bind (read_plan v) deserializePlan)"

subsection \<open>Executions\<close>

record serialized_execution =
  sx_version :: int
  sx_ids :: execution_ids
  sx_goal :: string
  sx_status :: string
  sx_stepResults :: "execution_step_result list"
  sx_statistics :: execution_statistics
  sx_startedAt :: instant
  sx_updatedAt :: instant

definition CURRENT_VERSION :: int where
  "CURRENT_VERSION = 1"

text \<open>A serialized step result has the members of the result; one that is \<open>undefined\<close> is left out.\<close>

definition serializeStepResult :: "execution_step_result \<Rightarrow> execution_step_result" where
  "serializeStepResult r = \<lparr>sr_stepId = sr_stepId r, sr_success = sr_success r,
     sr_data = (if sr_data r = Some JUndefined then None else sr_data r), sr_error = sr_error r,
     sr_errorCode = sr_errorCode r, sr_durationMs = sr_durationMs r, sr_retryAttempts = sr_retryAttempts r,
     sr_completedAt = sr_completedAt r\<rparr>"

definition deserializeStepResult :: "execution_step_result \<Rightarrow> execution_step_result" where
  "deserializeStepResult r = serializeStepResult r"

definition serialized_checkpoint :: "instant \<Rightarrow> execution_checkpoint \<Rightarrow> serialized_execution" where
  "serialized_checkpoint now c = \<lparr>sx_version = CURRENT_VERSION, sx_ids = ck_ids c, sx_goal = [],
     sx_status = status_str (ck_status c), sx_stepResults = map serializeStepResult (ck_stepResults c),
     sx_statistics = ck_statistics c, sx_startedAt = ck_timestamp c, sx_updatedAt = now\<rparr>"

definition ids_js :: "execution_ids \<Rightarrow> jsval" where
  "ids_js i = JObj ([(''executionId'', JStr (executionId i)), (''goalId'', JStr (goalId i)), (''planId'', JStr (planId i)),
     (''sessionId'', JStr (sessionId i))] @ opt_member ''parentExecutionId'' JStr (parentExecutionId i)
     @ [(''correlationId'', JStr (correlationId i))])"

definition step_result_js :: "(instant \<Rightarrow> string) \<Rightarrow> execution_step_result \<Rightarrow> jsval" where
  "step_result_js date_text r = JObj ([(''stepId'', JStr (sr_stepId r)), (''success'', JBool (sr_success r))]
     @ opt_member ''data'' id (sr_data r) @ opt_member ''error'' JStr (sr_error r)
     @ opt_member ''errorCode'' JStr (sr_errorCode r)
     @ [(''durationMs'', int_js (sr_durationMs r)), (''retryAttempts'', int_js (int (sr_retryAttempts r))),
        (''completedAt'', JStr (date_text (sr_completedAt r)))])"

definition statistics_js :: "execution_statistics \<Rightarrow> jsval" where
  "statistics_js s = JObj [(''stepsCompleted'', int_js (int (st_stepsCompleted s))),
     (''stepsFailed'', int_js (int (st_stepsFailed s))), (''stepsSkipped'', int_js (int (st_stepsSkipped s))),
     (''retryAttempts'', int_js (int (st_retryAttempts s))), (''durationMs'', int_js (st_durationMs s)),
     (''stepDurations'', JObj (map (\<lambda>(k, d). (k, int_js d)) (st_stepDurations s)))]"

definition execution_js :: "(instant \<Rightarrow> string) \<Rightarrow> serialized_execution \<Rightarrow> jsval" where
  "execution_js date_text x = JObj [(''version'', int_js (sx_version x)), (''ids'', ids_js (sx_ids x)),
     (''goal'', JStr (sx_goal x)), (''status'', JStr (sx_status x)),
     (''stepResults'', JArr (map (step_result_js date_text) (sx_stepResults x))),
     (''statistics'', statistics_js (sx_statistics x)), (''startedAt'', JStr (date_text (sx_startedAt x))),
     (''updatedAt'', JStr (date_text (sx_updatedAt x)))]"

definition serializeCheckpoint :: "(instant \<Rightarrow> string) \<Rightarrow> instant \<Rightarrow> execution_checkpoint \<Rightarrow> string option" where
  "serializeCheckpoint date_text now c = stringify indented (execution_js date_text (serialized_checkpoint now c))"

text \<open>A member of any value; a value in a template string.\<close>

definition js_member :: "jsval \<Rightarrow> string \<Rightarrow> string + jsval" where
  "js_member v k = (case v of
     JNull \<Rightarrow> Inl (''Cannot read properties of null (reading '' @ [CHR 0x27] @ k @ [CHR 0x27] @ '')'')
   | JUndefined \<Rightarrow> Inl (''Cannot read properties of undefined (reading '' @ [CHR 0x27] @ k @ [CHR 0x27] @ '')'')
   | JObj ms \<Rightarrow> Inr (js_get ms k)
   | _ \<Rightarrow> Inr JUndefined)"

fun template_str :: "jsval \<Rightarrow> string" where
  "template_str JUndefined = ''undefined''"
| "template_str JNull = ''null''"
| "template_str (JBool b) = (if b then ''true'' else ''false'')"
| "template_str JNaN = ''NaN''"
| "template_str (JNum q) = number_text q"
| "template_str (JStr s) = s"
| "template_str JFun = ''function''"
| "template_str (JArr vs) = join '','' (map (\<lambda>v. if v = JNull \<or> v = JUndefined then [] else template_str v) vs)"
| "template_str (JObj ms) = ''[object Object]''"

definition deserializeExecution :: "(string \<Rightarrow> string) \<Rightarrow> string \<Rightarrow> string + jsval" where
  "deserializeExecution syntax_error json = (case json_parse json of
     None \<Rightarrow> Inl (syntax_error json)
   | Some parsed \<Rightarrow> (case js_member parsed ''version'' of
       Inl e \<Rightarrow> Inl e
     | Inr version \<Rightarrow>
         if \<not> strict_equal version (int_js CURRENT_VERSION)
         then Inl (''Unsupported serialized version: '' @ template_str version) else Inr parsed))"

fun falsy :: "jsval \<Rightarrow> bool" where
  "falsy JUndefined = True"
| "falsy JNull = True"
| "falsy JNaN = True"
| "falsy (JBool b) = (\<not> b)"
| "falsy (JNum q) = (q = 0)"
| "falsy (JStr s) = (s = [])"
| "falsy _ = False"

definition validateSerialized :: "(string \<Rightarrow> string) \<Rightarrow> string \<Rightarrow> string + unit" where
  "validateSerialized syntax_error json = (case json_parse json of
     None \<Rightarrow> Inl (syntax_error json)
   | Some parsed \<Rightarrow> (case js_member parsed ''version'' of
       Inl e \<Rightarrow> Inl e
     | Inr version \<Rightarrow>
         if \<not> strict_equal version (int_js CURRENT_VERSION) then Inl (''Unsupported version: '' @ template_str version)
         else (case js_member parsed ''ids'' of
             Inl e \<Rightarrow> Inl e
           | Inr ids \<Rightarrow>
               (case (if ids = JNull \<or> ids = JUndefined then Inr JUndefined else js_member ids ''executionId'') of
                  Inl e \<Rightarrow> Inl e
                | Inr i \<Rightarrow> if falsy i then Inl ''Missing executionId'' else Inr ()))))"

subsection \<open>Round trips\<close>

lemma json_clean_ready: "json_ready v \<Longrightarrow> json_clean v = v"
proof (induction v)
  case (JObj ms)
  have "filter (\<lambda>(k, v). v \<noteq> JUndefined \<and> v \<noteq> JFun) ms = ms"
    using JObj.prems by (intro filter_True) (auto simp: list_all_iff)
  moreover have "map (\<lambda>(k, v). (k, json_clean v)) ms = ms"
    using JObj by (intro map_idI) (fastforce simp: list_all_iff)
  ultimately show ?case by simp
qed (auto simp: list_all_iff intro!: map_idI)

lemma js_get_append_opt:
  "js_get (xs @ opt_member k f v @ ys) k' =
     (if jm_get xs k' \<noteq> None then js_get xs k'
      else if k' = k \<and> v \<noteq> None then f (the v) else js_get ys k')"
  by (cases v) (auto simp: js_get_def opt_member_def map_add_def split: option.split)

lemma js_get_other: "k' \<noteq> k \<Longrightarrow> js_get ((k, v) # ms) k' = js_get ms k'"
  by (simp add: js_get_def)

lemma js_get_here: "js_get ((k, v) # ms) k = v"
  by (simp add: js_get_def)

lemma js_get_nil: "k \<noteq> ''__proto__'' \<Longrightarrow> k \<notin> set prototype_functions \<Longrightarrow> js_get [] k = JUndefined"
  by (simp add: js_get_def)

lemmas js_reads = js_get_append_opt js_get_other js_get_here read_str_def read_opt_def read_list_def as_str_def as_obj_def
  read_int_def strings_js_def int_js_def

lemma all_some_comp: "(\<And>x. f (g x) = Some x) \<Longrightarrow> all_some (map (f \<circ> g) xs) = Some xs"
  by (induction xs) simp_all

lemma strings_read: "all_some (map (as_str \<circ> JStr) xs) = Some xs"
  by (rule all_some_comp) (simp add: as_str_def)

lemma read_goal_js: "read_goal (goal_js g) = Some g"
  by (cases "sg_successCriteria g")
    (simp_all add: goal_js_def read_goal_def js_reads strings_read opt_member_def js_get_nil
      prototype_functions_def)

lemma read_step_js: "read_step (step_js s) = Some s"
  by (cases "ss_tool s"; cases "ss_arguments s"; cases "ss_metadata s")
    (simp_all add: step_js_def read_step_def js_reads strings_read opt_member_def js_get_nil
      prototype_functions_def)

lemma read_dependency_js: "read_dependency (dependency_js d) = Some d"
  by (simp add: dependency_js_def read_dependency_def js_reads)

lemma read_constraint_js: "read_constraint (constraint_js c) = Some c"
  by (cases "sc_value c")
    (simp_all add: constraint_js_def read_constraint_def js_reads opt_member_def js_get_nil prototype_functions_def)

lemma read_plan_js: "read_plan (plan_js p) = Some p"
proof -
  have l: "all_some (map (read_step \<circ> step_js) xs) = Some xs" "all_some (map (read_dependency \<circ> dependency_js) ys) = Some ys"
      "all_some (map (read_constraint \<circ> constraint_js) zs) = Some zs" for xs ys zs
    by (simp_all add: all_some_comp read_step_js read_dependency_js read_constraint_js)
  show ?thesis
    by (simp add: plan_js_def read_plan_def js_get_other js_get_here read_str_def read_list_def as_obj_def read_int_def
        strings_js_def int_js_def strings_read l read_goal_js)
qed

definition json_object :: "(string, jsval) jmap option \<Rightarrow> bool" where
  "json_object ms \<longleftrightarrow> json_ready (JObj (override [] ms))"

definition safe_int :: "int \<Rightarrow> bool" where
  "safe_int i \<longleftrightarrow> \<bar>i\<bar> < 10 ^ 21"

definition plan_is_json :: "plan_result \<Rightarrow> bool" where
  "plan_is_json p \<longleftrightarrow> safe_int (pr_planningDurationMs p) \<and>
     list_all (\<lambda>s. json_object (ps_arguments s) \<and> json_object (ps_metadata s)) (pr_steps p)"

lemma plain_int: "plain_number (of_int i) \<longleftrightarrow> safe_int i"
proof -
  have "decimal_places 17 (of_int i)" by (rule decimal_placesI [of _ _ "i * 10 ^ 17"]) simp
  moreover have "\<bar>of_int i\<bar> < (10 :: rat) ^ 21 \<longleftrightarrow> \<bar>i\<bar> < 10 ^ 21"
    using of_int_less_iff [of "\<bar>i\<bar>" "10 ^ 21", where 'a = rat] by simp
  ultimately show ?thesis by (simp add: plain_number_def safe_int_def)
qed

lemma ready_strings: "json_ready (strings_js xs)"
  by (simp add: strings_js_def list_all_iff)

lemma ready_step: "json_object (ps_arguments s) \<Longrightarrow> json_object (ps_metadata s) \<Longrightarrow> json_ready (step_js (serializeStep s))"
  by (cases "ps_tool s"; cases "ps_arguments s"; cases "ps_metadata s")
    (simp_all add: step_js_def serializeStep_def opt_member_def json_object_def ready_strings)

lemma ready_plan: "plan_is_json p \<Longrightarrow> json_ready (plan_js (serializePlan p))"
proof -
  assume p: "plan_is_json p"
  have "json_ready (goal_js g)" for g
    by (cases "sg_successCriteria g") (simp_all add: goal_js_def opt_member_def ready_strings)
  moreover have "json_ready (constraint_js c)" for c
    by (cases "sc_value c") (simp_all add: constraint_js_def opt_member_def)
  moreover have "json_ready (dependency_js d)" for d by (simp add: dependency_js_def)
  ultimately show ?thesis
    using p by (auto simp: plan_js_def serializePlan_def plan_is_json_def ready_strings list_all_iff int_js_def plain_int
        intro!: ready_step)
qed

lemma stringify_ready:
  "json_ready v \<Longrightarrow> Option.bind (stringify indented v) json_parse = Some v"
  using json_parse_print [OF _ layouts_ok(2), of v] json_clean_ready [of v] by (auto simp: stringify_def)

text \<open>
  C10: A plan whose arguments and metadata are data of JSON survives the trip through its text:
  parsing what \<open>planToJSON\<close> printed gives the plan back with every member.
\<close>

theorem plan_json_round_trip:
  assumes "plan_is_json p"
  shows "Option.bind (planToJSON p) planFromJSON = Some p"
proof -
  from stringify_ready [OF ready_plan [OF assms]] obtain t where
    "planToJSON p = Some t" "json_parse t = Some (plan_js (serializePlan p))"
    by (auto simp: planToJSON_def bind_eq_Some_conv)
  then show ?thesis by (simp add: planFromJSON_def read_plan_js deserialize_serialize_plan)
qed

lemma plan_json_round_trip_witness:
  "Option.bind (planToJSON (sample_plan [sample_step ''a''])) planFromJSON = Some (sample_plan [sample_step ''a''])"
  by (rule plan_json_round_trip)
    (simp add: plan_is_json_def sample_plan_def sample_step_def json_object_def safe_int_def)

subsection \<open>Executions\<close>

definition checkpoint_is_json :: "execution_checkpoint \<Rightarrow> bool" where
  "checkpoint_is_json c \<longleftrightarrow>
     list_all (\<lambda>r. (case sr_data r of None \<Rightarrow> True | Some d \<Rightarrow> d = JUndefined \<or> json_ready d)
         \<and> safe_int (sr_durationMs r) \<and> safe_int (int (sr_retryAttempts r))) (ck_stepResults c) \<and>
     (let s = ck_statistics c in distinct (map fst (st_stepDurations s)) \<and>
        list_all (\<lambda>(k, d). safe_int d) (st_stepDurations s) \<and> safe_int (st_durationMs s) \<and>
        safe_int (int (st_stepsCompleted s)) \<and> safe_int (int (st_stepsFailed s)) \<and>
        safe_int (int (st_stepsSkipped s)) \<and> safe_int (int (st_retryAttempts s)))"

lemma ready_int: "json_ready (int_js i) \<longleftrightarrow> safe_int i"
  by (simp add: int_js_def plain_int)

lemma ready_execution:
  assumes "checkpoint_is_json c"
  shows "json_ready (execution_js date_text (serialized_checkpoint now c))"
proof -
  have "json_ready (ids_js i)" for i by (cases "parentExecutionId i") (simp_all add: ids_js_def opt_member_def)
  moreover have "json_ready (statistics_js (ck_statistics c))"
    using assms by (auto simp: statistics_js_def checkpoint_is_json_def Let_def ready_int list_all_iff comp_def split_beta)
  moreover have "json_ready (step_result_js date_text (serializeStepResult r))" if "r \<in> set (ck_stepResults c)" for r
    using that assms
    by (cases "sr_data r"; cases "sr_error r"; cases "sr_errorCode r")
      (auto simp: checkpoint_is_json_def list_all_iff step_result_js_def serializeStepResult_def opt_member_def ready_int)
  moreover have "safe_int CURRENT_VERSION" by (simp add: safe_int_def CURRENT_VERSION_def)
  ultimately show ?thesis by (auto simp: execution_js_def serialized_checkpoint_def ready_int list_all_iff)
qed

text \<open>
  The text of a checkpoint holding data of JSON deserializes to the serialized execution, and
  the text is valid exactly when the execution has an identifier.
\<close>

theorem checkpoint_json_round_trip:
  assumes "checkpoint_is_json c"
  shows "\<exists>t. serializeCheckpoint date_text now c = Some t
    \<and> deserializeExecution syntax_error t = Inr (execution_js date_text (serialized_checkpoint now c))
    \<and> validateSerialized syntax_error t = (if executionId (ck_ids c) = [] then Inl ''Missing executionId'' else Inr ())"
proof -
  let ?v = "execution_js date_text (serialized_checkpoint now c)"
  from stringify_ready [OF ready_execution [OF assms]] obtain t where
    t: "serializeCheckpoint date_text now c = Some t" "json_parse t = Some ?v"
    by (auto simp: serializeCheckpoint_def bind_eq_Some_conv)
  have m: "js_member ?v ''version'' = Inr (int_js CURRENT_VERSION)" "js_member ?v ''ids'' = Inr (ids_js (ck_ids c))"
    "js_member (ids_js (ck_ids c)) ''executionId'' = Inr (JStr (executionId (ck_ids c)))"
    by (simp_all add: js_member_def execution_js_def serialized_checkpoint_def ids_js_def js_get_here js_get_other)
  have i: "ids_js (ck_ids c) \<noteq> JNull" "ids_js (ck_ids c) \<noteq> JUndefined" "strict_equal (int_js i) (int_js i)" for i
    by (simp_all add: ids_js_def int_js_def)
  show ?thesis using t m i by (simp add: deserializeExecution_def validateSerialized_def)
qed

text \<open>
  The text of a checkpoint does not tell where the execution stood: neither the identifier of the
  checkpoint nor the current, completed and remaining steps are written.
\<close>

lemma checkpoint_text_loses_position:
  "serializeCheckpoint date_text now (c\<lparr>ck_id := i, ck_currentStepId := cur, ck_completedStepIds := completed,
     ck_remainingStepIds := remaining\<rparr>) = serializeCheckpoint date_text now c"
  by (simp add: serializeCheckpoint_def serialized_checkpoint_def)

lemma step_results_round_trip: "sr_data r \<noteq> Some JUndefined \<Longrightarrow> deserializeStepResult (serializeStepResult r) = r"
  by (simp add: deserializeStepResult_def serializeStepResult_def)

end
