(* ===== verification/LlmProviders.thy ===== *)
theory LlmProviders
  imports LlmTypes Serializers "HOL-Library.Word"
begin

text \<open>
  The providers of packages/llm/src/providers, the registry of registry/LLMRegistry.ts and the
  factory of factory/LlmProviderFactory.ts. The client of the vendor is a function of the
  parameters of a call; generated identifiers are arguments; waiting, spans and log lines are left
  out. The generator of vectors computes with 32-bit words, where a product is first rounded to a
  double.
\<close>

subsection \<open>The vendor's side of the OpenAI provider\<close>

record sdk_tool_call =
  sk_id :: string
  sk_name :: string
  sk_arguments :: string

record sdk_choice =
  so_content :: "string option"
  so_toolCalls :: "sdk_tool_call list option"
  so_finish :: "string option"

record sdk_usage =
  su_prompt :: nat
  su_completion :: nat

record sdk_response =
  kn_id :: "string option"
  kn_model :: "string option"
  kn_choices :: "sdk_choice list"
  kn_usage :: "sdk_usage option"

text \<open>Deltas of a streamed choice: a tool call is told apart by its index.\<close>

record sdk_call_delta =
  kd_index :: nat
  kd_id :: "string option"
  kd_name :: "string option"
  kd_arguments :: "string option"

record sdk_delta =
  de_role :: "role option"
  de_content :: "string option"
  de_toolCalls :: "sdk_call_delta list option"
  de_finish :: "string option"

record sdk_chunk =
  kc_id :: "string option"
  kc_model :: "string option"
  kc_choices :: "sdk_delta list"
  kc_usage :: "sdk_usage option"

record sdk_embeddings =
  ke_model :: string
  ke_data :: "(nat \<times> rat list) list"
  ke_usage :: "(nat \<times> nat) option"

record sdk_client =
  cl_create :: "jsval \<Rightarrow> thrown + sdk_response"
  cl_stream :: "jsval \<Rightarrow> thrown + sdk_chunk stream_of"
  cl_embed :: "jsval \<Rightarrow> thrown + sdk_embeddings"
  cl_models :: "thrown + unit"

subsection \<open>The OpenAI provider\<close>

record openai_config =
  oc_apiKey :: string
  oc_baseUrl :: "string option"
  oc_organization :: "string option"
  oc_defaultModel :: "string option"
  oc_timeoutMs :: "nat option"

definition catalogue_entry :: "string \<Rightarrow> string \<Rightarrow> nat \<Rightarrow> nat \<Rightarrow> bool \<Rightarrow> model_info" where
  "catalogue_entry i display window output flags = \<lparr>mi_id = i, mi_providerId = ''openai'',
     mi_displayName = Some display, mi_contextWindow = Some window, mi_maxOutputTokens = Some output,
     mi_supportsTools = Some flags, mi_supportsVision = Some flags, mi_supportsStreaming = Some flags\<rparr>"

definition OPENAI_CATALOGUE :: "model_info list" where
  "OPENAI_CATALOGUE =
     [catalogue_entry ''gpt-4o'' ''GPT-4o'' 128000 16384 True,
      catalogue_entry ''gpt-4o-mini'' ''GPT-4o Mini'' 128000 16384 True,
      catalogue_entry ''gpt-4-turbo'' ''GPT-4 Turbo'' 128000 4096 True,
      catalogue_entry ''text-embedding-3-small'' ''Text Embedding 3 Small'' 8191 0 False,
      catalogue_entry ''text-embedding-3-large'' ''Text Embedding 3 Large'' 8191 0 False]"

definition sdk_call :: "llm_tool_call \<Rightarrow> jsval" where
  "sdk_call tc = JObj [(''id'', JStr (ltc_id tc)), (''type'', JStr ''function''),
     (''function'', JObj [(''name'', JStr (ltc_name tc)), (''arguments'', JStr (ltc_arguments tc))])]"

definition to_sdk :: "chat_message \<Rightarrow> jsval" where
  "to_sdk m = (let content = (''content'', JStr (cm_content m)) in case cm_role m of
     System \<Rightarrow> JObj [(''role'', JStr ''system''), content]
   | User \<Rightarrow> JObj [(''role'', JStr ''user''), content]
   | Assistant \<Rightarrow> (case cm_toolCalls m of
       None \<Rightarrow> JObj [(''role'', JStr ''assistant''), content]
     | Some tcs \<Rightarrow> JObj [(''role'', JStr ''assistant''), content, (''tool_calls'', JArr (map sdk_call tcs))])
   | Tool \<Rightarrow> JObj [(''role'', JStr ''tool''), content, (''tool_call_id'', JStr (override [] (cm_toolCallId m)))]
   | Developer \<Rightarrow> JObj [(''role'', JStr ''user''), content])"

definition toSDKMessage :: "chat_message list \<Rightarrow> jsval" where
  "toSDKMessage messages = JArr (map to_sdk messages)"

definition toSDKTools :: "llm_tool_definition list option \<Rightarrow> jsval" where
  "toSDKTools tools = JArr (map (\<lambda>t. JObj [(''type'', JStr ''function''),
     (''function'', JObj ([(''name'', JStr (ltd_name t))]
        @ (case ltd_description t of Some (c # cs) \<Rightarrow> [(''description'', JStr (c # cs))] | _ \<Rightarrow> [])
        @ (case ltd_parameters t of Some ps \<Rightarrow> [(''parameters'', JObj ps)] | None \<Rightarrow> [])))]) (override [] tools))"

definition fromSDKToolCalls :: "sdk_tool_call list option \<Rightarrow> llm_tool_call list option" where
  "fromSDKToolCalls sdk = (case sdk of
     None \<Rightarrow> None
   | Some tcs \<Rightarrow> nonempty (map (\<lambda>tc. \<lparr>ltc_id = sk_id tc, ltc_name = sk_name tc, ltc_arguments = sk_arguments tc\<rparr>) tcs))"

definition fromSDKFinishReason :: "string option \<Rightarrow> finish_reason" where
  "fromSDKFinishReason reason =
     (if reason = Some ''stop'' then F_stop else if reason = Some ''length'' then F_length
      else if reason \<in> {Some ''tool_calls'', Some ''function_call''} then F_tool_calls
      else if reason = Some ''content_filter'' then F_content_filter else F_stop)"

definition fromSDKUsage :: "sdk_usage option \<Rightarrow> token_usage" where
  "fromSDKUsage usage = (case usage of
     None \<Rightarrow> ZERO_USAGE
   | Some u \<Rightarrow> makeTokenUsage (su_prompt u) (su_completion u))"

definition tool_choice_js :: "tool_choice \<Rightarrow> jsval" where
  "tool_choice_js c = (case c of
     Choice_auto \<Rightarrow> JStr ''auto'' | Choice_none \<Rightarrow> JStr ''none'' | Choice_required \<Rightarrow> JStr ''required''
   | Choice_named n \<Rightarrow> JObj [(''type'', JStr ''function''), (''function'', JObj [(''name'', JStr n)])])"

definition nat_js :: "nat \<Rightarrow> jsval" where
  "nat_js n = JNum (of_nat n)"

definition buildChatParams :: "chat_request \<Rightarrow> string \<Rightarrow> bool \<Rightarrow> jsval" where
  "buildChatParams request model stream = JObj
     ([(''model'', JStr model), (''messages'', toSDKMessage (cq_messages request)), (''stream'', JBool stream)]
      @ opt_member ''temperature'' JNum (cq_temperature request) @ opt_member ''max_tokens'' nat_js (cq_maxTokens request)
      @ opt_member ''top_p'' JNum (cq_topP request)
      @ opt_member ''tools'' (\<lambda>ts. toSDKTools (Some ts)) (cq_tools request)
      @ opt_member ''tool_choice'' tool_choice_js (cq_toolChoice request)
      @ (if cq_json request then [(''response_format'', JObj [(''type'', JStr ''json_object'')])] else [])
      @ opt_member ''stop'' strings_js (cq_stop request) @ opt_member ''user'' JStr (cq_user request))"

record openai_provider =
  op_defaultModel :: string
  op_timeoutMs :: nat
  op_client :: sdk_client

definition openai_id :: string where
  "openai_id = ''openai''"

definition openai_capabilities :: provider_capabilities where
  "openai_capabilities = \<lparr>cap_chat = True, cap_streaming = True, cap_embeddings = True, cap_toolCalling = True,
     cap_vision = True, cap_jsonMode = True\<rparr>"

text \<open>\<open>make_client\<close> is the constructor of the vendor's client, over the key, the options and the timeout.\<close>

definition new_openai :: "(openai_config \<Rightarrow> sdk_client) \<Rightarrow> openai_config \<Rightarrow> llm_error + openai_provider" where
  "new_openai make_client cfg =
     (if oc_apiKey cfg = [] then Inl (AuthenticationFailed openai_id ''API key is required.'' None)
      else Inr \<lparr>op_defaultModel = override ''gpt-4o'' (oc_defaultModel cfg),
        op_timeoutMs = override 30000 (oc_timeoutMs cfg), op_client = make_client cfg\<rparr>)"

definition openai_health :: "(thrown \<Rightarrow> string) \<Rightarrow> instant \<Rightarrow> instant \<Rightarrow> openai_provider \<Rightarrow> llm_health" where
  "openai_health message_of started now p = (case cl_models (op_client p) of
     Inr _ \<Rightarrow> \<lparr>lh_healthy = True, lh_providerId = openai_id, lh_latencyMs = now - started, lh_checkedAt = now, lh_detail = None\<rparr>
   | Inl e \<Rightarrow> \<lparr>lh_healthy = False, lh_providerId = openai_id, lh_latencyMs = now - started, lh_checkedAt = now,
       lh_detail = Some (message_of e)\<rparr>)"

definition openai_runChat :: "(thrown \<Rightarrow> llm_error) \<Rightarrow> string \<Rightarrow> chat_request \<Rightarrow> openai_provider \<Rightarrow> llm_error + chat_response" where
  "openai_runChat mapped uuid request p =
     (let model = or_text (cq_model request) (op_defaultModel p) in
      case cl_create (op_client p) (buildChatParams request model False) of
        Inl e \<Rightarrow> Inl (mapped e)
      | Inr response \<Rightarrow>
          (let choice = (case kn_choices response of [] \<Rightarrow> None | c # _ \<Rightarrow> Some c);
               toolCalls = fromSDKToolCalls (Option.bind choice so_toolCalls)
           in Inr \<lparr>cr_id = override uuid (kn_id response), cr_providerId = openai_id,
                cr_model = override model (kn_model response),
                cr_message = \<lparr>rm_role = Assistant, rm_content = override [] (Option.bind choice so_content), rm_toolCalls = toolCalls\<rparr>,
                cr_finishReason = fromSDKFinishReason (Option.bind choice so_finish),
                cr_usage = fromSDKUsage (kn_usage response), cr_toolCalls = toolCalls\<rparr>))"

definition truthy_text :: "string option \<Rightarrow> string option" where
  "truthy_text t = (if t = Some [] then None else t)"

text \<open>The index of a delta is its place in the array, not the index the vendor gives.\<close>

definition from_deltas :: "sdk_call_delta list \<Rightarrow> tool_call_delta list" where
  "from_deltas ds = map (\<lambda>(i, d). \<lparr>dl_index = i, dl_id = truthy_text (kd_id d), dl_name = truthy_text (kd_name d),
     dl_arguments = truthy_text (kd_arguments d)\<rparr>) (enumerate 0 ds)"

definition from_chunk :: "string \<Rightarrow> string \<Rightarrow> sdk_usage option \<Rightarrow> sdk_delta \<Rightarrow> chat_chunk" where
  "from_chunk i model usage d = \<lparr>ch_id = i, ch_providerId = openai_id, ch_model = model, ch_role = de_role d,
     ch_content = truthy_text (de_content d), ch_toolCalls = map_option from_deltas (de_toolCalls d),
     ch_finishReason = (if de_finish d \<noteq> None \<or> usage \<noteq> None then Some (fromSDKFinishReason (de_finish d)) else None),
     ch_usage = map_option (\<lambda>u. fromSDKUsage (Some u)) usage\<rparr>"

fun stream_chunks :: "string \<Rightarrow> string \<Rightarrow> sdk_chunk list \<Rightarrow> chat_chunk list" where
  "stream_chunks i model [] = []"
| "stream_chunks i model (c # cs) =
     (let i' = override i (kc_id c); model' = override model (kc_model c)
      in case kc_choices c of
           [] \<Rightarrow> stream_chunks i' model' cs
         | d # _ \<Rightarrow> from_chunk i' model' (kc_usage c) d # stream_chunks i' model' cs)"

definition openai_runStream :: "(thrown \<Rightarrow> llm_error) \<Rightarrow> string \<Rightarrow> chat_request \<Rightarrow> openai_provider
    \<Rightarrow> llm_error + chat_chunk stream_of" where
  "openai_runStream mapped uuid request p =
     (let model = or_text (cq_model request) (op_defaultModel p) in
      case cl_stream (op_client p) (buildChatParams request model True) of
        Inl e \<Rightarrow> Inl (mapped e)
      | Inr (chunks, ending) \<Rightarrow> Inr (stream_chunks uuid model chunks, ending))"

definition openai_runEmbeddings :: "(thrown \<Rightarrow> llm_error) \<Rightarrow> string \<Rightarrow> embedding_request \<Rightarrow> openai_provider
    \<Rightarrow> llm_error + embedding_response" where
  "openai_runEmbeddings mapped uuid request p =
     (case cl_embed (op_client p) (JObj [(''model'', JStr (eq_model request)),
         (''input'', (case eq_input request of Inl s \<Rightarrow> JStr s | Inr ss \<Rightarrow> strings_js ss))]) of
        Inl e \<Rightarrow> Inl (mapped e)
      | Inr r \<Rightarrow> Inr \<lparr>ep_id = uuid, ep_providerId = openai_id, ep_model = ke_model r,
          ep_items = map (\<lambda>(i, v). \<lparr>ei_index = i, ei_vector = v\<rparr>) (ke_data r),
          ep_promptTokens = fst (override (0, 0) (ke_usage r)), ep_totalTokens = snd (override (0, 0) (ke_usage r))\<rparr>)"

subsection \<open>The mock provider\<close>

record mock_response =
  mr_content :: "string option"
  mr_finishReason :: "finish_reason option"
  mr_usage :: "token_usage option"
  mr_toolCalls :: "llm_tool_call list option"
  mr_errorAfterChunks :: "int option"
  mr_error :: "(string \<times> string) option"

record mock_options =
  mk_id :: "string option"
  mk_name :: "string option"
  mk_catalogue :: "model_info list option"
  mk_responses :: "mock_response list option"
  mk_unhealthy :: "bool option"
  mk_unhealthyDetail :: "string option"
  mk_defaultModel :: "string option"
  mk_supportsEmbeddings :: "bool option"
  mk_supportsStreaming :: "bool option"
  mk_supportsTools :: "bool option"
  mk_supportsVision :: "bool option"
  mk_supportsJsonMode :: "bool option"

record mock_provider =
  mp_id :: string
  mp_name :: string
  mp_capabilities :: provider_capabilities
  mp_catalogue :: "model_info list"
  mp_responses :: "mock_response list"
  mp_unhealthy :: bool
  mp_unhealthyDetail :: "string option"
  mp_defaultModel :: string

definition defaultCatalogue :: "model_info list" where
  "defaultCatalogue = [\<lparr>mi_id = ''mock-model'', mi_providerId = ''mock'', mi_displayName = Some ''Mock Deterministic'',
     mi_contextWindow = Some 4096, mi_maxOutputTokens = Some 1024, mi_supportsTools = Some False,
     mi_supportsVision = Some False, mi_supportsStreaming = Some True\<rparr>]"

definition new_mock :: "mock_options \<Rightarrow> mock_provider" where
  "new_mock opts = \<lparr>mp_id = override ''mock'' (mk_id opts), mp_name = override ''MockProvider'' (mk_name opts),
     mp_capabilities = \<lparr>cap_chat = True, cap_streaming = override True (mk_supportsStreaming opts),
       cap_embeddings = override True (mk_supportsEmbeddings opts), cap_toolCalling = override False (mk_supportsTools opts),
       cap_vision = override False (mk_supportsVision opts), cap_jsonMode = override False (mk_supportsJsonMode opts)\<rparr>,
     mp_catalogue = override defaultCatalogue (mk_catalogue opts), mp_responses = override [] (mk_responses opts),
     mp_unhealthy = override False (mk_unhealthy opts), mp_unhealthyDetail = mk_unhealthyDetail opts,
     mp_defaultModel = override ''mock-model'' (mk_defaultModel opts)\<rparr>"

definition setResponses :: "mock_response list \<Rightarrow> mock_provider \<Rightarrow> mock_provider" where
  "setResponses rs p = p\<lparr>mp_responses := rs\<rparr>"

text \<open>The number of binary digits, and the rounding of an integer to a double: 53 digits, ties to even.\<close>

function bit_len :: "int \<Rightarrow> nat" where
  "bit_len n = (if n \<le> 0 then 0 else Suc (bit_len (n div 2)))"
  by auto

termination bit_len
  by (relation "measure nat") auto

declare bit_len.simps [simp del]

definition double_round :: "int \<Rightarrow> int" where
  "double_round n = (let e = bit_len \<bar>n\<bar> - 53; m = \<bar>n\<bar>; q = m div 2 ^ e; r = m mod 2 ^ e in
     sgn n * (if 2 * r > 2 ^ e \<or> (2 * r = 2 ^ e \<and> odd q) then q + 1 else q) * 2 ^ e)"

text \<open>\<open>(seed * 31 + c) | 0\<close> is exact before it wraps; \<open>(seed * 1103515245 + 12345) | 0\<close> is not.\<close>

definition hash_text :: "string \<Rightarrow> 32 word" where
  "hash_text input = fold (\<lambda>c seed. seed * 31 + of_char c) input 0"

definition next_seed :: "32 word \<Rightarrow> 32 word" where
  "next_seed seed = word_of_int (double_round (double_round (sint seed * 1103515245) + 12345))"

fun vector_from :: "nat \<Rightarrow> 32 word \<Rightarrow> rat list" where
  "vector_from 0 seed = []"
| "vector_from (Suc n) seed = (let seed' = next_seed seed in
     (of_int (uint seed') / 4294967295 * 2 - 1) # vector_from n seed')"

definition deterministicVector :: "string \<Rightarrow> nat \<Rightarrow> rat list" where
  "deterministicVector input n = vector_from n (hash_text input)"

definition buildUsage :: "token_usage option \<Rightarrow> token_usage" where
  "buildUsage usage = override \<lparr>promptTokens = 1, completionTokens = 1, totalTokens = 2\<rparr> usage"

definition defaultContentFor :: "chat_request \<Rightarrow> string" where
  "defaultContentFor req = (case find (\<lambda>m. cm_role m = User) (rev (cq_messages req)) of
     Some m \<Rightarrow> ''echo: '' @ rev (cm_content m)
   | None \<Rightarrow> ''echo: (no user message)'')"

definition chunkText :: "string \<Rightarrow> string \<Rightarrow> string \<Rightarrow> string \<Rightarrow> chat_chunk list" where
  "chunkText t requestId provider model = map (\<lambda>(i, c). \<lparr>ch_id = requestId, ch_providerId = provider, ch_model = model,
     ch_role = Some Assistant, ch_content = Some [c], ch_toolCalls = None,
     ch_finishReason = (if i = length t - 1 then Some F_stop else None), ch_usage = None\<rparr>) (enumerate 0 t)"

definition nextResponse :: "mock_provider \<Rightarrow> mock_response option \<times> mock_provider" where
  "nextResponse p = (case mp_responses p of
     [] \<Rightarrow> (None, p)
   | r # rs \<Rightarrow> (Some r, p\<lparr>mp_responses := rs\<rparr>))"

definition mock_runChat :: "string \<Rightarrow> chat_request \<Rightarrow> mock_provider \<Rightarrow> chat_response \<times> mock_provider" where
  "mock_runChat uuid request p = (case nextResponse p of (response, p') \<Rightarrow>
     (let toolCalls = Option.bind (Option.bind response mr_toolCalls) nonempty
      in (\<lparr>cr_id = uuid, cr_providerId = mp_id p, cr_model = or_text (cq_model request) (mp_defaultModel p),
            cr_message = \<lparr>rm_role = Assistant, rm_content = override (defaultContentFor request) (Option.bind response mr_content),
              rm_toolCalls = toolCalls\<rparr>,
            cr_finishReason = override F_stop (Option.bind response mr_finishReason),
            cr_usage = buildUsage (Option.bind response mr_usage), cr_toolCalls = toolCalls\<rparr>, p')))"

fun emit :: "int option \<Rightarrow> llm_error \<Rightarrow> nat \<Rightarrow> chat_chunk list \<Rightarrow> chat_chunk \<Rightarrow> chat_chunk stream_of" where
  "emit limit e emitted [] final_chunk = ([final_chunk], None)"
| "emit limit e emitted (c # cs) final_chunk =
     (if (case limit of None \<Rightarrow> False | Some n \<Rightarrow> int (Suc emitted) > n) then ([c], Some (Llm_thrown e))
      else (case emit limit e (Suc emitted) cs final_chunk of (rest, ending) \<Rightarrow> (c # rest, ending)))"

definition mock_runStream :: "string \<Rightarrow> chat_request \<Rightarrow> mock_provider \<Rightarrow> chat_chunk stream_of \<times> mock_provider" where
  "mock_runStream uuid request p = (case nextResponse p of (response, p') \<Rightarrow>
     (let model = or_text (cq_model request) (mp_defaultModel p);
          t = override (defaultContentFor request) (Option.bind response mr_content);
          message = override ''Forced stream error.'' (map_option snd (Option.bind response mr_error))
      in (emit (Option.bind response mr_errorAfterChunks) (ProviderUnavailable (mp_id p) message None) 0
            (chunkText t uuid (mp_id p) model)
            \<lparr>ch_id = uuid, ch_providerId = mp_id p, ch_model = model, ch_role = None, ch_content = None, ch_toolCalls = None,
             ch_finishReason = Some (override F_stop (Option.bind response mr_finishReason)),
             ch_usage = Some (buildUsage (Option.bind response mr_usage))\<rparr>, p')))"

definition mock_stream :: "string \<Rightarrow> chat_request \<Rightarrow> mock_provider \<Rightarrow> (llm_error + chat_chunk stream_of) \<times> mock_provider" where
  "mock_stream uuid request p =
     (if \<not> cap_streaming (mp_capabilities p)
      then (Inl (ProviderUnavailable (mp_id p) ''Streaming is not supported by this MockProvider.'' None), p)
      else apfst Inr (mock_runStream uuid request p))"

definition mock_runEmbeddings :: "string \<Rightarrow> embedding_request \<Rightarrow> mock_provider \<Rightarrow> embedding_response" where
  "mock_runEmbeddings uuid request p =
     (let inputs = (case eq_input request of Inl s \<Rightarrow> [s] | Inr ss \<Rightarrow> ss);
          tokens = sum_list (map (\<lambda>v. max 1 (length v)) inputs)
      in \<lparr>ep_id = uuid, ep_providerId = mp_id p, ep_model = eq_model request,
          ep_items = map (\<lambda>(i, v). \<lparr>ei_index = i, ei_vector = deterministicVector v 16\<rparr>) (enumerate 0 inputs),
          ep_promptTokens = tokens, ep_totalTokens = tokens\<rparr>)"

definition mock_embeddings :: "string \<Rightarrow> embedding_request \<Rightarrow> mock_provider \<Rightarrow> llm_error + embedding_response" where
  "mock_embeddings uuid request p =
     (if \<not> cap_embeddings (mp_capabilities p)
      then Inl (ProviderUnavailable (mp_id p) ''Embeddings are not supported by this MockProvider.'' None)
      else Inr (mock_runEmbeddings uuid request p))"

definition mock_health :: "instant \<Rightarrow> mock_provider \<Rightarrow> llm_health" where
  "mock_health now p =
     (if mp_unhealthy p
      then \<lparr>lh_healthy = False, lh_providerId = mp_id p, lh_latencyMs = 0, lh_checkedAt = now, lh_detail = mp_unhealthyDetail p\<rparr>
      else \<lparr>lh_healthy = True, lh_providerId = mp_id p, lh_latencyMs = 1, lh_checkedAt = now, lh_detail = None\<rparr>)"

subsection \<open>Providers\<close>

datatype llm_provider = Mock_provider mock_provider | Openai_provider openai_provider

fun provider_id :: "llm_provider \<Rightarrow> string" where
  "provider_id (Mock_provider p) = mp_id p"
| "provider_id (Openai_provider p) = openai_id"

fun provider_capabilities_of :: "llm_provider \<Rightarrow> provider_capabilities" where
  "provider_capabilities_of (Mock_provider p) = mp_capabilities p"
| "provider_capabilities_of (Openai_provider p) = openai_capabilities"

fun provider_models :: "llm_provider \<Rightarrow> model_info list" where
  "provider_models (Mock_provider p) = mp_catalogue p"
| "provider_models (Openai_provider p) = OPENAI_CATALOGUE"

definition supportsCapability :: "llm_provider \<Rightarrow> (provider_capabilities \<Rightarrow> bool) \<Rightarrow> bool" where
  "supportsCapability p capability = capability (provider_capabilities_of p)"

subsection \<open>The registry\<close>

record llm_registry =
  lr_store :: "(string, llm_provider) jmap"
  lr_defaultId :: "string option"

definition new_llm_registry :: llm_registry where
  "new_llm_registry = \<lparr>lr_store = [], lr_defaultId = None\<rparr>"

definition llm_register :: "llm_provider \<Rightarrow> llm_registry \<Rightarrow> llm_registry" where
  "llm_register p r = (let r1 = r\<lparr>lr_store := jm_set (provider_id p) p (lr_store r)\<rparr> in
     if lr_defaultId r1 = None then r1\<lparr>lr_defaultId := Some (provider_id p)\<rparr> else r1)"

definition llm_unregister :: "string \<Rightarrow> llm_registry \<Rightarrow> llm_registry" where
  "llm_unregister i r = (let r1 = r\<lparr>lr_store := jm_delete i (lr_store r)\<rparr> in
     if lr_defaultId r1 = Some i
     then r1\<lparr>lr_defaultId := (case jm_keys (lr_store r1) of [] \<Rightarrow> None | k # _ \<Rightarrow> Some k)\<rparr> else r1)"

definition llm_get :: "string \<Rightarrow> llm_registry \<Rightarrow> llm_error + llm_provider" where
  "llm_get i r = (case jm_get (lr_store r) i of
     None \<Rightarrow> Inl (UnknownProvider i (''Provider '' @ [CHR 0x22] @ i @ [CHR 0x22] @ '' is not registered.''))
   | Some p \<Rightarrow> Inr p)"

definition llm_list :: "llm_registry \<Rightarrow> llm_provider list" where
  "llm_list r = jm_values (lr_store r)"

definition llm_setDefault :: "string \<Rightarrow> llm_registry \<Rightarrow> (llm_error + unit) \<times> llm_registry" where
  "llm_setDefault i r =
     (if \<not> jm_has (lr_store r) i
      then (Inl (UnknownProvider i (''Cannot set default: provider '' @ [CHR 0x22] @ i @ [CHR 0x22] @ '' is not registered.'')), r)
      else (Inr (), r\<lparr>lr_defaultId := Some i\<rparr>))"

definition defaultProvider :: "llm_registry \<Rightarrow> llm_error + llm_provider" where
  "defaultProvider r = (case lr_defaultId r of
     None \<Rightarrow> Inl (UnknownProvider ''__none__'' ''No providers registered; cannot resolve default.'')
   | Some i \<Rightarrow> llm_get i r)"

text \<open>The global instance, absent until it is first asked for.\<close>

definition getGlobalRegistry :: "llm_registry option \<Rightarrow> llm_registry \<times> llm_registry option" where
  "getGlobalRegistry g = (let r = override new_llm_registry g in (r, Some r))"

definition resetGlobalRegistry :: "llm_registry option \<Rightarrow> llm_registry option" where
  "resetGlobalRegistry g = None"

subsection \<open>The factory\<close>

type_synonym provider_builder = "llm_config \<Rightarrow> llm_error + llm_provider"

text \<open>The schema makes the model a text and the timeout a whole number.\<close>

definition config_text :: "jsval \<Rightarrow> string" where
  "config_text v = (case v of JStr s \<Rightarrow> s | _ \<Rightarrow> [])"

definition given_text :: "jsval option \<Rightarrow> string option" where
  "given_text v = (case v of Some (JStr (c # cs)) \<Rightarrow> Some (c # cs) | _ \<Rightarrow> None)"

definition config_nat :: "jsval \<Rightarrow> nat" where
  "config_nat v = (case v of JNum q \<Rightarrow> nat \<lfloor>q\<rfloor> | _ \<Rightarrow> 0)"

definition plain_mock_options :: mock_options where
  "plain_mock_options = \<lparr>mk_id = None, mk_name = None, mk_catalogue = None, mk_responses = None, mk_unhealthy = None,
     mk_unhealthyDetail = None, mk_defaultModel = None, mk_supportsEmbeddings = None, mk_supportsStreaming = None,
     mk_supportsTools = None, mk_supportsVision = None, mk_supportsJsonMode = None\<rparr>"

definition mock_builder :: provider_builder where
  "mock_builder c = Inr (Mock_provider (new_mock (plain_mock_options\<lparr>mk_defaultModel := Some (config_text (lc_model c)),
     mk_id := (if given_text (lc_apiKey c) \<noteq> None then Some ''mock'' else None)\<rparr>)))"

definition openai_builder :: "(openai_config \<Rightarrow> sdk_client) \<Rightarrow> provider_builder" where
  "openai_builder make_client c = (case given_text (lc_apiKey c) of
     None \<Rightarrow> Inl (AuthenticationFailed ''openai'' ''OpenAI provider requires an apiKey in configuration.'' None)
   | Some key \<Rightarrow> (case new_openai make_client \<lparr>oc_apiKey = key, oc_baseUrl = given_text (lc_baseUrl c),
         oc_organization = given_text (lc_organization c), oc_defaultModel = Some (config_text (lc_model c)),
         oc_timeoutMs = Some (config_nat (lc_timeoutMs c))\<rparr> of
       Inl e \<Rightarrow> Inl e
     | Inr p \<Rightarrow> Inr (Openai_provider p)))"

type_synonym builders = "(string, provider_builder) jmap"

definition default_builders :: "(openai_config \<Rightarrow> sdk_client) \<Rightarrow> builders" where
  "default_builders make_client = [(''mock'', mock_builder), (''openai'', openai_builder make_client)]"

definition registerBuilder :: "string \<Rightarrow> provider_builder \<Rightarrow> builders \<Rightarrow> builders" where
  "registerBuilder = jm_set"

definition unregisterBuilder :: "string \<Rightarrow> builders \<Rightarrow> builders" where
  "unregisterBuilder = jm_delete"

definition listBuilders :: "builders \<Rightarrow> string list" where
  "listBuilders = jm_keys"

definition no_builder :: "builders \<Rightarrow> string \<Rightarrow> llm_error" where
  "no_builder bs name = UnknownProvider name (''No builder registered for provider '' @ [CHR 0x22] @ name @ [CHR 0x22]
     @ ''. Available: '' @ join '', '' (jm_keys bs))"

definition build_with :: "builders \<Rightarrow> string \<Rightarrow> llm_config \<Rightarrow> llm_error + llm_provider" where
  "build_with bs name c = (case jm_get bs name of
     None \<Rightarrow> Inl (no_builder bs name)
   | Some b \<Rightarrow> b c)"

datatype factory_failure = Config_failure llm_config_failure | Provider_failure llm_error

definition createProvider :: "builders \<Rightarrow> config_provider \<Rightarrow> factory_failure + llm_provider" where
  "createProvider bs p = (case readLLMConfig p of
     Inl e \<Rightarrow> Inl (Config_failure e)
   | Inr c \<Rightarrow> (case build_with bs (config_text (lc_provider c)) c of
       Inl e \<Rightarrow> Inl (Provider_failure e)
     | Inr q \<Rightarrow> Inr q))"

definition createProviderFromEntry :: "builders \<Rightarrow> provider_entry \<Rightarrow> llm_error + llm_provider" where
  "createProviderFromEntry bs e = build_with bs (pe_provider e)
     \<lparr>lc_provider = JStr (pe_provider e), lc_model = JStr (pe_model e), lc_temperature = JNum (2 / 10), lc_maxTokens = None,
      lc_topP = None, lc_timeoutMs = JNum 30000, lc_apiKey = map_option JStr (truthy_text (pe_apiKey e)),
      lc_baseUrl = map_option JStr (truthy_text (pe_baseUrl e)), lc_organization = map_option JStr (truthy_text (pe_organization e)),
      lc_defaultProvider = JStr (pe_provider e), lc_registrations = []\<rparr>"

end
