(* ===== verification/LlmFacts.thy ===== *)
theory LlmFacts
  imports LlmProviders
begin

text \<open>
  What the language model package guarantees: the registry always has a default when it has a
  provider, vendor errors keep their cause and are retryable as their status is, accumulating
  deltas restores the tool calls, the mock provider streams what it answers, and its vectors are
  bounded. And what it does not: the OpenAI provider merges streamed tool calls, and the
  environment alone cannot configure it.
\<close>

subsection \<open>The registry\<close>

datatype registry_op = Register llm_provider | Unregister string | Set_default string

fun registry_apply :: "registry_op \<Rightarrow> llm_registry \<Rightarrow> llm_registry" where
  "registry_apply (Register p) r = llm_register p r"
| "registry_apply (Unregister i) r = llm_unregister i r"
| "registry_apply (Set_default i) r = snd (llm_setDefault i r)"

definition own_ids :: "(string, llm_provider) jmap \<Rightarrow> bool" where
  "own_ids m \<longleftrightarrow> (\<forall>i p. jm_get m i = Some p \<longrightarrow> provider_id p = i)"

definition registry_ok :: "llm_registry \<Rightarrow> bool" where
  "registry_ok r \<longleftrightarrow> wf_jmap (lr_store r) \<and> own_ids (lr_store r) \<and>
     (case lr_defaultId r of None \<Rightarrow> lr_store r = [] | Some i \<Rightarrow> jm_has (lr_store r) i)"

lemma own_ids_set: "own_ids m \<Longrightarrow> own_ids (jm_set (provider_id p) p m)"
  unfolding own_ids_def jm_get_set by auto

lemma own_ids_delete: "own_ids m \<Longrightarrow> own_ids (jm_delete i m)"
  unfolding own_ids_def jm_get_delete by auto

lemma register_ok: "registry_ok r \<Longrightarrow> registry_ok (llm_register p r)"
  by (simp add: registry_ok_def llm_register_def Let_def own_ids_set split: option.splits)

lemma jm_has_first: "jm_keys m = k # ks \<Longrightarrow> jm_has m k"
  by (simp add: jm_has_iff)

lemma unregister_ok:
  assumes "registry_ok r"
  shows "registry_ok (llm_unregister i r)"
proof -
  let ?m = "jm_delete i (lr_store r)"
  have k: "jm_has ?m k \<longleftrightarrow> k \<noteq> i \<and> jm_has (lr_store r) k" for k
    by (simp add: jm_has_def jm_get_delete del: map_of_eq_Some_iff not_None_eq)
  have m: "wf_jmap ?m" "own_ids ?m" using assms by (simp_all add: registry_ok_def own_ids_delete)
  show ?thesis
  proof (cases "lr_defaultId r = Some i")
    case True
    then show ?thesis
      using m by (cases "jm_keys ?m") (simp_all add: registry_ok_def llm_unregister_def Let_def jm_has_first)
  next
    case False
    then show ?thesis
      using assms m by (cases "lr_defaultId r") (simp_all add: registry_ok_def llm_unregister_def Let_def k)
  qed
qed

lemma setDefault_ok: "registry_ok r \<Longrightarrow> registry_ok (snd (llm_setDefault i r))"
  by (cases "jm_has (lr_store r) i") (simp_all add: llm_setDefault_def registry_ok_def)

lemma registry_run_ok: "registry_ok r \<Longrightarrow> registry_ok (fold registry_apply ops r)"
proof (induction ops arbitrary: r)
  case (Cons op ops)
  have "registry_ok (registry_apply op r)"
    using Cons.prems by (cases op) (simp_all add: register_ok unregister_ok setDefault_ok)
  with Cons.IH show ?case by simp
qed simp

text \<open>
  Whatever providers are registered, removed and made the default, the registry lists each
  identifier once, finds exactly what it lists, and resolves a default exactly when it lists
  anything, which then is one of the listed providers.
\<close>

theorem llm_registry_default_resolves:
  assumes "r = fold registry_apply ops new_llm_registry"
  shows "distinct (map provider_id (llm_list r))
    \<and> (\<forall>i p. llm_get i r = Inr p \<longleftrightarrow> p \<in> set (llm_list r) \<and> provider_id p = i)
    \<and> ((\<exists>p. defaultProvider r = Inr p) \<longleftrightarrow> llm_list r \<noteq> [])
    \<and> (\<forall>p. defaultProvider r = Inr p \<longrightarrow> p \<in> set (llm_list r))"
proof -
  have ok: "registry_ok r"
    unfolding assms by (rule registry_run_ok) (simp add: registry_ok_def new_llm_registry_def own_ids_def)
  then have wf: "wf_jmap (lr_store r)" and ids: "\<And>i p. jm_get (lr_store r) i = Some p \<Longrightarrow> provider_id p = i"
    by (simp_all add: registry_ok_def own_ids_def del: map_of_eq_Some_iff)
  have pairs: "(i, p) \<in> set (lr_store r) \<longleftrightarrow> jm_get (lr_store r) i = Some p" for i p
    using wf by simp
  have "provider_id (snd x) = fst x" if "x \<in> set (lr_store r)" for x
  proof -
    from that have "jm_get (lr_store r) (fst x) = Some (snd x)" by (simp only: pairs [symmetric] prod.collapse)
    then show ?thesis by (rule ids)
  qed
  then have "map provider_id (llm_list r) = jm_keys (lr_store r)" by (simp add: llm_list_def)
  then have d: "distinct (map provider_id (llm_list r))" using wf by simp
  have "p \<in> set (llm_list r) \<longleftrightarrow> (\<exists>i. (i, p) \<in> set (lr_store r))" for p by (force simp: llm_list_def)
  then have g: "llm_get i r = Inr p \<longleftrightarrow> p \<in> set (llm_list r) \<and> provider_id p = i" for i p
    using ids by (auto simp: llm_get_def pairs split: option.split)
  have "(\<exists>p. defaultProvider r = Inr p) \<longleftrightarrow> llm_list r \<noteq> []"
  proof (cases "lr_defaultId r")
    case None
    with ok show ?thesis by (simp add: registry_ok_def defaultProvider_def llm_list_def)
  next
    case (Some i)
    with ok obtain p where "jm_get (lr_store r) i = Some p"
      by (auto simp: registry_ok_def jm_has_def simp del: map_of_eq_Some_iff)
    with Some show ?thesis by (auto simp: defaultProvider_def llm_get_def llm_list_def)
  qed
  moreover have "p \<in> set (llm_list r)" if "defaultProvider r = Inr p" for p
    using that g by (auto simp: defaultProvider_def split: option.splits)
  ultimately show ?thesis using d g by blast
qed

lemma llm_registry_default_resolves_witness:
  "\<exists>p. defaultProvider (fold registry_apply [Register (Mock_provider (new_mock plain_mock_options)), Set_default ''x''] new_llm_registry) = Inr p"
proof -
  have "llm_list (fold registry_apply [Register (Mock_provider (new_mock plain_mock_options)), Set_default ''x''] new_llm_registry)
      = [Mock_provider (new_mock plain_mock_options)]"
    by (simp add: llm_register_def llm_setDefault_def new_llm_registry_def llm_list_def Let_def jm_has_def
        new_mock_def plain_mock_options_def override_def)
  then show ?thesis
    using conjunct1 [OF conjunct2 [OF conjunct2 [OF llm_registry_default_resolves [OF refl,
      of "[Register (Mock_provider (new_mock plain_mock_options)), Set_default ''x'']"]]]]
    by (simp only: list.simps not_False_eq_True)
qed

subsection \<open>Vendor errors\<close>

lemmas vendor_errors = AuthenticationFailed_def InvalidModel_def Timeout_def ContextLengthExceeded_def RateLimited_def
  InvalidRequest_def ProviderUnavailable_def ProviderError_def llm_error_of_def

lemma retry_after_nonneg: "0 \<le> parseRetryAfterMs date_parse now v"
  by (auto simp: parseRetryAfterMs_def RETRY_AFTER_DEFAULT_MS_def js_round_def split: jsval.split option.split)

lemma mapped_code:
  assumes "sh_status (toSdkShape raw) = JNum q" and "sh_code (toSdkShape raw) = None" and "sh_type (toSdkShape raw) = None"
  shows "le_code (mapSDKError date_parse now provider (Other_thrown raw)) =
    (if q = 401 \<or> q = 403 then AUTHENTICATION_FAILED else if q = 404 then INVALID_MODEL else if q = 408 then TIMEOUT
     else if q = 413 then CONTEXT_LENGTH_EXCEEDED else if q = 429 then RATE_LIMITED else if q = 400 then INVALID_REQUEST
     else if 500 \<le> q then PROVIDER_UNAVAILABLE else PROVIDER_ERROR)"
  by (simp add: mapSDKError_def assms vendor_errors Let_def status_at_least_def)

text \<open>
  C28: An error of a vendor keeps its cause and names the provider, and says after how long to
  retry, a time that is not negative, exactly if it is of the class for rate limits. By its status
  alone it is of a class that is worth retrying exactly if the status is one of the retryable
  ones other than 409.
\<close>

theorem vendor_errors_mapped:
  assumes "e = mapSDKError date_parse now provider (Other_thrown raw)" and "raw \<noteq> JUndefined"
  shows "le_cause e = Some raw \<and> le_providerId e = provider
    \<and> (le_retryAfterMs e \<noteq> None \<longleftrightarrow> le_code e = RATE_LIMITED)
    \<and> (\<forall>ms. le_retryAfterMs e = Some ms \<longrightarrow> 0 \<le> ms)
    \<and> (\<forall>q. sh_status (toSdkShape raw) = JNum q \<and> sh_code (toSdkShape raw) = None \<and> sh_type (toSdkShape raw) = None \<longrightarrow>
        (le_code e \<in> {TIMEOUT, RATE_LIMITED, PROVIDER_UNAVAILABLE} \<longleftrightarrow> isRetryableStatusCode q \<and> q \<noteq> 409))"
proof -
  have 1: "le_cause e = Some raw \<and> le_providerId e = provider
    \<and> (le_retryAfterMs e \<noteq> None \<longleftrightarrow> le_code e = RATE_LIMITED) \<and> (\<forall>ms. le_retryAfterMs e = Some ms \<longrightarrow> 0 \<le> ms)"
    using assms(2) by (simp add: assms(1) mapSDKError_def vendor_errors Let_def retry_after_nonneg)
  have "le_code e \<in> {TIMEOUT, RATE_LIMITED, PROVIDER_UNAVAILABLE} \<longleftrightarrow> isRetryableStatusCode q \<and> q \<noteq> 409"
    if "sh_status (toSdkShape raw) = JNum q \<and> sh_code (toSdkShape raw) = None \<and> sh_type (toSdkShape raw) = None" for q
    using that by (auto simp: assms(1) mapped_code isRetryableStatusCode_def)
  with 1 show ?thesis by blast
qed

lemma vendor_errors_mapped_witness:
  "le_code (mapSDKError (\<lambda>_. None) 0 ''openai'' (Other_thrown (JObj [(''status'', JNum 503)])))
     \<in> {TIMEOUT, RATE_LIMITED, PROVIDER_UNAVAILABLE}"
proof -
  have s: "toSdkShape (JObj [(''status'', JNum 503)]) = empty_shape\<lparr>sh_status := JNum 503\<rparr>" by code_simp
  have "isRetryableStatusCode 503" by (simp add: isRetryableStatusCode_def)
  then show ?thesis
    using vendor_errors_mapped [OF refl, of "JObj [(''status'', JNum 503)]" "\<lambda>_. None" 0 "''openai''"]
    by (simp add: s empty_shape_def)
qed

subsection \<open>Accumulating deltas\<close>

definition empty_call :: pending_call where
  "empty_call = \<lparr>pn_id = None, pn_name = None, pn_args = []\<rparr>"

definition extend_call :: "tool_call_delta \<Rightarrow> pending_call \<Rightarrow> pending_call" where
  "extend_call d p = \<lparr>pn_id = (if dl_id d = None then pn_id p else dl_id d),
     pn_name = (if dl_name d = None then pn_name p else dl_name d), pn_args = pn_args p @ override [] (dl_arguments d)\<rparr>"

lemma add_delta_alt:
  "add_delta d calls = jm_set (dl_index d) (extend_call d (override empty_call (jm_get calls (dl_index d)))) calls"
  by (simp add: add_delta_def extend_call_def empty_call_def Let_def)

lemma add_delta_get:
  "jm_get (add_delta d m) i =
     (if dl_index d = i then Some (extend_call d (override empty_call (jm_get m i))) else jm_get m i)"
  by (auto simp: add_delta_alt jm_get_set)

lemma fold_deltas_get:
  "jm_get (fold add_delta ds m) i = (if filter (\<lambda>d. dl_index d = i) ds \<noteq> []
     then Some (fold extend_call (filter (\<lambda>d. dl_index d = i) ds) (override empty_call (jm_get m i))) else jm_get m i)"
proof (induction ds arbitrary: m)
  case (Cons d ds)
  then show ?case by (cases "filter (\<lambda>d. dl_index d = i) ds = []"; cases "dl_index d = i") (simp_all add: add_delta_get)
qed simp

lemma fold_deltas_wf: "wf_jmap m \<Longrightarrow> wf_jmap (fold add_delta ds m)"
  by (induction ds arbitrary: m) (simp_all add: add_delta_alt)

lemma sorted_map_values:
  assumes "wf_jmap m" and "set (jm_keys m) = {..<n}"
  shows "map snd (sort_key fst m) = map (\<lambda>i. the (jm_get m i)) [0..<n]"
proof -
  let ?s = "sort_key fst m"
  have k: "map fst ?s = [0..<n]"
  proof (rule sorted_distinct_set_unique)
    show "sorted (map fst ?s)" by simp
    show "distinct (map fst ?s)" using assms(1) by (simp add: distinct_map)
    show "set (map fst ?s) = set [0..<n]" using assms(2) by (simp add: atLeast0LessThan)
  qed (rule sorted_upt distinct_upt)+
  have "snd x = the (jm_get m (fst x))" if "x \<in> set ?s" for x
  proof -
    from that have "(fst x, snd x) \<in> set m" by simp
    from map_of_is_SomeI [OF assms(1) this] show ?thesis by simp
  qed
  then have "map snd ?s = map (\<lambda>i. the (jm_get m i)) (map fst ?s)" by simp
  then show ?thesis by (simp only: k)
qed

text \<open>The deltas of one call: its identifier and name come first, then parts of its arguments.\<close>

definition call_deltas :: "nat \<Rightarrow> string \<times> string \<times> string list \<Rightarrow> tool_call_delta list" where
  "call_deltas i c = (case c of (ident, name, parts) \<Rightarrow>
     \<lparr>dl_index = i, dl_id = Some ident, dl_name = Some name, dl_arguments = None\<rparr> #
     map (\<lambda>a. \<lparr>dl_index = i, dl_id = None, dl_name = None, dl_arguments = Some a\<rparr>) parts)"

definition whole_call :: "string \<times> string \<times> string list \<Rightarrow> llm_tool_call" where
  "whole_call c = (case c of (ident, name, parts) \<Rightarrow> \<lparr>ltc_id = ident, ltc_name = name, ltc_arguments = concat parts\<rparr>)"

definition named_call :: "string \<times> string \<times> string list \<Rightarrow> bool" where
  "named_call c \<longleftrightarrow> fst c \<noteq> [] \<and> fst (snd c) \<noteq> []"

lemma extend_parts:
  "fold extend_call (map (\<lambda>a. \<lparr>dl_index = i, dl_id = None, dl_name = None, dl_arguments = Some a\<rparr>) parts) p =
     p\<lparr>pn_args := pn_args p @ concat parts\<rparr>"
  by (induction parts arbitrary: p) (simp_all add: extend_call_def)

lemma extend_call_deltas:
  "fold extend_call (call_deltas i (ident, name, parts)) p =
     \<lparr>pn_id = Some ident, pn_name = Some name, pn_args = pn_args p @ concat parts\<rparr>"
  by (simp add: call_deltas_def extend_parts) (simp add: extend_call_def)

definition pending_of :: "string \<times> string \<times> string list \<Rightarrow> pending_call" where
  "pending_of c = \<lparr>pn_id = Some (fst c), pn_name = Some (fst (snd c)), pn_args = concat (snd (snd c))\<rparr>"

lemma complete_pending:
  "\<forall>c \<in> set calls. named_call c \<Longrightarrow> complete_calls provider (map pending_of calls) = Inr (map whole_call calls)"
proof (induction calls)
  case (Cons c calls)
  obtain ident name parts where c: "c = (ident, name, parts)" by (cases c)
  with Cons.prems have "ident \<noteq> []" "name \<noteq> []" by (auto simp: named_call_def)
  then have "complete_call provider (pending_of c) = Inr (whole_call c)"
    by (auto simp: complete_call_def pending_of_def whole_call_def c neq_Nil_conv)
  with Cons show ?case by simp
qed simp

definition deltas_of :: "chat_chunk list \<Rightarrow> tool_call_delta list" where
  "deltas_of chunks = concat (map (\<lambda>c. override [] (ch_toolCalls c)) chunks)"

lemma collected_calls:
  assumes "\<And>i. i < length calls \<Longrightarrow> filter (\<lambda>d. dl_index d = i) ds = call_deltas i (calls ! i)"
    and "\<forall>d \<in> set ds. dl_index d < length calls"
  shows "map snd (sort_key fst (fold add_delta ds [])) = map pending_of calls"
proof -
  let ?m = "fold add_delta ds []"
  have wf: "wf_jmap ?m" by (rule fold_deltas_wf) simp
  have get: "jm_get ?m i = Some (pending_of (calls ! i))" if "i < length calls" for i
  proof -
    obtain ident name parts where c: "calls ! i = (ident, name, parts)" by (cases "calls ! i")
    have "filter (\<lambda>d. dl_index d = i) ds = call_deltas i (ident, name, parts)"
      using assms(1) [OF that] by (simp only: c)
    moreover have "call_deltas i (ident, name, parts) \<noteq> []" by (simp add: call_deltas_def)
    ultimately show ?thesis
      by (simp only: fold_deltas_get extend_call_deltas map_of.simps override_simps if_True not_False_eq_True)
        (simp add: pending_of_def c empty_call_def)
  qed
  have none: "jm_get ?m i = None" if "\<not> i < length calls" for i
  proof -
    have "filter (\<lambda>d. dl_index d = i) ds = []" using assms(2) that by (auto simp: filter_empty_conv)
    then show ?thesis by (simp add: fold_deltas_get)
  qed
  have "i \<in> set (jm_keys ?m) \<longleftrightarrow> i < length calls" for i
    using get none unfolding jm_has_iff [symmetric] jm_has_def by (metis option.distinct(1))
  then have "set (jm_keys ?m) = {..<length calls}" by blast
  then have "map snd (sort_key fst ?m) = map (\<lambda>i. the (jm_get ?m i)) [0..<length calls]"
    by (rule sorted_map_values [OF wf])
  also have "\<dots> = map (\<lambda>i. pending_of (calls ! i)) [0..<length calls]" using get by simp
  also have "\<dots> = map pending_of calls" by (rule nth_equalityI) simp_all
  finally show ?thesis .
qed

lemma accumulate_Cons:
  "accumulateChatChunks (c # cs, None) =
     (case complete_calls (ch_providerId c) (map snd (sort_key fst (snd (collectDeltas (c # cs))))) of
        Inl e \<Rightarrow> Inl (Llm_thrown e)
      | Inr calls \<Rightarrow> Inr \<lparr>cr_id = ch_id c, cr_providerId = ch_providerId c, cr_model = ch_model c,
          cr_message = \<lparr>rm_role = override Assistant (ch_role c), rm_content = fst (collectDeltas (c # cs)),
            rm_toolCalls = nonempty calls\<rparr>,
          cr_finishReason = defaultFinishReason (Some (last (c # cs))),
          cr_usage = override ZERO_USAGE (ch_usage (last (c # cs))), cr_toolCalls = nonempty calls\<rparr>)"
  by (simp only: accumulateChatChunks_def option.case list.case Let_def split_beta fst_conv snd_conv)

text \<open>
  C27: When the deltas of a stream carry the index of their call, in whatever order the calls are
  interleaved, and each call's first delta has its identifier and name, the accumulated response
  has exactly the calls, in the order of their indices and with their arguments joined.
\<close>

theorem deltas_restore_calls:
  assumes "chunks \<noteq> []" and "\<forall>c \<in> set calls. named_call c"
    and "\<forall>i < length calls. filter (\<lambda>d. dl_index d = i) (deltas_of chunks) = call_deltas i (calls ! i)"
    and "\<forall>d \<in> set (deltas_of chunks). dl_index d < length calls"
  shows "\<exists>resp. accumulateChatChunks (chunks, None) = Inr resp \<and> cr_toolCalls resp = nonempty (map whole_call calls)
    \<and> rm_toolCalls (cr_message resp) = nonempty (map whole_call calls)
    \<and> rm_content (cr_message resp) = concat (map (\<lambda>c. override [] (ch_content c)) chunks)"
proof -
  obtain c cs where chunks: "chunks = c # cs" using assms(1) by (cases chunks) auto
  have "map snd (sort_key fst (snd (collectDeltas chunks))) = map pending_of calls"
    unfolding collectDeltas_def snd_conv deltas_of_def [symmetric]
    by (rule collected_calls) (use assms(3,4) in blast)+
  then have "complete_calls (ch_providerId c) (map snd (sort_key fst (snd (collectDeltas (c # cs))))) = Inr (map whole_call calls)"
    by (simp only: complete_pending [OF assms(2)] chunks)
  moreover have collected: "fst (collectDeltas (c # cs)) = concat (map (\<lambda>c. override [] (ch_content c)) (c # cs))"
    by (simp only: collectDeltas_def fst_conv)
  ultimately show ?thesis
    by (simp only: chunks accumulate_Cons sum.case) simp
qed

definition delta_chunk :: "tool_call_delta list \<Rightarrow> chat_chunk" where
  "delta_chunk ds = \<lparr>ch_id = ''r'', ch_providerId = ''p'', ch_model = ''m'', ch_role = None, ch_content = None,
     ch_toolCalls = Some ds, ch_finishReason = None, ch_usage = None\<rparr>"

lemma deltas_restore_calls_witness:
  "\<exists>resp. accumulateChatChunks ([delta_chunk (call_deltas 1 (''b'', ''g'', [])),
      delta_chunk (call_deltas 0 (''a'', ''f'', [''x'', ''y'']))], None) = Inr resp \<and>
    cr_toolCalls resp = Some [\<lparr>ltc_id = ''a'', ltc_name = ''f'', ltc_arguments = ''xy''\<rparr>,
      \<lparr>ltc_id = ''b'', ltc_name = ''g'', ltc_arguments = []\<rparr>]"
proof -
  let ?calls = "[(''a'', ''f'', [''x'', ''y'']), (''b'', ''g'', [])]"
  let ?chunks = "[delta_chunk (call_deltas 1 (''b'', ''g'', [])), delta_chunk (call_deltas 0 (''a'', ''f'', [''x'', ''y'']))]"
  have d: "deltas_of ?chunks = call_deltas 1 (''b'', ''g'', []) @ call_deltas 0 (''a'', ''f'', [''x'', ''y''])"
    by (simp add: deltas_of_def delta_chunk_def)
  have "\<forall>c \<in> set ?calls. named_call c" by (simp add: named_call_def)
  moreover have "\<forall>i < length ?calls. filter (\<lambda>d. dl_index d = i) (deltas_of ?chunks) = call_deltas i (?calls ! i)"
    unfolding d by (auto simp: call_deltas_def less_Suc_eq)
  moreover have "\<forall>d \<in> set (deltas_of ?chunks). dl_index d < length ?calls"
    unfolding d by (auto simp: call_deltas_def)
  moreover have "?chunks \<noteq> []" by simp
  ultimately show ?thesis
    using deltas_restore_calls [of ?chunks ?calls] by (auto simp: nonempty_def whole_call_def)
qed

subsection \<open>Streams of the OpenAI provider\<close>

text \<open>
  The pieces of tool calls in a chunk of the vendor; the pieces at one position, over all chunks; and how
  many positions there are. Each piece has the index of its call, which the provider replaces by its position.
\<close>

definition chunk_pieces :: "sdk_chunk \<Rightarrow> sdk_call_delta list" where
  "chunk_pieces c = (case kc_choices c of [] \<Rightarrow> [] | d # _ \<Rightarrow> override [] (de_toolCalls d))"

definition column :: "nat \<Rightarrow> sdk_chunk list \<Rightarrow> sdk_call_delta list" where
  "column i chunks = concat (map (\<lambda>c. if i < length (chunk_pieces c) then [chunk_pieces c ! i] else []) chunks)"

definition columns :: "sdk_chunk list \<Rightarrow> nat" where
  "columns chunks = foldr max (map (\<lambda>c. length (chunk_pieces c)) chunks) 0"

text \<open>One call made of pieces: the last identifier and name among them and all their arguments.\<close>

definition texts :: "(sdk_call_delta \<Rightarrow> string option) \<Rightarrow> sdk_call_delta list \<Rightarrow> string list" where
  "texts f ds = filter (\<lambda>t. t \<noteq> []) (map (\<lambda>d. override [] (f d)) ds)"

definition merged :: "sdk_call_delta list \<Rightarrow> llm_tool_call" where
  "merged ds = \<lparr>ltc_id = last (texts kd_id ds), ltc_name = last (texts kd_name ds), ltc_arguments = concat (texts kd_arguments ds)\<rparr>"

lemma less_columns: "i < columns chunks \<longleftrightarrow> (\<exists>c \<in> set chunks. i < length (chunk_pieces c))"
  by (induction chunks) (auto simp: columns_def less_max_iff_disj)

lemma column_nonempty: "column i chunks \<noteq> [] \<longleftrightarrow> i < columns chunks"
  unfolding less_columns column_def by (auto split: if_splits)

definition renumbered :: "nat \<Rightarrow> sdk_call_delta \<Rightarrow> tool_call_delta" where
  "renumbered i d = \<lparr>dl_index = i, dl_id = truthy_text (kd_id d), dl_name = truthy_text (kd_name d),
     dl_arguments = truthy_text (kd_arguments d)\<rparr>"

lemma from_deltas_at:
  "filter (\<lambda>d. dl_index d = i) (map (\<lambda>(i, d). renumbered i d) (enumerate n ds)) =
     (if n \<le> i \<and> i < n + length ds then [renumbered i (ds ! (i - n))] else [])"
proof (induction ds arbitrary: n)
  case (Cons d ds)
  have "dl_index (renumbered n d) = n" by (simp add: renumbered_def)
  then show ?case by (auto simp: Cons nth_Cons')
qed simp

lemma from_deltas_alt: "from_deltas ds = map (\<lambda>(i, d). renumbered i d) (enumerate 0 ds)"
  by (simp add: from_deltas_def renumbered_def)

lemma stream_deltas: "deltas_of (stream_chunks i m chunks) = concat (map (\<lambda>c. from_deltas (chunk_pieces c)) chunks)"
proof (induction chunks arbitrary: i m)
  case (Cons c chunks)
  have "override [] (map_option from_deltas x) = from_deltas (override [] x)" for x
    by (cases x) (simp_all add: from_deltas_def)
  with Cons show ?case
    by (cases "kc_choices c") (simp_all add: deltas_of_def chunk_pieces_def from_chunk_def from_deltas_def Let_def)
qed (simp add: deltas_of_def)

lemma stream_deltas_at:
  "filter (\<lambda>d. dl_index d = i) (deltas_of (stream_chunks u m chunks)) = map (renumbered i) (column i chunks)"
proof -
  have "filter (\<lambda>d. dl_index d = i) (concat (map (\<lambda>c. from_deltas (chunk_pieces c)) chunks)) =
      map (renumbered i) (column i chunks)"
    by (induction chunks) (simp_all add: column_def from_deltas_alt from_deltas_at)
  then show ?thesis by (simp only: stream_deltas)
qed

lemma texts_Cons [simp]:
  "texts f [] = []" "texts f (d # ds) = (if override [] (f d) = [] then texts f ds else override [] (f d) # texts f ds)"
  by (simp_all add: texts_def)

lemma extend_piece:
  "extend_call (renumbered i d) p =
     \<lparr>pn_id = (if override [] (kd_id d) = [] then pn_id p else Some (override [] (kd_id d))),
      pn_name = (if override [] (kd_name d) = [] then pn_name p else Some (override [] (kd_name d))),
      pn_args = pn_args p @ override [] (kd_arguments d)\<rparr>"
proof -
  have "truthy_text x = (if override [] x = [] then None else Some (override [] x))" for x :: "string option"
    by (cases x) (auto simp: truthy_text_def)
  then show ?thesis by (simp add: extend_call_def renumbered_def)
qed

lemma extend_pieces:
  "fold extend_call (map (renumbered i) ds) p =
     \<lparr>pn_id = (if texts kd_id ds = [] then pn_id p else Some (last (texts kd_id ds))),
      pn_name = (if texts kd_name ds = [] then pn_name p else Some (last (texts kd_name ds))),
      pn_args = pn_args p @ concat (texts kd_arguments ds)\<rparr>"
  by (induction ds arbitrary: p) (simp_all add: extend_piece)

lemma complete_all:
  "\<forall>x \<in> set xs. complete_call provider (f x) = Inr (g x) \<Longrightarrow> complete_calls provider (map f xs) = Inr (map g xs)"
  by (induction xs) simp_all

lemma complete_merged:
  assumes "texts kd_id ds \<noteq> []" and "texts kd_name ds \<noteq> []"
  shows "complete_call provider (fold extend_call (map (renumbered i) ds) empty_call) = Inr (merged ds)"
proof -
  have "last (texts f ds) \<noteq> []" if "texts f ds \<noteq> []" for f
    using last_in_set [OF that] by (auto simp: texts_def)
  then obtain x xs y ys where "last (texts kd_id ds) = x # xs" "last (texts kd_name ds) = y # ys"
    using assms by (metis neq_Nil_conv)
  then show ?thesis using assms by (simp add: extend_pieces complete_call_def merged_def empty_call_def)
qed

lemma single_column:
  assumes "\<forall>c \<in> set chunks. length (chunk_pieces c) \<le> 1"
  shows "column 0 chunks = concat (map chunk_pieces chunks)" "columns chunks \<le> 1"
proof -
  have "(if 0 < length ds then [ds ! 0] else []) = ds" if "length ds \<le> 1" for ds :: "sdk_call_delta list"
    using that by (cases ds) auto
  then show "column 0 chunks = concat (map chunk_pieces chunks)"
    using assms unfolding column_def by (intro arg_cong [of _ _ concat] map_cong) simp_all
  show "columns chunks \<le> 1" using assms less_columns [of 1 chunks] by (meson leI not_le)
qed

text \<open>
  C26: The OpenAI provider numbers the pieces of tool calls by their position in their chunk, whatever index the
  vendor gave them. So the response accumulated from any stream that ends without an error, that has a choice at all, and in which every position has
  an identifier and a name, has one call for each position: with the last identifier and the last
  name at that position and all arguments at that position in one text. If no chunk has more than one piece, all calls of the stream
  are merged into one.
\<close>

theorem streamed_calls_merge:
  assumes "cl_stream (op_client p) (buildChatParams request (or_text (cq_model request) (op_defaultModel p)) True) =
      Inr (chunks, None)"
    and "\<exists>c \<in> set chunks. kc_choices c \<noteq> []"
    and "\<forall>i < columns chunks. texts kd_id (column i chunks) \<noteq> [] \<and> texts kd_name (column i chunks) \<noteq> []"
  shows "\<exists>s resp. openai_runStream mapped uuid request p = Inr s \<and> accumulateChatChunks s = Inr resp
    \<and> cr_toolCalls resp = nonempty (map (\<lambda>i. merged (column i chunks)) [0..<columns chunks])
    \<and> ((\<forall>c \<in> set chunks. length (chunk_pieces c) \<le> 1) \<longrightarrow> concat (map chunk_pieces chunks) \<noteq> [] \<longrightarrow>
        cr_toolCalls resp = Some [merged (concat (map chunk_pieces chunks))])"
proof -
  let ?model = "or_text (cq_model request) (op_defaultModel p)"
  let ?cs = "stream_chunks uuid ?model chunks" and ?n = "columns chunks"
  let ?pending = "\<lambda>i. fold extend_call (map (renumbered i) (column i chunks)) empty_call"
  let ?m = "fold add_delta (deltas_of ?cs) []"
  have get: "jm_get ?m i = (if i < ?n then Some (?pending i) else None)" for i
    by (simp add: fold_deltas_get stream_deltas_at column_nonempty)
  have "i \<in> set (jm_keys ?m) \<longleftrightarrow> i < ?n" for i
    using get [of i] unfolding jm_has_iff [symmetric] jm_has_def by (metis option.distinct(1))
  then have "set (jm_keys ?m) = {..<?n}" by blast
  moreover have "wf_jmap ?m" by (rule fold_deltas_wf) simp
  ultimately have "map snd (sort_key fst ?m) = map (\<lambda>i. the (jm_get ?m i)) [0..<?n]" by (intro sorted_map_values)
  also have "\<dots> = map ?pending [0..<?n]" by (simp add: get)
  finally have pending: "map snd (sort_key fst (snd (collectDeltas ?cs))) = map ?pending [0..<?n]"
    by (simp only: collectDeltas_def snd_conv deltas_of_def [symmetric])
  have calls: "complete_calls provider (map ?pending [0..<?n]) = Inr (map (\<lambda>i. merged (column i chunks)) [0..<?n])" for provider
    using assms(3) by (intro complete_all ballI complete_merged) auto
  have "stream_chunks u m chunks \<noteq> []" for u m
    using assms(2) by (induction chunks arbitrary: u m) (auto simp: Let_def split: list.split)
  then obtain x xs where x: "?cs = x # xs" by (meson neq_Nil_conv)
  have "\<exists>resp. accumulateChatChunks (?cs, None) = Inr resp \<and>
      cr_toolCalls resp = nonempty (map (\<lambda>i. merged (column i chunks)) [0..<?n])"
    using pending unfolding x by (simp only: accumulate_Cons calls sum.case) simp
  moreover have "nonempty (map (\<lambda>i. merged (column i chunks)) [0..<?n]) = Some [merged (concat (map chunk_pieces chunks))]"
    if "\<forall>c \<in> set chunks. length (chunk_pieces c) \<le> 1" "concat (map chunk_pieces chunks) \<noteq> []"
  proof -
    have "0 < ?n" using that(2) single_column(1) [OF that(1)] column_nonempty [of 0 chunks] by simp
    then have "?n = 1" using single_column(2) [OF that(1)] by simp
    then show ?thesis by (simp add: nonempty_def single_column(1) [OF that(1)])
  qed
  ultimately show ?thesis using assms(1) by (auto simp: openai_runStream_def Let_def)
qed

text \<open>Two calls with their indices, a piece to a chunk, as the vendor streams them.\<close>

definition sample_chunk :: "role option \<Rightarrow> sdk_call_delta list option \<Rightarrow> string option \<Rightarrow> sdk_chunk" where
  "sample_chunk who ds reason = \<lparr>kc_id = Some ''chatcmpl-1'', kc_model = Some ''gpt-4o'',
     kc_choices = [\<lparr>de_role = who, de_content = None, de_toolCalls = ds, de_finish = reason\<rparr>], kc_usage = None\<rparr>"

definition two_calls :: "sdk_chunk list" where
  "two_calls = [sample_chunk (Some Assistant) None None,
     sample_chunk None (Some [\<lparr>kd_index = 0, kd_id = Some ''a'', kd_name = Some ''f'', kd_arguments = Some []\<rparr>]) None,
     sample_chunk None (Some [\<lparr>kd_index = 0, kd_id = None, kd_name = None, kd_arguments = Some ''x''\<rparr>]) None,
     sample_chunk None (Some [\<lparr>kd_index = 1, kd_id = Some ''b'', kd_name = Some ''g'', kd_arguments = Some []\<rparr>]) None,
     sample_chunk None (Some [\<lparr>kd_index = 1, kd_id = None, kd_name = None, kd_arguments = Some ''y''\<rparr>]) None,
     sample_chunk None None (Some ''tool_calls'')]"

definition two_calls_client :: sdk_client where
  "two_calls_client = \<lparr>cl_create = (\<lambda>_. Inl (Other_thrown JUndefined)),
     cl_stream = (\<lambda>_. Inr (two_calls, None)),
     cl_embed = (\<lambda>_. Inl (Other_thrown JUndefined)), cl_models = Inr ()\<rparr>"

definition hello_request :: chat_request where
  "hello_request = \<lparr>cq_model = [], cq_messages = [\<lparr>cm_role = User, cm_content = ''hi'', cm_name = None,
     cm_toolCallId = None, cm_toolCalls = None\<rparr>], cq_temperature = None, cq_maxTokens = None, cq_topP = None,
     cq_frequencyPenalty = None, cq_presencePenalty = None, cq_stop = None, cq_user = None, cq_tools = None,
     cq_toolChoice = None, cq_json = False\<rparr>"

lemma streamed_calls_merge_witness:
  "\<exists>s resp. openai_runStream (mapSDKError (\<lambda>_. None) 0 openai_id) ''u'' hello_request
      \<lparr>op_defaultModel = ''m'', op_timeoutMs = 1, op_client = two_calls_client\<rparr> = Inr s \<and>
    accumulateChatChunks s = Inr resp \<and> cr_toolCalls resp = Some [\<lparr>ltc_id = ''b'', ltc_name = ''g'', ltc_arguments = ''xy''\<rparr>]"
proof -
  let ?p = "\<lparr>op_defaultModel = ''m'', op_timeoutMs = 1, op_client = two_calls_client\<rparr>"
  have stream: "cl_stream (op_client ?p) (buildChatParams hello_request (or_text (cq_model hello_request) (op_defaultModel ?p)) True) =
      Inr (two_calls, None)"
    by (simp add: two_calls_client_def)
  have single: "\<forall>c \<in> set two_calls. length (chunk_pieces c) \<le> 1" by (simp add: two_calls_def sample_chunk_def chunk_pieces_def)
  have choice: "\<exists>c \<in> set two_calls. kc_choices c \<noteq> []" by (simp add: two_calls_def sample_chunk_def)
  have pieces: "concat (map chunk_pieces two_calls) \<noteq> []" by (simp add: two_calls_def sample_chunk_def chunk_pieces_def)
  have m: "merged (concat (map chunk_pieces two_calls)) = \<lparr>ltc_id = ''b'', ltc_name = ''g'', ltc_arguments = ''xy''\<rparr>"
    by (simp add: two_calls_def sample_chunk_def chunk_pieces_def merged_def texts_def)
  have "texts kd_id (column 0 two_calls) \<noteq> []" "texts kd_name (column 0 two_calls) \<noteq> []"
    unfolding single_column(1) [OF single]
    by (simp_all add: two_calls_def sample_chunk_def chunk_pieces_def texts_def)
  moreover have "i = 0" if "i < columns two_calls" for i
    using single_column(2) [OF single] that by linarith
  ultimately have "\<forall>i < columns two_calls. texts kd_id (column i two_calls) \<noteq> [] \<and> texts kd_name (column i two_calls) \<noteq> []"
    by metis
  from streamed_calls_merge [OF stream choice this, of "mapSDKError (\<lambda>_. None) 0 openai_id" "''u''"] single pieces show ?thesis
    unfolding m by blast
qed

subsection \<open>The mock provider\<close>

lemma emit_all: "emit None e n cs f = (cs @ [f], None)"
  by (induction cs arbitrary: n) simp_all

lemma emit_short: "int (n + length cs) \<le> k \<Longrightarrow> emit (Some k) e n cs f = (cs @ [f], None)"
  by (induction cs arbitrary: n) simp_all

lemma chunk_contents:
  "concat (map (\<lambda>c. override [] (ch_content c)) (chunkText t i provider m)) = t"
  "concat (map (\<lambda>c. override [] (ch_toolCalls c)) (chunkText t i provider m)) = []"
proof -
  have "map (override [] \<circ> ch_content) (map (\<lambda>(k, c). \<lparr>ch_id = i, ch_providerId = provider, ch_model = m,
     ch_role = Some Assistant, ch_content = Some [c], ch_toolCalls = None,
     ch_finishReason = (if k = n then Some F_stop else None), ch_usage = None\<rparr>) (enumerate j t)) = map (\<lambda>c. [c]) t" for n j
    by (induction t arbitrary: j) simp_all
  then show "concat (map (\<lambda>c. override [] (ch_content c)) (chunkText t i provider m)) = t"
    by (simp add: chunkText_def comp_def)
  show "concat (map (\<lambda>c. override [] (ch_toolCalls c)) (chunkText t i provider m)) = []"
    by (auto simp: chunkText_def)
qed

lemma chunkText_same: "c \<in> set (chunkText t i provider m) \<Longrightarrow> ch_id c = i \<and> ch_providerId c = provider \<and> ch_model c = m
    \<and> ch_role c = Some Assistant"
  by (auto simp: chunkText_def)

lemma accumulate_text:
  assumes "fst (collectDeltas chunks) = t" and "snd (collectDeltas chunks) = []" and "chunks \<noteq> []"
    and "\<forall>c \<in> set chunks. ch_id c = i \<and> ch_providerId c = provider \<and> ch_model c = m \<and> override Assistant (ch_role c) = Assistant"
  shows "accumulateChatChunks (chunks, None) = Inr \<lparr>cr_id = i, cr_providerId = provider, cr_model = m,
    cr_message = \<lparr>rm_role = Assistant, rm_content = t, rm_toolCalls = None\<rparr>,
    cr_finishReason = defaultFinishReason (Some (last chunks)), cr_usage = override ZERO_USAGE (ch_usage (last chunks)),
    cr_toolCalls = None\<rparr>"
proof -
  obtain x xs where x: "chunks = x # xs" using assms(3) by (cases chunks) auto
  from assms(1,2) have c: "fst (collectDeltas (x # xs)) = t" "snd (collectDeltas (x # xs)) = []" by (simp_all only: x)
  have "ch_id x = i \<and> ch_providerId x = provider \<and> ch_model x = m \<and> override Assistant (ch_role x) = Assistant"
    using assms(4) by (simp add: x)
  then show ?thesis unfolding x accumulate_Cons c by (simp add: nonempty_def)
qed

text \<open>
  What the mock provider streams is what it answers: accumulating its stream gives exactly the
  response of the same call without streaming, unless the prepared response has tool calls or asks
  for an error that comes before the end of the text; both calls use up the same response.
\<close>

theorem mock_stream_accumulates:
  assumes "cap_streaming (mp_capabilities p)" and "nextResponse p = (r, p')"
    and "Option.bind (Option.bind r mr_toolCalls) nonempty = None"
    and "\<forall>n. Option.bind r mr_errorAfterChunks = Some n \<longrightarrow> int (length (override (defaultContentFor request) (Option.bind r mr_content))) \<le> n"
  shows "\<exists>s. mock_stream uuid request p = (Inr s, p')
    \<and> mock_runChat uuid request p = (case accumulateChatChunks s of Inr resp \<Rightarrow> resp, p')"
proof -
  let ?t = "override (defaultContentFor request) (Option.bind r mr_content)"
  let ?m = "or_text (cq_model request) (mp_defaultModel p)"
  let ?f = "\<lparr>ch_id = uuid, ch_providerId = mp_id p, ch_model = ?m, ch_role = None, ch_content = None, ch_toolCalls = None,
     ch_finishReason = Some (override F_stop (Option.bind r mr_finishReason)),
     ch_usage = Some (buildUsage (Option.bind r mr_usage))\<rparr>"
  let ?cs = "chunkText ?t uuid (mp_id p) ?m"
  have len: "length ?cs = length ?t" by (simp add: chunkText_def)
  have "emit (Option.bind r mr_errorAfterChunks) e 0 ?cs ?f = (?cs @ [?f], None)" for e
    using assms(4) emit_short [of 0 ?cs] by (cases "Option.bind r mr_errorAfterChunks") (auto simp: emit_all len)
  then have s: "mock_stream uuid request p = (Inr (?cs @ [?f], None), p')"
    by (simp add: mock_stream_def assms(1,2) mock_runStream_def Let_def)
  have "fst (collectDeltas (?cs @ [?f])) = ?t" "snd (collectDeltas (?cs @ [?f])) = []"
    by (simp_all add: collectDeltas_def chunk_contents [unfolded comp_def])
  moreover have "\<forall>c \<in> set (?cs @ [?f]). ch_id c = uuid \<and> ch_providerId c = mp_id p \<and> ch_model c = ?m
      \<and> override Assistant (ch_role c) = Assistant"
    by (auto dest: chunkText_same)
  ultimately have "accumulateChatChunks (?cs @ [?f], None) = Inr \<lparr>cr_id = uuid, cr_providerId = mp_id p, cr_model = ?m,
    cr_message = \<lparr>rm_role = Assistant, rm_content = ?t, rm_toolCalls = None\<rparr>,
    cr_finishReason = defaultFinishReason (Some ?f), cr_usage = override ZERO_USAGE (ch_usage ?f), cr_toolCalls = None\<rparr>"
    using accumulate_text [of "?cs @ [?f]" ?t uuid "mp_id p" ?m] by simp
  then have "mock_runChat uuid request p = (case accumulateChatChunks (?cs @ [?f], None) of Inr resp \<Rightarrow> resp, p')"
    using assms(3) by (simp add: mock_runChat_def assms(2) defaultFinishReason_def Let_def)
  with s show ?thesis by blast
qed

lemma mock_stream_accumulates_witness:
  "\<exists>s. mock_stream ''u'' hello_request (new_mock plain_mock_options) = (Inr s, new_mock plain_mock_options) \<and>
    rm_content (cr_message (case accumulateChatChunks s of Inr resp \<Rightarrow> resp)) = ''echo: ih''"
proof -
  have n: "nextResponse (new_mock plain_mock_options) = (None, new_mock plain_mock_options)"
    "cap_streaming (mp_capabilities (new_mock plain_mock_options))"
    by (simp_all add: nextResponse_def new_mock_def plain_mock_options_def)
  have "rm_content (cr_message (fst (mock_runChat ''u'' hello_request (new_mock plain_mock_options)))) = ''echo: ih''"
    by (simp add: mock_runChat_def n defaultContentFor_def hello_request_def Let_def)
  with mock_stream_accumulates [OF n(2,1), of hello_request "''u''"] show ?thesis by auto
qed

text \<open>A response with tool calls is streamed without them.\<close>

lemma mock_stream_drops_calls:
  assumes "mp_responses p = [r]" and "mr_errorAfterChunks r = None"
  shows "deltas_of (fst (fst (mock_runStream uuid request p))) = []"
  using assms by (simp add: mock_runStream_def nextResponse_def emit_all Let_def deltas_of_def chunk_contents)

subsection \<open>Vectors\<close>

text \<open>
  The vector of a text has as many entries as asked for, each between -1 and 1, and depends
  on the text only through its 32-bit hash.
\<close>

theorem vector_bounds:
  "length (deterministicVector t n) = n
    \<and> list_all (\<lambda>x. -1 \<le> x \<and> x \<le> 1) (deterministicVector t n)
    \<and> (hash_text t = hash_text u \<longrightarrow> deterministicVector t n = deterministicVector u n)"
proof -
  have i: "-1 \<le> of_int i / 4294967295 * 2 - (1 :: rat) \<and> of_int i / 4294967295 * 2 - (1 :: rat) \<le> 1"
    if "0 \<le> i" "i \<le> 4294967295" for i :: int
  proof -
    have "0 \<le> (of_int i :: rat)" "(of_int i :: rat) \<le> of_int 4294967295" using that by (simp_all only: of_int_0_le_iff of_int_le_iff)
    then show ?thesis by (simp add: field_simps)
  qed
  have "-1 \<le> of_int (uint w) / 4294967295 * 2 - (1 :: rat) \<and> of_int (uint w) / 4294967295 * 2 - (1 :: rat) \<le> 1"
    for w :: "32 word" by (rule i) (use uint_bounded [of w] in simp_all)
  then have "length (vector_from n w) = n \<and> list_all (\<lambda>x. -1 \<le> x \<and> x \<le> 1) (vector_from n w)" for w
    by (induction n arbitrary: w) (simp_all add: Let_def)
  then show ?thesis by (simp add: deterministicVector_def)
qed

lemma vector_bounds_witness: "list_all (\<lambda>x. -1 \<le> x \<and> x \<le> 1) (deterministicVector ''hello'' 16)"
  using vector_bounds [of "''hello''" 16 "''hello''"] by blast

text \<open>The generator is not linear congruential: the product is rounded before it wraps.\<close>

lemma seed_not_congruential: "next_seed (hash_text ''hello'') \<noteq> hash_text ''hello'' * 1103515245 + 12345"
  by code_simp

subsection \<open>The factory over the environment\<close>

text \<open>
  A configuration read from the environment alone never makes an OpenAI provider: whatever the
  variables and their prefixes, the factory builds the mock provider or fails, and with the
  provider set to openai it fails for the missing key.
\<close>

theorem environment_never_builds_openai:
  assumes "createLLMConfigProvider regexp penv sources = Inr p" and "\<forall>s \<in> set sources. is_env s"
  shows "(\<forall>q. createProvider (default_builders make_client) p = Inr q \<longrightarrow> (\<exists>m. q = Mock_provider m))
    \<and> (\<forall>c. readLLMConfig p = Inr c \<and> lc_provider c = JStr ''openai'' \<longrightarrow>
        createProvider (default_builders make_client) p = Inl (Provider_failure
          (AuthenticationFailed ''openai'' ''OpenAI provider requires an apiKey in configuration.'' None)))"
proof -
  have key: "lc_apiKey c = None" if "readLLMConfig p = Inr c" for c
    using environment_cannot_set_mixed_case [OF assms that] by blast
  have "\<exists>m. q = Mock_provider m" if "createProvider (default_builders make_client) p = Inr q" for q
    using that key by (auto simp: createProvider_def build_with_def default_builders_def mock_builder_def openai_builder_def
        given_text_def split: sum.splits if_splits option.splits)
  moreover have "createProvider (default_builders make_client) p = Inl (Provider_failure
      (AuthenticationFailed ''openai'' ''OpenAI provider requires an apiKey in configuration.'' None))"
    if "readLLMConfig p = Inr c \<and> lc_provider c = JStr ''openai''" for c
    using that key [of c] by (simp add: createProvider_def build_with_def default_builders_def openai_builder_def
        given_text_def config_text_def)
  ultimately show ?thesis by blast
qed

lemma environment_never_builds_openai_witness:
  "\<exists>p. createLLMConfigProvider (\<lambda>_ _. True) [(''AGENT_OS_PROVIDER'', ''openai''), (''AGENT_OS_APIKEY'', ''k'')] [Env None None] = Inr p \<and>
     createProvider (default_builders (\<lambda>_. two_calls_client)) p = Inl (Provider_failure
       (AuthenticationFailed ''openai'' ''OpenAI provider requires an apiKey in configuration.'' None))"
proof -
  let ?env = "[(''AGENT_OS_PROVIDER'', ''openai''), (''AGENT_OS_APIKEY'', ''k'')]"
  have "case createLLMConfigProvider (\<lambda>_ _. True) ?env [Env None None] of Inl _ \<Rightarrow> False
     | Inr p \<Rightarrow> (case readLLMConfig p of Inl _ \<Rightarrow> False | Inr c \<Rightarrow> lc_provider c = JStr ''openai'')" by code_simp
  then obtain p c where p: "createLLMConfigProvider (\<lambda>_ _. True) ?env [Env None None] = Inr p" "readLLMConfig p = Inr c"
    "lc_provider c = JStr ''openai''" by (auto split: sum.splits)
  from environment_never_builds_openai [OF p(1)] p(2,3) show ?thesis
    by (auto simp: is_env_def p(1))
qed

end
