(* ===== verification/CoreAdapter.thy ===== *)
theory CoreAdapter
  imports JsObjects
begin

text \<open>
  What the front ends share (packages/core/src): the permissions of the two roles
  (kernel-permissions.ts), the taxonomy of errors with its mapper (adapter-errors.ts) and the
  health of an adapter (adapter-metadata.ts).
\<close>

subsection \<open>Permissions\<close>

datatype kernel_role = Admin | Viewer

datatype kernel_action =
    K_start | K_stop | K_status | K_health | K_modules | K_config | K_version
  | K_registerModule | K_unregisterModule

fun role_str :: "kernel_role \<Rightarrow> string" where
  "role_str Admin = ''admin''"
| "role_str Viewer = ''viewer''"

fun action_str :: "kernel_action \<Rightarrow> string" where
  "action_str K_start = ''start''"
| "action_str K_stop = ''stop''"
| "action_str K_status = ''status''"
| "action_str K_health = ''health''"
| "action_str K_modules = ''modules''"
| "action_str K_config = ''config''"
| "action_str K_version = ''version''"
| "action_str K_registerModule = ''registerModule''"
| "action_str K_unregisterModule = ''unregisterModule''"

definition ADMIN_ACTIONS :: "kernel_action list" where
  "ADMIN_ACTIONS = [K_start, K_stop, K_status, K_health, K_modules, K_config, K_version,
     K_registerModule, K_unregisterModule]"

definition VIEWER_ACTIONS :: "kernel_action list" where
  "VIEWER_ACTIONS = [K_status, K_health, K_modules, K_config, K_version]"

fun PERMISSIONS :: "kernel_role \<Rightarrow> kernel_action list" where
  "PERMISSIONS Admin = ADMIN_ACTIONS"
| "PERMISSIONS Viewer = VIEWER_ACTIONS"

definition can :: "kernel_role \<Rightarrow> kernel_action \<Rightarrow> bool" where
  "can role action \<longleftrightarrow> action \<in> set (PERMISSIONS role)"

text \<open>What code under the adapters throws or hands over as an error.\<close>

datatype kernel_exn =
    Permission_error kernel_role kernel_action
  | Plain_error string
  | Other_value jsval

definition permission_message :: "kernel_role \<Rightarrow> kernel_action \<Rightarrow> string" where
  "permission_message role action = ''KernelPermission: action '' @ quoted (action_str action)
     @ '' denied for role '' @ quoted (role_str role) @ ''.''"

definition requireRole :: "kernel_role \<Rightarrow> kernel_action \<Rightarrow> kernel_exn + unit" where
  "requireRole role action = (if \<not> can role action then Inl (Permission_error role action) else Inr ())"

lemma requireRole_iff: "requireRole role action = Inr () \<longleftrightarrow> can role action"
  by (simp add: requireRole_def)

lemma admin_can: "can Admin action"
  by (cases action) (simp_all add: can_def ADMIN_ACTIONS_def)

subsection \<open>Errors\<close>

datatype adapter_error_code =
    VALIDATION_ERROR | AUTH_MISSING | AUTH_FORBIDDEN | NOT_FOUND | PHASE_CONFLICT | RATE_LIMITED
  | HERMES_ERROR | SERVICE_UNAVAILABLE

fun ADAPTER_ERROR_HTTP_STATUS :: "adapter_error_code \<Rightarrow> nat" where
  "ADAPTER_ERROR_HTTP_STATUS VALIDATION_ERROR = 400"
| "ADAPTER_ERROR_HTTP_STATUS AUTH_MISSING = 401"
| "ADAPTER_ERROR_HTTP_STATUS AUTH_FORBIDDEN = 403"
| "ADAPTER_ERROR_HTTP_STATUS NOT_FOUND = 404"
| "ADAPTER_ERROR_HTTP_STATUS PHASE_CONFLICT = 409"
| "ADAPTER_ERROR_HTTP_STATUS RATE_LIMITED = 429"
| "ADAPTER_ERROR_HTTP_STATUS HERMES_ERROR = 500"
| "ADAPTER_ERROR_HTTP_STATUS SERVICE_UNAVAILABLE = 503"

record adapter_error_shape =
  ae_code :: adapter_error_code
  ae_message :: string
  ae_detail :: "jsval option"

definition adapterError :: "adapter_error_code \<Rightarrow> string \<Rightarrow> jsval option \<Rightarrow> adapter_error_shape" where
  "adapterError code message detail = \<lparr>ae_code = code, ae_message = message, ae_detail = detail\<rparr>"

definition denied_message :: "string \<Rightarrow> kernel_role \<Rightarrow> string" where
  "denied_message action role = ''Action '' @ quoted action @ '' denied for role '' @ quoted (role_str role) @ ''.''"

definition phase_message :: "string \<Rightarrow> bool" where
  "phase_message message \<longleftrightarrow> includes_str message ''operation not allowed in phase'' \<or>
     includes_str message ''illegal transition'' \<or> includes_str message ''cannot stop from''"

fun mapKernelErrorToAdapterError :: "kernel_exn \<Rightarrow> adapter_error_shape" where
  "mapKernelErrorToAdapterError (Permission_error role action) =
     adapterError AUTH_FORBIDDEN (denied_message (action_str action) role)
       (Some (JObj [(''action'', JStr (action_str action)), (''role'', JStr (role_str role))]))"
| "mapKernelErrorToAdapterError (Plain_error message) =
     adapterError (if phase_message message then PHASE_CONFLICT else HERMES_ERROR) message None"
| "mapKernelErrorToAdapterError (Other_value v) =
     (if v = JNull \<or> v = JUndefined then adapterError HERMES_ERROR ''Unknown kernel error'' None
      else adapterError HERMES_ERROR ''Unknown kernel error'' (Some (JObj [(''value'', v)])))"

lemma phase_messageI:
  "phase_message (a @ ''operation not allowed in phase'' @ b)"
  "phase_message (a @ ''illegal transition'' @ b)"
  "phase_message (a @ ''cannot stop from'' @ b)"
  unfolding phase_message_def includes_str_iff by blast+

subsection \<open>Health\<close>

datatype adapter_interface =
    I_cli | I_rest | I_discord | I_telegram | I_webhook | I_mcp | I_whatsapp | I_email

record adapter_metadata =
  am_name :: string
  am_version :: string
  am_interfaceType :: adapter_interface
  am_supportedOperations :: "string list"

datatype adapter_health_status = A_healthy | A_degraded | A_failed | A_unknown

record adapter_health =
  ah_status :: adapter_health_status
  ah_detail :: "string option"
  ah_at :: instant

end
