(* ===== verification/Auth.thy ===== *)
theory Auth
  imports CoreAdapter "HOL-Library.Word"
begin

unbundle bit_operations_syntax

text \<open>
  Authentication (packages/auth/src): the comparison of secrets (credentials.ts), the two
  providers (ApiKeyProvider.ts, BearerTokenProvider.ts) and the permissions of the web routes
  (permissions.ts). Strings are lists of characters with codes below 256, which is what the
  web server makes of the bytes of a header; in UTF-8 they take one or two bytes.
\<close>

subsection \<open>Comparison of secrets\<close>

definition utf8_char :: "char \<Rightarrow> 8 word list" where
  "utf8_char c = (let n = (of_char c :: nat) in
     if n < 128 then [word_of_nat n] else [word_of_nat (192 + n div 64), word_of_nat (128 + n mod 64)])"

definition utf8 :: "string \<Rightarrow> 8 word list" where
  "utf8 s = concat (map utf8_char s)"

definition byte_at :: "8 word list \<Rightarrow> nat \<Rightarrow> 8 word" where
  "byte_at buf i = (if i < length buf then buf ! i else 0)"

definition safeCompare :: "string \<Rightarrow> string \<Rightarrow> bool" where
  "safeCompare a b =
     (let bufA = utf8 a; bufB = utf8 b in
      if length bufA \<noteq> length bufB
      then foldl (\<lambda>result i. result OR (byte_at bufA i XOR byte_at bufB i)) 0
             [0..<max (length bufA) (length bufB)] = 0
      else bufA = bufB)"

subsection \<open>Providers\<close>

datatype auth_method = Api_key | Bearer_token | Custom

record subject =
  sub_id :: string
  sub_role :: kernel_role
  sub_method :: auth_method
  sub_metadata :: "(string, jsval) jmap option"

datatype auth_result = Authenticated subject | Denied string

record secret_entry =
  se_secret :: string
  se_role :: kernel_role
  se_id :: string
  se_metadata :: "(string, jsval) jmap option"

record auth_provider =
  ap_name :: string
  authenticate :: "string \<Rightarrow> auth_result"

definition subject_of :: "auth_method \<Rightarrow> secret_entry \<Rightarrow> subject" where
  "subject_of method e = \<lparr>sub_id = se_id e, sub_role = se_role e, sub_method = method,
     sub_metadata = se_metadata e\<rparr>"

fun authenticate_keys :: "secret_entry list \<Rightarrow> string \<Rightarrow> auth_result" where
  "authenticate_keys [] credentials = Denied ''Invalid API key''"
| "authenticate_keys (e # es) credentials =
     (if safeCompare credentials (se_secret e) then Authenticated (subject_of Api_key e)
      else authenticate_keys es credentials)"

fun authenticate_tokens :: "secret_entry list \<Rightarrow> string \<Rightarrow> auth_result" where
  "authenticate_tokens [] credentials = Denied ''Invalid bearer token''"
| "authenticate_tokens (e # es) credentials =
     (if safeCompare credentials (se_secret e) then Authenticated (subject_of Bearer_token e)
      else authenticate_tokens es credentials)"

definition createApiKeyProvider :: "secret_entry list \<Rightarrow> auth_provider" where
  "createApiKeyProvider keys = \<lparr>ap_name = ''api-key'', authenticate = authenticate_keys keys\<rparr>"

definition createBearerTokenProvider :: "secret_entry list \<Rightarrow> auth_provider" where
  "createBearerTokenProvider tokens = \<lparr>ap_name = ''bearer-token'', authenticate = authenticate_tokens tokens\<rparr>"

subsection \<open>Permissions of the routes\<close>

datatype http_action =
    Http_start | Http_stop | Http_restart | Http_health | Http_status | Http_config | Http_plugins
  | Http_admin | Http_modules | Http_version

fun http_action_str :: "http_action \<Rightarrow> string" where
  "http_action_str Http_start = ''start''"
| "http_action_str Http_stop = ''stop''"
| "http_action_str Http_restart = ''restart''"
| "http_action_str Http_health = ''health''"
| "http_action_str Http_status = ''status''"
| "http_action_str Http_config = ''config''"
| "http_action_str Http_plugins = ''plugins''"
| "http_action_str Http_admin = ''admin''"
| "http_action_str Http_modules = ''modules''"
| "http_action_str Http_version = ''version''"

definition ADMIN_HTTP_ACTIONS :: "http_action list" where
  "ADMIN_HTTP_ACTIONS = [Http_start, Http_stop, Http_restart, Http_health, Http_status, Http_config,
     Http_plugins, Http_admin, Http_modules, Http_version]"

definition VIEWER_HTTP_ACTIONS :: "http_action list" where
  "VIEWER_HTTP_ACTIONS = [Http_health, Http_status, Http_config, Http_modules, Http_version]"

fun HTTP_PERMISSIONS :: "kernel_role \<Rightarrow> http_action list" where
  "HTTP_PERMISSIONS Admin = ADMIN_HTTP_ACTIONS"
| "HTTP_PERMISSIONS Viewer = VIEWER_HTTP_ACTIONS"

fun TO_KERNEL_ACTION :: "http_action \<Rightarrow> kernel_action" where
  "TO_KERNEL_ACTION Http_start = K_start"
| "TO_KERNEL_ACTION Http_stop = K_stop"
| "TO_KERNEL_ACTION Http_restart = K_stop"
| "TO_KERNEL_ACTION Http_health = K_health"
| "TO_KERNEL_ACTION Http_status = K_status"
| "TO_KERNEL_ACTION Http_config = K_config"
| "TO_KERNEL_ACTION Http_plugins = K_registerModule"
| "TO_KERNEL_ACTION Http_admin = K_start"
| "TO_KERNEL_ACTION Http_modules = K_modules"
| "TO_KERNEL_ACTION Http_version = K_version"

definition canHttp :: "kernel_role \<Rightarrow> http_action \<Rightarrow> bool" where
  "canHttp role action \<longleftrightarrow> action \<in> set (HTTP_PERMISSIONS role)"

definition requireHttpRole :: "kernel_role \<Rightarrow> http_action \<Rightarrow> kernel_exn + unit" where
  "requireHttpRole role action =
     (if \<not> canHttp role action then Inl (Permission_error role (TO_KERNEL_ACTION action)) else Inr ())"

lemma canHttp_kernel: "canHttp role action \<longleftrightarrow> can role (TO_KERNEL_ACTION action)"
  by (cases role; cases action)
    (simp_all add: canHttp_def can_def ADMIN_HTTP_ACTIONS_def VIEWER_HTTP_ACTIONS_def ADMIN_ACTIONS_def
      VIEWER_ACTIONS_def)

lemma requireHttpRole_requireRole:
  "requireHttpRole role action = requireRole role (TO_KERNEL_ACTION action)"
  by (simp add: requireHttpRole_def requireRole_def canHttp_kernel)

subsection \<open>What the comparison decides\<close>

definition NUL :: char where
  "NUL = CHR 0x00"

lemma utf8_simps [simp]: "utf8 [] = []" "utf8 (c # s) = utf8_char c @ utf8 s" "utf8 (s @ t) = utf8 s @ utf8 t"
  by (simp_all add: utf8_def)

lemma utf8_NUL: "utf8 (replicate n NUL) = replicate n 0"
  by (induction n) (simp_all add: utf8_char_def NUL_def)

lemma char_eq_iff_code: "c = d \<longleftrightarrow> (of_char c :: nat) = of_char d"
  by simp

lemma unat_byte: "x < 256 \<Longrightarrow> unat (word_of_nat x :: 8 word) = x"
  by (simp add: unat_of_nat)

lemma map_unat_char: "map unat (utf8_char c) = (let n = of_char c in
    if n < 128 then [n] else [192 + n div 64, 128 + n mod 64])"
proof -
  have "of_char c < (256 :: nat)" by simp
  then have "(192 + of_char c div 64 :: nat) < 256" "(128 + of_char c mod 64 :: nat) < 256" by linarith+
  then show ?thesis by (simp add: utf8_char_def Let_def unat_byte del: of_nat_add)
qed

lemma codes_prefix:
  assumes "(if n < 128 then [n] else [192 + n div 64, 128 + n mod 64]) @ x =
      (if m < 128 then [m] else [192 + m div 64, 128 + m mod 64]) @ y"
  shows "n = m \<and> x = (y :: nat list)"
proof -
  have whole: "n = m" if "n div 64 = m div 64" "n mod 64 = m mod 64"
  proof -
    have "n = n div 64 * 64 + n mod 64" by simp
    also have "\<dots> = m div 64 * 64 + m mod 64" by (simp only: that)
    finally show ?thesis by simp
  qed
  show ?thesis
  proof (cases "n < 128"; cases "m < 128")
    assume "\<not> n < 128" "\<not> m < 128"
    then show ?thesis using assms whole by simp
  qed (use assms in simp_all)
qed

lemma utf8_char_prefix:
  assumes "utf8_char c @ x = utf8_char d @ y"
  shows "c = d \<and> x = y"
proof -
  have "map unat (utf8_char c) @ map unat x = map unat (utf8_char d) @ map unat y"
    using arg_cong [OF assms, of "map unat"] by simp
  from codes_prefix [OF this [unfolded map_unat_char Let_def]]
  have "(of_char c :: nat) = of_char d" by (rule conjunct1)
  then show ?thesis using assms by simp
qed

lemma utf8_inject: "utf8 a = utf8 b \<longleftrightarrow> a = b"
proof (induction a arbitrary: b)
  case Nil
  then show ?case by (cases b) (auto simp: utf8_char_def Let_def)
next
  case (Cons c a)
  show ?case
  proof (cases b)
    case Nil
    then show ?thesis by (simp add: utf8_char_def Let_def)
  next
    case (Cons d b')
    then show ?thesis using utf8_char_prefix [of c "utf8 a" d "utf8 b'"] Cons.IH by auto
  qed
qed

lemma foldl_or_zero: "foldl (\<lambda>r i. r OR f i) r xs = (0 :: 8 word) \<longleftrightarrow> r = 0 \<and> (\<forall>i \<in> set xs. f i = 0)"
  by (induction xs arbitrary: r) (auto simp: or_eq_0_iff)

lemma xor_zero: "a XOR b = (0 :: 8 word) \<longleftrightarrow> a = b"
  by (auto simp: bit_eq_iff bit_simps)

lemma same_bytes_refl: "length xs = length ys \<Longrightarrow>
    (\<forall>i < max (length xs) (length ys). byte_at xs i = byte_at ys i) \<longleftrightarrow> xs = ys"
  by (auto simp: byte_at_def intro: nth_equalityI)

lemma same_bytes:
  assumes "length xs \<le> length ys"
  shows "(\<forall>i < max (length xs) (length ys). byte_at xs i = byte_at ys i) \<longleftrightarrow>
      ys = xs @ replicate (length ys - length xs) 0"
proof
  assume r: "\<forall>i < max (length xs) (length ys). byte_at xs i = byte_at ys i"
  show "ys = xs @ replicate (length ys - length xs) 0"
  proof (rule nth_equalityI)
    show "length ys = length (xs @ replicate (length ys - length xs) 0)" using assms by simp
  next
    fix i assume i: "i < length ys"
    then have "byte_at xs i = byte_at ys i" using r by simp
    then show "ys ! i = (xs @ replicate (length ys - length xs) 0) ! i"
      using i assms by (auto simp: byte_at_def nth_append split: if_splits)
  qed
next
  assume e: "ys = xs @ replicate (length ys - length xs) 0"
  show "\<forall>i < max (length xs) (length ys). byte_at xs i = byte_at ys i"
  proof (intro allI impI)
    fix i assume "i < max (length xs) (length ys)"
    then have "byte_at (xs @ replicate (length ys - length xs) 0) i = byte_at xs i"
      using assms by (auto simp: byte_at_def nth_append)
    then show "byte_at xs i = byte_at ys i" using e by simp
  qed
qed

definition nul_padded :: "string \<Rightarrow> string \<Rightarrow> bool" where
  "nul_padded a b \<longleftrightarrow> (\<exists>n. b = a @ replicate n NUL)"

lemma utf8_padded: "(\<exists>n. utf8 b = utf8 a @ replicate n 0) \<longleftrightarrow> nul_padded a b"
proof -
  have "utf8 b = utf8 a @ replicate n 0 \<longleftrightarrow> b = a @ replicate n NUL" for n
    by (metis utf8_NUL utf8_inject utf8_simps(3))
  then show ?thesis by (simp add: nul_padded_def)
qed

lemma safeCompare_bytes:
  "safeCompare a b \<longleftrightarrow>
     (\<forall>i < max (length (utf8 a)) (length (utf8 b)). byte_at (utf8 a) i = byte_at (utf8 b) i)"
proof (cases "length (utf8 a) = length (utf8 b)")
  case True
  then show ?thesis using same_bytes_refl [OF True] by (simp only: safeCompare_def Let_def) simp
next
  case False
  then show ?thesis by (auto simp: safeCompare_def Let_def foldl_or_zero xor_zero)
qed

lemma safeCompare_padded: "safeCompare a b \<longleftrightarrow> nul_padded a b \<or> nul_padded b a"
proof -
  have pad: "(\<forall>i < max (length (utf8 x)) (length (utf8 y)). byte_at (utf8 x) i = byte_at (utf8 y) i) \<longleftrightarrow>
      nul_padded x y" if l: "length (utf8 x) \<le> length (utf8 y)" for x y
  proof -
    have "n = length (utf8 y) - length (utf8 x)" if "utf8 y = utf8 x @ replicate n 0" for n
      by (simp add: that)
    then show ?thesis unfolding same_bytes [OF l] utf8_padded [symmetric] by blast
  qed
  have len: "nul_padded x y \<Longrightarrow> length (utf8 x) \<le> length (utf8 y)" for x y
    by (auto simp: nul_padded_def)
  have sym: "(\<forall>i < max (length x) (length y). byte_at x i = byte_at y i) \<longleftrightarrow>
      (\<forall>i < max (length y) (length x). byte_at y i = byte_at x i)" for x y
    by (auto simp: max.commute)
  show ?thesis
  proof (cases "length (utf8 a) \<le> length (utf8 b)")
    case True
    then have "nul_padded b a \<Longrightarrow> nul_padded a b"
      using len [of b a] pad [of b a] pad [of a b] sym [of "utf8 a" "utf8 b"] by simp
    then show ?thesis using pad [OF True] by (auto simp: safeCompare_bytes)
  next
    case False
    then have "length (utf8 b) \<le> length (utf8 a)" by simp
    from pad [OF this] show ?thesis
      using False len [of a b] sym [of "utf8 a" "utf8 b"] by (auto simp: safeCompare_bytes)
  qed
qed


text \<open>
  Authentication of the web server (packages/auth/src/authPlugin.ts). Hooks of Fastify run in
  order before the handler of a route: a hook that has sent a reply ends the chain, otherwise the
  next one gets the request, to which a hook may attach the subject. Providers are those of
  the theory Auth or any function that answers. Log lines are left out.
\<close>

subsection \<open>Requests and replies\<close>

datatype header_value = One_value string | Many_values "string list"

record request =
  rq_method :: string
  rq_url :: string
  rq_authorization :: "string option"
  rq_x_api_key :: "header_value option"
  rq_auth :: "subject option"

datatype 'v body = Value_body 'v | Error_body string string "jsval option"

record 'v reply =
  rp_status :: nat
  rp_body :: "'v body"

fun code_str :: "adapter_error_code \<Rightarrow> string" where
  "code_str VALIDATION_ERROR = ''VALIDATION_ERROR''"
| "code_str AUTH_MISSING = ''AUTH_MISSING''"
| "code_str AUTH_FORBIDDEN = ''AUTH_FORBIDDEN''"
| "code_str NOT_FOUND = ''NOT_FOUND''"
| "code_str PHASE_CONFLICT = ''PHASE_CONFLICT''"
| "code_str RATE_LIMITED = ''RATE_LIMITED''"
| "code_str HERMES_ERROR = ''HERMES_ERROR''"
| "code_str SERVICE_UNAVAILABLE = ''SERVICE_UNAVAILABLE''"

text \<open>The reply with the status of the error's code and the envelope around it.\<close>

definition error_reply :: "adapter_error_shape \<Rightarrow> 'v reply" where
  "error_reply e = \<lparr>rp_status = ADAPTER_ERROR_HTTP_STATUS (ae_code e),
     rp_body = Error_body (code_str (ae_code e)) (ae_message e) (ae_detail e)\<rparr>"

datatype 'v hook_result = Go_on request | Answer "'v reply"

type_synonym 'v hook = "request \<Rightarrow> 'v hook_result"

fun run_hooks :: "'v hook list \<Rightarrow> request \<Rightarrow> 'v hook_result" where
  "run_hooks [] req = Go_on req"
| "run_hooks (h # hs) req = (case h req of Go_on req' \<Rightarrow> run_hooks hs req' | Answer r \<Rightarrow> Answer r)"

subsection \<open>The hook of addAuth\<close>

definition extractBearerToken :: "string option \<Rightarrow> string option" where
  "extractBearerToken authorization = (case authorization of
     None \<Rightarrow> None
   | Some a \<Rightarrow>
       if a = [] then None
       else case split_on (CHR '' '') a of
           [scheme, token] \<Rightarrow> if scheme \<noteq> ''Bearer'' then None else Some token
         | _ \<Rightarrow> None)"

definition extractApiKey :: "request \<Rightarrow> string option" where
  "extractApiKey req = (case rq_x_api_key req of Some (One_value v) \<Rightarrow> Some v | _ \<Rightarrow> None)"

definition ends_with :: "'a list \<Rightarrow> 'a list \<Rightarrow> bool" where
  "ends_with xs ys = starts_with (rev xs) (rev ys)"

definition isPublicPath :: "string \<Rightarrow> string list \<Rightarrow> bool" where
  "isPublicPath pathname publicPaths =
     list_ex (\<lambda>p. if ends_with p ''/'' then starts_with pathname p else pathname = p) publicPaths"

record auth_config =
  ac_provider :: auth_provider
  ac_publicPaths :: "string list option"

definition public_paths :: "auth_config \<Rightarrow> string list" where
  "public_paths cfg = override [''/health'', ''/version''] (ac_publicPaths cfg)"

definition pathname_of :: "request \<Rightarrow> string" where
  "pathname_of req = hd (split_on (CHR ''?'') (rq_url req))"

definition credential_of :: "request \<Rightarrow> string option" where
  "credential_of req = (case extractBearerToken (rq_authorization req) of
     Some t \<Rightarrow> Some t | None \<Rightarrow> extractApiKey req)"

definition addAuth :: "auth_config \<Rightarrow> 'v hook" where
  "addAuth cfg req =
     (if isPublicPath (pathname_of req) (public_paths cfg) then Go_on req
      else case credential_of req of
          None \<Rightarrow> Answer (error_reply (adapterError AUTH_MISSING ''Authentication credentials required'' None))
        | Some credential \<Rightarrow>
            if credential = []
            then Answer (error_reply (adapterError AUTH_MISSING ''Authentication credentials required'' None))
            else case authenticate (ac_provider cfg) credential of
                Denied reason \<Rightarrow> Answer (error_reply (adapterError AUTH_FORBIDDEN reason None))
              | Authenticated s \<Rightarrow> Go_on (req\<lparr>rq_auth := Some s\<rparr>))"

definition requireAction :: "http_action \<Rightarrow> 'v hook" where
  "requireAction action req = (case rq_auth req of
     None \<Rightarrow> Answer (error_reply (adapterError AUTH_MISSING ''Authentication required'' None))
   | Some s \<Rightarrow>
       if \<not> canHttp (sub_role s) action
       then Answer (error_reply (adapterError AUTH_FORBIDDEN (denied_message (http_action_str action) (sub_role s)) None))
       else Go_on req)"

subsection \<open>Facts\<close>

lemma authenticate_keys_iff:
  "authenticate_keys keys cred = Authenticated s \<longleftrightarrow>
     (\<exists>pre e post. keys = pre @ e # post \<and> safeCompare cred (se_secret e)
        \<and> (\<forall>p \<in> set pre. \<not> safeCompare cred (se_secret p)) \<and> s = subject_of Api_key e)"
proof (induction keys)
  case Nil
  then show ?case by simp
next
  case (Cons k keys)
  show ?case
  proof (cases "safeCompare cred (se_secret k)")
    case True
    then show ?thesis by (fastforce simp: Cons_eq_append_conv)
  next
    case False
    then show ?thesis using Cons by (auto simp: Cons_eq_append_conv) (metis set_ConsD)+
  qed
qed

text \<open>
  C32: The key provider accepts a credential exactly if it equals a configured key up to NUL
  characters at the end of either, and the subject is the one of the first such key. So a
  credential of another length can be accepted, which the comparison is documented to refuse.
\<close>

theorem api_key_accepted_up_to_padding:
  "authenticate (createApiKeyProvider keys) cred = Authenticated s \<longleftrightarrow>
     (\<exists>pre e post. keys = pre @ e # post \<and> (nul_padded cred (se_secret e) \<or> nul_padded (se_secret e) cred)
        \<and> \<not> list_ex (\<lambda>p. nul_padded cred (se_secret p) \<or> nul_padded (se_secret p) cred) pre
        \<and> s = subject_of Api_key e)"
  by (simp add: createApiKeyProvider_def authenticate_keys_iff safeCompare_padded list_ex_iff)

lemma padded_credential_accepted:
  "authenticate (createApiKeyProvider [e]) (se_secret e @ replicate n NUL) = Authenticated (subject_of Api_key e)"
  by (auto simp: createApiKeyProvider_def safeCompare_padded nul_padded_def)

lemma authenticate_tokens_keys:
  "authenticate_tokens ts cred = (case authenticate_keys ts cred of
     Authenticated s \<Rightarrow> Authenticated (s\<lparr>sub_method := Bearer_token\<rparr>)
   | Denied _ \<Rightarrow> Denied ''Invalid bearer token'')"
  by (induction ts) (simp_all add: subject_of_def)

lemma bearer_iff:
  "extractBearerToken (Some a) = Some t \<longleftrightarrow> a = ''Bearer '' @ t \<and> CHR '' '' \<notin> set t"
proof -
  have "extractBearerToken (Some a) = Some t \<longleftrightarrow> split_on (CHR '' '') a = [''Bearer'', t]"
    by (auto simp: extractBearerToken_def split: list.splits if_splits)
  also have "\<dots> \<longleftrightarrow> a = ''Bearer'' @ CHR '' '' # t \<and> CHR '' '' \<notin> set t"
    by (simp add: split_on_pair)
  finally show ?thesis by simp
qed

text \<open>
  Behind the authentication hook and the check of an action, the handler of a route gets a
  fresh request exactly if the path is not public, the credential presented, the bearer token
  before the key, is accepted by the provider, and the kernel permits the action to the role
  of the subject, which is then attached to the request. On a public path the check of the
  action finds no subject, so that even a valid credential is refused.
\<close>

theorem guarded_handler_needs_permission:
  "run_hooks [addAuth cfg, requireAction action] (req\<lparr>rq_auth := None\<rparr>) = (Go_on req' :: 'v hook_result) \<longleftrightarrow>
     (\<exists>credential s. \<not> isPublicPath (pathname_of req) (public_paths cfg) \<and> credential_of req = Some credential
        \<and> credential \<noteq> [] \<and> authenticate (ac_provider cfg) credential = Authenticated s
        \<and> can (sub_role s) (TO_KERNEL_ACTION action) \<and> req' = req\<lparr>rq_auth := Some s\<rparr>)"
  by (auto simp: addAuth_def requireAction_def canHttp_kernel pathname_of_def credential_of_def extractApiKey_def
      split: option.splits auth_result.splits if_splits)

end
