(* ===== verification/Observability.thy ===== *)
theory Observability
  imports JsObjects
begin

text \<open>
  Observability (packages/observability/src): levels (types.ts), contexts (context.ts), the logger
  and its sinks (logger.ts, sinks.ts), the metrics and their registry (metrics.ts), the bundles of
  metrics (adapter-metrics.ts) and spans (tracer.ts). The context in force and generated
  identifiers are parameters. Metric objects are shared by reference: a store maps the identity of
  each to its state.
\<close>

subsection \<open>Levels and contexts\<close>

datatype log_level = Trace | Debug | Info | Warn | Error_level | Fatal

fun LOG_LEVEL_NUMERIC :: "log_level \<Rightarrow> int" where
  "LOG_LEVEL_NUMERIC Trace = 0"
| "LOG_LEVEL_NUMERIC Debug = 1"
| "LOG_LEVEL_NUMERIC Info = 2"
| "LOG_LEVEL_NUMERIC Warn = 3"
| "LOG_LEVEL_NUMERIC Error_level = 4"
| "LOG_LEVEL_NUMERIC Fatal = 5"

definition compareLogLevels :: "log_level \<Rightarrow> log_level \<Rightarrow> int" where
  "compareLogLevels a b = LOG_LEVEL_NUMERIC a - LOG_LEVEL_NUMERIC b"

definition isLevelEnabled :: "log_level \<Rightarrow> log_level \<Rightarrow> bool" where
  "isLevelEnabled current target \<longleftrightarrow> LOG_LEVEL_NUMERIC current \<le> LOG_LEVEL_NUMERIC target"

fun level_str :: "log_level \<Rightarrow> string" where
  "level_str Trace = ''trace''"
| "level_str Debug = ''debug''"
| "level_str Info = ''info''"
| "level_str Warn = ''warn''"
| "level_str Error_level = ''error''"
| "level_str Fatal = ''fatal''"

record obs_context =
  oc_requestId :: string
  oc_correlationId :: string
  oc_traceId :: "string option"
  oc_spanId :: "string option"

text \<open>The two identifiers that \<open>randomUUID\<close> gives are arguments.\<close>

definition createContext :: "string \<Rightarrow> string \<Rightarrow> string option \<Rightarrow> obs_context" where
  "createContext requestId generated supplied =
     \<lparr>oc_requestId = requestId, oc_correlationId = override generated supplied, oc_traceId = None, oc_spanId = None\<rparr>"

subsection \<open>Logger and sinks\<close>

text \<open>An entry is its object; a sink keeps what was written to it.\<close>

type_synonym log_entry = "(string, jsval) jmap"

datatype sink_kind = Console_sink | Null_sink | Array_sink

record log_sink =
  sk_name :: string
  sk_kind :: sink_kind
  sk_stdout :: "log_entry list"
  sk_stderr :: "log_entry list"
  sk_entries :: "log_entry list"

definition create_sink :: "sink_kind \<Rightarrow> string \<Rightarrow> log_sink" where
  "create_sink kind name = \<lparr>sk_name = name, sk_kind = kind, sk_stdout = [], sk_stderr = [], sk_entries = []\<rparr>"

definition sink_write :: "log_entry \<Rightarrow> log_sink \<Rightarrow> log_sink" where
  "sink_write entry s = (case sk_kind s of
     Console_sink \<Rightarrow>
       (if js_get entry ''level'' \<in> {JStr ''warn'', JStr ''error'', JStr ''fatal''}
        then s\<lparr>sk_stderr := sk_stderr s @ [entry]\<rparr> else s\<lparr>sk_stdout := sk_stdout s @ [entry]\<rparr>)
   | Null_sink \<Rightarrow> s
   | Array_sink \<Rightarrow> s\<lparr>sk_entries := sk_entries s @ [entry]\<rparr>)"

definition sink_clear :: "log_sink \<Rightarrow> log_sink" where
  "sink_clear s = s\<lparr>sk_entries := []\<rparr>"

record logger =
  lg_minLevel :: log_level
  lg_sinks :: "nat list"
  lg_adapterName :: "string option"

record logger_options =
  lo_minLevel :: "log_level option"
  lo_sinks :: "nat list option"
  lo_defaultAdapter :: "string option"

text \<open>The sink at position 0 of the store of sinks is the console sink of \<open>DEFAULT_CONFIG\<close>.\<close>

definition new_logger :: "logger_options \<Rightarrow> logger" where
  "new_logger opts = \<lparr>lg_minLevel = override Info (lo_minLevel opts), lg_sinks = override [0] (lo_sinks opts),
     lg_adapterName = lo_defaultAdapter opts\<rparr>"

definition child_logger :: "string \<Rightarrow> logger \<Rightarrow> logger" where
  "child_logger adapter l = new_logger \<lparr>lo_minLevel = Some (lg_minLevel l), lo_sinks = Some (lg_sinks l),
     lo_defaultAdapter = Some adapter\<rparr>"

definition str_member :: "string \<Rightarrow> string option \<Rightarrow> log_entry" where
  "str_member k v = (case v of None \<Rightarrow> [] | Some s \<Rightarrow> [(k, JStr s)])"

definition formatEntry :: "jsval \<Rightarrow> log_level \<Rightarrow> string \<Rightarrow> obs_context option \<Rightarrow> log_entry option
    \<Rightarrow> logger \<Rightarrow> log_entry" where
  "formatEntry timestamp level message ctx extra l =
     (let entry = [(''timestamp'', timestamp), (''level'', JStr (level_str level)), (''message'', JStr message)]
            @ str_member ''adapter'' (lg_adapterName l)
            @ str_member ''requestId'' (map_option oc_requestId ctx)
            @ str_member ''correlationId'' (map_option oc_correlationId ctx)
            @ str_member ''traceId'' (Option.bind ctx oc_traceId)
            @ str_member ''spanId'' (Option.bind ctx oc_spanId)
      in case extra of
           None \<Rightarrow> entry
         | Some ex \<Rightarrow> spread entry (filter (\<lambda>(k, v). k \<notin> {''timestamp'', ''level'', ''message''}) ex))"

definition write_all :: "nat list \<Rightarrow> log_entry \<Rightarrow> log_sink list \<Rightarrow> log_sink list" where
  "write_all ids entry sinks = fold (\<lambda>i ss. if i < length ss then ss[i := sink_write entry (ss ! i)] else ss) ids sinks"

definition log_at :: "jsval \<Rightarrow> obs_context option \<Rightarrow> log_level \<Rightarrow> string \<Rightarrow> log_entry option \<Rightarrow> logger
    \<Rightarrow> log_sink list \<Rightarrow> log_sink list" where
  "log_at timestamp ctx level message extra l sinks =
     (if \<not> isLevelEnabled (lg_minLevel l) level then sinks
      else write_all (lg_sinks l) (formatEntry timestamp level message ctx extra l) sinks)"

subsection \<open>Spans\<close>

text \<open>
  A span is the record of the calls made on it. A function run in a span returns a value or
  throws; a promise it returns is a value, whose fate is known only later.
\<close>

datatype span_status = Span_ok | Span_error string

record span =
  sp_name :: string
  sp_attributes :: "(string, string) jmap"
  sp_status :: "span_status option"
  sp_ended :: bool

datatype 'r call_result = Returns 'r | Throws string

text \<open>An attribute set on an ended span is ignored by the tracing library.\<close>

definition setAttribute :: "string \<Rightarrow> string \<Rightarrow> span \<Rightarrow> span" where
  "setAttribute k v sp = (if sp_ended sp then sp else sp\<lparr>sp_attributes := jm_set k v (sp_attributes sp)\<rparr>)"

definition setSpanAttributes :: "(string, string) jmap \<Rightarrow> span option \<Rightarrow> span option" where
  "setSpanAttributes attributes active = map_option (fold (\<lambda>(k, v). setAttribute k v) attributes) active"

definition set_when :: "string \<Rightarrow> string option \<Rightarrow> span \<Rightarrow> span" where
  "set_when k v sp = (case v of None \<Rightarrow> sp | Some s \<Rightarrow> if s = [] then sp else setAttribute k s sp)"

definition withSpan :: "string \<Rightarrow> obs_context option \<Rightarrow> (string, string) jmap option
    \<Rightarrow> (span \<Rightarrow> 'r call_result \<times> span) \<Rightarrow> 'r call_result \<times> span" where
  "withSpan name ctx attributes f =
     (let sp0 = \<lparr>sp_name = name, sp_attributes = [], sp_status = None, sp_ended = False\<rparr>;
          sp1 = set_when ''correlation.id'' (map_option oc_correlationId ctx)
                  (set_when ''request.id'' (map_option oc_requestId ctx) sp0);
          sp2 = fold (\<lambda>(k, v). setAttribute k v) (override [] attributes) sp1;
          (result, sp3) = f sp2
      in (result, case result of
            Returns _ \<Rightarrow> sp3\<lparr>sp_status := Some Span_ok, sp_ended := True\<rparr>
          | Throws message \<Rightarrow> sp3\<lparr>sp_status := Some (Span_error message), sp_ended := True\<rparr>))"

text \<open>
  The span is over when \<open>withSpan\<close> returns, and is marked as failed only when the function
  itself threw: whatever promise the function returned, the span says the work went well.
\<close>

datatype 'v promise_fate = Fulfils 'v | Rejects string

lemma rejected_promise_marks_span_ok:
  fixes f :: "span \<Rightarrow> 'v promise_fate call_result \<times> span"
  assumes "\<And>sp. fst (f sp) = Returns (Rejects e)"
  shows "sp_status (snd (withSpan name ctx attributes f)) = Some Span_ok
      \<and> sp_ended (snd (withSpan name ctx attributes f))"
  using assms by (simp add: withSpan_def Let_def split_beta)

definition invalid_trace :: string where
  "invalid_trace = replicate 32 (CHR ''0'')"

definition currentTraceId :: "string option \<Rightarrow> string option" where
  "currentTraceId active = (case active of None \<Rightarrow> None | Some i \<Rightarrow> if i \<noteq> invalid_trace then Some i else None)"

definition currentSpanId :: "string option \<Rightarrow> string option" where
  "currentSpanId active = (case active of None \<Rightarrow> None | Some i \<Rightarrow> if i \<noteq> replicate 16 (CHR ''0'') then Some i else None)"


subsection \<open>Instruments\<close>

text \<open>
  The three classes of metrics.ts differ in their value: a number, the list of observations, a
  number. A family holds all objects of a class by their identity, children made by \<open>labels\<close>
  included, and the identities in the array of the registry. Numbers are exact rationals.
\<close>

type_synonym label_map = "(string, string) jmap"

record metric_options =
  mo_name :: string
  mo_help :: string
  mo_labels :: "label_map option"

record 'v instrument =
  in_name :: string
  in_help :: string
  in_value :: 'v
  in_labels :: label_map

record 'v family =
  fm_objects :: "'v instrument list"
  fm_registered :: "nat list"

definition new_instrument :: "'v \<Rightarrow> metric_options \<Rightarrow> 'v instrument" where
  "new_instrument v opts = \<lparr>in_name = mo_name opts, in_help = mo_help opts, in_value = v,
     in_labels = override [] (mo_labels opts)\<rparr>"

definition with_labels :: "label_map \<Rightarrow> 'v instrument \<Rightarrow> 'v instrument" where
  "with_labels labels x = x\<lparr>in_labels := spread (in_labels x) labels\<rparr>"

definition create_in :: "'v \<Rightarrow> metric_options \<Rightarrow> 'v family \<Rightarrow> nat \<times> 'v family" where
  "create_in v opts fam = (length (fm_objects fam),
     fam\<lparr>fm_objects := fm_objects fam @ [new_instrument v opts],
         fm_registered := fm_registered fam @ [length (fm_objects fam)]\<rparr>)"

definition label_in :: "label_map \<Rightarrow> nat \<Rightarrow> 'v family \<Rightarrow> nat \<times> 'v family" where
  "label_in labels i fam = (length (fm_objects fam),
     fam\<lparr>fm_objects := fm_objects fam @ [with_labels labels (fm_objects fam ! i)]\<rparr>)"

definition update_in :: "('v \<Rightarrow> 'v) \<Rightarrow> nat \<Rightarrow> 'v family \<Rightarrow> 'v family" where
  "update_in f i fam = (if i < length (fm_objects fam)
     then fam\<lparr>fm_objects := (fm_objects fam)[i := (fm_objects fam ! i)\<lparr>in_value := f (in_value (fm_objects fam ! i))\<rparr>]\<rparr>
     else fam)"

definition value_in :: "nat \<Rightarrow> 'v family \<Rightarrow> 'v" where
  "value_in i fam = in_value (fm_objects fam ! i)"

definition empty_family :: "'v family" where
  "empty_family = \<lparr>fm_objects = [], fm_registered = []\<rparr>"

record metric_registry =
  mr_counters :: "rat family"
  mr_histograms :: "rat list family"
  mr_gauges :: "rat family"

definition createMetricRegistry :: metric_registry where
  "createMetricRegistry = \<lparr>mr_counters = empty_family, mr_histograms = empty_family, mr_gauges = empty_family\<rparr>"

definition reg_counter :: "metric_options \<Rightarrow> metric_registry \<Rightarrow> nat \<times> metric_registry" where
  "reg_counter opts m = (case create_in 0 opts (mr_counters m) of (i, fam) \<Rightarrow> (i, m\<lparr>mr_counters := fam\<rparr>))"

definition reg_histogram :: "metric_options \<Rightarrow> metric_registry \<Rightarrow> nat \<times> metric_registry" where
  "reg_histogram opts m = (case create_in [] opts (mr_histograms m) of (i, fam) \<Rightarrow> (i, m\<lparr>mr_histograms := fam\<rparr>))"

definition reg_gauge :: "metric_options \<Rightarrow> metric_registry \<Rightarrow> nat \<times> metric_registry" where
  "reg_gauge opts m = (case create_in 0 opts (mr_gauges m) of (i, fam) \<Rightarrow> (i, m\<lparr>mr_gauges := fam\<rparr>))"

definition counter_inc :: "rat \<Rightarrow> nat \<Rightarrow> metric_registry \<Rightarrow> metric_registry" where
  "counter_inc v i m = m\<lparr>mr_counters := update_in (\<lambda>x. x + v) i (mr_counters m)\<rparr>"

definition histogram_observe :: "rat \<Rightarrow> nat \<Rightarrow> metric_registry \<Rightarrow> metric_registry" where
  "histogram_observe v i m = m\<lparr>mr_histograms := update_in (\<lambda>xs. xs @ [v]) i (mr_histograms m)\<rparr>"

definition gauge_set :: "rat \<Rightarrow> nat \<Rightarrow> metric_registry \<Rightarrow> metric_registry" where
  "gauge_set v i m = m\<lparr>mr_gauges := update_in (\<lambda>_. v) i (mr_gauges m)\<rparr>"

definition counter_labels :: "label_map \<Rightarrow> nat \<Rightarrow> metric_registry \<Rightarrow> nat \<times> metric_registry" where
  "counter_labels ls i m = (case label_in ls i (mr_counters m) of (j, fam) \<Rightarrow> (j, m\<lparr>mr_counters := fam\<rparr>))"

definition histogram_labels :: "label_map \<Rightarrow> nat \<Rightarrow> metric_registry \<Rightarrow> nat \<times> metric_registry" where
  "histogram_labels ls i m = (case label_in ls i (mr_histograms m) of (j, fam) \<Rightarrow> (j, m\<lparr>mr_histograms := fam\<rparr>))"

definition gauge_labels :: "label_map \<Rightarrow> nat \<Rightarrow> metric_registry \<Rightarrow> nat \<times> metric_registry" where
  "gauge_labels ls i m = (case label_in ls i (mr_gauges m) of (j, fam) \<Rightarrow> (j, m\<lparr>mr_gauges := fam\<rparr>))"

definition gauge_getValue :: "nat \<Rightarrow> metric_registry \<Rightarrow> rat" where
  "gauge_getValue i m = value_in i (mr_gauges m)"

definition counter_getValue :: "nat \<Rightarrow> metric_registry \<Rightarrow> rat" where
  "counter_getValue i m = value_in i (mr_counters m)"

definition histogram_count :: "nat \<Rightarrow> metric_registry \<Rightarrow> nat" where
  "histogram_count i m = length (value_in i (mr_histograms m))"

definition histogram_sum :: "nat \<Rightarrow> metric_registry \<Rightarrow> rat" where
  "histogram_sum i m = foldl (+) 0 (value_in i (mr_histograms m))"

text \<open>\<open>percentile\<close>: beyond the last observation the array access gives \<open>undefined\<close>.\<close>

definition percentile :: "rat \<Rightarrow> rat list \<Rightarrow> rat option" where
  "percentile p xs =
     (if xs = [] then Some 0
      else let ys = sort xs; idx = \<lceil>p / 100 * of_nat (length ys)\<rceil> - 1; k = nat (max 0 idx)
        in if k < length ys then Some (ys ! k) else None)"

subsection \<open>What is reported\<close>

datatype metric_type = M_counter | M_histogram | M_gauge

record metric_entry =
  me_name :: string
  me_help :: string
  me_type :: metric_type
  me_labels :: label_map
  me_value :: rat

definition entries_of :: "metric_type \<Rightarrow> ('v \<Rightarrow> rat) \<Rightarrow> 'v family \<Rightarrow> metric_entry list" where
  "entries_of t f fam = map (\<lambda>i. let x = fm_objects fam ! i in
     \<lparr>me_name = in_name x, me_help = in_help x, me_type = t, me_labels = in_labels x, me_value = f (in_value x)\<rparr>)
     (fm_registered fam)"

definition getMetrics :: "metric_registry \<Rightarrow> metric_entry list" where
  "getMetrics m = entries_of M_counter id (mr_counters m) @ entries_of M_histogram (foldl (+) 0) (mr_histograms m)
     @ entries_of M_gauge id (mr_gauges m)"

subsection \<open>The bundles of metrics\<close>

record adapter_metrics =
  requestsTotal :: nat
  commandsTotal :: nat
  errorsTotal :: nat
  requestDurationMs :: nat
  commandDurationMs :: nat
  activeRequests :: nat
  activeCommands :: nat

definition adapter_options :: "string \<Rightarrow> string \<Rightarrow> string \<Rightarrow> metric_options" where
  "adapter_options name help adapter = \<lparr>mo_name = name, mo_help = help, mo_labels = Some [(''adapter'', adapter)]\<rparr>"

definition createAdapterMetrics :: "metric_registry \<Rightarrow> string \<Rightarrow> adapter_metrics \<times> metric_registry" where
  "createAdapterMetrics m0 adapter =
     (let (a, m1) = reg_counter (adapter_options ''requests_total'' ''Total inbound requests'' adapter) m0;
          (b, m2) = reg_counter (adapter_options ''commands_total'' ''Total commands dispatched'' adapter) m1;
          (c, m3) = reg_counter (adapter_options ''errors_total'' ''Total errors'' adapter) m2;
          (d, m4) = reg_histogram (adapter_options ''request_duration_ms'' ''Request duration in milliseconds'' adapter) m3;
          (e, m5) = reg_histogram (adapter_options ''command_duration_ms'' ''Command duration in milliseconds'' adapter) m4;
          (f, m6) = reg_gauge (adapter_options ''active_requests'' ''Number of requests currently in flight'' adapter) m5;
          (g, m7) = reg_gauge (adapter_options ''active_commands'' ''Number of commands currently in flight'' adapter) m6
      in (\<lparr>requestsTotal = a, commandsTotal = b, errorsTotal = c, requestDurationMs = d, commandDurationMs = e,
           activeRequests = f, activeCommands = g\<rparr>, m7))"

record hermes_metrics = adapter_metrics +
  lifecycleTransitionsTotal :: nat
  hermesOperationDurationMs :: nat
  loadedModules :: nat

definition createHermesMetrics :: "metric_registry \<Rightarrow> hermes_metrics \<times> metric_registry" where
  "createHermesMetrics m0 =
     (let (am, m1) = createAdapterMetrics m0 ''hermes'';
          (a, m2) = reg_counter (adapter_options ''lifecycle_transitions_total'' ''Total lifecycle phase transitions'' ''hermes'') m1;
          (b, m3) = reg_histogram (adapter_options ''hermes_operation_duration_ms'' ''Hermes operation duration in milliseconds'' ''hermes'') m2;
          (c, m4) = reg_gauge (adapter_options ''loaded_modules'' ''Number of loaded modules'' ''hermes'') m3
      in (adapter_metrics.extend am \<lparr>lifecycleTransitionsTotal = a, hermesOperationDurationMs = b, loadedModules = c\<rparr>, m4))"


text \<open>
  What the registry reports. The locale \<open>instrument_kind\<close> is what a class of instruments
  promises: how an update changes its value, and that the number reported after updates from the
  initial value is their total. Counters, histograms and gauges interpret it.
\<close>

subsection \<open>Histories of a family\<close>

datatype 'u family_op = Create metric_options | Label label_map nat | Update 'u nat

fun family_apply :: "'v \<Rightarrow> ('u \<Rightarrow> 'v \<Rightarrow> 'v) \<Rightarrow> 'u family_op \<Rightarrow> 'v family \<Rightarrow> 'v family" where
  "family_apply zero app (Create opts) fam = snd (create_in zero opts fam)"
| "family_apply zero app (Label ls i) fam = snd (label_in ls i fam)"
| "family_apply zero app (Update u i) fam = update_in (app u) i fam"

fun updates_to :: "nat \<Rightarrow> 'u family_op list \<Rightarrow> 'u list" where
  "updates_to i [] = []"
| "updates_to i (Update u j # ops) = (if j = i then u # updates_to i ops else updates_to i ops)"
| "updates_to i (_ # ops) = updates_to i ops"

locale instrument_kind =
  fixes zero :: 'v and app :: "'u \<Rightarrow> 'v \<Rightarrow> 'v" and report :: "'v \<Rightarrow> rat" and total :: "'u list \<Rightarrow> rat"
  assumes report_total: "report (fold app us zero) = total us"
begin

abbreviation run :: "'u family_op list \<Rightarrow> 'v family \<Rightarrow> 'v family" where
  "run ops fam \<equiv> fold (family_apply zero app) ops fam"

lemma apply_keeps:
  assumes "i < length (fm_objects fam)"
  shows "i < length (fm_objects (family_apply zero app op fam))"
    and "in_name (fm_objects (family_apply zero app op fam) ! i) = in_name (fm_objects fam ! i)"
    and "in_help (fm_objects (family_apply zero app op fam) ! i) = in_help (fm_objects fam ! i)"
    and "in_labels (fm_objects (family_apply zero app op fam) ! i) = in_labels (fm_objects fam ! i)"
    and "in_value (fm_objects (family_apply zero app op fam) ! i) = fold app (updates_to i [op]) (in_value (fm_objects fam ! i))"
  using assms
  by (cases op; simp add: create_in_def label_in_def update_in_def nth_append nth_list_update)+

lemma updates_to_Cons: "updates_to i (op # ops) = updates_to i [op] @ updates_to i ops"
  by (cases op) simp_all

lemma run_keeps:
  assumes "i < length (fm_objects fam)"
  shows "in_name (fm_objects (run ops fam) ! i) = in_name (fm_objects fam ! i)
      \<and> in_help (fm_objects (run ops fam) ! i) = in_help (fm_objects fam ! i)
      \<and> in_labels (fm_objects (run ops fam) ! i) = in_labels (fm_objects fam ! i)
      \<and> in_value (fm_objects (run ops fam) ! i) = fold app (updates_to i ops) (in_value (fm_objects fam ! i))"
  using assms
proof (induction ops arbitrary: fam)
  case Nil
  then show ?case by simp
next
  case (Cons op ops)
  note k = apply_keeps [OF Cons.prems, of op]
  show ?case using Cons.IH [OF k(1)] k by (simp add: updates_to_Cons [of i op ops])
qed

lemma run_registered: "set (fm_registered fam) \<subseteq> set (fm_registered (run ops fam))"
proof (induction ops arbitrary: fam)
  case Nil
  then show ?case by simp
next
  case (Cons op ops)
  have "set (fm_registered fam) \<subseteq> set (fm_registered (family_apply zero app op fam))"
    by (cases op) (auto simp: create_in_def label_in_def update_in_def)
  then show ?case using Cons.IH by fastforce
qed

lemma reported:
  assumes "create_in zero opts fam = (i, fam1)"
  shows "\<lparr>me_name = mo_name opts, me_help = mo_help opts, me_type = t,
      me_labels = override [] (mo_labels opts), me_value = total (updates_to i ops)\<rparr>
    \<in> set (entries_of t report (run ops fam1))"
proof -
  from assms have i: "i < length (fm_objects fam1)" "i \<in> set (fm_registered fam1)"
      "fm_objects fam1 ! i = new_instrument zero opts"
    by (auto simp: create_in_def)
  from i(2) run_registered have "i \<in> set (fm_registered (run ops fam1))" by blast
  with run_keeps [OF i(1), of ops] i(3) show ?thesis
    by (force simp: entries_of_def Let_def new_instrument_def report_total image_iff)
qed

lemma children_unseen:
  assumes "\<And>op. op \<in> set ops \<Longrightarrow> (\<exists>ls i. op = Label ls i) \<or> (\<exists>u i. op = Update u i \<and> i \<notin> set (fm_registered fam))"
    and "\<forall>i \<in> set (fm_registered fam). i < length (fm_objects fam)"
  shows "entries_of t report (run ops fam) = entries_of t report fam"
  using assms
proof (induction ops arbitrary: fam)
  case Nil
  then show ?case by simp
next
  case (Cons op ops)
  let ?f = "family_apply zero app op fam"
  have reg: "fm_registered ?f = fm_registered fam"
    using Cons.prems(1) [of op] by (auto simp: label_in_def update_in_def)
  have "\<forall>i \<in> set (fm_registered fam). i < length (fm_objects ?f)"
    using Cons.prems(2) apply_keeps(1) by blast
  with Cons.IH [of ?f] Cons.prems(1) reg
  have "entries_of t report (run ops ?f) = entries_of t report ?f" by simp
  moreover have "entries_of t report ?f = entries_of t report fam"
    using Cons.prems(1) [of op] Cons.prems(2)
    by (auto simp: entries_of_def label_in_def update_in_def nth_append nth_list_update)
  ultimately show ?case by simp
qed

end

definition last_or_zero :: "rat list \<Rightarrow> rat" where
  "last_or_zero us = (if us = [] then 0 else last us)"

lemma fold_add: "fold (\<lambda>v x. x + v) us z = z + sum_list us" for z :: rat
  by (induction us arbitrary: z) simp_all

lemma foldl_add: "foldl (+) z us = z + sum_list us" for z :: rat
  by (induction us arbitrary: z) simp_all

lemma fold_snoc: "fold (\<lambda>v xs. xs @ [v]) us zs = zs @ us"
  by (induction us arbitrary: zs) simp_all

lemma fold_const: "fold (\<lambda>v _. v) us z = (if us = [] then z else last us)"
  by (induction us arbitrary: z) simp_all

interpretation counters: instrument_kind 0 "\<lambda>v x. x + v" id sum_list
  by unfold_locales (simp add: fold_add)

interpretation histograms: instrument_kind "[]" "\<lambda>v xs. xs @ [v]" "foldl (+) 0" sum_list
  by unfold_locales (simp add: fold_snoc foldl_add)

interpretation gauges: instrument_kind 0 "\<lambda>v _. v" id last_or_zero
  by unfold_locales (simp add: fold_const last_or_zero_def)

subsection \<open>Histories of a registry\<close>

datatype metric_op =
    On_counters "rat family_op"
  | On_histograms "rat family_op"
  | On_gauges "rat family_op"

fun metric_apply :: "metric_op \<Rightarrow> metric_registry \<Rightarrow> metric_registry" where
  "metric_apply (On_counters (Create opts)) m = snd (reg_counter opts m)"
| "metric_apply (On_counters (Label ls i)) m = snd (counter_labels ls i m)"
| "metric_apply (On_counters (Update v i)) m = counter_inc v i m"
| "metric_apply (On_histograms (Create opts)) m = snd (reg_histogram opts m)"
| "metric_apply (On_histograms (Label ls i)) m = snd (histogram_labels ls i m)"
| "metric_apply (On_histograms (Update v i)) m = histogram_observe v i m"
| "metric_apply (On_gauges (Create opts)) m = snd (reg_gauge opts m)"
| "metric_apply (On_gauges (Label ls i)) m = snd (gauge_labels ls i m)"
| "metric_apply (On_gauges (Update v i)) m = gauge_set v i m"

abbreviation metric_run :: "metric_op list \<Rightarrow> metric_registry \<Rightarrow> metric_registry" where
  "metric_run \<equiv> fold metric_apply"

definition on_counters :: "metric_op list \<Rightarrow> rat family_op list" where
  "on_counters ops = concat (map (\<lambda>op. case op of On_counters f \<Rightarrow> [f] | _ \<Rightarrow> []) ops)"

definition on_histograms :: "metric_op list \<Rightarrow> rat family_op list" where
  "on_histograms ops = concat (map (\<lambda>op. case op of On_histograms f \<Rightarrow> [f] | _ \<Rightarrow> []) ops)"

definition on_gauges :: "metric_op list \<Rightarrow> rat family_op list" where
  "on_gauges ops = concat (map (\<lambda>op. case op of On_gauges f \<Rightarrow> [f] | _ \<Rightarrow> []) ops)"

lemmas metric_defs = reg_counter_def reg_histogram_def reg_gauge_def counter_labels_def histogram_labels_def
  gauge_labels_def counter_inc_def histogram_observe_def gauge_set_def

lemma metric_apply_families:
  "mr_counters (metric_apply op m) = fold (family_apply 0 (\<lambda>v x. x + v)) (on_counters [op]) (mr_counters m)
   \<and> mr_histograms (metric_apply op m) = fold (family_apply [] (\<lambda>v xs. xs @ [v])) (on_histograms [op]) (mr_histograms m)
   \<and> mr_gauges (metric_apply op m) = fold (family_apply 0 (\<lambda>v _. v)) (on_gauges [op]) (mr_gauges m)"
  by (cases "(op, m)" rule: metric_apply.cases)
    (auto simp: metric_defs on_counters_def on_histograms_def on_gauges_def split: prod.split)

lemma on_family_Cons:
  "on_counters (op # ops) = on_counters [op] @ on_counters ops"
  "on_histograms (op # ops) = on_histograms [op] @ on_histograms ops"
  "on_gauges (op # ops) = on_gauges [op] @ on_gauges ops"
  by (simp_all add: on_counters_def on_histograms_def on_gauges_def)

lemma metric_run_families:
  "mr_counters (metric_run ops m) = counters.run (on_counters ops) (mr_counters m)
   \<and> mr_histograms (metric_run ops m) = histograms.run (on_histograms ops) (mr_histograms m)
   \<and> mr_gauges (metric_run ops m) = gauges.run (on_gauges ops) (mr_gauges m)"
proof (induction ops arbitrary: m)
  case Nil
  then show ?case by (simp add: on_counters_def on_histograms_def on_gauges_def)
next
  case (Cons op ops)
  show ?case
    using Cons.IH [of "metric_apply op m"] metric_apply_families [of op m]
    by (simp add: on_family_Cons [of op ops])
qed

text \<open>
  Whatever happens to a registry after a counter, a histogram and a gauge were made, its
  report holds for each an entry with its name, help text and labels: for the counter the sum of
  the increments made to it, for the histogram the sum of its observations, for the gauge the
  value set last, or 0.
\<close>

theorem metrics_report_totals:
  "(case reg_counter copts m of (c, m1) \<Rightarrow>
    case reg_histogram hopts m1 of (h, m2) \<Rightarrow>
    case reg_gauge gopts m2 of (g, m3) \<Rightarrow>
      {\<lparr>me_name = mo_name copts, me_help = mo_help copts, me_type = M_counter,
         me_labels = override [] (mo_labels copts), me_value = sum_list (updates_to c (on_counters ops))\<rparr>,
       \<lparr>me_name = mo_name hopts, me_help = mo_help hopts, me_type = M_histogram,
         me_labels = override [] (mo_labels hopts), me_value = sum_list (updates_to h (on_histograms ops))\<rparr>,
       \<lparr>me_name = mo_name gopts, me_help = mo_help gopts, me_type = M_gauge,
         me_labels = override [] (mo_labels gopts), me_value = last_or_zero (updates_to g (on_gauges ops))\<rparr>}
      \<subseteq> set (getMetrics (metric_run ops m3)))"
proof -
  obtain c fc where c: "create_in 0 copts (mr_counters m) = (c, fc)" by (cases "create_in 0 copts (mr_counters m)") auto
  obtain h fh where h: "create_in [] hopts (mr_histograms m) = (h, fh)"
    by (cases "create_in [] hopts (mr_histograms m)") auto
  obtain g fg where g: "create_in 0 gopts (mr_gauges m) = (g, fg)" by (cases "create_in 0 gopts (mr_gauges m)") auto
  show ?thesis
    using counters.reported [OF c, of M_counter "on_counters ops"]
      histograms.reported [OF h, of M_histogram "on_histograms ops"]
      gauges.reported [OF g, of M_gauge "on_gauges ops"]
    by (simp add: reg_counter_def reg_histogram_def reg_gauge_def c h g getMetrics_def metric_run_families)
qed

text \<open>
  Increments of a counter that \<open>labels\<close> returned, and any other use of such children, never
  change the report.
\<close>

definition wf_registry :: "metric_registry \<Rightarrow> bool" where
  "wf_registry m \<longleftrightarrow> (\<forall>i \<in> set (fm_registered (mr_counters m)). i < length (fm_objects (mr_counters m)))
     \<and> (\<forall>i \<in> set (fm_registered (mr_histograms m)). i < length (fm_objects (mr_histograms m)))
     \<and> (\<forall>i \<in> set (fm_registered (mr_gauges m)). i < length (fm_objects (mr_gauges m)))"

fun on_child :: "nat set \<Rightarrow> 'u family_op \<Rightarrow> bool" where
  "on_child reg (Create _) = False"
| "on_child reg (Label _ _) = True"
| "on_child reg (Update _ i) = (i \<notin> reg)"

lemma on_child_cases: "on_child reg op \<Longrightarrow> (\<exists>ls i. op = Label ls i) \<or> (\<exists>u i. op = Update u i \<and> i \<notin> reg)"
  by (cases op) auto

lemma children_never_reported:
  assumes "wf_registry m"
    and "list_all (on_child (set (fm_registered (mr_counters m)))) (on_counters ops)"
    and "list_all (on_child (set (fm_registered (mr_histograms m)))) (on_histograms ops)"
    and "list_all (on_child (set (fm_registered (mr_gauges m)))) (on_gauges ops)"
  shows "getMetrics (metric_run ops m) = getMetrics m"
proof -
  have "entries_of M_counter id (counters.run (on_counters ops) (mr_counters m)) = entries_of M_counter id (mr_counters m)"
    using assms by (intro counters.children_unseen) (auto simp: wf_registry_def list_all_iff dest: on_child_cases)
  moreover have "entries_of M_histogram (foldl (+) 0) (histograms.run (on_histograms ops) (mr_histograms m)) =
      entries_of M_histogram (foldl (+) 0) (mr_histograms m)"
    using assms by (intro histograms.children_unseen) (auto simp: wf_registry_def list_all_iff dest: on_child_cases)
  moreover have "entries_of M_gauge id (gauges.run (on_gauges ops) (mr_gauges m)) = entries_of M_gauge id (mr_gauges m)"
    using assms by (intro gauges.children_unseen) (auto simp: wf_registry_def list_all_iff dest: on_child_cases)
  ultimately show ?thesis by (simp add: getMetrics_def metric_run_families)
qed

subsection \<open>Percentiles\<close>

text \<open>
  The nearest-rank definition: the smallest observation that at least p percent of the
  observations do not exceed.
\<close>

abbreviation at_most :: "rat \<Rightarrow> rat list \<Rightarrow> nat" where
  "at_most v xs \<equiv> length (filter (\<lambda>x. x \<le> v) xs)"

lemma at_most_sorted_ge:
  assumes "sorted ys" "k < length ys"
  shows "Suc k \<le> at_most (ys ! k) ys"
proof -
  have "list_all (\<lambda>x. x \<le> ys ! k) (take (Suc k) ys)"
    using assms by (auto simp: list_all_length sorted_iff_nth_mono min_def)
  then have "filter (\<lambda>x. x \<le> ys ! k) (take (Suc k) ys) = take (Suc k) ys"
    by (simp add: list_all_iff filter_id_conv)
  moreover have "at_most (ys ! k) ys = length (filter (\<lambda>x. x \<le> ys ! k) (take (Suc k) ys))
      + length (filter (\<lambda>x. x \<le> ys ! k) (drop (Suc k) ys))"
    by (metis append_take_drop_id filter_append length_append)
  ultimately show ?thesis using assms(2) by simp
qed

lemma at_most_sorted_less:
  assumes "sorted ys" "k < length ys" "y < ys ! k"
  shows "at_most y ys \<le> k"
proof -
  have "list_all (\<lambda>x. \<not> x \<le> y) (drop k ys)"
    unfolding list_all_length
  proof (intro allI impI)
    fix i assume "i < length (drop k ys)"
    then have "ys ! k \<le> ys ! (k + i)" using assms by (intro sorted_nth_mono) auto
    then show "\<not> drop k ys ! i \<le> y" using assms(2,3) by simp
  qed
  then have "filter (\<lambda>x. x \<le> y) (drop k ys) = []" by (simp add: list_all_iff filter_empty_conv)
  then have "at_most y ys = length (filter (\<lambda>x. x \<le> y) (take k ys))"
    by (metis append_Nil2 append_take_drop_id filter_append)
  also have "\<dots> \<le> k" by (metis length_filter_le length_take min.boundedE)
  finally show ?thesis .
qed

lemma at_most_sort: "at_most v (sort xs) = at_most v xs"
  by (metis filter_sort length_sort)

lemma percentile_nearest_rank:
  assumes "xs \<noteq> []" "0 \<le> p" "p \<le> 100"
  shows "\<exists>v \<in> set xs. percentile p xs = Some v \<and> p / 100 * of_nat (length xs) \<le> of_nat (at_most v xs)
      \<and> (\<forall>y \<in> set xs. y < v \<longrightarrow> of_nat (at_most y xs) < p / 100 * of_nat (length xs))"
proof -
  let ?q = "p / 100 * of_nat (length xs)" and ?ys = "sort xs"
  let ?k = "nat (max 0 (\<lceil>?q\<rceil> - 1))"
  have n: "0 < length xs" using assms(1) by simp
  have q: "0 \<le> ?q" "?q \<le> of_nat (length xs)" using assms by (simp_all add: mult_le_cancel_right2)
  then have "\<lceil>?q\<rceil> \<le> int (length xs)" by (simp add: ceiling_le_iff)
  then have "?k < length xs" using n by linarith
  then have k: "?k < length ?ys" by simp
  have v: "percentile p xs = Some (?ys ! ?k)" using assms(1) k by (simp add: percentile_def Let_def)
  have "\<lceil>?q\<rceil> \<le> int (Suc ?k)" by linarith
  then have "?q \<le> of_nat (Suc ?k)" by (metis ceiling_le_iff of_int_of_nat_eq)
  also have "\<dots> \<le> (of_nat (at_most (?ys ! ?k) xs) :: rat)"
    using at_most_sorted_ge [of ?ys ?k] k by (simp only: at_most_sort of_nat_le_iff) simp
  finally have ge: "?q \<le> of_nat (at_most (?ys ! ?k) xs)" .
  have less: "of_nat (at_most y xs) < ?q" if y: "y \<in> set xs" "y < ?ys ! ?k" for y
  proof -
    have m: "at_most y xs \<le> ?k" using at_most_sorted_less [of ?ys ?k y] k y(2) by (simp add: at_most_sort)
    have "0 < at_most y xs" using y(1) by (auto simp: filter_empty_conv)
    then have "int ?k = \<lceil>?q\<rceil> - 1" using m by linarith
    then have "int ?k < \<lceil>?q\<rceil>" by linarith
    then have "of_nat ?k < ?q" unfolding less_ceiling_iff by simp
    with m show ?thesis by (meson le_less_trans of_nat_le_iff)
  qed
  have "?ys ! ?k \<in> set xs" using k by (metis nth_mem set_sort)
  with v ge less show ?thesis by blast
qed

end
