(* ===== verification/ApiRoutes.thy ===== *)
theory ApiRoutes
  imports Auth HermesKernelFacts GraphStoreFacts Observability
begin

text \<open>
  The web server's routes (apps/api/src/routes: hermes.ts, graph.ts, mission-control.ts, version.ts)
  over the kernel, the graph and the registry of metrics, behind the hooks of app.ts.
  A reply holds the JSON value of its body. Instants are numbers there. The search of the graph
  reads the text of properties from the parameter \<open>text_of\<close>. Finding the route of a request is
  Fastify's; a query string is the list of its parameters, each given once.
\<close>

definition js_nat :: "nat \<Rightarrow> jsval" where
  "js_nat n = JNum (of_nat n)"

definition js_instant :: "instant \<Rightarrow> jsval" where
  "js_instant t = JNum (of_int t)"

definition ok_reply :: "jsval \<Rightarrow> jsval reply" where
  "ok_reply v = \<lparr>rp_status = 200, rp_body = Value_body v\<rparr>"

definition counted :: "('a \<Rightarrow> jsval) \<Rightarrow> 'a list \<Rightarrow> jsval" where
  "counted f xs = JObj [(''count'', js_nat (length xs)), (''items'', JArr (map f xs))]"

subsection \<open>The kernel\<close>

datatype hermes_route =
    Get_status | Get_health | Post_start | Post_stop | Get_modules | Get_plugins | Get_metrics
  | Get_config | Get_version

fun health_str :: "module_health \<Rightarrow> string" where
  "health_str healthy = ''healthy''"
| "health_str degraded = ''degraded''"
| "health_str failed = ''failed''"
| "health_str unknown = ''unknown''"

definition configToJson :: "hermes_config \<Rightarrow> jsval" where
  "configToJson cfg = JObj
     [(''nodeEnv'', JStr (nodeEnv cfg)), (''logLevel'', JStr (logLevel cfg)),
      (''openrouterApiKey'', JStr (openrouterApiKey cfg)), (''databaseUrl'', JStr (databaseUrl cfg)),
      (''redisUrl'', JStr (redisUrl cfg)), (''otelEnabled'', JBool (otelEnabled cfg)),
      (''otelExporterEndpoint'', (case otelExporterEndpoint cfg of None \<Rightarrow> JNull | Some e \<Rightarrow> JStr e)),
      (''hermesModulesDir'', JStr (hermesModulesDir cfg)),
      (''hermesShutdownTimeoutMs'', JNum (of_int (hermesShutdownTimeoutMs cfg)))]"

definition moduleToJson :: "health_detail \<Rightarrow> jsval" where
  "moduleToJson d = JObj ([(''name'', JStr (d_name d)), (''status'', JStr (health_str (d_status d)))]
     @ (case d_detail d of None \<Rightarrow> [] | Some t \<Rightarrow> if t = [] then [] else [(''detail'', JStr t)]))"

fun metric_type_str :: "metric_type \<Rightarrow> string" where
  "metric_type_str M_counter = ''counter''"
| "metric_type_str M_histogram = ''histogram''"
| "metric_type_str M_gauge = ''gauge''"

definition metricsToJson :: "metric_entry list \<Rightarrow> jsval" where
  "metricsToJson metrics = counted (\<lambda>m. JObj
     [(''name'', JStr (me_name m)), (''help'', JStr (me_help m)), (''type'', JStr (metric_type_str (me_type m))),
      (''labels'', JObj (map (\<lambda>(k, v). (k, JStr v)) (me_labels m))), (''value'', JNum (me_value m))]) metrics"

definition statusToJson :: "hermes_status \<Rightarrow> jsval" where
  "statusToJson s = JObj [(''phase'', JStr (phase_str (status_phase s))), (''uptime'', JNum (of_int (uptime s))),
     (''modules'', js_nat (modules s))]"

definition detailToJson :: "health_detail \<Rightarrow> jsval" where
  "detailToJson d = JObj ([(''name'', JStr (d_name d)), (''status'', JStr (health_str (d_status d)))]
     @ (case d_detail d of None \<Rightarrow> [] | Some t \<Rightarrow> [(''detail'', JStr t)]))"

definition healthToJson :: "health_report \<Rightarrow> jsval" where
  "healthToJson r = JObj [(''status'', JStr (health_str (hr_status r))),
     (''modules'', JArr (map detailToJson (hr_modules r))), (''at'', js_instant (hr_at r))]"

definition errorReply :: "string \<Rightarrow> jsval reply" where
  "errorReply e = error_reply (mapKernelErrorToAdapterError (Plain_error e))"

definition phase_value :: "string \<Rightarrow> instant \<Rightarrow> hermes \<Rightarrow> jsval" where
  "phase_value flag now h = JObj [(flag, JBool True), (''phase'', JStr (phase_str (status_phase (hermes_status_of now h))))]"

text \<open>
  \<open>stop\<close> runs to its end with nothing else at its awaits; \<open>None\<close> would be a call that never
  returns.
\<close>

fun hermes_route_handler :: "instant \<Rightarrow> metric_registry option \<Rightarrow> hermes_route \<Rightarrow> hermes
    \<Rightarrow> jsval reply option \<times> hermes" where
  "hermes_route_handler now reg Get_status h = (Some (ok_reply (statusToJson (hermes_status_of now h))), h)"
| "hermes_route_handler now reg Get_health h = (case kernel_health now h of
     (rep, h') \<Rightarrow> (Some (ok_reply (healthToJson rep)), h'))"
| "hermes_route_handler now reg Post_start h = (case start now h of
     (Inr _, h') \<Rightarrow> (Some (ok_reply (phase_value ''started'' now h')), h')
   | (Inl e, h') \<Rightarrow> (Some (errorReply e), h'))"
| "hermes_route_handler now reg Post_stop h = (case stop now h of
     (Some (Inr _), h') \<Rightarrow> (Some (ok_reply (phase_value ''stopped'' now h')), h')
   | (Some (Inl e), h') \<Rightarrow> (Some (errorReply e), h')
   | (None, h') \<Rightarrow> (None, h'))"
| "hermes_route_handler now reg Get_modules h = (case kernel_health now h of
     (rep, h') \<Rightarrow> (Some (ok_reply (JObj [(''count'', js_nat (modules (hermes_status_of now h))),
        (''items'', JArr (map moduleToJson (hr_modules rep)))])), h'))"
| "hermes_route_handler now reg Get_plugins h = (case kernel_health now h of
     (rep, h') \<Rightarrow> (Some (ok_reply (counted moduleToJson (hr_modules rep))), h'))"
| "hermes_route_handler now reg Get_metrics h =
     (Some (ok_reply (metricsToJson (case reg of None \<Rightarrow> [] | Some m \<Rightarrow> getMetrics m))), h)"
| "hermes_route_handler now reg Get_config h =
     (Some (ok_reply (configToJson (redactHermesConfig (config h)))), h)"
| "hermes_route_handler now reg Get_version h =
     (Some (ok_reply (JObj [(''name'', JStr ''@agent-os/hermes''), (''version'', JStr ''1.0.0'')])), h)"

subsection \<open>The graph\<close>

fun node_type_str :: "node_type \<Rightarrow> string" where
  "node_type_str N_agent = ''agent''"
| "node_type_str N_goal = ''goal''"
| "node_type_str N_plan = ''plan''"
| "node_type_str N_step = ''step''"
| "node_type_str N_tool = ''tool''"
| "node_type_str N_skill = ''skill''"
| "node_type_str N_memory = ''memory''"
| "node_type_str N_execution = ''execution''"
| "node_type_str N_mission = ''mission''"
| "node_type_str N_plugin = ''plugin''"
| "node_type_str N_model = ''model''"
| "node_type_str N_log = ''log''"
| "node_type_str N_entity = ''entity''"

fun edge_type_str :: "edge_type \<Rightarrow> string" where
  "edge_type_str E_executes = ''executes''"
| "edge_type_str E_uses = ''uses''"
| "edge_type_str E_achieves = ''achieves''"
| "edge_type_str E_depends_on = ''depends_on''"
| "edge_type_str E_contains = ''contains''"
| "edge_type_str E_produces = ''produces''"
| "edge_type_str E_consumes = ''consumes''"
| "edge_type_str E_triggers = ''triggers''"
| "edge_type_str E_references = ''references''"
| "edge_type_str E_extends = ''extends''"
| "edge_type_str E_related_to = ''related_to''"

definition ALL_NODE_TYPES :: "node_type list" where
  "ALL_NODE_TYPES = [N_agent, N_goal, N_plan, N_step, N_tool, N_skill, N_memory, N_execution, N_mission,
     N_plugin, N_model, N_log, N_entity]"

text \<open>The types of the graph among the names given; other names match no node.\<close>

definition known_types :: "string list \<Rightarrow> node_type list" where
  "known_types names = filter (\<lambda>t. node_type_str t \<in> set names) ALL_NODE_TYPES"

definition nodeToJson :: "graph_node \<Rightarrow> jsval" where
  "nodeToJson n = JObj [(''id'', JStr (gn_id n)), (''type'', JStr (node_type_str (gn_type n))),
     (''label'', JStr (gn_label n)), (''properties'', JObj (gn_properties n)),
     (''createdAt'', js_instant (gn_createdAt n)), (''updatedAt'', js_instant (gn_updatedAt n))]"

definition edgeToJson :: "graph_edge \<Rightarrow> jsval" where
  "edgeToJson e = JObj [(''id'', JStr (ge_id e)), (''type'', JStr (edge_type_str (ge_type e))),
     (''sourceId'', JStr (ge_sourceId e)), (''targetId'', JStr (ge_targetId e)), (''weight'', JNum (ge_weight e)),
     (''properties'', JObj (ge_properties e)), (''createdAt'', js_instant (ge_createdAt e))]"

type_synonym query_string = "(string, string) jmap"

text \<open>
  \<open>query[k] ? parseInt(query[k], 10) : undefined\<close>: outside \<open>None\<close> is \<open>undefined\<close>, inside NaN.
\<close>

definition int_param :: "string \<Rightarrow> query_string \<Rightarrow> int option option" where
  "int_param k q = (case jm_get q k of None \<Rightarrow> None | Some s \<Rightarrow> if s = [] then None else Some (parse_int s))"

definition list_param :: "string \<Rightarrow> query_string \<Rightarrow> string list option" where
  "list_param k q = map_option (split_on (CHR '','')) (jm_get q k)"

text \<open>\<open>queryNodes\<close> with a limit or an offset that may be NaN: the slice is then empty.\<close>

definition query_nodes :: "string list option \<Rightarrow> int option option \<Rightarrow> int option option \<Rightarrow> graphiti
    \<Rightarrow> graph_node list" where
  "query_nodes types limit offset g =
     (if limit = Some None \<or> offset = Some None then []
      else case types of
          None \<Rightarrow> queryNodes \<lparr>gq_nodeTypes = None, gq_edgeTypes = None, gq_labels = None, gq_properties = None,
                    gq_limit = Option.bind limit id, gq_offset = Option.bind offset id\<rparr> g
        | Some names \<Rightarrow> if known_types names = [] then []
            else queryNodes \<lparr>gq_nodeTypes = Some (known_types names), gq_edgeTypes = None, gq_labels = None,
                    gq_properties = None, gq_limit = Option.bind limit id, gq_offset = Option.bind offset id\<rparr> g)"

definition search_nodes :: "((string, jsval) jmap \<Rightarrow> string) \<Rightarrow> string \<Rightarrow> string list option \<Rightarrow> int option option
    \<Rightarrow> graphiti \<Rightarrow> graph_node list" where
  "search_nodes text_of text types limit g =
     (if limit = Some None then []
      else case types of
          None \<Rightarrow> searchNodes text_of \<lparr>gs_text = text, gs_nodeTypes = None, gs_limit = Option.bind limit id\<rparr> g
        | Some names \<Rightarrow> if known_types names = [] then []
            else searchNodes text_of \<lparr>gs_text = text, gs_nodeTypes = Some (known_types names),
                   gs_limit = Option.bind limit id\<rparr> g)"

text \<open>\<open>getChanges(NaN)\<close> slices from the start.\<close>

definition get_changes :: "int option \<Rightarrow> graphiti \<Rightarrow> graph_change list" where
  "get_changes limit g = (case limit of None \<Rightarrow> gr_changes g | Some n \<Rightarrow> getChanges (Some n) g)"

text \<open>
  No length of a path is at least NaN; a bound above the number of all edges is never reached
  either, for the nodes of a path of the search are pairwise distinct.
\<close>

definition find_path :: "string \<Rightarrow> string \<Rightarrow> int option option \<Rightarrow> graphiti \<Rightarrow> graph_path option" where
  "find_path source target maxDepth g = (case maxDepth of
     Some None \<Rightarrow> findPath source target (Some (int (length (gr_edges g)) + 1)) g
   | _ \<Rightarrow> findPath source target (Option.bind maxDepth id) g)"

datatype graph_route =
    Get_graph query_string
  | Get_nodes query_string
  | Get_node string
  | Get_edges query_string
  | Get_search query_string
  | Get_path query_string
  | Get_stats
  | Get_history query_string

definition stats_to_json :: "graph_stats \<Rightarrow> (string \<times> jsval) list" where
  "stats_to_json s = [(''nodeCount'', js_nat (nodeCount s)), (''edgeCount'', js_nat (edgeCount s)),
     (''nodesByType'', JObj (map (\<lambda>(t, n). (node_type_str t, js_nat n)) (nodesByType s))),
     (''edgesByType'', JObj (map (\<lambda>(t, n). (edge_type_str t, js_nat n)) (edgesByType s)))]"

fun change_type_str :: "change_type \<Rightarrow> string" where
  "change_type_str Node_added = ''node_added''"
| "change_type_str Node_updated = ''node_updated''"
| "change_type_str Node_removed = ''node_removed''"
| "change_type_str Edge_added = ''edge_added''"
| "change_type_str Edge_removed = ''edge_removed''"

definition change_to_json :: "graph_change \<Rightarrow> jsval" where
  "change_to_json c = JObj ([(''type'', JStr (change_type_str (gc_type c))), (''timestamp'', js_instant (gc_timestamp c))]
     @ (case gc_nodeId c of None \<Rightarrow> [] | Some i \<Rightarrow> [(''nodeId'', JStr i)])
     @ (case gc_edgeId c of None \<Rightarrow> [] | Some i \<Rightarrow> [(''edgeId'', JStr i)]))"

definition path_to_json :: "graph_path \<Rightarrow> jsval" where
  "path_to_json p = JObj [(''nodes'', JArr (map JStr (path_nodes p))), (''edges'', JArr (map JStr (path_edges p))),
     (''length'', js_nat (path_length p))]"

definition snapshot_nodes :: "graphiti \<Rightarrow> graph_node list" where
  "snapshot_nodes g = query_nodes None (Some (Some 1000)) None g"

definition snapshot_edges :: "graphiti \<Rightarrow> graph_edge list" where
  "snapshot_edges g = concat (map (\<lambda>n. getEdges (gn_id n) Outgoing g) (snapshot_nodes g))"

definition not_found :: "string \<Rightarrow> jsval reply" where
  "not_found message = \<lparr>rp_status = 404, rp_body = Error_body ''NOT_FOUND'' message None\<rparr>"

text \<open>Any other direction than the three lists no edge.\<close>

definition edges_in_direction :: "string \<Rightarrow> string \<Rightarrow> graphiti \<Rightarrow> graph_edge list" where
  "edges_in_direction n d g =
     (if d = ''outgoing'' then getEdges n Outgoing g
      else if d = ''incoming'' then getEdges n Incoming g
      else if d = ''both'' then getEdges n Both g
      else [])"

text \<open>\<open>query[k]\<close> where the empty string counts as absent.\<close>

definition str_param :: "string \<Rightarrow> query_string \<Rightarrow> string option" where
  "str_param k q = (case jm_get q k of None \<Rightarrow> None | Some s \<Rightarrow> if s = [] then None else Some s)"

fun graph_route_handler :: "((string, jsval) jmap \<Rightarrow> string) \<Rightarrow> graph_route \<Rightarrow> graphiti \<Rightarrow> jsval reply" where
  "graph_route_handler text_of (Get_graph q) g = ok_reply (JObj
     [(''nodes'', JArr (map nodeToJson (snapshot_nodes g))),
      (''edges'', JArr (map edgeToJson (snapshot_edges g))),
      (''stats'', JObj (stats_to_json (getStats g)))])"
| "graph_route_handler text_of (Get_nodes q) g = ok_reply (counted nodeToJson
     (query_nodes (list_param ''type'' q) (int_param ''limit'' q) (int_param ''offset'' q) g))"
| "graph_route_handler text_of (Get_node i) g = (case getNode i g of
     None \<Rightarrow> not_found (''Node '' @ i @ '' not found'')
   | Some n \<Rightarrow> ok_reply (nodeToJson n))"
| "graph_route_handler text_of (Get_edges q) g = (case str_param ''nodeId'' q of
     None \<Rightarrow> ok_reply (counted edgeToJson [])
   | Some n \<Rightarrow> ok_reply (counted edgeToJson
       (edges_in_direction n (override ''both'' (jm_get q ''direction'')) g)))"
| "graph_route_handler text_of (Get_search q) g = ok_reply (counted nodeToJson
     (search_nodes text_of (override [] (jm_get q ''q'')) (list_param ''type'' q) (int_param ''limit'' q) g))"
| "graph_route_handler text_of (Get_path q) g = (case (str_param ''source'' q, str_param ''target'' q) of
     (Some s, Some t) \<Rightarrow> (case find_path s t (int_param ''maxDepth'' q) g of
         None \<Rightarrow> not_found ''No path found''
       | Some p \<Rightarrow> ok_reply (path_to_json p))
   | _ \<Rightarrow> \<lparr>rp_status = 400, rp_body = Error_body ''BAD_REQUEST'' ''source and target required'' None\<rparr>)"
| "graph_route_handler text_of Get_stats g = ok_reply (JObj (stats_to_json (getStats g)))"
| "graph_route_handler text_of (Get_history q) g = ok_reply (counted change_to_json
     (get_changes (override (Some 50) (int_param ''limit'' q)) g))"

subsection \<open>Mission control\<close>

datatype mission_route =
    Get_agents
  | Get_missions
  | Get_memory query_string
  | Get_plans
  | Get_tools
  | Get_skills
  | Get_models
  | Get_logs query_string
  | Get_metrics_summary

text \<open>\<open>properties[k] ?? d\<close>.\<close>

definition property_or :: "string \<Rightarrow> jsval \<Rightarrow> graph_node \<Rightarrow> jsval" where
  "property_or k d n = (let v = js_get (gn_properties n) k in if v = JUndefined \<or> v = JNull then d else v)"

definition nodes_of_type :: "string \<Rightarrow> int option \<Rightarrow> graphiti \<Rightarrow> graph_node list" where
  "nodes_of_type t limit g = query_nodes (Some [t]) (Some limit) None g"

definition agentToJson :: "instant \<Rightarrow> health_detail \<Rightarrow> jsval" where
  "agentToJson now m = JObj ([(''id'', JStr (d_name m)), (''name'', JStr (d_name m)),
     (''status'', JStr (health_str (d_status m))), (''type'', JStr ''module'')]
     @ (case d_detail m of None \<Rightarrow> [] | Some t \<Rightarrow> [(''detail'', JStr t)]) @ [(''registeredAt'', js_instant now)])"

definition missionToJson :: "graph_node \<Rightarrow> jsval" where
  "missionToJson e = JObj [(''id'', JStr (gn_id e)), (''name'', JStr (gn_label e)),
     (''status'', property_or ''status'' (JStr ''unknown'') e), (''goal'', property_or ''goal'' (JStr []) e),
     (''startedAt'', js_instant (gn_createdAt e)), (''updatedAt'', js_instant (gn_updatedAt e))]"

definition memoryToJson :: "graph_node \<Rightarrow> jsval" where
  "memoryToJson m = JObj [(''id'', JStr (gn_id m)), (''content'', JStr (gn_label m)),
     (''scope'', property_or ''scope'' (JStr ''unknown'') m), (''source'', property_or ''source'' (JStr ''unknown'') m),
     (''createdAt'', js_instant (gn_createdAt m)), (''updatedAt'', js_instant (gn_updatedAt m))]"

definition planToJson :: "graph_node \<Rightarrow> jsval" where
  "planToJson p = JObj [(''id'', JStr (gn_id p)), (''name'', JStr (gn_label p)),
     (''status'', property_or ''status'' (JStr ''unknown'') p), (''goal'', property_or ''goal'' (JStr []) p),
     (''stepCount'', property_or ''stepCount'' (JNum 0) p),
     (''createdAt'', js_instant (gn_createdAt p)), (''updatedAt'', js_instant (gn_updatedAt p))]"

definition toolToJson :: "graph_node \<Rightarrow> jsval" where
  "toolToJson t = JObj [(''id'', JStr (gn_id t)), (''name'', JStr (gn_label t)),
     (''type'', property_or ''toolType'' (JStr ''unknown'') t),
     (''description'', property_or ''description'' (JStr []) t),
     (''status'', property_or ''status'' (JStr ''available'') t)]"

definition skillToJson :: "graph_node \<Rightarrow> jsval" where
  "skillToJson s = JObj [(''id'', JStr (gn_id s)), (''name'', JStr (gn_label s)),
     (''description'', property_or ''description'' (JStr []) s),
     (''status'', property_or ''status'' (JStr ''available'') s)]"

definition logToJson :: "graph_node \<Rightarrow> jsval" where
  "logToJson l = JObj [(''id'', JStr (gn_id l)), (''level'', property_or ''level'' (JStr ''info'') l),
     (''message'', JStr (gn_label l)), (''source'', property_or ''source'' (JStr ''unknown'') l),
     (''timestamp'', js_instant (gn_createdAt l))]"

definition primary_model :: "hermes_config \<Rightarrow> jsval" where
  "primary_model cfg = JObj [(''id'', JStr ''primary''), (''name'', JStr ''Primary Model''),
     (''provider'', JStr (if openrouterApiKey cfg \<noteq> [] then ''openrouter'' else ''unknown'')),
     (''status'', JStr (if openrouterApiKey cfg \<noteq> [] then ''configured'' else ''not_configured''))]"

fun mission_route_handler :: "instant \<Rightarrow> mission_route \<Rightarrow> graphiti \<Rightarrow> hermes \<Rightarrow> jsval reply \<times> hermes" where
  "mission_route_handler now Get_agents g h = (case kernel_health now h of
     (rep, h') \<Rightarrow> (ok_reply (JObj [(''count'', js_nat (modules (hermes_status_of now h))),
        (''items'', JArr (map (agentToJson now) (hr_modules rep)))]), h'))"
| "mission_route_handler now Get_missions g h =
     (ok_reply (counted missionToJson (nodes_of_type ''execution'' (Some 100) g)), h)"
| "mission_route_handler now (Get_memory q) g h = (ok_reply (counted memoryToJson
     (nodes_of_type ''memory'' (override (Some 50) (int_param ''limit'' q)) g)), h)"
| "mission_route_handler now Get_plans g h =
     (ok_reply (counted planToJson (nodes_of_type ''plan'' (Some 100) g)), h)"
| "mission_route_handler now Get_tools g h =
     (ok_reply (counted toolToJson (nodes_of_type ''tool'' (Some 200) g)), h)"
| "mission_route_handler now Get_skills g h =
     (ok_reply (counted skillToJson (nodes_of_type ''skill'' (Some 200) g)), h)"
| "mission_route_handler now Get_models g h = (ok_reply (counted primary_model [config h]), h)"
| "mission_route_handler now (Get_logs q) g h = (ok_reply (counted logToJson
     (nodes_of_type ''log'' (override (Some 50) (int_param ''limit'' q)) g)), h)"
| "mission_route_handler now Get_metrics_summary g h = (ok_reply (JObj
     [(''hermes'', statusToJson (hermes_status_of now h)), (''graph'', JObj (stats_to_json (getStats g)))]), h)"

subsection \<open>The server\<close>

datatype api_route =
    Hermes_route hermes_route
  | Graph_route graph_route
  | Mission_route mission_route
  | Version_route

record api =
  api_hermes :: hermes
  api_graph :: graphiti
  api_metrics :: metric_registry
  api_bundle :: adapter_metrics

record app_config =
  cfg_auth :: "auth_config option"
  cfg_graph :: "graphiti option"
  cfg_metricRegistry :: "metric_registry option"

definition buildApp :: "app_config \<Rightarrow> hermes \<Rightarrow> api" where
  "buildApp cfg h = (case createAdapterMetrics (override createMetricRegistry (cfg_metricRegistry cfg)) ''api'' of
     (bundle, reg) \<Rightarrow> \<lparr>api_hermes = h, api_graph = override new_graph (cfg_graph cfg), api_metrics = reg,
                        api_bundle = bundle\<rparr>)"

definition auth_hooks :: "app_config \<Rightarrow> jsval hook list" where
  "auth_hooks cfg = (case cfg_auth cfg of None \<Rightarrow> [] | Some a \<Rightarrow> [addAuth a])"

fun route_handler :: "((string, jsval) jmap \<Rightarrow> string) \<Rightarrow> instant \<Rightarrow> api_route \<Rightarrow> api
    \<Rightarrow> jsval reply option \<times> api" where
  "route_handler text_of now (Hermes_route r) a =
     (case hermes_route_handler now (Some (api_metrics a)) r (api_hermes a) of (rep, h) \<Rightarrow> (rep, a\<lparr>api_hermes := h\<rparr>))"
| "route_handler text_of now (Graph_route r) a = (Some (graph_route_handler text_of r (api_graph a)), a)"
| "route_handler text_of now (Mission_route r) a =
     (case mission_route_handler now r (api_graph a) (api_hermes a) of (rep, h) \<Rightarrow> (Some rep, a\<lparr>api_hermes := h\<rparr>))"
| "route_handler text_of now Version_route a =
     (Some (ok_reply (JObj [(''name'', JStr ''@agent-os/api''), (''version'', JStr ''1.0.0'')])), a)"

text \<open>
  The hooks \<open>onRequest\<close> and \<open>onResponse\<close>. The first stores the time on the request; a request that a hook
  registered earlier has answered, as the one for preflights of CORS does, reaches only the second, without a time.
\<close>

definition on_request :: "api \<Rightarrow> api" where
  "on_request a = (let b = api_bundle a; m1 = counter_inc 1 (requestsTotal b) (api_metrics a)
     in a\<lparr>api_metrics := gauge_set (gauge_getValue (activeRequests b) m1 + 1) (activeRequests b) m1\<rparr>)"

definition on_response :: "rat \<Rightarrow> rat option \<Rightarrow> nat \<Rightarrow> api \<Rightarrow> api" where
  "on_response time startMs status_code a = (let b = api_bundle a; m = api_metrics a;
       m1 = gauge_set (max 0 (gauge_getValue (activeRequests b) m - 1)) (activeRequests b) m;
       m2 = (case startMs of
           None \<Rightarrow> m1
         | Some t \<Rightarrow> if t = 0 then m1 else histogram_observe (time - t) (requestDurationMs b) m1)
     in a\<lparr>api_metrics := (if 400 \<le> status_code then counter_inc 1 (errorsTotal b) m2 else m2)\<rparr>)"

text \<open>Hooks, then the handler, for a request whose route is found; a fresh request has no subject.\<close>

definition dispatch_request :: "app_config \<Rightarrow> ((string, jsval) jmap \<Rightarrow> string) \<Rightarrow> instant \<Rightarrow> request \<Rightarrow> api_route
    \<Rightarrow> api \<Rightarrow> jsval reply option \<times> api" where
  "dispatch_request cfg text_of now req route a =
     (case run_hooks (auth_hooks cfg) (req\<lparr>rq_auth := None\<rparr>) of
        Answer rep \<Rightarrow> (Some rep, a)
      | Go_on req' \<Rightarrow> route_handler text_of now route a)"

end
