(* ===== verification/ApiFacts.thy ===== *)
theory ApiFacts
  imports ApiRoutes
begin

text \<open>
  What the web server guarantees: which requests authentication lets through, what the start and
  stop of the kernel answer in each phase, that no reply depends on the secrets of the
  configuration, and that the server's metrics count its requests.
\<close>

subsection \<open>Answers of start and stop\<close>

lemma conflict_messages:
  "phase_message (illegal_error p t)" "phase_message ''Hermes: cannot stop from FAILED state.''"
  "\<not> phase_message ''Hermes: cannot start from terminal phase STOPPED. Create a new instance.''"
  "\<not> phase_message ''Hermes: cannot start from terminal phase FAILED. Create a new instance.''"
proof -
  show "phase_message (illegal_error p t)"
    using phase_messageI(2) [of "''HermesLifecycle: ''" "'' '' @ phase_str p @ '' -> '' @ phase_str t @ ''.''"]
    by (simp add: illegal_error_def)
qed (code_simp+)

lemma errorReply_status:
  "rp_status (errorReply e) = (if phase_message e then 409 else 500)"
  by (simp add: errorReply_def error_reply_def adapterError_def)

lemma ok_reply_status: "rp_status (ok_reply v) = 200"
  by (simp add: ok_reply_def)

definition start_status :: "phase \<Rightarrow> nat" where
  "start_status p = (if p \<in> {INITIALIZING, RUNNING} then 200 else if p \<in> {STARTING, STOPPING} then 409 else 500)"

lemma start_replies:
  assumes "quiet h"
  shows "\<exists>rep. fst (hermes_route_handler now reg Post_start h) = Some rep \<and> rp_status rep = start_status (kernel_phase h)"
  using assms
  by (cases "phase (lifecycle h)")
    (simp_all add: start_def kernel_phases start_status_def ok_reply_status errorReply_status refusal_def conflict_messages)

lemma idle_stop_answers:
  assumes "idle h"
  shows "\<exists>e h'. stop now h = (Some (Inl e), h') \<and> phase_message e \<and> idle h' \<and> kernel_phase h' = FAILED"
proof -
  have "\<exists>e. fst (stop_begin now h) = Some (Inl e) \<and> phase_message e"
    using assms by (auto simp: idle_def stop_begin_def finish_stop_def kernel_phases conflict_messages refusal_def)
  with idle_stop_begin [OF assms, of now] stop_of_begin show ?thesis
    by (metis currentPhase_def option.inject prod.collapse sum.inject(1))
qed

subsection \<open>Requests of a server\<close>

record timed_request =
  tr_now :: instant
  tr_request :: request
  tr_route :: api_route

definition serve :: "app_config \<Rightarrow> ((string, jsval) jmap \<Rightarrow> string) \<Rightarrow> timed_request list \<Rightarrow> api \<Rightarrow> api" where
  "serve cfg text_of rs a = fold (\<lambda>r a. snd (dispatch_request cfg text_of (tr_now r) (tr_request r) (tr_route r) a)) rs a"

lemma route_idle:
  assumes "idle h"
  shows "idle (snd (hermes_route_handler now reg r h))"
proof -
  have "idle (snd (start now h))" using idle_step [OF starts assms] .
  moreover have "idle (snd (kernel_health now h))" using idle_step [OF checks_health assms] .
  moreover have "idle (snd (stop now h))" using idle_stop_answers [OF assms, of now] by auto
  ultimately show ?thesis using assms by (cases r) (auto split: prod.splits sum.splits option.splits)
qed

lemma dispatch_idle:
  assumes "idle (api_hermes a)"
  shows "idle (api_hermes (snd (dispatch_request cfg text_of now req route a)))"
proof -
  have "idle (snd (kernel_health now (api_hermes a)))" using idle_step [OF checks_health assms] .
  then have "idle (snd (mission_route_handler now r g (api_hermes a)))" for r g
    using assms by (cases r) (auto split: prod.splits)
  then have "idle (api_hermes (snd (route_handler text_of now route a)))"
    using assms route_idle [OF assms] by (cases route) (auto simp: split_beta)
  then show ?thesis using assms by (auto simp: dispatch_request_def split: hook_result.split)
qed

lemma serve_idle: "idle (api_hermes a) \<Longrightarrow> idle (api_hermes (serve cfg text_of rs a))"
  unfolding serve_def by (induction rs arbitrary: a) (simp_all add: dispatch_idle)

text \<open>
  C33: The server over a kernel with its default lifecycle can never run nor orderly stop it:
  after any requests the kernel is not running, and a request to stop it, when it gets through,
  is answered with the conflict status 409 and leaves the kernel failed.
\<close>

theorem server_cannot_stop_its_kernel:
  assumes "lifecycle_option opts = None"
    and "a = serve cfg text_of rs (buildApp cfg (createHermes kcfg opts))"
    and "run_hooks (auth_hooks cfg) (req\<lparr>rq_auth := None\<rparr>) = Go_on req'"
  shows "kernel_phase (api_hermes a) \<notin> {RUNNING, STOPPING, STOPPED} \<and>
    (\<exists>rep a'. dispatch_request cfg text_of now req (Hermes_route Post_stop) a = (Some rep, a')
       \<and> rp_status rep = 409 \<and> kernel_phase (api_hermes a') = FAILED)"
proof -
  have "api_hermes (buildApp cfg (createHermes kcfg opts)) = createHermes kcfg opts"
    by (simp add: buildApp_def split_beta)
  then have i: "idle (api_hermes a)" using serve_idle idle_create [OF assms(1)] assms(2) by simp
  from idle_stop_answers [OF i, of now] obtain e h' where
    s: "stop now (api_hermes a) = (Some (Inl e), h')" "phase_message e" "kernel_phase h' = FAILED" by blast
  then have "\<exists>rep a'. dispatch_request cfg text_of now req (Hermes_route Post_stop) a = (Some rep, a')
       \<and> rp_status rep = 409 \<and> kernel_phase (api_hermes a') = FAILED"
    by (simp add: dispatch_request_def assms(3) errorReply_status)
  moreover have "kernel_phase (api_hermes a) \<notin> {RUNNING, STOPPING, STOPPED}" using i by (auto simp: idle_def currentPhase_def)
  ultimately show ?thesis by blast
qed

definition plain_app :: app_config where
  "plain_app = \<lparr>cfg_auth = None, cfg_graph = None, cfg_metricRegistry = None\<rparr>"

definition viewer_stop :: request where
  "viewer_stop = \<lparr>rq_method = ''POST'', rq_url = ''/v1/stop'', rq_authorization = None,
     rq_x_api_key = Some (One_value ''v''), rq_auth = None\<rparr>"

lemma server_cannot_stop_its_kernel_witness:
  "\<exists>rep a'. dispatch_request plain_app (\<lambda>_. []) 5 viewer_stop (Hermes_route Post_stop)
      (buildApp plain_app (createHermes sample_config plain_options)) = (Some rep, a') \<and> rp_status rep = 409"
proof -
  have p: "lifecycle_option plain_options = None" by (simp add: plain_options_def)
  have a: "buildApp plain_app (createHermes sample_config plain_options) =
      serve plain_app (\<lambda>_. []) [] (buildApp plain_app (createHermes sample_config plain_options))"
    by (simp add: serve_def)
  have h: "run_hooks (auth_hooks plain_app) (viewer_stop\<lparr>rq_auth := None\<rparr>) = Go_on (viewer_stop\<lparr>rq_auth := None\<rparr>)"
    by (simp add: auth_hooks_def plain_app_def)
  from server_cannot_stop_its_kernel [OF p a h, of 5] show ?thesis by blast
qed

text \<open>
  With authentication configured, a request reaches the handler of its route exactly if its
  path is public or its credential is not empty and accepted by the provider, whatever the role
  of the subject: a viewer may also start and stop the kernel. All other requests change
  nothing and get the status 401 without a credential and 403 with a rejected one.
\<close>

theorem authentication_is_all_the_server_checks:
  assumes "cfg_auth cfg = Some ac"
  shows "dispatch_request cfg text_of now req route a =
    (case credential_of req of
       None \<Rightarrow> if isPublicPath (pathname_of req) (public_paths ac) then route_handler text_of now route a
               else (Some (error_reply (adapterError AUTH_MISSING ''Authentication credentials required'' None)), a)
     | Some c \<Rightarrow>
         if isPublicPath (pathname_of req) (public_paths ac) then route_handler text_of now route a
         else if c = [] then (Some (error_reply (adapterError AUTH_MISSING ''Authentication credentials required'' None)), a)
         else case authenticate (ac_provider ac) c of
             Authenticated s \<Rightarrow> route_handler text_of now route a
           | Denied reason \<Rightarrow> (Some (error_reply (adapterError AUTH_FORBIDDEN reason None)), a))"
  using assms
  by (simp add: dispatch_request_def auth_hooks_def addAuth_def pathname_of_def credential_of_def extractApiKey_def
      split: option.split auth_result.split)

definition viewer_key :: secret_entry where
  "viewer_key = \<lparr>se_secret = ''v'', se_role = Viewer, se_id = ''viewer-1'', se_metadata = None\<rparr>"

definition viewer_config :: app_config where
  "viewer_config = \<lparr>cfg_auth = Some \<lparr>ac_provider = createApiKeyProvider [viewer_key], ac_publicPaths = None\<rparr>,
     cfg_graph = None, cfg_metricRegistry = None\<rparr>"

lemma viewer_evaluated:
  "credential_of viewer_stop = Some ''v''" "isPublicPath (pathname_of viewer_stop) [''/health'', ''/version''] = False"
  "authenticate_keys [viewer_key] ''v'' = Authenticated (subject_of Api_key viewer_key)"
  by code_simp+

theorem authentication_is_all_the_server_checks_witness:
  "dispatch_request viewer_config (\<lambda>_. []) 9 viewer_stop (Hermes_route Post_stop) (buildApp viewer_config running_kernel) =
     route_handler (\<lambda>_. []) 9 (Hermes_route Post_stop) (buildApp viewer_config running_kernel)
   \<and> \<not> canHttp (se_role viewer_key) Http_stop"
proof -
  have c: "cfg_auth viewer_config = Some \<lparr>ac_provider = createApiKeyProvider [viewer_key], ac_publicPaths = None\<rparr>"
    by (simp add: viewer_config_def)
  show ?thesis
    unfolding authentication_is_all_the_server_checks [OF c]
    by (simp add: viewer_evaluated public_paths_def createApiKeyProvider_def del: authenticate_keys.simps)
      (simp add: viewer_key_def canHttp_def VIEWER_HTTP_ACTIONS_def)
qed

subsection \<open>Secrets\<close>

definition with_secrets :: "string \<Rightarrow> string \<Rightarrow> string \<Rightarrow> hermes \<Rightarrow> hermes" where
  "with_secrets k d r h = h\<lparr>config := (config h)\<lparr>openrouterApiKey := k, databaseUrl := d, redisUrl := r\<rparr>\<rparr>"

type_synonym secrets = "string \<times> string \<times> string"

fun conceal :: "secrets \<Rightarrow> hermes \<Rightarrow> hermes" where
  "conceal (k, d, r) h = with_secrets k d r h"

lemma conceal_def': "conceal x h = with_secrets (fst x) (fst (snd x)) (snd (snd x)) h"
  by (cases x) simp

lemma conceal_fields [simp]:
  "lifecycle (conceal x h) = lifecycle h" "registry (conceal x h) = registry h"
  "healthMonitor (conceal x h) = healthMonitor h" "startedAt (conceal x h) = startedAt h"
  "draining (conceal x h) = draining h" "shutdowns (conceal x h) = shutdowns h"
  "hermesShutdownTimeoutMs (config (conceal x h)) = hermesShutdownTimeoutMs (config h)"
  by (simp_all add: conceal_def' with_secrets_def)

lemma conceal_updates [simp]:
  "(conceal x h)\<lparr>lifecycle := l\<rparr> = conceal x (h\<lparr>lifecycle := l\<rparr>)"
  "(conceal x h)\<lparr>startedAt := t\<rparr> = conceal x (h\<lparr>startedAt := t\<rparr>)"
  "(conceal x h)\<lparr>draining := ds\<rparr> = conceal x (h\<lparr>draining := ds\<rparr>)"
  "(conceal x h)\<lparr>shutdowns := ss\<rparr> = conceal x (h\<lparr>shutdowns := ss\<rparr>)"
  "(conceal x h)\<lparr>healthMonitor := m\<rparr> = conceal x (h\<lparr>healthMonitor := m\<rparr>)"
  by (simp_all add: conceal_def' with_secrets_def)

abbreviation concealed :: "secrets \<Rightarrow> 'r \<times> hermes \<Rightarrow> 'r \<times> hermes" where
  "concealed x \<equiv> map_prod id (conceal x)"

lemma conceal_kernel_transition: "kernel_transition now to (conceal x h) = map_sum id (conceal x) (kernel_transition now to h)"
  by (simp add: kernel_transition_def commit_def split: sum.split)

lemma conceal_kernel_try: "kernel_try now to (conceal x h) = conceal x (kernel_try now to h)"
  by (simp add: kernel_try_def conceal_kernel_transition split: sum.split)

lemma conceal_start: "start now (conceal x h) = concealed x (start now h)"
  by (simp add: start_def conceal_kernel_transition split: sum.split)

lemma conceal_end_drain: "end_drain now dr (conceal x h) = map_sum id (conceal x) (end_drain now dr h)"
  by (simp add: end_drain_def conceal_kernel_transition split: sum.split)

lemma conceal_finish_stop:
  "finish_stop now (map_sum id (conceal x) res) (conceal x h) = concealed x (finish_stop now res h)"
  "finish_stop now (Inl e) (conceal x h) = concealed x (finish_stop now (Inl e) h)"
  by (simp_all add: finish_stop_def conceal_kernel_try split: sum.split)

lemma conceal_call_next: "call_next dr (conceal x h) = conceal x (call_next dr h)"
  by (simp add: call_next_def split: list.split)

lemma conceal_stop_begin: "stop_begin now (conceal x h) = concealed x (stop_begin now h)"
  by (auto simp: stop_begin_def Let_def conceal_kernel_transition conceal_end_drain conceal_finish_stop
      conceal_call_next split: sum.split prod.split)

lemma conceal_drain_step: "drain_step i now (conceal x h) = concealed x (drain_step i now h)"
  by (auto simp: drain_step_def Let_def conceal_end_drain conceal_finish_stop conceal_call_next
      split: list.split prod.split)

lemma conceal_drain_loop: "drain_loop n now (conceal x h) = concealed x (drain_loop n now h)"
  by (induction n arbitrary: h) (auto simp: conceal_drain_step split: prod.split option.split)

lemma conceal_stop: "stop now (conceal x h) = concealed x (stop now h)"
  by (auto simp: stop_def conceal_stop_begin conceal_drain_loop split: prod.split option.split)

lemma conceal_kernel_health: "kernel_health now (conceal x h) = concealed x (kernel_health now h)"
  by (simp add: kernel_health_def split: prod.split)

lemma conceal_status: "hermes_status_of now (conceal x h) = hermes_status_of now h"
  by (simp add: hermes_status_of_def computeUptime_def)

lemma conceal_redacted: "redactHermesConfig (config (conceal x h)) = redactHermesConfig (config h)"
  by (simp add: redactHermesConfig_def conceal_def' with_secrets_def)

lemmas conceal_simps = conceal_start conceal_stop conceal_kernel_health conceal_status conceal_redacted

lemma conceal_hermes_route: "hermes_route_handler now reg r (conceal x h) = concealed x (hermes_route_handler now reg r h)"
  by (cases r) (auto simp: conceal_simps phase_value_def split: prod.split sum.split option.split)

lemma conceal_model:
  "fst x = [] \<longleftrightarrow> openrouterApiKey (config h) = [] \<Longrightarrow> primary_model (config (conceal x h)) = primary_model (config h)"
  by (simp add: primary_model_def conceal_def' with_secrets_def)

lemma conceal_mission_route:
  "fst x = [] \<longleftrightarrow> openrouterApiKey (config h) = [] \<Longrightarrow>
     mission_route_handler now r g (conceal x h) = concealed x (mission_route_handler now r g h)"
  by (cases r) (auto simp: conceal_simps conceal_model counted_def split: prod.split)

definition conceal_api :: "secrets \<Rightarrow> api \<Rightarrow> api" where
  "conceal_api x a = a\<lparr>api_hermes := conceal x (api_hermes a)\<rparr>"

lemma conceal_dispatch:
  assumes "fst x = [] \<longleftrightarrow> openrouterApiKey (config (api_hermes a)) = []"
  shows "dispatch_request cfg text_of now req route (conceal_api x a) =
    map_prod id (conceal_api x) (dispatch_request cfg text_of now req route a)"
proof -
  have "route_handler text_of now route (conceal_api x a) = map_prod id (conceal_api x) (route_handler text_of now route a)"
    using assms
    by (cases route) (auto simp: conceal_api_def conceal_hermes_route conceal_mission_route split: prod.split)
  then show ?thesis by (auto simp: dispatch_request_def split: hook_result.split)
qed

lemma kernel_transition_config: "kernel_transition now to h = Inr h' \<Longrightarrow> config h' = config h"
  by (auto simp: kernel_transition_def commit_def split: sum.splits)

lemma kernel_try_config: "config (kernel_try now to h) = config h"
  by (cases "kernel_transition now to h") (simp_all add: kernel_try_def kernel_transition_config)

lemma finish_stop_config:
  "(\<And>h'. res = Inr h' \<Longrightarrow> config h' = config h) \<Longrightarrow> config (snd (finish_stop now res h)) = config h"
  by (cases res) (simp_all add: finish_stop_def kernel_try_config)

lemma end_drain_config: "end_drain now dr h = Inr h' \<Longrightarrow> config h' = config h"
  by (auto simp: end_drain_def dest: kernel_transition_config split: if_splits sum.splits)

lemma drain_step_config: "config (snd (drain_step i now h)) = config h"
proof -
  have "config (snd (finish_stop now (end_drain now dr h1) h1)) = config h1" for dr h1
    by (rule finish_stop_config) (rule end_drain_config)
  then show ?thesis by (auto simp: drain_step_def Let_def split_beta split: list.split)
qed

lemma drain_loop_config: "config (snd (drain_loop n now h)) = config h"
proof (induction n arbitrary: h)
  case (Suc n)
  then show ?case using drain_step_config [of 0 now h] by (auto split: prod.split option.split)
qed simp

lemma stop_begin_config: "config (snd (stop_begin now h)) = config h"
proof (cases "kernel_transition now STOPPING h")
  case (Inl e)
  then show ?thesis using finish_stop_config [of "Inl e" h now] by (simp add: stop_begin_def split_beta)
next
  case (Inr h1)
  then have "config h1 = config h" by (rule kernel_transition_config)
  moreover have "config (snd (finish_stop now (end_drain now dr h1) h1)) = config h1" for dr
    by (rule finish_stop_config) (rule end_drain_config)
  ultimately show ?thesis using Inr by (auto simp: stop_begin_def Let_def split_beta)
qed

lemma stop_config: "config (snd (stop now h)) = config h"
  using stop_begin_config [of now h] drain_loop_config
  by (auto simp: stop_def split: prod.split option.split)

lemma start_config: "config (snd (start now h)) = config h"
  by (auto simp: start_def dest: kernel_transition_config split: sum.splits)

lemma health_config: "config (snd (kernel_health now h)) = config h"
  by (simp add: kernel_health_def split: prod.split)

lemma dispatch_config: "config (api_hermes (snd (dispatch_request cfg text_of now req route a))) = config (api_hermes a)"
proof -
  have m: "config (snd (mission_route_handler now r g h)) = config h" for r g h
    using health_config [of now h] by (cases r) (auto split: prod.split)
  have "config (snd (hermes_route_handler now reg r h)) = config h" for reg r h
    using health_config [of now h] stop_config [of now h] start_config [of now h]
    by (cases r) (auto split: prod.split sum.split option.split)
  with m have "config (api_hermes (snd (route_handler text_of now route a))) = config (api_hermes a)"
    by (cases route) (auto simp: split_beta)
  then show ?thesis by (auto simp: dispatch_request_def split: hook_result.split)
qed

fun replies :: "app_config \<Rightarrow> ((string, jsval) jmap \<Rightarrow> string) \<Rightarrow> timed_request list \<Rightarrow> api \<Rightarrow> jsval reply option list" where
  "replies cfg text_of [] a = []"
| "replies cfg text_of (r # rs) a =
     (case dispatch_request cfg text_of (tr_now r) (tr_request r) (tr_route r) a of
        (rep, a') \<Rightarrow> rep # replies cfg text_of rs a')"

lemma replies_conceal:
  "fst x = [] \<longleftrightarrow> openrouterApiKey (config (api_hermes a)) = [] \<Longrightarrow>
     replies cfg text_of rs (conceal_api x a) = replies cfg text_of rs a"
proof (induction rs arbitrary: a)
  case (Cons r rs)
  let ?step = "dispatch_request cfg text_of (tr_now r) (tr_request r) (tr_route r) a"
  have "fst x = [] \<longleftrightarrow> openrouterApiKey (config (api_hermes (snd ?step))) = []"
    using Cons.prems by (simp add: dispatch_config)
  from Cons.IH [OF this] show ?case by (simp add: conceal_dispatch [OF Cons.prems] split_beta)
qed simp

text \<open>
  C34: No reply of the server depends on the secrets of the kernel's configuration, the key of
  the language models and the two addresses with their passwords, except for whether the key is
  empty: servers whose kernels differ only there answer any sequence of requests alike.
\<close>

theorem replies_reveal_no_secret:
  assumes "key = [] \<longleftrightarrow> openrouterApiKey kcfg = []"
  shows "replies cfg text_of rs (buildApp cfg (createHermes
      (kcfg\<lparr>openrouterApiKey := key, databaseUrl := db, redisUrl := redis\<rparr>) opts)) =
    replies cfg text_of rs (buildApp cfg (createHermes kcfg opts))"
proof -
  let ?a = "buildApp cfg (createHermes kcfg opts)"
  have h: "api_hermes ?a = createHermes kcfg opts" by (simp add: buildApp_def split_beta)
  have "buildApp cfg (createHermes (kcfg\<lparr>openrouterApiKey := key, databaseUrl := db, redisUrl := redis\<rparr>) opts) =
      conceal_api (key, db, redis) ?a"
    by (simp add: buildApp_def conceal_api_def with_secrets_def createHermes_def Let_def split_beta)
  moreover have "config (createHermes kcfg opts) = kcfg" by (simp add: createHermes_def Let_def)
  ultimately show ?thesis using replies_conceal [of "(key, db, redis)" ?a] assms by (simp add: h)
qed

lemma replies_reveal_no_secret_witness:
  "replies plain_app (\<lambda>_. []) [\<lparr>tr_now = 1, tr_request = viewer_stop, tr_route = Hermes_route Get_config\<rparr>]
     (buildApp plain_app (createHermes (sample_config\<lparr>openrouterApiKey := ''other'', databaseUrl := ''x'', redisUrl := ''y''\<rparr>) plain_options)) =
   replies plain_app (\<lambda>_. []) [\<lparr>tr_now = 1, tr_request = viewer_stop, tr_route = Hermes_route Get_config\<rparr>]
     (buildApp plain_app (createHermes sample_config plain_options))"
  by (rule replies_reveal_no_secret) (simp add: sample_config_def)

subsection \<open>The metrics of the server\<close>

text \<open>
  Requests in any interleaving: one arrives at some time, which is positive; a handler runs to an end; a response is
  sent for one of the requests in progress; or an earlier hook answers a request that the hook \<open>onRequest\<close> never
  sees. \<open>arrived\<close>, \<open>in_progress\<close>, \<open>unseen\<close> and \<open>responses\<close> record the history.
\<close>

record server =
  sv_api :: api
  arrived :: nat
  in_progress :: "rat list"
  unseen :: nat
  responses :: "nat list"

inductive server_step :: "app_config \<Rightarrow> server \<Rightarrow> server \<Rightarrow> bool" for cfg where
  arrives: "0 < t \<Longrightarrow> server_step cfg s
     (s\<lparr>sv_api := on_request (sv_api s), arrived := arrived s + 1, in_progress := t # in_progress s\<rparr>)"
| handles: "server_step cfg s (s\<lparr>sv_api := snd (dispatch_request cfg text_of now req route (sv_api s))\<rparr>)"
| responds: "t \<in> set (in_progress s) \<Longrightarrow> server_step cfg s
     (s\<lparr>sv_api := on_response time (Some t) code (sv_api s), in_progress := remove1 t (in_progress s),
        responses := responses s @ [code]\<rparr>)"
| cut_short: "server_step cfg s
     (s\<lparr>sv_api := on_response time None code (sv_api s), unseen := unseen s + 1, responses := responses s @ [code]\<rparr>)"

abbreviation server_steps :: "app_config \<Rightarrow> server \<Rightarrow> server \<Rightarrow> bool" where
  "server_steps cfg \<equiv> (server_step cfg)\<^sup>*\<^sup>*"

definition new_server :: "app_config \<Rightarrow> hermes \<Rightarrow> server" where
  "new_server cfg h = \<lparr>sv_api = buildApp cfg h, arrived = 0, in_progress = [], unseen = 0, responses = []\<rparr>"

definition bundle_ok :: "api \<Rightarrow> bool" where
  "bundle_ok a \<longleftrightarrow> (let b = api_bundle a; m = api_metrics a in
     requestsTotal b < length (fm_objects (mr_counters m)) \<and> errorsTotal b < length (fm_objects (mr_counters m)) \<and>
     requestsTotal b \<noteq> errorsTotal b \<and> activeRequests b < length (fm_objects (mr_gauges m)) \<and>
     requestDurationMs b < length (fm_objects (mr_histograms m)))"

definition active_gauge :: "api \<Rightarrow> rat" where
  "active_gauge a = gauge_getValue (activeRequests (api_bundle a)) (api_metrics a)"

definition counts_requests :: "server \<Rightarrow> bool" where
  "counts_requests s \<longleftrightarrow> (let a = sv_api s; b = api_bundle a; m = api_metrics a in
     counter_getValue (requestsTotal b) m = of_nat (arrived s) \<and>
     counter_getValue (errorsTotal b) m = of_nat (length (filter (\<lambda>c. 400 \<le> c) (responses s))) \<and>
     histogram_count (requestDurationMs b) m + unseen s = length (responses s) \<and>
     arrived s + unseen s = length (in_progress s) + length (responses s) \<and>
     max 0 (of_nat (length (in_progress s)) - of_nat (unseen s)) \<le> active_gauge a \<and>
     active_gauge a \<le> of_nat (length (in_progress s)))"

definition times_positive :: "server \<Rightarrow> bool" where
  "times_positive s \<longleftrightarrow> (\<forall>t \<in> set (in_progress s). 0 < t)"

lemma value_in_update:
  "i < length (fm_objects fam) \<Longrightarrow> value_in j (update_in f i fam) = (if j = i then f (value_in i fam) else value_in j fam)"
  by (simp add: value_in_def update_in_def nth_list_update)

lemma update_in_length [simp]: "length (fm_objects (update_in f i fam)) = length (fm_objects fam)"
  by (simp add: update_in_def)

lemmas metric_reads = counter_getValue_def gauge_getValue_def histogram_count_def counter_inc_def gauge_set_def
  histogram_observe_def value_in_update

lemma dispatch_metrics:
  "api_metrics (snd (dispatch_request cfg text_of now req route a)) = api_metrics a \<and>
   api_bundle (snd (dispatch_request cfg text_of now req route a)) = api_bundle a"
proof -
  have "api_metrics (snd (route_handler text_of now route a)) = api_metrics a \<and>
      api_bundle (snd (route_handler text_of now route a)) = api_bundle a"
    by (cases route) (auto split: prod.split)
  then show ?thesis by (auto simp: dispatch_request_def split: hook_result.split)
qed

lemma buildApp_counts: "bundle_ok (buildApp cfg h) \<and> counts_requests (new_server cfg h)"
  by (simp add: bundle_ok_def counts_requests_def active_gauge_def new_server_def buildApp_def createAdapterMetrics_def reg_counter_def
      reg_histogram_def reg_gauge_def create_in_def new_instrument_def counter_getValue_def gauge_getValue_def
      histogram_count_def value_in_def nth_append Let_def split_beta)

lemma server_step_counts:
  "server_step cfg s s' \<Longrightarrow> bundle_ok (sv_api s) \<and> counts_requests s \<and> times_positive s \<Longrightarrow>
     bundle_ok (sv_api s') \<and> counts_requests s' \<and> times_positive s'"
proof (induction rule: server_step.induct)
  case (arrives t s)
  then show ?case
    by (auto simp: bundle_ok_def counts_requests_def times_positive_def active_gauge_def on_request_def Let_def metric_reads)
next
  case (handles s text_of now req route)
  then show ?case
    using dispatch_metrics [of cfg text_of now req route "sv_api s"]
    by (simp add: bundle_ok_def counts_requests_def times_positive_def active_gauge_def Let_def)
next
  case (responds t s time code)
  then have "t \<noteq> 0" "0 < length (in_progress s)" by (auto simp: times_positive_def)
  with responds show ?case
    by (auto simp: bundle_ok_def counts_requests_def times_positive_def active_gauge_def on_response_def Let_def metric_reads
        length_remove1 of_nat_diff dest: notin_set_remove1)
next
  case (cut_short s time code)
  then show ?case
    by (auto simp: bundle_ok_def counts_requests_def times_positive_def active_gauge_def on_response_def Let_def metric_reads)
qed

text \<open>
  C35: In every interleaving of requests the counter of requests of the server is
  the number that its hook \<open>onRequest\<close> saw, the counter of errors the number of responses with a status of 400
  or more, and the histogram holds one duration for each response to a request that was seen. The gauge of active
  requests is the number of requests in progress unless earlier hooks answered some requests that were not seen: each of these may
  make it too small by one.
\<close>

theorem server_metrics_exact:
  assumes "server_steps cfg (new_server cfg h) s"
  shows "counts_requests s \<and> (unseen s = 0 \<longrightarrow> active_gauge (sv_api s) = of_nat (length (in_progress s)))"
proof -
  have "bundle_ok (sv_api s) \<and> counts_requests s \<and> times_positive s"
    using assms
  proof (induction rule: rtranclp_induct)
    case base
    then show ?case using buildApp_counts [of cfg h] by (simp add: new_server_def times_positive_def)
  next
    case (step s s')
    then show ?case using server_step_counts by blast
  qed
  then show ?thesis by (auto simp: counts_requests_def Let_def)
qed

text \<open>A preflight that is answered while a request runs: the gauge says that none is active.\<close>

lemma unseen_request_lost:
  assumes "bundle_ok a"
  shows "active_gauge (on_response time None code (on_request a)) = max 0 (active_gauge a)"
  using assms by (auto simp: bundle_ok_def active_gauge_def on_request_def on_response_def Let_def metric_reads)

lemma server_metrics_exact_witness:
  "\<exists>s. server_steps plain_app (new_server plain_app running_kernel) s \<and> in_progress s = [1] \<and> unseen s = 1 \<and>
     counts_requests s \<and> active_gauge (sv_api s) = 0"
proof -
  let ?s = "new_server plain_app running_kernel"
  let ?s1 = "?s\<lparr>sv_api := on_request (sv_api ?s), arrived := arrived ?s + 1, in_progress := 1 # in_progress ?s\<rparr>"
  let ?s2 = "?s1\<lparr>sv_api := on_response 3 None 204 (sv_api ?s1), unseen := unseen ?s1 + 1, responses := responses ?s1 @ [204]\<rparr>"
  have "server_step plain_app ?s ?s1" by (rule arrives) simp
  moreover have "server_step plain_app ?s1 ?s2" by (rule cut_short)
  ultimately have run: "server_steps plain_app ?s ?s2" by (meson r_into_rtranclp rtranclp.rtrancl_into_rtrancl)
  have start: "bundle_ok (sv_api ?s)" "counts_requests ?s" using buildApp_counts by (simp_all add: new_server_def)
  then have "active_gauge (sv_api ?s) = 0" by (auto simp: counts_requests_def new_server_def Let_def)
  with unseen_request_lost [OF start(1), of 3 204] server_metrics_exact [OF run] run show ?thesis
    by (intro exI [of _ ?s2]) (simp add: new_server_def)
qed

subsection \<open>The graph\<close>

text \<open>
  The snapshot of a graph with at most 1000 nodes holds all nodes, and of the edges exactly
  those whose source is a node, each once.
\<close>

lemma snapshot_edges_of:
  assumes "graph_inv g" and "distinct (map gn_id ns)"
  shows "distinct (concat (map (\<lambda>n. getEdges (gn_id n) Outgoing g) ns)) \<and>
    set (concat (map (\<lambda>n. getEdges (gn_id n) Outgoing g) ns)) =
      {e \<in> ran (jm_get (gr_edges g)). ge_sourceId e \<in> gn_id ` set ns}"
  using assms(2)
proof (induction ns)
  case (Cons n ns)
  have "distinct (getEdges (gn_id n) Outgoing g)"
    "set (getEdges (gn_id n) Outgoing g) = {e \<in> ran (jm_get (gr_edges g)). ge_sourceId e = gn_id n}"
    using in_memory_graph.outgoing_law [OF assms(1), of "gn_id n"] by (simp_all add: graph_content_def)
  with Cons show ?case by (auto simp: image_iff)
qed simp

lemma snapshot_complete:
  assumes "graph_inv g" and "length (gr_nodes g) \<le> 1000" and "\<forall>(i, n) \<in> set (gr_nodes g). gn_id n = i"
    and "wf_jmap (gr_nodes g)"
  shows "snapshot_nodes g = jm_values (gr_nodes g) \<and> distinct (snapshot_edges g) \<and>
    set (snapshot_edges g) = {e \<in> ran (jm_get (gr_edges g)). ge_sourceId e \<in> set (jm_keys (gr_nodes g))}"
proof -
  have "slice_index 1000 (length (gr_nodes g)) = length (gr_nodes g)" "slice_index 0 (length (gr_nodes g)) = 0"
    using assms(2) by (simp_all add: slice_index_def)
  then have n: "snapshot_nodes g = jm_values (gr_nodes g)"
    by (simp add: snapshot_nodes_def query_nodes_def queryNodes_def keep_when_def slice_str_def)
  have keys: "map gn_id (jm_values (gr_nodes g)) = jm_keys (gr_nodes g)" using assms(3) by auto
  have d: "distinct (map gn_id (jm_values (gr_nodes g)))" using assms(4) by (simp only: keys)
  have k: "gn_id ` set (jm_values (gr_nodes g)) = set (jm_keys (gr_nodes g))"
    using arg_cong [OF keys, of set] by (simp only: set_map)
  show ?thesis using snapshot_edges_of [OF assms(1) d] unfolding snapshot_edges_def n k by blast
qed

text \<open>
  A limit that is no number: the history lists every change, the query of nodes none.
\<close>

lemma limit_not_a_number:
  "int_param ''limit'' [(''limit'', ''abc'')] = Some None"
  "graph_route_handler text_of (Get_history [(''limit'', ''abc'')]) g = ok_reply (counted change_to_json (gr_changes g))"
  "graph_route_handler text_of (Get_nodes [(''limit'', ''abc'')]) g = ok_reply (counted nodeToJson [])"
proof -
  show n: "int_param ''limit'' [(''limit'', ''abc'')] = Some None" by code_simp
  then show "graph_route_handler text_of (Get_history [(''limit'', ''abc'')]) g = ok_reply (counted change_to_json (gr_changes g))"
    by (simp add: get_changes_def override_def del: map_of.simps)
  from n show "graph_route_handler text_of (Get_nodes [(''limit'', ''abc'')]) g = ok_reply (counted nodeToJson [])"
    by (simp add: query_nodes_def)
qed

end
