(* ===== verification/Webhook.thy ===== *)
theory Webhook
  imports Json ApiRoutes ApiFacts
begin

text \<open>
  The webhook adapter (packages/adapters-webhook/src): routing.ts, signature.ts, parser.ts,
  formats.ts, the default route table of routes.ts over the kernel, and the pipeline of
  WebhookAdapter.ts. A request is given with the path of its URL and the headers as the Fetch
  interface lists them, with lower-case names. The keyed hash is the parameter \<open>hmac\<close>.
  A handler of a route is a function of the parsed request and the kernel; what it does is done
  also when it exceeds the timeout. Log lines and spans are left out.
\<close>

subsection \<open>Routing\<close>

datatype webhook_method = GET | POST | PUT | PATCH | DELETE

fun method_str :: "webhook_method \<Rightarrow> string" where
  "method_str GET = ''GET''"
| "method_str POST = ''POST''"
| "method_str PUT = ''PUT''"
| "method_str PATCH = ''PATCH''"
| "method_str DELETE = ''DELETE''"

definition KNOWN_METHODS :: "webhook_method list" where
  "KNOWN_METHODS = [GET, POST, PUT, PATCH, DELETE]"

definition upper_char :: "char \<Rightarrow> char" where
  "upper_char c = (let n = of_char c :: nat in if 97 \<le> n \<and> n \<le> 122 then char_of (n - 32) else c)"

definition toUpperCase :: "string \<Rightarrow> string" where
  "toUpperCase = map upper_char"

definition known_method :: "string \<Rightarrow> webhook_method option" where
  "known_method m = find (\<lambda>k. method_str k = m) KNOWN_METHODS"

type_synonym headers = "(string, string) jmap"

record parsed_request =
  pq_raw :: "8 word list"
  pq_contentType :: string
  pq_json :: jsval
  pq_headers :: headers

record response_body =
  rb_status :: int
  rb_headers :: "headers option"
  rb_body :: jsval

record handler_error =
  he_code :: string
  he_message :: string
  he_detail :: "jsval option"

datatype handler_outcome =
    Handler_ok response_body
  | Handler_err handler_error
  | Handler_throws string
  | Handler_late

text \<open>The last member of the type above: the handler is not done when its time is over.\<close>

record 'k webhook_route =
  wr_method :: webhook_method
  wr_path :: string
  wr_handler :: "parsed_request \<Rightarrow> 'k \<Rightarrow> handler_outcome \<times> 'k"

datatype routing_error =
    Method_not_allowed string "webhook_method list"
  | No_route string

definition methodsForPath :: "'k webhook_route list \<Rightarrow> string \<Rightarrow> webhook_method list" where
  "methodsForPath routes path = fold (\<lambda>r ms. if wr_path r = path then List.insert (wr_method r) ms else ms) routes []"

definition no_match :: "'k webhook_route list \<Rightarrow> string \<Rightarrow> string \<Rightarrow> routing_error" where
  "no_match routes path method = (case find (\<lambda>r. wr_path r = path) routes of
     Some _ \<Rightarrow> Method_not_allowed (''method '' @ method @ '' not allowed for '' @ path) (methodsForPath routes path)
   | None \<Rightarrow> No_route (''no route for '' @ method @ '' '' @ path))"

definition matchRoute :: "'k webhook_route list \<Rightarrow> string \<Rightarrow> string \<Rightarrow> routing_error + 'k webhook_route" where
  "matchRoute routes method path = (let upperMethod = toUpperCase method in
     case known_method upperMethod of
       None \<Rightarrow> Inl (no_match routes path upperMethod)
     | Some m \<Rightarrow> (case find (\<lambda>r. wr_method r = m \<and> wr_path r = path) routes of
         Some exact \<Rightarrow> Inr exact
       | None \<Rightarrow> Inl (no_match routes path upperMethod)))"

subsection \<open>Signatures\<close>

type_synonym signature_verifier = "8 word list \<Rightarrow> headers \<Rightarrow> string + unit"

definition constantTimeEqual :: "8 word list \<Rightarrow> 8 word list \<Rightarrow> bool" where
  "constantTimeEqual a b = (if length a \<noteq> length b then False else a = b)"

definition signature_header :: string where
  "signature_header = ''x-webhook-signature''"

text \<open>\<open>hmac secret body\<close>: the hash in hexadecimal.\<close>

definition verifyHmacSha256 :: "(string \<Rightarrow> 8 word list \<Rightarrow> string) \<Rightarrow> string \<Rightarrow> string option \<Rightarrow> signature_verifier" where
  "verifyHmacSha256 hmac secret pref rawBody hs = (case jm_get hs signature_header of
     None \<Rightarrow> Inl ''signature header missing''
   | Some headerValue \<Rightarrow>
       if headerValue = [] then Inl ''signature header missing''
       else let provided = trim headerValue; p = override [] pref in
         if p \<noteq> [] \<and> \<not> starts_with provided p then Inl ''signature prefix mismatch''
         else if \<not> constantTimeEqual (utf8 (toLowerCase (drop (length p) provided))) (utf8 (toLowerCase (hmac secret rawBody)))
         then Inl ''signature mismatch'' else Inr ())"

record signature_config =
  sig_header :: string
  sig_verifier :: signature_verifier

definition signatureConfig :: "string \<Rightarrow> signature_verifier \<Rightarrow> signature_config" where
  "signatureConfig header verifier = \<lparr>sig_header = header, sig_verifier = verifier\<rparr>"

subsection \<open>Parsing\<close>

text \<open>\<open>JSON_PATTERN\<close>: the type application/json or one with the suffix +json, and parameters.\<close>

definition json_suffix_at :: "string \<Rightarrow> nat \<Rightarrow> bool" where
  "json_suffix_at t i \<longleftrightarrow> (i = 0 \<or> (2 \<le> i \<and> t ! (i - 1) = CHR ''+'')) \<and> starts_with (drop i t) ''json'' \<and>
     (case drop (i + 4) t of [] \<Rightarrow> True | c # _ \<Rightarrow> c = CHR '';'')"

definition JSON_PATTERN :: "string \<Rightarrow> bool" where
  "JSON_PATTERN contentType = (let t = toLowerCase contentType in
     starts_with t ''application/'' \<and> list_ex (json_suffix_at (drop 12 t)) [0..<length (drop 12 t)])"

text \<open>Decoding UTF-8; characters above 255 are outside the model and count as malformed.\<close>

fun utf8_decode :: "8 word list \<Rightarrow> string option" where
  "utf8_decode [] = Some []"
| "utf8_decode (b # bs) =
     (if unat b < 128 then map_option ((#) (char_of (unat b))) (utf8_decode bs)
      else if unat b = 194 \<or> unat b = 195
      then (case bs of
          [] \<Rightarrow> None
        | c # cs \<Rightarrow> if 128 \<le> unat c \<and> unat c < 192
            then map_option ((#) (char_of ((unat b - 192) * 64 + (unat c - 128)))) (utf8_decode cs) else None)
      else None)"

type_synonym body_parser = "8 word list \<Rightarrow> string \<Rightarrow> string + jsval"

definition jsonParser :: "nat \<Rightarrow> body_parser" where
  "jsonParser maxBodyBytes rawBody contentType =
     (if length rawBody > maxBodyBytes then Inl ''request body exceeds the configured maximum''
      else if rawBody = [] then Inr JNull
      else if \<not> JSON_PATTERN contentType
      then Inl (''unsupported content-type: '' @ (if contentType = [] then ''(empty)'' else contentType))
      else case Option.bind (utf8_decode rawBody) json_parse of
          Some v \<Rightarrow> Inr v
        | None \<Rightarrow> Inl ''malformed JSON body'')"

definition assembleParsedRequest :: "8 word list \<Rightarrow> string \<Rightarrow> headers \<Rightarrow> jsval \<Rightarrow> parsed_request" where
  "assembleParsedRequest rawBody contentType hs json = \<lparr>pq_raw = rawBody, pq_contentType = contentType,
     pq_json = json, pq_headers = fold (\<lambda>(k, v). jm_set (toLowerCase k) v) hs []\<rparr>"

subsection \<open>Responses\<close>

record http_response =
  hp_status :: int
  hp_headers :: headers
  hp_body :: jsval

definition JSON_HEADERS :: headers where
  "JSON_HEADERS = [(''content-type'', ''application/json; charset=utf-8'')]"

definition envelope :: "bool \<Rightarrow> jsval \<Rightarrow> jsval" where
  "envelope okValue payload = (if okValue then JObj [(''ok'', JBool True), (''value'', payload)]
     else JObj [(''ok'', JBool False), (''error'', payload)])"

text \<open>
  The constructor \<open>Response\<close> throws a range error for a status outside 200 to 599, and a type
  error for a status that admits no body.
\<close>

definition new_response :: "int \<Rightarrow> headers \<Rightarrow> jsval \<Rightarrow> string + http_response" where
  "new_response status hs body =
     (if status < 200 \<or> 599 < status then Inl ''RangeError''
      else if status \<in> {204, 205, 304} then Inl ''TypeError''
      else Inr \<lparr>hp_status = status, hp_headers = hs, hp_body = body\<rparr>)"

definition fromResponseBody :: "response_body \<Rightarrow> string + http_response" where
  "fromResponseBody rb = new_response (rb_status rb)
     (fold (\<lambda>(k, v). jm_set (toLowerCase k) v) (override [] (rb_headers rb)) JSON_HEADERS) (envelope True (rb_body rb))"

definition error_payload :: "string \<Rightarrow> string \<Rightarrow> (string \<times> jsval) list \<Rightarrow> jsval" where
  "error_payload code message members = JObj ([(''code'', JStr code), (''message'', JStr message)] @ members)"

definition errorResponse :: "handler_error \<Rightarrow> int \<Rightarrow> http_response" where
  "errorResponse e status = \<lparr>hp_status = status, hp_headers = JSON_HEADERS,
     hp_body = envelope False (error_payload (he_code e) (he_message e)
       (case he_detail e of None \<Rightarrow> [] | Some d \<Rightarrow> [(''detail'', d)]))\<rparr>"

definition okResponse :: "jsval \<Rightarrow> int \<Rightarrow> string + http_response" where
  "okResponse v status = new_response status JSON_HEADERS (envelope True v)"

definition plain_handler_error :: "string \<Rightarrow> string \<Rightarrow> handler_error" where
  "plain_handler_error code message = \<lparr>he_code = code, he_message = message, he_detail = None\<rparr>"

definition notFoundResponse :: "string \<Rightarrow> http_response" where
  "notFoundResponse message = errorResponse (plain_handler_error ''NOT_FOUND'' message) 404"

definition methodNotAllowedResponse :: "webhook_method list \<Rightarrow> string \<Rightarrow> http_response" where
  "methodNotAllowedResponse allow message = \<lparr>hp_status = 405,
     hp_headers = jm_set ''allow'' (join '', '' (map method_str allow)) JSON_HEADERS,
     hp_body = envelope False (error_payload ''METHOD_NOT_ALLOWED'' message
       [(''allow'', JArr (map (\<lambda>m. JStr (method_str m)) allow))])\<rparr>"

definition unauthorizedResponse :: "string \<Rightarrow> http_response" where
  "unauthorizedResponse message = errorResponse (plain_handler_error ''UNAUTHORIZED'' message) 401"

definition badRequestResponse :: "string \<Rightarrow> jsval option \<Rightarrow> http_response" where
  "badRequestResponse message detail = errorResponse \<lparr>he_code = ''BAD_REQUEST'', he_message = message, he_detail = detail\<rparr> 400"

definition internalErrorResponse :: "string \<Rightarrow> http_response" where
  "internalErrorResponse message = errorResponse (plain_handler_error ''INTERNAL'' message) 500"

definition statusFor :: "handler_error \<Rightarrow> int" where
  "statusFor e = (if he_code e = ''BAD_REQUEST'' then 400 else if he_code e = ''UNAUTHORIZED'' then 401
     else if he_code e = ''NOT_FOUND'' then 404 else if he_code e = ''METHOD_NOT_ALLOWED'' then 405
     else if he_code e = ''HERMES'' then 502 else 500)"

subsection \<open>The default routes\<close>

datatype webhook_event = Ev_start | Ev_stop | Ev_status | Ev_health | Ev_modules | Ev_config

definition known_event :: "jsval \<Rightarrow> webhook_event option" where
  "known_event v =
     (if v = JStr ''start'' then Some Ev_start else if v = JStr ''stop'' then Some Ev_stop
      else if v = JStr ''status'' then Some Ev_status else if v = JStr ''health'' then Some Ev_health
      else if v = JStr ''modules'' then Some Ev_modules else if v = JStr ''config'' then Some Ev_config else None)"

definition ok_body :: "jsval \<Rightarrow> handler_outcome" where
  "ok_body v = Handler_ok \<lparr>rb_status = 200, rb_headers = None, rb_body = v\<rparr>"

text \<open>The configuration object as it is.\<close>

definition raw_config_js :: "hermes_config \<Rightarrow> jsval" where
  "raw_config_js cfg = JObj
     ([(''nodeEnv'', JStr (nodeEnv cfg)), (''logLevel'', JStr (logLevel cfg)),
       (''openrouterApiKey'', JStr (openrouterApiKey cfg)), (''databaseUrl'', JStr (databaseUrl cfg)),
       (''redisUrl'', JStr (redisUrl cfg)), (''otelEnabled'', JBool (otelEnabled cfg))]
      @ (case otelExporterEndpoint cfg of None \<Rightarrow> [] | Some e \<Rightarrow> [(''otelExporterEndpoint'', JStr e)])
      @ [(''hermesModulesDir'', JStr (hermesModulesDir cfg)),
         (''hermesShutdownTimeoutMs'', JNum (of_int (hermesShutdownTimeoutMs cfg)))])"

definition phase_js :: "instant \<Rightarrow> hermes \<Rightarrow> jsval" where
  "phase_js now h = JObj [(''phase'', JStr (phase_str (status_phase (hermes_status_of now h))))]"

fun callHermes :: "instant \<Rightarrow> webhook_event \<Rightarrow> hermes \<Rightarrow> handler_outcome \<times> hermes" where
  "callHermes now Ev_start h = (case start now h of
     (Inr _, h') \<Rightarrow> (ok_body (phase_js now h'), h')
   | (Inl e, h') \<Rightarrow> (Handler_err (plain_handler_error ''HERMES'' e), h'))"
| "callHermes now Ev_stop h = (case stop now h of
     (Some (Inr _), h') \<Rightarrow> (ok_body (phase_js now h'), h')
   | (Some (Inl e), h') \<Rightarrow> (Handler_err (plain_handler_error ''HERMES'' e), h')
   | (None, h') \<Rightarrow> (Handler_late, h'))"
| "callHermes now Ev_status h = (ok_body (statusToJson (hermes_status_of now h)), h)"
| "callHermes now Ev_health h = (case kernel_health now h of (rep, h') \<Rightarrow> (ok_body (healthToJson rep), h'))"
| "callHermes now Ev_modules h =
     (ok_body (JObj [(''count'', js_nat (modules (hermes_status_of now h)))]), h)"
| "callHermes now Ev_config h = (ok_body (raw_config_js (config h)), h)"

text \<open>
  The member \<open>event\<close> of the body, which may be an array; in the message of an unknown event it is
  printed, here for a text only.
\<close>

definition webhookEventHandler :: "instant \<Rightarrow> (jsval \<Rightarrow> string) \<Rightarrow> parsed_request \<Rightarrow> hermes \<Rightarrow> handler_outcome \<times> hermes" where
  "webhookEventHandler now show_value parsed h =
     (let bad = (\<lambda>m. (Handler_err (plain_handler_error ''BAD_REQUEST'' m), h));
          dispatch_event = (\<lambda>v. case known_event v of
             Some e \<Rightarrow> callHermes now e h
           | None \<Rightarrow> bad (''unknown event: '' @ (if v = JUndefined \<or> v = JNull then ''(missing)'' else show_value v)))
      in case pq_json parsed of
           JObj ms \<Rightarrow> dispatch_event (js_get ms ''event'')
         | JArr _ \<Rightarrow> dispatch_event JUndefined
         | _ \<Rightarrow> bad ''request body must be a JSON object'')"

definition healthProbeHandler :: "instant \<Rightarrow> parsed_request \<Rightarrow> hermes \<Rightarrow> handler_outcome \<times> hermes" where
  "healthProbeHandler now parsed h = (ok_body (JObj [(''adapter'', JStr ''healthy''),
     (''hermesPhase'', JStr (phase_str (status_phase (hermes_status_of now h))))]), h)"

definition defaultRouteTable :: "instant \<Rightarrow> (jsval \<Rightarrow> string) \<Rightarrow> hermes webhook_route list" where
  "defaultRouteTable now show_value =
     [\<lparr>wr_method = POST, wr_path = ''/webhook'', wr_handler = webhookEventHandler now show_value\<rparr>,
      \<lparr>wr_method = GET, wr_path = ''/health'', wr_handler = healthProbeHandler now\<rparr>]"

subsection \<open>The adapter\<close>

definition ADAPTER_NAME :: string where
  "ADAPTER_NAME = ''@agent-os/adapters-webhook''"

definition DEFAULT_MAX_BODY_BYTES :: nat where
  "DEFAULT_MAX_BODY_BYTES = 1048576"

definition DEFAULT_TIMEOUT_MS :: nat where
  "DEFAULT_TIMEOUT_MS = 10000"

record 'k webhook_config =
  wc_routes :: "'k webhook_route list"
  wc_parser :: "body_parser option"
  wc_signatures :: "signature_config option"
  wc_maxBodyBytes :: "nat option"
  wc_timeoutMs :: "nat option"

record 'k webhook_adapter =
  wa_routes :: "'k webhook_route list"
  wa_parser :: body_parser
  wa_maxBodyBytes :: nat
  wa_timeoutMs :: nat
  wa_signatureHeader :: "string option"
  wa_signatureVerifier :: "signature_verifier option"
  wa_bundle :: adapter_metrics
  wa_metrics :: metric_registry
  wa_initialized :: bool
  wa_lastError :: "string option"

definition new_webhook_adapter :: "metric_registry \<Rightarrow> 'k webhook_config \<Rightarrow> 'k webhook_adapter" where
  "new_webhook_adapter reg cfg = (case createAdapterMetrics reg ''webhook'' of (bundle, m) \<Rightarrow>
     (let maxBytes = override DEFAULT_MAX_BODY_BYTES (wc_maxBodyBytes cfg) in
      \<lparr>wa_routes = wc_routes cfg, wa_parser = override (jsonParser maxBytes) (wc_parser cfg),
       wa_maxBodyBytes = maxBytes, wa_timeoutMs = override DEFAULT_TIMEOUT_MS (wc_timeoutMs cfg),
       wa_signatureHeader = map_option sig_header (wc_signatures cfg),
       wa_signatureVerifier = map_option sig_verifier (wc_signatures cfg),
       wa_bundle = bundle, wa_metrics = m, wa_initialized = False, wa_lastError = None\<rparr>))"

fun validate_routes_from :: "(webhook_method \<times> string) list \<Rightarrow> 'k webhook_route list \<Rightarrow> string + unit" where
  "validate_routes_from seen [] = Inr ()"
| "validate_routes_from seen (r # rs) =
     (if \<not> starts_with (wr_path r) ''/''
      then Inl (ADAPTER_NAME @ '': route path must start with '' @ [CHR 0x27, CHR ''/'', CHR 0x27] @ '': '' @ wr_path r)
      else if (wr_method r, wr_path r) \<in> set seen
      then Inl (ADAPTER_NAME @ '': duplicate route '' @ method_str (wr_method r) @ '' '' @ wr_path r)
      else validate_routes_from ((wr_method r, wr_path r) # seen) rs)"

definition validateRoutes :: "'k webhook_route list \<Rightarrow> string + unit" where
  "validateRoutes routes = validate_routes_from [] routes"

definition webhook_initialize :: "'k webhook_adapter \<Rightarrow> (string + unit) \<times> 'k webhook_adapter" where
  "webhook_initialize a = (if wa_initialized a then (Inr (), a)
     else case validateRoutes (wa_routes a) of
         Inl e \<Rightarrow> (Inl e, a)
       | Inr _ \<Rightarrow> (Inr (), a\<lparr>wa_initialized := True\<rparr>))"

definition webhook_start :: "'k webhook_adapter \<Rightarrow> string + unit" where
  "webhook_start a = (if \<not> wa_initialized a
     then Inl (ADAPTER_NAME @ '': initialize() must be called before start().'') else Inr ())"

definition webhook_health :: "instant \<Rightarrow> 'k webhook_adapter \<Rightarrow> adapter_health" where
  "webhook_health now a =
     (if \<not> wa_initialized a then \<lparr>ah_status = A_unknown, ah_detail = Some ''not initialized'', ah_at = now\<rparr>
      else case wa_lastError a of
          Some e \<Rightarrow> if e \<noteq> [] then \<lparr>ah_status = A_degraded, ah_detail = Some e, ah_at = now\<rparr>
                    else \<lparr>ah_status = A_healthy, ah_detail = None, ah_at = now\<rparr>
        | None \<Rightarrow> \<lparr>ah_status = A_healthy, ah_detail = None, ah_at = now\<rparr>)"

definition ADAPTER_VERSION :: string where
  "ADAPTER_VERSION = ''1.0.0''"

record webhook_metadata_shape = adapter_metadata +
  wm_transport :: string
  wm_signatureEnabled :: bool
  wm_routeCount :: nat

definition webhook_metadata :: "'k webhook_adapter \<Rightarrow> webhook_metadata_shape" where
  "webhook_metadata a = \<lparr>am_name = ADAPTER_NAME, am_version = ADAPTER_VERSION, am_interfaceType = I_webhook,
     am_supportedOperations = [''webhook'', ''health''], wm_transport = ''http'',
     wm_signatureEnabled = (wa_signatureVerifier a \<noteq> None), wm_routeCount = length (wa_routes a)\<rparr>"

record webhook_request =
  wq_method :: string
  wq_path :: string
  wq_headers :: headers
  wq_body :: "8 word list"

definition parseRequest :: "'k webhook_adapter \<Rightarrow> webhook_request \<Rightarrow> string + parsed_request" where
  "parseRequest a req =
     (let contentType = override [] (jm_get (wq_headers req) ''content-type'') in
      if length (wq_body req) > wa_maxBodyBytes a then Inl ''request body exceeds the configured maximum''
      else case wa_parser a (wq_body req) contentType of
          Inl e \<Rightarrow> Inl (''PARSE: '' @ e)
        | Inr json \<Rightarrow> Inr (assembleParsedRequest (wq_body req) contentType (wq_headers req) json))"

definition end_request :: "'k webhook_adapter \<Rightarrow> 'k webhook_adapter" where
  "end_request a = (let b = wa_bundle a; m = wa_metrics a in
     a\<lparr>wa_metrics := gauge_set (max 0 (gauge_getValue (activeRequests b) m - 1)) (activeRequests b) m\<rparr>)"

definition count_error :: "'k webhook_adapter \<Rightarrow> 'k webhook_adapter" where
  "count_error a = a\<lparr>wa_metrics := counter_inc 1 (errorsTotal (wa_bundle a)) (wa_metrics a)\<rparr>"

definition begin_request :: "'k webhook_adapter \<Rightarrow> 'k webhook_adapter" where
  "begin_request a = (let b = wa_bundle a; m = counter_inc 1 (requestsTotal b) (wa_metrics a) in
     a\<lparr>wa_metrics := gauge_set (gauge_getValue (activeRequests b) m + 1) (activeRequests b) m\<rparr>)"

text \<open>The check of the signature: an answer, or \<open>None\<close> when the request may go on.\<close>

definition check_signature :: "'k webhook_adapter \<Rightarrow> parsed_request \<Rightarrow> string option" where
  "check_signature a parsed = (case (wa_signatureVerifier a, wa_signatureHeader a) of
     (Some verifier, Some header) \<Rightarrow>
       if header = [] then None
       else (case jm_get (pq_headers parsed) header of
           None \<Rightarrow> Some ''signature header missing''
         | Some v \<Rightarrow> if v = [] then Some ''signature header missing''
             else (case verifier (pq_raw parsed) (pq_headers parsed) of
                 Inl e \<Rightarrow> Some e
               | Inr _ \<Rightarrow> None))
   | _ \<Rightarrow> None)"

text \<open>\<open>d\<close> is the time the request took. The result is a response, or the exception the call ends with.\<close>

definition run_route :: "rat \<Rightarrow> parsed_request \<Rightarrow> 'k webhook_route \<Rightarrow> 'k webhook_adapter \<Rightarrow> 'k
    \<Rightarrow> (string + http_response) \<times> 'k webhook_adapter \<times> 'k" where
  "run_route d parsed route a k =
     (let (outcome, k') = wr_handler route parsed k;
          failed = (\<lambda>message. (Inr (internalErrorResponse message),
             count_error (end_request (a\<lparr>wa_lastError := Some message\<rparr>)), k'));
          finished = (let a1 = end_request a in
             a1\<lparr>wa_metrics := histogram_observe d (requestDurationMs (wa_bundle a1)) (wa_metrics a1)\<rparr>)
      in case outcome of
           Handler_throws message \<Rightarrow> failed message
         | Handler_late \<Rightarrow> failed (''handler exceeded '' @ nat_str (wa_timeoutMs a) @ ''ms'')
         | Handler_ok rb \<Rightarrow> (fromResponseBody rb, finished, k')
         | Handler_err e \<Rightarrow> (Inr (errorResponse e (statusFor e)), count_error finished, k'))"

definition webhook_handle :: "rat \<Rightarrow> webhook_request \<Rightarrow> 'k webhook_adapter \<Rightarrow> 'k
    \<Rightarrow> (string + http_response) \<times> 'k webhook_adapter \<times> 'k" where
  "webhook_handle d req a0 k =
     (let a = begin_request a0 in
      if \<not> wa_initialized a
      then (Inr (internalErrorResponse (ADAPTER_NAME @ '': not initialized'')), count_error (end_request a), k)
      else case parseRequest a req of
          Inl e \<Rightarrow> (Inr (internalErrorResponse e), count_error (end_request (a\<lparr>wa_lastError := Some e\<rparr>)), k)
        | Inr parsed \<Rightarrow> (case check_signature a parsed of
            Some e \<Rightarrow> (Inr (unauthorizedResponse e), count_error (end_request a), k)
          | None \<Rightarrow> (case matchRoute (wa_routes a) (wq_method req) (wq_path req) of
              Inl (Method_not_allowed message allow) \<Rightarrow>
                (Inr (methodNotAllowedResponse allow message), end_request a, k)
            | Inl (No_route message) \<Rightarrow> (Inr (notFoundResponse message), end_request a, k)
            | Inr route \<Rightarrow> run_route d parsed route a k)))"


text \<open>
  What the webhook adapter guarantees: the routing is exact, a handler gets a request exactly if
  the configured signature is accepted, the metrics count the requests, and what the reply to the
  event config holds.
\<close>

subsection \<open>Routing\<close>

lemma method_str_inject: "method_str a = method_str b \<longleftrightarrow> a = b"
  by (cases a; cases b) simp_all

lemma known_method_Some: "known_method s = Some m \<longleftrightarrow> method_str m = s"
  by (cases m) (auto simp: known_method_def KNOWN_METHODS_def)

lemma known_method_None: "known_method s = None \<longleftrightarrow> (\<forall>m. method_str m \<noteq> s)"
  using known_method_Some [of s] by (metis not_Some_eq)

lemma methodsForPath_fold:
  "set (fold (\<lambda>r ms. if wr_path r = p then List.insert (wr_method r) ms else ms) rs ms) =
     set ms \<union> wr_method ` {r \<in> set rs. wr_path r = p} \<and>
   (distinct ms \<longrightarrow> distinct (fold (\<lambda>r ms. if wr_path r = p then List.insert (wr_method r) ms else ms) rs ms))"
  by (induction rs arbitrary: ms) auto

lemma methodsForPath_set [simp]: "set (methodsForPath rs p) = wr_method ` {r \<in> set rs. wr_path r = p}"
  and methodsForPath_distinct: "distinct (methodsForPath rs p)"
  using methodsForPath_fold [of p rs "[]"] by (simp_all add: methodsForPath_def)

lemma no_match_cases:
  "no_match rs p m = (if \<exists>r \<in> set rs. wr_path r = p
     then Method_not_allowed (''method '' @ m @ '' not allowed for '' @ p) (methodsForPath rs p)
     else No_route (''no route for '' @ m @ '' '' @ p))"
  unfolding no_match_def by (auto simp: find_None_iff find_Some_iff split: option.split)

lemma matchRoute_alt:
  "matchRoute rs m p = (case find (\<lambda>r. method_str (wr_method r) = toUpperCase m \<and> wr_path r = p) rs of
     Some r \<Rightarrow> Inr r | None \<Rightarrow> Inl (no_match rs p (toUpperCase m)))"
proof (cases "known_method (toUpperCase m)")
  case None
  then have "find (\<lambda>r. method_str (wr_method r) = toUpperCase m \<and> wr_path r = p) rs = None"
    by (simp add: known_method_None find_None_iff)
  with None show ?thesis by (simp add: matchRoute_def)
next
  case (Some k)
  then have "method_str k = toUpperCase m" by (simp add: known_method_Some)
  then have "method_str j = toUpperCase m \<longleftrightarrow> j = k" for j by (metis method_str_inject)
  then show ?thesis by (simp add: matchRoute_def Some)
qed

definition route_keys :: "'k webhook_route list \<Rightarrow> (webhook_method \<times> string) list" where
  "route_keys = map (\<lambda>r. (wr_method r, wr_path r))"

lemma validate_routes_from_ok:
  "validate_routes_from seen rs = Inr () \<longleftrightarrow>
     (\<forall>r \<in> set rs. starts_with (wr_path r) ''/'') \<and> distinct (route_keys rs) \<and> set (route_keys rs) \<inter> set seen = {}"
  by (induction rs arbitrary: seen) (auto simp: route_keys_def)

lemma validateRoutes_ok:
  "validateRoutes rs = Inr () \<longleftrightarrow> (\<forall>r \<in> set rs. starts_with (wr_path r) ''/'') \<and> distinct (route_keys rs)"
  by (simp add: validateRoutes_def validate_routes_from_ok)

lemma find_unique:
  assumes "r \<in> set rs" "P r" "\<And>s. s \<in> set rs \<Longrightarrow> P s \<Longrightarrow> s = r"
  shows "find P rs = Some r"
proof (cases "find P rs")
  case None
  then show ?thesis using assms(1,2) by (simp add: find_None_iff)
next
  case (Some s)
  then have "s \<in> set rs" "P s" by (metis find_Some_iff nth_mem)+
  with assms(3) Some show ?thesis by blast
qed

lemma route_found:
  assumes "distinct (route_keys rs)"
  shows "find (\<lambda>r. method_str (wr_method r) = u \<and> wr_path r = p) rs = Some r \<longleftrightarrow>
     r \<in> set rs \<and> method_str (wr_method r) = u \<and> wr_path r = p"
proof
  assume "find (\<lambda>r. method_str (wr_method r) = u \<and> wr_path r = p) rs = Some r"
  then show "r \<in> set rs \<and> method_str (wr_method r) = u \<and> wr_path r = p" by (auto simp: find_Some_iff)
next
  assume r: "r \<in> set rs \<and> method_str (wr_method r) = u \<and> wr_path r = p"
  have "inj_on (\<lambda>r. (wr_method r, wr_path r)) (set rs)" using assms by (simp add: route_keys_def distinct_map)
  then have "s = r" if "s \<in> set rs" "method_str (wr_method s) = u \<and> wr_path s = p" for s
    using that r by (metis (mono_tags, lifting) inj_onD method_str_inject)
  with r show "find (\<lambda>r. method_str (wr_method r) = u \<and> wr_path r = p) rs = Some r"
    by (intro find_unique) auto
qed

text \<open>
  On a route table the adapter accepts at initialisation, routing is exact whatever the order
  of the routes: a route is found exactly if it is the one of its method, in any case of the
  letters, and path; a path some other method has is answered with exactly the methods it has,
  each once, also for a method the adapter does not know; no route is reported exactly for the
  other paths.
\<close>

theorem routing_exact:
  assumes "webhook_initialize a = (Inr (), a')" and "wa_initialized a \<longrightarrow> validateRoutes (wa_routes a) = Inr ()"
  shows "(matchRoute (wa_routes a') m p = Inr r \<longleftrightarrow>
      r \<in> set (wa_routes a) \<and> method_str (wr_method r) = toUpperCase m \<and> wr_path r = p)
    \<and> ((\<exists>text. matchRoute (wa_routes a') m p = Inl (Method_not_allowed text allow)) \<longleftrightarrow>
      (\<forall>r \<in> set (wa_routes a). wr_path r = p \<longrightarrow> method_str (wr_method r) \<noteq> toUpperCase m)
      \<and> allow \<noteq> [] \<and> allow = methodsForPath (wa_routes a) p \<and> distinct allow
      \<and> set allow = {k. \<exists>r \<in> set (wa_routes a). wr_path r = p \<and> wr_method r = k})
    \<and> ((\<exists>text. matchRoute (wa_routes a') m p = Inl (No_route text)) \<longleftrightarrow> p \<notin> wr_path ` set (wa_routes a))"
proof -
  let ?rs = "wa_routes a"
  let ?f = "find (\<lambda>r. method_str (wr_method r) = toUpperCase m \<and> wr_path r = p) ?rs"
  have v: "validateRoutes ?rs = Inr ()" and same: "wa_routes a' = ?rs"
    using assms by (auto simp: webhook_initialize_def split: if_splits sum.splits)
  then have d: "distinct (route_keys ?rs)" by (simp add: validateRoutes_ok)
  have none: "?f = None \<longleftrightarrow> (\<forall>r \<in> set ?rs. wr_path r = p \<longrightarrow> method_str (wr_method r) \<noteq> toUpperCase m)"
    by (auto simp: find_None_iff)
  have 1: "matchRoute (wa_routes a') m p = Inr r \<longleftrightarrow>
      r \<in> set ?rs \<and> method_str (wr_method r) = toUpperCase m \<and> wr_path r = p"
    unfolding same matchRoute_alt route_found [OF d, symmetric] by (simp split: option.split)
  have ne: "(\<exists>r \<in> set ?rs. wr_path r = p) \<longleftrightarrow> methodsForPath ?rs p \<noteq> []"
    by (metis (mono_tags, lifting) empty_Collect_eq empty_set image_is_empty methodsForPath_set set_empty)
  have 2: "(\<exists>text. matchRoute (wa_routes a') m p = Inl (Method_not_allowed text allow)) \<longleftrightarrow>
      ?f = None \<and> allow \<noteq> [] \<and> allow = methodsForPath ?rs p"
    unfolding same matchRoute_alt no_match_cases ne by (auto split: option.split)
  have s: "set (methodsForPath ?rs p) = {k. \<exists>r \<in> set ?rs. wr_path r = p \<and> wr_method r = k}" by auto
  have 3: "(\<exists>text. matchRoute (wa_routes a') m p = Inl (No_route text)) \<longleftrightarrow> p \<notin> wr_path ` set ?rs"
    unfolding same matchRoute_alt no_match_cases using none by (auto split: option.split)
  have 4: "allow = methodsForPath ?rs p \<Longrightarrow> distinct allow \<and> set allow = {k. \<exists>r \<in> set ?rs. wr_path r = p \<and> wr_method r = k}"
    using methodsForPath_distinct s by metis
  have 5: "(?f = None \<and> allow \<noteq> [] \<and> allow = methodsForPath ?rs p) \<longleftrightarrow>
      (\<forall>r \<in> set ?rs. wr_path r = p \<longrightarrow> method_str (wr_method r) \<noteq> toUpperCase m)
      \<and> allow \<noteq> [] \<and> allow = methodsForPath ?rs p \<and> distinct allow
      \<and> set allow = {k. \<exists>r \<in> set ?rs. wr_path r = p \<and> wr_method r = k}"
    unfolding none using 4 by (iprover)
  show ?thesis unfolding 1 2 3 5 by simp
qed

definition default_adapter :: "instant \<Rightarrow> hermes webhook_adapter" where
  "default_adapter now = new_webhook_adapter createMetricRegistry \<lparr>wc_routes = defaultRouteTable now (\<lambda>_. []),
     wc_parser = None, wc_signatures = None, wc_maxBodyBytes = None, wc_timeoutMs = None\<rparr>"

lemma default_adapter_sel [simp]:
  "wa_routes (default_adapter now) = defaultRouteTable now (\<lambda>_. [])"
  "wa_parser (default_adapter now) = jsonParser DEFAULT_MAX_BODY_BYTES"
  "wa_maxBodyBytes (default_adapter now) = DEFAULT_MAX_BODY_BYTES"
  "wa_signatureHeader (default_adapter now) = None" "wa_signatureVerifier (default_adapter now) = None"
  "wa_initialized (default_adapter now) = False"
  by (simp_all add: default_adapter_def new_webhook_adapter_def override_def split_beta Let_def)

lemma default_routes_valid: "validateRoutes (defaultRouteTable now text_of) = Inr ()"
  by (simp add: validateRoutes_def defaultRouteTable_def)

lemma default_adapter_starts:
  "webhook_initialize (default_adapter now) = (Inr (), (default_adapter now)\<lparr>wa_initialized := True\<rparr>)"
  by (simp add: webhook_initialize_def default_routes_valid)

lemma routing_exact_witness:
  "\<exists>text. matchRoute (wa_routes ((default_adapter 5)\<lparr>wa_initialized := True\<rparr>)) ''get'' ''/webhook'' =
     Inl (Method_not_allowed text [POST])"
proof -
  have up: "toUpperCase ''get'' = ''GET''" by code_simp
  have "methodsForPath (defaultRouteTable 5 (\<lambda>_. [])) ''/webhook'' = [POST]"
    by (simp add: methodsForPath_def defaultRouteTable_def)
  then show ?thesis
    using routing_exact [OF default_adapter_starts [of 5], of "''get''" "''/webhook''" _ "[POST]"]
    unfolding up by (auto simp: defaultRouteTable_def)
qed

subsection \<open>Signatures\<close>

text \<open>Headers as the Fetch interface lists them: each name once, in lower case.\<close>

definition fetch_headers :: "headers \<Rightarrow> bool" where
  "fetch_headers hs \<longleftrightarrow> wf_jmap hs \<and> (\<forall>(n, _) \<in> set hs. toLowerCase n = n)"

lemma collect_headers:
  "fetch_headers hs \<Longrightarrow> \<forall>n \<in> fst ` set hs. \<not> jm_has m n \<Longrightarrow> fold (\<lambda>(k, v). jm_set (toLowerCase k) v) hs m = m @ hs"
proof (induction hs arbitrary: m)
  case (Cons h hs)
  obtain n v where h: "h = (n, v)" by (cases h)
  from Cons.prems have n: "\<not> jm_has m n" "toLowerCase n = n" "fetch_headers hs" "n \<notin> fst ` set hs"
    by (auto simp: h fetch_headers_def)
  have "fold (\<lambda>(k, v). jm_set (toLowerCase k) v) hs (m @ [(n, v)]) = (m @ [(n, v)]) @ hs"
    by (rule Cons.IH) (use n Cons.prems in \<open>auto simp: h jm_has_iff\<close>)
  with n show ?case by (simp add: h jm_set_fresh)
qed (simp add: fetch_headers_def)

lemma parsed_fields:
  assumes "parseRequest a req = Inr parsed" and "fetch_headers (wq_headers req)"
  shows "pq_raw parsed = wq_body req" and "pq_headers parsed = wq_headers req"
  using assms collect_headers [OF assms(2), of "[]"]
  by (auto simp: parseRequest_def assembleParsedRequest_def Let_def jm_has_def split: if_splits sum.splits)

lemma lower_case_names: "fetch_headers hs \<Longrightarrow> jm_get hs n = Some v \<Longrightarrow> toLowerCase n = n"
  by (auto simp: fetch_headers_def dest: map_of_SomeD)

text \<open>What the caller and the kernel see of the handling of a request.\<close>

definition outcome :: "rat \<Rightarrow> webhook_request \<Rightarrow> 'k webhook_adapter \<Rightarrow> 'k \<Rightarrow> (string + http_response) \<times> 'k" where
  "outcome d req a k = (case webhook_handle d req a k of (resp, _, k') \<Rightarrow> (resp, k'))"

definition unsigned :: "'k webhook_adapter \<Rightarrow> 'k webhook_adapter" where
  "unsigned a = a\<lparr>wa_signatureVerifier := None\<rparr>"

lemma run_route_outcome:
  "wa_timeoutMs a = wa_timeoutMs b \<Longrightarrow>
   (case run_route d p r a k of (resp, _, k') \<Rightarrow> (resp, k')) = (case run_route d p r b k of (resp, _, k') \<Rightarrow> (resp, k'))"
  by (simp add: run_route_def Let_def split_beta split: handler_outcome.split)

lemma begin_request_sel [simp]:
  "wa_initialized (begin_request a) = wa_initialized a" "wa_parser (begin_request a) = wa_parser a"
  "wa_maxBodyBytes (begin_request a) = wa_maxBodyBytes a" "wa_routes (begin_request a) = wa_routes a"
  "wa_signatureVerifier (begin_request a) = wa_signatureVerifier a" "wa_timeoutMs (begin_request a) = wa_timeoutMs a"
  "wa_signatureHeader (begin_request a) = wa_signatureHeader a"
  by (simp_all add: begin_request_def Let_def)

lemma unsigned_sel [simp]:
  "wa_initialized (unsigned a) = wa_initialized a" "wa_parser (unsigned a) = wa_parser a"
  "wa_maxBodyBytes (unsigned a) = wa_maxBodyBytes a" "wa_routes (unsigned a) = wa_routes a"
  "wa_signatureVerifier (unsigned a) = None" "wa_timeoutMs (unsigned a) = wa_timeoutMs a"
  by (simp_all add: unsigned_def)

lemma parseRequest_begin [simp]: "parseRequest (begin_request a) req = parseRequest a req"
  by (simp add: parseRequest_def Let_def)

lemma parseRequest_unsigned [simp]: "parseRequest (unsigned a) req = parseRequest a req"
  by (simp add: parseRequest_def Let_def)

lemma check_signature_begin [simp]: "check_signature (begin_request a) p = check_signature a p"
  by (simp add: check_signature_def)

lemma outcome_alt:
  assumes "wa_initialized a"
  shows "outcome d req a k = (case parseRequest a req of
     Inl e \<Rightarrow> (Inr (internalErrorResponse e), k)
   | Inr parsed \<Rightarrow> (case check_signature a parsed of
       Some e \<Rightarrow> (Inr (unauthorizedResponse e), k)
     | None \<Rightarrow> outcome d req (unsigned a) k))"
proof -
  have n: "check_signature (unsigned a) p = None" for p by (simp add: check_signature_def)
  show ?thesis using assms
    by (simp add: outcome_def webhook_handle_def n split_beta Let_def
        run_route_outcome [of "begin_request a" "begin_request (unsigned a)", unfolded split_beta]
        split: sum.split option.split routing_error.split)
qed

lemma hmac_accepted:
  "verifyHmacSha256 hmac secret pref body hs = Inr () \<longleftrightarrow>
    (\<exists>sig. jm_get hs signature_header = Some sig \<and> sig \<noteq> [] \<and> starts_with (trim sig) (override [] pref) \<and>
       toLowerCase (drop (length (override [] pref)) (trim sig)) = toLowerCase (hmac secret body))"
  by (auto simp: verifyHmacSha256_def Let_def constantTimeEqual_def utf8_inject split: option.split)

text \<open>The whole handling, the adapter with its metrics and its last error included.\<close>

abbreviation with_verifier :: "(8 word list \<Rightarrow> headers \<Rightarrow> string + unit) option \<Rightarrow> 'r \<times> 'k webhook_adapter \<times> 'k
    \<Rightarrow> 'r \<times> 'k webhook_adapter \<times> 'k" where
  "with_verifier v \<equiv> map_prod id (map_prod (\<lambda>a. a\<lparr>wa_signatureVerifier := v\<rparr>) id)"

lemma verifier_commutes:
  "begin_request (a\<lparr>wa_signatureVerifier := v\<rparr>) = (begin_request a)\<lparr>wa_signatureVerifier := v\<rparr>"
  "end_request (a\<lparr>wa_signatureVerifier := v\<rparr>) = (end_request a)\<lparr>wa_signatureVerifier := v\<rparr>"
  "count_error (a\<lparr>wa_signatureVerifier := v\<rparr>) = (count_error a)\<lparr>wa_signatureVerifier := v\<rparr>"
  by (simp_all add: begin_request_def end_request_def count_error_def Let_def)

lemma run_route_verifier:
  "run_route d p r (a\<lparr>wa_signatureVerifier := v\<rparr>) k = with_verifier v (run_route d p r a k)"
proof -
  have late: "(a\<lparr>wa_signatureVerifier := v\<rparr>)\<lparr>wa_lastError := e\<rparr> = (a\<lparr>wa_lastError := e\<rparr>)\<lparr>wa_signatureVerifier := v\<rparr>" for e
    by simp
  have metrics: "(b\<lparr>wa_signatureVerifier := v\<rparr>)\<lparr>wa_metrics := x\<rparr> = (b\<lparr>wa_metrics := x\<rparr>)\<lparr>wa_signatureVerifier := v\<rparr>" for b x
    by simp
  show ?thesis
    by (simp add: run_route_def Let_def split_beta late metrics verifier_commutes split: handler_outcome.split)
qed

lemma handle_alt:
  assumes "wa_initialized a" and "wa_signatureVerifier a = v"
  shows "webhook_handle d req a k = (case parseRequest a req of
     Inl e \<Rightarrow> (Inr (internalErrorResponse e), count_error (end_request ((begin_request a)\<lparr>wa_lastError := Some e\<rparr>)), k)
   | Inr parsed \<Rightarrow> (case check_signature a parsed of
       Some e \<Rightarrow> (Inr (unauthorizedResponse e), count_error (end_request (begin_request a)), k)
     | None \<Rightarrow> with_verifier v (webhook_handle d req (unsigned a) k)))"
proof -
  have n: "check_signature (unsigned a) p = None" for p by (simp add: check_signature_def)
  have a: "a = (unsigned a)\<lparr>wa_signatureVerifier := v\<rparr>" using assms(2) by (simp add: unsigned_def)
  have b: "begin_request a = (begin_request (unsigned a))\<lparr>wa_signatureVerifier := v\<rparr>"
    by (subst a) (simp only: verifier_commutes)
  have e: "end_request (begin_request a) = (end_request (begin_request (unsigned a)))\<lparr>wa_signatureVerifier := v\<rparr>"
    by (simp only: b verifier_commutes)
  have r: "run_route d p r (begin_request a) k = with_verifier v (run_route d p r (begin_request (unsigned a)) k)" for p r
    by (simp only: b run_route_verifier)
  show ?thesis using assms(1)
    by (simp add: webhook_handle_def n Let_def r split: sum.split option.split routing_error.split)
      (simp add: e)
qed

text \<open>
  C36: With signatures checked by the keyed hash, of the requests that can be parsed exactly those
  that carry, in the header x-webhook-signature, the prefix and the hash of the body
  under the secret, and that have a value in the configured header, are handled as without
  signatures: the same response, the same kernel, the same metrics and last error. Every other request that can be parsed gets status
  401 and reaches no handler: it leaves the kernel as it is and is counted as an error. A request that cannot be parsed gets
  status 500 before its signature is looked at, reaches no handler either, and leaves its error in the adapter.
\<close>

theorem signature_check_exact:
  assumes "wa_initialized a" and "fetch_headers (wq_headers req)" and "header \<noteq> []"
    and "wa_signatureHeader a = Some header"
    and "wa_signatureVerifier a = Some (verifyHmacSha256 hmac secret pref)"
    and "authentic \<longleftrightarrow> (\<exists>v sig. jm_get (wq_headers req) header = Some v \<and> v \<noteq> []
       \<and> jm_get (wq_headers req) ''x-webhook-signature'' = Some sig \<and> sig \<noteq> []
       \<and> starts_with (trim sig) (override [] pref)
       \<and> toLowerCase (drop (length (override [] pref)) (trim sig)) = toLowerCase (hmac secret (wq_body req)))"
  shows "(case parseRequest a req of
     Inl e \<Rightarrow> webhook_handle d req a k =
       (Inr (internalErrorResponse e), count_error (end_request ((begin_request a)\<lparr>wa_lastError := Some e\<rparr>)), k)
   | Inr _ \<Rightarrow> if authentic
       then webhook_handle d req a k = with_verifier (wa_signatureVerifier a) (webhook_handle d req (unsigned a) k)
       else (\<exists>e. webhook_handle d req a k = (Inr (unauthorizedResponse e), count_error (end_request (begin_request a)), k)))"
proof (cases "parseRequest a req")
  case (Inl e)
  then show ?thesis by (simp add: handle_alt [OF assms(1) refl])
next
  case (Inr parsed)
  note f = parsed_fields [OF Inr assms(2)]
  have "check_signature a parsed = None \<longleftrightarrow> (\<exists>v. jm_get (wq_headers req) header = Some v \<and> v \<noteq> []) \<and>
      verifyHmacSha256 hmac secret pref (wq_body req) (wq_headers req) = Inr ()"
    using assms(3) by (auto simp: check_signature_def assms(4,5) f split: option.split sum.split)
  then have "check_signature a parsed = None \<longleftrightarrow> authentic"
    unfolding hmac_accepted signature_header_def assms(6) by blast
  then show ?thesis using Inr by (auto simp: handle_alt [OF assms(1) refl] split: option.split)
qed

definition sample_hash :: "string \<Rightarrow> 8 word list \<Rightarrow> string" where
  "sample_hash secret body = secret @ nat_str (length body)"

definition signed_adapter :: "hermes webhook_adapter" where
  "signed_adapter = (default_adapter 5)\<lparr>wa_initialized := True, wa_signatureHeader := Some ''x-hub-signature'',
     wa_signatureVerifier := Some (verifyHmacSha256 sample_hash ''k'' (Some ''v1=''))\<rparr>"

definition unsigned_request :: webhook_request where
  "unsigned_request = \<lparr>wq_method = ''POST'', wq_path = ''/webhook'', wq_headers = [(''x-hub-signature'', ''v1=k0'')], wq_body = []\<rparr>"

lemma signature_check_exact_witness:
  "\<exists>e a'. webhook_handle 1 unsigned_request signed_adapter running_kernel = (Inr (unauthorizedResponse e), a', running_kernel)"
proof -
  have p: "parseRequest signed_adapter unsigned_request = Inr (assembleParsedRequest [] [] (wq_headers unsigned_request) JNull)"
    by (simp add: parseRequest_def signed_adapter_def unsigned_request_def jsonParser_def Let_def override_def)
  have f: "fetch_headers (wq_headers unsigned_request)"
    unfolding fetch_headers_def unsigned_request_def by code_simp
  have no: "False = (\<exists>v sig. jm_get (wq_headers unsigned_request) ''x-hub-signature'' = Some v \<and> v \<noteq> []
       \<and> jm_get (wq_headers unsigned_request) ''x-webhook-signature'' = Some sig \<and> sig \<noteq> []
       \<and> starts_with (trim sig) (override [] (Some ''v1=''))
       \<and> toLowerCase (drop (length (override [] (Some ''v1=''))) (trim sig)) =
         toLowerCase (sample_hash ''k'' (wq_body unsigned_request)))"
    by (simp add: unsigned_request_def)
  have "wa_initialized signed_adapter" "''x-hub-signature'' \<noteq> []"
    "wa_signatureHeader signed_adapter = Some ''x-hub-signature''"
    "wa_signatureVerifier signed_adapter = Some (verifyHmacSha256 sample_hash ''k'' (Some ''v1=''))"
    by (simp_all add: signed_adapter_def)
  from signature_check_exact [OF this(1) f this(2-4) no, of 1 running_kernel] show ?thesis by (auto simp: p)
qed

text \<open>
  The names of the headers are lower-cased, the configured name is not: with a capital letter in it
  every request that can be parsed is refused.
\<close>

lemma capital_header_refuses_all:
  assumes "wa_initialized a" and "fetch_headers (wq_headers req)" and "toLowerCase header \<noteq> header" and "header \<noteq> []"
    and "wa_signatureHeader a = Some header" and "wa_signatureVerifier a = Some verifier"
    and "parseRequest a req = Inr parsed"
  shows "outcome d req a k = (Inr (unauthorizedResponse ''signature header missing''), k)"
proof -
  have "jm_get (pq_headers parsed) header = None"
    using lower_case_names [OF assms(2)] assms(3) parsed_fields(2) [OF assms(7,2)] by fastforce
  then show ?thesis using assms(4) by (simp add: outcome_alt [OF assms(1)] assms(7) check_signature_def assms(5,6))
qed

subsection \<open>The metrics of requests\<close>

definition webhook_bundle_ok :: "'k webhook_adapter \<Rightarrow> bool" where
  "webhook_bundle_ok a \<longleftrightarrow> (let b = wa_bundle a; m = wa_metrics a in
     requestsTotal b < length (fm_objects (mr_counters m)) \<and> errorsTotal b < length (fm_objects (mr_counters m)) \<and>
     requestsTotal b \<noteq> errorsTotal b \<and> activeRequests b < length (fm_objects (mr_gauges m)))"

definition requests_counted :: "'k webhook_adapter \<Rightarrow> rat" where
  "requests_counted a = counter_getValue (requestsTotal (wa_bundle a)) (wa_metrics a)"

definition errors_counted :: "'k webhook_adapter \<Rightarrow> rat" where
  "errors_counted a = counter_getValue (errorsTotal (wa_bundle a)) (wa_metrics a)"

definition requests_active :: "'k webhook_adapter \<Rightarrow> rat" where
  "requests_active a = gauge_getValue (activeRequests (wa_bundle a)) (wa_metrics a)"

lemmas webhook_counts = webhook_bundle_ok_def requests_counted_def errors_counted_def requests_active_def Let_def
  metric_reads

lemma new_webhook_counts:
  "webhook_bundle_ok (new_webhook_adapter reg cfg)" "requests_counted (new_webhook_adapter reg cfg) = 0"
  "errors_counted (new_webhook_adapter reg cfg) = 0" "requests_active (new_webhook_adapter reg cfg) = 0"
  by (simp_all add: new_webhook_adapter_def webhook_bundle_ok_def requests_counted_def errors_counted_def requests_active_def
      createAdapterMetrics_def reg_counter_def reg_histogram_def reg_gauge_def create_in_def new_instrument_def
      counter_getValue_def gauge_getValue_def value_in_def nth_append Let_def split_beta)

text \<open>A step of the pipeline leaves the adapter with its counts or one error more.\<close>

lemma step_counts:
  assumes "webhook_bundle_ok a"
  shows "webhook_bundle_ok (begin_request a) \<and> requests_counted (begin_request a) = requests_counted a + 1
      \<and> errors_counted (begin_request a) = errors_counted a \<and> requests_active (begin_request a) = requests_active a + 1"
    and "webhook_bundle_ok (end_request a) \<and> requests_counted (end_request a) = requests_counted a
      \<and> errors_counted (end_request a) = errors_counted a \<and> requests_active (end_request a) = max 0 (requests_active a - 1)"
    and "webhook_bundle_ok (count_error a) \<and> requests_counted (count_error a) = requests_counted a
      \<and> errors_counted (count_error a) = errors_counted a + 1 \<and> requests_active (count_error a) = requests_active a"
    and "webhook_bundle_ok (a\<lparr>wa_lastError := e\<rparr>) \<and> requests_counted (a\<lparr>wa_lastError := e\<rparr>) = requests_counted a
      \<and> errors_counted (a\<lparr>wa_lastError := e\<rparr>) = errors_counted a \<and> requests_active (a\<lparr>wa_lastError := e\<rparr>) = requests_active a"
    and "a2 = a\<lparr>wa_metrics := histogram_observe d i (wa_metrics a)\<rparr> \<Longrightarrow> webhook_bundle_ok a2
      \<and> requests_counted a2 = requests_counted a \<and> errors_counted a2 = errors_counted a \<and> requests_active a2 = requests_active a"
  using assms by (auto simp: begin_request_def end_request_def count_error_def webhook_counts)

definition error_answer :: "string + http_response \<Rightarrow> bool" where
  "error_answer r = (case r of Inl _ \<Rightarrow> False | Inr resp \<Rightarrow> \<exists>p. hp_body resp = envelope False p)"

lemma error_answers [simp]:
  "error_answer (Inr (errorResponse e n))" "error_answer (Inr (internalErrorResponse m))"
  "error_answer (Inr (unauthorizedResponse m))" "\<not> error_answer (fromResponseBody rb)"
  by (auto simp: error_answer_def internalErrorResponse_def unauthorizedResponse_def errorResponse_def
      fromResponseBody_def new_response_def envelope_def)

lemma run_route_counts:
  assumes "webhook_bundle_ok a" and "0 \<le> requests_active a - 1" and "run_route d p r a k = (resp, a', k')"
  shows "webhook_bundle_ok a' \<and> requests_counted a' = requests_counted a \<and> requests_active a' = requests_active a - 1
    \<and> errors_counted a' = errors_counted a + (if error_answer resp then 1 else 0)"
proof -
  obtain out h where o: "wr_handler r p k = (out, h)" by fastforce
  define e where "e = end_request a"
  define f where "f = e\<lparr>wa_metrics := histogram_observe d (requestDurationMs (wa_bundle e)) (wa_metrics e)\<rparr>"
  note ends = step_counts(2) [OF assms(1), folded e_def]
  note fin = step_counts(5) [OF conjunct1 [OF ends] f_def]
  have failed: "webhook_bundle_ok b \<and> requests_counted b = requests_counted a \<and> requests_active b = requests_active a - 1
      \<and> errors_counted b = errors_counted a + 1" if "b = count_error (end_request (a\<lparr>wa_lastError := m\<rparr>))" for b m
  proof -
    note 1 = step_counts(4) [OF assms(1), of m]
    note 2 = step_counts(2) [OF conjunct1 [OF 1]]
    note 3 = step_counts(3) [OF conjunct1 [OF 2]]
    show ?thesis using 1 2 3 assms(2) that by simp
  qed
  show ?thesis
  proof (cases out)
    case (Handler_ok rb)
    with assms(3) o have "resp = fromResponseBody rb" "a' = f" by (simp_all add: run_route_def Let_def e_def f_def)
    with ends fin assms(2) show ?thesis by simp
  next
    case (Handler_err err)
    with assms(3) o have "resp = Inr (errorResponse err (statusFor err))" "a' = count_error f"
      by (simp_all add: run_route_def Let_def e_def f_def)
    with ends fin step_counts(3) [OF conjunct1 [OF fin]] assms(2) show ?thesis by simp
  next
    case (Handler_throws m)
    with assms(3) o have "resp = Inr (internalErrorResponse m)" "a' = count_error (end_request (a\<lparr>wa_lastError := Some m\<rparr>))"
      by (simp_all add: run_route_def Let_def)
    with failed show ?thesis by simp
  next
    case Handler_late
    with assms(3) o have "error_answer resp" "\<exists>m. a' = count_error (end_request (a\<lparr>wa_lastError := Some m\<rparr>))"
      by (auto simp: run_route_def Let_def)
    with failed show ?thesis by auto
  qed
qed

definition unrouted :: "'k webhook_adapter \<Rightarrow> webhook_request \<Rightarrow> bool" where
  "unrouted a req \<longleftrightarrow> wa_initialized a \<and> (\<exists>parsed e. parseRequest a req = Inr parsed \<and>
     check_signature a parsed = None \<and> matchRoute (wa_routes a) (wq_method req) (wq_path req) = Inl e)"

text \<open>
  Every request is counted, the gauge of active requests returns to its value, and an error is
  counted exactly for the answers with an error, those of the routing excepted.
\<close>

lemma webhook_counts_requests:
  assumes "webhook_bundle_ok a" and "0 \<le> requests_active a" and "webhook_handle d req a k = (resp, a', k')"
  shows "webhook_bundle_ok a' \<and> requests_counted a' = requests_counted a + 1 \<and> requests_active a' = requests_active a
    \<and> errors_counted a' = errors_counted a + (if error_answer resp \<and> \<not> unrouted a req then 1 else 0)"
proof -
  let ?a = "begin_request a"
  note b = step_counts(1) [OF assms(1)]
  have failed: ?thesis if "\<exists>b. a' = count_error (end_request b) \<and> (b = ?a \<or> (\<exists>m. b = ?a\<lparr>wa_lastError := m\<rparr>))"
    and "error_answer resp" and "\<not> unrouted a req"
  proof -
    from that(1) obtain c where c: "a' = count_error (end_request c)" "c = ?a \<or> (\<exists>m. c = ?a\<lparr>wa_lastError := m\<rparr>)" by blast
    then have 1: "webhook_bundle_ok c \<and> requests_counted c = requests_counted ?a \<and> errors_counted c = errors_counted ?a
        \<and> requests_active c = requests_active ?a"
      using step_counts(4) [OF conjunct1 [OF b]] b by auto
    note 2 = step_counts(2) [OF conjunct1 [OF 1]]
    note 3 = step_counts(3) [OF conjunct1 [OF 2]]
    show ?thesis using 1 2 3 b c(1) that(2,3) assms(2) by simp
  qed
  show ?thesis
  proof (cases "wa_initialized a")
    case False
    then show ?thesis using assms(3) by (intro failed) (auto simp: webhook_handle_def unrouted_def)
  next
    case True
    note h = assms(3) [unfolded webhook_handle_def Let_def]
    show ?thesis
    proof (cases "parseRequest a req")
      case (Inl e)
      then show ?thesis using h True by (intro failed) (auto simp: unrouted_def)
    next
      case (Inr parsed)
      show ?thesis
      proof (cases "check_signature a parsed")
        case (Some e)
        then show ?thesis using h True Inr by (intro failed) (auto simp: unrouted_def)
      next
        case None
        show ?thesis
        proof (cases "matchRoute (wa_routes a) (wq_method req) (wq_path req)")
          case (Inl e)
          then have "unrouted a req" "a' = end_request ?a"
            using h True Inr None by (auto simp: unrouted_def split: routing_error.splits)
          then show ?thesis using step_counts(2) [OF conjunct1 [OF b]] b assms(2) by simp
        next
          case (Inr r)
          then have "\<not> unrouted a req" "run_route d parsed r ?a k = (resp, a', k')"
            using h True \<open>parseRequest a req = Inr parsed\<close> None by (auto simp: unrouted_def)
          then show ?thesis using run_route_counts [OF conjunct1 [OF b]] b assms(2) by simp
        qed
      qed
    qed
  qed
qed

subsection \<open>The event config\<close>

definition config_event :: string where
  "config_event = [CHR ''{'', CHR 0x22] @ ''event'' @ [CHR 0x22, CHR '':'', CHR 0x22] @ ''config'' @ [CHR 0x22, CHR ''}'']"

lemma config_event_parses: "json_parse config_event = Some (JObj [(''event'', JStr ''config'')])"
  by code_simp

lemma config_event_bytes: "utf8_decode (utf8 config_event) = Some config_event" "length (utf8 config_event) = 18"
    "utf8 config_event \<noteq> []"
  by code_simp+

lemma json_type: "JSON_PATTERN ''application/json''"
  by code_simp

text \<open>
  An adapter with the default routes, the default parser and no signatures answers the event
  config of any client with status 200 and the configuration of the kernel as it is, with the key
  of the language models and the addresses of the database and of Redis; the kernel is unchanged.
\<close>

theorem config_event_reveals_secrets:
  assumes "wa_initialized a" and "wa_routes a = defaultRouteTable now text_of"
    and "wa_parser a = jsonParser (wa_maxBodyBytes a)" and "18 \<le> wa_maxBodyBytes a" and "wa_signatureVerifier a = None"
    and "wq_method req = ''POST''" and "wq_path req = ''/webhook''"
    and "jm_get (wq_headers req) ''content-type'' = Some ''application/json''" and "wq_body req = utf8 config_event"
  shows "\<exists>resp ms. outcome d req a h = (Inr resp, h) \<and> hp_status resp = 200 \<and> hp_body resp = envelope True (JObj ms)
    \<and> jm_get ms ''openrouterApiKey'' = Some (JStr (openrouterApiKey (config h)))
    \<and> jm_get ms ''databaseUrl'' = Some (JStr (databaseUrl (config h)))
    \<and> jm_get ms ''redisUrl'' = Some (JStr (redisUrl (config h)))"
proof -
  obtain parsed where p: "parseRequest a req = Inr parsed" "pq_json parsed = JObj [(''event'', JStr ''config'')]"
    using assms(3,4,8,9) config_event_bytes
    by (simp add: parseRequest_def jsonParser_def Let_def override_def json_type config_event_parses assembleParsedRequest_def)
  have s: "check_signature a q = None" for q by (simp add: check_signature_def assms(5))
  have u: "toUpperCase ''POST'' = ''POST''" by code_simp
  have m: "matchRoute (wa_routes a) ''POST'' ''/webhook'' =
      Inr \<lparr>wr_method = POST, wr_path = ''/webhook'', wr_handler = webhookEventHandler now text_of\<rparr>"
    by (simp add: matchRoute_def u known_method_def KNOWN_METHODS_def assms(2) defaultRouteTable_def)
  have e: "webhookEventHandler now text_of parsed h = (ok_body (raw_config_js (config h)), h)"
    by (simp add: webhookEventHandler_def p(2) Let_def js_get_def known_event_def)
  have "outcome d req a h = (fromResponseBody \<lparr>rb_status = 200, rb_headers = None, rb_body = raw_config_js (config h)\<rparr>, h)"
    by (simp add: outcome_def webhook_handle_def assms(1,6,7) p(1) s m run_route_def e ok_body_def Let_def)
  moreover obtain ms where "raw_config_js (config h) = JObj ms"
      "jm_get ms ''openrouterApiKey'' = Some (JStr (openrouterApiKey (config h)))"
      "jm_get ms ''databaseUrl'' = Some (JStr (databaseUrl (config h)))"
      "jm_get ms ''redisUrl'' = Some (JStr (redisUrl (config h)))"
    by (simp add: raw_config_js_def)
  ultimately show ?thesis by (auto simp: fromResponseBody_def new_response_def override_def)
qed

definition config_request :: webhook_request where
  "config_request = \<lparr>wq_method = ''POST'', wq_path = ''/webhook'',
     wq_headers = [(''content-type'', ''application/json'')], wq_body = utf8 config_event\<rparr>"

lemma config_event_reveals_secrets_witness:
  "\<exists>resp ms. outcome 1 config_request ((default_adapter 5)\<lparr>wa_initialized := True\<rparr>) running_kernel = (Inr resp, running_kernel)
    \<and> hp_body resp = envelope True (JObj ms)
    \<and> jm_get ms ''openrouterApiKey'' = Some (JStr (openrouterApiKey (config running_kernel)))"
  using config_event_reveals_secrets [of "(default_adapter 5)\<lparr>wa_initialized := True\<rparr>" 5 "\<lambda>_. []" config_request 1 running_kernel]
  by (force simp: config_request_def DEFAULT_MAX_BODY_BYTES_def)

end
