(* ===== verification/ChatAdapters.thy ===== *)
theory ChatAdapters
  imports ApiFacts Json
begin

text \<open>
  What the adapters to Telegram, WhatsApp, mail and Discord (packages/adapters-telegram, -whatsapp,
  -email, -discord), and those to MCP and the command line, have in common: commands over the kernel, and the metrics around a command. A
  call of a dispatcher is split at the await of the command's handler: it arrives, and is answered
  at once or starts a handler; later the outcome of the handler settles it. The handlers read of
  their context only the kernel and the time. A character outside Latin-1 is written as its bytes
  in UTF-8.
\<close>

definition nl :: string where
  "nl = [CHR 0x0A]"

text \<open>A value in a template: what has no JSON text is written as undefined.\<close>

definition json_text :: "layout \<Rightarrow> jsval \<Rightarrow> string" where
  "json_text lay v = override ''undefined'' (stringify lay v)"

definition EM_DASH :: string where
  "EM_DASH = [CHR 0xE2, CHR 0x80, CHR 0x94]"

definition BULLET :: string where
  "BULLET = [CHR 0xE2, CHR 0x80, CHR 0xA2]"

text \<open>
  \<open>split(/\s+/)\<close>: after white space at the start the first part is empty.
\<close>

function (sequential) split_white :: "string \<Rightarrow> string list" where
  "split_white s = (case dropWhile (\<lambda>c. \<not> is_white c) s of
     [] \<Rightarrow> [s]
   | c # r \<Rightarrow> takeWhile (\<lambda>c. \<not> is_white c) s # split_white (dropWhile is_white r))"
  by pat_completeness auto
termination
proof (relation "measure length")
  fix s c r
  assume "dropWhile (\<lambda>c. \<not> is_white c) s = c # r"
  then have "length (c # r) \<le> length s" by (metis length_dropWhile_le)
  moreover have "length (dropWhile is_white r) \<le> length r" by (rule length_dropWhile_le)
  ultimately show "(dropWhile is_white r, s) \<in> measure length" by simp
qed simp

declare split_white.simps [simp del]

subsection \<open>Commands\<close>

record command_error =
  ce_code :: string
  ce_message :: string
  ce_detail :: "jsval option"

text \<open>What a handler may throw: of a value that is no error only its text is ever read.\<close>

datatype thrown =
    Thrown_error string
  | Thrown_permission kernel_role kernel_action
  | Thrown_value string

datatype 'm command_outcome =
    Command_ok 'm
  | Command_err command_error
  | Command_throws thrown

text \<open>A handler gives its outcome, or \<open>None\<close> if its promise never settles.\<close>

record 'o chat_command =
  kc_name :: string
  kc_description :: string
  kc_requires :: kernel_action
  kc_handler :: "instant \<Rightarrow> hermes \<Rightarrow> 'o option \<times> hermes"

definition thrown_text :: "thrown \<Rightarrow> string" where
  "thrown_text t = (case t of
     Thrown_error m \<Rightarrow> m
   | Thrown_permission role action \<Rightarrow> permission_message role action
   | Thrown_value s \<Rightarrow> s)"

definition toCommandError :: "thrown \<Rightarrow> command_error" where
  "toCommandError t = \<lparr>ce_code = ''UNEXPECTED'',
     ce_message = (case t of Thrown_value _ \<Rightarrow> ''Unexpected error.'' | _ \<Rightarrow> thrown_text t), ce_detail = None\<rparr>"

definition phase_text :: "instant \<Rightarrow> hermes \<Rightarrow> string" where
  "phase_text now h = phase_str (status_phase (hermes_status_of now h))"

definition hermes_failed :: "string \<Rightarrow> 'm command_outcome option" where
  "hermes_failed e = Some (Command_err \<lparr>ce_code = ''HERMES'', ce_message = e, ce_detail = None\<rparr>)"

definition start_handler :: "(string \<Rightarrow> 'm) \<Rightarrow> instant \<Rightarrow> hermes \<Rightarrow> 'm command_outcome option \<times> hermes" where
  "start_handler formatStarted now h = (case start now h of
     (Inl e, h') \<Rightarrow> (hermes_failed e, h')
   | (Inr _, h') \<Rightarrow> (Some (Command_ok (formatStarted (phase_text now h'))), h'))"

definition stop_handler :: "(string \<Rightarrow> 'm) \<Rightarrow> instant \<Rightarrow> hermes \<Rightarrow> 'm command_outcome option \<times> hermes" where
  "stop_handler formatStopped now h = (case stop now h of
     (None, h') \<Rightarrow> (None, h')
   | (Some (Inl e), h') \<Rightarrow> (hermes_failed e, h')
   | (Some (Inr _), h') \<Rightarrow> (Some (Command_ok (formatStopped (phase_text now h'))), h'))"

definition status_handler :: "(hermes_status \<Rightarrow> 'm) \<Rightarrow> instant \<Rightarrow> hermes \<Rightarrow> 'm command_outcome option \<times> hermes" where
  "status_handler formatStatus now h = (Some (Command_ok (formatStatus (hermes_status_of now h))), h)"

definition health_handler :: "(health_report \<Rightarrow> 'm) \<Rightarrow> instant \<Rightarrow> hermes \<Rightarrow> 'm command_outcome option \<times> hermes" where
  "health_handler formatHealth now h = (case kernel_health now h of
     (rep, h') \<Rightarrow> (Some (Command_ok (formatHealth rep)), h'))"

definition modules_handler :: "(nat \<Rightarrow> 'm) \<Rightarrow> instant \<Rightarrow> hermes \<Rightarrow> 'm command_outcome option \<times> hermes" where
  "modules_handler formatModules now h = (Some (Command_ok (formatModules (modules (hermes_status_of now h)))), h)"

definition config_handler :: "(hermes_config \<Rightarrow> 'm) \<Rightarrow> instant \<Rightarrow> hermes \<Rightarrow> 'm command_outcome option \<times> hermes" where
  "config_handler formatConfig now h = (Some (Command_ok (formatConfig (config h))), h)"

definition fixed_handler :: "'m \<Rightarrow> instant \<Rightarrow> hermes \<Rightarrow> 'm command_outcome option \<times> hermes" where
  "fixed_handler m now h = (Some (Command_ok m), h)"

lemma conceal_phase: "phase_text now (conceal x h) = phase_text now h"
  by (simp add: phase_text_def conceal_status)

text \<open>The rows of the configuration, of the redacted view where the adapters redact.\<close>

definition bool_str :: "bool \<Rightarrow> string" where
  "bool_str b = (if b then ''true'' else ''false'')"

definition config_rows :: "hermes_config \<Rightarrow> (string \<times> string) list" where
  "config_rows r =
     [(''NODE_ENV'', nodeEnv r), (''LOG_LEVEL'', logLevel r), (''OPENROUTER_API_KEY'', openrouterApiKey r),
      (''DATABASE_URL'', databaseUrl r), (''REDIS_URL'', redisUrl r), (''OTEL_ENABLED'', bool_str (otelEnabled r)),
      (''OTEL_EXPORTER_ENDPOINT'', override EM_DASH (otelExporterEndpoint r)),
      (''HERMES_MODULES_DIR'', hermesModulesDir r),
      (''HERMES_SHUTDOWN_TIMEOUT_MS'', int_str (hermesShutdownTimeoutMs r))]"

subsection \<open>Dispatching\<close>

record chat_core =
  ca_bundle :: adapter_metrics
  ca_metrics :: metric_registry

record chat_users = chat_core +
  ca_admins :: "string list"

record chat_adapter = chat_users +
  ca_started :: bool
  ca_lastError :: "string option"

definition chat_arrive :: "'z chat_core_scheme \<Rightarrow> 'z chat_core_scheme" where
  "chat_arrive a = (let b = ca_bundle a; m = counter_inc 1 (requestsTotal b) (ca_metrics a) in
     a\<lparr>ca_metrics := gauge_set (gauge_getValue (activeRequests b) m + 1) (activeRequests b) m\<rparr>)"

definition chat_leave :: "'z chat_core_scheme \<Rightarrow> 'z chat_core_scheme" where
  "chat_leave a = (let b = ca_bundle a; m = ca_metrics a in
     a\<lparr>ca_metrics := gauge_set (max 0 (gauge_getValue (activeRequests b) m - 1)) (activeRequests b) m\<rparr>)"

definition chat_failed :: "'z chat_core_scheme \<Rightarrow> 'z chat_core_scheme" where
  "chat_failed a = (let a1 = chat_leave a in
     a1\<lparr>ca_metrics := counter_inc 1 (errorsTotal (ca_bundle a1)) (ca_metrics a1)\<rparr>)"

text \<open>\<open>d\<close> is the time since the call began.\<close>

definition chat_succeeded :: "rat \<Rightarrow> 'z chat_core_scheme \<Rightarrow> 'z chat_core_scheme" where
  "chat_succeeded d a = (let a1 = chat_leave a; b = ca_bundle a1 in
     a1\<lparr>ca_metrics := histogram_observe d (commandDurationMs b) (counter_inc 1 (commandsTotal b) (ca_metrics a1))\<rparr>)"

text \<open>An answer that counts as a command, and as an error too if it is one: MCP and the command line.\<close>

definition chat_counted :: "bool \<Rightarrow> rat \<Rightarrow> 'z chat_core_scheme \<Rightarrow> 'z chat_core_scheme" where
  "chat_counted is_error d a = (let a1 = chat_leave a; b = ca_bundle a1;
       m = counter_inc 1 (commandsTotal b) (ca_metrics a1);
       m' = (if is_error then counter_inc 1 (errorsTotal b) m else m)
     in a1\<lparr>ca_metrics := histogram_observe d (commandDurationMs b) m'\<rparr>)"

text \<open>The check of the permission: \<open>deny\<close> makes the reply of a refusal, \<open>fail\<close> that of an error.\<close>

definition check_permission :: "(string \<Rightarrow> 'm) \<Rightarrow> (command_error \<Rightarrow> 'm) \<Rightarrow> kernel_role \<Rightarrow> 'o chat_command
    \<Rightarrow> 'z chat_core_scheme \<Rightarrow> ('m + 'o chat_command) \<times> 'z chat_core_scheme" where
  "check_permission deny fail role cmd a = (case requireRole role (kc_requires cmd) of
     Inr _ \<Rightarrow> (Inr cmd, a)
   | Inl (Permission_error _ _) \<Rightarrow> (Inl (deny (kc_name cmd)), chat_failed a)
   | Inl (Plain_error m) \<Rightarrow> (Inl (fail (toCommandError (Thrown_error m))), chat_failed a)
   | Inl (Other_value _) \<Rightarrow> (Inl (fail (toCommandError (Thrown_value []))), chat_failed a))"

definition settle_command :: "(command_error \<Rightarrow> 'm) \<Rightarrow> rat \<Rightarrow> 'm command_outcome
    \<Rightarrow> 'z chat_adapter_scheme \<Rightarrow> 'm \<times> 'z chat_adapter_scheme" where
  "settle_command fail d result a = (case result of
     Command_ok m \<Rightarrow> (m, chat_succeeded d a)
   | Command_err e \<Rightarrow> (fail e, chat_failed a)
   | Command_throws t \<Rightarrow> (fail (toCommandError t), chat_failed (a\<lparr>ca_lastError := Some (thrown_text t)\<rparr>)))"

text \<open>A call in which nothing else happens at the await. Without a reply it never returns.\<close>

definition run_command :: "('o \<Rightarrow> 'a \<Rightarrow> 'r \<times> 'a) \<Rightarrow> instant \<Rightarrow> ('r + 'o chat_command) \<times> 'a
    \<Rightarrow> hermes \<Rightarrow> 'r option \<times> 'a \<times> hermes" where
  "run_command settle now arrived_at h = (case arrived_at of
     (Inl r, a) \<Rightarrow> (Some r, a, h)
   | (Inr cmd, a) \<Rightarrow> (case kc_handler cmd now h of
         (None, h') \<Rightarrow> (None, a, h')
       | (Some result, h') \<Rightarrow> (case settle result a of (r, a') \<Rightarrow> (Some r, a', h'))))"

definition chat_roleFor :: "string \<Rightarrow> string list \<Rightarrow> kernel_role" where
  "chat_roleFor user admins = (if user \<in> set admins then Admin else Viewer)"

definition not_started :: command_error where
  "not_started = \<lparr>ce_code = ''INTERNAL'', ce_message = ''Adapter not started.'', ce_detail = None\<rparr>"

definition unknown_command :: command_error where
  "unknown_command = \<lparr>ce_code = ''VALIDATION'', ce_message = ''Unknown command. Send '' @ quoted ''help'' @ '' for a list of commands.'',
     ce_detail = None\<rparr>"

subsection \<open>What viewers can do\<close>

text \<open>The kernel up to its cache of health reports.\<close>

definition same_kernel :: "hermes \<Rightarrow> hermes \<Rightarrow> bool" where
  "same_kernel h h' \<longleftrightarrow> h' = h\<lparr>healthMonitor := healthMonitor h'\<rparr>"

lemma same_kernel_refl [simp]: "same_kernel h h"
  by (simp add: same_kernel_def)

lemma same_kernel_trans: "same_kernel h h1 \<Longrightarrow> same_kernel h1 h2 \<Longrightarrow> same_kernel h h2"
  by (metis (no_types, lifting) same_kernel_def hermes.surjective hermes.update_convs(4))

lemma same_kernel_phase: "same_kernel h h' \<Longrightarrow> kernel_phase h' = kernel_phase h \<and> registry h' = registry h"
  unfolding same_kernel_def by (metis currentPhase_def hermes.ext_inject hermes.surjective hermes.update_convs(4))

definition reads_only :: "'o chat_command \<Rightarrow> bool" where
  "reads_only c \<longleftrightarrow> (\<forall>now h. same_kernel h (snd (kc_handler c now h)))"

lemma reading_handlers [simp]:
  "same_kernel h (snd (status_handler f1 now h))" "same_kernel h (snd (health_handler f2 now h))"
  "same_kernel h (snd (modules_handler f3 now h))" "same_kernel h (snd (config_handler f4 now h))"
  "same_kernel h (snd (fixed_handler m now h))"
  by (simp_all add: status_handler_def health_handler_def modules_handler_def config_handler_def fixed_handler_def
      kernel_health_def same_kernel_def split: prod.split)

definition guarded :: "'o chat_command list \<Rightarrow> bool" where
  "guarded cmds \<longleftrightarrow> (\<forall>c \<in> set cmds. can Viewer (kc_requires c) \<longrightarrow> reads_only c)"

lemma viewer_can: "can Viewer action \<longleftrightarrow> action \<in> {K_status, K_health, K_modules, K_config, K_version}"
  by (auto simp: can_def VIEWER_ACTIONS_def)

lemma check_permission_cmd:
  "check_permission deny fail role cmd a = (Inr c, a') \<Longrightarrow> c = cmd \<and> can role (kc_requires cmd) \<and> a' = a"
  by (simp add: check_permission_def requireRole_def split: if_splits)

lemma check_permission_denied:
  "\<not> can role (kc_requires cmd) \<Longrightarrow> check_permission deny fail role cmd a = (Inl (deny (kc_name cmd)), chat_failed a)"
  by (simp add: check_permission_def requireRole_def)

lemma found_command: "find P cs = Some c \<Longrightarrow> c \<in> set cs"
  by (auto simp: find_Some_iff)

lemma run_command_same:
  assumes "\<And>c a'. arrived_at = (Inr c, a') \<Longrightarrow> reads_only c"
  shows "same_kernel h (snd (snd (run_command settle now arrived_at h)))"
proof (cases arrived_at)
  case (Pair x a)
  then show ?thesis using assms
    by (cases x) (auto simp: run_command_def reads_only_def split: prod.split option.split, (metis snd_conv)+)
qed

text \<open>No call changes who is an administrator.\<close>

lemma admins_kept [simp]:
  "ca_admins (chat_arrive a) = ca_admins a" "ca_admins (chat_leave a) = ca_admins a"
  "ca_admins (chat_failed a) = ca_admins a" "ca_admins (chat_succeeded d a) = ca_admins a"
  "ca_admins (snd (check_permission deny fail role cmd a)) = ca_admins a"
  "ca_admins (snd (settle_command fail d result a1)) = ca_admins a1"
  by (simp_all add: chat_arrive_def chat_leave_def chat_failed_def chat_succeeded_def check_permission_def settle_command_def
      Let_def split: sum.split kernel_exn.split command_outcome.split)

lemma run_command_keeps:
  assumes "\<And>result a. f (snd (settle result a)) = f a"
  shows "f (fst (snd (run_command settle now arrived_at h))) = f (snd arrived_at)"
proof -
  have "settle result a = (r, a') \<Longrightarrow> f a' = f a" for result a r a' using assms by (metis snd_conv)
  then show ?thesis by (auto simp: run_command_def split: prod.split sum.split option.split)
qed

subsection \<open>What the metrics count\<close>

definition chat_ok :: "'z chat_core_scheme \<Rightarrow> bool" where
  "chat_ok a \<longleftrightarrow> (let b = ca_bundle a; m = ca_metrics a in
     {requestsTotal b, commandsTotal b, errorsTotal b} \<subseteq> {..<length (fm_objects (mr_counters m))} \<and>
     distinct [requestsTotal b, commandsTotal b, errorsTotal b] \<and>
     {activeRequests b, activeCommands b} \<subseteq> {..<length (fm_objects (mr_gauges m))} \<and>
     activeRequests b \<noteq> activeCommands b)"

definition chat_requests :: "'z chat_core_scheme \<Rightarrow> rat" where
  "chat_requests a = counter_getValue (requestsTotal (ca_bundle a)) (ca_metrics a)"

definition chat_commands :: "'z chat_core_scheme \<Rightarrow> rat" where
  "chat_commands a = counter_getValue (commandsTotal (ca_bundle a)) (ca_metrics a)"

definition chat_errors :: "'z chat_core_scheme \<Rightarrow> rat" where
  "chat_errors a = counter_getValue (errorsTotal (ca_bundle a)) (ca_metrics a)"

definition chat_active :: "'z chat_core_scheme \<Rightarrow> rat" where
  "chat_active a = gauge_getValue (activeRequests (ca_bundle a)) (ca_metrics a)"

lemmas chat_reads = chat_ok_def chat_requests_def chat_commands_def chat_errors_def chat_active_def Let_def metric_reads

lemma new_bundle_counts:
  assumes "ca_bundle a = fst (createAdapterMetrics reg adapter)" and "ca_metrics a = snd (createAdapterMetrics reg adapter)"
  shows "chat_ok a" "chat_requests a = 0" "chat_commands a = 0" "chat_errors a = 0" "chat_active a = 0"
  by (simp_all add: assms chat_ok_def chat_requests_def chat_commands_def chat_errors_def chat_active_def
      createAdapterMetrics_def reg_counter_def reg_histogram_def reg_gauge_def create_in_def new_instrument_def
      counter_getValue_def gauge_getValue_def value_in_def nth_append Let_def split_beta)

lemma arrive_counts [simp]:
  assumes "chat_ok a"
  shows "chat_ok (chat_arrive a)" "chat_requests (chat_arrive a) = chat_requests a + 1"
    "chat_commands (chat_arrive a) = chat_commands a" "chat_errors (chat_arrive a) = chat_errors a"
    "chat_active (chat_arrive a) = chat_active a + 1"
  using assms by (auto simp: chat_arrive_def chat_reads)

lemma leave_counts [simp]:
  assumes "chat_ok a"
  shows "chat_ok (chat_leave a)" "chat_requests (chat_leave a) = chat_requests a"
    "chat_commands (chat_leave a) = chat_commands a" "chat_errors (chat_leave a) = chat_errors a"
    "chat_active (chat_leave a) = max 0 (chat_active a - 1)"
  using assms by (auto simp: chat_leave_def chat_reads)

lemma failed_counts [simp]:
  assumes "chat_ok a"
  shows "chat_ok (chat_failed a)" "chat_requests (chat_failed a) = chat_requests a"
    "chat_commands (chat_failed a) = chat_commands a" "chat_errors (chat_failed a) = chat_errors a + 1"
    "chat_active (chat_failed a) = max 0 (chat_active a - 1)"
  using assms by (auto simp: chat_failed_def chat_leave_def chat_reads)

lemma succeeded_counts [simp]:
  assumes "chat_ok a"
  shows "chat_ok (chat_succeeded d a)" "chat_requests (chat_succeeded d a) = chat_requests a"
    "chat_commands (chat_succeeded d a) = chat_commands a + 1" "chat_errors (chat_succeeded d a) = chat_errors a"
    "chat_active (chat_succeeded d a) = max 0 (chat_active a - 1)"
  using assms by (auto simp: chat_succeeded_def chat_leave_def chat_reads)

lemma counted_counts [simp]:
  assumes "chat_ok a"
  shows "chat_ok (chat_counted e d a)" "chat_requests (chat_counted e d a) = chat_requests a"
    "chat_commands (chat_counted e d a) = chat_commands a + 1"
    "chat_errors (chat_counted e d a) = chat_errors a + (if e then 1 else 0)"
    "chat_active (chat_counted e d a) = max 0 (chat_active a - 1)"
  using assms by (cases e; auto simp: chat_counted_def chat_leave_def chat_reads)+

lemma lastError_counts [simp]:
  "chat_ok (a\<lparr>ca_lastError := e\<rparr>) = chat_ok a" "chat_requests (a\<lparr>ca_lastError := e\<rparr>) = chat_requests a"
  "chat_commands (a\<lparr>ca_lastError := e\<rparr>) = chat_commands a" "chat_errors (a\<lparr>ca_lastError := e\<rparr>) = chat_errors a"
  "chat_active (a\<lparr>ca_lastError := e\<rparr>) = chat_active a"
  by (simp_all add: chat_reads)

lemma check_permission_counts:
  assumes "check_permission deny fail role cmd a = (x, a')" and "chat_ok a" and "1 \<le> chat_active a"
  shows "chat_ok a' \<and> chat_requests a' = chat_requests a \<and> chat_active a' = chat_active a - (if isl x then 1 else 0) \<and>
     chat_commands a' + chat_errors a' = chat_commands a + chat_errors a + (if isl x then 1 else 0)"
  using assms by (auto simp: check_permission_def requireRole_def split: if_splits)

lemma settle_command_counts:
  assumes "settle_command fail d result a = (r, a')" and "chat_ok a"
  shows "chat_ok a' \<and> chat_requests a' = chat_requests a \<and> chat_active a' = max 0 (chat_active a - 1) \<and>
     chat_commands a' + chat_errors a' = chat_commands a + chat_errors a + 1"
  using assms by (auto simp: settle_command_def split: command_outcome.splits)

text \<open>
  A dispatcher of the common form: calls that \<open>refuse\<close> answers do so with one error, and all others
  go to the check of permission.
\<close>

lemma arrival_counts:
  assumes "chat_ok a" and "0 \<le> chat_active a"
    and "(x, a') = (case refuse of Some r \<Rightarrow> (Inl r, chat_failed (chat_arrive a))
       | None \<Rightarrow> check_permission deny fail role cmd (chat_arrive a))"
  shows "chat_ok a' \<and> chat_requests a' = chat_requests a + 1 \<and> chat_active a' = chat_active a + (if isl x then 0 else 1)
     \<and> chat_commands a' + chat_errors a' = chat_commands a + chat_errors a + (if isl x then 1 else 0)"
proof (cases refuse)
  case (Some r)
  then show ?thesis using assms by simp
next
  case None
  then have "check_permission deny fail role cmd (chat_arrive a) = (x, a')" using assms(3) by simp
  from check_permission_counts [OF this] show ?thesis using assms(1,2) by auto
qed

subsection \<open>Interfaces\<close>

text \<open>
  The calls of a dispatcher in any order: one arrives and is answered at once, or its handler
  starts to run; the handler of some running call settles with any outcome.
\<close>

record 'a chat_run =
  cr_adapter :: 'a
  cr_arrived :: nat
  cr_running :: nat
  cr_answered :: nat

inductive chat_step :: "('msg \<Rightarrow> 'a \<Rightarrow> ('r + 'c) \<times> 'a) \<Rightarrow> (rat \<Rightarrow> 'o \<Rightarrow> 'a \<Rightarrow> 'r \<times> 'a) \<Rightarrow> 'a chat_run \<Rightarrow> 'a chat_run \<Rightarrow> bool"
  for arrive settle where
  answers: "arrive msg (cr_adapter s) = (Inl r, a) \<Longrightarrow>
     chat_step arrive settle s (s\<lparr>cr_adapter := a, cr_arrived := cr_arrived s + 1, cr_answered := cr_answered s + 1\<rparr>)"
| runs: "arrive msg (cr_adapter s) = (Inr c, a) \<Longrightarrow>
     chat_step arrive settle s (s\<lparr>cr_adapter := a, cr_arrived := cr_arrived s + 1, cr_running := cr_running s + 1\<rparr>)"
| settles: "0 < cr_running s \<Longrightarrow> settle d result (cr_adapter s) = (r, a) \<Longrightarrow>
     chat_step arrive settle s (s\<lparr>cr_adapter := a, cr_running := cr_running s - 1, cr_answered := cr_answered s + 1\<rparr>)"

definition new_run :: "'a \<Rightarrow> 'a chat_run" where
  "new_run a = \<lparr>cr_adapter = a, cr_arrived = 0, cr_running = 0, cr_answered = 0\<rparr>"

abbreviation chat_steps :: "('msg \<Rightarrow> 'a \<Rightarrow> ('r + 'c) \<times> 'a) \<Rightarrow> (rat \<Rightarrow> 'o \<Rightarrow> 'a \<Rightarrow> 'r \<times> 'a) \<Rightarrow> 'a chat_run \<Rightarrow> 'a chat_run \<Rightarrow> bool" where
  "chat_steps arrive settle \<equiv> (chat_step arrive settle)\<^sup>*\<^sup>*"

definition requests_exact :: "'z chat_core_scheme chat_run \<Rightarrow> bool" where
  "requests_exact s \<longleftrightarrow> chat_ok (cr_adapter s) \<and> chat_requests (cr_adapter s) = of_nat (cr_arrived s) \<and>
     chat_active (cr_adapter s) = of_nat (cr_running s) \<and> cr_arrived s = cr_running s + cr_answered s"

definition answers_exact :: "'z chat_core_scheme chat_run \<Rightarrow> bool" where
  "answers_exact s \<longleftrightarrow> chat_commands (cr_adapter s) + chat_errors (cr_adapter s) = of_nat (cr_answered s)"

definition fresh_adapter :: "'z chat_core_scheme \<Rightarrow> bool" where
  "fresh_adapter a \<longleftrightarrow> chat_ok a \<and> chat_requests a = 0 \<and> chat_commands a = 0 \<and> chat_errors a = 0 \<and> chat_active a = 0"

text \<open>What a dispatcher promises of the count of its calls and of the gauge of running ones.\<close>

locale chat_dispatcher =
  fixes arrive :: "'msg \<Rightarrow> 'z chat_core_scheme \<Rightarrow> ('r + 'c) \<times> 'z chat_core_scheme"
    and settle :: "rat \<Rightarrow> 'o \<Rightarrow> 'z chat_core_scheme \<Rightarrow> 'r \<times> 'z chat_core_scheme"
  assumes arrive_law: "chat_ok a \<Longrightarrow> 0 \<le> chat_active a \<Longrightarrow> arrive msg a = (x, a') \<Longrightarrow>
      chat_ok a' \<and> chat_requests a' = chat_requests a + 1 \<and> chat_active a' = chat_active a + (if isl x then 0 else 1)"
    and settle_law: "chat_ok a \<Longrightarrow> 1 \<le> chat_active a \<Longrightarrow> settle d result a = (r, a') \<Longrightarrow>
      chat_ok a' \<and> chat_requests a' = chat_requests a \<and> chat_active a' = chat_active a - 1"
begin

lemma step_requests: "chat_step arrive settle s t \<Longrightarrow> requests_exact s \<Longrightarrow> requests_exact t"
proof (induction rule: chat_step.induct)
  case (answers msg s r a)
  then show ?case using arrive_law [of "cr_adapter s" msg "Inl r" a] by (simp add: requests_exact_def)
next
  case (runs msg s c a)
  then show ?case using arrive_law [of "cr_adapter s" msg "Inr c" a] by (simp add: requests_exact_def)
next
  case (settles s d result r a)
  then have "1 \<le> chat_active (cr_adapter s)" by (simp add: requests_exact_def)
  with settles show ?case using settle_law [of "cr_adapter s" d result r a] by (simp add: requests_exact_def of_nat_diff)
qed

lemma requests_counted_exactly:
  assumes "chat_steps arrive settle (new_run a) s" and "fresh_adapter a"
  shows "requests_exact s"
  using assms(1)
proof (induction rule: rtranclp_induct)
  case base
  then show ?case using assms(2) by (simp add: requests_exact_def new_run_def fresh_adapter_def)
next
  case (step s t)
  then show ?case using step_requests by blast
qed

end

text \<open>One that also counts each answer, as a command or as an error.\<close>

locale counting_dispatcher = chat_dispatcher arrive settle
  for arrive :: "'msg \<Rightarrow> 'z chat_core_scheme \<Rightarrow> ('r + 'c) \<times> 'z chat_core_scheme"
    and settle :: "rat \<Rightarrow> 'o \<Rightarrow> 'z chat_core_scheme \<Rightarrow> 'r \<times> 'z chat_core_scheme" +
  assumes arrive_ends: "chat_ok a \<Longrightarrow> 0 \<le> chat_active a \<Longrightarrow> arrive msg a = (x, a') \<Longrightarrow>
      chat_commands a' + chat_errors a' = chat_commands a + chat_errors a + (if isl x then 1 else 0)"
    and settle_ends: "chat_ok a \<Longrightarrow> settle d result a = (r, a') \<Longrightarrow>
      chat_commands a' + chat_errors a' = chat_commands a + chat_errors a + 1"
begin

lemma step_answers: "chat_step arrive settle s t \<Longrightarrow> requests_exact s \<Longrightarrow> answers_exact s \<Longrightarrow> answers_exact t"
proof (induction rule: chat_step.induct)
  case (answers msg s r a)
  then show ?case using arrive_ends [of "cr_adapter s" msg "Inl r" a] by (simp add: answers_exact_def requests_exact_def)
next
  case (runs msg s c a)
  then show ?case using arrive_ends [of "cr_adapter s" msg "Inr c" a] by (simp add: answers_exact_def requests_exact_def)
next
  case (settles s d result r a)
  then show ?case using settle_ends [of "cr_adapter s" d result r a] by (simp add: answers_exact_def requests_exact_def)
qed

lemma answers_counted_exactly:
  assumes "chat_steps arrive settle (new_run a) s" and "fresh_adapter a"
  shows "requests_exact s \<and> answers_exact s"
  using assms(1)
proof (induction rule: rtranclp_induct)
  case base
  then show ?case using assms(2) by (simp add: requests_exact_def answers_exact_def new_run_def fresh_adapter_def)
next
  case (step s t)
  then show ?case using step_requests step_answers by blast
qed

end

lemma counting_dispatcherI:
  fixes arrive :: "'msg \<Rightarrow> 'z chat_adapter_scheme \<Rightarrow> ('m + 'm command_outcome chat_command) \<times> 'z chat_adapter_scheme"
  assumes "\<And>msg a. \<exists>refuse deny fail role cmd. arrive msg a =
      (case refuse of Some r \<Rightarrow> (Inl r, chat_failed (chat_arrive a))
       | None \<Rightarrow> check_permission deny fail role cmd (chat_arrive a))"
    and "\<And>d result a. settle d result a = settle_command fail d result a"
  shows "counting_dispatcher arrive settle"
proof unfold_locales
  fix a a' :: "'z chat_adapter_scheme" and msg x
  assume 1: "chat_ok a" "0 \<le> chat_active a" "arrive msg a = (x, a')"
  obtain refuse deny fail' role cmd where "arrive msg a = (case refuse of Some r \<Rightarrow> (Inl r, chat_failed (chat_arrive a))
      | None \<Rightarrow> check_permission deny fail' role cmd (chat_arrive a))" using assms(1) by blast
  with 1 have e: "(x, a') = (case refuse of Some r \<Rightarrow> (Inl r, chat_failed (chat_arrive a))
      | None \<Rightarrow> check_permission deny fail' role cmd (chat_arrive a))" by simp
  show "chat_ok a' \<and> chat_requests a' = chat_requests a + 1 \<and> chat_active a' = chat_active a + (if isl x then 0 else 1)"
    "chat_commands a' + chat_errors a' = chat_commands a + chat_errors a + (if isl x then 1 else 0)"
    using arrival_counts [OF 1(1,2) e] by simp_all
next
  fix a a' :: "'z chat_adapter_scheme" and d result r
  assume "chat_ok a" "1 \<le> chat_active a" "settle d result a = (r, a')"
  then show "chat_ok a' \<and> chat_requests a' = chat_requests a \<and> chat_active a' = chat_active a - 1"
    using settle_command_counts [of fail d result a r a'] assms(2) by simp
next
  fix a a' :: "'z chat_adapter_scheme" and d result r
  assume "chat_ok a" "settle d result a = (r, a')"
  then show "chat_commands a' + chat_errors a' = chat_commands a + chat_errors a + 1"
    using settle_command_counts [of fail d result a r a'] assms(2) by simp
qed

text \<open>One that lets only administrators change the kernel.\<close>

definition chat_session :: "(instant \<Rightarrow> rat \<Rightarrow> 'msg \<Rightarrow> 'a \<Rightarrow> hermes \<Rightarrow> 'r option \<times> 'a \<times> hermes)
    \<Rightarrow> (instant \<times> rat \<times> 'msg) list \<Rightarrow> 'a \<times> hermes \<Rightarrow> 'a \<times> hermes" where
  "chat_session handle msgs s = fold (\<lambda>(now, d, msg) (a, h). snd (handle now d msg a h)) msgs s"

locale gated_dispatcher =
  fixes handle :: "instant \<Rightarrow> rat \<Rightarrow> 'msg \<Rightarrow> 'a \<Rightarrow> hermes \<Rightarrow> 'r option \<times> 'a \<times> hermes"
    and role_of :: "'msg \<Rightarrow> 'a \<Rightarrow> kernel_role"
    and sound :: "'a \<Rightarrow> bool"
  assumes gate: "sound a \<Longrightarrow> role_of msg a = Viewer \<Longrightarrow> same_kernel h (snd (snd (handle now d msg a h)))"
    and role_kept: "role_of other (fst (snd (handle now d msg a h))) = role_of other a"
    and sound_kept: "sound a \<Longrightarrow> sound (fst (snd (handle now d msg a h)))"
begin

lemma viewers_change_nothing:
  assumes "sound a" and "\<forall>(now, d, msg) \<in> set msgs. role_of msg a = Viewer"
  shows "same_kernel h (snd (chat_session handle msgs (a, h)))"
  using assms
proof (induction msgs arbitrary: a h)
  case Nil
  then show ?case by (simp add: chat_session_def)
next
  case (Cons x msgs)
  obtain now d msg where x: "x = (now, d, msg)" by (cases x)
  obtain r a1 h1 where 1: "handle now d msg a h = (r, a1, h1)" by (cases "handle now d msg a h")
  have "same_kernel h h1" using gate [of a msg h now d] Cons.prems by (simp add: x 1)
  moreover have "\<forall>(now, d, msg) \<in> set msgs. role_of msg a1 = Viewer"
    using role_kept [of _ now d msg a h] Cons.prems by (auto simp: 1)
  then have "same_kernel h1 (snd (chat_session handle msgs (a1, h1)))"
    using sound_kept [of a now d msg h] Cons.prems(1) by (intro Cons.IH) (simp_all add: 1)
  moreover have "chat_session handle (x # msgs) (a, h) = chat_session handle msgs (a1, h1)"
    by (simp add: chat_session_def x 1)
  ultimately show ?case by (simp add: same_kernel_trans)
qed

end

end
