(* ===== verification/TelegramAdapter.thy ===== *)
theory TelegramAdapter
  imports ChatAdapters
begin

text \<open>
  The adapter to Telegram (packages/adapters-telegram/src): formats.ts, permissions.ts, the commands
  and TelegramAdapter.ts. The bot is grammY's: what it answers when it is built, checked and
  started is an argument, and it calls the dispatcher of the command an update names.
\<close>

subsection \<open>Formats\<close>

datatype parse_mode = Parse_HTML | Parse_MarkdownV2

record telegram_message =
  tm_text :: string
  tm_parseMode :: "parse_mode option"

definition BACKSLASH :: char where
  "BACKSLASH = CHR 0x5C"

definition MD_RESERVED :: string where
  "MD_RESERVED = ''_*[]()~`>#+-=|{}.!'' @ [BACKSLASH]"

definition escapeMarkdownV2 :: "string \<Rightarrow> string" where
  "escapeMarkdownV2 s = concat (map (\<lambda>c. if c \<in> set MD_RESERVED then [BACKSLASH, c] else [c]) s)"

definition markdown :: "string \<Rightarrow> telegram_message" where
  "markdown t = \<lparr>tm_text = t, tm_parseMode = Some Parse_MarkdownV2\<rparr>"

definition tg_formatPhase :: "phase \<Rightarrow> string" where
  "tg_formatPhase p = ''*'' @ phase_str p @ ''*''"

definition tg_formatStatusMessage :: "hermes_status \<Rightarrow> telegram_message" where
  "tg_formatStatusMessage s = markdown (join nl
     [''*Hermes Status*'', [], ''Phase: '' @ tg_formatPhase (status_phase s), ''Uptime (ms): '' @ int_str (uptime s),
      ''Modules: '' @ nat_str (modules s)])"

definition tg_formatHealthModule :: "health_detail \<Rightarrow> string" where
  "tg_formatHealthModule m = BULLET @ '' `'' @ escapeMarkdownV2 (d_name m) @ ''`: '' @ escapeMarkdownV2 (health_str (d_status m))
     @ (if override [] (d_detail m) = [] then []
        else '' '' @ EM_DASH @ '' '' @ escapeMarkdownV2 (override [] (d_detail m)))"

definition tg_formatHealthMessage :: "health_report \<Rightarrow> telegram_message" where
  "tg_formatHealthMessage r =
     (let header = ''*Hermes Health*'' @ nl @ nl @ ''Aggregate: *'' @ escapeMarkdownV2 (health_str (hr_status r)) @ ''*'' in
      if hr_modules r = []
      then markdown (header @ nl @ nl @ ''_'' @ [BACKSLASH] @ ''(no modules registered'' @ [BACKSLASH] @ '')_'')
      else markdown (header @ nl @ nl @ join nl (map tg_formatHealthModule (hr_modules r))))"

definition tg_formatVersionMessage :: "string \<Rightarrow> string \<Rightarrow> telegram_message" where
  "tg_formatVersionMessage n v = markdown (''*Hermes Version*'' @ nl @ nl @ escapeMarkdownV2 n @ '' ''
     @ [BACKSLASH] @ ''@ '' @ escapeMarkdownV2 v)"

definition tg_redactConfig :: "hermes_config \<Rightarrow> (string \<times> string) list" where
  "tg_redactConfig cfg = config_rows (redactHermesConfig cfg)"

definition tg_formatConfigMessage :: "hermes_config \<Rightarrow> telegram_message" where
  "tg_formatConfigMessage cfg = markdown (''*Hermes Configuration*'' @ nl @ nl @ ''_Secrets are redacted._'' @ nl @ nl
     @ join nl (map (\<lambda>(k, v). BULLET @ '' `'' @ escapeMarkdownV2 k @ ''`: '' @ escapeMarkdownV2 v) (tg_redactConfig cfg)))"

definition tg_formatModulesMessage :: "nat \<Rightarrow> telegram_message" where
  "tg_formatModulesMessage count = markdown (''*Hermes Modules*'' @ nl @ nl @ ''Registered: *'' @ nat_str count @ ''*''
     @ nl @ nl @ ''_Per'' @ [BACKSLASH] @ ''-module detail lands when the kernel exposes a module'' @ [BACKSLASH]
     @ ''-readout port._'')"

definition tg_formatStartedMessage :: "string \<Rightarrow> telegram_message" where
  "tg_formatStartedMessage p = markdown (''*Hermes Start*'' @ nl @ nl @ ''Kernel phase: *'' @ escapeMarkdownV2 p @ ''*'')"

definition tg_formatStoppedMessage :: "string \<Rightarrow> telegram_message" where
  "tg_formatStoppedMessage p = markdown (''*Hermes Stop*'' @ nl @ nl @ ''Kernel phase: *'' @ escapeMarkdownV2 p @ ''*'')"

definition tg_formatErrorMessage :: "string \<Rightarrow> telegram_message" where
  "tg_formatErrorMessage m = markdown (''*Error*'' @ nl @ nl @ escapeMarkdownV2 m)"

definition tg_formatPermissionMessage :: "string \<Rightarrow> telegram_message" where
  "tg_formatPermissionMessage action = markdown (''*Permission Denied*'' @ nl @ nl
     @ ''You do not have permission to run `'' @ escapeMarkdownV2 action @ ''`.'')"

subsection \<open>Commands\<close>

type_synonym telegram_command = "telegram_message command_outcome chat_command"

definition TELEGRAM_PACKAGE_NAME :: string where
  "TELEGRAM_PACKAGE_NAME = ''@agent-os/adapters-telegram''"

definition TELEGRAM_PACKAGE_VERSION :: string where
  "TELEGRAM_PACKAGE_VERSION = ''1.0.0''"

definition tg_startCommand :: telegram_command where
  "tg_startCommand = \<lparr>kc_name = ''start'', kc_description = ''Start the Hermes kernel.'', kc_requires = K_start,
     kc_handler = start_handler tg_formatStartedMessage\<rparr>"

definition tg_stopCommand :: telegram_command where
  "tg_stopCommand = \<lparr>kc_name = ''stop'', kc_description = ''Stop the Hermes kernel.'', kc_requires = K_stop,
     kc_handler = stop_handler tg_formatStoppedMessage\<rparr>"

definition tg_statusCommand :: telegram_command where
  "tg_statusCommand = \<lparr>kc_name = ''status'', kc_description = ''Show kernel phase, uptime, and module count.'',
     kc_requires = K_status, kc_handler = status_handler tg_formatStatusMessage\<rparr>"

definition tg_healthCommand :: telegram_command where
  "tg_healthCommand = \<lparr>kc_name = ''health'', kc_description = ''Show aggregate and per-module health.'',
     kc_requires = K_health, kc_handler = health_handler tg_formatHealthMessage\<rparr>"

definition tg_modulesCommand :: telegram_command where
  "tg_modulesCommand = \<lparr>kc_name = ''modules'', kc_description = ''Show registered modules.'',
     kc_requires = K_modules, kc_handler = modules_handler tg_formatModulesMessage\<rparr>"

definition tg_configCommand :: telegram_command where
  "tg_configCommand = \<lparr>kc_name = ''config'', kc_description = ''Show active configuration (secrets redacted).'',
     kc_requires = K_config, kc_handler = config_handler tg_formatConfigMessage\<rparr>"

definition tg_versionCommand :: telegram_command where
  "tg_versionCommand = \<lparr>kc_name = ''version'', kc_description = ''Show Hermes kernel version.'', kc_requires = K_version,
     kc_handler = fixed_handler (tg_formatVersionMessage TELEGRAM_PACKAGE_NAME TELEGRAM_PACKAGE_VERSION)\<rparr>"

definition tg_COMMANDS :: "telegram_command list" where
  "tg_COMMANDS = [tg_startCommand, tg_stopCommand, tg_statusCommand, tg_healthCommand, tg_modulesCommand,
     tg_configCommand, tg_versionCommand]"

definition tg_SUPPORTED_OPERATIONS :: "string list" where
  "tg_SUPPORTED_OPERATIONS = [''start'', ''stop'', ''status'', ''health'', ''modules'', ''config'', ''version'']"

subsection \<open>The adapter\<close>

datatype telegram_transport = Polling | Webhook_transport

record telegram_init =
  ti_botToken :: string
  ti_adminUserIds :: "string list"
  ti_webhookUrl :: "string option"
  ti_metricRegistry :: "metric_registry option"

record telegram_adapter = chat_adapter +
  ta_init :: telegram_init
  ta_transport :: telegram_transport
  ta_bot :: bool
  ta_webhookInitialized :: bool

definition new_telegram :: "telegram_init \<Rightarrow> telegram_adapter" where
  "new_telegram init =
     (let am = createAdapterMetrics (override createMetricRegistry (ti_metricRegistry init)) ''telegram'' in
      \<lparr>ca_bundle = fst am, ca_metrics = snd am, ca_admins = ti_adminUserIds init, ca_started = False, ca_lastError = None,
       ta_init = init, ta_transport = (if override [] (ti_webhookUrl init) = [] then Polling else Webhook_transport),
       ta_bot = False, ta_webhookInitialized = False\<rparr>)"

record telegram_metadata_shape = adapter_metadata +
  tm_transport :: telegram_transport

definition telegram_metadata :: "telegram_adapter \<Rightarrow> telegram_metadata_shape" where
  "telegram_metadata a = \<lparr>am_name = TELEGRAM_PACKAGE_NAME, am_version = TELEGRAM_PACKAGE_VERSION,
     am_interfaceType = I_telegram, am_supportedOperations = tg_SUPPORTED_OPERATIONS, tm_transport = ta_transport a\<rparr>"

text \<open>\<open>made\<close> and \<open>checked\<close>: the error of the bot's constructor and of its \<open>init\<close>, if any.\<close>

definition tg_initialize :: "string option \<Rightarrow> string option \<Rightarrow> telegram_adapter \<Rightarrow> (string + unit) \<times> telegram_adapter" where
  "tg_initialize made checked a =
     (if ta_bot a then (Inr (), a)
      else case made of
          Some e \<Rightarrow> (Inl e, a)
        | None \<Rightarrow> (let a1 = a\<lparr>ta_bot := True, ca_admins := ti_adminUserIds (ta_init a)\<rparr> in
            (case checked of
               Some e \<Rightarrow> (Inl e, a1\<lparr>ca_lastError := Some e\<rparr>)
             | None \<Rightarrow> (Inr (), a1))))"

text \<open>
  The result of \<open>start\<close> says if the bot is started; it calls \<open>tg_onStart\<close> once it polls.
\<close>

definition tg_start :: "telegram_adapter \<Rightarrow> (string + bool) \<times> telegram_adapter" where
  "tg_start a =
     (if \<not> ta_bot a then (Inl (TELEGRAM_PACKAGE_NAME @ '': initialize() must be called before start().''), a)
      else if ca_started a then (Inr False, a)
      else case ta_transport a of
          Polling \<Rightarrow> (Inr True, a)
        | Webhook_transport \<Rightarrow> (Inr False, a\<lparr>ta_webhookInitialized := True, ca_started := True\<rparr>))"

definition tg_onStart :: "telegram_adapter \<Rightarrow> telegram_adapter" where
  "tg_onStart a = a\<lparr>ca_started := True, ca_lastError := None\<rparr>"

text \<open>The result of \<open>stop\<close> says if the bot is stopped.\<close>

definition tg_stop :: "telegram_adapter \<Rightarrow> bool \<times> telegram_adapter" where
  "tg_stop a =
     (if \<not> ta_bot a \<or> \<not> ca_started a then (False, a)
      else (ta_transport a = Polling, a\<lparr>ta_webhookInitialized := False, ca_started := False\<rparr>))"

definition tg_health :: "instant \<Rightarrow> telegram_adapter \<Rightarrow> adapter_health" where
  "tg_health now a =
     (let report = (\<lambda>s detail. \<lparr>ah_status = s, ah_detail = detail, ah_at = now\<rparr>) in
      if \<not> ta_bot a then report A_unknown (Some ''not initialized'')
      else if override [] (ca_lastError a) \<noteq> [] then report A_failed (ca_lastError a)
      else if \<not> ca_started a then report A_degraded (Some ''initialized but not started'')
      else if ta_transport a = Webhook_transport \<and> \<not> ta_webhookInitialized a
      then report A_degraded (Some ''webhook not initialized'')
      else report A_healthy None)"

definition tg_handleUpdate :: "telegram_adapter \<Rightarrow> string + unit" where
  "tg_handleUpdate a = (if ta_bot a then Inr ()
     else Inl (TELEGRAM_PACKAGE_NAME @ '': initialize() must be called before handleUpdate().''))"

subsection \<open>Dispatching\<close>

text \<open>An update: the number of its sender, if it has one, and the command it names.\<close>

record telegram_update =
  tu_from :: "int option"
  tu_command :: string

definition userIdOf :: "telegram_update \<Rightarrow> string" where
  "userIdOf u = (case tu_from u of Some n \<Rightarrow> int_str n | None \<Rightarrow> ''unknown'')"

definition tg_fail :: "command_error \<Rightarrow> telegram_message" where
  "tg_fail e = tg_formatErrorMessage (ce_message e)"

definition tg_arrive :: "telegram_update \<times> telegram_command \<Rightarrow> telegram_adapter
    \<Rightarrow> (telegram_message + telegram_command) \<times> telegram_adapter" where
  "tg_arrive m a = (case m of (u, cmd) \<Rightarrow>
     check_permission tg_formatPermissionMessage tg_fail (chat_roleFor (userIdOf u) (ca_admins a)) cmd (chat_arrive a))"

definition tg_settle :: "rat \<Rightarrow> telegram_message command_outcome \<Rightarrow> telegram_adapter \<Rightarrow> telegram_message \<times> telegram_adapter" where
  "tg_settle = settle_command tg_fail"

definition tg_dispatchCommand :: "instant \<Rightarrow> rat \<Rightarrow> telegram_update \<Rightarrow> telegram_command
    \<Rightarrow> telegram_adapter \<Rightarrow> hermes \<Rightarrow> telegram_message option \<times> telegram_adapter \<times> hermes" where
  "tg_dispatchCommand now d u cmd a h = run_command (tg_settle d) now (tg_arrive (u, cmd) a) h"

text \<open>The bot, once built, calls the dispatcher of the command.\<close>

definition tg_update :: "instant \<Rightarrow> rat \<Rightarrow> telegram_update \<Rightarrow> telegram_adapter \<Rightarrow> hermes
    \<Rightarrow> telegram_message option \<times> telegram_adapter \<times> hermes" where
  "tg_update now d u a h = (case find (\<lambda>c. kc_name c = tu_command u) tg_COMMANDS of
     Some cmd \<Rightarrow> if ta_bot a then tg_dispatchCommand now d u cmd a h else (None, a, h)
   | None \<Rightarrow> (None, a, h))"

subsection \<open>The contracts of the chat adapters\<close>

lemma tg_guarded: "guarded tg_COMMANDS"
  by (simp add: guarded_def tg_COMMANDS_def viewer_can reads_only_def tg_startCommand_def tg_stopCommand_def
      tg_statusCommand_def tg_healthCommand_def tg_modulesCommand_def tg_configCommand_def tg_versionCommand_def)

interpretation telegram_calls: counting_dispatcher tg_arrive tg_settle
proof (rule counting_dispatcherI)
  show "\<exists>refuse deny fail role cmd. tg_arrive msg a = (case refuse of Some r \<Rightarrow> (Inl r, chat_failed (chat_arrive a))
      | None \<Rightarrow> check_permission deny fail role cmd (chat_arrive a))" for msg a
    by (intro exI [of _ None]) (auto simp: tg_arrive_def split: prod.split)
qed (simp add: tg_settle_def)

lemma new_telegram_fresh: "fresh_adapter (new_telegram init)"
  unfolding fresh_adapter_def
  by (intro conjI new_bundle_counts [where adapter = "''telegram''"]) (simp_all add: new_telegram_def Let_def)

text \<open>A viewer is a sender that is not an administrator.\<close>

definition tg_role_of :: "telegram_update \<Rightarrow> telegram_adapter \<Rightarrow> kernel_role" where
  "tg_role_of u a = chat_roleFor (userIdOf u) (ca_admins a)"

interpretation telegram_gate: gated_dispatcher tg_update tg_role_of "\<lambda>_. True"
proof
  fix u a h now d
  assume v: "tg_role_of u a = Viewer"
  have "same_kernel h (snd (snd (tg_dispatchCommand now d u cmd a h)))" if "cmd \<in> set tg_COMMANDS" for cmd
    unfolding tg_dispatchCommand_def
    by (rule run_command_same)
      (use v that tg_guarded in \<open>auto simp: tg_arrive_def tg_role_of_def guarded_def dest: check_permission_cmd\<close>)
  then show "same_kernel h (snd (snd (tg_update now d u a h)))"
    by (auto simp: tg_update_def find_Some_iff split: option.split)
next
  show "tg_role_of u' (fst (snd (tg_update now d u a h))) = tg_role_of u' a" for u' now d u a h
  proof -
    have "ca_admins (fst (snd (tg_dispatchCommand now d u cmd a h))) = ca_admins a" for cmd
      by (simp add: tg_dispatchCommand_def tg_settle_def tg_arrive_def run_command_keeps [where f = ca_admins])
    then show ?thesis by (simp add: tg_role_of_def tg_update_def split: option.split)
  qed
qed simp

subsection \<open>What the bot accepts as a text\<close>

text \<open>
  In MarkdownV2 a backslash takes the character after it literally; the interface of the bot refuses a
  text in which a reserved character other than the three marks of the formats is left without one.
\<close>

definition MD_PUNCT :: string where
  "MD_PUNCT = ''[]()~>#+-=|{}.!''"

fun md_strays :: "string \<Rightarrow> string" where
  "md_strays [] = []"
| "md_strays [c] = (if c \<in> set MD_PUNCT then [c] else [])"
| "md_strays (c # d # s) = (if c = BACKSLASH then md_strays s
     else (if c \<in> set MD_PUNCT then [c] else []) @ md_strays (d # s))"

fun md_unescape :: "string \<Rightarrow> string" where
  "md_unescape [] = []"
| "md_unescape [c] = [c]"
| "md_unescape (c # d # s) = (if c = BACKSLASH then d # md_unescape s else c # md_unescape (d # s))"

definition md_safe :: "string \<Rightarrow> bool" where
  "md_safe s \<longleftrightarrow> (\<forall>t. md_strays (s @ t) = md_strays t)"

lemma md_strays_Cons: "c \<noteq> BACKSLASH \<Longrightarrow> md_strays (c # s) = (if c \<in> set MD_PUNCT then [c] else []) @ md_strays s"
  by (cases s) auto

lemma backslash_no_punct: "BACKSLASH \<notin> set MD_PUNCT"
  by (simp add: BACKSLASH_def MD_PUNCT_def)

lemma reserved_punct: "c \<notin> set MD_RESERVED \<Longrightarrow> c \<noteq> BACKSLASH \<and> c \<notin> set MD_PUNCT"
  by (auto simp: MD_RESERVED_def MD_PUNCT_def BACKSLASH_def)

lemma md_safe_Nil [simp]: "md_safe []" and md_safe_append: "md_safe s \<Longrightarrow> md_safe t \<Longrightarrow> md_safe (s @ t)"
  by (simp_all add: md_safe_def)

lemma md_safe_plain: "BACKSLASH \<notin> set s \<Longrightarrow> set s \<inter> set MD_PUNCT = {} \<Longrightarrow> md_safe s"
  unfolding md_safe_def by (induction s) (auto simp: md_strays_Cons)

lemma md_safe_escaped: "md_safe [BACKSLASH, c]"
  by (simp add: md_safe_def)

lemma md_safe_escape [simp]: "md_safe (escapeMarkdownV2 s)"
proof (induction s)
  case (Cons c s)
  have "md_safe (if c \<in> set MD_RESERVED then [BACKSLASH, c] else [c])"
    using reserved_punct [of c] by (auto simp: md_safe_escaped intro: md_safe_plain)
  with Cons show ?case by (simp add: escapeMarkdownV2_def md_safe_append)
qed (simp add: escapeMarkdownV2_def)

lemma md_safe_join: "md_safe d \<Longrightarrow> \<forall>x \<in> set xs. md_safe x \<Longrightarrow> md_safe (join d xs)"
  by (induction d xs rule: join.induct) (simp_all add: md_safe_append)

lemma escape_round_trip: "md_unescape (escapeMarkdownV2 s) = s"
proof (induction s)
  case (Cons c s)
  have "c \<noteq> BACKSLASH \<Longrightarrow> md_unescape (c # u) = c # md_unescape u" for u by (cases u) simp_all
  moreover have "c \<notin> set MD_RESERVED \<Longrightarrow> c \<noteq> BACKSLASH" using reserved_punct by blast
  ultimately show ?case using Cons by (auto simp: escapeMarkdownV2_def)
qed (simp add: escapeMarkdownV2_def)

lemma md_safe_strays: "md_safe s \<Longrightarrow> md_strays (s @ t) = md_strays t" "md_safe s \<Longrightarrow> md_strays s = []"
  unfolding md_safe_def by (simp, metis append_Nil2 md_strays.simps(1))

lemma punct_codes: "c = BACKSLASH \<or> c \<in> set MD_PUNCT \<Longrightarrow> (of_char c :: nat) < 48 \<or> 57 < (of_char c :: nat)"
  by (auto simp: BACKSLASH_def MD_PUNCT_def)

lemma digit_no_punct: "d < 10 \<Longrightarrow> digit d \<noteq> BACKSLASH \<and> digit d \<notin> set MD_PUNCT"
  using punct_codes [of "digit d"] by (auto simp: of_char_digit)

lemma md_safe_nat_str [simp]: "md_safe (nat_str n)"
  by (rule md_safe_plain) (auto dest!: nat_str_digits simp: digit_no_punct dest: digit_no_punct)

lemma md_safe_const: "list_all (\<lambda>c. c \<noteq> BACKSLASH \<and> c \<notin> set MD_PUNCT) s \<Longrightarrow> md_safe s"
  by (intro md_safe_plain) (auto simp: list_all_iff)

lemma md_safe_words [simp]: "md_safe (phase_str p)" "md_safe (health_str s)"
  by (induction p; rule md_safe_const; code_simp) (induction s; rule md_safe_const; code_simp)

lemma md_safe_texts [simp]:
  "md_safe nl" "md_safe ''*''" "md_safe ''`''" "md_safe ''_''" "md_safe BULLET" "md_safe EM_DASH" "md_safe '' ''"
  "md_safe '' `''" "md_safe ''`: ''" "md_safe ''*Hermes Status*''" "md_safe ''Phase: ''" "md_safe ''*Hermes Health*''"
  "md_safe ''Aggregate: *''" "md_safe ''*Hermes Version*''" "md_safe ''*Hermes Configuration*''"
  "md_safe ''*Hermes Modules*''" "md_safe ''Registered: *''" "md_safe ''*Hermes Start*''" "md_safe ''*Hermes Stop*''"
  "md_safe ''Kernel phase: *''" "md_safe ''*Error*''" "md_safe ''*Permission Denied*''"
  "md_safe ''You do not have permission to run `''" "md_safe ''_Per''" "md_safe ''_Secrets are redacted''"
  by (rule md_safe_const, code_simp)+

lemma md_strays_literal: "BACKSLASH \<notin> set s \<Longrightarrow> md_strays (s @ t) = filter (\<lambda>c. c \<in> set MD_PUNCT) s @ md_strays t"
  by (induction s) (auto simp: md_strays_Cons)

lemma md_strays_escaped: "md_strays (BACKSLASH # c # s) = md_strays s"
  by simp

lemma health_text_safe: "md_safe (tm_text (tg_formatHealthMessage r))"
proof -
  have m: "md_safe (tg_formatHealthModule d)" for d
    unfolding tg_formatHealthModule_def by (auto intro!: md_safe_append simp del: append.simps)
  have "md_safe (''_'' @ [BACKSLASH] @ ''(no modules registered'' @ [BACKSLASH] @ '')_'')"
    by (simp add: md_safe_def md_strays_Cons BACKSLASH_def MD_PUNCT_def)
  then show ?thesis unfolding tg_formatHealthMessage_def markdown_def Let_def
    by (auto intro!: md_safe_append md_safe_join m simp del: append.simps)
qed

lemma phase_texts_safe:
  "md_safe (tm_text (tg_formatStartedMessage p))" "md_safe (tm_text (tg_formatStoppedMessage p))"
  "md_safe (tm_text (tg_formatErrorMessage m))"
  unfolding tg_formatStartedMessage_def tg_formatStoppedMessage_def tg_formatErrorMessage_def markdown_def
  by (simp_all add: md_safe_append del: append.simps)

lemma version_text_safe: "md_strays (tm_text (tg_formatVersionMessage n v)) = []"
proof -
  have "md_strays ([BACKSLASH] @ ''@ '' @ escapeMarkdownV2 v) = []"
    using md_safe_strays(2) [OF md_safe_escape [of v]] by (simp add: md_strays_Cons BACKSLASH_def MD_PUNCT_def)
  then show ?thesis unfolding tg_formatVersionMessage_def markdown_def
    by (simp add: md_safe_strays(1) del: append.simps)
qed

text \<open>
  C40: Escaping for MarkdownV2 can be undone and leaves no reserved character unescaped. The replies to
  health, version, start and stop, and errors, are texts the bot accepts in this respect; the
  replies to status, config and modules and every refusal of a permission are not, whatever they
  report: each has a parenthesis or a full stop without a backslash.
\<close>

theorem telegram_texts:
  "md_unescape (escapeMarkdownV2 s) = s \<and> md_strays (escapeMarkdownV2 s) = []
   \<and> md_strays (tm_text (tg_formatHealthMessage r)) = [] \<and> md_strays (tm_text (tg_formatVersionMessage n v)) = []
   \<and> md_strays (tm_text (tg_formatStartedMessage p)) = [] \<and> md_strays (tm_text (tg_formatStoppedMessage p)) = []
   \<and> md_strays (tm_text (tg_formatErrorMessage m)) = []
   \<and> set ''()'' \<subseteq> set (md_strays (tm_text (tg_formatStatusMessage st)))
   \<and> md_strays (tm_text (tg_formatConfigMessage cfg)) = ''.'' \<and> md_strays (tm_text (tg_formatModulesMessage k)) = ''.''
   \<and> md_strays (tm_text (tg_formatPermissionMessage action)) = ''.''"
proof -
  have status: "set ''()'' \<subseteq> set (md_strays (tm_text (tg_formatStatusMessage st)))"
  proof -
    have e: "tm_text (tg_formatStatusMessage st) = (''*Hermes Status*'' @ nl @ nl @ ''Phase: '' @ ''*'' @
        phase_str (status_phase st) @ ''*'' @ nl) @ ''Uptime (ms): '' @ int_str (uptime st) @ nl @ ''Modules: '' @ nat_str (modules st)"
      by (simp add: tg_formatStatusMessage_def markdown_def tg_formatPhase_def)
    have "md_safe (''*Hermes Status*'' @ nl @ nl @ ''Phase: '' @ ''*'' @ phase_str (status_phase st) @ ''*'' @ nl)"
      by (intro md_safe_append) simp_all
    then show ?thesis unfolding e by (simp add: md_safe_strays(1) md_strays_Cons BACKSLASH_def MD_PUNCT_def)
  qed
  have config: "md_strays (tm_text (tg_formatConfigMessage cfg)) = ''.''"
  proof -
    have "md_safe (join nl (map (\<lambda>(k, v). BULLET @ '' `'' @ escapeMarkdownV2 k @ ''`: '' @ escapeMarkdownV2 v) rows))" for rows
      by (auto intro!: md_safe_join md_safe_append simp del: append.simps)
    moreover have "md_strays (''._'' @ nl @ nl @ t) = ''.'' @ md_strays t" for t
      by (simp add: md_strays_Cons nl_def BACKSLASH_def MD_PUNCT_def)
    moreover have "md_safe (''*Hermes Configuration*'' @ nl @ nl @ ''_Secrets are redacted'')"
      by (intro md_safe_append) simp_all
    ultimately show ?thesis
      using md_safe_strays [of "''*Hermes Configuration*'' @ nl @ nl @ ''_Secrets are redacted''"]
      by (simp add: tg_formatConfigMessage_def markdown_def md_safe_strays(2))
  qed
  have modules: "md_strays (tm_text (tg_formatModulesMessage k)) = ''.''"
  proof -
    have "md_safe (''*Hermes Modules*'' @ nl @ nl @ ''Registered: *'' @ nat_str k @ ''*'' @ nl @ nl @ ''_Per'')"
      by (intro md_safe_append) simp_all
    from md_safe_strays(1) [OF this] show ?thesis
      by (simp add: tg_formatModulesMessage_def markdown_def md_strays_Cons BACKSLASH_def MD_PUNCT_def)
  qed
  have denial: "md_strays (tm_text (tg_formatPermissionMessage action)) = ''.''"
  proof -
    have "md_safe (''*Permission Denied*'' @ nl @ nl @ ''You do not have permission to run `'' @ escapeMarkdownV2 action)"
      by (intro md_safe_append) simp_all
    from md_safe_strays(1) [OF this] show ?thesis
      by (simp add: tg_formatPermissionMessage_def markdown_def md_strays_Cons BACKSLASH_def MD_PUNCT_def)
  qed
  show ?thesis
    using status config modules denial health_text_safe phase_texts_safe version_text_safe escape_round_trip
    by (simp add: md_safe_strays(2))
qed

end
