(* ===== verification/WhatsAppAdapter.thy ===== *)
theory WhatsAppAdapter
  imports ChatAdapters
begin

text \<open>
  The adapter to WhatsApp (packages/adapters-whatsapp/src): formats.ts, permissions.ts, the commands
  and WhatsAppAdapter.ts. A message is the number of its sender and its text.
\<close>

subsection \<open>Formats\<close>

record whatsapp_message =
  wx_text :: string

definition plain_text :: "string \<Rightarrow> whatsapp_message" where
  "plain_text t = \<lparr>wx_text = t\<rparr>"

definition wa_formatStatusMessage :: "hermes_status \<Rightarrow> whatsapp_message" where
  "wa_formatStatusMessage s = plain_text (join nl
     [''Hermes Status'', [], ''Phase: '' @ phase_str (status_phase s), ''Uptime (ms): '' @ int_str (uptime s),
      ''Modules: '' @ nat_str (modules s)])"

definition wa_formatHealthModule :: "health_detail \<Rightarrow> string" where
  "wa_formatHealthModule m = ''  - '' @ d_name m @ '': '' @ health_str (d_status m)
     @ (if override [] (d_detail m) = [] then [] else '' '' @ EM_DASH @ '' '' @ override [] (d_detail m))"

definition wa_formatHealthMessage :: "health_report \<Rightarrow> whatsapp_message" where
  "wa_formatHealthMessage r =
     (let header = ''Hermes Health'' @ nl @ nl @ ''Aggregate: '' @ health_str (hr_status r) in
      if hr_modules r = [] then plain_text (header @ nl @ nl @ ''(no modules registered)'')
      else plain_text (header @ nl @ nl @ join nl (map wa_formatHealthModule (hr_modules r))))"

definition wa_formatVersionMessage :: "string \<Rightarrow> string \<Rightarrow> whatsapp_message" where
  "wa_formatVersionMessage n v = plain_text (''Hermes Version'' @ nl @ nl @ n @ '' @ '' @ v)"

definition wa_redactConfig :: "hermes_config \<Rightarrow> (string \<times> string) list" where
  "wa_redactConfig cfg = config_rows (redactHermesConfig cfg)"

definition wa_formatConfigMessage :: "hermes_config \<Rightarrow> whatsapp_message" where
  "wa_formatConfigMessage cfg = plain_text (''Hermes Configuration'' @ nl @ nl @ ''Secrets are redacted.'' @ nl @ nl
     @ join nl (map (\<lambda>(k, v). ''  - '' @ k @ '': '' @ v) (wa_redactConfig cfg)))"

definition wa_formatModulesMessage :: "nat \<Rightarrow> whatsapp_message" where
  "wa_formatModulesMessage count = plain_text (''Hermes Modules'' @ nl @ nl @ ''Registered: '' @ nat_str count @ nl @ nl
     @ ''(per-module detail lands when the kernel exposes a module-readout port)'')"

definition wa_formatStartedMessage :: "string \<Rightarrow> whatsapp_message" where
  "wa_formatStartedMessage p = plain_text (''Hermes Start'' @ nl @ nl @ ''Kernel phase: '' @ p)"

definition wa_formatStoppedMessage :: "string \<Rightarrow> whatsapp_message" where
  "wa_formatStoppedMessage p = plain_text (''Hermes Stop'' @ nl @ nl @ ''Kernel phase: '' @ p)"

definition wa_formatErrorMessage :: "string \<Rightarrow> whatsapp_message" where
  "wa_formatErrorMessage m = plain_text (''Error'' @ nl @ nl @ m)"

definition wa_formatPermissionMessage :: "string \<Rightarrow> whatsapp_message" where
  "wa_formatPermissionMessage action = plain_text (''Permission Denied'' @ nl @ nl
     @ ''You do not have permission to run '' @ action @ ''.'')"

subsection \<open>Commands\<close>

type_synonym whatsapp_command = "whatsapp_message command_outcome chat_command"

definition WHATSAPP_PACKAGE_NAME :: string where
  "WHATSAPP_PACKAGE_NAME = ''@agent-os/adapters-whatsapp''"

definition WHATSAPP_PACKAGE_VERSION :: string where
  "WHATSAPP_PACKAGE_VERSION = ''1.0.0''"

definition wa_startCommand :: whatsapp_command where
  "wa_startCommand = \<lparr>kc_name = ''start'', kc_description = ''Start the Hermes kernel.'', kc_requires = K_start,
     kc_handler = start_handler wa_formatStartedMessage\<rparr>"

definition wa_stopCommand :: whatsapp_command where
  "wa_stopCommand = \<lparr>kc_name = ''stop'', kc_description = ''Stop the Hermes kernel.'', kc_requires = K_stop,
     kc_handler = stop_handler wa_formatStoppedMessage\<rparr>"

definition wa_statusCommand :: whatsapp_command where
  "wa_statusCommand = \<lparr>kc_name = ''status'', kc_description = ''Show kernel phase, uptime, and module count.'',
     kc_requires = K_status, kc_handler = status_handler wa_formatStatusMessage\<rparr>"

definition wa_healthCommand :: whatsapp_command where
  "wa_healthCommand = \<lparr>kc_name = ''health'', kc_description = ''Show aggregate and per-module health.'',
     kc_requires = K_health, kc_handler = health_handler wa_formatHealthMessage\<rparr>"

text \<open>The name is not that of the operation \<open>modules\<close>, and the action required not that of its own.\<close>

definition wa_modulesCommand :: whatsapp_command where
  "wa_modulesCommand = \<lparr>kc_name = ''plugins'', kc_description = ''List registered modules.'',
     kc_requires = K_status, kc_handler = modules_handler wa_formatModulesMessage\<rparr>"

definition wa_configCommand :: whatsapp_command where
  "wa_configCommand = \<lparr>kc_name = ''config'', kc_description = ''Show active configuration (secrets redacted).'',
     kc_requires = K_config, kc_handler = config_handler wa_formatConfigMessage\<rparr>"

definition wa_versionCommand :: whatsapp_command where
  "wa_versionCommand = \<lparr>kc_name = ''version'', kc_description = ''Show version.'', kc_requires = K_version,
     kc_handler = fixed_handler (wa_formatVersionMessage WHATSAPP_PACKAGE_NAME WHATSAPP_PACKAGE_VERSION)\<rparr>"

definition wa_COMMANDS :: "whatsapp_command list" where
  "wa_COMMANDS = [wa_startCommand, wa_stopCommand, wa_statusCommand, wa_healthCommand, wa_modulesCommand,
     wa_configCommand, wa_versionCommand]"

definition wa_SUPPORTED_OPERATIONS :: "string list" where
  "wa_SUPPORTED_OPERATIONS = [''start'', ''stop'', ''status'', ''health'', ''modules'', ''config'', ''version'']"

subsection \<open>The adapter\<close>

record whatsapp_init =
  wi_webhookSecret :: string
  wi_adminPhoneNumbers :: "string list"
  wi_metricRegistry :: "metric_registry option"

record whatsapp_adapter = chat_adapter +
  wx_init :: whatsapp_init

definition new_whatsapp :: "whatsapp_init \<Rightarrow> whatsapp_adapter" where
  "new_whatsapp init =
     (let am = createAdapterMetrics (override createMetricRegistry (wi_metricRegistry init)) ''whatsapp'' in
      \<lparr>ca_bundle = fst am, ca_metrics = snd am, ca_admins = wi_adminPhoneNumbers init, ca_started = False,
       ca_lastError = None, wx_init = init\<rparr>)"

record whatsapp_metadata_shape = adapter_metadata +
  wx_transport :: string
  wx_webhookPath :: string

definition whatsapp_metadata :: "whatsapp_adapter \<Rightarrow> whatsapp_metadata_shape" where
  "whatsapp_metadata a = \<lparr>am_name = WHATSAPP_PACKAGE_NAME, am_version = WHATSAPP_PACKAGE_VERSION,
     am_interfaceType = I_whatsapp, am_supportedOperations = wa_SUPPORTED_OPERATIONS, wx_transport = ''webhook'',
     wx_webhookPath = ''/v1/adapters/whatsapp/webhook''\<rparr>"

definition wa_initialize :: "whatsapp_adapter \<Rightarrow> (string + unit) \<times> whatsapp_adapter" where
  "wa_initialize a =
     (if wi_webhookSecret (wx_init a) = [] then (Inl (WHATSAPP_PACKAGE_NAME @ '': webhookSecret is required.''), a)
      else (Inr (), a\<lparr>ca_admins := wi_adminPhoneNumbers (wx_init a)\<rparr>))"

definition wa_start :: "whatsapp_adapter \<Rightarrow> whatsapp_adapter" where
  "wa_start a = (if ca_started a then a else a\<lparr>ca_started := True, ca_lastError := None\<rparr>)"

definition wa_stop :: "whatsapp_adapter \<Rightarrow> whatsapp_adapter" where
  "wa_stop a = (if \<not> ca_started a then a else a\<lparr>ca_started := False\<rparr>)"

definition wa_health :: "instant \<Rightarrow> whatsapp_adapter \<Rightarrow> adapter_health" where
  "wa_health now a =
     (if \<not> ca_started a then \<lparr>ah_status = A_degraded, ah_detail = Some ''not started'', ah_at = now\<rparr>
      else if override [] (ca_lastError a) \<noteq> []
      then \<lparr>ah_status = A_failed, ah_detail = ca_lastError a, ah_at = now\<rparr>
      else \<lparr>ah_status = A_healthy, ah_detail = None, ah_at = now\<rparr>)"

subsection \<open>Dispatching\<close>

definition wa_parseCommand :: "string \<Rightarrow> string option" where
  "wa_parseCommand t = (let trimmed = toLowerCase (trim t) in
     if trimmed = [] then None else Some (hd (split_white trimmed)))"

definition wa_fail :: "command_error \<Rightarrow> whatsapp_message" where
  "wa_fail e = wa_formatErrorMessage (ce_message e)"

definition wa_arrive :: "string \<times> string \<Rightarrow> whatsapp_adapter
    \<Rightarrow> (whatsapp_message + whatsapp_command) \<times> whatsapp_adapter" where
  "wa_arrive m a = (case m of (senderPhone, messageText) \<Rightarrow>
     (let refused = (\<lambda>e. (Inl (wa_fail e), chat_failed (chat_arrive a)));
          role = chat_roleFor senderPhone (ca_admins a)
      in if \<not> ca_started a then refused not_started
         else (case wa_parseCommand messageText of
             None \<Rightarrow> refused unknown_command
           | Some commandName \<Rightarrow>
               if commandName = [] then refused unknown_command
               else (case find (\<lambda>c. kc_name c = commandName) wa_COMMANDS of
                   None \<Rightarrow> refused unknown_command
                 | Some cmd \<Rightarrow> check_permission wa_formatPermissionMessage wa_fail role cmd (chat_arrive a)))))"

definition wa_settle :: "rat \<Rightarrow> whatsapp_message command_outcome \<Rightarrow> whatsapp_adapter \<Rightarrow> whatsapp_message \<times> whatsapp_adapter" where
  "wa_settle = settle_command wa_fail"

definition wa_handleMessage :: "instant \<Rightarrow> rat \<Rightarrow> string \<times> string \<Rightarrow> whatsapp_adapter \<Rightarrow> hermes
    \<Rightarrow> whatsapp_message option \<times> whatsapp_adapter \<times> hermes" where
  "wa_handleMessage now d m a h = run_command (wa_settle d) now (wa_arrive m a) h"

subsection \<open>The contracts of the chat adapters\<close>

lemma wa_guarded: "guarded wa_COMMANDS"
  by (simp add: guarded_def wa_COMMANDS_def viewer_can reads_only_def wa_startCommand_def wa_stopCommand_def
      wa_statusCommand_def wa_healthCommand_def wa_modulesCommand_def wa_configCommand_def wa_versionCommand_def)

lemma wa_arrive_form:
  "(\<exists>r. wa_arrive (s, t) a = (Inl r, chat_failed (chat_arrive a))) \<or>
   (\<exists>cmd \<in> set wa_COMMANDS. wa_arrive (s, t) a =
      check_permission wa_formatPermissionMessage wa_fail (chat_roleFor s (ca_admins a)) cmd (chat_arrive a))"
  by (auto simp: wa_arrive_def Let_def split: option.split dest: found_command)

interpretation whatsapp_calls: counting_dispatcher wa_arrive wa_settle
proof (rule counting_dispatcherI)
  fix m :: "string \<times> string" and a :: whatsapp_adapter
  obtain s t where m: "m = (s, t)" by (cases m)
  show "\<exists>refuse deny fail role cmd. wa_arrive m a = (case refuse of Some r \<Rightarrow> (Inl r, chat_failed (chat_arrive a))
      | None \<Rightarrow> check_permission deny fail role cmd (chat_arrive a))"
    unfolding m using wa_arrive_form [of s t a] by (metis option.case)
qed (simp add: wa_settle_def)

lemma new_whatsapp_fresh: "fresh_adapter (new_whatsapp init)"
  unfolding fresh_adapter_def
  by (intro conjI new_bundle_counts [where adapter = "''whatsapp''"]) (simp_all add: new_whatsapp_def Let_def)

definition wa_role_of :: "string \<times> string \<Rightarrow> whatsapp_adapter \<Rightarrow> kernel_role" where
  "wa_role_of m a = chat_roleFor (fst m) (ca_admins a)"

interpretation whatsapp_gate: gated_dispatcher wa_handleMessage wa_role_of "\<lambda>_. True"
proof
  fix m :: "string \<times> string" and a :: whatsapp_adapter and h now d
  assume v: "wa_role_of m a = Viewer"
  obtain s t where m: "m = (s, t)" by (cases m)
  show "same_kernel h (snd (snd (wa_handleMessage now d m a h)))"
    unfolding wa_handleMessage_def m
  proof (rule run_command_same)
    fix c a' assume "wa_arrive (s, t) a = (Inr c, a')"
    then show "reads_only c" using v wa_guarded
      using wa_arrive_form [of s t a] by (auto simp: m wa_role_of_def guarded_def dest!: check_permission_cmd check_permission_cmd [OF sym])
  qed
next
  fix m' m :: "string \<times> string" and a :: whatsapp_adapter and now d h
  obtain s t where m: "m = (s, t)" by (cases m)
  have "ca_admins (snd (wa_arrive m a)) = ca_admins a"
    unfolding m using wa_arrive_form [of s t a] by auto
  then show "wa_role_of m' (fst (snd (wa_handleMessage now d m a h))) = wa_role_of m' a"
    by (simp add: wa_role_of_def wa_handleMessage_def wa_settle_def run_command_keeps [where f = ca_admins])
qed simp

end
