(* ===== verification/EmailAdapter.thy ===== *)
theory EmailAdapter
  imports ChatAdapters
begin

text \<open>
  The adapter to mail (packages/adapters-email/src): parseCommand.ts, formats.ts, permissions.ts, the
  commands and EmailAdapter.ts. A message is the address of its sender and its subject.
\<close>

subsection \<open>Subjects\<close>

definition EMAIL_PREFIXES :: "string list" where
  "EMAIL_PREFIXES = [''re:'', ''fw:'', ''fwd:'', ''aw:'']"

definition strip_prefix :: "string \<Rightarrow> string \<Rightarrow> string" where
  "strip_prefix pre s = (if starts_with (toLowerCase s) pre then trim (drop (length pre) s) else s)"

definition stripEmailPrefixes :: "string \<Rightarrow> string" where
  "stripEmailPrefixes subject = fold strip_prefix EMAIL_PREFIXES subject"

definition stripCommandPrefix :: "string \<Rightarrow> string \<Rightarrow> string" where
  "stripCommandPrefix subject pre =
     (let bracketed = ''['' @ pre @ '']'' in
      if pre = [] then subject
      else if starts_with (toLowerCase subject) (toLowerCase bracketed)
      then trim (drop (length bracketed) subject)
      else subject)"

record parsed_command =
  pm_command :: string
  pm_args :: "(string, string) jmap"

text \<open>The pairs of words after the command; a member \<open>__proto__\<close> is not created by an assignment.\<close>

fun option_pairs :: "string list \<Rightarrow> (string, string) jmap \<Rightarrow> (string, string) jmap" where
  "option_pairs (k # v # ws) m =
     option_pairs ws (if k \<noteq> [] \<and> v \<noteq> [] \<and> k \<noteq> ''__proto__'' then jm_set k v m else m)"
| "option_pairs _ m = m"

definition parseEmailSubject :: "string \<Rightarrow> string \<Rightarrow> parsed_command option" where
  "parseEmailSubject subject commandPrefix =
     (let cleaned = stripCommandPrefix (stripEmailPrefixes subject) commandPrefix;
          parts = split_white (trim cleaned);
          command = toLowerCase (hd parts)
      in if subject = [] then None
         else if cleaned = [] then None
         else if command = [] then None
         else Some \<lparr>pm_command = command, pm_args = option_pairs (tl parts) []\<rparr>)"

definition KNOWN_COMMANDS :: "string list" where
  "KNOWN_COMMANDS = [''start'', ''stop'', ''status'', ''health'', ''plugins'', ''config'', ''version'', ''help'']"

definition isKnownCommand :: "string \<Rightarrow> bool" where
  "isKnownCommand cmd \<longleftrightarrow> cmd \<in> set KNOWN_COMMANDS"

definition em_roleFor :: "string \<Rightarrow> string list \<Rightarrow> kernel_role" where
  "em_roleFor email adminEmails =
     (let normalized = toLowerCase (trim email) in
      if \<exists>e \<in> set adminEmails. toLowerCase (trim e) = normalized then Admin else Viewer)"

subsection \<open>Formats\<close>

record email_message =
  ex_text :: string
  ex_subject :: string
  ex_inReplyTo :: "string option"
  ex_references :: "string option"

definition email :: "string \<Rightarrow> string \<Rightarrow> email_message" where
  "email subject t = \<lparr>ex_text = t, ex_subject = subject, ex_inReplyTo = None, ex_references = None\<rparr>"

definition em_formatStatusMessage :: "hermes_status \<Rightarrow> email_message" where
  "em_formatStatusMessage s = email ''Status'' (''Hermes Kernel'' @ nl @ ''Phase: '' @ phase_str (status_phase s) @ nl
     @ ''Uptime: '' @ int_str (uptime s) @ ''ms'' @ nl @ ''Modules: '' @ nat_str (modules s))"

definition em_formatHealthMessage :: "health_report \<Rightarrow> email_message" where
  "em_formatHealthMessage r = email ''Health'' (''Hermes Health'' @ nl @ ''Status: '' @ health_str (hr_status r))"

definition em_formatVersionMessage :: "string \<Rightarrow> string \<Rightarrow> email_message" where
  "em_formatVersionMessage n v = email ''Version'' (n @ ''/'' @ v)"

text \<open>The three members of the configuration, which has them all, as they are.\<close>

definition em_formatConfigMessage :: "hermes_config \<Rightarrow> email_message" where
  "em_formatConfigMessage cfg = email ''Config'' (join nl
     [''Hermes Configuration'', ''OPENROUTER_API_KEY: '' @ openrouterApiKey cfg, ''DATABASE_URL: '' @ databaseUrl cfg,
      ''REDIS_URL: '' @ redisUrl cfg])"

definition em_formatModulesMessage :: "nat \<Rightarrow> email_message" where
  "em_formatModulesMessage count = email ''Plugins'' (''Registered Modules: '' @ nat_str count)"

definition em_formatStartedMessage :: "string \<Rightarrow> email_message" where
  "em_formatStartedMessage p = email ''Start'' (''Hermes Start'' @ nl @ ''Phase: '' @ p)"

definition em_formatStoppedMessage :: "string \<Rightarrow> email_message" where
  "em_formatStoppedMessage p = email ''Stop'' (''Hermes Stop'' @ nl @ ''Phase: '' @ p)"

definition em_formatErrorMessage :: "string \<Rightarrow> email_message" where
  "em_formatErrorMessage m = email ''Error'' (''ERROR: '' @ m)"

definition em_formatPermissionMessage :: "string \<Rightarrow> email_message" where
  "em_formatPermissionMessage action =
     email ''Permission Denied'' (''Permission Denied: insufficient role for '' @ quoted action @ ''.'')"

definition help_line :: "string \<Rightarrow> string \<Rightarrow> string" where
  "help_line left right = ''  '' @ left @ EM_DASH @ '' '' @ right"

definition em_formatHelpMessage :: email_message where
  "em_formatHelpMessage = email ''Help'' (join nl
     [''Available Commands'',
      help_line ''start    '' ''Start the Hermes kernel (admin)'',
      help_line ''stop     '' ''Stop the Hermes kernel (admin)'',
      help_line ''status   '' ''Show kernel phase, uptime, module count'',
      help_line ''health   '' ''Show aggregate and per-module health'',
      help_line ''plugins  '' ''List registered modules'',
      help_line ''config   '' ''Show active configuration (secrets redacted)'',
      help_line ''version  '' ''Show version'',
      help_line ''help     '' ''Show this message''])"

subsection \<open>Commands\<close>

type_synonym email_command = "email_message command_outcome chat_command"

definition EMAIL_PACKAGE_NAME :: string where
  "EMAIL_PACKAGE_NAME = ''@agent-os/adapters-email''"

definition EMAIL_PACKAGE_VERSION :: string where
  "EMAIL_PACKAGE_VERSION = ''1.0.0''"

definition em_startCommand :: email_command where
  "em_startCommand = \<lparr>kc_name = ''start'', kc_description = ''Start the Hermes kernel.'', kc_requires = K_start,
     kc_handler = start_handler em_formatStartedMessage\<rparr>"

definition em_stopCommand :: email_command where
  "em_stopCommand = \<lparr>kc_name = ''stop'', kc_description = ''Stop the Hermes kernel.'', kc_requires = K_stop,
     kc_handler = stop_handler em_formatStoppedMessage\<rparr>"

definition em_statusCommand :: email_command where
  "em_statusCommand = \<lparr>kc_name = ''status'', kc_description = ''Show kernel phase, uptime, and module count.'',
     kc_requires = K_status, kc_handler = status_handler em_formatStatusMessage\<rparr>"

definition em_healthCommand :: email_command where
  "em_healthCommand = \<lparr>kc_name = ''health'', kc_description = ''Show aggregate and per-module health.'',
     kc_requires = K_health, kc_handler = health_handler em_formatHealthMessage\<rparr>"

definition em_modulesCommand :: email_command where
  "em_modulesCommand = \<lparr>kc_name = ''plugins'', kc_description = ''List registered modules.'',
     kc_requires = K_modules, kc_handler = modules_handler em_formatModulesMessage\<rparr>"

definition em_configCommand :: email_command where
  "em_configCommand = \<lparr>kc_name = ''config'', kc_description = ''Show active configuration (secrets redacted).'',
     kc_requires = K_config, kc_handler = config_handler em_formatConfigMessage\<rparr>"

definition em_versionCommand :: email_command where
  "em_versionCommand = \<lparr>kc_name = ''version'', kc_description = ''Show version.'', kc_requires = K_version,
     kc_handler = fixed_handler (em_formatVersionMessage EMAIL_PACKAGE_NAME EMAIL_PACKAGE_VERSION)\<rparr>"

definition em_helpCommand :: email_command where
  "em_helpCommand = \<lparr>kc_name = ''help'', kc_description = ''Show available commands.'', kc_requires = K_status,
     kc_handler = fixed_handler em_formatHelpMessage\<rparr>"

definition em_COMMANDS :: "email_command list" where
  "em_COMMANDS = [em_startCommand, em_stopCommand, em_statusCommand, em_healthCommand, em_modulesCommand,
     em_configCommand, em_versionCommand, em_helpCommand]"

definition em_SUPPORTED_OPERATIONS :: "string list" where
  "em_SUPPORTED_OPERATIONS = [''start'', ''stop'', ''status'', ''health'', ''modules'', ''config'', ''version'', ''help'']"

subsection \<open>The adapter\<close>

datatype email_mode = Imap_polling | Ses_webhook

record email_imap =
  imap_host :: string
  imap_user :: string
  imap_password :: string

record email_ses =
  ses_topicArn :: string
  ses_signingCertUrl :: string

record email_init =
  ei_mode :: email_mode
  ei_adminEmails :: "string list"
  ei_commandPrefix :: string
  ei_imap :: "email_imap option"
  ei_ses :: "email_ses option"
  ei_metricRegistry :: "metric_registry option"

record email_adapter = chat_adapter +
  ex_init :: email_init

definition new_email :: "email_init \<Rightarrow> email_adapter" where
  "new_email init =
     (let am = createAdapterMetrics (override createMetricRegistry (ei_metricRegistry init)) ''email'' in
      \<lparr>ca_bundle = fst am, ca_metrics = snd am, ca_admins = ei_adminEmails init, ca_started = False,
       ca_lastError = None, ex_init = init\<rparr>)"

record email_metadata_shape = adapter_metadata +
  ex_transport :: string
  ex_mode :: email_mode

definition email_metadata :: "email_adapter \<Rightarrow> email_metadata_shape" where
  "email_metadata a = \<lparr>am_name = EMAIL_PACKAGE_NAME, am_version = EMAIL_PACKAGE_VERSION,
     am_interfaceType = I_email, am_supportedOperations = em_SUPPORTED_OPERATIONS,
     ex_transport = (if ei_mode (ex_init a) = Imap_polling then ''imap'' else ''ses-webhook''), ex_mode = ei_mode (ex_init a)\<rparr>"

definition check_email_config :: "email_init \<Rightarrow> string option" where
  "check_email_config i = (case ei_mode i of
     Imap_polling \<Rightarrow> (case ei_imap i of
         None \<Rightarrow> Some ''IMAP configuration is required for imap-polling mode.''
       | Some c \<Rightarrow> if imap_host c = [] then Some ''EMAIL_IMAP_HOST is required.''
           else if imap_user c = [] then Some ''EMAIL_IMAP_USER is required.''
           else if imap_password c = [] then Some ''EMAIL_IMAP_PASSWORD is required.''
           else None)
   | Ses_webhook \<Rightarrow> (case ei_ses i of
         None \<Rightarrow> Some ''SES configuration is required for ses-webhook mode.''
       | Some c \<Rightarrow> if ses_topicArn c = [] then Some ''EMAIL_SES_TOPIC_ARN is required.''
           else if ses_signingCertUrl c = [] then Some ''EMAIL_SES_SIGNING_CERT_URL is required.''
           else None))"

definition em_initialize :: "email_adapter \<Rightarrow> (string + unit) \<times> email_adapter" where
  "em_initialize a = (case check_email_config (ex_init a) of
     Some e \<Rightarrow> (Inl (EMAIL_PACKAGE_NAME @ '': '' @ e), a)
   | None \<Rightarrow> (Inr (), a\<lparr>ca_admins := ei_adminEmails (ex_init a)\<rparr>))"

definition em_start :: "email_adapter \<Rightarrow> email_adapter" where
  "em_start a = (if ca_started a then a else a\<lparr>ca_started := True, ca_lastError := None\<rparr>)"

definition em_stop :: "email_adapter \<Rightarrow> email_adapter" where
  "em_stop a = (if \<not> ca_started a then a else a\<lparr>ca_started := False\<rparr>)"

definition em_health :: "instant \<Rightarrow> email_adapter \<Rightarrow> adapter_health" where
  "em_health now a =
     (if \<not> ca_started a then \<lparr>ah_status = A_degraded, ah_detail = Some ''not started'', ah_at = now\<rparr>
      else if override [] (ca_lastError a) \<noteq> []
      then \<lparr>ah_status = A_failed, ah_detail = ca_lastError a, ah_at = now\<rparr>
      else \<lparr>ah_status = A_healthy, ah_detail = None, ah_at = now\<rparr>)"

subsection \<open>Dispatching\<close>

definition em_fail :: "command_error \<Rightarrow> email_message" where
  "em_fail e = em_formatErrorMessage (ce_message e)"

definition em_arrive :: "string \<times> string \<Rightarrow> email_adapter \<Rightarrow> (email_message + email_command) \<times> email_adapter" where
  "em_arrive m a = (case m of (senderEmail, subject) \<Rightarrow>
     (let refused = (\<lambda>e. (Inl (em_fail e), chat_failed (chat_arrive a)));
          role = em_roleFor senderEmail (ca_admins a)
      in if \<not> ca_started a then refused not_started
         else (case parseEmailSubject subject (ei_commandPrefix (ex_init a)) of
             None \<Rightarrow> refused unknown_command
           | Some parsed \<Rightarrow>
               if \<not> isKnownCommand (pm_command parsed) then refused unknown_command
               else (case find (\<lambda>c. kc_name c = pm_command parsed) em_COMMANDS of
                   None \<Rightarrow> refused unknown_command
                 | Some cmd \<Rightarrow> check_permission em_formatPermissionMessage em_fail role cmd (chat_arrive a)))))"

definition em_settle :: "rat \<Rightarrow> email_message command_outcome \<Rightarrow> email_adapter \<Rightarrow> email_message \<times> email_adapter" where
  "em_settle = settle_command em_fail"

definition em_handleMessage :: "instant \<Rightarrow> rat \<Rightarrow> string \<times> string \<Rightarrow> email_adapter \<Rightarrow> hermes
    \<Rightarrow> email_message option \<times> email_adapter \<times> hermes" where
  "em_handleMessage now d m a h = run_command (em_settle d) now (em_arrive m a) h"

subsection \<open>The contracts of the chat adapters\<close>

lemma em_guarded: "guarded em_COMMANDS"
  by (simp add: guarded_def em_COMMANDS_def viewer_can reads_only_def em_startCommand_def em_stopCommand_def
      em_statusCommand_def em_healthCommand_def em_modulesCommand_def em_configCommand_def em_versionCommand_def
      em_helpCommand_def)

lemma em_arrive_form:
  "(\<exists>r. em_arrive (s, t) a = (Inl r, chat_failed (chat_arrive a))) \<or>
   (\<exists>cmd \<in> set em_COMMANDS. em_arrive (s, t) a =
      check_permission em_formatPermissionMessage em_fail (em_roleFor s (ca_admins a)) cmd (chat_arrive a))"
  by (auto simp: em_arrive_def Let_def split: option.split dest: found_command)

interpretation email_calls: counting_dispatcher em_arrive em_settle
proof (rule counting_dispatcherI)
  fix m :: "string \<times> string" and a :: email_adapter
  obtain s t where m: "m = (s, t)" by (cases m)
  show "\<exists>refuse deny fail role cmd. em_arrive m a = (case refuse of Some r \<Rightarrow> (Inl r, chat_failed (chat_arrive a))
      | None \<Rightarrow> check_permission deny fail role cmd (chat_arrive a))"
    unfolding m using em_arrive_form [of s t a] by (metis option.case)
qed (simp add: em_settle_def)

lemma new_email_fresh: "fresh_adapter (new_email init)"
  unfolding fresh_adapter_def
  by (intro conjI new_bundle_counts [where adapter = "''email''"]) (simp_all add: new_email_def Let_def)

definition em_role_of :: "string \<times> string \<Rightarrow> email_adapter \<Rightarrow> kernel_role" where
  "em_role_of m a = em_roleFor (fst m) (ca_admins a)"

interpretation email_gate: gated_dispatcher em_handleMessage em_role_of "\<lambda>_. True"
proof
  fix m :: "string \<times> string" and a :: email_adapter and h now d
  assume v: "em_role_of m a = Viewer"
  obtain s t where m: "m = (s, t)" by (cases m)
  show "same_kernel h (snd (snd (em_handleMessage now d m a h)))"
    unfolding em_handleMessage_def m
  proof (rule run_command_same)
    fix c a' assume "em_arrive (s, t) a = (Inr c, a')"
    then show "reads_only c" using v em_guarded em_arrive_form [of s t a]
      by (auto simp: m em_role_of_def guarded_def dest!: check_permission_cmd check_permission_cmd [OF sym])
  qed
next
  fix m' m :: "string \<times> string" and a :: email_adapter and now d h
  obtain s t where m: "m = (s, t)" by (cases m)
  have "ca_admins (snd (em_arrive m a)) = ca_admins a"
    unfolding m using em_arrive_form [of s t a] by auto
  then show "em_role_of m' (fst (snd (em_handleMessage now d m a h))) = em_role_of m' a"
    by (simp add: em_role_of_def em_handleMessage_def em_settle_def run_command_keeps [where f = ca_admins])
qed simp

end
