(* ===== verification/DiscordAdapter.thy ===== *)
theory DiscordAdapter
  imports ChatAdapters
begin

text \<open>
  The adapter to Discord (packages/adapters-discord/src): formats.ts, permissions.ts, the commands and
  DiscordAdapter.ts. The client is discord.js's: whether its gateway is ready is part of the state,
  and whether a reply could be sent an argument. The ISO string of a time denotes the instant.
\<close>

subsection \<open>Messages\<close>

record discord_field =
  df_name :: string
  df_value :: string
  df_inline :: "bool option"

record discord_embed =
  de_title :: "string option"
  de_description :: "string option"
  de_color :: "int option"
  de_fields :: "discord_field list option"
  de_footer :: "string option"
  de_timestamp :: "instant option"

record discord_message =
  dm_content :: "string option"
  dm_embeds :: "discord_embed list option"
  dm_ephemeral :: "bool option"

definition embed :: "string \<Rightarrow> int \<Rightarrow> discord_embed" where
  "embed title c = \<lparr>de_title = Some title, de_description = None, de_color = Some c, de_fields = None, de_footer = None,
     de_timestamp = None\<rparr>"

definition embed_message :: "discord_embed \<Rightarrow> discord_message" where
  "embed_message e = \<lparr>dm_content = None, dm_embeds = Some [e], dm_ephemeral = None\<rparr>"

definition private_message :: "discord_embed \<Rightarrow> discord_message" where
  "private_message e = (embed_message e)\<lparr>dm_ephemeral := Some True\<rparr>"

definition inline_field :: "string \<Rightarrow> string \<Rightarrow> discord_field" where
  "inline_field n v = \<lparr>df_name = n, df_value = v, df_inline = Some True\<rparr>"

definition block_field :: "string \<Rightarrow> string \<Rightarrow> discord_field" where
  "block_field n v = \<lparr>df_name = n, df_value = v, df_inline = None\<rparr>"

fun PHASE_COLOR :: "phase \<Rightarrow> int" where
  "PHASE_COLOR RUNNING = 0x10b981"
| "PHASE_COLOR STARTING = 0xf59e0b"
| "PHASE_COLOR STOPPING = 0xf59e0b"
| "PHASE_COLOR INITIALIZING = 0x64748b"
| "PHASE_COLOR STOPPED = 0x64748b"
| "PHASE_COLOR FAILED = 0xef4444"

fun HEALTH_COLOR :: "module_health \<Rightarrow> int" where
  "HEALTH_COLOR healthy = 0x10b981"
| "HEALTH_COLOR degraded = 0xf59e0b"
| "HEALTH_COLOR failed = 0xef4444"
| "HEALTH_COLOR unknown = 0x64748b"

definition dc_formatStatusMessage :: "hermes_status \<Rightarrow> instant \<Rightarrow> discord_message" where
  "dc_formatStatusMessage s now = embed_message ((embed ''Hermes Status'' (PHASE_COLOR (status_phase s)))
     \<lparr>de_fields := Some [inline_field ''Phase'' (phase_str (status_phase s)),
        inline_field ''Uptime (ms)'' (int_str (uptime s)), inline_field ''Modules'' (nat_str (modules s))],
      de_timestamp := Some now\<rparr>)"

definition dc_health_field :: "health_detail \<Rightarrow> discord_field" where
  "dc_health_field m = inline_field (d_name m)
     (if override [] (d_detail m) = [] then health_str (d_status m)
      else health_str (d_status m) @ '' '' @ EM_DASH @ '' '' @ override [] (d_detail m))"

definition dc_formatHealthMessage :: "health_report \<Rightarrow> instant \<Rightarrow> discord_message" where
  "dc_formatHealthMessage r now = embed_message ((embed ''Hermes Health'' (HEALTH_COLOR (hr_status r)))
     \<lparr>de_description := Some (''Aggregate: **'' @ health_str (hr_status r) @ ''**''),
      de_fields := Some (if hr_modules r = [] then [block_field ''(no modules)'' EM_DASH]
        else map dc_health_field (hr_modules r)),
      de_timestamp := Some now\<rparr>)"

definition dc_formatVersionMessage :: "string \<Rightarrow> string \<Rightarrow> discord_message" where
  "dc_formatVersionMessage n v = embed_message ((embed ''Hermes Version'' 0x3b82f6)
     \<lparr>de_fields := Some [block_field ''Kernel'' n, block_field ''Version'' v]\<rparr>)"

definition dc_redactConfig :: "hermes_config \<Rightarrow> (string \<times> string) list" where
  "dc_redactConfig cfg = config_rows (redactHermesConfig cfg)"

definition dc_formatConfigMessage :: "hermes_config \<Rightarrow> discord_message" where
  "dc_formatConfigMessage cfg = embed_message ((embed ''Hermes Configuration'' 0x6366f1)
     \<lparr>de_description := Some ''Secrets are redacted.'',
      de_fields := Some (map (\<lambda>(k, v). inline_field k v) (dc_redactConfig cfg))\<rparr>)"

definition dc_formatModulesMessage :: "nat \<Rightarrow> instant \<Rightarrow> discord_message" where
  "dc_formatModulesMessage count now = embed_message ((embed ''Hermes Modules'' 0x6366f1)
     \<lparr>de_fields := Some [inline_field ''Registered'' (nat_str count)],
      de_footer := Some ''Per-module detail lands when the kernel exposes a module-readout port.'',
      de_timestamp := Some now\<rparr>)"

definition dc_formatStartedMessage :: "string \<Rightarrow> instant \<Rightarrow> discord_message" where
  "dc_formatStartedMessage p now = embed_message ((embed ''Hermes Start'' 0x10b981)
     \<lparr>de_description := Some (''Kernel phase: **'' @ p @ ''**''), de_timestamp := Some now\<rparr>)"

definition dc_formatStoppedMessage :: "string \<Rightarrow> instant \<Rightarrow> discord_message" where
  "dc_formatStoppedMessage p now = embed_message ((embed ''Hermes Stop'' 0x64748b)
     \<lparr>de_description := Some (''Kernel phase: **'' @ p @ ''**''), de_timestamp := Some now\<rparr>)"

definition dc_formatErrorMessage :: "string \<Rightarrow> discord_message" where
  "dc_formatErrorMessage m = private_message ((embed ''Error'' 0xef4444)\<lparr>de_description := Some m\<rparr>)"

definition dc_formatPermissionMessage :: "string \<Rightarrow> discord_message" where
  "dc_formatPermissionMessage action = private_message ((embed ''Permission Denied'' 0xef4444)
     \<lparr>de_description := Some (''You do not have permission to run `'' @ action @ ''`.'')\<rparr>)"

definition dc_formatUnknownMessage :: "string \<Rightarrow> discord_message" where
  "dc_formatUnknownMessage command = private_message ((embed ''Unknown Command'' 0x64748b)
     \<lparr>de_description := Some (''`'' @ command @ ''` is not a registered command.'')\<rparr>)"

text \<open>
  The reply handed to discord.js. Members that are absent are not set, empty lists neither; a
  missing flag \<open>inline\<close> and a missing \<open>ephemeral\<close> become false.
\<close>

record reply_options =
  ro_content :: "string option"
  ro_embeds :: "discord_embed list option"
  ro_ephemeral :: bool

definition built_embed :: "discord_embed \<Rightarrow> discord_embed" where
  "built_embed e = e\<lparr>de_fields := (case de_fields e of
       None \<Rightarrow> None
     | Some [] \<Rightarrow> None
     | Some fs \<Rightarrow> Some (map (\<lambda>f. f\<lparr>df_inline := Some (override False (df_inline f))\<rparr>) fs))\<rparr>"

definition toInteractionReplyOptions :: "discord_message \<Rightarrow> reply_options" where
  "toInteractionReplyOptions m = (let embeds = map built_embed (override [] (dm_embeds m)) in
     \<lparr>ro_content = dm_content m, ro_embeds = (if embeds = [] then None else Some embeds),
      ro_ephemeral = override False (dm_ephemeral m)\<rparr>)"

subsection \<open>Commands\<close>

type_synonym discord_outcome = "thrown + discord_message"
type_synonym discord_command = "discord_outcome chat_command"

definition dc_read :: "discord_message \<Rightarrow> hermes \<Rightarrow> discord_outcome option \<times> hermes" where
  "dc_read m h = (Some (Inr m), h)"

definition dc_startCommand :: discord_command where
  "dc_startCommand = \<lparr>kc_name = ''start'', kc_description = ''Start the Hermes kernel.'', kc_requires = K_start,
     kc_handler = (\<lambda>now h. case start now h of
        (Inl e, h') \<Rightarrow> (Some (Inl (Thrown_error (''Hermes.start() failed: '' @ e))), h')
      | (Inr _, h') \<Rightarrow> dc_read (dc_formatStartedMessage (phase_text now h') now) h')\<rparr>"

definition dc_stopCommand :: discord_command where
  "dc_stopCommand = \<lparr>kc_name = ''stop'', kc_description = ''Stop the Hermes kernel.'', kc_requires = K_stop,
     kc_handler = (\<lambda>now h. case stop now h of
        (None, h') \<Rightarrow> (None, h')
      | (Some (Inl e), h') \<Rightarrow> (Some (Inl (Thrown_error (''Hermes.stop() failed: '' @ e))), h')
      | (Some (Inr _), h') \<Rightarrow> dc_read (dc_formatStoppedMessage (phase_text now h') now) h')\<rparr>"

definition dc_statusCommand :: discord_command where
  "dc_statusCommand = \<lparr>kc_name = ''status'', kc_description = ''Show kernel phase, uptime, and module count.'',
     kc_requires = K_status, kc_handler = (\<lambda>now h. dc_read (dc_formatStatusMessage (hermes_status_of now h) now) h)\<rparr>"

definition dc_healthCommand :: discord_command where
  "dc_healthCommand = \<lparr>kc_name = ''health'', kc_description = ''Show aggregate and per-module health.'',
     kc_requires = K_health,
     kc_handler = (\<lambda>now h. case kernel_health now h of (rep, h') \<Rightarrow> dc_read (dc_formatHealthMessage rep now) h')\<rparr>"

definition dc_modulesCommand :: discord_command where
  "dc_modulesCommand = \<lparr>kc_name = ''modules'', kc_description = ''Show registered modules.'', kc_requires = K_modules,
     kc_handler = (\<lambda>now h. dc_read (dc_formatModulesMessage (modules (hermes_status_of now h)) now) h)\<rparr>"

definition dc_configCommand :: discord_command where
  "dc_configCommand = \<lparr>kc_name = ''config'', kc_description = ''Show active configuration (secrets redacted).'',
     kc_requires = K_config, kc_handler = (\<lambda>now h. dc_read (dc_formatConfigMessage (config h)) h)\<rparr>"

definition dc_versionCommand :: discord_command where
  "dc_versionCommand = \<lparr>kc_name = ''version'', kc_description = ''Show Hermes kernel version.'', kc_requires = K_version,
     kc_handler = (\<lambda>now h. dc_read (dc_formatVersionMessage ''@agent-os/hermes'' ''1.0.0'') h)\<rparr>"

definition dc_command_list :: "discord_command list" where
  "dc_command_list = [dc_startCommand, dc_stopCommand, dc_statusCommand, dc_healthCommand, dc_modulesCommand,
     dc_configCommand, dc_versionCommand]"

definition dc_buildCommandList :: "(string, discord_command) jmap" where
  "dc_buildCommandList = map (\<lambda>c. (kc_name c, c)) dc_command_list"

subsection \<open>The adapter\<close>

record discord_state = chat_users +
  ds_botToken :: string
  ds_guildId :: string
  ds_ready :: bool
  ds_commands :: "(string, discord_command) jmap"

record discord_init =
  di_botToken :: string
  di_guildId :: string
  di_adminUserIds :: "string list"
  di_metricRegistry :: "metric_registry option"

definition new_discord_state :: "discord_init \<Rightarrow> discord_state" where
  "new_discord_state cfg =
     (let am = createAdapterMetrics (override createMetricRegistry (di_metricRegistry cfg)) ''discord'' in
      \<lparr>ca_bundle = fst am, ca_metrics = snd am, ca_admins = di_adminUserIds cfg, ds_botToken = di_botToken cfg,
       ds_guildId = di_guildId cfg, ds_ready = False, ds_commands = dc_buildCommandList\<rparr>)"

definition dc_initialize :: "discord_init \<Rightarrow> discord_state option \<Rightarrow> discord_state option" where
  "dc_initialize cfg s = (case s of Some st \<Rightarrow> Some st | None \<Rightarrow> Some (new_discord_state cfg))"

text \<open>\<open>start\<close> logs in with the token, for which the client answers with the error \<open>login\<close>, if any.\<close>

definition dc_start :: "string option \<Rightarrow> discord_state option \<Rightarrow> string + unit" where
  "dc_start login s = (case s of
     None \<Rightarrow> Inl ''DiscordAdapter: not initialized.''
   | Some st \<Rightarrow> (case login of Some e \<Rightarrow> Inl e | None \<Rightarrow> Inr ()))"

definition dc_on_ready :: "discord_state option \<Rightarrow> discord_state option" where
  "dc_on_ready s = map_option (\<lambda>st. st\<lparr>ds_ready := True\<rparr>) s"

text \<open>\<open>destroyed\<close> is the error of closing the client, if any; the state is then kept.\<close>

definition dc_stop :: "string option \<Rightarrow> discord_state option \<Rightarrow> (string + unit) \<times> discord_state option" where
  "dc_stop destroyed s = (case s of
     None \<Rightarrow> (Inr (), None)
   | Some st \<Rightarrow> (case destroyed of Some e \<Rightarrow> (Inl e, Some st) | None \<Rightarrow> (Inr (), None)))"

definition dc_health :: "instant \<Rightarrow> discord_state option \<Rightarrow> adapter_health" where
  "dc_health now s = (case s of
     None \<Rightarrow> \<lparr>ah_status = A_unknown, ah_detail = Some ''adapter not initialized'', ah_at = now\<rparr>
   | Some st \<Rightarrow> if ds_ready st then \<lparr>ah_status = A_healthy, ah_detail = None, ah_at = now\<rparr>
       else \<lparr>ah_status = A_degraded, ah_detail = Some ''gateway not ready'', ah_at = now\<rparr>)"

definition discord_metadata :: "discord_state option \<Rightarrow> adapter_metadata" where
  "discord_metadata s = \<lparr>am_name = ''@agent-os/adapters-discord'', am_version = ''1.0.0'', am_interfaceType = I_discord,
     am_supportedOperations = (case s of None \<Rightarrow> [] | Some st \<Rightarrow> map fst (ds_commands st))\<rparr>"

definition dc_commands :: "discord_state option \<Rightarrow> discord_command list" where
  "dc_commands s = (case s of None \<Rightarrow> [] | Some st \<Rightarrow> map snd (ds_commands st))"

subsection \<open>Dispatching\<close>

text \<open>An interaction: its user and the name of its command. The answer lists the calls made to reply.\<close>

datatype discord_call = Reply reply_options | Edit_reply "string option" "discord_embed list option"

definition dc_begin_command :: "'z chat_core_scheme \<Rightarrow> 'z chat_core_scheme" where
  "dc_begin_command s = (let b = ca_bundle s; m = ca_metrics s in
     s\<lparr>ca_metrics := gauge_set (gauge_getValue (activeCommands b) m + 1) (activeCommands b) m\<rparr>)"

definition dc_arrive :: "string \<times> string \<Rightarrow> discord_state
    \<Rightarrow> (discord_call list + discord_command) \<times> discord_state" where
  "dc_arrive m s = (case m of (user, commandName) \<Rightarrow>
     (let s1 = chat_arrive s; reply = (\<lambda>m. Inl [Reply (toInteractionReplyOptions m)]) in
      case jm_get (ds_commands s) commandName of
        None \<Rightarrow> (reply (dc_formatUnknownMessage commandName), chat_leave s1)
      | Some command \<Rightarrow>
          if \<not> can (chat_roleFor user (ca_admins s)) (kc_requires command)
          then (reply (dc_formatPermissionMessage (action_str (kc_requires command))), chat_failed s1)
          else (Inr command, dc_begin_command s1)))"

definition dc_error_text :: "thrown \<Rightarrow> string" where
  "dc_error_text t = (case t of
     Thrown_permission role action \<Rightarrow> ''Permission denied for action '' @ quoted (action_str action) @ ''.''
   | _ \<Rightarrow> thrown_text t)"

text \<open>The \<open>finally\<close> of the dispatcher.\<close>

definition dc_finish :: "rat \<Rightarrow> 'z chat_core_scheme \<Rightarrow> 'z chat_core_scheme" where
  "dc_finish d s = (let b = ca_bundle s; m = ca_metrics s in
     chat_succeeded d (s\<lparr>ca_metrics := gauge_set (max 0 (gauge_getValue (activeCommands b) m - 1)) (activeCommands b) m\<rparr>))"

definition count_failure :: "'z chat_core_scheme \<Rightarrow> 'z chat_core_scheme" where
  "count_failure s = s\<lparr>ca_metrics := counter_inc 1 (errorsTotal (ca_bundle s)) (ca_metrics s)\<rparr>"

text \<open>
  With the outcome come the error of sending the reply, if there is one, and whether the interaction
  then counts as deferred or replied to.
\<close>

definition dc_settle :: "rat \<Rightarrow> discord_outcome \<times> thrown option \<times> bool \<Rightarrow> discord_state
    \<Rightarrow> discord_call list \<times> discord_state" where
  "dc_settle d result s = (case result of (outcome, sending, replied) \<Rightarrow>
     (let tried = (case outcome of Inl _ \<Rightarrow> [] | Inr m \<Rightarrow> [Reply (toInteractionReplyOptions m)]);
          failure = (case outcome of Inl t \<Rightarrow> Some t | Inr _ \<Rightarrow> sending)
      in case failure of
           None \<Rightarrow> (tried, dc_finish d s)
         | Some t \<Rightarrow> (let opts = toInteractionReplyOptions (dc_formatErrorMessage (dc_error_text t)) in
             (tried @ [if replied then Edit_reply (ro_content opts) (ro_embeds opts) else Reply opts],
              dc_finish d (count_failure s)))))"

definition dc_dispatchInteraction :: "instant \<Rightarrow> rat \<Rightarrow> (string \<times> string) \<times> thrown option \<times> bool \<Rightarrow> discord_state \<Rightarrow> hermes
    \<Rightarrow> discord_call list option \<times> discord_state \<times> hermes" where
  "dc_dispatchInteraction now d m s h = (case m of (interaction, sending, replied) \<Rightarrow>
     run_command (\<lambda>outcome. dc_settle d (outcome, sending, replied)) now (dc_arrive interaction s) h)"

subsection \<open>The contracts of the chat adapters\<close>

lemma finish_counts [simp]:
  assumes "chat_ok s"
  shows "chat_ok (dc_finish d s)" "chat_requests (dc_finish d s) = chat_requests s"
    "chat_commands (dc_finish d s) = chat_commands s + 1" "chat_errors (dc_finish d s) = chat_errors s"
    "chat_active (dc_finish d s) = max 0 (chat_active s - 1)"
  using assms by (auto simp: dc_finish_def chat_succeeded_def chat_leave_def chat_reads)

lemma begin_counts [simp]:
  assumes "chat_ok s"
  shows "chat_ok (dc_begin_command s)" "chat_requests (dc_begin_command s) = chat_requests s"
    "chat_commands (dc_begin_command s) = chat_commands s" "chat_errors (dc_begin_command s) = chat_errors s"
    "chat_active (dc_begin_command s) = chat_active s"
  using assms by (auto simp: dc_begin_command_def chat_reads)

lemma failure_counts [simp]:
  assumes "chat_ok s"
  shows "chat_ok (count_failure s)" "chat_requests (count_failure s) = chat_requests s"
    "chat_commands (count_failure s) = chat_commands s" "chat_errors (count_failure s) = chat_errors s + 1"
    "chat_active (count_failure s) = chat_active s"
  using assms by (auto simp: count_failure_def chat_reads)

lemma dc_settle_state:
  "snd (dc_settle d (outcome, sending, replied) s) = dc_finish d
     (if (case outcome of Inl _ \<Rightarrow> True | Inr _ \<Rightarrow> sending \<noteq> None) then count_failure s else s)"
  by (auto simp: dc_settle_def Let_def split: sum.split option.split)

interpretation discord_calls: chat_dispatcher dc_arrive dc_settle
proof
  fix s s' x m
  assume "chat_ok s" "0 \<le> chat_active s" "dc_arrive m s = (x, s')"
  then show "chat_ok s' \<and> chat_requests s' = chat_requests s + 1 \<and> chat_active s' = chat_active s + (if isl x then 0 else 1)"
    by (auto simp: dc_arrive_def Let_def split: prod.splits option.splits if_splits)
next
  fix s s' d result r
  assume 1: "chat_ok s" "1 \<le> chat_active s" "dc_settle d result s = (r, s')"
  obtain outcome sending replied where result: "result = (outcome, sending, replied)" by (cases result)
  have "s' = snd (dc_settle d result s)" using 1(3) by simp
  then show "chat_ok s' \<and> chat_requests s' = chat_requests s \<and> chat_active s' = chat_active s - 1"
    using 1(1,2) by (simp add: result dc_settle_state)
qed

lemma new_discord_fresh: "fresh_adapter (new_discord_state cfg)"
  unfolding fresh_adapter_def
  by (intro conjI new_bundle_counts [where adapter = "''discord''"]) (simp_all add: new_discord_state_def Let_def)

definition dc_role_of :: "(string \<times> string) \<times> thrown option \<times> bool \<Rightarrow> discord_state \<Rightarrow> kernel_role" where
  "dc_role_of m s = chat_roleFor (fst (fst m)) (ca_admins s)"

definition dc_sound :: "discord_state \<Rightarrow> bool" where
  "dc_sound s \<longleftrightarrow> ds_commands s = dc_buildCommandList"

lemma dc_guarded: "guarded dc_command_list"
  by (simp add: guarded_def dc_command_list_def viewer_can reads_only_def dc_startCommand_def dc_stopCommand_def
      dc_statusCommand_def dc_healthCommand_def dc_modulesCommand_def dc_configCommand_def dc_versionCommand_def dc_read_def
      kernel_health_def same_kernel_def split: prod.split)

lemma dc_known: "jm_get dc_buildCommandList n = Some c \<Longrightarrow> c \<in> set dc_command_list"
  unfolding dc_buildCommandList_def by (auto dest!: map_of_SomeD)

lemma dc_states [simp]:
  "ca_admins (snd (dc_arrive m s)) = ca_admins s" "ds_commands (snd (dc_arrive m s)) = ds_commands s"
  "ca_admins (snd (dc_settle d x s)) = ca_admins s" "ds_commands (snd (dc_settle d x s)) = ds_commands s"
proof -
  have [simp]: "ds_commands (chat_arrive s) = ds_commands s" "ds_commands (chat_leave s) = ds_commands s"
    "ds_commands (chat_failed s) = ds_commands s" "ds_commands (dc_begin_command s) = ds_commands s"
    "ds_commands (dc_finish d s) = ds_commands s" "ds_commands (count_failure s) = ds_commands s"
    "ca_admins (dc_begin_command s) = ca_admins s" "ca_admins (dc_finish d s) = ca_admins s"
    "ca_admins (count_failure s) = ca_admins s" for s :: discord_state and d
    by (simp_all add: chat_arrive_def chat_leave_def chat_failed_def dc_begin_command_def dc_finish_def count_failure_def
        chat_succeeded_def Let_def)
  show "ca_admins (snd (dc_arrive m s)) = ca_admins s" "ds_commands (snd (dc_arrive m s)) = ds_commands s"
    by (simp_all add: dc_arrive_def Let_def split: prod.split option.split)
  obtain outcome sending replied where x: "x = (outcome, sending, replied)" by (cases x)
  show "ca_admins (snd (dc_settle d x s)) = ca_admins s" "ds_commands (snd (dc_settle d x s)) = ds_commands s"
    unfolding x dc_settle_state by simp_all
qed

lemma dispatch_keeps:
  "ca_admins (fst (snd (dc_dispatchInteraction now d m s h))) = ca_admins s"
  "ds_commands (fst (snd (dc_dispatchInteraction now d m s h))) = ds_commands s"
  by (simp_all add: dc_dispatchInteraction_def run_command_keeps [where f = ca_admins]
      run_command_keeps [where f = ds_commands] split: prod.split)

interpretation discord_gate: gated_dispatcher dc_dispatchInteraction dc_role_of dc_sound
proof
  fix s m h now d
  assume s: "dc_sound s" and v: "dc_role_of m s = Viewer"
  obtain user n sending replied where m: "m = ((user, n), sending, replied)" by (metis surj_pair)
  show "same_kernel h (snd (snd (dc_dispatchInteraction now d m s h)))"
    unfolding dc_dispatchInteraction_def m prod.case
  proof (rule run_command_same)
    fix c s' assume "dc_arrive (user, n) s = (Inr c, s')"
    then have "jm_get dc_buildCommandList n = Some c" "can Viewer (kc_requires c)"
      using s v by (auto simp: dc_arrive_def dc_sound_def dc_role_of_def m Let_def split: option.splits if_splits)
    then show "reads_only c" using dc_guarded dc_known by (auto simp: guarded_def)
  qed
qed (simp_all add: dc_role_of_def dc_sound_def dispatch_keeps)

end
