(* ===== verification/McpAdapter.thy ===== *)
theory McpAdapter
  imports ChatAdapters
begin

text \<open>
  The adapter to the Model Context Protocol (packages/adapters-mcp/src): tools.ts, formats.ts, permissions.ts, types.ts
  and McpAdapter.ts. The server library keeps the tools that \<open>initialize\<close> registers and calls the one a request
  names; its transport is a parameter that may refuse to connect or to close.
\<close>

subsection \<open>Results\<close>

record mcp_result =
  mt_text :: string
  mt_isError :: bool
  mt_data :: "jsval option"

definition asJson :: "jsval \<Rightarrow> string" where
  "asJson payload = json_text indented payload @ nl"

definition mcp_ok :: "jsval \<Rightarrow> mcp_result" where
  "mcp_ok v = \<lparr>mt_text = asJson v, mt_isError = False, mt_data = Some v\<rparr>"

definition mcp_err :: "string \<Rightarrow> mcp_result" where
  "mcp_err message = \<lparr>mt_text = message, mt_isError = True, mt_data = None\<rparr>"

definition configToObject :: "hermes_config \<Rightarrow> jsval" where
  "configToObject cfg = JObj
     [(''NODE_ENV'', JStr (nodeEnv cfg)), (''LOG_LEVEL'', JStr (logLevel cfg)),
      (''OPENROUTER_API_KEY'', JStr (openrouterApiKey cfg)), (''DATABASE_URL'', JStr (databaseUrl cfg)),
      (''REDIS_URL'', JStr (redisUrl cfg)), (''OTEL_ENABLED'', JBool (otelEnabled cfg)),
      (''OTEL_EXPORTER_ENDPOINT'', (case otelExporterEndpoint cfg of None \<Rightarrow> JNull | Some e \<Rightarrow> JStr e)),
      (''HERMES_MODULES_DIR'', JStr (hermesModulesDir cfg)),
      (''HERMES_SHUTDOWN_TIMEOUT_MS'', JNum (of_int (hermesShutdownTimeoutMs cfg)))]"

definition mc_formatStarted :: "string \<Rightarrow> mcp_result" where
  "mc_formatStarted p = mcp_ok (JObj [(''started'', JBool True), (''phase'', JStr p)])"

definition mc_formatStopped :: "string \<Rightarrow> mcp_result" where
  "mc_formatStopped p = mcp_ok (JObj [(''stopped'', JBool True), (''phase'', JStr p)])"

definition mc_formatStatus :: "hermes_status \<Rightarrow> mcp_result" where
  "mc_formatStatus st = mcp_ok (statusToJson st)"

definition mc_formatHealth :: "health_report \<Rightarrow> mcp_result" where
  "mc_formatHealth rep = mcp_ok (healthToJson rep)"

definition mc_formatModules :: "nat \<Rightarrow> mcp_result" where
  "mc_formatModules n = mcp_ok (JObj [(''count'', js_nat n)])"

definition mc_formatConfig :: "hermes_config \<Rightarrow> mcp_result" where
  "mc_formatConfig cfg = mcp_ok (configToObject (redactHermesConfig cfg))"

definition mc_formatVersion :: "string \<Rightarrow> string \<Rightarrow> mcp_result" where
  "mc_formatVersion n v = mcp_ok (JObj [(''name'', JStr n), (''version'', JStr v)])"

definition formatHermesError :: "string \<Rightarrow> mcp_result" where
  "formatHermesError message = mcp_err (''Hermes rejected the call: '' @ message)"

definition formatPermissionDenied :: "string \<Rightarrow> mcp_result" where
  "formatPermissionDenied action = mcp_err (''Permission denied for action: '' @ action)"

definition formatUnexpectedError :: "string \<Rightarrow> mcp_result" where
  "formatUnexpectedError message = mcp_err (''Unexpected adapter error: '' @ message)"

definition toToolResult :: "thrown \<Rightarrow> mcp_result" where
  "toToolResult t = formatUnexpectedError (case t of Thrown_value _ \<Rightarrow> ''Unknown error.'' | _ \<Rightarrow> thrown_text t)"

record call_tool_result =
  ct_text :: string
  ct_isError :: bool
  ct_structuredContent :: "jsval option"

definition toCallToolResult :: "mcp_result \<Rightarrow> call_tool_result" where
  "toCallToolResult r = \<lparr>ct_text = mt_text r, ct_isError = mt_isError r,
     ct_structuredContent = (if mt_isError r then None else mt_data r)\<rparr>"

subsection \<open>Tools\<close>

text \<open>A handler gives a result or throws.\<close>

type_synonym mcp_outcome = "thrown + mcp_result"
type_synonym mcp_tool = "mcp_outcome chat_command"

definition startTool :: mcp_tool where
  "startTool = \<lparr>kc_name = ''start'', kc_description = ''Start the Hermes kernel.'', kc_requires = K_start,
     kc_handler = (\<lambda>now h. case start now h of
        (Inl e, h') \<Rightarrow> (Some (Inr (formatHermesError e)), h')
      | (Inr _, h') \<Rightarrow> (Some (Inr (mc_formatStarted (phase_text now h'))), h'))\<rparr>"

definition stopTool :: mcp_tool where
  "stopTool = \<lparr>kc_name = ''stop'', kc_description = ''Stop the Hermes kernel.'', kc_requires = K_stop,
     kc_handler = (\<lambda>now h. case stop now h of
        (None, h') \<Rightarrow> (None, h')
      | (Some (Inl e), h') \<Rightarrow> (Some (Inr (formatHermesError e)), h')
      | (Some (Inr _), h') \<Rightarrow> (Some (Inr (mc_formatStopped (phase_text now h'))), h'))\<rparr>"

definition statusTool :: mcp_tool where
  "statusTool = \<lparr>kc_name = ''status'', kc_description = ''Read Hermes kernel status (phase, uptime, module count).'',
     kc_requires = K_status, kc_handler = (\<lambda>now h. (Some (Inr (mc_formatStatus (hermes_status_of now h))), h))\<rparr>"

definition healthTool :: mcp_tool where
  "healthTool = \<lparr>kc_name = ''health'', kc_description = ''Read Hermes aggregate and per-module health.'',
     kc_requires = K_health,
     kc_handler = (\<lambda>now h. case kernel_health now h of (rep, h') \<Rightarrow> (Some (Inr (mc_formatHealth rep)), h'))\<rparr>"

definition modulesTool :: mcp_tool where
  "modulesTool = \<lparr>kc_name = ''modules'', kc_description = ''Read the count of registered Hermes modules.'',
     kc_requires = K_modules,
     kc_handler = (\<lambda>now h. (Some (Inr (mc_formatModules (modules (hermes_status_of now h)))), h))\<rparr>"

definition configTool :: mcp_tool where
  "configTool = \<lparr>kc_name = ''config'', kc_description = ''Read active Hermes configuration (secrets redacted).'',
     kc_requires = K_config, kc_handler = (\<lambda>now h. (Some (Inr (mc_formatConfig (config h))), h))\<rparr>"

definition versionTool :: mcp_tool where
  "versionTool = \<lparr>kc_name = ''version'', kc_description = ''Read Hermes kernel version.'', kc_requires = K_version,
     kc_handler = (\<lambda>now h. (Some (Inr (mc_formatVersion ''@agent-os/hermes'' ''1.0.0'')), h))\<rparr>"

definition ALL_TOOLS :: "mcp_tool list" where
  "ALL_TOOLS = [startTool, stopTool, statusTool, healthTool, modulesTool, configTool, versionTool]"

subsection \<open>The adapter\<close>

text \<open>\<open>mi_resolveRole\<close>: the role of the caller of a tool, or what the resolver throws.\<close>

record mcp_init =
  mi_transport :: string
  mi_serverName :: string
  mi_serverVersion :: string
  mi_resolveRole :: "(string \<Rightarrow> thrown + kernel_role) option"
  mi_metricRegistry :: "metric_registry option"

text \<open>The server of the library: its name, its version, and the tools that are registered.\<close>

record mcp_server =
  sv_name :: string
  sv_version :: string
  sv_tools :: "mcp_tool list"

record mcp_adapter = chat_core +
  mc_server :: "mcp_server option"
  mc_initialized :: bool
  mc_started :: bool
  mc_lastError :: "string option"

definition MCP_NAME :: string where
  "MCP_NAME = ''@agent-os/adapters-mcp''"

definition new_mcp :: "mcp_init \<Rightarrow> mcp_adapter" where
  "new_mcp init = (let am = createAdapterMetrics (override createMetricRegistry (mi_metricRegistry init)) ''mcp'' in
     \<lparr>ca_bundle = fst am, ca_metrics = snd am, mc_server = None, mc_initialized = False, mc_started = False,
       mc_lastError = None\<rparr>)"

definition mc_initialize :: "mcp_init \<Rightarrow> mcp_adapter \<Rightarrow> mcp_adapter" where
  "mc_initialize init a = (if mc_initialized a then a
     else a\<lparr>mc_server := Some \<lparr>sv_name = mi_serverName init, sv_version = mi_serverVersion init, sv_tools = ALL_TOOLS\<rparr>,
       mc_initialized := True\<rparr>)"

text \<open>\<open>refused\<close>: the error with which the library refuses to connect, or to close.\<close>

definition mc_start :: "string option \<Rightarrow> mcp_init \<Rightarrow> mcp_adapter \<Rightarrow> (string + unit) \<times> mcp_adapter" where
  "mc_start refused init a =
     (if mc_server a = None \<or> \<not> mc_initialized a then (Inl (MCP_NAME @ '': initialize() must be called before start().''), a)
      else if mc_started a then (Inr (), a)
      else if mi_transport init \<noteq> ''stdio''
      then (Inl (MCP_NAME @ '': unsupported transport '' @ quoted (mi_transport init) @ ''.''), a)
      else (case refused of
          Some e \<Rightarrow> (Inl e, a)
        | None \<Rightarrow> (Inr (), a\<lparr>mc_started := True, mc_lastError := None\<rparr>)))"

definition mc_stop :: "string option \<Rightarrow> mcp_adapter \<Rightarrow> (string + unit) \<times> mcp_adapter" where
  "mc_stop refused a =
     (if mc_server a = None \<or> \<not> mc_started a then (Inr (), a)
      else (case refused of Some e \<Rightarrow> (Inl e, a) | None \<Rightarrow> (Inr (), a\<lparr>mc_started := False\<rparr>)))"

definition mc_health :: "instant \<Rightarrow> mcp_adapter \<Rightarrow> adapter_health" where
  "mc_health now a =
     (if \<not> mc_initialized a then \<lparr>ah_status = A_unknown, ah_detail = Some ''not initialized'', ah_at = now\<rparr>
      else if mc_lastError a \<notin> {None, Some []} then \<lparr>ah_status = A_failed, ah_detail = mc_lastError a, ah_at = now\<rparr>
      else if \<not> mc_started a then \<lparr>ah_status = A_degraded, ah_detail = Some ''initialized but not started'', ah_at = now\<rparr>
      else \<lparr>ah_status = A_healthy, ah_detail = None, ah_at = now\<rparr>)"

record mcp_metadata = adapter_metadata +
  mm_transport :: string
  mm_toolCount :: nat

definition mc_metadata :: mcp_metadata where
  "mc_metadata = \<lparr>am_name = MCP_NAME, am_version = ''1.0.0'', am_interfaceType = I_mcp,
     am_supportedOperations = [''status'', ''health'', ''start'', ''stop'', ''modules'', ''config'', ''version''],
     mm_transport = ''stdio'', mm_toolCount = length ALL_TOOLS\<rparr>"

definition resolveRole :: "mcp_init \<Rightarrow> string \<Rightarrow> thrown + kernel_role" where
  "resolveRole init toolName = (case mi_resolveRole init of
     Some f \<Rightarrow> f toolName
   | None \<Rightarrow> (case find (\<lambda>t. kc_name t = toolName) ALL_TOOLS of
         None \<Rightarrow> Inr Viewer
       | Some tool \<Rightarrow> Inr (if can Admin (kc_requires tool) then Admin else Viewer)))"

text \<open>A call of the dispatcher is split at the await of the tool's handler. What the resolver throws leaves it.\<close>

definition mc_arrive :: "mcp_init \<Rightarrow> mcp_tool \<Rightarrow> 'z chat_core_scheme \<Rightarrow> (mcp_outcome + mcp_tool) \<times> 'z chat_core_scheme" where
  "mc_arrive init tool a = (case resolveRole init (kc_name tool) of
     Inl t \<Rightarrow> (Inl (Inl t), chat_arrive a)
   | Inr role \<Rightarrow> (let a1 = chat_arrive a in case requireRole role (kc_requires tool) of
         Inr _ \<Rightarrow> (Inr tool, a1)
       | Inl (Permission_error _ _) \<Rightarrow> (Inl (Inr (formatPermissionDenied (kc_name tool))), chat_failed a1)
       | Inl (Plain_error m) \<Rightarrow> (Inl (Inr (toToolResult (Thrown_error m))), chat_failed a1)
       | Inl (Other_value _) \<Rightarrow> (Inl (Inr (toToolResult (Thrown_value []))), chat_failed a1)))"

definition mc_settle :: "rat \<Rightarrow> mcp_outcome \<Rightarrow> mcp_adapter \<Rightarrow> mcp_outcome \<times> mcp_adapter" where
  "mc_settle d result a = (case result of
     Inr r \<Rightarrow> (Inr r, chat_counted (mt_isError r) d a)
   | Inl t \<Rightarrow> (Inr (toToolResult t), chat_failed (a\<lparr>mc_lastError := Some (thrown_text t)\<rparr>)))"

definition mc_dispatch :: "mcp_init \<Rightarrow> instant \<Rightarrow> rat \<Rightarrow> mcp_tool \<Rightarrow> mcp_adapter \<Rightarrow> hermes
    \<Rightarrow> mcp_outcome option \<times> mcp_adapter \<times> hermes" where
  "mc_dispatch init now d tool a h = run_command (mc_settle d) now (mc_arrive init tool a) h"

text \<open>
  A request to the server: \<open>None\<close> if the call of the tool never returns. Requests that name no registered tool are
  answered by the library alone.
\<close>

datatype mcp_reply = No_such_tool | Tool_rejects thrown | Tool_result call_tool_result

definition mc_request :: "mcp_init \<Rightarrow> instant \<Rightarrow> rat \<Rightarrow> string \<Rightarrow> mcp_adapter \<Rightarrow> hermes
    \<Rightarrow> mcp_reply option \<times> mcp_adapter \<times> hermes" where
  "mc_request init now d toolName a h =
     (case find (\<lambda>t. kc_name t = toolName) (case mc_server a of None \<Rightarrow> [] | Some s \<Rightarrow> sv_tools s) of
       None \<Rightarrow> (Some No_such_tool, a, h)
     | Some tool \<Rightarrow> (case mc_dispatch init now d tool a h of
         (r, s) \<Rightarrow> (map_option (\<lambda>out. case out of Inl t \<Rightarrow> Tool_rejects t | Inr x \<Rightarrow> Tool_result (toCallToolResult x)) r, s)))"

subsection \<open>Roles\<close>

lemmas mcp_tools = startTool_def stopTool_def statusTool_def healthTool_def modulesTool_def configTool_def versionTool_def

lemma mcp_guarded: "guarded ALL_TOOLS"
  by (simp add: guarded_def ALL_TOOLS_def mcp_tools viewer_can reads_only_def kernel_health_def same_kernel_def split: prod.split)

lemma arrive_tool:
  "mc_arrive init tool a = (Inr c, a') \<Longrightarrow>
     c = tool \<and> (\<exists>role. resolveRole init (kc_name tool) = Inr role \<and> can role (kc_requires tool))"
  by (auto simp: mc_arrive_def requireRole_def Let_def split: sum.splits if_splits)

text \<open>Without a resolver everyone may do everything, whatever the comment at \<open>resolveRole\<close> says of administrators.\<close>

lemma default_role:
  assumes "mi_resolveRole init = None" and "tool \<in> set ALL_TOOLS"
  shows "resolveRole init (kc_name tool) = Inr Admin"
  using assms by (auto simp: resolveRole_def ALL_TOOLS_def mcp_tools can_def ADMIN_ACTIONS_def)

lemma default_admits:
  assumes "mi_resolveRole init = None" and "tool \<in> set ALL_TOOLS"
  shows "mc_arrive init tool a = (Inr tool, chat_arrive a)"
  using assms(2) by (auto simp: mc_arrive_def default_role [OF assms] requireRole_def ALL_TOOLS_def mcp_tools can_def
      ADMIN_ACTIONS_def)

definition mc_role_of :: "mcp_init \<Rightarrow> string \<Rightarrow> mcp_adapter \<Rightarrow> kernel_role" where
  "mc_role_of init toolName a = (case resolveRole init toolName of Inl _ \<Rightarrow> Viewer | Inr role \<Rightarrow> role)"

definition mc_sound :: "mcp_adapter \<Rightarrow> bool" where
  "mc_sound a \<longleftrightarrow> (case mc_server a of None \<Rightarrow> True | Some s \<Rightarrow> sv_tools s = ALL_TOOLS)"

lemma mc_server_kept [simp]: "mc_server (chat_arrive a) = mc_server a" "mc_server (chat_failed a) = mc_server a"
  "mc_server (chat_counted e d a) = mc_server a"
  "mc_server (snd (mc_settle d result a)) = mc_server a" "mc_server (snd (mc_arrive init tool a)) = mc_server a"
  by (simp_all add: chat_arrive_def chat_failed_def chat_leave_def chat_counted_def mc_settle_def mc_arrive_def Let_def
      split: sum.split kernel_exn.split)

interpretation mcp_gate: gated_dispatcher "mc_request init" "mc_role_of init" mc_sound for init
proof
  fix a :: mcp_adapter and toolName h now d
  assume a: "mc_sound a" and v: "mc_role_of init toolName a = Viewer"
  have "same_kernel h (snd (snd (mc_dispatch init now d tool a h)))" if "tool \<in> set ALL_TOOLS" "kc_name tool = toolName" for tool
    unfolding mc_dispatch_def
    by (rule run_command_same)
      (use v that mcp_guarded in \<open>auto simp: mc_role_of_def guarded_def dest!: arrive_tool\<close>)
  then show "same_kernel h (snd (snd (mc_request init now d toolName a h)))"
    using a by (auto simp: mc_request_def mc_sound_def find_Some_iff split: option.split prod.split)
      (metis nth_mem snd_conv)+
next
  show "mc_sound (fst (snd (mc_request init now d toolName a h)))" if "mc_sound a" for a h now d toolName
  proof -
    have "mc_server (fst (snd (mc_dispatch init now d tool a h))) = mc_server a" for tool
      by (simp add: mc_dispatch_def run_command_keeps [where f = mc_server])
    then show ?thesis using that
      by (auto simp: mc_request_def mc_sound_def split: option.splits prod.splits) (metis fst_conv snd_conv option.inject option.distinct(1))+
  qed
qed (simp add: mc_role_of_def)

subsection \<open>Metrics\<close>

definition resolver_total :: "mcp_init \<Rightarrow> (string \<Rightarrow> kernel_role) option \<Rightarrow> mcp_init" where
  "resolver_total init f = init\<lparr>mi_resolveRole := map_option (\<lambda>f n. Inr (f n)) f\<rparr>"

lemma total_role: "\<exists>role. resolveRole (resolver_total init f) n = Inr role"
  by (auto simp: resolveRole_def resolver_total_def split: option.split)

lemma mc_settle_counts:
  assumes "mc_settle d result a = (r, a')" and "chat_ok a"
  shows "chat_ok a' \<and> chat_requests a' = chat_requests a \<and> chat_active a' = max 0 (chat_active a - 1)"
proof (cases result)
  case (Inl t)
  have "chat_ok (a\<lparr>mc_lastError := e\<rparr>) = chat_ok a" "chat_requests (a\<lparr>mc_lastError := e\<rparr>) = chat_requests a"
    "chat_active (a\<lparr>mc_lastError := e\<rparr>) = chat_active a" for e
    by (simp_all add: chat_reads)
  with Inl assms show ?thesis by (auto simp: mc_settle_def)
next
  case (Inr x)
  with assms show ?thesis by (auto simp: mc_settle_def)
qed

interpretation mcp_calls: chat_dispatcher "mc_arrive (resolver_total init f)" mc_settle for init f
proof
  fix a a' :: mcp_adapter and x tool
  assume 1: "chat_ok a" "0 \<le> chat_active a" "mc_arrive (resolver_total init f) tool a = (x, a')"
  then show "chat_ok a' \<and> chat_requests a' = chat_requests a + 1 \<and> chat_active a' = chat_active a + (if isl x then 0 else 1)"
    using total_role [of init f "kc_name tool"]
    by (auto simp: mc_arrive_def requireRole_def Let_def split: if_splits)
qed (use mc_settle_counts in fastforce)

lemma new_mcp_fresh: "fresh_adapter (new_mcp init)"
  unfolding fresh_adapter_def
  by (intro conjI new_bundle_counts [where adapter = "''mcp''"]) (simp_all add: new_mcp_def Let_def)

text \<open>A resolver that throws leaves the gauge of running calls up for good, and nothing counts the call as answered.\<close>

lemma throwing_resolver_leaks:
  assumes "mi_resolveRole init = Some f" and "f (kc_name tool) = Inl t" and "chat_ok a"
  shows "mc_dispatch init now d tool a h = (Some (Inl t), chat_arrive a, h)"
    "chat_active (chat_arrive a) = chat_active a + 1" "chat_commands (chat_arrive a) = chat_commands a"
    "chat_errors (chat_arrive a) = chat_errors a"
  using assms by (simp_all add: mc_dispatch_def run_command_def mc_arrive_def resolveRole_def)

subsection \<open>Secrets\<close>

lemma mcp_conceal:
  assumes "tool \<in> set ALL_TOOLS"
  shows "kc_handler tool now (conceal x h) = concealed x (kc_handler tool now h)"
  using assms
  by (auto simp: ALL_TOOLS_def mcp_tools conceal_simps conceal_phase mc_formatConfig_def split: prod.split sum.split option.split)

end
