(* ===== verification/CliAdapter.thy ===== *)
theory CliAdapter
  imports ChatAdapters
begin

text \<open>
  The command line adapter (packages/adapters-cli/src): ArgvParser.ts, CommandRegistry.ts, Permissions.ts,
  Renderer.ts, the commands and CliAdapter.ts with its interactive and its piped mode. Values are
  rendered as JSON text by the theory Json. What the readline library is given to write is put
  before the next line typed, as its documentation has it.
\<close>

subsection \<open>Arguments\<close>

record parsed_args =
  pa_positional :: "string list"
  pa_flags :: "(string, jsval) jmap"
  pa_json :: bool
  pa_help :: bool

text \<open>An assignment to the member \<open>__proto__\<close> creates no flag.\<close>

definition set_flag :: "string \<Rightarrow> jsval \<Rightarrow> parsed_args \<Rightarrow> parsed_args" where
  "set_flag k v p = (if k = ''__proto__'' then p else p\<lparr>pa_flags := jm_set k v (pa_flags p)\<rparr>)"

definition parse_token :: "string \<Rightarrow> parsed_args \<Rightarrow> parsed_args" where
  "parse_token token p =
     (if token = ''--json'' then p\<lparr>pa_json := True\<rparr>
      else if token = ''--help'' \<or> token = ''-h'' then p\<lparr>pa_help := True\<rparr>
      else if starts_with token ''--''
      then (let flag = drop 2 token in
        if CHR ''='' \<notin> set flag then set_flag flag (JBool True) p
        else set_flag (takeWhile (\<lambda>c. c \<noteq> CHR ''='') flag) (JStr (tl (dropWhile (\<lambda>c. c \<noteq> CHR ''='') flag))) p)
      else p\<lparr>pa_positional := pa_positional p @ [token]\<rparr>)"

definition parseArgs :: "string list \<Rightarrow> parsed_args" where
  "parseArgs argv = fold parse_token argv \<lparr>pa_positional = [], pa_flags = [], pa_json = False, pa_help = False\<rparr>"

subsection \<open>Rendering\<close>

datatype output_mode = Human | Json_mode

record rendered_result =
  rr_stdout :: string
  rr_stderr :: string

fun formatHumanValue :: "jsval \<Rightarrow> string" where
  "formatHumanValue JNull = []"
| "formatHumanValue JUndefined = []"
| "formatHumanValue (JStr s) = s"
| "formatHumanValue (JNum q) = number_text q"
| "formatHumanValue JNaN = ''NaN''"
| "formatHumanValue (JBool b) = bool_str b"
| "formatHumanValue v = json_text indented v"

definition error_js :: "command_error \<Rightarrow> jsval" where
  "error_js e = JObj [(''code'', JStr (ce_code e)), (''message'', JStr (ce_message e)),
     (''detail'', override JUndefined (ce_detail e))]"

definition formatHumanError :: "command_error \<Rightarrow> string" where
  "formatHumanError e = ''error: '' @ ce_code e @ '': '' @ ce_message e
     @ (case ce_detail e of
          None \<Rightarrow> []
        | Some v \<Rightarrow> if v = JUndefined \<or> v = JNull then [] else nl @ json_text indented v)"

definition failure_js :: "command_error \<Rightarrow> jsval" where
  "failure_js e = JObj [(''ok'', JBool False), (''error'', error_js e)]"

definition renderResult :: "command_error + jsval \<Rightarrow> output_mode \<Rightarrow> rendered_result" where
  "renderResult result mode = (case (result, mode) of
     (Inr v, Json_mode) \<Rightarrow> \<lparr>rr_stdout = (if v = JUndefined then [] else json_text compact v @ nl), rr_stderr = []\<rparr>
   | (Inr v, Human) \<Rightarrow> \<lparr>rr_stdout = formatHumanValue v @ nl, rr_stderr = []\<rparr>
   | (Inl e, Json_mode) \<Rightarrow> \<lparr>rr_stdout = json_text compact (failure_js e) @ nl, rr_stderr = []\<rparr>
   | (Inl e, Human) \<Rightarrow> \<lparr>rr_stdout = [], rr_stderr = formatHumanError e @ nl\<rparr>)"

subsection \<open>Commands\<close>

text \<open>What a handler may throw; the dispatcher reads only the text.\<close>

type_synonym cli_result = "command_error + jsval"
type_synonym cli_outcome = "string + cli_result"

record cli_command =
  kl_name :: string
  kl_summary :: string
  kl_usage :: string
  kl_requires :: "kernel_action option"
  kl_handler :: "kernel_role \<Rightarrow> string list \<Rightarrow> instant \<Rightarrow> hermes \<Rightarrow> cli_outcome option \<times> hermes"

definition simple_error :: "string \<Rightarrow> string \<Rightarrow> command_error" where
  "simple_error code message = \<lparr>ce_code = code, ce_message = message, ce_detail = None\<rparr>"

definition permission_error :: "kernel_action \<Rightarrow> command_error" where
  "permission_error action = simple_error ''PERMISSION'' (''Permission denied for action '' @ quoted (action_str action) @ ''.'')"

definition permission_text :: "kernel_action \<Rightarrow> string" where
  "permission_text action = ''Permission denied: action '' @ quoted (action_str action) @ '' requires elevated role.''"

text \<open>\<open>ctx.permissions.require\<close> within a handler throws.\<close>

definition require_action :: "kernel_role \<Rightarrow> kernel_action \<Rightarrow> cli_outcome option \<times> hermes \<Rightarrow> hermes \<Rightarrow> cli_outcome option \<times> hermes" where
  "require_action role action go h = (if can role action then go else (Some (Inl (permission_text action)), h))"

definition cli_value :: "jsval \<Rightarrow> cli_outcome option" where
  "cli_value v = Some (Inr (Inr v))"

definition cli_error :: "string \<Rightarrow> string \<Rightarrow> cli_outcome option" where
  "cli_error code message = Some (Inr (Inl (simple_error code message)))"

definition phase_object :: "instant \<Rightarrow> hermes \<Rightarrow> jsval" where
  "phase_object now h = JObj [(''phase'', JStr (phase_text now h))]"

definition cl_startCommand :: cli_command where
  "cl_startCommand = \<lparr>kl_name = ''start'', kl_summary = ''Start the Hermes kernel.'', kl_usage = ''agent-os start'',
     kl_requires = Some K_start,
     kl_handler = (\<lambda>role args now h. require_action role K_start (case start now h of
        (Inl e, h') \<Rightarrow> (cli_error ''HERMES'' e, h')
      | (Inr _, h') \<Rightarrow> (cli_value (phase_object now h'), h')) h)\<rparr>"

definition cl_stopCommand :: cli_command where
  "cl_stopCommand = \<lparr>kl_name = ''stop'', kl_summary = ''Stop the Hermes kernel.'', kl_usage = ''agent-os stop'',
     kl_requires = Some K_stop,
     kl_handler = (\<lambda>role args now h. require_action role K_stop (case stop now h of
        (None, h') \<Rightarrow> (None, h')
      | (Some (Inl e), h') \<Rightarrow> (cli_error ''HERMES'' e, h')
      | (Some (Inr _), h') \<Rightarrow> (cli_value (phase_object now h'), h')) h)\<rparr>"

definition cl_statusCommand :: cli_command where
  "cl_statusCommand = \<lparr>kl_name = ''status'', kl_summary = ''Show kernel phase, uptime, and module count.'',
     kl_usage = ''agent-os status'', kl_requires = Some K_status,
     kl_handler = (\<lambda>role args now h. (cli_value (statusToJson (hermes_status_of now h)), h))\<rparr>"

definition cl_healthCommand :: cli_command where
  "cl_healthCommand = \<lparr>kl_name = ''health'', kl_summary = ''Show aggregate and per-module health.'',
     kl_usage = ''agent-os health'', kl_requires = Some K_health,
     kl_handler = (\<lambda>role args now h. case kernel_health now h of (rep, h') \<Rightarrow> (cli_value (healthToJson rep), h'))\<rparr>"

definition cli_redact :: "hermes_config \<Rightarrow> jsval" where
  "cli_redact cfg = JObj
     [(''nodeEnv'', JStr (nodeEnv cfg)), (''logLevel'', JStr (logLevel cfg)),
      (''openrouterApiKey'', JStr ''****''), (''databaseUrl'', JStr ''****''), (''redisUrl'', JStr ''****''),
      (''otelEnabled'', JBool (otelEnabled cfg)),
      (''otelExporterEndpoint'', (case otelExporterEndpoint cfg of None \<Rightarrow> JUndefined | Some e \<Rightarrow> JStr e)),
      (''hermesModulesDir'', JStr (hermesModulesDir cfg)),
      (''hermesShutdownTimeoutMs'', JNum (of_int (hermesShutdownTimeoutMs cfg)))]"

definition cl_configCommand :: cli_command where
  "cl_configCommand = \<lparr>kl_name = ''config'', kl_summary = ''Show active configuration (secrets redacted).'',
     kl_usage = ''agent-os config'', kl_requires = Some K_config,
     kl_handler = (\<lambda>role args now h. (cli_value (cli_redact (config h)), h))\<rparr>"

definition package_js :: "string \<Rightarrow> jsval" where
  "package_js n = JObj [(''name'', JStr n), (''version'', JStr ''1.0.0'')]"

definition cl_versionCommand :: cli_command where
  "cl_versionCommand = \<lparr>kl_name = ''version'', kl_summary = ''Show CLI and Hermes kernel versions.'',
     kl_usage = ''agent-os version'', kl_requires = Some K_version,
     kl_handler = (\<lambda>role args now h. (cli_value (JObj [(''cli'', package_js ''@agent-os/adapters-cli''),
        (''hermes'', package_js ''@agent-os/hermes'')]), h))\<rparr>"

definition usageError :: "string \<Rightarrow> cli_outcome option" where
  "usageError message = cli_error ''USAGE'' message"

definition pl_run :: "kernel_role \<Rightarrow> string list \<Rightarrow> instant \<Rightarrow> hermes \<Rightarrow> cli_outcome option \<times> hermes" where
  "pl_run role args now h = (let sub = (case args of [] \<Rightarrow> None | a # _ \<Rightarrow> Some a) in
     if sub = None \<or> sub = Some ''list''
     then require_action role K_status (cli_value (JObj [(''kind'', JStr ''list''), (''modules'', JArr []),
            (''count'', js_nat (modules (hermes_status_of now h)))]), h) h
     else if sub = Some ''unload''
     then (let n = override [] (case args of _ # b # _ \<Rightarrow> Some b | _ \<Rightarrow> None) in
        if n = [] then (usageError ''plugins unload requires a plugin name.'', h)
        else require_action role K_unregisterModule (case kernel_unregisterModule n h of
            (Inl e, h') \<Rightarrow> (cli_error ''HERMES'' e, h')
          | (Inr _, h') \<Rightarrow> (cli_value (JObj [(''kind'', JStr ''unload''), (''name'', JStr n)]), h')) h)
     else if sub = Some ''load'' then (cli_value (JObj [(''kind'', JStr ''load_unsupported'')]), h)
     else (usageError (''Unknown plugins subcommand: '' @ quoted (override [] sub) @ ''.''), h))"

definition cl_pluginsCommand :: cli_command where
  "cl_pluginsCommand = \<lparr>kl_name = ''plugins'', kl_summary = ''List or unload registered plugins.'',
     kl_usage = ''agent-os plugins list | agent-os plugins unload <name>'', kl_requires = None, kl_handler = pl_run\<rparr>"

subsection \<open>The registry\<close>

type_synonym cli_registry = "(string, cli_command) jmap"

definition cl_register :: "cli_command \<Rightarrow> cli_registry \<Rightarrow> string + cli_registry" where
  "cl_register c r = (if jm_has r (kl_name c)
     then Inl (''CommandRegistry: command '' @ quoted (kl_name c) @ '' is already registered.'')
     else Inr (jm_set (kl_name c) c r))"

definition cl_names :: "cli_registry \<Rightarrow> string list" where
  "cl_names r = map fst r"

definition cl_default_commands :: "cli_command list" where
  "cl_default_commands = [cl_startCommand, cl_stopCommand, cl_statusCommand, cl_healthCommand, cl_pluginsCommand,
     cl_configCommand, cl_versionCommand]"

definition buildDefaultRegistry :: cli_registry where
  "buildDefaultRegistry = fold (\<lambda>c r. case cl_register c r of Inl _ \<Rightarrow> r | Inr r' \<Rightarrow> r') cl_default_commands []"

subsection \<open>The adapter\<close>

record cli_adapter =
  cl_registry :: "cli_registry option"
  cl_role :: "kernel_role option"
  cl_metrics :: "chat_core option"
  cl_initialized :: bool
  cl_started :: bool

definition createCliAdapter :: cli_adapter where
  "createCliAdapter = \<lparr>cl_registry = None, cl_role = None, cl_metrics = None, cl_initialized = False, cl_started = False\<rparr>"

record cli_dispatch_result =
  cd_exitCode :: int
  cd_rendered :: rendered_result

definition mapErrorToExitCode :: "string \<Rightarrow> int" where
  "mapErrorToExitCode code =
     (if code = ''USAGE'' then 2 else if code = ''PERMISSION'' then 3 else if code = ''PHASE'' then 4
      else if code = ''TIMEOUT'' then 5 else if code = ''SIGNAL'' then 6 else 1)"

definition cl_initialize :: "kernel_role \<Rightarrow> metric_registry option \<Rightarrow> cli_adapter \<Rightarrow> cli_adapter" where
  "cl_initialize role reg a = (let am = createAdapterMetrics (override createMetricRegistry reg) ''cli'' in
     a\<lparr>cl_role := Some role, cl_metrics := Some \<lparr>ca_bundle = fst am, ca_metrics = snd am\<rparr>,
       cl_registry := Some (override buildDefaultRegistry (cl_registry a)), cl_initialized := True\<rparr>)"

definition cl_start :: "cli_adapter \<Rightarrow> (string + unit) \<times> cli_adapter" where
  "cl_start a = (if \<not> cl_initialized a then (Inl ''CliAdapter: cannot start before initialize().'', a)
     else (Inr (), a\<lparr>cl_started := True\<rparr>))"

definition cl_stop :: "cli_adapter \<Rightarrow> (string + unit) \<times> cli_adapter" where
  "cl_stop a = (Inr (), a\<lparr>cl_started := False\<rparr>)"

definition cl_health :: "instant \<Rightarrow> cli_adapter \<Rightarrow> adapter_health" where
  "cl_health now a =
     (if \<not> cl_initialized a then \<lparr>ah_status = A_unknown, ah_detail = Some ''adapter not initialized'', ah_at = now\<rparr>
      else if \<not> cl_started a then \<lparr>ah_status = A_degraded, ah_detail = Some ''adapter not started'', ah_at = now\<rparr>
      else if cl_registry a = None then \<lparr>ah_status = A_failed, ah_detail = Some ''registry missing'', ah_at = now\<rparr>
      else \<lparr>ah_status = A_healthy, ah_detail = None, ah_at = now\<rparr>)"

definition cl_metadata :: "cli_adapter \<Rightarrow> adapter_metadata" where
  "cl_metadata a = \<lparr>am_name = ''@agent-os/adapters-cli'', am_version = ''1.0.0'', am_interfaceType = I_cli,
     am_supportedOperations = (case cl_registry a of None \<Rightarrow> [] | Some r \<Rightarrow> cl_names r)\<rparr>"

definition cl_getRegistry :: "cli_adapter \<Rightarrow> cli_registry \<times> cli_adapter" where
  "cl_getRegistry a = (let r = override buildDefaultRegistry (cl_registry a) in (r, a\<lparr>cl_registry := Some r\<rparr>))"

subsection \<open>Dispatching\<close>

definition mode_of :: "bool \<Rightarrow> output_mode" where
  "mode_of json = (if json then Json_mode else Human)"

text \<open>The result of the inner function of \<open>handleCommand\<close>: all that is thrown becomes an error.\<close>

definition run_handler :: "kernel_role \<Rightarrow> cli_command \<Rightarrow> string list \<Rightarrow> instant \<Rightarrow> hermes \<Rightarrow> cli_result option \<times> hermes" where
  "run_handler role cmd args now h =
     (let denied = (case kl_requires cmd of None \<Rightarrow> None | Some a \<Rightarrow> if can role a then None else Some a) in
      case denied of
        Some a \<Rightarrow> (Some (Inl (permission_error a)), h)
      | None \<Rightarrow> (case kl_handler cmd role args now h of
          (None, h') \<Rightarrow> (None, h')
        | (Some (Inl thrown), h') \<Rightarrow> (Some (Inl (simple_error ''INTERNAL'' thrown)), h')
        | (Some (Inr result), h') \<Rightarrow> (Some result, h')))"

definition exit_code :: "cli_result \<Rightarrow> int" where
  "exit_code result = (case result of Inl e \<Rightarrow> mapErrorToExitCode (ce_code e) | Inr _ \<Rightarrow> 0)"

definition cl_settle :: "rat \<Rightarrow> cli_result \<Rightarrow> chat_core \<Rightarrow> chat_core" where
  "cl_settle d result m = chat_counted (exit_code result \<noteq> 0) d m"

text \<open>A call throws, or it gives a result, or it never returns.\<close>

type_synonym cli_answer = "(string + cli_dispatch_result) option"

definition handleCommand :: "instant \<Rightarrow> rat \<Rightarrow> cli_command \<Rightarrow> parsed_args \<Rightarrow> cli_adapter \<Rightarrow> hermes
    \<Rightarrow> cli_answer \<times> cli_adapter \<times> hermes" where
  "handleCommand now d cmd parsed a h = (case cl_role a of
     None \<Rightarrow> (Some (Inl ''CliAdapter: not initialized.''), a, h)
   | Some role \<Rightarrow>
       (let a1 = a\<lparr>cl_metrics := map_option chat_arrive (cl_metrics a)\<rparr> in
        case run_handler role cmd (pa_positional parsed) now h of
          (None, h') \<Rightarrow> (None, a1, h')
        | (Some result, h') \<Rightarrow>
            (Some (Inr \<lparr>cd_exitCode = exit_code result, cd_rendered = renderResult result (mode_of (pa_json parsed))\<rparr>),
             a1\<lparr>cl_metrics := map_option (cl_settle d result) (cl_metrics a1)\<rparr>, h')))"

definition pad_end :: "nat \<Rightarrow> string \<Rightarrow> string" where
  "pad_end n s = s @ replicate (n - length s) (CHR '' '')"

definition renderHelp :: "cli_registry \<Rightarrow> rendered_result" where
  "renderHelp r = \<lparr>rr_stdout = join nl ([''Available commands:'']
       @ map (\<lambda>(n, c). ''  '' @ pad_end 10 n @ '' '' @ kl_summary c) r
       @ [[], ''Global flags: --json, --help'', [], ''Interactive commands: help, exit, quit'']) @ nl, rr_stderr = []\<rparr>"

definition renderCommandHelp :: "cli_command \<Rightarrow> output_mode \<Rightarrow> cli_dispatch_result" where
  "renderCommandHelp c mode = \<lparr>cd_exitCode = 0, cd_rendered = renderResult (Inr (JObj [(''name'', JStr (kl_name c)),
     (''summary'', JStr (kl_summary c)), (''usage'', JStr (kl_usage c))])) mode\<rparr>"

definition usage_result :: "string \<Rightarrow> output_mode \<Rightarrow> cli_answer" where
  "usage_result message mode =
     Some (Inr \<lparr>cd_exitCode = 2, cd_rendered = renderResult (Inl (simple_error ''USAGE'' message)) mode\<rparr>)"

definition unknown_message :: "string \<Rightarrow> string" where
  "unknown_message n = ''Unknown command: '' @ quoted n @ ''.''"

definition dispatchInternal :: "instant \<Rightarrow> rat \<Rightarrow> string list \<Rightarrow> cli_adapter \<Rightarrow> hermes
    \<Rightarrow> cli_answer \<times> cli_adapter \<times> hermes" where
  "dispatchInternal now d argv a h = (case cl_registry a of
     None \<Rightarrow> (usage_result ''CliAdapter is not initialized.'' Human, a, h)
   | Some r \<Rightarrow>
       (let parsed = parseArgs argv; mode = mode_of (pa_json parsed) in
        case pa_positional parsed of
          [] \<Rightarrow> (if pa_help parsed then Some (Inr \<lparr>cd_exitCode = 0, cd_rendered = renderHelp r\<rparr>)
                 else usage_result ''No command supplied.'' mode, a, h)
        | n # rest \<Rightarrow> (case jm_get r n of
            None \<Rightarrow> (usage_result (unknown_message n) mode, a, h)
          | Some cmd \<Rightarrow>
              if pa_help parsed then (Some (Inr (renderCommandHelp cmd mode)), a, h)
              else handleCommand now d cmd (parsed\<lparr>pa_positional := rest\<rparr>) a h)))"

subsection \<open>The interactive and the piped mode\<close>

datatype cli_output = To_stdout string | To_stderr string | To_readline string

datatype session_end =
    Reading int
  | Ended int
  | Rejected string
  | Hangs

definition PROMPT :: string where
  "PROMPT = ''agent-os> ''"

text \<open>
  The lines typed, each with the time of its command; \<open>buf\<close> is what was written to the readline
  interface, which comes before what is typed next. \<open>Reading\<close> is the end of the lines given.
\<close>

fun runInteractive :: "string \<Rightarrow> int \<Rightarrow> (instant \<times> rat \<times> string) list \<Rightarrow> cli_adapter \<Rightarrow> hermes
    \<Rightarrow> session_end \<times> cli_output list \<times> cli_adapter \<times> hermes" where
  "runInteractive buf code [] a h = (Reading code, [], a, h)"
| "runInteractive buf code ((now, d, typed) # ls) a h =
     (let trimmed = trim (buf @ typed) in
      if trimmed = []
      then (case runInteractive PROMPT code ls a h of (e, out, s) \<Rightarrow> (e, To_readline PROMPT # out, s))
      else if trimmed = ''exit'' \<or> trimmed = ''quit'' then (Ended 0, [], a, h)
      else if trimmed = ''help''
      then (case runInteractive [] code ls a h of (e, out, s) \<Rightarrow>
        (e, (case cl_registry a of None \<Rightarrow> [] | Some r \<Rightarrow> [To_stdout (rr_stdout (renderHelp r) @ nl @ PROMPT)]) @ out, s))
      else (case dispatchInternal now d (split_white trimmed) a h of
          (None, a', h') \<Rightarrow> (Hangs, [], a', h')
        | (Some (Inl e), a', h') \<Rightarrow> (Rejected e, [], a', h')
        | (Some (Inr r), a', h') \<Rightarrow> (case runInteractive PROMPT (cd_exitCode r) ls a' h' of (e, out, s) \<Rightarrow>
            (e, [To_stdout (rr_stdout (cd_rendered r)), To_stderr (rr_stderr (cd_rendered r)), To_readline PROMPT] @ out, s))))"

definition failure_line :: "string \<Rightarrow> string \<Rightarrow> cli_output" where
  "failure_line code message = To_stdout (json_text compact (failure_js (simple_error code message)) @ nl)"

text \<open>\<open>show_value\<close> is \<open>String\<close>, \<open>syntax_error\<close> the message of \<open>JSON.parse\<close> on a text it refuses.\<close>

fun runStdin :: "(jsval \<Rightarrow> string) \<Rightarrow> (string \<Rightarrow> string) \<Rightarrow> int \<Rightarrow> (instant \<times> rat \<times> string) list \<Rightarrow> cli_adapter \<Rightarrow> hermes
    \<Rightarrow> session_end \<times> cli_output list \<times> cli_adapter \<times> hermes" where
  "runStdin show_value syntax_error code [] a h = (Ended code, [], a, h)"
| "runStdin show_value syntax_error code ((now, d, line) # ls) a h =
     (let trimmed = trim line;
          continue = (\<lambda>out code a h. case runStdin show_value syntax_error code ls a h of (e, out', s) \<Rightarrow> (e, out @ out', s))
      in if trimmed = [] then continue [] code a h
         else (case json_parse trimmed of
             None \<Rightarrow> continue [failure_line ''INTERNAL'' (syntax_error trimmed)] 1 a h
           | Some (JArr tokens) \<Rightarrow> (case dispatchInternal now d (map show_value tokens) a h of
                 (None, a', h') \<Rightarrow> (Hangs, [], a', h')
               | (Some (Inl e), a', h') \<Rightarrow> continue [failure_line ''INTERNAL'' e] 1 a' h'
               | (Some (Inr r), a', h') \<Rightarrow> continue [To_stdout (rr_stdout (cd_rendered r)),
                     To_stderr (rr_stderr (cd_rendered r))] (cd_exitCode r) a' h')
           | Some _ \<Rightarrow> continue [failure_line ''USAGE'' ''Expected JSON array of tokens.''] 2 a h))"

subsection \<open>Exit codes\<close>

definition call_fails :: "string + 'a \<Rightarrow> bool" where
  "call_fails r = (case r of Inl _ \<Rightarrow> True | Inr _ \<Rightarrow> False)"

definition default_names :: "string list" where
  "default_names = [''start'', ''stop'', ''status'', ''health'', ''plugins'', ''config'', ''version'']"

text \<open>The exit code of the arguments after parsing, over a kernel in state \<open>h\<close>.\<close>

definition plugins_code :: "kernel_role \<Rightarrow> string list \<Rightarrow> hermes \<Rightarrow> int" where
  "plugins_code role args h = (case args of
     [] \<Rightarrow> 0
   | sub # ns \<Rightarrow>
       if sub = ''list'' \<or> sub = ''load'' then 0
       else if sub \<noteq> ''unload'' \<or> ns = [] \<or> hd ns = [] then 2
       else if role = Viewer \<or> call_fails (fst (kernel_unregisterModule (hd ns) h)) then 1 else 0)"

definition expected_code :: "kernel_role \<Rightarrow> instant \<Rightarrow> bool \<Rightarrow> string list \<Rightarrow> hermes \<Rightarrow> int" where
  "expected_code role now help pos h = (case pos of
     [] \<Rightarrow> if help then 0 else 2
   | n # args \<Rightarrow>
       if n \<notin> set default_names then 2
       else if help then 0
       else if n \<in> {''start'', ''stop''} \<and> role = Viewer then 3
       else if n = ''start'' then if call_fails (fst (start now h)) then 1 else 0
       else if n = ''stop'' then (case fst (stop now h) of Some r \<Rightarrow> if call_fails r then 1 else 0 | None \<Rightarrow> 0)
       else if n = ''plugins'' then plugins_code role args h
       else 0)"

lemma default_registry: "buildDefaultRegistry = map (\<lambda>c. (kl_name c, c)) cl_default_commands"
  by (simp add: buildDefaultRegistry_def cl_default_commands_def cl_register_def cl_startCommand_def cl_stopCommand_def
      cl_statusCommand_def cl_healthCommand_def cl_pluginsCommand_def cl_configCommand_def cl_versionCommand_def jm_has_def)

lemmas default_commands = cl_startCommand_def cl_stopCommand_def cl_statusCommand_def cl_healthCommand_def
  cl_pluginsCommand_def cl_configCommand_def cl_versionCommand_def

lemma default_names_known: "set default_names = fst ` set buildDefaultRegistry"
  by (simp add: default_names_def default_registry cl_default_commands_def default_commands)

lemma role_cases: "can Viewer K_start = False" "can Viewer K_stop = False" "can Viewer K_unregisterModule = False"
  "can role K_status" "can role K_health" "can role K_config" "can role K_version"
  by (cases role; simp add: can_def VIEWER_ACTIONS_def ADMIN_ACTIONS_def)+

lemma simple_codes [simp]:
  "exit_code (Inr v) = 0" "exit_code (Inl (permission_error a)) = 3" "exit_code (Inl (simple_error ''USAGE'' m)) = 2"
  "exit_code (Inl (simple_error ''HERMES'' m)) = 1" "exit_code (Inl (simple_error ''INTERNAL'' m)) = 1"
  by (simp_all add: exit_code_def simple_error_def permission_error_def mapErrorToExitCode_def)

lemma other_role: "role \<noteq> Viewer \<Longrightarrow> can role a"
  using admin_can by (cases role) simp_all

lemma can_unregister: "can role K_unregisterModule \<longleftrightarrow> role \<noteq> Viewer" "can role K_start \<longleftrightarrow> role \<noteq> Viewer"
  "can role K_stop \<longleftrightarrow> role \<noteq> Viewer"
  by (cases role; simp add: can_def VIEWER_ACTIONS_def ADMIN_ACTIONS_def)+

definition as_result :: "cli_outcome \<Rightarrow> cli_result" where
  "as_result out = (case out of Inl t \<Rightarrow> Inl (simple_error ''INTERNAL'' t) | Inr r \<Rightarrow> r)"

lemma as_result_simps [simp]:
  "as_result (Inl t) = Inl (simple_error ''INTERNAL'' t)" "as_result (Inr r) = r"
  by (simp_all add: as_result_def)

lemma run_handler_alt:
  "run_handler role c args now h = (case kl_requires c of
     Some a \<Rightarrow> if can role a then map_prod (map_option as_result) id (kl_handler c role args now h)
       else (Some (Inl (permission_error a)), h)
   | None \<Rightarrow> map_prod (map_option as_result) id (kl_handler c role args now h))"
  by (auto simp: run_handler_def Let_def split: option.split prod.split sum.split)

lemmas handler_simps = require_action_def cli_error_def cli_value_def call_fails_def usageError_def

lemma unload_code:
  "map_option (\<lambda>x. exit_code (as_result x)) (fst (pl_run role (''unload'' # n # rest) now h)) =
     Some (if n = [] then 2 else if role = Viewer \<or> call_fails (fst (kernel_unregisterModule n h)) then 1 else 0)"
  by (cases "kernel_unregisterModule n h"; cases "fst (kernel_unregisterModule n h)")
    (simp_all add: pl_run_def handler_simps can_unregister)

lemma plugins_handler_code:
  "map_option (\<lambda>x. exit_code (as_result x)) (fst (pl_run role args now h)) = Some (plugins_code role args h)"
proof (cases "\<exists>n rest. args = ''unload'' # n # rest")
  case True
  then obtain n rest where e: "args = ''unload'' # n # rest" by blast
  show ?thesis unfolding e unload_code by (simp add: plugins_code_def)
next
  case False
  then show ?thesis
    by (cases args; cases "tl args") (auto simp: pl_run_def plugins_code_def handler_simps role_cases Let_def)
qed

lemma start_code:
  "map_option exit_code (fst (run_handler role cl_startCommand args now h)) =
     Some (if role = Viewer then 3 else if call_fails (fst (start now h)) then 1 else 0)"
  by (cases "start now h"; cases "fst (start now h)")
    (simp_all add: run_handler_alt cl_startCommand_def handler_simps can_unregister)

lemma stop_code:
  "fst (run_handler role cl_stopCommand args now h) = Some r \<Longrightarrow> exit_code r =
     (if role = Viewer then 3 else (case fst (stop now h) of Some r \<Rightarrow> if call_fails r then 1 else 0 | None \<Rightarrow> 0))"
  by (cases "stop now h"; cases "fst (stop now h)"; cases "the (fst (stop now h))")
    (auto simp: run_handler_alt cl_stopCommand_def handler_simps can_unregister split: if_splits)

lemma reading_codes:
  "c \<in> {cl_statusCommand, cl_healthCommand, cl_configCommand, cl_versionCommand} \<Longrightarrow>
     map_option exit_code (fst (run_handler role c args now h)) = Some 0"
  by (auto simp: run_handler_alt cl_statusCommand_def cl_healthCommand_def cl_configCommand_def cl_versionCommand_def
      handler_simps role_cases split: prod.split)

lemma plugins_result_code:
  "map_option exit_code (fst (run_handler role cl_pluginsCommand args now h)) = Some (plugins_code role args h)"
  using plugins_handler_code [of role args now h]
  by (simp add: run_handler_alt cl_pluginsCommand_def option.map_comp comp_def)

lemma handler_code:
  assumes "c \<in> set cl_default_commands" and "run_handler role c args now h = (Some result, h')"
  shows "exit_code result = expected_code role now False (kl_name c # args) h"
proof -
  have f: "fst (run_handler role c args now h) = Some result" using assms(2) by simp
  consider "c = cl_startCommand" | "c = cl_stopCommand" | "c = cl_pluginsCommand"
    | "c \<in> {cl_statusCommand, cl_healthCommand, cl_configCommand, cl_versionCommand}"
    using assms(1) by (auto simp: cl_default_commands_def)
  then show ?thesis
  proof cases
    case 1
    with f start_code [of role args now h] show ?thesis
      by (simp add: expected_code_def default_names_def) (simp add: cl_startCommand_def)
  next
    case 2
    with f stop_code [of role args now h] show ?thesis
      by (simp add: expected_code_def default_names_def) (simp add: cl_stopCommand_def)
  next
    case 3
    with f plugins_result_code [of role args now h] show ?thesis
      by (simp add: expected_code_def default_names_def) (simp add: cl_pluginsCommand_def)
  next
    case 4
    then have "kl_name c \<in> {''status'', ''health'', ''config'', ''version''}"
      by (auto simp: cl_statusCommand_def cl_healthCommand_def cl_configCommand_def cl_versionCommand_def)
    with f reading_codes [OF 4, of role args now h] show ?thesis
      by (auto simp: expected_code_def default_names_def)
  qed
qed

text \<open>
  An initialized command line gives exactly the exit codes of a reference function: 0 for success,
  help, and the health of whatever modules; 2 without a command, for unknown ones and
  bad use of plugins; 3 for a viewer who starts or stops the kernel; 1 for every error of the kernel, also one of its
  phase, and for a viewer who unloads a plugin. The other documented codes are never given.
\<close>

theorem cli_exit_codes:
  assumes "cl_registry a = Some buildDefaultRegistry" and "cl_role a = Some role"
    and "dispatchInternal now d argv a h = (answer, a', h')" and "answer \<noteq> None"
  shows "\<exists>r. answer = Some (Inr r) \<and> cd_exitCode r \<in> {0, 1, 2, 3} \<and>
    cd_exitCode r = expected_code role now (pa_help (parseArgs argv)) (pa_positional (parseArgs argv)) h"
proof -
  let ?p = "parseArgs argv"
  have codes: "expected_code role now hlp pos h \<in> {0, 1, 2, 3}" for hlp pos
    by (simp add: expected_code_def plugins_code_def split: list.split option.split)
  have "\<exists>r. answer = Some (Inr r) \<and> cd_exitCode r = expected_code role now (pa_help ?p) (pa_positional ?p) h"
  proof (cases "pa_positional ?p")
    case Nil
    then show ?thesis using assms by (auto simp: dispatchInternal_def expected_code_def usage_result_def Let_def)
  next
    case (Cons n rest)
    show ?thesis
    proof (cases "jm_get buildDefaultRegistry n")
      case None
      then have "n \<notin> set default_names" by (simp add: default_names_known map_of_eq_None_iff)
      then show ?thesis using assms Cons None
        by (auto simp: dispatchInternal_def expected_code_def usage_result_def Let_def)
    next
      case (Some c)
      then have c: "c \<in> set cl_default_commands" "kl_name c = n" by (auto simp: default_registry dest!: map_of_SomeD)
      then have n: "n \<in> set default_names" unfolding default_names_known default_registry by (auto simp: image_iff)
      show ?thesis
      proof (cases "pa_help ?p")
        case True
        then show ?thesis using assms Cons Some n
          by (auto simp: dispatchInternal_def expected_code_def renderCommandHelp_def Let_def)
      next
        case False
        obtain res h1 where r: "run_handler role c rest now h = (res, h1)" by fastforce
        with assms Cons Some False obtain result where "res = Some result"
          by (cases res) (auto simp: dispatchInternal_def handleCommand_def Let_def)
        with r handler_code [OF c(1)] c(2) assms Cons Some False show ?thesis
          by (auto simp: dispatchInternal_def handleCommand_def Let_def)
      qed
    qed
  qed
  with codes show ?thesis by metis
qed

definition sample_cli :: cli_adapter where
  "sample_cli = cl_initialize Viewer None createCliAdapter"

lemma sample_cli_fields: "cl_registry sample_cli = Some buildDefaultRegistry" "cl_role sample_cli = Some Viewer"
  by (simp_all add: sample_cli_def cl_initialize_def createCliAdapter_def Let_def)

lemma cli_exit_codes_witness:
  "\<exists>r s. dispatchInternal 5 1 [''plugins'', ''unload'', ''m'', ''--json''] sample_cli running_kernel = (Some (Inr r), s)
     \<and> cd_exitCode r = 1"
proof -
  let ?argv = "[''plugins'', ''unload'', ''m'', ''--json'']"
  have p: "pa_positional (parseArgs ?argv) = [''plugins'', ''unload'', ''m'']" "\<not> pa_help (parseArgs ?argv)"
    by code_simp+
  obtain answer a' h' where d: "dispatchInternal 5 1 ?argv sample_cli running_kernel = (answer, a', h')"
    by (metis surj_pair)
  have "fst (kl_handler cl_pluginsCommand Viewer [''unload'', ''m''] 5 running_kernel) \<noteq> None"
    by (simp add: cl_pluginsCommand_def pl_run_def require_action_def role_cases)
  then have "answer \<noteq> None"
    using d p sample_cli_fields
    by (auto simp: dispatchInternal_def handleCommand_def run_handler_alt default_registry cl_default_commands_def
        default_commands pl_run_def require_action_def role_cases Let_def)
  from cli_exit_codes [OF sample_cli_fields d this] obtain r where
    "answer = Some (Inr r)" "cd_exitCode r = expected_code Viewer 5 False [''plugins'', ''unload'', ''m''] running_kernel"
    using p by auto
  with d show ?thesis by (simp add: expected_code_def default_names_def plugins_code_def)
qed

subsection \<open>The prompt\<close>

lemma positional_kept: "\<exists>ws. pa_positional (fold parse_token ts p) = pa_positional p @ ws"
proof (induction ts arbitrary: p)
  case (Cons t ts)
  have "\<exists>ws. pa_positional (parse_token t p) = pa_positional p @ ws"
    by (simp add: parse_token_def set_flag_def Let_def)
  with Cons [of "parse_token t p"] show ?case by fastforce
qed simp

lemma rtrim_prefix: "\<exists>ws. x = rev (dropWhile is_white (rev x)) @ ws \<and> list_all is_white ws"
proof -
  have "x = rev (dropWhile is_white (rev x)) @ rev (takeWhile is_white (rev x))"
    by (metis rev_append rev_rev_ident takeWhile_dropWhile_id)
  then show ?thesis by (metis list_all_iff list_all_rev set_takeWhileD)
qed

definition word :: string where
  "word = ''agent-os>''"

lemma solid_word: "\<forall>c \<in> set word. \<not> is_white c" "word \<noteq> []" "PROMPT = word @ '' ''"
  by (simp_all add: word_def is_white_def PROMPT_def)

lemma spoiled_line:
  obtains "trim (PROMPT @ t) = word" | y where "trim (PROMPT @ t) = word @ CHR '' '' # y"
proof -
  have "\<not> is_white (hd (word @ x))" for x using solid_word by (cases word) auto
  then have 1: "dropWhile is_white (word @ x) = word @ x" for x using solid_word(2)
    by (simp add: dropWhile_eq_self_iff)
  have 2: "trim (PROMPT @ t) = rev (dropWhile is_white (rev ('' '' @ t) @ rev word))"
    by (simp add: trim_def 1 solid_word(3))
  show ?thesis
  proof (cases "dropWhile is_white (rev ('' '' @ t))")
    case Nil
    then have "dropWhile is_white (rev ('' '' @ t) @ rev word) = dropWhile is_white (rev word)"
      by (metis dropWhile_append dropWhile_eq_Nil_conv)
    also have "\<dots> = rev word" using solid_word by (simp add: dropWhile_eq_self_iff hd_rev)
    finally show ?thesis using 2 that(1) by simp
  next
    case (Cons c r)
    then have "dropWhile is_white (rev ('' '' @ t) @ rev word) = (c # r) @ rev word"
      by (metis dropWhile_append dropWhile_eq_Nil_conv list.distinct(1))
    moreover obtain ws where e: "'' '' @ t = rev (c # r) @ ws" using rtrim_prefix [of "'' '' @ t"] Cons by auto
    obtain z y where z: "rev (c # r) = z # y" by (metis list.exhaust list.distinct(1) rev_is_Nil_conv)
    then have "rev (c # r) = CHR '' '' # y" using e unfolding z by simp
    ultimately show ?thesis using 2 that(2) by simp
  qed
qed

lemma spoiled_words: "\<exists>ws. split_white (trim (PROMPT @ t)) = word # ws"
proof -
  have d: "dropWhile (\<lambda>c. \<not> is_white c) word = []" "takeWhile (\<lambda>c. \<not> is_white c) word = word"
    using solid_word(1) by (simp_all add: takeWhile_eq_all_conv)
  have w: "is_white (CHR '' '')" by (simp add: is_white_def)
  show ?thesis
    by (rule spoiled_line [of t]; subst split_white.simps)
      (use solid_word(1) in \<open>simp_all add: d w dropWhile_append takeWhile_append\<close>)
qed

text \<open>
  In the interactive mode the prompt is written to the input instead of the screen: once a line was blank
  or was run, every further line typed, even exit, is taken for the unknown command agent-os>. It is answered with
  the exit code 2, changes nothing, and the session does not end.
\<close>

theorem prompt_spoils_input:
  assumes "cl_registry a = Some r" and "jm_get r ''agent-os>'' = None"
  shows "\<exists>outs. runInteractive PROMPT code ls a h = (Reading (if ls = [] then code else 2), outs, a, h)"
proof (induction ls arbitrary: code)
  case (Cons l ls)
  obtain now d t where l: "l = (now, d, t)" by (cases l)
  let ?x = "trim (PROMPT @ t)"
  have ne: "?x \<noteq> []" "?x \<noteq> ''exit''" "?x \<noteq> ''quit''" "?x \<noteq> ''help''"
    by (rule spoiled_line [of t]; simp add: word_def)+
  obtain ws where ws: "split_white ?x = word # ws" using spoiled_words by blast
  obtain vs where vs: "pa_positional (parseArgs (word # ws)) = word # vs"
    using positional_kept [of ws "parse_token word \<lparr>pa_positional = [], pa_flags = [], pa_json = False, pa_help = False\<rparr>"]
    by (auto simp: parseArgs_def parse_token_def word_def)
  have unknown: "\<exists>res. dispatchInternal now d (split_white ?x) a h = (Some (Inr res), a, h) \<and> cd_exitCode res = 2"
    using assms by (simp add: ws dispatchInternal_def vs Let_def) (simp add: word_def usage_result_def)
  from Cons [of 2] obtain outs where "runInteractive PROMPT 2 ls a h = (Reading 2, outs, a, h)" by (auto split: if_splits)
  with unknown ne show ?case by (auto simp: l Let_def)
qed simp

lemma prompt_spoils_input_witness:
  "\<exists>outs s. runInteractive [] 0 [(5, 1, ''version''), (6, 1, ''exit''), (7, 1, ''quit'')] sample_cli running_kernel =
     (Reading 2, outs, s)"
proof -
  have w: "trim ''version'' = ''version''" "split_white ''version'' = [''version'']"
    "pa_positional (parseArgs [''version'']) = [''version'']" "\<not> pa_help (parseArgs [''version''])"
    by code_simp+
  obtain res a' where d: "dispatchInternal 5 1 [''version''] sample_cli running_kernel = (Some (Inr res), a', running_kernel)"
    "cl_registry a' = Some buildDefaultRegistry"
    using sample_cli_fields w(3,4)
    by (simp add: dispatchInternal_def handleCommand_def run_handler_alt default_registry cl_default_commands_def
        default_commands cli_value_def role_cases Let_def)
  have "jm_get buildDefaultRegistry ''agent-os>'' = None"
    by (simp add: default_registry cl_default_commands_def default_commands)
  from prompt_spoils_input [OF d(2) this, of "cd_exitCode res" "[(6, 1, ''exit''), (7, 1, ''quit'')]" running_kernel]
  obtain outs where r: "runInteractive PROMPT (cd_exitCode res) [(6, 1, ''exit''), (7, 1, ''quit'')] a' running_kernel =
      (Reading 2, outs, a', running_kernel)" by auto
  have "\<exists>out. runInteractive [] 0 ((5, 1, ''version'') # ls) sample_cli running_kernel =
      (case runInteractive PROMPT (cd_exitCode res) ls a' running_kernel of (e, o', s) \<Rightarrow> (e, out @ o', s))" for ls
    by (rule exI [of _ "[To_stdout (rr_stdout (cd_rendered res)), To_stderr (rr_stderr (cd_rendered res)), To_readline PROMPT]"])
      (simp add: w(1,2) d(1) Let_def split: prod.split)
  from this [of "[(6, 1, ''exit''), (7, 1, ''quit'')]"] show ?thesis unfolding r by auto
qed

subsection \<open>Roles and secrets\<close>

lemma conceal_unregister: "kernel_unregisterModule n (conceal x h) = concealed x (kernel_unregisterModule n h)"
proof -
  have "(conceal x h)\<lparr>registry := reg\<rparr> = conceal x (h\<lparr>registry := reg\<rparr>)" for reg
    by (simp add: conceal_def' with_secrets_def)
  then show ?thesis
    by (simp add: kernel_unregisterModule_def assertPhase_def split: option.split prod.split)
qed

lemma conceal_cli_redact: "cli_redact (config (conceal x h)) = cli_redact (config h)"
  by (simp add: cli_redact_def conceal_def' with_secrets_def)

lemma cli_conceal:
  assumes "c \<in> set cl_default_commands"
  shows "kl_handler c role args now (conceal x h) = concealed x (kl_handler c role args now h)"
  using assms
  by (auto simp: cl_default_commands_def default_commands pl_run_def require_action_def phase_object_def conceal_simps
      conceal_phase conceal_unregister conceal_cli_redact Let_def split: prod.split sum.split option.split list.split)

lemma cli_viewer_same:
  assumes "c \<in> set cl_default_commands"
  shows "same_kernel h (snd (run_handler Viewer c args now h))"
  using assms
  by (auto simp: cl_default_commands_def default_commands run_handler_alt pl_run_def require_action_def role_cases
      usageError_def same_kernel_def kernel_health_def Let_def split: prod.split list.split)

text \<open>A viewer can neither start nor stop the kernel, nor take a module out of it.\<close>

definition cl_role_of :: "string list \<Rightarrow> cli_adapter \<Rightarrow> kernel_role" where
  "cl_role_of argv a = override Viewer (cl_role a)"

definition cl_sound :: "cli_adapter \<Rightarrow> bool" where
  "cl_sound a \<longleftrightarrow> (case cl_registry a of None \<Rightarrow> True | Some r \<Rightarrow> r = buildDefaultRegistry)"

lemma handleCommand_keeps:
  "cl_role (fst (snd (handleCommand now d cmd p a h))) = cl_role a"
  "cl_registry (fst (snd (handleCommand now d cmd p a h))) = cl_registry a"
  by (simp_all add: handleCommand_def Let_def split: option.split prod.split)

lemma dispatchInternal_keeps:
  "cl_role (fst (snd (dispatchInternal now d argv a h))) = cl_role a"
  "cl_registry (fst (snd (dispatchInternal now d argv a h))) = cl_registry a"
  by (simp_all add: dispatchInternal_def handleCommand_keeps Let_def split: option.split list.split)

lemma handleCommand_viewer:
  assumes "cmd \<in> set cl_default_commands" and "override Viewer (cl_role a) = Viewer"
  shows "same_kernel h (snd (snd (handleCommand now d cmd p a h)))"
  using assms(2) cli_viewer_same [OF assms(1), of h "pa_positional p" now]
  by (auto simp: handleCommand_def Let_def split: option.splits prod.splits)

interpretation cli_gate: gated_dispatcher dispatchInternal cl_role_of cl_sound
proof
  fix a :: cli_adapter and argv h now d
  assume a: "cl_sound a" and v: "cl_role_of argv a = Viewer"
  have "same_kernel h (snd (snd (handleCommand now d c p a h)))" if "jm_get buildDefaultRegistry n = Some c" for n c p
    using that v by (intro handleCommand_viewer) (auto simp: default_registry cl_role_of_def dest!: map_of_SomeD)
  then show "same_kernel h (snd (snd (dispatchInternal now d argv a h)))"
    using a by (auto simp: dispatchInternal_def cl_sound_def Let_def split: option.split list.split)
qed (simp_all add: cl_role_of_def cl_sound_def dispatchInternal_keeps)

end
