(* ===== verification/ChatFacts.thy ===== *)
theory ChatFacts
  imports TelegramAdapter WhatsAppAdapter EmailAdapter DiscordAdapter McpAdapter CliAdapter
begin

text \<open>
  What the adapters to Telegram, WhatsApp, mail, Discord, MCP and the command line guarantee together: metrics are exact
  under every interleaving, viewers never change the kernel, and only mail reveals the secrets of
  the configuration. Then what single adapters do with prefixes of subjects, failed checks and operations.
\<close>

subsection \<open>Metrics\<close>

text \<open>
  C37: However the calls of a dispatcher arrive and settle, and whatever their handlers answer or throw, the
  counter of requests of the adapters to Telegram, WhatsApp, mail, Discord and, with a resolver of roles that never
  throws, MCP is the number of calls, and its gauge the
  number of those whose handler is running. Telegram, WhatsApp and mail count each
  answered call once, as a command or as an error.
\<close>

theorem chat_metrics_exact:
  assumes "chat_steps tg_arrive tg_settle (new_run (new_telegram ti)) t"
    and "chat_steps wa_arrive wa_settle (new_run (new_whatsapp wi)) w"
    and "chat_steps em_arrive em_settle (new_run (new_email ei)) e"
    and "chat_steps dc_arrive dc_settle (new_run (new_discord_state di)) d"
    and "chat_steps (mc_arrive (resolver_total mi f)) mc_settle (new_run (new_mcp mi)) m"
  shows "(requests_exact t \<and> answers_exact t) \<and> (requests_exact w \<and> answers_exact w)
    \<and> (requests_exact e \<and> answers_exact e) \<and> requests_exact d \<and> requests_exact m"
  using telegram_calls.answers_counted_exactly [OF assms(1) new_telegram_fresh]
    whatsapp_calls.answers_counted_exactly [OF assms(2) new_whatsapp_fresh]
    email_calls.answers_counted_exactly [OF assms(3) new_email_fresh]
    discord_calls.requests_counted_exactly [OF assms(4) new_discord_fresh]
    mcp_calls.requests_counted_exactly [OF assms(5) new_mcp_fresh] by blast

definition sample_telegram :: telegram_init where
  "sample_telegram = \<lparr>ti_botToken = ''t'', ti_adminUserIds = [''7''], ti_webhookUrl = None, ti_metricRegistry = None\<rparr>"

definition sample_whatsapp :: whatsapp_init where
  "sample_whatsapp = \<lparr>wi_webhookSecret = ''s'', wi_adminPhoneNumbers = [''+1''], wi_metricRegistry = None\<rparr>"

definition sample_email :: email_init where
  "sample_email = \<lparr>ei_mode = Ses_webhook, ei_adminEmails = [''a@b''], ei_commandPrefix = [], ei_imap = None, ei_ses = None,
     ei_metricRegistry = None\<rparr>"

definition sample_discord :: discord_init where
  "sample_discord = \<lparr>di_botToken = ''t'', di_guildId = ''g'', di_adminUserIds = [''7''], di_metricRegistry = None\<rparr>"

definition sample_mcp :: mcp_init where
  "sample_mcp = \<lparr>mi_transport = ''stdio'', mi_serverName = ''agent-os'', mi_serverVersion = ''1.0.0'',
     mi_resolveRole = Some (\<lambda>n. Inr Viewer), mi_metricRegistry = None\<rparr>"

lemma chat_metrics_exact_witness:
  "\<exists>w :: whatsapp_adapter chat_run. cr_arrived w = 1 \<and> cr_answered w = 1 \<and> requests_exact w \<and> answers_exact w \<and>
     chat_errors (cr_adapter w) + chat_commands (cr_adapter w) = 1"
proof -
  define a where "a = new_whatsapp sample_whatsapp"
  have "wa_arrive (''+1'', ''stop'') (cr_adapter (new_run a)) = (Inl (wa_fail not_started), chat_failed (chat_arrive a))"
    by (simp add: wa_arrive_def new_run_def a_def new_whatsapp_def Let_def)
  then have "chat_step wa_arrive wa_settle (new_run a) ((new_run a)
      \<lparr>cr_adapter := chat_failed (chat_arrive a), cr_arrived := 1, cr_answered := 1\<rparr>)"
    using chat_step.answers [where arrive = wa_arrive and settle = wa_settle and s = "new_run a"] by (fastforce simp: new_run_def)
  then have w: "chat_steps wa_arrive wa_settle (new_run (new_whatsapp sample_whatsapp)) ((new_run a)
      \<lparr>cr_adapter := chat_failed (chat_arrive a), cr_arrived := 1, cr_answered := 1\<rparr>)"
    by (simp add: a_def)
  from chat_metrics_exact [OF rtranclp.rtrancl_refl w rtranclp.rtrancl_refl rtranclp.rtrancl_refl rtranclp.rtrancl_refl,
      of sample_telegram sample_email sample_discord sample_mcp]
  show ?thesis
    by - (rule exI [of _ "(new_run a)\<lparr>cr_adapter := chat_failed (chat_arrive a), cr_arrived := 1, cr_answered := 1\<rparr>"],
      simp add: answers_exact_def add.commute)
qed

subsection \<open>Permissions\<close>

text \<open>
  C38: Whatever the messages of senders that are not administrators, and in whatever order they are
  handled, none of the adapters to Telegram, WhatsApp, mail and Discord, nor the command line of a viewer, nor MCP for
  callers its resolver takes for viewers, changes the kernel: its lifecycle, modules, configuration and
  calls of \<open>stop\<close> in progress stay the same, only the cache of health reports may change. Without a
  resolver, which is the default, MCP admits every caller to every tool, start and stop included.
\<close>

theorem viewers_never_control:
  assumes "\<forall>(now, d, u) \<in> set us. userIdOf u \<notin> set (ca_admins ta)"
    and "\<forall>(now, d, m) \<in> set ws. fst m \<notin> set (ca_admins wa)"
    and "\<forall>(now, d, m) \<in> set es. toLowerCase (trim (fst m)) \<notin> (\<lambda>e. toLowerCase (trim e)) ` set (ca_admins ea)"
    and "ds_commands ds = dc_buildCommandList"
    and "\<forall>(now, d, m) \<in> set is. fst (fst m) \<notin> set (ca_admins ds)"
    and "mi_resolveRole mi = Some f" and "\<forall>(now, d, n) \<in> set ms. f n = Inr Viewer"
    and "mi_resolveRole unset = None"
  shows "same_kernel h (snd (chat_session tg_update us (ta, h))) \<and> same_kernel h (snd (chat_session wa_handleMessage ws (wa, h)))
    \<and> same_kernel h (snd (chat_session em_handleMessage es (ea, h)))
    \<and> same_kernel h (snd (chat_session dc_dispatchInteraction is (ds, h)))
    \<and> same_kernel h (snd (chat_session dispatchInternal cs (cl_initialize Viewer reg createCliAdapter, h)))
    \<and> same_kernel h (snd (chat_session (mc_request mi) ms (mc_initialize mi (new_mcp mi), h)))
    \<and> (\<forall>tool \<in> set ALL_TOOLS. fst (mc_arrive unset tool ma) = Inr tool)"
proof (intro conjI)
  show "same_kernel h (snd (chat_session tg_update us (ta, h)))"
    using assms(1) by (intro telegram_gate.viewers_change_nothing) (auto simp: tg_role_of_def chat_roleFor_def)
  show "same_kernel h (snd (chat_session wa_handleMessage ws (wa, h)))"
    using assms(2) by (intro whatsapp_gate.viewers_change_nothing) (auto simp: wa_role_of_def chat_roleFor_def)
  show "same_kernel h (snd (chat_session em_handleMessage es (ea, h)))"
    using assms(3) by (intro email_gate.viewers_change_nothing) (fastforce simp: em_role_of_def em_roleFor_def image_iff)+
  show "same_kernel h (snd (chat_session dc_dispatchInteraction is (ds, h)))"
    using assms(4,5)
    by (intro discord_gate.viewers_change_nothing) (auto simp: dc_role_of_def dc_sound_def chat_roleFor_def)
  show "same_kernel h (snd (chat_session dispatchInternal cs (cl_initialize Viewer reg createCliAdapter, h)))"
    by (intro cli_gate.viewers_change_nothing)
      (auto simp: cl_sound_def cl_role_of_def cl_initialize_def createCliAdapter_def Let_def)
  show "same_kernel h (snd (chat_session (mc_request mi) ms (mc_initialize mi (new_mcp mi), h)))"
    using assms(6,7)
    by (intro mcp_gate.viewers_change_nothing)
      (auto simp: mc_sound_def mc_role_of_def resolveRole_def mc_initialize_def new_mcp_def Let_def)
  show "\<forall>tool \<in> set ALL_TOOLS. fst (mc_arrive unset tool ma) = Inr tool"
    by (simp add: default_admits [OF assms(8)])
qed

definition stop_attempts :: "(instant \<times> rat \<times> string \<times> string) list" where
  "stop_attempts = [(5, 1, ''+2'', ''stop''), (6, 1, ''+2'', '' START now''), (7, 1, ''+2'', ''health'')]"

lemma viewers_never_control_witness:
  "kernel_phase (snd (chat_session wa_handleMessage stop_attempts
      (wa_start (new_whatsapp sample_whatsapp), running_kernel))) = kernel_phase running_kernel \<and>
   kernel_phase (snd (chat_session (mc_request sample_mcp) [(5, 1, ''stop'')]
      (mc_initialize sample_mcp (new_mcp sample_mcp), running_kernel))) = kernel_phase running_kernel"
proof -
  have admins: "ca_admins (wa_start (new_whatsapp sample_whatsapp)) = [''+1'']"
    by (simp add: wa_start_def new_whatsapp_def sample_whatsapp_def Let_def)
  have ds: "ds_commands (new_discord_state sample_discord) = dc_buildCommandList" by (simp add: new_discord_state_def Let_def)
  have mi: "mi_resolveRole sample_mcp = Some (\<lambda>n. Inr Viewer)" by (simp add: sample_mcp_def)
  have "mi_resolveRole (sample_mcp\<lparr>mi_resolveRole := None\<rparr>) = None" by simp
  from viewers_never_control [of "[]" "new_telegram sample_telegram" stop_attempts "wa_start (new_whatsapp sample_whatsapp)"
      "[]" "new_email sample_email" "new_discord_state sample_discord" "[]" sample_mcp _ "[(5, 1, ''stop'')]"
      "sample_mcp\<lparr>mi_resolveRole := None\<rparr>" running_kernel "[]" None "new_mcp sample_mcp", OF _ _ _ ds _ mi _ this]
  have "same_kernel running_kernel (snd (chat_session wa_handleMessage stop_attempts
      (wa_start (new_whatsapp sample_whatsapp), running_kernel)))"
    "same_kernel running_kernel (snd (chat_session (mc_request sample_mcp) [(5, 1, ''stop'')]
      (mc_initialize sample_mcp (new_mcp sample_mcp), running_kernel)))"
    unfolding admins by (simp_all add: stop_attempts_def)
  then show ?thesis by (simp add: same_kernel_phase)
qed

subsection \<open>Secrets\<close>

lemma conceal_rows: "config_rows (redactHermesConfig (config (conceal x h))) = config_rows (redactHermesConfig (config h))"
  by (simp add: conceal_redacted)

lemmas conceal_chat = conceal_simps conceal_phase conceal_rows tg_formatConfigMessage_def tg_redactConfig_def
  wa_formatConfigMessage_def wa_redactConfig_def dc_formatConfigMessage_def dc_redactConfig_def dc_read_def
  start_handler_def stop_handler_def status_handler_def health_handler_def modules_handler_def config_handler_def
  fixed_handler_def

text \<open>
  C39: Telegram, WhatsApp, Discord, MCP and the command line answer every command alike on kernels that differ only in the three
  secrets of the configuration. Mail does not: once it is started, the reply to the subject
  config, which any sender gets, has the key, and both addresses, as they are.
\<close>

theorem only_mail_reveals_secrets:
  assumes "tc \<in> set tg_COMMANDS" and "wc \<in> set wa_COMMANDS" and "dc \<in> set dc_command_list"
    and "tool \<in> set ALL_TOOLS" and "lc \<in> set cl_default_commands"
    and "ca_started a" and "ei_commandPrefix (ex_init a) = []"
  shows "fst (kc_handler tc now (conceal x h)) = fst (kc_handler tc now h)
    \<and> fst (kc_handler wc now (conceal x h)) = fst (kc_handler wc now h)
    \<and> fst (kc_handler dc now (conceal x h)) = fst (kc_handler dc now h)
    \<and> fst (kc_handler tool now (conceal x h)) = fst (kc_handler tool now h)
    \<and> fst (kl_handler lc role args now (conceal x h)) = fst (kl_handler lc role args now h)
    \<and> (\<exists>reply. fst (em_handleMessage now d (anyone, ''config'') a h) = Some reply
       \<and> (\<forall>secret \<in> {openrouterApiKey (config h), databaseUrl (config h), redisUrl (config h)}.
            includes_str (ex_text reply) secret))"
proof -
  have t: "fst (kc_handler tc now (conceal x h)) = fst (kc_handler tc now h)"
    using assms(1) by (auto simp: tg_COMMANDS_def tg_startCommand_def tg_stopCommand_def tg_statusCommand_def
        tg_healthCommand_def tg_modulesCommand_def tg_configCommand_def tg_versionCommand_def conceal_chat
        split: prod.split sum.split option.split)
  have w: "fst (kc_handler wc now (conceal x h)) = fst (kc_handler wc now h)"
    using assms(2) by (auto simp: wa_COMMANDS_def wa_startCommand_def wa_stopCommand_def wa_statusCommand_def
        wa_healthCommand_def wa_modulesCommand_def wa_configCommand_def wa_versionCommand_def conceal_chat
        split: prod.split sum.split option.split)
  have d: "fst (kc_handler dc now (conceal x h)) = fst (kc_handler dc now h)"
    using assms(3) by (auto simp: dc_command_list_def dc_startCommand_def dc_stopCommand_def dc_statusCommand_def
        dc_healthCommand_def dc_modulesCommand_def dc_configCommand_def dc_versionCommand_def conceal_chat
        split: prod.split sum.split option.split)
  have parse: "parseEmailSubject ''config'' [] = Some \<lparr>pm_command = ''config'', pm_args = []\<rparr>"
    by (code_simp)
  have known: "isKnownCommand ''config''" "find (\<lambda>c. kc_name c = ''config'') em_COMMANDS = Some em_configCommand"
    by (simp_all add: isKnownCommand_def KNOWN_COMMANDS_def em_COMMANDS_def em_startCommand_def em_stopCommand_def
        em_statusCommand_def em_healthCommand_def em_modulesCommand_def em_configCommand_def)
  have can: "can role K_config" for role
    by (cases role) (simp_all add: can_def ADMIN_ACTIONS_def VIEWER_ACTIONS_def)
  have "fst (em_handleMessage now d (anyone, ''config'') a h) = Some (em_formatConfigMessage (config h))"
    using assms(6,7)
    by (simp add: em_handleMessage_def em_arrive_def parse known Let_def check_permission_def requireRole_def can
        run_command_def em_settle_def settle_command_def em_configCommand_def config_handler_def)
  moreover have "includes_str (ex_text (em_formatConfigMessage (config h))) s"
    if "s \<in> {openrouterApiKey (config h), databaseUrl (config h), redisUrl (config h)}" for s
  proof -
    let ?a = "''Hermes Configuration'' @ nl @ ''OPENROUTER_API_KEY: ''"
    let ?b = "nl @ ''DATABASE_URL: ''" and ?c = "nl @ ''REDIS_URL: ''"
    let ?k = "openrouterApiKey (config h)" and ?d = "databaseUrl (config h)" and ?r = "redisUrl (config h)"
    have t: "ex_text (em_formatConfigMessage (config h)) = ?a @ ?k @ ?b @ ?d @ ?c @ ?r"
      by (simp add: em_formatConfigMessage_def email_def)
    have "\<exists>u v. ?a @ ?k @ ?b @ ?d @ ?c @ ?r = u @ ?k @ v" by blast
    moreover have "\<exists>u v. ?a @ ?k @ ?b @ ?d @ ?c @ ?r = u @ ?d @ v" by (metis append.assoc)
    moreover have "\<exists>u v. ?a @ ?k @ ?b @ ?d @ ?c @ ?r = u @ ?r @ v" by (metis append.assoc append_Nil2)
    ultimately show ?thesis using that unfolding t includes_str_iff by blast
  qed
  moreover have "fst (kc_handler tool now (conceal x h)) = fst (kc_handler tool now h)"
    "fst (kl_handler lc role args now (conceal x h)) = fst (kl_handler lc role args now h)"
    by (simp_all add: mcp_conceal [OF assms(4)] cli_conceal [OF assms(5)])
  ultimately show ?thesis using t w d by blast
qed

lemma only_mail_reveals_secrets_witness:
  "\<exists>reply. fst (em_handleMessage 5 1 (''nobody@elsewhere'', ''config'') (em_start (new_email sample_email)) running_kernel) = Some reply
     \<and> includes_str (ex_text reply) (databaseUrl (config running_kernel))"
proof -
  have "tg_startCommand \<in> set tg_COMMANDS" "wa_startCommand \<in> set wa_COMMANDS" "dc_startCommand \<in> set dc_command_list"
    "configTool \<in> set ALL_TOOLS" "cl_configCommand \<in> set cl_default_commands"
    by (simp_all add: tg_COMMANDS_def wa_COMMANDS_def dc_command_list_def ALL_TOOLS_def cl_default_commands_def)
  moreover have "ca_started (em_start (new_email sample_email))" by (simp add: em_start_def new_email_def Let_def)
  moreover have "ei_commandPrefix (ex_init (em_start (new_email sample_email))) = []"
    by (simp add: em_start_def new_email_def sample_email_def Let_def)
  ultimately show ?thesis
    using only_mail_reveals_secrets [of tg_startCommand wa_startCommand dc_startCommand configTool cl_configCommand
        "em_start (new_email sample_email)"
        5 "([], [], [])" running_kernel Admin "[]" 1 "''nobody@elsewhere''"] by blast
qed

subsection \<open>Prefixes of subjects\<close>

text \<open>
  The prefixes are tried once each in a fixed order: a forwarded answer is understood as an
  answer that was forwarded is not. So is a prefix that is repeated.
\<close>

lemma trim_solid: "s \<noteq> [] \<Longrightarrow> \<not> is_white (hd s) \<Longrightarrow> \<not> is_white (last s) \<Longrightarrow> trim s = s"
  by (simp add: trim_def dropWhile_eq_self_iff [THEN iffD2] hd_rev)

lemma trim_blank: "trim (CHR '' '' # s) = trim s"
  by (simp add: trim_def is_white_def)

lemma lower_prefix: "starts_with (toLowerCase (u @ v)) (toLowerCase u)"
  by (simp add: toLowerCase_def lower_char_def starts_with_iff)

lemma prefixes_in_order:
  assumes "body \<noteq> []" and "\<not> is_white (hd body)" and "\<not> is_white (last body)"
    and "\<forall>p \<in> set EMAIL_PREFIXES. \<not> starts_with (toLowerCase body) p"
  shows "stripEmailPrefixes (''Re: '' @ body) = body" and "stripEmailPrefixes (''Re: Fwd: '' @ body) = body"
    and "stripEmailPrefixes (''Fwd: Re: '' @ body) = ''Re: '' @ body"
proof -
  have low: "toLowerCase ''Re:'' = ''re:''" "toLowerCase ''Fwd:'' = ''fwd:''" "toLowerCase ''Fwd: Re: '' = ''fwd: re: ''"
    "toLowerCase ''Re: '' = ''re: ''" by code_simp+
  have b: "trim body = body" using assms(1-3) by (rule trim_solid)
  have blank: "trim ('' '' @ s) = trim s" for s by (simp add: trim_blank)
  have re: "strip_prefix ''re:'' (''Re:'' @ s) = trim s" "strip_prefix ''fwd:'' (''Fwd:'' @ s) = trim s" for s
    using lower_prefix [of "''Re:''" s] lower_prefix [of "''Fwd:''" s] unfolding low by (simp_all add: strip_prefix_def)
  have keep: "trim (''Re:'' @ '' '' @ body) = ''Re: '' @ body" "trim (''Fwd:'' @ '' '' @ body) = ''Fwd: '' @ body"
    using assms(1,3) by (subst trim_solid; simp add: is_white_def)+
  have skip: "\<not> starts_with (toLowerCase (''Fwd: '' @ s)) ''re:''" "\<not> starts_with (toLowerCase (''Fwd: '' @ s)) ''fw:''"
    "\<not> starts_with (toLowerCase (''Re: '' @ s)) ''fw:''" "\<not> starts_with (toLowerCase (''Re: '' @ s)) ''fwd:''"
    "\<not> starts_with (toLowerCase (''Re: '' @ s)) ''aw:''" for s
    by (simp_all add: toLowerCase_def lower_char_def)
  note strips = stripEmailPrefixes_def EMAIL_PREFIXES_def
  show "stripEmailPrefixes (''Re: '' @ body) = body"
    using re(1) [of "'' '' @ body"] assms(4) by (simp add: strips strip_prefix_def b trim_blank)
  show "stripEmailPrefixes (''Re: Fwd: '' @ body) = body"
    using re(1) [of "'' Fwd: '' @ body"] re(2) [of "'' '' @ body"] keep(2) skip(2) [of body] assms(4)
    by (simp add: strips strip_prefix_def b trim_blank)
  show "stripEmailPrefixes (''Fwd: Re: '' @ body) = ''Re: '' @ body"
    using re(2) [of "'' Re: '' @ body"] keep(1) skip [of "''Re: '' @ body"] skip(5) [of body]
    by (simp add: strips strip_prefix_def trim_blank)
qed

lemma forwarded_answer_not_understood:
  "parseEmailSubject ''Re: Fwd: status'' [] = Some \<lparr>pm_command = ''status'', pm_args = []\<rparr>"
  "parseEmailSubject ''Fwd: Re: status'' [] = Some \<lparr>pm_command = ''re:'', pm_args = [] \<rparr>"
  "\<not> isKnownCommand ''re:''"
  by code_simp+

subsection \<open>Operations and commands\<close>

text \<open>
  WhatsApp and mail announce the operation modules and understand plugins instead; WhatsApp tells of a
  command help that it has not.
\<close>

lemma announced_operations:
  "map kc_name tg_COMMANDS = tg_SUPPORTED_OPERATIONS" "map fst dc_buildCommandList = tg_SUPPORTED_OPERATIONS"
  "''modules'' \<in> set wa_SUPPORTED_OPERATIONS" "\<forall>c \<in> set wa_COMMANDS. kc_name c \<noteq> ''modules'' \<and> kc_name c \<noteq> ''help''"
  "''modules'' \<in> set em_SUPPORTED_OPERATIONS" "\<not> isKnownCommand ''modules''"
  by (simp_all add: tg_COMMANDS_def tg_SUPPORTED_OPERATIONS_def dc_buildCommandList_def dc_command_list_def
      wa_SUPPORTED_OPERATIONS_def wa_COMMANDS_def em_SUPPORTED_OPERATIONS_def isKnownCommand_def KNOWN_COMMANDS_def
      tg_startCommand_def tg_stopCommand_def tg_statusCommand_def tg_healthCommand_def tg_modulesCommand_def
      tg_configCommand_def tg_versionCommand_def wa_startCommand_def wa_stopCommand_def wa_statusCommand_def
      wa_healthCommand_def wa_modulesCommand_def wa_configCommand_def wa_versionCommand_def dc_startCommand_def
      dc_stopCommand_def dc_statusCommand_def dc_healthCommand_def dc_modulesCommand_def dc_configCommand_def
      dc_versionCommand_def)

subsection \<open>A failed check of the bot\<close>

datatype telegram_op =
    Initialize "string option" "string option"
  | Start_bot
  | Stop_bot
  | Update instant rat telegram_update

fun tg_apply :: "telegram_op \<Rightarrow> telegram_adapter \<times> hermes \<Rightarrow> telegram_adapter \<times> hermes" where
  "tg_apply (Initialize made checked) (a, h) = (snd (tg_initialize made checked a), h)"
| "tg_apply Start_bot (a, h) = (snd (tg_start a), h)"
| "tg_apply Stop_bot (a, h) = (snd (tg_stop a), h)"
| "tg_apply (Update now d u) (a, h) = snd (tg_update now d u a h)"

definition failed_check :: "string \<Rightarrow> telegram_adapter \<Rightarrow> bool" where
  "failed_check e a \<longleftrightarrow> ta_bot a \<and> ta_transport a = Webhook_transport \<and> ca_lastError a = Some e"

lemma command_never_throws:
  assumes "c \<in> set tg_COMMANDS" and "kc_handler c now h = (Some result, h')"
  shows "\<not> (\<exists>t. result = Command_throws t)"
  using assms
  by (auto simp: tg_COMMANDS_def tg_startCommand_def tg_stopCommand_def tg_statusCommand_def tg_healthCommand_def
      tg_modulesCommand_def tg_configCommand_def tg_versionCommand_def start_handler_def stop_handler_def status_handler_def
      health_handler_def modules_handler_def config_handler_def fixed_handler_def hermes_failed_def
      split: prod.splits sum.splits option.splits)

lemma update_keeps_failure:
  assumes "failed_check e a"
  shows "failed_check e (fst (snd (tg_update now d u a h)))"
proof -
  have states [simp]: "failed_check e (chat_arrive a) = failed_check e a" "failed_check e (chat_failed a) = failed_check e a"
    "failed_check e (chat_succeeded d a) = failed_check e a" for a :: telegram_adapter and d
    by (simp_all add: failed_check_def chat_arrive_def chat_failed_def chat_leave_def chat_succeeded_def Let_def)
  have "failed_check e (fst (snd (tg_dispatchCommand now d u c a h)))" if c: "c \<in> set tg_COMMANDS" for c
  proof -
    have "failed_check e (snd (tg_arrive (u, c) a))" "fst (tg_arrive (u, c) a) = Inr c' \<longrightarrow> c' = c" for c'
      using assms by (auto simp: tg_arrive_def check_permission_def split: sum.split kernel_exn.split)
    moreover have "failed_check e (snd (tg_settle d result b))"
      if "kc_handler c now h = (Some result, h')" "failed_check e b" for result h' b
      using command_never_throws [OF c that(1)] that(2) by (cases result) (auto simp: tg_settle_def settle_command_def)
    ultimately show ?thesis
      by (auto simp: tg_dispatchCommand_def run_command_def split: prod.splits sum.splits option.splits, metis snd_conv)
  qed
  then show ?thesis using assms by (auto simp: tg_update_def split: option.split dest: found_command)
qed

text \<open>
  When the check of the token fails once in webhook mode, the adapter can still be started and serves
  updates, calling \<open>initialize\<close> again succeeds without a check, and its health is failed for good.
\<close>

lemma failed_check_sticks:
  assumes "ta_transport a = Webhook_transport" and "\<not> ta_bot a" and "e \<noteq> []"
    and "tg_initialize None (Some e) a = (r, a1)" and "(a2, h2) = fold tg_apply ops (a1, h)"
  shows "r = Inl e" and "tg_initialize made checked a2 = (Inr (), a2)" and "fst (tg_start a2) = Inr False"
    and "ah_status (tg_health now a2) = A_failed"
proof -
  have 1: "r = Inl e" "failed_check e a1"
    using assms(1,2,4) by (auto simp: tg_initialize_def failed_check_def Let_def)
  have "failed_check e (fst (fold tg_apply ops (b, k)))" if "failed_check e b" for b k
    using that
  proof (induction ops arbitrary: b k)
    case (Cons x ops)
    have "failed_check e (fst (tg_apply x (b, k)))"
      using Cons.prems update_keeps_failure [OF Cons.prems]
      by (cases x) (auto simp: failed_check_def tg_initialize_def tg_start_def tg_stop_def)
    then show ?case using Cons.IH by (metis fold_simps(2) prod.collapse)
  qed simp
  from this [OF 1(2), of h] assms(5) have 2: "failed_check e a2" by (metis fst_conv)
  show "r = Inl e" by (fact 1)
  show "tg_initialize made checked a2 = (Inr (), a2)" using 2 by (simp add: failed_check_def tg_initialize_def)
  show "fst (tg_start a2) = Inr False" using 2 by (simp add: failed_check_def tg_start_def)
  show "ah_status (tg_health now a2) = A_failed" using 2 assms(3) by (simp add: failed_check_def tg_health_def)
qed

end
