(* ===== verification/Spec2Isabelle.thy ===== *)
theory Spec2Isabelle
  imports ExecAnomalies ExecEngine ExecHistory PlanEngine ToolExecutor ToolValidation HermesShutdown HermesPlugins HermesContainer MemoryManager PluginLifecycle PluginConfig PluginPlatformFacts GraphStoreFacts RuntimeOutcome RuntimeHealth LlmFacts ApiFacts Serializers Webhook ChatFacts
begin

text \<open>
  Agent OS is a TypeScript monorepo: a kernel that hosts modules and runs plans, packages for
  planning and tool calls, memory, plugins, a knowledge graph and process readiness, and adapters to chat,
  mail and HTTP. This development models the logic of its packages as HOL functions and step
  relations, translated from the sources under src/packages, and proves what makes each part
  correct, or how it fails to be.

  \<^bold>\<open>How the parts interact.\<close> A goal goes to the execution engine, which asks the planning engine for
  a plan, validates it and hands it to the execution loop; the loop calls the step executor,
  records results in the context, retries, writes checkpoints and asks for a new plan after
  failures. Planning reads the tool definitions that the tool registry holds, and the tool
  executor runs the calls of a model. The Hermes kernel keeps the modules of the process: its
  lifecycle is shared with the host, its registry orders modules by their dependencies, \<open>stop\<close>
  drains them in reverse, the health monitor probes them. The plugin packages register, start
  and stop plugins under the kernel. The memory manager answers retrieval for planning. The
  runtime package starts and stops the steps of a process around all this, and reports its health.

  \<^bold>\<open>Conventions.\<close> Names are those of the source, changed where they clash. A JavaScript \<open>Map\<close> is
  an association list in insertion order, an unknown value a \<open>jsval\<close>, an optional member an option.
  Strings are lists of characters. Instants are integers and every reading of the clock is an
  argument; doubles are exact rationals or reals. An error is a value: \<open>Inl\<close> of a sum, or an
  option. Code at an \<open>await\<close> is split there: what a promise does, and what other code does
  meanwhile, comes with an event, an argument or the environment. Foreign code (handlers, hooks,
  factories, the file system, generators of identifiers) is a parameter. Log lines are left out.

  \<^bold>\<open>Foundations.\<close> Prelude: maps, decimal printing, the locales \<open>keyed_store\<close>, \<open>status_table\<close> and
  \<open>ranked_table\<close>. JsObjects: property access, \<open>slice\<close>, \<open>includes\<close> and their like.
  Graphs: dependency relations, finished sets of a depth-first search, the locale
  \<open>cycle_checker\<close> with its two providers, the execution validator and the plan validator.

  \<^bold>\<open>Execution\<close> (hermes/src/execution). ExecTypes: ExecutionTypes.ts,
  ExecutionErrors.ts. ExecState: ExecutionState.ts; the transition tables are acyclic, so terminal
  statuses absorb. ExecRetry: ExecutionPolicy.ts and ExecutionRetry.ts. ExecHistory, ExecCheckpoint,
  ExecEvents, ExecContext, ExecValidator: the files of these names. ExecLoop: ExecutionLoop.ts, a function of
  the environment and of fuel; ExecLoopFacts holds the frame and invariant lemmas, ExecSafety the
  status at return and the bounds on restarts, ExecProgress that fuel beyond the number of steps
  times the allowed attempts suffices without a replanner and pauses, and that some fuel settles the call
  when other code ends every pause, ExecReliable the runs in
  which every step succeeds, ExecAnomalies the surprises. ExecEngine: ExecutionEngine.ts.

  \<^bold>\<open>Planning and tools\<close> (llm/src/planning, llm/src/tools). PlanTypes, PlanStrategy,
  PlanValidator, PlanEngine, PlanSerializer: types.ts, PlanningErrors.ts,
  PlanningStrategy.ts and PlanningContext.ts, PlanningValidator.ts, PlanningEngine.ts,
  PlanSerializer.ts. ToolTypes, ToolRegistry, ToolValidation,
  ToolExecutor: types.ts, ToolRegistry.ts with ToolError.ts, ToolValidation.ts with ToolTranslator.ts, ToolExecutor.ts. This theory composes the execution engine with the planning engine.

  \<^bold>\<open>Kernel\<close> (hermes/src). HermesLifecycle: HermesLifecycle.ts with its queue for re-entering
  handlers. HermesRegistry: HermesModuleRegistry.ts. HermesHealth: HermesHealthMonitor.ts and
  HermesEventDispatcher.ts. HermesKernel: Hermes.ts. HermesPlugins: HermesPluginLoader.ts.
  HermesContainer: HermesContainer.ts. HermesRegistryFacts and HermesLifecycle hold the invariants of the
  registry and the paths of the lifecycle; HermesShutdown interleaves calls of \<open>stop\<close> with one
  another and with the host.

  \<^bold>\<open>Plugins\<close> (plugins/src). PluginLifecycle: types.ts, PluginRegistry.ts, PluginLifecycleManager.ts.
  PluginValidation: PluginMetadataValidator.ts, PluginDependencyValidator.ts. PluginConfig:
  PluginConfigValidator.ts, PluginConfig.ts. PluginPlatform: PluginDiscovery.ts, PluginLoader.ts,
  PluginPlatform.ts. The Facts theories prove the order of hooks under interleaving, that the
  configuration validator decides a typing relation, and what loading all entries does.

  \<^bold>\<open>Memory\<close> (memory/src). MemoryTypes: MemoryTypes.ts, MemoryErrors.ts, MemoryPolicies.ts.
  MemoryStore: MemoryFilters.ts, MemoryProvider.ts, MemoryRegistry.ts and the locale
  \<open>memory_backend\<close>. MemoryRanking, MemoryIndexer: the files of these names. MemoryRetriever: MemoryRetriever.ts and
  MemoryContext.ts. MemoryManager: MemoryManager.ts and MemoryObservability.ts. The manager refines a map.

  \<^bold>\<open>Knowledge graph\<close> (graphiti/src). GraphStore: GraphTypes.ts, GraphitiProvider.ts,
  InMemoryGraphiti.ts; GraphStoreFacts: the locale \<open>graph_provider\<close> over two maps and its
  interpretation, and that \<open>findPath\<close> finds shortest walks.

  \<^bold>\<open>Runtime\<close> (runtime/src). RuntimeStartup: StartupManager.ts and its sort;
  RuntimeStartupRuns the calls under every interleaving, RuntimeOutcome the outcomes of one call.
  RuntimeShutdown: ShutdownManager.ts. RuntimeHealth: HealthManager.ts, RuntimeDiagnostics.ts.

  \<^bold>\<open>Configuration\<close> (config/src, llm/src/config.ts). ConfigSchema: types.ts, ConfigValidator.ts.
  ConfigLoader: ConfigLoader.ts, ConfigProvider.ts, ConfigRegistry.ts; what fits a
  schema, and which source a value comes from. ConfigEnv: where variables of the environment land.
  LlmConfig: the settings of the language models, most of which no variable reaches.

  \<^bold>\<open>Front ends\<close>. CoreAdapter (core/src): kernel-permissions.ts, adapter-errors.ts, adapter-metadata.ts.
  Auth (auth/src): credentials.ts over UTF-8 bytes as 8-bit words, ApiKeyProvider.ts,
  BearerTokenProvider.ts, permissions.ts; the hooks of authPlugin.ts. Observability
  (observability/src): levels, logger, sinks, spans; metrics.ts and adapter-metrics.ts, with the
  locale \<open>instrument_kind\<close>. ApiRoutes (src/apps/api): every route over the kernel, the graph
  and the metrics; ApiFacts: what authentication lets through, what no reply reveals, and that
  the server cannot stop its kernel. Webhook (adapters-webhook/src): routing.ts, signature.ts,
  parser.ts, formats.ts, routes.ts and the pipeline of WebhookAdapter.ts: routing
  and signature check are exact, the metrics count.

  \<^bold>\<open>JSON text\<close>. Json: printing and parsing as the language defines them, with numbers of finitely
  many decimal places and exponents where the language writes them; what is printed parses back. Serializers: the texts of plans
  (PlanSerializer.ts) and of executions (ExecutionSerializer.ts).

  \<^bold>\<open>Language models\<close> (llm/src). LlmTypes: types.ts, chat.ts, embeddings.ts, tokens.ts, errors.ts,
  mapping.ts, streaming.ts. LlmProviders: MockProvider.ts, OpenAIProvider.ts over a client that is
  an argument, LLMRegistry.ts, LlmProviderFactory.ts. The vectors of the mock provider are computed on
  32-bit words and on products rounded to 53 bits, as doubles are. LlmFacts: which tool calls and
  texts survive streaming, and how errors of the vendor are mapped.

  \<^bold>\<open>Chat adapters\<close> (adapters-telegram, -whatsapp, -email, -discord, -mcp). ChatAdapters: what they share, their commands
  and the metrics of a call split at the await of its handler, with the locales \<open>chat_dispatcher\<close>,
  \<open>counting_dispatcher\<close> and \<open>gated_dispatcher\<close>; TelegramAdapter, WhatsAppAdapter, EmailAdapter,
  DiscordAdapter and McpAdapter: types.ts, formats.ts, permissions.ts, the commands or tools and the adapter of each, and its
  interpretations of the locales. ChatFacts: exact metrics, permissions and secrets of all five and of the command line.

  \<^bold>\<open>Command line\<close> (adapters-cli/src). CliAdapter: ArgvParser.ts, CommandRegistry.ts, Permissions.ts, Renderer.ts,
  the commands and CliAdapter.ts with its interactive and piped mode; its exit codes are those of a reference
  function, and the prompt of the interactive mode spoils what is typed.

  \<^bold>\<open>Termination, fuel and bounds.\<close> Searches in graphs end because visited nodes are never expanded again, and
  are total functions. The execution loop takes fuel, since other code may pause it forever;
  ExecProgress gives the fuel that is enough when nobody does, and shows that some is when each pause ends. The drain of the kernel is a
  recursion on the modules that remain. The parser of JSON takes two units of fuel for each character, which Json proves
  enough for every text that was printed. The splitting of texts into chunks is a partial function,
  for it need not end. Integers of the source are doubles that never leave the
  exact range in the modelled code, but for the hash of the mock provider, whose rounding
  and 32-bit wrap-around LlmProviders writes out.

  \<^bold>\<open>Not modelled.\<close> Network clients (the vendor's client of llm is an argument of the model; the servers and clients of the adapters),
  the web application and the dashboard: input, output and rendering. The prompts of the planner: texts that the code builds and discards.
  Benchmarks, tests and build scripts.
\<close>

subsection \<open>The execution engine over the planning engine\<close>

text \<open>
  The wiring that the documentation of the execution engine shows: its planner is the method
  \<open>plan\<close> of a planning engine; \<open>clocks n\<close> and \<open>plan_ids n\<close> are what its n-th call reads.
\<close>

definition planning_engine_fn ::
  "(nat \<Rightarrow> nat \<Rightarrow> instant) \<Rightarrow> (nat \<Rightarrow> string) \<Rightarrow> planning_function" where
  "planning_engine_fn clocks plan_ids n req = Inr (fst (plan strategies (clocks n) (plan_ids n) req))"

lemma system_tools_not_plannable:
  assumes "validateRequest strategies (planning_request_of goal tools available rid) = None"
  shows "\<exists>t \<in> set (planned_tools (planning_request_of goal tools available rid)). td_description t = []"
proof -
  let ?req = "planning_request_of goal tools available rid"
  have "tools \<noteq> []" using assms by (auto simp: validateRequest_def planning_request_of_def split: if_splits)
  then obtain i more where tools: "tools = i # more" by (cases tools) auto
  have "planned_tools ?req = take 48 (map system_tool tools)"
    by (simp add: planned_tools_def executed_def findRelevantTools_def system_tool_def comp_def
        planning_request_of_def)
  then have "system_tool i \<in> set (planned_tools ?req)" by (simp add: tools)
  then show ?thesis by (rule rev_bexI) (simp add: system_tool_def)
qed

text \<open>
  C6: an execution engine whose planner is the planning engine executes no goal. It describes
  every tool by the empty string, so each plan has a step without a description, which the
  plan validator refuses: the result is a failure with the code \<open>NO_PLAN\<close>, for every goal
  and every list of tools.
\<close>

theorem planned_goals_never_run:
  assumes "en_planningFn en = Some (planning_engine_fn clocks plan_ids)"
  shows "\<exists>result. engine_execute w en fuel inp = Some (Inr result, []) \<and>
    er_status result = Failed \<and> er_errorCode result = Some ''NO_PLAN''"
proof -
  let ?req = "planning_request_of (in_goal inp) (in_availableTools inp) (in_availablePlugins inp) (in_requestId inp)"
  have "presp_plan (fst (plan strategies (clocks 0) (plan_ids 0) ?req)) = None"
  proof (cases "validateRequest strategies ?req")
    case None
    obtain p where "presp_plan (fst (plan strategies (clocks 0) (plan_ids 0) ?req)) =
        (if \<forall>t \<in> set (planned_tools ?req). td_description t \<noteq> [] then Some p else None)"
      by (rule plan_good_request [OF None])
    with system_tools_not_plannable [OF None] show ?thesis by auto
  next
    case (Some e)
    then show ?thesis by (simp add: plan_def try_plan_def Let_def failed_response_def)
  qed
  then have "get_plan en inp = Inr None"
    using assms by (simp add: get_plan_def planning_engine_fn_def)
  then show ?thesis by (simp add: engine_execute_def Let_def failed_result_def)
qed

theorem planned_goals_never_run_witness:
  "\<exists>result. engine_execute (sample_world []) (sample_engine (Some (planning_engine_fn (\<lambda>n. int) (\<lambda>n. ''p''))))
     9 sample_input = Some (Inr result, []) \<and> er_errorCode result = Some ''NO_PLAN''"
proof -
  have "en_planningFn (sample_engine (Some (planning_engine_fn (\<lambda>n. int) (\<lambda>n. ''p'')))) =
      Some (planning_engine_fn (\<lambda>n. int) (\<lambda>n. ''p''))"
    by (simp add: sample_engine_def new_engine_def Let_def)
  from planned_goals_never_run [OF this] show ?thesis by blast
qed

end
